(* ===== verification/Prelude.thy ===== *)
theory Prelude
  imports Main "HOL-Library.AList" "HOL-Library.Char_ord" "HOL-Library.List_Lexorder"
    "HOL-Library.Multiset"
begin

section \<open>Prelude: the types, Python helpers and generic lemmas the components share\<close>

text \<open>
  Python's built-in data as the components use them:
  \<^item> \<open>str\<close> is \<open>string\<close> (a list of characters below U+0100) where the code only handles
    addresses, MACs, protocol tokens and console output, and \<open>ustr\<close> (a list of
    code points) where people type the text (store names in Cyrillic and Latin letters);
  \<^item> \<open>dict\<close> is an association list in insertion order (\<open>AList\<close>), since the code iterates
    its dicts; \<open>d.setdefault(k, []).append(v)\<close> is \<^const>\<open>AList.map_default\<close>;
  \<^item> a row id (a UUID) is its text, \<open>uid\<close>;
  \<^item> an instant is an \<open>int\<close> (seconds, or microseconds where the code compares datetimes);
  \<^item> a Redis call answers or raises one of REDIS_ERRORS: \<open>reply\<close>;
  \<^item> a handler's outputs other than the rows it changes (event-log rows, Prometheus
    counters) are listed in order as \<open>effect\<close>s.
\<close>

named_theorems dict_simps \<open>equations for insertion-ordered dictionaries\<close>
named_theorems str_simps \<open>equations for the string operations\<close>

type_synonym ustr = "nat list"
type_synonym uid = string
type_synonym instant = int

definition cp :: "string \<Rightarrow> ustr" where
  "cp s = map of_char s"

subsection \<open>Replies of an external service\<close>

datatype 'a reply = Failed | Reply 'a

subsection \<open>Event log rows, counters and other outputs\<close>

record 'm event =
  ev_severity :: string
  ev_category :: string
  ev_type :: string
  ev_device_kind :: "string option"
  ev_device_name :: "ustr option"
  ev_ip_address :: "string option"
  ev_message :: 'm

text \<open>One row of MLFeatureSnapshot (\<open>app/services/ml_snapshots.py\<close>): the capture time and the hour and
  weekday derived from it are left out.\<close>

record feature_row =
  fr_device_kind :: string
  fr_device_id :: uid
  fr_device_name :: "ustr option"
  fr_address :: "string option"
  fr_is_online :: "bool option"
  fr_source :: string
  fr_page_count :: "int option"
  fr_toner :: "(string \<times> int \<times> ustr option) option"

datatype 'm effect =
    EventLog "'m event"
  | Metric string "string list"
  | MetricBy string "string list" int
  | DeviceCounts string nat nat
  | Snapshot feature_row
  | Invalidate string
  | Commit

fun events_of :: "'m effect list \<Rightarrow> 'm event list" where
  "events_of [] = []"
| "events_of (EventLog e # es) = e # events_of es"
| "events_of (_ # es) = events_of es"

lemma events_of_append [simp]: "events_of (xs @ ys) = events_of xs @ events_of ys"
  by (induction xs rule: events_of.induct) auto

subsection \<open>Whitespace and case of single characters\<close>

definition is_space :: "char \<Rightarrow> bool" where
  "is_space c = (let n = (of_char c :: nat) in
     n = 32 \<or> (9 \<le> n \<and> n \<le> 13) \<or> (28 \<le> n \<and> n \<le> 31) \<or> n = 133 \<or> n = 160)"

definition is_digit :: "char \<Rightarrow> bool" where
  "is_digit c = (let n = (of_char c :: nat) in 48 \<le> n \<and> n \<le> 57)"

definition digit_val :: "char \<Rightarrow> nat" where
  "digit_val c = (of_char c :: nat) - 48"

definition lower_char :: "char \<Rightarrow> char" where
  "lower_char c = (let n = (of_char c :: nat) in if 65 \<le> n \<and> n \<le> 90 then char_of (n + 32) else c)"

definition upper_char :: "char \<Rightarrow> char" where
  "upper_char c = (let n = (of_char c :: nat) in if 97 \<le> n \<and> n \<le> 122 then char_of (n - 32) else c)"

definition lower :: "string \<Rightarrow> string" where
  "lower s = map lower_char s"

definition upper :: "string \<Rightarrow> string" where
  "upper s = map upper_char s"

lemma lower_char_idem [simp]: "lower_char (lower_char c) = lower_char c"
  by (simp add: lower_char_def Let_def)

lemma lower_idem [simp]: "lower (lower s) = lower s"
  by (simp add: lower_def)

lemma lower_append [simp]: "lower (xs @ ys) = lower xs @ lower ys"
  by (simp add: lower_def)

lemma length_lower [simp]: "length (lower s) = length s"
  by (simp add: lower_def)

lemma lower_Nil [simp]: "lower [] = []"
  by (simp add: lower_def)

lemma lower_eq_Nil [simp]: "lower s = [] \<longleftrightarrow> s = []"
  by (simp add: lower_def)

subsection \<open>strip, split and join\<close>

definition lstrip :: "string \<Rightarrow> string" where
  "lstrip s = dropWhile is_space s"

definition rstrip :: "string \<Rightarrow> string" where
  "rstrip s = rev (dropWhile is_space (rev s))"

definition strip :: "string \<Rightarrow> string" where
  "strip s = rstrip (lstrip s)"

text \<open>\<open>s.split(c)\<close> for a one-character separator: never empty.\<close>

fun split_on :: "char \<Rightarrow> string \<Rightarrow> string list" where
  "split_on c [] = [[]]"
| "split_on c (x # xs) =
     (if x = c then [] # split_on c xs
      else (case split_on c xs of [] \<Rightarrow> [[x]] | w # ws \<Rightarrow> (x # w) # ws))"

text \<open>\<open>s.split()\<close>: the maximal runs of non-white characters.\<close>

fun split_ws_aux :: "string \<Rightarrow> string \<Rightarrow> string list" where
  "split_ws_aux w [] = (if w = [] then [] else [rev w])"
| "split_ws_aux w (x # xs) =
     (if is_space x then (if w = [] then split_ws_aux [] xs else rev w # split_ws_aux [] xs)
      else split_ws_aux (x # w) xs)"

definition split_ws :: "string \<Rightarrow> string list" where
  "split_ws s = split_ws_aux [] s"

fun join :: "string \<Rightarrow> string list \<Rightarrow> string" where
  "join sep [] = []"
| "join sep [w] = w"
| "join sep (w # ws) = w @ sep @ join sep ws"

definition starts_with :: "string \<Rightarrow> string \<Rightarrow> bool" where
  "starts_with p s = (take (length p) s = p)"

text \<open>\<open>needle in haystack\<close> on strings.\<close>

fun contains :: "'a list \<Rightarrow> 'a list \<Rightarrow> bool" where
  "contains n [] = (n = [])"
| "contains n (x # xs) = (take (length n) (x # xs) = n \<or> contains n xs)"

lemma split_on_ne [simp]: "split_on c s \<noteq> []"
  by (cases s) (auto split: list.splits)

lemma dropWhile_is_space_idem [simp]:
  "dropWhile P (dropWhile P xs) = dropWhile P xs"
  by (induction xs) auto

lemma rstrip_Nil [simp]: "rstrip [] = []"
  by (simp add: rstrip_def)

lemma strip_Nil [simp]: "strip [] = []"
  by (simp add: strip_def lstrip_def)

lemma starts_with_self [simp]: "starts_with p (p @ s)"
  by (simp add: starts_with_def)

lemma split_on_no_sep: "c \<notin> set s \<Longrightarrow> split_on c s = [s]"
  by (induction s) auto

lemma join_cons: "ws \<noteq> [] \<Longrightarrow> join sep (w # ws) = w @ sep @ join sep ws"
  by (cases ws) auto

lemma split_on_append_sep:
  "c \<notin> set w \<Longrightarrow> split_on c (w @ c # s) = w # split_on c s"
  by (induction w) (auto split: list.splits)

lemma split_on_join:
  "ws \<noteq> [] \<Longrightarrow> (\<forall>w \<in> set ws. c \<notin> set w) \<Longrightarrow> split_on c (join [c] ws) = ws"
proof (induction ws)
  case Nil
  then show ?case by simp
next
  case (Cons w ws)
  show ?case
  proof (cases "ws = []")
    case True
    with Cons.prems show ?thesis by (simp add: split_on_no_sep)
  next
    case False
    with Cons show ?thesis by (simp add: join_cons split_on_append_sep)
  qed
qed

lemma split_on_no_sep_in: "w \<in> set (split_on c s) \<Longrightarrow> c \<notin> set w"
  by (induction s arbitrary: w rule: split_on.induct) (auto split: list.splits if_splits)

lemma join_split_on: "join [c] (split_on c s) = s"
proof (induction s rule: split_on.induct)
  case (1 c)
  then show ?case by simp
next
  case (2 c x xs)
  obtain w ws where eq: "split_on c xs = w # ws"
    by (cases "split_on c xs") auto
  show ?case
  proof (cases "x = c")
    case True
    with 2 show ?thesis by (simp add: join_cons)
  next
    case False
    with 2 eq have IH: "join [c] (w # ws) = xs" by simp
    have "join [c] ((x # w) # ws) = x # join [c] (w # ws)" by (cases ws) auto
    with IH False eq show ?thesis by simp
  qed
qed

subsection \<open>Decimal integers: str(n) and int(s)\<close>

fun show_nat :: "nat \<Rightarrow> string" where
  "show_nat n =
     (if n < 10 then [char_of (48 + n)] else show_nat (n div 10) @ [char_of (48 + n mod 10)])"

declare show_nat.simps [simp del]

definition show_int :: "int \<Rightarrow> string" where
  "show_int i = (if i < 0 then CHR ''-'' # show_nat (nat (- i)) else show_nat (nat i))"

definition digits_val :: "string \<Rightarrow> nat" where
  "digits_val s = foldl (\<lambda>a c. 10 * a + digit_val c) 0 s"

text \<open>The body of an \<open>int(...)\<close> literal: digits, single underscores between digits allowed.\<close>

fun valid_digits :: "string \<Rightarrow> bool" where
  "valid_digits [] = False"
| "valid_digits [c] = is_digit c"
| "valid_digits (c # d # cs) =
     (is_digit c \<and> (if d = CHR ''_'' then valid_digits cs else valid_digits (d # cs)))"

fun split_sign :: "string \<Rightarrow> int \<times> string" where
  "split_sign [] = (1, [])"
| "split_sign (c # cs) =
     (if c = CHR ''-'' then (- 1, cs) else if c = CHR ''+'' then (1, cs) else (1, c # cs))"

definition py_int :: "string \<Rightarrow> int option" where
  "py_int s = (case split_sign (strip s) of (sg, body) \<Rightarrow>
     if valid_digits body then Some (sg * int (digits_val (filter is_digit body))) else None)"

lemma is_digit_char_of: "(n::nat) < 10 \<Longrightarrow> is_digit (char_of (48 + n))"
  by (simp add: is_digit_def Let_def)

lemma digit_val_char_of: "(n::nat) < 10 \<Longrightarrow> digit_val (char_of (48 + n)) = n"
  by (simp add: digit_val_def)

lemma show_nat_digits: "\<forall>c \<in> set (show_nat n). is_digit c"
proof (induction n rule: show_nat.induct)
  case (1 n)
  then show ?case
    by (subst show_nat.simps) (auto simp: is_digit_char_of)
qed

lemma show_nat_ne [simp]: "show_nat n \<noteq> []"
  by (subst show_nat.simps) simp

lemma digits_val_snoc: "digits_val (s @ [c]) = 10 * digits_val s + digit_val c"
  by (simp add: digits_val_def)

lemma digits_val_show_nat [str_simps]: "digits_val (show_nat n) = n"
proof (induction n rule: show_nat.induct)
  case (1 n)
  show ?case
  proof (cases "n < 10")
    case True
    then show ?thesis
      by (subst show_nat.simps) (simp add: digits_val_def digit_val_char_of)
  next
    case False
    with 1 have "digits_val (show_nat (n div 10)) = n div 10" by simp
    with False show ?thesis
      by (subst show_nat.simps) (simp add: digits_val_snoc digit_val_char_of)
  qed
qed

lemma digit_not_special: "is_digit c \<Longrightarrow> c \<noteq> CHR ''_'' \<and> c \<noteq> CHR ''-'' \<and> c \<noteq> CHR ''+'' \<and> \<not> is_space c"
  by (auto simp: is_digit_def is_space_def Let_def)

lemma valid_digits_all: "s \<noteq> [] \<Longrightarrow> (\<forall>c \<in> set s. is_digit c) \<Longrightarrow> valid_digits s"
  by (induction s rule: valid_digits.induct) (auto dest: digit_not_special)

lemma dropWhile_id: "s = [] \<or> \<not> P (hd s) \<Longrightarrow> dropWhile P s = s"
  by (cases s) auto

lemma strip_id: "(\<forall>c \<in> set s. \<not> is_space c) \<Longrightarrow> strip s = s"
proof -
  assume a: "\<forall>c \<in> set s. \<not> is_space c"
  then have 1: "lstrip s = s"
    unfolding lstrip_def by (intro dropWhile_id) (cases s, auto)
  have "rev s = [] \<or> \<not> is_space (hd (rev s))"
    using a by (metis hd_in_set set_rev)
  then have "rstrip s = s"
    unfolding rstrip_def by (simp add: dropWhile_id)
  with 1 show ?thesis by (simp add: strip_def)
qed

lemma split_sign_digits: "s \<noteq> [] \<Longrightarrow> (\<forall>c \<in> set s. is_digit c) \<Longrightarrow> split_sign s = (1, s)"
  by (cases s) (auto dest: digit_not_special)

lemma minus_not_space: "\<not> is_space (CHR ''-'')"
  by (simp add: is_space_def)

theorem py_int_show_int [simp]: "py_int (show_int i) = Some i"
proof (cases "i < 0")
  case True
  let ?s = "show_nat (nat (- i))"
  have d: "\<forall>c \<in> set ?s. is_digit c" by (rule show_nat_digits)
  have "strip (CHR ''-'' # ?s) = CHR ''-'' # ?s"
    by (rule strip_id) (use d digit_not_special minus_not_space in auto)
  with True d show ?thesis
    by (simp add: py_int_def show_int_def valid_digits_all digits_val_show_nat filter_id_conv)
next
  case False
  let ?s = "show_nat (nat i)"
  have d: "\<forall>c \<in> set ?s. is_digit c" by (rule show_nat_digits)
  have "strip ?s = ?s"
    by (rule strip_id) (use d digit_not_special in auto)
  with False d show ?thesis
    by (simp add: py_int_def show_int_def split_sign_digits valid_digits_all digits_val_show_nat filter_id_conv)
qed

subsection \<open>Grouping in insertion order\<close>

text \<open>\<open>for k, v in pairs: d.setdefault(k, []).append(v)\<close>\<close>

definition group_step :: "('k \<times> 'v list) list \<Rightarrow> 'k \<times> 'v \<Rightarrow> ('k \<times> 'v list) list" where
  "group_step d p = AList.map_default (fst p) [snd p] (\<lambda>vs. vs @ [snd p]) d"

definition group_pairs :: "('k \<times> 'v) list \<Rightarrow> ('k \<times> 'v list) list" where
  "group_pairs ps = foldl group_step [] ps"

definition values_at :: "('k \<times> 'v) list \<Rightarrow> 'k \<Rightarrow> 'v list" where
  "values_at ps k = map snd (filter (\<lambda>p. fst p = k) ps)"

lemma group_pairs_Nil [simp]: "group_pairs [] = []"
  by (simp add: group_pairs_def)

lemma group_pairs_snoc: "group_pairs (ps @ [p]) = group_step (group_pairs ps) p"
  by (simp add: group_pairs_def)

lemma values_at_snoc: "values_at (ps @ [p]) k = values_at ps k @ (if fst p = k then [snd p] else [])"
  by (simp add: values_at_def)

lemma map_of_group_pairs [dict_simps]:
  "map_of (group_pairs ps) k = (if values_at ps k = [] then None else Some (values_at ps k))"
proof (induction ps rule: rev_induct)
  case Nil
  then show ?case by (simp add: values_at_def)
next
  case (snoc p ps)
  then show ?case
    by (auto simp: group_pairs_snoc group_step_def map_of_map_default values_at_snoc)
qed

lemma distinct_group_pairs [simp]: "distinct (map fst (group_pairs ps))"
  by (induction ps rule: rev_induct) (auto simp: group_pairs_snoc group_step_def distinct_map_default)

lemma keys_group_pairs: "fst ` set (group_pairs ps) = fst ` set ps"
  by (induction ps rule: rev_induct) (auto simp: group_pairs_snoc group_step_def dom_map_default)

lemma mem_group_pairs:
  "(k, vs) \<in> set (group_pairs ps) \<longleftrightarrow> vs \<noteq> [] \<and> vs = values_at ps k"
proof -
  have "(k, vs) \<in> set (group_pairs ps) \<longleftrightarrow> map_of (group_pairs ps) k = Some vs"
    by (simp add: map_of_eq_Some_iff)
  then show ?thesis by (auto simp: map_of_group_pairs)
qed

lemma set_values_at: "v \<in> set (values_at ps k) \<longleftrightarrow> (k, v) \<in> set ps"
  by (force simp: values_at_def)

lemma ex_group_pairs:
  "(\<exists>vs. (k, vs) \<in> set (group_pairs ps) \<and> v \<in> set vs) \<longleftrightarrow> (k, v) \<in> set ps"
  by (auto simp: mem_group_pairs set_values_at) (metis empty_iff list.set(1) set_values_at)

lemma in_concat_map_pairs:
  "x \<in> set (concat (map (\<lambda>(k, v). f k v) ps)) \<longleftrightarrow> (\<exists>k v. (k, v) \<in> set ps \<and> x \<in> set (f k v))"
  by (induction ps) auto

subsection \<open>Text people type\<close>

text \<open>
  \<open>str.strip\<close>, \<open>str.split\<close> and \<open>str.lower\<close> on code points. White space is Python's; case mapping covers
  ASCII, Latin-1 and the Cyrillic block, the letters the data is written in.
\<close>

definition u_is_space :: "nat \<Rightarrow> bool" where
  "u_is_space n \<longleftrightarrow> n = 32 \<or> (9 \<le> n \<and> n \<le> 13) \<or> (28 \<le> n \<and> n \<le> 31) \<or> n = 133 \<or> n = 160 \<or> n = 5760
     \<or> (8192 \<le> n \<and> n \<le> 8202) \<or> n = 8232 \<or> n = 8233 \<or> n = 8239 \<or> n = 8287 \<or> n = 12288"

definition u_lower_cp :: "nat \<Rightarrow> nat" where
  "u_lower_cp n = (if (65 \<le> n \<and> n \<le> 90) \<or> (192 \<le> n \<and> n \<le> 222 \<and> n \<noteq> 215) \<or> (1040 \<le> n \<and> n \<le> 1071) then n + 32
     else if 1024 \<le> n \<and> n \<le> 1039 then n + 80 else n)"

definition u_lower :: "ustr \<Rightarrow> ustr" where
  "u_lower s = map u_lower_cp s"

definition u_strip :: "ustr \<Rightarrow> ustr" where
  "u_strip s = rev (dropWhile u_is_space (rev (dropWhile u_is_space s)))"

fun u_split_aux :: "ustr \<Rightarrow> ustr \<Rightarrow> ustr list" where
  "u_split_aux w [] = (if w = [] then [] else [rev w])"
| "u_split_aux w (x # xs) =
     (if u_is_space x then (if w = [] then u_split_aux [] xs else rev w # u_split_aux [] xs)
      else u_split_aux (x # w) xs)"

definition u_split :: "ustr \<Rightarrow> ustr list" where
  "u_split s = u_split_aux [] s"

fun u_join :: "ustr \<Rightarrow> ustr list \<Rightarrow> ustr" where
  "u_join sep [] = []"
| "u_join sep [w] = w"
| "u_join sep (w # ws) = w @ sep @ u_join sep ws"

text \<open>\<open>" ".join(s.split())\<close>\<close>

definition u_squeeze :: "ustr \<Rightarrow> ustr" where
  "u_squeeze s = u_join [32] (u_split s)"

definition u_word :: "ustr \<Rightarrow> bool" where
  "u_word w \<longleftrightarrow> w \<noteq> [] \<and> (\<forall>c \<in> set w. \<not> u_is_space c)"

lemma u_split_aux_words:
  "(\<forall>c \<in> set w. \<not> u_is_space c) \<Longrightarrow> v \<in> set (u_split_aux w s) \<Longrightarrow> u_word v"
proof (induction w s rule: u_split_aux.induct)
  case (2 w x xs)
  show ?case
  proof (cases "u_is_space x")
    case True
    with 2 show ?thesis by (auto simp: u_word_def split: if_splits)
  next
    case False
    with 2 show ?thesis by simp
  qed
qed (auto simp: u_word_def split: if_splits)

lemma u_split_words: "v \<in> set (u_split s) \<Longrightarrow> u_word v"
  by (auto simp: u_split_def intro: u_split_aux_words [of "[]"])

lemma u_split_aux_word:
  "(\<forall>c \<in> set v. \<not> u_is_space c) \<Longrightarrow> u_split_aux w (v @ s) = u_split_aux (rev v @ w) s"
  by (induction v arbitrary: w) auto

lemma u_split_u_join:
  "(\<forall>v \<in> set vs. u_word v) \<Longrightarrow> u_split (u_join [32] vs) = vs"
proof (induction "[32::nat]" vs rule: u_join.induct)
  case (2 w)
  then show ?case using u_split_aux_word [of w "[]" "[]"] by (simp add: u_split_def u_word_def)
next
  case (3 w v vs)
  then have w: "u_word w" "u_split (u_join [32] (v # vs)) = v # vs" by simp_all
  have "u_split (u_join [32] (w # v # vs)) = u_split_aux (rev w) (32 # u_join [32] (v # vs))"
    using u_split_aux_word [of w "[]" "32 # u_join [32] (v # vs)"] w(1) by (simp add: u_split_def u_word_def)
  also have "\<dots> = w # u_split (u_join [32] (v # vs))"
    using w(1) by (simp add: u_is_space_def u_split_def u_word_def)
  finally show ?case using w(2) by simp
qed (simp add: u_split_def)

lemma u_squeeze_idem [simp]: "u_squeeze (u_squeeze s) = u_squeeze s"
  by (simp add: u_squeeze_def u_split_u_join u_split_words)

subsection \<open>Optional texts and lists\<close>

text \<open>Python's truth of an optional text: \<open>None\<close> and the empty string are false.\<close>

definition truthy :: "'a list option \<Rightarrow> 'a list option" where
  "truthy v = (case v of None \<Rightarrow> None | Some s \<Rightarrow> if s = [] then None else Some s)"

definition or_else :: "'a list option \<Rightarrow> 'a list option \<Rightarrow> 'a list option" where
  "or_else a b = (case truthy a of None \<Rightarrow> b | Some s \<Rightarrow> Some s)"

lemma truthy_Some: "truthy v = Some s \<longleftrightarrow> v = Some s \<and> s \<noteq> []"
  by (auto simp: truthy_def split: option.splits)

lemma truthy_or_else: "truthy (or_else a b) = None \<longleftrightarrow> truthy a = None \<and> truthy b = None"
  by (auto simp: or_else_def truthy_def split: option.splits)

subsection \<open>Loops over rows with state and effects\<close>

text \<open>A \<open>for\<close> loop that maps each element and threads a state and the effects, in order.\<close>

fun thread :: "('a \<Rightarrow> 's \<Rightarrow> 'b \<times> 's \<times> 'e list) \<Rightarrow> 'a list \<Rightarrow> 's \<Rightarrow> 'b list \<times> 's \<times> 'e list" where
  "thread f [] s = ([], s, [])"
| "thread f (x # xs) s =
     (let (y, s1, e1) = f x s; (ys, s2, e2) = thread f xs s1 in (y # ys, s2, e1 @ e2))"

text \<open>A \<open>for\<close> loop that only threads a state and the effects.\<close>

fun fold_eff :: "('a \<Rightarrow> 's \<Rightarrow> 's \<times> 'e list) \<Rightarrow> 'a list \<Rightarrow> 's \<Rightarrow> 's \<times> 'e list" where
  "fold_eff f [] s = (s, [])"
| "fold_eff f (x # xs) s = (let (s1, e1) = f x s; (s2, e2) = fold_eff f xs s1 in (s2, e1 @ e2))"

lemma thread_Cons:
  "fst (thread f (x # xs) s) = fst (f x s) # fst (thread f xs (fst (snd (f x s))))"
  "fst (snd (thread f (x # xs) s)) = fst (snd (thread f xs (fst (snd (f x s)))))"
  "snd (snd (thread f (x # xs) s)) = snd (snd (f x s)) @ snd (snd (thread f xs (fst (snd (f x s)))))"
  by (simp_all add: split_beta)

lemma length_thread [simp]: "length (fst (thread f xs s)) = length xs"
proof (induction xs arbitrary: s)
  case (Cons x xs)
  then show ?case by (metis (no_types, lifting) thread_Cons(1) length_Cons)
qed simp

text \<open>A step that touches only the cell of its own key computes, over distinct keys, a map of the initial cells.\<close>

lemma thread_keyed:
  assumes "\<And>x s. x \<in> set xs \<Longrightarrow> fst (step x s) = g x (V s (key x))"
    and "\<And>x s k. x \<in> set xs \<Longrightarrow> k \<noteq> key x \<Longrightarrow> V (fst (snd (step x s))) k = V s k"
    and "distinct (map key xs)"
  shows "fst (thread step xs s) = map (\<lambda>x. g x (V s (key x))) xs \<and>
    (\<forall>k. k \<notin> key ` set xs \<longrightarrow> V (fst (snd (thread step xs s))) k = V s k)"
  using assms
proof (induction xs arbitrary: s)
  case (Cons x xs)
  obtain y s1 e1 where st: "step x s = (y, s1, e1)" by (cases "step x s") auto
  obtain ys s2 e2 where th: "thread step xs s1 = (ys, s2, e2)" by (cases "thread step xs s1") auto
  have "ys = map (\<lambda>x. g x (V s1 (key x))) xs" "\<forall>k. k \<notin> key ` set xs \<longrightarrow> V s2 k = V s1 k"
    using Cons.IH [of s1] Cons.prems th by auto
  moreover have "V s1 k = V s k" if "k \<noteq> key x" for k
    using Cons.prems(2) [of x k s] st that by simp
  moreover have "y = g x (V s (key x))" using Cons.prems(1) [of x s] st by simp
  moreover have "key z \<noteq> key x" if "z \<in> set xs" for z
    using Cons.prems(3) that by (metis distinct.simps(2) imageI image_set list.simps(9))
  ultimately show ?case using st th by auto
qed simp

text \<open>A property of the state that every step keeps holds after the loop.\<close>

lemma thread_invariant:
  assumes "P s" "\<And>x s. x \<in> set xs \<Longrightarrow> P s \<Longrightarrow> P (fst (snd (step x s)))"
  shows "P (fst (snd (thread step xs s)))"
  using assms
proof (induction xs arbitrary: s)
  case (Cons x xs)
  obtain y s1 e1 where st: "step x s = (y, s1, e1)" by (cases "step x s") auto
  have "P s1" using Cons.prems(2) [of x s] Cons.prems(1) st by simp
  then have "P (fst (snd (thread step xs s1)))" using Cons.IH Cons.prems(2) by simp
  then show ?case by (auto simp: st split: prod.splits)
qed simp

text \<open>A relation between each element and its result, whatever the state.\<close>

lemma thread_all2:
  assumes "\<And>x s. x \<in> set xs \<Longrightarrow> R x (fst (step x s))"
  shows "list_all2 R xs (fst (thread step xs s))"
  using assms by (induction xs arbitrary: s) (simp_all add: thread_Cons del: thread.simps(2))

lemma fold_eff_invariant:
  assumes "P s" "\<And>x s. x \<in> set xs \<Longrightarrow> P s \<Longrightarrow> P (fst (f x s))"
  shows "P (fst (fold_eff f xs s))"
  using assms
proof (induction xs arbitrary: s)
  case (Cons x xs)
  obtain s1 e1 where st: "f x s = (s1, e1)" by fastforce
  have "P s1" using Cons.prems(2) [of x s] Cons.prems(1) st by simp
  then have "P (fst (fold_eff f xs s1))" using Cons.IH Cons.prems(2) by simp
  then show ?case by (auto simp: st split: prod.splits)
qed simp

lemma distinct_map_sort_key [simp]: "distinct (map f (sort_key k xs)) \<longleftrightarrow> distinct (map f xs)"
  by (rule mset_eq_imp_distinct_iff) simp

subsection \<open>Tables: lists of rows with a unique key\<close>

definition find_row :: "('a \<Rightarrow> 'k) \<Rightarrow> 'k \<Rightarrow> 'a list \<Rightarrow> 'a option" where
  "find_row rid i tab = find (\<lambda>r. rid r = i) tab"

definition put_row :: "('a \<Rightarrow> 'k) \<Rightarrow> 'a \<Rightarrow> 'a list \<Rightarrow> 'a list" where
  "put_row rid row tab = map (\<lambda>r. if rid r = rid row then row else r) tab"

lemma find_row_Some: "find_row rid i tab = Some r \<Longrightarrow> r \<in> set tab \<and> rid r = i"
  by (auto simp: find_row_def find_Some_iff)

lemma find_row_distinct:
  "distinct (map rid tab) \<Longrightarrow> r \<in> set tab \<Longrightarrow> find_row rid (rid r) tab = Some r"
proof (induction tab)
  case (Cons a tab)
  then show ?case
    by (cases "r = a") (auto simp: find_row_def)
qed simp

lemma find_row_None: "find_row rid i tab = None \<longleftrightarrow> i \<notin> rid ` set tab"
  by (auto simp: find_row_def find_None_iff)

lemma map_rid_put_row [simp]: "map rid (put_row rid row tab) = map rid tab"
  by (auto simp: put_row_def)

lemma put_row_other: "rid r \<noteq> rid row \<Longrightarrow> r \<in> set (put_row rid row tab) \<longleftrightarrow> r \<in> set tab"
  by (auto simp: put_row_def image_iff split: if_splits)

lemma find_put_row:
  "find_row rid i (put_row rid row tab) =
   (if i = rid row \<and> i \<in> rid ` set tab then Some row else find_row rid i tab)"
  by (induction tab) (auto simp: find_row_def put_row_def)

lemma distinct_map_eq: "distinct (map key tab) \<Longrightarrow> r \<in> set tab \<Longrightarrow> r' \<in> set tab \<Longrightarrow> key r = key r' \<Longrightarrow> r = r'"
  unfolding distinct_map by (blast dest: inj_onD)

lemma mem_put_row: "q \<in> set (put_row rid row tab) \<Longrightarrow> q = row \<or> (q \<in> set tab \<and> rid q \<noteq> rid row)"
  by (auto simp: put_row_def split: if_splits)

lemma list_all2_put_row:
  assumes "list_all2 R tab tab'" "distinct (map rid tab')" "row \<in> set tab'" "rid row' = rid row"
    and "\<And>x. R x row \<Longrightarrow> R x row'"
  shows "list_all2 R tab (put_row rid row' tab')"
  using assms(1-4) unfolding put_row_def
proof (induction rule: list_all2_induct)
  case (Cons x xs y ys)
  have other: "map (\<lambda>r. if rid r = rid row' then row' else r) ys = ys" if "rid y = rid row'"
  proof (rule map_idI)
    fix x assume "x \<in> set ys"
    with Cons.prems(1) that have "rid x \<noteq> rid row'" by (metis distinct.simps(2) image_eqI image_set list.simps(9))
    then show "(if rid x = rid row' then row' else x) = x" by simp
  qed
  show ?case
  proof (cases "rid y = rid row'")
    case True
    then have "y = row"
      using Cons.prems(3) distinct_map_eq [OF Cons.prems(1), of y row] Cons.prems(2) by simp
    with True Cons.hyps other assms(5) show ?thesis by simp
  next
    case False
    with Cons show ?thesis by auto
  qed
qed simp

lemma mem_put_row_iff:
  assumes "row \<in> set tab" "rid row' = rid row"
  shows "r \<in> set (put_row rid row' tab) \<longleftrightarrow> r = row' \<or> (r \<in> set tab \<and> rid r \<noteq> rid row)"
proof
  show "r \<in> set (put_row rid row' tab) \<Longrightarrow> r = row' \<or> (r \<in> set tab \<and> rid r \<noteq> rid row)"
    using mem_put_row [of r rid row' tab] assms(2) by auto
  assume "r = row' \<or> (r \<in> set tab \<and> rid r \<noteq> rid row)"
  then show "r \<in> set (put_row rid row' tab)"
  proof
    assume "r = row'"
    then have "r = (if rid row = rid row' then row' else row)" using assms(2) by simp
    then show ?thesis unfolding put_row_def set_map using assms(1) by (rule image_eqI)
  next
    assume "r \<in> set tab \<and> rid r \<noteq> rid row"
    then show ?thesis using assms(2) by (simp add: put_row_other)
  qed
qed

lemma find_row_mem:
  assumes "find_row key k tab = Some r" "distinct (map key tab)" "r' \<in> set tab" "key r' = k"
  shows "r' = r"
  using distinct_map_eq [OF assms(2,3), of r] find_row_Some [OF assms(1)] assms(4) by simp

text \<open>Replacing a row by its id, seen through another unique column that the replacement keeps.\<close>

lemma find_put_row_other_key:
  assumes "distinct (map rid tab)" "distinct (map key tab)" "row \<in> set tab" "rid row' = rid row" "key row' = key row"
  shows "find_row key k (put_row rid row' tab) = (if k = key row then Some row' else find_row key k tab)"
  using assms
proof (induction tab)
  case (Cons a tab)
  show ?case
  proof (cases "a = row")
    case True
    with Cons.prems have "rid r \<noteq> rid row" if "r \<in> set tab" for r
      using that by (metis distinct.simps(2) image_eqI image_set list.simps(9))
    then have "map (\<lambda>r. if rid r = rid row' then row' else r) tab = tab"
      using Cons.prems(4) by (intro map_idI) auto
    with True Cons.prems show ?thesis by (auto simp: find_row_def put_row_def)
  next
    case False
    with Cons.prems have "row \<in> set tab" "rid a \<noteq> rid row" "key a \<noteq> key row"
      by (auto dest: distinct_map_eq [of rid "a # tab"] distinct_map_eq [of key "a # tab"])
    with Cons False show ?thesis by (auto simp: find_row_def put_row_def)
  qed
qed simp

lemma map_key_put_row:
  assumes "distinct (map rid tab)" "row \<in> set tab" "rid row' = rid row" "key row' = key row"
  shows "map key (put_row rid row' tab) = map key tab"
proof -
  have "key (if rid r = rid row' then row' else r) = key r" if "r \<in> set tab" for r
    using assms that distinct_map_eq [OF assms(1) that assms(2)] by auto
  then show ?thesis by (simp add: put_row_def)
qed

text \<open>Storing changed rows one after the other.\<close>

definition put_rows :: "('a \<Rightarrow> 'k) \<Rightarrow> 'a list \<Rightarrow> 'a list \<Rightarrow> 'a list" where
  "put_rows rid rows tab = foldl (\<lambda>t row. put_row rid row t) tab rows"

lemma put_rows_Cons [simp]: "put_rows rid (row # rows) tab = put_rows rid rows (put_row rid row tab)"
  and put_rows_Nil [simp]: "put_rows rid [] tab = tab"
  by (simp_all add: put_rows_def)

lemma map_rid_put_rows [simp]: "map rid (put_rows rid rows tab) = map rid tab"
  by (induction rows arbitrary: tab) simp_all

lemma put_rows_untouched:
  "r \<in> set tab \<Longrightarrow> (\<And>row. row \<in> set rows \<Longrightarrow> rid row = rid r \<Longrightarrow> row = r) \<Longrightarrow> r \<in> set (put_rows rid rows tab)"
proof (induction rows arbitrary: tab)
  case (Cons row rows)
  have "r \<in> set (put_row rid row tab)"
    by (cases "rid row = rid r") (use Cons.prems put_row_other in \<open>auto simp: put_row_def image_iff\<close>)
  with Cons show ?case by simp
qed simp

lemma put_rows_all2:
  assumes "distinct (map rid tab)" "\<And>x. x \<in> set tab \<Longrightarrow> R x x"
    and "\<And>q. q \<in> set rows \<Longrightarrow> \<exists>p \<in> set tab. R p q \<and> rid p = rid q"
  shows "list_all2 R tab (put_rows rid rows tab)"
proof -
  have "list_all2 (\<lambda>x y. R x y \<and> rid x = rid y) tab (put_rows rid rows t)"
    if "list_all2 (\<lambda>x y. R x y \<and> rid x = rid y) tab t" for t
    using that assms(3)
  proof (induction rows arbitrary: t)
    case (Cons q rows)
    obtain p where p: "p \<in> set tab" "R p q" "rid p = rid q" using Cons.prems(2) [of q] by auto
    have "list_all2 (\<lambda>x y. R x y \<and> rid x = rid y) tab (put_row rid q t)"
      unfolding put_row_def list_all2_conv_all_nth
    proof (intro conjI allI impI)
      show len: "length tab = length (map (\<lambda>r. if rid r = rid q then q else r) t)"
        using Cons.prems(1) by (simp add: list_all2_conv_all_nth)
      fix n assume n: "n < length tab"
      then have tn: "R (tab ! n) (t ! n)" "rid (tab ! n) = rid (t ! n)" "n < length t"
        using Cons.prems(1) by (simp_all add: list_all2_conv_all_nth)
      have "tab ! n = p" if "rid (t ! n) = rid q"
        by (rule distinct_map_eq [OF assms(1)]) (use n p tn that in auto)
      with tn p show "R (tab ! n) (map (\<lambda>r. if rid r = rid q then q else r) t ! n)"
        "rid (tab ! n) = rid (map (\<lambda>r. if rid r = rid q then q else r) t ! n)"
        by auto
    qed
    with Cons show ?case by simp
  qed simp
  moreover have "list_all2 (\<lambda>x y. R x y \<and> rid x = rid y) tab tab"
    using assms(2) by (simp add: list_all2_same)
  ultimately show ?thesis by (metis (mono_tags, lifting) list_all2_mono)
qed

end
