(* ===== verification/Redis_Api.thy ===== *)
theory Redis_Api
  imports Prelude
begin

section \<open>The Redis client the code calls\<close>

text \<open>
  Redis is a service: nothing of it is under src/. The operations the code calls are a
  record of functions the definitions take as an argument, over an unspecified server state
  \<open>'r\<close>. Every call returns the new server state and either an answer or \<^const>\<open>Failed\<close>, for
  one of the exceptions in \<open>REDIS_ERRORS\<close> (\<open>app/core/redis.py\<close>).

  What the properties rely on is documented behaviour, stated as named hypotheses:
  \<^item> \<open>redis_hash_ok\<close>: HSET merges fields into the hash, HGETALL/HGET read it back, EXPIRE
    with a positive time keeps the values, other keys are untouched, and no call fails;
  \<^item> \<open>redis_aging_ok\<close>: EXPIRE gives a key that exists so many seconds to live, the hash commands leave
    that time alone, and when it has passed the key is gone;
  \<^item> \<open>redis_lock_ok\<close>: SET with NX stores only when the key is free, GET, DEL and EXPIRE.
  \<open>map_redis\<close> is a concrete server state (a map) used by the witnesses.
\<close>

record 'r redis_ops =
  r_hget :: "'r \<Rightarrow> string \<Rightarrow> string \<Rightarrow> 'r \<times> string option reply"
  r_hgetall :: "'r \<Rightarrow> string \<Rightarrow> 'r \<times> (string \<rightharpoonup> string) reply"
  r_hset :: "'r \<Rightarrow> string \<Rightarrow> (string \<times> string) list \<Rightarrow> 'r \<times> unit reply"
  r_expire :: "'r \<Rightarrow> string \<Rightarrow> int \<Rightarrow> 'r \<times> unit reply"
  r_get :: "'r \<Rightarrow> string \<Rightarrow> 'r \<times> string option reply"
  r_set_nx :: "'r \<Rightarrow> string \<Rightarrow> string \<Rightarrow> int \<Rightarrow> 'r \<times> bool reply"
  r_delete :: "'r \<Rightarrow> string \<Rightarrow> 'r \<times> unit reply"

text \<open>Hashes, as long as the server answers and no key runs out of time.\<close>

definition redis_hash_ok :: "'r redis_ops \<Rightarrow> ('r \<Rightarrow> string \<Rightarrow> string \<rightharpoonup> string) \<Rightarrow> bool" where
  "redis_hash_ok ops view \<longleftrightarrow>
     (\<forall>r k. \<exists>r'. r_hgetall ops r k = (r', Reply (view r k)) \<and> view r' = view r)
   \<and> (\<forall>r k f. \<exists>r'. r_hget ops r k f = (r', Reply (view r k f)) \<and> view r' = view r)
   \<and> (\<forall>r k fs. \<exists>r'. r_hset ops r k fs = (r', Reply ()) \<and>
        view r' = (view r)(k := view r k ++ map_of (rev fs)))
   \<and> (\<forall>r k t. 0 < t \<longrightarrow> (\<exists>r'. r_expire ops r k t = (r', Reply ()) \<and> view r' = view r))"

text \<open>The seconds a hash has left to live (\<open>None\<close>: for ever), and the server \<open>n\<close> seconds later.\<close>

definition aged :: "int \<Rightarrow> (string \<rightharpoonup> string) \<times> int option \<Rightarrow> (string \<rightharpoonup> string) \<times> int option" where
  "aged n h = (case snd h of None \<Rightarrow> h | Some s \<Rightarrow> if n < s then (fst h, Some (s - n)) else (Map.empty, None))"

definition redis_aging_ok ::
    "'r redis_ops \<Rightarrow> ('r \<Rightarrow> string \<Rightarrow> string \<rightharpoonup> string) \<Rightarrow> ('r \<Rightarrow> string \<rightharpoonup> int) \<Rightarrow> (int \<Rightarrow> 'r \<Rightarrow> 'r) \<Rightarrow> bool" where
  "redis_aging_ok ops view left pass \<longleftrightarrow>
     (\<forall>r n k. 0 \<le> n \<longrightarrow> (view (pass n r) k, left (pass n r) k) = aged n (view r k, left r k))
   \<and> (\<forall>r k t. 0 < t \<longrightarrow> view r k \<noteq> Map.empty \<longrightarrow> left (fst (r_expire ops r k t)) = (left r)(k \<mapsto> t))
   \<and> (\<forall>r k fs. left (fst (r_hset ops r k fs)) = left r)
   \<and> (\<forall>r k. left (fst (r_hgetall ops r k)) = left r)"

text \<open>String keys holding a lock's owner.\<close>

definition redis_lock_ok :: "'r redis_ops \<Rightarrow> ('r \<Rightarrow> string \<rightharpoonup> string) \<Rightarrow> bool" where
  "redis_lock_ok ops view \<longleftrightarrow>
     (\<forall>r k. \<exists>r'. r_get ops r k = (r', Reply (view r k)) \<and> view r' = view r)
   \<and> (\<forall>r k v t. 0 < t \<longrightarrow> (\<exists>r'. r_set_nx ops r k v t = (r', Reply (view r k = None)) \<and>
        view r' = (if view r k = None then (view r)(k \<mapsto> v) else view r)))
   \<and> (\<forall>r k. \<exists>r'. r_delete ops r k = (r', Reply ()) \<and> view r' = (view r)(k := None))
   \<and> (\<forall>r k t. 0 < t \<longrightarrow> (\<exists>r'. r_expire ops r k t = (r', Reply ()) \<and> view r' = view r))"

text \<open>Both kinds of keys at once: hash commands leave the string keys alone and the other way round.\<close>

definition redis_ok :: "'r redis_ops \<Rightarrow> ('r \<Rightarrow> string \<Rightarrow> string \<rightharpoonup> string) \<Rightarrow> ('r \<Rightarrow> string \<rightharpoonup> string) \<Rightarrow> bool" where
  "redis_ok ops hv sv \<longleftrightarrow> redis_hash_ok ops hv \<and> redis_lock_ok ops sv
   \<and> (\<forall>r k. sv (fst (r_hgetall ops r k)) = sv r)
   \<and> (\<forall>r k f. sv (fst (r_hget ops r k f)) = sv r)
   \<and> (\<forall>r k fs. sv (fst (r_hset ops r k fs)) = sv r)
   \<and> (\<forall>r k v t. hv (fst (r_set_nx ops r k v t)) = hv r)
   \<and> (\<forall>r k k'. k' \<noteq> k \<longrightarrow> hv (fst (r_delete ops r k)) k' = hv r k')"

text \<open>A concrete instance: one map for hashes, one for string keys.\<close>

type_synonym map_redis = "(string \<Rightarrow> string \<rightharpoonup> string) \<times> (string \<rightharpoonup> string)"

definition map_redis :: "map_redis redis_ops" where
  "map_redis = \<lparr>
     r_hget = (\<lambda>r k f. (r, Reply (fst r k f))),
     r_hgetall = (\<lambda>r k. (r, Reply (fst r k))),
     r_hset = (\<lambda>r k fs. (((fst r)(k := fst r k ++ map_of (rev fs)), snd r), Reply ())),
     r_expire = (\<lambda>r k t. (r, Reply ())),
     r_get = (\<lambda>r k. (r, Reply (snd r k))),
     r_set_nx = (\<lambda>r k v t. (if snd r k = None then (fst r, (snd r)(k \<mapsto> v)) else r, Reply (snd r k = None))),
     r_delete = (\<lambda>r k. ((fst r, (snd r)(k := None)), Reply ())) \<rparr>"

definition empty_redis :: map_redis where
  "empty_redis = ((\<lambda>_ _. None), Map.empty)"

text \<open>The hashes of a server whose keys run out of time: each with the seconds it has left.\<close>

type_synonym aging_redis = "string \<Rightarrow> (string \<rightharpoonup> string) \<times> int option"

definition aging_redis :: "aging_redis redis_ops" where
  "aging_redis = \<lparr>
     r_hget = (\<lambda>r k f. (r, Reply (fst (r k) f))),
     r_hgetall = (\<lambda>r k. (r, Reply (fst (r k)))),
     r_hset = (\<lambda>r k fs. (r(k := (fst (r k) ++ map_of (rev fs), snd (r k))), Reply ())),
     r_expire = (\<lambda>r k t. (r(k := (fst (r k), Some t)), Reply ())),
     r_get = (\<lambda>r k. (r, Failed)), r_set_nx = (\<lambda>r k v t. (r, Failed)), r_delete = (\<lambda>r k. (r, Failed)) \<rparr>"

text \<open>A server that never answers.\<close>

definition down_redis :: "unit redis_ops" where
  "down_redis = \<lparr>
     r_hget = (\<lambda>r k f. (r, Failed)), r_hgetall = (\<lambda>r k. (r, Failed)), r_hset = (\<lambda>r k fs. (r, Failed)),
     r_expire = (\<lambda>r k t. (r, Failed)), r_get = (\<lambda>r k. (r, Failed)),
     r_set_nx = (\<lambda>r k v t. (r, Failed)), r_delete = (\<lambda>r k. (r, Failed)) \<rparr>"

lemma map_redis_hash_ok: "redis_hash_ok map_redis fst"
  by (simp add: redis_hash_ok_def map_redis_def)

lemma aging_redis_ok:
  "redis_hash_ok aging_redis (\<lambda>r k. fst (r k))" "redis_aging_ok aging_redis (\<lambda>r k. fst (r k)) (\<lambda>r k. snd (r k)) (\<lambda>n r k. aged n (r k))"
  by (simp_all add: redis_hash_ok_def redis_aging_ok_def aging_redis_def) (auto simp: fun_eq_iff)

lemma map_redis_lock_ok: "redis_lock_ok map_redis snd"
  by (auto simp: redis_lock_ok_def map_redis_def)

lemma redis_hashD:
  assumes "redis_hash_ok ops view"
  shows "snd (r_hgetall ops r k) = Reply (view r k)"
    and "view (fst (r_hgetall ops r k)) = view r"
    and "snd (r_hget ops r k f) = Reply (view r k f)"
    and "view (fst (r_hget ops r k f)) = view r"
    and "snd (r_hset ops r k fs) = Reply ()"
    and "view (fst (r_hset ops r k fs)) = (view r)(k := view r k ++ map_of (rev fs))"
    and "0 < t \<Longrightarrow> snd (r_expire ops r k t) = Reply ()"
    and "0 < t \<Longrightarrow> view (fst (r_expire ops r k t)) = view r"
  using assms unfolding redis_hash_ok_def by (metis fst_conv snd_conv)+

lemma redis_lockD:
  assumes "redis_lock_ok ops view"
  shows "snd (r_get ops r k) = Reply (view r k)"
    and "view (fst (r_get ops r k)) = view r"
    and "0 < t \<Longrightarrow> snd (r_set_nx ops r k v t) = Reply (view r k = None)"
    and "0 < t \<Longrightarrow> view (fst (r_set_nx ops r k v t)) =
           (if view r k = None then (view r)(k \<mapsto> v) else view r)"
    and "snd (r_delete ops r k) = Reply ()"
    and "view (fst (r_delete ops r k)) = (view r)(k := None)"
    and "0 < t \<Longrightarrow> snd (r_expire ops r k t) = Reply ()"
    and "0 < t \<Longrightarrow> view (fst (r_expire ops r k t)) = view r"
  using assms unfolding redis_lock_ok_def by (metis fst_conv snd_conv)+

lemma redis_okD:
  assumes "redis_ok ops hv sv"
  shows "redis_hash_ok ops hv" and "redis_lock_ok ops sv"
    and "sv (fst (r_hgetall ops r k)) = sv r"
    and "sv (fst (r_hget ops r k f)) = sv r"
    and "sv (fst (r_hset ops r k fs)) = sv r"
    and "hv (fst (r_set_nx ops r k v t)) = hv r"
    and "k' \<noteq> k \<Longrightarrow> hv (fst (r_delete ops r k)) k' = hv r k'"
  using assms by (auto simp: redis_ok_def)

lemma map_redis_ok: "redis_ok map_redis fst snd"
  by (simp add: redis_ok_def map_redis_hash_ok map_redis_lock_ok) (simp add: map_redis_def)

end
