(* ===== verification/Poll_Resilience.thy ===== *)
theory Poll_Resilience
  imports Redis_Api
begin

section \<open>Offline confirmation and the circuit breaker (app/services/poll_resilience.py)\<close>

text \<open>
  \<open>decide_poll_state\<close> is the pure decision: one probe and the stored counters in, the
  effective state, the event and the next counters out. \<open>apply_poll_outcome\<close> reads the
  counters from the entity's Redis hash, decides, and writes them back; \<open>is_circuit_open\<close>
  reads the hash's \<open>circuit_open_until\<close>. A call that raises one of REDIS_ERRORS is the
  \<^const>\<open>Failed\<close> reply of the client.
\<close>

subsection \<open>Settings\<close>

record poll_settings =
  POLL_OFFLINE_CONFIRMATIONS :: int
  POLL_CIRCUIT_FAILURE_THRESHOLD :: int
  POLL_CIRCUIT_OPEN_SECONDS :: int
  POLL_CIRCUIT_MAX_OPEN_SECONDS :: int
  POLL_RESILIENCE_STATE_TTL_SECONDS :: int

definition default_poll_settings :: poll_settings where
  "default_poll_settings = \<lparr>
     POLL_OFFLINE_CONFIRMATIONS = 2,
     POLL_CIRCUIT_FAILURE_THRESHOLD = 4,
     POLL_CIRCUIT_OPEN_SECONDS = 45,
     POLL_CIRCUIT_MAX_OPEN_SECONDS = 3600,
     POLL_RESILIENCE_STATE_TTL_SECONDS = 7200 \<rparr>"

subsection \<open>The decision\<close>

datatype poll_event = Online | Recovered | Offline_pending_confirmation | Offline_confirmed | Circuit_opened

fun poll_event_name :: "poll_event \<Rightarrow> string" where
  "poll_event_name Online = ''online''"
| "poll_event_name Recovered = ''recovered''"
| "poll_event_name Offline_pending_confirmation = ''offline_pending_confirmation''"
| "poll_event_name Offline_confirmed = ''offline_confirmed''"
| "poll_event_name Circuit_opened = ''circuit_opened''"

record poll_decision =
  effective_online :: bool
  pd_event :: poll_event
  pd_failures :: int
  pd_circuit_failures :: int

definition to_int :: "string option \<Rightarrow> int \<Rightarrow> int" where
  "to_int value dflt = (case value of
     None \<Rightarrow> dflt
   | Some s \<Rightarrow> (case py_int s of None \<Rightarrow> dflt | Some n \<Rightarrow> n))"

definition decide_poll_state ::
  "bool \<Rightarrow> bool \<Rightarrow> bool \<Rightarrow> int \<Rightarrow> int \<Rightarrow> int \<Rightarrow> int \<Rightarrow> poll_decision" where
  "decide_poll_state previous_effective_online probed_online probed_error failures circuit_failures
     offline_confirmations circuit_failure_threshold =
   (if probed_online then
      \<lparr> effective_online = True,
        pd_event = (if failures > 0 \<or> circuit_failures > 0 then Recovered else Online),
        pd_failures = 0, pd_circuit_failures = 0 \<rparr>
    else
      let next_failures = failures + 1;
          c = circuit_failures + (if probed_error then 1 else 0);
          next_circuit_failures = (if \<not> probed_error \<and> c > 0 then c - 1 else c)
      in if previous_effective_online \<and> next_failures < max offline_confirmations 1 then
           \<lparr> effective_online = True, pd_event = Offline_pending_confirmation,
             pd_failures = next_failures, pd_circuit_failures = next_circuit_failures \<rparr>
         else
           \<lparr> effective_online = False,
             pd_event = (if next_circuit_failures \<ge> max circuit_failure_threshold 1
                         then Circuit_opened else Offline_confirmed),
             pd_failures = next_failures, pd_circuit_failures = next_circuit_failures \<rparr>)"

definition circuit_open_seconds :: "int \<Rightarrow> int \<Rightarrow> int \<Rightarrow> int \<Rightarrow> int" where
  "circuit_open_seconds circuit_failures threshold base_seconds max_seconds =
   (let overshoot = max (circuit_failures - max threshold 1) 0;
        seconds = base_seconds * 2 ^ nat (min overshoot 20)
    in min seconds (max max_seconds base_seconds))"

subsection \<open>The Redis hash of one entity\<close>

definition resilience_key :: "string \<Rightarrow> uid \<Rightarrow> string" where
  "resilience_key kind entity_id = ''poll:resilience:'' @ kind @ '':'' @ entity_id"

definition is_circuit_open ::
  "'r redis_ops \<Rightarrow> instant \<Rightarrow> string \<Rightarrow> uid \<Rightarrow> 'r \<Rightarrow> bool \<times> 'r \<times> 'm effect list" where
  "is_circuit_open ops now kind entity_id r =
   (case r_hget ops r (resilience_key kind entity_id) ''circuit_open_until'' of
      (r', Failed) \<Rightarrow> (False, r', [])
    | (r', Reply v) \<Rightarrow>
        if to_int v 0 > now
        then (True, r', [Metric ''poll_resilience_events_total'' [kind, ''circuit_skip'']])
        else (False, r', []))"

text \<open>The counters a poll starts from: zero when the hash cannot be read.\<close>

definition stored_counters :: "(string \<rightharpoonup> string) reply \<Rightarrow> int \<times> int" where
  "stored_counters st = (case st of
     Failed \<Rightarrow> (0, 0)
   | Reply m \<Rightarrow> (to_int (m ''failures'') 0, to_int (m ''circuit_failures'') 0))"

definition decide_with :: "poll_settings \<Rightarrow> bool \<Rightarrow> bool \<Rightarrow> bool \<Rightarrow> int \<times> int \<Rightarrow> poll_decision" where
  "decide_with cfg prev probed_online probed_error c =
   decide_poll_state prev probed_online probed_error (fst c) (snd c)
     (POLL_OFFLINE_CONFIRMATIONS cfg) (POLL_CIRCUIT_FAILURE_THRESHOLD cfg)"

definition open_seconds :: "poll_settings \<Rightarrow> poll_decision \<Rightarrow> int" where
  "open_seconds cfg d = circuit_open_seconds (pd_circuit_failures d) (POLL_CIRCUIT_FAILURE_THRESHOLD cfg)
     (max (POLL_CIRCUIT_OPEN_SECONDS cfg) 5) (POLL_CIRCUIT_MAX_OPEN_SECONDS cfg)"

definition outcome_payload ::
  "poll_settings \<Rightarrow> instant \<Rightarrow> bool \<Rightarrow> poll_decision \<Rightarrow> (string \<times> string) list" where
  "outcome_payload cfg now probed_online d =
   [(''failures'', show_int (pd_failures d)),
    (''circuit_failures'', show_int (pd_circuit_failures d)),
    (''effective_online'', if effective_online d then ''1'' else ''0''),
    (''updated_at'', show_int now)] @
   (if pd_event d = Circuit_opened then [(''circuit_open_until'', show_int (now + open_seconds cfg d))]
    else if probed_online then [(''circuit_open_until'', ''0'')] else [])"

definition outcome_ttl :: "poll_settings \<Rightarrow> poll_decision \<Rightarrow> int" where
  "outcome_ttl cfg d =
   (let ttl = max (POLL_RESILIENCE_STATE_TTL_SECONDS cfg) 300
    in if pd_event d = Circuit_opened then max ttl (open_seconds cfg d + 60) else ttl)"

definition apply_poll_outcome ::
  "'r redis_ops \<Rightarrow> poll_settings \<Rightarrow> instant \<Rightarrow> string \<Rightarrow> uid \<Rightarrow> bool \<Rightarrow> bool \<Rightarrow> bool \<Rightarrow> 'r
   \<Rightarrow> bool \<times> 'r \<times> 'm effect list" where
  "apply_poll_outcome ops cfg now kind entity_id previous_effective_online probed_online probed_error r =
   (let key = resilience_key kind entity_id;
        (r1, st) = r_hgetall ops r key;
        d = decide_with cfg previous_effective_online probed_online probed_error (stored_counters st);
        effects = [Metric ''poll_resilience_events_total'' [kind, poll_event_name (pd_event d)]]
    in case st of
         Failed \<Rightarrow> (effective_online d, r1, effects)
       | Reply _ \<Rightarrow>
           (case r_hset ops r1 key (outcome_payload cfg now probed_online d) of
              (r2, Failed) \<Rightarrow> (effective_online d, r2, effects)
            | (r2, Reply _) \<Rightarrow>
                (effective_online d, fst (r_expire ops r2 key (outcome_ttl cfg d)), effects)))"

subsection \<open>Runs: one entity polled again and again\<close>

text \<open>
  The abstract machine keeps the two counters and the effective state itself; the concrete
  run feeds the effective state back through the caller's row and the counters through Redis.
\<close>

type_synonym probe = "instant \<times> bool \<times> bool"

definition decide_step :: "poll_settings \<Rightarrow> bool \<times> int \<times> int \<Rightarrow> probe \<Rightarrow> bool \<times> int \<times> int" where
  "decide_step cfg s p =
   (let d = decide_with cfg (fst s) (fst (snd p)) (snd (snd p)) (snd s)
    in (effective_online d, pd_failures d, pd_circuit_failures d))"

fun decide_run :: "poll_settings \<Rightarrow> bool \<times> int \<times> int \<Rightarrow> probe list \<Rightarrow> (bool \<times> int \<times> int) list" where
  "decide_run cfg s [] = []"
| "decide_run cfg s (p # ps) = decide_step cfg s p # decide_run cfg (decide_step cfg s p) ps"


subsection \<open>Facts about one decision\<close>

lemma decide_success:
  "decide_poll_state prev True err f c conf thr =
   \<lparr> effective_online = True, pd_event = (if f > 0 \<or> c > 0 then Recovered else Online),
     pd_failures = 0, pd_circuit_failures = 0 \<rparr>"
  by (simp add: decide_poll_state_def)

lemma decide_failure_online:
  "effective_online (decide_poll_state prev False err f c conf thr) \<longleftrightarrow> prev \<and> f + 1 < max conf 1"
  by (simp add: decide_poll_state_def Let_def)

lemma decide_failures [simp]:
  "pd_failures (decide_poll_state prev online err f c conf thr) = (if online then 0 else f + 1)"
  by (simp add: decide_poll_state_def Let_def)

lemma decide_circuit_failures:
  "pd_circuit_failures (decide_poll_state prev False err f c conf thr) =
   (if err then c + 1 else if c > 0 then c - 1 else c)"
  by (auto simp: decide_poll_state_def Let_def)

lemma decide_opened_iff:
  "pd_event (decide_poll_state prev online err f c conf thr) = Circuit_opened \<longleftrightarrow>
   \<not> online \<and> \<not> (prev \<and> f + 1 < max conf 1) \<and>
   (if err then c + 1 else if c > 0 then c - 1 else c) \<ge> max thr 1"
  by (auto simp: decide_poll_state_def Let_def)

lemma decide_opened_offline:
  "pd_event (decide_poll_state prev online err f c conf thr) = Circuit_opened \<Longrightarrow>
   \<not> effective_online (decide_poll_state prev online err f c conf thr) \<and> \<not> online"
  by (auto simp: decide_poll_state_def Let_def split: if_splits)

subsection \<open>The open window\<close>

lemma circuit_open_seconds_le: "circuit_open_seconds c thr base mx \<le> max mx base"
  by (simp add: circuit_open_seconds_def Let_def)

lemma circuit_open_seconds_ge:
  assumes "0 < base"
  shows "base \<le> circuit_open_seconds c thr base mx"
proof -
  have "base * 1 \<le> base * 2 ^ n" for n :: nat
    using assms by (intro mult_left_mono) simp_all
  then show ?thesis by (simp add: circuit_open_seconds_def Let_def)
qed

lemma pow2_scale_mono: "0 < (b::int) \<Longrightarrow> m \<le> n \<Longrightarrow> b * 2 ^ m \<le> b * 2 ^ n"
  by (rule mult_left_mono, rule power_increasing) simp_all

lemma circuit_open_seconds_mono:
  assumes "0 < base" "c \<le> c'"
  shows "circuit_open_seconds c thr base mx \<le> circuit_open_seconds c' thr base mx"
proof -
  have "min (max (c - max thr 1) 0) 20 \<le> min (max (c' - max thr 1) 0) 20"
    using assms(2) by linarith
  from pow2_scale_mono [OF assms(1) nat_mono [OF this]] show ?thesis
    unfolding circuit_open_seconds_def Let_def by (rule min.mono) (rule order_refl)
qed

subsection \<open>Runs of the abstract machine\<close>

lemma decide_step_fail:
  assumes "\<not> fst (snd p)"
  shows "fst (decide_step cfg (b, f, c) p) \<longleftrightarrow> b \<and> f + 1 < max (POLL_OFFLINE_CONFIRMATIONS cfg) 1"
    and "fst (snd (decide_step cfg (b, f, c) p)) = f + 1"
  using assms by (simp_all add: decide_step_def decide_with_def Let_def decide_failure_online)

lemma decide_run_offline:
  assumes "\<forall>p \<in> set ps. \<not> fst (snd p)"
  shows "map fst (decide_run cfg (False, f, c) ps) = replicate (length ps) False"
  using assms
proof (induction ps arbitrary: f c)
  case Nil
  then show ?case by simp
next
  case (Cons p ps)
  from Cons.prems have "\<not> fst (decide_step cfg (False, f, c) p)"
    by (simp add: decide_step_fail)
  then obtain f' c' where "decide_step cfg (False, f, c) p = (False, f', c')"
    by (cases "decide_step cfg (False, f, c) p") auto
  with Cons show ?case by simp
qed

lemma decide_run_grace:
  assumes "\<forall>p \<in> set ps. \<not> fst (snd p)"
  shows "map fst (decide_run cfg (True, f, c) ps) =
    (let k = nat (max (POLL_OFFLINE_CONFIRMATIONS cfg) 1 - 1 - f)
     in replicate (min k (length ps)) True @ replicate (length ps - k) False)"
  using assms
proof (induction ps arbitrary: f c)
  case Nil
  then show ?case by simp
next
  case (Cons p ps)
  let ?m = "max (POLL_OFFLINE_CONFIRMATIONS cfg) 1"
  from Cons.prems have p: "\<not> fst (snd p)" by simp
  obtain c' where st: "decide_step cfg (True, f, c) p = (f + 1 < ?m, f + 1, c')"
    using decide_step_fail [OF p, of cfg True f c] by (cases "decide_step cfg (True, f, c) p") auto
  show ?case
  proof (cases "f + 1 < ?m")
    case True
    then have "nat (?m - 1 - f) = Suc (nat (?m - 1 - (f + 1)))" by simp
    with True st Cons show ?thesis by (simp add: Let_def)
  next
    case False
    then have "nat (?m - 1 - f) = 0" by simp
    with False st Cons.prems show ?thesis by (simp add: decide_run_offline)
  qed
qed

text \<open>
  The reachable states of the abstract machine: while the last probe failed and the entity is
  still shown online, the failures counted are fewer than the confirmations required.
\<close>

definition counters_ok :: "poll_settings \<Rightarrow> bool \<times> int \<times> int \<Rightarrow> bool" where
  "counters_ok cfg s \<longleftrightarrow> 0 \<le> fst (snd s) \<and> 0 \<le> snd (snd s) \<and>
     (fst s \<longrightarrow> fst (snd s) < max (POLL_OFFLINE_CONFIRMATIONS cfg) 1)"

lemma decide_step_counters_ok: "counters_ok cfg s \<Longrightarrow> counters_ok cfg (decide_step cfg s p)"
  by (auto simp: counters_ok_def decide_step_def decide_with_def decide_poll_state_def Let_def)

lemma decide_run_counters_ok:
  "counters_ok cfg s \<Longrightarrow> s' \<in> set (decide_run cfg s ps) \<Longrightarrow> counters_ok cfg s'"
proof (induction ps arbitrary: s)
  case (Cons p ps)
  have st: "counters_ok cfg (decide_step cfg s p)"
    by (rule decide_step_counters_ok) (rule Cons.prems(1))
  show ?case
    using Cons.prems(2) st Cons.IH [OF st] by (cases "s' = decide_step cfg s p") simp_all
qed simp

lemmas decide_facts = decide_success decide_failure_online decide_circuit_failures decide_opened_iff

subsection \<open>apply_poll_outcome over a working Redis\<close>

lemma outcome_ttl_pos: "0 < outcome_ttl cfg d"
  by (auto simp: outcome_ttl_def Let_def)

lemma outcome_ttl_covers_window: "pd_event d = Circuit_opened \<Longrightarrow> open_seconds cfg d + 60 \<le> outcome_ttl cfg d"
  by (simp add: outcome_ttl_def Let_def)

lemma to_int_show [simp]: "to_int (Some (show_int n)) 0 = n"
  by (simp add: to_int_def)

lemma apply_poll_outcome_ok:
  assumes ok: "redis_hash_ok ops view"
    and k: "k = resilience_key kind eid"
    and d: "d = decide_with cfg prev online err (stored_counters (Reply (view r k)))"
  shows "\<exists>r'. apply_poll_outcome ops cfg now kind eid prev online err r =
      (effective_online d, r', [Metric ''poll_resilience_events_total'' [kind, poll_event_name (pd_event d)]])
    \<and> view r' = (view r)(k := view r k ++ map_of (rev (outcome_payload cfg now online d)))"
proof -
  obtain r1 where r1: "r_hgetall ops r k = (r1, Reply (view r k))" "view r1 = view r"
    using redis_hashD(1,2) [OF ok, of r k] by (cases "r_hgetall ops r k") auto
  obtain r2 where r2: "r_hset ops r1 k (outcome_payload cfg now online d) = (r2, Reply ())"
    "view r2 = (view r)(k := view r k ++ map_of (rev (outcome_payload cfg now online d)))"
    using redis_hashD(5,6) [OF ok, of r1 k "outcome_payload cfg now online d"] r1(2)
    by (cases "r_hset ops r1 k (outcome_payload cfg now online d)") auto
  have "view (fst (r_expire ops r2 k (outcome_ttl cfg d))) = view r2"
    by (rule redis_hashD(8) [OF ok outcome_ttl_pos])
  with r1 r2 show ?thesis by (simp add: apply_poll_outcome_def Let_def flip: k d)
qed

lemma payload_counters:
  "stored_counters (Reply (m ++ map_of (rev (outcome_payload cfg now online d)))) =
   (pd_failures d, pd_circuit_failures d)"
  by (auto simp: stored_counters_def outcome_payload_def map_add_def)

lemma payload_circuit:
  "to_int ((m ++ map_of (rev (outcome_payload cfg now online d))) ''circuit_open_until'') 0 =
   (if pd_event d = Circuit_opened then now + open_seconds cfg d
    else if online then 0 else to_int (m ''circuit_open_until'') 0)"
proof -
  have "to_int (Some ''0'') 0 = 0" by (simp add: to_int_def py_int_def strip_def lstrip_def rstrip_def
    is_space_def is_digit_def digits_val_def digit_val_def)
  then show ?thesis
    by (auto simp: outcome_payload_def map_add_def)
qed

subsection \<open>The contract the bulk pollers rely on\<close>

text \<open>
  Each bulk poller calls an outcome function once per polled row. All it needs of it:
  a successful probe makes the row online, and a row that was not online does not become
  online through a failed probe.
\<close>

locale poll_outcome_contract =
  fixes outcome :: "string \<Rightarrow> uid \<Rightarrow> bool \<Rightarrow> bool \<Rightarrow> bool \<Rightarrow> 'r \<Rightarrow> bool \<times> 'r \<times> 'm effect list"
  assumes success_online: "fst (outcome kind eid prev True err r)"
    and failure_not_online: "\<not> fst (outcome kind eid False False err r)"
begin

lemma outcome_online_cases:
  "fst (outcome kind eid prev online err r) \<Longrightarrow> online \<or> prev"
  using failure_not_online by (cases online; cases prev) auto

lemma outcome_offline_failed:
  "\<not> fst (outcome kind eid prev online err r) \<Longrightarrow> \<not> online"
  using success_online by (cases online) auto

end

lemma apply_poll_outcome_online:
  "\<exists>f c. fst (apply_poll_outcome ops cfg now kind eid prev online err r) =
    effective_online (decide_with cfg prev online err (f, c))"
proof -
  obtain r1 st where e: "r_hgetall ops r (resilience_key kind eid) = (r1, st)" by fastforce
  obtain f c where fc: "stored_counters st = (f, c)" by fastforce
  have "fst (apply_poll_outcome ops cfg now kind eid prev online err r) =
    effective_online (decide_with cfg prev online err (f, c))"
    using fc by (cases st) (auto simp: apply_poll_outcome_def Let_def e split: reply.splits prod.splits)
  then show ?thesis by blast
qed

interpretation breaker: poll_outcome_contract "apply_poll_outcome ops cfg now"
  for ops :: "'r redis_ops" and cfg :: poll_settings and now :: instant
proof
  fix kind eid prev err and r :: 'r
  show "fst (apply_poll_outcome ops cfg now kind eid prev True err r)"
    using apply_poll_outcome_online [of ops cfg now kind eid prev True err r]
    by (auto simp: decide_with_def decide_success)
  show "\<not> fst (apply_poll_outcome ops cfg now kind eid False False err r)"
    using apply_poll_outcome_online [of ops cfg now kind eid False False err r]
    by (auto simp: decide_with_def decide_failure_online)
qed

subsection \<open>Properties\<close>



subsection \<open>Polls and the life of the hash\<close>

text \<open>The same run on a server where time passes between the polls.\<close>

fun aged_run ::
  "'r redis_ops \<Rightarrow> (int \<Rightarrow> 'r \<Rightarrow> 'r) \<Rightarrow> poll_settings \<Rightarrow> string \<Rightarrow> uid \<Rightarrow> bool \<Rightarrow> instant \<Rightarrow> probe list \<Rightarrow> 'r \<Rightarrow> bool list" where
  "aged_run ops pass cfg kind eid prev before [] r = []"
| "aged_run ops pass cfg kind eid prev before ((now, online, err) # ps) r =
     (let (eff, r', es) = (apply_poll_outcome ops cfg now kind eid prev online err (pass (now - before) r) :: bool \<times> 'r \<times> unit effect list)
      in eff # aged_run ops pass cfg kind eid eff now ps r')"

text \<open>The failed polls in a row, each less than \<open>ttl\<close> seconds after the one before it: a longer pause forgets the ones before.\<close>

fun streaks :: "int \<Rightarrow> instant \<Rightarrow> int \<Rightarrow> probe list \<Rightarrow> int list" where
  "streaks ttl before n [] = []"
| "streaks ttl before n ((now, online, err) # ps) =
     (let n' = (if online then 0 else (if now - before < ttl then n else 0) + 1) in n' # streaks ttl now n' ps)"

text \<open>Online again with a success, offline at a streak of \<open>m\<close>, and otherwise as before.\<close>

fun shown :: "int \<Rightarrow> bool \<Rightarrow> int list \<Rightarrow> bool list" where
  "shown m b [] = []"
| "shown m b (n # ns) = (let b' = (n = 0 \<or> (b \<and> n < m)) in b' # shown m b' ns)"

lemma apply_poll_outcome_left:
  assumes ok: "redis_hash_ok ops view" "redis_aging_ok ops view left pass"
    and k: "k = resilience_key kind eid"
    and d: "d = decide_with cfg prev online err (stored_counters (Reply (view r k)))"
    and a: "apply_poll_outcome ops cfg now kind eid prev online err r = (eff, r', es)"
  shows "eff = effective_online d" "stored_counters (Reply (view r' k)) = (pd_failures d, pd_circuit_failures d)"
    "left r' k = Some (outcome_ttl cfg d)"
proof -
  obtain r1 where r1: "r_hgetall ops r k = (r1, Reply (view r k))" "view r1 = view r"
    using redis_hashD(1,2) [OF ok(1), of r k] by (cases "r_hgetall ops r k") auto
  obtain r2 where r2: "r_hset ops r1 k (outcome_payload cfg now online d) = (r2, Reply ())"
    "view r2 = (view r)(k := view r k ++ map_of (rev (outcome_payload cfg now online d)))"
    using redis_hashD(5,6) [OF ok(1), of r1 k "outcome_payload cfg now online d"] r1(2)
    by (cases "r_hset ops r1 k (outcome_payload cfg now online d)") auto
  have r': "r' = fst (r_expire ops r2 k (outcome_ttl cfg d))" and e: "eff = effective_online d"
    using a r1 r2 by (simp_all add: apply_poll_outcome_def Let_def flip: k d)
  have v: "view r' = view r2" unfolding r' by (rule redis_hashD(8) [OF ok(1) outcome_ttl_pos])
  have "view r2 k ''failures'' \<noteq> None" unfolding r2(2) by (simp add: outcome_payload_def map_add_def)
  then have "view r2 k \<noteq> Map.empty" by auto
  then have "left r' = (left r2)(k \<mapsto> outcome_ttl cfg d)"
    unfolding r' using ok(2) outcome_ttl_pos [of cfg d] unfolding redis_aging_ok_def by blast
  then show "left r' k = Some (outcome_ttl cfg d)" by simp
  show "eff = effective_online d" by (rule e)
  show "stored_counters (Reply (view r' k)) = (pd_failures d, pd_circuit_failures d)"
    by (simp only: v r2(2) fun_upd_same payload_counters)
qed

text \<open>While a row is shown online its streak is what the hash holds, and the hash lives for the configured time.\<close>

definition streak_stored :: "poll_settings \<Rightarrow> bool \<Rightarrow> int \<Rightarrow> (string \<rightharpoonup> string) \<Rightarrow> int option \<Rightarrow> bool" where
  "streak_stored cfg prev n h ttl \<longleftrightarrow> 0 \<le> n
     \<and> (prev \<longrightarrow> fst (stored_counters (Reply h)) = n \<and> (n = 0 \<or> ttl = Some (max (POLL_RESILIENCE_STATE_TTL_SECONDS cfg) 300)))"

lemma aged_counters:
  assumes "streak_stored cfg prev n h l" "prev" "aged g (h, l) = (h', l')"
  shows "fst (stored_counters (Reply h')) = (if g < max (POLL_RESILIENCE_STATE_TTL_SECONDS cfg) 300 then n else 0)"
  using assms by (auto simp: streak_stored_def aged_def stored_counters_def to_int_def split: option.splits if_splits)

lemma streak_step:
  assumes ok: "redis_hash_ok ops view" "redis_aging_ok ops view left pass" and k: "k = resilience_key kind eid"
    and st: "streak_stored cfg prev n (view r k) (left r k)" and t: "before \<le> now"
    and a: "apply_poll_outcome ops cfg now kind eid prev online err (pass (now - before) r) = (eff, r', es)"
    and n': "n' = (if online then 0 else (if now - before < max (POLL_RESILIENCE_STATE_TTL_SECONDS cfg) 300 then n else 0) + 1)"
  shows "eff \<longleftrightarrow> n' = 0 \<or> (prev \<and> n' < max (POLL_OFFLINE_CONFIRMATIONS cfg) 1)"
    and "streak_stored cfg eff n' (view r' k) (left r' k)"
proof -
  define c where "c = stored_counters (Reply (view (pass (now - before) r) k))"
  define d where "d = decide_with cfg prev online err c"
  note o = apply_poll_outcome_left [OF ok k d_def [unfolded c_def] a]
  have ag: "(view (pass (now - before) r) k, left (pass (now - before) r) k) = aged (now - before) (view r k, left r k)"
    using ok(2) t unfolding redis_aging_ok_def by simp
  have f: "prev \<Longrightarrow> n' = (if online then 0 else fst c + 1)"
    using aged_counters [OF st _ ag [symmetric]] unfolding c_def n' by simp
  have pos: "0 \<le> n'" "n' = 0 \<longleftrightarrow> online" using st by (auto simp: n' streak_stored_def)
  show e: "eff \<longleftrightarrow> n' = 0 \<or> (prev \<and> n' < max (POLL_OFFLINE_CONFIRMATIONS cfg) 1)"
    using f pos(2) unfolding o(1) d_def decide_with_def by (cases online) (auto simp: decide_success decide_failure_online)
  have ttl: "left r' k = Some (max (POLL_RESILIENCE_STATE_TTL_SECONDS cfg) 300)" if eff
    using o(3) that o(1) decide_opened_offline unfolding d_def decide_with_def by (auto simp: outcome_ttl_def Let_def)
  have "pd_failures d = n'" if eff
    using f pos(2) that e unfolding d_def decide_with_def by (cases online) auto
  then show "streak_stored cfg eff n' (view r' k) (left r' k)"
    using pos(1) ttl o(2) by (simp add: streak_stored_def)
qed

text \<open>C25: Over any sequence of polls and pauses between them, a row goes offline exactly at max(POLL_OFFLINE_CONFIRMATIONS, 1)
  failed polls in a row, and comes back online exactly at a successful one; failed polls count as being in a row only while
  less than the life of the stored counters (at least 300 seconds) passes from one to the next.\<close>

theorem offline_after_confirmations:
  assumes "redis_hash_ok ops view" "redis_aging_ok ops view left pass"
    and "view r (resilience_key kind eid) = Map.empty" "sorted (before # map fst ps)"
  shows "aged_run ops pass cfg kind eid prev before ps r =
    shown (max (POLL_OFFLINE_CONFIRMATIONS cfg) 1) prev (streaks (max (POLL_RESILIENCE_STATE_TTL_SECONDS cfg) 300) before 0 ps)"
proof -
  let ?k = "resilience_key kind eid"
  have run: "aged_run ops pass cfg kind eid prev before ps r =
      shown (max (POLL_OFFLINE_CONFIRMATIONS cfg) 1) prev (streaks (max (POLL_RESILIENCE_STATE_TTL_SECONDS cfg) 300) before n ps)"
    if "streak_stored cfg prev n (view r ?k) (left r ?k)" "sorted (before # map fst ps)" for n
    using that
  proof (induction ps arbitrary: prev before n r)
    case (Cons p ps)
    obtain now online err where p: "p = (now, online, err)" by (cases p) auto
    obtain eff r' and es :: "unit effect list" where a: "apply_poll_outcome ops cfg now kind eid prev online err (pass (now - before) r) = (eff, r', es)"
      by (metis prod_cases3)
    define n' where "n' = (if online then 0 else (if now - before < max (POLL_RESILIENCE_STATE_TTL_SECONDS cfg) 300 then n else 0) + 1)"
    have "before \<le> now" "sorted (now # map fst ps)" using Cons.prems(2) p by auto
    note s = streak_step [OF assms(1,2) refl Cons.prems(1) this(1) a n'_def]
    from Cons.IH [OF s(2) \<open>sorted (now # map fst ps)\<close>] s(1) show ?case
      by (simp add: p a Let_def n'_def [symmetric])
  qed simp
  have "streak_stored cfg prev 0 (view r ?k) (left r ?k)"
    using assms(3) by (simp add: streak_stored_def stored_counters_def to_int_def)
  then show ?thesis by (rule run) (rule assms(4))
qed

theorem offline_after_confirmations_witness:
  "aged_run aging_redis (\<lambda>n r k. aged n (r k)) (default_poll_settings\<lparr>POLL_OFFLINE_CONFIRMATIONS := 3\<rparr>) ''switch'' ''1'' True 0
      [(0, False, True), (90, False, False), (10000090, False, True), (10000100, False, True), (10000200, False, True), (10000300, True, False)]
      (\<lambda>k. (Map.empty, None))
    = [True, True, True, True, False, True]"
  by (subst offline_after_confirmations [OF aging_redis_ok]) (simp_all add: default_poll_settings_def Let_def)

text \<open>When a poll opens the circuit at time \<open>now\<close>, the entity is skipped at exactly the
  times before \<open>now\<close> plus the open window; the window is at least 5 seconds, never above the
  larger of the two configured limits, and the key's TTL outlives it by a minute.\<close>

theorem circuit_skips_exactly_its_window:
  assumes ok: "redis_hash_ok ops view"
    and d: "d = decide_with cfg prev online err (stored_counters (Reply (view r (resilience_key kind eid))))"
    and op: "pd_event d = Circuit_opened"
    and r': "r' = fst (snd (apply_poll_outcome ops cfg now kind eid prev online err r :: bool \<times> 'r \<times> 'm effect list))"
  shows "(fst (is_circuit_open ops now' kind eid r' :: bool \<times> 'r \<times> 'm effect list) \<longleftrightarrow> now' < now + open_seconds cfg d)
    \<and> 5 \<le> open_seconds cfg d
    \<and> open_seconds cfg d \<le> max (POLL_CIRCUIT_MAX_OPEN_SECONDS cfg) (max (POLL_CIRCUIT_OPEN_SECONDS cfg) 5)
    \<and> open_seconds cfg d + 60 \<le> outcome_ttl cfg d"
proof (intro conjI)
  let ?k = "resilience_key kind eid"
  obtain r2 and es :: "'m effect list"
    where ap: "apply_poll_outcome ops cfg now kind eid prev online err r = (effective_online d, r2, es)"
      and v2: "view r2 = (view r)(?k := view r ?k ++ map_of (rev (outcome_payload cfg now online d)))"
    using apply_poll_outcome_ok [OF ok refl d, of now] by blast
  then have v: "view r' ?k = view r ?k ++ map_of (rev (outcome_payload cfg now online d))"
    by (simp add: r')
  have "to_int (view r' ?k ''circuit_open_until'') 0 = now + open_seconds cfg d"
    using payload_circuit [of "view r ?k" cfg now online d] by (simp add: v op)
  then show "fst (is_circuit_open ops now' kind eid r' :: bool \<times> 'r \<times> 'm effect list) \<longleftrightarrow> now' < now + open_seconds cfg d"
    using redis_hashD(3) [OF ok, of r' ?k "''circuit_open_until''"]
    by (auto simp: is_circuit_open_def split: prod.splits if_splits)
  show "5 \<le> open_seconds cfg d"
    unfolding open_seconds_def by (rule order_trans [OF _ circuit_open_seconds_ge]) simp_all
  show "open_seconds cfg d \<le> max (POLL_CIRCUIT_MAX_OPEN_SECONDS cfg) (max (POLL_CIRCUIT_OPEN_SECONDS cfg) 5)"
    unfolding open_seconds_def by (rule circuit_open_seconds_le)
  show "open_seconds cfg d + 60 \<le> outcome_ttl cfg d"
    by (rule outcome_ttl_covers_window [OF op])
qed

theorem circuit_skips_exactly_its_window_witness:
  "let cfg = default_poll_settings\<lparr>POLL_CIRCUIT_FAILURE_THRESHOLD := 1\<rparr>;
       r' = fst (snd (apply_poll_outcome map_redis cfg 100 ''switch'' ''1'' False False True empty_redis
             :: bool \<times> map_redis \<times> unit effect list))
   in fst (is_circuit_open map_redis 144 ''switch'' ''1'' r' :: bool \<times> map_redis \<times> unit effect list)
    \<and> \<not> fst (is_circuit_open map_redis 145 ''switch'' ''1'' r' :: bool \<times> map_redis \<times> unit effect list)"
proof -
  let ?cfg = "default_poll_settings\<lparr>POLL_CIRCUIT_FAILURE_THRESHOLD := 1\<rparr>"
  let ?d = "decide_with ?cfg False False True (stored_counters (Reply (fst empty_redis (resilience_key ''switch'' ''1''))))"
  have op: "pd_event ?d = Circuit_opened" and sec: "open_seconds ?cfg ?d = 45"
    by (simp_all add: empty_redis_def stored_counters_def to_int_def decide_with_def decide_poll_state_def
        open_seconds_def circuit_open_seconds_def default_poll_settings_def Let_def)
  have w: "fst (is_circuit_open map_redis now' ''switch'' ''1''
      (fst (snd (apply_poll_outcome map_redis ?cfg 100 ''switch'' ''1'' False False True empty_redis
        :: bool \<times> map_redis \<times> unit effect list))) :: bool \<times> map_redis \<times> unit effect list) \<longleftrightarrow> now' < 145" for now'
    using circuit_skips_exactly_its_window [where ops = map_redis and view = fst and d = ?d and cfg = ?cfg
        and prev = False and online = False and err = True and r = empty_redis and kind = "''switch''"
        and eid = "''1''" and now = 100 and now' = now' and 'm = unit, OF map_redis_hash_ok refl op refl]
    by (simp add: sec)
  show ?thesis by (simp add: Let_def w)
qed

text \<open>Without Redis the poll decides from the probe alone: the counters count as zero,
  nothing is written, and the circuit reads as closed.\<close>

theorem redis_outage_fails_open:
  assumes "snd (r_hgetall ops r (resilience_key kind eid)) = Failed"
    and "snd (r_hget ops r (resilience_key kind eid) ''circuit_open_until'') = Failed"
  shows "fst (apply_poll_outcome ops cfg now kind eid prev online err r :: bool \<times> 'r \<times> 'm effect list)
        = (online \<or> prev \<and> 1 < POLL_OFFLINE_CONFIRMATIONS cfg)
    \<and> fst (snd (apply_poll_outcome ops cfg now kind eid prev online err r :: bool \<times> 'r \<times> 'm effect list))
        = fst (r_hgetall ops r (resilience_key kind eid))
    \<and> \<not> fst (is_circuit_open ops now kind eid r :: bool \<times> 'r \<times> 'm effect list)"
  using assms
  by (cases "r_hgetall ops r (resilience_key kind eid)";
      cases "r_hget ops r (resilience_key kind eid) ''circuit_open_until''")
     (auto simp: apply_poll_outcome_def is_circuit_open_def Let_def stored_counters_def decide_with_def
       decide_poll_state_def)

theorem redis_outage_fails_open_witness:
  "fst (apply_poll_outcome down_redis default_poll_settings 5 ''switch'' ''1'' True False True ()
      :: bool \<times> unit \<times> unit effect list)"
  using redis_outage_fails_open [of down_redis "()" "''switch''" "''1''" default_poll_settings 5 True False True,
      where 'm = unit]
  by (simp add: down_redis_def default_poll_settings_def)

text \<open>After a poll that reached the entity, the row is online, the stored counters are
  zero and the circuit is closed at every time from the epoch on.\<close>

theorem success_resets_everything:
  assumes ok: "redis_hash_ok ops view"
    and r': "r' = fst (snd (apply_poll_outcome ops cfg now kind eid prev True err r :: bool \<times> 'r \<times> 'm effect list))"
    and t: "0 \<le> now'"
  shows "fst (apply_poll_outcome ops cfg now kind eid prev True err r :: bool \<times> 'r \<times> 'm effect list)
    \<and> stored_counters (Reply (view r' (resilience_key kind eid))) = (0, 0)
    \<and> \<not> fst (is_circuit_open ops now' kind eid r' :: bool \<times> 'r \<times> 'm effect list)"
proof -
  let ?k = "resilience_key kind eid"
  let ?d = "decide_with cfg prev True err (stored_counters (Reply (view r ?k)))"
  obtain r2 and es :: "'m effect list"
    where ap: "apply_poll_outcome ops cfg now kind eid prev True err r = (effective_online ?d, r2, es)"
      and v2: "view r2 = (view r)(?k := view r ?k ++ map_of (rev (outcome_payload cfg now True ?d)))"
    using apply_poll_outcome_ok [OF ok refl refl, where cfg = cfg and prev = prev and online = True and err = err
      and r = r and kind = kind and eid = eid and now = now] by blast
  then have v: "view r' ?k = view r ?k ++ map_of (rev (outcome_payload cfg now True ?d))"
    by (simp add: r')
  have "to_int (view r' ?k ''circuit_open_until'') 0 = 0"
    using payload_circuit [of "view r ?k" cfg now True ?d] by (simp add: v decide_with_def decide_opened_iff)
  then have "\<not> fst (is_circuit_open ops now' kind eid r' :: bool \<times> 'r \<times> 'm effect list)"
    using redis_hashD(3) [OF ok, of r' ?k "''circuit_open_until''"] t
    by (auto simp: is_circuit_open_def split: prod.splits if_splits)
  moreover have "stored_counters (Reply (view r' ?k)) = (0, 0)"
    by (simp only: v payload_counters) (simp add: decide_with_def decide_success)
  ultimately show ?thesis by (simp add: breaker.success_online)
qed

theorem success_resets_everything_witness:
  "\<not> fst (is_circuit_open map_redis 7 ''switch'' ''1''
      (fst (snd (apply_poll_outcome map_redis default_poll_settings 5 ''switch'' ''1'' False True False empty_redis
        :: bool \<times> map_redis \<times> unit effect list))) :: bool \<times> map_redis \<times> unit effect list)"
  using success_resets_everything [OF map_redis_hash_ok refl, of 7, where 'm = unit] by simp

end
