(* ===== verification/Reachability.thy ===== *)
theory Reachability
  imports Complex_Main Prelude
begin

section \<open>The TCP reachability probe (app/domains/inventory/reachability.py)\<close>

text \<open>
  \<open>probe_host_ports\<close> walks the ports one after the other, each with its retries;
  \<open>probe_host_ports_async\<close> opens every port at once and retries the whole set. The network is
  an argument: \<open>net n port\<close> is what the \<open>n\<close>-th connection attempt of the sync probe (the
  \<open>n\<close>-th round of the async one) sees on \<open>port\<close>, and \<open>order n\<close> the order in which the
  connections of round \<open>n\<close> complete. Name resolution is done before (its result is an
  argument), and both return the result together with the attempts, sleeps and metrics made.
  The property shown is that the two give the same verdict.
\<close>

datatype reason = Dns_unresolved | Port_closed | No_route | No_response | Probe_error

fun reason_name :: "reason \<Rightarrow> string" where
  "reason_name Dns_unresolved = ''dns_unresolved''"
| "reason_name Port_closed = ''port_closed''"
| "reason_name No_route = ''no_route''"
| "reason_name No_response = ''no_response''"
| "reason_name Probe_error = ''probe_error''"

text \<open>What a connection attempt does: accept, raise an OSError, or raise something else.\<close>

datatype errno = EHOSTUNREACH | ENETUNREACH | ENETDOWN | EHOSTDOWN | Other_errno int

datatype os_error = TimeoutError | ConnectionRefusedError | OSError "errno option"

datatype connect = Accepted | Os_error os_error | Raised

definition path_failure_reasons :: "reason list" where
  "path_failure_reasons = [Dns_unresolved, No_route]"

definition no_route_errnos :: "errno list" where
  "no_route_errnos = [EHOSTUNREACH, ENETUNREACH, ENETDOWN, EHOSTDOWN]"

fun classify_os_error :: "os_error \<Rightarrow> reason" where
  "classify_os_error TimeoutError = No_response"
| "classify_os_error ConnectionRefusedError = Port_closed"
| "classify_os_error (OSError (Some e)) = (if e \<in> set no_route_errnos then No_route else No_response)"
| "classify_os_error (OSError None) = No_response"

record reachability_result =
  rr_online :: bool
  rr_reason :: "reason option"
  rr_resolved :: "string option"

definition is_path_failure :: "reachability_result \<Rightarrow> bool" where
  "is_path_failure res = (case rr_reason res of None \<Rightarrow> False | Some w \<Rightarrow> w \<in> set path_failure_reasons)"

definition unresolved :: reachability_result where
  "unresolved = \<lparr>rr_online = False, rr_reason = Some Dns_unresolved, rr_resolved = None\<rparr>"

definition reached :: "string \<Rightarrow> reachability_result" where
  "reached addr = \<lparr>rr_online = True, rr_reason = None, rr_resolved = Some addr\<rparr>"

definition not_reached :: "string \<Rightarrow> reason \<Rightarrow> reachability_result" where
  "not_reached addr w = \<lparr>rr_online = False, rr_reason = Some w, rr_resolved = Some addr\<rparr>"

subsection \<open>One attempt\<close>

text \<open>\<open>_socket_port_probe\<close>: an OSError is classified, anything else escapes (\<open>Inl\<close>).\<close>

fun socket_port_probe :: "connect \<Rightarrow> unit + reason option" where
  "socket_port_probe Accepted = Inr None"
| "socket_port_probe (Os_error e) = Inr (Some (classify_os_error e))"
| "socket_port_probe Raised = Inl ()"

text \<open>\<open>_async_port_probe\<close>: the same, with the escaping exception turned into a reason.\<close>

fun async_port_probe :: "connect \<Rightarrow> reason option" where
  "async_port_probe Accepted = None"
| "async_port_probe (Os_error e) = Some (classify_os_error e)"
| "async_port_probe Raised = Some Probe_error"

record probe_params =
  pp_attempts :: int
  pp_backoff :: rat
  pp_timeout_multiplier :: rat
  pp_timeout :: rat
  pp_scope :: string

definition eff_attempts :: "probe_params \<Rightarrow> nat" where
  "eff_attempts pp = nat (max 1 (pp_attempts pp))"

definition attempt_timeout :: "probe_params \<Rightarrow> nat \<Rightarrow> rat" where
  "attempt_timeout pp i = pp_timeout pp * (max 1 (pp_timeout_multiplier pp)) ^ i"

datatype probe_act = Connect int rat | Observe string string | Sleep rat

definition sleep_after :: "probe_params \<Rightarrow> nat \<Rightarrow> probe_act list" where
  "sleep_after pp i =
     (if i + 1 < eff_attempts pp \<and> max 0 (pp_backoff pp) > 0
      then [Sleep (max 0 (pp_backoff pp) * of_nat (i + 1))] else [])"

subsection \<open>The sync probe\<close>

text \<open>
  The inner loop over \<open>attempt_idx\<close> for one port, from index \<open>i\<close> with \<open>k\<close> attempts left and
  \<open>n\<close> connections made so far: \<open>Inl\<close> is an early return, \<open>Inr\<close> the last reason.
\<close>

fun port_attempts ::
  "(nat \<Rightarrow> int \<Rightarrow> connect) \<Rightarrow> probe_params \<Rightarrow> string \<Rightarrow> int \<Rightarrow> nat \<Rightarrow> nat \<Rightarrow> nat \<Rightarrow> reason
   \<Rightarrow> (reachability_result + reason) \<times> nat \<times> probe_act list" where
  "port_attempts net pp addr port i 0 n lr = (Inr lr, n, [])"
| "port_attempts net pp addr port i (Suc k) n lr =
     (let con = Connect port (attempt_timeout pp i)
      in case socket_port_probe (net n port) of
        Inl _ \<Rightarrow>
          (let (res, n', acts) = port_attempts net pp addr port (Suc i) k (Suc n) Probe_error
           in (res, n', con # Observe (pp_scope pp) (reason_name Probe_error) # sleep_after pp i @ acts))
      | Inr None \<Rightarrow> (Inl (reached addr), Suc n, [con, Observe (pp_scope pp) ''success''])
      | Inr (Some failure) \<Rightarrow>
          if failure = No_route then
            (Inl (not_reached addr No_route), Suc n, [con, Observe (pp_scope pp) (reason_name failure)])
          else
            (let (res, n', acts) = port_attempts net pp addr port (Suc i) k (Suc n) failure
             in (res, n', con # Observe (pp_scope pp) (reason_name failure) # sleep_after pp i @ acts)))"

fun probe_ports ::
  "(nat \<Rightarrow> int \<Rightarrow> connect) \<Rightarrow> probe_params \<Rightarrow> string \<Rightarrow> int list \<Rightarrow> nat \<Rightarrow> reason
   \<Rightarrow> reachability_result \<times> nat \<times> probe_act list" where
  "probe_ports net pp addr [] n lr = (not_reached addr lr, n, [])"
| "probe_ports net pp addr (port # ports) n lr =
     (case port_attempts net pp addr port 0 (eff_attempts pp) n lr of
        (Inl res, n', acts) \<Rightarrow> (res, n', acts)
      | (Inr lr', n', acts) \<Rightarrow>
          (let (res, n'', acts') = probe_ports net pp addr ports n' lr'
           in (res, n'', acts @ acts')))"

definition probe_host_ports ::
  "(nat \<Rightarrow> int \<Rightarrow> connect) \<Rightarrow> probe_params \<Rightarrow> string option \<Rightarrow> int list \<Rightarrow> reachability_result \<times> probe_act list" where
  "probe_host_ports net pp resolved ports =
     (case resolved of
        None \<Rightarrow> (unresolved, [])
      | Some addr \<Rightarrow>
          if addr = [] then (unresolved, [])
          else (let (res, n, acts) = probe_ports net pp addr ports 0 No_response in (res, acts)))"

subsection \<open>The async probe\<close>

text \<open>
  \<open>_probe_ports_concurrently\<close>: the connections of one round as they complete. \<open>None\<close> as soon
  as one accepts, otherwise the reasons collected (up to a dead route).
\<close>

fun probe_ports_concurrently :: "(int \<times> reason option) list \<Rightarrow> (int \<times> reason) list \<Rightarrow> (int \<times> reason) list option" where
  "probe_ports_concurrently [] reasons = Some reasons"
| "probe_ports_concurrently ((port, None) # arrivals) reasons = None"
| "probe_ports_concurrently ((port, Some failure) # arrivals) reasons =
     (let reasons' = AList.update port failure reasons
      in if failure = No_route then Some reasons' else probe_ports_concurrently arrivals reasons')"

text \<open>The rounds, from index \<open>i\<close> with \<open>k\<close> left. An outer \<open>None\<close> is the IndexError of
  \<open>ports[-1]\<close> for an empty tuple of ports, or a KeyError for a missing last port.\<close>

fun probe_rounds ::
  "(nat \<Rightarrow> int \<Rightarrow> connect) \<Rightarrow> (nat \<Rightarrow> int list) \<Rightarrow> probe_params \<Rightarrow> string \<Rightarrow> int list \<Rightarrow> nat \<Rightarrow> nat \<Rightarrow> reason
   \<Rightarrow> (reachability_result \<times> probe_act list) option" where
  "probe_rounds net order pp addr ports i 0 lr = Some (not_reached addr lr, [])"
| "probe_rounds net order pp addr ports i (Suc k) lr =
     (let cons = map (\<lambda>p. Connect p (attempt_timeout pp i)) ports
      in case probe_ports_concurrently (map (\<lambda>p. (p, async_port_probe (net i p))) (order i)) [] of
        None \<Rightarrow> Some (reached addr, cons)
      | Some reasons \<Rightarrow>
          if No_route \<in> snd ` set reasons then Some (not_reached addr No_route, cons)
          else (case (if ports = [] then None else map_of reasons (last ports)) of
              None \<Rightarrow> None
            | Some w \<Rightarrow>
                map_option (\<lambda>(res, acts). (res, cons @ sleep_after pp i @ acts))
                  (probe_rounds net order pp addr ports (Suc i) k w)))"

definition probe_host_ports_async ::
  "(nat \<Rightarrow> int \<Rightarrow> connect) \<Rightarrow> (nat \<Rightarrow> int list) \<Rightarrow> probe_params \<Rightarrow> string option \<Rightarrow> int list
   \<Rightarrow> (reachability_result \<times> probe_act list) option" where
  "probe_host_ports_async net order pp resolved ports =
     (case resolved of
        None \<Rightarrow> Some (unresolved, [])
      | Some addr \<Rightarrow>
          if addr = [] then Some (unresolved, [])
          else probe_rounds net order pp addr ports 0 (eff_attempts pp) No_response)"

text \<open>\<open>probe_tcp_endpoint\<close> and its async front: one port of a device known by its address.\<close>

definition probe_tcp_endpoint_async ::
  "(nat \<Rightarrow> int \<Rightarrow> connect) \<Rightarrow> probe_params \<Rightarrow> string option \<Rightarrow> int \<Rightarrow> (reachability_result \<times> probe_act list) option" where
  "probe_tcp_endpoint_async net pp resolved port =
     probe_host_ports_async net (\<lambda>_. [port]) pp resolved [port]"

subsection \<open>Facts about the sync probe\<close>

lemma eff_attempts_pos [simp]: "0 < eff_attempts pp"
  by (simp add: eff_attempts_def)

lemma socket_async_probe:
  "async_port_probe c = (case socket_port_probe c of Inl _ \<Rightarrow> Some Probe_error | Inr v \<Rightarrow> v)"
  by (cases c) auto

text \<open>A port whose every attempt fails without a dead route, one that accepts, one without route.\<close>

lemma port_attempts_fail:
  assumes "\<And>n. async_port_probe (net n port) = Some w" "w \<noteq> No_route"
  shows "fst (port_attempts net pp addr port i k n lr) = Inr (if k = 0 then lr else w)"
proof (induction k arbitrary: i n lr)
  case 0
  then show ?case by simp
next
  case (Suc k)
  have "async_port_probe (net n port) = Some w" by (rule assms(1))
  then consider "socket_port_probe (net n port) = Inl ()" "w = Probe_error"
    | "socket_port_probe (net n port) = Inr (Some w)"
    by (cases "net n port") auto
  then show ?case
    using Suc [of "Suc i" "Suc n" w] Suc [of "Suc i" "Suc n" Probe_error] assms(2)
    by cases (auto simp: Let_def split: prod.splits)
qed

lemma port_attempts_accept:
  assumes "\<And>n. async_port_probe (net n port) = None"
  shows "fst (port_attempts net pp addr port i (Suc k) n lr) = Inl (reached addr)"
proof -
  from assms [of n] have "socket_port_probe (net n port) = Inr None"
    by (cases "net n port") auto
  then show ?thesis by (simp add: Let_def)
qed

lemma port_attempts_no_route:
  assumes "\<And>n. async_port_probe (net n port) = Some No_route"
  shows "fst (port_attempts net pp addr port i (Suc k) n lr) = Inl (not_reached addr No_route)"
proof -
  from assms [of n] have "socket_port_probe (net n port) = Inr (Some No_route)"
    by (cases "net n port") auto
  then show ?thesis by (simp add: Let_def)
qed

lemma probe_ports_fst_cases:
  "fst (probe_ports net pp addr (port # ports) n lr) =
   (case fst (port_attempts net pp addr port 0 (eff_attempts pp) n lr) of
      Inl res \<Rightarrow> res
    | Inr lr' \<Rightarrow> fst (probe_ports net pp addr ports
         (fst (snd (port_attempts net pp addr port 0 (eff_attempts pp) n lr))) lr'))"
  by (cases "port_attempts net pp addr port 0 (eff_attempts pp) n lr")
     (auto split: sum.splits prod.splits)

text \<open>The verdict over a network that gives each port the same answer every time.\<close>

fun stable_verdict :: "(int \<Rightarrow> reason option) \<Rightarrow> string \<Rightarrow> int list \<Rightarrow> reason \<Rightarrow> reachability_result" where
  "stable_verdict v addr [] lr = not_reached addr lr"
| "stable_verdict v addr (port # ports) lr =
     (case v port of
        None \<Rightarrow> reached addr
      | Some w \<Rightarrow> if w = No_route then not_reached addr No_route else stable_verdict v addr ports w)"

lemma probe_ports_stable:
  assumes "\<And>n p. async_port_probe (net n p) = v p"
  shows "fst (probe_ports net pp addr ports n lr) = stable_verdict v addr ports lr"
proof (induction ports arbitrary: n lr)
  case Nil
  then show ?case by simp
next
  case (Cons port ports)
  obtain k where k: "eff_attempts pp = Suc k" using eff_attempts_pos [of pp] by (cases "eff_attempts pp") auto
  show ?case
  proof (cases "v port")
    case None
    with assms have "\<And>n. async_port_probe (net n port) = None" by simp
    from port_attempts_accept [of net port pp addr 0 k n lr, OF this] None show ?thesis
      by (simp only: probe_ports_fst_cases k) simp
  next
    case (Some w)
    with assms have a: "\<And>n. async_port_probe (net n port) = Some w" by simp
    show ?thesis
    proof (cases "w = No_route")
      case True
      with port_attempts_no_route [of net port pp addr 0 k n lr] a Some show ?thesis
        by (simp only: probe_ports_fst_cases k) simp
    next
      case False
      with port_attempts_fail [of net port w pp addr 0 "eff_attempts pp" n lr] a Some Cons show ?thesis
        by (simp only: probe_ports_fst_cases) (simp add: k)
    qed
  qed
qed

subsection \<open>Facts about the async probe\<close>

lemma probe_ports_concurrently_accept:
  assumes "No_route \<notin> {w. Some w \<in> snd ` set arrivals}" "None \<in> snd ` set arrivals"
  shows "probe_ports_concurrently arrivals reasons = None"
  using assms
proof (induction arrivals arbitrary: reasons)
  case (Cons a arrivals)
  then show ?case by (cases a; cases "snd a") auto
qed simp

lemma probe_ports_concurrently_no_route:
  assumes "\<forall>a \<in> set arrivals. snd a = Some No_route" "arrivals \<noteq> []"
  shows "\<exists>rs. probe_ports_concurrently arrivals reasons = Some rs \<and> No_route \<in> snd ` set rs"
proof -
  obtain p rest where "arrivals = (p, Some No_route) # rest"
    using assms by (cases arrivals) auto
  moreover have "No_route \<in> snd ` set (AList.update p No_route reasons)"
    by (induction reasons) auto
  ultimately show ?thesis by simp
qed

lemma probe_ports_concurrently_fail:
  assumes "\<forall>a \<in> set arrivals. \<exists>w. snd a = Some w \<and> w \<noteq> No_route"
  shows "\<exists>rs. probe_ports_concurrently arrivals reasons = Some rs \<and>
     snd ` set rs \<subseteq> snd ` set reasons \<union> {w. Some w \<in> snd ` set arrivals} \<and>
     map_of rs = map_of reasons ++ map_of (rev (map (\<lambda>a. (fst a, the (snd a))) arrivals))"
  using assms
proof (induction arrivals arbitrary: reasons)
  case (Cons a arrivals)
  then obtain p w where a: "a = (p, Some w)" "w \<noteq> No_route" by (cases a) auto
  have sub: "snd ` set (AList.update p w reasons) \<subseteq> insert w (snd ` set reasons)"
    by (induction reasons) auto
  from Cons.IH [of "AList.update p w reasons"] Cons.prems obtain rs where
    rs: "probe_ports_concurrently arrivals (AList.update p w reasons) = Some rs"
      "snd ` set rs \<subseteq> snd ` set (AList.update p w reasons) \<union> {w. Some w \<in> snd ` set arrivals}"
      "map_of rs = map_of (AList.update p w reasons) ++ map_of (rev (map (\<lambda>a. (fst a, the (snd a))) arrivals))"
    by auto
  from rs(2) sub have "snd ` set rs \<subseteq> snd ` set reasons \<union> {w. Some w \<in> snd ` set (a # arrivals)}"
    by (auto simp: a)
  moreover have "map_of rs = map_of reasons ++ map_of (rev (map (\<lambda>a. (fst a, the (snd a))) (a # arrivals)))"
    by (simp add: rs(3) a update_conv' map_add_assoc)
  ultimately show ?case using rs(1) a by auto
qed simp

lemma stable_verdict_no_route:
  "ports \<noteq> [] \<Longrightarrow> \<forall>p \<in> set ports. v p = Some No_route \<Longrightarrow> stable_verdict v addr ports lr = not_reached addr No_route"
  by (cases ports) auto

lemma stable_verdict_reached:
  "\<forall>p \<in> set ports. v p \<noteq> Some No_route \<Longrightarrow> \<exists>p \<in> set ports. v p = None \<Longrightarrow> stable_verdict v addr ports lr = reached addr"
  by (induction ports arbitrary: lr) (auto split: option.splits)

lemma stable_verdict_fail:
  "\<forall>p \<in> set ports. \<exists>w. v p = Some w \<and> w \<noteq> No_route \<Longrightarrow>
   stable_verdict v addr ports lr = not_reached addr (if ports = [] then lr else the (v (last ports)))"
  by (induction ports arbitrary: lr) auto

lemma map_of_arrivals:
  "p \<in> set ps \<Longrightarrow> map_of (rev (map (\<lambda>a. (fst a, the (snd a))) (map (\<lambda>p. (p, f p)) ps))) p = Some (the (f p))"
proof -
  assume "p \<in> set ps"
  have "map_of (map (\<lambda>p. (p, the (f p))) qs) p = (if p \<in> set qs then Some (the (f p)) else None)" for qs
    by (induction qs) auto
  from this [of "rev ps"] \<open>p \<in> set ps\<close> show ?thesis by (simp add: rev_map comp_def)
qed

lemma probe_rounds_fail:
  assumes st: "\<And>n p. async_port_probe (net n p) = v p"
    and ord: "\<And>n. set (order n) = set ports"
    and ne: "ports \<noteq> []"
    and f: "\<forall>p \<in> set ports. \<exists>w. v p = Some w \<and> w \<noteq> No_route"
  shows "\<exists>acts. probe_rounds net order pp addr ports i k lr =
     Some (not_reached addr (if k = 0 then lr else the (v (last ports))), acts)"
proof (induction k arbitrary: i lr)
  case 0
  then show ?case by simp
next
  case (Suc k)
  let ?arr = "map (\<lambda>p. (p, async_port_probe (net i p))) (order i)"
  have "\<forall>a \<in> set ?arr. \<exists>w. snd a = Some w \<and> w \<noteq> No_route"
    using f ord [of i] st by auto
  from probe_ports_concurrently_fail [OF this, of "[]"] obtain rs where
    rs: "probe_ports_concurrently ?arr [] = Some rs" "snd ` set rs \<subseteq> {w. Some w \<in> snd ` set ?arr}"
    and m: "map_of rs = map_of (rev (map (\<lambda>a. (fst a, the (snd a))) ?arr))" by auto
  have nr: "No_route \<notin> snd ` set rs" using rs(2) f ord [of i] st by fastforce
  have "last ports \<in> set (order i)" using ne ord by simp
  from map_of_arrivals [OF this, of v] have lp: "map_of rs (last ports) = Some (the (v (last ports)))"
    by (simp add: m st)
  from Suc [of "Suc i" "the (v (last ports))"] show ?case
    using rs(1) nr lp ne by (auto simp: Let_def)
qed

lemma probe_rounds_stable:
  assumes st: "\<And>n p. async_port_probe (net n p) = v p"
    and ord: "\<And>n. set (order n) = set ports"
    and ne: "ports \<noteq> []"
    and nr: "(\<forall>p \<in> set ports. v p = Some No_route) \<or> (\<forall>p \<in> set ports. v p \<noteq> Some No_route)"
  shows "map_option fst (probe_rounds net order pp addr ports 0 (eff_attempts pp) No_response) =
     Some (stable_verdict v addr ports No_response)"
proof -
  obtain k where k: "eff_attempts pp = Suc k" using eff_attempts_pos [of pp] by (cases "eff_attempts pp") auto
  let ?arr = "map (\<lambda>p. (p, async_port_probe (net 0 p))) (order 0)"
  have one: "order 0 \<noteq> []" using ord [of 0] ne by auto
  consider "\<forall>p \<in> set ports. v p = Some No_route"
    | "\<forall>p \<in> set ports. v p \<noteq> Some No_route" "\<exists>p \<in> set ports. v p = None"
    | "\<forall>p \<in> set ports. \<exists>w. v p = Some w \<and> w \<noteq> No_route"
    using nr by (metis option.exhaust)
  then show ?thesis
  proof cases
    case 1
    then have "\<forall>a \<in> set ?arr. snd a = Some No_route" using ord [of 0] st by auto
    from probe_ports_concurrently_no_route [OF this, of "[]"] one obtain rs where
      "probe_ports_concurrently ?arr [] = Some rs" "No_route \<in> snd ` set rs" by auto
    then show ?thesis using 1 ne by (simp add: k Let_def stable_verdict_no_route)
  next
    case 2
    have "No_route \<notin> {w. Some w \<in> snd ` set ?arr}" "None \<in> snd ` set ?arr"
      using 2 ord [of 0] st by (auto simp: image_iff) metis
    from probe_ports_concurrently_accept [OF this, of "[]"] 2 show ?thesis
      by (simp add: k Let_def stable_verdict_reached)
  next
    case 3
    from probe_rounds_fail [OF st ord ne this, where pp = pp and addr = addr and i = 0 and k = "Suc k" and lr = No_response] 3 ne show ?thesis
      by (auto simp: k stable_verdict_fail simp del: probe_rounds.simps)
  qed
qed

subsection \<open>Bounds on the work\<close>

definition connections :: "probe_act list \<Rightarrow> nat" where
  "connections acts = length (filter (\<lambda>a. case a of Connect _ _ \<Rightarrow> True | _ \<Rightarrow> False) acts)"

lemma connections_simps [simp]:
  "connections [] = 0"
  "connections (Connect p t # acts) = Suc (connections acts)"
  "connections (Observe a b # acts) = connections acts"
  "connections (Sleep t # acts) = connections acts"
  "connections (xs @ ys) = connections xs + connections ys"
  by (simp_all add: connections_def)

lemma connections_sleep [simp]: "connections (sleep_after pp i) = 0"
  by (simp add: sleep_after_def)

lemma port_attempts_connections:
  "connections (snd (snd (port_attempts net pp addr port i k n lr))) \<le> k"
proof (induction k arbitrary: i n lr)
  case (Suc k)
  from Suc [of "Suc i" "Suc n"] show ?case
    by (auto simp: Let_def split: sum.splits option.splits prod.splits) (metis snd_conv)+
qed simp

lemma probe_ports_connections:
  "connections (snd (snd (probe_ports net pp addr ports n lr))) \<le> length ports * eff_attempts pp"
proof (induction ports arbitrary: n lr)
  case (Cons port ports)
  let ?a = "port_attempts net pp addr port 0 (eff_attempts pp) n lr"
  obtain res n' acts where a: "?a = (res, n', acts)" by (cases ?a) auto
  with port_attempts_connections [of net pp addr port 0 "eff_attempts pp" n lr]
  have "connections acts \<le> eff_attempts pp" by simp
  with Cons [of n'] a show ?case
    by (auto split: sum.splits prod.splits) (metis add_mono snd_conv)
qed simp

text \<open>The probe of a cash register: ports 3389 and 445, the default retries.\<close>

definition till_params :: probe_params where
  "till_params = \<lparr>pp_attempts = 2, pp_backoff = 15/100, pp_timeout_multiplier = 125/100,
     pp_timeout = 15/10, pp_scope = ''cash_registers''\<rparr>"

subsection \<open>Properties\<close>

text \<open>The async probe gives the verdict of the sync probe, whatever the order in which
  the connections of a round complete, on a network that answers each port the same way every
  time and on which either every port or none lacks a route.\<close>

theorem async_probe_matches_sync:
  assumes "\<And>n p. async_port_probe (net n p) = v p"
    and "\<And>n. set (order n) = set ports"
    and "ports \<noteq> []"
    and "(\<forall>p \<in> set ports. v p = Some No_route) \<or> (\<forall>p \<in> set ports. v p \<noteq> Some No_route)"
  shows "map_option fst (probe_host_ports_async net order pp resolved ports) =
     Some (fst (probe_host_ports net pp resolved ports))"
proof (cases resolved)
  case None
  then show ?thesis by (simp add: probe_host_ports_def probe_host_ports_async_def)
next
  case (Some addr)
  have "fst (probe_ports net pp addr ports 0 No_response) = stable_verdict v addr ports No_response"
    by (rule probe_ports_stable) (rule assms(1))
  with probe_rounds_stable [OF assms] Some show ?thesis
    by (auto simp: probe_host_ports_def probe_host_ports_async_def split: prod.splits)
qed

theorem async_probe_matches_sync_witness:
  "map_option fst (probe_host_ports_async (\<lambda>n p. if p = 445 then Accepted else Os_error TimeoutError)
      (\<lambda>n. [445, 3389]) till_params (Some ''10.0.0.7'') [3389, 445]) =
   Some (fst (probe_host_ports (\<lambda>n p. if p = 445 then Accepted else Os_error TimeoutError)
      till_params (Some ''10.0.0.7'') [3389, 445]))"
  by (rule async_probe_matches_sync [where v = "\<lambda>p. if p = 445 then None else Some No_response"]) auto

text \<open>The sync probe opens at most one connection per port and attempt, and an unresolved
  name costs none.\<close>

theorem probe_work_bounded:
  "connections (snd (probe_host_ports net pp resolved ports)) \<le> length ports * nat (max 1 (pp_attempts pp))
   \<and> connections (snd (probe_host_ports net pp None ports)) = 0"
proof -
  have "connections (snd (snd (probe_ports net pp addr ports 0 No_response))) \<le> length ports * nat (max 1 (pp_attempts pp))" for addr
    using probe_ports_connections [of net pp addr ports 0 No_response] by (simp add: eff_attempts_def)
  then show ?thesis
    by (auto simp: probe_host_ports_def split: option.splits prod.splits) (metis snd_conv)
qed

end
