(* ===== verification/Mac_Rediscovery.thy ===== *)
theory Mac_Rediscovery
  imports Redis_Api
begin

section \<open>Finding a device that moved, by its MAC
  (app/services/mac_rediscovery.py, switch_mac_lookup.py, device_poll.py)\<close>

text \<open>
  \<open>resolve_devices_by_mac\<close> groups the offline devices by normalised MAC, asks the switches'
  ARP map first and the host's own ARP table (with a bounded ping sweep) for the rest, and
  returns one match per device whose MAC was found. The readings of the ARP tables and the
  answers of the switches are arguments: \<open>arp n\<close> is the \<open>n\<close>-th reading of the host's table.
\<close>

subsection \<open>MAC addresses\<close>

definition is_hex :: "char \<Rightarrow> bool" where
  "is_hex c = (let n = (of_char c :: nat) in
     (48 \<le> n \<and> n \<le> 57) \<or> (97 \<le> n \<and> n \<le> 102) \<or> (65 \<le> n \<and> n \<le> 70))"

fun pairs :: "'a list \<Rightarrow> 'a list list" where
  "pairs [] = []"
| "pairs [x] = [[x]]"
| "pairs (x # y # zs) = [x, y] # pairs zs"

definition normalize_mac :: "string option \<Rightarrow> string option" where
  "normalize_mac value = (case value of
     None \<Rightarrow> None
   | Some s \<Rightarrow>
       let compact = filter is_hex s
       in if length compact = 12 then Some (join '':'' (pairs (lower compact))) else None)"

lemma is_hex_lower [simp]: "is_hex (lower_char c) = is_hex c"
  by (auto simp: is_hex_def lower_char_def Let_def)

lemma not_hex_colon [simp]: "\<not> is_hex (CHR '':'')"
  by (simp add: is_hex_def)

lemma filter_hex_lower: "filter is_hex (lower s) = lower (filter is_hex s)"
  by (induction s) (auto simp: lower_def)

lemma join_eq_Nil: "join sep ws = [] \<longleftrightarrow> (\<forall>w \<in> set ws. w = []) \<and> (sep = [] \<or> length ws \<le> 1)"
  by (induction sep ws rule: join.induct) auto

lemma filter_hex_join_pairs:
  "\<forall>c \<in> set s. is_hex c \<Longrightarrow> filter is_hex (join '':'' (pairs s)) = s"
proof (induction s rule: pairs.induct)
  case (3 x y zs)
  then show ?case by (cases "pairs zs") auto
qed auto

lemma normalize_mac_Some:
  "normalize_mac (Some s) = Some n \<longleftrightarrow>
   length (filter is_hex s) = 12 \<and> n = join '':'' (pairs (lower (filter is_hex s)))"
  by (auto simp: normalize_mac_def Let_def)

lemma filter_hex_normalized:
  "filter is_hex (join '':'' (pairs (lower (filter is_hex s)))) = lower (filter is_hex s)"
  by (rule filter_hex_join_pairs) (auto simp: lower_def)

lemma normalize_mac_None [simp]: "normalize_mac None = None"
  by (simp add: normalize_mac_def)

lemma normalize_mac_idem: "normalize_mac v = Some n \<Longrightarrow> normalize_mac (Some n) = Some n"
  by (cases v) (auto simp: normalize_mac_Some filter_hex_normalized)

subsection \<open>Targets and matches\<close>

record mac_target =
  mt_kind :: string
  mt_entity_id :: uid
  mt_name :: ustr
  mt_current_ip :: "string option"
  mt_mac :: string

record mac_match =
  mm_target :: mac_target
  mm_mac :: string
  mm_new_ip :: string

definition moved :: "mac_match \<Rightarrow> bool" where
  "moved m = (case mt_current_ip (mm_target m) of
     None \<Rightarrow> False | Some ip \<Rightarrow> ip \<noteq> [] \<and> mm_new_ip m \<noteq> ip)"

text \<open>A dict read through \<open>.get\<close> and tested for truth: an empty string counts as absent.\<close>

definition get_truthy :: "(string \<rightharpoonup> string) \<Rightarrow> string \<Rightarrow> string option" where
  "get_truthy m k = (case m k of None \<Rightarrow> None | Some v \<Rightarrow> if v = [] then None else Some v)"

definition target_pairs :: "(string option \<Rightarrow> string option) \<Rightarrow> mac_target list \<Rightarrow> (string \<times> mac_target) list" where
  "target_pairs norm targets =
     concat (map (\<lambda>t. case norm (Some (mt_mac t)) of None \<Rightarrow> [] | Some n \<Rightarrow> [(n, t)]) targets)"

text \<open>The switch stage: MACs the switches know, and the ones still to look for.\<close>

definition switch_stage :: "(string \<rightharpoonup> string) \<Rightarrow> string list \<Rightarrow> (string \<rightharpoonup> string) \<times> string list" where
  "switch_stage switch_map macs =
     ((\<lambda>m. if m \<in> set macs then get_truthy switch_map m else None),
      filter (\<lambda>m. get_truthy switch_map m = None) macs)"

text \<open>The answers of the host's own search, merged under their normalised MAC.\<close>

definition merge_found :: "(string option \<Rightarrow> string option) \<Rightarrow> (string \<rightharpoonup> string) \<Rightarrow> (string \<times> string) list \<Rightarrow> (string \<rightharpoonup> string)" where
  "merge_found norm found answers =
     foldl (\<lambda>m (mac, ip). case norm (Some mac) of
        None \<Rightarrow> m | Some n \<Rightarrow> if ip = [] then m else m(n \<mapsto> ip)) found answers"

definition resolve_with ::
  "(string option \<Rightarrow> string option) \<Rightarrow> mac_target list \<Rightarrow> (string \<rightharpoonup> string) reply option
   \<Rightarrow> (string list \<Rightarrow> (string \<times> string) list) \<Rightarrow> mac_match list" where
  "resolve_with norm targets switch_map find_macs =
   (let mac_to_targets = group_pairs (target_pairs norm targets)
    in if mac_to_targets = [] then []
       else
         let (found0, remaining) = (case switch_map of
               None \<Rightarrow> (Map.empty, map fst mac_to_targets)
             | Some Failed \<Rightarrow> switch_stage Map.empty (map fst mac_to_targets)
             | Some (Reply m) \<Rightarrow> switch_stage m (map fst mac_to_targets));
             found = (if remaining = [] then found0 else merge_found norm found0 (find_macs remaining))
         in concat (map (\<lambda>(mac, grp).
              case get_truthy found mac of
                None \<Rightarrow> []
              | Some ip \<Rightarrow> map (\<lambda>t. \<lparr>mm_target = t, mm_mac = mac, mm_new_ip = ip\<rparr>) grp) mac_to_targets))"

definition resolve_devices_by_mac ::
  "mac_target list \<Rightarrow> (string \<rightharpoonup> string) reply option \<Rightarrow> (string list \<Rightarrow> (string \<times> string) list) \<Rightarrow> mac_match list" where
  "resolve_devices_by_mac = resolve_with normalize_mac"

subsection \<open>The host's ARP table and the ping sweep\<close>

definition zero_mac :: string where
  "zero_mac = ''00:00:00:00:00:00''"

text \<open>Rows of /proc/net/arp after its header, then rows of \<open>ip neigh\<close>; a call that failed gives no rows.\<close>

fun arp_row :: "string \<Rightarrow> (string \<times> string) list" where
  "arp_row line = (case split_ws line of
     ip # a # b # mac # _ \<Rightarrow>
       let m = lower mac in if m \<noteq> zero_mac \<and> length m = 17 then [(m, ip)] else []
   | _ \<Rightarrow> [])"

fun after_lladdr :: "string list \<Rightarrow> string option" where
  "after_lladdr [] = None"
| "after_lladdr (w # ws) =
     (if w = ''lladdr'' then (case ws of [] \<Rightarrow> None | m # _ \<Rightarrow> Some m) else after_lladdr ws)"

fun neigh_row :: "string \<Rightarrow> (string \<times> string) list" where
  "neigh_row line = (case split_ws line of
     [] \<Rightarrow> []
   | ip # ws \<Rightarrow> (case after_lladdr (ip # ws) of
       None \<Rightarrow> []
     | Some mac \<Rightarrow> let m = lower mac in if length m = 17 then [(m, ip)] else []))"

definition arp_table_mac_to_ip :: "string list \<Rightarrow> string list \<Rightarrow> (string \<rightharpoonup> string)" where
  "arp_table_mac_to_ip proc_lines neigh_lines =
     map_of (rev (concat (map arp_row (drop 1 proc_lines)) @ concat (map neigh_row neigh_lines)))"

definition mac_targets :: "string list \<Rightarrow> string list" where
  "mac_targets macs = remdups (map (\<lambda>m. strip (lower m)) (filter (\<lambda>m. m \<noteq> [] \<and> strip m \<noteq> []) macs))"

definition absorb :: "string list \<Rightarrow> (string \<rightharpoonup> string) \<Rightarrow> (string \<rightharpoonup> string) \<Rightarrow> (string \<rightharpoonup> string)" where
  "absorb targets arp_map found =
     (\<lambda>m. if m \<in> set targets \<and> found m = None then get_truthy arp_map m else found m)"

definition all_found :: "string list \<Rightarrow> (string \<rightharpoonup> string) \<Rightarrow> bool" where
  "all_found targets found = list_all (\<lambda>m. found m \<noteq> None) targets"

definition ping_sweep_concurrency :: nat where
  "ping_sweep_concurrency = 128"

function sweep ::
  "(nat \<Rightarrow> string \<rightharpoonup> string) \<Rightarrow> string list \<Rightarrow> nat \<Rightarrow> string list \<Rightarrow> (string \<rightharpoonup> string) \<Rightarrow> (string \<rightharpoonup> string) \<times> string list list" where
  "sweep arp targets n hosts found =
     (if hosts = [] then (found, [])
      else
        let batch = take ping_sweep_concurrency hosts;
            found' = absorb targets (arp n) found
        in if all_found targets found' then (found', [batch])
           else (let (f, bs) = sweep arp targets (Suc n) (drop ping_sweep_concurrency hosts) found'
                 in (f, batch # bs)))"
  by pat_completeness auto
termination
  by (relation "measure (\<lambda>(arp, targets, n, hosts, found). length hosts)")
     (auto simp: ping_sweep_concurrency_def)

declare sweep.simps [simp del]

definition find_devices_by_macs ::
  "(nat \<Rightarrow> string \<rightharpoonup> string) \<Rightarrow> string list \<Rightarrow> string list \<Rightarrow> (string \<rightharpoonup> string) \<times> string list list" where
  "find_devices_by_macs arp hosts macs =
   (let targets = mac_targets macs
    in if targets = [] then (Map.empty, [])
       else
         let found = absorb targets (arp 0) Map.empty
         in if all_found targets found \<or> hosts = [] then (found, [])
            else sweep arp targets 1 hosts found)"

subsection \<open>The switches' map and its Redis cache\<close>

text \<open>
  \<open>build_switch_mac_map\<close>: \<open>cached\<close> is what the cache answered (decoded JSON), \<open>answers\<close> the ARP map of
  each online Cisco switch in query order (an exception while reading one is an empty map). The
  second component is the map written back to the cache, when one is.
\<close>

definition merge_switch_maps :: "(string \<rightharpoonup> string) reply list \<Rightarrow> (string \<rightharpoonup> string)" where
  "merge_switch_maps answers =
     foldl (\<lambda>merged a. case a of Failed \<Rightarrow> merged | Reply m \<Rightarrow> merged ++ m) Map.empty answers"

definition build_switch_mac_map ::
  "(string \<rightharpoonup> string) option reply \<Rightarrow> (string \<rightharpoonup> string) reply list \<Rightarrow> (string \<rightharpoonup> string) \<times> (string \<rightharpoonup> string) option" where
  "build_switch_mac_map cached answers =
   (case cached of
      Reply (Some m) \<Rightarrow> (m, None)
    | _ \<Rightarrow> if answers = [] then (Map.empty, None)
          else (merge_switch_maps answers, Some (merge_switch_maps answers)))"

definition find_ip_by_mac_via_switches ::
  "(string \<rightharpoonup> string) option reply \<Rightarrow> (string \<rightharpoonup> string) reply list \<Rightarrow> string \<Rightarrow> string option" where
  "find_ip_by_mac_via_switches cached answers mac =
   (case normalize_mac (Some mac) of
      None \<Rightarrow> None
    | Some n \<Rightarrow> fst (build_switch_mac_map cached answers) n)"

text \<open>The items of the dict \<open>find_devices_by_macs\<close> returns.\<close>

definition found_items :: "(nat \<Rightarrow> string \<rightharpoonup> string) \<Rightarrow> string list \<Rightarrow> string list \<Rightarrow> (string \<times> string) list" where
  "found_items arp hosts macs =
     concat (map (\<lambda>m. case fst (find_devices_by_macs arp hosts macs) m of None \<Rightarrow> [] | Some ip \<Rightarrow> [(m, ip)])
       (mac_targets macs))"

subsection \<open>The contract of a MAC normaliser, and the matches it gives\<close>

lemma get_truthy_Some: "get_truthy m k = Some v \<longleftrightarrow> m k = Some v \<and> v \<noteq> []"
  by (auto simp: get_truthy_def split: option.splits)

lemma set_target_pairs: "(n, t) \<in> set (target_pairs norm ts) \<longleftrightarrow> t \<in> set ts \<and> norm (Some (mt_mac t)) = Some n"
  by (auto simp: target_pairs_def split: option.splits)

lemma merge_found_Nil [simp]: "merge_found norm f [] = f"
  by (simp add: merge_found_def)

lemma merge_found_Cons:
  "merge_found norm f ((mac, ip) # as) =
   merge_found norm (case norm (Some mac) of None \<Rightarrow> f | Some n \<Rightarrow> if ip = [] then f else f(n \<mapsto> ip)) as"
  by (simp add: merge_found_def)

lemma merge_found_source:
  "merge_found norm f as n = Some ip \<Longrightarrow>
   f n = Some ip \<or> (\<exists>mac. (mac, ip) \<in> set as \<and> norm (Some mac) = Some n)"
proof (induction as arbitrary: f)
  case (Cons a as)
  obtain mac ip' where a: "a = (mac, ip')" by (cases a)
  from Cons.IH [OF Cons.prems [unfolded a merge_found_Cons]] show ?case
    by (auto simp: a split: option.splits if_splits)
qed simp

lemma merge_found_other:
  "(\<And>mac ip. (mac, ip) \<in> set as \<Longrightarrow> norm (Some mac) \<noteq> Some n) \<Longrightarrow> merge_found norm f as n = f n"
proof (induction as arbitrary: f)
  case (Cons a as)
  obtain mac ip' where a: "a = (mac, ip')" by (cases a)
  from Cons.prems [of mac ip'] have "norm (Some mac) \<noteq> Some n" by (simp add: a)
  moreover have "merge_found norm f' as n = f' n" for f'
    using Cons.IH Cons.prems by (metis list.set_intros(2))
  ultimately show ?case by (auto simp: a merge_found_Cons split: option.splits)
qed simp

lemma set_matches_of:
  "m \<in> set (case get_truthy found mac of None \<Rightarrow> []
      | Some ip \<Rightarrow> map (\<lambda>t. \<lparr>mm_target = t, mm_mac = mac, mm_new_ip = ip\<rparr>) grp) \<longleftrightarrow>
   (\<exists>ip t. t \<in> set grp \<and> get_truthy found mac = Some ip \<and> m = \<lparr>mm_target = t, mm_mac = mac, mm_new_ip = ip\<rparr>)"
  by (cases "get_truthy found mac") auto

definition known_and_remaining ::
  "(string \<rightharpoonup> string) reply option \<Rightarrow> string list \<Rightarrow> (string \<rightharpoonup> string) \<times> string list" where
  "known_and_remaining switch_map macs = (case switch_map of
     None \<Rightarrow> (Map.empty, macs)
   | Some Failed \<Rightarrow> switch_stage Map.empty macs
   | Some (Reply m) \<Rightarrow> switch_stage m macs)"

lemma resolve_with_mem:
  defines "macs ts norm \<equiv> map fst (group_pairs (target_pairs norm ts))"
  shows "m \<in> set (resolve_with norm ts sw fm) \<longleftrightarrow>
    (let (found0, rest) = known_and_remaining sw (macs ts norm);
         found = (if rest = [] then found0 else merge_found norm found0 (fm rest))
     in mm_target m \<in> set ts \<and> norm (Some (mt_mac (mm_target m))) = Some (mm_mac m)
        \<and> get_truthy found (mm_mac m) = Some (mm_new_ip m))"
proof (cases "known_and_remaining sw (macs ts norm)")
  case (Pair found0 rest)
  define found where "found = (if rest = [] then found0 else merge_found norm found0 (fm rest))"
  have R: "resolve_with norm ts sw fm =
      concat (map (\<lambda>(mac, grp).
              case get_truthy found mac of
                None \<Rightarrow> []
              | Some ip \<Rightarrow> map (\<lambda>t. \<lparr>mm_target = t, mm_mac = mac, mm_new_ip = ip\<rparr>) grp)
        (group_pairs (target_pairs norm ts)))"
    using Pair by (auto simp: resolve_with_def known_and_remaining_def macs_def found_def Let_def)
  have "m \<in> set (resolve_with norm ts sw fm) \<longleftrightarrow>
    (\<exists>mac ip t. (\<exists>grp. (mac, grp) \<in> set (group_pairs (target_pairs norm ts)) \<and> t \<in> set grp)
       \<and> get_truthy found mac = Some ip \<and> m = \<lparr>mm_target = t, mm_mac = mac, mm_new_ip = ip\<rparr>)"
    unfolding R in_concat_map_pairs set_matches_of by blast
  also have "\<dots> \<longleftrightarrow> (\<exists>mac ip t. (mac, t) \<in> set (target_pairs norm ts) \<and> get_truthy found mac = Some ip
       \<and> m = \<lparr>mm_target = t, mm_mac = mac, mm_new_ip = ip\<rparr>)"
    by (simp only: ex_group_pairs)
  also have "\<dots> \<longleftrightarrow> mm_target m \<in> set ts \<and> norm (Some (mt_mac (mm_target m))) = Some (mm_mac m)
        \<and> get_truthy found (mm_mac m) = Some (mm_new_ip m)"
    by (cases m) (auto simp: set_target_pairs)
  finally show ?thesis by (simp add: Pair found_def)
qed

text \<open>
  The laws a normaliser owes the search: a normal form is its own normal form, and no MAC has none.
\<close>

locale mac_normaliser =
  fixes norm :: "string option \<Rightarrow> string option"
  assumes norm_idem: "norm v = Some n \<Longrightarrow> norm (Some n) = Some n"
    and norm_none: "norm None = None"
begin

lemma known_and_remaining_keys:
  assumes "known_and_remaining sw macs = (known, rest)"
  shows "n \<in> set rest \<longleftrightarrow> n \<in> set macs \<and> get_truthy known n = None"
    and "known n = Some ip \<Longrightarrow> \<exists>m. sw = Some (Reply m) \<and> m n = Some ip \<and> ip \<noteq> [] \<and> n \<in> set macs"
  using assms
  by (auto simp: known_and_remaining_def switch_stage_def get_truthy_def
      split: option.splits reply.splits if_splits)

lemma mac_keys: "n \<in> set (map fst (group_pairs (target_pairs norm ts))) \<longleftrightarrow> (\<exists>t \<in> set ts. norm (Some (mt_mac t)) = Some n)"
proof -
  have "n \<in> set (map fst (group_pairs (target_pairs norm ts))) \<longleftrightarrow> n \<in> fst ` set (target_pairs norm ts)"
    by (simp add: keys_group_pairs)
  also have "\<dots> \<longleftrightarrow> (\<exists>t. (n, t) \<in> set (target_pairs norm ts))" by force
  finally show ?thesis by (auto simp: set_target_pairs)
qed

lemma sound:
  assumes "m \<in> set (resolve_with norm ts sw fm)"
  shows "mm_target m \<in> set ts \<and> norm (Some (mt_mac (mm_target m))) = Some (mm_mac m) \<and> mm_new_ip m \<noteq> []
    \<and> ((\<exists>tab. sw = Some (Reply tab) \<and> tab (mm_mac m) = Some (mm_new_ip m))
       \<or> (\<exists>rest mac. (mac, mm_new_ip m) \<in> set (fm rest) \<and> norm (Some mac) = Some (mm_mac m)))"
proof -
  obtain known rest where kr: "known_and_remaining sw (map fst (group_pairs (target_pairs norm ts))) = (known, rest)"
    by fastforce
  define found where "found = (if rest = [] then known else merge_found norm known (fm rest))"
  from assms kr have m: "mm_target m \<in> set ts" "norm (Some (mt_mac (mm_target m))) = Some (mm_mac m)"
      "found (mm_mac m) = Some (mm_new_ip m)" "mm_new_ip m \<noteq> []"
    by (simp_all add: resolve_with_mem found_def get_truthy_Some)
  have "known (mm_mac m) = Some (mm_new_ip m) \<or>
      (\<exists>mac. (mac, mm_new_ip m) \<in> set (fm rest) \<and> norm (Some mac) = Some (mm_mac m))"
    using m(3) by (auto simp: found_def split: if_splits dest: merge_found_source)
  with m known_and_remaining_keys(2) [OF kr] show ?thesis by blast
qed

text \<open>
  What the switches know is what the result says, provided the host's search only reports MACs it was asked for.
\<close>

lemma switches_win:
  assumes t: "t \<in> set ts" "norm (Some (mt_mac t)) = Some n"
    and sw: "tab n = Some ip" "ip \<noteq> []"
    and asked: "\<And>rest mac ip'. (mac, ip') \<in> set (fm rest) \<Longrightarrow> \<exists>r \<in> set rest. norm (Some mac) = norm (Some r)"
  shows "\<lparr>mm_target = t, mm_mac = n, mm_new_ip = ip'\<rparr> \<in> set (resolve_with norm ts (Some (Reply tab)) fm) \<longleftrightarrow> ip' = ip"
proof -
  define keys where "keys = map fst (group_pairs (target_pairs norm ts))"
  obtain known rest where kr: "known_and_remaining (Some (Reply tab)) keys = (known, rest)"
    by fastforce
  have "n \<in> set keys" unfolding keys_def mac_keys using t by blast
  then have known: "known n = Some ip"
    using kr sw by (auto simp: known_and_remaining_def switch_stage_def get_truthy_def)
  have notrest: "n \<notin> set rest"
    using known_and_remaining_keys(1) [OF kr, of n] known sw by (simp add: get_truthy_def)
  have "norm (Some mac) \<noteq> Some n" if f: "(mac, ip') \<in> set (fm rest)" for mac ip'
  proof
    assume n: "norm (Some mac) = Some n"
    from asked [OF f] obtain r where r: "r \<in> set rest" "norm (Some mac) = norm (Some r)" by blast
    then have "r \<in> set keys" using known_and_remaining_keys(1) [OF kr] by simp
    then obtain t' :: mac_target where "norm (Some (mt_mac t')) = Some r" unfolding keys_def mac_keys by blast
    with norm_idem r n have "r = n" by fastforce
    with r notrest show False by simp
  qed
  then have "merge_found norm known (fm rest) n = Some ip"
    using merge_found_other [of "fm rest" norm n known] known by simp
  with kr known t sw show ?thesis
    by (auto simp: resolve_with_mem get_truthy_Some keys_def split: if_splits)
qed

end

lemma not_hex_space: "is_hex c \<Longrightarrow> \<not> is_space c"
  by (auto simp: is_hex_def is_space_def Let_def)

lemma filter_hex_dropWhile [simp]: "filter is_hex (dropWhile is_space s) = filter is_hex s"
  by (induction s) (auto dest: not_hex_space)

lemma filter_hex_strip [simp]: "filter is_hex (strip s) = filter is_hex s"
  by (simp add: strip_def rstrip_def lstrip_def flip: rev_filter)

lemma normalize_mac_strip_lower: "normalize_mac (Some (strip (lower s))) = normalize_mac (Some s)"
  by (simp add: normalize_mac_def filter_hex_lower)

interpretation mac: mac_normaliser normalize_mac
  by unfold_locales (auto intro: normalize_mac_idem)

subsection \<open>What the readings of the ARP table and the sweep find\<close>

text \<open>The first of the readings \<open>n\<close>, ..., \<open>n + k - 1\<close> that knows \<open>m\<close>.\<close>

fun first_reading :: "(nat \<Rightarrow> string \<rightharpoonup> string) \<Rightarrow> nat \<Rightarrow> nat \<Rightarrow> string \<Rightarrow> string option" where
  "first_reading arp n 0 m = None"
| "first_reading arp n (Suc k) m =
     (case get_truthy (arp n) m of Some ip \<Rightarrow> Some ip | None \<Rightarrow> first_reading arp (Suc n) k m)"

lemma first_reading_Some:
  "first_reading arp n k m = Some ip \<Longrightarrow> \<exists>i. n \<le> i \<and> i < n + k \<and> arp i m = Some ip \<and> ip \<noteq> []"
proof (induction k arbitrary: n)
  case (Suc k)
  show ?case
  proof (cases "get_truthy (arp n) m")
    case None
    with Suc.prems have "first_reading arp (Suc n) k m = Some ip" by simp
    from Suc.IH [OF this] show ?thesis by (metis Suc_leD add_Suc_shift)
  next
    case (Some a)
    with Suc.prems show ?thesis by (intro exI [of _ n]) (auto simp: get_truthy_Some)
  qed
qed simp

lemma sweep_found:
  "sweep arp targets n hosts found = (f, bs) \<Longrightarrow> m \<in> set targets \<Longrightarrow>
   f m = (case found m of Some ip \<Rightarrow> Some ip | None \<Rightarrow> first_reading arp n (length bs) m)"
proof (induction arp targets n hosts found arbitrary: f bs rule: sweep.induct)
  case (1 arp targets n hosts found)
  show ?case
  proof (cases "hosts = [] \<or> all_found targets (absorb targets (arp n) found)")
    case True
    with 1(2,3) show ?thesis
      by (auto simp: sweep.simps [of _ _ _ hosts] absorb_def Let_def split: option.splits if_splits)
  next
    case False
    obtain f' bs' where r: "sweep arp targets (Suc n) (drop ping_sweep_concurrency hosts) (absorb targets (arp n) found) = (f', bs')"
      by fastforce
    from 1(1) [OF _ refl refl _ r 1(3)] False
    have "f' m = (case absorb targets (arp n) found m of Some ip \<Rightarrow> Some ip
        | None \<Rightarrow> first_reading arp (Suc n) (length bs') m)" by simp
    moreover from 1(2) False r have "f = f'" "length bs = Suc (length bs')"
      by (auto simp: sweep.simps [of _ _ _ hosts] Let_def)
    ultimately show ?thesis using 1(3) by (auto simp: absorb_def split: option.splits)
  qed
qed

lemma sweep_other:
  "m \<notin> set targets \<Longrightarrow> fst (sweep arp targets n hosts found) m = found m"
  by (induction arp targets n hosts found rule: sweep.induct)
     (subst sweep.simps, auto simp: absorb_def Let_def split: prod.splits)

lemma sweep_batches:
  "sweep arp targets n hosts found = (f, bs) \<Longrightarrow>
   (\<forall>b \<in> set bs. b \<noteq> [] \<and> length b \<le> ping_sweep_concurrency) \<and> (\<exists>rest. hosts = concat bs @ rest
     \<and> (rest = [] \<or> all_found targets f))"
proof (induction arp targets n hosts found arbitrary: f bs rule: sweep.induct)
  case (1 arp targets n hosts found)
  show ?case
  proof (cases "hosts = [] \<or> all_found targets (absorb targets (arp n) found)")
    case True
    show ?thesis
    proof (cases "hosts = []")
      case True
      with 1(2) show ?thesis by (simp add: sweep.simps)
    next
      case False
      with 1(2) True have "bs = [take ping_sweep_concurrency hosts]" "all_found targets f"
        by (simp_all add: sweep.simps [of _ _ _ hosts] Let_def)
      with False show ?thesis
        by (intro conjI exI [of _ "drop ping_sweep_concurrency hosts"])
           (simp_all add: ping_sweep_concurrency_def)
    qed
  next
    case False
    obtain f' bs' where r: "sweep arp targets (Suc n) (drop ping_sweep_concurrency hosts) (absorb targets (arp n) found) = (f', bs')"
      by fastforce
    from 1(1) [OF _ refl refl _ r] False obtain rest where
      IH: "\<forall>b \<in> set bs'. b \<noteq> [] \<and> length b \<le> ping_sweep_concurrency"
        "drop ping_sweep_concurrency hosts = concat bs' @ rest" "rest = [] \<or> all_found targets f'" by auto
    from 1(2) False r have fb: "f = f'" "bs = take ping_sweep_concurrency hosts # bs'"
      by (auto simp: sweep.simps [of _ _ _ hosts] Let_def)
    have h: "hosts = concat bs @ rest"
      by (metis IH(2) fb(2) append_assoc append_take_drop_id concat.simps(2))
    have "b \<noteq> [] \<and> length b \<le> ping_sweep_concurrency" if "b \<in> set bs" for b
      using that IH(1) False unfolding fb by (auto simp: ping_sweep_concurrency_def)
    with h IH(3) fb(1) show ?thesis by blast
  qed
qed

lemma first_reading_absorb:
  "m \<in> set targets \<Longrightarrow> (case absorb targets (arp 0) Map.empty m of Some ip \<Rightarrow> Some ip
     | None \<Rightarrow> first_reading arp 1 k m) = first_reading arp 0 (Suc k) m"
  by (auto simp: absorb_def split: option.splits)

lemma find_devices_found:
  assumes "find_devices_by_macs arp hosts macs = (found, bs)"
  shows "found m = (if m \<in> set (mac_targets macs) then first_reading arp 0 (Suc (length bs)) m else None)"
proof (cases "mac_targets macs = [] \<or> all_found (mac_targets macs) (absorb (mac_targets macs) (arp 0) Map.empty) \<or> hosts = []")
  case True
  with assms show ?thesis
    by (auto simp: find_devices_by_macs_def Let_def absorb_def split: if_splits option.splits)
next
  case False
  with assms have s: "sweep arp (mac_targets macs) 1 hosts (absorb (mac_targets macs) (arp 0) Map.empty) = (found, bs)"
    by (simp add: find_devices_by_macs_def Let_def)
  show ?thesis
  proof (cases "m \<in> set (mac_targets macs)")
    case True
    from sweep_found [OF s this] first_reading_absorb [OF this, of arp "length bs"] True show ?thesis by simp
  next
    case False
    with sweep_other [OF False, of arp 1 hosts "absorb (mac_targets macs) (arp 0) Map.empty"] s
    show ?thesis by (simp add: absorb_def)
  qed
qed

lemma found_items_mem:
  "(mac, ip) \<in> set (found_items arp hosts macs) \<longleftrightarrow>
   mac \<in> set (mac_targets macs) \<and> fst (find_devices_by_macs arp hosts macs) mac = Some ip"
  by (auto simp: found_items_def split: option.splits)

lemma found_items_asked:
  assumes "(mac, ip) \<in> set (found_items arp hosts macs)"
  shows "\<exists>r \<in> set macs. normalize_mac (Some mac) = normalize_mac (Some r)"
proof -
  from assms obtain r where "r \<in> set macs" "mac = strip (lower r)"
    by (auto simp: found_items_mem mac_targets_def)
  then show ?thesis by (auto simp: normalize_mac_strip_lower)
qed

lemma found_items_read:
  assumes "(mac, ip) \<in> set (found_items arp hosts macs)"
  shows "\<exists>i. arp i mac = Some ip"
proof -
  obtain found bs where f: "find_devices_by_macs arp hosts macs = (found, bs)" by fastforce
  from assms f have "mac \<in> set (mac_targets macs)" "found mac = Some ip" by (simp_all add: found_items_mem)
  then have "first_reading arp 0 (Suc (length bs)) mac = Some ip"
    unfolding find_devices_found [OF f, of mac] by metis
  then show ?thesis by (blast dest: first_reading_Some)
qed

subsection \<open>A concrete network\<close>

definition player :: mac_target where
  "player = \<lparr>mt_kind = ''media_player'', mt_entity_id = ''p1'', mt_name = cp ''Player 1'',
     mt_current_ip = Some ''10.10.98.5'', mt_mac = ''AA-BB-CC-00-11-22''\<rparr>"

definition player_mac :: string where
  "player_mac = ''aa:bb:cc:00:11:22''"

definition late_arp :: "nat \<Rightarrow> string \<rightharpoonup> string" where
  "late_arp n = (if n = 0 then Map.empty else [player_mac \<mapsto> ''10.10.98.7''])"

definition sweep_hosts :: "string list" where
  "sweep_hosts = [''10.10.98.6'', ''10.10.98.7'']"

subsection \<open>Properties\<close>

text \<open>C19: every match \<open>resolve_devices_by_mac\<close> returns is for a device it was asked about, under the
  normalised form of that device's own MAC, with a non-empty address that some source really
  reported for that MAC: the switches' ARP map, or one of the readings of the host's ARP table.\<close>

theorem rediscovery_is_sound:
  assumes "m \<in> set (resolve_devices_by_mac targets switch_map (found_items arp hosts))"
  shows "mm_target m \<in> set targets \<and> normalize_mac (Some (mt_mac (mm_target m))) = Some (mm_mac m)
    \<and> mm_new_ip m \<noteq> []
    \<and> ((\<exists>tab. switch_map = Some (Reply tab) \<and> tab (mm_mac m) = Some (mm_new_ip m))
       \<or> (\<exists>i mac. arp i mac = Some (mm_new_ip m) \<and> normalize_mac (Some mac) = Some (mm_mac m)))"
  using mac.sound [OF assms [unfolded resolve_devices_by_mac_def]] found_items_read by blast

theorem rediscovery_is_sound_witness:
  "normalize_mac (Some (mt_mac player)) = Some player_mac
    \<and> (\<exists>i mac. late_arp i mac = Some ''10.10.98.7'' \<and> normalize_mac (Some mac) = Some player_mac)"
proof -
  have "\<lparr>mm_target = player, mm_mac = player_mac, mm_new_ip = ''10.10.98.7''\<rparr>
      \<in> set (resolve_devices_by_mac [player] None (found_items late_arp sweep_hosts))" by code_simp
  from rediscovery_is_sound [OF this] show ?thesis by simp
qed

text \<open>An address the switches know wins over everything the host's ping sweep reports: a device
  whose MAC is in the switch map is matched to exactly that address, whatever the sweep answers.\<close>

theorem switch_map_wins_over_sweep:
  assumes "t \<in> set targets" and "normalize_mac (Some (mt_mac t)) = Some n"
    and "tab n = Some ip" and "ip \<noteq> []"
  shows "\<lparr>mm_target = t, mm_mac = n, mm_new_ip = ip'\<rparr>
      \<in> set (resolve_devices_by_mac targets (Some (Reply tab)) (found_items arp hosts)) \<longleftrightarrow> ip' = ip"
  unfolding resolve_devices_by_mac_def
  by (rule mac.switches_win [where tab = tab, OF assms]) (rule found_items_asked)

theorem switch_map_wins_over_sweep_witness:
  "\<lparr>mm_target = player, mm_mac = player_mac, mm_new_ip = ''10.10.98.9''\<rparr>
      \<in> set (resolve_devices_by_mac [player] (Some (Reply [player_mac \<mapsto> ''10.10.98.9'']))
           (found_items late_arp sweep_hosts))"
proof -
  have "player \<in> set [player]" by simp
  moreover have "normalize_mac (Some (mt_mac player)) = Some player_mac" by code_simp
  moreover have "[player_mac \<mapsto> ''10.10.98.9''] player_mac = Some ''10.10.98.9''" by simp
  moreover have "''10.10.98.9'' \<noteq> []" by simp
  ultimately show ?thesis
    using switch_map_wins_over_sweep [of player "[player]" player_mac "[player_mac \<mapsto> ''10.10.98.9'']"
        "''10.10.98.9''" "''10.10.98.9''" late_arp sweep_hosts] by blast
qed

text \<open>\<open>find_devices_by_macs\<close> reports for each MAC the address of the first ARP reading that knows it
  and nothing for other MACs; it pings the hosts in order, in non-empty batches of at most 128,
  and it leaves hosts unpinged only when every MAC has already been found.\<close>

theorem mac_search_first_reading_bounded_batches:
  assumes "find_devices_by_macs arp hosts macs = (found, batches)"
  shows "found m = (if m \<in> set (mac_targets macs) then first_reading arp 0 (Suc (length batches)) m else None)
    \<and> (\<forall>b \<in> set batches. b \<noteq> [] \<and> length b \<le> 128)
    \<and> (\<exists>rest. hosts = concat batches @ rest \<and> (rest = [] \<or> all_found (mac_targets macs) found))"
proof (cases "mac_targets macs = [] \<or> all_found (mac_targets macs) (absorb (mac_targets macs) (arp 0) Map.empty) \<or> hosts = []")
  case True
  with assms have "batches = []" "hosts = [] \<or> all_found (mac_targets macs) found"
    by (auto simp: find_devices_by_macs_def Let_def all_found_def split: if_splits)
  then show ?thesis using find_devices_found [OF assms] by simp
next
  case False
  with assms have s: "sweep arp (mac_targets macs) 1 hosts (absorb (mac_targets macs) (arp 0) Map.empty) = (found, batches)"
    by (simp add: find_devices_by_macs_def Let_def)
  from sweep_batches [OF s] find_devices_found [OF assms] show ?thesis
    by (simp add: ping_sweep_concurrency_def)
qed

theorem mac_search_first_reading_bounded_batches_witness:
  "snd (find_devices_by_macs late_arp sweep_hosts [''AA:BB:CC:00:11:22'']) = [sweep_hosts]
    \<and> fst (find_devices_by_macs late_arp sweep_hosts [''AA:BB:CC:00:11:22'']) player_mac = Some ''10.10.98.7''"
proof -
  have b: "snd (find_devices_by_macs late_arp sweep_hosts [''AA:BB:CC:00:11:22'']) = [sweep_hosts]"
    by code_simp
  then have "find_devices_by_macs late_arp sweep_hosts [''AA:BB:CC:00:11:22'']
      = (fst (find_devices_by_macs late_arp sweep_hosts [''AA:BB:CC:00:11:22'']), [sweep_hosts])"
    by (metis prod.collapse)
  from mac_search_first_reading_bounded_batches [OF this, of player_mac]
  have "fst (find_devices_by_macs late_arp sweep_hosts [''AA:BB:CC:00:11:22'']) player_mac =
      (if player_mac \<in> set (mac_targets [''AA:BB:CC:00:11:22''])
       then first_reading late_arp 0 (Suc (length [sweep_hosts])) player_mac else None)" by blast
  also have "\<dots> = Some ''10.10.98.7''" by code_simp
  finally show ?thesis using b by simp
qed

end
