(* ===== verification/Bulk_Poll.thy ===== *)
theory Bulk_Poll
  imports Poll_Resilience Reachability
begin

section \<open>What the bulk pollers share: the poll lock, the circuit filter, outage detection, tables\<close>

text \<open>
  The bulk pollers (cash registers, computers, switches, media players, printers) have the same
  skeleton: take a Redis lock (failing open), skip rows whose circuit is open, probe the rest,
  feed each probe through \<open>apply_poll_outcome\<close>, and release the lock. The printer and switch
  pollers first look for subnets in which practically everything failed and leave those alone;
  the printer, switch and media pollers then relocate devices that moved.
\<close>

subsection \<open>The lock of a bulk poll\<close>

definition acquire_poll_lock :: "'r redis_ops \<Rightarrow> string \<Rightarrow> 'r \<Rightarrow> bool \<times> 'r" where
  "acquire_poll_lock ops key r = (case r_set_nx ops r key ''1'' 320 of
     (r', Failed) \<Rightarrow> (True, r') | (r', Reply got) \<Rightarrow> (got, r'))"

definition release_poll_lock :: "'r redis_ops \<Rightarrow> string \<Rightarrow> 'r \<Rightarrow> 'r" where
  "release_poll_lock ops key r = fst (r_delete ops r key)"

subsection \<open>The rows whose circuit is closed\<close>

definition circuit_flags ::
  "'r redis_ops \<Rightarrow> instant \<Rightarrow> string \<Rightarrow> uid list \<Rightarrow> 'r \<Rightarrow> bool list \<times> 'r \<times> 'm effect list" where
  "circuit_flags ops now kind ids r = thread (is_circuit_open ops now kind) ids r"

definition select_closed :: "'a list \<Rightarrow> bool list \<Rightarrow> 'a list" where
  "select_closed rows flags = map fst (filter (\<lambda>(row, open_circuit). \<not> open_circuit) (zip rows flags))"

subsection \<open>Outage detection\<close>

record outage_settings =
  POLL_PATH_FAILURE_MIN_DEVICES :: int
  POLL_PATH_FAILURE_RATIO :: rat

definition default_outage_settings :: outage_settings where
  "default_outage_settings = \<lparr>POLL_PATH_FAILURE_MIN_DEVICES = 3, POLL_PATH_FAILURE_RATIO = 4 / 5\<rparr>"

text \<open>\<open>ip.rsplit('.', 1)[0]\<close>\<close>

definition subnet_of :: "string \<Rightarrow> string" where
  "subnet_of ip = (if CHR ''.'' \<in> set ip then rev (tl (dropWhile (\<lambda>c. c \<noteq> CHR ''.'') (rev ip))) else ip)"

definition suspect_outcomes :: "outage_settings \<Rightarrow> bool list \<Rightarrow> bool" where
  "suspect_outcomes cfg outcomes =
   (let min_devices = max (POLL_PATH_FAILURE_MIN_DEVICES cfg) 2;
        ratio = min (max (POLL_PATH_FAILURE_RATIO cfg) 0) 1;
        failed = length (filter Not outcomes)
    in min_devices \<le> int (length outcomes) \<and> ratio \<le> of_nat failed / of_nat (length outcomes))"

definition total_failure_subnets :: "outage_settings \<Rightarrow> (string \<times> bool) list \<Rightarrow> string list" where
  "total_failure_subnets cfg results =
     map fst (filter (\<lambda>(subnet, outcomes). suspect_outcomes cfg outcomes)
       (group_pairs (map (\<lambda>(ip, online). (subnet_of ip, online)) results)))"

lemma total_failure_subnets_iff:
  "s \<in> set (total_failure_subnets cfg results) \<longleftrightarrow>
   suspect_outcomes cfg (map snd (filter (\<lambda>p. subnet_of (fst p) = s) results))"
proof -
  have v: "values_at (map (\<lambda>(ip, online). (subnet_of ip, online)) results) s =
      map snd (filter (\<lambda>p. subnet_of (fst p) = s) results)"
    by (induction results) (auto simp: values_at_def)
  have "s \<in> set (total_failure_subnets cfg results) \<longleftrightarrow>
      (\<exists>vs. (s, vs) \<in> set (group_pairs (map (\<lambda>(ip, online). (subnet_of ip, online)) results)) \<and> suspect_outcomes cfg vs)"
    by (force simp: total_failure_subnets_def)
  also have "\<dots> \<longleftrightarrow> suspect_outcomes cfg (values_at (map (\<lambda>(ip, online). (subnet_of ip, online)) results) s)"
    by (auto simp: mem_group_pairs suspect_outcomes_def Let_def)
  finally show ?thesis by (simp add: v)
qed

lemma suspect_outcomes_two: "suspect_outcomes cfg outcomes \<Longrightarrow> 2 \<le> length outcomes"
  by (auto simp: suspect_outcomes_def Let_def)

lemma all_failed_suspect:
  assumes "\<forall>b \<in> set outcomes. \<not> b" "max (POLL_PATH_FAILURE_MIN_DEVICES cfg) 2 \<le> int (length outcomes)"
  shows "suspect_outcomes cfg outcomes"
proof -
  have "filter Not outcomes = outcomes" using assms(1) by (simp add: filter_id_conv)
  with assms(2) show ?thesis by (auto simp: suspect_outcomes_def Let_def)
qed

subsection \<open>The lock and the circuits over a working Redis\<close>

lemma acquire_poll_lock_ok:
  assumes "redis_ok ops hv sv"
  shows "\<exists>r'. acquire_poll_lock ops key r = (sv r key = None, r') \<and> hv r' = hv r
    \<and> sv r' = (if sv r key = None then (sv r)(key \<mapsto> ''1'') else sv r)"
  using redis_lockD(3,4) [OF redis_okD(2) [OF assms], of 320 r key "''1''"] redis_okD(6) [OF assms, of r key "''1''" 320]
  by (cases "r_set_nx ops r key ''1'' 320") (auto simp: acquire_poll_lock_def)

lemma release_poll_lock_ok:
  assumes "redis_ok ops hv sv"
  shows "sv (release_poll_lock ops key r) = (sv r)(key := None)"
  by (simp add: release_poll_lock_def redis_lockD(6) [OF redis_okD(2) [OF assms]])

definition circuit_is_open :: "instant \<Rightarrow> (string \<rightharpoonup> string) \<Rightarrow> bool" where
  "circuit_is_open now m \<longleftrightarrow> now < to_int (m ''circuit_open_until'') 0"

lemma is_circuit_open_ok:
  assumes "redis_ok ops hv sv"
  shows "fst (is_circuit_open ops now kind i r) = circuit_is_open now (hv r (resilience_key kind i))"
    and "hv (fst (snd (is_circuit_open ops now kind i r))) = hv r"
    and "sv (fst (snd (is_circuit_open ops now kind i r))) = sv r"
  using redis_hashD(3,4) [OF redis_okD(1) [OF assms], of r "resilience_key kind i" "''circuit_open_until''"]
    redis_okD(4) [OF assms, of r "resilience_key kind i" "''circuit_open_until''"]
  by (auto simp: is_circuit_open_def circuit_is_open_def split: prod.splits reply.splits)

lemma circuit_flags_ok:
  assumes "redis_ok ops hv sv"
  shows "fst (circuit_flags ops now kind ids r) = map (\<lambda>i. circuit_is_open now (hv r (resilience_key kind i))) ids"
    and "hv (fst (snd (circuit_flags ops now kind ids r))) = hv r"
    and "sv (fst (snd (circuit_flags ops now kind ids r))) = sv r"
proof -
  show "fst (circuit_flags ops now kind ids r) = map (\<lambda>i. circuit_is_open now (hv r (resilience_key kind i))) ids"
    unfolding circuit_flags_def
    by (induction ids arbitrary: r) (simp_all add: thread_Cons is_circuit_open_ok [OF assms] del: thread.simps(2))
  show "hv (fst (snd (circuit_flags ops now kind ids r))) = hv r" "sv (fst (snd (circuit_flags ops now kind ids r))) = sv r"
    unfolding circuit_flags_def by (rule thread_invariant; simp add: is_circuit_open_ok [OF assms])+
qed

lemma circuit_flags_run:
  fixes ops :: "'r redis_ops"
  assumes "redis_ok ops hv sv"
  shows "\<exists>r' (es :: 'm effect list). circuit_flags ops now kind ids r =
      (map (\<lambda>i. circuit_is_open now (hv r (resilience_key kind i))) ids, r', es) \<and> hv r' = hv r \<and> sv r' = sv r"
proof -
  obtain flags r' and es :: "'m effect list" where "circuit_flags ops now kind ids r = (flags, r', es)"
    by (cases "circuit_flags ops now kind ids r :: bool list \<times> 'r \<times> 'm effect list") auto
  moreover from this have "flags = map (\<lambda>i. circuit_is_open now (hv r (resilience_key kind i))) ids" "hv r' = hv r" "sv r' = sv r"
    using circuit_flags_ok [OF assms, of now kind ids r] by (metis fst_conv snd_conv)+
  ultimately show ?thesis by blast
qed

lemma select_closed_map: "select_closed rows (map f rows) = filter (\<lambda>row. \<not> f row) rows"
  by (induction rows) (auto simp: select_closed_def)

lemma resilience_key_inject [simp]: "resilience_key kind i = resilience_key kind j \<longleftrightarrow> i = j"
  by (simp add: resilience_key_def)

lemma apply_poll_outcome_sv:
  assumes "redis_ok ops hv sv"
  shows "sv (fst (snd (apply_poll_outcome ops cfg now kind i prev online err r))) = sv r"
proof -
  let ?k = "resilience_key kind i"
  define d where "d = decide_with cfg prev online err (stored_counters (Reply (hv r ?k)))"
  obtain r1 where r1: "r_hgetall ops r ?k = (r1, Reply (hv r ?k))" "sv r1 = sv r"
    using redis_hashD(1) [OF redis_okD(1) [OF assms], of r ?k] redis_okD(3) [OF assms, of r ?k]
    by (cases "r_hgetall ops r ?k") auto
  obtain r2 where r2: "r_hset ops r1 ?k (outcome_payload cfg now online d) = (r2, Reply ())" "sv r2 = sv r1"
    using redis_hashD(5) [OF redis_okD(1) [OF assms], of r1 ?k] redis_okD(5) [OF assms, of r1 ?k]
    by (metis prod.collapse)
  have "sv (fst (r_expire ops r2 ?k (outcome_ttl cfg d))) = sv r2"
    by (rule redis_lockD(8) [OF redis_okD(2) [OF assms] outcome_ttl_pos])
  with r1 r2 show ?thesis by (simp add: apply_poll_outcome_def Let_def flip: d_def)
qed

definition debounced :: "poll_settings \<Rightarrow> string \<Rightarrow> uid \<Rightarrow> bool \<Rightarrow> bool \<Rightarrow> bool \<Rightarrow> (string \<Rightarrow> string \<rightharpoonup> string) \<Rightarrow> bool" where
  "debounced cfg kind i prev online err hashes =
     effective_online (decide_with cfg prev online err (stored_counters (Reply (hashes (resilience_key kind i)))))"

lemma apply_poll_outcome_fst:
  assumes "redis_ok ops hv sv"
  shows "fst (apply_poll_outcome ops cfg now kind i prev online err r) = debounced cfg kind i prev online err (hv r)"
proof -
  define d where "d = decide_with cfg prev online err (stored_counters (Reply (hv r (resilience_key kind i))))"
  from apply_poll_outcome_ok [OF redis_okD(1) [OF assms] refl d_def]
  show ?thesis unfolding debounced_def d_def [symmetric] by (metis fst_conv)
qed

lemma apply_poll_outcome_frame:
  assumes "redis_ok ops hv sv" "k \<noteq> resilience_key kind i"
  shows "hv (fst (snd (apply_poll_outcome ops cfg now kind i prev online err r :: bool \<times> 'r \<times> 'm effect list))) k = hv r k"
proof -
  obtain r' and es :: "'m effect list" and d where "apply_poll_outcome ops cfg now kind i prev online err r = (effective_online d, r', es)"
    and "hv r' = (hv r)(resilience_key kind i := hv r (resilience_key kind i) ++ map_of (rev (outcome_payload cfg now online d)))"
    using apply_poll_outcome_ok [OF redis_okD(1) [OF assms(1)] refl refl, of cfg now kind i prev online err r] by blast
  with assms(2) show ?thesis by simp
qed

end
