(* ===== verification/Host_Polling.thy ===== *)
theory Host_Polling
  imports Bulk_Poll
begin

section \<open>Cash registers and computers
  (app/domains/operations/cash_register_polling.py, app/domains/inventory/computer_polling.py, computer_stale.py)\<close>

text \<open>
  Both pollers probe hosts by name over TCP: the probe is a function from the hostname to its
  \<open>reachability_result\<close> (\<open>probe_host\<close> builds it from the async probe of theory Reachability).
  Redis is threaded through the rows in table order. One instant \<open>now\<close> stands for the clock
  readings of one cycle. Only the columns the pollers read or write are in the row records.
\<close>

subsection \<open>Probing a host\<close>

text \<open>The two probes' parameters, with the NETWORK_PROBE settings filled in.\<close>

record network_probe_settings =
  NETWORK_PROBE_MAX_ATTEMPTS :: int
  NETWORK_PROBE_RETRY_BACKOFF_SECONDS :: rat
  NETWORK_PROBE_TIMEOUT_MULTIPLIER :: rat

definition host_probe_params :: "network_probe_settings \<Rightarrow> rat \<Rightarrow> string \<Rightarrow> probe_params" where
  "host_probe_params cfg timeout scope = \<lparr>
     pp_attempts = NETWORK_PROBE_MAX_ATTEMPTS cfg,
     pp_backoff = NETWORK_PROBE_RETRY_BACKOFF_SECONDS cfg,
     pp_timeout_multiplier = NETWORK_PROBE_TIMEOUT_MULTIPLIER cfg,
     pp_timeout = timeout, pp_scope = scope\<rparr>"

definition probe_cash_register ::
  "(nat \<Rightarrow> int \<Rightarrow> connect) \<Rightarrow> (nat \<Rightarrow> int list) \<Rightarrow> network_probe_settings \<Rightarrow> (string \<Rightarrow> string option)
   \<Rightarrow> string \<Rightarrow> reachability_result option" where
  "probe_cash_register net order cfg resolve hostname =
     map_option fst (probe_host_ports_async net order (host_probe_params cfg (3 / 2) ''cash_registers'')
       (resolve hostname) [3389, 445])"

definition probe_computer ::
  "(nat \<Rightarrow> int \<Rightarrow> connect) \<Rightarrow> (nat \<Rightarrow> int list) \<Rightarrow> network_probe_settings \<Rightarrow> (string \<Rightarrow> string option)
   \<Rightarrow> string \<Rightarrow> reachability_result option" where
  "probe_computer net order cfg resolve hostname =
     map_option fst (probe_host_ports_async net order (host_probe_params cfg (6 / 5) ''computers'')
       (resolve hostname) [445, 3389, 135])"

subsection \<open>Cash registers\<close>

record cash_register =
  cr_id :: uid
  cr_kkm_number :: ustr
  cr_hostname :: string
  cr_is_online :: "bool option"
  cr_reachability_reason :: "reason option"
  cr_last_polled_at :: "instant option"

text \<open>The Russian texts of \<open>_OFFLINE_REASON_RU\<close>, and the two messages that carry them.\<close>

datatype reason_ru = Ru_dns_unresolved | Ru_port_closed | Ru_no_route | Ru_no_response | Ru_probe_error | Ru_host_unavailable

fun cash_register_offline_reason_ru :: "reason option \<Rightarrow> reason_ru" where
  "cash_register_offline_reason_ru None = Ru_host_unavailable"
| "cash_register_offline_reason_ru (Some Dns_unresolved) = Ru_dns_unresolved"
| "cash_register_offline_reason_ru (Some Port_closed) = Ru_port_closed"
| "cash_register_offline_reason_ru (Some No_route) = Ru_no_route"
| "cash_register_offline_reason_ru (Some No_response) = Ru_no_response"
| "cash_register_offline_reason_ru (Some Probe_error) = Ru_probe_error"

datatype kkm_message = Kkm_online ustr string | Kkm_offline ustr reason_ru

definition kkm_label :: "ustr \<Rightarrow> ustr" where
  "kkm_label kkm_number = [1050, 1050, 1052, 32, 8470] @ kkm_number"

definition apply_cash_register_poll_result :: "instant \<Rightarrow> bool \<Rightarrow> reason option \<Rightarrow> cash_register \<Rightarrow> cash_register" where
  "apply_cash_register_poll_result now online reason cash =
     cash\<lparr>cr_is_online := Some online, cr_reachability_reason := reason, cr_last_polled_at := Some now\<rparr>"

definition record_cash_register_status_change :: "cash_register \<Rightarrow> bool option \<Rightarrow> kkm_message effect list" where
  "record_cash_register_status_change cash previous_online =
   (if previous_online = cr_is_online cash then []
    else if cr_is_online cash = Some True then
      [EventLog \<lparr>ev_severity = ''info'', ev_category = ''availability'', ev_type = ''cash_register_online'',
         ev_device_kind = Some ''cash_register'', ev_device_name = Some (kkm_label (cr_kkm_number cash)),
         ev_ip_address = Some (cr_hostname cash), ev_message = Kkm_online (cr_kkm_number cash) (cr_hostname cash)\<rparr>]
    else
      [EventLog \<lparr>ev_severity = ''warning'', ev_category = ''availability'', ev_type = ''cash_register_offline'',
         ev_device_kind = Some ''cash_register'', ev_device_name = Some (kkm_label (cr_kkm_number cash)),
         ev_ip_address = Some (cr_hostname cash),
         ev_message = Kkm_offline (cr_kkm_number cash) (cash_register_offline_reason_ru (cr_reachability_reason cash))\<rparr>])"

datatype poll_error = Not_found

definition poll_single_cash_register_local ::
  "instant \<Rightarrow> (string \<Rightarrow> reachability_result) \<Rightarrow> uid \<Rightarrow> cash_register list
   \<Rightarrow> poll_error + cash_register list \<times> kkm_message effect list" where
  "poll_single_cash_register_local now probe cash_id tab =
   (case filter (\<lambda>c. cr_id c = cash_id) tab of
      [] \<Rightarrow> Inl Not_found
    | cash # _ \<Rightarrow>
        let p = probe (cr_hostname cash);
            cash' = apply_cash_register_poll_result now (rr_online p) (rr_reason p) cash
        in Inr (map (\<lambda>c. if cr_id c = cash_id then cash' else c) tab,
                record_cash_register_status_change cash' (cr_is_online cash)
                @ [Commit, Invalidate ''cash_registers'']))"

text \<open>\<open>probe.reason or REASON_PROBE_ERROR\<close>, kept only for a row that ends offline.\<close>

definition stored_reason :: "bool \<Rightarrow> reachability_result \<Rightarrow> reason option" where
  "stored_reason online p = (if online then None else Some (case rr_reason p of None \<Rightarrow> Probe_error | Some w \<Rightarrow> w))"

definition update_register :: "instant \<Rightarrow> bool \<Rightarrow> reachability_result \<Rightarrow> cash_register \<Rightarrow> cash_register" where
  "update_register now online p row = row\<lparr>cr_is_online := Some online,
     cr_reachability_reason := stored_reason online p, cr_last_polled_at := Some now\<rparr>"

definition poll_register_row ::
  "'r redis_ops \<Rightarrow> poll_settings \<Rightarrow> instant \<Rightarrow> (uid \<rightharpoonup> reachability_result) \<Rightarrow> cash_register \<Rightarrow> 'r
   \<Rightarrow> cash_register \<times> 'r \<times> kkm_message effect list" where
  "poll_register_row ops cfg now probes row r =
   (case probes (cr_id row) of
      None \<Rightarrow> (row, r, [])
    | Some p \<Rightarrow>
        let (online, r', es) = apply_poll_outcome ops cfg now ''cash_register'' (cr_id row)
              (cr_is_online row = Some True) (rr_online p) (is_path_failure p) r;
            row' = update_register now online p row
        in (row', r', es @ record_cash_register_status_change row' (cr_is_online row)))"

definition poll_all_cash_registers_local ::
  "'r redis_ops \<Rightarrow> poll_settings \<Rightarrow> instant \<Rightarrow> (string \<Rightarrow> reachability_result) \<Rightarrow> cash_register list \<Rightarrow> 'r
   \<Rightarrow> cash_register list \<times> 'r \<times> kkm_message effect list" where
  "poll_all_cash_registers_local ops cfg now probe tab r =
   (let lock_key = ''lock:poll-all:cash-registers'';
        (lock_acquired, r0) = acquire_poll_lock ops lock_key r
    in if \<not> lock_acquired then (tab, r0, [])
       else
         let (flags, r1, e1) = circuit_flags ops now ''cash_register'' (map cr_id tab) r0;
             poll_targets = select_closed tab flags;
             probes = map_of (map (\<lambda>row. (cr_id row, probe (cr_hostname row))) poll_targets);
             (rows, r2, e2) = thread (poll_register_row ops cfg now probes) tab r1
         in (rows, release_poll_lock ops lock_key r2, e1 @ e2 @ [Commit, Invalidate ''cash_registers'']))"

subsection \<open>Computers\<close>

record computer =
  co_id :: uid
  co_hostname :: string
  co_is_online :: "bool option"
  co_reachability_reason :: "reason option"
  co_last_polled_at :: "instant option"

definition update_computer :: "instant \<Rightarrow> bool \<Rightarrow> reachability_result \<Rightarrow> computer \<Rightarrow> computer" where
  "update_computer now online p row = row\<lparr>co_is_online := Some online,
     co_reachability_reason := stored_reason online p, co_last_polled_at := Some now\<rparr>"

definition poll_computer_row ::
  "'r redis_ops \<Rightarrow> poll_settings \<Rightarrow> instant \<Rightarrow> (uid \<rightharpoonup> reachability_result) \<Rightarrow> computer \<Rightarrow> 'r
   \<Rightarrow> computer \<times> 'r \<times> unit effect list" where
  "poll_computer_row ops cfg now probes row r =
   (case probes (co_id row) of
      None \<Rightarrow> (row, r, [])
    | Some p \<Rightarrow>
        let (online, r', es) = apply_poll_outcome ops cfg now ''computer'' (co_id row)
              (co_is_online row = Some True) (rr_online p) (is_path_failure p) r
        in (update_computer now online p row, r', es))"

definition poll_all_computers_local ::
  "'r redis_ops \<Rightarrow> poll_settings \<Rightarrow> instant \<Rightarrow> (string \<Rightarrow> reachability_result) \<Rightarrow> computer list \<Rightarrow> 'r
   \<Rightarrow> computer list \<times> 'r \<times> unit effect list" where
  "poll_all_computers_local ops cfg now probe tab r =
   (let lock_key = ''lock:poll-all:computers'';
        (lock_acquired, r0) = acquire_poll_lock ops lock_key r
    in if \<not> lock_acquired then (tab, r0, [])
       else
         let (flags, r1, e1) = circuit_flags ops now ''computer'' (map co_id tab) r0;
             poll_targets = select_closed tab flags;
             probes = map_of (map (\<lambda>row. (co_id row, probe (co_hostname row))) poll_targets);
             (rows, r2, e2) = thread (poll_computer_row ops cfg now probes) tab r1
         in (rows, release_poll_lock ops lock_key r2, e1 @ e2 @ [Commit, Invalidate ''computers'']))"

subsection \<open>The contract of a row-by-row poller\<close>

text \<open>A row after one cycle: untouched while its circuit is open, otherwise updated from its own probe
  and the debounced outcome over its own counters.\<close>

definition polled_row :: "string \<Rightarrow> ('a \<Rightarrow> uid) \<Rightarrow> ('a \<Rightarrow> string) \<Rightarrow> ('a \<Rightarrow> bool option)
    \<Rightarrow> (instant \<Rightarrow> bool \<Rightarrow> reachability_result \<Rightarrow> 'a \<Rightarrow> 'a)
    \<Rightarrow> poll_settings \<Rightarrow> instant \<Rightarrow> (string \<Rightarrow> reachability_result) \<Rightarrow> (string \<Rightarrow> string \<rightharpoonup> string) \<Rightarrow> 'a \<Rightarrow> 'a" where
  "polled_row kind rid host on upd cfg now probe hashes row =
   (if circuit_is_open now (hashes (resilience_key kind (rid row))) then row
    else upd now (debounced cfg kind (rid row) (on row = Some True) (rr_online (probe (host row)))
           (is_path_failure (probe (host row))) hashes) (probe (host row)) row)"

text \<open>
  What a row step owes the bulk run: a row without a probe is left alone with nothing emitted, a
  probed row is updated from its probe and the debounced outcome, and keeps its id.
\<close>

locale debounced_poller =
  fixes kind :: string
    and rid :: "'a \<Rightarrow> uid"
    and host :: "'a \<Rightarrow> string"
    and on :: "'a \<Rightarrow> bool option"
    and upd :: "instant \<Rightarrow> bool \<Rightarrow> reachability_result \<Rightarrow> 'a \<Rightarrow> 'a"
    and step :: "'r redis_ops \<Rightarrow> poll_settings \<Rightarrow> instant \<Rightarrow> (uid \<rightharpoonup> reachability_result) \<Rightarrow> 'a \<Rightarrow> 'r \<Rightarrow> 'a \<times> 'r \<times> 'm effect list"
  assumes step_skip: "probes (rid row) = None \<Longrightarrow> step ops cfg now probes row r = (row, r, [])"
    and step_row: "probes (rid row) = Some p \<Longrightarrow> fst (step ops cfg now probes row r) =
      upd now (fst (apply_poll_outcome ops cfg now kind (rid row) (on row = Some True) (rr_online p) (is_path_failure p) r
        :: bool \<times> 'r \<times> 'm effect list)) p row"
    and step_redis: "probes (rid row) = Some p \<Longrightarrow> fst (snd (step ops cfg now probes row r)) =
      fst (snd (apply_poll_outcome ops cfg now kind (rid row) (on row = Some True) (rr_online p) (is_path_failure p) r
        :: bool \<times> 'r \<times> 'm effect list))"
begin

lemma probes_of:
  assumes "distinct (map rid tab)" "row \<in> set tab"
  shows "map_of (map (\<lambda>row. (rid row, probe (host row))) (filter P tab)) (rid row) =
    (if P row then Some (probe (host row)) else None)"
  using assms
proof (induction tab)
  case (Cons a tab)
  have inj: "rid x = rid y \<Longrightarrow> x = y" if "x \<in> set (a # tab)" "y \<in> set (a # tab)" for x y
    using Cons.prems(1) that by (metis distinct_map inj_onD)
  show ?case
  proof (cases "row = a")
    case True
    have "map_of (map (\<lambda>row. (rid row, probe (host row))) (filter P tab)) (rid a) = None"
      using Cons.prems(1) by (auto simp: map_of_eq_None_iff)
    with True show ?thesis by auto
  next
    case False
    with Cons inj show ?thesis by auto
  qed
qed simp

lemma run:
  assumes ok: "redis_ok ops hv sv" and d: "distinct (map rid tab)"
    and probes: "probes = map_of (map (\<lambda>row. (rid row, probe (host row)))
      (filter (\<lambda>row. \<not> circuit_is_open now (hv r (resilience_key kind (rid row)))) tab))"
  shows "fst (thread (step ops cfg now probes) tab r) = map (polled_row kind rid host on upd cfg now probe (hv r)) tab
    \<and> sv (fst (snd (thread (step ops cfg now probes) tab r))) = sv r"
proof
  define key where "key row = resilience_key kind (rid row)" for row
  define g where "g row m = (case probes (rid row) of None \<Rightarrow> row
      | Some p \<Rightarrow> upd now (effective_online (decide_with cfg (on row = Some True) (rr_online p) (is_path_failure p)
            (stored_counters (Reply m)))) p row)" for row m
  have keys: "distinct (map key tab)"
    using d by (simp add: distinct_map inj_on_def key_def)
  have "fst (thread (step ops cfg now probes) tab r) = map (\<lambda>row. g row (hv r (key row))) tab \<and>
      (\<forall>k. k \<notin> key ` set tab \<longrightarrow> hv (fst (snd (thread (step ops cfg now probes) tab r))) k = hv r k)"
  proof (rule thread_keyed [OF _ _ keys])
    fix row :: 'a and s :: 'r
    show "fst (step ops cfg now probes row s) = g row (hv s (key row))"
      by (cases "probes (rid row)")
        (simp_all add: step_skip step_row g_def key_def apply_poll_outcome_fst [OF ok] debounced_def)
    show "hv (fst (snd (step ops cfg now probes row s))) k = hv s k" if "k \<noteq> key row" for k
      using that by (cases "probes (rid row)")
        (simp_all add: step_skip step_redis key_def apply_poll_outcome_frame [OF ok])
  qed
  moreover have "g row (hv r (key row)) = polled_row kind rid host on upd cfg now probe (hv r) row" if "row \<in> set tab" for row
    using probes_of [OF d that, of probe] by (simp add: probes g_def key_def polled_row_def debounced_def)
  ultimately show "fst (thread (step ops cfg now probes) tab r) = map (polled_row kind rid host on upd cfg now probe (hv r)) tab"
    by simp
  show "sv (fst (snd (thread (step ops cfg now probes) tab r))) = sv r"
  proof (rule thread_invariant)
    fix row :: 'a and s :: 'r assume "sv s = sv r"
    then show "sv (fst (snd (step ops cfg now probes row s))) = sv r"
      by (cases "probes (rid row)") (simp_all add: step_skip step_redis apply_poll_outcome_sv [OF ok])
  qed simp
qed

end

interpretation registers: debounced_poller "''cash_register''" cr_id cr_hostname cr_is_online update_register poll_register_row
  by unfold_locales (simp_all add: poll_register_row_def update_register_def Let_def split_beta)

interpretation computers: debounced_poller "''computer''" co_id co_hostname co_is_online update_computer poll_computer_row
  by unfold_locales (simp_all add: poll_computer_row_def update_computer_def Let_def split_beta)

lemma poll_all_cash_registers_ok:
  assumes ok: "redis_ok ops hv sv" and d: "distinct (map cr_id tab)"
    and free: "sv r ''lock:poll-all:cash-registers'' = None"
  shows "fst (poll_all_cash_registers_local ops cfg now probe tab r) =
      map (polled_row ''cash_register'' cr_id cr_hostname cr_is_online update_register cfg now probe (hv r)) tab
    \<and> sv (fst (snd (poll_all_cash_registers_local ops cfg now probe tab r))) = sv r"
proof -
  let ?key = "''lock:poll-all:cash-registers''"
  obtain r0 where r0: "acquire_poll_lock ops ?key r = (True, r0)" "hv r0 = hv r" "sv r0 = (sv r)(?key \<mapsto> ''1'')"
    using acquire_poll_lock_ok [OF ok, of ?key r] free by auto
  obtain r1 and e1 :: "kkm_message effect list"
    where c: "circuit_flags ops now ''cash_register'' (map cr_id tab) r0 =
        (map (\<lambda>row. circuit_is_open now (hv r1 (resilience_key ''cash_register'' (cr_id row)))) tab, r1, e1)"
      and v: "hv r1 = hv r" "sv r1 = sv r0"
    using circuit_flags_run [OF ok, of now "''cash_register''" "map cr_id tab" r0] r0(2) by (auto simp: comp_def)
  note run = registers.run [where probe = probe and now = now and r = r1 and cfg = cfg, OF ok d refl]
  have restored: "((sv r)(?key \<mapsto> ''1''))(?key := None) = sv r" using free by (simp add: fun_upd_idem)
  show ?thesis
    unfolding poll_all_cash_registers_local_def
    using run v r0(3) restored
    by (auto simp: r0(1) c select_closed_map Let_def release_poll_lock_ok [OF ok] split: prod.splits)
qed

lemma poll_all_computers_ok:
  assumes ok: "redis_ok ops hv sv" and d: "distinct (map co_id tab)"
    and free: "sv r ''lock:poll-all:computers'' = None"
  shows "fst (poll_all_computers_local ops cfg now probe tab r) =
      map (polled_row ''computer'' co_id co_hostname co_is_online update_computer cfg now probe (hv r)) tab
    \<and> sv (fst (snd (poll_all_computers_local ops cfg now probe tab r))) = sv r"
proof -
  let ?key = "''lock:poll-all:computers''"
  obtain r0 where r0: "acquire_poll_lock ops ?key r = (True, r0)" "hv r0 = hv r" "sv r0 = (sv r)(?key \<mapsto> ''1'')"
    using acquire_poll_lock_ok [OF ok, of ?key r] free by auto
  obtain r1 and e1 :: "unit effect list"
    where c: "circuit_flags ops now ''computer'' (map co_id tab) r0 =
        (map (\<lambda>row. circuit_is_open now (hv r1 (resilience_key ''computer'' (co_id row)))) tab, r1, e1)"
      and v: "hv r1 = hv r" "sv r1 = sv r0"
    using circuit_flags_run [OF ok, of now "''computer''" "map co_id tab" r0] r0(2) by (auto simp: comp_def)
  note run = computers.run [where probe = probe and now = now and r = r1 and cfg = cfg, OF ok d refl]
  have restored: "((sv r)(?key \<mapsto> ''1''))(?key := None) = sv r" using free by (simp add: fun_upd_idem)
  show ?thesis
    unfolding poll_all_computers_local_def
    using run v r0(3) restored
    by (auto simp: r0(1) c select_closed_map Let_def release_poll_lock_ok [OF ok] split: prod.splits)
qed

lemma poll_lock_busy:
  assumes ok: "redis_ok ops hv sv" and busy: "sv r key \<noteq> None"
  shows "\<exists>r'. acquire_poll_lock ops key r = (False, r') \<and> hv r' = hv r \<and> sv r' = sv r"
  using acquire_poll_lock_ok [OF ok, of key r] busy by auto

subsection \<open>Two tills and a computer\<close>

definition till :: "uid \<Rightarrow> string \<Rightarrow> cash_register" where
  "till i host = \<lparr>cr_id = i, cr_kkm_number = cp ''17'', cr_hostname = host, cr_is_online = Some True,
     cr_reachability_reason = None, cr_last_polled_at = None\<rparr>"

definition office_pc :: computer where
  "office_pc = \<lparr>co_id = ''c1'', co_hostname = ''VNK-HR-01'', co_is_online = None,
     co_reachability_reason = None, co_last_polled_at = None\<rparr>"

definition one_dead_host :: "string \<Rightarrow> reachability_result" where
  "one_dead_host host = (if host = ''till-2'' then not_reached ''10.0.0.2'' No_response else reached ''10.0.0.1'')"

subsection \<open>Properties\<close>

text \<open>A full poll of the cash registers, with a working Redis: when the lock is free every register
  whose circuit is open is left exactly as it was and every other one is set from its own probe,
  debounced over its own stored counters and independent of the other rows; when another poll
  holds the lock no row changes and nothing is emitted. Either way the lock keys end as they were.\<close>

theorem cash_register_poll_is_rowwise:
  assumes ok: "redis_ok ops hv sv" and d: "distinct (map cr_id tab)"
  shows "fst (poll_all_cash_registers_local ops cfg now probe tab r) =
      (if sv r ''lock:poll-all:cash-registers'' = None
       then map (polled_row ''cash_register'' cr_id cr_hostname cr_is_online update_register cfg now probe (hv r)) tab
       else tab)
    \<and> (sv r ''lock:poll-all:cash-registers'' \<noteq> None \<longrightarrow>
         snd (snd (poll_all_cash_registers_local ops cfg now probe tab r)) = [])
    \<and> sv (fst (snd (poll_all_cash_registers_local ops cfg now probe tab r))) = sv r"
proof (cases "sv r ''lock:poll-all:cash-registers'' = None")
  case True
  with poll_all_cash_registers_ok [where r = r, OF ok d] show ?thesis by simp
next
  case False
  then obtain r' where "acquire_poll_lock ops ''lock:poll-all:cash-registers'' r = (False, r')" "sv r' = sv r"
    using poll_lock_busy [where r = r, OF ok] by blast
  with False show ?thesis by (auto simp: poll_all_cash_registers_local_def)
qed

theorem cash_register_poll_is_rowwise_witness:
  "map cr_is_online (fst (poll_all_cash_registers_local map_redis
      (default_poll_settings\<lparr>POLL_OFFLINE_CONFIRMATIONS := 1\<rparr>) 100 one_dead_host
      [till ''a'' ''till-1'', till ''b'' ''till-2''] empty_redis)) = [Some True, Some False]"
proof -
  have "distinct (map cr_id [till ''a'' ''till-1'', till ''b'' ''till-2''])" by (simp add: till_def)
  note spec = cash_register_poll_is_rowwise [OF map_redis_ok this,
      of "default_poll_settings\<lparr>POLL_OFFLINE_CONFIRMATIONS := 1\<rparr>" 100 one_dead_host empty_redis]
  have "snd empty_redis ''lock:poll-all:cash-registers'' = None" by (simp add: empty_redis_def)
  with spec show ?thesis
    by (simp add: polled_row_def circuit_is_open_def empty_redis_def to_int_def till_def one_dead_host_def
        update_register_def debounced_def decide_with_def stored_counters_def decide_poll_state_def
        reached_def not_reached_def default_poll_settings_def Let_def)
qed

text \<open>The same for computers: rows with an open circuit are untouched, every other row depends only on
  its own probe and counters, a busy lock changes nothing, and the lock is released.\<close>

theorem computer_poll_is_rowwise:
  assumes ok: "redis_ok ops hv sv" and d: "distinct (map co_id tab)"
  shows "fst (poll_all_computers_local ops cfg now probe tab r) =
      (if sv r ''lock:poll-all:computers'' = None
       then map (polled_row ''computer'' co_id co_hostname co_is_online update_computer cfg now probe (hv r)) tab
       else tab)
    \<and> sv (fst (snd (poll_all_computers_local ops cfg now probe tab r))) = sv r"
proof (cases "sv r ''lock:poll-all:computers'' = None")
  case True
  with poll_all_computers_ok [where r = r, OF ok d] show ?thesis by simp
next
  case False
  then obtain r' where "acquire_poll_lock ops ''lock:poll-all:computers'' r = (False, r')" "sv r' = sv r"
    using poll_lock_busy [where r = r, OF ok] by blast
  with False show ?thesis by (auto simp: poll_all_computers_local_def)
qed

theorem computer_poll_is_rowwise_witness:
  "map co_is_online (fst (poll_all_computers_local map_redis default_poll_settings 100 one_dead_host [office_pc] empty_redis))
    = [Some True]"
proof -
  have "distinct (map co_id [office_pc])" by simp
  note spec = computer_poll_is_rowwise [OF map_redis_ok this, of default_poll_settings 100 one_dead_host empty_redis]
  have "snd empty_redis ''lock:poll-all:computers'' = None" by (simp add: empty_redis_def)
  with spec show ?thesis
    by (simp add: polled_row_def circuit_is_open_def empty_redis_def to_int_def office_pc_def one_dead_host_def
        update_computer_def debounced_def decide_with_def stored_counters_def decide_poll_state_def
        reached_def default_poll_settings_def Let_def)
qed

end
