(* ===== verification/Computer_Stale.thy ===== *)
theory Computer_Stale
  imports Host_Polling "HOL-Library.Product_Lexorder"
begin

section \<open>Computers that no longer exist (app/domains/inventory/computer_stale.py)\<close>

text \<open>
  A computer is reported when the RustDesk console does not know its hostname and it is not online.
  The console's answer is a parameter: \<open>None\<close> when the integration is disabled, \<open>Failed\<close> when reading
  it raised, otherwise the hostnames of its peers (\<open>None\<close> for a peer without one). Hostnames are ASCII.
\<close>

definition is_word :: "char \<Rightarrow> bool" where
  "is_word c = (let n = (of_char c :: nat) in
     (48 \<le> n \<and> n \<le> 57) \<or> (65 \<le> n \<and> n \<le> 90) \<or> (97 \<le> n \<and> n \<le> 122) \<or> n = 95)"

text \<open>\<open>^(NB\d*|NOTE\w*|N\d+|LPT)$\<close>; as in Python, \<open>$\<close> also matches before one final newline.\<close>

definition drop_newline :: "string \<Rightarrow> string" where
  "drop_newline s = (if s \<noteq> [] \<and> last s = char_of (10::nat) then butlast s else s)"

definition laptop_token :: "string \<Rightarrow> bool" where
  "laptop_token token = (let t = drop_newline token in
     (starts_with ''NB'' t \<and> list_all is_digit (drop 2 t))
   \<or> (starts_with ''NOTE'' t \<and> list_all is_word (drop 4 t))
   \<or> (starts_with ''N'' t \<and> drop 1 t \<noteq> [] \<and> list_all is_digit (drop 1 t))
   \<or> t = ''LPT'')"

definition is_laptop_like :: "string \<Rightarrow> bool" where
  "is_laptop_like hostname = list_ex laptop_token (tl (split_on (CHR ''-'') (upper hostname)))"

record stale_computer =
  st_computer :: computer
  st_laptop_like :: bool
  st_in_remote_access :: bool

record stale_report =
  console_reachable :: bool
  stale_items :: "stale_computer list"

definition known_hostnames :: "string option list \<Rightarrow> string list" where
  "known_hostnames peers =
     concat (map (\<lambda>h. case h of None \<Rightarrow> [] | Some n \<Rightarrow> if n = [] then [] else [lower (strip n)]) peers)"

definition find_stale_computers ::
  "string option list reply option \<Rightarrow> uid option list \<Rightarrow> computer list \<Rightarrow> stale_report" where
  "find_stale_computers peers managed_ids computers =
   (case peers of
      None \<Rightarrow> \<lparr>console_reachable = False, stale_items = []\<rparr>
    | Some Failed \<Rightarrow> \<lparr>console_reachable = False, stale_items = []\<rparr>
    | Some (Reply ps) \<Rightarrow>
        if ps = [] then \<lparr>console_reachable = False, stale_items = []\<rparr>
        else
          let known = known_hostnames ps;
              items = map (\<lambda>c. \<lparr>st_computer = c, st_laptop_like = is_laptop_like (co_hostname c),
                                st_in_remote_access = Some (co_id c) \<in> set managed_ids\<rparr>)
                (filter (\<lambda>c. lower (strip (co_hostname c)) \<notin> set known \<and> co_is_online c \<noteq> Some True) computers)
          in \<lparr>console_reachable = True,
              stale_items = sort_key (\<lambda>i. (st_laptop_like i, lower (co_hostname (st_computer i)))) items\<rparr>)"

lemma mem_known_hostnames:
  "h \<in> set (known_hostnames peers) \<longleftrightarrow> (\<exists>n. Some n \<in> set peers \<and> n \<noteq> [] \<and> h = lower (strip n))"
  by (induction peers) (auto simp: known_hostnames_def split: option.splits)

text \<open>The stale-computer report is exactly the offline computers the console does not know, each once
  per row, workstations before laptops and by hostname within each; and with a console that is disabled,
  unreadable or empty nothing at all is reported.\<close>

theorem stale_report_exact:
  "mset (map st_computer (stale_items (find_stale_computers peers managed computers))) =
     (case peers of
        Some (Reply ps) \<Rightarrow>
          if ps = [] then {#}
          else filter_mset (\<lambda>c. co_is_online c \<noteq> Some True \<and>
                 \<not> (\<exists>n. Some n \<in> set ps \<and> n \<noteq> [] \<and> lower (strip (co_hostname c)) = lower (strip n))) (mset computers)
      | _ \<Rightarrow> {#})
   \<and> sorted (map (\<lambda>i. (is_laptop_like (co_hostname (st_computer i)), lower (co_hostname (st_computer i))))
       (stale_items (find_stale_computers peers managed computers)))"
proof (cases "\<exists>ps. peers = Some (Reply ps) \<and> ps \<noteq> []")
  case False
  then have "stale_items (find_stale_computers peers managed computers) = []"
    by (auto simp: find_stale_computers_def split: option.splits reply.splits)
  with False show ?thesis by (auto split: option.splits reply.splits)
next
  case True
  then obtain ps where ps: "peers = Some (Reply ps)" "ps \<noteq> []" by blast
  define P where "P c = (lower (strip (co_hostname c)) \<notin> set (known_hostnames ps) \<and> co_is_online c \<noteq> Some True)" for c :: computer
  define mk where "mk c = \<lparr>st_computer = c, st_laptop_like = is_laptop_like (co_hostname c),
      st_in_remote_access = Some (co_id c) \<in> set managed\<rparr>" for c :: computer
  define key where "key i = (st_laptop_like i, lower (co_hostname (st_computer i)))" for i :: stale_computer
  have items: "stale_items (find_stale_computers peers managed computers) = sort_key key (map mk (filter P computers))"
    using ps by (simp add: find_stale_computers_def P_def [abs_def] mk_def [abs_def] key_def [abs_def] Let_def)
  have members: "mset (map st_computer (sort_key key (map mk (filter P computers)))) = filter_mset P (mset computers)"
  proof -
    have "st_computer \<circ> mk = id" by (simp add: fun_eq_iff mk_def)
    then show ?thesis by (simp add: multiset.map_comp mset_filter)
  qed
  have keys: "map (\<lambda>i. (is_laptop_like (co_hostname (st_computer i)), lower (co_hostname (st_computer i))))
      (sort_key key (map mk (filter P computers))) = map key (sort_key key (map mk (filter P computers)))"
    by (rule map_cong) (auto simp: key_def mk_def)
  have P: "P = (\<lambda>c. co_is_online c \<noteq> Some True \<and>
      \<not> (\<exists>n. Some n \<in> set ps \<and> n \<noteq> [] \<and> lower (strip (co_hostname c)) = lower (strip n)))"
    by (auto simp: fun_eq_iff P_def mem_known_hostnames)
  show ?thesis
    unfolding items keys members using ps by (simp add: P)
qed

end
