(* ===== verification/Relocation.thy ===== *)
theory Relocation
  imports Bulk_Poll Mac_Rediscovery
begin

section \<open>Tables keyed by id, and relocation of moved devices\<close>

text \<open>
  A table is the list of its rows; \<open>rid\<close> and \<open>rip\<close> read a row's id and address (\<open>None\<close> for a NULL).
  The relocation loops of the switch, media player and printer pollers all take the address MAC
  rediscovery found, refuse it when another row of the table already has it, and otherwise move the
  row there (the printer poller moves it back when the printer does not answer there). The locale
  \<open>relocator\<close> states what one round of such a loop owes the table; it is interpreted on all three.
\<close>

text \<open>\<open>select(...).where(ip_address == new_ip, id != row.id).first()\<close>\<close>

definition ip_conflict :: "('a \<Rightarrow> uid) \<Rightarrow> ('a \<Rightarrow> string option) \<Rightarrow> uid \<Rightarrow> string \<Rightarrow> 'a list \<Rightarrow> bool" where
  "ip_conflict rid rip i new_ip tab = list_ex (\<lambda>r. rip r = Some new_ip \<and> rid r \<noteq> i) tab"

text \<open>\<open>{match.target.entity_id: match for match in matches}\<close>, then the match's \<open>new_ip\<close>: the last match wins.\<close>

definition new_ip_of :: "mac_match list \<Rightarrow> uid \<Rightarrow> string option" where
  "new_ip_of matches i = map_of (rev (map (\<lambda>m. (mt_entity_id (mm_target m), mm_new_ip m)) matches)) i"

text \<open>The address a row is to be moved to, when there is one and nothing stands in the way.\<close>

definition move_target ::
  "('a \<Rightarrow> uid) \<Rightarrow> ('a \<Rightarrow> string option) \<Rightarrow> mac_match list \<Rightarrow> 'a \<Rightarrow> 'a list \<Rightarrow> string option" where
  "move_target rid rip matches row tab = (case new_ip_of matches (rid row) of
     None \<Rightarrow> None
   | Some new_ip \<Rightarrow>
       if new_ip = [] \<or> rip row = Some new_ip then None
       else if ip_conflict rid rip (rid row) new_ip tab then None
       else Some new_ip)"

definition unique_ips :: "('a \<Rightarrow> uid) \<Rightarrow> ('a \<Rightarrow> string option) \<Rightarrow> 'a list \<Rightarrow> bool" where
  "unique_ips rid rip tab \<longleftrightarrow> distinct (map rid tab) \<and>
     (\<forall>r \<in> set tab. \<forall>r' \<in> set tab. \<forall>ip. rip r = Some ip \<and> rip r' = Some ip \<longrightarrow> rid r = rid r')"

lemma move_target_Some:
  "move_target rid rip matches row tab = Some new_ip \<Longrightarrow>
   new_ip_of matches (rid row) = Some new_ip \<and> new_ip \<noteq> [] \<and> rip row \<noteq> Some new_ip
   \<and> (\<forall>r \<in> set tab. rip r = Some new_ip \<longrightarrow> rid r = rid row)"
  by (auto simp: move_target_def ip_conflict_def list_ex_iff split: option.splits if_splits)

lemma pair_map: "map (\<lambda>r. (f r, g r)) xs = zip (map f xs) (map g xs)"
  by (induction xs) auto

lemma unique_ips_same:
  assumes "map rid tab' = map rid tab" "map rip tab' = map rip tab" "unique_ips rid rip tab"
  shows "unique_ips rid rip tab'"
proof -
  have "map (\<lambda>r. (rid r, rip r)) tab' = map (\<lambda>r. (rid r, rip r)) tab"
    using assms(1,2) by (simp add: pair_map)
  then have p: "set (map (\<lambda>r. (rid r, rip r)) tab') = set (map (\<lambda>r. (rid r, rip r)) tab)" by simp
  have from_tab: "\<exists>q \<in> set tab. rid q = rid r \<and> rip q = rip r" if "r \<in> set tab'" for r
  proof -
    have "(rid r, rip r) \<in> set (map (\<lambda>r. (rid r, rip r)) tab)"
      unfolding p [symmetric] using that by auto
    then show ?thesis by auto
  qed
  show ?thesis
    unfolding unique_ips_def
  proof (intro conjI ballI allI impI)
    show "distinct (map rid tab')" using assms by (simp add: unique_ips_def)
    fix r r' ip assume m: "r \<in> set tab'" "r' \<in> set tab'" "rip r = Some ip \<and> rip r' = Some ip"
    from from_tab [OF m(1)] from_tab [OF m(2)] obtain q q' where
      "q \<in> set tab" "q' \<in> set tab" "rid q = rid r" "rip q = rip r" "rid q' = rid r'" "rip q' = rip r'" by blast
    with assms(3) m(3) show "rid r = rid r'" unfolding unique_ips_def by metis
  qed
qed

lemma unique_ips_put:
  assumes u: "unique_ips rid rip tab"
    and free: "\<And>r ip. rip row = Some ip \<Longrightarrow> r \<in> set tab \<Longrightarrow> rip r = Some ip \<Longrightarrow> rid r = rid row"
  shows "unique_ips rid rip (put_row rid row tab)"
  unfolding unique_ips_def
proof (intro conjI ballI allI impI)
  show "distinct (map rid (put_row rid row tab))" using u by (simp add: unique_ips_def)
  fix r r' ip assume "r \<in> set (put_row rid row tab)" "r' \<in> set (put_row rid row tab)"
    and ip: "rip r = Some ip \<and> rip r' = Some ip"
  then consider "r = row" "r' = row" | "r = row" "r' \<in> set tab" | "r \<in> set tab" "r' = row" | "r \<in> set tab" "r' \<in> set tab"
    using mem_put_row by metis
  then show "rid r = rid r'"
  proof cases
    case 4
    with u ip show ?thesis unfolding unique_ips_def by metis
  qed (use free ip in auto)
qed

locale relocator =
  fixes rid :: "'a \<Rightarrow> uid" and rip :: "'a \<Rightarrow> string option"
    and round :: "'env \<Rightarrow> mac_match list \<Rightarrow> uid \<Rightarrow> 'a list \<Rightarrow> 'a list \<times> 'e list"
  assumes round_skip: "find_row rid i tab = None \<Longrightarrow> fst (round env matches i tab) = tab"
    and round_keep: "find_row rid i tab = Some row \<Longrightarrow> move_target rid rip matches row tab = None
      \<Longrightarrow> fst (round env matches i tab) = tab"
    and round_move: "find_row rid i tab = Some row \<Longrightarrow> move_target rid rip matches row tab = Some new_ip
      \<Longrightarrow> fst (round env matches i tab) = tab
        \<or> (\<exists>row'. fst (round env matches i tab) = put_row rid row' tab \<and> rid row' = i
              \<and> (rip row' = Some new_ip \<or> rip row' = rip row))"
begin

lemma round_cases:
  obtains "fst (round env matches i tab) = tab"
  | row row' new_ip where "find_row rid i tab = Some row" "move_target rid rip matches row tab = Some new_ip"
      "fst (round env matches i tab) = put_row rid row' tab" "rid row' = i"
      "rip row' = Some new_ip \<or> rip row' = rip row"
proof (cases "find_row rid i tab")
  case None
  then show ?thesis by (intro that(1)) (rule round_skip)
next
  case (Some row)
  show ?thesis
  proof (cases "move_target rid rip matches row tab")
    case None
    with Some show ?thesis by (intro that(1)) (rule round_keep)
  next
    case (Some new_ip)
    with round_move [OF \<open>find_row rid i tab = Some row\<close> Some, of env] \<open>find_row rid i tab = Some row\<close>
    show ?thesis using that by blast
  qed
qed

lemma round_unique:
  assumes "unique_ips rid rip tab"
  shows "unique_ips rid rip (fst (round env matches i tab))"
proof (cases rule: round_cases [of env matches i tab])
  case 1
  with assms show ?thesis by simp
next
  case (2 row row' new_ip)
  note row = find_row_Some [OF 2(1)]
  have "unique_ips rid rip (put_row rid row' tab)"
  proof (rule unique_ips_put [OF assms])
    fix r ip assume r: "rip row' = Some ip" "r \<in> set tab" "rip r = Some ip"
    show "rid r = rid row'"
    proof (cases "rip row = Some ip")
      case True
      with r row 2(4) assms show ?thesis unfolding unique_ips_def by metis
    next
      case False
      with r 2(5) have "ip = new_ip" by auto
      with r row 2(4) move_target_Some [OF 2(2)] show ?thesis by auto
    qed
  qed
  with 2(3) show ?thesis by simp
qed

lemma round_other: "rid r \<noteq> i \<Longrightarrow> r \<in> set (fst (round env matches i tab)) \<longleftrightarrow> r \<in> set tab"
  by (cases rule: round_cases [of env matches i tab]) (simp_all add: put_row_other)

lemma round_ids: "map rid (fst (round env matches i tab)) = map rid tab"
  by (cases rule: round_cases [of env matches i tab]) simp_all

lemma rounds_unique:
  "unique_ips rid rip tab \<Longrightarrow> unique_ips rid rip (fst (fold_eff (round env matches) ids tab))"
  by (rule fold_eff_invariant) (auto intro: round_unique)

lemma rounds_ids: "map rid (fst (fold_eff (round env matches) ids tab)) = map rid tab"
  by (rule fold_eff_invariant [where P = "\<lambda>t. map rid t = map rid tab"]) (auto simp: round_ids)

lemma rounds_other:
  assumes "rid r \<notin> set ids"
  shows "r \<in> set (fst (fold_eff (round env matches) ids tab)) \<longleftrightarrow> r \<in> set tab"
proof (rule fold_eff_invariant [where P = "\<lambda>t. r \<in> set t \<longleftrightarrow> r \<in> set tab"])
  fix i s assume "i \<in> set ids" and s: "r \<in> set s \<longleftrightarrow> r \<in> set tab"
  with assms have "rid r \<noteq> i" by auto
  with s show "r \<in> set (fst (round env matches i s)) \<longleftrightarrow> r \<in> set tab" by (simp add: round_other)
qed simp

end

end
