(* ===== verification/Switch_Polling.thy ===== *)
theory Switch_Polling
  imports Relocation
begin

section \<open>Polling the network switches (app/domains/inventory/switch_polling.py)\<close>

text \<open>
  The provider that talks to a switch is a parameter \<open>poll\<close>: a poll of a row answers a
  \<open>switch_poll_info\<close> or raises (\<open>Inl\<close> the exception's text); \<open>fetch_mac\<close> is the SNMP MAC query.
  \<open>resolve\<close> is \<open>resolve_devices_by_mac\<close> with its network side fixed.
\<close>

subsection \<open>Rows and answers\<close>

record network_switch =
  ns_id :: uid
  ns_name :: ustr
  ns_ip :: string
  ns_is_online :: "bool option"
  ns_reachability_reason :: "string option"
  ns_hostname :: "string option"
  ns_model_info :: "string option"
  ns_ios_version :: "string option"
  ns_uptime :: "string option"
  ns_mac_address :: "string option"
  ns_mac_status :: "string option"
  ns_last_polled_at :: "instant option"

record switch_poll_info =
  pi_is_online :: bool
  pi_hostname :: "string option"
  pi_model_info :: "string option"
  pi_ios_version :: "string option"
  pi_uptime :: "string option"
  pi_offline_reason :: "string option"

datatype reason_label =
    Label_auth_rejected | Label_dns_failure | Label_timeout | Label_connection_refused
  | Label_network_unreachable | Label_no_response | Label_protocol_error | Label_other | Label_verbatim string

datatype switch_message =
    Switch_now ustr bool "reason_label option"
  | Switch_moved ustr string string
  | Switch_critical ustr string
  | Switch_path_suspect string

definition reason_labels :: "(string \<times> reason_label) list" where
  "reason_labels = [(''auth_rejected'', Label_auth_rejected), (''dns_failure'', Label_dns_failure),
     (''timeout'', Label_timeout), (''connection_refused'', Label_connection_refused),
     (''network_unreachable'', Label_network_unreachable), (''no_response'', Label_no_response),
     (''protocol_error'', Label_protocol_error), (''other'', Label_other)]"

definition record_switch_status_change :: "network_switch \<Rightarrow> bool option \<Rightarrow> switch_message effect list" where
  "record_switch_status_change switch was_online =
   (if was_online = None \<or> was_online = ns_is_online switch then []
    else
      let online = (ns_is_online switch = Some True);
          suffix = (if online then None
                    else map_option (\<lambda>w. case map_of reason_labels w of Some l \<Rightarrow> l | None \<Rightarrow> Label_verbatim w)
                           (truthy (ns_reachability_reason switch)))
      in [EventLog \<lparr>ev_severity = (if online then ''info'' else ''warning''), ev_category = ''device'',
            ev_type = (if online then ''device_online'' else ''device_offline''),
            ev_device_kind = Some ''switch'', ev_device_name = Some (ns_name switch),
            ev_ip_address = Some (ns_ip switch), ev_message = Switch_now (ns_name switch) online suffix\<rparr>])"

text \<open>\<open>write_switch_snapshot\<close> of ml_snapshots.py.\<close>

definition switch_snapshot :: "network_switch \<Rightarrow> string \<Rightarrow> 'm effect" where
  "switch_snapshot sw source = Snapshot \<lparr>fr_device_kind = ''switch'', fr_device_id = ns_id sw,
     fr_device_name = Some (ns_name sw),
     fr_address = (if ns_ip sw \<noteq> [] then Some (ns_ip sw) else ns_hostname sw),
     fr_is_online = ns_is_online sw, fr_source = source, fr_page_count = None, fr_toner = None\<rparr>"

subsection \<open>MAC verification and applying an answer\<close>

definition verify_switch_mac :: "network_switch \<Rightarrow> string option \<Rightarrow> network_switch \<times> string" where
  "verify_switch_mac switch current_mac = (case current_mac of
     None \<Rightarrow> (switch, ''unavailable'')
   | Some m \<Rightarrow> (case truthy (ns_mac_address switch) of
         None \<Rightarrow> (switch\<lparr>ns_mac_address := Some m\<rparr>, ''verified'')
       | Some known \<Rightarrow> (switch, if lower known = lower m then ''verified'' else ''mismatch'')))"

definition apply_switch_poll_info ::
  "instant \<Rightarrow> switch_poll_info \<Rightarrow> bool option \<Rightarrow> network_switch \<Rightarrow> network_switch" where
  "apply_switch_poll_info now info effective switch =
   (let online = (case effective of None \<Rightarrow> pi_is_online info | Some b \<Rightarrow> b)
    in switch\<lparr>ns_is_online := Some online,
              ns_reachability_reason := (if online then None else pi_offline_reason info),
              ns_hostname := or_else (pi_hostname info) (ns_hostname switch),
              ns_model_info := or_else (pi_model_info info) (ns_model_info switch),
              ns_ios_version := or_else (pi_ios_version info) (ns_ios_version switch),
              ns_uptime := or_else (pi_uptime info) (ns_uptime switch),
              ns_last_polled_at := Some now\<rparr>)"

type_synonym switch_answer = "switch_poll_info option \<times> string option \<times> string option"

definition poll_one_switch ::
  "(network_switch \<Rightarrow> string + switch_poll_info) \<Rightarrow> (network_switch \<Rightarrow> string option) \<Rightarrow> network_switch \<Rightarrow> switch_answer" where
  "poll_one_switch poll fetch_mac switch = (case poll switch of
     Inl exc \<Rightarrow> (None, None, Some exc)
   | Inr info \<Rightarrow> (Some info, if pi_is_online info then fetch_mac switch else None, None))"

subsection \<open>Outage detection\<close>

definition switch_answer_online :: "switch_answer \<Rightarrow> bool" where
  "switch_answer_online ans = (case ans of (info, _, exc) \<Rightarrow>
     (case info of None \<Rightarrow> False | Some i \<Rightarrow> pi_is_online i \<and> exc = None))"

definition switch_subnets_with_total_failure ::
  "outage_settings \<Rightarrow> (network_switch \<times> switch_answer) list \<Rightarrow> string list" where
  "switch_subnets_with_total_failure cfg results =
     total_failure_subnets cfg (map (\<lambda>(sw, ans). (ns_ip sw, switch_answer_online ans)) results)"

text \<open>The suspect set is a Python set: the events are written in sorted order.\<close>

definition switch_suspect_events :: "string list \<Rightarrow> switch_message effect list" where
  "switch_suspect_events subnets =
     map (\<lambda>s. EventLog \<lparr>ev_severity = ''warning'', ev_category = ''network'', ev_type = ''poll_path_suspect'',
        ev_device_kind = Some ''switch'', ev_device_name = Some (cp (s @ ''.0/24'')), ev_ip_address = None,
        ev_message = Switch_path_suspect s\<rparr>) (sort subnets)
     @ (if subnets = [] then [] else [Commit])"

subsection \<open>One row of the bulk poll\<close>

text \<open>
  The loop body for a polled switch: the updated row, whether it joins \<open>offline_with_mac\<close>, and
  whether it counted as an error. The first case is the path-suspect \<open>continue\<close>; the second the
  body of the \<open>try\<close>; the third its \<open>except\<close> branch (an exception from the poll, or no data).
\<close>

definition poll_switch_ok ::
  "'r redis_ops \<Rightarrow> poll_settings \<Rightarrow> instant \<Rightarrow> switch_poll_info \<Rightarrow> string option \<Rightarrow> network_switch \<Rightarrow> 'r
   \<Rightarrow> (network_switch \<times> bool \<times> bool) \<times> 'r \<times> switch_message effect list" where
  "poll_switch_ok ops cfg now info current_mac switch r =
   (let (online, r', es) = apply_poll_outcome ops cfg now ''switch'' (ns_id switch)
          (ns_is_online switch = Some True) (pi_is_online info) False r;
        sw1 = apply_switch_poll_info now info (Some online) switch;
        sw2 = (if online then (let (s, status) = verify_switch_mac sw1 current_mac in s\<lparr>ns_mac_status := Some status\<rparr>)
               else sw1)
    in ((sw2, \<not> online \<and> truthy (ns_mac_address sw2) \<noteq> None, False), r',
        es @ record_switch_status_change sw2 (ns_is_online switch)
           @ [Metric ''switch_ops_total'' [''poll_all'', if online then ''online'' else ''offline''],
              switch_snapshot sw2 ''bulk_poll'']))"

definition poll_switch_failed ::
  "'r redis_ops \<Rightarrow> poll_settings \<Rightarrow> instant \<Rightarrow> string \<Rightarrow> network_switch \<Rightarrow> 'r
   \<Rightarrow> (network_switch \<times> bool \<times> bool) \<times> 'r \<times> switch_message effect list" where
  "poll_switch_failed ops cfg now exc switch r =
   (let (online, r', es) = apply_poll_outcome ops cfg now ''switch'' (ns_id switch)
          (ns_is_online switch = Some True) False True r;
        sw1 = switch\<lparr>ns_is_online := Some online,
                     ns_reachability_reason := (if online then None else Some ''other''),
                     ns_last_polled_at := Some now\<rparr>
    in ((sw1, truthy (ns_mac_address sw1) \<noteq> None, True), r',
        EventLog \<lparr>ev_severity = ''critical'', ev_category = ''system'', ev_type = ''critical_poll_error'',
          ev_device_kind = Some ''switch'', ev_device_name = Some (ns_name switch),
          ev_ip_address = Some (ns_ip switch), ev_message = Switch_critical (ns_name switch) exc\<rparr>
        # es @ [switch_snapshot sw1 ''bulk_poll_error'', Metric ''switch_ops_total'' [''poll_all'', ''error'']]))"

definition poll_switch_row ::
  "'r redis_ops \<Rightarrow> poll_settings \<Rightarrow> instant \<Rightarrow> string list \<Rightarrow> (uid \<rightharpoonup> switch_answer) \<Rightarrow> network_switch \<Rightarrow> 'r
   \<Rightarrow> (network_switch \<times> bool \<times> bool) \<times> 'r \<times> switch_message effect list" where
  "poll_switch_row ops cfg now suspect answers switch r =
   (case answers (ns_id switch) of
      None \<Rightarrow> ((switch, False, False), r, [])
    | Some (info, current_mac, exc) \<Rightarrow>
        if subnet_of (ns_ip switch) \<in> set suspect
        then ((switch, False, False), r, [Metric ''switch_ops_total'' [''poll_all'', ''path_suspect'']])
        else (case exc of
            Some e \<Rightarrow> poll_switch_failed ops cfg now e switch r
          | None \<Rightarrow> (case info of
              None \<Rightarrow> poll_switch_failed ops cfg now ''poll returned no data'' switch r
            | Some i \<Rightarrow> poll_switch_ok ops cfg now i current_mac switch r)))"

subsection \<open>Relocation\<close>

definition switch_target :: "network_switch \<Rightarrow> mac_target" where
  "switch_target sw = \<lparr>mt_kind = ''switch'', mt_entity_id = ns_id sw, mt_name = ns_name sw,
     mt_current_ip = Some (ns_ip sw), mt_mac = (case ns_mac_address sw of None \<Rightarrow> [] | Some m \<Rightarrow> m)\<rparr>"

definition switch_ip :: "network_switch \<Rightarrow> string option" where
  "switch_ip sw = Some (ns_ip sw)"

definition ip_changed_event :: "network_switch \<Rightarrow> string \<Rightarrow> string \<Rightarrow> switch_message effect" where
  "ip_changed_event sw old_ip new_ip =
     EventLog \<lparr>ev_severity = ''warning'', ev_category = ''network'', ev_type = ''ip_changed'',
       ev_device_kind = Some ''switch'', ev_device_name = Some (ns_name sw), ev_ip_address = Some new_ip,
       ev_message = Switch_moved (ns_name sw) old_ip new_ip\<rparr>"

definition relocate_switch ::
  "mac_match list \<Rightarrow> uid \<Rightarrow> network_switch list \<Rightarrow> network_switch list \<times> switch_message effect list" where
  "relocate_switch matches i tab = (case find_row ns_id i tab of
     None \<Rightarrow> (tab, [])
   | Some sw \<Rightarrow> (case move_target ns_id switch_ip matches sw tab of
         None \<Rightarrow> (tab, [])
       | Some new_ip \<Rightarrow> (put_row ns_id (sw\<lparr>ns_ip := new_ip\<rparr>) tab, [ip_changed_event sw (ns_ip sw) new_ip])))"

definition relocate_offline_switches ::
  "(mac_target list \<Rightarrow> mac_match list) \<Rightarrow> uid list \<Rightarrow> network_switch list
   \<Rightarrow> network_switch list \<times> switch_message effect list" where
  "relocate_offline_switches resolve offline tab =
   (if offline = [] then (tab, [])
    else
      let targets = map switch_target (filter (\<lambda>sw. truthy (ns_mac_address sw) \<noteq> None)
                      (List.map_filter (\<lambda>i. find_row ns_id i tab) offline))
      in fold_eff (relocate_switch (resolve targets)) offline tab)"

subsection \<open>The bulk poll\<close>

definition poll_all_switches_local ::
  "'r redis_ops \<Rightarrow> poll_settings \<Rightarrow> outage_settings \<Rightarrow> instant \<Rightarrow> (network_switch \<Rightarrow> string + switch_poll_info)
   \<Rightarrow> (network_switch \<Rightarrow> string option) \<Rightarrow> (mac_target list \<Rightarrow> mac_match list) \<Rightarrow> network_switch list \<Rightarrow> 'r
   \<Rightarrow> network_switch list \<times> 'r \<times> switch_message effect list" where
  "poll_all_switches_local ops cfg out now poll fetch_mac resolve tab r =
   (let lock_key = ''lock:poll-all:switches'';
        (lock_acquired, r0) = acquire_poll_lock ops lock_key r;
        counts = DeviceCounts ''switch'' (length tab) (length (filter (\<lambda>s. ns_is_online s = Some True) tab))
    in if \<not> lock_acquired then (tab, r0, [counts])
       else
         let (flags, r1, e1) = circuit_flags ops now ''switch'' (map ns_id tab) r0;
             skipped = map (\<lambda>_. Metric ''switch_ops_total'' [''poll_all'', ''skipped'']) (filter id flags);
             results = map (\<lambda>sw. (sw, poll_one_switch poll fetch_mac sw)) (select_closed tab flags);
             suspect = switch_subnets_with_total_failure out results;
             answers = map_of (map (\<lambda>(sw, ans). (ns_id sw, ans)) results);
             (rows, r2, e2) = thread (poll_switch_row ops cfg now suspect answers) tab r1;
             offline = map (\<lambda>(sw, off, err). ns_id sw) (filter (\<lambda>(sw, off, err). off) rows);
             errors = length (filter (\<lambda>(sw, off, err). err) rows);
             (tab', e3) = relocate_offline_switches resolve offline (map fst rows)
         in (tab', release_poll_lock ops lock_key r2,
             counts # e1 @ skipped @ switch_suspect_events suspect @ e2 @ e3
             @ [Commit, MetricBy ''network_bulk_processed_total'' [''switch_poll_all'', ''success'']
                  (max (int (length tab) - int errors) 0)]
             @ (if errors > 0 then [MetricBy ''network_bulk_processed_total'' [''switch_poll_all'', ''error''] (int errors)] else [])))"

subsection \<open>A single switch\<close>

datatype single_poll_error = Switch_not_found | Poll_raised string

definition poll_single_switch_local ::
  "instant \<Rightarrow> (network_switch \<Rightarrow> string + switch_poll_info) \<Rightarrow> (network_switch \<Rightarrow> string option)
   \<Rightarrow> (mac_target list \<Rightarrow> mac_match list) \<Rightarrow> uid \<Rightarrow> network_switch list
   \<Rightarrow> single_poll_error + network_switch list \<times> switch_message effect list" where
  "poll_single_switch_local now poll fetch_mac resolve switch_id tab =
   (case find_row ns_id switch_id tab of
      None \<Rightarrow> Inl Switch_not_found
    | Some sw0 \<Rightarrow> (case poll sw0 of
        Inl exc \<Rightarrow> Inl (Poll_raised exc)
      | Inr info0 \<Rightarrow>
        let moved_to = (if \<not> pi_is_online info0 \<and> truthy (ns_mac_address sw0) \<noteq> None
                        then (case resolve [switch_target sw0] of
                                [] \<Rightarrow> None
                              | m # _ \<Rightarrow> if mm_new_ip m = [] \<or> mm_new_ip m = ns_ip sw0 then None
                                        else if ip_conflict ns_id switch_ip (ns_id sw0) (mm_new_ip m) tab then None
                                        else Some (mm_new_ip m))
                        else None);
            sw1 = (case moved_to of None \<Rightarrow> sw0 | Some ip \<Rightarrow> sw0\<lparr>ns_ip := ip\<rparr>);
            e1 = (case moved_to of None \<Rightarrow> [] | Some ip \<Rightarrow> [ip_changed_event sw0 (ns_ip sw0) ip])
        in (case (case moved_to of None \<Rightarrow> Inr info0 | Some ip \<Rightarrow> poll sw1) of
              Inl exc \<Rightarrow> Inl (Poll_raised exc)
            | Inr info \<Rightarrow>
                let sw2 = apply_switch_poll_info now info None sw1;
                    sw3 = (if pi_is_online info
                           then (let (s, status) = verify_switch_mac sw2 (fetch_mac sw2) in s\<lparr>ns_mac_status := Some status\<rparr>)
                           else sw2)
                in Inr (put_row ns_id sw3 tab,
                        e1 @ [Metric ''switch_ops_total'' [''poll'', if pi_is_online info then ''online'' else ''offline'']]
                        @ record_switch_status_change sw3 (ns_is_online sw0)
                        @ [switch_snapshot sw3 ''single_poll'', Commit]))))"

subsection \<open>What one row keeps\<close>

definition same_switch :: "network_switch \<Rightarrow> network_switch \<Rightarrow> bool" where
  "same_switch sw sw' \<longleftrightarrow> ns_id sw' = ns_id sw \<and> ns_name sw' = ns_name sw \<and>
     (truthy (ns_mac_address sw) \<noteq> None \<longrightarrow> ns_mac_address sw' = ns_mac_address sw)"

lemma same_switch_refl [simp]: "same_switch sw sw"
  by (simp add: same_switch_def)

lemma verify_switch_mac_keeps:
  "ns_id (fst (verify_switch_mac sw m)) = ns_id sw"
  "ns_ip (fst (verify_switch_mac sw m)) = ns_ip sw"
  "ns_name (fst (verify_switch_mac sw m)) = ns_name sw"
  "truthy (ns_mac_address sw) \<noteq> None \<Longrightarrow> ns_mac_address (fst (verify_switch_mac sw m)) = ns_mac_address sw"
  by (auto simp: verify_switch_mac_def split: option.splits)

lemma apply_switch_poll_info_keeps [simp]:
  "ns_id (apply_switch_poll_info now info e sw) = ns_id sw"
  "ns_ip (apply_switch_poll_info now info e sw) = ns_ip sw"
  "ns_name (apply_switch_poll_info now info e sw) = ns_name sw"
  "ns_mac_address (apply_switch_poll_info now info e sw) = ns_mac_address sw"
  by (simp_all add: apply_switch_poll_info_def Let_def)

lemma poll_switch_row_keeps:
  "same_switch sw (fst (fst (poll_switch_row ops cfg now suspect answers sw r)))
   \<and> ns_ip (fst (fst (poll_switch_row ops cfg now suspect answers sw r))) = ns_ip sw"
  by (auto simp: poll_switch_row_def poll_switch_ok_def poll_switch_failed_def same_switch_def Let_def split_beta
      verify_switch_mac_keeps split: option.splits)

lemma poll_switch_row_untouched:
  "answers (ns_id sw) = None \<or> subnet_of (ns_ip sw) \<in> set suspect \<Longrightarrow>
   fst (poll_switch_row ops cfg now suspect answers sw r) = (sw, False, False)"
  by (auto simp: poll_switch_row_def split: option.splits)

interpretation switches: relocator ns_id switch_ip "\<lambda>(_::unit). relocate_switch"
proof
  fix i tab row matches new_ip
  assume "find_row ns_id i tab = Some row" "move_target ns_id switch_ip matches row tab = Some new_ip"
  then show "fst (relocate_switch matches i tab) = tab \<or>
      (\<exists>row'. fst (relocate_switch matches i tab) = put_row ns_id row' tab \<and> ns_id row' = i
        \<and> (switch_ip row' = Some new_ip \<or> switch_ip row' = switch_ip row))"
    by (intro disjI2 exI [of _ "row\<lparr>ns_ip := new_ip\<rparr>"])
      (auto simp: relocate_switch_def switch_ip_def dest: find_row_Some)
qed (simp_all add: relocate_switch_def)

lemma relocate_offline_switches_rounds:
  "\<exists>matches. fst (relocate_offline_switches resolve offline tab) = fst (fold_eff (relocate_switch matches) offline tab)"
  by (auto simp: relocate_offline_switches_def Let_def)

lemma relocate_switch_same:
  assumes "list_all2 same_switch tab tab'" "distinct (map ns_id tab')"
  shows "list_all2 same_switch tab (fst (relocate_switch matches i tab'))"
proof (cases rule: switches.round_cases [where matches = matches and i = i and tab = tab'])
  case 1
  with assms show ?thesis by simp
next
  case (2 row row' new_ip)
  then have "fst (relocate_switch matches i tab') = put_row ns_id (row\<lparr>ns_ip := new_ip\<rparr>) tab'"
    by (simp add: relocate_switch_def)
  then show ?thesis
    using list_all2_put_row [OF assms, of row "row\<lparr>ns_ip := new_ip\<rparr>"] find_row_Some [OF 2(1)]
    by (simp add: same_switch_def)
qed

lemma relocate_offline_switches_same:
  assumes "list_all2 same_switch tab tab'" "distinct (map ns_id tab')"
  shows "list_all2 same_switch tab (fst (relocate_offline_switches resolve offline tab'))"
proof -
  obtain matches where m: "fst (relocate_offline_switches resolve offline tab') = fst (fold_eff (relocate_switch matches) offline tab')"
    using relocate_offline_switches_rounds by blast
  have "list_all2 same_switch tab (fst (fold_eff (relocate_switch matches) offline tab'))
      \<and> distinct (map ns_id (fst (fold_eff (relocate_switch matches) offline tab')))"
    by (rule fold_eff_invariant) (use assms relocate_switch_same switches.round_ids in auto)
  with m show ?thesis by simp
qed

subsection \<open>The whole bulk poll\<close>

definition switch_results ::
  "(network_switch \<Rightarrow> string + switch_poll_info) \<Rightarrow> (network_switch \<Rightarrow> string option) \<Rightarrow> network_switch list
   \<Rightarrow> bool list \<Rightarrow> (network_switch \<times> switch_answer) list" where
  "switch_results poll fetch_mac tab flags =
     map (\<lambda>sw. (sw, poll_one_switch poll fetch_mac sw)) (select_closed tab flags)"

lemma poll_all_switches_cases:
  fixes ops :: "'r redis_ops"
  obtains (busy) "fst (acquire_poll_lock ops ''lock:poll-all:switches'' r) = False"
      "fst (poll_all_switches_local ops cfg out now poll fetch_mac resolve tab r) = tab"
  | (run) r0 flags r1 rows where
      "acquire_poll_lock ops ''lock:poll-all:switches'' r = (True, r0)"
      "fst (circuit_flags ops now ''switch'' (map ns_id tab) r0 :: bool list \<times> 'r \<times> switch_message effect list) = flags"
      "fst (snd (circuit_flags ops now ''switch'' (map ns_id tab) r0 :: bool list \<times> 'r \<times> switch_message effect list)) = r1"
      "rows = fst (thread (poll_switch_row ops cfg now
          (switch_subnets_with_total_failure out (switch_results poll fetch_mac tab flags))
          (map_of (map (\<lambda>(sw, ans). (ns_id sw, ans)) (switch_results poll fetch_mac tab flags)))) tab r1)"
      "fst (poll_all_switches_local ops cfg out now poll fetch_mac resolve tab r) =
         fst (relocate_offline_switches resolve
           (map (\<lambda>(sw, off, err). ns_id sw) (filter (\<lambda>(sw, off, err). off) rows)) (map fst rows))"
proof (cases "acquire_poll_lock ops ''lock:poll-all:switches'' r")
  case (Pair got r0)
  show ?thesis
  proof (cases got)
    case False
    with Pair show ?thesis by (intro that(1)) (simp_all add: poll_all_switches_local_def Let_def)
  next
    case True
    with Pair show ?thesis
      by (intro that(2) [OF _ refl refl refl])
        (simp_all add: poll_all_switches_local_def switch_results_def Let_def split_beta)
  qed
qed

lemma rows_same:
  assumes "rows = fst (thread (poll_switch_row ops cfg now suspect answers) tab r1)"
  shows "list_all2 same_switch tab (map fst rows)" "map ns_id (map fst rows) = map ns_id tab"
    "map switch_ip (map fst rows) = map switch_ip tab"
proof -
  have a: "list_all2 (\<lambda>sw row. same_switch sw (fst row) \<and> ns_ip (fst row) = ns_ip sw) tab rows"
    unfolding assms by (rule thread_all2) (rule poll_switch_row_keeps)
  from a show "list_all2 same_switch tab (map fst rows)"
    by (simp add: list.rel_map) (erule list_all2_mono, simp)
  from a show "map ns_id (map fst rows) = map ns_id tab" "map switch_ip (map fst rows) = map switch_ip tab"
    by (induction rule: list_all2_induct) (simp_all add: same_switch_def switch_ip_def)
qed

lemma list_all2_same_mem:
  "list_all2 same_switch tab tab' \<Longrightarrow> sw \<in> set tab \<Longrightarrow> \<exists>sw' \<in> set tab'. same_switch sw sw'"
  by (induction rule: list_all2_induct) auto

lemma thread_unchanged:
  assumes "\<And>r. fst (step x r) = (x, False, False)" "x \<in> set xs"
  shows "(x, False, False) \<in> set (fst (thread step xs r))"
  using assms(2)
proof (induction xs arbitrary: r)
  case (Cons y ys)
  with assms(1) show ?case by (auto simp: thread_Cons simp del: thread.simps(2))
qed simp

subsection \<open>A store whose link is down\<close>

definition store_switch :: "uid \<Rightarrow> string \<Rightarrow> network_switch" where
  "store_switch i ip = \<lparr>ns_id = i, ns_name = cp i, ns_ip = ip, ns_is_online = Some True,
     ns_reachability_reason = None, ns_hostname = None, ns_model_info = None, ns_ios_version = None,
     ns_uptime = None, ns_mac_address = Some ''00:11:22:33:44:55'', ns_mac_status = None, ns_last_polled_at = None\<rparr>"

definition dead_link :: "network_switch \<Rightarrow> string + switch_poll_info" where
  "dead_link sw = Inr \<lparr>pi_is_online = False, pi_hostname = None, pi_model_info = None, pi_ios_version = None,
     pi_uptime = None, pi_offline_reason = Some ''timeout''\<rparr>"

definition dead_store :: "network_switch list" where
  "dead_store = [store_switch ''a'' ''10.1.1.1'', store_switch ''b'' ''10.1.1.2'', store_switch ''c'' ''10.1.1.3'']"

subsection \<open>Properties\<close>

text \<open>C20: a switch that this cycle learned nothing about is left exactly as it was, \<open>last_polled_at\<close>
  included: one whose circuit is open, or one in a subnet where practically every polled switch failed
  (then neither its state is touched nor is it relocated).\<close>

theorem suspect_switches_untouched:
  assumes ok: "redis_ok ops hv sv" and d: "distinct (map ns_id tab)" and sw: "sw \<in> set tab"
    and quiet: "circuit_is_open now (hv r (resilience_key ''switch'' (ns_id sw))) \<or>
      subnet_of (ns_ip sw) \<in> set (switch_subnets_with_total_failure out
        (map (\<lambda>s. (s, poll_one_switch poll fetch_mac s))
          (filter (\<lambda>s. \<not> circuit_is_open now (hv r (resilience_key ''switch'' (ns_id s)))) tab)))"
  shows "sw \<in> set (fst (poll_all_switches_local ops cfg out now poll fetch_mac resolve tab r))"
proof (cases rule: poll_all_switches_cases [of ops r cfg out now poll fetch_mac resolve tab])
  case busy
  with sw show ?thesis by simp
next
  case (run r0 flags r1 rows)
  let ?open = "\<lambda>s. circuit_is_open now (hv r (resilience_key ''switch'' (ns_id s)))"
  have "hv r0 = hv r" using acquire_poll_lock_ok [OF ok, of "''lock:poll-all:switches''" r] run(1) by auto
  then have flags: "flags = map ?open tab"
    unfolding run(2) [symmetric] by (simp add: circuit_flags_ok(1) [OF ok] comp_def)
  let ?res = "map (\<lambda>s. (s, poll_one_switch poll fetch_mac s)) (filter (\<lambda>s. \<not> ?open s) tab)"
  have res: "switch_results poll fetch_mac tab flags = ?res"
    by (simp add: switch_results_def flags select_closed_map)
  have inj: "a = b" if "a \<in> set tab" "b \<in> set tab" "ns_id a = ns_id b" for a b
    using d that by (metis distinct_map inj_onD)
  have none: "map_of (map (\<lambda>(sw, ans). (ns_id sw, ans)) ?res) (ns_id sw) = None" if "?open sw"
    using that inj [OF sw] by (auto simp: map_of_eq_None_iff)
  have step: "fst (poll_switch_row ops cfg now (switch_subnets_with_total_failure out ?res)
      (map_of (map (\<lambda>(sw, ans). (ns_id sw, ans)) ?res)) sw r) = (sw, False, False)" for r
    by (rule poll_switch_row_untouched) (use quiet none in blast)
  have mem: "(sw, False, False) \<in> set rows"
    unfolding run(4) res by (rule thread_unchanged) (rule step, rule sw)
  have ids: "map ns_id (map fst rows) = map ns_id tab" using rows_same(2) [OF run(4)] .
  have "ns_id sw \<notin> set (map (\<lambda>(sw, off, err). ns_id sw) (filter (\<lambda>(sw, off, err). off) rows))"
  proof
    assume "ns_id sw \<in> set (map (\<lambda>(sw, off, err). ns_id sw) (filter (\<lambda>(sw, off, err). off) rows))"
    then obtain sw' err where o: "(sw', True, err) \<in> set rows" "ns_id sw' = ns_id sw" by auto
    have "distinct (map (ns_id \<circ> fst) rows)" using ids d by simp
    then have "(sw', True, err) = (sw, False, False)"
      using inj_onD [of "ns_id \<circ> fst" "set rows" "(sw', True, err)" "(sw, False, False)"] o mem
      by (simp add: distinct_map)
    then show False by simp
  qed
  moreover obtain matches where "fst (relocate_offline_switches resolve
      (map (\<lambda>(sw, off, err). ns_id sw) (filter (\<lambda>(sw, off, err). off) rows)) (map fst rows))
    = fst (fold_eff (relocate_switch matches) (map (\<lambda>(sw, off, err). ns_id sw) (filter (\<lambda>(sw, off, err). off) rows)) (map fst rows))"
    using relocate_offline_switches_rounds by blast
  moreover have "sw \<in> set (map fst rows)" using mem by force
  ultimately show ?thesis unfolding run(5) by (simp add: switches.rounds_other)
qed

theorem suspect_switches_untouched_witness:
  "store_switch ''a'' ''10.1.1.1'' \<in> set (fst (poll_all_switches_local map_redis default_poll_settings
     default_outage_settings 100 dead_link (\<lambda>_. None) (\<lambda>_. []) dead_store empty_redis))"
proof -
  let ?res = "map (\<lambda>s. (s, poll_one_switch dead_link (\<lambda>_. None) s)) dead_store"
  have open0: "circuit_is_open 100 (fst empty_redis k) = False" for k
    by (simp add: circuit_is_open_def empty_redis_def to_int_def)
  have "distinct (map ns_id dead_store)" by (simp add: dead_store_def store_switch_def)
  moreover have "store_switch ''a'' ''10.1.1.1'' \<in> set dead_store" by (simp add: dead_store_def)
  moreover have "subnet_of (ns_ip (store_switch ''a'' ''10.1.1.1''))
      \<in> set (switch_subnets_with_total_failure default_outage_settings ?res)"
    by code_simp
  ultimately show ?thesis
    using suspect_switches_untouched [OF map_redis_ok, of dead_store "store_switch ''a'' ''10.1.1.1''" 100 empty_redis
        default_outage_settings dead_link "\<lambda>_. None" default_poll_settings "\<lambda>_. []"]
    by (simp add: open0)
qed

text \<open>A full switch poll keeps every row's id and name, keeps the addresses unique (the relocation never
  moves a switch onto an address another row has), and never overwrites a recorded MAC.\<close>

theorem switch_poll_keeps_identity:
  assumes u: "unique_ips ns_id switch_ip tab"
  shows "unique_ips ns_id switch_ip (fst (poll_all_switches_local ops cfg out now poll fetch_mac resolve tab r))
    \<and> list_all2 same_switch tab (fst (poll_all_switches_local ops cfg out now poll fetch_mac resolve tab r))"
proof (cases rule: poll_all_switches_cases [of ops r cfg out now poll fetch_mac resolve tab])
  case busy
  with u show ?thesis by (simp add: list.rel_refl)
next
  case (run r0 flags r1 rows)
  let ?off = "map (\<lambda>(sw, off, err). ns_id sw) (filter (\<lambda>(sw, off, err). off) rows)"
  note keep = rows_same [OF run(4)]
  have u': "unique_ips ns_id switch_ip (map fst rows)" by (rule unique_ips_same [OF keep(2,3) u])
  have d: "distinct (map ns_id (map fst rows))" using u' by (simp add: unique_ips_def)
  obtain matches where m: "fst (relocate_offline_switches resolve ?off (map fst rows))
      = fst (fold_eff (relocate_switch matches) ?off (map fst rows))"
    using relocate_offline_switches_rounds by blast
  from switches.rounds_unique [OF u'] relocate_offline_switches_same [OF keep(1) d]
  show ?thesis unfolding run(5) m by (metis m)
qed

theorem switch_poll_keeps_identity_witness:
  "unique_ips ns_id switch_ip (fst (poll_all_switches_local map_redis default_poll_settings
     default_outage_settings 100 dead_link (\<lambda>_. None) (\<lambda>_. []) dead_store empty_redis))"
proof -
  have "unique_ips ns_id switch_ip dead_store"
    by (simp add: unique_ips_def dead_store_def store_switch_def switch_ip_def)
  from switch_poll_keeps_identity [OF this, where ops = map_redis and r = empty_redis and cfg = default_poll_settings
      and out = default_outage_settings and now = 100 and poll = dead_link and fetch_mac = "\<lambda>_. None" and resolve = "\<lambda>_. []"]
  show ?thesis by (rule conjunct1)
qed

end
