(* ===== verification/Media_Polling.thy ===== *)
theory Media_Polling
  imports Switch_Polling
begin

section \<open>Polling the media players (app/domains/inventory/media_polling.py)\<close>

text \<open>
  An iconbit player is probed on its control port through theory Reachability's TCP probe (the
  parameter \<open>probe\<close>); any other player through \<open>poll_device\<close>, a parameter that answers a result or
  raises (\<open>None\<close>). DeviceStatus and LightMediaPollResult are read through the same fields; a
  DeviceStatus has no \<open>path_failure\<close>, which reads as False.
\<close>

subsection \<open>Rows and results\<close>

record media_player =
  mp_id :: uid
  mp_device_type :: string
  mp_name :: ustr
  mp_ip :: string
  mp_mac_address :: "string option"
  mp_is_online :: "bool option"
  mp_hostname :: "string option"
  mp_os_info :: "string option"
  mp_uptime :: "ustr option"
  mp_open_ports :: "string option"
  mp_last_polled_at :: "instant option"

record media_result =
  mr_is_online :: bool
  mr_hostname :: "string option"
  mr_os_info :: "string option"
  mr_uptime :: "ustr option"
  mr_open_ports :: "int list option"
  mr_mac_address :: "string option"
  mr_path_failure :: bool

datatype media_message = Media_now ustr bool | Media_moved ustr string string

definition iconbit_port :: int where
  "iconbit_port = 8081"

definition media_player_mac_target :: "media_player \<Rightarrow> mac_target" where
  "media_player_mac_target p = \<lparr>mt_kind = ''media_player'', mt_entity_id = mp_id p, mt_name = mp_name p,
     mt_current_ip = Some (mp_ip p), mt_mac = (case mp_mac_address p of None \<Rightarrow> [] | Some m \<Rightarrow> m)\<rparr>"

definition record_media_player_status_change :: "media_player \<Rightarrow> bool option \<Rightarrow> media_message effect list" where
  "record_media_player_status_change p was_online =
   (if was_online = None \<or> was_online = mp_is_online p then []
    else let online = (mp_is_online p = Some True) in
      [EventLog \<lparr>ev_severity = (if online then ''info'' else ''warning''), ev_category = ''device'',
         ev_type = (if online then ''device_online'' else ''device_offline''),
         ev_device_kind = Some ''media_player'', ev_device_name = Some (mp_name p),
         ev_ip_address = Some (mp_ip p), ev_message = Media_now (mp_name p) online\<rparr>])"

definition media_snapshot :: "media_player \<Rightarrow> string \<Rightarrow> media_message effect" where
  "media_snapshot p source = Snapshot \<lparr>fr_device_kind = ''media_player'', fr_device_id = mp_id p,
     fr_device_name = Some (mp_name p),
     fr_address = (if mp_ip p \<noteq> [] then Some (mp_ip p) else mp_hostname p),
     fr_is_online = mp_is_online p, fr_source = source, fr_page_count = None, fr_toner = None\<rparr>"

definition media_ip_changed :: "media_player \<Rightarrow> string \<Rightarrow> string \<Rightarrow> media_message effect" where
  "media_ip_changed p old_ip new_ip =
     EventLog \<lparr>ev_severity = ''warning'', ev_category = ''network'', ev_type = ''ip_changed'',
       ev_device_kind = Some ''media_player'', ev_device_name = Some (mp_name p), ev_ip_address = Some new_ip,
       ev_message = Media_moved (mp_name p) old_ip new_ip\<rparr>"

subsection \<open>One poll\<close>

definition probe_iconbit :: "(string \<Rightarrow> int \<Rightarrow> reachability_result) \<Rightarrow> string \<Rightarrow> media_result" where
  "probe_iconbit probe ip =
   (let p = probe ip iconbit_port
    in \<lparr>mr_is_online = rr_online p, mr_hostname = None, mr_os_info = None, mr_uptime = None,
        mr_open_ports = Some (if rr_online p then [iconbit_port] else []), mr_mac_address = None,
        mr_path_failure = is_path_failure p\<rparr>)"

definition poll_one_media_player ::
  "(string \<Rightarrow> int \<Rightarrow> reachability_result) \<Rightarrow> (string \<Rightarrow> media_result option) \<Rightarrow> media_player \<Rightarrow> media_result option" where
  "poll_one_media_player probe poll_device p =
     (if mp_device_type p = ''iconbit'' then Some (probe_iconbit probe (mp_ip p)) else poll_device (mp_ip p))"

definition apply_media_poll_result :: "media_result option \<Rightarrow> media_player \<Rightarrow> media_player" where
  "apply_media_poll_result result p = (case result of
     None \<Rightarrow> p\<lparr>mp_is_online := Some False\<rparr>
   | Some res \<Rightarrow>
       if \<not> mr_is_online res then p\<lparr>mp_is_online := Some False\<rparr>
       else p\<lparr>mp_is_online := Some True,
              mp_hostname := or_else (mr_hostname res) (mp_hostname p),
              mp_os_info := or_else (mr_os_info res) (mp_os_info p),
              mp_uptime := or_else (mr_uptime res) (mp_uptime p),
              mp_open_ports := map_option (\<lambda>ports. join '','' (map show_int ports)) (truthy (mr_open_ports res)),
              mp_mac_address := (case truthy (mp_mac_address p) of
                                   None \<Rightarrow> or_else (mr_mac_address res) (mp_mac_address p)
                                 | Some m \<Rightarrow> mp_mac_address p)\<rparr>)"

subsection \<open>The bulk poll\<close>

definition poll_media_row ::
  "'r redis_ops \<Rightarrow> poll_settings \<Rightarrow> instant \<Rightarrow> uid list \<Rightarrow> (string \<rightharpoonup> media_result option) \<Rightarrow> media_player \<Rightarrow> 'r
   \<Rightarrow> (media_player \<times> bool) \<times> 'r \<times> media_message effect list" where
  "poll_media_row ops cfg now polled results p r =
   (if mp_id p \<notin> set polled then ((p, False), r, [])
    else
      let result = (case results (mp_ip p) of None \<Rightarrow> None | Some res \<Rightarrow> res);
          raw_online = (case result of None \<Rightarrow> False | Some res \<Rightarrow> mr_is_online res);
          err = (case result of None \<Rightarrow> True | Some res \<Rightarrow> mr_path_failure res);
          prev = (mp_is_online p = Some True);
          (online, r', es) = apply_poll_outcome ops cfg now ''media_player'' (mp_id p) prev raw_online err r;
          p1 = (apply_media_poll_result result p)\<lparr>mp_is_online := Some online\<rparr>;
          p2 = p1\<lparr>mp_last_polled_at := Some now\<rparr>
      in ((p2, \<not> online \<and> truthy (mp_mac_address p1) \<noteq> None), r',
          es @ [Metric ''media_player_polls_total'' [''all'', mp_device_type p, if online then ''online'' else ''offline'']]
          @ record_media_player_status_change p2 (Some prev) @ [media_snapshot p2 ''bulk_poll'']))"

definition media_ip :: "media_player \<Rightarrow> string option" where
  "media_ip p = Some (mp_ip p)"

text \<open>One round of \<open>_relocate_offline_media_players\<close>: the player keeps its new address whatever the poll
  there answers.\<close>

definition relocate_media_player ::
  "instant \<times> (media_player \<Rightarrow> media_result option) \<Rightarrow> mac_match list \<Rightarrow> uid \<Rightarrow> media_player list
   \<Rightarrow> media_player list \<times> media_message effect list" where
  "relocate_media_player env matches i tab = (case find_row mp_id i tab of
     None \<Rightarrow> (tab, [])
   | Some p \<Rightarrow> (case move_target mp_id media_ip matches p tab of
         None \<Rightarrow> (tab, [])
       | Some new_ip \<Rightarrow>
           let p1 = p\<lparr>mp_ip := new_ip\<rparr>;
               p2 = (apply_media_poll_result (snd env p1) p1)\<lparr>mp_last_polled_at := Some (fst env)\<rparr>
           in (put_row mp_id p2 tab,
               [media_ip_changed p (mp_ip p) new_ip,
                Metric ''media_player_polls_total''
                  [''all'', mp_device_type p, if mp_is_online p2 = Some True then ''online'' else ''offline''],
                media_snapshot p2 ''bulk_poll_relocated''])))"

definition relocate_offline_media_players ::
  "instant \<times> (media_player \<Rightarrow> media_result option) \<Rightarrow> (mac_target list \<Rightarrow> mac_match list) \<Rightarrow> uid list
   \<Rightarrow> media_player list \<Rightarrow> media_player list \<times> media_message effect list" where
  "relocate_offline_media_players env resolve offline tab =
   (if offline = [] then (tab, [])
    else fold_eff (relocate_media_player env
           (resolve (map media_player_mac_target (List.map_filter (\<lambda>i. find_row mp_id i tab) offline)))) offline tab)"

definition online_players :: "media_player list \<Rightarrow> nat" where
  "online_players ps = length (filter (\<lambda>p. mp_is_online p = Some True) ps)"

definition media_selected :: "string option \<Rightarrow> media_player \<Rightarrow> bool" where
  "media_selected device_type p = (case truthy device_type of None \<Rightarrow> True | Some t \<Rightarrow> mp_device_type p = t)"

definition media_lock_key :: "string option \<Rightarrow> string" where
  "media_lock_key device_type =
     ''lock:poll-all:media:'' @ (case truthy device_type of None \<Rightarrow> ''all'' | Some t \<Rightarrow> t)"

definition poll_all_media_players_local ::
  "'r redis_ops \<Rightarrow> poll_settings \<Rightarrow> instant \<Rightarrow> (media_player \<Rightarrow> media_result option)
   \<Rightarrow> (mac_target list \<Rightarrow> mac_match list) \<Rightarrow> string option \<Rightarrow> media_player list \<Rightarrow> 'r
   \<Rightarrow> media_player list \<times> 'r \<times> media_message effect list" where
  "poll_all_media_players_local ops cfg now poll resolve device_type tab r =
   (let lock_key = media_lock_key device_type;
        (lock_acquired, r0) = acquire_poll_lock ops lock_key r;
        players = filter (media_selected device_type) tab;
        counts = DeviceCounts ''media_player'' (length players) (online_players players)
    in if \<not> lock_acquired \<or> players = [] then (tab, r0, [counts])
       else
         let (flags, r1, e1) = circuit_flags ops now ''media_player'' (map mp_id players) r0;
             skipped = map (\<lambda>(p, open_circuit). Metric ''media_player_polls_total'' [''all'', mp_device_type p, ''skipped''])
                         (filter snd (zip players flags));
             poll_targets = select_closed players flags;
             results = map_of (rev (map (\<lambda>p. (mp_ip p, poll p)) poll_targets));
             (rows, r2, e2) = thread (poll_media_row ops cfg now (map mp_id poll_targets) results) tab r1;
             offline = map (\<lambda>(p, off). mp_id p) (filter snd rows);
             (tab', e3) = relocate_offline_media_players (now, poll) resolve offline (map fst rows);
             after = filter (\<lambda>p. mp_id p \<in> set (map mp_id players)) tab';
             all_players = filter (media_selected device_type) tab'
         in (tab', release_poll_lock ops lock_key r2,
             counts # e1 @ skipped @ e2 @ e3
             @ [Commit,
                MetricBy ''network_bulk_processed_total'' [''media_poll_all'', ''success''] (int (online_players after)),
                MetricBy ''network_bulk_processed_total'' [''media_poll_all'', ''offline'']
                  (max (int (length players) - int (online_players after)) 0),
                DeviceCounts ''media_player'' (length all_players) (online_players all_players),
                Invalidate ''media_players'']))"

subsection \<open>One player, and rediscovery of the whole fleet\<close>

definition poll_single_media_player_local ::
  "instant \<Rightarrow> (media_player \<Rightarrow> media_result option) \<Rightarrow> (mac_target list \<Rightarrow> mac_match list) \<Rightarrow> uid \<Rightarrow> media_player list
   \<Rightarrow> unit + media_player list \<times> media_message effect list" where
  "poll_single_media_player_local now poll resolve player_id tab =
   (case find_row mp_id player_id tab of
      None \<Rightarrow> Inl ()
    | Some p0 \<Rightarrow>
        let metric = (\<lambda>p. Metric ''media_player_polls_total''
              [''single'', mp_device_type p, if mp_is_online p = Some True then ''online'' else ''offline'']);
            p1 = apply_media_poll_result (poll p0) p0;
            moved_to = (if mp_is_online p1 \<noteq> Some True \<and> truthy (mp_mac_address p1) \<noteq> None
                        then (case resolve [media_player_mac_target p1] of
                                [] \<Rightarrow> None
                              | m # _ \<Rightarrow> if mm_new_ip m = [] \<or> mm_new_ip m = mp_ip p1 then None
                                        else if ip_conflict mp_id media_ip (mp_id p1) (mm_new_ip m) tab then None
                                        else Some (mm_new_ip m))
                        else None);
            (p2, e2) = (case moved_to of
                 None \<Rightarrow> (p1, [])
               | Some ip \<Rightarrow>
                   let moved_p = p1\<lparr>mp_ip := ip\<rparr>; q = apply_media_poll_result (poll moved_p) moved_p
                   in (q, [media_ip_changed p1 (mp_ip p1) ip, metric q]));
            p3 = p2\<lparr>mp_last_polled_at := Some now\<rparr>
        in Inr (put_row mp_id p3 tab,
                metric p1 # e2 @ record_media_player_status_change p3 (mp_is_online p0)
                @ [media_snapshot p3 ''single_poll'', Commit, Invalidate ''media_players'']))"

definition rediscover_media_player ::
  "instant \<times> (media_player \<Rightarrow> media_result option) \<Rightarrow> mac_match list \<Rightarrow> uid \<Rightarrow> media_player list
   \<Rightarrow> media_player list \<times> media_message effect list" where
  "rediscover_media_player env matches i tab = (case find_row mp_id i tab of
     None \<Rightarrow> (tab, [])
   | Some p \<Rightarrow> (case move_target mp_id media_ip matches p tab of
         None \<Rightarrow> (tab, [])
       | Some new_ip \<Rightarrow>
           let p1 = p\<lparr>mp_ip := new_ip\<rparr>;
               p2 = (apply_media_poll_result (snd env p1) p1)\<lparr>mp_last_polled_at := Some (fst env)\<rparr>
           in (put_row mp_id p2 tab, [media_ip_changed p (mp_ip p) new_ip, media_snapshot p2 ''rediscover''])))"

definition rediscover_media_players_local ::
  "instant \<Rightarrow> (media_player \<Rightarrow> media_result option) \<Rightarrow> (mac_target list \<Rightarrow> mac_match list) \<Rightarrow> media_player list
   \<Rightarrow> media_player list \<times> media_message effect list" where
  "rediscover_media_players_local now poll resolve tab =
   (let players = filter (\<lambda>p. mp_mac_address p \<noteq> None) tab
    in if players = [] then (tab, [])
       else
         let (tab', es) = fold_eff (rediscover_media_player (now, poll) (resolve (map media_player_mac_target players)))
               (map mp_id players) tab;
             updated = length (events_of es)
         in (tab', es @ (if updated > 0 then [Commit, Invalidate ''media_players''] else [])
                   @ [Metric ''media_player_ops_total'' [''rediscover'', ''success''],
                      MetricBy ''network_bulk_processed_total'' [''media_rediscover'', ''success''] (int updated),
                      MetricBy ''network_bulk_processed_total'' [''media_rediscover'', ''unchanged'']
                        (max (int (length players) - int updated) 0)]))"

subsection \<open>What a poll keeps of a player\<close>

text \<open>The identity of a row, its recorded MAC, and that a hostname once known stays known.\<close>

definition same_player :: "media_player \<Rightarrow> media_player \<Rightarrow> bool" where
  "same_player p p' \<longleftrightarrow> mp_id p' = mp_id p \<and> mp_name p' = mp_name p \<and> mp_device_type p' = mp_device_type p
     \<and> (truthy (mp_mac_address p) \<noteq> None \<longrightarrow> mp_mac_address p' = mp_mac_address p)
     \<and> (truthy (mp_hostname p) \<noteq> None \<longrightarrow> truthy (mp_hostname p') \<noteq> None)"

lemma same_player_refl [simp]: "same_player p p"
  by (simp add: same_player_def)

lemma same_player_trans: "same_player p q \<Longrightarrow> same_player q s \<Longrightarrow> same_player p s"
  by (auto simp: same_player_def)

lemma apply_media_poll_result_same: "same_player p (apply_media_poll_result res p)"
proof (cases res)
  case None
  then show ?thesis by (simp add: apply_media_poll_result_def same_player_def)
next
  case (Some a)
  have "\<exists>z. truthy (or_else (mr_hostname a) (mp_hostname p)) = Some z" if "truthy (mp_hostname p) = Some y" for y
    using that truthy_or_else [of "mr_hostname a" "mp_hostname p"] by (metis option.exhaust)
  with Some show ?thesis by (cases "truthy (mp_mac_address p)") (auto simp: apply_media_poll_result_def same_player_def)
qed

lemma apply_media_poll_result_id [simp]:
  "mp_id (apply_media_poll_result res p) = mp_id p" "mp_ip (apply_media_poll_result res p) = mp_ip p"
  by (simp_all add: apply_media_poll_result_def split: option.splits)

lemma same_player_updates [simp]:
  "same_player p (q\<lparr>mp_is_online := a\<rparr>) = same_player p q"
  "same_player p (q\<lparr>mp_last_polled_at := b\<rparr>) = same_player p q"
  "same_player p (q\<lparr>mp_ip := ip\<rparr>) = same_player p q"
  "same_player (p\<lparr>mp_ip := ip\<rparr>) q = same_player p q"
  by (simp_all add: same_player_def)

lemma moved_player_same:
  "same_player p ((apply_media_poll_result res (p\<lparr>mp_ip := ip\<rparr>))\<lparr>mp_last_polled_at := t\<rparr>)"
  using apply_media_poll_result_same [of "p\<lparr>mp_ip := ip\<rparr>" res] by simp

lemma poll_media_row_keeps:
  "same_player p (fst (fst (poll_media_row ops cfg now polled results p r)))
   \<and> mp_ip (fst (fst (poll_media_row ops cfg now polled results p r))) = mp_ip p"
  by (simp add: poll_media_row_def Let_def split_beta apply_media_poll_result_same)

interpretation players: relocator mp_id media_ip relocate_media_player
proof
  fix i tab row matches new_ip and env :: "instant \<times> (media_player \<Rightarrow> media_result option)"
  assume a: "find_row mp_id i tab = Some row" "move_target mp_id media_ip matches row tab = Some new_ip"
  show "fst (relocate_media_player env matches i tab) = tab \<or>
      (\<exists>row'. fst (relocate_media_player env matches i tab) = put_row mp_id row' tab \<and> mp_id row' = i
        \<and> (media_ip row' = Some new_ip \<or> media_ip row' = media_ip row))"
    using a find_row_Some [OF a(1)]
    by (intro disjI2 exI [of _ "(apply_media_poll_result (snd env (row\<lparr>mp_ip := new_ip\<rparr>)) (row\<lparr>mp_ip := new_ip\<rparr>))\<lparr>mp_last_polled_at := Some (fst env)\<rparr>"])
      (simp add: relocate_media_player_def media_ip_def Let_def)
qed (simp_all add: relocate_media_player_def)

lemma rediscover_round: "fst (rediscover_media_player env matches i tab) = fst (relocate_media_player env matches i tab)"
  by (simp add: rediscover_media_player_def relocate_media_player_def Let_def split: option.splits)

interpretation rediscovered: relocator mp_id media_ip rediscover_media_player
  by unfold_locales (simp_all add: rediscover_round players.round_skip players.round_keep players.round_move)

lemma relocate_media_player_same:
  assumes "list_all2 same_player tab tab'" "distinct (map mp_id tab')"
  shows "list_all2 same_player tab (fst (relocate_media_player env matches i tab'))"
proof (cases rule: players.round_cases [where env = env and matches = matches and i = i and tab = tab'])
  case 1
  with assms show ?thesis by simp
next
  case (2 row row' new_ip)
  let ?row = "(apply_media_poll_result (snd env (row\<lparr>mp_ip := new_ip\<rparr>)) (row\<lparr>mp_ip := new_ip\<rparr>))\<lparr>mp_last_polled_at := Some (fst env)\<rparr>"
  from 2 have "fst (relocate_media_player env matches i tab') = put_row mp_id ?row tab'"
    by (simp add: relocate_media_player_def Let_def)
  moreover have "list_all2 same_player tab (put_row mp_id ?row tab')"
    by (rule list_all2_put_row [OF assms, of row])
      (use find_row_Some [OF 2(1)] same_player_trans moved_player_same in auto)
  ultimately show ?thesis by simp
qed

text \<open>Both loops: the invariant of a table under a run of rounds.\<close>

lemma media_rounds:
  assumes "unique_ips mp_id media_ip tab'" "list_all2 same_player tab tab'"
    and round: "\<And>i t. fst (f i t) = fst (relocate_media_player env matches i t)"
  shows "unique_ips mp_id media_ip (fst (fold_eff f ids tab')) \<and> list_all2 same_player tab (fst (fold_eff f ids tab'))"
proof (rule fold_eff_invariant)
  show "unique_ips mp_id media_ip tab' \<and> list_all2 same_player tab tab'" using assms by blast
next
  fix i t assume "unique_ips mp_id media_ip t \<and> list_all2 same_player tab t"
  then show "unique_ips mp_id media_ip (fst (f i t)) \<and> list_all2 same_player tab (fst (f i t))"
    unfolding round using players.round_unique relocate_media_player_same by (metis unique_ips_def)
qed

lemma relocate_offline_media_players_keeps:
  assumes "unique_ips mp_id media_ip tab'" "list_all2 same_player tab tab'"
  shows "unique_ips mp_id media_ip (fst (relocate_offline_media_players env resolve offline tab'))
    \<and> list_all2 same_player tab (fst (relocate_offline_media_players env resolve offline tab'))"
proof (cases "offline = []")
  case True
  with assms show ?thesis by (simp add: relocate_offline_media_players_def)
next
  case False
  then obtain matches where "fst (relocate_offline_media_players env resolve offline tab')
      = fst (fold_eff (relocate_media_player env matches) offline tab')"
    by (simp add: relocate_offline_media_players_def)
  with media_rounds [OF assms, of "relocate_media_player env matches" env matches offline] show ?thesis by simp
qed

lemma media_rows_keep:
  assumes "rows = fst (thread (poll_media_row ops cfg now polled results) tab r1)"
  shows "list_all2 same_player tab (map fst rows)" "map mp_id (map fst rows) = map mp_id tab"
    "map media_ip (map fst rows) = map media_ip tab"
proof -
  have a: "list_all2 (\<lambda>p row. same_player p (fst row) \<and> mp_ip (fst row) = mp_ip p) tab rows"
    unfolding assms by (rule thread_all2) (rule poll_media_row_keeps)
  from a show "list_all2 same_player tab (map fst rows)"
    by (simp add: list.rel_map) (erule list_all2_mono, simp)
  from a show "map mp_id (map fst rows) = map mp_id tab" "map media_ip (map fst rows) = map media_ip tab"
    by (induction rule: list_all2_induct) (simp_all add: same_player_def media_ip_def)
qed

lemma poll_all_media_cases:
  fixes ops :: "'r redis_ops"
  obtains (idle) "fst (poll_all_media_players_local ops cfg now poll resolve device_type tab r) = tab"
  | (run) polled results r1 rows offline where
      "rows = fst (thread (poll_media_row ops cfg now polled results) tab r1)"
      "fst (poll_all_media_players_local ops cfg now poll resolve device_type tab r) =
         fst (relocate_offline_media_players (now, poll) resolve offline (map fst rows))"
proof (cases "acquire_poll_lock ops (media_lock_key device_type) r")
  case (Pair got r0)
  show ?thesis
  proof (cases "\<not> got \<or> filter (media_selected device_type) tab = []")
    case True
    with Pair show ?thesis by (intro that(1)) (auto simp: poll_all_media_players_local_def Let_def)
  next
    case False
    with Pair show ?thesis
      by (intro that(2) [OF refl]) (simp add: poll_all_media_players_local_def Let_def split_beta)
  qed
qed

subsection \<open>A player that moved\<close>

definition wall_player :: "uid \<Rightarrow> string \<Rightarrow> media_player" where
  "wall_player i ip = \<lparr>mp_id = i, mp_device_type = ''iconbit'', mp_name = cp i, mp_ip = ip,
     mp_mac_address = Some ''aa:bb:cc:00:11:22'', mp_is_online = Some True, mp_hostname = Some ''wall'', mp_os_info = None,
     mp_uptime = None, mp_open_ports = None, mp_last_polled_at = None\<rparr>"

subsection \<open>Properties\<close>

text \<open>Neither the bulk poll of the media players (with its relocation) nor the fleet-wide rediscovery
  ever puts two players on one address: with the table's addresses unique before, they are unique after,
  and every player keeps its id, name and type, its recorded MAC, and a known hostname stays known.\<close>

theorem media_polls_keep_identity:
  assumes u: "unique_ips mp_id media_ip tab"
  shows "unique_ips mp_id media_ip (fst (poll_all_media_players_local ops cfg now poll resolve device_type tab r))
    \<and> list_all2 same_player tab (fst (poll_all_media_players_local ops cfg now poll resolve device_type tab r))
    \<and> unique_ips mp_id media_ip (fst (rediscover_media_players_local now poll resolve tab))
    \<and> list_all2 same_player tab (fst (rediscover_media_players_local now poll resolve tab))"
proof -
  have refl: "list_all2 same_player tab tab" by (simp add: list.rel_refl)
  have "unique_ips mp_id media_ip (fst (poll_all_media_players_local ops cfg now poll resolve device_type tab r))
    \<and> list_all2 same_player tab (fst (poll_all_media_players_local ops cfg now poll resolve device_type tab r))"
  proof (cases rule: poll_all_media_cases [of ops cfg now poll resolve device_type tab r])
    case idle
    with u refl show ?thesis by simp
  next
    case (run polled results r1 rows offline)
    note keep = media_rows_keep [OF run(1)]
    have "unique_ips mp_id media_ip (map fst rows)" by (rule unique_ips_same [OF keep(2,3) u])
    from relocate_offline_media_players_keeps [OF this keep(1)] show ?thesis by (simp add: run(2))
  qed
  moreover have "fst (rediscover_media_players_local now poll resolve tab) = tab \<or>
      (\<exists>matches ids. fst (rediscover_media_players_local now poll resolve tab)
        = fst (fold_eff (rediscover_media_player (now, poll) matches) ids tab))"
    by (auto simp: rediscover_media_players_local_def Let_def split_beta)
  then have "unique_ips mp_id media_ip (fst (rediscover_media_players_local now poll resolve tab))
    \<and> list_all2 same_player tab (fst (rediscover_media_players_local now poll resolve tab))"
    using u refl media_rounds [OF u refl rediscover_round] by auto
  ultimately show ?thesis by blast
qed

theorem media_polls_keep_identity_witness:
  "let tab = [wall_player ''a'' ''10.1.2.5'', wall_player ''b'' ''10.1.2.6''];
       to = (\<lambda>ip. \<lambda>ts. map (\<lambda>t. \<lparr>mm_target = t, mm_mac = mt_mac t, mm_new_ip = ip\<rparr>) ts);
       run = (\<lambda>ip. map mp_ip (fst (rediscover_media_players_local 100 (\<lambda>_. None) (to ip) tab)))
   in unique_ips mp_id media_ip (fst (rediscover_media_players_local 100 (\<lambda>_. None) (to ''10.1.2.9'') tab))
      \<and> run ''10.1.2.9'' = [''10.1.2.9'', ''10.1.2.6'']"
proof -
  let ?tab = "[wall_player ''a'' ''10.1.2.5'', wall_player ''b'' ''10.1.2.6'']"
  have "unique_ips mp_id media_ip ?tab" by (simp add: unique_ips_def wall_player_def media_ip_def)
  note spec = media_polls_keep_identity [OF this, where ops = map_redis and r = empty_redis and cfg = default_poll_settings
      and now = 100 and poll = "\<lambda>_. None" and device_type = None
      and resolve = "\<lambda>ts. map (\<lambda>t. \<lparr>mm_target = t, mm_mac = mt_mac t, mm_new_ip = ''10.1.2.9''\<rparr>) ts"]
  have "map mp_ip (fst (rediscover_media_players_local 100 (\<lambda>_. None)
      (\<lambda>ts. map (\<lambda>t. \<lparr>mm_target = t, mm_mac = mt_mac t, mm_new_ip = ''10.1.2.9''\<rparr>) ts) ?tab)) = [''10.1.2.9'', ''10.1.2.6'']"
    by code_simp
  with spec show ?thesis by (simp add: Let_def)
qed

end
