(* ===== verification/Cartridge_Journal.thy ===== *)
theory Cartridge_Journal
  imports Prelude "HOL-Library.Product_Lexorder" Complex_Main
begin

section \<open>The cartridge replacement journal (app/domains/inventory/cartridge_journal.py)\<close>

text \<open>
  A swap is one colour's level rising by at least REFILL_JUMP between two full polls. \<open>record_swaps\<close>
  appends a journal row per swap, with the life and pages of the outgoing cartridge measured from
  the previous row of the same printer and colour. The journal is a list in insertion order;
  instants are seconds, and a float number of days is the exact quotient.
\<close>

subsection \<open>The printer row\<close>

record printer =
  pr_id :: uid
  pr_type :: string
  pr_connection :: string
  pr_store_name :: ustr
  pr_model :: ustr
  pr_ip :: "string option"
  pr_mac_address :: "string option"
  pr_mac_status :: "string option"
  pr_snmp_community :: string
  pr_host_pc :: "string option"
  pr_is_online :: "bool option"
  pr_status :: "string option"
  pr_reason :: "string option"
  pr_toner_black :: "int option"
  pr_toner_cyan :: "int option"
  pr_toner_magenta :: "int option"
  pr_toner_yellow :: "int option"
  pr_black_name :: "ustr option"
  pr_cyan_name :: "ustr option"
  pr_magenta_name :: "ustr option"
  pr_yellow_name :: "ustr option"
  pr_toner_updated_at :: "instant option"
  pr_page_count :: "int option"
  pr_page_count_updated_at :: "instant option"
  pr_last_polled_at :: "instant option"

datatype color = Black | Cyan | Magenta | Yellow

fun color_name :: "color \<Rightarrow> string" where
  "color_name Black = ''black''"
| "color_name Cyan = ''cyan''"
| "color_name Magenta = ''magenta''"
| "color_name Yellow = ''yellow''"

definition colors :: "color list" where
  "colors = [Black, Cyan, Magenta, Yellow]"

fun toner_levels :: "printer \<Rightarrow> color \<Rightarrow> int option" where
  "toner_levels p Black = pr_toner_black p"
| "toner_levels p Cyan = pr_toner_cyan p"
| "toner_levels p Magenta = pr_toner_magenta p"
| "toner_levels p Yellow = pr_toner_yellow p"

fun cartridge_name :: "printer \<Rightarrow> color \<Rightarrow> ustr option" where
  "cartridge_name p Black = pr_black_name p"
| "cartridge_name p Cyan = pr_cyan_name p"
| "cartridge_name p Magenta = pr_magenta_name p"
| "cartridge_name p Yellow = pr_yellow_name p"

subsection \<open>Detecting and recording swaps\<close>

record detected_swap =
  sw_color :: color
  sw_before :: int
  sw_after :: int

definition refill_jump :: int where
  "refill_jump = 15"

fun swap_at :: "color \<Rightarrow> int option \<Rightarrow> int option \<Rightarrow> detected_swap list" where
  "swap_at c (Some old) (Some new) =
     (if old < 0 \<or> new < 0 then []
      else if new \<ge> old + refill_jump then [\<lparr>sw_color = c, sw_before = old, sw_after = new\<rparr>]
      else [])"
| "swap_at c _ _ = []"

definition detect_swaps :: "(color \<Rightarrow> int option) \<Rightarrow> (color \<Rightarrow> int option) \<Rightarrow> detected_swap list" where
  "detect_swaps before after = concat (map (\<lambda>c. swap_at c (before c) (after c)) colors)"

record replacement =
  re_printer_id :: "uid option"
  re_store_name :: ustr
  re_printer_model :: ustr
  re_color :: color
  re_cartridge_name :: "ustr option"
  re_before :: int
  re_after :: int
  re_page_count :: "int option"
  re_previous_at :: "instant option"
  re_lifetime_days :: "rat option"
  re_pages_printed :: "int option"
  re_at :: instant

datatype swap_message = Swap_message ustr color int int "rat option"

text \<open>\<open>order_by(replaced_at desc).first()\<close> for one printer and colour.\<close>

definition latest_replacement :: "uid \<Rightarrow> color \<Rightarrow> replacement list \<Rightarrow> replacement option" where
  "latest_replacement pid c journal =
     foldl (\<lambda>best r. if re_printer_id r = Some pid \<and> re_color r = c
                     then (case best of None \<Rightarrow> Some r | Some b \<Rightarrow> if re_at b \<le> re_at r then Some r else Some b)
                     else best) None journal"

definition replacement_row :: "printer \<Rightarrow> int option \<Rightarrow> instant \<Rightarrow> detected_swap \<Rightarrow> replacement list \<Rightarrow> replacement" where
  "replacement_row p page_count now swap journal =
   (let previous = latest_replacement (pr_id p) (sw_color swap) journal
    in \<lparr>re_printer_id = Some (pr_id p), re_store_name = pr_store_name p, re_printer_model = pr_model p,
        re_color = sw_color swap, re_cartridge_name = cartridge_name p (sw_color swap),
        re_before = sw_before swap, re_after = sw_after swap, re_page_count = page_count,
        re_previous_at = map_option re_at previous,
        re_lifetime_days = map_option (\<lambda>q. of_int (now - re_at q) / 86400) previous,
        re_pages_printed = (case previous of None \<Rightarrow> None
          | Some q \<Rightarrow> (case (page_count, re_page_count q) of
               (Some n, Some m) \<Rightarrow> if n \<ge> m then Some (n - m) else None
             | _ \<Rightarrow> None)),
        re_at = now\<rparr>)"

definition replacement_event :: "printer \<Rightarrow> replacement \<Rightarrow> swap_message event" where
  "replacement_event p row = \<lparr>ev_severity = ''info'', ev_category = ''device'', ev_type = ''cartridge_replaced'',
     ev_device_kind = Some ''printer'', ev_device_name = Some (pr_store_name p), ev_ip_address = pr_ip p,
     ev_message = Swap_message (pr_store_name p) (re_color row) (re_before row) (re_after row) (re_lifetime_days row)\<rparr>"

text \<open>The rows are added one by one; each next lookup already sees the previous ones (autoflush).\<close>

fun record_swaps ::
  "printer \<Rightarrow> int option \<Rightarrow> instant \<Rightarrow> detected_swap list \<Rightarrow> replacement list \<Rightarrow> replacement list \<times> swap_message event list" where
  "record_swaps p page_count now [] journal = (journal, [])"
| "record_swaps p page_count now (swap # swaps) journal =
     (let row = replacement_row p page_count now swap journal;
          (journal', es) = record_swaps p page_count now swaps (journal @ [row])
      in (journal', replacement_event p row # es))"

subsection \<open>Life statistics per cartridge model\<close>

record life_stats =
  ls_cartridge_name :: ustr
  ls_color :: color
  ls_replacements :: nat
  ls_median_days :: "rat option"
  ls_median_pages :: "int option"

definition median :: "rat list \<Rightarrow> rat" where
  "median xs = (let s = sort xs; n = length xs
     in if odd n then s ! (n div 2) else (s ! (n div 2 - 1) + s ! (n div 2)) / 2)"

definition group_name :: "replacement \<Rightarrow> ustr" where
  "group_name r = u_strip (case re_cartridge_name r of None \<Rightarrow> [8212] | Some n \<Rightarrow> if n = [] then [8212] else n)"

text \<open>\<open>int(...)\<close> truncates towards zero; page counts are never negative.\<close>

definition stats_of :: "ustr \<times> color \<Rightarrow> replacement list \<Rightarrow> life_stats" where
  "stats_of key items =
   (let days = List.map_filter re_lifetime_days items; pages = List.map_filter re_pages_printed items
    in \<lparr>ls_cartridge_name = fst key, ls_color = snd key, ls_replacements = length items,
        ls_median_days = (if days = [] then None else Some (median days)),
        ls_median_pages = (if pages = [] then None else Some \<lfloor>median (map of_int pages)\<rfloor>)\<rparr>)"

definition lifetime_stats :: "replacement list \<Rightarrow> life_stats list" where
  "lifetime_stats rows =
     sort_key (\<lambda>s. (- int (ls_replacements s), ls_cartridge_name s))
       (map (\<lambda>(key, items). stats_of key items) (group_pairs (map (\<lambda>r. ((group_name r, re_color r), r)) rows)))"

subsection \<open>Facts\<close>

lemma swap_at_mem:
  "s \<in> set (swap_at c b a) \<longleftrightarrow>
   sw_color s = c \<and> b = Some (sw_before s) \<and> a = Some (sw_after s) \<and> 0 \<le> sw_before s \<and> 0 \<le> sw_after s
   \<and> sw_before s + refill_jump \<le> sw_after s"
  by (cases b; cases a; cases s) auto

lemma set_colors [simp]: "c \<in> set colors"
  by (cases c) (simp_all add: colors_def)

lemma detect_swaps_mem:
  "s \<in> set (detect_swaps before after) \<longleftrightarrow>
   before (sw_color s) = Some (sw_before s) \<and> after (sw_color s) = Some (sw_after s)
   \<and> 0 \<le> sw_before s \<and> 0 \<le> sw_after s \<and> sw_before s + refill_jump \<le> sw_after s"
proof -
  have "s \<in> set (detect_swaps before after) \<longleftrightarrow> (\<exists>c \<in> set colors. s \<in> set (swap_at c (before c) (after c)))"
    by (simp add: detect_swaps_def)
  also have "\<dots> \<longleftrightarrow> s \<in> set (swap_at (sw_color s) (before (sw_color s)) (after (sw_color s)))"
    by (metis set_colors swap_at_mem)
  finally show ?thesis by (simp add: swap_at_mem)
qed

lemma swap_at_color: "map sw_color (swap_at c b a) \<in> {[], [c]}"
  by (induction c b a rule: swap_at.induct) auto

lemma detect_swaps_distinct: "distinct (map sw_color (detect_swaps before after))"
proof -
  have "set (swap_at c b a) \<inter> set (swap_at d b' a') = {}" if "c \<noteq> d" for c d b a b' a'
    using that by (auto simp: swap_at_mem)
  have "distinct (concat (map (\<lambda>c. map sw_color (swap_at c (before c) (after c))) cs))" if "distinct cs" for cs
    using that
  proof (induction cs)
    case (Cons c cs)
    have "sw_color ` set (swap_at c (before c) (after c)) \<inter> (\<Union>d \<in> set cs. sw_color ` set (swap_at d (before d) (after d))) = {}"
      using Cons.prems by (auto simp: swap_at_mem)
    with Cons swap_at_color [of c "before c" "after c"] show ?case by auto
  qed simp
  from this [of colors] show ?thesis by (simp add: detect_swaps_def map_concat comp_def colors_def)
qed

text \<open>What \<open>latest_replacement\<close> finds.\<close>

definition replacements_of :: "uid \<Rightarrow> color \<Rightarrow> replacement list \<Rightarrow> replacement list" where
  "replacements_of pid c journal = filter (\<lambda>r. re_printer_id r = Some pid \<and> re_color r = c) journal"

lemma latest_replacement_snoc:
  "latest_replacement pid c (js @ [r]) =
   (if re_printer_id r = Some pid \<and> re_color r = c
    then (case latest_replacement pid c js of None \<Rightarrow> Some r | Some b \<Rightarrow> if re_at b \<le> re_at r then Some r else Some b)
    else latest_replacement pid c js)"
  by (simp add: latest_replacement_def)

lemma latest_replacement_spec:
  "case latest_replacement pid c js of
     None \<Rightarrow> replacements_of pid c js = []
   | Some b \<Rightarrow> b \<in> set (replacements_of pid c js) \<and> (\<forall>r \<in> set (replacements_of pid c js). re_at r \<le> re_at b)"
proof (induction js rule: rev_induct)
  case Nil
  then show ?case by (simp add: latest_replacement_def replacements_of_def)
next
  case (snoc r js)
  show ?case
  proof (cases "latest_replacement pid c js")
    case None
    with snoc show ?thesis by (auto simp: latest_replacement_snoc replacements_of_def)
  next
    case (Some b)
    with snoc show ?thesis by (auto simp: latest_replacement_snoc replacements_of_def)
  qed
qed

text \<open>
  The journal is well linked when every row's measurements are about the row of the same printer
  and colour just before it: its instant, a life that is the exact difference, and pages that do
  not go backwards.
\<close>

definition well_linked :: "replacement list \<Rightarrow> bool" where
  "well_linked journal \<longleftrightarrow> (\<forall>i < length journal. \<forall>pid. re_printer_id (journal ! i) = Some pid \<longrightarrow>
     (let prev = latest_replacement pid (re_color (journal ! i)) (take i journal)
      in re_previous_at (journal ! i) = map_option re_at prev
       \<and> re_lifetime_days (journal ! i) = map_option (\<lambda>q. of_int (re_at (journal ! i) - re_at q) / 86400) prev
       \<and> (\<forall>n. re_pages_printed (journal ! i) = Some n \<longrightarrow> 0 \<le> n)))"

lemma well_linked_snoc:
  assumes "well_linked js"
  shows "well_linked (js @ [replacement_row p pc now swap js])"
proof -
  let ?row = "replacement_row p pc now swap js"
  let ?ok = "\<lambda>journal r. \<forall>pid. re_printer_id r = Some pid \<longrightarrow>
     (let prev = latest_replacement pid (re_color r) journal
      in re_previous_at r = map_option re_at prev
       \<and> re_lifetime_days r = map_option (\<lambda>q. of_int (re_at r - re_at q) / 86400) prev
       \<and> (\<forall>n. re_pages_printed r = Some n \<longrightarrow> 0 \<le> n))"
  have row: "?ok js ?row"
    by (auto simp: replacement_row_def Let_def split: option.splits if_splits)
  show ?thesis
    unfolding well_linked_def
  proof (intro allI impI)
    fix i pid assume i: "i < length (js @ [?row])" and pid: "re_printer_id ((js @ [?row]) ! i) = Some pid"
    show "let prev = latest_replacement pid (re_color ((js @ [?row]) ! i)) (take i (js @ [?row]))
      in re_previous_at ((js @ [?row]) ! i) = map_option re_at prev
       \<and> re_lifetime_days ((js @ [?row]) ! i) = map_option (\<lambda>q. of_int (re_at ((js @ [?row]) ! i) - re_at q) / 86400) prev
       \<and> (\<forall>n. re_pages_printed ((js @ [?row]) ! i) = Some n \<longrightarrow> 0 \<le> n)"
    proof (cases "i < length js")
      case True
      then have "(js @ [?row]) ! i = js ! i" "take i (js @ [?row]) = take i js" by (simp_all add: nth_append)
      with assms True pid show ?thesis unfolding well_linked_def by metis
    next
      case False
      with i have "(js @ [?row]) ! i = ?row" "take i (js @ [?row]) = js" by (simp_all add: nth_append)
      with row pid show ?thesis by metis
    qed
  qed
qed

lemma record_swaps_linked:
  "well_linked js \<Longrightarrow> well_linked (fst (record_swaps p pc now swaps js))"
  by (induction swaps arbitrary: js) (auto simp: Let_def split_beta well_linked_snoc)

lemma record_swaps_appends:
  "\<exists>rows. fst (record_swaps p pc now swaps js) = js @ rows \<and> map re_color rows = map sw_color swaps
     \<and> (\<forall>r \<in> set rows. re_printer_id r = Some (pr_id p) \<and> re_at r = now)"
proof (induction swaps arbitrary: js)
  case (Cons s swaps)
  let ?row = "replacement_row p pc now s js"
  from Cons [of "js @ [?row]"] obtain rows where "fst (record_swaps p pc now swaps (js @ [?row])) = (js @ [?row]) @ rows"
    "map re_color rows = map sw_color swaps" "\<forall>r \<in> set rows. re_printer_id r = Some (pr_id p) \<and> re_at r = now" by blast
  then show ?case
    by (intro exI [of _ "?row # rows"]) (auto simp: split_beta Let_def replacement_row_def)
qed simp

lemma record_swaps_events: "length (snd (record_swaps p pc now swaps js)) = length swaps"
  by (induction swaps arbitrary: js) (auto simp: Let_def split_beta)

subsection \<open>A printer in a store\<close>

definition store_printer :: printer where
  "store_printer = \<lparr>pr_id = ''p1'', pr_type = ''laser'', pr_connection = ''ip'', pr_store_name = cp ''A30'',
     pr_model = cp ''M2040'', pr_ip = Some ''10.1.3.7'', pr_mac_address = None, pr_mac_status = None,
     pr_snmp_community = ''public'', pr_host_pc = None, pr_is_online = Some True, pr_status = Some ''online'', pr_reason = None,
     pr_toner_black = Some 3, pr_toner_cyan = None, pr_toner_magenta = None, pr_toner_yellow = None,
     pr_black_name = Some (cp ''TK-1170''), pr_cyan_name = None, pr_magenta_name = None, pr_yellow_name = None,
     pr_toner_updated_at = None, pr_page_count = None, pr_page_count_updated_at = None, pr_last_polled_at = None\<rparr>"

subsection \<open>Properties\<close>

text \<open>C28: \<open>detect_swaps\<close> reports exactly the colours whose level is a real percentage before and after and
  rose by at least the refill jump, each colour at most once; unknown levels and negative status
  codes never count.\<close>

theorem detect_swaps_exact:
  "set (detect_swaps before after) =
     {s. before (sw_color s) = Some (sw_before s) \<and> after (sw_color s) = Some (sw_after s)
       \<and> 0 \<le> sw_before s \<and> 0 \<le> sw_after s \<and> sw_before s + 15 \<le> sw_after s}
   \<and> distinct (map sw_color (detect_swaps before after))"
  using detect_swaps_mem detect_swaps_distinct by (auto simp: refill_jump_def)

text \<open>Recording swaps only appends to the journal, one row and one event per swap, and keeps it well
  linked: each row's previous swap is the latest earlier row of the same printer and colour, the life is
  the exact time between the two, and the pages printed are never negative.\<close>

theorem journal_stays_linked:
  assumes "well_linked journal"
  shows "well_linked (fst (record_swaps p page_count now swaps journal))
    \<and> (\<exists>rows. fst (record_swaps p page_count now swaps journal) = journal @ rows
         \<and> map re_color rows = map sw_color swaps)
    \<and> length (snd (record_swaps p page_count now swaps journal)) = length swaps"
  using record_swaps_linked [OF assms] record_swaps_appends record_swaps_events by blast

theorem journal_stays_linked_witness:
  "map re_lifetime_days (fst (record_swaps store_printer (Some 900) 864000
      [\<lparr>sw_color = Black, sw_before = 3, sw_after = 98\<rparr>]
      (fst (record_swaps store_printer (Some 100) 0 [\<lparr>sw_color = Black, sw_before = 1, sw_after = 100\<rparr>] []))))
     = [None, Some 10]
   \<and> well_linked (fst (record_swaps store_printer (Some 100) 0 [\<lparr>sw_color = Black, sw_before = 1, sw_after = 100\<rparr>] []))"
proof -
  have "well_linked []" by (simp add: well_linked_def)
  from journal_stays_linked [OF this]
  have "well_linked (fst (record_swaps store_printer (Some 100) 0 [\<lparr>sw_color = Black, sw_before = 1, sw_after = 100\<rparr>] []))"
    by (rule conjunct1)
  moreover have "map re_lifetime_days (fst (record_swaps store_printer (Some 900) 864000
      [\<lparr>sw_color = Black, sw_before = 3, sw_after = 98\<rparr>]
      (fst (record_swaps store_printer (Some 100) 0 [\<lparr>sw_color = Black, sw_before = 1, sw_after = 100\<rparr>] []))))
     = [None, Some 10]"
    by (simp add: replacement_row_def latest_replacement_def store_printer_def Let_def)
  ultimately show ?thesis by blast
qed

text \<open>The life statistics have exactly one line per cartridge name and colour in the journal, computed
  from all and only the rows of that name and colour, the most replaced first.\<close>

theorem lifetime_stats_exact:
  "set (lifetime_stats rows) =
     {stats_of key (values_at (map (\<lambda>r. ((group_name r, re_color r), r)) rows) key) | key.
        key \<in> (\<lambda>r. (group_name r, re_color r)) ` set rows}
   \<and> distinct (map (\<lambda>s. (ls_cartridge_name s, ls_color s)) (lifetime_stats rows))
   \<and> sorted (map (\<lambda>s. - int (ls_replacements s)) (lifetime_stats rows))"
proof (intro conjI)
  let ?ps = "map (\<lambda>r. ((group_name r, re_color r), r)) rows"
  have keys: "values_at ?ps key \<noteq> [] \<longleftrightarrow> key \<in> (\<lambda>r. (group_name r, re_color r)) ` set rows" for key
    by (auto simp: values_at_def filter_empty_conv)
  have "set (lifetime_stats rows) = (\<lambda>(key, items). stats_of key items) ` set (group_pairs ?ps)"
    by (simp add: lifetime_stats_def)
  also have "\<dots> = {stats_of key (values_at ?ps key) | key. values_at ?ps key \<noteq> []}"
  proof (intro set_eqI iffI)
    fix s assume "s \<in> (\<lambda>(key, items). stats_of key items) ` set (group_pairs ?ps)"
    then obtain key items where "(key, items) \<in> set (group_pairs ?ps)" "s = stats_of key items" by auto
    then have "values_at ?ps key \<noteq> [] \<and> s = stats_of key (values_at ?ps key)" by (auto simp: mem_group_pairs)
    then show "s \<in> {stats_of key (values_at ?ps key) | key. values_at ?ps key \<noteq> []}" by blast
  next
    fix s assume "s \<in> {stats_of key (values_at ?ps key) | key. values_at ?ps key \<noteq> []}"
    then obtain key where "values_at ?ps key \<noteq> []" "s = stats_of key (values_at ?ps key)" by auto
    then show "s \<in> (\<lambda>(key, items). stats_of key items) ` set (group_pairs ?ps)"
      by (intro image_eqI [of _ _ "(key, values_at ?ps key)"]) (simp_all add: mem_group_pairs)
  qed
  finally show "set (lifetime_stats rows) = {stats_of key (values_at ?ps key) | key.
        key \<in> (\<lambda>r. (group_name r, re_color r)) ` set rows}" by (simp only: keys)
  have "map (\<lambda>s. (ls_cartridge_name s, ls_color s)) (map (\<lambda>(key, items). stats_of key items) (group_pairs ?ps))
      = map fst (group_pairs ?ps)"
    by (auto simp: stats_of_def Let_def)
  then have "distinct (map (\<lambda>s. (ls_cartridge_name s, ls_color s)) (map (\<lambda>(key, items). stats_of key items) (group_pairs ?ps)))"
    by (simp only: distinct_group_pairs)
  then show "distinct (map (\<lambda>s. (ls_cartridge_name s, ls_color s)) (lifetime_stats rows))"
    by (simp only: lifetime_stats_def distinct_map_sort_key)
  have "sorted (map (\<lambda>s. (- int (ls_replacements s), ls_cartridge_name s)) (lifetime_stats rows))"
    unfolding lifetime_stats_def by simp
  then show "sorted (map (\<lambda>s. - int (ls_replacements s)) (lifetime_stats rows))"
    unfolding sorted_map by (rule sorted_wrt_mono_rel [rotated]) (auto simp: less_eq_prod_def)
qed

end
