(* ===== verification/Printer_Polling.thy ===== *)
theory Printer_Polling
  imports Relocation Cartridge_Journal
begin

section \<open>Polling the printers (app/domains/inventory/printer_polling.py)\<close>

text \<open>
  What the network answers is a parameter \<open>printer_net\<close>: the TCP probe of the raw-print port and the
  SNMP queries, each a function of the row's address (and community); a query that raises answers
  \<open>Inl ()\<close>. The state of a poll is the printer table, the replacement journal and Redis. A poll that
  dies with Python's AttributeError ends in \<open>Inl\<close>: event rows after its last \<open>Commit\<close> are rolled back.
\<close>

subsection \<open>Answers and messages\<close>

record printer_status =
  st_is_online :: bool
  st_status :: string
  st_toner_black :: "int option"
  st_toner_cyan :: "int option"
  st_toner_magenta :: "int option"
  st_toner_yellow :: "int option"
  st_page_count :: "int option"

datatype printer_result = Snmp printer_status | Tcp reachability_result

type_synonym printer_answer = "printer_result option \<times> string option"

datatype printer_message =
    Printer_now ustr bool
  | Printer_moved ustr "string option" string
  | Printer_path_suspect string
  | Cartridge_swap swap_message

record printer_net =
  net_probe :: "string \<Rightarrow> int \<Rightarrow> reachability_result"
  net_full :: "string \<Rightarrow> string \<Rightarrow> unit + printer_status"
  net_light :: "string \<Rightarrow> string \<Rightarrow> unit + printer_status"
  net_mac :: "string \<Rightarrow> string \<Rightarrow> unit + string option"

datatype printer_poll_error = Printer_not_found | Unsupported_printer_poll | Attribute_error

definition label_printer_port :: int where
  "label_printer_port = 9100"

fun printer_result_is_online :: "printer_result option \<Rightarrow> bool" where
  "printer_result_is_online None = False"
| "printer_result_is_online (Some (Snmp st)) = st_is_online st"
| "printer_result_is_online (Some (Tcp res)) = rr_online res"

definition printer_ip :: "printer \<Rightarrow> string option" where
  "printer_ip p = pr_ip p"

definition record_printer_status_change :: "printer \<Rightarrow> bool option \<Rightarrow> printer_message effect list" where
  "record_printer_status_change p was_online =
   (if was_online = None \<or> was_online = pr_is_online p then []
    else let online = (pr_is_online p = Some True) in
      [EventLog \<lparr>ev_severity = (if online then ''info'' else ''warning''), ev_category = ''device'',
         ev_type = (if online then ''device_online'' else ''device_offline''),
         ev_device_kind = Some ''printer'', ev_device_name = Some (pr_store_name p),
         ev_ip_address = pr_ip p, ev_message = Printer_now (pr_store_name p) online\<rparr>])"

text \<open>\<open>write_printer_snapshots\<close> of ml_snapshots.py: one row for the pages, one per known toner level.\<close>

definition printer_snapshots :: "printer \<Rightarrow> string \<Rightarrow> printer_message effect list" where
  "printer_snapshots p source =
   (let base = \<lparr>fr_device_kind = ''printer'', fr_device_id = pr_id p, fr_device_name = Some (pr_store_name p),
          fr_address = or_else (pr_ip p) (pr_host_pc p), fr_is_online = pr_is_online p, fr_source = source,
          fr_page_count = pr_page_count p, fr_toner = None\<rparr>
    in Snapshot base # concat (map (\<lambda>c. case toner_levels p c of
            None \<Rightarrow> []
          | Some level \<Rightarrow> [Snapshot (base\<lparr>fr_page_count := None,
                             fr_toner := Some (color_name c, level, cartridge_name p c)\<rparr>)]) colors))"

text \<open>Whether this run walks the toner counters: derived from the minute of the wall clock (UTC).\<close>

definition is_full_poll_cycle :: "int \<Rightarrow> instant \<Rightarrow> bool" where
  "is_full_poll_cycle every_n now = (((now div 60) mod 60) div 15 mod (max 1 every_n) = 0)"

subsection \<open>One poll\<close>

definition poll_one_printer :: "printer_net \<Rightarrow> bool \<Rightarrow> printer \<Rightarrow> printer_answer" where
  "poll_one_printer net full p = (case truthy (pr_ip p) of
     None \<Rightarrow> (None, None)
   | Some ip \<Rightarrow>
       if pr_connection p = ''usb'' then (None, None)
       else if pr_type p = ''label'' then (Some (Tcp (net_probe net ip label_printer_port)), None)
       else if full then (case net_full net ip (pr_snmp_community p) of
           Inl _ \<Rightarrow> (None, None)
         | Inr st \<Rightarrow>
             if st_is_online st then (case net_mac net ip (pr_snmp_community p) of
                 Inl _ \<Rightarrow> (None, None) | Inr mac \<Rightarrow> (Some (Snmp st), mac))
             else (Some (Snmp st), None))
       else (case net_light net ip (pr_snmp_community p) of
           Inl _ \<Rightarrow> (None, None) | Inr st \<Rightarrow> (Some (Snmp st), None)))"

definition printer_offline_reason :: "string option \<Rightarrow> string" where
  "printer_offline_reason result_status =
     (if result_status = Some ''unreachable'' then ''target_invalid'' else ''no_response'')"

definition verify_printer_mac :: "string option \<Rightarrow> printer \<Rightarrow> printer \<times> string" where
  "verify_printer_mac current_mac p = (case current_mac of
     None \<Rightarrow> (p, ''unavailable'')
   | Some m \<Rightarrow> (case truthy (pr_mac_address p) of
         None \<Rightarrow> (p\<lparr>pr_mac_address := Some m\<rparr>, ''verified'')
       | Some known \<Rightarrow> (p, if lower known = lower m then ''verified'' else ''mismatch'')))"

text \<open>\<open>poll_printer_batch\<close>: the answers keyed by address, a later printer on the same address overwriting.\<close>

definition poll_printer_batch :: "printer_net \<Rightarrow> bool \<Rightarrow> printer list \<Rightarrow> (string \<times> printer_answer) list" where
  "poll_printer_batch net full printers =
     foldl (\<lambda>results p. case pr_ip p of
              None \<Rightarrow> results | Some ip \<Rightarrow> AList.update ip (poll_one_printer net full p) results) [] printers"

definition printer_subnets_with_total_failure ::
  "outage_settings \<Rightarrow> (string \<times> printer_answer) list \<Rightarrow> string list" where
  "printer_subnets_with_total_failure cfg results =
     total_failure_subnets cfg (map (\<lambda>(ip, ans). (ip, printer_result_is_online (fst ans))) results)"

subsection \<open>Applying an answer\<close>

definition swap_effect :: "swap_message event \<Rightarrow> printer_message effect" where
  "swap_effect e = EventLog \<lparr>ev_severity = ev_severity e, ev_category = ev_category e, ev_type = ev_type e,
     ev_device_kind = ev_device_kind e, ev_device_name = ev_device_name e, ev_ip_address = ev_ip_address e,
     ev_message = Cartridge_swap (ev_message e)\<rparr>"

definition apply_full_fields :: "instant \<Rightarrow> printer_status \<Rightarrow> string option \<Rightarrow> printer \<Rightarrow> printer" where
  "apply_full_fields now st current_mac p =
   (let p1 = p\<lparr>pr_is_online := Some (st_is_online st), pr_status := Some (st_status st), pr_reason := None,
               pr_toner_black := st_toner_black st, pr_toner_cyan := st_toner_cyan st,
               pr_toner_magenta := st_toner_magenta st, pr_toner_yellow := st_toner_yellow st,
               pr_toner_updated_at := Some now\<rparr>;
        p2 = (case st_page_count st of
                None \<Rightarrow> p1
              | Some n \<Rightarrow> p1\<lparr>pr_page_count := Some n, pr_page_count_updated_at := Some now\<rparr>);
        (p3, status) = verify_printer_mac current_mac p2
    in p3\<lparr>pr_mac_status := Some status\<rparr>)"

definition apply_full_printer_result ::
  "instant \<Rightarrow> printer_status \<Rightarrow> string option \<Rightarrow> printer \<Rightarrow> replacement list
   \<Rightarrow> printer \<times> replacement list \<times> printer_message effect list" where
  "apply_full_printer_result now st current_mac p journal =
   (let p' = apply_full_fields now st current_mac p;
        swaps = detect_swaps (toner_levels p) (toner_levels p');
        (journal', es) = record_swaps p' (st_page_count st) now swaps journal
    in (p', journal', map swap_effect es))"

definition apply_light_printer_result :: "printer_status \<Rightarrow> printer \<Rightarrow> printer" where
  "apply_light_printer_result st p =
     p\<lparr>pr_is_online := Some (st_is_online st), pr_status := Some (st_status st), pr_reason := None\<rparr>"

subsection \<open>One address of the bulk poll\<close>

definition has_mac :: "printer \<Rightarrow> bool" where
  "has_mac p \<longleftrightarrow> truthy (pr_mac_address p) \<noteq> None"

text \<open>The three branches of the loop body, after the debounce has decided \<open>online\<close>.\<close>

definition apply_no_result :: "bool \<Rightarrow> printer \<Rightarrow> printer" where
  "apply_no_result online p =
     p\<lparr>pr_is_online := Some online,
       pr_status := (if online then or_else (pr_status p) (Some ''online'') else Some ''error''),
       pr_reason := (if online then None else Some ''poll_error''),
       pr_mac_status := Some ''unavailable''\<rparr>"

definition apply_tcp_result :: "bool \<Rightarrow> reachability_result \<Rightarrow> printer \<Rightarrow> printer" where
  "apply_tcp_result online res p =
     p\<lparr>pr_is_online := Some online,
       pr_status := Some (if online then ''online'' else ''offline''),
       pr_reason := (if online then None else map_option reason_name (rr_reason res)),
       pr_mac_status := None\<rparr>"

definition apply_snmp_result ::
  "bool \<Rightarrow> instant \<Rightarrow> bool \<Rightarrow> printer_status \<Rightarrow> string option \<Rightarrow> printer \<Rightarrow> replacement list
   \<Rightarrow> printer \<times> replacement list \<times> printer_message effect list" where
  "apply_snmp_result full now online st current_mac p journal =
   (let p1 = p\<lparr>pr_is_online := Some online\<rparr>
    in if st_is_online st then
         (if full then apply_full_printer_result now st current_mac p1 journal
          else (apply_light_printer_result st p1, journal, []))
       else if \<not> online then
         (let (p2, status) = verify_printer_mac current_mac
                (p1\<lparr>pr_status := Some ''offline'', pr_reason := Some (printer_offline_reason (Some (st_status st)))\<rparr>)
          in (p2\<lparr>pr_mac_status := Some status\<rparr>, journal, []))
       else (p1, journal, []))"

definition printer_probe_error :: "printer_result option \<Rightarrow> bool" where
  "printer_probe_error result = (case result of
     None \<Rightarrow> True | Some (Tcp res) \<Rightarrow> is_path_failure res | Some (Snmp st) \<Rightarrow> False)"

definition apply_printer_answer ::
  "bool \<Rightarrow> instant \<Rightarrow> bool \<Rightarrow> printer_answer \<Rightarrow> printer \<Rightarrow> replacement list
   \<Rightarrow> printer \<times> replacement list \<times> printer_message effect list" where
  "apply_printer_answer full now online ans p journal =
   (let metric = (\<lambda>s. [Metric ''printer_polls_total'' [''all'', pr_type p, s]]);
        outcome = (if online then ''online'' else ''offline'')
    in (case fst ans of
          None \<Rightarrow> (apply_no_result online p, journal, metric (if online then ''offline_pending'' else ''error''))
        | Some (Tcp res) \<Rightarrow> (apply_tcp_result online res p, journal, metric outcome)
        | Some (Snmp st) \<Rightarrow>
            (let (p', journal', es) = apply_snmp_result full now online st (snd ans) p journal
             in (p', journal', es @ metric outcome))))"

definition poll_printer_item ::
  "'r redis_ops \<Rightarrow> poll_settings \<Rightarrow> instant \<Rightarrow> bool \<Rightarrow> string list \<Rightarrow> (string \<rightharpoonup> printer) \<Rightarrow> string \<times> printer_answer
   \<Rightarrow> 'r \<times> replacement list \<Rightarrow> (printer \<times> bool) option \<times> ('r \<times> replacement list) \<times> printer_message effect list" where
  "poll_printer_item ops cfg now full suspect printer_map item s =
   (case printer_map (fst item) of
      None \<Rightarrow> (None, s, [])
    | Some p \<Rightarrow>
        if subnet_of (fst item) \<in> set suspect
        then (None, s, [Metric ''printer_polls_total'' [''all'', pr_type p, ''path_suspect'']])
        else
          let prev = (pr_is_online p = Some True);
              (online, r', e1) = apply_poll_outcome ops cfg now ''printer'' (pr_id p) prev
                 (printer_result_is_online (fst (snd item))) (printer_probe_error (fst (snd item))) (fst s);
              (p1, journal', e2) = apply_printer_answer full now online (snd item) p (snd s);
              p2 = p1\<lparr>pr_last_polled_at := Some now\<rparr>
          in (Some (p2, \<not> online \<and> has_mac p1), (r', journal'),
              e1 @ e2 @ record_printer_status_change p2 (Some prev) @ printer_snapshots p2 ''bulk_poll''))"

subsection \<open>Relocation\<close>

definition printer_target :: "printer \<Rightarrow> mac_target" where
  "printer_target p = \<lparr>mt_kind = ''printer'', mt_entity_id = pr_id p, mt_name = pr_store_name p,
     mt_current_ip = pr_ip p, mt_mac = (case pr_mac_address p of None \<Rightarrow> [] | Some m \<Rightarrow> m)\<rparr>"

definition printer_moved_event :: "printer \<Rightarrow> string option \<Rightarrow> string \<Rightarrow> printer_message effect" where
  "printer_moved_event p old_ip new_ip =
     EventLog \<lparr>ev_severity = ''warning'', ev_category = ''network'', ev_type = ''ip_changed'',
       ev_device_kind = Some ''printer'', ev_device_name = Some (pr_store_name p), ev_ip_address = Some new_ip,
       ev_message = Printer_moved (pr_store_name p) old_ip new_ip\<rparr>"

text \<open>
  One round of \<open>_relocate_offline_printers\<close>. The printer is polled at the new address; a printer that
  answers there keeps it, one that does not is moved back. \<open>None\<close>: the poll answered with the TCP
  probe's result, and \<open>_apply_full_printer_result\<close> reads its \<open>status\<close>, which it does not have.
\<close>

definition relocate_printer ::
  "instant \<times> printer_net \<Rightarrow> mac_match list \<Rightarrow> uid \<Rightarrow> printer list \<times> replacement list
   \<Rightarrow> ((printer list \<times> replacement list) \<times> printer_message effect list) option" where
  "relocate_printer env matches i s = (case find_row pr_id i (fst s) of
     None \<Rightarrow> Some (s, [])
   | Some p \<Rightarrow> (case move_target pr_id printer_ip matches p (fst s) of
         None \<Rightarrow> Some (s, [])
       | Some new_ip \<Rightarrow>
           let p1 = p\<lparr>pr_ip := Some new_ip\<rparr>;
               (result, new_mac) = poll_one_printer (snd env) True p1
           in if \<not> printer_result_is_online result then Some (s, printer_snapshots p ''bulk_poll_relocated'')
              else (case result of
                  Some (Snmp st) \<Rightarrow>
                    (let (p2, journal', es) = apply_full_printer_result (fst env) st new_mac p1 (snd s)
                     in Some ((put_row pr_id p2 (fst s), journal'),
                          es @ [printer_moved_event p2 (pr_ip p) new_ip] @ printer_snapshots p2 ''bulk_poll_relocated''))
                | _ \<Rightarrow> None)))"

fun relocate_printers ::
  "instant \<times> printer_net \<Rightarrow> mac_match list \<Rightarrow> uid list \<Rightarrow> printer list \<times> replacement list
   \<Rightarrow> (printer list \<times> replacement list) option \<times> printer_message effect list" where
  "relocate_printers env matches [] s = (Some s, [])"
| "relocate_printers env matches (i # is) s = (case relocate_printer env matches i s of
     None \<Rightarrow> (None, [])
   | Some (s', es) \<Rightarrow> (let (res, es') = relocate_printers env matches is s' in (res, es @ es')))"

definition relocate_offline_printers ::
  "instant \<times> printer_net \<Rightarrow> (mac_target list \<Rightarrow> mac_match list) \<Rightarrow> uid list \<Rightarrow> printer list \<times> replacement list
   \<Rightarrow> (printer list \<times> replacement list) option \<times> printer_message effect list" where
  "relocate_offline_printers env resolve offline s =
   (let targets = map printer_target (filter has_mac (List.map_filter (\<lambda>i. find_row pr_id i (fst s)) offline))
    in relocate_printers env (resolve targets) offline s)"

subsection \<open>The bulk poll\<close>

definition printer_suspect_events :: "string list \<Rightarrow> printer_message effect list" where
  "printer_suspect_events subnets =
     map (\<lambda>s. EventLog \<lparr>ev_severity = ''warning'', ev_category = ''network'', ev_type = ''poll_path_suspect'',
        ev_device_kind = Some ''printer'', ev_device_name = Some (cp (s @ ''.0/24'')), ev_ip_address = None,
        ev_message = Printer_path_suspect s\<rparr>) (sort subnets)
     @ (if subnets = [] then [] else [Commit])"

definition online_printers :: "printer list \<Rightarrow> nat" where
  "online_printers ps = length (filter (\<lambda>p. pr_is_online p = Some True) ps)"

definition pollable :: "printer \<Rightarrow> bool" where
  "pollable p \<longleftrightarrow> pr_connection p \<noteq> ''usb'' \<and> truthy (pr_ip p) \<noteq> None"

definition printer_map_of :: "printer list \<Rightarrow> string \<Rightarrow> printer option" where
  "printer_map_of targets ip = map_of (rev (map (\<lambda>p. (pr_ip p, p)) targets)) (Some ip)"

definition printer_lock_key :: "string \<Rightarrow> string" where
  "printer_lock_key printer_type = ''lock:poll-all:printers:'' @ printer_type"

definition poll_all_printers_local ::
  "'r redis_ops \<Rightarrow> poll_settings \<Rightarrow> outage_settings \<Rightarrow> int \<Rightarrow> instant \<Rightarrow> printer_net \<Rightarrow> (mac_target list \<Rightarrow> mac_match list)
   \<Rightarrow> string \<Rightarrow> printer list \<times> replacement list \<Rightarrow> 'r
   \<Rightarrow> (printer_poll_error + printer list \<times> replacement list) \<times> 'r \<times> printer_message effect list" where
  "poll_all_printers_local ops cfg out every_n now net resolve printer_type db r =
   (let lock_key = printer_lock_key printer_type;
        (lock_acquired, r0) = acquire_poll_lock ops lock_key r;
        all_printers = filter (\<lambda>p. pr_type p = printer_type) (fst db);
        counts = DeviceCounts ''printer'' (length all_printers) (online_printers all_printers);
        printers = filter pollable all_printers
    in if \<not> lock_acquired \<or> printers = [] then (Inr db, r0, [counts])
       else
         let (flags, r1, e1) = circuit_flags ops now ''printer'' (map pr_id printers) r0;
             skipped = map (\<lambda>(p, open_circuit). Metric ''printer_polls_total'' [''all'', pr_type p, ''skipped''])
                         (filter snd (zip printers flags));
             poll_targets = select_closed printers flags;
             full = is_full_poll_cycle every_n now;
             poll_results = poll_printer_batch net full poll_targets;
             suspect = printer_subnets_with_total_failure out poll_results;
             (rows, (r2, journal'), e2) = thread (poll_printer_item ops cfg now full suspect (printer_map_of poll_targets))
                  poll_results (r1, snd db);
             polled = List.map_filter id rows;
             tab' = put_rows pr_id (map fst polled) (fst db);
             offline = map (\<lambda>(p, off). pr_id p) (filter snd polled);
             (moved_db, e3) = relocate_offline_printers (now, net) resolve offline (tab', journal');
             released = release_poll_lock ops lock_key r2;
             es = counts # e1 @ skipped @ printer_suspect_events suspect @ e2 @ e3
         in (case moved_db of None \<Rightarrow> Inl Attribute_error | Some db' \<Rightarrow> Inr db', released,
             es @ (case moved_db of
                None \<Rightarrow> []
              | Some db' \<Rightarrow>
                  let result_printers = filter (\<lambda>p. pr_type p = printer_type) (fst db')
                  in [Commit, DeviceCounts ''printer'' (length result_printers) (online_printers result_printers),
                      Invalidate ''printers''])))"

subsection \<open>A single printer\<close>

definition find_printer_ip_by_mac :: "(mac_target list \<Rightarrow> mac_match list) \<Rightarrow> printer \<Rightarrow> string option" where
  "find_printer_ip_by_mac resolve p =
     (if \<not> has_mac p then None
      else (case resolve [printer_target p] of [] \<Rightarrow> None | m # _ \<Rightarrow> Some (mm_new_ip m)))"

text \<open>\<open>net k\<close> is the network at the k-th poll of this call: the retry comes seconds later.\<close>

definition poll_single_label :: "(nat \<Rightarrow> printer_net) \<Rightarrow> printer \<Rightarrow> printer \<times> printer_message effect list" where
  "poll_single_label net p =
   (let ip = (case pr_ip p of None \<Rightarrow> [] | Some ip \<Rightarrow> ip);
        probe0 = net_probe (net 0) ip label_printer_port;
        probe = (if rr_online probe0 then probe0 else net_probe (net 1) ip label_printer_port);
        online = rr_online probe
    in (p\<lparr>pr_is_online := Some online, pr_status := Some (if online then ''online'' else ''offline''),
          pr_reason := (if online then None else map_option reason_name (rr_reason probe)), pr_mac_status := None\<rparr>,
        [Metric ''printer_polls_total'' [''single'', pr_type p, if online then ''online'' else ''offline'']]))"

definition single_printer_move ::
  "(mac_target list \<Rightarrow> mac_match list) \<Rightarrow> printer list \<Rightarrow> printer \<Rightarrow> string option" where
  "single_printer_move resolve tab p = (case truthy (find_printer_ip_by_mac resolve p) of
     None \<Rightarrow> None
   | Some new_ip \<Rightarrow> if pr_ip p = Some new_ip \<or> ip_conflict pr_id printer_ip (pr_id p) new_ip tab then None else Some new_ip)"

definition finish_single_laser ::
  "instant \<Rightarrow> printer_answer \<Rightarrow> printer \<Rightarrow> replacement list
   \<Rightarrow> printer_poll_error + printer \<times> replacement list \<times> printer_message effect list" where
  "finish_single_laser now ans p journal =
   (let metric = (\<lambda>s. [Metric ''printer_polls_total'' [''single'', pr_type p, s]]);
        down = (\<lambda>reason. p\<lparr>pr_is_online := Some False, pr_status := Some ''offline'',
                  pr_reason := Some (printer_offline_reason reason), pr_mac_status := Some ''unavailable''\<rparr>)
    in (case fst ans of
          None \<Rightarrow> Inr (p\<lparr>pr_is_online := Some False, pr_status := Some ''error'', pr_reason := Some ''poll_error'',
                       pr_mac_status := Some ''unavailable''\<rparr>, journal, metric ''error'')
        | Some (Snmp st) \<Rightarrow>
            if st_is_online st then
              (let (p', journal', es) = apply_full_printer_result now st (snd ans) p journal
               in Inr (p', journal', es @ metric ''online''))
            else Inr (down (Some (st_status st)), journal, metric ''offline'')
        | Some (Tcp res) \<Rightarrow>
            if rr_online res then Inl Attribute_error
            else Inr (down (map_option reason_name (rr_reason res)), journal, metric ''offline'')))"

definition poll_single_laser ::
  "instant \<Rightarrow> (nat \<Rightarrow> printer_net) \<Rightarrow> (mac_target list \<Rightarrow> mac_match list) \<Rightarrow> printer list \<Rightarrow> printer \<Rightarrow> replacement list
   \<Rightarrow> printer_poll_error + printer \<times> replacement list \<times> printer_message effect list" where
  "poll_single_laser now net resolve tab p journal =
   (let ans0 = poll_one_printer (net 0) True p
    in if printer_result_is_online (fst ans0) then finish_single_laser now ans0 p journal
       else
         let (p1, ans1, e1) = (case single_printer_move resolve tab p of
                None \<Rightarrow> (p, ans0, [])
              | Some new_ip \<Rightarrow>
                  (let q = p\<lparr>pr_ip := Some new_ip\<rparr>
                   in (q, poll_one_printer (net 1) True q, [printer_moved_event q (pr_ip p) new_ip])));
             ans2 = (if printer_result_is_online (fst ans1) then ans1 else poll_one_printer (net 2) True p1)
         in (case finish_single_laser now ans2 p1 journal of
               Inl e \<Rightarrow> Inl e
             | Inr (p2, journal', e2) \<Rightarrow> Inr (p2, journal', e1 @ e2)))"

definition poll_single_printer_local ::
  "instant \<Rightarrow> (nat \<Rightarrow> printer_net) \<Rightarrow> (mac_target list \<Rightarrow> mac_match list) \<Rightarrow> uid \<Rightarrow> printer list \<times> replacement list
   \<Rightarrow> (printer_poll_error + printer list \<times> replacement list) \<times> printer_message effect list" where
  "poll_single_printer_local now net resolve printer_id db =
   (case find_row pr_id printer_id (fst db) of
      None \<Rightarrow> (Inl Printer_not_found, [])
    | Some p \<Rightarrow>
        if \<not> pollable p
        then (Inl Unsupported_printer_poll, [Metric ''printer_polls_total'' [''single'', pr_type p, ''unsupported'']])
        else (case (if pr_type p = ''label'' then (let (q, es) = poll_single_label net p in Inr (q, snd db, es))
                    else poll_single_laser now net resolve (fst db) p (snd db)) of
            Inl e \<Rightarrow> (Inl e, [])
          | Inr (q, journal', es) \<Rightarrow>
              let q' = q\<lparr>pr_last_polled_at := Some now\<rparr>
              in (Inr (put_row pr_id q' (fst db), journal'),
                  es @ record_printer_status_change q' (pr_is_online p) @ printer_snapshots q' ''single_poll''
                  @ [Commit, Invalidate ''printers''])))"

subsection \<open>What a poll keeps of a printer\<close>

definition same_printer :: "printer \<Rightarrow> printer \<Rightarrow> bool" where
  "same_printer p q \<longleftrightarrow> pr_id q = pr_id p \<and> pr_type q = pr_type p \<and> pr_connection q = pr_connection p
     \<and> pr_store_name q = pr_store_name p \<and> pr_model q = pr_model p
     \<and> (has_mac p \<longrightarrow> pr_mac_address q = pr_mac_address p)"

lemma same_printer_refl [simp]: "same_printer p p"
  by (simp add: same_printer_def)

lemma same_printer_trans: "same_printer p q \<Longrightarrow> same_printer q s \<Longrightarrow> same_printer p s"
  by (auto simp: same_printer_def has_mac_def)

lemma same_printer_id: "same_printer p q \<Longrightarrow> pr_id q = pr_id p"
  by (simp add: same_printer_def)

lemma same_printer_updates [simp]:
  "same_printer p (q\<lparr>pr_ip := a\<rparr>) = same_printer p q" "same_printer (p\<lparr>pr_ip := a\<rparr>) q = same_printer p q"
  "same_printer p (q\<lparr>pr_mac_status := m\<rparr>) = same_printer p q" "same_printer p (q\<lparr>pr_is_online := o1\<rparr>) = same_printer p q"
  "same_printer p (q\<lparr>pr_status := s\<rparr>) = same_printer p q" "same_printer p (q\<lparr>pr_reason := w\<rparr>) = same_printer p q"
  "same_printer p (q\<lparr>pr_toner_black := t1\<rparr>) = same_printer p q" "same_printer p (q\<lparr>pr_toner_cyan := t2\<rparr>) = same_printer p q"
  "same_printer p (q\<lparr>pr_toner_magenta := t3\<rparr>) = same_printer p q" "same_printer p (q\<lparr>pr_toner_yellow := t4\<rparr>) = same_printer p q"
  "same_printer p (q\<lparr>pr_toner_updated_at := u\<rparr>) = same_printer p q" "same_printer p (q\<lparr>pr_page_count := n\<rparr>) = same_printer p q"
  "same_printer p (q\<lparr>pr_page_count_updated_at := v\<rparr>) = same_printer p q"
  "same_printer p (q\<lparr>pr_last_polled_at := l\<rparr>) = same_printer p q"
  by (simp_all add: same_printer_def has_mac_def)

lemma verify_printer_mac_keeps [simp]:
  "pr_ip (fst (verify_printer_mac m q)) = pr_ip q"
  "same_printer q (fst (verify_printer_mac m q))"
  by (auto simp: verify_printer_mac_def same_printer_def has_mac_def split: option.splits)

lemma verify_printer_mac_same: "same_printer p q \<Longrightarrow> same_printer p (fst (verify_printer_mac m q))"
  by (rule same_printer_trans [of p q]) simp_all

lemma apply_full_fields_keeps [simp]:
  "same_printer p (apply_full_fields now st m p)" "pr_ip (apply_full_fields now st m p) = pr_ip p"
  by (auto simp: apply_full_fields_def Let_def split_beta intro: verify_printer_mac_same split: option.splits)

lemma apply_full_printer_result_keeps [simp]:
  "same_printer p (fst (apply_full_printer_result now st m p js))"
  "pr_ip (fst (apply_full_printer_result now st m p js)) = pr_ip p"
  "well_linked js \<Longrightarrow> well_linked (fst (snd (apply_full_printer_result now st m p js)))"
  by (simp_all add: apply_full_printer_result_def Let_def split_beta record_swaps_linked)

lemma apply_snmp_result_keeps [simp]:
  "same_printer p (fst (apply_snmp_result full now online st m p js))"
  "pr_ip (fst (apply_snmp_result full now online st m p js)) = pr_ip p"
  "well_linked js \<Longrightarrow> well_linked (fst (snd (apply_snmp_result full now online st m p js)))"
proof -
  have f: "same_printer p (fst (apply_full_printer_result now st m (p\<lparr>pr_is_online := Some b\<rparr>) js))" for b
    by (rule same_printer_trans [of p "p\<lparr>pr_is_online := Some b\<rparr>"]) simp_all
  show "same_printer p (fst (apply_snmp_result full now online st m p js))"
    by (simp add: apply_snmp_result_def apply_light_printer_result_def Let_def split_beta f verify_printer_mac_same)
qed (simp_all add: apply_snmp_result_def apply_light_printer_result_def Let_def split_beta)

lemma apply_printer_answer_keeps [simp]:
  "same_printer p (fst (apply_printer_answer full now online ans p js))"
  "pr_ip (fst (apply_printer_answer full now online ans p js)) = pr_ip p"
  "well_linked js \<Longrightarrow> well_linked (fst (snd (apply_printer_answer full now online ans p js)))"
  by (simp_all add: apply_printer_answer_def apply_no_result_def apply_tcp_result_def Let_def split_beta
      split: option.splits printer_result.splits)

lemma printer_map_of_Some: "printer_map_of targets ip = Some p \<Longrightarrow> p \<in> set targets \<and> pr_ip p = Some ip"
  by (auto simp: printer_map_of_def dest!: map_of_SomeD)

lemma poll_printer_item_keeps:
  assumes "fst (poll_printer_item ops cfg now full suspect (printer_map_of targets) item s) = Some (q, off)"
  shows "\<exists>p \<in> set targets. same_printer p q \<and> pr_ip q = pr_ip p \<and> pr_ip p = Some (fst item)
     \<and> subnet_of (fst item) \<notin> set suspect"
proof (cases "printer_map_of targets (fst item)")
  case None
  with assms show ?thesis by (simp add: poll_printer_item_def)
next
  case (Some p)
  have "\<exists>online. q = (fst (apply_printer_answer full now online (snd item) p (snd s)))\<lparr>pr_last_polled_at := Some now\<rparr>
    \<and> subnet_of (fst item) \<notin> set suspect"
    using assms Some by (auto simp: poll_printer_item_def Let_def split_beta split: if_splits)
  then obtain online where "q = (fst (apply_printer_answer full now online (snd item) p (snd s)))\<lparr>pr_last_polled_at := Some now\<rparr>"
    "subnet_of (fst item) \<notin> set suspect" by blast
  with printer_map_of_Some [OF Some] show ?thesis by (intro bexI [of _ p]) simp_all
qed

lemma poll_printer_item_journal:
  "well_linked (snd s) \<Longrightarrow> well_linked (snd (fst (snd (poll_printer_item ops cfg now full suspect pm item s))))"
  by (auto simp: poll_printer_item_def Let_def split_beta split: option.splits)

subsection \<open>The table under relocation\<close>

definition relocated_table ::
  "instant \<times> printer_net \<Rightarrow> mac_match list \<Rightarrow> uid \<Rightarrow> printer list \<Rightarrow> printer list \<times> printer_message effect list" where
  "relocated_table env matches i tab = (case relocate_printer env matches i (tab, []) of
     None \<Rightarrow> (tab, []) | Some ((tab', _), es) \<Rightarrow> (tab', es))"

lemma apply_full_printer_result_fst:
  "fst (apply_full_printer_result now st m p js) = apply_full_fields now st m p"
  by (simp add: apply_full_printer_result_def Let_def split_beta)

lemma relocate_printer_table:
  "relocate_printer env matches i (tab, js) = Some ((tab', js'), es) \<Longrightarrow> tab' = fst (relocated_table env matches i tab)"
  by (auto simp: relocated_table_def relocate_printer_def Let_def split_beta apply_full_printer_result_fst
      split: option.splits if_splits printer_result.splits)

lemma relocate_printer_journal:
  "relocate_printer env matches i (tab, js) = Some ((tab', js'), es) \<Longrightarrow> well_linked js \<Longrightarrow> well_linked js'"
  by (auto simp: relocate_printer_def Let_def split_beta split: option.splits if_splits printer_result.splits)

lemma relocated_table_cases:
  assumes "find_row pr_id i tab = Some p" "move_target pr_id printer_ip matches p tab = Some new_ip"
  shows "fst (relocated_table env matches i tab) = tab
    \<or> (\<exists>q. fst (relocated_table env matches i tab) = put_row pr_id q tab \<and> same_printer p q \<and> pr_ip q = Some new_ip)"
proof -
  have "same_printer p (apply_full_fields now st m (p\<lparr>pr_ip := Some new_ip\<rparr>))" for now st m
    by (rule same_printer_trans [of p "p\<lparr>pr_ip := Some new_ip\<rparr>"]) simp_all
  moreover have "pr_ip (apply_full_fields now st m (p\<lparr>pr_ip := Some new_ip\<rparr>)) = Some new_ip" for now st m
    by simp
  ultimately show ?thesis
    using assms
    by (auto simp: relocated_table_def relocate_printer_def Let_def split_beta apply_full_printer_result_fst
        split: option.splits if_splits printer_result.splits)
qed

interpretation printers: relocator pr_id printer_ip relocated_table
proof
  fix i tab row matches new_ip and env :: "instant \<times> printer_net"
  assume a: "find_row pr_id i tab = Some row" "move_target pr_id printer_ip matches row tab = Some new_ip"
  then show "fst (relocated_table env matches i tab) = tab \<or>
      (\<exists>row'. fst (relocated_table env matches i tab) = put_row pr_id row' tab \<and> pr_id row' = i
        \<and> (printer_ip row' = Some new_ip \<or> printer_ip row' = printer_ip row))"
    using relocated_table_cases [OF a, of env] find_row_Some [OF a(1)] by (auto simp: printer_ip_def dest: same_printer_id)
qed (simp_all add: relocated_table_def relocate_printer_def)

lemma relocated_table_same:
  assumes "list_all2 same_printer tab tab'" "distinct (map pr_id tab')"
  shows "list_all2 same_printer tab (fst (relocated_table env matches i tab'))"
proof (cases "find_row pr_id i tab'")
  case None
  with assms show ?thesis by (simp add: printers.round_skip)
next
  case (Some p)
  show ?thesis
  proof (cases "move_target pr_id printer_ip matches p tab'")
    case None
    with Some assms show ?thesis by (simp add: printers.round_keep)
  next
    case (Some new_ip)
    from relocated_table_cases [OF \<open>find_row pr_id i tab' = Some p\<close> this, of env]
    consider "fst (relocated_table env matches i tab') = tab'"
      | q where "fst (relocated_table env matches i tab') = put_row pr_id q tab'" "same_printer p q" by blast
    then show ?thesis
    proof cases
      case 1
      with assms show ?thesis by simp
    next
      case (2 q)
      have "list_all2 same_printer tab (put_row pr_id q tab')"
        by (rule list_all2_put_row [OF assms, of p])
          (use 2 find_row_Some [OF \<open>find_row pr_id i tab' = Some p\<close>] same_printer_trans same_printer_id in auto)
      with 2 show ?thesis by simp
    qed
  qed
qed

lemma relocate_printers_keep:
  "fst (relocate_printers env matches ids s) = Some s' \<Longrightarrow> unique_ips pr_id printer_ip (fst s) \<Longrightarrow>
   list_all2 same_printer tab (fst s) \<Longrightarrow> well_linked (snd s) \<Longrightarrow>
   unique_ips pr_id printer_ip (fst s') \<and> list_all2 same_printer tab (fst s') \<and> well_linked (snd s')"
proof (induction ids arbitrary: s)
  case (Cons i ids)
  obtain t js where s: "s = (t, js)" by fastforce
  obtain t1 js1 e1 where step: "relocate_printer env matches i s = Some ((t1, js1), e1)"
    and rest: "fst (relocate_printers env matches ids (t1, js1)) = Some s'"
    using Cons.prems(1) by (auto split: option.splits prod.splits)
  have t1: "t1 = fst (relocated_table env matches i t)" using relocate_printer_table step s by blast
  have "unique_ips pr_id printer_ip t1"
    unfolding t1 by (rule printers.round_unique) (use Cons.prems(2) s in simp)
  moreover have "list_all2 same_printer tab t1"
    unfolding t1 by (rule relocated_table_same) (use Cons.prems(2,3) s in \<open>simp_all add: unique_ips_def\<close>)
  moreover have "well_linked js1"
    using relocate_printer_journal [OF step [unfolded s]] Cons.prems(4) s by simp
  ultimately show ?case using Cons.IH [OF rest] by simp
qed auto

lemma relocate_printers_other:
  "fst (relocate_printers env matches ids s) = Some s' \<Longrightarrow> pr_id p \<notin> set ids \<Longrightarrow> p \<in> set (fst s) \<Longrightarrow> p \<in> set (fst s')"
proof (induction ids arbitrary: s)
  case (Cons i ids)
  obtain t js where s: "s = (t, js)" by fastforce
  obtain t1 js1 e1 where step: "relocate_printer env matches i s = Some ((t1, js1), e1)"
    and rest: "fst (relocate_printers env matches ids (t1, js1)) = Some s'"
    using Cons.prems(1) by (auto split: option.splits prod.splits)
  have "t1 = fst (relocated_table env matches i t)" using relocate_printer_table step s by blast
  then have "p \<in> set t1" using printers.round_other [of p i env matches t] Cons.prems(2,3) s by simp
  with Cons.IH [OF rest] Cons.prems(2) show ?case by simp
qed auto

subsection \<open>The whole bulk poll\<close>

definition printer_targets :: "string \<Rightarrow> bool list \<Rightarrow> printer list \<Rightarrow> printer list" where
  "printer_targets printer_type flags tab =
     select_closed (filter pollable (filter (\<lambda>p. pr_type p = printer_type) tab)) flags"

lemma poll_all_printers_cases:
  fixes ops :: "'r redis_ops"
  obtains (idle) "fst (poll_all_printers_local ops cfg out every_n now net resolve printer_type db r) = Inr db"
  | (run) r0 flags r1 targets results rows s2 polled where
      "acquire_poll_lock ops (printer_lock_key printer_type) r = (True, r0)"
      "fst (circuit_flags ops now ''printer'' (map pr_id (filter pollable (filter (\<lambda>p. pr_type p = printer_type) (fst db)))) r0
          :: bool list \<times> 'r \<times> printer_message effect list) = flags"
      "fst (snd (circuit_flags ops now ''printer'' (map pr_id (filter pollable (filter (\<lambda>p. pr_type p = printer_type) (fst db)))) r0
          :: bool list \<times> 'r \<times> printer_message effect list)) = r1"
      "targets = printer_targets printer_type flags (fst db)"
      "results = poll_printer_batch net (is_full_poll_cycle every_n now) targets"
      "rows = fst (thread (poll_printer_item ops cfg now (is_full_poll_cycle every_n now)
          (printer_subnets_with_total_failure out results) (printer_map_of targets)) results (r1, snd db))"
      "s2 = fst (snd (thread (poll_printer_item ops cfg now (is_full_poll_cycle every_n now)
          (printer_subnets_with_total_failure out results) (printer_map_of targets)) results (r1, snd db)))"
      "polled = List.map_filter id rows"
      "fst (poll_all_printers_local ops cfg out every_n now net resolve printer_type db r) =
         (case fst (relocate_offline_printers (now, net) resolve (map (\<lambda>(p, off). pr_id p) (filter snd polled))
             (put_rows pr_id (map fst polled) (fst db), snd s2)) of None \<Rightarrow> Inl Attribute_error | Some db' \<Rightarrow> Inr db')"
proof (cases "acquire_poll_lock ops (printer_lock_key printer_type) r")
  case (Pair got r0)
  show ?thesis
  proof (cases "\<not> got \<or> filter pollable (filter (\<lambda>p. pr_type p = printer_type) (fst db)) = []")
    case True
    with Pair show ?thesis by (intro that(1)) (auto simp: poll_all_printers_local_def Let_def)
  next
    case False
    with Pair show ?thesis
      by (intro that(2) [OF _ refl refl refl refl refl refl refl])
        (simp_all add: poll_all_printers_local_def printer_targets_def Let_def split_beta)
  qed
qed

lemma thread_mem:
  "y \<in> set (fst (thread step xs s)) \<Longrightarrow> \<exists>x \<in> set xs. \<exists>s'. y = fst (step x s')"
  by (induction xs arbitrary: s) (auto simp: thread_Cons simp del: thread.simps(2))

lemma map_filter_id_mem: "x \<in> set (List.map_filter id xs) \<longleftrightarrow> Some x \<in> set xs"
  by (induction xs) (auto simp: List.map_filter_simps split: option.splits)

lemma polled_keep:
  assumes "(q, off) \<in> set (List.map_filter id (fst (thread (poll_printer_item ops cfg now full suspect (printer_map_of targets)) results s)))"
  shows "\<exists>p \<in> set targets. same_printer p q \<and> pr_ip q = pr_ip p \<and> (\<forall>ip. pr_ip p = Some ip \<longrightarrow> subnet_of ip \<notin> set suspect)"
proof -
  from thread_mem [OF assms [unfolded map_filter_id_mem]]
  obtain item s' where "Some (q, off) = fst (poll_printer_item ops cfg now full suspect (printer_map_of targets) item s')" by blast
  from poll_printer_item_keeps [OF this [symmetric]] show ?thesis by auto
qed

lemma printer_targets_subset: "p \<in> set (printer_targets printer_type flags tab) \<Longrightarrow> p \<in> set tab"
  by (auto simp: printer_targets_def select_closed_def dest: set_zip_leftD)

lemma polled_table:
  assumes "distinct (map pr_id tab)" "set targets \<subseteq> set tab"
    and polled: "polled = List.map_filter id (fst (thread (poll_printer_item ops cfg now full suspect (printer_map_of targets)) results s))"
  shows "list_all2 (\<lambda>p q. same_printer p q \<and> pr_ip q = pr_ip p) tab (put_rows pr_id (map fst polled) tab)"
proof (rule put_rows_all2 [OF assms(1)])
  fix q assume "q \<in> set (map fst polled)"
  then obtain off where "(q, off) \<in> set polled" by auto
  from polled_keep [OF this [unfolded polled]] obtain p where "p \<in> set targets" "same_printer p q" "pr_ip q = pr_ip p" by blast
  with assms(2) show "\<exists>p \<in> set tab. (same_printer p q \<and> pr_ip q = pr_ip p) \<and> pr_id p = pr_id q"
    by (intro bexI [of _ p]) (auto dest: same_printer_id)
qed simp

lemma relocate_offline_printers_rounds:
  "\<exists>matches. relocate_offline_printers env resolve offline s = relocate_printers env matches offline s"
  by (auto simp: relocate_offline_printers_def Let_def)

subsection \<open>The single poll\<close>

lemma finish_single_laser_keeps:
  assumes "finish_single_laser now ans p js = Inr (q, js', es)" "well_linked js"
  shows "same_printer p q \<and> pr_ip q = pr_ip p \<and> well_linked js'"
  using assms
  by (auto simp: finish_single_laser_def Let_def split_beta split: option.splits printer_result.splits if_splits)

lemma poll_single_laser_keeps:
  assumes "poll_single_laser now net resolve tab p js = Inr (q, js', es)" "well_linked js"
  shows "same_printer p q \<and> well_linked js' \<and>
    (pr_ip q = pr_ip p \<or> (\<exists>new_ip. pr_ip q = Some new_ip \<and> single_printer_move resolve tab p = Some new_ip))"
proof (cases "printer_result_is_online (fst (poll_one_printer (net 0) True p))")
  case True
  with assms show ?thesis using finish_single_laser_keeps by (auto simp: poll_single_laser_def Let_def)
next
  case False
  define p1 where "p1 = (case single_printer_move resolve tab p of None \<Rightarrow> p | Some new_ip \<Rightarrow> p\<lparr>pr_ip := Some new_ip\<rparr>)"
  have "\<exists>ans2 es2. finish_single_laser now ans2 p1 js = Inr (q, js', es2)"
    using assms False unfolding poll_single_laser_def p1_def Let_def
    by (cases "single_printer_move resolve tab p") (auto simp: split_beta Let_def simp del: split_paired_Ex split: sum.splits, blast)
  then obtain ans2 es2 where "finish_single_laser now ans2 p1 js = Inr (q, js', es2)" by blast
  from finish_single_laser_keeps [OF this assms(2)]
  show ?thesis by (auto simp: p1_def split: option.splits)
qed

lemma single_printer_move_free:
  "single_printer_move resolve tab p = Some new_ip \<Longrightarrow> r \<in> set tab \<Longrightarrow> printer_ip r = Some new_ip \<Longrightarrow> pr_id r = pr_id p"
  by (auto simp: single_printer_move_def ip_conflict_def list_ex_iff split: option.splits if_splits)

lemma poll_single_keeps:
  assumes u: "unique_ips pr_id printer_ip (fst db)" and w: "well_linked (snd db)"
    and run: "fst (poll_single_printer_local now net resolve i db) = Inr db'"
  shows "unique_ips pr_id printer_ip (fst db') \<and> list_all2 same_printer (fst db) (fst db') \<and> well_linked (snd db')"
proof -
  obtain p where p: "find_row pr_id i (fst db) = Some p"
    using run by (auto simp: poll_single_printer_local_def split: option.splits)
  have "\<exists>q. fst db' = put_row pr_id q (fst db) \<and> same_printer p q \<and> well_linked (snd db') \<and>
    (pr_ip q = pr_ip p \<or> (\<exists>new_ip. pr_ip q = Some new_ip \<and> single_printer_move resolve (fst db) p = Some new_ip))"
  proof (cases "pr_type p = ''label''")
    case True
    with run p w show ?thesis
      by (intro exI [of _ "(fst (poll_single_label net p))\<lparr>pr_last_polled_at := Some now\<rparr>"])
        (auto simp: poll_single_printer_local_def poll_single_label_def Let_def split: if_splits)
  next
    case False
    with run p obtain q js' es where q: "poll_single_laser now net resolve (fst db) p (snd db) = Inr (q, js', es)"
      "db' = (put_row pr_id (q\<lparr>pr_last_polled_at := Some now\<rparr>) (fst db), js')"
      by (auto simp: poll_single_printer_local_def Let_def split: if_splits sum.splits)
    from poll_single_laser_keeps [OF q(1) w] q(2) show ?thesis
      by (intro exI [of _ "q\<lparr>pr_last_polled_at := Some now\<rparr>"]) simp
  qed
  then obtain q where q: "fst db' = put_row pr_id q (fst db)" "same_printer p q" "well_linked (snd db')"
    "pr_ip q = pr_ip p \<or> (\<exists>new_ip. pr_ip q = Some new_ip \<and> single_printer_move resolve (fst db) p = Some new_ip)" by blast
  have "unique_ips pr_id printer_ip (put_row pr_id q (fst db))"
  proof (rule unique_ips_put [OF u])
    fix r ip assume r: "printer_ip q = Some ip" "r \<in> set (fst db)" "printer_ip r = Some ip"
    from q(4) show "pr_id r = pr_id q"
    proof
      assume "pr_ip q = pr_ip p"
      with r u find_row_Some [OF p] same_printer_id [OF q(2)] show ?thesis
        unfolding unique_ips_def printer_ip_def by metis
    next
      assume "\<exists>new_ip. pr_ip q = Some new_ip \<and> single_printer_move resolve (fst db) p = Some new_ip"
      with r single_printer_move_free same_printer_id [OF q(2)] show ?thesis by (auto simp: printer_ip_def)
    qed
  qed
  moreover have "list_all2 same_printer (fst db) (put_row pr_id q (fst db))"
    by (rule list_all2_put_row [where row = p])
      (use u q(2) find_row_Some [OF p] same_printer_id same_printer_trans in \<open>auto simp: unique_ips_def list.rel_refl\<close>)
  ultimately show ?thesis using q by simp
qed

subsection \<open>Printers in a store\<close>

definition silent_printer_net :: printer_net where
  "silent_printer_net = \<lparr>net_probe = (\<lambda>_ _. not_reached ''10.1.3.9'' No_response),
     net_full = (\<lambda>_ _. Inr \<lparr>st_is_online = False, st_status = ''offline'', st_toner_black = None, st_toner_cyan = None,
        st_toner_magenta = None, st_toner_yellow = None, st_page_count = None\<rparr>),
     net_light = (\<lambda>_ _. Inl ()), net_mac = (\<lambda>_ _. Inl ())\<rparr>"

definition label_printer :: printer where
  "label_printer = store_printer\<lparr>pr_id := ''p2'', pr_type := ''label'', pr_ip := Some ''10.1.3.9'',
     pr_mac_address := Some ''00:07:4d:00:11:22'', pr_is_online := Some False\<rparr>"

text \<open>The label printer answers on its new address only.\<close>

definition moved_label_net :: printer_net where
  "moved_label_net = silent_printer_net\<lparr>net_probe :=
     (\<lambda>ip _. if ip = ''10.1.3.40'' then reached ip else not_reached ip No_response)\<rparr>"

definition found_at :: "string \<Rightarrow> mac_target list \<Rightarrow> mac_match list" where
  "found_at ip targets = map (\<lambda>t. \<lparr>mm_target = t, mm_mac = mt_mac t, mm_new_ip = ip\<rparr>) targets"

subsection \<open>Properties\<close>

text \<open>A printer this bulk poll learned nothing about is left exactly as it was, \<open>last_polled_at\<close>
  included, in whatever the poll commits: one of another type, on USB or without an address, one whose
  circuit is open, or one in a subnet where practically every polled printer failed in this cycle.\<close>

theorem unpolled_printers_untouched:
  assumes ok: "redis_ok ops hv sv" and d: "distinct (map pr_id (fst db))" and p: "p \<in> set (fst db)"
    and quiet: "pr_type p \<noteq> printer_type \<or> \<not> pollable p
      \<or> circuit_is_open now (hv r (resilience_key ''printer'' (pr_id p)))
      \<or> (\<exists>ip. pr_ip p = Some ip \<and> subnet_of ip \<in> set (printer_subnets_with_total_failure out
            (poll_printer_batch net (is_full_poll_cycle every_n now)
              (filter (\<lambda>q. \<not> circuit_is_open now (hv r (resilience_key ''printer'' (pr_id q))))
                (filter pollable (filter (\<lambda>q. pr_type q = printer_type) (fst db)))))))"
    and run: "fst (poll_all_printers_local ops cfg out every_n now net resolve printer_type db r) = Inr db'"
  shows "p \<in> set (fst db')"
proof (cases rule: poll_all_printers_cases [of ops cfg out every_n now net resolve printer_type db r])
  case idle
  with run p show ?thesis by simp
next
  case (run r0 flags r1 targets results rows s2 polled)
  let ?open = "\<lambda>q. circuit_is_open now (hv r (resilience_key ''printer'' (pr_id q)))"
  let ?printers = "filter pollable (filter (\<lambda>q. pr_type q = printer_type) (fst db))"
  have "hv r0 = hv r" using acquire_poll_lock_ok [OF ok, of "printer_lock_key printer_type" r] run(1) by auto
  then have flags: "flags = map ?open ?printers"
    unfolding run(2) [symmetric] by (simp add: circuit_flags_ok(1) [OF ok] comp_def)
  have targets: "targets = filter (\<lambda>q. \<not> ?open q) ?printers"
    by (simp only: run(4) printer_targets_def flags select_closed_map)
  have fresh: "pr_id q \<noteq> pr_id p" if q: "(q, off) \<in> set polled" for q off
  proof
    assume id: "pr_id q = pr_id p"
    from polled_keep [OF q [unfolded run(8) run(6)]] obtain o1 where o1: "o1 \<in> set targets" "same_printer o1 q"
      "\<forall>ip. pr_ip o1 = Some ip \<longrightarrow> subnet_of ip \<notin> set (printer_subnets_with_total_failure out results)" by blast
    have "o1 = p"
      by (rule distinct_map_eq [OF d]) (use o1 id p same_printer_id targets in auto)
    with o1 quiet show False unfolding run(5) targets by auto
  qed
  obtain matches where m: "relocate_offline_printers (now, net) resolve (map (\<lambda>(p, off). pr_id p) (filter snd polled))
      (put_rows pr_id (map fst polled) (fst db), snd s2) = relocate_printers (now, net) matches
        (map (\<lambda>(p, off). pr_id p) (filter snd polled)) (put_rows pr_id (map fst polled) (fst db), snd s2)"
    using relocate_offline_printers_rounds by blast
  have moved: "fst (relocate_printers (now, net) matches (map (\<lambda>(p, off). pr_id p) (filter snd polled))
      (put_rows pr_id (map fst polled) (fst db), snd s2)) = Some db'"
    using run(9) assms(5) unfolding m by (auto split: option.splits)
  show ?thesis
  proof (rule relocate_printers_other [OF moved])
    show "pr_id p \<notin> set (map (\<lambda>(p, off). pr_id p) (filter snd polled))" by (auto dest: fresh)
    show "p \<in> set (fst (put_rows pr_id (map fst polled) (fst db), snd s2))"
      using put_rows_untouched [OF p, of "map fst polled" pr_id] fresh by force
  qed
qed

theorem unpolled_printers_untouched_witness:
  "store_printer \<in> set (fst (projr (fst (poll_all_printers_local map_redis default_poll_settings default_outage_settings
      4 100 silent_printer_net (\<lambda>_. []) ''label'' ([store_printer, label_printer], []) empty_redis))))"
proof -
  let ?run = "poll_all_printers_local map_redis default_poll_settings default_outage_settings
      4 100 silent_printer_net (\<lambda>_. []) ''label'' ([store_printer, label_printer], []) empty_redis"
  have "\<not> isl (fst ?run)" by code_simp
  then have "fst ?run = Inr (projr (fst ?run))" by simp
  from unpolled_printers_untouched [OF map_redis_ok _ _ _ this, of store_printer] show ?thesis
    by (simp add: store_printer_def label_printer_def)
qed

text \<open>The bulk poll of the printers and the manual poll of one never put two printers on one address,
  keep every printer's identity and recorded MAC, and keep the replacement journal well linked.\<close>

theorem printer_polls_keep_identity:
  assumes u: "unique_ips pr_id printer_ip (fst db)" and w: "well_linked (snd db)"
  shows "(case fst (poll_all_printers_local ops cfg out every_n now net resolve printer_type db r) of
      Inl _ \<Rightarrow> True
    | Inr db' \<Rightarrow> unique_ips pr_id printer_ip (fst db') \<and> list_all2 same_printer (fst db) (fst db') \<and> well_linked (snd db'))
  \<and> (case fst (poll_single_printer_local now nets resolve i db) of
      Inl _ \<Rightarrow> True
    | Inr db' \<Rightarrow> unique_ips pr_id printer_ip (fst db') \<and> list_all2 same_printer (fst db) (fst db') \<and> well_linked (snd db'))"
proof (rule conjI [rotated])
  show "case fst (poll_single_printer_local now nets resolve i db) of
      Inl _ \<Rightarrow> True
    | Inr db' \<Rightarrow> unique_ips pr_id printer_ip (fst db') \<and> list_all2 same_printer (fst db) (fst db') \<and> well_linked (snd db')"
    using poll_single_keeps [OF u w] by (auto split: sum.splits)
  show "case fst (poll_all_printers_local ops cfg out every_n now net resolve printer_type db r) of
      Inl _ \<Rightarrow> True
    | Inr db' \<Rightarrow> unique_ips pr_id printer_ip (fst db') \<and> list_all2 same_printer (fst db) (fst db') \<and> well_linked (snd db')"
  proof (cases rule: poll_all_printers_cases [of ops cfg out every_n now net resolve printer_type db r])
    case idle
    with u w show ?thesis by (simp add: list.rel_refl)
  next
    case (run r0 flags r1 targets results rows s2 polled)
    let ?tab = "put_rows pr_id (map fst polled) (fst db)"
    have all2: "list_all2 (\<lambda>p q. same_printer p q \<and> pr_ip q = pr_ip p) (fst db) ?tab"
      by (rule polled_table [OF _ _ run(8) [unfolded run(6)]])
        (use u printer_targets_subset run(4) in \<open>auto simp: unique_ips_def\<close>)
    then have tab: "list_all2 same_printer (fst db) ?tab" by (rule list_all2_mono) simp
    from all2 have "map printer_ip ?tab = map printer_ip (fst db)"
      by (induction rule: list_all2_induct) (simp_all add: printer_ip_def)
    then have u': "unique_ips pr_id printer_ip ?tab" by (intro unique_ips_same [OF _ _ u]) simp_all
    have w': "well_linked (snd s2)" unfolding run(7)
      by (rule thread_invariant [where P = "\<lambda>s. well_linked (snd s)"]) (simp_all add: w poll_printer_item_journal)
    obtain matches where m: "relocate_offline_printers (now, net) resolve (map (\<lambda>(p, off). pr_id p) (filter snd polled)) (?tab, snd s2)
        = relocate_printers (now, net) matches (map (\<lambda>(p, off). pr_id p) (filter snd polled)) (?tab, snd s2)"
      using relocate_offline_printers_rounds by blast
    show ?thesis
    proof (cases "fst (relocate_printers (now, net) matches (map (\<lambda>(p, off). pr_id p) (filter snd polled)) (?tab, snd s2))")
      case None
      with run(9) m show ?thesis by simp
    next
      case (Some db')
      with relocate_printers_keep [OF this] u' tab w' run(9) m show ?thesis by simp
    qed
  qed
qed

theorem printer_polls_keep_identity_witness:
  "unique_ips pr_id printer_ip (fst (projr (fst (poll_all_printers_local map_redis default_poll_settings default_outage_settings
      4 100 silent_printer_net (\<lambda>_. []) ''label'' ([store_printer, label_printer], []) empty_redis))))"
proof -
  let ?run = "poll_all_printers_local map_redis default_poll_settings default_outage_settings
      4 100 silent_printer_net (\<lambda>_. []) ''label'' ([store_printer, label_printer], []) empty_redis"
  have u: "unique_ips pr_id printer_ip (fst ([store_printer, label_printer], []))"
    by (simp add: unique_ips_def store_printer_def label_printer_def printer_ip_def)
  have w: "well_linked (snd ([store_printer, label_printer], []))" by (simp add: well_linked_def)
  have "\<not> isl (fst ?run)" by code_simp
  moreover note printer_polls_keep_identity [OF u w, of map_redis default_poll_settings default_outage_settings 4 100
    silent_printer_net "\<lambda>_. []" "''label''" empty_redis, THEN conjunct1]
  ultimately show ?thesis by (cases "fst ?run") simp_all
qed

text \<open>The grace period of a laser printer: while the debounce still counts a printer that stopped
  answering SNMP as online, the cycle changes nothing of its row but \<open>last_polled_at\<close> (status, toner
  levels and MAC verdict stay), queues no relocation and records no cartridge swap.\<close>

theorem grace_period_keeps_row:
  assumes "redis_ok ops hv sv" "printer_map ip = Some p" "subnet_of ip \<notin> set suspect" "pr_is_online p = Some True"
    and "\<not> st_is_online st" "debounced cfg ''printer'' (pr_id p) True False False (hv r)"
  shows "fst (poll_printer_item ops cfg now full suspect printer_map (ip, Some (Snmp st), mac) (r, journal))
      = Some (p\<lparr>pr_last_polled_at := Some now\<rparr>, False)
    \<and> snd (fst (snd (poll_printer_item ops cfg now full suspect printer_map (ip, Some (Snmp st), mac) (r, journal)))) = journal"
proof -
  have "p\<lparr>pr_is_online := Some True\<rparr> = p" using assms(4) by (cases p) simp
  then show ?thesis
    using assms(2-6)
    by (simp add: apply_poll_outcome_fst [OF assms(1)] poll_printer_item_def apply_printer_answer_def apply_snmp_result_def printer_probe_error_def
        Let_def split_beta)
qed

theorem grace_period_keeps_row_witness:
  "fst (poll_printer_item map_redis default_poll_settings 100 True [] [''10.1.3.7'' \<mapsto> store_printer]
      (''10.1.3.7'', Some (Snmp (projr (net_full silent_printer_net ''10.1.3.7'' ''public''))), None) (empty_redis, []))
    = Some (store_printer\<lparr>pr_last_polled_at := Some 100\<rparr>, False)"
proof -
  have deb: "debounced default_poll_settings ''printer'' (pr_id store_printer) True False False (fst empty_redis)" by code_simp
  show ?thesis
    using grace_period_keeps_row [OF map_redis_ok, where printer_map = "[''10.1.3.7'' \<mapsto> store_printer]" and ip = "''10.1.3.7''"
        and p = store_printer and suspect = "[]" and st = "projr (net_full silent_printer_net ''10.1.3.7'' ''public'')"
        and r = empty_redis and cfg = default_poll_settings] deb
    by (simp add: store_printer_def silent_printer_net_def)
qed

text \<open>The relocation of a printer dies on an AttributeError exactly when a label printer answers its
  raw-print port at the free address its MAC was found on: the branch hands the TCP probe's result to the
  code that reads an SNMP status.\<close>

theorem label_relocation_aborts:
  "relocate_printer env matches i s = None \<longleftrightarrow>
   (\<exists>p new_ip. find_row pr_id i (fst s) = Some p \<and> move_target pr_id printer_ip matches p (fst s) = Some new_ip
      \<and> pr_type p = ''label'' \<and> pr_connection p \<noteq> ''usb'' \<and> rr_online (net_probe (snd env) new_ip 9100))"
proof (cases "find_row pr_id i (fst s)")
  case None
  then show ?thesis by (simp add: relocate_printer_def)
next
  case (Some p)
  note row = this
  show ?thesis
  proof (cases "move_target pr_id printer_ip matches p (fst s)")
    case None
    with row show ?thesis by (simp add: relocate_printer_def)
  next
    case (Some new_ip)
    have "new_ip \<noteq> []" using move_target_Some [OF Some] by simp
    with row Some show ?thesis
      by (auto simp: relocate_printer_def poll_one_printer_def truthy_def label_printer_port_def Let_def split_beta
          split: sum.splits if_splits)
  qed
qed

text \<open>The whole label poll then ends in the exception: nothing of the cycle is committed.\<close>

lemma label_poll_aborts:
  "fst (poll_all_printers_local map_redis default_poll_settings default_outage_settings 4 100 moved_label_net
     (found_at ''10.1.3.40'') ''label'' ([label_printer], []) empty_redis) = Inl Attribute_error"
  by code_simp

end
