(* ===== verification/Cartridge_Stock.thy ===== *)
theory Cartridge_Stock
  imports Cartridge_Journal
begin

section \<open>The cartridge stock ledger (app/services/cartridge_stock.py, cartridge_inventory.py)\<close>

text \<open>
  The two tables are a \<open>stock_db\<close>: catalog rows and their movements, in insertion order. Every
  operation is a function from the tables to an error or the new tables; \<open>new_id\<close> stands for the
  uuid4 of a row created for a name. Payloads are the validated Pydantic models; an unset field of
  an update is \<open>None\<close>, an explicit null \<open>Some None\<close>.
\<close>

subsection \<open>Tables\<close>

record cartridge_stock =
  cs_id :: uid
  cs_name :: ustr
  cs_color :: "color option"
  cs_models :: ustr
  cs_printer_count :: int
  cs_quantity :: int
  cs_minimum :: int
  cs_active :: bool
  cs_last_synced_at :: "instant option"
  cs_updated_at :: "instant option"

datatype move_reason = Adjust | Issue | Inventory

record stock_movement =
  mv_stock_id :: uid
  mv_delta :: int
  mv_reason :: move_reason
  mv_note :: "ustr option"
  mv_created_by :: "ustr option"

record stock_db =
  stocks :: "cartridge_stock list"
  movements :: "stock_movement list"

datatype stock_error = Stock_missing | Stock_quantity | Stock_duplicate ustr

definition fresh_stock :: "uid \<Rightarrow> ustr \<Rightarrow> cartridge_stock" where
  "fresh_stock i name = \<lparr>cs_id = i, cs_name = name, cs_color = None, cs_models = [], cs_printer_count = 0,
     cs_quantity = 0, cs_minimum = 0, cs_active = True, cs_last_synced_at = None, cs_updated_at = None\<rparr>"

definition add_stock :: "cartridge_stock \<Rightarrow> stock_db \<Rightarrow> stock_db" where
  "add_stock row db = db\<lparr>stocks := stocks db @ [row]\<rparr>"

definition put_stock :: "cartridge_stock \<Rightarrow> stock_db \<Rightarrow> stock_db" where
  "put_stock row db = db\<lparr>stocks := put_row cs_id row (stocks db)\<rparr>"

text \<open>\<open>if delta: session.add(CartridgeStockMovement(...))\<close>\<close>

definition add_movement :: "stock_movement \<Rightarrow> stock_db \<Rightarrow> stock_db" where
  "add_movement m db = (if mv_delta m = 0 then db else db\<lparr>movements := movements db @ [m]\<rparr>)"

definition find_by_name :: "ustr \<Rightarrow> stock_db \<Rightarrow> cartridge_stock option" where
  "find_by_name name db = find_row cs_name name (stocks db)"

definition get_stock :: "uid \<Rightarrow> stock_db \<Rightarrow> cartridge_stock option" where
  "get_stock i db = find_row cs_id i (stocks db)"

subsection \<open>Synchronisation with the printers\<close>

definition normalize_cartridge_name :: "ustr option \<Rightarrow> ustr option" where
  "normalize_cartridge_name value = (case value of
     None \<Rightarrow> None
   | Some v \<Rightarrow> let n = u_squeeze (u_strip v) in if n = [] then None else Some (take 128 n))"

text \<open>One (name, colour, model) per named cartridge of a laser printer, in the order of the nested loops.\<close>

definition discovered_cartridges :: "printer list \<Rightarrow> (ustr \<times> color \<times> ustr) list" where
  "discovered_cartridges printers =
     concat (map (\<lambda>p. concat (map (\<lambda>c. case normalize_cartridge_name (cartridge_name p c) of
        None \<Rightarrow> [] | Some n \<Rightarrow> [(n, c, pr_model p)]) colors))
       (filter (\<lambda>p. pr_type p = ''laser'') printers))"

definition model_list :: "ustr list \<Rightarrow> ustr" where
  "model_list models = take 1024 (u_join [44, 32] (sort (remdups models)))"

text \<open>The loop over the sorted names: \<open>metas\<close> are the (colour, model) pairs found for \<open>name\<close>.\<close>

definition sync_one :: "instant \<Rightarrow> (ustr \<Rightarrow> uid) \<Rightarrow> stock_db \<Rightarrow> ustr \<times> (color \<times> ustr) list \<Rightarrow> stock_db" where
  "sync_one now new_id db entry = (case entry of (name, metas) \<Rightarrow>
     let upd = (\<lambda>row. row\<lparr>cs_color := Some (fst (hd metas)), cs_models := model_list (map snd metas),
           cs_printer_count := int (length metas), cs_active := True,
           cs_last_synced_at := Some now, cs_updated_at := Some now\<rparr>)
     in case find_by_name name db of
          None \<Rightarrow> add_stock (upd (fresh_stock (new_id name) name)) db
        | Some row \<Rightarrow> if \<not> cs_active row then db else put_stock (upd row) db)"

definition sync_cartridge_stock_from_printers :: "instant \<Rightarrow> (ustr \<Rightarrow> uid) \<Rightarrow> printer list \<Rightarrow> stock_db \<Rightarrow> stock_db" where
  "sync_cartridge_stock_from_printers now new_id printers db =
     foldl (sync_one now new_id) db (sort_key fst (group_pairs (discovered_cartridges printers)))"

subsection \<open>Creating, archiving, updating and issuing\<close>

record stock_create =
  sc_name :: ustr
  sc_color :: "color option"
  sc_models :: ustr
  sc_quantity :: int
  sc_minimum :: int
  sc_note :: "ustr option"

definition opening_note :: ustr where
  "opening_note = [1053, 1072, 1095, 1072, 1083, 1100, 1085, 1099, 1081, 32, 1086, 1089, 1090, 1072, 1090, 1086, 1082]"

definition create_cartridge_stock ::
  "(ustr \<Rightarrow> uid) \<Rightarrow> stock_create \<Rightarrow> ustr option \<Rightarrow> stock_db \<Rightarrow> stock_error + stock_db" where
  "create_cartridge_stock new_id payload actor db =
   (if find_by_name (sc_name payload) db \<noteq> None then Inl (Stock_duplicate (sc_name payload))
    else
      let row = (fresh_stock (new_id (sc_name payload)) (sc_name payload))\<lparr>cs_color := sc_color payload,
            cs_models := sc_models payload, cs_quantity := sc_quantity payload, cs_minimum := sc_minimum payload\<rparr>;
          note = (case sc_note payload of None \<Rightarrow> opening_note | Some n \<Rightarrow> if n = [] then opening_note else n)
      in Inr (add_movement \<lparr>mv_stock_id = cs_id row, mv_delta = cs_quantity row, mv_reason = Adjust,
                mv_note = Some note, mv_created_by = actor\<rparr> (add_stock row db)))"

definition deactivate_cartridge_stock :: "instant \<Rightarrow> uid \<Rightarrow> stock_db \<Rightarrow> stock_error + stock_db" where
  "deactivate_cartridge_stock now i db = (case get_stock i db of
     None \<Rightarrow> Inl Stock_missing
   | Some row \<Rightarrow> Inr (put_stock (row\<lparr>cs_active := False, cs_updated_at := Some now\<rparr>) db))"

record stock_update =
  su_name :: "ustr option option"
  su_color :: "color option option"
  su_models :: "ustr option option"
  su_quantity :: "int option option"
  su_minimum :: "int option option"
  su_active :: "bool option option"
  su_note :: "ustr option"

text \<open>A field that is set and not null changes the row.\<close>

definition given :: "'a option option \<Rightarrow> 'a \<Rightarrow> 'a" where
  "given field old = (case field of Some (Some v) \<Rightarrow> v | _ \<Rightarrow> old)"

definition name_clash :: "cartridge_stock \<Rightarrow> ustr option option \<Rightarrow> stock_db \<Rightarrow> bool" where
  "name_clash row field db = (case field of
     Some (Some new_name) \<Rightarrow> new_name \<noteq> cs_name row \<and>
       (case find_by_name new_name db of None \<Rightarrow> False | Some clash \<Rightarrow> cs_id clash \<noteq> cs_id row)
   | _ \<Rightarrow> False)"

definition update_cartridge_stock ::
  "instant \<Rightarrow> uid \<Rightarrow> stock_update \<Rightarrow> ustr option \<Rightarrow> stock_db \<Rightarrow> stock_error + stock_db" where
  "update_cartridge_stock now i payload actor db = (case get_stock i db of
     None \<Rightarrow> Inl Stock_missing
   | Some row \<Rightarrow>
       if name_clash row (su_name payload) db then Inl (Stock_duplicate (given (su_name payload) (cs_name row)))
       else
         let row' = row\<lparr>cs_name := given (su_name payload) (cs_name row),
               cs_color := (case su_color payload of None \<Rightarrow> cs_color row | Some c \<Rightarrow> c),
               cs_models := given (su_models payload) (cs_models row),
               cs_active := given (su_active payload) (cs_active row),
               cs_quantity := given (su_quantity payload) (cs_quantity row),
               cs_minimum := given (su_minimum payload) (cs_minimum row),
               cs_updated_at := Some now\<rparr>
         in Inr (add_movement \<lparr>mv_stock_id = i, mv_delta = cs_quantity row' - cs_quantity row, mv_reason = Adjust,
                   mv_note = su_note payload, mv_created_by = actor\<rparr> (put_stock row' db)))"

record issue_request =
  ir_quantity :: int
  ir_note :: "ustr option"

definition issue_cartridge_stock ::
  "instant \<Rightarrow> uid \<Rightarrow> issue_request \<Rightarrow> ustr option \<Rightarrow> stock_db \<Rightarrow> stock_error + stock_db" where
  "issue_cartridge_stock now i payload actor db = (case get_stock i db of
     None \<Rightarrow> Inl Stock_missing
   | Some row \<Rightarrow>
       if cs_quantity row < ir_quantity payload then Inl Stock_quantity
       else
         let db' = put_stock (row\<lparr>cs_quantity := cs_quantity row - ir_quantity payload, cs_updated_at := Some now\<rparr>) db
         in Inr (db'\<lparr>movements := movements db' @ [\<lparr>mv_stock_id = i, mv_delta = - ir_quantity payload, mv_reason = Issue,
                   mv_note = ir_note payload, mv_created_by = actor\<rparr>]\<rparr>))"

subsection \<open>Reconciling with an inventory document\<close>

record inventory_item =
  it_name :: ustr
  it_color :: "color option"
  it_quantity :: int
  it_models :: ustr
  it_row :: "int option"

record inventory_document =
  doc_source_file :: ustr
  doc_date :: ustr
  doc_position_count :: int
  doc_quantity_total :: int
  doc_items :: "inventory_item list"

text \<open>The field constraints and \<open>validate_totals_and_unique_names\<close>.\<close>

definition valid_document :: "inventory_document \<Rightarrow> bool" where
  "valid_document doc \<longleftrightarrow> list_all (\<lambda>i. 0 \<le> it_quantity i) (doc_items doc)
     \<and> distinct (map it_name (doc_items doc))
     \<and> doc_position_count doc = int (length (doc_items doc))
     \<and> doc_quantity_total doc = sum_list (map it_quantity (doc_items doc))"

definition inventory_word :: ustr where
  "inventory_word = [1048, 1085, 1074, 1077, 1085, 1090, 1072, 1088, 1080, 1079, 1072, 1094, 1080, 1103, 32]"

definition movement_note :: "inventory_document \<Rightarrow> int option \<Rightarrow> ustr" where
  "movement_note doc source_row = take 512 (inventory_word @ doc_date doc @ cp ''; '' @ doc_source_file doc @
     (case source_row of None \<Rightarrow> [] | Some n \<Rightarrow> [59, 32, 1089, 1090, 1088, 1086, 1082, 1072, 32] @ cp (show_int n)))"

record import_result =
  im_applied :: bool
  im_created :: nat
  im_updated :: nat
  im_deactivated :: nat
  im_movements :: nat
  im_active_positions :: nat
  im_active_quantity :: int

definition reconcile_item ::
  "inventory_document \<Rightarrow> instant \<Rightarrow> (ustr \<Rightarrow> uid) \<Rightarrow> ustr option \<Rightarrow> stock_db \<Rightarrow> inventory_item \<Rightarrow> stock_db" where
  "reconcile_item doc now new_id actor db item =
   (let (row, db1) = (case find_by_name (it_name item) db of
          None \<Rightarrow> (let r = fresh_stock (new_id (it_name item)) (it_name item) in (r, add_stock r db))
        | Some r \<Rightarrow> (r, db));
        row' = row\<lparr>cs_color := it_color item, cs_models := it_models item, cs_quantity := it_quantity item,
                   cs_active := True, cs_last_synced_at := Some now, cs_updated_at := Some now\<rparr>
    in add_movement \<lparr>mv_stock_id = cs_id row, mv_delta = it_quantity item - cs_quantity row, mv_reason = Inventory,
         mv_note = Some (movement_note doc (it_row item)), mv_created_by = actor\<rparr> (put_stock row' db1))"

text \<open>The second loop, over the ids of the rows that existed before: the current state of the row decides.\<close>

definition deactivate_missing_row ::
  "inventory_document \<Rightarrow> instant \<Rightarrow> ustr option \<Rightarrow> stock_db \<Rightarrow> uid \<Rightarrow> stock_db" where
  "deactivate_missing_row doc now actor db i = (case get_stock i db of
     None \<Rightarrow> db
   | Some row \<Rightarrow>
       if \<not> cs_active row \<or> cs_name row \<in> set (map it_name (doc_items doc)) then db
       else add_movement \<lparr>mv_stock_id = i, mv_delta = - cs_quantity row, mv_reason = Inventory,
              mv_note = Some (movement_note doc None), mv_created_by = actor\<rparr>
            (put_stock (row\<lparr>cs_quantity := 0, cs_active := False, cs_updated_at := Some now\<rparr>) db))"

text \<open>The counters the two loops keep are read off the tables: rows added, rows archived, movements added.\<close>

definition reconcile_cartridge_inventory ::
  "inventory_document \<Rightarrow> instant \<Rightarrow> (ustr \<Rightarrow> uid) \<Rightarrow> ustr option \<Rightarrow> bool \<Rightarrow> bool \<Rightarrow> stock_db \<Rightarrow> import_result \<times> stock_db" where
  "reconcile_cartridge_inventory doc now new_id actor do_apply deactivate_missing db =
   (let db1 = foldl (reconcile_item doc now new_id actor) db (doc_items doc);
        db2 = (if deactivate_missing
               then foldl (deactivate_missing_row doc now actor) db1 (map cs_id (stocks db)) else db1);
        active = filter cs_active (stocks db2);
        created = length (stocks db1) - length (stocks db);
        gone = length (filter (\<lambda>r. \<not> cs_active r) (stocks db2)) - length (filter (\<lambda>r. \<not> cs_active r) (stocks db1))
    in (\<lparr>im_applied = do_apply, im_created = created, im_updated = length (doc_items doc) - created,
         im_deactivated = gone, im_movements = length (movements db2) - length (movements db),
         im_active_positions = length active, im_active_quantity = sum_list (map cs_quantity active)\<rparr>,
        if do_apply then db2 else db))"

subsection \<open>The ledger invariant\<close>

definition sum_deltas :: "uid \<Rightarrow> stock_movement list \<Rightarrow> int" where
  "sum_deltas i ms = sum_list (map mv_delta (filter (\<lambda>m. mv_stock_id m = i) ms))"

text \<open>Ids and names are unique, movements refer to rows, and every quantity is non-negative and is the sum of its movements.\<close>

definition ledger_ok :: "stock_db \<Rightarrow> bool" where
  "ledger_ok db \<longleftrightarrow> distinct (map cs_id (stocks db)) \<and> distinct (map cs_name (stocks db))
     \<and> (\<forall>m \<in> set (movements db). mv_stock_id m \<in> cs_id ` set (stocks db))
     \<and> (\<forall>row \<in> set (stocks db). 0 \<le> cs_quantity row \<and> cs_quantity row = sum_deltas (cs_id row) (movements db))"

lemma add_movement_stocks [simp]: "stocks (add_movement m db) = stocks db"
  by (simp add: add_movement_def)

lemma put_stock_simps [simp]:
  "stocks (put_stock row db) = put_row cs_id row (stocks db)" "movements (put_stock row db) = movements db"
  by (simp_all add: put_stock_def)

lemma add_stock_simps [simp]:
  "stocks (add_stock row db) = stocks db @ [row]" "movements (add_stock row db) = movements db"
  by (simp_all add: add_stock_def)

lemma sum_deltas_add_movement:
  "sum_deltas i (movements (add_movement m db)) = sum_deltas i (movements db) + (if mv_stock_id m = i then mv_delta m else 0)"
  by (simp add: add_movement_def sum_deltas_def)

lemma movements_add_movement: "set (movements (add_movement m db)) \<subseteq> insert m (set (movements db))"
  by (auto simp: add_movement_def)

lemma ledger_okD:
  assumes "ledger_ok db"
  shows "distinct (map cs_id (stocks db))" "distinct (map cs_name (stocks db))"
    and "m \<in> set (movements db) \<Longrightarrow> mv_stock_id m \<in> cs_id ` set (stocks db)"
    and "row \<in> set (stocks db) \<Longrightarrow> 0 \<le> cs_quantity row"
    and "row \<in> set (stocks db) \<Longrightarrow> sum_deltas (cs_id row) (movements db) = cs_quantity row"
  using assms unfolding ledger_ok_def by metis+

lemma sum_deltas_unused: "i \<notin> mv_stock_id ` set ms \<Longrightarrow> sum_deltas i ms = 0"
  by (induction ms) (auto simp: sum_deltas_def)

lemma distinct_names_put:
  assumes "distinct (map cs_id tab)" "distinct (map cs_name tab)" "row \<in> set tab" "cs_id row' = cs_id row"
    and "\<And>r. r \<in> set tab \<Longrightarrow> cs_id r \<noteq> cs_id row \<Longrightarrow> cs_name r \<noteq> cs_name row'"
  shows "distinct (map cs_name (put_row cs_id row' tab))"
  using assms
proof (induction tab)
  case (Cons a tab)
  have ids: "cs_id a \<notin> cs_id ` set tab" using Cons.prems(1) by auto
  show ?case
  proof (cases "a = row")
    case True
    then have "put_row cs_id row' tab = tab"  
      using ids Cons.prems(4) unfolding put_row_def by (intro map_idI) (metis image_eqI True)
    moreover have "cs_name row' \<notin> cs_name ` set tab"
    proof
      assume "cs_name row' \<in> cs_name ` set tab"
      then obtain q where q: "q \<in> set tab" "cs_name q = cs_name row'" by auto
      then have "cs_id q \<noteq> cs_id row" using ids True by (metis image_eqI)
      with Cons.prems(5) [of q] q show False by simp
    qed
    ultimately show ?thesis using True Cons.prems by (auto simp: put_row_def)
  next
    case False
    then have row: "row \<in> set tab" using Cons.prems(3) by simp
    then have ne: "cs_id a \<noteq> cs_id row" using ids by auto
    have "distinct (map cs_name (put_row cs_id row' tab))"
      using Cons.IH Cons.prems row by simp
    moreover have "cs_name a \<notin> cs_name ` set (put_row cs_id row' tab)"
    proof
      assume "cs_name a \<in> cs_name ` set (put_row cs_id row' tab)"
      then obtain q where "q \<in> set (put_row cs_id row' tab)" "cs_name q = cs_name a" by auto
      then have "q = row' \<or> q \<in> set tab" using mem_put_row [of q cs_id row' tab] by blast
      then show False
      proof
        assume "q = row'"
        with Cons.prems(5) [of a] ne \<open>cs_name q = cs_name a\<close> show False by simp
      next
        assume "q \<in> set tab"
        with Cons.prems(2) \<open>cs_name q = cs_name a\<close> show False by (metis distinct.simps(2) image_eqI image_set list.simps(9))
      qed
    qed
    moreover have "put_row cs_id row' (a # tab) = a # put_row cs_id row' tab"
      using ne Cons.prems(4) by (simp add: put_row_def)
    ultimately show ?thesis by simp
  qed
qed simp

lemma ledger_put:
  assumes ok: "ledger_ok db" and row: "row \<in> set (stocks db)" "cs_id row' = cs_id row"
    and name: "\<And>r. r \<in> set (stocks db) \<Longrightarrow> cs_id r \<noteq> cs_id row \<Longrightarrow> cs_name r \<noteq> cs_name row'"
    and q: "0 \<le> cs_quantity row'"
    and m: "mv_stock_id m = cs_id row" "mv_delta m = cs_quantity row' - cs_quantity row"
  shows "ledger_ok (add_movement m (put_stock row' db))"
  unfolding ledger_ok_def
proof (intro conjI ballI)
  show "distinct (map cs_id (stocks (add_movement m (put_stock row' db))))"
    using ok by (simp add: ledger_ok_def)
  show "distinct (map cs_name (stocks (add_movement m (put_stock row' db))))"
    using distinct_names_put [OF _ _ row name] ok by (simp add: ledger_ok_def)
  have ids: "cs_id ` set (put_row cs_id row' (stocks db)) = cs_id ` set (stocks db)"
    using map_rid_put_row [of cs_id row' "stocks db"] by (metis image_set)
  fix x assume "x \<in> set (movements (add_movement m (put_stock row' db)))"
  then have "x = m \<or> x \<in> set (movements db)" using movements_add_movement by fastforce
  then show "mv_stock_id x \<in> cs_id ` set (stocks (add_movement m (put_stock row' db)))"
    using ledger_okD(3) [OF ok] row m(1) ids by fastforce
next
  fix r assume "r \<in> set (stocks (add_movement m (put_stock row' db)))"
  then have r: "r = row' \<or> r \<in> set (stocks db) \<and> cs_id r \<noteq> cs_id row'"
    using mem_put_row [of r cs_id row' "stocks db"] by simp
  then show "0 \<le> cs_quantity r" using ledger_okD(4) [OF ok] q by blast
  show "cs_quantity r = sum_deltas (cs_id r) (movements (add_movement m (put_stock row' db)))"
  proof (cases "r = row'")
    case True
    with ledger_okD(5) [OF ok row(1)] row(2) m show ?thesis by (simp add: sum_deltas_add_movement)
  next
    case False
    with r have "r \<in> set (stocks db)" "cs_id r \<noteq> cs_id row" using row(2) by auto
    with ledger_okD(5) [OF ok, of r] m(1) show ?thesis by (simp add: sum_deltas_add_movement)
  qed
qed

lemma ledger_add:
  assumes ok: "ledger_ok db" and fresh: "cs_id row \<notin> cs_id ` set (stocks db)" "cs_name row \<notin> cs_name ` set (stocks db)"
    and q: "0 \<le> cs_quantity row" and m: "mv_stock_id m = cs_id row" "mv_delta m = cs_quantity row"
  shows "ledger_ok (add_movement m (add_stock row db))"
proof -
  have "cs_id row \<notin> mv_stock_id ` set (movements db)" using ledger_okD(3) [OF ok] fresh(1) by (metis imageE)
  then have z: "sum_deltas (cs_id row) (movements db) = 0" by (rule sum_deltas_unused)
  show ?thesis
    unfolding ledger_ok_def
  proof (intro conjI ballI)
    show "distinct (map cs_id (stocks (add_movement m (add_stock row db))))"
      "distinct (map cs_name (stocks (add_movement m (add_stock row db))))"
      using ok fresh by (auto simp: ledger_ok_def)
    fix x assume "x \<in> set (movements (add_movement m (add_stock row db)))"
    then have "x = m \<or> x \<in> set (movements db)" using movements_add_movement by fastforce
    then show "mv_stock_id x \<in> cs_id ` set (stocks (add_movement m (add_stock row db)))"
      using ledger_okD(3) [OF ok] m(1) by fastforce
  next
    fix r assume "r \<in> set (stocks (add_movement m (add_stock row db)))"
    then have r: "r = row \<or> r \<in> set (stocks db)" by auto
    then show "0 \<le> cs_quantity r" using ledger_okD(4) [OF ok] q by blast
    show "cs_quantity r = sum_deltas (cs_id r) (movements (add_movement m (add_stock row db)))"
    proof (cases "r = row")
      case True
      with z m show ?thesis by (simp add: sum_deltas_add_movement)
    next
      case False
      with r have "r \<in> set (stocks db)" by simp
      moreover from this have "cs_id r \<noteq> cs_id row" using fresh(1) by (metis image_eqI)
      ultimately have "r \<in> set (stocks db)" "cs_id r \<noteq> cs_id row" .
      with ledger_okD(5) [OF ok, of r] m(1) show ?thesis by (simp add: sum_deltas_add_movement)
    qed
  qed
qed

lemma add_no_movement: "mv_delta m = 0 \<Longrightarrow> add_movement m db = db"
  by (simp add: add_movement_def)

text \<open>Changes that move nothing.\<close>

lemma ledger_put_same:
  assumes "ledger_ok db" "row \<in> set (stocks db)" "cs_id row' = cs_id row" "cs_name row' = cs_name row"
    "cs_quantity row' = cs_quantity row"
  shows "ledger_ok (put_stock row' db)"
proof -
  let ?m = "\<lparr>mv_stock_id = cs_id row, mv_delta = 0, mv_reason = Adjust, mv_note = None, mv_created_by = None\<rparr>"
  have "cs_name r \<noteq> cs_name row'" if "r \<in> set (stocks db)" "cs_id r \<noteq> cs_id row" for r
    using distinct_map_eq [OF ledger_okD(2) [OF assms(1)] that(1) assms(2)] that(2) assms(4) by metis
  then have "ledger_ok (add_movement ?m (put_stock row' db))"
    using ledger_okD(4) [OF assms(1,2)] assms(5) by (intro ledger_put [OF assms(1-3)]) simp_all
  then show ?thesis by (simp add: add_no_movement)
qed

lemma find_by_name_Some: "find_by_name n db = Some r \<Longrightarrow> r \<in> set (stocks db) \<and> cs_name r = n"
  by (auto simp: find_by_name_def dest: find_row_Some)

lemma find_by_name_None: "find_by_name n db = None \<longleftrightarrow> n \<notin> cs_name ` set (stocks db)"
  by (simp add: find_by_name_def find_row_None)

lemma get_stock_Some: "get_stock i db = Some r \<Longrightarrow> r \<in> set (stocks db) \<and> cs_id r = i"
  by (auto simp: get_stock_def dest: find_row_Some)

subsection \<open>Every operation keeps the ledger\<close>

text \<open>uuid4 values do not collide: distinct names get distinct new ids, and an id \<open>new_id n\<close> already in the
  table is the one of the row created for \<open>n\<close>.\<close>

definition ids_ok :: "(ustr \<Rightarrow> uid) \<Rightarrow> stock_db \<Rightarrow> bool" where
  "ids_ok new_id db \<longleftrightarrow> inj new_id \<and> (\<forall>row \<in> set (stocks db). \<forall>n. cs_id row = new_id n \<longrightarrow> cs_name row = n)"

lemma ids_ok_fresh:
  assumes "ids_ok new_id db" "find_by_name n db = None"
  shows "new_id n \<notin> cs_id ` set (stocks db)"
proof
  assume "new_id n \<in> cs_id ` set (stocks db)"
  then obtain row where r: "row \<in> set (stocks db)" "cs_id row = new_id n" by auto
  with assms(1) have "cs_name row = n" unfolding ids_ok_def by blast
  with r assms(2) show False by (simp add: find_by_name_None) blast
qed

lemma ids_ok_add:
  assumes "ids_ok new_id db" "cs_id row = new_id (cs_name row)"
  shows "ids_ok new_id (add_stock row db)"
  using assms by (auto simp: ids_ok_def dest: injD)

lemma ids_ok_put:
  assumes "ids_ok new_id db" "row \<in> set (stocks db)" "cs_id row' = cs_id row" "cs_name row' = cs_name row"
  shows "ids_ok new_id (put_stock row' db)"
  unfolding ids_ok_def
proof (intro conjI ballI allI impI)
  show "inj new_id" using assms(1) by (simp add: ids_ok_def)
  fix r n assume "r \<in> set (stocks (put_stock row' db))" "cs_id r = new_id n"
  then show "cs_name r = n"
    using mem_put_row [of r cs_id row' "stocks db"] assms unfolding ids_ok_def by auto
qed

lemma ids_ok_add_movement [simp]: "ids_ok new_id (add_movement m db) = ids_ok new_id db"
  by (simp add: ids_ok_def)

lemma add_stock_quiet:
  assumes "ledger_ok db" "ids_ok new_id db" "find_by_name n db = None"
    and "cs_id row = new_id n" "cs_name row = n" "cs_quantity row = 0"
  shows "ledger_ok (add_stock row db) \<and> ids_ok new_id (add_stock row db)"
proof
  let ?m = "\<lparr>mv_stock_id = cs_id row, mv_delta = 0, mv_reason = Adjust, mv_note = None, mv_created_by = None\<rparr>"
  have "ledger_ok (add_movement ?m (add_stock row db))"
    by (rule ledger_add [OF assms(1)])
      (use ids_ok_fresh [OF assms(2,3)] assms find_by_name_None [of n db] in simp_all)
  then show "ledger_ok (add_stock row db)" by (simp add: add_no_movement)
  show "ids_ok new_id (add_stock row db)" by (rule ids_ok_add) (use assms in simp_all)
qed

lemma sync_one_ok:
  assumes "ledger_ok db" "ids_ok new_id db"
  shows "ledger_ok (sync_one now new_id db entry) \<and> ids_ok new_id (sync_one now new_id db entry)"
proof (cases entry)
  case (Pair name metas)
  show ?thesis
  proof (cases "find_by_name name db")
    case None
    with Pair show ?thesis
      by (simp add: sync_one_def) (rule add_stock_quiet [OF assms, of name]; simp add: fresh_stock_def)
  next
    case (Some row)
    with Pair assms show ?thesis
      by (auto simp: sync_one_def intro: ledger_put_same ids_ok_put dest: find_by_name_Some)
  qed
qed

lemma sync_ok:
  assumes "ledger_ok db" "ids_ok new_id db"
  shows "ledger_ok (sync_cartridge_stock_from_printers now new_id printers db)
    \<and> ids_ok new_id (sync_cartridge_stock_from_printers now new_id printers db)"
proof -
  have "ledger_ok (foldl (sync_one now new_id) db es) \<and> ids_ok new_id (foldl (sync_one now new_id) db es)" for es
    using assms by (induction es arbitrary: db) (simp_all add: sync_one_ok)
  then show ?thesis by (simp add: sync_cartridge_stock_from_printers_def)
qed

lemma create_ok:
  assumes "ledger_ok db" "ids_ok new_id db" "0 \<le> sc_quantity payload"
    "create_cartridge_stock new_id payload actor db = Inr db'"
  shows "ledger_ok db'"
proof -
  have none: "find_by_name (sc_name payload) db = None"
    using assms(4) by (auto simp: create_cartridge_stock_def split: if_splits)
  from assms(4) none ids_ok_fresh [OF assms(2) none] assms(3) show ?thesis
    by (auto simp: create_cartridge_stock_def Let_def fresh_stock_def find_by_name_None intro!: ledger_add [OF assms(1)])
qed

lemma deactivate_ok:
  "ledger_ok db \<Longrightarrow> deactivate_cartridge_stock now i db = Inr db' \<Longrightarrow> ledger_ok db'"
  by (auto simp: deactivate_cartridge_stock_def intro: ledger_put_same dest: get_stock_Some split: option.splits)

lemma update_ok:
  assumes "ledger_ok db" "update_cartridge_stock now i payload actor db = Inr db'"
    and q: "\<And>v. su_quantity payload = Some (Some v) \<Longrightarrow> 0 \<le> v"
  shows "ledger_ok db'"
proof -
  from assms(2) obtain row where row: "get_stock i db = Some row" "\<not> name_clash row (su_name payload) db"
    by (auto simp: update_cartridge_stock_def split: option.splits if_splits)
  note r = get_stock_Some [OF row(1)]
  have name: "cs_name x \<noteq> given (su_name payload) (cs_name row)" if x: "x \<in> set (stocks db)" "cs_id x \<noteq> cs_id row" for x
  proof
    assume e: "cs_name x = given (su_name payload) (cs_name row)"
    have "find_by_name (cs_name x) db = Some x"
      unfolding find_by_name_def by (rule find_row_distinct [OF ledger_okD(2) [OF assms(1)] x(1)])
    moreover have "cs_name x \<noteq> cs_name row"
      using distinct_map_eq [OF ledger_okD(2) [OF assms(1)] x(1), of row] r x(2) by auto
    ultimately show False
      using row(2) e x(2) by (auto simp: given_def name_clash_def split: option.splits)
  qed
  have "0 \<le> given (su_quantity payload) (cs_quantity row)"
    using q ledger_okD(4) [OF assms(1)] r by (auto simp: given_def split: option.splits)
  with assms(2) row r name show ?thesis
    by (auto simp: update_cartridge_stock_def Let_def intro!: ledger_put [OF assms(1), of row])
qed

lemma issue_ok:
  assumes "ledger_ok db" "issue_cartridge_stock now i payload actor db = Inr db'" "1 \<le> ir_quantity payload"
  shows "ledger_ok db'"
proof -
  from assms(2) obtain row where row: "get_stock i db = Some row" "ir_quantity payload \<le> cs_quantity row"
    by (auto simp: issue_cartridge_stock_def split: option.splits if_splits)
  note r = get_stock_Some [OF row(1)]
  let ?row = "row\<lparr>cs_quantity := cs_quantity row - ir_quantity payload, cs_updated_at := Some now\<rparr>"
  let ?m = "\<lparr>mv_stock_id = i, mv_delta = - ir_quantity payload, mv_reason = Issue, mv_note = ir_note payload,
    mv_created_by = actor\<rparr>"
  have "db' = add_movement ?m (put_stock ?row db)"
    using assms row by (simp add: issue_cartridge_stock_def add_movement_def Let_def)
  moreover have "cs_name x \<noteq> cs_name ?row" if "x \<in> set (stocks db)" "cs_id x \<noteq> cs_id row" for x
    using distinct_map_eq [OF ledger_okD(2) [OF assms(1)] that(1), of row] r that(2) by auto
  ultimately show ?thesis
    using row r by (auto intro!: ledger_put [OF assms(1), of row])
qed

subsection \<open>Reconciliation\<close>

definition row_matches :: "cartridge_stock \<Rightarrow> inventory_item \<Rightarrow> bool" where
  "row_matches r it \<longleftrightarrow> cs_name r = it_name it \<and> cs_active r \<and> cs_quantity r = it_quantity it
     \<and> cs_color r = it_color it \<and> cs_models r = it_models it"

lemma reconcile_put:
  assumes ok: "ledger_ok db" "ids_ok new_id db" and row: "row \<in> set (stocks db)"
    and row': "cs_id row' = cs_id row" "cs_name row' = cs_name row" "0 \<le> cs_quantity row'"
    and m: "mv_stock_id m = cs_id row" "mv_delta m = cs_quantity row' - cs_quantity row"
  shows "ledger_ok (add_movement m (put_stock row' db)) \<and> ids_ok new_id (add_movement m (put_stock row' db))
    \<and> (\<forall>r. cs_name r = cs_name row \<longrightarrow> (r \<in> set (stocks (put_stock row' db)) \<longleftrightarrow> r = row'))
    \<and> (\<forall>r. cs_name r \<noteq> cs_name row \<longrightarrow> (r \<in> set (stocks (put_stock row' db)) \<longleftrightarrow> r \<in> set (stocks db)))"
proof (intro conjI allI impI)
  have name: "cs_name x \<noteq> cs_name row'" if "x \<in> set (stocks db)" "cs_id x \<noteq> cs_id row" for x
    using distinct_map_eq [OF ledger_okD(2) [OF ok(1)] that(1) row] that(2) row'(2) by auto
  show "ledger_ok (add_movement m (put_stock row' db))"
    by (rule ledger_put [OF ok(1) row row'(1) name row'(3) m])
  show "ids_ok new_id (add_movement m (put_stock row' db))"
    using ids_ok_put [OF ok(2) row row'(1,2)] by simp
  have mem: "r \<in> set (put_row cs_id row' (stocks db)) \<longleftrightarrow> r = row' \<or> (r \<in> set (stocks db) \<and> cs_id r \<noteq> cs_id row)" for r
    by (rule mem_put_row_iff [OF row row'(1)])
  fix r
  show "r \<in> set (stocks (put_stock row' db)) \<longleftrightarrow> r = row'" if "cs_name r = cs_name row"
    using mem [of r] that name [of r] row'(2) by auto
  show "r \<in> set (stocks (put_stock row' db)) \<longleftrightarrow> r \<in> set (stocks db)" if "cs_name r \<noteq> cs_name row"
    using mem [of r] that row'(2) distinct_map_eq [OF ledger_okD(1) [OF ok(1)] _ row, of r] by auto
qed

lemma reconcile_item_ok:
  fixes doc now actor
  assumes ok: "ledger_ok db" "ids_ok new_id db" and q: "0 \<le> it_quantity it"
  defines "db' \<equiv> reconcile_item doc now new_id actor db it"
  shows "ledger_ok db' \<and> ids_ok new_id db'
    \<and> (\<exists>r \<in> set (stocks db'). row_matches r it)
    \<and> (\<forall>r \<in> set (stocks db'). cs_name r = it_name it \<longrightarrow> row_matches r it)
    \<and> (\<forall>r. cs_name r \<noteq> it_name it \<longrightarrow> (r \<in> set (stocks db') \<longleftrightarrow> r \<in> set (stocks db)))"
proof -
  define upd where "upd row = row\<lparr>cs_color := it_color it, cs_models := it_models it, cs_quantity := it_quantity it,
       cs_active := True, cs_last_synced_at := Some now, cs_updated_at := Some now\<rparr>" for row :: cartridge_stock
  define mv where "mv row = \<lparr>mv_stock_id = cs_id row, mv_delta = it_quantity it - cs_quantity row, mv_reason = Inventory,
         mv_note = Some (movement_note doc (it_row it)), mv_created_by = actor\<rparr>" for row :: cartridge_stock
  have upd: "cs_id (upd row) = cs_id row" "cs_name (upd row) = cs_name row" "cs_quantity (upd row) = it_quantity it"
      "cs_name row = it_name it \<Longrightarrow> row_matches (upd row) it" for row
    by (simp_all add: upd_def row_matches_def)
  have mv: "mv_stock_id (mv row) = cs_id row" "mv_delta (mv row) = it_quantity it - cs_quantity row" for row
    by (simp_all add: mv_def)
  obtain row db1 where r1: "ledger_ok db1" "ids_ok new_id db1" "row \<in> set (stocks db1)" "cs_name row = it_name it"
    and other: "\<And>r. cs_name r \<noteq> it_name it \<Longrightarrow> r \<in> set (stocks db1) \<longleftrightarrow> r \<in> set (stocks db)"
    and db': "db' = add_movement (mv row) (put_stock (upd row) db1)"
  proof (cases "find_by_name (it_name it) db")
    case None
    let ?r = "fresh_stock (new_id (it_name it)) (it_name it)"
    have "ledger_ok (add_stock ?r db) \<and> ids_ok new_id (add_stock ?r db)"
      by (rule add_stock_quiet [OF ok None]) (simp_all add: fresh_stock_def)
    moreover have "db' = add_movement (mv ?r) (put_stock (upd ?r) (add_stock ?r db))"
      using None by (simp add: db'_def reconcile_item_def Let_def upd_def mv_def)
    moreover have "cs_name ?r = it_name it" by (simp add: fresh_stock_def)
    ultimately show ?thesis by (intro that [of "add_stock ?r db" ?r]) auto
  next
    case (Some r)
    then have "db' = add_movement (mv r) (put_stock (upd r) db)"
      by (simp add: db'_def reconcile_item_def Let_def upd_def mv_def)
    with find_by_name_Some [OF Some] ok show ?thesis by (intro that [of db r]) auto
  qed
  have "0 \<le> cs_quantity (upd row)" using q by (simp add: upd)
  note put = reconcile_put [OF r1(1-3) upd(1,2) this mv(1), unfolded upd(3), OF mv(2)]
  show ?thesis
    unfolding db' add_movement_stocks using put r1(4) upd(4) [OF r1(4)] upd(2) other by (metis (no_types))
qed

lemma reconcile_items_ok:
  assumes "ledger_ok db" "ids_ok new_id db" "distinct (map it_name items)" "\<forall>it \<in> set items. 0 \<le> it_quantity it"
  shows "ledger_ok (foldl (reconcile_item doc now new_id actor) db items)
    \<and> ids_ok new_id (foldl (reconcile_item doc now new_id actor) db items)
    \<and> (\<forall>it \<in> set items. \<exists>r \<in> set (stocks (foldl (reconcile_item doc now new_id actor) db items)). row_matches r it)
    \<and> (\<forall>r \<in> set (stocks (foldl (reconcile_item doc now new_id actor) db items)).
         (\<exists>it \<in> set items. row_matches r it) \<or> (r \<in> set (stocks db) \<and> cs_name r \<notin> it_name ` set items))
    \<and> (\<forall>r \<in> set (stocks db). cs_name r \<notin> it_name ` set items \<longrightarrow>
         r \<in> set (stocks (foldl (reconcile_item doc now new_id actor) db items)))"
  using assms
proof (induction items arbitrary: db)
  case (Cons it items)
  let ?db = "reconcile_item doc now new_id actor db it"
  let ?final = "foldl (reconcile_item doc now new_id actor) ?db items"
  from Cons.prems have "0 \<le> it_quantity it" by simp
  note one = reconcile_item_ok [OF Cons.prems(1,2) this, of doc now actor]
  from Cons.IH [of ?db] Cons.prems one have
    IH: "ledger_ok ?final" "ids_ok new_id ?final"
      "\<forall>it \<in> set items. \<exists>r \<in> set (stocks ?final). row_matches r it"
      "\<forall>r \<in> set (stocks ?final). (\<exists>it \<in> set items. row_matches r it) \<or> (r \<in> set (stocks ?db) \<and> cs_name r \<notin> it_name ` set items)"
      "\<forall>r \<in> set (stocks ?db). cs_name r \<notin> it_name ` set items \<longrightarrow> r \<in> set (stocks ?final)" by auto
  have new: "it_name it \<notin> it_name ` set items" using Cons.prems(3) by simp
  from one obtain r0 where r0: "r0 \<in> set (stocks ?db)" "row_matches r0 it" by blast
  then have "r0 \<in> set (stocks ?final)" using IH(5) new by (simp add: row_matches_def)
  with r0 IH one show ?case by (simp add: image_iff) blast
qed simp

text \<open>The second loop: an active row the document does not name becomes an empty archived one.\<close>

definition archived :: "inventory_document \<Rightarrow> instant \<Rightarrow> cartridge_stock \<Rightarrow> cartridge_stock" where
  "archived doc now row =
     (if \<not> cs_active row \<or> cs_name row \<in> set (map it_name (doc_items doc)) then row
      else row\<lparr>cs_quantity := 0, cs_active := False, cs_updated_at := Some now\<rparr>)"

lemma archived_simps [simp]:
  "cs_id (archived doc now row) = cs_id row" "cs_name (archived doc now row) = cs_name row"
  "archived doc now (archived doc now row) = archived doc now row"
  by (simp_all add: archived_def)

lemma put_row_self: "distinct (map rid tab) \<Longrightarrow> row \<in> set tab \<Longrightarrow> put_row rid row tab = tab"
  unfolding put_row_def by (rule map_idI) (metis distinct_map_eq)

lemma deactivate_missing_row_ok:
  assumes "ledger_ok db"
  shows "ledger_ok (deactivate_missing_row doc now actor db i) \<and>
    stocks (deactivate_missing_row doc now actor db i) = map (\<lambda>r. if cs_id r = i then archived doc now r else r) (stocks db)"
proof (cases "get_stock i db")
  case None
  then have "i \<notin> cs_id ` set (stocks db)" by (simp add: get_stock_def find_row_None)
  then have "map (\<lambda>r. if cs_id r = i then archived doc now r else r) (stocks db) = stocks db"
    by (intro map_idI) auto
  with None assms show ?thesis by (simp add: deactivate_missing_row_def)
next
  case (Some row)
  note r = get_stock_Some [OF Some]
  have st: "map (\<lambda>r. if cs_id r = i then archived doc now r else r) (stocks db) = put_row cs_id (archived doc now row) (stocks db)"
    unfolding put_row_def
  proof (rule map_cong [OF refl])
    fix x assume x: "x \<in> set (stocks db)"
    show "(if cs_id x = i then archived doc now x else x) = (if cs_id x = cs_id (archived doc now row) then archived doc now row else x)"
      using distinct_map_eq [OF ledger_okD(1) [OF assms] x, of row] r by auto
  qed
  show ?thesis
  proof (cases "\<not> cs_active row \<or> cs_name row \<in> set (map it_name (doc_items doc))")
    case True
    then have "archived doc now row = row" by (simp add: archived_def)
    then have "put_row cs_id (archived doc now row) (stocks db) = stocks db"
      using put_row_self [OF ledger_okD(1) [OF assms]] r by simp
    with True Some assms st show ?thesis by (auto simp: deactivate_missing_row_def)
  next
    case False
    then have a: "archived doc now row = row\<lparr>cs_quantity := 0, cs_active := False, cs_updated_at := Some now\<rparr>"
      by (simp add: archived_def)
    let ?m = "\<lparr>mv_stock_id = i, mv_delta = - cs_quantity row, mv_reason = Inventory,
        mv_note = Some (movement_note doc None), mv_created_by = actor\<rparr>"
    have "cs_name x \<noteq> cs_name (archived doc now row)" if "x \<in> set (stocks db)" "cs_id x \<noteq> cs_id row" for x
      using distinct_map_eq [OF ledger_okD(2) [OF assms] that(1), of row] r that(2) by auto
    then have "ledger_ok (add_movement ?m (put_stock (archived doc now row) db))"
      using r a by (intro ledger_put [OF assms, of row]) simp_all
    moreover have "deactivate_missing_row doc now actor db i = add_movement ?m (put_stock (archived doc now row) db)"
      using False Some a by (simp add: deactivate_missing_row_def)
    ultimately show ?thesis using st by simp
  qed
qed

lemma deactivate_loop_ok:
  assumes "ledger_ok db"
  shows "ledger_ok (foldl (deactivate_missing_row doc now actor) db ids) \<and>
    stocks (foldl (deactivate_missing_row doc now actor) db ids) =
      map (\<lambda>r. if cs_id r \<in> set ids then archived doc now r else r) (stocks db)"
  using assms
proof (induction ids arbitrary: db)
  case (Cons i ids)
  note one = deactivate_missing_row_ok [OF Cons.prems, of doc now actor i]
  with Cons.IH [of "deactivate_missing_row doc now actor db i"] show ?case by (auto simp: comp_def)
qed simp

lemma reconcile_tables:
  fixes now actor
  assumes ok: "ledger_ok db" "ids_ok new_id db" and valid: "valid_document doc"
  defines "items \<equiv> doc_items doc"
  defines "db1 \<equiv> foldl (reconcile_item doc now new_id actor) db items"
  defines "db2 \<equiv> foldl (deactivate_missing_row doc now actor) db1 (map cs_id (stocks db))"
  shows "ledger_ok db1" "ledger_ok db2"
    "r \<in> set (filter cs_active (stocks db2)) \<Longrightarrow> \<exists>it \<in> set items. row_matches r it"
    "it \<in> set items \<Longrightarrow> \<exists>r \<in> set (filter cs_active (stocks db2)). row_matches r it"
proof -
  have v: "distinct (map it_name items)" "\<forall>it \<in> set items. 0 \<le> it_quantity it"
    using valid by (simp_all add: valid_document_def items_def list_all_iff)
  note loop1 = reconcile_items_ok [OF ok v, of doc now actor, folded db1_def]
  then show ok1: "ledger_ok db1" by simp
  note loop2 = deactivate_loop_ok [OF ok1, of doc now actor "map cs_id (stocks db)", folded db2_def]
  then show "ledger_ok db2" by simp
  have st2: "stocks db2 = map (\<lambda>r. if cs_id r \<in> cs_id ` set (stocks db) then archived doc now r else r) (stocks db1)"
    using loop2 by simp
  show "\<exists>it \<in> set items. row_matches r it" if "r \<in> set (filter cs_active (stocks db2))"
  proof -
    from that obtain r1 where r1: "r1 \<in> set (stocks db1)" "cs_active r"
      "r = (if cs_id r1 \<in> cs_id ` set (stocks db) then archived doc now r1 else r1)"
      unfolding st2 by auto
    from loop1 r1(1) consider (item) it where "it \<in> set items" "row_matches r1 it"
      | (old) "r1 \<in> set (stocks db)" "cs_name r1 \<notin> it_name ` set items" by blast
    then show ?thesis
    proof cases
      case item
      then have "archived doc now r1 = r1" by (auto simp: archived_def row_matches_def items_def)
      with r1(3) item show ?thesis by auto
    next
      case old
      then have "cs_id r1 \<in> cs_id ` set (stocks db)" by simp
      with r1(3) have "r = archived doc now r1" by simp
      with old(2) r1(2) show ?thesis by (auto simp: archived_def items_def split: if_splits)
    qed
  qed
  show "\<exists>r \<in> set (filter cs_active (stocks db2)). row_matches r it" if "it \<in> set items"
  proof -
    from loop1 that obtain r where r: "r \<in> set (stocks db1)" "row_matches r it" by blast
    then have "archived doc now r = r" using that by (auto simp: archived_def row_matches_def items_def)
    then have "r \<in> set (stocks db2)" unfolding st2 set_map using r(1) by (intro image_eqI [of _ _ r]) simp_all
    with r(2) show ?thesis by (auto simp: row_matches_def)
  qed
qed

lemma active_rows_are_items:
  assumes "distinct (map cs_name rows)" "distinct (map it_name items)"
    and "\<And>r. r \<in> set rows \<Longrightarrow> \<exists>it \<in> set items. row_matches r it"
    and "\<And>it. it \<in> set items \<Longrightarrow> \<exists>r \<in> set rows. row_matches r it"
  shows "mset (map (\<lambda>r. (cs_name r, cs_quantity r)) rows) = mset (map (\<lambda>it. (it_name it, it_quantity it)) items)"
proof -
  have d1: "distinct (map (\<lambda>r. (cs_name r, cs_quantity r)) rows)"
    using assms(1) by (auto simp: distinct_map inj_on_def)
  have d2: "distinct (map (\<lambda>it. (it_name it, it_quantity it)) items)"
    using assms(2) by (auto simp: distinct_map inj_on_def)
  have "set (map (\<lambda>r. (cs_name r, cs_quantity r)) rows) = set (map (\<lambda>it. (it_name it, it_quantity it)) items)"
  proof (intro equalityI subsetI)
    fix x assume "x \<in> set (map (\<lambda>r. (cs_name r, cs_quantity r)) rows)"
    then obtain r where "r \<in> set rows" "x = (cs_name r, cs_quantity r)" by auto
    with assms(3) [of r] show "x \<in> set (map (\<lambda>it. (it_name it, it_quantity it)) items)"
      by (auto simp: row_matches_def image_iff)
  next
    fix x assume "x \<in> set (map (\<lambda>it. (it_name it, it_quantity it)) items)"
    then obtain it where "it \<in> set items" "x = (it_name it, it_quantity it)" by auto
    with assms(4) [of it] show "x \<in> set (map (\<lambda>r. (cs_name r, cs_quantity r)) rows)"
      by (auto simp: row_matches_def image_iff) (metis)
  qed
  with d1 d2 show ?thesis by (simp only: set_eq_iff_mset_eq_distinct)
qed

subsection \<open>Runs\<close>

text \<open>A step is one committed operation with a validated payload and uuids that do not collide.\<close>

inductive stock_step :: "stock_db \<Rightarrow> stock_db \<Rightarrow> bool" where
  sync: "ids_ok new_id db \<Longrightarrow> stock_step db (sync_cartridge_stock_from_printers now new_id printers db)"
| create: "ids_ok new_id db \<Longrightarrow> 0 \<le> sc_quantity payload \<Longrightarrow>
    create_cartridge_stock new_id payload actor db = Inr db' \<Longrightarrow> stock_step db db'"
| deactivate: "deactivate_cartridge_stock now i db = Inr db' \<Longrightarrow> stock_step db db'"
| update: "(\<And>v. su_quantity upd = Some (Some v) \<Longrightarrow> 0 \<le> v) \<Longrightarrow>
    update_cartridge_stock now i upd actor db = Inr db' \<Longrightarrow> stock_step db db'"
| issue: "1 \<le> ir_quantity req \<Longrightarrow> issue_cartridge_stock now i req actor db = Inr db' \<Longrightarrow> stock_step db db'"
| reconcile: "ids_ok new_id db \<Longrightarrow> valid_document doc \<Longrightarrow>
    reconcile_cartridge_inventory doc now new_id actor do_apply missing db = (res, db') \<Longrightarrow> stock_step db db'"

inductive_cases stock_step_cases: "stock_step db db'"

lemma stock_step_ledger: "stock_step db db' \<Longrightarrow> ledger_ok db \<Longrightarrow> ledger_ok db'"
proof (induction rule: stock_step.induct)
  case (reconcile new_id db doc now actor do_apply missing res db')
  from reconcile_tables(1,2) [OF reconcile.prems reconcile.hyps(1,2)] reconcile.prems reconcile.hyps(3)
  show ?case by (auto simp: reconcile_cartridge_inventory_def Let_def split: if_splits)
next
  case (sync new_id db now printers)
  then show ?case using sync_ok by blast
qed (erule (1) create_ok deactivate_ok update_ok issue_ok; assumption; fail)+

inductive stock_reachable :: "stock_db \<Rightarrow> bool" where
  start: "stock_reachable \<lparr>stocks = [], movements = []\<rparr>"
| step: "stock_reachable db \<Longrightarrow> stock_step db db' \<Longrightarrow> stock_reachable db'"

lemma reachable_ledger: "stock_reachable db \<Longrightarrow> ledger_ok db"
  by (induction rule: stock_reachable.induct) (simp add: ledger_ok_def, rule stock_step_ledger)

text \<open>What synchronisation may change of a row: only what the printers say about it.\<close>

definition sync_keeps :: "cartridge_stock \<Rightarrow> cartridge_stock \<Rightarrow> bool" where
  "sync_keeps row row' \<longleftrightarrow> cs_id row' = cs_id row \<and> cs_name row' = cs_name row \<and> cs_quantity row' = cs_quantity row
     \<and> cs_minimum row' = cs_minimum row \<and> cs_active row' = cs_active row \<and> (\<not> cs_active row \<longrightarrow> row' = row)"

lemma sync_one_keeps:
  assumes "ledger_ok db" "row \<in> set (stocks db)"
  shows "\<exists>row' \<in> set (stocks (sync_one now new_id db entry)). sync_keeps row row'"
proof (cases entry)
  case (Pair name metas)
  show ?thesis
  proof (cases "find_by_name name db")
    case None
    with Pair assms show ?thesis by (auto simp: sync_one_def sync_keeps_def Let_def)
  next
    case (Some r)
    note r = find_by_name_Some [OF Some]
    show ?thesis
    proof (cases "cs_active r")
      case False
      with Some Pair assms show ?thesis by (auto simp: sync_one_def sync_keeps_def Let_def)
    next
      case True
      obtain u where u: "stocks (sync_one now new_id db entry) = put_row cs_id u (stocks db)"
        "cs_id u = cs_id r" "sync_keeps r u"
        using Some Pair True by (simp add: sync_one_def sync_keeps_def Let_def)
      show ?thesis
      proof (cases "cs_id row = cs_id r")
        case True
        then have "row = r" using distinct_map_eq [OF ledger_okD(1) [OF assms(1)] assms(2)] r by auto
        with u r mem_put_row_iff [of r "stocks db" cs_id u u] show ?thesis by auto
      next
        case False
        with u r assms(2) mem_put_row_iff [of r "stocks db" cs_id u row] show ?thesis by (auto simp: sync_keeps_def)
      qed
    qed
  qed
qed

lemma sync_keeps_trans: "sync_keeps a b \<Longrightarrow> sync_keeps b c \<Longrightarrow> sync_keeps a c"
  by (auto simp: sync_keeps_def)

lemma sync_all_keeps:
  assumes "ledger_ok db" "ids_ok new_id db" "row \<in> set (stocks db)"
  shows "\<exists>row' \<in> set (stocks (foldl (sync_one now new_id) db es)). sync_keeps row row'"
  using assms
proof (induction es arbitrary: db row)
  case Nil
  then show ?case by (auto simp: sync_keeps_def)
next
  case (Cons e es)
  obtain row1 where row1: "row1 \<in> set (stocks (sync_one now new_id db e))" "sync_keeps row row1"
    using sync_one_keeps [OF Cons.prems(1,3)] by blast
  from sync_one_ok [OF Cons.prems(1,2)] Cons.IH [OF _ _ row1(1)] obtain row2 where
    "row2 \<in> set (stocks (foldl (sync_one now new_id) (sync_one now new_id db e) es))" "sync_keeps row1 row2" by blast
  with row1(2) sync_keeps_trans show ?case by auto
qed

subsection \<open>A small stock\<close>

definition toner_item :: "string \<Rightarrow> int \<Rightarrow> inventory_item" where
  "toner_item name n = \<lparr>it_name = cp name, it_color = Some Black, it_quantity = n, it_models = [], it_row = Some 1\<rparr>"

definition two_line_document :: inventory_document where
  "two_line_document = \<lparr>doc_source_file = cp ''stock.xlsx'', doc_date = cp ''2026-07-01'',
     doc_position_count = 2, doc_quantity_total = 7, doc_items = [toner_item ''TK-1'' 5, toner_item ''TK-2'' 2]\<rparr>"

definition row_id :: "ustr \<Rightarrow> uid" where
  "row_id n = concat (map (\<lambda>c. replicate c (CHR ''x'') @ [CHR ''-'']) n)"

lemma replicate_append_inj:
  "replicate m (CHR ''x'') @ CHR ''-'' # s = replicate n (CHR ''x'') @ CHR ''-'' # t \<Longrightarrow> m = n \<and> s = t"
proof (induction m arbitrary: n)
  case 0
  then show ?case by (cases n) auto
next
  case (Suc m)
  then show ?case by (cases n) auto
qed

lemma inj_row_id: "inj row_id"
proof (rule injI)
  fix a b assume "row_id a = row_id b"
  then show "a = b"
  proof (induction a arbitrary: b)
    case Nil
    then show ?case by (cases b) (auto simp: row_id_def)
  next
    case (Cons x a)
    then obtain y c where b: "b = y # c" by (cases b) (auto simp: row_id_def)
    with Cons.prems have "replicate x (CHR ''x'') @ CHR ''-'' # row_id a = replicate y (CHR ''x'') @ CHR ''-'' # row_id c"
      by (simp add: row_id_def)
    with replicate_append_inj Cons.IH b show ?case by blast
  qed
qed

definition empty_stock :: stock_db where
  "empty_stock = \<lparr>stocks = [], movements = []\<rparr>"

lemma empty_stock_ok: "ledger_ok empty_stock" "ids_ok row_id empty_stock"
  by (simp_all add: empty_stock_def ledger_ok_def ids_ok_def inj_row_id)

lemma two_line_document_valid: "valid_document two_line_document"
  by (simp add: two_line_document_def valid_document_def toner_item_def cp_def)

definition archived_stock :: stock_db where
  "archived_stock = \<lparr>stocks = [(fresh_stock ''s1'' (cp ''TK-1170''))\<lparr>cs_active := False\<rparr>], movements = []\<rparr>"

subsection \<open>Properties\<close>

text \<open>C23: the stock is a ledger: after any sequence of synchronisations, creations, updates, issues,
  archivings and inventory imports (applied or dry), starting from empty tables, ids and names are unique,
  no quantity is negative, and every quantity on hand is exactly the sum of that row's movements.\<close>

theorem stock_is_a_ledger:
  assumes "stock_reachable db"
  shows "distinct (map cs_id (stocks db)) \<and> distinct (map cs_name (stocks db))
    \<and> (\<forall>row \<in> set (stocks db). 0 \<le> cs_quantity row \<and> cs_quantity row = sum_deltas (cs_id row) (movements db))"
  using reachable_ledger [OF assms] unfolding ledger_ok_def by blast

theorem stock_is_a_ledger_witness:
  "let db = snd (reconcile_cartridge_inventory two_line_document 0 row_id None True True empty_stock)
   in map cs_quantity (stocks db) = [5, 2]
     \<and> (\<forall>row \<in> set (stocks db). cs_quantity row = sum_deltas (cs_id row) (movements db))"
proof -
  let ?db = "snd (reconcile_cartridge_inventory two_line_document 0 row_id None True True empty_stock)"
  obtain res where "reconcile_cartridge_inventory two_line_document 0 row_id None True True empty_stock = (res, ?db)"
    by (metis prod.collapse)
  with empty_stock_ok(2) two_line_document_valid have "stock_step empty_stock ?db" by (rule stock_step.reconcile)
  moreover have "stock_reachable empty_stock" unfolding empty_stock_def by (rule stock_reachable.start)
  ultimately have "stock_reachable ?db" using stock_reachable.step by blast
  from stock_is_a_ledger [OF this] have "\<forall>row \<in> set (stocks ?db). cs_quantity row = sum_deltas (cs_id row) (movements ?db)"
    by blast
  moreover have "map cs_quantity (stocks ?db) = [5, 2]" by code_simp
  ultimately show ?thesis by (simp only: Let_def simp_thms)
qed

text \<open>After an applied inventory import that archives missing positions, the active catalog is exactly the
  document: the same positions with the same quantities, and the reported totals are the document's own;
  the ledger stays consistent; and a dry run changes no table while reporting the same numbers.\<close>

theorem reconcile_makes_stock_the_document:
  assumes ok: "ledger_ok db" and ids: "ids_ok new_id db" and valid: "valid_document doc"
    and run: "reconcile_cartridge_inventory doc now new_id actor True True db = (res, db')"
  shows "ledger_ok db'
    \<and> mset (map (\<lambda>r. (cs_name r, cs_quantity r)) (filter cs_active (stocks db')))
      = mset (map (\<lambda>it. (it_name it, it_quantity it)) (doc_items doc))
    \<and> int (im_active_positions res) = doc_position_count doc
    \<and> im_active_quantity res = doc_quantity_total doc
    \<and> reconcile_cartridge_inventory doc now new_id actor False True db = (res\<lparr>im_applied := False\<rparr>, db)"
proof -
  note tab = reconcile_tables [OF ok ids valid, where now = now and actor = actor]
  define db2 where "db2 = foldl (deactivate_missing_row doc now actor)
      (foldl (reconcile_item doc now new_id actor) db (doc_items doc)) (map cs_id (stocks db))"
  have db': "db' = db2" and pos: "im_active_positions res = length (filter cs_active (stocks db2))"
    and qty: "im_active_quantity res = sum_list (map cs_quantity (filter cs_active (stocks db2)))"
    and dry: "reconcile_cartridge_inventory doc now new_id actor False True db = (res\<lparr>im_applied := False\<rparr>, db)"
    using run by (auto simp: reconcile_cartridge_inventory_def db2_def Let_def)
  have ok2: "ledger_ok db2" using tab(2) by (simp add: db2_def)
  have "distinct (map cs_name (filter cs_active (stocks db2)))"
    using ledger_okD(2) [OF ok2] by (simp add: distinct_map_filter)
  moreover have "distinct (map it_name (doc_items doc))" using valid by (simp add: valid_document_def)
  ultimately have m: "mset (map (\<lambda>r. (cs_name r, cs_quantity r)) (filter cs_active (stocks db2)))
      = mset (map (\<lambda>it. (it_name it, it_quantity it)) (doc_items doc))"
    by (rule active_rows_are_items) (use tab(3,4) in \<open>simp_all add: db2_def\<close>)
  have "length (filter cs_active (stocks db2)) = length (doc_items doc)"
    using mset_eq_length [OF m] by simp
  moreover have "mset (map snd (map (\<lambda>r. (cs_name r, cs_quantity r)) (filter cs_active (stocks db2))))
      = mset (map snd (map (\<lambda>it. (it_name it, it_quantity it)) (doc_items doc)))"
    using m by (simp only: mset_map)
  then have "sum_mset (mset (map cs_quantity (filter cs_active (stocks db2)))) = sum_mset (mset (map it_quantity (doc_items doc)))"
    by (simp add: comp_def)
  then have "sum_list (map cs_quantity (filter cs_active (stocks db2))) = sum_list (map it_quantity (doc_items doc))"
    by (simp only: sum_mset_sum_list)
  ultimately show ?thesis
    using valid m ok2 dry by (simp add: db' pos qty valid_document_def)
qed

theorem reconcile_makes_stock_the_document_witness:
  "im_active_quantity (fst (reconcile_cartridge_inventory two_line_document 0 row_id None True True empty_stock)) = 7"
proof -
  obtain res db' where run: "reconcile_cartridge_inventory two_line_document 0 row_id None True True empty_stock = (res, db')"
    by fastforce
  from reconcile_makes_stock_the_document [OF empty_stock_ok two_line_document_valid run] run show ?thesis
    by (simp add: two_line_document_def)
qed

text \<open>Synchronising the catalog with the printers never changes a quantity, a minimum or a name, and never
  resurrects an archived position: that row is left exactly as it was.\<close>

theorem sync_keeps_quantities_and_tombstones:
  assumes "ledger_ok db" and "ids_ok new_id db" and "row \<in> set (stocks db)"
  shows "\<exists>row' \<in> set (stocks (sync_cartridge_stock_from_printers now new_id printers db)). sync_keeps row row'"
  unfolding sync_cartridge_stock_from_printers_def by (rule sync_all_keeps [OF assms])

theorem sync_keeps_quantities_and_tombstones_witness:
  "\<exists>row' \<in> set (stocks (sync_cartridge_stock_from_printers 5 row_id [store_printer] archived_stock)).
     sync_keeps ((fresh_stock ''s1'' (cp ''TK-1170''))\<lparr>cs_active := False\<rparr>) row'"
proof -
  have "row_id n \<noteq> ''s1''" for n by (cases n; cases "hd n") (auto simp: row_id_def)
  then have "ids_ok row_id archived_stock"
    by (auto simp: ids_ok_def archived_stock_def fresh_stock_def inj_row_id dest: sym)
  moreover have "ledger_ok archived_stock"
    by (simp add: ledger_ok_def archived_stock_def fresh_stock_def sum_deltas_def)
  ultimately show ?thesis
    using sync_keeps_quantities_and_tombstones [of archived_stock row_id "(fresh_stock ''s1'' (cp ''TK-1170''))\<lparr>cs_active := False\<rparr>"]
    by (simp add: archived_stock_def)
qed

end
