(* ===== verification/Cartridge_Demand.thy ===== *)
theory Cartridge_Demand
  imports Cartridge_Stock
begin

section \<open>Cartridge demand against the stock (app/services/cartridge_demand.py)\<close>

text \<open>
  Every colour with a toner forecast needs a cartridge when the current one runs out and again after
  every cartridge lifetime inside the horizon; the needs are summed per normalised cartridge name and
  set against the shelf. Days and rates are exact rationals.
\<close>

record toner_prediction =
  tp_toner_model :: "ustr option"
  tp_days :: "rat option"
  tp_daily_rate :: "rat option"
  tp_printer_name :: "ustr option"
  tp_color :: color

record cartridge_demand =
  cd_name :: ustr
  cd_color :: "color option"
  cd_needed :: int
  cd_printers :: "ustr list"
  cd_next_due :: "rat option"
  cd_stock_id :: "uid option"
  cd_on_hand :: "int option"
  cd_minimum :: int

definition max_lifetime_days :: rat where
  "max_lifetime_days = 365"

definition to_order :: "cartridge_demand \<Rightarrow> int" where
  "to_order d = (case cd_on_hand d of
     None \<Rightarrow> cd_needed d
   | Some on_hand \<Rightarrow> max 0 (cd_needed d + cd_minimum d - on_hand))"

definition demand_key :: "ustr \<Rightarrow> ustr" where
  "demand_key name = u_lower (u_squeeze name)"

definition cartridge_lifetime :: "rat \<Rightarrow> rat" where
  "cartridge_lifetime daily_rate = min (100 / daily_rate) max_lifetime_days"

definition replacements_within :: "rat \<Rightarrow> rat option \<Rightarrow> rat \<Rightarrow> int" where
  "replacements_within days_left daily_rate horizon =
   (if days_left > horizon then 0
    else case daily_rate of
      None \<Rightarrow> 1
    | Some rate \<Rightarrow> if rate \<le> 0 then 1 else 1 + \<lfloor>(horizon - days_left) / cartridge_lifetime rate\<rfloor>)"

definition stock_by_key :: "cartridge_stock list \<Rightarrow> ustr \<Rightarrow> cartridge_stock option" where
  "stock_by_key rows = map_of (rev (map (\<lambda>r. (demand_key (cs_name r), r)) (filter cs_active rows)))"

text \<open>The model name and days of a prediction that counts.\<close>

definition eligible :: "toner_prediction \<Rightarrow> (ustr \<times> rat) option" where
  "eligible p = (case (tp_toner_model p, tp_days p) of
     (Some m, Some d) \<Rightarrow> if m = [] then None else Some (m, d)
   | _ \<Rightarrow> None)"

definition new_demand :: "cartridge_stock option \<Rightarrow> ustr \<Rightarrow> color \<Rightarrow> cartridge_demand" where
  "new_demand stock model color = (case stock of
     Some s \<Rightarrow> \<lparr>cd_name = cs_name s, cd_color = (case cs_color s of None \<Rightarrow> Some color | Some c \<Rightarrow> Some c),
        cd_needed = 0, cd_printers = [], cd_next_due = None, cd_stock_id = Some (cs_id s),
        cd_on_hand = Some (cs_quantity s), cd_minimum = cs_minimum s\<rparr>
   | None \<Rightarrow> \<lparr>cd_name = u_squeeze model, cd_color = Some color, cd_needed = 0, cd_printers = [],
        cd_next_due = None, cd_stock_id = None, cd_on_hand = None, cd_minimum = 0\<rparr>)"

definition count_prediction :: "rat \<Rightarrow> toner_prediction \<Rightarrow> rat \<Rightarrow> cartridge_demand \<Rightarrow> cartridge_demand" where
  "count_prediction horizon p days item =
     item\<lparr>cd_needed := cd_needed item + replacements_within days (tp_daily_rate p) horizon,
          cd_printers := (case tp_printer_name p of None \<Rightarrow> cd_printers item
             | Some n \<Rightarrow> if n = [] then cd_printers item else List.insert n (cd_printers item)),
          cd_next_due := (case cd_next_due item of None \<Rightarrow> Some days
             | Some due \<Rightarrow> if days < due then Some days else Some due)\<rparr>"

definition demand_step ::
  "cartridge_stock list \<Rightarrow> rat \<Rightarrow> (ustr \<times> cartridge_demand) list \<Rightarrow> toner_prediction \<Rightarrow> (ustr \<times> cartridge_demand) list" where
  "demand_step rows horizon demand p = (case eligible p of
     None \<Rightarrow> demand
   | Some (model, days) \<Rightarrow>
       let key = demand_key model;
           item = (case map_of demand key of
                     None \<Rightarrow> new_demand (stock_by_key rows key) model (tp_color p) | Some i \<Rightarrow> i)
       in AList.update key (count_prediction horizon p days item) demand)"

definition demand_order :: "cartridge_demand \<Rightarrow> int \<times> (nat \<times> rat) \<times> ustr" where
  "demand_order d = (- to_order d, (case cd_next_due d of Some due \<Rightarrow> (0, due) | None \<Rightarrow> (1, 0)), cd_name d)"

definition forecast_cartridge_demand ::
  "cartridge_stock list \<Rightarrow> toner_prediction list \<Rightarrow> rat \<Rightarrow> cartridge_demand list" where
  "forecast_cartridge_demand rows predictions horizon =
     sort_key demand_order (map snd (foldl (demand_step rows horizon) [] predictions))"

subsection \<open>Counting replacements\<close>

lemma cartridge_lifetime_pos: "0 < rate \<Longrightarrow> 0 < cartridge_lifetime rate"
  by (simp add: cartridge_lifetime_def max_lifetime_days_def)

lemma replacements_within_nonneg: "0 \<le> replacements_within d rate h"
proof (cases rate)
  case (Some r)
  then show ?thesis
    using cartridge_lifetime_pos [of r] by (auto simp: replacements_within_def)
qed (simp add: replacements_within_def)

lemma replacements_within_count:
  assumes "0 < rate"
  shows "{k::nat. d + of_nat k * cartridge_lifetime rate \<le> h} = {..< nat (replacements_within d (Some rate) h)}"
proof -
  have L: "0 < cartridge_lifetime rate" by (rule cartridge_lifetime_pos [OF assms])
  show ?thesis
  proof (cases "d > h")
    case True
    have "\<not> d + of_nat k * cartridge_lifetime rate \<le> h" for k :: nat
    proof -
      have "0 \<le> of_nat k * cartridge_lifetime rate" using L by simp
      with True show ?thesis by linarith
    qed
    with True show ?thesis by (simp add: replacements_within_def)
  next
    case False
    have "d + of_nat k * cartridge_lifetime rate \<le> h \<longleftrightarrow> k < nat (1 + \<lfloor>(h - d) / cartridge_lifetime rate\<rfloor>)" for k :: nat
    proof -
      have "d + of_nat k * cartridge_lifetime rate \<le> h \<longleftrightarrow> of_nat k \<le> (h - d) / cartridge_lifetime rate"
        using L by (simp add: pos_le_divide_eq algebra_simps)
      also have "\<dots> \<longleftrightarrow> int k \<le> \<lfloor>(h - d) / cartridge_lifetime rate\<rfloor>"
        by (simp add: le_floor_iff)
      finally show ?thesis by linarith
    qed
    with False assms show ?thesis by (auto simp: replacements_within_def)
  qed
qed

subsection \<open>Summing per cartridge\<close>

definition eligible_at :: "ustr \<Rightarrow> toner_prediction \<Rightarrow> rat option" where
  "eligible_at key p = (case eligible p of None \<Rightarrow> None | Some (m, d) \<Rightarrow> if demand_key m = key then Some d else None)"

definition needed_at :: "rat \<Rightarrow> ustr \<Rightarrow> toner_prediction list \<Rightarrow> int" where
  "needed_at horizon key ps = sum_list (map (\<lambda>p. case eligible_at key p of None \<Rightarrow> 0
     | Some d \<Rightarrow> replacements_within d (tp_daily_rate p) horizon) ps)"

lemma demand_step_other:
  "eligible_at key p = None \<Longrightarrow> map_of (demand_step rows horizon demand p) key = map_of demand key"
  by (auto simp: demand_step_def eligible_at_def Let_def update_conv' split: option.splits if_splits)

lemma demand_step_this:
  "eligible_at key p = Some days \<Longrightarrow> \<exists>model. map_of (demand_step rows horizon demand p) key =
     Some (count_prediction horizon p days (case map_of demand key of
        None \<Rightarrow> new_demand (stock_by_key rows key) model (tp_color p) | Some i \<Rightarrow> i))"
  by (auto simp: demand_step_def eligible_at_def Let_def update_conv' split: option.splits if_splits)

definition demand_ok :: "cartridge_stock list \<Rightarrow> rat \<Rightarrow> ustr \<Rightarrow> toner_prediction list \<Rightarrow> cartridge_demand option \<Rightarrow> bool" where
  "demand_ok rows horizon key ps item \<longleftrightarrow> (case item of
     None \<Rightarrow> (\<forall>p \<in> set ps. eligible_at key p = None)
   | Some d \<Rightarrow> cd_needed d = needed_at horizon key ps
       \<and> cd_on_hand d = map_option cs_quantity (stock_by_key rows key)
       \<and> cd_minimum d = (case stock_by_key rows key of None \<Rightarrow> 0 | Some s \<Rightarrow> cs_minimum s)
       \<and> (\<exists>p \<in> set ps. eligible_at key p \<noteq> None))"

lemma needed_at_snoc:
  "needed_at horizon key (ps @ [p]) = needed_at horizon key ps +
     (case eligible_at key p of None \<Rightarrow> 0 | Some d \<Rightarrow> replacements_within d (tp_daily_rate p) horizon)"
  by (simp add: needed_at_def)

lemma needed_at_none: "(\<forall>p \<in> set ps. eligible_at key p = None) \<Longrightarrow> needed_at horizon key ps = 0"
  by (induction ps) (auto simp: needed_at_def)

lemma demand_fold_ok:
  "demand_ok rows horizon key ps (map_of (foldl (demand_step rows horizon) [] ps) key)"
proof (induction ps rule: rev_induct)
  case Nil
  then show ?case by (simp add: demand_ok_def)
next
  case (snoc p ps)
  let ?d = "foldl (demand_step rows horizon) [] ps"
  show ?case
  proof (cases "eligible_at key p")
    case None
    with snoc demand_step_other [OF None, of rows horizon ?d] show ?thesis
      by (auto simp: demand_ok_def needed_at_snoc split: option.splits)
  next
    case (Some days)
    from demand_step_this [OF Some, of rows horizon ?d] obtain model where
      m: "map_of (demand_step rows horizon ?d p) key = Some (count_prediction horizon p days (case map_of ?d key of
        None \<Rightarrow> new_demand (stock_by_key rows key) model (tp_color p) | Some i \<Rightarrow> i))" by blast
    show ?thesis
    proof (cases "map_of ?d key")
      case None
      with snoc have "needed_at horizon key ps = 0" by (simp add: demand_ok_def needed_at_none)
      with None m Some show ?thesis
        by (auto simp: demand_ok_def count_prediction_def new_demand_def needed_at_snoc split: option.splits)
    next
      case (Some item)
      with snoc m \<open>eligible_at key p = Some days\<close> show ?thesis
        by (auto simp: demand_ok_def count_prediction_def needed_at_snoc)
    qed
  qed
qed

lemma distinct_demand_step: "distinct (map fst demand) \<Longrightarrow> distinct (map fst (demand_step rows horizon demand p))"
  by (auto simp: demand_step_def Let_def distinct_update split: option.splits)

lemma distinct_demand_fold: "distinct (map fst (foldl (demand_step rows horizon) [] ps))"
  by (induction ps rule: rev_induct) (simp_all add: distinct_demand_step)

subsection \<open>One shelf row and one forecast\<close>

definition shelf_row :: cartridge_stock where
  "shelf_row = (fresh_stock ''s'' (cp ''TK-1170''))\<lparr>cs_quantity := 1, cs_minimum := 2\<rparr>"

definition soon_empty :: toner_prediction where
  "soon_empty = \<lparr>tp_toner_model = Some (cp ''tk-1170''), tp_days = Some 10, tp_daily_rate = Some 10,
     tp_printer_name = None, tp_color = Black\<rparr>"

subsection \<open>Properties\<close>

text \<open>\<open>replacements_within\<close> counts exactly the moments a cartridge is due inside the horizon: when the
  current one runs out, and then once per cartridge lifetime.\<close>

theorem replacements_within_counts_due_moments:
  assumes "0 < rate"
  shows "replacements_within d (Some rate) h = int (card {k::nat. d + of_nat k * cartridge_lifetime rate \<le> h})"
  unfolding replacements_within_count [OF assms] using replacements_within_nonneg by simp

theorem replacements_within_counts_due_moments_witness:
  "int (card {k::nat. (10::rat) + of_nat k * cartridge_lifetime 10 \<le> 30}) = 3"
proof -
  have "replacements_within 10 (Some 10) 30 = 3"
    by (simp add: replacements_within_def cartridge_lifetime_def max_lifetime_days_def)
  with replacements_within_counts_due_moments [of 10 10 30] show ?thesis by simp
qed

text \<open>The demand list has one line per normalised cartridge name with a forecast, the amount needed is
  the sum over exactly that name's forecasts, and the order is what is needed plus the minimum minus the shelf,
  never negative; the largest orders come first.\<close>

theorem demand_is_summed_per_cartridge:
  "(\<exists>items. mset (forecast_cartridge_demand rows ps horizon) = mset (map snd items)
      \<and> distinct (map fst items)
      \<and> (\<forall>key. demand_ok rows horizon key ps (map_of items key)))
   \<and> (\<forall>d. 0 \<le> cd_needed d \<longrightarrow> 0 \<le> to_order d)
   \<and> sorted (map (\<lambda>d. - to_order d) (forecast_cartridge_demand rows ps horizon))"
proof (intro conjI)
  show "\<exists>items. mset (forecast_cartridge_demand rows ps horizon) = mset (map snd items)
      \<and> distinct (map fst items) \<and> (\<forall>key. demand_ok rows horizon key ps (map_of items key))"
    by (intro exI [of _ "foldl (demand_step rows horizon) [] ps"])
      (simp add: forecast_cartridge_demand_def distinct_demand_fold demand_fold_ok)
  show "\<forall>d. 0 \<le> cd_needed d \<longrightarrow> 0 \<le> to_order d" by (simp add: to_order_def split: option.split)
  have "sorted (map demand_order (forecast_cartridge_demand rows ps horizon))"
    by (simp add: forecast_cartridge_demand_def)
  then show "sorted (map (\<lambda>d. - to_order d) (forecast_cartridge_demand rows ps horizon))"
    unfolding sorted_map by (rule sorted_wrt_mono_rel [rotated]) (auto simp: demand_order_def less_eq_prod_def)
qed

theorem demand_is_summed_per_cartridge_witness:
  "map to_order (forecast_cartridge_demand [shelf_row] [soon_empty] 30) = [4]
   \<and> sorted (map (\<lambda>d. - to_order d) (forecast_cartridge_demand [shelf_row] [soon_empty] 30))"
proof
  show "map to_order (forecast_cartridge_demand [shelf_row] [soon_empty] 30) = [4]"
  proof -
    have k: "demand_key (cp ''TK-1170'') = cp ''tk-1170''" "demand_key (cp ''tk-1170'') = cp ''tk-1170''"
      by (simp_all add: demand_key_def u_squeeze_def u_split_def u_is_space_def u_lower_def u_lower_cp_def cp_def)
    have ne: "cp ''tk-1170'' \<noteq> []" by (simp add: cp_def)
    have "replacements_within 10 (Some 10) 30 = 3"
      by (simp add: replacements_within_def cartridge_lifetime_def max_lifetime_days_def)
    with k ne show ?thesis
      by (simp add: forecast_cartridge_demand_def demand_step_def eligible_def soon_empty_def shelf_row_def
          stock_by_key_def fresh_stock_def new_demand_def count_prediction_def to_order_def)
  qed
  show "sorted (map (\<lambda>d. - to_order d) (forecast_cartridge_demand [shelf_row] [soon_empty] 30))"
    using demand_is_summed_per_cartridge [of "[shelf_row]" "[soon_empty]" 30] by blast
qed

end
