(* ===== verification/Worker_Lease.thy ===== *)
theory Worker_Lease
  imports Prelude
begin

section \<open>The lease around live switch tasks (app/worker/tasks.py)\<close>

text \<open>
  The broker may deliver a task twice; a lease in Redis keeps the duplicate away from the hardware. The
  two Lua scripts of the code are translated; the Redis commands they call are a record of functions
  over a server state \<open>'r\<close>, with their documented behaviour (a key with an expiry is gone once its time
  has come) as the hypothesis \<open>script_ok\<close>. The step relation \<open>fleet_step\<close> interleaves deliveries, ends,
  crashes, lost connections and the passing of time in any order.
\<close>

subsection \<open>The server\<close>

record 'r script_ops =
  s_exists :: "'r \<Rightarrow> string \<Rightarrow> bool"
  s_get :: "'r \<Rightarrow> string \<Rightarrow> string option"
  s_set :: "'r \<Rightarrow> string \<Rightarrow> string \<Rightarrow> int \<Rightarrow> 'r"
  s_set_nx :: "'r \<Rightarrow> string \<Rightarrow> string \<Rightarrow> int \<Rightarrow> bool \<times> 'r"
  s_del :: "'r \<Rightarrow> string \<Rightarrow> 'r"

text \<open>What a server holds: a value and the instant it expires.\<close>

type_synonym stored = "string \<rightharpoonup> string \<times> instant"

definition live :: "stored \<Rightarrow> instant \<Rightarrow> string \<Rightarrow> string option" where
  "live st now k = (case st k of None \<Rightarrow> None | Some (v, t) \<Rightarrow> if now < t then Some v else None)"

definition script_ok :: "'r script_ops \<Rightarrow> ('r \<Rightarrow> stored) \<Rightarrow> ('r \<Rightarrow> instant) \<Rightarrow> bool" where
  "script_ok ops view clock \<longleftrightarrow>
     (\<forall>r k. s_exists ops r k \<longleftrightarrow> live (view r) (clock r) k \<noteq> None)
   \<and> (\<forall>r k. s_get ops r k = live (view r) (clock r) k)
   \<and> (\<forall>r k v t. 0 < t \<longrightarrow> view (s_set ops r k v t) = (view r)(k \<mapsto> (v, clock r + t)) \<and> clock (s_set ops r k v t) = clock r)
   \<and> (\<forall>r k v t. 0 < t \<longrightarrow> (fst (s_set_nx ops r k v t) \<longleftrightarrow> live (view r) (clock r) k = None)
        \<and> view (snd (s_set_nx ops r k v t)) = (if live (view r) (clock r) k = None then (view r)(k \<mapsto> (v, clock r + t)) else view r)
        \<and> clock (snd (s_set_nx ops r k v t)) = clock r)
   \<and> (\<forall>r k. view (s_del ops r k) = (view r)(k := None) \<and> clock (s_del ops r k) = clock r)"

text \<open>Time passes: no key changes, except that one that has expired may be dropped.\<close>

definition passes :: "('r \<Rightarrow> stored) \<Rightarrow> ('r \<Rightarrow> instant) \<Rightarrow> 'r \<Rightarrow> 'r \<Rightarrow> bool" where
  "passes view clock r r' \<longleftrightarrow> clock r \<le> clock r' \<and>
     (\<forall>k. view r' k = view r k \<or> view r' k = None \<and> (\<exists>v t. view r k = Some (v, t) \<and> t \<le> clock r'))"

lemma script_okD:
  assumes "script_ok ops view clock"
  shows "s_exists ops r k \<longleftrightarrow> live (view r) (clock r) k \<noteq> None"
    and "s_get ops r k = live (view r) (clock r) k"
    and "0 < t \<Longrightarrow> view (s_set ops r k v t) = (view r)(k \<mapsto> (v, clock r + t))"
    and "0 < t \<Longrightarrow> clock (s_set ops r k v t) = clock r"
    and "0 < t \<Longrightarrow> fst (s_set_nx ops r k v t) \<longleftrightarrow> live (view r) (clock r) k = None"
    and "0 < t \<Longrightarrow> view (snd (s_set_nx ops r k v t)) =
           (if live (view r) (clock r) k = None then (view r)(k \<mapsto> (v, clock r + t)) else view r)"
    and "0 < t \<Longrightarrow> clock (snd (s_set_nx ops r k v t)) = clock r"
    and "view (s_del ops r k) = (view r)(k := None)" and "clock (s_del ops r k) = clock r"
  using assms unfolding script_ok_def by blast+

subsection \<open>The scripts and the lease\<close>

definition claim_script :: "'r script_ops \<Rightarrow> string \<Rightarrow> string \<Rightarrow> string \<Rightarrow> int \<Rightarrow> 'r \<Rightarrow> int \<times> 'r" where
  "claim_script ops lock_key done_key token lock_seconds r =
     (if s_exists ops r done_key then (0, r)
      else (let (stored, r') = s_set_nx ops r lock_key token lock_seconds in (if stored then 1 else -1, r')))"

definition mark_script :: "'r script_ops \<Rightarrow> string \<Rightarrow> string \<Rightarrow> string \<Rightarrow> int \<Rightarrow> 'r \<Rightarrow> int \<times> 'r" where
  "mark_script ops lock_key done_key token dedup_seconds r =
     (if s_get ops r lock_key = Some token
      then (1, s_del ops (s_set ops r done_key ''1'' dedup_seconds) lock_key)
      else (0, r))"

text \<open>How a call to the server goes: answered, or a \<open>RedisError\<close> before or after the script ran.\<close>

datatype link = Answered | Lost_request | Lost_answer

record lease =
  le_lock_key :: string
  le_done_key :: string
  le_token :: string
  le_dedup :: "int option"

datatype lease_refusal = Lock_unavailable | Already_attempted | Already_running

record worker_settings =
  AUTO_REBOOT_AP_TASK_LOCK_SECONDS :: int
  AUTO_REBOOT_AP_CYCLE_DEDUP_SECONDS :: int
  AUTO_REBOOT_AP_STAGGER_SECONDS :: int
  DHCP_CLEAR_TASK_LOCK_SECONDS :: int
  DHCP_CLEAR_CYCLE_DEDUP_SECONDS :: int
  DHCP_CLEAR_STAGGER_SECONDS :: int

definition default_worker_settings :: worker_settings where
  "default_worker_settings = \<lparr>AUTO_REBOOT_AP_TASK_LOCK_SECONDS = 10800, AUTO_REBOOT_AP_CYCLE_DEDUP_SECONDS = 86400,
     AUTO_REBOOT_AP_STAGGER_SECONDS = 90, DHCP_CLEAR_TASK_LOCK_SECONDS = 1800, DHCP_CLEAR_CYCLE_DEDUP_SECONDS = 86400,
     DHCP_CLEAR_STAGGER_SECONDS = 30\<rparr>"

definition lock_key_of :: "string \<Rightarrow> string \<Rightarrow> string" where
  "lock_key_of scope switch_id = ''lock:'' @ scope @ '':switch:'' @ switch_id"

definition done_key_of :: "string \<Rightarrow> string \<Rightarrow> string \<Rightarrow> string" where
  "done_key_of scope switch_id cycle_id = ''done:'' @ scope @ '':'' @ switch_id @ '':'' @ cycle_id"

definition acquire_switch_lease ::
  "'r script_ops \<Rightarrow> string \<Rightarrow> string \<Rightarrow> string \<Rightarrow> int \<Rightarrow> int \<Rightarrow> string \<Rightarrow> link \<Rightarrow> 'r \<Rightarrow> (lease_refusal + lease) \<times> 'r" where
  "acquire_switch_lease ops scope switch_id cycle_id lock_seconds dedup_seconds token link r =
   (let lock_key = lock_key_of scope switch_id; done_key = done_key_of scope switch_id cycle_id;
        (claimed, r') = claim_script ops lock_key done_key token lock_seconds r
    in case link of
         Lost_request \<Rightarrow> (Inl Lock_unavailable, r)
       | Lost_answer \<Rightarrow> (Inl Lock_unavailable, r')
       | Answered \<Rightarrow>
           (if claimed = 1
            then Inr \<lparr>le_lock_key = lock_key, le_done_key = done_key, le_token = token, le_dedup = Some dedup_seconds\<rparr>
            else if claimed = 0 then Inl Already_attempted else Inl Already_running, r'))"

definition acquire_auto_reboot_lease ::
  "'r script_ops \<Rightarrow> worker_settings \<Rightarrow> string \<Rightarrow> string \<Rightarrow> string \<Rightarrow> link \<Rightarrow> 'r \<Rightarrow> (lease_refusal + lease) \<times> 'r" where
  "acquire_auto_reboot_lease ops cfg switch_id cycle_id =
     acquire_switch_lease ops ''ap-auto-reboot'' switch_id cycle_id (AUTO_REBOOT_AP_TASK_LOCK_SECONDS cfg)
       (AUTO_REBOOT_AP_CYCLE_DEDUP_SECONDS cfg)"

definition acquire_dhcp_clear_lease ::
  "'r script_ops \<Rightarrow> worker_settings \<Rightarrow> string \<Rightarrow> string \<Rightarrow> string \<Rightarrow> link \<Rightarrow> 'r \<Rightarrow> (lease_refusal + lease) \<times> 'r" where
  "acquire_dhcp_clear_lease ops cfg switch_id cycle_id =
     acquire_switch_lease ops ''dhcp-clear'' switch_id cycle_id (DHCP_CLEAR_TASK_LOCK_SECONDS cfg)
       (DHCP_CLEAR_CYCLE_DEDUP_SECONDS cfg)"

text \<open>\<open>dedup_seconds or settings.AUTO_REBOOT_AP_CYCLE_DEDUP_SECONDS\<close>\<close>

definition lease_dedup :: "worker_settings \<Rightarrow> lease \<Rightarrow> int" where
  "lease_dedup cfg le = (case le_dedup le of
     None \<Rightarrow> AUTO_REBOOT_AP_CYCLE_DEDUP_SECONDS cfg
   | Some d \<Rightarrow> if d = 0 then AUTO_REBOOT_AP_CYCLE_DEDUP_SECONDS cfg else d)"

definition mark_attempted :: "'r script_ops \<Rightarrow> worker_settings \<Rightarrow> lease \<Rightarrow> link \<Rightarrow> 'r \<Rightarrow> 'r" where
  "mark_attempted ops cfg le link r =
     (if link = Lost_request then r
      else snd (mark_script ops (le_lock_key le) (le_done_key le) (le_token le) (lease_dedup cfg le) r))"

subsection \<open>The workers and the server as a step relation\<close>

datatype live_task = Reboot_aps | Clear_dhcp

definition task_lock_seconds :: "worker_settings \<Rightarrow> live_task \<Rightarrow> int" where
  "task_lock_seconds cfg t = (case t of Reboot_aps \<Rightarrow> AUTO_REBOOT_AP_TASK_LOCK_SECONDS cfg
     | Clear_dhcp \<Rightarrow> DHCP_CLEAR_TASK_LOCK_SECONDS cfg)"

definition task_dedup_seconds :: "worker_settings \<Rightarrow> live_task \<Rightarrow> int" where
  "task_dedup_seconds cfg t = (case t of Reboot_aps \<Rightarrow> AUTO_REBOOT_AP_CYCLE_DEDUP_SECONDS cfg
     | Clear_dhcp \<Rightarrow> DHCP_CLEAR_CYCLE_DEDUP_SECONDS cfg)"

definition acquire_lease ::
  "'r script_ops \<Rightarrow> worker_settings \<Rightarrow> live_task \<Rightarrow> string \<Rightarrow> string \<Rightarrow> string \<Rightarrow> link \<Rightarrow> 'r \<Rightarrow> (lease_refusal + lease) \<times> 'r" where
  "acquire_lease ops cfg t = (case t of Reboot_aps \<Rightarrow> acquire_auto_reboot_lease ops cfg | Clear_dhcp \<Rightarrow> acquire_dhcp_clear_lease ops cfg)"

record task_run =
  tr_task :: live_task
  tr_switch :: string
  tr_cycle :: string
  tr_lease :: lease
  tr_started :: instant

text \<open>The tokens drawn so far, the task bodies in progress, and all that were ever started.\<close>

record 'r fleet =
  fl_server :: 'r
  fl_used :: "string set"
  fl_running :: "task_run set"
  fl_history :: "task_run set"

definition deliver ::
  "'r script_ops \<Rightarrow> worker_settings \<Rightarrow> ('r \<Rightarrow> instant) \<Rightarrow> live_task \<Rightarrow> string \<Rightarrow> string \<Rightarrow> string \<Rightarrow> link \<Rightarrow> 'r fleet \<Rightarrow> 'r fleet" where
  "deliver ops cfg clock t switch_id cycle_id token link fl =
   (case acquire_lease ops cfg t switch_id cycle_id token link (fl_server fl) of
      (Inl _, r') \<Rightarrow> fl\<lparr>fl_server := r', fl_used := insert token (fl_used fl)\<rparr>
    | (Inr le, r') \<Rightarrow>
        (let run = \<lparr>tr_task = t, tr_switch = switch_id, tr_cycle = cycle_id, tr_lease = le, tr_started = clock (fl_server fl)\<rparr>
         in fl\<lparr>fl_server := r', fl_used := insert token (fl_used fl), fl_running := insert run (fl_running fl),
              fl_history := insert run (fl_history fl)\<rparr>))"

text \<open>An end whose request is lost (\<open>Lost_request\<close>) is also a worker that was killed.\<close>

definition finish :: "'r script_ops \<Rightarrow> worker_settings \<Rightarrow> task_run \<Rightarrow> link \<Rightarrow> 'r fleet \<Rightarrow> 'r fleet" where
  "finish ops cfg run link fl =
     fl\<lparr>fl_server := mark_attempted ops cfg (tr_lease run) link (fl_server fl), fl_running := fl_running fl - {run}\<rparr>"

inductive fleet_step ::
  "'r script_ops \<Rightarrow> worker_settings \<Rightarrow> ('r \<Rightarrow> stored) \<Rightarrow> ('r \<Rightarrow> instant) \<Rightarrow> 'r fleet \<Rightarrow> 'r fleet \<Rightarrow> bool"
  for ops cfg view clock where
  Pass: "passes view clock (fl_server fl) r' \<Longrightarrow> fleet_step ops cfg view clock fl (fl\<lparr>fl_server := r'\<rparr>)"
| Deliver: "token \<notin> fl_used fl \<Longrightarrow>
     fleet_step ops cfg view clock fl (deliver ops cfg clock t switch_id cycle_id token link fl)"
| Finish: "run \<in> fl_running fl \<Longrightarrow> fleet_step ops cfg view clock fl (finish ops cfg run link fl)"

inductive_cases fleet_stepE: "fleet_step ops cfg view clock fl fl'"

definition initial_fleet :: "'r \<Rightarrow> 'r fleet" where
  "initial_fleet r = \<lparr>fl_server = r, fl_used = {}, fl_running = {}, fl_history = {}\<rparr>"

inductive reachable ::
  "'r script_ops \<Rightarrow> worker_settings \<Rightarrow> ('r \<Rightarrow> stored) \<Rightarrow> ('r \<Rightarrow> instant) \<Rightarrow> 'r fleet \<Rightarrow> bool"
  for ops cfg view clock where
  Start: "view r = Map.empty \<Longrightarrow> reachable ops cfg view clock (initial_fleet r)"
| Step: "reachable ops cfg view clock fl \<Longrightarrow> fleet_step ops cfg view clock fl fl' \<Longrightarrow> reachable ops cfg view clock fl'"

definition lease_times_ok :: "worker_settings \<Rightarrow> bool" where
  "lease_times_ok cfg \<longleftrightarrow> 0 < AUTO_REBOOT_AP_TASK_LOCK_SECONDS cfg \<and> 0 < AUTO_REBOOT_AP_CYCLE_DEDUP_SECONDS cfg
     \<and> 0 < DHCP_CLEAR_TASK_LOCK_SECONDS cfg \<and> 0 < DHCP_CLEAR_CYCLE_DEDUP_SECONDS cfg"

subsection \<open>Keys and the effect of the scripts\<close>

definition scope_of :: "live_task \<Rightarrow> string" where
  "scope_of t = (case t of Reboot_aps \<Rightarrow> ''ap-auto-reboot'' | Clear_dhcp \<Rightarrow> ''dhcp-clear'')"

lemma lock_key_inj: "lock_key_of (scope_of t) sw = lock_key_of (scope_of t') sw' \<longleftrightarrow> t = t' \<and> sw = sw'"
  by (cases t; cases t') (auto simp: lock_key_of_def scope_of_def)

lemma lock_not_done: "lock_key_of s sw \<noteq> done_key_of s' sw' cy'"
  by (simp add: lock_key_of_def done_key_of_def)

lemma done_key_task: "done_key_of (scope_of t) sw cy = done_key_of (scope_of t') sw' cy' \<Longrightarrow> t = t'"
  by (cases t; cases t') (simp_all add: done_key_of_def scope_of_def)

lemma acquire_lease_eq:
  "acquire_lease ops cfg t sw cy tok link r =
     acquire_switch_lease ops (scope_of t) sw cy (task_lock_seconds cfg t) (task_dedup_seconds cfg t) tok link r"
  by (cases t) (simp_all add: acquire_lease_def acquire_auto_reboot_lease_def acquire_dhcp_clear_lease_def scope_of_def
      task_lock_seconds_def task_dedup_seconds_def)

lemma task_times: "lease_times_ok cfg \<Longrightarrow> 0 < task_lock_seconds cfg t \<and> 0 < task_dedup_seconds cfg t"
  by (cases t) (simp_all add: lease_times_ok_def task_lock_seconds_def task_dedup_seconds_def)

definition lease_for :: "worker_settings \<Rightarrow> live_task \<Rightarrow> string \<Rightarrow> string \<Rightarrow> string \<Rightarrow> lease" where
  "lease_for cfg t sw cy tok = \<lparr>le_lock_key = lock_key_of (scope_of t) sw, le_done_key = done_key_of (scope_of t) sw cy,
     le_token = tok, le_dedup = Some (task_dedup_seconds cfg t)\<rparr>"

lemma claim_effect:
  assumes "script_ok ops view clock" "0 < t"
  shows "clock (snd (claim_script ops lk dk tok t r)) = clock r"
    and "view (snd (claim_script ops lk dk tok t r)) =
      (if live (view r) (clock r) dk = None \<and> live (view r) (clock r) lk = None
       then (view r)(lk \<mapsto> (tok, clock r + t)) else view r)"
    and "fst (claim_script ops lk dk tok t r) = 1 \<longleftrightarrow> live (view r) (clock r) dk = None \<and> live (view r) (clock r) lk = None"
  using assms(2) by (simp_all add: claim_script_def script_okD [OF assms(1)] case_prod_unfold)

lemma acquire_effect:
  assumes ok: "script_ok ops view clock" and times: "lease_times_ok cfg"
    and acq: "acquire_lease ops cfg t sw cy tok link r = (res, r')"
  defines "free \<equiv> live (view r) (clock r) (done_key_of (scope_of t) sw cy) = None
      \<and> live (view r) (clock r) (lock_key_of (scope_of t) sw) = None"
  defines "locked \<equiv> (view r)(lock_key_of (scope_of t) sw \<mapsto> (tok, clock r + task_lock_seconds cfg t))"
  shows "clock r' = clock r" and "view r' = view r \<or> free \<and> view r' = locked"
    and "res = Inr le \<Longrightarrow> free \<and> view r' = locked \<and> le = lease_for cfg t sw cy tok"
    and "link = Answered \<Longrightarrow> free \<Longrightarrow> res = Inr (lease_for cfg t sw cy tok)"
  using acq claim_effect [OF ok, of "task_lock_seconds cfg t" "lock_key_of (scope_of t) sw" "done_key_of (scope_of t) sw cy" tok r]
    task_times [OF times, of t]
  by (auto simp: acquire_lease_eq acquire_switch_lease_def Let_def free_def locked_def lease_for_def case_prod_unfold
      split: link.splits if_splits)

lemma mark_effect:
  assumes ok: "script_ok ops view clock" and times: "lease_times_ok cfg"
    and r': "r' = mark_attempted ops cfg (lease_for cfg t sw cy tok) link r"
  shows "clock r' = clock r"
    and "view r' = view r \<or> live (view r) (clock r) (lock_key_of (scope_of t) sw) = Some tok
      \<and> view r' = (view r)(done_key_of (scope_of t) sw cy \<mapsto> (''1'', clock r + task_dedup_seconds cfg t),
            lock_key_of (scope_of t) sw := None)"
  using script_okD [OF ok] task_times [OF times, of t]
  by (auto simp: r' mark_attempted_def mark_script_def lease_for_def lease_dedup_def)

subsection \<open>The invariant\<close>

definition run_lock :: "task_run \<Rightarrow> string" where
  "run_lock h = lock_key_of (scope_of (tr_task h)) (tr_switch h)"

definition run_done :: "task_run \<Rightarrow> string" where
  "run_done h = done_key_of (scope_of (tr_task h)) (tr_switch h) (tr_cycle h)"

text \<open>A run holds its lock, or its lock time is over, or it has ended and left its marker.\<close>

definition holds_lock :: "worker_settings \<Rightarrow> stored \<Rightarrow> task_run \<Rightarrow> bool" where
  "holds_lock cfg st h \<longleftrightarrow> st (run_lock h) = Some (le_token (tr_lease h), tr_started h + task_lock_seconds cfg (tr_task h))"

definition lock_over :: "worker_settings \<Rightarrow> instant \<Rightarrow> task_run \<Rightarrow> bool" where
  "lock_over cfg now h \<longleftrightarrow> tr_started h + task_lock_seconds cfg (tr_task h) \<le> now"

definition left_marker :: "worker_settings \<Rightarrow> stored \<Rightarrow> instant \<Rightarrow> task_run \<Rightarrow> bool" where
  "left_marker cfg st now h \<longleftrightarrow> tr_started h + task_dedup_seconds cfg (tr_task h) \<le> now
     \<or> (\<exists>v t. st (run_done h) = Some (v, t) \<and> tr_started h + task_dedup_seconds cfg (tr_task h) \<le> t)"

definition run_status :: "worker_settings \<Rightarrow> stored \<Rightarrow> instant \<Rightarrow> task_run set \<Rightarrow> task_run \<Rightarrow> bool" where
  "run_status cfg st now running h \<longleftrightarrow>
     lock_over cfg now h \<or> holds_lock cfg st h \<or> h \<notin> running \<and> left_marker cfg st now h"

definition run_wf :: "worker_settings \<Rightarrow> instant \<Rightarrow> string set \<Rightarrow> task_run \<Rightarrow> bool" where
  "run_wf cfg now used h \<longleftrightarrow> tr_lease h = lease_for cfg (tr_task h) (tr_switch h) (tr_cycle h) (le_token (tr_lease h))
     \<and> le_token (tr_lease h) \<in> used \<and> tr_started h \<le> now"

text \<open>Locks in the server are of drawn tokens and end in time; markers are of runs.\<close>

definition server_wf :: "worker_settings \<Rightarrow> stored \<Rightarrow> instant \<Rightarrow> string set \<Rightarrow> task_run set \<Rightarrow> bool" where
  "server_wf cfg st now used history \<longleftrightarrow>
     (\<forall>t sw tok e. st (lock_key_of (scope_of t) sw) = Some (tok, e) \<longrightarrow> tok \<in> used \<and> e \<le> now + task_lock_seconds cfg t)
   \<and> (\<forall>t sw cy. st (done_key_of (scope_of t) sw cy) \<noteq> None
        \<longrightarrow> (\<exists>h \<in> history. run_done h = done_key_of (scope_of t) sw cy))"

definition apart :: "worker_settings \<Rightarrow> task_run \<Rightarrow> task_run \<Rightarrow> bool" where
  "apart cfg h h' \<longleftrightarrow> tr_task h = tr_task h' \<and> tr_switch h = tr_switch h' \<and> tr_cycle h = tr_cycle h' \<and> h \<noteq> h'
     \<longrightarrow> min (task_lock_seconds cfg (tr_task h)) (task_dedup_seconds cfg (tr_task h)) \<le> \<bar>tr_started h - tr_started h'\<bar>"

definition fleet_inv :: "worker_settings \<Rightarrow> ('r \<Rightarrow> stored) \<Rightarrow> ('r \<Rightarrow> instant) \<Rightarrow> 'r fleet \<Rightarrow> bool" where
  "fleet_inv cfg view clock fl \<longleftrightarrow>
     fl_running fl \<subseteq> fl_history fl
   \<and> inj_on (\<lambda>h. le_token (tr_lease h)) (fl_history fl)
   \<and> (\<forall>h \<in> fl_history fl. run_wf cfg (clock (fl_server fl)) (fl_used fl) h)
   \<and> (\<forall>h \<in> fl_history fl. run_status cfg (view (fl_server fl)) (clock (fl_server fl)) (fl_running fl) h)
   \<and> server_wf cfg (view (fl_server fl)) (clock (fl_server fl)) (fl_used fl) (fl_history fl)
   \<and> (\<forall>h \<in> fl_history fl. \<forall>h' \<in> fl_history fl. apart cfg h h')"

lemma passes_lookup:
  assumes "passes view clock r r'" "view r' k = Some (v, t)" shows "view r k = Some (v, t)"
  using assms unfolding passes_def by (metis option.distinct(1))

lemma passes_keeps:
  assumes "passes view clock r r'" "view r k = Some (v, t)" "clock r' < t" shows "view r' k = Some (v, t)"
  using assms by (auto simp: passes_def dest!: spec [of _ k])

lemma run_wf_mono: "run_wf cfg now used h \<Longrightarrow> now \<le> now' \<Longrightarrow> used \<subseteq> used' \<Longrightarrow> run_wf cfg now' used' h"
  by (auto simp: run_wf_def)

lemma run_status_pass:
  assumes "passes view clock r r'" "run_status cfg (view r) (clock r) running h"
  shows "run_status cfg (view r') (clock r') running h"
proof -
  have le: "clock r \<le> clock r'" using assms(1) by (simp add: passes_def)
  have "lock_over cfg (clock r) h \<Longrightarrow> lock_over cfg (clock r') h" using le by (simp add: lock_over_def)
  moreover have "holds_lock cfg (view r) h \<Longrightarrow> lock_over cfg (clock r') h \<or> holds_lock cfg (view r') h"
    using passes_keeps [OF assms(1)] by (fastforce simp: lock_over_def holds_lock_def)
  moreover have "left_marker cfg (view r) (clock r) h \<Longrightarrow> left_marker cfg (view r') (clock r') h"
    using passes_keeps [OF assms(1)] le by (fastforce simp: left_marker_def)
  ultimately show ?thesis using assms(2) by (auto simp: run_status_def)
qed

lemma server_wf_pass:
  assumes "passes view clock r r'" "server_wf cfg (view r) (clock r) used history"
  shows "server_wf cfg (view r') (clock r') used history"
  using assms(2) passes_lookup [OF assms(1)] assms(1) unfolding server_wf_def passes_def
  by (metis (no_types, opaque_lifting) add_right_mono option.exhaust order_trans surj_pair)

text \<open>A claim that finds neither lock nor marker leaves every earlier run's status as it was.\<close>

lemma run_status_claim:
  assumes "run_status cfg st now running h" "live st now (lock_key_of (scope_of t) sw) = None"
  shows "run_status cfg (st(lock_key_of (scope_of t) sw \<mapsto> (tok, e))) now running h"
proof -
  have "holds_lock cfg st h \<Longrightarrow> lock_over cfg now h \<or> run_lock h \<noteq> lock_key_of (scope_of t) sw"
    using assms(2) by (auto simp: holds_lock_def lock_over_def live_def split: option.splits if_splits)
  then show ?thesis
    using assms(1) lock_not_done by (auto simp: run_status_def holds_lock_def left_marker_def run_done_def lock_not_done [symmetric])
qed

lemma server_wf_claim:
  assumes "server_wf cfg st now used history"
  shows "server_wf cfg (st(lock_key_of (scope_of t) sw \<mapsto> (tok, now + task_lock_seconds cfg t))) now (insert tok used) (history \<union> H)"
  using assms lock_not_done unfolding server_wf_def
  by (auto simp: lock_key_inj lock_not_done [symmetric]) blast+

lemma server_wf_mono: "server_wf cfg st now used history \<Longrightarrow> used \<subseteq> used' \<Longrightarrow> history \<subseteq> history' \<Longrightarrow> server_wf cfg st now used' history'"
  unfolding server_wf_def by blast

text \<open>The end of a run.\<close>

lemma run_status_mark:
  assumes "run_status cfg st now running h" "tr_started h \<le> now" "lease_times_ok cfg"
    and "live st now (run_lock g) = Some (le_token (tr_lease g))"
    and "le_token (tr_lease h) = le_token (tr_lease g) \<Longrightarrow> h = g"
  shows "run_status cfg (st(run_done g \<mapsto> (''1'', now + task_dedup_seconds cfg (tr_task g)), run_lock g := None)) now (running - {g}) h"
proof (cases "h = g")
  case True
  then show ?thesis using assms(2) lock_not_done by (auto simp: run_status_def left_marker_def run_done_def run_lock_def lock_not_done [symmetric])
next
  case False
  have "holds_lock cfg st h \<Longrightarrow> run_lock h \<noteq> run_lock g"
    using assms(4,5) False by (auto simp: holds_lock_def live_def split: if_splits)
  moreover have "left_marker cfg (st(run_done g \<mapsto> (''1'', now + task_dedup_seconds cfg (tr_task g)), run_lock g := None)) now h"
    if "left_marker cfg st now h"
    using that assms(2) done_key_task [of "tr_task h" "tr_switch h" "tr_cycle h" "tr_task g" "tr_switch g" "tr_cycle g"]
    by (auto simp: left_marker_def run_done_def run_lock_def lock_not_done [symmetric])
  ultimately show ?thesis
    using assms(1) by (auto simp: run_status_def holds_lock_def run_lock_def run_done_def lock_not_done)
qed

lemma run_status_end: "run_status cfg st now running h \<Longrightarrow> run_status cfg st now (running - {g}) h"
  by (auto simp: run_status_def)

lemma server_wf_mark:
  assumes "server_wf cfg st now used history" "g \<in> history"
  shows "server_wf cfg (st(run_done g \<mapsto> v, run_lock g := None)) now used history"
  using assms unfolding server_wf_def run_lock_def by (auto simp: run_done_def lock_not_done [symmetric] lock_not_done)


subsection \<open>Every step keeps the invariant\<close>

lemma fleet_invD:
  assumes "fleet_inv cfg view clock fl"
  shows "fl_running fl \<subseteq> fl_history fl" "inj_on (\<lambda>h. le_token (tr_lease h)) (fl_history fl)"
    "h \<in> fl_history fl \<Longrightarrow> run_wf cfg (clock (fl_server fl)) (fl_used fl) h"
    "h \<in> fl_history fl \<Longrightarrow> run_status cfg (view (fl_server fl)) (clock (fl_server fl)) (fl_running fl) h"
    "server_wf cfg (view (fl_server fl)) (clock (fl_server fl)) (fl_used fl) (fl_history fl)"
    "h \<in> fl_history fl \<Longrightarrow> h' \<in> fl_history fl \<Longrightarrow> apart cfg h h'"
  using assms by (auto simp: fleet_inv_def)

lemma inv_pass:
  assumes "fleet_inv cfg view clock fl" "passes view clock (fl_server fl) r'"
  shows "fleet_inv cfg view clock (fl\<lparr>fl_server := r'\<rparr>)"
proof -
  have "clock (fl_server fl) \<le> clock r'" using assms(2) by (simp add: passes_def)
  then show ?thesis
    using fleet_invD [OF assms(1)] run_wf_mono run_status_pass [OF assms(2)] server_wf_pass [OF assms(2)]
    by (simp add: fleet_inv_def) blast
qed

text \<open>A run claimed now is far from every earlier run of the same switch and cycle.\<close>

lemma claimed_apart:
  assumes "run_status cfg st now running h" "run_wf cfg now used h"
    and "live st now (lock_key_of (scope_of t) sw) = None" "live st now (done_key_of (scope_of t) sw cy) = None"
    and "tr_task h = t" "tr_switch h = sw" "tr_cycle h = cy"
  shows "min (task_lock_seconds cfg t) (task_dedup_seconds cfg t) \<le> now - tr_started h"
  using assms unfolding run_status_def
  by (auto simp: lock_over_def holds_lock_def left_marker_def live_def run_lock_def run_done_def split: option.splits if_splits)

lemma inv_deliver:
  assumes inv: "fleet_inv cfg view clock fl" and ok: "script_ok ops view clock" and times: "lease_times_ok cfg"
    and fresh: "tok \<notin> fl_used fl"
  shows "fleet_inv cfg view clock (deliver ops cfg clock t sw cy tok link fl)"
proof -
  let ?r = "fl_server fl"
  let ?key = "lock_key_of (scope_of t) sw"
  let ?locked = "(view ?r)(?key \<mapsto> (tok, clock ?r + task_lock_seconds cfg t))"
  obtain res r' where acq: "acquire_lease ops cfg t sw cy tok link ?r = (res, r')" by fastforce
  note eff = acquire_effect [OF ok times acq]
  note D = fleet_invD [OF inv]
  have used: "run_wf cfg (clock ?r) (insert tok (fl_used fl)) h" if "h \<in> fl_history fl" for h
    using run_wf_mono [OF D(3) [OF that]] by blast
  show ?thesis
  proof (cases res)
    case (Inl e)
    have claim: "view r' = view ?r \<or> view r' = ?locked \<and> live (view ?r) (clock ?r) ?key = None"
      using eff(2) by blast
    have "run_status cfg (view r') (clock ?r) (fl_running fl) h" if "h \<in> fl_history fl" for h
      using claim run_status_claim [OF D(4) [OF that]] D(4) [OF that] by metis
    moreover have "server_wf cfg (view r') (clock ?r) (insert tok (fl_used fl)) (fl_history fl)"
      using claim server_wf_claim [OF D(5), where H = "{}"] server_wf_mono [OF D(5) subset_insertI order_refl] by (metis Un_empty_right)
    ultimately show ?thesis
      using D(1,2,6) used eff(1) Inl acq by (simp add: deliver_def fleet_inv_def)
  next
    case (Inr le)
    from eff(3) [OF Inr] have le: "le = lease_for cfg t sw cy tok" "view r' = ?locked"
      "live (view ?r) (clock ?r) (done_key_of (scope_of t) sw cy) = None" "live (view ?r) (clock ?r) ?key = None" by auto
    define run where "run = \<lparr>tr_task = t, tr_switch = sw, tr_cycle = cy, tr_lease = le, tr_started = clock ?r\<rparr>"
    have new: "run_status cfg ?locked (clock ?r) running run" for running
      by (simp add: run_status_def holds_lock_def run_lock_def run_def le(1) lease_for_def)
    have old: "run_status cfg ?locked (clock ?r) (insert run (fl_running fl)) h" if "h \<in> fl_history fl" for h
      using run_status_claim [OF D(4) [OF that] le(4)] D(3) [OF that] fresh
      by (auto simp: run_status_def run_wf_def run_def le(1) lease_for_def)
    have apart_new: "apart cfg run h \<and> apart cfg h run" if "h \<in> fl_history fl" for h
      using claimed_apart [OF D(4) [OF that] D(3) [OF that] le(4,3)]
      by (fastforce simp: apart_def run_def)
    have "inj_on (\<lambda>h. le_token (tr_lease h)) (insert run (fl_history fl))"
      using D(2,3) fresh by (auto simp: inj_on_def run_wf_def run_def le(1) lease_for_def)
    moreover have "run_wf cfg (clock ?r) (insert tok (fl_used fl)) run"
      by (simp add: run_wf_def run_def le(1) lease_for_def)
    moreover have "server_wf cfg ?locked (clock ?r) (insert tok (fl_used fl)) (insert run (fl_history fl))"
      using server_wf_claim [OF D(5), where H = "{run}"] by simp
    moreover have "apart cfg run run" by (simp add: apart_def)
    ultimately show ?thesis
      using D(1,6) used new old apart_new eff(1) Inr acq le(2)
      by (simp add: deliver_def fleet_inv_def run_def [symmetric] subset_insertI2 insert_mono)
  qed
qed

lemma inv_finish:
  assumes inv: "fleet_inv cfg view clock fl" and ok: "script_ok ops view clock" and times: "lease_times_ok cfg"
    and run: "run \<in> fl_running fl"
  shows "fleet_inv cfg view clock (finish ops cfg run link fl)"
proof -
  let ?r = "fl_server fl"
  define r' where "r' = mark_attempted ops cfg (tr_lease run) link ?r"
  note D = fleet_invD [OF inv]
  have mem: "run \<in> fl_history fl" using D(1) run by blast
  define tok where "tok = le_token (tr_lease run)"
  have lease: "tr_lease run = lease_for cfg (tr_task run) (tr_switch run) (tr_cycle run) tok"
    using D(3) [OF mem] by (simp add: run_wf_def tok_def)
  note eff = mark_effect [OF ok times r'_def [unfolded lease], folded tok_def]
  have "run_status cfg (view r') (clock ?r) (fl_running fl - {run}) h" if h: "h \<in> fl_history fl" for h
  proof -
    have same: "le_token (tr_lease h) = le_token (tr_lease run) \<Longrightarrow> h = run"
      using D(2) h mem by (simp add: inj_on_def)
    have "tr_started h \<le> clock ?r" using D(3) [OF h] by (simp add: run_wf_def)
    from run_status_mark [OF D(4) [OF h] this times _ same] run_status_end [OF D(4) [OF h]] eff(2)
    show ?thesis by (auto simp: run_lock_def run_done_def tok_def)
  qed
  moreover have "server_wf cfg (view r') (clock ?r) (fl_used fl) (fl_history fl)"
    using eff(2) D(5) server_wf_mark [OF D(5) mem] by (auto simp: run_lock_def run_done_def)
  ultimately show ?thesis
    using D(1,2,3,6) eff(1) by (auto simp: finish_def fleet_inv_def r'_def [symmetric])
qed

lemma reachable_inv:
  assumes "reachable ops cfg view clock fl" "script_ok ops view clock" "lease_times_ok cfg"
  shows "fleet_inv cfg view clock fl"
  using assms(1)
proof (induction rule: reachable.induct)
  case (Start r)
  then show ?case by (simp add: initial_fleet_def fleet_inv_def server_wf_def)
next
  case (Step fl fl')
  from Step.hyps(2) show ?case
  proof cases
    case (Pass r')
    with inv_pass [OF Step.IH] show ?thesis by simp
  next
    case (Deliver token t switch_id cycle_id link)
    with inv_deliver [OF Step.IH assms(2,3)] show ?thesis by simp
  next
    case (Finish run link)
    with inv_finish [OF Step.IH assms(2,3)] show ?thesis by simp
  qed
qed


subsection \<open>A concrete server\<close>

type_synonym map_server = "stored \<times> instant"

definition map_server :: "map_server script_ops" where
  "map_server = \<lparr>
     s_exists = (\<lambda>r k. live (fst r) (snd r) k \<noteq> None),
     s_get = (\<lambda>r k. live (fst r) (snd r) k),
     s_set = (\<lambda>r k v t. ((fst r)(k \<mapsto> (v, snd r + t)), snd r)),
     s_set_nx = (\<lambda>r k v t. if live (fst r) (snd r) k = None then (True, ((fst r)(k \<mapsto> (v, snd r + t)), snd r)) else (False, r)),
     s_del = (\<lambda>r k. ((fst r)(k := None), snd r)) \<rparr>"

lemma map_server_ok: "script_ok map_server fst snd"
  by (auto simp: script_ok_def map_server_def)

lemma default_lease_times: "lease_times_ok default_worker_settings"
  by (simp add: lease_times_ok_def default_worker_settings_def)

text \<open>One delivery, and one more after the lock of the first has run out while its worker hangs.\<close>

definition one_run :: "map_server fleet" where
  "one_run = deliver map_server default_worker_settings snd Reboot_aps ''sw1'' ''c1'' ''tok1'' Answered (initial_fleet (Map.empty, 0))"

definition two_runs :: "map_server fleet" where
  "two_runs = deliver map_server default_worker_settings snd Reboot_aps ''sw1'' ''c1'' ''tok2'' Answered
     (one_run\<lparr>fl_server := (fst (fl_server one_run), 20000)\<rparr>)"

definition run_of :: "string \<Rightarrow> instant \<Rightarrow> task_run" where
  "run_of tok started = \<lparr>tr_task = Reboot_aps, tr_switch = ''sw1'', tr_cycle = ''c1'',
     tr_lease = lease_for default_worker_settings Reboot_aps ''sw1'' ''c1'' tok, tr_started = started\<rparr>"

lemmas fleet_eval = deliver_def acquire_lease_eq acquire_switch_lease_def claim_script_def map_server_def live_def
  initial_fleet_def task_lock_seconds_def task_dedup_seconds_def default_worker_settings_def lease_for_def run_of_def

lemma one_run_eval:
  "one_run = \<lparr>fl_server = ([lock_key_of (scope_of Reboot_aps) ''sw1'' \<mapsto> (''tok1'', 10800)], 0), fl_used = {''tok1''},
     fl_running = {run_of ''tok1'' 0}, fl_history = {run_of ''tok1'' 0}\<rparr>"
  by (simp add: one_run_def fleet_eval Let_def)

lemma two_runs_history: "fl_history two_runs = {run_of ''tok2'' 20000, run_of ''tok1'' 0}"
  by (simp add: two_runs_def one_run_eval fleet_eval Let_def lock_not_done [symmetric])

lemma one_run_reachable: "reachable map_server default_worker_settings fst snd one_run"
  unfolding one_run_def
  by (rule reachable.Step [OF reachable.Start fleet_step.Deliver]) (simp_all add: initial_fleet_def)

lemma two_runs_reachable: "reachable map_server default_worker_settings fst snd two_runs"
proof -
  have "passes fst snd (fl_server one_run) (fst (fl_server one_run), 20000)"
    by (simp add: passes_def one_run_eval)
  from fleet_step.Pass [OF this, of map_server default_worker_settings] one_run_reachable
  have "reachable map_server default_worker_settings fst snd (one_run\<lparr>fl_server := (fst (fl_server one_run), 20000)\<rparr>)"
    by (rule reachable.Step [rotated])
  then show ?thesis
    unfolding two_runs_def by (rule reachable.Step [OF _ fleet_step.Deliver]) (simp add: one_run_eval)
qed

subsection \<open>Properties\<close>

text \<open>C2: however deliveries, ends, crashes, lost connections and time interleave, two task bodies of one
  kind never work on one switch at the same time, as long as none outlives its lock.\<close>

theorem one_live_run_per_switch:
  assumes "script_ok ops view clock" "lease_times_ok cfg" "reachable ops cfg view clock fl"
    and "h \<in> fl_running fl" "h' \<in> fl_running fl" "tr_task h = tr_task h'" "tr_switch h = tr_switch h'"
    and "clock (fl_server fl) < tr_started h + task_lock_seconds cfg (tr_task h)"
    and "clock (fl_server fl) < tr_started h' + task_lock_seconds cfg (tr_task h')"
  shows "h = h'"
proof -
  note D = fleet_invD [OF reachable_inv [OF assms(3,1,2)]]
  have mem: "h \<in> fl_history fl" "h' \<in> fl_history fl" using D(1) assms(4,5) by auto
  have "holds_lock cfg (view (fl_server fl)) h" "holds_lock cfg (view (fl_server fl)) h'"
    using D(4) [OF mem(1)] D(4) [OF mem(2)] assms by (auto simp: run_status_def lock_over_def)
  then have "le_token (tr_lease h) = le_token (tr_lease h')"
    using assms(6,7) by (simp add: holds_lock_def run_lock_def)
  then show ?thesis using D(2) mem by (simp add: inj_on_def)
qed

theorem one_live_run_per_switch_witness:
  "\<exists>h. h \<in> fl_running one_run \<and> (\<forall>h'. h' \<in> fl_running one_run \<longrightarrow> h = h')"
proof -
  have "run_of ''tok1'' 0 = h'" if "h' \<in> fl_running one_run" for h'
    by (rule one_live_run_per_switch [OF map_server_ok default_lease_times one_run_reachable])
      (use that in \<open>simp_all add: one_run_eval run_of_def task_lock_seconds_def default_worker_settings_def\<close>)
  then show ?thesis by (auto simp: one_run_eval)
qed

text \<open>C8: a redelivered task does not repeat its cycle: two attempts of one cycle at one switch start at least
  the lock time or the dedup time apart, whichever is shorter, also when workers crash or Redis loses answers.\<close>

theorem cycle_attempts_are_apart:
  assumes "script_ok ops view clock" "lease_times_ok cfg" "reachable ops cfg view clock fl"
    and "h \<in> fl_history fl" "h' \<in> fl_history fl" "h \<noteq> h'"
    and "tr_task h = tr_task h'" "tr_switch h = tr_switch h'" "tr_cycle h = tr_cycle h'"
  shows "min (task_lock_seconds cfg (tr_task h)) (task_dedup_seconds cfg (tr_task h)) \<le> \<bar>tr_started h - tr_started h'\<bar>"
  using fleet_invD(6) [OF reachable_inv [OF assms(3,1,2)] assms(4,5)] assms(6-9) by (simp add: apart_def)

theorem cycle_attempts_are_apart_witness:
  "min (task_lock_seconds default_worker_settings Reboot_aps) (task_dedup_seconds default_worker_settings Reboot_aps)
     \<le> \<bar>tr_started (run_of ''tok1'' 0) - tr_started (run_of ''tok2'' 20000)\<bar>"
  using cycle_attempts_are_apart [OF map_server_ok default_lease_times two_runs_reachable, of "run_of ''tok1'' 0" "run_of ''tok2'' 20000"]
  by (simp add: two_runs_history) (simp add: run_of_def)

text \<open>No crash can block a switch for good: once the lock time has passed without a server event, a cycle
  that was not attempted before gets its lease.\<close>

theorem lease_never_stuck:
  assumes "script_ok ops view clock" "lease_times_ok cfg" "reachable ops cfg view clock fl"
    and "passes view clock (fl_server fl) r'" "clock (fl_server fl) + task_lock_seconds cfg t \<le> clock r'"
    and "\<forall>h \<in> fl_history fl. run_done h \<noteq> done_key_of (scope_of t) switch_id cycle_id"
  shows "fst (acquire_lease ops cfg t switch_id cycle_id token Answered r') = Inr (lease_for cfg t switch_id cycle_id token)"
proof -
  have wf: "server_wf cfg (view (fl_server fl)) (clock (fl_server fl)) (fl_used fl) (fl_history fl)"
    by (rule fleet_invD(5) [OF reachable_inv [OF assms(3,1,2)]])
  have "live (view r') (clock r') (lock_key_of (scope_of t) switch_id) = None"
    using wf passes_lookup [OF assms(4)] assms(5) by (fastforce simp: server_wf_def live_def split: option.splits)
  moreover have "live (view r') (clock r') (done_key_of (scope_of t) switch_id cycle_id) = None"
    using wf passes_lookup [OF assms(4)] assms(6) by (fastforce simp: server_wf_def live_def split: option.splits)
  ultimately show ?thesis
    using acquire_effect(4) [OF assms(1,2)] by (metis prod.collapse)
qed

theorem lease_never_stuck_witness:
  "fst (acquire_lease map_server default_worker_settings Reboot_aps ''sw1'' ''c2'' ''tok2'' Answered (fst (fl_server one_run), 20000))
     = Inr (lease_for default_worker_settings Reboot_aps ''sw1'' ''c2'' ''tok2'')"
  by (rule lease_never_stuck [OF map_server_ok default_lease_times one_run_reachable])
    (simp_all add: passes_def one_run_eval run_done_def run_of_def done_key_of_def task_lock_seconds_def default_worker_settings_def)

end
