(* ===== verification/Regex.thy ===== *)
theory Regex
  imports Prelude
begin

section \<open>Python's re module, as far as the parsers use it\<close>

text \<open>
  The parsers of switch and device output are written with regular expressions. A pattern is a
  value of \<open>re\<close>; \<open>run\<close> is the backtracking matcher of Python's \<open>re\<close>: alternatives from left to
  right, greedy repetition longest first, \<open>*?\<close> shortest first, and the first success wins. The state of
  a match is what lies behind (reversed), what lies ahead, and the groups captured so far. The
  relation \<open>reads\<close> says what a pattern may read; \<open>run_sound\<close> links the two, so that facts about what a
  group can hold are proved by rule induction. Characters are below U+0100, where \<open>\d\<close> is 0 to 9.
\<close>

datatype re =
    Cls "char \<Rightarrow> bool"
  | Eps
  | Seq re re
  | Alt re re
  | Star re
  | Lazy re
  | Grp nat re
  | Bol
  | Eol
  | Eol_multi
  | Word_end
  | Not_ahead re
  | Bol_multi

type_synonym match_state = "string \<times> string \<times> (nat \<times> string) list"

definition word_char :: "char \<Rightarrow> bool" where
  "word_char c = (let n = (of_char c :: nat) in
     (48 \<le> n \<and> n \<le> 57) \<or> (65 \<le> n \<and> n \<le> 90) \<or> n = 95 \<or> (97 \<le> n \<and> n \<le> 122)
     \<or> n = 170 \<or> n = 178 \<or> n = 179 \<or> n = 181 \<or> n = 185 \<or> n = 186 \<or> (188 \<le> n \<and> n \<le> 190)
     \<or> (192 \<le> n \<and> n \<noteq> 215 \<and> n \<noteq> 247))"

definition at_word_end :: "string \<Rightarrow> string \<Rightarrow> bool" where
  "at_word_end pre rest \<longleftrightarrow>
     (case pre of [] \<Rightarrow> False | c # _ \<Rightarrow> word_char c) \<noteq> (case rest of [] \<Rightarrow> False | c # _ \<Rightarrow> word_char c)"

function run :: "re \<Rightarrow> match_state \<Rightarrow> (match_state \<Rightarrow> match_state option) \<Rightarrow> match_state option" where
  "run (Cls p) (pre, rest, caps) k =
     (case rest of [] \<Rightarrow> None | c # cs \<Rightarrow> if p c then k (c # pre, cs, caps) else None)"
| "run Eps st k = k st"
| "run (Seq r1 r2) (pre, rest, caps) k =
     run r1 (pre, rest, caps) (\<lambda>st. if length (fst (snd st)) \<le> length rest then run r2 st k else None)"
| "run (Alt r1 r2) st k = (case run r1 st k of Some x \<Rightarrow> Some x | None \<Rightarrow> run r2 st k)"
| "run (Star r) (pre, rest, caps) k =
     (case run r (pre, rest, caps) (\<lambda>st. if length (fst (snd st)) < length rest then run (Star r) st k else None) of
        Some x \<Rightarrow> Some x | None \<Rightarrow> k (pre, rest, caps))"
| "run (Lazy r) (pre, rest, caps) k =
     (case k (pre, rest, caps) of
        Some x \<Rightarrow> Some x
      | None \<Rightarrow> run r (pre, rest, caps) (\<lambda>st. if length (fst (snd st)) < length rest then run (Lazy r) st k else None))"
| "run (Grp n r) (pre, rest, caps) k =
     run r (pre, rest, caps) (\<lambda>(pre', rest', caps'). k (pre', rest', (n, take (length rest - length rest') rest) # caps'))"
| "run Bol (pre, rest, caps) k = (if pre = [] then k (pre, rest, caps) else None)"
| "run Eol (pre, rest, caps) k = (if rest = [] \<or> rest = [CHR 0x0A] then k (pre, rest, caps) else None)"
| "run Eol_multi (pre, rest, caps) k =
     (if rest = [] \<or> take 1 rest = [CHR 0x0A] then k (pre, rest, caps) else None)"
| "run Word_end (pre, rest, caps) k = (if at_word_end pre rest then k (pre, rest, caps) else None)"
| "run (Not_ahead r) st k = (case run r st Some of None \<Rightarrow> k st | Some _ \<Rightarrow> None)"
| "run Bol_multi (pre, rest, caps) k =
     (if pre = [] \<or> take 1 pre = [CHR 0x0A] then k (pre, rest, caps) else None)"
  by pat_completeness auto
termination
  by (relation "measures [\<lambda>(r, st, k). length (fst (snd st)), \<lambda>(r, st, k). size r]") auto

subsection \<open>match, search, fullmatch and the pattern vocabulary\<close>

definition re_match :: "re \<Rightarrow> string \<Rightarrow> (nat \<times> string) list option" where
  "re_match r s = map_option (\<lambda>st. snd (snd st)) (run r ([], s, []) Some)"

text \<open>\<open>fullmatch\<close> only accepts a match that reads everything.\<close>

definition re_fullmatch :: "re \<Rightarrow> string \<Rightarrow> (nat \<times> string) list option" where
  "re_fullmatch r s = map_option (\<lambda>st. snd (snd st)) (run r ([], s, []) (\<lambda>st. if fst (snd st) = [] then Some st else None))"

fun search_from :: "re \<Rightarrow> string \<Rightarrow> string \<Rightarrow> (nat \<times> string) list option" where
  "search_from r pre rest = (case run r (pre, rest, []) Some of
     Some st \<Rightarrow> Some (snd (snd st))
   | None \<Rightarrow> (case rest of [] \<Rightarrow> None | c # cs \<Rightarrow> search_from r (c # pre) cs))"

declare search_from.simps [simp del]

definition re_search :: "re \<Rightarrow> string \<Rightarrow> (nat \<times> string) list option" where
  "re_search r s = search_from r [] s"

text \<open>\<open>m.group(n)\<close>: the last text the group matched, if it took part.\<close>

definition group_of :: "(nat \<times> string) list \<Rightarrow> nat \<Rightarrow> string option" where
  "group_of caps n = map_of caps n"

definition group_text :: "(nat \<times> string) list \<Rightarrow> nat \<Rightarrow> string" where
  "group_text caps n = (case map_of caps n of None \<Rightarrow> [] | Some s \<Rightarrow> s)"

definition plus :: "re \<Rightarrow> re" where "plus r = Seq r (Star r)"
definition lazy_plus :: "re \<Rightarrow> re" where "lazy_plus r = Seq r (Lazy r)"
definition optional :: "re \<Rightarrow> re" where "optional r = Alt r Eps"
definition lazy_optional :: "re \<Rightarrow> re" where "lazy_optional r = Alt Eps r"

fun seqs :: "re list \<Rightarrow> re" where
  "seqs [] = Eps"
| "seqs [r] = r"
| "seqs (r # rs) = Seq r (seqs rs)"

fun alts :: "re list \<Rightarrow> re" where
  "alts [] = Not_ahead Eps"
| "alts [r] = r"
| "alts (r # rs) = Alt r (alts rs)"

definition lit :: "string \<Rightarrow> re" where
  "lit s = seqs (map (\<lambda>c. Cls (\<lambda>d. d = c)) s)"

text \<open>\<open>re.IGNORECASE\<close> on an ASCII literal.\<close>

definition ilit :: "string \<Rightarrow> re" where
  "ilit s = seqs (map (\<lambda>c. Cls (\<lambda>d. lower_char d = lower_char c)) s)"

definition dig :: re where "dig = Cls is_digit"
definition spc :: re where "spc = Cls is_space"
definition nsp :: re where "nsp = Cls (\<lambda>c. \<not> is_space c)"
definition dot :: re where "dot = Cls (\<lambda>c. c \<noteq> CHR 0x0A)"
definition one_of :: "string \<Rightarrow> re" where "one_of cs = Cls (\<lambda>c. c \<in> set cs)"

fun times :: "nat \<Rightarrow> re \<Rightarrow> re" where
  "times 0 r = Eps"
| "times (Suc n) r = Seq r (times n r)"

text \<open>\<open>r{1,3}\<close>, greedy.\<close>

definition one_to_three :: "re \<Rightarrow> re" where
  "one_to_three r = Seq r (optional (Seq r (optional r)))"

text \<open>\<open>\d{1,3}(?:\.\d{1,3}){3}\<close>\<close>

definition ipv4_re :: re where
  "ipv4_re = Seq (one_to_three dig) (times 3 (Seq (lit ''.'') (one_to_three dig)))"

text \<open>\<open>str.splitlines()\<close> on the line ends device output contains: LF, CR, CR LF, VT, FF, FS, GS, RS, NEL.\<close>

definition line_end :: "char \<Rightarrow> bool" where
  "line_end c \<longleftrightarrow> (of_char c :: nat) \<in> {10, 11, 12, 13, 28, 29, 30, 133}"

fun crlf_to_lf :: "string \<Rightarrow> string" where
  "crlf_to_lf [] = []"
| "crlf_to_lf [c] = [c]"
| "crlf_to_lf (c # d # cs) =
     (if c = CHR 0x0D \<and> d = CHR 0x0A then crlf_to_lf (d # cs) else c # crlf_to_lf (d # cs))"

fun lines_of :: "string \<Rightarrow> string list" where
  "lines_of [] = []"
| "lines_of (c # cs) =
     (if line_end c then [] # lines_of cs
      else (case lines_of cs of [] \<Rightarrow> [[c]] | l # ls \<Rightarrow> (c # l) # ls))"

definition splitlines :: "string \<Rightarrow> string list" where
  "splitlines s = lines_of (crlf_to_lf s)"

text \<open>\<open>re.split\<close> with a pattern that never matches the empty text: the pieces between the matches, from the left.\<close>

function split_from :: "re \<Rightarrow> string \<Rightarrow> string \<Rightarrow> string \<Rightarrow> string list" where
  "split_from r piece pre rest =
     (case run r (pre, rest, []) (\<lambda>st. if length (fst (snd st)) < length rest then Some st else None) of
        Some (pre', rest', _) \<Rightarrow> if length rest' < length rest then rev piece # split_from r [] pre' rest' else [rev piece]
      | None \<Rightarrow> (case rest of [] \<Rightarrow> [rev piece] | c # cs \<Rightarrow> split_from r (c # piece) (c # pre) cs))"
  by pat_completeness auto
termination
  by (relation "measure (\<lambda>(r, piece, pre, rest). length rest)") auto

declare split_from.simps [simp del]

definition re_split :: "re \<Rightarrow> string \<Rightarrow> string list" where
  "re_split r s = split_from r [] [] s"

definition ahead :: "re \<Rightarrow> re" where "ahead r = Not_ahead (Not_ahead r)"

text \<open>\<open>r{2,}\<close>, greedy.\<close>

definition two_or_more :: "re \<Rightarrow> re" where "two_or_more r = Seq r (plus r)"

subsection \<open>What a pattern reads\<close>

inductive reads :: "re \<Rightarrow> match_state \<Rightarrow> match_state \<Rightarrow> bool" where
  r_cls: "p c \<Longrightarrow> reads (Cls p) (pre, c # cs, caps) (c # pre, cs, caps)"
| r_eps: "reads Eps st st"
| r_seq: "reads r1 st st1 \<Longrightarrow> reads r2 st1 st2 \<Longrightarrow> reads (Seq r1 r2) st st2"
| r_alt1: "reads r1 st st1 \<Longrightarrow> reads (Alt r1 r2) st st1"
| r_alt2: "reads r2 st st1 \<Longrightarrow> reads (Alt r1 r2) st st1"
| r_star0: "reads (Star r) st st"
| r_star: "reads r st st1 \<Longrightarrow> reads (Star r) st1 st2 \<Longrightarrow> reads (Star r) st st2"
| r_lazy0: "reads (Lazy r) st st"
| r_lazy: "reads r st st1 \<Longrightarrow> reads (Lazy r) st1 st2 \<Longrightarrow> reads (Lazy r) st st2"
| r_grp: "reads r (pre, rest, caps) (pre', rest', caps') \<Longrightarrow>
    reads (Grp n r) (pre, rest, caps) (pre', rest', (n, take (length rest - length rest') rest) # caps')"
| r_bol: "reads Bol st st"
| r_eol: "reads Eol st st"
| r_eolm: "reads Eol_multi st st"
| r_word: "reads Word_end st st"
| r_not: "reads (Not_ahead r) st st"
| r_bolm: "reads Bol_multi st st"

theorem run_sound: "run r st k = Some x \<Longrightarrow> \<exists>st'. reads r st st' \<and> k st' = Some x"
proof (induction r st k arbitrary: x rule: run.induct)
  case (1 p pre rest caps k)
  then show ?case by (auto split: list.splits if_splits intro: reads.intros)
next
  case (3 r1 r2 pre rest caps k)
  from "3.IH"(2) [OF "3.prems" [simplified]] obtain st1 where
    st1: "reads r1 (pre, rest, caps) st1" "length (fst (snd st1)) \<le> length rest" "run r2 st1 k = Some x"
    by (auto split: if_splits)
  from "3.IH"(1) [OF st1(2,3)] st1(1) show ?case by (blast intro: reads.intros)
next
  case (4 r1 r2 st k)
  then show ?case by (auto split: option.splits intro: reads.intros) 
next
  case (5 r pre rest caps k)
  show ?case
  proof (cases "run r (pre, rest, caps) (\<lambda>st. if length (fst (snd st)) < length rest then run (Star r) st k else None)")
    case None
    with "5.prems" show ?thesis by (auto intro: reads.intros)
  next
    case (Some y)
    from "5.IH"(2) [OF this] obtain st1 where
      st1: "reads r (pre, rest, caps) st1" "length (fst (snd st1)) < length rest" "run (Star r) st1 k = Some y"
      by (auto split: if_splits)
    from "5.IH"(1) [OF st1(2,3)] st1(1) Some "5.prems" show ?thesis by (auto intro: reads.intros)
  qed
next
  case (6 r pre rest caps k)
  show ?case
  proof (cases "k (pre, rest, caps)")
    case None
    with "6.prems" have "run r (pre, rest, caps) (\<lambda>st. if length (fst (snd st)) < length rest then run (Lazy r) st k else None) = Some x"
      by simp
    from "6.IH"(2) [OF None this] obtain st1 where
      st1: "reads r (pre, rest, caps) st1" "length (fst (snd st1)) < length rest" "run (Lazy r) st1 k = Some x"
      by (auto split: if_splits)
    from "6.IH"(1) [OF None st1(2,3)] st1(1) show ?thesis by (blast intro: reads.intros)
  next
    case (Some y)
    with "6.prems" show ?thesis by (auto intro: reads.intros)
  qed
next
  case (7 n r pre rest caps k)
  from "7.IH" [OF "7.prems" [simplified]] show ?case by (auto intro: reads.intros)
next
  case (12 r st k)
  then have "k st = Some x" by (auto split: option.splits)
  then show ?case using r_not by blast
qed (auto split: if_splits intro: reads.intros)

text \<open>Every character a pattern reads satisfies \<open>P\<close>; every group \<open>n\<close> only reads characters in \<open>Q n\<close>.\<close>

fun over :: "(char \<Rightarrow> bool) \<Rightarrow> re \<Rightarrow> bool" where
  "over P (Cls p) = (\<forall>c. p c \<longrightarrow> P c)"
| "over P (Seq r1 r2) = (over P r1 \<and> over P r2)"
| "over P (Alt r1 r2) = (over P r1 \<and> over P r2)"
| "over P (Star r) = over P r"
| "over P (Lazy r) = over P r"
| "over P (Grp n r) = over P r"
| "over P _ = True"

fun groups_over :: "(nat \<Rightarrow> char \<Rightarrow> bool) \<Rightarrow> re \<Rightarrow> bool" where
  "groups_over Q (Seq r1 r2) = (groups_over Q r1 \<and> groups_over Q r2)"
| "groups_over Q (Alt r1 r2) = (groups_over Q r1 \<and> groups_over Q r2)"
| "groups_over Q (Star r) = groups_over Q r"
| "groups_over Q (Lazy r) = groups_over Q r"
| "groups_over Q (Grp n r) = (over (Q n) r \<and> groups_over Q r)"
| "groups_over Q _ = True"

lemma reads_over:
  "reads r st st' \<Longrightarrow> \<exists>w. fst (snd st) = w @ fst (snd st') \<and> (over P r \<longrightarrow> (\<forall>c \<in> set w. P c))"
proof (induction rule: reads.induct)
  case (r_seq r1 st st1 r2 st2)
  from r_seq.IH obtain w1 w2 where "fst (snd st) = w1 @ fst (snd st1)" "over P r1 \<longrightarrow> (\<forall>c \<in> set w1. P c)"
    "fst (snd st1) = w2 @ fst (snd st2)" "over P r2 \<longrightarrow> (\<forall>c \<in> set w2. P c)" by blast
  then show ?case by (intro exI [of _ "w1 @ w2"]) auto
next
  case (r_star r st st1 st2)
  from r_star.IH obtain w1 w2 where "fst (snd st) = w1 @ fst (snd st1)" "over P r \<longrightarrow> (\<forall>c \<in> set w1. P c)"
    "fst (snd st1) = w2 @ fst (snd st2)" "over P (Star r) \<longrightarrow> (\<forall>c \<in> set w2. P c)" by blast
  then show ?case by (intro exI [of _ "w1 @ w2"]) auto
next
  case (r_lazy r st st1 st2)
  from r_lazy.IH obtain w1 w2 where "fst (snd st) = w1 @ fst (snd st1)" "over P r \<longrightarrow> (\<forall>c \<in> set w1. P c)"
    "fst (snd st1) = w2 @ fst (snd st2)" "over P (Lazy r) \<longrightarrow> (\<forall>c \<in> set w2. P c)" by blast
  then show ?case by (intro exI [of _ "w1 @ w2"]) auto
qed auto

definition caps_over :: "(nat \<Rightarrow> char \<Rightarrow> bool) \<Rightarrow> (nat \<times> string) list \<Rightarrow> bool" where
  "caps_over Q caps = list_all (\<lambda>(n, w). list_all (Q n) w) caps"

lemma caps_over_simps: "caps_over Q []" "caps_over Q ((n, w) # caps) \<longleftrightarrow> list_all (Q n) w \<and> caps_over Q caps"
  by (simp_all add: caps_over_def)

lemma reads_groups: "reads r st st' \<Longrightarrow> groups_over Q r \<Longrightarrow> caps_over Q (snd (snd st)) \<Longrightarrow> caps_over Q (snd (snd st'))"
proof (induction rule: reads.induct)
  case (r_grp r pre rest caps pre' rest' caps' n)
  obtain w where w: "rest = w @ rest'" "over (Q n) r \<longrightarrow> (\<forall>c \<in> set w. Q n c)"
    using reads_over [OF r_grp.hyps, of "Q n"] by auto
  with r_grp show ?case by (simp add: caps_over_simps list_all_iff)
qed simp_all

lemma group_over:
  assumes "run r st Some = Some x" "groups_over Q r" "snd (snd st) = []" "map_of (snd (snd x)) n = Some w"
  shows "\<forall>c \<in> set w. Q n c"
proof -
  from run_sound [OF assms(1)] obtain st' where "reads r st st'" "Some st' = Some x" by blast
  then have "reads r st x" by simp
  from reads_groups [OF this assms(2)] assms(3) have "caps_over Q (snd (snd x))" by (simp add: caps_over_simps)
  with map_of_SomeD [OF assms(4)] show ?thesis by (auto simp: caps_over_def list_all_iff)
qed

lemma re_match_group:
  "re_match r s = Some caps \<Longrightarrow> groups_over Q r \<Longrightarrow> map_of caps n = Some w \<Longrightarrow> \<forall>c \<in> set w. Q n c"
proof -
  assume "re_match r s = Some caps" and g: "groups_over Q r" "map_of caps n = Some w"
  then obtain st where "run r ([], s, []) Some = Some st" "snd (snd st) = caps" unfolding re_match_def by blast
  from group_over [OF this(1) g(1)] this(2) g(2) show "\<forall>c \<in> set w. Q n c" by simp
qed

lemma re_search_group:
  assumes "re_search r s = Some caps" "groups_over Q r" "map_of caps n = Some w"
  shows "\<forall>c \<in> set w. Q n c"
proof -
  have "\<forall>c \<in> set w. Q n c" if "search_from r pre rest = Some caps" for pre rest
    using that
  proof (induction rest arbitrary: pre)
    case (Cons c cs)
    show ?case
    proof (cases "run r (pre, c # cs, []) Some")
      case None
      with Cons show ?thesis by (simp add: search_from.simps [of r pre])
    next
      case (Some st)
      with Cons.prems have "snd (snd st) = caps" by (simp add: search_from.simps [of r pre])
      with group_over [OF Some assms(2)] assms(3) show ?thesis by simp
    qed
  next
    case Nil
    then obtain st where "run r (pre, [], []) Some = Some st" "snd (snd st) = caps"
      by (auto simp: search_from.simps [of r pre] split: option.splits)
    with group_over [OF _ assms(2), of "(pre, [], [])" st] assms(3) show ?case by simp
  qed
  with assms(1) show ?thesis unfolding re_search_def by blast
qed

end
