(* ===== verification/Ipv4.thy ===== *)
theory Ipv4
  imports Prelude "HOL-Library.Word"
begin

section \<open>IPv4 addresses and networks (Python's ipaddress)\<close>

text \<open>
  \<open>ipaddress.IPv4Address\<close> accepts four decimal octets without leading zeros; the address is a 32-bit
  word. \<open>IPv4Network(f"{ip}/{mask}", strict=False)\<close> takes the mask as a prefix length, a netmask or a
  host mask, tried in this order, and clears the host bits of the address.
\<close>

unbundle bit_operations_syntax

type_synonym ipv4 = "32 word"

definition octet_of :: "string \<Rightarrow> nat option" where
  "octet_of s =
     (if s = [] \<or> \<not> list_all is_digit s \<or> 3 < length s \<or> (s \<noteq> ''0'' \<and> take 1 s = ''0'') then None
      else if 255 < digits_val s then None else Some (digits_val s))"

definition ipv4_address :: "string \<Rightarrow> ipv4 option" where
  "ipv4_address s = (case map octet_of (split_on CHR ''.'' s) of
     [Some a, Some b, Some c, Some d] \<Rightarrow> Some (of_nat (((a * 256 + b) * 256 + c) * 256 + d))
   | _ \<Rightarrow> None)"

definition prefix_mask :: "nat \<Rightarrow> ipv4" where
  "prefix_mask p = push_bit (32 - p) (mask p)"

definition prefix_of_mask :: "ipv4 \<Rightarrow> nat option" where
  "prefix_of_mask m = find (\<lambda>p. prefix_mask p = m) [0..<33]"

definition netmask_prefix :: "string \<Rightarrow> nat option" where
  "netmask_prefix s =
     (if s \<noteq> [] \<and> list_all is_digit s then (if digits_val s \<le> 32 then Some (digits_val s) else None)
      else case ipv4_address s of
          None \<Rightarrow> None
        | Some m \<Rightarrow> (case prefix_of_mask m of Some p \<Rightarrow> Some p | None \<Rightarrow> prefix_of_mask (NOT m)))"

text \<open>A network is its address and its prefix length.\<close>

definition ipv4_network :: "string \<Rightarrow> string \<Rightarrow> (ipv4 \<times> nat) option" where
  "ipv4_network ip m = (case (ipv4_address ip, netmask_prefix m) of
     (Some a, Some p) \<Rightarrow> Some (a AND prefix_mask p, p) | _ \<Rightarrow> None)"

definition in_network :: "ipv4 \<Rightarrow> ipv4 \<times> nat \<Rightarrow> bool" where
  "in_network a net \<longleftrightarrow> a AND prefix_mask (snd net) = fst net"

subsection \<open>Facts\<close>

lemma bit_prefix_mask: "p \<le> 32 \<Longrightarrow> bit (prefix_mask p) i \<longleftrightarrow> 32 - p \<le> i \<and> i < 32"
  by (auto simp: prefix_mask_def bit_push_bit_iff bit_mask_iff)

text \<open>Two addresses are in one network of prefix \<open>p\<close> exactly when their leading \<open>p\<close> bits agree.\<close>

lemma in_own_network_iff:
  assumes "p \<le> 32"
  shows "in_network b (a AND prefix_mask p, p) \<longleftrightarrow> (\<forall>i. 32 - p \<le> i \<and> i < 32 \<longrightarrow> bit a i = bit b i)"
proof -
  have "in_network b (a AND prefix_mask p, p) \<longleftrightarrow> (\<forall>i. bit (b AND prefix_mask p) i = bit (a AND prefix_mask p) i)"
    unfolding in_network_def fst_conv snd_conv by (auto intro: bit_eqI)
  also have "\<dots> \<longleftrightarrow> (\<forall>i. 32 - p \<le> i \<and> i < 32 \<longrightarrow> bit a i = bit b i)"
    using assms by (auto simp: bit_and_iff bit_prefix_mask)
  finally show ?thesis .
qed

lemma prefix_of_mask_le: "prefix_of_mask m = Some p \<Longrightarrow> p \<le> 32"
  by (auto simp: prefix_of_mask_def find_Some_iff)

lemma netmask_prefix_le: "netmask_prefix s = Some p \<Longrightarrow> p \<le> 32"
  by (auto simp: netmask_prefix_def dest: prefix_of_mask_le split: if_splits option.splits)

lemma ipv4_network_own:
  "ipv4_network ip m = Some net \<Longrightarrow> \<exists>a p. ipv4_address ip = Some a \<and> netmask_prefix m = Some p \<and> p \<le> 32 \<and> net = (a AND prefix_mask p, p)"
  by (auto simp: ipv4_network_def dest: netmask_prefix_le split: option.splits)

end
