(* ===== verification/Cisco_Dhcp.thy ===== *)
theory Cisco_Dhcp
  imports Regex Ipv4
begin

section \<open>DHCP diagnostics and cleanup on a Cisco switch (app/services/cisco_dhcp.py)\<close>

text \<open>
  The SSH session is a parameter: \<open>exec\<close> takes a command and the state of the world and answers the
  switch's output, or \<open>None\<close> when the session raises. Every function that talks to the switch also
  returns the commands it sent, in order. A set of actions is the list of its elements.
\<close>

subsection \<open>Records\<close>

datatype dhcp_role = Local_server | Relay | External

record dhcp_pool =
  dp_name :: string
  dp_total :: "int option"
  dp_leased :: "int option"
  dp_ranges :: "(string \<times> string) list"

record dhcp_binding =
  db_ip :: string
  db_client :: string
  db_expiration :: string
  db_type :: string
  db_state :: "string option"
  db_interface :: "string option"

record dhcp_diagnostics =
  dd_vlan :: int
  dd_role :: dhcp_role
  dd_pools :: "dhcp_pool list"
  dd_bindings :: "dhcp_binding list"
  dd_conflicts :: "string list"
  dd_helpers :: "string list"
  dd_svi_ip :: "string option"
  dd_svi_mask :: "string option"
  dd_snooping :: "bool option"
  dd_snooping_vlans :: "int list"
  dd_arp_vlans :: "int list"
  dd_source_guard :: bool
  dd_unsupported :: "string list"
  dd_ap_bindings :: "dhcp_binding list"

datatype plan_skip =
    Unknown_actions "string list"
  | No_actions
  | Not_the_server int dhcp_role
  | No_conflicts
  | No_bindings int
  | Over_the_cap nat int int

record clear_plan =
  pl_commands :: "string list"
  pl_skipped :: "plan_skip list"
  pl_conflicts :: nat
  pl_bindings :: nat

datatype clear_error = Command_raised string | Command_rejected string string

record clear_result =
  cr_dry_run :: bool
  cr_role :: dhcp_role
  cr_plan :: clear_plan
  cr_conflicts_cleared :: nat
  cr_bindings_cleared :: nat
  cr_errors :: "clear_error list"
  cr_bindings_before :: nat
  cr_bindings_after :: "nat option"
  cr_conflicts_before :: nat
  cr_conflicts_after :: "nat option"

definition valid_actions :: "string list" where
  "valid_actions = [''conflict'', ''binding'']"

definition cli_error_markers :: "string list" where
  "cli_error_markers = [''% Invalid input'', ''% Incomplete command'', ''% Ambiguous command'', ''% Unrecognized'']"

definition is_cli_error :: "string \<Rightarrow> bool" where
  "is_cli_error output = list_ex (\<lambda>m. contains m output) cli_error_markers"

subsection \<open>Parsers\<close>

text \<open>\<open>int(text)\<close> of a run of digits.\<close>

definition digits_int :: "string \<Rightarrow> int" where
  "digits_int s = int (digits_val s)"

definition all_digits :: "string \<Rightarrow> bool" where
  "all_digits s \<longleftrightarrow> s \<noteq> [] \<and> list_all is_digit s"

text \<open>One token of a VLAN list: a number, a range, or junk.\<close>

definition vlan_token :: "string \<Rightarrow> int list" where
  "vlan_token tok =
   (if all_digits tok then [digits_int tok]
    else case split_on CHR ''-'' tok of
        [a, b] \<Rightarrow>
          if all_digits a \<and> all_digits b then
            (let low = digits_int a; high = digits_int b
             in if 0 < low \<and> low \<le> high \<and> high \<le> 4094 then [low..high] else [])
          else []
      | _ \<Rightarrow> [])"

definition parse_vlan_list :: "string \<Rightarrow> int list" where
  "parse_vlan_list text =
     sort (remdups (filter (\<lambda>v. 1 \<le> v \<and> v \<le> 4094)
       (concat (map vlan_token (split_on CHR '','' (filter (\<lambda>c. c \<noteq> CHR '' '') text))))))"

definition upd_last :: "('a \<Rightarrow> 'a) \<Rightarrow> 'a list \<Rightarrow> 'a list" where
  "upd_last f xs = (if xs = [] then [] else butlast xs @ [f (last xs)])"

definition pool_re :: re where
  "pool_re = seqs [Star spc, lit ''Pool'', plus spc, Grp 1 (plus nsp), Star spc, lit '':'']"

definition count_re :: "string \<Rightarrow> re" where
  "count_re label = seqs [lit label, Star spc, lit '':'', Star spc, Grp 1 (plus dig)]"

definition range_re :: re where
  "range_re = seqs [Star spc, ipv4_re, plus spc, Grp 1 ipv4_re, plus spc, lit ''-'', plus spc, Grp 2 ipv4_re, plus spc, plus dig]"

definition pool_line :: "dhcp_pool list \<Rightarrow> string \<Rightarrow> dhcp_pool list" where
  "pool_line pools line = (case re_match pool_re line of
     Some m \<Rightarrow> pools @ [\<lparr>dp_name = group_text m 1, dp_total = None, dp_leased = None, dp_ranges = []\<rparr>]
   | None \<Rightarrow>
       if pools = [] then pools
       else (case re_search (count_re ''Total addresses'') line of
           Some m \<Rightarrow> upd_last (\<lambda>p. p\<lparr>dp_total := Some (digits_int (group_text m 1))\<rparr>) pools
         | None \<Rightarrow> (case re_search (count_re ''Leased addresses'') line of
             Some m \<Rightarrow> upd_last (\<lambda>p. p\<lparr>dp_leased := Some (digits_int (group_text m 1))\<rparr>) pools
           | None \<Rightarrow> (case re_match range_re line of
               Some m \<Rightarrow> upd_last (\<lambda>p. p\<lparr>dp_ranges := dp_ranges p @ [(group_text m 1, group_text m 2)]\<rparr>) pools
             | None \<Rightarrow> pools))))"

definition parse_dhcp_pools :: "string \<Rightarrow> dhcp_pool list" where
  "parse_dhcp_pools output = foldl pool_line [] (splitlines output)"

definition binding_re :: re where
  "binding_re = seqs [Star spc, Grp 1 ipv4_re, plus spc, Grp 2 (plus nsp), plus spc, Grp 3 (lazy_plus dot), plus spc,
     Grp 4 (alts [lit ''Automatic'', lit ''Manual'', lit ''On-demand'', lit ''Relay'']), Word_end, Grp 5 (Star dot), Eol]"

definition letter :: "char \<Rightarrow> bool" where
  "letter c \<longleftrightarrow> (let n = (of_char c :: nat) in (65 \<le> n \<and> n \<le> 90) \<or> (97 \<le> n \<and> n \<le> 122))"

definition interface_re :: re where
  "interface_re = seqs [Cls letter, Star (Cls (\<lambda>c. letter c \<or> c = CHR ''-'')), plus (Cls (\<lambda>c. is_digit c \<or> c = CHR ''/'' \<or> c = CHR ''.''))]"

definition binding_line :: "string \<Rightarrow> dhcp_binding option" where
  "binding_line line = (case re_match binding_re line of
     None \<Rightarrow> None
   | Some m \<Rightarrow>
       let tail = split_ws (group_text m 5)
       in Some \<lparr>db_ip = group_text m 1, db_client = group_text m 2, db_expiration = strip (group_text m 3),
            db_type = group_text m 4,
            db_state = (if tail \<noteq> [] \<and> hd tail \<in> set [''Active'', ''Expired'', ''Pending'', ''Declined''] then Some (hd tail) else None),
            db_interface = (if tail \<noteq> [] \<and> re_fullmatch interface_re (last tail) \<noteq> None then Some (last tail) else None)\<rparr>)"

definition parse_dhcp_bindings :: "string \<Rightarrow> dhcp_binding list" where
  "parse_dhcp_bindings output = List.map_filter binding_line (splitlines output)"

definition conflict_re :: re where
  "conflict_re = seqs [Star spc, Grp 1 ipv4_re, plus spc, nsp]"

definition parse_dhcp_conflicts :: "string \<Rightarrow> string list" where
  "parse_dhcp_conflicts output = List.map_filter (\<lambda>line. map_option (\<lambda>m. group_text m 1) (re_match conflict_re line)) (splitlines output)"

definition vlan_chars :: re where
  "vlan_chars = plus (Cls (\<lambda>c. is_digit c \<or> c = CHR '','' \<or> c = CHR ''-'' \<or> c = CHR '' ''))"

definition snooping_re :: re where
  "snooping_re = seqs [ilit ''configured on following VLANs:'', Star spc, optional (lit [CHR 0x0A]), Star spc, Grp 1 vlan_chars]"

definition parse_snooping :: "string \<Rightarrow> bool option \<times> int list" where
  "parse_snooping output =
   (if contains ''snooping is enabled'' (lower output) then Some True
    else if contains ''snooping is disabled'' (lower output) then Some False else None,
    case re_search snooping_re output of
      None \<Rightarrow> [] | Some m \<Rightarrow> parse_vlan_list (hd (split_on (CHR 0x0A) (group_text m 1))))"

definition arp_re :: re where
  "arp_re = seqs [Star spc, lit ''ip arp inspection vlan'', plus spc, Grp 1 vlan_chars, Star spc, Eol]"

definition source_guard_re :: re where
  "source_guard_re = seqs [Star spc, lit ''ip verify source'', Word_end]"

definition protection_line :: "int list \<times> bool \<Rightarrow> string \<Rightarrow> int list \<times> bool" where
  "protection_line s line = (case re_match arp_re line of
     Some m \<Rightarrow> (fst s @ parse_vlan_list (group_text m 1), snd s)
   | None \<Rightarrow> if re_match source_guard_re line \<noteq> None then (fst s, True) else s)"

definition parse_protection_config :: "string \<Rightarrow> int list \<times> bool" where
  "parse_protection_config output =
     (let s = foldl protection_line ([], False) (splitlines output) in (sort (remdups (fst s)), snd s))"

definition svi_re :: re where
  "svi_re = seqs [Star spc, lit ''ip address'', plus spc, Grp 1 ipv4_re, plus spc, Grp 2 ipv4_re, Star spc, Eol]"

definition helper_re :: re where
  "helper_re = seqs [Star spc, lit ''ip helper-address'', plus spc, Grp 1 ipv4_re, Star spc, Eol]"

definition svi_line ::
  "string option \<times> string option \<times> string list \<Rightarrow> string \<Rightarrow> string option \<times> string option \<times> string list" where
  "svi_line s line = (case s of (ip, m0, helpers) \<Rightarrow>
     (case re_match svi_re line of
        Some m \<Rightarrow> (Some (group_text m 1), Some (group_text m 2), helpers)
      | None \<Rightarrow> (case re_match helper_re line of
          Some m \<Rightarrow> (ip, m0, helpers @ [group_text m 1])
        | None \<Rightarrow> s)))"

definition parse_svi_config :: "string \<Rightarrow> string option \<times> string option \<times> string list" where
  "parse_svi_config output = foldl svi_line (None, None, []) (splitlines output)"

subsection \<open>Who serves DHCP, and whose bindings they are\<close>

definition ip_in_range :: "ipv4 \<Rightarrow> string \<Rightarrow> string \<Rightarrow> bool" where
  "ip_in_range ip low high = (case (ipv4_address low, ipv4_address high) of
     (Some l, Some h) \<Rightarrow> l \<le> ip \<and> ip \<le> h | _ \<Rightarrow> False)"

definition classify_role :: "string option \<Rightarrow> string list \<Rightarrow> dhcp_pool list \<Rightarrow> dhcp_role" where
  "classify_role svi_ip helpers pools = (case svi_ip of
     None \<Rightarrow> External
   | Some s \<Rightarrow> (case ipv4_address s of
       None \<Rightarrow> External
     | Some svi \<Rightarrow>
         if list_ex (\<lambda>p. list_ex (\<lambda>(low, high). ip_in_range svi low high) (dp_ranges p)) pools then Local_server
         else if helpers \<noteq> [] then Relay else External))"

definition svi_network :: "string option \<Rightarrow> string option \<Rightarrow> (ipv4 \<times> nat) option" where
  "svi_network svi_ip svi_mask = (case (truthy svi_ip, truthy svi_mask) of
     (Some ip, Some m) \<Rightarrow> ipv4_network ip m | _ \<Rightarrow> None)"

definition belongs_to_vlan :: "int \<Rightarrow> (ipv4 \<times> nat) option \<Rightarrow> dhcp_binding \<Rightarrow> bool" where
  "belongs_to_vlan vlan network b \<longleftrightarrow>
     lower (case db_interface b of None \<Rightarrow> [] | Some i \<Rightarrow> i) = ''vlan'' @ show_int vlan
     \<or> (case (network, ipv4_address (db_ip b)) of (Some net, Some a) \<Rightarrow> in_network a net | _ \<Rightarrow> False)"

definition select_ap_bindings ::
  "dhcp_binding list \<Rightarrow> int \<Rightarrow> string option \<Rightarrow> string option \<Rightarrow> dhcp_binding list" where
  "select_ap_bindings bindings vlan svi_ip svi_mask = filter (belongs_to_vlan vlan (svi_network svi_ip svi_mask)) bindings"

subsection \<open>The diagnostics\<close>

definition diag_commands :: "int \<Rightarrow> string list" where
  "diag_commands vlan =
     [''show ip dhcp pool'', ''show ip dhcp binding'', ''show ip dhcp conflict'', ''show ip dhcp snooping'',
      ''show running-config | include arp inspection|verify source'',
      ''show running-config interface vlan '' @ show_int vlan]"

text \<open>The commands sent one after the other; \<open>None\<close> as soon as the session raises.\<close>

fun exec_all ::
  "(string \<Rightarrow> 'w \<Rightarrow> string option \<times> 'w) \<Rightarrow> string list \<Rightarrow> 'w \<Rightarrow> string list option \<times> 'w \<times> string list" where
  "exec_all exec [] w = (Some [], w, [])"
| "exec_all exec (cmd # cmds) w = (case exec cmd w of
     (None, w1) \<Rightarrow> (None, w1, [cmd])
   | (Some output, w1) \<Rightarrow>
       (let (outs, w2, sent) = exec_all exec cmds w1 in (map_option (\<lambda>os. output # os) outs, w2, cmd # sent)))"

text \<open>An output is read unless the switch rejected its command.\<close>

definition diagnostics_of :: "int \<Rightarrow> string list \<Rightarrow> dhcp_diagnostics" where
  "diagnostics_of vlan outs =
   (let read = (\<lambda>i. if is_cli_error (outs ! i) then None else Some (outs ! i));
        pools = (case read 0 of None \<Rightarrow> [] | Some out \<Rightarrow> parse_dhcp_pools out);
        bindings = (case read 1 of None \<Rightarrow> [] | Some out \<Rightarrow> parse_dhcp_bindings out);
        (snooping, snooping_vlans) = (case read 3 of None \<Rightarrow> (None, []) | Some out \<Rightarrow> parse_snooping out);
        (arp_vlans, guard) = (case read 4 of None \<Rightarrow> ([], False) | Some out \<Rightarrow> parse_protection_config out);
        (svi_ip, svi_mask, helpers) = (case read 5 of None \<Rightarrow> (None, None, []) | Some out \<Rightarrow> parse_svi_config out)
    in \<lparr>dd_vlan = vlan, dd_role = classify_role svi_ip helpers pools, dd_pools = pools, dd_bindings = bindings,
        dd_conflicts = (case read 2 of None \<Rightarrow> [] | Some out \<Rightarrow> parse_dhcp_conflicts out),
        dd_helpers = helpers, dd_svi_ip = svi_ip, dd_svi_mask = svi_mask, dd_snooping = snooping,
        dd_snooping_vlans = snooping_vlans, dd_arp_vlans = arp_vlans, dd_source_guard = guard,
        dd_unsupported = map fst (filter (\<lambda>(cmd, out). is_cli_error out) (zip (diag_commands vlan) outs)),
        dd_ap_bindings = select_ap_bindings bindings vlan svi_ip svi_mask\<rparr>)"

definition collect_diagnostics ::
  "(string \<Rightarrow> 'w \<Rightarrow> string option \<times> 'w) \<Rightarrow> int \<Rightarrow> 'w \<Rightarrow> dhcp_diagnostics option \<times> 'w \<times> string list" where
  "collect_diagnostics exec vlan w =
     (let (outs, w', sent) = exec_all exec (diag_commands vlan) w in (map_option (diagnostics_of vlan) outs, w', sent))"

subsection \<open>The plan\<close>

definition conflict_command :: string where
  "conflict_command = ''clear ip dhcp conflict *''"

definition binding_command :: "dhcp_binding \<Rightarrow> string" where
  "binding_command b = ''clear ip dhcp binding '' @ db_ip b"

definition plan_conflicts :: "dhcp_diagnostics \<Rightarrow> string list \<Rightarrow> clear_plan \<Rightarrow> clear_plan" where
  "plan_conflicts diag actions plan =
   (if ''conflict'' \<notin> set actions then plan
    else if dd_conflicts diag \<noteq> [] then
      plan\<lparr>pl_commands := pl_commands plan @ [conflict_command], pl_conflicts := length (dd_conflicts diag)\<rparr>
    else plan\<lparr>pl_skipped := pl_skipped plan @ [No_conflicts]\<rparr>)"

definition plan_bindings :: "dhcp_diagnostics \<Rightarrow> string list \<Rightarrow> int \<Rightarrow> clear_plan \<Rightarrow> clear_plan" where
  "plan_bindings diag actions max_bindings plan =
   (if ''binding'' \<notin> set actions then plan
    else
      let candidates = filter (\<lambda>b. db_type b = ''Automatic'') (dd_ap_bindings diag)
      in if candidates = [] then plan\<lparr>pl_skipped := pl_skipped plan @ [No_bindings (dd_vlan diag)]\<rparr>
         else if max_bindings < int (length candidates)
         then plan\<lparr>pl_skipped := pl_skipped plan @ [Over_the_cap (length candidates) (dd_vlan diag) max_bindings]\<rparr>
         else plan\<lparr>pl_commands := pl_commands plan @ map binding_command candidates,
                   pl_bindings := length candidates\<rparr>)"

definition plan_clear :: "dhcp_diagnostics \<Rightarrow> string list \<Rightarrow> int \<Rightarrow> clear_plan" where
  "plan_clear diag actions max_bindings =
   (let unknown = filter (\<lambda>a. a \<notin> set valid_actions) actions;
        known = filter (\<lambda>a. a \<in> set valid_actions) actions;
        plan = \<lparr>pl_commands = [], pl_skipped = (if unknown = [] then [] else [Unknown_actions (sort (remdups unknown))]),
                pl_conflicts = 0, pl_bindings = 0\<rparr>
    in if known = [] then plan\<lparr>pl_skipped := pl_skipped plan @ [No_actions]\<rparr>
       else if dd_role diag \<noteq> Local_server
       then plan\<lparr>pl_skipped := pl_skipped plan @ [Not_the_server (dd_vlan diag) (dd_role diag)]\<rparr>
       else plan_bindings diag known max_bindings (plan_conflicts diag known plan))"

subsection \<open>Running the cleanup\<close>

definition reject_detail :: "string \<Rightarrow> string" where
  "reject_detail output = (case find (\<lambda>ln. CHR ''%'' \<in> set ln) (splitlines output) of
     None \<Rightarrow> ''rejected'' | Some ln \<Rightarrow> strip ln)"

text \<open>The loop over the planned commands: a raise ends it, a rejected command is reported and skipped.\<close>

fun run_clears ::
  "(string \<Rightarrow> 'w \<Rightarrow> string option \<times> 'w) \<Rightarrow> string list \<Rightarrow> 'w \<Rightarrow> clear_result \<Rightarrow> clear_result \<times> 'w \<times> string list" where
  "run_clears exec [] w res = (res, w, [])"
| "run_clears exec (cmd # cmds) w res = (case exec cmd w of
     (None, w1) \<Rightarrow> (res\<lparr>cr_errors := cr_errors res @ [Command_raised cmd]\<rparr>, w1, [cmd])
   | (Some output, w1) \<Rightarrow>
       (let res1 = (if is_cli_error output
                    then res\<lparr>cr_errors := cr_errors res @ [Command_rejected cmd (reject_detail output)]\<rparr>
                    else if starts_with ''clear ip dhcp conflict'' cmd
                    then res\<lparr>cr_conflicts_cleared := pl_conflicts (cr_plan res)\<rparr>
                    else res\<lparr>cr_bindings_cleared := cr_bindings_cleared res + 1\<rparr>);
            (res2, w2, sent) = run_clears exec cmds w1 res1
        in (res2, w2, cmd # sent)))"

text \<open>\<open>run_dhcp_diagnostics\<close> and \<open>run_dhcp_clear\<close> on a connected session (\<open>connected\<close> is whether there is one).
  The last component is the outcome counted in \<open>switch_ops_total\<close>.\<close>

definition run_dhcp_diagnostics ::
  "(string \<Rightarrow> 'w \<Rightarrow> string option \<times> 'w) \<Rightarrow> bool \<Rightarrow> int \<Rightarrow> 'w \<Rightarrow> dhcp_diagnostics option \<times> 'w \<times> string list \<times> string" where
  "run_dhcp_diagnostics exec connected vlan w =
   (if \<not> connected then (None, w, [], ''error'')
    else (let (diag, w', sent) = collect_diagnostics exec vlan w
          in (diag, w', sent, if diag = None then ''error'' else ''success'')))"

definition run_dhcp_clear ::
  "(string \<Rightarrow> 'w \<Rightarrow> string option \<times> 'w) \<Rightarrow> bool \<Rightarrow> int \<Rightarrow> string list \<Rightarrow> int \<Rightarrow> bool \<Rightarrow> 'w
   \<Rightarrow> clear_result option \<times> 'w \<times> string list \<times> string" where
  "run_dhcp_clear exec connected vlan actions max_bindings dry_run w =
   (if \<not> connected then (None, w, [], ''error'')
    else (case collect_diagnostics exec vlan w of
        (None, w1, sent1) \<Rightarrow> (None, w1, sent1, ''error'')
      | (Some diag, w1, sent1) \<Rightarrow>
          let plan = plan_clear diag actions max_bindings;
              res = \<lparr>cr_dry_run = dry_run, cr_role = dd_role diag, cr_plan = plan, cr_conflicts_cleared = 0,
                     cr_bindings_cleared = 0, cr_errors = [], cr_bindings_before = length (dd_ap_bindings diag),
                     cr_bindings_after = None, cr_conflicts_before = length (dd_conflicts diag), cr_conflicts_after = None\<rparr>
          in if dry_run \<or> pl_commands plan = [] then (Some res, w1, sent1, ''success'')
             else
               (let (res1, w2, sent2) = run_clears exec (pl_commands plan) w1 res;
                    (after, w3, sent3) = collect_diagnostics exec vlan w2;
                    res2 = (case after of
                        None \<Rightarrow> res1
                      | Some d \<Rightarrow> res1\<lparr>cr_bindings_after := Some (length (dd_ap_bindings d)),
                                       cr_conflicts_after := Some (length (dd_conflicts d))\<rparr>)
                in (Some res2, w3, sent1 @ sent2 @ sent3, if cr_errors res2 \<noteq> [] then ''error'' else ''success''))))"

subsection \<open>What the binding parser lets through\<close>

definition ip_char :: "char \<Rightarrow> bool" where
  "ip_char c \<longleftrightarrow> is_digit c \<or> c = CHR ''.''"

lemmas re_defs = plus_def lazy_plus_def optional_def one_to_three_def dig_def spc_def nsp_def dot_def lit_def

lemma ipv4_re_over: "over ip_char ipv4_re"
  by (simp add: ipv4_re_def re_defs ip_char_def eval_nat_numeral)

lemma over_mono: "over P r \<Longrightarrow> (\<And>c. P c \<Longrightarrow> Q c) \<Longrightarrow> over Q r"
  by (induction r) auto

definition first_group_ip :: "nat \<Rightarrow> char \<Rightarrow> bool" where
  "first_group_ip n c \<longleftrightarrow> n = 1 \<longrightarrow> ip_char c"

lemma first_group_over: "over (first_group_ip (Suc 0)) ipv4_re" "n \<noteq> Suc 0 \<Longrightarrow> first_group_ip n c"
  by (rule over_mono [OF ipv4_re_over]) (simp_all add: first_group_ip_def)

lemma groups_over_ipv4: "groups_over Q ipv4_re"
  by (simp add: ipv4_re_def re_defs eval_nat_numeral)

lemma binding_re_groups: "groups_over first_group_ip binding_re"
  by (simp add: binding_re_def first_group_over groups_over_ipv4 re_defs)

lemma binding_line_ip: "binding_line line = Some b \<Longrightarrow> \<forall>c \<in> set (db_ip b). ip_char c"
proof -
  assume "binding_line line = Some b"
  then obtain m where m: "re_match binding_re line = Some m" "db_ip b = group_text m 1"
    by (auto simp: binding_line_def Let_def split: option.splits)
  show ?thesis
  proof (cases "map_of m 1")
    case None
    with m show ?thesis by (simp add: group_text_def)
  next
    case (Some w)
    from re_match_group [OF m(1) binding_re_groups Some] m(2) Some show ?thesis
      by (simp add: group_text_def first_group_ip_def)
  qed
qed

lemma parse_dhcp_bindings_ip: "b \<in> set (parse_dhcp_bindings output) \<Longrightarrow> \<forall>c \<in> set (db_ip b). ip_char c"
  using binding_line_ip by (auto simp: parse_dhcp_bindings_def List.map_filter_def)

subsection \<open>The shape of a plan\<close>

definition plan_candidates :: "dhcp_diagnostics \<Rightarrow> dhcp_binding list" where
  "plan_candidates diag = filter (\<lambda>b. db_type b = ''Automatic'') (dd_ap_bindings diag)"

text \<open>A plan is an optional conflict command and then either no binding command or all candidates'.\<close>

lemma plan_clear_shape:
  obtains cs bs where "pl_commands (plan_clear diag actions max_bindings) = cs @ map binding_command bs"
    "cs = [] \<and> pl_conflicts (plan_clear diag actions max_bindings) = 0
     \<or> cs = [conflict_command] \<and> pl_conflicts (plan_clear diag actions max_bindings) = length (dd_conflicts diag) \<and> dd_conflicts diag \<noteq> []"
    "pl_bindings (plan_clear diag actions max_bindings) = length bs"
    "bs = [] \<or> bs = plan_candidates diag \<and> int (length bs) \<le> max_bindings"
    "dd_role diag = Local_server \<or> cs = [] \<and> bs = []"
proof -
  let ?p = "plan_clear diag actions max_bindings"
  have "\<exists>cs bs. pl_commands ?p = cs @ map binding_command bs
    \<and> (cs = [] \<and> pl_conflicts ?p = 0
      \<or> cs = [conflict_command] \<and> pl_conflicts ?p = length (dd_conflicts diag) \<and> dd_conflicts diag \<noteq> [])
    \<and> pl_bindings ?p = length bs \<and> (bs = [] \<or> bs = plan_candidates diag \<and> int (length bs) \<le> max_bindings)
    \<and> (dd_role diag = Local_server \<or> cs = [] \<and> bs = [])"
  proof (cases "filter (\<lambda>a. a \<in> set valid_actions) actions = [] \<or> dd_role diag \<noteq> Local_server")
    case True
    then show ?thesis by (intro exI [of _ "[]"]) (auto simp: plan_clear_def Let_def)
  next
    case False
    let ?known = "filter (\<lambda>a. a \<in> set valid_actions) actions"
    let ?cs = "if ''conflict'' \<in> set ?known \<and> dd_conflicts diag \<noteq> [] then [conflict_command] else []"
    let ?bs = "if ''binding'' \<in> set ?known \<and> int (length (plan_candidates diag)) \<le> max_bindings then plan_candidates diag else []"
    from False show ?thesis
      by (intro exI [of _ ?cs] exI [of _ ?bs])
        (auto simp: plan_clear_def plan_bindings_def plan_conflicts_def Let_def plan_candidates_def [symmetric])
  qed
  then show ?thesis using that by blast
qed

lemma diagnostics_ap_bindings:
  assumes "b \<in> set (dd_ap_bindings (diagnostics_of vlan outs))"
  shows "b \<in> set (parse_dhcp_bindings (outs ! 1)) \<and> belongs_to_vlan vlan
    (svi_network (dd_svi_ip (diagnostics_of vlan outs)) (dd_svi_mask (diagnostics_of vlan outs))) b"
  using assms by (auto simp: diagnostics_of_def select_ap_bindings_def Let_def split: prod.splits if_splits)

subsection \<open>What is sent\<close>

lemma exec_all_sent:
  assumes "exec_all exec cmds w = (outs, w', sent)"
  shows "set sent \<subseteq> set cmds" "outs \<noteq> None \<Longrightarrow> sent = cmds"
proof -
  have "set sent \<subseteq> set cmds \<and> (outs \<noteq> None \<longrightarrow> sent = cmds)"
    using assms by (induction cmds arbitrary: w outs w' sent) (auto split: prod.splits option.splits, blast+)
  then show "set sent \<subseteq> set cmds" "outs \<noteq> None \<Longrightarrow> sent = cmds" by auto
qed

lemma collect_diagnostics_sent:
  assumes "collect_diagnostics exec vlan w = (diag, w', sent)"
  shows "set sent \<subseteq> set (diag_commands vlan)"
    "diag = Some d \<Longrightarrow> sent = diag_commands vlan \<and> (\<exists>outs. d = diagnostics_of vlan outs)"
  using assms exec_all_sent [of exec "diag_commands vlan" w]
  by (auto simp: collect_diagnostics_def split: prod.splits)

lemma run_clears_ok:
  assumes "run_clears exec cmds w res = (res', w', sent)"
  shows "(\<exists>rest. cmds = sent @ rest) \<and> cr_plan res' = cr_plan res \<and> (\<exists>es. cr_errors res' = cr_errors res @ es)"
  using assms
proof (induction cmds arbitrary: w res res' w' sent)
  case (Cons cmd cmds)
  show ?case
  proof (cases "exec cmd w")
    case (Pair out w1)
    with Cons.prems Cons.IH show ?thesis
      by (cases out) (fastforce split: prod.splits if_splits)+
  qed
qed simp

lemma run_clears_complete:
  assumes "run_clears exec cmds w res = (res', w', sent)" "cr_errors res' = []"
  shows "sent = cmds
    \<and> cr_bindings_cleared res' = cr_bindings_cleared res + length (filter (\<lambda>c. \<not> starts_with ''clear ip dhcp conflict'' c) cmds)
    \<and> cr_conflicts_cleared res' = (if list_ex (starts_with ''clear ip dhcp conflict'') cmds
        then pl_conflicts (cr_plan res) else cr_conflicts_cleared res)"
  using assms
proof (induction cmds arbitrary: w res res' w' sent)
  case (Cons cmd cmds)
  obtain out w1 where ex: "exec cmd w = (out, w1)" by fastforce
  show ?case
  proof (cases out)
    case None
    with Cons.prems ex show ?thesis by auto
  next
    case (Some out_text)
    define res1 where "res1 = (if is_cli_error out_text
        then res\<lparr>cr_errors := cr_errors res @ [Command_rejected cmd (reject_detail out_text)]\<rparr>
        else if starts_with ''clear ip dhcp conflict'' cmd then res\<lparr>cr_conflicts_cleared := pl_conflicts (cr_plan res)\<rparr>
        else res\<lparr>cr_bindings_cleared := cr_bindings_cleared res + 1\<rparr>)"
    obtain res2 w2 sent2 where rec: "run_clears exec cmds w1 res1 = (res2, w2, sent2)" by (cases "run_clears exec cmds w1 res1")
    have out: "res' = res2" "sent = cmd # sent2" using Cons.prems(1) ex Some rec by (simp_all add: res1_def)
    have "cr_errors res1 = []" using run_clears_ok [OF rec] Cons.prems(2) out by auto
    then have "\<not> is_cli_error out_text" by (auto simp: res1_def split: if_splits)
    with Cons.IH [OF rec] Cons.prems(2) out show ?thesis by (auto simp: res1_def)
  qed
qed simp

lemma conflict_prefix [simp]:
  "starts_with ''clear ip dhcp conflict'' conflict_command" "\<not> starts_with ''clear ip dhcp conflict'' (binding_command b)"
  by (simp_all add: starts_with_def conflict_command_def binding_command_def)

subsection \<open>A switch that serves DHCP\<close>

definition dhcp_switch_output :: "string \<Rightarrow> string" where
  "dhcp_switch_output cmd =
   (if cmd = ''show ip dhcp pool'' then ''Pool AP :'' @ [CHR 0x0A] @ '' 10.1.3.9 10.1.3.1 - 10.1.3.9 4''
    else if cmd = ''show ip dhcp binding'' then ''10.1.3.7 aa Mar 01 Automatic Active Vlan20''
    else if cmd = ''show ip dhcp conflict'' then ''10.1.3.8 Ping''
    else if cmd = ''show running-config interface vlan 20'' then '' ip address 10.1.3.2 255.255.255.0''
    else [])"

definition dhcp_exec :: "string \<Rightarrow> unit \<Rightarrow> string option \<times> unit" where
  "dhcp_exec cmd w = (Some (dhcp_switch_output cmd), w)"


subsection \<open>Properties\<close>

text \<open>What a command of a plan may be.\<close>

definition confined :: "int \<Rightarrow> string list \<Rightarrow> string \<Rightarrow> bool" where
  "confined vlan outs c \<longleftrightarrow> c = ''clear ip dhcp conflict *'' \<or>
     list_ex (\<lambda>b. db_type b = ''Automatic''
        \<and> belongs_to_vlan vlan (svi_network (dd_svi_ip (diagnostics_of vlan outs)) (dd_svi_mask (diagnostics_of vlan outs))) b
        \<and> c = ''clear ip dhcp binding '' @ db_ip b \<and> list_all (\<lambda>ch. is_digit ch \<or> ch = CHR ''.'') (db_ip b))
       (parse_dhcp_bindings (outs ! 1))"

lemma plan_commands_confined:
  assumes "c \<in> set (pl_commands (plan_clear (diagnostics_of vlan outs) actions max_bindings))"
  shows "dd_role (diagnostics_of vlan outs) = Local_server" "confined vlan outs c"
proof -
  have "dd_role (diagnostics_of vlan outs) = Local_server \<and> confined vlan outs c"
  proof (cases rule: plan_clear_shape [of "diagnostics_of vlan outs" actions max_bindings])
    case (1 cs bs)
    from assms 1(1) consider "c \<in> set cs" | b where "b \<in> set bs" "c = binding_command b" by auto
    then show ?thesis
    proof cases
      case 1
      with \<open>cs = [] \<and> _ \<or> _\<close> \<open>dd_role _ = _ \<or> _\<close> show ?thesis by (auto simp: conflict_command_def confined_def)
    next
      case (2 b)
      with \<open>bs = [] \<or> _\<close> have "b \<in> set (dd_ap_bindings (diagnostics_of vlan outs))" "db_type b = ''Automatic''"
        by (auto simp: plan_candidates_def)
      with diagnostics_ap_bindings [of b vlan outs] parse_dhcp_bindings_ip [of b "outs ! 1"] 2 \<open>dd_role _ = _ \<or> _\<close>
      show ?thesis by (auto simp: binding_command_def ip_char_def confined_def list_ex_iff list_all_iff)
    qed
  qed
  then show "dd_role (diagnostics_of vlan outs) = Local_server" "confined vlan outs c" by auto
qed

text \<open>C9: whatever a switch printed, cleanup plans only two shapes of command, and none unless the switch is
  provably the DHCP server of the VLAN: the fixed conflict command, and the binding command for the address of an
  automatic lease that the switch's own table lists and that belongs to the VLAN; that address consists of digits
  and dots only, so no output of the switch can smuggle another command in.\<close>

theorem clear_commands_are_confined:
  "let plan = plan_clear (diagnostics_of vlan outs) actions max_bindings
   in list_all (confined vlan outs) (pl_commands plan)
      \<and> (pl_commands plan = [] \<or> dd_role (diagnostics_of vlan outs) = Local_server)"
proof (cases "pl_commands (plan_clear (diagnostics_of vlan outs) actions max_bindings)")
  case (Cons c cs)
  then have "dd_role (diagnostics_of vlan outs) = Local_server"
    using plan_commands_confined(1) [of c vlan outs actions max_bindings] by simp
  then show ?thesis using plan_commands_confined(2) by (simp add: Let_def list_all_iff)
qed simp

text \<open>A cleanup run first reads the switch, plans from that very read, and then sends a prefix of the plan
  (nothing of it in a dry run), followed only by show commands; when it reports no error the whole plan was
  sent and every lease and conflict of the plan is counted as cleared.\<close>

theorem cleanup_sends_only_its_plan:
  assumes "run_dhcp_clear exec connected vlan actions max_bindings dry_run w = (Some res, w', sent, op)"
  shows "\<exists>outs clears rest after.
      cr_plan res = plan_clear (diagnostics_of vlan outs) actions max_bindings
    \<and> sent = diag_commands vlan @ clears @ after \<and> pl_commands (cr_plan res) = clears @ rest
    \<and> set after \<subseteq> set (diag_commands vlan) \<and> (dry_run \<longrightarrow> clears = [])
    \<and> (\<not> dry_run \<and> cr_errors res = [] \<longrightarrow> rest = []
        \<and> cr_bindings_cleared res = pl_bindings (cr_plan res) \<and> cr_conflicts_cleared res = pl_conflicts (cr_plan res))"
proof -
  obtain diag w1 sent1 where first: "collect_diagnostics exec vlan w = (Some diag, w1, sent1)" "connected"
    using assms by (auto simp: run_dhcp_clear_def split: if_splits option.splits prod.splits)
  obtain outs where sent1: "sent1 = diag_commands vlan" "diag = diagnostics_of vlan outs"
    using collect_diagnostics_sent(2) [OF first(1) refl] by blast
  define plan where "plan = plan_clear diag actions max_bindings"
  obtain cs bs where shape: "pl_commands plan = cs @ map binding_command bs" "pl_bindings plan = length bs"
    "cs = [] \<and> pl_conflicts plan = 0 \<or> cs = [conflict_command] \<and> pl_conflicts plan = length (dd_conflicts diag)"
    unfolding plan_def by (cases rule: plan_clear_shape [of diag actions max_bindings]) blast
  show ?thesis
  proof (cases "dry_run \<or> pl_commands plan = []")
    case True
    then have r: "cr_plan res = plan" "sent = sent1" "cr_bindings_cleared res = 0" "cr_conflicts_cleared res = 0"
      using assms first by (auto simp: run_dhcp_clear_def Let_def plan_def)
    with True shape sent1 plan_def show ?thesis
      by (intro exI [of _ outs] exI [of _ "[]"] exI [of _ "pl_commands plan"] exI [of _ "[]"]) auto
  next
    case False
    define res0 where "res0 = \<lparr>cr_dry_run = dry_run, cr_role = dd_role diag, cr_plan = plan, cr_conflicts_cleared = 0,
      cr_bindings_cleared = 0, cr_errors = [], cr_bindings_before = length (dd_ap_bindings diag),
      cr_bindings_after = None, cr_conflicts_before = length (dd_conflicts diag), cr_conflicts_after = None\<rparr>"
    obtain res1 w2 sent2 where clears: "run_clears exec (pl_commands plan) w1 res0 = (res1, w2, sent2)"
      by (cases "run_clears exec (pl_commands plan) w1 res0")
    obtain after w3 sent3 where last_read: "collect_diagnostics exec vlan w2 = (after, w3, sent3)"
      by (cases "collect_diagnostics exec vlan w2")
    have r: "cr_plan res = cr_plan res1" "cr_errors res = cr_errors res1" "cr_bindings_cleared res = cr_bindings_cleared res1"
      "cr_conflicts_cleared res = cr_conflicts_cleared res1" "sent = sent1 @ sent2 @ sent3"
      using assms first False clears last_read
      by (auto simp: run_dhcp_clear_def Let_def res0_def plan_def split: option.splits)
    obtain rest where rest: "pl_commands plan = sent2 @ rest" "cr_plan res1 = plan"
      using run_clears_ok [OF clears] by (auto simp: res0_def)
    have "rest = [] \<and> cr_bindings_cleared res1 = pl_bindings plan \<and> cr_conflicts_cleared res1 = pl_conflicts plan"
      if "cr_errors res1 = []"
      using run_clears_complete [OF clears that] rest shape
      by (auto simp: res0_def list_ex_iff comp_def)
    with r rest sent1 plan_def collect_diagnostics_sent(1) [OF last_read] False show ?thesis
      by (intro exI [of _ outs] exI [of _ sent2] exI [of _ rest] exI [of _ sent3]) auto
  qed
qed

theorem cleanup_sends_only_its_plan_witness:
  "\<exists>clears after. fst (snd (snd (run_dhcp_clear dhcp_exec True 20 [''binding''] 50 True ()))) = diag_commands 20 @ clears @ after
     \<and> clears = []"
proof -
  obtain w' sent op res where run: "run_dhcp_clear dhcp_exec True 20 [''binding''] 50 True () = (Some res, w', sent, op)"
    by (simp add: run_dhcp_clear_def collect_diagnostics_def diag_commands_def dhcp_exec_def Let_def)
  from cleanup_sends_only_its_plan [OF run] run show ?thesis by auto
qed


subsection \<open>VLAN lists\<close>

text \<open>How a switch prints a list of VLAN ranges.\<close>

definition render_vlans :: "nat \<times> nat \<Rightarrow> string" where
  "render_vlans r = (if fst r = snd r then show_nat (fst r) else show_nat (fst r) @ ''-'' @ show_nat (snd r))"

lemma all_digits_show_nat [simp]: "all_digits (show_nat n)"
  using show_nat_digits by (simp add: all_digits_def list_all_iff)

lemma digits_int_show_nat [simp]: "digits_int (show_nat n) = int n"
  by (simp add: digits_int_def str_simps)

lemma show_nat_chars: "c \<in> set (show_nat n) \<Longrightarrow> c \<noteq> CHR ''-'' \<and> c \<noteq> CHR '','' \<and> c \<noteq> CHR '' ''"
  using show_nat_digits [of n] by (auto simp: is_digit_def)

lemma vlan_token_render:
  assumes "1 \<le> lo" "lo \<le> hi" "hi \<le> 4094"
  shows "vlan_token (render_vlans (lo, hi)) = [int lo..int hi]"
proof (cases "lo = hi")
  case False
  have "split_on CHR ''-'' (show_nat lo @ ''-'' @ show_nat hi) = [show_nat lo, show_nat hi]"
    using show_nat_chars [of "CHR ''-''" lo] show_nat_chars [of "CHR ''-''" hi]
    by (cases "CHR ''-'' \<in> set (show_nat lo)"; cases "CHR ''-'' \<in> set (show_nat hi)") (simp_all add: split_on_append_sep split_on_no_sep)
  moreover have "\<not> all_digits (show_nat lo @ ''-'' @ show_nat hi)" by (simp add: all_digits_def is_digit_def)
  ultimately show ?thesis using False assms by (simp add: vlan_token_def render_vlans_def)
qed (simp add: vlan_token_def render_vlans_def)

lemma render_vlans_chars: "c \<in> set (render_vlans r) \<Longrightarrow> c \<noteq> CHR '','' \<and> c \<noteq> CHR '' ''"
  using show_nat_chars by (fastforce simp: render_vlans_def split: if_splits)

lemma join_no_space:
  "(\<forall>w \<in> set ws. \<forall>c \<in> set w. c \<noteq> CHR '' '') \<Longrightarrow> filter (\<lambda>c. c \<noteq> CHR '' '') (join '','' ws) = join '','' ws"
proof (induction ws)
  case (Cons w ws)
  then show ?case by (cases ws) (simp_all add: filter_id_conv)
qed simp

definition vlan_ranges_ok :: "(nat \<times> nat) list \<Rightarrow> bool" where
  "vlan_ranges_ok rs = list_all (\<lambda>r. 1 \<le> fst r \<and> fst r \<le> snd r \<and> snd r \<le> 4094) rs"

text \<open>Reading back a printed list of VLAN ranges, overlapping or not, gives exactly the VLANs of the ranges,
  ascending and each once.\<close>

theorem vlan_list_roundtrip:
  assumes "vlan_ranges_ok rs"
  shows "parse_vlan_list (join '','' (map render_vlans rs)) =
    sorted_list_of_set (\<Union>r \<in> set rs. {int (fst r)..int (snd r)})"
proof (cases "rs = []")
  case True
  then show ?thesis by (simp add: parse_vlan_list_def vlan_token_def all_digits_def)
next
  case False
  have "vlan_token (render_vlans r) = [int (fst r)..int (snd r)]" if "r \<in> set rs" for r
    using that assms vlan_token_render [of "fst r" "snd r"] by (simp add: vlan_ranges_ok_def list_all_iff)
  then have tokens: "map vlan_token (map render_vlans rs) = map (\<lambda>r. [int (fst r)..int (snd r)]) rs" by simp
  have "split_on CHR '','' (filter (\<lambda>c. c \<noteq> CHR '' '') (join '','' (map render_vlans rs))) = map render_vlans rs"
    using False render_vlans_chars by (subst join_no_space) (fastforce intro!: split_on_join)+
  then have parse: "parse_vlan_list (join '','' (map render_vlans rs)) =
    sort (remdups (filter (\<lambda>v. 1 \<le> v \<and> v \<le> 4094) (concat (map (\<lambda>r. [int (fst r)..int (snd r)]) rs))))"
    by (simp only: parse_vlan_list_def tokens)
  have keep: "filter (\<lambda>v. 1 \<le> v \<and> v \<le> 4094) (concat (map (\<lambda>r. [int (fst r)..int (snd r)]) rs))
    = concat (map (\<lambda>r. [int (fst r)..int (snd r)]) rs)"
    using assms by (auto simp: filter_id_conv vlan_ranges_ok_def list_all_iff)
  show ?thesis
    unfolding parse keep sorted_list_of_set_sort_remdups [symmetric] by simp
qed

theorem vlan_list_roundtrip_witness:
  "parse_vlan_list (join '','' (map render_vlans [(20, 20), (30, 32), (31, 33)])) = [20, 30, 31, 32, 33]"
proof -
  have "(\<Union>r \<in> set [(20, 20), (30, 32), (31, 33)]. {int (fst r)..int (snd r)}) = set [20, 30, 31, 32, 33]"
    by auto
  then have "parse_vlan_list (join '','' (map render_vlans [(20, 20), (30, 32), (31, 33)])) = sorted_list_of_set (set [20, 30, 31, 32, 33])"
    by (subst vlan_list_roundtrip) (simp_all only: vlan_ranges_ok_def, simp)
  then show ?thesis by simp
qed

end
