(* ===== verification/Ap_Registry.thy ===== *)
theory Ap_Registry
  imports Prelude
begin

section \<open>The registry of access points (app/domains/inventory/ap_registry.py)\<close>

text \<open>
  The table remembers every access point a switch ever reported. A CDP scan (\<open>ap_info\<close> rows, a
  parameter) is merged with it: what answered now, and what is known, recent and silent (hung).
  Instants are seconds; the id of a new row comes from \<open>new_id\<close> applied to the size of the table.
\<close>

subsection \<open>Rows\<close>

record ap_info =
  ai_mac :: string
  ai_port :: string
  ai_vlan :: int
  ai_ip :: "string option"
  ai_cdp_name :: "string option"
  ai_platform :: "string option"
  ai_poe_power :: "string option"
  ai_poe_status :: "string option"

record ap_row =
  ar_id :: uid
  ar_switch_id :: uid
  ar_mac :: string
  ar_port :: string
  ar_cdp_name :: "string option"
  ar_last_seen_at :: instant
  ar_active :: bool
  ar_excluded :: bool
  ar_failures :: int
  ar_skips :: int
  ar_attention :: "instant option"
  ar_updated_at :: "instant option"

record merged_ap =
  ma_mac :: string
  ma_port :: string
  ma_vlan :: int
  ma_cdp_name :: "string option"
  ma_ip :: "string option"
  ma_platform :: "string option"
  ma_poe_power :: "string option"
  ma_poe_status :: "string option"
  ma_responding :: bool
  ma_last_seen_at :: instant
  ma_excluded :: bool
  ma_failures :: int
  ma_skips :: int
  ma_attention :: "instant option"

definition known_ap_stale_after_days :: int where
  "known_ap_stale_after_days = 7"

subsection \<open>Recording a scan\<close>

definition mark_seen :: "instant \<Rightarrow> ap_info \<Rightarrow> ap_row \<Rightarrow> ap_row" where
  "mark_seen now ap row =
     row\<lparr>ar_port := ai_port ap,
         ar_cdp_name := (case truthy (ai_cdp_name ap) of None \<Rightarrow> ar_cdp_name row | Some n \<Rightarrow> Some n),
         ar_last_seen_at := now, ar_active := True, ar_failures := 0, ar_skips := 0, ar_attention := None,
         ar_updated_at := Some now\<rparr>"

definition fresh_ap_row :: "uid \<Rightarrow> uid \<Rightarrow> instant \<Rightarrow> ap_info \<Rightarrow> ap_row" where
  "fresh_ap_row i switch_id now ap =
     \<lparr>ar_id = i, ar_switch_id = switch_id, ar_mac = ai_mac ap, ar_port = ai_port ap, ar_cdp_name = None,
      ar_last_seen_at = now, ar_active = True, ar_excluded = False, ar_failures = 0, ar_skips = 0,
      ar_attention = None, ar_updated_at = None\<rparr>"

text \<open>The dict of the rows that exist before the loop, by MAC: the last row of a MAC wins.\<close>

definition existing_by_mac :: "uid \<Rightarrow> ap_row list \<Rightarrow> string \<Rightarrow> uid option" where
  "existing_by_mac switch_id tab =
     map_of (rev (map (\<lambda>r. (ar_mac r, ar_id r)) (filter (\<lambda>r. ar_switch_id r = switch_id) tab)))"

definition see_ap ::
  "(nat \<Rightarrow> uid) \<Rightarrow> uid \<Rightarrow> instant \<Rightarrow> (string \<Rightarrow> uid option) \<Rightarrow> ap_row list \<Rightarrow> ap_info \<Rightarrow> ap_row list" where
  "see_ap new_id switch_id now existing tab ap =
   (if ai_mac ap = [] \<or> ai_port ap = [] then tab
    else case existing (ai_mac ap) of
        None \<Rightarrow> tab @ [mark_seen now ap (fresh_ap_row (new_id (length tab)) switch_id now ap)]
      | Some i \<Rightarrow> map (\<lambda>r. if ar_id r = i then mark_seen now ap r else r) tab)"

definition record_seen_aps ::
  "(nat \<Rightarrow> uid) \<Rightarrow> uid \<Rightarrow> instant \<Rightarrow> ap_info list \<Rightarrow> ap_row list \<Rightarrow> ap_row list" where
  "record_seen_aps new_id switch_id now live tab =
     (if live = [] then tab else foldl (see_ap new_id switch_id now (existing_by_mac switch_id tab)) tab live)"

subsection \<open>Recovering MACs, reading and merging\<close>

definition mac_by_port_name :: "ap_row list \<Rightarrow> string \<times> string \<Rightarrow> string option" where
  "mac_by_port_name known =
     map_of (rev (List.map_filter (\<lambda>r. map_option (\<lambda>n. ((ar_port r, n), ar_mac r)) (truthy (ar_cdp_name r))) known))"

definition recover_missing_macs_from_registry :: "ap_info list \<Rightarrow> ap_row list \<Rightarrow> ap_info list" where
  "recover_missing_macs_from_registry live known =
     map (\<lambda>ap. if ai_mac ap \<noteq> [] \<or> ai_port ap = [] then ap
               else case truthy (ai_cdp_name ap) of
                   None \<Rightarrow> ap
                 | Some n \<Rightarrow> (case truthy (mac_by_port_name known (ai_port ap, n)) of
                       None \<Rightarrow> ap | Some m \<Rightarrow> ap\<lparr>ai_mac := m\<rparr>)) live"

definition get_known_aps :: "uid \<Rightarrow> ap_row list \<Rightarrow> ap_row list" where
  "get_known_aps switch_id tab = filter (\<lambda>r. ar_switch_id r = switch_id \<and> ar_active r) tab"

definition merged_live :: "instant \<Rightarrow> int \<Rightarrow> ap_row list \<Rightarrow> ap_info \<Rightarrow> merged_ap" where
  "merged_live now vlan known ap =
   (let base = \<lparr>ma_mac = ai_mac ap, ma_port = ai_port ap, ma_vlan = vlan, ma_cdp_name = ai_cdp_name ap, ma_ip = ai_ip ap,
          ma_platform = ai_platform ap, ma_poe_power = ai_poe_power ap, ma_poe_status = ai_poe_status ap,
          ma_responding = True, ma_last_seen_at = now, ma_excluded = False, ma_failures = 0, ma_skips = 0,
          ma_attention = None\<rparr>
    in case find_row ar_mac (ai_mac ap) known of
         None \<Rightarrow> base
       | Some row \<Rightarrow> base\<lparr>ma_last_seen_at := ar_last_seen_at row, ma_excluded := ar_excluded row,
             ma_failures := ar_failures row, ma_skips := ar_skips row, ma_attention := ar_attention row\<rparr>)"

definition merged_known :: "int \<Rightarrow> bool \<Rightarrow> ap_row \<Rightarrow> merged_ap" where
  "merged_known vlan responding row =
     \<lparr>ma_mac = ar_mac row, ma_port = ar_port row, ma_vlan = vlan, ma_cdp_name = ar_cdp_name row, ma_ip = None,
      ma_platform = None, ma_poe_power = None, ma_poe_status = None, ma_responding = responding,
      ma_last_seen_at = ar_last_seen_at row, ma_excluded = ar_excluded row, ma_failures = ar_failures row,
      ma_skips = ar_skips row, ma_attention = ar_attention row\<rparr>"

definition stale_ap :: "instant \<Rightarrow> ap_row \<Rightarrow> bool" where
  "stale_ap now row \<longleftrightarrow> ar_last_seen_at row < now - known_ap_stale_after_days * 86400"

definition merge_live_and_known :: "instant \<Rightarrow> ap_info list \<Rightarrow> ap_row list \<Rightarrow> int \<Rightarrow> merged_ap list" where
  "merge_live_and_known now live known vlan =
     map (merged_live now vlan known) live
     @ map (merged_known vlan False)
         (filter (\<lambda>row. (ar_mac row = [] \<or> ar_mac row \<notin> set (map ai_mac live)) \<and> \<not> stale_ap now row) known)"

definition known_aps_as_still_responding :: "ap_row list \<Rightarrow> int \<Rightarrow> merged_ap list" where
  "known_aps_as_still_responding known vlan = map (merged_known vlan True) known"

subsection \<open>Exclusion and outcomes\<close>

definition find_ap_row :: "uid \<Rightarrow> string \<Rightarrow> ap_row list \<Rightarrow> ap_row option" where
  "find_ap_row switch_id mac tab = find (\<lambda>r. ar_switch_id r = switch_id \<and> ar_mac r = mac) tab"

definition set_ap_excluded :: "instant \<Rightarrow> uid \<Rightarrow> string \<Rightarrow> bool \<Rightarrow> ap_row list \<Rightarrow> ap_row list \<times> bool" where
  "set_ap_excluded now switch_id mac excluded tab = (case find_ap_row switch_id mac tab of
     None \<Rightarrow> (tab, False)
   | Some row \<Rightarrow>
       let row1 = row\<lparr>ar_excluded := excluded\<rparr>;
           row2 = (if excluded then row1 else row1\<lparr>ar_failures := 0, ar_skips := 0, ar_attention := None\<rparr>)
       in (put_row ar_id (row2\<lparr>ar_updated_at := Some now\<rparr>) tab, True))"

text \<open>\<open>recovered\<close>: \<open>Some True\<close> a verified reboot, \<open>Some False\<close> one that did not verify, \<open>None\<close> a cycle skipped
  because the port drew no power. The result says whether this call escalated the row.\<close>

definition outcome_row :: "instant \<Rightarrow> bool option \<Rightarrow> int \<Rightarrow> ap_row \<Rightarrow> ap_row \<times> bool" where
  "outcome_row now recovered threshold row =
   (if recovered = Some True
    then (row\<lparr>ar_failures := 0, ar_skips := 0, ar_attention := None, ar_updated_at := Some now\<rparr>, False)
    else
      let row1 = (if recovered = Some False then row\<lparr>ar_failures := ar_failures row + 1\<rparr>
                  else row\<lparr>ar_skips := ar_skips row + 1\<rparr>);
          streak = (if recovered = Some False then ar_failures row1 else ar_skips row1);
          escalated = (threshold \<le> streak \<and> ar_attention row1 = None);
          row2 = (if escalated then row1\<lparr>ar_attention := Some now, ar_excluded := True\<rparr> else row1)
      in (row2\<lparr>ar_updated_at := Some now\<rparr>, escalated))"

definition register_reboot_outcome ::
  "instant \<Rightarrow> uid \<Rightarrow> string \<Rightarrow> bool option \<Rightarrow> int \<Rightarrow> ap_row list \<Rightarrow> ap_row list \<times> bool" where
  "register_reboot_outcome now switch_id mac recovered threshold tab = (case find_ap_row switch_id mac tab of
     None \<Rightarrow> (tab, False)
   | Some row \<Rightarrow> (let (row', escalated) = outcome_row now recovered threshold row
                  in (put_row ar_id row' tab, escalated)))"

subsection \<open>Facts\<close>

lemma see_ap_other: "ar_switch_id r \<noteq> switch_id \<Longrightarrow> (\<And>m i. existing m = Some i \<Longrightarrow> ar_id r \<noteq> i) \<Longrightarrow>
   r \<in> set tab \<Longrightarrow> r \<in> set (see_ap new_id switch_id now existing tab ap)"
  by (force simp: see_ap_def image_iff split: option.splits)

text \<open>A run of outcomes for one access point.\<close>

fun streak_run :: "int \<Rightarrow> (instant \<times> bool option) list \<Rightarrow> ap_row \<Rightarrow> ap_row \<times> bool list" where
  "streak_run threshold [] row = (row, [])"
| "streak_run threshold ((now, recovered) # outs) row =
     (let (row1, e) = outcome_row now recovered threshold row; (row2, es) = streak_run threshold outs row1 in (row2, e # es))"

lemma streak_run_escalated:
  "ar_attention row \<noteq> None \<Longrightarrow> \<forall>o1 \<in> set outs. snd o1 = Some False \<Longrightarrow>
   snd (streak_run threshold outs row) = replicate (length outs) False \<and> ar_excluded (fst (streak_run threshold outs row)) = ar_excluded row"
proof (induction outs arbitrary: row)
  case (Cons o1 outs)
  obtain now where o1: "o1 = (now, Some False)" using Cons.prems(2) by (cases o1) auto
  have "ar_attention (fst (outcome_row now (Some False) threshold row)) \<noteq> None"
    "\<not> snd (outcome_row now (Some False) threshold row)"
    "ar_excluded (fst (outcome_row now (Some False) threshold row)) = ar_excluded row"
    using Cons.prems(1) by (auto simp: outcome_row_def Let_def)
  with Cons.IH [of "fst (outcome_row now (Some False) threshold row)"] Cons.prems(2) o1
  show ?case by (auto simp: split_beta Let_def)
qed simp

lemma streak_run_counts:
  assumes "\<forall>o1 \<in> set outs. snd o1 = Some False" "ar_attention row = None" "ar_failures row = int k" "int k < threshold"
  shows "snd (streak_run threshold outs row) = map (\<lambda>j. int (k + j + 1) = threshold) [0..<length outs]
    \<and> (ar_excluded (fst (streak_run threshold outs row)) \<longleftrightarrow> ar_excluded row \<or> threshold \<le> int (k + length outs))"
  using assms
proof (induction outs arbitrary: row k)
  case (Cons o1 outs)
  obtain now where o1: "o1 = (now, Some False)" using Cons.prems(1) by (cases o1) auto
  define row1 where "row1 = fst (outcome_row now (Some False) threshold row)"
  have run: "snd (streak_run threshold (o1 # outs) row) = snd (outcome_row now (Some False) threshold row) # snd (streak_run threshold outs row1)"
    "fst (streak_run threshold (o1 # outs) row) = fst (streak_run threshold outs row1)"
    by (simp_all add: o1 row1_def split_beta Let_def)
  have shift: "map (\<lambda>j. int (k + j + 1) = threshold) [0..<length (o1 # outs)]
      = (int (k + 1) = threshold) # map (\<lambda>j. int (Suc k + j + 1) = threshold) [0..<length outs]"
    by (simp add: upt_conv_Cons map_Suc_upt [symmetric] comp_def del: upt_Suc)
  show ?case
  proof (cases "int (k + 1) = threshold")
    case True
    then have "ar_attention row1 \<noteq> None" "ar_excluded row1" "snd (outcome_row now (Some False) threshold row)"
      using Cons.prems by (simp_all add: row1_def outcome_row_def Let_def)
    moreover have "map (\<lambda>j. int (Suc k + j + 1) = threshold) [0..<length outs] = replicate (length outs) False"
      by (rule nth_equalityI) (use True in auto)
    ultimately show ?thesis
      unfolding run shift using streak_run_escalated [of row1 outs threshold] Cons.prems(1) True by simp
  next
    case False
    then have "ar_attention row1 = None" "ar_failures row1 = int (Suc k)" "ar_excluded row1 = ar_excluded row"
      "\<not> snd (outcome_row now (Some False) threshold row)"
      using Cons.prems by (simp_all add: row1_def outcome_row_def Let_def)
    with Cons.IH [of row1 "Suc k"] Cons.prems False show ?thesis unfolding run shift by simp
  qed
qed simp

end
