(* ===== verification/Ap_Auto_Reboot.thy ===== *)
theory Ap_Auto_Reboot
  imports Ap_Registry Switch_Polling "HOL-Library.Sublist"
begin

section \<open>The access point reboot cycle (app/domains/inventory/ap_auto_reboot.py)\<close>

text \<open>
  The switch is a parameter \<open>ap_ops\<close> over a state \<open>'w\<close> of the world: the CDP scan (\<open>None\<close> when the
  switch could not be reached), the PoE draw of a port, the power-cycle, time passing, and the
  per-switch toggle as an operator may have changed it meanwhile. A cycle returns everything it did
  in order (\<open>ap_step\<close>s), so that what touches the hardware can be read off.
\<close>

subsection \<open>Eligibility\<close>

record reboot_switch = network_switch +
  rs_vendor :: string
  rs_ap_vlan :: int
  rs_enabled :: bool
  rs_mode :: string
  rs_unreachable_cycles :: int
  rs_no_aps_cycles :: int
  rs_attention :: "instant option"
  rs_updated_at :: "instant option"

record reboot_settings =
  AUTO_REBOOT_AP_ENABLED :: bool
  AUTO_REBOOT_AP_ALLOWED_STORES :: ustr
  AUTO_REBOOT_AP_PAUSE_SECONDS :: int
  AUTO_REBOOT_AP_VERIFY_MAX_WAIT_SECONDS :: int
  AUTO_REBOOT_AP_VERIFY_POLL_INTERVAL_SECONDS :: int
  AUTO_REBOOT_AP_MAX_PER_SWITCH :: int
  AUTO_REBOOT_AP_ESCALATE_AFTER_CYCLES :: int

definition default_reboot_settings :: reboot_settings where
  "default_reboot_settings = \<lparr>AUTO_REBOOT_AP_ENABLED = True, AUTO_REBOOT_AP_ALLOWED_STORES = cp ''A30'',
     AUTO_REBOOT_AP_PAUSE_SECONDS = 45, AUTO_REBOOT_AP_VERIFY_MAX_WAIT_SECONDS = 240,
     AUTO_REBOOT_AP_VERIFY_POLL_INTERVAL_SECONDS = 20, AUTO_REBOOT_AP_MAX_PER_SWITCH = 20,
     AUTO_REBOOT_AP_ESCALATE_AFTER_CYCLES = 2\<rparr>"

definition required_ap_vlan :: int where
  "required_ap_vlan = 20"

text \<open>\<open>str.upper\<close> on ASCII, Latin-1 and Cyrillic letters (the sharp s becomes two letters).\<close>

definition u_upper_cp :: "nat \<Rightarrow> ustr" where
  "u_upper_cp n = (if n = 223 then [83, 83] else if n = 255 then [376] else if n = 181 then [924]
     else if (97 \<le> n \<and> n \<le> 122) \<or> (224 \<le> n \<and> n \<le> 254 \<and> n \<noteq> 247) \<or> (1072 \<le> n \<and> n \<le> 1103) then [n - 32]
     else if 1104 \<le> n \<and> n \<le> 1119 then [n - 80] else [n])"

definition u_upper :: "ustr \<Rightarrow> ustr" where
  "u_upper s = concat (map u_upper_cp s)"

definition cyrillic_to_latin :: "(nat \<times> nat) list" where
  "cyrillic_to_latin = [(1040, 65), (1042, 66), (1045, 69), (1050, 75), (1052, 77), (1053, 72), (1054, 79), (1056, 80),
     (1057, 67), (1058, 84), (1061, 88), (1072, 97), (1077, 101), (1089, 99)]"

definition normalize_store_name :: "ustr \<Rightarrow> ustr" where
  "normalize_store_name name =
     map (\<lambda>c. case map_of cyrillic_to_latin c of None \<Rightarrow> c | Some l \<Rightarrow> l) (u_upper (u_strip name))"

text \<open>\<open>raw.split(",")\<close>\<close>

fun u_split_comma :: "ustr \<Rightarrow> ustr list" where
  "u_split_comma [] = [[]]"
| "u_split_comma (x # xs) =
     (if x = 44 then [] # u_split_comma xs
      else (case u_split_comma xs of [] \<Rightarrow> [[x]] | w # ws \<Rightarrow> (x # w) # ws))"

definition parse_allowed_stores :: "ustr \<Rightarrow> ustr list" where
  "parse_allowed_stores raw = map normalize_store_name (filter (\<lambda>s. u_strip s \<noteq> []) (u_split_comma raw))"

datatype skip_reason = Vendor_not_supported string | Wrong_ap_vlan int | Store_not_allowed

definition switch_eligible_for_auto_reboot :: "reboot_switch \<Rightarrow> ustr list \<Rightarrow> skip_reason option" where
  "switch_eligible_for_auto_reboot sw allowed =
   (if rs_vendor sw \<noteq> ''cisco'' then Some (Vendor_not_supported (rs_vendor sw))
    else if rs_ap_vlan sw \<noteq> required_ap_vlan then Some (Wrong_ap_vlan (rs_ap_vlan sw))
    else if normalize_store_name (ns_name sw) \<notin> set allowed then Some Store_not_allowed
    else None)"

definition get_eligible_switches_for_auto_reboot :: "reboot_settings \<Rightarrow> reboot_switch list \<Rightarrow> reboot_switch list" where
  "get_eligible_switches_for_auto_reboot cfg switches =
   (let allowed = parse_allowed_stores (AUTO_REBOOT_AP_ALLOWED_STORES cfg)
    in if \<not> AUTO_REBOOT_AP_ENABLED cfg \<or> allowed = [] then []
       else sort_key ns_name (filter (\<lambda>sw. switch_eligible_for_auto_reboot sw allowed = None) (filter rs_enabled switches)))"

subsection \<open>The world and the steps of a cycle\<close>

record 'w ap_ops =
  ao_scan :: "'w \<Rightarrow> ap_info list option \<times> 'w"
  ao_power :: "string \<Rightarrow> 'w \<Rightarrow> rat option \<times> 'w"
  ao_cycle :: "string \<Rightarrow> 'w \<Rightarrow> bool \<times> 'w"
  ao_sleep :: "int \<Rightarrow> 'w \<Rightarrow> 'w"
  ao_enabled :: "'w \<Rightarrow> bool \<times> 'w"

datatype ap_message =
    Cycle_unreachable ustr string
  | Nothing_to_reboot ustr string nat
  | Cycle_cancelled ustr string
  | Would_cycle merged_ap
  | No_poe_draw merged_ap
  | Cycled merged_ap bool
  | Did_not_reappear merged_ap int
  | Ap_needs_attention merged_ap "bool option" int
  | Switch_unreachable_streak ustr int
  | Switch_without_aps_streak ustr int

datatype ap_step =
    Scan
  | Power_check string
  | Poe_cycle string
  | Sleep int
  | Close_ssh
  | Ap_total ustr string
  | Out "ap_message effect"

definition ap_log :: "reboot_switch \<Rightarrow> string \<Rightarrow> string \<Rightarrow> ap_message \<Rightarrow> ap_step" where
  "ap_log sw severity event_type message =
     Out (EventLog \<lparr>ev_severity = severity, ev_category = ''network'', ev_type = event_type,
       ev_device_kind = Some ''switch'', ev_device_name = Some (ns_name sw), ev_ip_address = Some (ns_ip sw),
       ev_message = message\<rparr>)"

text \<open>\<open>ap_auto_reboot_total.labels(switch=..., result=...).inc()\<close>\<close>

definition ap_metric :: "reboot_switch \<Rightarrow> string \<Rightarrow> ap_step" where
  "ap_metric sw result = Ap_total (ns_name sw) result"

subsection \<open>Verification after a power-cycle\<close>

text \<open>The loop of \<open>_verify_ap_back_online\<close> from \<open>elapsed\<close> seconds on.\<close>

function verify_ap_back_online ::
  "'w ap_ops \<Rightarrow> int \<Rightarrow> int \<Rightarrow> string \<Rightarrow> int \<Rightarrow> 'w \<Rightarrow> bool \<times> 'w \<times> ap_step list" where
  "verify_ap_back_online ops max_wait poll_interval mac elapsed w =
   (if elapsed < max_wait then
      (let interval = max poll_interval 1;
           (aps, w1) = ao_scan ops (ao_sleep ops interval w)
       in if (case aps of None \<Rightarrow> False | Some l \<Rightarrow> list_ex (\<lambda>a. ai_mac a = mac) l)
          then (True, w1, [Sleep interval, Scan])
          else
            (let (ok, w2, steps) = verify_ap_back_online ops max_wait poll_interval mac (elapsed + interval) w1
             in (ok, w2, Sleep interval # Scan # steps)))
    else (False, w, []))"
  by pat_completeness auto
termination
  by (relation "measure (\<lambda>(ops, max_wait, poll_interval, mac, elapsed, w). nat (max_wait - elapsed))") auto

declare verify_ap_back_online.simps [simp del]

subsection \<open>Escalation\<close>

definition register_outcome_and_maybe_escalate ::
  "reboot_settings \<Rightarrow> instant \<Rightarrow> reboot_switch \<Rightarrow> merged_ap \<Rightarrow> bool option \<Rightarrow> ap_row list \<Rightarrow> ap_row list \<times> ap_step list" where
  "register_outcome_and_maybe_escalate cfg now sw ap recovered tab =
   (let (tab', escalated) = register_reboot_outcome now (ns_id sw) (ma_mac ap) recovered
          (AUTO_REBOOT_AP_ESCALATE_AFTER_CYCLES cfg) tab
    in (tab', if \<not> escalated then []
              else [ap_log sw ''critical'' ''ap_auto_reboot_needs_attention''
                      (Ap_needs_attention ap recovered (AUTO_REBOOT_AP_ESCALATE_AFTER_CYCLES cfg)),
                    Out Commit, ap_metric sw ''needs_attention'']))"

text \<open>The switch's own streaks: a cycle that could not reach it, and one that found no access point at all.\<close>

definition register_switch_outcome ::
  "reboot_settings \<Rightarrow> instant \<Rightarrow> bool \<Rightarrow> bool \<Rightarrow> reboot_switch \<Rightarrow> reboot_switch \<times> ap_step list" where
  "register_switch_outcome cfg now reachable has_known_aps sw =
   (let threshold = AUTO_REBOOT_AP_ESCALATE_AFTER_CYCLES cfg;
        (sw1, why) =
          (if \<not> reachable then
             (let n = rs_unreachable_cycles sw + 1
              in (sw\<lparr>rs_unreachable_cycles := n\<rparr>,
                  if threshold \<le> n \<and> rs_attention sw = None then Some (Switch_unreachable_streak (ns_name sw) n) else None))
           else if has_known_aps then
             (sw\<lparr>rs_unreachable_cycles := 0, rs_no_aps_cycles := 0, rs_attention := None\<rparr>, None)
           else
             (let n = rs_no_aps_cycles sw + 1
              in (sw\<lparr>rs_unreachable_cycles := 0, rs_no_aps_cycles := n\<rparr>,
                  if threshold \<le> n \<and> rs_attention sw = None then Some (Switch_without_aps_streak (ns_name sw) n) else None)));
        sw2 = (case why of None \<Rightarrow> sw1 | Some _ \<Rightarrow> sw1\<lparr>rs_attention := Some now\<rparr>)
    in (sw2\<lparr>rs_updated_at := Some now\<rparr>,
        Out Commit # (case why of
           None \<Rightarrow> []
         | Some m \<Rightarrow> [ap_log sw2 ''critical'' ''ap_auto_reboot_switch_needs_attention'' m, Out Commit,
                     ap_metric sw2 ''switch_needs_attention''])))"

subsection \<open>One access point\<close>

datatype ap_action = Dry_run | Skipped_no_power | Rebooted bool bool

record ap_result =
  res_port :: string
  res_mac :: string
  res_hung :: bool
  res_action :: ap_action

definition ap_result_of :: "merged_ap \<Rightarrow> ap_action \<Rightarrow> ap_result" where
  "ap_result_of ap action = \<lparr>res_port = ma_port ap, res_mac = ma_mac ap, res_hung = \<not> ma_responding ap, res_action = action\<rparr>"

text \<open>\<open>if not power\<close>: no reading, or a reading of zero watts.\<close>

definition draws_power :: "rat option \<Rightarrow> bool" where
  "draws_power watts = (case watts of None \<Rightarrow> False | Some w \<Rightarrow> w \<noteq> 0)"

definition reboot_one_ap ::
  "'w ap_ops \<Rightarrow> reboot_settings \<Rightarrow> instant \<Rightarrow> reboot_switch \<Rightarrow> merged_ap \<Rightarrow> 'w \<times> ap_row list
   \<Rightarrow> ap_result \<times> ('w \<times> ap_row list) \<times> ap_step list" where
  "reboot_one_ap ops cfg now sw ap s =
   (let (ok, w1) = ao_cycle ops (ma_port ap) (fst s);
        s1 = [Poe_cycle (ma_port ap),
              ap_log sw (if ok then ''info'' else ''error'')
                (if ma_responding ap then ''ap_auto_reboot'' else ''ap_auto_reboot_recovering_hung'') (Cycled ap ok), Out Commit];
        (came_back, w2, s2) =
          (if ok then verify_ap_back_online ops (AUTO_REBOOT_AP_VERIFY_MAX_WAIT_SECONDS cfg)
                        (AUTO_REBOOT_AP_VERIFY_POLL_INTERVAL_SECONDS cfg) (ma_mac ap) 0 w1
           else (False, w1, []));
        s3 = (if ok \<and> \<not> came_back
              then [ap_log sw ''error'' ''ap_auto_reboot_failed''
                      (Did_not_reappear ap (AUTO_REBOOT_AP_VERIFY_MAX_WAIT_SECONDS cfg)), Out Commit]
              else []);
        metric = (if \<not> ok then ''command_failed''
                  else if came_back then (if ma_responding ap then ''ok'' else ''hung_recovered'') else ''failed'');
        (tab', s4) = register_outcome_and_maybe_escalate cfg now sw ap (Some (ok \<and> came_back)) (snd s)
    in (ap_result_of ap (Rebooted ok came_back), (w2, tab'), s1 @ s2 @ s3 @ ap_metric sw metric # s4))"

definition handle_one_ap ::
  "'w ap_ops \<Rightarrow> reboot_settings \<Rightarrow> instant \<Rightarrow> reboot_switch \<Rightarrow> bool \<Rightarrow> merged_ap \<Rightarrow> 'w \<times> ap_row list
   \<Rightarrow> ap_result \<times> ('w \<times> ap_row list) \<times> ap_step list" where
  "handle_one_ap ops cfg now sw is_dry_run ap s =
   (if is_dry_run then
      (ap_result_of ap Dry_run, s, [ap_log sw ''info'' ''ap_auto_reboot_dry_run'' (Would_cycle ap), ap_metric sw ''dry_run''])
    else if ma_responding ap then reboot_one_ap ops cfg now sw ap s
    else
      let (watts, w1) = ao_power ops (ma_port ap) (fst s)
      in if \<not> draws_power watts then
           (let (tab', s2) = register_outcome_and_maybe_escalate cfg now sw ap None (snd s)
            in (ap_result_of ap Skipped_no_power, (w1, tab'),
                [Power_check (ma_port ap), ap_log sw ''info'' ''ap_auto_reboot_skipped'' (No_poe_draw ap), Out Commit,
                 ap_metric sw ''skipped_no_power''] @ s2))
         else
           (let (res, s1, steps) = reboot_one_ap ops cfg now sw ap (w1, snd s)
            in (res, s1, Power_check (ma_port ap) # steps)))"

subsection \<open>The cycle\<close>

text \<open>The loop over the targets. The first component says whether an operator cancelled the cycle.\<close>

fun reboot_targets ::
  "'w ap_ops \<Rightarrow> reboot_settings \<Rightarrow> instant \<Rightarrow> reboot_switch \<Rightarrow> bool \<Rightarrow> string \<Rightarrow> bool \<Rightarrow> merged_ap list \<Rightarrow> 'w \<times> ap_row list
   \<Rightarrow> (bool \<times> ap_result list) \<times> ('w \<times> ap_row list) \<times> ap_step list" where
  "reboot_targets ops cfg now sw stop_when_disabled mode is_dry_run [] s = ((False, []), s, [])"
| "reboot_targets ops cfg now sw stop_when_disabled mode is_dry_run (ap # aps) s =
   (let (enabled, w0) = (if stop_when_disabled then ao_enabled ops (fst s) else (True, fst s))
    in if \<not> enabled then
         ((True, []), (w0, snd s),
          [ap_log sw ''info'' ''ap_auto_reboot_cancelled'' (Cycle_cancelled (ns_name sw) mode), Out Commit])
       else
         let (result, s1, e1) = handle_one_ap ops cfg now sw is_dry_run ap (w0, snd s);
             pause = AUTO_REBOOT_AP_PAUSE_SECONDS cfg;
             (w2, e2) = (if aps \<noteq> [] then (ao_sleep ops pause (fst s1), [Sleep pause]) else (fst s1, []));
             ((cancelled, results), s3, e3) =
               reboot_targets ops cfg now sw stop_when_disabled mode is_dry_run aps (w2, snd s1)
         in ((cancelled, result # results), s3, e1 @ e2 @ e3))"

text \<open>\<open>targets[:n]\<close>, with Python's meaning of a negative bound.\<close>

definition py_take :: "int \<Rightarrow> 'a list \<Rightarrow> 'a list" where
  "py_take n xs = take (if 0 \<le> n then nat n else length xs - nat (- n)) xs"

definition reboot_targets_of :: "reboot_settings \<Rightarrow> merged_ap list \<Rightarrow> merged_ap list" where
  "reboot_targets_of cfg merged =
     py_take (AUTO_REBOOT_AP_MAX_PER_SWITCH cfg) (sort_key ma_responding (filter (\<lambda>ap. \<not> ma_excluded ap) merged))"

datatype cycle_end = Switch_unreachable | No_targets | Cancelled | Finished

record cycle_result =
  cy_mode :: string
  cy_found :: nat
  cy_results :: "ap_result list"
  cy_end :: cycle_end

definition usable_live :: "ap_info list \<Rightarrow> ap_row list \<Rightarrow> ap_info list" where
  "usable_live live known =
     filter (\<lambda>ap. ai_port ap \<noteq> [] \<and> ai_mac ap \<noteq> []) (recover_missing_macs_from_registry live known)"

text \<open>The rows \<open>get_known_aps\<close> returned, as they read after \<open>record_seen_aps\<close> has committed its changes.\<close>

definition reread_rows :: "ap_row list \<Rightarrow> ap_row list \<Rightarrow> ap_row list" where
  "reread_rows known tab = List.map_filter (\<lambda>r. find_row ar_id (ar_id r) tab) known"

definition cycle_merged ::
  "(nat \<Rightarrow> uid) \<Rightarrow> instant \<Rightarrow> reboot_switch \<Rightarrow> ap_info list \<Rightarrow> ap_row list \<Rightarrow> merged_ap list" where
  "cycle_merged new_id now sw scanned tab =
   (let known = get_known_aps (ns_id sw) tab; aps = usable_live scanned known
    in merge_live_and_known now aps (reread_rows known (record_seen_aps new_id (ns_id sw) now aps tab)) (rs_ap_vlan sw))"

definition run_ap_reboot_cycle ::
  "'w ap_ops \<Rightarrow> reboot_settings \<Rightarrow> (nat \<Rightarrow> uid) \<Rightarrow> instant \<Rightarrow> reboot_switch \<Rightarrow> 'w \<times> ap_row list
   \<Rightarrow> cycle_result \<times> reboot_switch \<times> ('w \<times> ap_row list) \<times> ap_step list" where
  "run_ap_reboot_cycle ops cfg new_id now sw s =
   (let is_dry_run = (rs_mode sw \<noteq> ''live'');
        mode = (if is_dry_run then ''dry_run'' else ''live'');
        (live, w1) = ao_scan ops (fst s)
    in case live of
         None \<Rightarrow>
           (let (sw', e1) = register_switch_outcome cfg now False False sw
            in (\<lparr>cy_mode = mode, cy_found = 0, cy_results = [], cy_end = Switch_unreachable\<rparr>, sw', (w1, snd s),
                [Scan, ap_log sw ''warning'' ''ap_auto_reboot_skipped'' (Cycle_unreachable (ns_name sw) mode), Out Commit] @ e1))
       | Some scanned \<Rightarrow>
           let tab1 = record_seen_aps new_id (ns_id sw) now (usable_live scanned (get_known_aps (ns_id sw) (snd s))) (snd s);
               merged = cycle_merged new_id now sw scanned (snd s);
               (sw1, e1) = register_switch_outcome cfg now True (merged \<noteq> []) sw;
               targets = reboot_targets_of cfg merged
           in if targets = [] then
                (\<lparr>cy_mode = mode, cy_found = 0, cy_results = [], cy_end = No_targets\<rparr>, sw1, (w1, tab1),
                 Scan # e1 @ [ap_log sw1 ''info'' ''ap_auto_reboot_skipped'' (Nothing_to_reboot (ns_name sw1) mode (length merged)),
                             Out Commit])
              else
                let ((cancelled, results), s2, e2) = reboot_targets ops cfg now sw1 (rs_enabled sw) mode is_dry_run targets (w1, tab1)
                in (\<lparr>cy_mode = mode, cy_found = length targets, cy_results = results,
                     cy_end = (if cancelled then Cancelled else Finished)\<rparr>,
                    (if cancelled then sw1\<lparr>rs_enabled := False\<rparr> else sw1), s2, Scan # e1 @ e2))"

text \<open>\<open>run_ap_reboot_for_switch\<close>: the session is closed whatever the cycle did.\<close>

definition run_ap_reboot_for_switch ::
  "'w ap_ops \<Rightarrow> reboot_settings \<Rightarrow> (nat \<Rightarrow> uid) \<Rightarrow> instant \<Rightarrow> reboot_switch \<Rightarrow> 'w \<times> ap_row list
   \<Rightarrow> cycle_result \<times> reboot_switch \<times> ('w \<times> ap_row list) \<times> ap_step list" where
  "run_ap_reboot_for_switch ops cfg new_id now sw s =
   (let (res, sw', s', steps) = run_ap_reboot_cycle ops cfg new_id now sw s in (res, sw', s', steps @ [Close_ssh]))"

subsection \<open>What touches the hardware\<close>

definition poe_cycles :: "ap_step list \<Rightarrow> string list" where
  "poe_cycles steps = List.map_filter (\<lambda>s. case s of Poe_cycle p \<Rightarrow> Some p | _ \<Rightarrow> None) steps"

definition scans :: "ap_step list \<Rightarrow> nat" where
  "scans steps = length (filter (\<lambda>s. s = Scan) steps)"

lemma poe_cycles_simps [simp]:
  "poe_cycles [] = []" "poe_cycles (Poe_cycle p # steps) = p # poe_cycles steps"
  "poe_cycles (Scan # steps) = poe_cycles steps" "poe_cycles (Power_check p # steps) = poe_cycles steps"
  "poe_cycles (Sleep n # steps) = poe_cycles steps" "poe_cycles (Close_ssh # steps) = poe_cycles steps"
  "poe_cycles (Out e # steps) = poe_cycles steps" "poe_cycles (Ap_total nm l # steps) = poe_cycles steps"
  "poe_cycles (xs @ ys) = poe_cycles xs @ poe_cycles ys"
  by (simp_all add: poe_cycles_def List.map_filter_def)

lemma poe_cycles_log [simp]:
  "poe_cycles (ap_log sw sev ty m # steps) = poe_cycles steps" "poe_cycles (ap_metric sw l # steps) = poe_cycles steps"
  by (simp_all add: ap_log_def ap_metric_def)

definition ap_seen :: "string \<Rightarrow> ap_info list option \<Rightarrow> bool" where
  "ap_seen mac aps = (case aps of None \<Rightarrow> False | Some l \<Rightarrow> list_ex (\<lambda>a. ai_mac a = mac) l)"

lemma verify_stop: "\<not> elapsed < max_wait \<Longrightarrow> verify_ap_back_online ops max_wait poll_interval mac elapsed w = (False, w, [])"
  by (subst verify_ap_back_online.simps) simp

lemma verify_step:
  assumes "elapsed < max_wait"
    and "sc = ao_scan ops (ao_sleep ops (max poll_interval 1) w)"
    and "rest = verify_ap_back_online ops max_wait poll_interval mac (elapsed + max poll_interval 1) (snd sc)"
  shows "verify_ap_back_online ops max_wait poll_interval mac elapsed w =
    (if ap_seen mac (fst sc) then (True, snd sc, [Sleep (max poll_interval 1), Scan])
     else (fst rest, fst (snd rest), Sleep (max poll_interval 1) # Scan # snd (snd rest)))"
  unfolding assms(2,3) using assms(1)
  by (subst verify_ap_back_online.simps) (simp add: Let_def split_beta ap_seen_def)

lemma verify_induct [case_names stop seen again]:
  assumes "\<And>elapsed w. \<not> elapsed < max_wait \<Longrightarrow> P elapsed w (False, w, [])"
    and "\<And>elapsed w sc. elapsed < max_wait \<Longrightarrow> sc = ao_scan ops (ao_sleep ops (max poll_interval 1) w) \<Longrightarrow>
      ap_seen mac (fst sc) \<Longrightarrow> P elapsed w (True, snd sc, [Sleep (max poll_interval 1), Scan])"
    and "\<And>elapsed w sc ok w2 steps. elapsed < max_wait \<Longrightarrow> sc = ao_scan ops (ao_sleep ops (max poll_interval 1) w) \<Longrightarrow>
      \<not> ap_seen mac (fst sc) \<Longrightarrow> P (elapsed + max poll_interval 1) (snd sc) (ok, w2, steps) \<Longrightarrow>
      P elapsed w (ok, w2, Sleep (max poll_interval 1) # Scan # steps)"
  shows "P elapsed w (verify_ap_back_online ops max_wait poll_interval mac elapsed w)"
proof (induction "nat (max_wait - elapsed)" arbitrary: elapsed w rule: less_induct)
  case less
  show ?case
  proof (cases "elapsed < max_wait")
    case False
    with assms(1) show ?thesis by (simp add: verify_stop)
  next
    case True
    define sc where "sc = ao_scan ops (ao_sleep ops (max poll_interval 1) w)"
    obtain ok w2 steps where rest:
      "verify_ap_back_online ops max_wait poll_interval mac (elapsed + max poll_interval 1) (snd sc) = (ok, w2, steps)"
      by (metis prod.collapse)
    have "P (elapsed + max poll_interval 1) (snd sc) (ok, w2, steps)"
      unfolding rest [symmetric] by (rule less) (use True in auto)
    with assms(2,3) [OF True sc_def] show ?thesis
      by (simp add: verify_step [OF True sc_def refl] rest)
  qed
qed

lemma verify_no_cycles [simp]:
  "poe_cycles (snd (snd (verify_ap_back_online ops max_wait poll_interval mac elapsed w))) = []"
  by (rule verify_induct [where P = "\<lambda>_ _ r. poe_cycles (snd (snd r)) = []"]) simp_all

lemma register_outcome_no_cycles [simp]:
  "poe_cycles (snd (register_outcome_and_maybe_escalate cfg now sw ap recovered tab)) = []"
  by (simp add: register_outcome_and_maybe_escalate_def split_beta)

lemma register_switch_no_cycles [simp]: "poe_cycles (snd (register_switch_outcome cfg now reachable has sw)) = []"
  by (auto simp: register_switch_outcome_def Let_def split_beta split: option.splits)

lemma reboot_one_ap_cycles [simp]: "poe_cycles (snd (snd (reboot_one_ap ops cfg now sw ap s))) = [ma_port ap]"
  by (simp add: reboot_one_ap_def Let_def split_beta)

lemma handle_one_ap_cycles:
  "poe_cycles (snd (snd (handle_one_ap ops cfg now sw is_dry_run ap s)))
     \<in> (if is_dry_run then {[]} else {[], [ma_port ap]})"
  by (auto simp: handle_one_ap_def Let_def split_beta)

lemma reboot_targets_cycles:
  "subseq (poe_cycles (snd (snd (reboot_targets ops cfg now sw stop mode is_dry_run aps s))))
     (if is_dry_run then [] else map ma_port aps)"
proof (induction aps arbitrary: s)
  case (Cons ap aps)
  define w0 where "w0 = (if stop then ao_enabled ops (fst s) else (True, fst s))"
  define r1 where "r1 = handle_one_ap ops cfg now sw is_dry_run ap (snd w0, snd s)"
  define w2 where "w2 = (if aps \<noteq> [] then ao_sleep ops (AUTO_REBOOT_AP_PAUSE_SECONDS cfg) (fst (fst (snd r1))) else fst (fst (snd r1)))"
  have one: "poe_cycles (snd (snd r1)) \<in> (if is_dry_run then {[]} else {[], [ma_port ap]})"
    unfolding r1_def by (rule handle_one_ap_cycles)
  note rest = Cons.IH [of "(w2, snd (fst (snd r1)))"]
  have eq: "poe_cycles (snd (snd (reboot_targets ops cfg now sw stop mode is_dry_run (ap # aps) s))) =
    (if \<not> fst w0 then [] else poe_cycles (snd (snd r1))
       @ poe_cycles (snd (snd (reboot_targets ops cfg now sw stop mode is_dry_run aps (w2, snd (fst (snd r1)))))))"
    by (auto simp: w0_def r1_def w2_def Let_def split_beta)
  consider "\<not> fst w0" | "is_dry_run" "poe_cycles (snd (snd r1)) = []" | "\<not> is_dry_run" "poe_cycles (snd (snd r1)) = []"
    | "\<not> is_dry_run" "poe_cycles (snd (snd r1)) = [ma_port ap]"
    using one by (auto split: if_splits)
  then show ?case
    unfolding eq using rest by cases (simp_all add: list_emb.list_emb_Cons)
qed simp

lemma py_take_subset: "set (py_take n xs) \<subseteq> set xs" "0 \<le> n \<Longrightarrow> length (py_take n xs) \<le> nat n"
  by (auto simp: py_take_def dest: in_set_takeD)

lemma sorted_take: "sorted (map f xs) \<Longrightarrow> sorted (map f (take n xs))"
  by (metis sorted_wrt_take take_map)

lemma reboot_targets_of_ok:
  "set (reboot_targets_of cfg merged) \<subseteq> {ap \<in> set merged. \<not> ma_excluded ap}"
  "sorted (map ma_responding (reboot_targets_of cfg merged))"
proof -
  show "set (reboot_targets_of cfg merged) \<subseteq> {ap \<in> set merged. \<not> ma_excluded ap}"
    unfolding reboot_targets_of_def by (rule subset_trans [OF py_take_subset(1)]) auto
  show "sorted (map ma_responding (reboot_targets_of cfg merged))"
    unfolding reboot_targets_of_def py_take_def by (rule sorted_take) simp
qed

text \<open>How many polls fit into \<open>d\<close> seconds, one every \<open>i\<close>: the quotient, rounded up.\<close>

definition polls_within :: "int \<Rightarrow> int \<Rightarrow> nat" where
  "polls_within d i = nat ((d + i - 1) div i)"

lemma polls_within_simps:
  assumes "0 < i"
  shows "d \<le> 0 \<Longrightarrow> polls_within d i = 0" "0 < d \<Longrightarrow> polls_within d i = Suc (polls_within (d - i) i)"
proof -
  show "polls_within d i = 0" if "d \<le> 0"
  proof -
    have "(d + i - 1) div i \<le> (i - 1) div i" by (rule zdiv_mono1) (use that assms in auto)
    then show ?thesis using assms by (simp add: polls_within_def div_pos_pos_trivial)
  qed
  show "polls_within d i = Suc (polls_within (d - i) i)" if "0 < d"
  proof -
    have "(d + i - 1) div i = (d - 1) div i + 1"
      using div_add_self2 [of i "d - 1"] assms by (simp add: algebra_simps)
    moreover have "0 \<le> (d - 1) div i" using that assms by (simp add: pos_imp_zdiv_nonneg_iff)
    ultimately show ?thesis by (simp add: polls_within_def Suc_nat_eq_nat_zadd1)
  qed
qed

lemma scans_simps [simp]: "scans [] = 0" "scans (Sleep n # steps) = scans steps" "scans (Scan # steps) = Suc (scans steps)"
  by (simp_all add: scans_def)

lemma verify_scans:
  fixes max_wait poll_interval :: int
  defines "n \<equiv> \<lambda>elapsed. polls_within (max_wait - elapsed) (max poll_interval 1)"
  shows "(\<lambda>r. if fst r then 0 < scans (snd (snd r)) \<and> scans (snd (snd r)) \<le> n elapsed else scans (snd (snd r)) = n elapsed)
    (verify_ap_back_online ops max_wait poll_interval mac elapsed w)"
proof -
  have i: "0 < max poll_interval 1" by simp
  have stop: "n elapsed = 0" if "\<not> elapsed < max_wait" for elapsed
    using polls_within_simps(1) [OF i] that by (simp add: n_def)
  have step: "n elapsed = Suc (n (elapsed + max poll_interval 1))" if "elapsed < max_wait" for elapsed
    using polls_within_simps(2) [OF i, of "max_wait - elapsed"] that by (simp add: n_def algebra_simps)
  show ?thesis
    by (rule verify_induct [where P = "\<lambda>elapsed _ r. if fst r then 0 < scans (snd (snd r)) \<and> scans (snd (snd r)) \<le> n elapsed
        else scans (snd (snd r)) = n elapsed"]) (auto simp: stop step split: if_splits)
qed

subsection \<open>A store with a hung access point\<close>

definition store_ap :: "string \<Rightarrow> string \<Rightarrow> ap_info" where
  "store_ap mac port = \<lparr>ai_mac = mac, ai_port = port, ai_vlan = 20, ai_ip = None, ai_cdp_name = None, ai_platform = None,
     ai_poe_power = None, ai_poe_status = None\<rparr>"

definition known_ap :: "uid \<Rightarrow> string \<Rightarrow> string \<Rightarrow> ap_row" where
  "known_ap i mac port = fresh_ap_row i ''sw1'' 0 (store_ap mac port)"

definition live_switch :: reboot_switch where
  "live_switch = \<lparr>ns_id = ''sw1'', ns_name = cp ''A30'', ns_ip = ''10.1.3.2'', ns_is_online = Some True,
     ns_reachability_reason = None, ns_hostname = None, ns_model_info = None, ns_ios_version = None, ns_uptime = None,
     ns_mac_address = None, ns_mac_status = None, ns_last_polled_at = None, rs_vendor = ''cisco'', rs_ap_vlan = 20,
     rs_enabled = True, rs_mode = ''live'', rs_unreachable_cycles = 0, rs_no_aps_cycles = 0, rs_attention = None,
     rs_updated_at = None\<rparr>"

text \<open>One access point answers, every port draws power and every command works.\<close>

definition quiet_store :: "unit ap_ops" where
  "quiet_store = \<lparr>ao_scan = (\<lambda>w. (Some [store_ap ''aa'' ''Gi1/0/1''], w)), ao_power = (\<lambda>_ w. (Some 8, w)),
     ao_cycle = (\<lambda>_ w. (True, w)), ao_sleep = (\<lambda>_ w. w), ao_enabled = (\<lambda>w. (True, w))\<rparr>"

subsection \<open>Properties\<close>

text \<open>C16: what a reboot cycle may do to live hardware. A switch that could not be scanned, and any switch
  not in live mode, gets no power-cycle at all. A live cycle power-cycles a subsequence of its targets, each at
  most once and in their order; the targets are merged access points that are not excluded, the silent ones
  first, and no more than the configured number per switch.\<close>

theorem poe_cycles_only_targets:
  "let steps = snd (snd (snd (run_ap_reboot_for_switch ops cfg new_id now sw s))) in
   case fst (ao_scan ops (fst s)) of
     None \<Rightarrow> poe_cycles steps = []
   | Some scanned \<Rightarrow>
       let merged = cycle_merged new_id now sw scanned (snd s); targets = reboot_targets_of cfg merged in
       subseq (poe_cycles steps) (if rs_mode sw = ''live'' then map ma_port targets else [])
       \<and> set targets \<subseteq> {ap \<in> set merged. \<not> ma_excluded ap}
       \<and> sorted (map ma_responding targets)
       \<and> (AUTO_REBOOT_AP_MAX_PER_SWITCH cfg < 0 \<or> int (length targets) \<le> AUTO_REBOOT_AP_MAX_PER_SWITCH cfg)"
proof (cases "fst (ao_scan ops (fst s))")
  case None
  then show ?thesis
    by (simp add: run_ap_reboot_for_switch_def run_ap_reboot_cycle_def Let_def split_beta)
next
  case (Some scanned)
  define merged where "merged = cycle_merged new_id now sw scanned (snd s)"
  have len: "AUTO_REBOOT_AP_MAX_PER_SWITCH cfg < 0 \<or> int (length (reboot_targets_of cfg merged)) \<le> AUTO_REBOOT_AP_MAX_PER_SWITCH cfg"
    unfolding reboot_targets_of_def
    using py_take_subset(2) [of "AUTO_REBOOT_AP_MAX_PER_SWITCH cfg" "sort_key ma_responding (filter (\<lambda>ap. \<not> ma_excluded ap) merged)"]
    by linarith
  have "subseq (poe_cycles (snd (snd (snd (run_ap_reboot_for_switch ops cfg new_id now sw s)))))
      (if rs_mode sw = ''live'' then map ma_port (reboot_targets_of cfg merged) else [])"
    using Some
    by (simp add: run_ap_reboot_for_switch_def run_ap_reboot_cycle_def Let_def split_beta merged_def
        reboot_targets_cycles [where is_dry_run = False, simplified] reboot_targets_cycles [where is_dry_run = True, simplified])
  with Some len reboot_targets_of_ok [of cfg merged] show ?thesis by (simp add: Let_def flip: merged_def)
qed

text \<open>The hung access point of the example store is cycled first, then the one that answers.\<close>

lemma quiet_store_cycles:
  "poe_cycles (snd (snd (snd (run_ap_reboot_for_switch quiet_store default_reboot_settings (\<lambda>_. ''new'') 100 live_switch
     ((), [known_ap ''r1'' ''aa'' ''Gi1/0/1'', known_ap ''r2'' ''bb'' ''Gi1/0/2''])))))
   = [''Gi1/0/2'', ''Gi1/0/1'']"
  by code_simp

text \<open>C39: the verification after a power-cycle ends: it scans the switch at most once per interval of the
  configured wait (rounded up), says that the access point is back only after a scan, and gives up only after
  all of those scans.\<close>

theorem verification_is_bounded:
  "case verify_ap_back_online ops max_wait poll_interval mac 0 w of (back_online, w', steps) \<Rightarrow>
     if back_online then 0 < scans steps \<and> scans steps \<le> nat ((max_wait + max poll_interval 1 - 1) div max poll_interval 1)
     else scans steps = nat ((max_wait + max poll_interval 1 - 1) div max poll_interval 1)"
proof -
  have n: "nat ((max_wait + max poll_interval 1 - 1) div max poll_interval 1) = polls_within (max_wait - 0) (max poll_interval 1)"
    by (simp add: polls_within_def)
  show ?thesis
    unfolding n using verify_scans [where max_wait = max_wait and poll_interval = poll_interval and elapsed = 0
        and ops = ops and mac = mac and w = w] by (simp add: split_beta)
qed

text \<open>A failing streak escalates exactly once: over any number of consecutive failed reboots of an access
  point without a streak, exactly the call that completes the threshold reports the escalation, and from then on
  the access point is excluded from the cycle.\<close>

theorem failing_streak_escalates_once:
  assumes "\<forall>o1 \<in> set outs. snd o1 = Some False" "ar_attention row = None" "ar_failures row = 0" "0 < threshold"
  shows "snd (streak_run threshold outs row) = map (\<lambda>j. int j + 1 = threshold) [0..<length outs]
    \<and> ar_excluded (fst (streak_run threshold outs row)) = (ar_excluded row \<or> threshold \<le> int (length outs))"
  using streak_run_counts [OF assms(1,2), of 0 threshold] assms(3,4) by (simp add: algebra_simps)

theorem failing_streak_escalates_once_witness:
  "snd (streak_run 2 [(1, Some False), (2, Some False), (3, Some False)] (known_ap ''r1'' ''aa'' ''Gi1/0/1'')) = [False, True, False]"
  using failing_streak_escalates_once [of "[(1, Some False), (2, Some False), (3, Some False)]" "known_ap ''r1'' ''aa'' ''Gi1/0/1''" 2]
  by (simp add: known_ap_def fresh_ap_row_def store_ap_def upt_rec)

end
