(* ===== verification/Dhcp_Clear.thy ===== *)
theory Dhcp_Clear
  imports Cisco_Dhcp Ap_Auto_Reboot
begin

section \<open>Scheduled DHCP cleanup (app/domains/inventory/dhcp_clear.py)\<close>

text \<open>
  Who is eligible, and one switch's cleanup with its event log row, its counter and its summary. The
  switch is the pair of \<open>conn\<close> (a session could be opened) and \<open>exec\<close> of theory Cisco_Dhcp.
\<close>

subsection \<open>Settings, switches, eligibility\<close>

record dhcp_switch = reboot_switch +
  ds_clear_enabled :: bool
  ds_clear_mode :: string

record dhcp_settings =
  DHCP_CLEAR_ENABLED :: bool
  DHCP_CLEAR_ALLOWED_STORES :: ustr
  DHCP_CLEAR_ACTIONS :: string
  DHCP_CLEAR_MAX_BINDINGS :: int

definition default_dhcp_settings :: dhcp_settings where
  "default_dhcp_settings = \<lparr>DHCP_CLEAR_ENABLED = True, DHCP_CLEAR_ALLOWED_STORES = cp ''A30'',
     DHCP_CLEAR_ACTIONS = ''conflict,binding'', DHCP_CLEAR_MAX_BINDINGS = 300\<rparr>"

definition parse_clear_actions :: "string \<Rightarrow> string list" where
  "parse_clear_actions raw = remdups (map (\<lambda>a. lower (strip a)) (filter (\<lambda>a. strip a \<noteq> []) (split_on CHR '','' raw)))"

definition switch_eligible_for_dhcp_clear :: "dhcp_switch \<Rightarrow> ustr list \<Rightarrow> skip_reason option" where
  "switch_eligible_for_dhcp_clear sw allowed =
   (if rs_vendor sw \<noteq> ''cisco'' then Some (Vendor_not_supported (rs_vendor sw))
    else if rs_ap_vlan sw \<noteq> required_ap_vlan then Some (Wrong_ap_vlan (rs_ap_vlan sw))
    else if normalize_store_name (ns_name sw) \<notin> set allowed then Some Store_not_allowed
    else None)"

definition get_eligible_switches_for_dhcp_clear :: "dhcp_settings \<Rightarrow> dhcp_switch list \<Rightarrow> dhcp_switch list" where
  "get_eligible_switches_for_dhcp_clear cfg switches =
   (let allowed = parse_allowed_stores (DHCP_CLEAR_ALLOWED_STORES cfg)
    in if \<not> DHCP_CLEAR_ENABLED cfg \<or> allowed = [] then []
       else sort_key ns_name (filter (\<lambda>sw. switch_eligible_for_dhcp_clear sw allowed = None) (filter ds_clear_enabled switches)))"

subsection \<open>One switch\<close>

datatype clear_message =
    Clear_unreachable string ustr
  | Nothing_to_do string ustr dhcp_role "plan_skip list"
  | Would_clear nat nat ustr int
  | Clear_failed ustr nat nat nat "clear_error list"
  | Cleared nat nat ustr int nat "nat option"

datatype clear_out = Clear_total ustr string | Clear_out "clear_message effect"

record clear_counts =
  cc_bindings_cleared :: nat
  cc_conflicts_cleared :: nat
  cc_bindings_after :: "nat option"
  cc_conflicts_after :: "nat option"
  cc_errors :: "clear_error list"

datatype clear_summary =
    Summary_unreachable ustr string
  | Summary ustr string dhcp_role nat nat nat "plan_skip list" "clear_counts option"

definition clear_log :: "dhcp_switch \<Rightarrow> string \<Rightarrow> string \<Rightarrow> clear_message \<Rightarrow> clear_out list" where
  "clear_log sw severity event_type message =
     [Clear_out (EventLog \<lparr>ev_severity = severity, ev_category = ''network'', ev_type = event_type,
        ev_device_kind = Some ''switch'', ev_device_name = Some (ns_name sw), ev_ip_address = Some (ns_ip sw),
        ev_message = message\<rparr>), Clear_out Commit]"

definition run_dhcp_clear_for_switch ::
  "dhcp_settings \<Rightarrow> (string \<Rightarrow> 'w \<Rightarrow> string option \<times> 'w) \<Rightarrow> bool \<Rightarrow> dhcp_switch \<Rightarrow> 'w
   \<Rightarrow> clear_summary \<times> 'w \<times> string list \<times> clear_out list" where
  "run_dhcp_clear_for_switch cfg exec conn sw w =
   (let is_dry_run = (ds_clear_mode sw \<noteq> ''live'');
        mode_label = (if is_dry_run then ''dry_run'' else ''live'');
        actions = filter (\<lambda>a. a \<in> set valid_actions) (parse_clear_actions (DHCP_CLEAR_ACTIONS cfg));
        (result, w1, sent, op) =
          run_dhcp_clear exec conn (rs_ap_vlan sw) actions (DHCP_CLEAR_MAX_BINDINGS cfg) is_dry_run w
    in (case result of
        None \<Rightarrow>
          (Summary_unreachable (ns_name sw) mode_label, w1, sent,
           clear_log sw ''warning'' ''dhcp_clear_skipped'' (Clear_unreachable mode_label (ns_name sw))
             @ [Clear_total (ns_name sw) ''unreachable''])
      | Some res \<Rightarrow>
          let plan = cr_plan res;
              summary = Summary (ns_name sw) mode_label (cr_role res) (length (pl_commands plan))
                (cr_bindings_before res) (cr_conflicts_before res) (pl_skipped plan)
          in if pl_commands plan = [] then
               (summary None, w1, sent,
                clear_log sw ''info'' ''dhcp_clear_skipped'' (Nothing_to_do mode_label (ns_name sw) (cr_role res) (pl_skipped plan))
                  @ [Clear_total (ns_name sw) ''nothing_to_do''])
             else if cr_dry_run res then
               (summary None, w1, sent,
                clear_log sw ''info'' ''dhcp_clear_dry_run''
                    (Would_clear (pl_bindings plan) (pl_conflicts plan) (ns_name sw) (rs_ap_vlan sw))
                  @ [Clear_total (ns_name sw) ''dry_run''])
             else
               (let counts = \<lparr>cc_bindings_cleared = cr_bindings_cleared res, cc_conflicts_cleared = cr_conflicts_cleared res,
                      cc_bindings_after = cr_bindings_after res, cc_conflicts_after = cr_conflicts_after res,
                      cc_errors = cr_errors res\<rparr>
                in if cr_errors res \<noteq> [] then
                     (summary (Some counts), w1, sent,
                      clear_log sw ''error'' ''dhcp_clear_failed''
                          (Clear_failed (ns_name sw) (length (cr_errors res)) (cr_bindings_cleared res)
                             (cr_conflicts_cleared res) (take 3 (cr_errors res)))
                        @ [Clear_total (ns_name sw) ''failed''])
                   else
                     (summary (Some counts), w1, sent,
                      clear_log sw ''info'' ''dhcp_clear''
                          (Cleared (cr_bindings_cleared res) (cr_conflicts_cleared res) (ns_name sw) (rs_ap_vlan sw)
                             (cr_bindings_before res) (cr_bindings_after res))
                        @ [Clear_total (ns_name sw) ''ok'']))))"

subsection \<open>Facts\<close>

text \<open>Anything but the mode \<open>live\<close> only reads the switch.\<close>

lemma run_dhcp_clear_dry_sent:
  "set (fst (snd (snd (run_dhcp_clear exec conn vlan actions max_bindings True w)))) \<subseteq> set (diag_commands vlan)"
  using collect_diagnostics_sent(1) [of exec vlan w]
  by (auto simp: run_dhcp_clear_def Let_def split: prod.splits option.splits)

lemma run_dhcp_clear_disconnected:
  "fst (snd (snd (run_dhcp_clear exec False vlan actions max_bindings dry_run w))) = []"
  by (simp add: run_dhcp_clear_def)

lemma run_for_switch_sent:
  "fst (snd (snd (run_dhcp_clear_for_switch cfg exec conn sw w))) =
   fst (snd (snd (run_dhcp_clear exec conn (rs_ap_vlan sw)
     (filter (\<lambda>a. a \<in> set valid_actions) (parse_clear_actions (DHCP_CLEAR_ACTIONS cfg)))
     (DHCP_CLEAR_MAX_BINDINGS cfg) (ds_clear_mode sw \<noteq> ''live'') w)))"
  by (simp add: run_dhcp_clear_for_switch_def Let_def split: prod.split option.split)

text \<open>The eligible switches are the enabled ones the gate lets through, sorted by name.\<close>

lemma eligible_iff:
  "sw \<in> set (get_eligible_switches_for_dhcp_clear cfg switches) \<longleftrightarrow>
     sw \<in> set switches \<and> ds_clear_enabled sw \<and> DHCP_CLEAR_ENABLED cfg
     \<and> switch_eligible_for_dhcp_clear sw (parse_allowed_stores (DHCP_CLEAR_ALLOWED_STORES cfg)) = None"
  by (auto simp: get_eligible_switches_for_dhcp_clear_def Let_def switch_eligible_for_dhcp_clear_def split: if_splits)

lemma eligible_sorted: "sorted (map ns_name (get_eligible_switches_for_dhcp_clear cfg switches))"
  by (simp add: get_eligible_switches_for_dhcp_clear_def Let_def)

end
