(* ===== verification/Worker_Tasks.thy ===== *)
theory Worker_Tasks
  imports Worker_Lease Dhcp_Clear
begin

section \<open>The live switch tasks of the worker (app/worker/tasks.py)\<close>

text \<open>
  The dispatchers fan one task out per eligible switch; a switch task takes the lease, looks at the gates
  again, works, and leaves its marker whatever happened. \<open>later\<close> is what became of the server between
  the claim and the mark; \<open>link\<close> and \<open>link'\<close> are how the two calls went. Identifiers are the text of a UUID.
\<close>

subsection \<open>The wrapper of every task\<close>

datatype 'a outcome = Plain 'a | Skipped 'a | Body_failed 'a | Raised

datatype task_metric = In_progress string int | Execution string string

record 'a task_payload =
  tp_body :: 'a
  tp_task_id :: "string option"
  tp_operation :: string

definition task_label :: "'a outcome \<Rightarrow> string" where
  "task_label out = (case out of Plain _ \<Rightarrow> ''success'' | Skipped _ \<Rightarrow> ''skipped'' | Body_failed _ \<Rightarrow> ''error'' | Raised \<Rightarrow> ''error'')"

text \<open>\<open>None\<close> when the exception of the body propagates to Celery.\<close>

definition run_task :: "string \<Rightarrow> string option \<Rightarrow> 'a outcome \<Rightarrow> 'a task_payload option \<times> task_metric list" where
  "run_task name request_id out =
   ((case out of
       Raised \<Rightarrow> None
     | Plain x \<Rightarrow> Some \<lparr>tp_body = x, tp_task_id = request_id, tp_operation = name\<rparr>
     | Skipped x \<Rightarrow> Some \<lparr>tp_body = x, tp_task_id = request_id, tp_operation = name\<rparr>
     | Body_failed x \<Rightarrow> Some \<lparr>tp_body = x, tp_task_id = request_id, tp_operation = name\<rparr>),
    [In_progress name 1, In_progress name (-1), Execution name (task_label out)])"

text \<open>\<open>cycle_id or self.request.id or f"manual:{uuid4}"\<close>\<close>

definition task_cycle_id :: "string option \<Rightarrow> string option \<Rightarrow> string \<Rightarrow> string" where
  "task_cycle_id cycle_id request_id uuid = (case truthy (or_else cycle_id request_id) of None \<Rightarrow> ''manual:'' @ uuid | Some c \<Rightarrow> c)"

subsection \<open>The dispatchers\<close>

text \<open>The tasks enqueued: the switch, the cycle and the countdown.\<close>

definition fan_out :: "int \<Rightarrow> string \<Rightarrow> uid list \<Rightarrow> (uid \<times> string \<times> int) list" where
  "fan_out stagger cycle_id ids = map (\<lambda>(i, sid). (sid, cycle_id, int i * stagger)) (enumerate 0 ids)"

definition ap_auto_reboot_cycle_task ::
  "worker_settings \<Rightarrow> reboot_settings \<Rightarrow> string option \<Rightarrow> string \<Rightarrow> reboot_switch list \<Rightarrow> (uid \<times> string \<times> int) list \<times> nat" where
  "ap_auto_reboot_cycle_task wcfg cfg request_id uuid switches =
   (let eligible = get_eligible_switches_for_auto_reboot cfg switches;
        stagger = max (AUTO_REBOOT_AP_STAGGER_SECONDS wcfg) 0;
        cycle_id = (case truthy request_id of None \<Rightarrow> uuid | Some c \<Rightarrow> c)
    in (fan_out stagger cycle_id (map ns_id eligible), length eligible))"

definition dhcp_clear_cycle_task ::
  "worker_settings \<Rightarrow> dhcp_settings \<Rightarrow> string option \<Rightarrow> string \<Rightarrow> dhcp_switch list \<Rightarrow> (uid \<times> string \<times> int) list \<times> nat" where
  "dhcp_clear_cycle_task wcfg cfg request_id uuid switches =
   (let eligible = get_eligible_switches_for_dhcp_clear cfg switches;
        stagger = max (DHCP_CLEAR_STAGGER_SECONDS wcfg) 0;
        cycle_id = (case truthy request_id of None \<Rightarrow> uuid | Some c \<Rightarrow> c)
    in (fan_out stagger cycle_id (map ns_id eligible), length eligible))"

subsection \<open>One switch\<close>

datatype 'a task_end =
    Refused lease_refusal
  | Switch_not_found
  | Disabled_since_dispatch ustr
  | No_longer_eligible ustr skip_reason
  | Ran 'a

definition task_outcome :: "'a task_end \<Rightarrow> 'a task_end outcome" where
  "task_outcome e = (case e of Ran _ \<Rightarrow> Plain e | Switch_not_found \<Rightarrow> Body_failed e | _ \<Rightarrow> Skipped e)"

definition ap_auto_reboot_switch_task ::
  "'r script_ops \<Rightarrow> worker_settings \<Rightarrow> reboot_settings \<Rightarrow> 'w ap_ops \<Rightarrow> (nat \<Rightarrow> uid) \<Rightarrow> instant \<Rightarrow> string \<Rightarrow> link \<Rightarrow> link
   \<Rightarrow> ('r \<Rightarrow> 'r) \<Rightarrow> uid \<Rightarrow> string \<Rightarrow> 'r \<Rightarrow> reboot_switch list \<times> 'w \<times> ap_row list
   \<Rightarrow> cycle_result task_end \<times> 'r \<times> (reboot_switch list \<times> 'w \<times> ap_row list) \<times> ap_step list" where
  "ap_auto_reboot_switch_task ops wcfg cfg apops new_id now token link link' later switch_id cycle_id r s =
   (case acquire_auto_reboot_lease ops wcfg switch_id cycle_id token link r of
      (Inl refusal, r1) \<Rightarrow> (Refused refusal, r1, s, [])
    | (Inr lease, r1) \<Rightarrow>
        let r2 = mark_attempted ops wcfg lease link' (later r1)
        in (case find_row ns_id switch_id (fst s) of
             None \<Rightarrow> (Switch_not_found, r2, s, [])
           | Some sw \<Rightarrow>
               if \<not> rs_enabled sw then (Disabled_since_dispatch (ns_name sw), r2, s, [])
               else (case switch_eligible_for_auto_reboot sw (parse_allowed_stores (AUTO_REBOOT_AP_ALLOWED_STORES cfg)) of
                   Some reason \<Rightarrow> (No_longer_eligible (ns_name sw) reason, r2, s, [])
                 | None \<Rightarrow>
                     let (result, sw', ws, steps) = run_ap_reboot_for_switch apops cfg new_id now sw (snd s)
                     in (Ran result, r2, (put_row ns_id sw' (fst s), ws), steps))))"

definition dhcp_clear_switch_task ::
  "'r script_ops \<Rightarrow> worker_settings \<Rightarrow> dhcp_settings \<Rightarrow> (string \<Rightarrow> 'w \<Rightarrow> string option \<times> 'w) \<Rightarrow> bool \<Rightarrow> string \<Rightarrow> link \<Rightarrow> link
   \<Rightarrow> ('r \<Rightarrow> 'r) \<Rightarrow> uid \<Rightarrow> string \<Rightarrow> 'r \<Rightarrow> dhcp_switch list \<Rightarrow> 'w
   \<Rightarrow> clear_summary task_end \<times> 'r \<times> 'w \<times> string list \<times> clear_out list" where
  "dhcp_clear_switch_task ops wcfg cfg exec conn token link link' later switch_id cycle_id r switches w =
   (case acquire_dhcp_clear_lease ops wcfg switch_id cycle_id token link r of
      (Inl refusal, r1) \<Rightarrow> (Refused refusal, r1, w, [], [])
    | (Inr lease, r1) \<Rightarrow>
        let r2 = mark_attempted ops wcfg lease link' (later r1)
        in (case find_row ns_id switch_id switches of
             None \<Rightarrow> (Switch_not_found, r2, w, [], [])
           | Some sw \<Rightarrow>
               if \<not> ds_clear_enabled sw then (Disabled_since_dispatch (ns_name sw), r2, w, [], [])
               else (case switch_eligible_for_dhcp_clear sw (parse_allowed_stores (DHCP_CLEAR_ALLOWED_STORES cfg)) of
                   Some reason \<Rightarrow> (No_longer_eligible (ns_name sw) reason, r2, w, [], [])
                 | None \<Rightarrow>
                     let (result, w', sent, outs) = run_dhcp_clear_for_switch cfg exec conn sw w
                     in (Ran result, r2, w', sent, outs))))"

subsection \<open>Facts\<close>

lemma length_fan_out [simp]: "length (fan_out stagger cycle_id ids) = length ids"
  by (simp add: fan_out_def)

lemma fan_out_nth: "i < length ids \<Longrightarrow> fan_out stagger cycle_id ids ! i = (ids ! i, cycle_id, int i * stagger)"
  by (simp add: fan_out_def nth_enumerate_eq)

text \<open>What a cleanup may have sent: a read, or a command of the plan of its own read.\<close>

lemma run_dhcp_clear_sent:
  assumes "c \<in> set (fst (snd (snd (run_dhcp_clear exec conn vlan actions max_bindings dry_run w))))"
  shows "c \<in> set (diag_commands vlan)
    \<or> \<not> dry_run \<and> (\<exists>outs. c \<in> set (pl_commands (plan_clear (diagnostics_of vlan outs) actions max_bindings)))"
proof -
  obtain first w1 sent1 where first: "collect_diagnostics exec vlan w = (first, w1, sent1)" by (metis prod_cases3)
  note sent1 = collect_diagnostics_sent [OF first]
  show ?thesis
  proof (cases "conn \<and> first \<noteq> None \<and> \<not> dry_run")
    case False
    with assms first sent1(1) show ?thesis
      by (cases first) (auto simp: run_dhcp_clear_def Let_def split: if_splits)
  next
    case True
    then obtain diag where diag: "first = Some diag" by blast
    obtain outs where outs: "diag = diagnostics_of vlan outs" using sent1(2) [OF diag] by blast
    define plan where "plan = plan_clear diag actions max_bindings"
    define res0 where "res0 = \<lparr>cr_dry_run = False, cr_role = dd_role diag, cr_plan = plan, cr_conflicts_cleared = 0,
      cr_bindings_cleared = 0, cr_errors = [], cr_bindings_before = length (dd_ap_bindings diag),
      cr_bindings_after = None, cr_conflicts_before = length (dd_conflicts diag), cr_conflicts_after = None\<rparr>"
    obtain res1 w2 sent2 where clears: "run_clears exec (pl_commands plan) w1 res0 = (res1, w2, sent2)" by (metis prod_cases3)
    obtain after w3 sent3 where last_read: "collect_diagnostics exec vlan w2 = (after, w3, sent3)" by (metis prod_cases3)
    have "set sent2 \<subseteq> set (pl_commands plan)" using run_clears_ok [OF clears] by auto
    moreover have "c \<in> set sent1 \<union> set sent2 \<union> set sent3"
      using assms True first diag clears last_read
      by (auto simp: run_dhcp_clear_def Let_def plan_def [symmetric] res0_def [symmetric] split: if_splits)
    ultimately show ?thesis
      using sent1(1) collect_diagnostics_sent(1) [OF last_read] True outs plan_def by blast
  qed
qed

subsection \<open>Properties\<close>

text \<open>The reboot task fails closed: without its lease it does nothing at all, with it it still does nothing
  unless the switch exists, is enabled and is eligible at that moment; and whatever it did, it marks the cycle as
  attempted.\<close>

theorem reboot_task_is_gated:
  "(case ap_auto_reboot_switch_task ops wcfg cfg apops new_id now token link link' later switch_id cycle_id r s of
     (result, r', s', steps) \<Rightarrow>
       (case acquire_auto_reboot_lease ops wcfg switch_id cycle_id token link r of
          (Inl refusal, r1) \<Rightarrow> result = Refused refusal \<and> r' = r1 \<and> s' = s \<and> steps = []
        | (Inr lease, r1) \<Rightarrow> r' = mark_attempted ops wcfg lease link' (later r1)
            \<and> (if (\<exists>sw. find_row ns_id switch_id (fst s) = Some sw \<and> rs_enabled sw
                    \<and> switch_eligible_for_auto_reboot sw (parse_allowed_stores (AUTO_REBOOT_AP_ALLOWED_STORES cfg)) = None)
               then (\<exists>res. result = Ran res) else s' = s \<and> steps = [])))"
  by (auto simp: ap_auto_reboot_switch_task_def Let_def split: prod.splits sum.splits option.splits if_splits)

text \<open>C27: the cleanup task sends a switch anything but show commands only with the lease, for an enabled,
  eligible switch in live mode, and then only a confined command of a plan for the AP VLAN.\<close>

theorem dhcp_task_is_gated:
  "list_all (\<lambda>c. c \<in> set (diag_commands required_ap_vlan)
      \<or> (\<exists>lease sw outs. fst (acquire_dhcp_clear_lease ops wcfg switch_id cycle_id token link r) = Inr lease
           \<and> find_row ns_id switch_id switches = Some sw \<and> ds_clear_enabled sw \<and> ds_clear_mode sw = ''live''
           \<and> switch_eligible_for_dhcp_clear sw (parse_allowed_stores (DHCP_CLEAR_ALLOWED_STORES cfg)) = None
           \<and> dd_role (diagnostics_of required_ap_vlan outs) = Local_server \<and> confined required_ap_vlan outs c))
    (fst (snd (snd (snd (dhcp_clear_switch_task ops wcfg cfg exec conn token link link' later switch_id cycle_id r switches w)))))"
proof (cases "fst (acquire_dhcp_clear_lease ops wcfg switch_id cycle_id token link r)")
  case (Inl e)
  then show ?thesis
    by (cases "acquire_dhcp_clear_lease ops wcfg switch_id cycle_id token link r") (simp add: dhcp_clear_switch_task_def)
next
  case (Inr lease)
  show ?thesis
  proof (cases "\<exists>sw. find_row ns_id switch_id switches = Some sw \<and> ds_clear_enabled sw
      \<and> switch_eligible_for_dhcp_clear sw (parse_allowed_stores (DHCP_CLEAR_ALLOWED_STORES cfg)) = None")
    case False
    with Inr have "fst (snd (snd (snd (dhcp_clear_switch_task ops wcfg cfg exec conn token link link' later switch_id
        cycle_id r switches w)))) = []"
      by (auto simp: dhcp_clear_switch_task_def Let_def split: prod.split sum.split option.split)
    then show ?thesis by simp
  next
    case True
    then obtain sw where sw: "find_row ns_id switch_id switches = Some sw" "ds_clear_enabled sw"
      "switch_eligible_for_dhcp_clear sw (parse_allowed_stores (DHCP_CLEAR_ALLOWED_STORES cfg)) = None" by blast
    then have vlan: "rs_ap_vlan sw = required_ap_vlan" by (auto simp: switch_eligible_for_dhcp_clear_def split: if_splits)
    have "fst (snd (snd (snd (dhcp_clear_switch_task ops wcfg cfg exec conn token link link' later switch_id cycle_id r switches w))))
      = fst (snd (snd (run_dhcp_clear_for_switch cfg exec conn sw w)))"
      using Inr sw by (auto simp: dhcp_clear_switch_task_def Let_def split: prod.splits sum.splits)
    moreover have "c \<in> set (diag_commands required_ap_vlan) \<or> ds_clear_mode sw = ''live''
        \<and> (\<exists>outs. dd_role (diagnostics_of required_ap_vlan outs) = Local_server \<and> confined required_ap_vlan outs c)"
      if "c \<in> set (fst (snd (snd (run_dhcp_clear_for_switch cfg exec conn sw w))))" for c
      using run_dhcp_clear_sent [OF that [unfolded run_for_switch_sent]] plan_commands_confined unfolding vlan by blast
    ultimately show ?thesis using sw Inr by (auto simp: list_all_iff)
  qed
qed

end
