(* ===== verification/Honest_Sign.thy ===== *)
theory Honest_Sign
  imports Ipv4 Complex_Main
begin

section \<open>Honest Sign Local Modules of the registers (app/services/honest_sign.py)\<close>

text \<open>
  The targets configured in one setting, their IP overrides, the status check of one Local Module, linking
  targets to registers, the alert latch of the scheduled check, and initialization. What a Local
  Module answers is a parameter. Hosts are ASCII text, labels and host names code points. Messages are
  constructors of \<open>hs_note\<close>; none of their texts reaches the 255 characters stored.
\<close>

subsection \<open>Targets\<close>

record hs_target =
  ht_host :: string
  ht_label :: ustr
  ht_hostname :: "ustr option"
  ht_original :: string

record hs_override =
  ho_original :: string
  ho_current :: string
  ho_updated_at :: "instant option"

record hs_settings =
  HONEST_SIGN_TARGETS :: ustr
  HONEST_SIGN_API_LOGIN :: ustr
  HONEST_SIGN_API_PASSWORD :: ustr
  HONEST_SIGN_TOKEN :: string
  HONEST_SIGN_STATUS_WAIT_SECONDS :: rat
  HONEST_SIGN_ALERT_AFTER_FAILURES :: int

text \<open>\<open>str(ipaddress.IPv4Address(text))\<close>; \<open>None\<close> is \<open>AddressValueError\<close>.\<close>

definition show_ipv4 :: "ipv4 \<Rightarrow> string" where
  "show_ipv4 a = (let n = unat a in join ''.'' (map show_nat
     [n div 16777216, n div 65536 mod 256, n div 256 mod 256, n mod 256]))"

definition ascii_text :: "ustr \<Rightarrow> string option" where
  "ascii_text s = (if list_all (\<lambda>c. c < 128) s then Some (map char_of s) else None)"

definition canonical_ip :: "ustr \<Rightarrow> string option" where
  "canonical_ip s = (case ascii_text s of None \<Rightarrow> None | Some t \<Rightarrow> map_option show_ipv4 (ipv4_address t))"

fun u_split_on :: "nat \<Rightarrow> ustr \<Rightarrow> ustr list" where
  "u_split_on c [] = [[]]"
| "u_split_on c (x # xs) =
     (if x = c then [] # u_split_on c xs
      else (case u_split_on c xs of [] \<Rightarrow> [[x]] | w # ws \<Rightarrow> (x # w) # ws))"

text \<open>\<open>s.split(c, n)\<close>\<close>

fun u_split_max :: "nat \<Rightarrow> nat \<Rightarrow> ustr \<Rightarrow> ustr list" where
  "u_split_max c n [] = [[]]"
| "u_split_max c n (x # xs) =
     (if n = 0 then [x # xs]
      else if x = c then [] # u_split_max c (n - 1) xs
      else (case u_split_max c n xs of [] \<Rightarrow> [[x]] | w # ws \<Rightarrow> (x # w) # ws))"

definition u_rstrip_dots :: "ustr \<Rightarrow> ustr" where
  "u_rstrip_dots s = rev (dropWhile (\<lambda>c. c = 46) (rev s))"

definition ascii_alnum :: "nat \<Rightarrow> bool" where
  "ascii_alnum c \<longleftrightarrow> (48 \<le> c \<and> c \<le> 57) \<or> (65 \<le> c \<and> c \<le> 90) \<or> (97 \<le> c \<and> c \<le> 122)"

definition dns_label :: "ustr \<Rightarrow> bool" where
  "dns_label l \<longleftrightarrow> l \<noteq> [] \<and> length l \<le> 63 \<and> list_all (\<lambda>c. ascii_alnum c \<or> c = 45) l \<and> ascii_alnum (hd l) \<and> ascii_alnum (last l)"

definition normalize_hostname :: "ustr \<Rightarrow> ustr option" where
  "normalize_hostname raw =
     (let v = u_rstrip_dots (u_strip raw)
      in if v = [] \<or> 255 < length v then None
         else if list_ex (\<lambda>l. \<not> dns_label l) (u_split_on 46 v) then None else Some v)"

definition default_label :: ustr where
  "default_label = [1050, 1072, 1089, 1089, 1072]"

definition overrides_by_original_host :: "hs_override list \<Rightarrow> string \<Rightarrow> string option" where
  "overrides_by_original_host tab = map_of (rev (map (\<lambda>o'. (ho_original o', ho_current o')) tab))"

text \<open>One entry of the setting. The state is the hosts seen so far and the targets so far.\<close>

definition target_entry ::
  "(string \<Rightarrow> string option) \<Rightarrow> string list \<times> hs_target list \<Rightarrow> ustr \<Rightarrow> string list \<times> hs_target list" where
  "target_entry overrides s item =
   (let entry = u_strip item
    in if entry = [] then s
       else
         let parts = map u_strip (u_split_max 124 2 entry)
         in (case canonical_ip (u_strip (parts ! 0)) of
               None \<Rightarrow> s
             | Some original \<Rightarrow>
                 if original \<in> set (fst s) then s
                 else
                   (original # fst s,
                    snd s @ [\<lparr>ht_host = (case overrides original of None \<Rightarrow> original | Some h \<Rightarrow> h),
                       ht_label = take 128 (if 1 < length parts \<and> parts ! 1 \<noteq> [] then parts ! 1 else default_label),
                       ht_hostname = (if 2 < length parts then normalize_hostname (parts ! 2) else None),
                       ht_original = original\<rparr>])))"

definition config_items :: "ustr \<Rightarrow> ustr list" where
  "config_items raw = u_split_on 44 (map (\<lambda>c. if c = 13 \<or> c = 10 then 44 else c) raw)"

definition configured_targets :: "hs_settings \<Rightarrow> hs_override list \<Rightarrow> hs_target list" where
  "configured_targets cfg tab =
     snd (foldl (target_entry (overrides_by_original_host tab)) ([], []) (config_items (HONEST_SIGN_TARGETS cfg)))"

datatype hs_error = No_such_target | Invalid_new_ip | Ip_in_use string | Not_configured | No_credentials | No_token

definition get_configured_target :: "hs_settings \<Rightarrow> hs_override list \<Rightarrow> ustr \<Rightarrow> hs_error + hs_target" where
  "get_configured_target cfg tab host = (case canonical_ip (u_strip host) of
     None \<Rightarrow> Inl No_such_target
   | Some h \<Rightarrow> (case find (\<lambda>t. ht_host t = h) (configured_targets cfg tab) of
       None \<Rightarrow> Inl No_such_target | Some t \<Rightarrow> Inr t))"

text \<open>An override moves a target to a new address, unless that address belongs to another target. The last step
  reads the target back; \<open>next\<close> of nothing would be a \<open>StopIteration\<close>, here \<open>None\<close> in the result.\<close>

definition set_target_ip_override ::
  "hs_settings \<Rightarrow> instant \<Rightarrow> ustr \<Rightarrow> ustr \<Rightarrow> hs_override list \<Rightarrow> (hs_error + hs_target option) \<times> hs_override list" where
  "set_target_ip_override cfg now original_host new_ip tab =
   (case canonical_ip (u_strip original_host) of
      None \<Rightarrow> (Inl No_such_target, tab)
    | Some original \<Rightarrow> (case canonical_ip (u_strip new_ip) of
        None \<Rightarrow> (Inl Invalid_new_ip, tab)
      | Some new \<Rightarrow>
          if find (\<lambda>t. ht_original t = original) (configured_targets cfg []) = None then (Inl No_such_target, tab)
          else if list_ex (\<lambda>t. ht_original t \<noteq> original \<and> (ht_original t = new \<or> ht_host t = new)) (configured_targets cfg tab)
          then (Inl (Ip_in_use new), tab)
          else
            let tab' = (case find_row ho_original original tab of
                  Some row \<Rightarrow> put_row ho_original (row\<lparr>ho_current := new, ho_updated_at := Some now\<rparr>) tab
                | None \<Rightarrow> tab @ [\<lparr>ho_original = original, ho_current = new, ho_updated_at = None\<rparr>])
            in (Inr (find (\<lambda>t. ht_original t = original) (configured_targets cfg tab')), tab')))"

subsection \<open>Is the integration configured?\<close>

definition status_configuration_ready :: "hs_settings \<Rightarrow> bool" where
  "status_configuration_ready cfg \<longleftrightarrow> configured_targets cfg [] \<noteq> []
     \<and> u_strip (HONEST_SIGN_API_LOGIN cfg) \<noteq> [] \<and> u_strip (HONEST_SIGN_API_PASSWORD cfg) \<noteq> []"

definition require_status_configuration :: "hs_settings \<Rightarrow> hs_error option" where
  "require_status_configuration cfg =
     (if configured_targets cfg [] = [] then Some Not_configured
      else if u_strip (HONEST_SIGN_API_LOGIN cfg) = [] \<or> u_strip (HONEST_SIGN_API_PASSWORD cfg) = [] then Some No_credentials
      else None)"

text \<open>\<open>uuid.UUID(text)\<close>: the decorations are removed and 32 characters must be left that \<open>int(s, 16)\<close> reads.\<close>

fun remove_all :: "string \<Rightarrow> string \<Rightarrow> string" where
  "remove_all pat [] = []"
| "remove_all pat (c # cs) =
     (if pat \<noteq> [] \<and> starts_with pat (c # cs) then remove_all pat (drop (length pat - 1) cs) else c # remove_all pat cs)"

definition strip_braces :: "string \<Rightarrow> string" where
  "strip_braces s = (let b = (\<lambda>c. c = CHR ''{'' \<or> c = CHR ''}'') in rev (dropWhile b (rev (dropWhile b s))))"

definition hex_digit :: "char \<Rightarrow> bool" where
  "hex_digit c \<longleftrightarrow> is_digit c \<or> lower_char c \<in> set ''abcdef''"

fun hex_digits :: "string \<Rightarrow> bool" where
  "hex_digits [] = False"
| "hex_digits [c] = hex_digit c"
| "hex_digits (c # d # cs) = (hex_digit c \<and> (if d = CHR ''_'' then cs \<noteq> [] \<and> hex_digits cs else hex_digits (d # cs)))"

definition int16_ok :: "string \<Rightarrow> bool" where
  "int16_ok s = (let t = strip s; u = (if t \<noteq> [] \<and> hd t \<in> set ''+-'' then tl t else t)
     in hex_digits u \<or> (lower (take 2 u) = ''0x'' \<and>
          (hex_digits (drop 2 u) \<or> take 1 (drop 2 u) = ''_'' \<and> hex_digits (drop 3 u))))"

definition uuid_ok :: "string \<Rightarrow> bool" where
  "uuid_ok s = (let h = remove_all ''-'' (strip_braces (remove_all ''uuid:'' (remove_all ''urn:'' s)))
     in length h = 32 \<and> int16_ok h)"

definition initialization_configuration_ready :: "hs_settings \<Rightarrow> bool" where
  "initialization_configuration_ready cfg \<longleftrightarrow> status_configuration_ready cfg \<and> uuid_ok (strip (HONEST_SIGN_TOKEN cfg))"

definition require_initialization_configuration :: "hs_settings \<Rightarrow> hs_error option" where
  "require_initialization_configuration cfg = (case require_status_configuration cfg of
     Some e \<Rightarrow> Some e
   | None \<Rightarrow> if uuid_ok (strip (HONEST_SIGN_TOKEN cfg)) then None else Some No_token)"


subsection \<open>One status check\<close>

text \<open>What the HTTP client gives back; for a JSON object, \<open>str\<close> of \<open>status\<close> when it is truthy, and of \<open>version\<close>
  unless it is null. A JSON text that is no object has no \<open>get\<close>.\<close>

datatype hs_body = Bad_json | No_object | Object "ustr option" "ustr option"
datatype hs_answer = Timed_out | Http_failed | Response int hs_body

datatype hs_note = No_note | Http_status int | Malformed_json | Timeout_note | No_connection
  | Already_ready_note | Init_timeout | Init_no_connection | Rejected_login | Status_after ustr

record hs_status =
  hs_host :: string
  hs_label :: ustr
  hs_hostname :: "ustr option"
  hs_original :: string
  hs_reachable :: bool
  hs_state :: ustr
  hs_version :: "ustr option"
  hs_ready :: bool
  hs_message :: hs_note
  hs_checked_at :: instant

definition show_ustr :: "int \<Rightarrow> ustr" where
  "show_ustr n = cp (show_int n)"

definition u_casefold :: "ustr \<Rightarrow> ustr" where
  "u_casefold s = concat (map (\<lambda>c. if c = 223 then [115, 115] else if c = 181 then [956] else [u_lower_cp c]) s)"

definition hs_result :: "hs_target \<Rightarrow> instant \<Rightarrow> bool \<Rightarrow> ustr \<Rightarrow> ustr option \<Rightarrow> bool \<Rightarrow> hs_note \<Rightarrow> hs_status" where
  "hs_result t now reachable state version ready note =
     \<lparr>hs_host = ht_host t, hs_label = ht_label t, hs_hostname = ht_hostname t, hs_original = ht_original t,
      hs_reachable = reachable, hs_state = state, hs_version = version, hs_ready = ready, hs_message = note,
      hs_checked_at = now\<rparr>"

text \<open>\<open>None\<close> when the check raises.\<close>

definition check_target :: "instant \<Rightarrow> hs_answer \<Rightarrow> hs_target \<Rightarrow> hs_status option" where
  "check_target now answer t = (case answer of
     Timed_out \<Rightarrow> Some (hs_result t now False (cp ''ERROR'') None False Timeout_note)
   | Http_failed \<Rightarrow> Some (hs_result t now False (cp ''ERROR'') None False No_connection)
   | Response code body \<Rightarrow>
       if code \<noteq> 200 then Some (hs_result t now True (cp ''HTTP_'' @ show_ustr code) None False (Http_status code))
       else (case body of
           Bad_json \<Rightarrow> Some (hs_result t now True (cp ''INVALID_RESPONSE'') None False Malformed_json)
         | No_object \<Rightarrow> None
         | Object st ver \<Rightarrow>
             let state = take 64 (case truthy st of None \<Rightarrow> cp ''unknown'' | Some s \<Rightarrow> s)
             in Some (hs_result t now True state (map_option (take 64) ver) (u_casefold state = cp ''ready'') No_note)))"

text \<open>All targets at once; one check that raises takes the others with it.\<close>

definition check_all_honest_sign_targets ::
  "hs_settings \<Rightarrow> instant \<Rightarrow> (string \<Rightarrow> hs_answer) \<Rightarrow> hs_override list \<Rightarrow> hs_error + hs_status list option" where
  "check_all_honest_sign_targets cfg now answer tab = (case require_status_configuration cfg of
     Some e \<Rightarrow> Inl e
   | None \<Rightarrow>
       let results = map (\<lambda>t. check_target now (answer (ht_host t)) t) (configured_targets cfg tab)
       in Inr (if None \<in> set results then None else Some (map the results)))"

subsection \<open>Targets and registers\<close>

record hs_links =
  hl_links :: "(uid \<times> hs_target) list"
  hl_unmatched :: "hs_target list"
  hl_ambiguous :: "ustr list"

definition hostname_key :: "ustr option \<Rightarrow> ustr" where
  "hostname_key value = (case truthy value of None \<Rightarrow> []
     | Some v \<Rightarrow> u_casefold (hd (u_split_on 46 (u_rstrip_dots (u_strip v)))))"

definition keyed :: "('a \<Rightarrow> ustr option) \<Rightarrow> 'a list \<Rightarrow> (ustr \<times> 'a) list" where
  "keyed name xs = filter (\<lambda>p. fst p \<noteq> []) (map (\<lambda>x. (hostname_key (name x), x)) xs)"

definition link_cash_registers :: "hs_target list \<Rightarrow> (uid \<times> ustr option) list \<Rightarrow> hs_links" where
  "link_cash_registers targets registers =
   (let by_target = group_pairs (keyed ht_hostname targets);
        by_register = group_pairs (keyed snd registers);
        regs = (\<lambda>key. case map_of by_register key of None \<Rightarrow> [] | Some rs \<Rightarrow> rs);
        claimed = filter (\<lambda>kt. regs (fst kt) \<noteq> []) by_target;
        single = (\<lambda>kt. length (snd kt) = 1 \<and> length (regs (fst kt)) = 1)
    in \<lparr>hl_links = map (\<lambda>kt. (fst (hd (regs (fst kt))), hd (snd kt))) (filter single claimed),
        hl_unmatched = filter (\<lambda>t. hostname_key (ht_hostname t) \<notin> fst ` set claimed) targets,
        hl_ambiguous = sort (map fst (filter (\<lambda>kt. \<not> single kt) claimed))\<rparr>)"

subsection \<open>The stored results and the alert latch\<close>

record hs_record =
  hr_original :: string
  hr_host :: string
  hr_reachable :: bool
  hr_state :: ustr
  hr_version :: "ustr option"
  hr_ready :: bool
  hr_message :: hs_note
  hr_checked_at :: instant
  hr_since :: instant
  hr_failures :: int
  hr_reported :: bool

datatype hs_message = Recovered ustr | Not_ready ustr hs_note ustr

definition hs_event :: "string \<Rightarrow> string \<Rightarrow> hs_status \<Rightarrow> hs_message \<Rightarrow> hs_message event" where
  "hs_event event_type severity row message = \<lparr>ev_severity = severity, ev_category = ''honest_sign'', ev_type = event_type,
     ev_device_kind = Some ''cash_register'', ev_device_name = Some (hs_label row), ev_ip_address = Some (hs_host row),
     ev_message = message\<rparr>"

text \<open>The record a result is written to: a new one, one of another address that starts afresh, or the old one.\<close>

definition base_record :: "hs_record option \<Rightarrow> hs_status \<Rightarrow> hs_record" where
  "base_record old row = (case old of
     None \<Rightarrow> \<lparr>hr_original = hs_original row, hr_host = hs_host row, hr_reachable = hs_reachable row, hr_state = hs_state row,
       hr_version = None, hr_ready = hs_ready row, hr_message = No_note, hr_checked_at = hs_checked_at row,
       hr_since = hs_checked_at row, hr_failures = 0, hr_reported = False\<rparr>
   | Some r \<Rightarrow>
       if hr_host r \<noteq> hs_host row
       then r\<lparr>hr_host := hs_host row, hr_since := hs_checked_at row, hr_failures := 0, hr_reported := False\<rparr>
       else if hr_ready r \<noteq> hs_ready row then r\<lparr>hr_since := hs_checked_at row\<rparr> else r)"

definition record_one :: "hs_settings \<Rightarrow> hs_record option \<Rightarrow> hs_status \<Rightarrow> hs_record \<times> hs_message effect list" where
  "record_one cfg old row =
   (let threshold = max 1 (HONEST_SIGN_ALERT_AFTER_FAILURES cfg);
        r = (base_record old row)\<lparr>hr_reachable := hs_reachable row, hr_state := hs_state row, hr_version := hs_version row,
              hr_ready := hs_ready row, hr_message := hs_message row, hr_checked_at := hs_checked_at row\<rparr>
    in if hs_ready row then
         (r\<lparr>hr_failures := 0, hr_reported := False\<rparr>,
          if hr_reported r then [EventLog (hs_event ''honest_sign_recovered'' ''info'' row (Recovered (hs_label row)))] else [])
       else
         let n = hr_failures r + 1
         in if hr_reported r \<or> n < threshold then (r\<lparr>hr_failures := n\<rparr>, [])
            else (r\<lparr>hr_failures := n, hr_reported := True\<rparr>,
                  [EventLog (hs_event (if hs_reachable row then ''honest_sign_not_ready'' else ''honest_sign_down'')
                     (if hs_reachable row then ''warning'' else ''error'') row
                     (Not_ready (hs_label row) (hs_message row) (hs_state row)))]))"

text \<open>The loop keeps the existing records and the new ones apart: a new record is not looked up again.\<close>

definition record_row ::
  "hs_settings \<Rightarrow> hs_status \<Rightarrow> hs_record list \<times> hs_record list \<Rightarrow> (hs_record list \<times> hs_record list) \<times> hs_message effect list" where
  "record_row cfg row s =
   (let (r, es) = record_one cfg (find_row hr_original (hs_original row) (fst s)) row
    in (if hs_original row \<in> hr_original ` set (fst s) then (put_row hr_original r (fst s), snd s) else (fst s, snd s @ [r]), es))"

definition record_check_results ::
  "hs_settings \<Rightarrow> hs_status list \<Rightarrow> hs_record list \<Rightarrow> hs_record list \<times> hs_message effect list" where
  "record_check_results cfg rows tab =
   (let ((existing, added), es) = fold_eff (record_row cfg) rows (tab, [])
    in (filter (\<lambda>r. hr_original r \<in> hs_original ` set rows) existing @ added, es @ [Commit]))"

definition stored_status :: "hs_target \<Rightarrow> hs_record \<Rightarrow> hs_status \<times> instant \<times> int" where
  "stored_status t r = ((hs_result t (hr_checked_at r) (hr_reachable r) (hr_state r) (hr_version r) (hr_ready r) (hr_message r)),
     hr_since r, hr_failures r)"

definition stored_statuses :: "hs_settings \<Rightarrow> hs_override list \<Rightarrow> hs_record list \<Rightarrow> (hs_status \<times> instant \<times> int) list" where
  "stored_statuses cfg tab records = List.map_filter (\<lambda>t.
     case map_of (rev (map (\<lambda>r. (hr_original r, r)) records)) (ht_original t) of
       None \<Rightarrow> None
     | Some r \<Rightarrow> if hr_host r \<noteq> ht_host t then None else Some (stored_status t r)) (configured_targets cfg tab)"

subsection \<open>Initialization\<close>

record 'w hs_client =
  hc_status :: "string \<Rightarrow> 'w \<Rightarrow> hs_answer \<times> 'w"
  hc_init :: "string \<Rightarrow> 'w \<Rightarrow> hs_answer \<times> 'w"

datatype hs_step = Get_status string | Post_init string | Wait rat

record hs_init =
  hi_target :: hs_target
  hi_initial :: ustr
  hi_final :: ustr
  hi_result :: string
  hi_message :: hs_note

definition init_wait :: "hs_settings \<Rightarrow> rat" where
  "init_wait cfg = max 0 (min (HONEST_SIGN_STATUS_WAIT_SECONDS cfg) 30)"

text \<open>\<open>None\<close> in the result when a check raises.\<close>

definition initialize_honest_sign_target ::
  "hs_settings \<Rightarrow> 'w hs_client \<Rightarrow> instant \<Rightarrow> hs_target \<Rightarrow> 'w \<Rightarrow> (hs_error + hs_init option) \<times> 'w \<times> hs_step list" where
  "initialize_honest_sign_target cfg client now t w = (case require_initialization_configuration cfg of
     Some e \<Rightarrow> (Inl e, w, [])
   | None \<Rightarrow>
       let (a1, w1) = hc_status client (ht_host t) w
       in (case check_target now a1 t of
             None \<Rightarrow> (Inr None, w1, [Get_status (ht_host t)])
           | Some initial \<Rightarrow>
               let result = (\<lambda>final res note. \<lparr>hi_target = t, hi_initial = hs_state initial, hi_final = final, hi_result = res, hi_message = note\<rparr>)
               in if \<not> hs_reachable initial then
                    (Inr (Some (result (hs_state initial) ''ERROR'' (hs_message initial))), w1, [Get_status (ht_host t)])
                  else if hs_ready initial then
                    (Inr (Some (result (hs_state initial) ''ALREADY_READY'' Already_ready_note)), w1, [Get_status (ht_host t)])
                  else
                    let (a2, w2) = hc_init client (ht_host t) w1;
                        failed = (\<lambda>note. (Inr (Some (result (hs_state initial) ''INIT_FAILED'' note)), w2,
                                         [Get_status (ht_host t), Post_init (ht_host t)]))
                    in (case a2 of
                          Timed_out \<Rightarrow> failed Init_timeout
                        | Http_failed \<Rightarrow> failed Init_no_connection
                        | Response code body \<Rightarrow>
                            if code \<noteq> 200 then failed (if code = 401 then Rejected_login else Http_status code)
                            else
                              let (a3, w3) = hc_status client (ht_host t) w2;
                                  steps = [Get_status (ht_host t), Post_init (ht_host t)]
                                    @ (if init_wait cfg \<noteq> 0 then [Wait (init_wait cfg)] else []) @ [Get_status (ht_host t)]
                              in (case check_target now a3 t of
                                    None \<Rightarrow> (Inr None, w3, steps)
                                  | Some final \<Rightarrow>
                                      (Inr (Some (result (hs_state final)
                                         (if hs_ready final then ''READY''
                                          else if u_casefold (hs_state final) = cp ''initialization'' then ''INITIALIZING''
                                          else ''REQUEST_ACCEPTED'')
                                         (if hs_message final = No_note then Status_after (hs_state final) else hs_message final))),
                                       w3, steps)))))"


subsection \<open>Facts: targets\<close>

definition redirect :: "(string \<Rightarrow> string option) \<Rightarrow> hs_target \<Rightarrow> hs_target" where
  "redirect overrides t = t\<lparr>ht_host := (case overrides (ht_original t) of None \<Rightarrow> ht_original t | Some h \<Rightarrow> h)\<rparr>"

lemma redirect_simps [simp]:
  "ht_original (redirect ov t) = ht_original t" "ht_host (redirect ov t) = (case ov (ht_original t) of None \<Rightarrow> ht_original t | Some h \<Rightarrow> h)"
  by (simp_all add: redirect_def)

text \<open>Overrides only change the hosts; the originals are distinct.\<close>

lemma target_entry_redirect:
  "target_entry ov (seen, map (redirect ov) ts) item =
     (fst (target_entry Map.empty (seen, ts) item), map (redirect ov) (snd (target_entry Map.empty (seen, ts) item)))"
  by (simp add: target_entry_def Let_def redirect_def split: option.split)

lemma target_entries_redirect:
  "foldl (target_entry ov) (seen, map (redirect ov) ts) items =
     (fst (foldl (target_entry Map.empty) (seen, ts) items), map (redirect ov) (snd (foldl (target_entry Map.empty) (seen, ts) items)))"
proof (induction items arbitrary: seen ts)
  case (Cons item items)
  show ?case by (cases "target_entry Map.empty (seen, ts) item") (simp add: target_entry_redirect Cons.IH)
qed simp

lemma overrides_Nil [simp]: "overrides_by_original_host [] = Map.empty"
  by (simp add: overrides_by_original_host_def)

lemma configured_targets_redirect:
  "configured_targets cfg tab = map (redirect (overrides_by_original_host tab)) (configured_targets cfg [])"
  using target_entries_redirect [of "overrides_by_original_host tab" "[]" "[]"] by (simp add: configured_targets_def)

lemma target_entries_distinct:
  assumes "ht_original ` set (snd s) = set (fst s)" "distinct (map ht_original (snd s))"
  shows "distinct (map ht_original (snd (foldl (target_entry ov) s items)))"
  using assms
proof (induction items arbitrary: s)
  case (Cons item items)
  have "ht_original ` set (snd (target_entry ov s item)) = set (fst (target_entry ov s item))
      \<and> distinct (map ht_original (snd (target_entry ov s item)))"
    using Cons.prems by (auto simp: target_entry_def Let_def split: option.split)
  then show ?case using Cons.IH [of "target_entry ov s item"] by simp
qed simp

lemma configured_targets_distinct [simp]: "distinct (map ht_original (configured_targets cfg tab))"
  by (simp add: configured_targets_def target_entries_distinct)

subsection \<open>Facts: overrides\<close>

lemma overrides_distinct:
  assumes "distinct (map ho_original tab)"
  shows "overrides_by_original_host tab k = map_option ho_current (find_row ho_original k tab)"
proof -
  have 1: "overrides_by_original_host tab = map_of (map (\<lambda>o'. (ho_original o', ho_current o')) tab)"
    unfolding overrides_by_original_host_def using assms by (subst map_of_inject_set) (simp_all add: comp_def rev_map [symmetric])
  have "map_of (map (\<lambda>o'. (ho_original o', ho_current o')) tab) k = map_option ho_current (find_row ho_original k tab)"
    by (induction tab) (simp_all add: find_row_def)
  with 1 show ?thesis by simp
qed

lemma find_row_append:
  "find_row f k (xs @ ys) = (case find_row f k xs of None \<Rightarrow> find_row f k ys | Some x \<Rightarrow> Some x)"
  by (induction xs) (simp_all add: find_row_def)

text \<open>No two targets share an address, and none uses the original address of another.\<close>

definition hosts_apart :: "hs_settings \<Rightarrow> hs_override list \<Rightarrow> bool" where
  "hosts_apart cfg tab \<longleftrightarrow> distinct (map ho_original tab)
   \<and> (\<forall>t \<in> set (configured_targets cfg tab). \<forall>t' \<in> set (configured_targets cfg tab).
        ht_original t \<noteq> ht_original t' \<longrightarrow> ht_host t \<noteq> ht_host t' \<and> ht_host t \<noteq> ht_original t')"

lemma set_override_success:
  assumes "set_target_ip_override cfg now original_host new_ip tab = (Inr res, tab')" "distinct (map ho_original tab)"
  obtains original new where "canonical_ip (u_strip original_host) = Some original" "canonical_ip (u_strip new_ip) = Some new"
    "\<forall>t \<in> set (configured_targets cfg tab). ht_original t \<noteq> original \<longrightarrow> ht_original t \<noteq> new \<and> ht_host t \<noteq> new"
    "\<exists>t \<in> set (configured_targets cfg []). ht_original t = original"
    "distinct (map ho_original tab')"
    "overrides_by_original_host tab' = (overrides_by_original_host tab)(original \<mapsto> new)"
    "res = find (\<lambda>t. ht_original t = original) (configured_targets cfg tab')"
proof -
  obtain original new where ips: "canonical_ip (u_strip original_host) = Some original" "canonical_ip (u_strip new_ip) = Some new"
    and known: "find (\<lambda>t. ht_original t = original) (configured_targets cfg []) \<noteq> None"
    and free: "\<not> list_ex (\<lambda>t. ht_original t \<noteq> original \<and> (ht_original t = new \<or> ht_host t = new)) (configured_targets cfg tab)"
    and tab': "tab' = (case find_row ho_original original tab of
        Some row \<Rightarrow> put_row ho_original (row\<lparr>ho_current := new, ho_updated_at := Some now\<rparr>) tab
      | None \<Rightarrow> tab @ [\<lparr>ho_original = original, ho_current = new, ho_updated_at = None\<rparr>])"
    and res: "res = find (\<lambda>t. ht_original t = original) (configured_targets cfg tab')"
    using assms(1) by (auto simp: set_target_ip_override_def Let_def split: option.splits if_splits)
  have dist: "distinct (map ho_original tab')"
    using assms(2) by (auto simp: tab' find_row_None split: option.split)
  have "overrides_by_original_host tab' k = ((overrides_by_original_host tab)(original \<mapsto> new)) k" for k
  proof (cases "find_row ho_original original tab")
    case None
    then show ?thesis using overrides_distinct [OF dist] overrides_distinct [OF assms(2)]
      by (auto simp: tab' find_row_append) (simp_all add: find_row_def split: option.splits)
  next
    case (Some row)
    then have mem: "row \<in> set tab" "ho_original row = original" using find_row_Some by fastforce+
    then show ?thesis using overrides_distinct [OF dist] overrides_distinct [OF assms(2)] Some assms(2)
      by (auto simp: tab' find_put_row split: option.splits)
  qed
  then have "overrides_by_original_host tab' = (overrides_by_original_host tab)(original \<mapsto> new)" by blast
  moreover have "\<exists>t \<in> set (configured_targets cfg []). ht_original t = original"
    using known by (auto simp: find_None_iff)
  ultimately show ?thesis using that ips free dist res by (auto simp: list_ex_iff)
qed


subsection \<open>Facts: the recorded results\<close>

definition row_of :: "string \<Rightarrow> hs_status list \<Rightarrow> hs_status option" where
  "row_of = find_row hs_original"

lemma hr_original_record_one:
  "(\<And>r. old = Some r \<Longrightarrow> hr_original r = hs_original row) \<Longrightarrow> hr_original (fst (record_one cfg old row)) = hs_original row"
  by (cases old) (simp_all add: record_one_def Let_def base_record_def)

lemma hr_original_found [simp]: "hr_original (fst (record_one cfg (find_row hr_original (hs_original row) tab) row)) = hs_original row"
  by (rule hr_original_record_one) (auto dest: find_row_Some)

text \<open>Over distinct registers, every result is recorded against the record there was before the check.\<close>

lemma record_rows:
  fixes cfg :: hs_settings
  assumes "distinct (map hs_original rows)"
  defines "one \<equiv> \<lambda>ex row. record_one cfg (find_row hr_original (hs_original row) ex) row"
  shows "\<exists>ex'. fold_eff (record_row cfg) rows (ex, ad) =
      ((ex', ad @ map (\<lambda>row. fst (one ex row)) (filter (\<lambda>row. hs_original row \<notin> hr_original ` set ex) rows)),
       concat (map (\<lambda>row. snd (one ex row)) rows))
    \<and> map hr_original ex' = map hr_original ex
    \<and> (\<forall>k. find_row hr_original k ex' =
        (case row_of k rows of Some row \<Rightarrow> if k \<in> hr_original ` set ex then Some (fst (one ex row)) else None
         | None \<Rightarrow> find_row hr_original k ex))"
  using assms(1)
proof (induction rows arbitrary: ex ad)
  case Nil
  then show ?case by (simp add: row_of_def find_row_def)
next
  case (Cons row rows)
  define r where "r = fst (one ex row)"
  have orig: "hr_original r = hs_original row" by (simp add: r_def one_def)
  have notin: "hs_original row \<notin> hs_original ` set rows" using Cons.prems by auto
  have rest: "row_of (hs_original row) rows = None" using notin by (simp add: row_of_def find_row_None)
  define ex1 where "ex1 = (if hs_original row \<in> hr_original ` set ex then put_row hr_original r ex else ex)"
  define ad1 where "ad1 = (if hs_original row \<in> hr_original ` set ex then ad else ad @ [r])"
  have keys: "map hr_original ex1 = map hr_original ex" by (simp add: ex1_def)
  then have keyset: "hr_original ` set ex1 = hr_original ` set ex" by (metis list.set_map)
  have look: "find_row hr_original k ex1 = (if k = hs_original row \<and> k \<in> hr_original ` set ex then Some r else find_row hr_original k ex)" for k
    using orig by (auto simp: ex1_def find_put_row)
  have same: "one ex1 row' = one ex row'" if "row' \<in> set rows" for row'
  proof -
    have "hs_original row' \<noteq> hs_original row" using that notin by (metis image_eqI)
    then show ?thesis by (simp add: one_def look)
  qed
  obtain ex' where IH: "fold_eff (record_row cfg) rows (ex1, ad1) =
      ((ex', ad1 @ map (\<lambda>row. fst (one ex1 row)) (filter (\<lambda>row. hs_original row \<notin> hr_original ` set ex1) rows)),
       concat (map (\<lambda>row. snd (one ex1 row)) rows))"
    "map hr_original ex' = map hr_original ex1"
    "\<forall>k. find_row hr_original k ex' =
        (case row_of k rows of Some row \<Rightarrow> if k \<in> hr_original ` set ex1 then Some (fst (one ex1 row)) else None
         | None \<Rightarrow> find_row hr_original k ex1)"
    using Cons.IH [of ex1 ad1] Cons.prems by auto
  have news: "map (\<lambda>row. fst (one ex1 row)) (filter (\<lambda>row. hs_original row \<notin> hr_original ` set ex1) rows)
      = map (\<lambda>row. fst (one ex row)) (filter (\<lambda>row. hs_original row \<notin> hr_original ` set ex) rows)"
    unfolding keyset using same by simp
  have events: "concat (map (\<lambda>row. snd (one ex1 row)) rows) = concat (map (\<lambda>row. snd (one ex row)) rows)"
    using same by (metis (no_types, lifting) map_cong)
  have step: "record_row cfg row (ex, ad) = ((ex1, ad1), snd (one ex row))"
    by (simp add: record_row_def one_def r_def ex1_def ad1_def case_prod_unfold Let_def)
  have "find_row hr_original k ex' =
      (case row_of k (row # rows) of Some row \<Rightarrow> if k \<in> hr_original ` set ex then Some (fst (one ex row)) else None
       | None \<Rightarrow> find_row hr_original k ex)" for k
  proof (cases "k = hs_original row")
    case True
    then show ?thesis using IH(3) rest by (auto simp: row_of_def find_row_def [of hs_original] look r_def find_row_None)
  next
    case False
    then have "row_of k (row # rows) = row_of k rows" by (simp add: row_of_def find_row_def)
    moreover have "one ex1 row' = one ex row'" if "row_of k rows = Some row'" for row'
      using that same find_row_Some [of hs_original k rows] by (simp add: row_of_def)
    ultimately show ?thesis using IH(3) False keyset by (auto simp: look split: option.splits)
  qed
  then show ?case using IH(1,2) step news events keys
    by (simp add: ad1_def r_def)
qed

text \<open>A whole check, seen from one register.\<close>

lemma record_check_results_rowwise:
  fixes cfg :: hs_settings and tab :: "hs_record list"
  assumes "distinct (map hs_original rows)" "distinct (map hr_original tab)"
  defines "one \<equiv> \<lambda>row. record_one cfg (find_row hr_original (hs_original row) tab) row"
  shows "snd (record_check_results cfg rows tab) = concat (map (\<lambda>row. snd (one row)) rows) @ [Commit]"
    and "find_row hr_original k (fst (record_check_results cfg rows tab)) = map_option (\<lambda>row. fst (one row)) (row_of k rows)"
    and "distinct (map hr_original (fst (record_check_results cfg rows tab)))"
proof -
  obtain ex' where fold: "fold_eff (record_row cfg) rows (tab, []) =
      ((ex', map (\<lambda>row. fst (one row)) (filter (\<lambda>row. hs_original row \<notin> hr_original ` set tab) rows)),
       concat (map (\<lambda>row. snd (one row)) rows))"
    and keys: "map hr_original ex' = map hr_original tab"
    and look: "\<And>k. find_row hr_original k ex' =
        (case row_of k rows of Some row \<Rightarrow> if k \<in> hr_original ` set tab then Some (fst (one row)) else None
         | None \<Rightarrow> find_row hr_original k tab)"
    using record_rows [OF assms(1), of cfg tab "[]"] unfolding one_def by auto
  define news where "news = filter (\<lambda>row. hs_original row \<notin> hr_original ` set tab) rows"
  have tab': "fst (record_check_results cfg rows tab) =
      filter (\<lambda>r. hr_original r \<in> hs_original ` set rows) ex' @ map (\<lambda>row. fst (one row)) news"
    by (simp add: record_check_results_def fold news_def)
  show "snd (record_check_results cfg rows tab) = concat (map (\<lambda>row. snd (one row)) rows) @ [Commit]"
    by (simp add: record_check_results_def fold)
  have orig [simp]: "hr_original (fst (one row)) = hs_original row" for row by (simp add: one_def)
  have keep: "find_row hr_original k (filter (\<lambda>r. hr_original r \<in> hs_original ` set rows) ex')
      = (if k \<in> hs_original ` set rows then find_row hr_original k ex' else None)"
    by (induction ex') (auto simp: find_row_def)
  have new: "find_row hr_original k (map (\<lambda>row. fst (one row)) xs) = map_option (\<lambda>row. fst (one row)) (row_of k xs)" for xs
    by (induction xs) (simp_all add: find_row_def row_of_def)
  have news_of: "row_of k news = (if k \<in> hr_original ` set tab then None else row_of k rows)"
    unfolding news_def row_of_def by (induction rows) (auto simp: find_row_def)
  show "find_row hr_original k (fst (record_check_results cfg rows tab)) = map_option (\<lambda>row. fst (one row)) (row_of k rows)"
    unfolding tab' find_row_append keep look new news_of
    by (auto simp: row_of_def find_row_None split: option.split dest: find_row_Some)
  have "hr_original ` set ex' = hr_original ` set tab" using keys by (metis list.set_map)
  then show "distinct (map hr_original (fst (record_check_results cfg rows tab)))"
    unfolding tab' using assms(1,2) keys
    by (auto simp: news_def comp_def distinct_map_filter) (metis imageI)
qed

text \<open>The state of one register after a history of checks.\<close>

definition streak :: "hs_status list \<Rightarrow> nat" where
  "streak rows = length (takeWhile (\<lambda>r. \<not> hs_ready r) (rev rows))"

definition last_record :: "hs_settings \<Rightarrow> hs_status list \<Rightarrow> hs_record option" where
  "last_record cfg rows = foldl (\<lambda>old row. Some (fst (record_one cfg old row))) None rows"

definition alert_after :: "hs_settings \<Rightarrow> int" where
  "alert_after cfg = max 1 (HONEST_SIGN_ALERT_AFTER_FAILURES cfg)"

lemma streak_simps [simp]:
  "streak [] = 0" "streak [row] = (if hs_ready row then 0 else 1)" "streak (rows @ [row]) = (if hs_ready row then 0 else Suc (streak rows))"
  by (simp_all add: streak_def)

lemma last_record_state:
  assumes "rows \<noteq> []" "\<forall>row \<in> set rows. hs_host row = h"
  shows "\<exists>r. last_record cfg rows = Some r \<and> hr_host r = h \<and> hr_failures r = int (streak rows)
    \<and> hr_reported r = (alert_after cfg \<le> int (streak rows))"
  using assms
proof (induction rows rule: rev_induct)
  case (snoc row rows)
  show ?case
  proof (cases "rows = []")
    case True
    with snoc.prems show ?thesis by (auto simp: last_record_def record_one_def base_record_def Let_def alert_after_def)
  next
    case False
    then obtain r where "last_record cfg rows = Some r" "hr_host r = h" "hr_failures r = int (streak rows)"
      "hr_reported r = (alert_after cfg \<le> int (streak rows))" using snoc by auto
    with snoc.prems show ?thesis by (auto simp: last_record_def record_one_def base_record_def Let_def alert_after_def)
  qed
qed simp


text \<open>The table after a history of checks that all saw a register.\<close>

lemma hr_ready_record_one [simp]: "hr_ready (fst (record_one cfg old row)) = hs_ready row"
  by (simp add: record_one_def Let_def)

lemma last_record_snoc: "last_record cfg (rows @ [row]) = Some (fst (record_one cfg (last_record cfg rows) row))"
  by (simp add: last_record_def)

definition after_checks :: "hs_settings \<Rightarrow> hs_status list list \<Rightarrow> hs_record list" where
  "after_checks cfg cycles = foldl (\<lambda>tab rows. fst (record_check_results cfg rows tab)) [] cycles"

definition rows_of :: "string \<Rightarrow> hs_status list list \<Rightarrow> hs_status list" where
  "rows_of k cycles = map (\<lambda>rows. the (row_of k rows)) cycles"

definition sees :: "string \<Rightarrow> string \<Rightarrow> hs_status list \<Rightarrow> bool" where
  "sees k h rows \<longleftrightarrow> distinct (map hs_original rows) \<and> (case row_of k rows of None \<Rightarrow> False | Some row \<Rightarrow> hs_host row = h)"

lemma after_checks_record:
  assumes "list_all (sees k h) cycles"
  shows "distinct (map hr_original (after_checks cfg cycles))
    \<and> find_row hr_original k (after_checks cfg cycles) = last_record cfg (rows_of k cycles)"
  using assms
proof (induction cycles rule: rev_induct)
  case Nil
  then show ?case by (simp add: after_checks_def last_record_def rows_of_def find_row_def)
next
  case (snoc rows cycles)
  then obtain row where row: "distinct (map hs_original rows)" "row_of k rows = Some row"
    by (auto simp: sees_def split: option.splits)
  have "hs_original row = k" using row(2) find_row_Some [of hs_original k rows row] by (simp add: row_of_def)
  with row snoc record_check_results_rowwise(2,3) [OF row(1), where tab = "after_checks cfg cycles" and cfg = cfg]
  show ?case by (simp add: after_checks_def last_record_def rows_of_def)
qed

subsection \<open>Properties\<close>

text \<open>C15: over any history of checks of a register at one address, the record counts the failed checks at the
  end of the history, an alert is logged by exactly the check that brings their number to the threshold (an error
  when the module was unreachable, else a warning), a recovery by exactly the ready check that ends an alerted
  streak, and nothing else; and the log of a check is the concatenation of what its registers log.\<close>

theorem alert_latch_exact:
  fixes cfg :: hs_settings
  assumes "list_all (sees k h) (cycles @ [rows])" "row_of k rows = Some row"
  defines "before \<equiv> int (streak (rows_of k cycles))" and "now \<equiv> int (streak (rows_of k (cycles @ [rows])))"
  defines "logged \<equiv> \<lambda>r. snd (record_one cfg (find_row hr_original (hs_original r) (after_checks cfg cycles)) r)"
  shows "snd (record_check_results cfg rows (after_checks cfg cycles)) = concat (map logged rows) @ [Commit]
    \<and> logged row =
        (if hs_ready row then
           (if alert_after cfg \<le> before then [EventLog (hs_event ''honest_sign_recovered'' ''info'' row (Recovered (hs_label row)))] else [])
         else if now = alert_after cfg then
           [EventLog (hs_event (if hs_reachable row then ''honest_sign_not_ready'' else ''honest_sign_down'')
              (if hs_reachable row then ''warning'' else ''error'') row (Not_ready (hs_label row) (hs_message row) (hs_state row)))]
         else [])
    \<and> (\<exists>rec. find_row hr_original k (after_checks cfg (cycles @ [rows])) = Some rec
        \<and> hr_failures rec = now \<and> hr_reported rec = (alert_after cfg \<le> now) \<and> hr_ready rec = hs_ready row)"
proof -
  have past: "list_all (sees k h) cycles" and host: "hs_host row = h" "distinct (map hs_original rows)"
    using assms(1,2) by (auto simp: sees_def)
  have key: "hs_original row = k" using assms(2) find_row_Some [of hs_original k rows row] by (simp add: row_of_def)
  have hosts: "\<forall>r \<in> set (rows_of k (cycles @ [rows])). hs_host r = h"
    using assms(1) by (auto simp: rows_of_def list_all_iff sees_def split: option.splits)
  have old: "find_row hr_original k (after_checks cfg cycles) = last_record cfg (rows_of k cycles)"
    using after_checks_record [OF past] by simp
  have snoc: "rows_of k (cycles @ [rows]) = rows_of k cycles @ [row]" using assms(2) by (simp add: rows_of_def)
  have effects: "snd (record_check_results cfg rows (after_checks cfg cycles)) = concat (map logged rows) @ [Commit]"
    unfolding logged_def using record_check_results_rowwise(1) [OF host(2)] after_checks_record [OF past] by blast
  have log: "logged row =
        (if hs_ready row then
           (if alert_after cfg \<le> before then [EventLog (hs_event ''honest_sign_recovered'' ''info'' row (Recovered (hs_label row)))] else [])
         else if now = alert_after cfg then
           [EventLog (hs_event (if hs_reachable row then ''honest_sign_not_ready'' else ''honest_sign_down'')
              (if hs_reachable row then ''warning'' else ''error'') row (Not_ready (hs_label row) (hs_message row) (hs_state row)))]
         else [])"
  proof (cases "rows_of k cycles = []")
    case True
    then show ?thesis
      unfolding logged_def key old snoc now_def before_def
      by (auto simp: last_record_def record_one_def base_record_def Let_def alert_after_def)
  next
    case False
    then obtain r where "last_record cfg (rows_of k cycles) = Some r" "hr_host r = h" "hr_failures r = before"
      "hr_reported r = (alert_after cfg \<le> before)"
      using last_record_state [of "rows_of k cycles" h cfg] hosts snoc by (auto simp: before_def)
    then show ?thesis
      unfolding logged_def key old snoc now_def using host(1)
      by (auto simp: record_one_def base_record_def Let_def alert_after_def before_def)
  qed
  obtain rec where rec: "last_record cfg (rows_of k (cycles @ [rows])) = Some rec" "hr_failures rec = now"
    "hr_reported rec = (alert_after cfg \<le> now)"
    using last_record_state [of "rows_of k (cycles @ [rows])" h cfg] hosts snoc by (auto simp: now_def)
  moreover have "hr_ready rec = hs_ready row"
    using rec(1) snoc by (auto simp: last_record_snoc)
  ultimately show ?thesis using effects log after_checks_record [OF assms(1)] by simp
qed

definition sample_row :: "bool \<Rightarrow> hs_status" where
  "sample_row ready = \<lparr>hs_host = ''10.0.0.1'', hs_label = [], hs_hostname = None, hs_original = ''10.0.0.1'', hs_reachable = True,
     hs_state = [], hs_version = None, hs_ready = ready, hs_message = No_note, hs_checked_at = 0\<rparr>"

definition sample_hs_settings :: hs_settings where
  "sample_hs_settings = \<lparr>HONEST_SIGN_TARGETS = cp ''10.0.0.1,10.0.0.2'', HONEST_SIGN_API_LOGIN = cp ''u'',
     HONEST_SIGN_API_PASSWORD = cp ''p'', HONEST_SIGN_TOKEN = [], HONEST_SIGN_STATUS_WAIT_SECONDS = 15,
     HONEST_SIGN_ALERT_AFTER_FAILURES = 2\<rparr>"

theorem alert_latch_exact_witness:
  "hr_failures (the (find_row hr_original ''10.0.0.1''
     (after_checks sample_hs_settings [[sample_row True], [sample_row False], [sample_row False]]))) = 2"
  using alert_latch_exact [where cfg = sample_hs_settings, of "''10.0.0.1''" "''10.0.0.1''" "[[sample_row True], [sample_row False]]" "[sample_row False]" "sample_row False"]
  by (auto simp: sees_def row_of_def find_row_def sample_row_def rows_of_def streak_def)

text \<open>Overriding a target's address keeps the addresses apart: no two targets are ever checked at one address,
  nor one at the original address of another; a refused override changes nothing; an accepted one moves exactly the
  named target, to exactly the address asked for.\<close>

theorem overrides_keep_hosts_apart:
  assumes "hosts_apart cfg tab"
  shows "case set_target_ip_override cfg now original_host new_ip tab of
      (Inl e, tab') \<Rightarrow> tab' = tab
    | (Inr res, tab') \<Rightarrow> hosts_apart cfg tab' \<and>
        (\<exists>t. res = Some t \<and> canonical_ip (u_strip new_ip) = Some (ht_host t)
          \<and> canonical_ip (u_strip original_host) = Some (ht_original t)
          \<and> configured_targets cfg tab' = map (\<lambda>t'. if ht_original t' = ht_original t then t else t') (configured_targets cfg tab))"
proof (cases "set_target_ip_override cfg now original_host new_ip tab")
  case (Pair out tab')
  show ?thesis
  proof (cases out)
    case (Inl e)
    with Pair show ?thesis by (auto simp: set_target_ip_override_def Let_def split: option.splits if_splits)
  next
    case (Inr res)
    have dist: "distinct (map ho_original tab)" using assms by (simp add: hosts_apart_def)
    obtain original new where o': "canonical_ip (u_strip original_host) = Some original" "canonical_ip (u_strip new_ip) = Some new"
      "\<forall>t \<in> set (configured_targets cfg tab). ht_original t \<noteq> original \<longrightarrow> ht_original t \<noteq> new \<and> ht_host t \<noteq> new"
      "\<exists>t \<in> set (configured_targets cfg []). ht_original t = original" "distinct (map ho_original tab')"
      "overrides_by_original_host tab' = (overrides_by_original_host tab)(original \<mapsto> new)"
      "res = find (\<lambda>t. ht_original t = original) (configured_targets cfg tab')"
      using set_override_success [OF Pair [unfolded Inr] dist] by blast
    let ?base = "configured_targets cfg []"
    obtain b where b: "b \<in> set ?base" "ht_original b = original" using o'(4) by blast
    define t where "t = redirect (overrides_by_original_host tab') b"
    have t: "ht_host t = new" "ht_original t = original" by (simp_all add: t_def b(2) o'(6))
    have only: "b' = b" if "b' \<in> set ?base" "ht_original b' = original" for b'
      using distinct_map_eq [OF configured_targets_distinct that(1) b(1)] that(2) b(2) by simp
    have targets': "configured_targets cfg tab' = map (\<lambda>t'. if ht_original t' = original then t else t') (configured_targets cfg tab)"
      unfolding configured_targets_redirect [of cfg tab'] configured_targets_redirect [of cfg tab]
      using only by (auto simp: t_def o'(6) redirect_def)
    have "t \<in> set (configured_targets cfg tab')"
      unfolding configured_targets_redirect [of cfg tab'] using b(1) by (simp add: t_def)
    then have "res = Some t"
      using o'(7) t(2) find_row_distinct [OF configured_targets_distinct, of t cfg tab'] by (simp add: find_row_def)
    moreover have "hosts_apart cfg tab'"
      using assms o'(3,5) t unfolding hosts_apart_def targets' by (auto split: if_splits) metis
    ultimately show ?thesis using Pair Inr o'(1,2) t targets' by auto
  qed
qed


lemma hosts_apart_initial: "hosts_apart cfg []"
proof -
  have "ht_host t = ht_original t" if "t \<in> set (configured_targets cfg [])" for t
    using that by (subst (asm) configured_targets_redirect) auto
  then show ?thesis by (auto simp: hosts_apart_def)
qed

theorem overrides_keep_hosts_apart_witness:
  "case set_target_ip_override sample_hs_settings 0 (cp ''10.0.0.1'') (cp ''10.0.0.9'') [] of
     (Inl e, tab') \<Rightarrow> tab' = [] | (Inr res, tab') \<Rightarrow> hosts_apart sample_hs_settings tab'"
  using overrides_keep_hosts_apart [OF hosts_apart_initial, where cfg = sample_hs_settings and now = 0
      and original_host = "cp ''10.0.0.1''" and new_ip = "cp ''10.0.0.9''"]
  by (auto split: prod.splits sum.splits)

subsection \<open>Facts: links\<close>

lemma values_at_keyed: "k \<noteq> [] \<Longrightarrow> values_at (keyed name xs) k = filter (\<lambda>x. hostname_key (name x) = k) xs"
  unfolding values_at_def keyed_def by (induction xs) auto

lemma values_at_keyed_Nil: "values_at (keyed name xs) [] = []"
  unfolding values_at_def keyed_def by (induction xs) auto

definition at_key :: "('a \<Rightarrow> ustr option) \<Rightarrow> ustr \<Rightarrow> 'a list \<Rightarrow> 'a list" where
  "at_key name k xs = filter (\<lambda>x. hostname_key (name x) = k) xs"

lemma group_keyed: "(k, vs) \<in> set (group_pairs (keyed name xs)) \<longleftrightarrow> k \<noteq> [] \<and> vs \<noteq> [] \<and> vs = at_key name k xs"
  by (cases "k = []") (auto simp: mem_group_pairs values_at_keyed values_at_keyed_Nil at_key_def)

lemma regs_keyed: "k \<noteq> [] \<Longrightarrow>
   (case map_of (group_pairs (keyed name xs)) k of None \<Rightarrow> [] | Some rs \<Rightarrow> rs) = at_key name k xs"
  by (auto simp: map_of_group_pairs values_at_keyed at_key_def)

lemma length_one: "length xs = 1 \<longleftrightarrow> (\<exists>x. xs = [x])"
  by (cases xs) auto

text \<open>A target is linked to a register exactly when the two carry one host name (compared without case and
  domain) and nobody else does: neither a second target nor a second register; a name shared by more than these
  two is reported as ambiguous, and a target whose name no register carries as unmatched.\<close>

theorem links_are_unambiguous:
  "let res = link_cash_registers targets registers in
     ((r, t) \<in> set (hl_links res) \<longleftrightarrow>
        (\<exists>key name. key \<noteq> [] \<and> at_key ht_hostname key targets = [t] \<and> at_key snd key registers = [(r, name)]))
   \<and> (key \<in> set (hl_ambiguous res) \<longleftrightarrow> key \<noteq> [] \<and> at_key ht_hostname key targets \<noteq> [] \<and> at_key snd key registers \<noteq> []
        \<and> \<not> (length (at_key ht_hostname key targets) = 1 \<and> length (at_key snd key registers) = 1))
   \<and> hl_unmatched res = filter (\<lambda>t. hostname_key (ht_hostname t) = [] \<or> at_key snd (hostname_key (ht_hostname t)) registers = []) targets"
proof -
  let ?regs = "\<lambda>k. case map_of (group_pairs (keyed snd registers)) k of None \<Rightarrow> [] | Some rs \<Rightarrow> rs"
  define claimed where "claimed = filter (\<lambda>kt. ?regs (fst kt) \<noteq> []) (group_pairs (keyed ht_hostname targets))"
  have claimed: "(k, ts) \<in> set claimed \<longleftrightarrow> k \<noteq> [] \<and> ts = at_key ht_hostname k targets \<and> ts \<noteq> [] \<and> at_key snd k registers \<noteq> []" for k ts
    unfolding claimed_def by (auto simp: group_keyed regs_keyed)
  define single where "single = (\<lambda>kt :: ustr \<times> hs_target list. length (snd kt) = 1 \<and> length (?regs (fst kt)) = 1)"
  have single: "single (k, ts) \<longleftrightarrow> length ts = 1 \<and> length (at_key snd k registers) = 1" if "(k, ts) \<in> set claimed" for k ts
    using that claimed regs_keyed [of k snd registers] by (simp add: single_def)
  have res: "link_cash_registers targets registers =
      \<lparr>hl_links = map (\<lambda>kt. (fst (hd (?regs (fst kt))), hd (snd kt))) (filter single claimed),
       hl_unmatched = filter (\<lambda>t. hostname_key (ht_hostname t) \<notin> fst ` set claimed) targets,
       hl_ambiguous = sort (map fst (filter (\<lambda>kt. \<not> single kt) claimed))\<rparr>"
    by (simp add: link_cash_registers_def Let_def claimed_def single_def)
  have "(r, t) \<in> set (hl_links (link_cash_registers targets registers)) \<longleftrightarrow>
      (\<exists>key name. key \<noteq> [] \<and> at_key ht_hostname key targets = [t] \<and> at_key snd key registers = [(r, name)])" (is "?L \<longleftrightarrow> ?R")
  proof
    assume ?L
    then obtain k ts where "(k, ts) \<in> set claimed" "single (k, ts)" "r = fst (hd (?regs k))" "t = hd ts"
      by (auto simp: res)
    moreover from this single claimed obtain t' x where "at_key ht_hostname k targets = [t']" "at_key snd k registers = [x]" "k \<noteq> []"
      by (auto simp: length_one simp del: One_nat_def)
    ultimately show ?R using claimed regs_keyed [of k snd registers] by (intro exI [of _ k] exI [of _ "snd x"]) auto
  next
    assume ?R
    then obtain k name where k: "k \<noteq> []" "at_key ht_hostname k targets = [t]" "at_key snd k registers = [(r, name)]" by blast
    then have "(k, [t]) \<in> set claimed" using claimed by simp
    moreover have "single (k, [t])" using single [OF calculation] k by simp
    ultimately have "(k, [t]) \<in> set (filter single claimed)" by simp
    then show ?L unfolding res using regs_keyed [OF k(1), of snd registers] k(3) by force
  qed
  moreover have "key \<in> set (hl_ambiguous (link_cash_registers targets registers)) \<longleftrightarrow> key \<noteq> [] \<and> at_key ht_hostname key targets \<noteq> []
      \<and> at_key snd key registers \<noteq> [] \<and> \<not> (length (at_key ht_hostname key targets) = 1 \<and> length (at_key snd key registers) = 1)"
  proof -
    have "key \<in> set (hl_ambiguous (link_cash_registers targets registers)) \<longleftrightarrow> (\<exists>ts. (key, ts) \<in> set claimed \<and> \<not> single (key, ts))"
      by (force simp: res)
    also have "\<dots> \<longleftrightarrow> (\<exists>ts. (key, ts) \<in> set claimed \<and> (length ts \<noteq> 1 \<or> length (at_key snd key registers) \<noteq> 1))"
      using single by blast
    finally show ?thesis unfolding claimed by blast
  qed
  moreover have "hl_unmatched (link_cash_registers targets registers) = filter (\<lambda>t. hostname_key (ht_hostname t) = []
      \<or> at_key snd (hostname_key (ht_hostname t)) registers = []) targets"
  proof -
    have "k \<in> fst ` set claimed \<longleftrightarrow> k \<noteq> [] \<and> at_key ht_hostname k targets \<noteq> [] \<and> at_key snd k registers \<noteq> []" for k
    proof -
      have "k \<in> fst ` set claimed \<longleftrightarrow> (\<exists>ts. (k, ts) \<in> set claimed)" by force
      then show ?thesis unfolding claimed by blast
    qed
    moreover have "at_key ht_hostname (hostname_key (ht_hostname t)) targets \<noteq> []" if "t \<in> set targets" for t
      using that by (auto simp: at_key_def filter_empty_conv)
    ultimately have "(hostname_key (ht_hostname t) \<notin> fst ` set claimed) \<longleftrightarrow>
        hostname_key (ht_hostname t) = [] \<or> at_key snd (hostname_key (ht_hostname t)) registers = []" if "t \<in> set targets" for t
      using that by blast
    then show ?thesis unfolding res by (simp cong: filter_cong)
  qed
  ultimately show ?thesis unfolding Let_def by blast
qed

subsection \<open>Facts: one odd answer\<close>

text \<open>One Local Module that answers 200 with JSON that is no object takes the whole check down: no register is
  recorded, not even those that answered.\<close>

lemma check_target_raises: "check_target now answer t = None \<longleftrightarrow> answer = Response 200 No_object"
  by (auto simp: check_target_def Let_def split: hs_answer.splits hs_body.splits)

theorem one_odd_answer_fails_every_check:
  "check_all_honest_sign_targets cfg now answer tab = Inr None \<longleftrightarrow>
     require_status_configuration cfg = None
     \<and> list_ex (\<lambda>t. answer (ht_host t) = Response 200 No_object) (configured_targets cfg tab)"
  by (auto simp: check_all_honest_sign_targets_def Let_def check_target_raises list_ex_iff image_iff
      split: option.splits) (metis check_target_raises)+

end
