(* ===== verification/Toner_Forecast.thy ===== *)
theory Toner_Forecast
  imports Prelude Complex_Main
begin

section \<open>Toner forecasting (app/ml/toner)\<close>

text \<open>
  Daily readings, their split into cartridge lives, the Theil-Sen rate of a life, the pooled fleet rates,
  the forecast and its backtest. Floats are exact rationals, so that what is proved is the arithmetic the
  code intends; the rounding of the confidence to three digits is written out.
\<close>

subsection \<open>Daily readings and cartridge lives (series.py)\<close>

record snapshot =
  sn_id :: uid
  sn_kind :: string
  sn_device :: "uid option"
  sn_name :: "ustr option"
  sn_address :: "string option"
  sn_color :: "string option"
  sn_level :: "int option"
  sn_model :: "ustr option"
  sn_online :: "bool option"
  sn_at :: instant

record daily_reading =
  dr_day :: int
  dr_low :: int
  dr_high :: int
  dr_model :: "ustr option"

record segment =
  sg_points :: "(rat \<times> rat) list"
  sg_model :: "ustr option"
  sg_ended :: bool

definition refill_rise :: int where
  "refill_rise = 15"

definition span_days :: "segment \<Rightarrow> rat" where
  "span_days s = (if 1 < length (sg_points s) then fst (last (sg_points s)) - fst (hd (sg_points s)) else 0)"

definition first_level :: "segment \<Rightarrow> rat" where
  "first_level s = snd (hd (sg_points s))"

definition last_level :: "segment \<Rightarrow> rat" where
  "last_level s = snd (last (sg_points s))"

definition normalize_model :: "ustr option \<Rightarrow> ustr" where
  "normalize_model name = u_lower (u_strip (case name of None \<Rightarrow> [] | Some n \<Rightarrow> n))"

text \<open>The day number of an instant: \<open>date.toordinal()\<close> of its UTC day.\<close>

definition ordinal :: "instant \<Rightarrow> int" where
  "ordinal t = t div 86400 + 719163"

text \<open>The rows of the query: online readings of printers with a level.\<close>

definition usable_reading :: "instant \<Rightarrow> snapshot \<Rightarrow> bool" where
  "usable_reading since s \<longleftrightarrow> sn_kind s = ''printer'' \<and> sn_device s \<noteq> None \<and> sn_color s \<noteq> None
     \<and> (case sn_level s of None \<Rightarrow> False | Some l \<Rightarrow> 0 \<le> l) \<and> sn_online s \<noteq> Some False \<and> since \<le> sn_at s"

definition daily_reading_of :: "snapshot list \<Rightarrow> int \<Rightarrow> daily_reading" where
  "daily_reading_of snaps d =
     (let day = filter (\<lambda>s. ordinal (sn_at s) = d) snaps; levels = List.map_filter sn_level day; models = List.map_filter sn_model day
      in \<lparr>dr_day = d, dr_low = Min (set levels), dr_high = Max (set levels),
          dr_model = (if models = [] then None else Some (Max (set models)))\<rparr>)"

definition load_daily_readings :: "instant \<Rightarrow> snapshot list \<Rightarrow> ((uid \<times> string) \<times> daily_reading list) list" where
  "load_daily_readings since snaps =
     map (\<lambda>(k, ss). (k, map (daily_reading_of ss) (sort (remdups (map (\<lambda>s. ordinal (sn_at s)) ss)))))
       (group_pairs (map (\<lambda>s. ((the (sn_device s), the (sn_color s)), s)) (filter (usable_reading since) snaps)))"

text \<open>The loop of \<open>split_segments\<close>: the lives finished so far, the current one, and the previous level.\<close>

type_synonym split_state = "segment list \<times> segment \<times> int option"

definition swapped :: "int option \<Rightarrow> daily_reading \<Rightarrow> bool" where
  "swapped prev r = (case prev of None \<Rightarrow> False | Some p \<Rightarrow> p + refill_rise \<le> dr_high r)"

definition split_step :: "split_state \<Rightarrow> daily_reading \<Rightarrow> split_state" where
  "split_step st r = (case st of (segments, current, prev) \<Rightarrow>
     let x = of_int (dr_day r) :: rat
     in if swapped prev r then
          let pts = (if dr_low r < (case prev of None \<Rightarrow> 0 | Some p \<Rightarrow> p)
                     then sg_points current @ [(x, of_int (dr_low r))] else sg_points current)
          in (segments @ [current\<lparr>sg_points := pts, sg_ended := True\<rparr>],
              \<lparr>sg_points = [(x, of_int (dr_high r))], sg_model = dr_model r, sg_ended = False\<rparr>, Some (dr_high r))
        else
          (segments,
           current\<lparr>sg_points := sg_points current @ [(x, of_int (dr_low r))],
                   sg_model := or_else (dr_model r) (sg_model current)\<rparr>, Some (dr_low r)))"

definition empty_segment :: segment where
  "empty_segment = \<lparr>sg_points = [], sg_model = None, sg_ended = False\<rparr>"

definition split_segments :: "daily_reading list \<Rightarrow> segment list" where
  "split_segments readings =
     (let (segments, current, prev) = foldl split_step ([], empty_segment, None) readings
      in if sg_points current \<noteq> [] then segments @ [current] else segments)"

subsection \<open>The Theil-Sen fit (robust.py)\<close>

record slope_fit =
  sf_slope :: rat
  sf_low :: rat
  sf_high :: rat

text \<open>\<open>_quantile\<close> of an ascending list.\<close>

definition quantile :: "rat list \<Rightarrow> rat \<Rightarrow> rat" where
  "quantile xs q =
     (if length xs = 1 then hd xs
      else let pos = q * of_nat (length xs - 1); lo = nat \<lfloor>pos\<rfloor>; hi = min (lo + 1) (length xs - 1)
           in xs ! lo + (xs ! hi - xs ! lo) * (pos - of_nat lo))"

text \<open>\<open>statistics.median\<close> of an ascending list.\<close>

definition median_of :: "rat list \<Rightarrow> rat" where
  "median_of xs = (let n = length xs in
     if odd n then xs ! (n div 2) else (xs ! (n div 2 - 1) + xs ! (n div 2)) / 2)"

fun pair_slopes :: "(rat \<times> rat) list \<Rightarrow> rat list" where
  "pair_slopes [] = []"
| "pair_slopes (p # ps) =
     map (\<lambda>q. (snd q - snd p) / (fst q - fst p)) (filter (\<lambda>q. fst q \<noteq> fst p) ps) @ pair_slopes ps"

definition theil_sen :: "(rat \<times> rat) list \<Rightarrow> slope_fit option" where
  "theil_sen points =
     (let slopes = sort (pair_slopes points)
      in if slopes = [] then None
         else Some \<lparr>sf_slope = median_of slopes, sf_low = quantile slopes (1/5), sf_high = quantile slopes (4/5)\<rparr>)"

subsection \<open>Rates and forecasts (model.py)\<close>

definition prior_strength_days :: rat where "prior_strength_days = 7"
definition min_span_days :: rat where "min_span_days = 2"
definition max_rate :: rat where "max_rate = 35"
definition min_rate :: rat where "min_rate = 1/20"
definition max_days :: rat where "max_days = 365"

definition default_color_rate :: "string \<Rightarrow> rat" where
  "default_color_rate color = (if color = ''black'' then 6/5
     else if color = ''cyan'' \<or> color = ''magenta'' \<or> color = ''yellow'' then 7/10 else 1)"

record rate_estimate =
  re_rate :: rat
  re_low :: rat
  re_high :: rat
  re_span :: rat

record toner_forecast =
  tf_days :: rat
  tf_low :: rat
  tf_high :: rat
  tf_rate :: rat
  tf_basis :: string
  tf_confidence :: rat

definition estimate_rate :: "segment option \<Rightarrow> rat option \<Rightarrow> rate_estimate option" where
  "estimate_rate seg until = (case seg of
     None \<Rightarrow> None
   | Some s \<Rightarrow>
       let points = filter (\<lambda>p. case until of None \<Rightarrow> True | Some u \<Rightarrow> fst p \<le> u) (sg_points s)
       in if length points < 2 \<or> fst (last points) - fst (hd points) < min_span_days then None
          else (case theil_sen points of
              None \<Rightarrow> None
            | Some fit \<Rightarrow>
                let rate = - sf_slope fit
                in if \<not> (min_rate \<le> rate \<and> rate \<le> max_rate) then None
                   else Some \<lparr>re_rate = rate, re_low = max (- sf_high fit) min_rate,
                     re_high = min (max (- sf_low fit) rate) max_rate, re_span = fst (last points) - fst (hd points)\<rparr>))"

definition segment_rates :: "(string \<times> segment) list \<Rightarrow> (string \<times> ustr \<times> rat) list" where
  "segment_rates labelled = List.map_filter (\<lambda>(color, s). map_option (\<lambda>e. (color, normalize_model (sg_model s), re_rate e))
     (estimate_rate (Some s) None)) labelled"

record pooled_rate =
  po_rate :: rat
  po_low :: rat
  po_high :: rat
  po_samples :: nat

text \<open>One of \<open>statistics.quantiles(xs, n=4)\<close> (method exclusive) of an ascending list of two or more.\<close>

definition quartile :: "rat list \<Rightarrow> nat \<Rightarrow> rat" where
  "quartile xs i =
     (let m = length xs + 1; j0 = i * m div 4; j = (if j0 < 1 then 1 else if length xs - 1 < j0 then length xs - 1 else j0);
          delta = int (i * m) - int (j * 4)
      in (xs ! (j - 1) * of_int (4 - delta) + xs ! j * of_int delta) / 4)"

definition pool :: "rat list \<Rightarrow> pooled_rate" where
  "pool rates =
     (let xs = sort rates; (low, high) = (if 4 \<le> length xs then (quartile xs 1, quartile xs 3) else (hd xs, last xs))
      in \<lparr>po_rate = median_of xs, po_low = low, po_high = high, po_samples = length xs\<rparr>)"

record toner_model =
  tm_by_model :: "(ustr \<times> pooled_rate) list"
  tm_by_color :: "(string \<times> pooled_rate) list"

definition model_key :: "string \<Rightarrow> ustr \<Rightarrow> ustr" where
  "model_key color m = cp color @ [58] @ m"

definition from_rates :: "(string \<times> ustr \<times> rat) list \<Rightarrow> toner_model" where
  "from_rates rates =
     \<lparr>tm_by_model = map (\<lambda>(k, v). (k, pool v)) (group_pairs (map (\<lambda>(c, m, r). (model_key c m, r)) (filter (\<lambda>(c, m, r). m \<noteq> []) rates))),
      tm_by_color = map (\<lambda>(k, v). (k, pool v)) (group_pairs (map (\<lambda>(c, m, r). (c, r)) rates))\<rparr>"

definition fit_model :: "(string \<times> segment) list \<Rightarrow> toner_model" where
  "fit_model labelled = from_rates (segment_rates labelled)"

definition prior :: "toner_model \<Rightarrow> string \<Rightarrow> ustr option \<Rightarrow> pooled_rate \<times> string" where
  "prior tm color m = (case map_of (tm_by_model tm) (model_key color (normalize_model m)) of
     Some p \<Rightarrow> (p, ''cartridge_model'')
   | None \<Rightarrow> (case map_of (tm_by_color tm) color of
       Some p \<Rightarrow> (p, ''color'')
     | None \<Rightarrow> (let d = default_color_rate color
               in (\<lparr>po_rate = d, po_low = d * (1/2), po_high = d * 2, po_samples = 0\<rparr>, ''default''))))"

text \<open>\<open>round(x, 3)\<close>, half to even.\<close>

definition round_half_even :: "rat \<Rightarrow> int" where
  "round_half_even x = (let n = \<lfloor>x\<rfloor>; d = x - of_int n
     in if d < 1/2 then n else if 1/2 < d then n + 1 else if even n then n else n + 1)"

definition round3 :: "rat \<Rightarrow> rat" where
  "round3 x = of_int (round_half_even (x * 1000)) / 1000"

definition blend :: "rat \<Rightarrow> rat \<Rightarrow> rat \<Rightarrow> rat" where
  "blend w own p = w * own + (1 - w) * p"

text \<open>The rates to divide by: the pooled ones, or the printer's own blended in with the weight of its history.\<close>

definition blended_rates :: "toner_model \<Rightarrow> string \<Rightarrow> ustr option \<Rightarrow> rate_estimate option \<Rightarrow> rat \<times> rat \<times> rat \<times> string \<times> rat" where
  "blended_rates tm color m own =
     (let (p, prior_basis) = prior tm color m
      in (case own of
            None \<Rightarrow> (po_rate p, po_low p, po_high p, prior_basis, 0)
          | Some e \<Rightarrow>
              let w = re_span e / (re_span e + prior_strength_days)
              in (blend w (re_rate e) (po_rate p), blend w (re_low e) (po_low p), blend w (re_high e) (po_high p),
                  if 1/2 \<le> w then ''printer'' else prior_basis, w)))"

definition forecast_at :: "rat \<Rightarrow> rat \<times> rat \<times> rat \<times> string \<times> rat \<Rightarrow> toner_forecast" where
  "forecast_at level rates =
     (case rates of (r, l, h, basis, weight) \<Rightarrow>
        let rate = max r min_rate;
            low = min (max l min_rate) rate;
            high = max h rate;
            days = min (level / rate) max_days;
            days_low = min (level / high) days;
            days_high = min (level / low) max_days;
            spread = (days_high - days_low) / max days 1;
            confidence = max (1/20) (min (19/20) ((1 / (1 + spread)) * (3/5 + 2/5 * weight)))
        in \<lparr>tf_days = days, tf_low = days_low, tf_high = days_high, tf_rate = rate, tf_basis = basis,
            tf_confidence = round3 confidence\<rparr>)"

definition forecast :: "toner_model \<Rightarrow> string \<Rightarrow> ustr option \<Rightarrow> rat \<Rightarrow> rate_estimate option \<Rightarrow> toner_forecast option" where
  "forecast tm color m level own = (if level < 0 then None else Some (forecast_at level (blended_rates tm color m own)))"

text \<open>The stored form of a model.\<close>

record model_metadata =
  mm_algorithm :: string
  mm_by_model :: "(ustr \<times> rat \<times> rat \<times> rat \<times> nat) list"
  mm_by_color :: "(string \<times> rat \<times> rat \<times> rat \<times> nat) list"

definition algorithm :: string where
  "algorithm = ''theil-sen-shrinkage-v1''"

definition pooled_dict :: "pooled_rate \<Rightarrow> rat \<times> rat \<times> rat \<times> nat" where
  "pooled_dict p = (po_rate p, po_low p, po_high p, po_samples p)"

definition pooled_of_dict :: "rat \<times> rat \<times> rat \<times> nat \<Rightarrow> pooled_rate" where
  "pooled_of_dict d = (case d of (r, l, h, n) \<Rightarrow> \<lparr>po_rate = r, po_low = l, po_high = h, po_samples = n\<rparr>)"

definition to_metadata :: "toner_model \<Rightarrow> model_metadata" where
  "to_metadata tm = \<lparr>mm_algorithm = algorithm, mm_by_model = map (\<lambda>(k, v). (k, pooled_dict v)) (tm_by_model tm),
     mm_by_color = map (\<lambda>(k, v). (k, pooled_dict v)) (tm_by_color tm)\<rparr>"

definition from_metadata :: "model_metadata \<Rightarrow> toner_model option" where
  "from_metadata md = (if mm_algorithm md \<noteq> algorithm then None
     else Some \<lparr>tm_by_model = map (\<lambda>(k, v). (k, pooled_of_dict v)) (mm_by_model md),
                tm_by_color = map (\<lambda>(k, v). (k, pooled_of_dict v)) (mm_by_color md)\<rparr>)"

subsection \<open>The backtest (backtest.py)\<close>

definition horizons_days :: "nat list" where
  "horizons_days = [30, 14, 7]"

definition finished :: "segment \<Rightarrow> bool" where
  "finished s \<longleftrightarrow> (sg_ended s \<or> last_level s \<le> 5) \<and> 10 \<le> span_days s \<and> 20 \<le> first_level s - last_level s"

record backtest_result =
  bt_cases :: nat
  bt_mae_days :: "rat option"
  bt_by_horizon :: "(nat \<times> rat) list"

definition rated_segments :: "(uid \<times> string \<times> segment) list \<Rightarrow> (uid \<times> string \<times> ustr \<times> rat) list" where
  "rated_segments labelled = List.map_filter (\<lambda>(pid, color, s).
     map_option (\<lambda>e. (pid, color, normalize_model (sg_model s), re_rate e)) (estimate_rate (Some s) None)) labelled"

text \<open>The prior comes from the other printers only.\<close>

definition others_model :: "(uid \<times> string \<times> ustr \<times> rat) list \<Rightarrow> uid \<Rightarrow> toner_model" where
  "others_model rated pid = from_rates (map snd (filter (\<lambda>r. fst r \<noteq> pid) rated))"

definition backtest_error :: "toner_model \<Rightarrow> string \<Rightarrow> segment \<Rightarrow> nat \<Rightarrow> rat option" where
  "backtest_error tm color s horizon =
     (let start = fst (hd (sg_points s)); end_day = fst (last (sg_points s)); cut = end_day - of_nat horizon
      in if cut - start < 3 then None
         else
           let known = filter (\<lambda>p. fst p \<le> cut) (sg_points s); remaining = snd (last known) - last_level s
           in if remaining \<le> 0 then None
              else map_option (\<lambda>f. \<bar>tf_days f - (end_day - fst (last known))\<bar>)
                     (forecast tm color (sg_model s) remaining (estimate_rate (Some s) (Some cut))))"

definition horizon_errors :: "(uid \<times> string \<times> segment) list \<Rightarrow> nat \<Rightarrow> rat list" where
  "horizon_errors labelled horizon = List.map_filter (\<lambda>(pid, color, s).
     if finished s then backtest_error (others_model (rated_segments labelled) pid) color s horizon else None) labelled"

definition mean :: "rat list \<Rightarrow> rat" where
  "mean xs = sum_list xs / of_nat (length xs)"

definition backtest :: "(uid \<times> string \<times> segment) list \<Rightarrow> backtest_result" where
  "backtest labelled =
     (let errors = map (\<lambda>h. (h, horizon_errors labelled h)) horizons_days; all_errors = concat (map snd errors)
      in \<lparr>bt_cases = length all_errors, bt_mae_days = (if all_errors = [] then None else Some (mean all_errors)),
          bt_by_horizon = map (\<lambda>(h, es). (h, mean es)) (filter (\<lambda>(h, es). es \<noteq> []) errors)\<rparr>)"


subsection \<open>Facts: order statistics\<close>

lemma median_quantile: "xs \<noteq> [] \<Longrightarrow> median_of xs = quantile xs (1/2)"
proof -
  assume ne: "xs \<noteq> []"
  show ?thesis
  proof (cases "odd (length xs)")
    case True
    then obtain k where k: "length xs = 2 * k + 1" by (elim oddE)
    have pos: "1/2 * rat_of_nat (length xs - 1) = of_nat k" using k by simp
    have "length xs = 1 \<Longrightarrow> hd xs = xs ! 0" using ne by (cases xs) auto
    with k show ?thesis unfolding median_of_def quantile_def Let_def pos by auto
  next
    case False
    with ne obtain k where k: "length xs = 2 * Suc k"
      by (metis evenE length_0_conv mult_0_right not0_implies_Suc)
    have pos: "1/2 * rat_of_nat (length xs - 1) = of_nat k + 1/2" using k by (simp add: field_simps)
    have "\<lfloor>rat_of_nat k + 1/2\<rfloor> = int k" by (simp add: floor_eq_iff)
    with k show ?thesis unfolding median_of_def quantile_def Let_def pos by (simp add: field_simps)
  qed
qed

lemma quantile_bounds:
  assumes "sorted xs" "xs \<noteq> []" "0 \<le> q" "q \<le> 1"
  defines "pos \<equiv> q * of_nat (length xs - 1)"
  shows "xs ! nat \<lfloor>pos\<rfloor> \<le> quantile xs q" "quantile xs q \<le> xs ! min (nat \<lfloor>pos\<rfloor> + 1) (length xs - 1)"
    "nat \<lfloor>pos\<rfloor> < length xs"
proof -
  have pos: "0 \<le> pos" using assms(3) by (simp add: pos_def)
  have "pos \<le> of_nat (length xs - 1)" using mult_right_mono [OF assms(4), of "of_nat (length xs - 1)"] by (simp add: pos_def)
  then have "\<lfloor>pos\<rfloor> \<le> int (length xs - 1)" by (simp add: floor_le_iff)
  then show lt: "nat \<lfloor>pos\<rfloor> < length xs" using assms(2) by (cases xs) auto
  let ?lo = "nat \<lfloor>pos\<rfloor>" let ?hi = "min (?lo + 1) (length xs - 1)"
  have le: "xs ! ?lo \<le> xs ! ?hi" using assms(1,2) lt by (intro sorted_nth_mono) auto
  have frac: "0 \<le> pos - of_nat ?lo" "pos - of_nat ?lo \<le> 1" using pos by linarith+
  have "0 \<le> (xs ! ?hi - xs ! ?lo) * (pos - of_nat ?lo)" using le frac by simp
  moreover have "(xs ! ?hi - xs ! ?lo) * (pos - of_nat ?lo) \<le> xs ! ?hi - xs ! ?lo"
    using mult_left_mono [OF frac(2), of "xs ! ?hi - xs ! ?lo"] le by simp
  moreover have "length xs = 1 \<Longrightarrow> hd xs = xs ! 0" using assms(2) by (cases xs) auto
  ultimately show "xs ! ?lo \<le> quantile xs q" "quantile xs q \<le> xs ! ?hi"
    using lt by (auto simp: quantile_def Let_def pos_def)
qed

lemma quantile_mono:
  assumes "sorted xs" "xs \<noteq> []" "0 \<le> q" "q \<le> q'" "q' \<le> 1"
  shows "quantile xs q \<le> quantile xs q'"
proof -
  define pos where "pos = q * of_nat (length xs - 1)"
  define pos' where "pos' = q' * of_nat (length xs - 1)"
  have le: "pos \<le> pos'" using assms(4) by (simp add: pos_def pos'_def mult_right_mono)
  have nonneg: "0 \<le> pos" using assms(3) by (simp add: pos_def)
  let ?lo = "nat \<lfloor>pos\<rfloor>" let ?lo' = "nat \<lfloor>pos'\<rfloor>"
  have los: "?lo \<le> ?lo'" using le by (simp add: floor_mono nat_mono)
  have b': "xs ! ?lo' \<le> quantile xs q'" "?lo' < length xs"
  proof -
    have q': "0 \<le> q'" using assms(3,4) by simp
    show "xs ! ?lo' \<le> quantile xs q'" "?lo' < length xs"
      unfolding pos'_def by (rule quantile_bounds(1) [OF assms(1,2) q' assms(5)], rule quantile_bounds(3) [OF assms(1,2) q' assms(5)])
  qed
  show ?thesis
  proof (cases "?lo = ?lo'")
    case True
    have "xs ! ?lo \<le> xs ! min (?lo + 1) (length xs - 1)"
      using assms(1,2) los b'(2) by (intro sorted_nth_mono) auto
    then have "(xs ! min (?lo + 1) (length xs - 1) - xs ! ?lo) * (pos - of_nat ?lo)
        \<le> (xs ! min (?lo + 1) (length xs - 1) - xs ! ?lo) * (pos' - of_nat ?lo)"
      using le by (intro mult_left_mono) auto
    with True show ?thesis by (auto simp: quantile_def Let_def pos_def pos'_def)
  next
    case False
    then have "min (?lo + 1) (length xs - 1) \<le> ?lo'" using los by simp
    then have "xs ! min (?lo + 1) (length xs - 1) \<le> xs ! ?lo'" by (rule sorted_nth_mono [OF assms(1) _ b'(2)])
    moreover have "quantile xs q \<le> xs ! min (?lo + 1) (length xs - 1)"
      using quantile_bounds(2) [OF assms(1,2), of q] assms(3-5) by (simp add: pos_def)
    ultimately show ?thesis using b'(1) by simp
  qed
qed

lemma theil_sen_ordered:
  "theil_sen points = Some fit \<Longrightarrow> sf_low fit \<le> sf_slope fit \<and> sf_slope fit \<le> sf_high fit"
  by (auto simp: theil_sen_def Let_def median_quantile split: if_splits intro!: quantile_mono)

text \<open>An estimate is an interval around its rate, within the plausible rates.\<close>

lemma estimate_rate_wf:
  assumes "estimate_rate seg until = Some e"
  shows "min_rate \<le> re_low e \<and> re_low e \<le> re_rate e \<and> re_rate e \<le> re_high e \<and> re_high e \<le> max_rate \<and> min_span_days \<le> re_span e"
proof -
  obtain fit where "theil_sen (filter (\<lambda>p. case until of None \<Rightarrow> True | Some u \<Rightarrow> fst p \<le> u) (sg_points (the seg))) = Some fit"
    "min_rate \<le> - sf_slope fit" "- sf_slope fit \<le> max_rate" "re_rate e = - sf_slope fit"
    "re_low e = max (- sf_high fit) min_rate" "re_high e = min (max (- sf_low fit) (- sf_slope fit)) max_rate" "min_span_days \<le> re_span e"
    using assms by (auto simp: estimate_rate_def Let_def split: option.splits if_splits)
  with theil_sen_ordered [OF this(1)] show ?thesis by auto
qed

subsection \<open>Facts: a constant rate\<close>

lemma quantile_const: "set xs \<subseteq> {c} \<Longrightarrow> xs \<noteq> [] \<Longrightarrow> 0 \<le> q \<Longrightarrow> q \<le> 1 \<Longrightarrow> quantile xs q = c"
proof -
  assume a: "set xs \<subseteq> {c}" "xs \<noteq> []" "0 \<le> q" "q \<le> 1"
  have all: "i < length xs \<Longrightarrow> xs ! i = c" for i using a(1) nth_mem by blast
  have "sorted xs" using all by (simp add: sorted_iff_nth_mono)
  from quantile_bounds [OF this a(2-4)] all show ?thesis
    using a(2) by (metis (no_types, lifting) One_nat_def Suc_pred add.commute antisym length_greater_0_conv lessI min_less_iff_conj plus_1_eq_Suc less_Suc_eq_le min.cobounded2)
qed

lemma pair_slopes_line:
  "\<forall>p \<in> set ps. snd p = a - r * fst p \<Longrightarrow> set (pair_slopes ps) \<subseteq> {- r}"
proof (induction ps)
  case (Cons p ps)
  have "(snd q - snd p) / (fst q - fst p) = - r" if "q \<in> set ps" "fst q \<noteq> fst p" for q
  proof -
    have "snd q - snd p = - r * (fst q - fst p)" using Cons.prems that(1) by (simp add: algebra_simps)
    then show ?thesis using that(2) by (simp add: divide_simps)
  qed
  with Cons show ?case by auto
qed simp

lemma pair_slopes_ne: "ps \<noteq> [] \<Longrightarrow> fst (last ps) \<noteq> fst (hd ps) \<Longrightarrow> pair_slopes ps \<noteq> []"
  by (cases ps) (auto simp: filter_empty_conv split: if_splits)

lemma theil_sen_line:
  assumes "\<forall>p \<in> set ps. snd p = a - r * fst p" "ps \<noteq> []" "fst (last ps) \<noteq> fst (hd ps)"
  shows "theil_sen ps = Some \<lparr>sf_slope = - r, sf_low = - r, sf_high = - r\<rparr>"
proof -
  have "set (sort (pair_slopes ps)) \<subseteq> {- r}" "sort (pair_slopes ps) \<noteq> []"
    using pair_slopes_line [OF assms(1)] pair_slopes_ne [OF assms(2,3)] by (simp_all, metis length_0_conv length_sort)
  then show ?thesis by (simp add: theil_sen_def Let_def median_quantile quantile_const)
qed


subsection \<open>Facts: rounding and the forecast\<close>

lemma round_half_even_bounds: "of_int a \<le> x \<Longrightarrow> x \<le> of_int b \<Longrightarrow> a \<le> round_half_even x \<and> round_half_even x \<le> b"
proof -
  assume a: "of_int a \<le> x" and b: "x \<le> of_int b"
  have 1: "a \<le> \<lfloor>x\<rfloor>" using a by (simp add: le_floor_iff)
  have 3: "\<lfloor>x\<rfloor> \<le> b" using b by (simp add: floor_le_iff)
  have 2: "\<lfloor>x\<rfloor> < b" if "of_int \<lfloor>x\<rfloor> < x"
  proof -
    have "\<lfloor>x\<rfloor> \<noteq> b" using that b by auto
    with 3 show ?thesis by simp
  qed
  show ?thesis
  proof (cases "x - of_int \<lfloor>x\<rfloor> < 1/2")
    case True
    then show ?thesis using 1 3 by (simp add: round_half_even_def Let_def)
  next
    case False
    then have "\<lfloor>x\<rfloor> < b" by (intro 2) auto
    then show ?thesis using 1 by (simp add: round_half_even_def Let_def)
  qed
qed

lemma round3_bounds: "1/20 \<le> x \<Longrightarrow> x \<le> 19/20 \<Longrightarrow> 1/20 \<le> round3 x \<and> round3 x \<le> 19/20"
  using round_half_even_bounds [of 50 "x * 1000" 950] by (auto simp: round3_def)

lemma round3_clamped: "1/20 \<le> round3 (max (1/20) (min (19/20) c)) \<and> round3 (max (1/20) (min (19/20) c)) \<le> 19/20"
  by (rule round3_bounds) (auto simp: max_def min_def)

lemma div_mono_denominator: "(0::rat) \<le> l \<Longrightarrow> 0 < a \<Longrightarrow> a \<le> b \<Longrightarrow> l / b \<le> l / a"
  by (intro divide_left_mono) auto

text \<open>The arithmetic of a forecast, whatever the blended rates.\<close>

lemma forecast_band:
  fixes level r l h :: rat
  assumes "0 \<le> level"
  defines "rate \<equiv> max r min_rate"
  defines "low \<equiv> min (max l min_rate) rate" and "high \<equiv> max h rate"
  defines "days \<equiv> min (level / rate) max_days"
  shows "min_rate \<le> rate \<and> 0 \<le> min (level / high) days \<and> min (level / high) days \<le> days
    \<and> days \<le> min (level / low) max_days \<and> min (level / low) max_days \<le> max_days"
proof (intro conjI)
  have pos: "0 < min_rate" "0 < rate" "0 < low" "low \<le> rate" "rate \<le> high"
    by (auto simp: min_rate_def rate_def low_def high_def)
  show "min_rate \<le> rate" by (simp add: rate_def)
  show "0 \<le> min (level / high) days" using assms(1) pos by (auto simp: days_def max_days_def)
  show "days \<le> min (level / low) max_days"
    using div_mono_denominator [OF assms(1) pos(3,4)] by (auto simp: days_def)
qed simp_all

subsection \<open>Facts: cartridge lives\<close>

definition steady :: "(rat \<times> rat) list \<Rightarrow> bool" where
  "steady pts = successively (\<lambda>p q. fst p < fst q \<and> snd q < snd p + of_int refill_rise) pts"

definition days_of :: "(rat \<times> rat) list \<Rightarrow> rat set" where
  "days_of pts = fst ` set pts"

text \<open>Where one life ends and the next begins the level jumps.\<close>

definition refilled :: "segment \<Rightarrow> segment \<Rightarrow> bool" where
  "refilled s s' \<longleftrightarrow> last_level s + of_int refill_rise \<le> first_level s'"

text \<open>The state of the loop after some readings.\<close>

definition split_ok :: "daily_reading list \<Rightarrow> split_state \<Rightarrow> bool" where
  "split_ok seen st \<longleftrightarrow> (case st of (segments, current, prev) \<Rightarrow>
     list_all (\<lambda>s. sg_ended s \<and> sg_points s \<noteq> [] \<and> steady (sg_points s)) segments
   \<and> \<not> sg_ended current \<and> steady (sg_points current) \<and> successively refilled (segments @ [current])
   \<and> (case prev of None \<Rightarrow> seen = [] \<and> segments = [] \<and> sg_points current = []
        | Some p \<Rightarrow> seen \<noteq> [] \<and> sg_points current \<noteq> [] \<and> last (sg_points current) = (of_int (dr_day (last seen)), of_int p))
   \<and> (\<Union>s \<in> set segments. days_of (sg_points s)) \<union> days_of (sg_points current) = (\<lambda>r. of_int (dr_day r)) ` set seen)"

lemma steady_snoc: "steady (pts @ [q]) \<longleftrightarrow> steady pts \<and> (pts = [] \<or> (fst (last pts) < fst q \<and> snd q < snd (last pts) + of_int refill_rise))"
  by (auto simp: steady_def successively_append_iff)

lemma days_of_simps [simp]: "days_of [] = {}" "days_of (pts @ [q]) = insert (fst q) (days_of pts)" "days_of [q] = {fst q}"
  by (auto simp: days_of_def)

lemma steady_simps [simp]: "steady []" "steady [q]"
  by (simp_all add: steady_def)

lemma refilled_current:
  "sg_points c \<noteq> [] \<Longrightarrow> sg_points c' = sg_points c @ pts \<Longrightarrow> successively refilled (segs @ [c]) \<Longrightarrow> successively refilled (segs @ [c'])"
  by (auto simp: successively_append_iff refilled_def first_level_def)

lemma split_step_ok:
  assumes ok: "split_ok seen st" and low: "dr_low r \<le> dr_high r" and day: "seen = [] \<or> dr_day (last seen) < dr_day r"
  shows "split_ok (seen @ [r]) (split_step st r)"
proof -
  obtain segments current prev where st: "st = (segments, current, prev)" by (cases st)
  show ?thesis
  proof (cases prev)
    case None
    with ok st show ?thesis by (auto simp: split_ok_def split_step_def swapped_def Let_def)
  next
    case (Some p)
    note ok' = ok [unfolded split_ok_def st prod.case Some option.case]
    have last: "sg_points current \<noteq> []" "last (sg_points current) = (of_int (dr_day (last seen)), of_int p)" "seen \<noteq> []"
      using ok' by auto
    have chain: "successively refilled (segments @ [current])" using ok' by (elim conjE)
    have later: "rat_of_int (dr_day (last seen)) < of_int (dr_day r)" using day last(3) by simp
    show ?thesis
    proof (cases "swapped prev r")
      case False
      let ?cur = "current\<lparr>sg_points := sg_points current @ [(of_int (dr_day r), of_int (dr_low r))],
                   sg_model := or_else (dr_model r) (sg_model current)\<rparr>"
      have "dr_low r < p + refill_rise" using False Some low by (simp add: swapped_def)
      then have rise: "rat_of_int (dr_low r) < of_int p + of_int refill_rise" by (metis of_int_add of_int_less_iff)
      have "successively refilled (segments @ [?cur])"
        by (rule refilled_current [OF last(1) _ chain]) simp
      then show ?thesis
        using False Some ok' last later rise st
        by (auto simp: split_ok_def split_step_def Let_def steady_snoc)
    next
      case True
      let ?pts = "if dr_low r < p then sg_points current @ [(of_int (dr_day r), of_int (dr_low r))] else sg_points current"
      let ?done = "current\<lparr>sg_points := ?pts, sg_ended := True\<rparr>"
      let ?new = "\<lparr>sg_points = [(of_int (dr_day r), of_int (dr_high r))], sg_model = dr_model r, sg_ended = False\<rparr> :: segment"
      have jump: "rat_of_int p + of_int refill_rise \<le> of_int (dr_high r)"
        using True Some by (simp add: swapped_def)
      have "successively refilled (segments @ [?done])"
      proof (cases "dr_low r < p")
        case True
        then show ?thesis by (intro refilled_current [OF last(1) _ chain]) simp
      next
        case False
        then show ?thesis by (intro refilled_current [OF last(1) _ chain, where pts = "[]"]) simp
      qed
      moreover have "refilled ?done ?new"
        using jump last(1,2) by (auto simp: refilled_def last_level_def first_level_def)
      ultimately have "successively refilled ((segments @ [?done]) @ [?new])"
        by (subst successively_append_iff) simp
      moreover have "steady ?pts" using ok' last later by (auto simp: steady_snoc refill_rise_def)
      ultimately show ?thesis
        using True Some ok' last st
        by (auto simp: split_ok_def split_step_def Let_def)
    qed
  qed
qed

lemma split_fold_ok:
  assumes "list_all (\<lambda>r. dr_low r \<le> dr_high r) readings" "sorted_wrt (\<lambda>r r'. dr_day r < dr_day r') readings"
  shows "split_ok readings (foldl split_step ([], empty_segment, None) readings)"
  using assms
proof (induction readings rule: rev_induct)
  case Nil
  then show ?case by (simp add: split_ok_def empty_segment_def)
next
  case (snoc r readings)
  have "readings = [] \<or> dr_day (last readings) < dr_day r"
    using snoc.prems(2) last_in_set [of readings] by (cases "readings = []") (simp_all add: sorted_wrt_append)
  with snoc show ?case by (auto simp: sorted_wrt_append intro!: split_step_ok)
qed


subsection \<open>Properties\<close>

text \<open>A daily series is cut into cartridge lives at the refills and nowhere else: within a life the level never
  rises by the refill jump from one day to the next, between two lives it does; every day of the series is in a
  life, no life is empty, its days ascend, and all but the last life ended by a refill.\<close>

theorem lives_are_cut_at_refills:
  assumes "list_all (\<lambda>r. dr_low r \<le> dr_high r) readings" "sorted_wrt (\<lambda>r r'. dr_day r < dr_day r') readings"
  shows "list_all (\<lambda>s. sg_points s \<noteq> [] \<and> successively (\<lambda>p q. fst p < fst q \<and> snd q < snd p + 15) (sg_points s)) (split_segments readings)
    \<and> successively (\<lambda>s s'. last_level s + 15 \<le> first_level s') (split_segments readings)
    \<and> (\<Union>s \<in> set (split_segments readings). fst ` set (sg_points s)) = (\<lambda>r. of_int (dr_day r)) ` set readings
    \<and> (readings = [] \<longleftrightarrow> split_segments readings = [])
    \<and> (case rev (split_segments readings) of [] \<Rightarrow> True | s # ss \<Rightarrow> \<not> sg_ended s \<and> list_all sg_ended ss)"
proof -
  obtain segments current prev where st: "foldl split_step ([], empty_segment, None) readings = (segments, current, prev)"
    by (metis prod_cases3)
  from split_fold_ok [OF assms] have ok: "split_ok readings (segments, current, prev)" by (simp add: st)
  have steady: "steady = successively (\<lambda>p q. fst p < fst q \<and> snd q < snd p + 15)"
    by (simp add: steady_def refill_rise_def fun_eq_iff)
  have refilled: "refilled = (\<lambda>s s'. last_level s + 15 \<le> first_level s')"
    by (simp add: refilled_def refill_rise_def fun_eq_iff)
  show ?thesis
  proof (cases prev)
    case None
    with ok st show ?thesis by (auto simp: split_ok_def split_segments_def)
  next
    case (Some p)
    then have "split_segments readings = segments @ [current]" "readings \<noteq> []"
      using ok st by (auto simp: split_ok_def split_segments_def)
    with ok show ?thesis
      unfolding split_ok_def steady refilled days_of_def by (auto simp: list_all_iff Un_commute Some)
  qed
qed

definition sample_readings :: "daily_reading list" where
  "sample_readings = map (\<lambda>(d, l, h). \<lparr>dr_day = d, dr_low = l, dr_high = h, dr_model = None\<rparr>)
     [(1, 40, 42), (2, 30, 31), (3, 28, 100), (4, 97, 99)]"

theorem lives_are_cut_at_refills_witness:
  "map (map snd \<circ> sg_points) (split_segments sample_readings) = [[40, 30, 28], [100, 97]]
   \<and> successively (\<lambda>s s'. last_level s + 15 \<le> first_level s') (split_segments sample_readings)"
  using lives_are_cut_at_refills [of sample_readings]
  by (simp add: sample_readings_def) (simp add: split_segments_def split_step_def swapped_def empty_segment_def refill_rise_def Let_def)

text \<open>Whatever the estimates, a forecast is a proper band: the low, the central and the high number of days are
  ordered, none is negative or beyond a year, the rate is never below the floor and the confidence stays between 5
  and 95 percent; only an unknown level gives no forecast.\<close>

theorem forecast_is_a_band:
  "case forecast tm color m level own of
     None \<Rightarrow> level < 0
   | Some f \<Rightarrow> 0 \<le> level \<and> 0 \<le> tf_low f \<and> tf_low f \<le> tf_days f \<and> tf_days f \<le> tf_high f \<and> tf_high f \<le> 365
       \<and> 1/20 \<le> tf_rate f \<and> tf_days f \<le> level / tf_rate f \<and> 1/20 \<le> tf_confidence f \<and> tf_confidence f \<le> 19/20"
proof (cases "level < 0")
  case True
  then show ?thesis by (simp add: forecast_def)
next
  case False
  then have level: "0 \<le> level" by simp
  obtain r l h basis weight where rates: "blended_rates tm color m own = (r, l, h, basis, weight)" by (rule prod_cases5)
  let ?f = "forecast_at level (r, l, h, basis, weight)"
  let ?rate = "max r min_rate" let ?days = "min (level / ?rate) max_days"
  have fields: "tf_rate ?f = ?rate" "tf_days ?f = ?days" "tf_low ?f = min (level / max h ?rate) ?days"
    "tf_high ?f = min (level / min (max l min_rate) ?rate) max_days"
    unfolding forecast_at_def Let_def prod.case toner_forecast.select_convs by (rule refl)+
  have "\<exists>c. tf_confidence ?f = round3 (max (1/20) (min (19/20) c))"
    unfolding forecast_at_def Let_def prod.case toner_forecast.select_convs by (rule exI) (rule refl)
  then have conf: "1/20 \<le> tf_confidence ?f" "tf_confidence ?f \<le> 19/20"
    using round3_clamped by auto
  have "forecast tm color m level own = Some ?f" using False by (simp add: forecast_def rates)
  moreover have "?days \<le> level / ?rate" by (rule min.cobounded1)
  ultimately show ?thesis
    using level conf forecast_band [OF level, where r = r and h = h and l = l]
    unfolding max_days_def [symmetric] min_rate_def [symmetric] by (simp only: option.case fields)
qed

text \<open>A printer that uses exactly \<open>r\<close> percent a day over at least two days is estimated at exactly \<open>r\<close>, with a band
  of no width, for every plausible rate: no error comes from the fit.\<close>

theorem constant_use_is_estimated_exactly:
  assumes "\<forall>p \<in> set (sg_points s). snd p = a - r * fst p" "1/20 \<le> r" "r \<le> 35" "2 \<le> span_days s"
  shows "estimate_rate (Some s) None = Some \<lparr>re_rate = r, re_low = r, re_high = r, re_span = span_days s\<rparr>"
proof -
  have long: "1 < length (sg_points s)" and span: "span_days s = fst (last (sg_points s)) - fst (hd (sg_points s))"
    using assms(4) by (auto simp: span_days_def split: if_splits)
  have "theil_sen (sg_points s) = Some \<lparr>sf_slope = - r, sf_low = - r, sf_high = - r\<rparr>"
    by (rule theil_sen_line [OF assms(1)]) (use long span assms(4) in auto)
  then show ?thesis
    using assms(2-4) long span by (simp add: estimate_rate_def Let_def min_span_days_def min_rate_def max_rate_def)
qed

definition steady_use :: segment where
  "steady_use = \<lparr>sg_points = [(1, 90), (2, 87), (4, 81)], sg_model = None, sg_ended = False\<rparr>"

theorem constant_use_is_estimated_exactly_witness:
  "estimate_rate (Some steady_use) None = Some \<lparr>re_rate = 3, re_low = 3, re_high = 3, re_span = 3\<rparr>"
  using constant_use_is_estimated_exactly [of steady_use 93 3] by (simp add: steady_use_def span_days_def)

end
