(* ===== verification/Ml_Pipeline.thy ===== *)
theory Ml_Pipeline
  imports Toner_Forecast Cartridge_Journal
begin

section \<open>Training, scoring and retention (app/ml/pipeline.py, app/ml/retention.py)\<close>

text \<open>
  The model registry, the two training runs with their activation rule, the two scoring runs that
  rewrite the prediction tables, and the daily pruning. A version string (the clock rendered behind a
  prefix) and a fresh row id are arguments; a stored JSON text is the value it was rendered from.
\<close>

subsection \<open>The registry\<close>

datatype ml_metadata =
    Toner_meta model_metadata backtest_result
  | Offline_meta rat rat
  | Other_meta
  | No_json

record model_row =
  mr_id :: uid
  mr_family :: string
  mr_version :: string
  mr_status :: string
  mr_train_rows :: nat
  mr_primary :: "rat option"
  mr_secondary :: "rat option"
  mr_metadata :: "ml_metadata option"
  mr_trained_at :: instant
  mr_activated_at :: "instant option"

datatype ml_effect =
    Train_run string string
  | Active_info string string
  | Predictions string string nat
  | Deleted string nat

definition toner_family :: string where "toner_family = ''toner_forecast''"
definition offline_family :: string where "offline_family = ''offline_risk''"
definition active_status :: string where "active_status = ''active''"

definition clamp01 :: "rat \<Rightarrow> rat" where
  "clamp01 v = max 0 (min v 1)"

text \<open>\<open>order_by(activated_at desc, trained_at desc).first()\<close>; descending order puts nulls first.\<close>

definition active_rank :: "model_row \<Rightarrow> int list" where
  "active_rank r = (case mr_activated_at r of None \<Rightarrow> [1, 0, mr_trained_at r] | Some t \<Rightarrow> [0, t, mr_trained_at r])"

definition latest_active_model :: "string \<Rightarrow> model_row list \<Rightarrow> model_row option" where
  "latest_active_model family rows =
     foldl (\<lambda>best r. case best of None \<Rightarrow> Some r | Some b \<Rightarrow> if active_rank b < active_rank r then Some r else Some b) None
       (filter (\<lambda>r. mr_family r = family \<and> mr_status r = active_status) rows)"

text \<open>The new model is the last row; the active ones of its family are archived first.\<close>

definition set_active_model :: "instant \<Rightarrow> model_row \<Rightarrow> model_row list \<Rightarrow> model_row list \<times> ml_effect list" where
  "set_active_model now model rows =
     (map (\<lambda>r. if mr_id r = mr_id model then r\<lparr>mr_status := active_status, mr_activated_at := Some now\<rparr>
               else if mr_family r = mr_family model \<and> mr_status r = active_status then r\<lparr>mr_status := ''archived''\<rparr>
               else r) rows,
      [Active_info (mr_family model) (mr_version model)])"

subsection \<open>Training the toner forecast\<close>

record ml_settings =
  ML_MIN_TRAIN_ROWS :: int
  ML_FEATURE_SNAPSHOT_RETENTION_DAYS :: int
  ML_MODEL_REGISTRY_KEEP_PER_FAMILY :: int
  ML_RETENTION_BATCH_SIZE :: int

definition default_ml_settings :: ml_settings where
  "default_ml_settings = \<lparr>ML_MIN_TRAIN_ROWS = 50, ML_FEATURE_SNAPSHOT_RETENTION_DAYS = 90,
     ML_MODEL_REGISTRY_KEEP_PER_FAMILY = 30, ML_RETENTION_BATCH_SIZE = 5000\<rparr>"

definition history_window :: "ml_settings \<Rightarrow> instant \<Rightarrow> instant" where
  "history_window cfg now = now - max (ML_FEATURE_SNAPSHOT_RETENTION_DAYS cfg) 1 * 86400"

definition toner_segments :: "ml_settings \<Rightarrow> instant \<Rightarrow> snapshot list \<Rightarrow> (uid \<times> string \<times> segment) list" where
  "toner_segments cfg now snaps = concat (map (\<lambda>((pid, color), readings). map (\<lambda>s. (pid, color, s)) (split_segments readings))
     (load_daily_readings (history_window cfg now) snaps))"

definition same_toner_algorithm :: "model_row \<Rightarrow> bool" where
  "same_toner_algorithm r = (case mr_metadata r of Some (Toner_meta md b) \<Rightarrow> mm_algorithm md = algorithm | _ \<Rightarrow> False)"

text \<open>\<open>candidate.metric_primary <= active.metric_primary * 1.05\<close>, where both are known.\<close>

definition not_worse :: "model_row \<Rightarrow> model_row \<Rightarrow> bool" where
  "not_worse model active = (case (mr_primary active, mr_primary model) of (Some a, Some m) \<Rightarrow> m \<le> a * (21/20) | _ \<Rightarrow> True)"

definition register_model :: "instant \<Rightarrow> bool \<Rightarrow> model_row \<Rightarrow> model_row list \<Rightarrow> model_row list \<times> ml_effect list" where
  "register_model now can_activate model rows =
     (if can_activate then
        (let (rows', es) = set_active_model now model (rows @ [model]) in (rows', es @ [Train_run (mr_family model) ''activated'']))
      else (rows @ [model], [Train_run (mr_family model) ''candidate'']))"

definition toner_candidate :: "ml_settings \<Rightarrow> instant \<Rightarrow> string \<Rightarrow> uid \<Rightarrow> snapshot list \<Rightarrow> model_row" where
  "toner_candidate cfg now version new_id snaps =
     (let labelled = toner_segments cfg now snaps; rates = segment_rates (map snd labelled); check = backtest labelled
      in \<lparr>mr_id = new_id, mr_family = toner_family, mr_version = version, mr_status = ''candidate'', mr_train_rows = length rates,
          mr_primary = bt_mae_days check,
          mr_secondary = Some (if rates = [] then 0 else median_of (sort (map (\<lambda>(c, m, r). r) rates))),
          mr_metadata = Some (Toner_meta (to_metadata (from_rates rates)) check), mr_trained_at = now, mr_activated_at = None\<rparr>)"

definition train_toner_model ::
  "ml_settings \<Rightarrow> instant \<Rightarrow> string \<Rightarrow> uid \<Rightarrow> int \<Rightarrow> snapshot list \<Rightarrow> model_row list \<Rightarrow> model_row list \<times> ml_effect list" where
  "train_toner_model cfg now version new_id min_train_rows snaps rows =
     (let model = toner_candidate cfg now version new_id snaps;
          can_activate = (case latest_active_model toner_family (rows @ [model]) of
              None \<Rightarrow> 0 < mr_train_rows model
            | Some active \<Rightarrow>
                if \<not> same_toner_algorithm active then 0 < mr_train_rows model
                else min_train_rows \<le> int (mr_train_rows model) \<and> not_worse model active)
      in register_model now can_activate model rows)"

subsection \<open>Training the offline risk\<close>

text \<open>The snapshots of each device with a known state, in time order, grouped in device order.\<close>

definition device_histories :: "instant \<Rightarrow> snapshot list \<Rightarrow> ((string \<times> uid) \<times> snapshot list) list" where
  "device_histories since snaps =
     group_pairs (map (\<lambda>s. ((sn_kind s, the (sn_device s)), s))
       (sort_key sn_kind (sort_key (\<lambda>s. the (sn_device s)) (sort_key sn_at
         (filter (\<lambda>s. sn_online s \<noteq> None \<and> since \<le> sn_at s \<and> sn_device s \<noteq> None) snaps)))))"

fun flaps :: "bool option list \<Rightarrow> nat" where
  "flaps (a # b # xs) = (if a \<noteq> b then 1 else 0) + flaps (b # xs)"
| "flaps _ = 0"

definition offline_ratio :: "snapshot list \<Rightarrow> rat" where
  "offline_ratio items = of_nat (length (filter (\<lambda>s. sn_online s = Some False) items)) / of_nat (length items)"

definition flap_rate :: "snapshot list \<Rightarrow> rat" where
  "flap_rate items = of_nat (flaps (map sn_online items)) / of_nat (max (length items - 1) 1)"

definition device_features :: "instant \<Rightarrow> snapshot list \<Rightarrow> (rat \<times> rat \<times> rat) list" where
  "device_features since snaps =
     map (\<lambda>(k, items). (offline_ratio items, flap_rate items, offline_ratio items))
       (filter (\<lambda>(k, items). 2 \<le> length items) (device_histories since snaps))"

definition offline_weights :: "(rat \<times> rat \<times> rat) list \<Rightarrow> rat \<times> rat" where
  "offline_weights features =
     (if features = [] then (7/10, 3/10)
      else let mean_offline = mean (map fst features); mean_flap = mean (map (fst \<circ> snd) features);
               total = max (mean_offline + mean_flap) (1/1000000)
           in (mean_offline / total, mean_flap / total))"

definition risk_score :: "rat \<times> rat \<Rightarrow> rat \<Rightarrow> rat \<Rightarrow> rat" where
  "risk_score w offline flap = clamp01 (offline * fst w + flap * snd w)"

definition offline_candidate :: "ml_settings \<Rightarrow> instant \<Rightarrow> string \<Rightarrow> uid \<Rightarrow> snapshot list \<Rightarrow> model_row" where
  "offline_candidate cfg now version new_id snaps =
     (let features = device_features (history_window cfg now) snaps; w = offline_weights features;
          errors = map (\<lambda>(offline, flap, label). \<bar>label - risk_score w offline flap\<bar>) features
      in \<lparr>mr_id = new_id, mr_family = offline_family, mr_version = version, mr_status = ''candidate'',
          mr_train_rows = length features, mr_primary = (if errors = [] then None else Some (mean errors)),
          mr_secondary = Some (if features = [] then 0 else mean (map fst features)),
          mr_metadata = Some (Offline_meta (fst w) (snd w)), mr_trained_at = now, mr_activated_at = None\<rparr>)"

definition train_offline_risk_model ::
  "ml_settings \<Rightarrow> instant \<Rightarrow> string \<Rightarrow> uid \<Rightarrow> int \<Rightarrow> snapshot list \<Rightarrow> model_row list \<Rightarrow> model_row list \<times> ml_effect list" where
  "train_offline_risk_model cfg now version new_id min_train_rows snaps rows =
     (let model = offline_candidate cfg now version new_id snaps;
          active = latest_active_model offline_family (rows @ [model]);
          can_activate = min_train_rows \<le> int (mr_train_rows model) \<and> (case active of None \<Rightarrow> True | Some a \<Rightarrow> not_worse model a);
          can_activate' = (if active = None \<and> 0 < mr_train_rows model then True else can_activate)
      in register_model now can_activate' model rows)"

definition run_training_cycle ::
  "ml_settings \<Rightarrow> instant \<Rightarrow> (string \<Rightarrow> string) \<Rightarrow> (nat \<Rightarrow> uid) \<Rightarrow> int \<Rightarrow> snapshot list \<Rightarrow> model_row list
   \<Rightarrow> model_row list \<times> ml_effect list" where
  "run_training_cycle cfg now version new_id min_train_rows snaps rows =
     (let (rows1, e1) = train_toner_model cfg now (version ''toner'') (new_id 0) min_train_rows snaps rows;
          (rows2, e2) = train_offline_risk_model cfg now (version ''offline'') (new_id 1) min_train_rows snaps rows1
      in (rows2, e1 @ e2))"

subsection \<open>Scoring\<close>

record stored_prediction =
  tp_printer_id :: uid
  tp_printer_name :: ustr
  tp_color :: string
  tp_model :: "ustr option"
  tp_level :: int
  tp_forecast :: toner_forecast
  tp_replacement_at :: rat
  tp_version :: string

definition current_segment :: "ml_settings \<Rightarrow> instant \<Rightarrow> snapshot list \<Rightarrow> uid \<times> string \<Rightarrow> segment option" where
  "current_segment cfg now snaps k =
     (case map_of (load_daily_readings (history_window cfg now) snaps) k of
        None \<Rightarrow> None
      | Some readings \<Rightarrow> (let segs = split_segments readings in if segs = [] then None else Some (last segs)))"

definition toner_prediction_of ::
  "ml_settings \<Rightarrow> instant \<Rightarrow> snapshot list \<Rightarrow> toner_model \<Rightarrow> string \<Rightarrow> printer \<Rightarrow> color \<Rightarrow> stored_prediction option" where
  "toner_prediction_of cfg now snaps tm version p c = (case toner_levels p c of
     None \<Rightarrow> None
   | Some level \<Rightarrow>
       map_option (\<lambda>f. \<lparr>tp_printer_id = pr_id p, tp_printer_name = pr_store_name p, tp_color = color_name c,
           tp_model = cartridge_name p c, tp_level = level, tp_forecast = f,
           tp_replacement_at = of_int now + tf_days f * 86400, tp_version = version\<rparr>)
         (forecast tm (color_name c) (cartridge_name p c) (of_int level)
           (estimate_rate (current_segment cfg now snaps (pr_id p, color_name c)) None)))"

text \<open>The prediction table is rewritten, unless there is no usable model. A model whose metadata is not JSON raises:
  \<open>None\<close>.\<close>

definition score_toner_predictions ::
  "ml_settings \<Rightarrow> instant \<Rightarrow> snapshot list \<Rightarrow> printer list \<Rightarrow> model_row list \<Rightarrow> stored_prediction list
   \<Rightarrow> (nat \<times> stored_prediction list \<times> ml_effect list) option" where
  "score_toner_predictions cfg now snaps printers rows table =
     (case latest_active_model toner_family rows of
        None \<Rightarrow> Some (0, table, [])
      | Some model \<Rightarrow> (case mr_metadata model of
          None \<Rightarrow> Some (0, table, [])
        | Some No_json \<Rightarrow> None
        | Some (Toner_meta md b) \<Rightarrow> (case from_metadata md of
            None \<Rightarrow> Some (0, table, [])
          | Some tm \<Rightarrow>
              let preds = List.map_filter (\<lambda>(p, c). toner_prediction_of cfg now snaps tm (mr_version model) p c)
                    (List.product printers colors)
              in Some (length preds, preds, [Predictions ''toner'' ''n/a'' (length preds)]))
        | Some _ \<Rightarrow> Some (0, table, [])))"

definition risk_level :: "rat \<Rightarrow> string" where
  "risk_level score = (if 3/4 \<le> score then ''high'' else if 9/20 \<le> score then ''medium'' else ''low'')"

record risk_prediction =
  rp_kind :: string
  rp_device :: uid
  rp_name :: "ustr option"
  rp_address :: "string option"
  rp_score :: rat
  rp_level :: string
  rp_confidence :: rat
  rp_version :: string

definition risk_prediction_of :: "rat \<times> rat \<Rightarrow> string \<Rightarrow> snapshot list \<Rightarrow> risk_prediction" where
  "risk_prediction_of w version items =
     (let score = risk_score w (offline_ratio items) (flap_rate items); latest = last items
      in \<lparr>rp_kind = sn_kind latest, rp_device = the (sn_device latest), rp_name = sn_name latest, rp_address = sn_address latest,
          rp_score = score, rp_level = risk_level score, rp_confidence = min (19/20) (1/2 + of_nat (length items) / 80),
          rp_version = version\<rparr>)"

text \<open>The weights default to 0.7 and 0.3 where the metadata has none.\<close>

definition score_offline_risk ::
  "instant \<Rightarrow> snapshot list \<Rightarrow> model_row list \<Rightarrow> risk_prediction list \<Rightarrow> (nat \<times> risk_prediction list \<times> ml_effect list) option" where
  "score_offline_risk now snaps rows table =
     (case latest_active_model offline_family rows of
        None \<Rightarrow> Some (0, table, [])
      | Some model \<Rightarrow> (case mr_metadata model of
          None \<Rightarrow> Some (0, table, [])
        | Some No_json \<Rightarrow> None
        | Some md \<Rightarrow>
            let w = (case md of Offline_meta a b \<Rightarrow> (a, b) | _ \<Rightarrow> (7/10, 3/10));
                preds = map (\<lambda>(k, items). risk_prediction_of w (mr_version model) items)
                  (filter (\<lambda>(k, items). 2 \<le> length items) (device_histories (now - 7 * 86400) snaps));
                count = (\<lambda>l. length (filter (\<lambda>p. rp_level p = l) preds))
            in Some (length preds, preds, List.map_filter (\<lambda>l. if 0 < count l then Some (Predictions ''offline_risk'' l (count l)) else None)
                 [''low'', ''medium'', ''high''])))"

definition run_scoring_cycle ::
  "ml_settings \<Rightarrow> instant \<Rightarrow> (string \<Rightarrow> string) \<Rightarrow> uid \<Rightarrow> snapshot list \<Rightarrow> printer list
   \<Rightarrow> model_row list \<times> stored_prediction list \<times> risk_prediction list
   \<Rightarrow> (model_row list \<times> stored_prediction list \<times> risk_prediction list \<times> ml_effect list) option" where
  "run_scoring_cycle cfg now version new_id snaps printers db =
     (case db of (rows, toner_table, risk_table) \<Rightarrow>
        let (rows1, e1) = (case latest_active_model toner_family rows of
              None \<Rightarrow> (rows, [])
            | Some active \<Rightarrow>
                if same_toner_algorithm active then (rows, [])
                else train_toner_model cfg now (version ''toner'') new_id (ML_MIN_TRAIN_ROWS cfg) snaps rows)
        in (case score_toner_predictions cfg now snaps printers rows1 toner_table of
              None \<Rightarrow> None
            | Some (n, toner_table', e2) \<Rightarrow> (case score_offline_risk now snaps rows1 risk_table of
                None \<Rightarrow> None
              | Some (m, risk_table', e3) \<Rightarrow> Some (rows1, toner_table', risk_table', e1 @ e2 @ e3))))"

subsection \<open>Retention\<close>

text \<open>Which of the old rows a limited query returns is the database's choice: \<open>pick\<close> ranks the rows of a table. The
  loop deletes a batch and stops at one that is not full.\<close>

definition old_batch :: "(snapshot list \<Rightarrow> snapshot \<Rightarrow> int) \<Rightarrow> instant \<Rightarrow> nat \<Rightarrow> snapshot list \<Rightarrow> uid list" where
  "old_batch pick cutoff batch tab = map sn_id (take batch (sort_key (pick tab) (filter (\<lambda>s. sn_at s < cutoff) tab)))"

definition delete_ids :: "uid list \<Rightarrow> snapshot list \<Rightarrow> snapshot list" where
  "delete_ids ids tab = filter (\<lambda>s. sn_id s \<notin> set ids) tab"

lemma delete_batch_less: "old_batch pick cutoff batch tab \<noteq> [] \<Longrightarrow> length (delete_ids (old_batch pick cutoff batch tab) tab) < length tab"
proof -
  assume "old_batch pick cutoff batch tab \<noteq> []"
  then obtain s where "s \<in> set (take batch (sort_key (pick tab) (filter (\<lambda>s. sn_at s < cutoff) tab)))"
    by (fastforce simp: old_batch_def neq_Nil_conv)
  moreover from this have "s \<in> set tab" by (auto dest: in_set_takeD)
  ultimately have "s \<in> set tab" "sn_id s \<in> set (old_batch pick cutoff batch tab)" by (auto simp: old_batch_def)
  then show ?thesis unfolding delete_ids_def by (intro length_filter_less) auto
qed

function prune_batches :: "(snapshot list \<Rightarrow> snapshot \<Rightarrow> int) \<Rightarrow> instant \<Rightarrow> nat \<Rightarrow> snapshot list \<Rightarrow> snapshot list \<times> nat" where
  "prune_batches pick cutoff batch tab =
     (let ids = old_batch pick cutoff batch tab
      in if ids = [] then (tab, 0)
         else if length ids < batch then (delete_ids ids tab, length ids)
         else (let (rest, n) = prune_batches pick cutoff batch (delete_ids ids tab) in (rest, length ids + n)))"
  by pat_completeness auto
termination
  by (relation "measure (\<lambda>(pick, cutoff, batch, tab). length tab)") (auto simp: delete_batch_less)

declare prune_batches.simps [simp del]

definition prune_feature_snapshots ::
  "(snapshot list \<Rightarrow> snapshot \<Rightarrow> int) \<Rightarrow> instant \<Rightarrow> int \<Rightarrow> nat \<Rightarrow> snapshot list \<Rightarrow> snapshot list \<times> nat \<times> ml_effect list" where
  "prune_feature_snapshots pick now retention_days batch tab =
     (if retention_days \<le> 0 then (tab, 0, [])
      else (let (tab', n) = prune_batches pick (now - retention_days * 86400) batch tab
            in (tab', n, if n \<noteq> 0 then [Deleted ''mlfeaturesnapshot'' n] else [])))"

definition keep_ids :: "nat \<Rightarrow> string \<Rightarrow> model_row list \<Rightarrow> uid list" where
  "keep_ids k family rows =
     (let newest = sort_key (\<lambda>r. - mr_trained_at r) (filter (\<lambda>r. mr_family r = family) rows)
      in map mr_id (take k newest) @ map mr_id (filter (\<lambda>r. mr_status r = active_status) newest))"

definition prune_family :: "nat \<Rightarrow> model_row list \<Rightarrow> string \<Rightarrow> model_row list" where
  "prune_family k rows family = filter (\<lambda>r. mr_family r = family \<longrightarrow> mr_id r \<in> set (keep_ids k family rows)) rows"

definition prune_model_registry :: "int \<Rightarrow> model_row list \<Rightarrow> model_row list \<times> nat \<times> ml_effect list" where
  "prune_model_registry keep rows =
     (if keep \<le> 0 then (rows, 0, [])
      else let rows' = foldl (prune_family (nat keep)) rows (remdups (map mr_family rows)); n = length rows - length rows'
           in (rows', n, if n \<noteq> 0 then [Deleted ''mlmodelregistry'' n] else []))"

definition run_retention_cycle ::
  "(snapshot list \<Rightarrow> snapshot \<Rightarrow> int) \<Rightarrow> ml_settings \<Rightarrow> instant \<Rightarrow> snapshot list \<Rightarrow> model_row list
   \<Rightarrow> (snapshot list \<times> model_row list) \<times> nat \<times> nat \<times> ml_effect list" where
  "run_retention_cycle pick cfg now snaps rows =
     (let (snaps', n, e1) = prune_feature_snapshots pick now (ML_FEATURE_SNAPSHOT_RETENTION_DAYS cfg) (nat (ML_RETENTION_BATCH_SIZE cfg)) snaps;
          (rows', m, e2) = prune_model_registry (ML_MODEL_REGISTRY_KEEP_PER_FAMILY cfg) rows
      in ((snaps', rows'), n, m, e1 @ e2))"

subsection \<open>Facts: pruning snapshots\<close>

lemma set_old_batch: "set (old_batch pick cutoff batch tab) \<subseteq> sn_id ` {s \<in> set tab. sn_at s < cutoff}"
  by (auto simp: old_batch_def dest: in_set_takeD)

lemma delete_old_batch:
  assumes "distinct (map sn_id tab)"
  shows "filter (\<lambda>s. cutoff \<le> sn_at s) (delete_ids (old_batch pick cutoff batch tab) tab) = filter (\<lambda>s. cutoff \<le> sn_at s) tab"
proof -
  have "sn_id s \<notin> set (old_batch pick cutoff batch tab)" if "s \<in> set tab" "cutoff \<le> sn_at s" for s
    using set_old_batch [of pick cutoff batch tab] distinct_map_eq [OF assms that(1)] that(2) by force
  then show ?thesis by (auto simp: delete_ids_def intro!: filter_cong)
qed

lemma short_batch_all:
  assumes "length (old_batch pick cutoff batch tab) < batch"
  shows "delete_ids (old_batch pick cutoff batch tab) tab = filter (\<lambda>s. sn_id s \<notin> sn_id ` {s \<in> set tab. sn_at s < cutoff}) tab"
proof -
  have "take batch (sort_key (pick tab) (filter (\<lambda>s. sn_at s < cutoff) tab)) = sort_key (pick tab) (filter (\<lambda>s. sn_at s < cutoff) tab)"
    using assms by (simp add: old_batch_def)
  then show ?thesis by (simp add: delete_ids_def old_batch_def)
qed

lemma old_only:
  assumes "distinct (map sn_id tab)"
  shows "filter (\<lambda>s. sn_id s \<notin> sn_id ` {s \<in> set tab. sn_at s < cutoff}) tab = filter (\<lambda>s. cutoff \<le> sn_at s) tab"
  using distinct_map_eq [OF assms] by (fastforce intro!: filter_cong)

lemma distinct_delete_ids: "distinct (map sn_id tab) \<Longrightarrow> distinct (map sn_id (delete_ids ids tab))"
  by (simp add: delete_ids_def distinct_map_filter)

lemma prune_batches_filter:
  assumes "distinct (map sn_id tab)" "0 < batch"
  shows "fst (prune_batches pick cutoff batch tab) = filter (\<lambda>s. cutoff \<le> sn_at s) tab"
  using assms
proof (induction pick cutoff batch tab rule: prune_batches.induct)
  case (1 pick cutoff batch tab)
  let ?ids = "old_batch pick cutoff batch tab"
  show ?case
  proof (cases "length ?ids < batch")
    case True
    then have "delete_ids ?ids tab = filter (\<lambda>s. cutoff \<le> sn_at s) tab" using short_batch_all [OF True] old_only [OF 1(2)] by simp
    moreover have "?ids = [] \<Longrightarrow> delete_ids ?ids tab = tab" by (simp add: delete_ids_def)
    ultimately show ?thesis using True by (subst prune_batches.simps) (auto simp: Let_def)
  next
    case False
    with 1(3) have ne: "?ids \<noteq> []" by auto
    have "fst (prune_batches pick cutoff batch (delete_ids ?ids tab)) = filter (\<lambda>s. cutoff \<le> sn_at s) (delete_ids ?ids tab)"
      using 1(1) [OF refl ne False distinct_delete_ids [OF 1(2)] 1(3)] .
    with False ne delete_old_batch [OF 1(2)] show ?thesis
      by (subst prune_batches.simps) (simp add: Let_def case_prod_unfold)
  qed
qed


lemma old_batch_distinct: "distinct (map sn_id tab) \<Longrightarrow> distinct (old_batch pick cutoff batch tab)"
  by (simp add: old_batch_def take_map [symmetric] distinct_map_filter)

lemma length_delete_ids:
  assumes "distinct (map sn_id tab)" "distinct ids" "set ids \<subseteq> sn_id ` set tab"
  shows "length ids + length (delete_ids ids tab) = length tab"
proof -
  have "length (delete_ids ids tab) = card (sn_id ` set tab - set ids)"
  proof -
    have "set (map sn_id (delete_ids ids tab)) = sn_id ` set tab - set ids" by (auto simp: delete_ids_def)
    then show ?thesis using distinct_card [OF distinct_delete_ids [OF assms(1)], of ids] by simp
  qed
  moreover have "card (set ids) = length ids" using assms(2) by (rule distinct_card)
  moreover have "card (sn_id ` set tab) = length tab" using distinct_card [OF assms(1)] by simp
  moreover have "card (set ids) \<le> card (sn_id ` set tab)" using assms(3) by (intro card_mono) auto
  ultimately show ?thesis using card_Diff_subset [OF _ assms(3)] by simp
qed

lemma prune_batches_count:
  assumes "distinct (map sn_id tab)"
  shows "snd (prune_batches pick cutoff batch tab) + length (fst (prune_batches pick cutoff batch tab)) = length tab"
  using assms
proof (induction pick cutoff batch tab rule: prune_batches.induct)
  case (1 pick cutoff batch tab)
  let ?ids = "old_batch pick cutoff batch tab"
  have "set ?ids \<subseteq> sn_id ` set tab" using set_old_batch [of pick cutoff batch tab] by blast
  note len = length_delete_ids [OF 1(2) old_batch_distinct [OF 1(2)] this]
  show ?case
  proof (cases "?ids = [] \<or> length ?ids < batch")
    case True
    then show ?thesis using len by (subst (1 2) prune_batches.simps) (auto simp: Let_def)
  next
    case False
    then have "snd (prune_batches pick cutoff batch (delete_ids ?ids tab)) + length (fst (prune_batches pick cutoff batch (delete_ids ?ids tab)))
        = length (delete_ids ?ids tab)" by (intro 1(1) [OF refl _ _ distinct_delete_ids [OF 1(2)]]) auto
    with False len show ?thesis
      by (subst (1 2) prune_batches.simps) (simp add: Let_def case_prod_unfold)
  qed
qed

subsection \<open>Facts: the registry\<close>

definition is_active_in :: "string \<Rightarrow> model_row \<Rightarrow> bool" where
  "is_active_in family r \<longleftrightarrow> mr_family r = family \<and> mr_status r = active_status"

definition one_active :: "model_row list \<Rightarrow> bool" where
  "one_active rows \<longleftrightarrow> (\<forall>family. length (filter (is_active_in family) rows) \<le> 1)"

lemma latest_filter: "filter (is_active_in family) rows = filter (is_active_in family) rows' \<Longrightarrow>
   latest_active_model family rows = latest_active_model family rows'"
  by (simp add: latest_active_model_def is_active_in_def [abs_def])

lemma latest_single: "filter (is_active_in family) rows = [r] \<Longrightarrow> latest_active_model family rows = Some r"
  by (simp add: latest_active_model_def is_active_in_def [abs_def])

lemma filter_families:
  "distinct fams \<Longrightarrow> foldl (prune_family k) rows fams =
     filter (\<lambda>r. mr_family r \<in> set fams \<longrightarrow> mr_id r \<in> set (keep_ids k (mr_family r) rows)) rows"
proof (induction fams rule: rev_induct)
  case (snoc fam fams)
  let ?rows = "foldl (prune_family k) rows fams"
  have rows: "?rows = filter (\<lambda>r. mr_family r \<in> set fams \<longrightarrow> mr_id r \<in> set (keep_ids k (mr_family r) rows)) rows"
    using snoc by simp
  have "fam \<notin> set fams" using snoc.prems by simp
  then have "filter (\<lambda>r. mr_family r = fam) ?rows = filter (\<lambda>r. mr_family r = fam) rows"
    unfolding rows filter_filter by (intro filter_cong) auto
  then have keep: "keep_ids k fam ?rows = keep_ids k fam rows" by (simp add: keep_ids_def)
  have "prune_family k ?rows fam = filter (\<lambda>r. mr_family r = fam \<longrightarrow> mr_id r \<in> set (keep_ids k fam rows)) ?rows"
    by (simp only: prune_family_def keep)
  then show ?case
    by (simp only: foldl_append foldl.simps rows filter_filter) (auto intro: filter_cong)
qed simp

lemma prune_registry_rows:
  "0 < keep \<Longrightarrow> fst (prune_model_registry keep rows) = filter (\<lambda>r. mr_id r \<in> set (keep_ids (nat keep) (mr_family r) rows)) rows"
  by (simp add: prune_model_registry_def Let_def filter_families) (auto intro: filter_cong)

lemma active_kept: "r \<in> set rows \<Longrightarrow> is_active_in family r \<Longrightarrow> mr_id r \<in> set (keep_ids k (mr_family r) rows)"
  by (auto simp: keep_ids_def Let_def is_active_in_def)

lemma prune_registry_active: "filter (is_active_in family) (fst (prune_model_registry keep rows)) = filter (is_active_in family) rows"
proof (cases "0 < keep")
  case True
  show ?thesis unfolding prune_registry_rows [OF True] filter_filter using active_kept by (auto intro!: filter_cong)
next
  case False
  then show ?thesis by (simp add: prune_model_registry_def)
qed

subsection \<open>Facts: training\<close>

definition activated :: "instant \<Rightarrow> model_row \<Rightarrow> model_row" where
  "activated now model = model\<lparr>mr_status := active_status, mr_activated_at := Some now\<rparr>"

lemma candidate_fields [simp]:
  "mr_family (toner_candidate cfg now v i snaps) = toner_family" "mr_status (toner_candidate cfg now v i snaps) = ''candidate''"
  "mr_family (offline_candidate cfg now v i snaps) = offline_family" "mr_status (offline_candidate cfg now v i snaps) = ''candidate''"
  "mr_id (toner_candidate cfg now v i snaps) = i" "mr_id (offline_candidate cfg now v i snaps) = i"
  by (simp_all add: toner_candidate_def offline_candidate_def Let_def)

lemma register_ids [simp]: "map mr_id (fst (register_model now can model rows)) = map mr_id rows @ [mr_id model]"
  by (simp add: register_model_def set_active_model_def Let_def comp_def)

lemma register_active:
  assumes "mr_id model \<notin> mr_id ` set rows" "mr_status model \<noteq> active_status"
  shows "filter (is_active_in family) (fst (register_model now can model rows)) =
    (if can \<and> mr_family model = family then [activated now model] else filter (is_active_in family) rows)"
proof (cases can)
  case False
  with assms(2) show ?thesis by (simp add: register_model_def is_active_in_def)
next
  case True
  let ?f = "\<lambda>r. if mr_id r = mr_id model then activated now r
      else if mr_family r = mr_family model \<and> mr_status r = active_status then r\<lparr>mr_status := ''archived''\<rparr> else r"
  have rows: "fst (register_model now can model rows) = map ?f rows @ [activated now model]"
    using True by (simp add: register_model_def set_active_model_def Let_def activated_def)
  have "filter (is_active_in family) (map ?f rows) = (if mr_family model = family then [] else filter (is_active_in family) rows)"
    using assms(1) by (induction rows) (auto simp: is_active_in_def active_status_def)
  with True show ?thesis unfolding rows by (auto simp: is_active_in_def activated_def)
qed

lemma latest_candidate: "mr_status model \<noteq> active_status \<Longrightarrow> latest_active_model family (rows @ [model]) = latest_active_model family rows"
  by (rule latest_filter) (simp add: is_active_in_def)

lemma register_one_active:
  "mr_id model \<notin> mr_id ` set rows \<Longrightarrow> mr_status model \<noteq> active_status \<Longrightarrow> one_active rows \<Longrightarrow> one_active (fst (register_model now can model rows))"
  by (simp add: one_active_def register_active)

subsection \<open>Properties\<close>

text \<open>Pruning in batches is the one-shot deletion: whatever rows the database picks for each batch and however
  large a batch is, exactly the rows older than the window are gone and their number is reported.\<close>

theorem pruning_is_batch_independent:
  assumes "distinct (map sn_id tab)" "0 < batch" "0 < days"
  shows "fst (prune_feature_snapshots pick now days batch tab) = filter (\<lambda>s. now - days * 86400 \<le> sn_at s) tab
    \<and> fst (snd (prune_feature_snapshots pick now days batch tab)) = length (filter (\<lambda>s. sn_at s < now - days * 86400) tab)"
proof -
  let ?cutoff = "now - days * 86400"
  have "length (filter (\<lambda>s. sn_at s < ?cutoff) tab) + length (filter (\<lambda>s. ?cutoff \<le> sn_at s) tab) = length tab"
    using sum_length_filter_compl [of "\<lambda>s. sn_at s < ?cutoff" tab] by (simp add: not_less)
  with prune_batches_filter [OF assms(1,2)] prune_batches_count [OF assms(1), of pick ?cutoff batch] assms(3)
  show ?thesis by (simp add: prune_feature_snapshots_def case_prod_unfold Let_def)
qed

definition sample_snapshot :: "uid \<Rightarrow> instant \<Rightarrow> snapshot" where
  "sample_snapshot i t = \<lparr>sn_id = i, sn_kind = ''printer'', sn_device = None, sn_name = None, sn_address = None, sn_color = None,
     sn_level = None, sn_model = None, sn_online = None, sn_at = t\<rparr>"

theorem pruning_is_batch_independent_witness:
  "fst (prune_feature_snapshots (\<lambda>tab s. - sn_at s) 1000000 1 2
      [sample_snapshot ''a'' 5, sample_snapshot ''b'' 999999, sample_snapshot ''c'' 7, sample_snapshot ''d'' 9])
    = [sample_snapshot ''b'' 999999]"
  using pruning_is_batch_independent [of "[sample_snapshot ''a'' 5, sample_snapshot ''b'' 999999, sample_snapshot ''c'' 7,
      sample_snapshot ''d'' 9]" 2 1 "\<lambda>tab s. - sn_at s" 1000000]
  by (simp add: sample_snapshot_def)

text \<open>C30: a training run replaces the served toner model only by its rule: where nothing or an old algorithm is
  served, by any candidate with a usable rate; else by one with enough lives whose backtest error is at most five
  percent worse. There is never more than one model served per family, the other family is not touched, and the
  daily pruning never changes what is served.\<close>

theorem served_model_changes_by_the_rule:
  fixes cfg :: ml_settings and now :: instant and version :: string and snaps :: "snapshot list" and min_rows :: int
  assumes "one_active rows" "new_id \<notin> mr_id ` set rows"
  defines "candidate \<equiv> toner_candidate cfg now version new_id snaps"
  defines "rows' \<equiv> fst (train_toner_model cfg now version new_id min_rows snaps rows)"
  shows "latest_active_model toner_family rows' =
      (if (case latest_active_model toner_family rows of
             None \<Rightarrow> 0 < mr_train_rows candidate
           | Some active \<Rightarrow> if \<not> same_toner_algorithm active then 0 < mr_train_rows candidate
               else min_rows \<le> int (mr_train_rows candidate) \<and> not_worse candidate active)
       then Some (candidate\<lparr>mr_status := ''active'', mr_activated_at := Some now\<rparr>)
       else latest_active_model toner_family rows)
    \<and> latest_active_model offline_family rows' = latest_active_model offline_family rows
    \<and> one_active rows' \<and> one_active (fst (prune_model_registry keep rows'))
    \<and> latest_active_model family (fst (prune_model_registry keep rows')) = latest_active_model family rows'"
proof -
  have st: "mr_id candidate \<notin> mr_id ` set rows" "mr_status candidate \<noteq> active_status" "mr_family candidate = toner_family"
    using assms(2) by (simp_all add: candidate_def active_status_def)
  define can where "can = (case latest_active_model toner_family rows of
             None \<Rightarrow> 0 < mr_train_rows candidate
           | Some active \<Rightarrow> if \<not> same_toner_algorithm active then 0 < mr_train_rows candidate
               else min_rows \<le> int (mr_train_rows candidate) \<and> not_worse candidate active)"
  have rows': "rows' = fst (register_model now can candidate rows)"
    unfolding rows'_def train_toner_model_def Let_def candidate_def [symmetric] latest_candidate [OF st(2)] can_def
    by (rule refl)
  note active = register_active [OF st(1,2), where now = now and can = can, folded rows']
  have served: "latest_active_model toner_family rows' =
      (if can then Some (activated now candidate) else latest_active_model toner_family rows)"
    using active [of toner_family] st(3) by (auto intro: latest_single latest_filter)
  have other: "latest_active_model offline_family rows' = latest_active_model offline_family rows"
    using active [of offline_family] st(3) by (intro latest_filter) (simp add: toner_family_def offline_family_def)
  have one: "one_active rows'" using register_one_active [OF st(1,2) assms(1)] by (simp add: rows')
  then have "one_active (fst (prune_model_registry keep rows'))" by (simp add: one_active_def prune_registry_active)
  moreover have "latest_active_model family (fst (prune_model_registry keep rows')) = latest_active_model family rows'"
    by (rule latest_filter) (rule prune_registry_active)
  ultimately show ?thesis using served other one by (simp add: can_def activated_def active_status_def)
qed

theorem served_model_changes_by_the_rule_witness:
  "one_active (fst (train_toner_model default_ml_settings 0 ''toner-1'' ''m1'' 50 [] []))
   \<and> latest_active_model toner_family (fst (train_toner_model default_ml_settings 0 ''toner-1'' ''m1'' 50 [] [])) = None"
proof -
  have "toner_segments default_ml_settings 0 [] = []" by (simp add: toner_segments_def load_daily_readings_def)
  then have "mr_train_rows (toner_candidate default_ml_settings 0 ''toner-1'' ''m1'' []) = 0"
    by (simp add: toner_candidate_def segment_rates_def List.map_filter_def Let_def)
  moreover have "latest_active_model toner_family [] = None" by (simp add: latest_active_model_def)
  ultimately show ?thesis
    using served_model_changes_by_the_rule [where rows = "[]" and new_id = "''m1''" and cfg = default_ml_settings and now = 0
      and version = "''toner-1''" and snaps = "[]" and min_rows = 50]
    by (simp add: one_active_def)
qed

end
