(* ===== verification/Remote_Devices.thy ===== *)
theory Remote_Devices
  imports Regex
begin

section \<open>Remote access: the device row\<close>

text \<open>
  \<open>app/domains/remote_access/models.py\<close> and \<open>service/devices.py\<close>: one row per machine that carries a
  RustDesk client. A row keeps three kinds of facts apart: the desired configuration, what the machine
  itself reported, and what the console and the polling observe. The hostname decides identity, without
  regard to case. Random values (row ids, passwords) come from a source of draws, an argument.
\<close>

record ra_device =
  rd_id :: uid
  rd_hostname :: string
  rd_computer_id :: "uid option"
  rd_media_player_id :: "uid option"
  rd_cash_register_id :: "uid option"
  rd_source_kind :: string
  rd_location :: "ustr option"
  rd_rustdesk_id :: "string option"
  rd_password :: string
  rd_rotated_at :: "instant option"
  rd_profile :: string
  rd_hidden :: bool
  rd_block_outgoing :: bool
  rd_unattended :: bool
  rd_managed :: bool
  rd_in_book :: bool
  rd_ab_row_id :: "int option"
  rd_ab_pushed :: bool
  rd_state :: string
  rd_detail :: "ustr option"
  rd_requested_at :: "instant option"
  rd_reported_at :: "instant option"
  rd_version :: "string option"
  rd_os_edition :: "string option"
  rd_os_caption :: "ustr option"
  rd_applocker :: "bool option"
  rd_online :: "bool option"
  rd_user :: "string option"
  rd_last_ip :: "string option"
  rd_last_seen_at :: "instant option"
  rd_host_online :: "bool option"
  rd_host_seen_at :: "instant option"
  rd_created_at :: instant
  rd_updated_at :: "instant option"

text \<open>The settings the remote access code reads (\<open>app/core/config.py\<close>).\<close>

record remote_settings =
  rs_enabled :: bool
  rs_api_url :: string
  rs_api_token :: string
  rs_admin_username :: string
  rs_admin_password :: string
  rs_default_password :: string
  rs_stale_seconds :: int
  rs_group_name :: string
  rs_book_name :: string
  rs_id_server :: string
  rs_relay_server :: string
  rs_key :: string
  rs_installer_filename :: string
  rs_installer_version :: string
  rs_installer_sha256 :: string
  rs_deploy_token :: string
  rs_public_url :: string
  rs_winrm_username :: string
  rs_winrm_password :: string

text \<open>\<open>uuid4\<close> and \<open>secrets.choice\<close>: the n-th new id of an operation and the draws of its n-th password.\<close>

record random_source =
  new_id :: "nat \<Rightarrow> uid"
  draws :: "nat \<Rightarrow> nat \<Rightarrow> nat"

subsection \<open>Constants\<close>

definition nettop :: string where "nettop = ''nettop''"

definition source_rank :: "string \<Rightarrow> nat" where
  "source_rank k = (case map_of [(''cash_register'', 3), (''computer'', 2), (''media_player'', 1)] k of
     None \<Rightarrow> 0 | Some n \<Rightarrow> n)"

definition pw_alphabet :: string where
  "pw_alphabet = ''abcdefghijklmnopqrstuvwxyzABCDEFGHIJKLMNOPQRSTUVWXYZ0123456789''"

definition deploy_states :: "string list" where
  "deploy_states = [''unknown'', ''pending'', ''installed'', ''configured'', ''failed'', ''stale'']"

definition deployed_states :: "string list" where
  "deployed_states = [''configured'']"

text \<open>24 hours.\<close>

definition deploy_stalled_after :: int where "deploy_stalled_after = 86400"

subsection \<open>Passwords and ids\<close>

definition generate_password :: "(nat \<Rightarrow> nat) \<Rightarrow> nat \<Rightarrow> string" where
  "generate_password draw n = map (\<lambda>j. pw_alphabet ! (draw j mod length pw_alphabet)) [0..<n]"

definition default_password :: "remote_settings \<Rightarrow> (nat \<Rightarrow> nat) \<Rightarrow> string" where
  "default_password cfg draw =
     (let p = strip (rs_default_password cfg) in if p \<noteq> [] then p else generate_password draw 20)"

text \<open>\<open>str.isalnum\<close> on one character.\<close>

definition is_alnum :: "char \<Rightarrow> bool" where
  "is_alnum c \<longleftrightarrow> word_char c \<and> c \<noteq> CHR ''_''"

definition hostname_to_rid :: "string \<Rightarrow> string" where
  "hostname_to_rid h = take 32 (map (\<lambda>c. if is_alnum c then c else CHR ''_'') h)"

subsection \<open>Rollout state and profiles\<close>

definition mark_config_stale :: "ra_device \<Rightarrow> ra_device" where
  "mark_config_stale dev =
     (if rd_state dev \<in> set deployed_states then dev\<lparr>rd_state := ''stale'', rd_detail := None\<rparr> else dev)"

text \<open>\<open>DEPLOY_PROFILES\<close>: hidden, block outgoing, unattended.\<close>

definition deploy_profiles :: "(string \<times> bool \<times> bool \<times> bool) list" where
  "deploy_profiles = [(''client'', True, True, True), (''admin'', False, False, False)]"

definition flags_of :: "ra_device \<Rightarrow> bool \<times> bool \<times> bool" where
  "flags_of dev = (rd_hidden dev, rd_block_outgoing dev, rd_unattended dev)"

text \<open>\<open>None\<close>: the ValueError of an unknown profile.\<close>

definition apply_deploy_profile :: "instant \<Rightarrow> string \<Rightarrow> ra_device \<Rightarrow> ra_device option" where
  "apply_deploy_profile now profile dev =
     (case map_of deploy_profiles profile of
        None \<Rightarrow> None
      | Some (h, b, u) \<Rightarrow>
          let changed = (rd_profile dev \<noteq> profile \<or> flags_of dev \<noteq> (h, b, u));
              dev1 = dev\<lparr>rd_profile := profile, rd_hidden := h, rd_block_outgoing := b, rd_unattended := u\<rparr>;
              dev2 = (if changed then mark_config_stale dev1 else dev1)
          in Some (dev2\<lparr>rd_updated_at := Some now\<rparr>))"

definition applocker_unsupported_prefixes :: "string list" where
  "applocker_unsupported_prefixes = [''Core'']"

definition classify_applocker_support :: "string option \<Rightarrow> bool option" where
  "classify_applocker_support ed =
     (case truthy ed of
        None \<Rightarrow> None
      | Some e \<Rightarrow> let s = strip e in
          if s = [] then None else Some (\<not> list_ex (\<lambda>p. starts_with p s) applocker_unsupported_prefixes))"

definition hostname_type_tag :: "string \<Rightarrow> string option" where
  "hostname_type_tag h =
     (let parts = split_on CHR ''-'' h in
      if length parts < 3 then None
      else let token = upper (strip (parts ! 1)) in if token = [] then None else Some token)"

definition suggested_profile :: "string \<Rightarrow> string" where
  "suggested_profile h = (if hostname_type_tag h = Some ''ITD'' then ''admin'' else ''client'')"

subsection \<open>Rows of the table\<close>

definition host_key :: "ra_device \<Rightarrow> string" where
  "host_key d = lower (rd_hostname d)"

definition find_device :: "string \<Rightarrow> ra_device list \<Rightarrow> ra_device option" where
  "find_device hostname tab = find (\<lambda>d. host_key d = lower (strip hostname)) tab"

text \<open>The column defaults of a new row.\<close>

definition new_device ::
  "uid \<Rightarrow> instant \<Rightarrow> string \<Rightarrow> string \<Rightarrow> string \<Rightarrow> ustr option \<Rightarrow> string \<Rightarrow> ra_device" where
  "new_device i now host rid kind loc pw = \<lparr>rd_id = i, rd_hostname = host, rd_computer_id = None,
     rd_media_player_id = None, rd_cash_register_id = None, rd_source_kind = kind, rd_location = loc,
     rd_rustdesk_id = Some rid, rd_password = pw, rd_rotated_at = None, rd_profile = ''client'',
     rd_hidden = True, rd_block_outgoing = True, rd_unattended = True, rd_managed = True,
     rd_in_book = False, rd_ab_row_id = None, rd_ab_pushed = False, rd_state = ''unknown'', rd_detail = None,
     rd_requested_at = None, rd_reported_at = None, rd_version = None, rd_os_edition = None,
     rd_os_caption = None, rd_applocker = None, rd_online = None, rd_user = None, rd_last_ip = None,
     rd_last_seen_at = None, rd_host_online = None, rd_host_seen_at = None, rd_created_at = now,
     rd_updated_at = None\<rparr>"

definition get_or_create_device ::
  "remote_settings \<Rightarrow> random_source \<Rightarrow> instant \<Rightarrow> string \<Rightarrow> ra_device list \<Rightarrow> ra_device \<times> ra_device list" where
  "get_or_create_device cfg src now hostname tab =
     (let host = strip hostname in
      case find_device host tab of
        Some dev \<Rightarrow> (dev, tab)
      | None \<Rightarrow>
          let dev = new_device (new_id src 0) now host (hostname_to_rid host) ''computer'' None
                      (default_password cfg (draws src 0))
          in (dev, tab @ [dev]))"

definition rotate_password :: "random_source \<Rightarrow> instant \<Rightarrow> ra_device \<Rightarrow> ra_device" where
  "rotate_password src now dev =
     (mark_config_stale (dev\<lparr>rd_password := generate_password (draws src 0) 20, rd_rotated_at := Some now,
        rd_ab_pushed := False\<rparr>))\<lparr>rd_updated_at := Some now\<rparr>"

text \<open>
  \<open>delete_device\<close>: the call to the console (row id and peer id) and the row left behind. The call is made
  only when no other row points at the same RustDesk id; its failure is swallowed, so nothing depends on it.
\<close>

definition book_row_to_delete :: "ra_device list \<Rightarrow> ra_device \<Rightarrow> (int \<times> string) option" where
  "book_row_to_delete tab dev =
     (case (rd_ab_row_id dev, truthy (rd_rustdesk_id dev)) of
        (Some n, Some rid) \<Rightarrow>
          if n \<noteq> 0 \<and> find (\<lambda>d. rd_id d \<noteq> rd_id dev \<and> rd_rustdesk_id d = Some rid) tab = None
          then Some (n, rid) else None
      | _ \<Rightarrow> None)"

definition deleted_device :: "instant \<Rightarrow> ra_device \<Rightarrow> ra_device" where
  "deleted_device now dev = dev\<lparr>rd_managed := False, rd_in_book := False, rd_ab_row_id := None,
     rd_ab_pushed := False, rd_updated_at := Some now\<rparr>"

definition delete_device :: "instant \<Rightarrow> ra_device \<Rightarrow> ra_device list \<Rightarrow> ra_device list \<times> (int \<times> string) option" where
  "delete_device now dev tab = (put_row rd_id (deleted_device now dev) tab, book_row_to_delete tab dev)"

definition resolve_scope ::
  "uid list option \<Rightarrow> ustr option \<Rightarrow> bool \<Rightarrow> string option \<Rightarrow> ra_device list \<Rightarrow> ra_device list" where
  "resolve_scope ids loc all_managed kind tab =
     (case truthy ids of
        Some is \<Rightarrow> filter (\<lambda>d. rd_id d \<in> set is) tab
      | None \<Rightarrow>
          if truthy loc \<noteq> None \<or> truthy kind \<noteq> None \<or> all_managed
          then filter (\<lambda>d. rd_managed d \<and> (case truthy loc of None \<Rightarrow> True | Some l \<Rightarrow> rd_location d = Some l)
                 \<and> (case truthy kind of None \<Rightarrow> True | Some k \<Rightarrow> rd_source_kind d = k)) tab
          else [])"

subsection \<open>One word for: can I connect to this right now?\<close>

definition readiness :: "instant \<Rightarrow> ra_device \<Rightarrow> string" where
  "readiness now dev =
     (if rd_state dev = ''failed'' then ''failed''
      else if rd_state dev = ''stale'' then ''stale''
      else if rd_state dev \<in> set deployed_states then
        (if rd_online dev = Some True then ''ready'' else ''installed_offline'')
      else if rd_state dev = ''pending'' then
        (if rd_host_online dev = Some False then ''waiting_host''
         else case rd_requested_at dev of
                Some t \<Rightarrow> if now - t > deploy_stalled_after then ''stalled'' else ''deploying''
              | None \<Rightarrow> ''deploying'')
      else case rd_online dev of
             Some b \<Rightarrow> if b then ''ready'' else ''installed_offline''
           | None \<Rightarrow> if rd_host_online dev = Some False then ''unreachable'' else ''not_deployed'')"


subsection \<open>strip\<close>

lemma strip_idem [simp]: "strip (strip s) = strip s"
proof -
  have r: "rstrip (rstrip t) = rstrip t" for t by (simp add: rstrip_def)
  have l: "lstrip (rstrip t) = rstrip t" if "lstrip t = t" for t
  proof (cases "rstrip t = []")
    case False
    have "rstrip t = take (length (rstrip t)) t"
      unfolding rstrip_def by (metis dropWhile_eq_drop length_rev rev_drop rev_rev_ident diff_diff_cancel length_drop length_dropWhile_le)
    moreover have "t \<noteq> []" using False by auto
    ultimately have "hd (rstrip t) = hd t" using False by (metis hd_take length_greater_0_conv)
    moreover have "\<not> is_space (hd t)" using that \<open>t \<noteq> []\<close> unfolding lstrip_def by (metis hd_dropWhile)
    ultimately show ?thesis unfolding lstrip_def by (simp add: dropWhile_id)
  qed (simp add: lstrip_def)
  have "lstrip (lstrip s) = lstrip s" by (simp add: lstrip_def)
  then have "lstrip (strip s) = strip s" by (simp add: strip_def l)
  then show ?thesis by (simp add: strip_def r)
qed


subsection \<open>Facts about ids, passwords and the chip\<close>

lemma generate_password_alphabet: "set (generate_password draw n) \<subseteq> set pw_alphabet"
proof -
  have "length pw_alphabet \<noteq> 0" by (simp add: pw_alphabet_def)
  then show ?thesis by (auto simp: generate_password_def simp del: length_0_conv intro!: nth_mem mod_less_divisor)
qed

lemma length_generate_password [simp]: "length (generate_password draw n) = n"
  by (simp add: generate_password_def)

lemma pw_alphabet_alnum: "list_all (\<lambda>c. is_alnum c \<and> c \<noteq> CHR ''_'' \<and> \<not> is_space c) pw_alphabet"
  by (simp add: pw_alphabet_def is_alnum_def word_char_def is_space_def)

lemma default_password_ne [simp]: "default_password cfg draw \<noteq> []"
proof -
  have "generate_password draw 20 \<noteq> []" by (metis length_generate_password list.size(3) zero_neq_numeral)
  then show ?thesis by (simp add: default_password_def Let_def)
qed

lemma hostname_to_rid_chars: "list_all (\<lambda>c. is_alnum c \<or> c = CHR ''_'') (hostname_to_rid h)"
  by (auto simp: hostname_to_rid_def list_all_iff dest!: in_set_takeD)

lemma length_hostname_to_rid: "length (hostname_to_rid h) \<le> 32"
  by (simp add: hostname_to_rid_def)

text \<open>The id is a function of the hostname up to case, as the matching of console peers needs.\<close>

lemma is_alnum_plus_32: "65 \<le> (of_char c :: nat) \<Longrightarrow> (of_char c :: nat) \<le> 90 \<Longrightarrow> is_alnum (char_of ((of_char c :: nat) + 32))"
proof -
  assume a: "65 \<le> (of_char c :: nat)" "(of_char c :: nat) \<le> 90"
  have "(of_char (char_of ((of_char c :: nat) + 32) :: char) :: nat) = of_char c + 32" using a by simp
  moreover from this have "char_of ((of_char c :: nat) + 32) \<noteq> CHR ''_''"
  proof (rule_tac notI)
    assume e: "char_of ((of_char c :: nat) + 32) = CHR ''_''"
    assume "(of_char (char_of ((of_char c :: nat) + 32) :: char) :: nat) = of_char c + 32"
    then have "of_char c + 32 = (95 :: nat)" unfolding e by simp
    with a show False by simp
  qed
  ultimately show ?thesis using a by (simp add: is_alnum_def word_char_def Let_def)
qed

lemma is_alnum_lower_char: "is_alnum (lower_char c) = is_alnum c"
proof (cases "65 \<le> (of_char c :: nat) \<and> (of_char c :: nat) \<le> 90")
  case True
  then have "is_alnum c" by (auto simp: is_alnum_def word_char_def Let_def)
  moreover have "is_alnum (char_of ((of_char c :: nat) + 32))" by (rule is_alnum_plus_32) (use True in simp_all)
  ultimately show ?thesis using True by (simp add: lower_char_def Let_def)
next
  case False
  then have "lower_char c = c" by (auto simp: lower_char_def Let_def)
  then show ?thesis by simp
qed

lemma lower_char_underscore [simp]: "lower_char CHR ''_'' = CHR ''_''"
  by (simp add: lower_char_def)

lemma lower_hostname_to_rid: "lower (hostname_to_rid h) = hostname_to_rid (lower h)"
proof -
  have "lower_char (if is_alnum c then c else CHR ''_'') = (if is_alnum (lower_char c) then lower_char c else CHR ''_'')" for c
    by (simp add: is_alnum_lower_char)
  then show ?thesis by (simp add: hostname_to_rid_def lower_def take_map [symmetric] comp_def)
qed

lemma mark_config_stale_frame [simp]:
  "rd_id (mark_config_stale d) = rd_id d" "rd_hostname (mark_config_stale d) = rd_hostname d"
  "rd_managed (mark_config_stale d) = rd_managed d" "rd_in_book (mark_config_stale d) = rd_in_book d"
  "rd_ab_row_id (mark_config_stale d) = rd_ab_row_id d" "rd_ab_pushed (mark_config_stale d) = rd_ab_pushed d"
  "rd_password (mark_config_stale d) = rd_password d" "rd_rustdesk_id (mark_config_stale d) = rd_rustdesk_id d"
  "flags_of (mark_config_stale d) = flags_of d" "rd_profile (mark_config_stale d) = rd_profile d"
  by (simp_all add: mark_config_stale_def flags_of_def)

lemma mark_config_stale_not_configured [simp]: "rd_state (mark_config_stale d) \<noteq> ''configured''"
  by (simp add: mark_config_stale_def deployed_states_def)

lemma host_key_mark_config_stale [simp]: "host_key (mark_config_stale d) = host_key d"
  by (simp add: host_key_def)

lemma apply_deploy_profile_frame:
  "apply_deploy_profile now p d = Some d' \<Longrightarrow>
     rd_id d' = rd_id d \<and> rd_hostname d' = rd_hostname d \<and> rd_managed d' = rd_managed d \<and> rd_in_book d' = rd_in_book d
     \<and> rd_password d' = rd_password d \<and> rd_rustdesk_id d' = rd_rustdesk_id d"
  by (auto simp: apply_deploy_profile_def Let_def split: option.splits if_splits)

lemma find_device_Some: "find_device h tab = Some d \<Longrightarrow> d \<in> set tab \<and> host_key d = lower (strip h)"
  by (auto simp: find_device_def find_Some_iff)

lemma find_device_None: "find_device h tab = None \<longleftrightarrow> lower (strip h) \<notin> host_key ` set tab"
  unfolding find_device_def find_None_iff by (metis (no_types, lifting) image_iff)

lemma find_device_unique:
  assumes "distinct (map host_key tab)" "d \<in> set tab" "host_key d = lower (strip h)"
  shows "find_device h tab = Some d"
proof -
  have "find_row host_key (host_key d) tab = Some d" by (rule find_row_distinct) (use assms in simp_all)
  then show ?thesis by (simp add: find_row_def find_device_def assms(3))
qed

end
