(* ===== verification/Remote_Inventory.thy ===== *)
theory Remote_Inventory
  imports Remote_Devices Host_Polling Media_Polling
begin

section \<open>Remote access: the inventory mirror\<close>

text \<open>
  \<open>app/domains/remote_access/service/inventory.py\<close>: every cash register, computer and nettop media player
  becomes a device row. The inventory rows are the pollers' rows with the location columns the mirror
  reads. A mirror run (\<open>seed_from_inventory\<close>) creates the missing rows and refreshes links, source and blank
  locations; it never touches the desired configuration of a row that exists.
\<close>

record located_computer = computer +
  co_location :: "ustr option"

record located_register = cash_register +
  cr_store_number :: "ustr option"
  cr_store_code :: "ustr option"

record inventory =
  iv_computers :: "located_computer list"
  iv_registers :: "located_register list"
  iv_players :: "media_player list"

definition cr_location :: "located_register \<Rightarrow> ustr option" where
  "cr_location cr = or_else (cr_store_number cr) (or_else (cr_store_code cr) None)"

definition player_host :: "media_player \<Rightarrow> string" where
  "player_host m = (case mp_hostname m of None \<Rightarrow> [] | Some h \<Rightarrow> h)"

definition nettops :: "inventory \<Rightarrow> media_player list" where
  "nettops iv = filter (\<lambda>m. mp_device_type m = nettop) (iv_players iv)"

subsection \<open>Lookups by hostname\<close>

record lookups =
  lk_computer :: "string \<Rightarrow> located_computer option"
  lk_register :: "string \<Rightarrow> located_register option"
  lk_nettop :: "string \<Rightarrow> media_player option"

text \<open>A dict comprehension \<open>{key(x): x for x in xs if x.hostname}\<close>: the last row of a key wins.\<close>

definition dict_by :: "('a \<Rightarrow> string) \<Rightarrow> 'a list \<Rightarrow> string \<Rightarrow> 'a option" where
  "dict_by host xs k = map_of (rev (map (\<lambda>x. (lower (host x), x)) (filter (\<lambda>x. host x \<noteq> []) xs))) k"

definition inventory_maps :: "inventory \<Rightarrow> lookups" where
  "inventory_maps iv = \<lparr>lk_computer = dict_by co_hostname (iv_computers iv),
     lk_register = dict_by cr_hostname (iv_registers iv), lk_nettop = dict_by player_host (nettops iv)\<rparr>"

text \<open>The queries used for a single row: the first row whose lowered hostname matches.\<close>

definition inventory_queries :: "inventory \<Rightarrow> lookups" where
  "inventory_queries iv = \<lparr>lk_computer = (\<lambda>k. find (\<lambda>c. lower (co_hostname c) = k) (iv_computers iv)),
     lk_register = (\<lambda>k. find (\<lambda>c. lower (cr_hostname c) = k) (iv_registers iv)),
     lk_nettop = (\<lambda>k. find (\<lambda>m. map_option lower (mp_hostname m) = Some k) (nettops iv))\<rparr>"

subsection \<open>Links\<close>

definition link_computer :: "lookups \<Rightarrow> ra_device \<Rightarrow> ra_device" where
  "link_computer lk dev =
     (if rd_computer_id dev \<noteq> None then dev
      else case lk_computer lk (host_key dev) of
             None \<Rightarrow> dev
           | Some c \<Rightarrow> dev\<lparr>rd_computer_id := Some (co_id c), rd_location := or_else (rd_location dev) (co_location c)\<rparr>)"

definition link_register :: "lookups \<Rightarrow> ra_device \<Rightarrow> ra_device" where
  "link_register lk dev =
     (if rd_cash_register_id dev \<noteq> None then dev
      else case lk_register lk (host_key dev) of
             None \<Rightarrow> dev
           | Some c \<Rightarrow> dev\<lparr>rd_cash_register_id := Some (cr_id c), rd_location := or_else (rd_location dev) (cr_location c)\<rparr>)"

definition link_player :: "lookups \<Rightarrow> ra_device \<Rightarrow> ra_device" where
  "link_player lk dev =
     (if rd_media_player_id dev \<noteq> None then dev
      else case lk_nettop lk (host_key dev) of
             None \<Rightarrow> dev
           | Some m \<Rightarrow> dev\<lparr>rd_media_player_id := Some (mp_id m)\<rparr>)"

definition linked_kind :: "ra_device \<Rightarrow> string option" where
  "linked_kind dev =
     (if rd_cash_register_id dev \<noteq> None then Some ''cash_register''
      else if rd_computer_id dev \<noteq> None then Some ''computer''
      else if rd_media_player_id dev \<noteq> None then Some ''media_player''
      else None)"

definition label_source :: "ra_device \<Rightarrow> ra_device" where
  "label_source dev = (case linked_kind dev of None \<Rightarrow> dev | Some k \<Rightarrow> dev\<lparr>rd_source_kind := k\<rparr>)"

definition link_inventory :: "lookups \<Rightarrow> ra_device \<Rightarrow> ra_device" where
  "link_inventory lk dev = label_source (link_player lk (link_register lk (link_computer lk dev)))"

subsection \<open>The mirror run\<close>

type_synonym inventory_row = "string \<times> string \<times> ustr option"

definition inventory_rows :: "inventory \<Rightarrow> inventory_row list" where
  "inventory_rows iv =
     map (\<lambda>c. (strip (cr_hostname c), ''cash_register'', cr_location c))
       (filter (\<lambda>c. strip (cr_hostname c) \<noteq> []) (iv_registers iv))
     @ map (\<lambda>c. (strip (co_hostname c), ''computer'', co_location c))
       (filter (\<lambda>c. strip (co_hostname c) \<noteq> []) (iv_computers iv))
     @ map (\<lambda>m. (strip (player_host m), ''media_player'', None))
       (filter (\<lambda>m. strip (player_host m) \<noteq> []) (nettops iv))"

text \<open>\<open>existing.get(hostname.lower())\<close>: the dict over the rows, new ones included; the last row of a key wins.\<close>

definition existing_device :: "string \<Rightarrow> ra_device list \<Rightarrow> ra_device option" where
  "existing_device h tab = find (\<lambda>d. host_key d = lower h) (rev tab)"

definition refresh_seeded :: "remote_settings \<Rightarrow> (nat \<Rightarrow> nat) \<Rightarrow> string \<Rightarrow> ustr option \<Rightarrow> ra_device \<Rightarrow> ra_device" where
  "refresh_seeded cfg draw kind loc dev =
     (let d1 = (if source_rank kind > source_rank (rd_source_kind dev) then dev\<lparr>rd_source_kind := kind\<rparr> else dev);
          d2 = (if truthy (rd_location d1) = None \<and> truthy loc \<noteq> None then d1\<lparr>rd_location := loc\<rparr> else d1)
      in if rd_password d2 = [] then d2\<lparr>rd_password := default_password cfg draw\<rparr> else d2)"

definition seed_row ::
  "remote_settings \<Rightarrow> random_source \<Rightarrow> instant \<Rightarrow> lookups \<Rightarrow> nat \<times> inventory_row \<Rightarrow> ra_device list \<Rightarrow> ra_device list" where
  "seed_row cfg src now lk = (\<lambda>(n, hostname, kind, loc) tab.
     case existing_device hostname tab of
       None \<Rightarrow> tab @ [link_inventory lk (new_device (new_id src n) now hostname (hostname_to_rid hostname) kind loc
                        (default_password cfg (draws src n)))]
     | Some dev \<Rightarrow> put_row rd_id (link_inventory lk (refresh_seeded cfg (draws src n) kind loc dev)) tab)"

definition seed_rows ::
  "remote_settings \<Rightarrow> random_source \<Rightarrow> instant \<Rightarrow> lookups \<Rightarrow> (nat \<times> inventory_row) list \<Rightarrow> ra_device list \<Rightarrow> ra_device list" where
  "seed_rows cfg src now lk rows tab = foldl (\<lambda>t r. seed_row cfg src now lk r t) tab rows"

text \<open>The table and the number of created rows.\<close>

definition seed_from_inventory ::
  "remote_settings \<Rightarrow> random_source \<Rightarrow> instant \<Rightarrow> inventory \<Rightarrow> ra_device list \<Rightarrow> ra_device list \<times> nat" where
  "seed_from_inventory cfg src now iv tab =
     (let tab' = seed_rows cfg src now (inventory_maps iv) (List.enumerate 0 (inventory_rows iv)) tab
      in (tab', length tab' - length tab))"

subsection \<open>Host status, manual entry and release\<close>

definition inventory_status :: "inventory \<Rightarrow> ra_device \<Rightarrow> bool option \<times> instant option" where
  "inventory_status iv dev =
     (case Option.bind (rd_computer_id dev) (\<lambda>i. find_row co_id i (iv_computers iv)) of
        Some c \<Rightarrow> (co_is_online c, co_last_polled_at c)
      | None \<Rightarrow> (case Option.bind (rd_cash_register_id dev) (\<lambda>i. find_row cr_id i (iv_registers iv)) of
          Some c \<Rightarrow> (cr_is_online c, cr_last_polled_at c)
        | None \<Rightarrow> (case Option.bind (rd_media_player_id dev) (\<lambda>i. find_row mp_id i (iv_players iv)) of
            Some m \<Rightarrow> (mp_is_online m, mp_last_polled_at m)
          | None \<Rightarrow> (None, None))))"

definition host_status_changed :: "inventory \<Rightarrow> ra_device \<Rightarrow> bool" where
  "host_status_changed iv dev =
     (let (on, polled) = inventory_status iv dev
      in on \<noteq> None \<and> (rd_host_online dev \<noteq> on \<or> rd_host_seen_at dev \<noteq> polled))"

definition refresh_host_status :: "instant \<Rightarrow> inventory \<Rightarrow> ra_device \<Rightarrow> ra_device" where
  "refresh_host_status now iv dev =
     (if host_status_changed iv dev
      then dev\<lparr>rd_host_online := fst (inventory_status iv dev), rd_host_seen_at := snd (inventory_status iv dev),
             rd_updated_at := Some now\<rparr>
      else dev)"

definition refresh_status_from_inventory :: "instant \<Rightarrow> inventory \<Rightarrow> ra_device list \<Rightarrow> ra_device list \<times> nat" where
  "refresh_status_from_inventory now iv tab =
     (map (refresh_host_status now iv) tab, length (filter (host_status_changed iv) tab))"

text \<open>\<open>ensure_device\<close>: the row as stored at the end.\<close>

definition stamp_device ::
  "remote_settings \<Rightarrow> (nat \<Rightarrow> nat) \<Rightarrow> instant \<Rightarrow> string \<Rightarrow> string option \<Rightarrow> string option \<Rightarrow> ra_device \<Rightarrow> ra_device" where
  "stamp_device cfg draw now hostname rid pw dev =
     (let d1 = (case truthy rid of
                  Some r \<Rightarrow> dev\<lparr>rd_rustdesk_id := Some r\<rparr>
                | None \<Rightarrow> if truthy (rd_rustdesk_id dev) = None
                          then dev\<lparr>rd_rustdesk_id := Some (hostname_to_rid hostname)\<rparr> else dev);
          d2 = (case truthy pw of
                  Some p \<Rightarrow> d1\<lparr>rd_password := p, rd_rotated_at := Some now, rd_ab_pushed := False\<rparr>
                | None \<Rightarrow> if rd_password d1 = []
                          then d1\<lparr>rd_password := default_password cfg draw, rd_rotated_at := Some now\<rparr> else d1);
          d3 = (if rd_rustdesk_id d2 \<noteq> rd_rustdesk_id dev \<or> rd_password d2 \<noteq> rd_password dev
                then mark_config_stale d2 else d2)
      in d3\<lparr>rd_managed := True, rd_updated_at := Some now\<rparr>)"

definition ensure_device ::
  "remote_settings \<Rightarrow> random_source \<Rightarrow> instant \<Rightarrow> inventory \<Rightarrow> string \<Rightarrow> string option \<Rightarrow> string option \<Rightarrow> ra_device list
   \<Rightarrow> ra_device \<times> ra_device list" where
  "ensure_device cfg src now iv hostname rid pw tab =
     (let (dev, tab1) = get_or_create_device cfg src now hostname tab;
          dev' = stamp_device cfg (draws src 1) now hostname rid pw (link_inventory (inventory_queries iv) dev)
      in (dev', put_row rd_id dev' tab1))"

definition unlink :: "uid option \<Rightarrow> uid option \<Rightarrow> uid option \<Rightarrow> ra_device \<Rightarrow> ra_device" where
  "unlink ci ri mi dev =
     (let d1 = (if ci \<noteq> None \<and> rd_computer_id dev = ci then dev\<lparr>rd_computer_id := None\<rparr> else dev);
          d2 = (if ri \<noteq> None \<and> rd_cash_register_id d1 = ri then d1\<lparr>rd_cash_register_id := None\<rparr> else d1)
      in if mi \<noteq> None \<and> rd_media_player_id d2 = mi then d2\<lparr>rd_media_player_id := None\<rparr> else d2)"

definition points_at :: "uid option \<Rightarrow> uid option \<Rightarrow> uid option \<Rightarrow> ra_device \<Rightarrow> bool" where
  "points_at ci ri mi dev \<longleftrightarrow>
     (ci \<noteq> None \<and> rd_computer_id dev = ci) \<or> (ri \<noteq> None \<and> rd_cash_register_id dev = ri)
     \<or> (mi \<noteq> None \<and> rd_media_player_id dev = mi)"

definition release_one ::
  "instant \<Rightarrow> uid option \<Rightarrow> uid option \<Rightarrow> uid option \<Rightarrow> ra_device \<Rightarrow> ra_device list \<Rightarrow> ra_device list \<times> (int \<times> string) list" where
  "release_one now ci ri mi dev tab =
     (let (tab1, call) = delete_device now dev tab
      in (put_row rd_id (unlink ci ri mi (deleted_device now dev)) tab1,
          case call of None \<Rightarrow> [] | Some c \<Rightarrow> [c]))"

text \<open>The table, the console calls made and the number of entries released.\<close>

definition release_inventory_row ::
  "instant \<Rightarrow> uid option \<Rightarrow> uid option \<Rightarrow> uid option \<Rightarrow> ra_device list \<Rightarrow> ra_device list \<times> (int \<times> string) list \<times> nat" where
  "release_inventory_row now ci ri mi tab =
     (let devs = filter (points_at ci ri mi) tab;
          (tab', calls) = fold_eff (release_one now ci ri mi) devs tab
      in (tab', calls, length devs))"


subsection \<open>What a mirror run keeps\<close>

text \<open>The row without its links, source, location and password; a mirror run keeps it, and a password that is set.\<close>

definition own_part :: "ra_device \<Rightarrow> ra_device" where
  "own_part d = d\<lparr>rd_computer_id := None, rd_media_player_id := None, rd_cash_register_id := None,
     rd_source_kind := [], rd_location := None, rd_password := []\<rparr>"

definition mirrors :: "ra_device \<Rightarrow> ra_device \<Rightarrow> bool" where
  "mirrors d d' \<longleftrightarrow> own_part d' = own_part d \<and> (if rd_password d = [] then True else rd_password d' = rd_password d)"

lemma own_part_sel:
  "rd_id (own_part d) = rd_id d" "rd_hostname (own_part d) = rd_hostname d" "rd_managed (own_part d) = rd_managed d"
  "rd_in_book (own_part d) = rd_in_book d" "rd_state (own_part d) = rd_state d" "flags_of (own_part d) = flags_of d"
  "rd_rustdesk_id (own_part d) = rd_rustdesk_id d" "rd_profile (own_part d) = rd_profile d"
  "rd_ab_pushed (own_part d) = rd_ab_pushed d" "rd_ab_row_id (own_part d) = rd_ab_row_id d"
  "host_key (own_part d) = host_key d" "rd_updated_at (own_part d) = rd_updated_at d"
  "rd_reported_at (own_part d) = rd_reported_at d" "rd_requested_at (own_part d) = rd_requested_at d"
  "rd_last_ip (own_part d) = rd_last_ip d" "rd_online (own_part d) = rd_online d"
  by (simp_all add: own_part_def flags_of_def host_key_def)

lemma mirrors_refl [simp, intro]: "mirrors d d"
  by (simp add: mirrors_def)

lemma mirrors_trans: "mirrors a b \<Longrightarrow> mirrors b c \<Longrightarrow> mirrors a c"
  by (simp add: mirrors_def split: if_splits)

lemma mirrorsD:
  assumes "mirrors d d'"
  shows "rd_id d' = rd_id d" "rd_hostname d' = rd_hostname d" "rd_managed d' = rd_managed d"
    "rd_in_book d' = rd_in_book d" "rd_state d' = rd_state d" "flags_of d' = flags_of d"
    "rd_rustdesk_id d' = rd_rustdesk_id d" "rd_profile d' = rd_profile d"
    "rd_ab_pushed d' = rd_ab_pushed d" "rd_ab_row_id d' = rd_ab_row_id d" "host_key d' = host_key d"
    "rd_reported_at d' = rd_reported_at d" "rd_requested_at d' = rd_requested_at d" "rd_last_ip d' = rd_last_ip d"
    "rd_online d' = rd_online d" "rd_password d \<noteq> [] \<Longrightarrow> rd_password d' = rd_password d"
  using assms unfolding mirrors_def by (metis own_part_sel)+

lemma mirrors_label_source: "mirrors d (label_source d)"
  by (simp add: label_source_def mirrors_def own_part_def split: option.splits)

lemma mirrors_links: "mirrors d (link_computer lk d)" "mirrors d (link_register lk d)" "mirrors d (link_player lk d)"
  by (simp_all add: link_computer_def link_register_def link_player_def mirrors_def own_part_def split: option.splits)

lemma mirrors_link_inventory: "mirrors d (link_inventory lk d)"
  unfolding link_inventory_def
  by (rule mirrors_trans [OF _ mirrors_label_source], rule mirrors_trans [OF _ mirrors_links(3)],
      rule mirrors_trans [OF _ mirrors_links(2)], rule mirrors_links(1))

lemma mirrors_refresh_seeded: "mirrors d (refresh_seeded cfg draw kind loc d)"
  by (simp add: refresh_seeded_def mirrors_def own_part_def Let_def)

definition seed_update :: "remote_settings \<Rightarrow> (nat \<Rightarrow> nat) \<Rightarrow> lookups \<Rightarrow> string \<Rightarrow> ustr option \<Rightarrow> ra_device \<Rightarrow> ra_device" where
  "seed_update cfg draw lk kind loc d = link_inventory lk (refresh_seeded cfg draw kind loc d)"

lemma mirrors_seed_update: "mirrors d (seed_update cfg draw lk kind loc d)"
  unfolding seed_update_def by (rule mirrors_trans [OF mirrors_refresh_seeded mirrors_link_inventory])


subsection \<open>Rows a mirror run has nothing left to do for\<close>

definition links_settled :: "lookups \<Rightarrow> ra_device \<Rightarrow> bool" where
  "links_settled lk d \<longleftrightarrow> (rd_computer_id d = None \<longrightarrow> lk_computer lk (host_key d) = None)
     \<and> (rd_cash_register_id d = None \<longrightarrow> lk_register lk (host_key d) = None)
     \<and> (rd_media_player_id d = None \<longrightarrow> lk_nettop lk (host_key d) = None)"

definition settled :: "lookups \<Rightarrow> string \<Rightarrow> ustr option \<Rightarrow> ra_device \<Rightarrow> bool" where
  "settled lk kind loc d \<longleftrightarrow> links_settled lk d \<and> rd_password d \<noteq> []
     \<and> (truthy (rd_location d) = None \<longrightarrow> truthy loc = None)
     \<and> (case linked_kind d of Some k \<Rightarrow> rd_source_kind d = k | None \<Rightarrow> source_rank kind \<le> source_rank (rd_source_kind d))"

lemma link_inventory_settled:
  assumes "links_settled lk d"
  shows "link_inventory lk d = label_source d"
proof -
  have "link_computer lk d = d" "link_register lk d = d" "link_player lk d = d"
    using assms unfolding links_settled_def link_computer_def link_register_def link_player_def by simp_all
  then show ?thesis by (simp only: link_inventory_def)
qed

lemma links_fields:
  "host_key (link_computer lk d) = host_key d" "host_key (link_register lk d) = host_key d" "host_key (link_player lk d) = host_key d"
  "rd_cash_register_id (link_computer lk d) = rd_cash_register_id d" "rd_media_player_id (link_computer lk d) = rd_media_player_id d"
  "rd_computer_id (link_register lk d) = rd_computer_id d" "rd_media_player_id (link_register lk d) = rd_media_player_id d"
  "rd_computer_id (link_player lk d) = rd_computer_id d" "rd_cash_register_id (link_player lk d) = rd_cash_register_id d"
  by (simp_all add: link_computer_def link_register_def link_player_def host_key_def split: option.splits)

lemma links_done:
  "rd_computer_id (link_computer lk d) = None \<Longrightarrow> lk_computer lk (host_key d) = None"
  "rd_cash_register_id (link_register lk d) = None \<Longrightarrow> lk_register lk (host_key d) = None"
  "rd_media_player_id (link_player lk d) = None \<Longrightarrow> lk_nettop lk (host_key d) = None"
  by (simp_all add: link_computer_def link_register_def link_player_def split: option.splits if_splits)

lemma label_source_fields [simp]:
  "host_key (label_source d) = host_key d" "rd_computer_id (label_source d) = rd_computer_id d"
  "rd_cash_register_id (label_source d) = rd_cash_register_id d" "rd_media_player_id (label_source d) = rd_media_player_id d"
  "rd_password (label_source d) = rd_password d" "rd_location (label_source d) = rd_location d"
  by (simp_all add: label_source_def host_key_def split: option.splits)

lemma links_settled_link_inventory: "links_settled lk (link_inventory lk d)"
  using links_done(1) [of lk d] links_done(2) [of lk "link_computer lk d"] links_done(3) [of lk "link_register lk (link_computer lk d)"]
  by (simp add: links_settled_def link_inventory_def links_fields)

lemma linked_kind_label_source [simp]: "linked_kind (label_source d) = linked_kind d"
  by (simp add: label_source_def linked_kind_def split: option.splits)

lemma rd_source_kind_label_source:
  "rd_source_kind (label_source d) = (case linked_kind d of None \<Rightarrow> rd_source_kind d | Some k \<Rightarrow> k)"
  by (simp add: label_source_def split: option.splits)

lemma label_source_idle: "(case linked_kind d of Some k \<Rightarrow> rd_source_kind d = k | None \<Rightarrow> True) \<Longrightarrow> label_source d = d"
  by (auto simp: label_source_def split: option.splits)

lemma links_sel:
  "rd_source_kind (link_computer lk d) = rd_source_kind d" "rd_password (link_computer lk d) = rd_password d"
  "rd_source_kind (link_register lk d) = rd_source_kind d" "rd_password (link_register lk d) = rd_password d"
  "rd_source_kind (link_player lk d) = rd_source_kind d" "rd_password (link_player lk d) = rd_password d"
  "truthy (rd_location (link_computer lk d)) = None \<Longrightarrow> truthy (rd_location d) = None"
  "truthy (rd_location (link_register lk d)) = None \<Longrightarrow> truthy (rd_location d) = None"
  "rd_location (link_player lk d) = rd_location d"
  by (simp_all add: link_computer_def link_register_def link_player_def truthy_or_else split: option.splits if_splits)

lemma link_inventory_parts:
  obtains d' where "link_inventory lk d = label_source d'" "rd_source_kind d' = rd_source_kind d"
    "rd_password d' = rd_password d" "truthy (rd_location d') = None \<Longrightarrow> truthy (rd_location d) = None"
proof
  show "link_inventory lk d = label_source (link_player lk (link_register lk (link_computer lk d)))"
    by (simp add: link_inventory_def)
next
  show "rd_source_kind (link_player lk (link_register lk (link_computer lk d))) = rd_source_kind d"
    "rd_password (link_player lk (link_register lk (link_computer lk d))) = rd_password d"
    by (simp_all only: links_sel)
next
  assume "truthy (rd_location (link_player lk (link_register lk (link_computer lk d)))) = None"
  then show "truthy (rd_location d) = None" unfolding links_sel(9) by (rule links_sel(7) [OF links_sel(8)])
qed

lemma refresh_seeded_settled:
  assumes "settled lk kind loc d"
  shows "label_source (refresh_seeded cfg draw kind loc d) = d"
proof -
  let ?d = "if source_rank kind > source_rank (rd_source_kind d) then d\<lparr>rd_source_kind := kind\<rparr> else d"
  have "refresh_seeded cfg draw kind loc d = ?d"
    using assms by (auto simp: settled_def refresh_seeded_def Let_def)
  moreover have "label_source ?d = d"
    using assms by (auto simp: settled_def label_source_def linked_kind_def split: if_splits)
  ultimately show ?thesis by simp
qed

lemma seed_update_settled:
  assumes "settled lk kind loc d"
  shows "seed_update cfg draw lk kind loc d = d"
proof -
  have "links_settled lk (refresh_seeded cfg draw kind loc d)"
    using assms by (auto simp: settled_def links_settled_def refresh_seeded_def host_key_def Let_def)
  then show ?thesis
    using refresh_seeded_settled [OF assms] by (simp add: seed_update_def link_inventory_settled)
qed

lemma seed_update_makes_settled: "settled lk kind loc (seed_update cfg draw lk kind loc d)"
proof -
  let ?r = "refresh_seeded cfg draw kind loc d"
  obtain d' where d': "link_inventory lk ?r = label_source d'" "rd_source_kind d' = rd_source_kind ?r"
    "rd_password d' = rd_password ?r" "truthy (rd_location d') = None \<Longrightarrow> truthy (rd_location ?r) = None"
    using link_inventory_parts by blast
  have r: "rd_password ?r \<noteq> []" "truthy (rd_location ?r) = None \<longrightarrow> truthy loc = None"
    "source_rank kind \<le> source_rank (rd_source_kind ?r)"
    by (auto simp: refresh_seeded_def Let_def)
  have "links_settled lk (label_source d')" using links_settled_link_inventory [of lk ?r] d'(1) by simp
  then show ?thesis
    unfolding seed_update_def d'(1) settled_def using r d'(2-4)
    by (auto simp: rd_source_kind_label_source split: option.splits)
qed

lemma settled_seed_update:
  assumes "settled lk kind loc d"
  shows "settled lk kind loc (seed_update cfg draw lk kind' loc' d)"
proof -
  let ?r = "refresh_seeded cfg draw kind' loc' d"
  have ls: "links_settled lk ?r"
    using assms by (auto simp: settled_def links_settled_def refresh_seeded_def host_key_def Let_def)
  have r: "rd_password ?r \<noteq> []" "truthy (rd_location ?r) = None \<longrightarrow> truthy loc = None" "linked_kind ?r = linked_kind d"
    "source_rank (rd_source_kind d) \<le> source_rank (rd_source_kind ?r)"
    using assms by (auto simp: settled_def refresh_seeded_def linked_kind_def Let_def)
  have "links_settled lk (label_source ?r)" using links_settled_link_inventory [of lk ?r] ls by (simp add: link_inventory_settled)
  then show ?thesis
    using assms r unfolding seed_update_def link_inventory_settled [OF ls]
    by (auto simp: settled_def rd_source_kind_label_source split: option.splits)
qed

lemma new_device_settled:
  "settled lk kind loc (link_inventory lk (new_device i now h rid kind loc (default_password cfg draw)))"
proof -
  let ?r = "new_device i now h rid kind loc (default_password cfg draw)"
  have "refresh_seeded cfg draw kind loc ?r = ?r" by (simp add: refresh_seeded_def Let_def) (simp add: new_device_def)
  then show ?thesis using seed_update_makes_settled [of lk kind loc cfg draw ?r] by (simp add: seed_update_def)
qed


subsection \<open>A whole mirror run\<close>

definition devices_ok :: "ra_device list \<Rightarrow> bool" where
  "devices_ok tab \<longleftrightarrow> distinct (map rd_id tab) \<and> distinct (map host_key tab)"

text \<open>\<open>uuid4\<close>: the new ids differ from each other and from the ids in the table.\<close>

definition fresh_source :: "random_source \<Rightarrow> ra_device list \<Rightarrow> bool" where
  "fresh_source src tab \<longleftrightarrow> inj (new_id src) \<and> range (new_id src) \<inter> rd_id ` set tab = {}"

lemma devices_okD: "devices_ok tab \<Longrightarrow> distinct (map rd_id tab)" "devices_ok tab \<Longrightarrow> distinct (map host_key tab)"
  by (simp_all add: devices_ok_def)

lemma existing_device_Some: "existing_device h tab = Some d \<Longrightarrow> d \<in> set tab \<and> host_key d = lower h"
  by (auto simp: existing_device_def find_Some_iff) (metis nth_mem length_rev set_rev)

lemma existing_device_None: "existing_device h tab = None \<longleftrightarrow> lower h \<notin> host_key ` set tab"
  unfolding existing_device_def find_None_iff set_rev by (metis (no_types, lifting) image_iff)

lemma put_row_same: "distinct (map rid tab) \<Longrightarrow> row \<in> set tab \<Longrightarrow> put_row rid row tab = tab"
  unfolding put_row_def by (rule map_idI) (auto dest: distinct_map_eq)

lemma devices_ok_put_row:
  assumes "devices_ok tab" "d \<in> set tab" "rd_id d' = rd_id d" "host_key d' = host_key d"
  shows "devices_ok (put_row rd_id d' tab)"
  using assms map_key_put_row [of rd_id tab d d' host_key] by (simp add: devices_ok_def)

lemma devices_ok_append:
  assumes "devices_ok tab" "rd_id d \<notin> rd_id ` set tab" "host_key d \<notin> host_key ` set tab"
  shows "devices_ok (tab @ [d])"
  using assms by (simp add: devices_ok_def)

lemma new_device_keys [simp]:
  "rd_id (new_device i now h rid kind loc pw) = i" "host_key (new_device i now h rid kind loc pw) = lower h"
  by (simp_all add: new_device_def host_key_def)

lemmas link_keys [simp] = mirrorsD(1) [OF mirrors_link_inventory] mirrorsD(11) [OF mirrors_link_inventory]
lemmas update_keys [simp] = mirrorsD(1) [OF mirrors_seed_update] mirrorsD(11) [OF mirrors_seed_update]

lemma seed_row_cases:
  obtains (New) "existing_device h tab = None"
      "seed_row cfg src now lk (n, h, kind, loc) tab = tab @ [link_inventory lk (new_device (new_id src n) now h
         (hostname_to_rid h) kind loc (default_password cfg (draws src n)))]"
  | (Old) d where "existing_device h tab = Some d"
      "seed_row cfg src now lk (n, h, kind, loc) tab = put_row rd_id (seed_update cfg (draws src n) lk kind loc d) tab"
  by (cases "existing_device h tab") (auto simp: seed_row_def seed_update_def)

lemma seed_row_ok:
  assumes "devices_ok tab" "new_id src n \<notin> rd_id ` set tab"
  shows "devices_ok (seed_row cfg src now lk (n, h, kind, loc) tab)"
proof (cases rule: seed_row_cases [of h tab cfg src now lk n kind loc])
  case New
  then show ?thesis using assms by (simp add: devices_ok_append existing_device_None)
next
  case (Old d)
  then show ?thesis using assms existing_device_Some [OF Old(1)] by (simp add: devices_ok_put_row [of tab d])
qed

lemma ids_seed_row: "rd_id ` set (seed_row cfg src now lk (n, h, kind, loc) tab) \<subseteq> rd_id ` set tab \<union> {new_id src n}"
proof (cases rule: seed_row_cases [of h tab cfg src now lk n kind loc])
  case (Old d)
  then have "map rd_id (seed_row cfg src now lk (n, h, kind, loc) tab) = map rd_id tab" by simp
  then show ?thesis by (metis list.set_map sup_ge1)
qed auto

lemma seed_row_settles:
  assumes "devices_ok tab"
  shows "\<exists>d \<in> set (seed_row cfg src now lk (n, h, kind, loc) tab). host_key d = lower h \<and> settled lk kind loc d"
proof (cases rule: seed_row_cases [of h tab cfg src now lk n kind loc])
  case New
  then show ?thesis using new_device_settled by auto
next
  case (Old d)
  note d = existing_device_Some [OF Old(1)]
  have "seed_update cfg (draws src n) lk kind loc d \<in> set (seed_row cfg src now lk (n, h, kind, loc) tab)"
    using Old(2) d by (simp add: mem_put_row_iff [of d])
  then show ?thesis using d seed_update_makes_settled by (metis update_keys(2))
qed

lemma seed_row_keeps_settled:
  assumes "devices_ok tab" "d \<in> set tab" "host_key d = k" "settled lk kind loc d"
  shows "\<exists>d \<in> set (seed_row cfg src now lk r tab). host_key d = k \<and> settled lk kind loc d"
proof -
  obtain n h kind' loc' where r: "r = (n, h, kind', loc')" by (cases r) auto
  show ?thesis
  proof (cases rule: seed_row_cases [of h tab cfg src now lk n kind' loc'])
    case New
    then show ?thesis using assms r by auto
  next
    case (Old d0)
    note d0 = existing_device_Some [OF Old(1)]
    show ?thesis
    proof (cases "rd_id d = rd_id d0")
      case True
      then have "d = d0" using assms d0 by (metis distinct_map_eq devices_okD(1))
      then have "seed_update cfg (draws src n) lk kind' loc' d \<in> set (seed_row cfg src now lk r tab)"
        using Old(2) d0 r by (simp add: mem_put_row_iff [of d0])
      then show ?thesis using assms(3,4) settled_seed_update by (metis update_keys(2))
    next
      case False
      then have "d \<in> set (seed_row cfg src now lk r tab)" using Old(2) d0 r assms(2) by (simp add: mem_put_row_iff [of d0])
      then show ?thesis using assms by blast
    qed
  qed
qed

lemma seed_row_settled_idle:
  assumes "devices_ok tab" "d \<in> set tab" "host_key d = lower h" "settled lk kind loc d"
  shows "seed_row cfg src now lk (n, h, kind, loc) tab = tab"
proof (cases rule: seed_row_cases [of h tab cfg src now lk n kind loc])
  case New
  then show ?thesis using assms by (metis existing_device_None imageI)
next
  case (Old d0)
  then have "d0 = d"
    using existing_device_Some [OF Old(1)] assms distinct_map_eq [OF devices_okD(2) [OF assms(1)]] by metis
  with Old assms show ?thesis by (simp add: seed_update_settled put_row_same devices_okD)
qed

lemma seed_row_mirrors:
  assumes "devices_ok tab" "list_all2 mirrors tab0 (take (length tab0) tab)"
  shows "list_all2 mirrors tab0 (take (length tab0) (seed_row cfg src now lk r tab))"
proof -
  obtain n h kind loc where r: "r = (n, h, kind, loc)" by (cases r) auto
  have len: "length tab0 \<le> length tab" using list_all2_lengthD [OF assms(2)] by simp
  show ?thesis
  proof (cases rule: seed_row_cases [of h tab cfg src now lk n kind loc])
    case New
    then show ?thesis using assms(2) len r by simp
  next
    case (Old d)
    note d = existing_device_Some [OF Old(1)]
    have "mirrors x (if rd_id x = rd_id d then seed_update cfg (draws src n) lk kind loc d else x)" if "x \<in> set tab" for x
      using that d assms(1) mirrors_seed_update by (auto dest: distinct_map_eq [OF devices_okD(1)])
    then have "list_all2 mirrors (take (length tab0) tab) (take (length tab0) (put_row rd_id (seed_update cfg (draws src n) lk kind loc d) tab))"
      unfolding put_row_def take_map update_keys by (auto simp: list_all2_map2 list.rel_refl_strong dest: in_set_takeD intro!: list.rel_refl_strong)
    with assms(2) have "list_all2 mirrors tab0 (take (length tab0) (put_row rd_id (seed_update cfg (draws src n) lk kind loc d) tab))"
      by (rule list_all2_trans [rotated]) (rule mirrors_trans)
    then show ?thesis using Old(2) r by simp
  qed
qed


definition settled_row :: "lookups \<Rightarrow> ra_device list \<Rightarrow> inventory_row \<Rightarrow> bool" where
  "settled_row lk tab = (\<lambda>(h, kind, loc). \<exists>d \<in> set tab. host_key d = lower h \<and> settled lk kind loc d)"

lemma disjoint_grow: "B' \<subseteq> B \<union> {z} \<Longrightarrow> z \<notin> A \<Longrightarrow> A \<inter> B = {} \<Longrightarrow> A \<inter> B' = {}"
  by blast

lemma list_all_enumerate: "list_all (\<lambda>r. P (snd r)) (List.enumerate n xs) = list_all P xs"
  by (induction xs arbitrary: n) simp_all

lemma seed_rows_Cons [simp]: "seed_rows cfg src now lk (r # rs) tab = seed_rows cfg src now lk rs (seed_row cfg src now lk r tab)"
  and seed_rows_Nil [simp]: "seed_rows cfg src now lk [] tab = tab"
  by (simp_all add: seed_rows_def)

text \<open>One induction for the whole run: the table stays well-formed, grows at the end, keeps the rows it had and
  settles every row of the inventory.\<close>

lemma seed_rows_run:
  assumes "devices_ok tab" "inj (new_id src)" "distinct (map fst rows)" "new_id src ` fst ` set rows \<inter> rd_id ` set tab = {}"
    and "list_all2 mirrors tab0 (take (length tab0) tab)"
  shows "devices_ok (seed_rows cfg src now lk rows tab)
    \<and> list_all2 mirrors tab0 (take (length tab0) (seed_rows cfg src now lk rows tab))
    \<and> list_all (\<lambda>r. settled_row lk (seed_rows cfg src now lk rows tab) (snd r)) rows
    \<and> (\<forall>r. settled_row lk tab r \<longrightarrow> settled_row lk (seed_rows cfg src now lk rows tab) r)"
  using assms
proof (induction rows arbitrary: tab)
  case (Cons r rows)
  obtain n h kind loc where r: "r = (n, h, kind, loc)" by (cases r) auto
  let ?t = "seed_row cfg src now lk r tab"
  have ok: "devices_ok ?t" using Cons.prems r by (auto intro: seed_row_ok)
  have ids: "rd_id ` set ?t \<subseteq> rd_id ` set tab \<union> {new_id src n}" unfolding r by (rule ids_seed_row)
  have "new_id src n \<notin> new_id src ` fst ` set rows"
    using Cons.prems(2,3) r by (auto dest: injD)
  moreover have "new_id src ` fst ` set rows \<inter> rd_id ` set tab = {}" using Cons.prems(4) by auto
  ultimately have disj: "new_id src ` fst ` set rows \<inter> rd_id ` set ?t = {}" by (rule disjoint_grow [OF ids])
  have mir: "list_all2 mirrors tab0 (take (length tab0) ?t)" by (rule seed_row_mirrors [OF Cons.prems(1,5)])
  note IH = Cons.IH [OF ok Cons.prems(2) _ disj mir]
  have keep: "settled_row lk ?t q" if sq: "settled_row lk tab q" for q
  proof -
    obtain h' kind' loc' where q: "q = (h', kind', loc')" by (cases q) auto
    then obtain d where "d \<in> set tab" "host_key d = lower h'" "settled lk kind' loc' d"
      using sq by (auto simp: settled_row_def)
    then show ?thesis unfolding settled_row_def q prod.case by (rule seed_row_keeps_settled [OF Cons.prems(1)])
  qed
  have now: "settled_row lk ?t (snd r)"
    unfolding settled_row_def r using seed_row_settles [OF Cons.prems(1)] by simp
  show ?case using IH Cons.prems(3) now keep by (simp del: split_paired_All)
qed simp

lemma seed_rows_idle:
  assumes "devices_ok tab" "\<And>r. r \<in> set rows \<Longrightarrow> settled_row lk tab (snd r)"
  shows "seed_rows cfg src now lk rows tab = tab"
  using assms(2)
proof (induction rows)
  case (Cons r rows)
  obtain n h kind loc where r: "r = (n, h, kind, loc)" by (cases r) auto
  have "settled_row lk tab (snd r)" using Cons.prems by simp
  then have "seed_row cfg src now lk r tab = tab"
    unfolding settled_row_def r using seed_row_settled_idle [OF assms(1)] by auto
  with Cons show ?case by simp
qed simp

lemma seed_from_inventory_run:
  assumes "devices_ok tab" "fresh_source src tab" "tab' = fst (seed_from_inventory cfg src now iv tab)"
  shows "devices_ok tab'" "list_all2 mirrors tab (take (length tab) tab')"
    "list_all (settled_row (inventory_maps iv) tab') (inventory_rows iv)"
proof -
  let ?rows = "List.enumerate 0 (inventory_rows iv)"
  have "new_id src ` fst ` set ?rows \<inter> rd_id ` set tab = {}" using assms(2) by (auto simp: fresh_source_def)
  then have run: "devices_ok tab' \<and> list_all2 mirrors tab (take (length tab) tab')
     \<and> list_all (\<lambda>r. settled_row (inventory_maps iv) tab' (snd r)) ?rows"
    using seed_rows_run [of tab src ?rows tab cfg now "inventory_maps iv"] assms(1,2)
    unfolding assms(3) by (simp add: seed_from_inventory_def fresh_source_def list_all2_same Let_def)
  then show "devices_ok tab'" "list_all2 mirrors tab (take (length tab) tab')" by blast+
  show "list_all (settled_row (inventory_maps iv) tab') (inventory_rows iv)" using run by (simp add: list_all_enumerate)
qed

text \<open>A mirror run is idempotent: a second run over the same inventory, with other random draws and at another time,
  creates nothing and leaves every row exactly as the first run left it.\<close>

theorem seed_is_idempotent:
  assumes "devices_ok tab" "fresh_source src tab" "tab' = fst (seed_from_inventory cfg src now iv tab)"
  shows "seed_from_inventory cfg src' now' iv tab' = (tab', 0)"
proof -
  have run: "devices_ok tab'" "list_all (settled_row (inventory_maps iv) tab') (inventory_rows iv)"
    using seed_from_inventory_run [OF assms] by auto
  have "list_all (\<lambda>r. settled_row (inventory_maps iv) tab' (snd r)) (List.enumerate 0 (inventory_rows iv))"
    using run(2) by (simp add: list_all_enumerate)
  then have "settled_row (inventory_maps iv) tab' (snd r)" if "r \<in> set (List.enumerate 0 (inventory_rows iv))" for r
    using that by (simp add: list_all_iff)
  then show ?thesis by (simp add: seed_from_inventory_def seed_rows_idle [OF run(1)])
qed

text \<open>A small inventory and source for the witnesses: register and computer are the same machine.\<close>

definition demo_settings :: remote_settings where
  "demo_settings = \<lparr>rs_enabled = True, rs_api_url = ''http://console/'', rs_api_token = ''tok'', rs_admin_username = [],
     rs_admin_password = [], rs_default_password = ''fleet1'', rs_stale_seconds = 120, rs_group_name = ''eng'',
     rs_book_name = ''fleet'', rs_id_server = ''id'', rs_relay_server = ''relay'', rs_key = ''key'',
     rs_installer_filename = ''rd.exe'', rs_installer_version = ''1.4'', rs_installer_sha256 = ''aa'',
     rs_deploy_token = ''secret'', rs_public_url = ''http://infra'', rs_winrm_username = ''svc'', rs_winrm_password = ''pw''\<rparr>"

definition demo_source :: random_source where
  "demo_source = \<lparr>new_id = (\<lambda>n. CHR ''n'' # show_nat n), draws = (\<lambda>_ _. 0)\<rparr>"

definition demo_inventory :: inventory where
  "demo_inventory = \<lparr>
     iv_computers = [\<lparr>co_id = ''c1'', co_hostname = ''VNA-KKM-1'', co_is_online = Some True, co_reachability_reason = None,
                      co_last_polled_at = Some 5, co_location = Some (cp ''hall'')\<rparr>],
     iv_registers = [\<lparr>cr_id = ''r1'', cr_kkm_number = cp ''1'', cr_hostname = ''vna-kkm-1'', cr_is_online = None,
                      cr_reachability_reason = None, cr_last_polled_at = None, cr_store_number = Some (cp ''22''),
                      cr_store_code = None\<rparr>],
     iv_players = []\<rparr>"

lemma inj_show_nat: "inj show_nat"
  by (rule injI) (metis digits_val_show_nat)

lemma demo_source_fresh: "fresh_source demo_source []"
  using inj_show_nat by (auto simp: fresh_source_def demo_source_def inj_def)

lemma devices_ok_Nil [simp]: "devices_ok []"
  by (simp add: devices_ok_def)

theorem seed_is_idempotent_witness:
  "seed_from_inventory demo_settings demo_source 9 demo_inventory
     (fst (seed_from_inventory demo_settings demo_source 1 demo_inventory []))
   = (fst (seed_from_inventory demo_settings demo_source 1 demo_inventory []), 0)
   \<and> length (fst (seed_from_inventory demo_settings demo_source 1 demo_inventory [])) = 1"
proof
  show "seed_from_inventory demo_settings demo_source 9 demo_inventory
     (fst (seed_from_inventory demo_settings demo_source 1 demo_inventory []))
   = (fst (seed_from_inventory demo_settings demo_source 1 demo_inventory []), 0)"
    by (rule seed_is_idempotent [OF devices_ok_Nil demo_source_fresh refl])
  have rows: "inventory_rows demo_inventory = [(''vna-kkm-1'', ''cash_register'', Some (cp ''22'')), (''VNA-KKM-1'', ''computer'', Some (cp ''hall''))]"
    by (simp add: inventory_rows_def demo_inventory_def nettops_def cr_location_def or_else_def truthy_def cp_def
        strip_def lstrip_def rstrip_def is_space_def)
  have low: "lower ''VNA-KKM-1'' = ''vna-kkm-1''" "lower ''vna-kkm-1'' = ''vna-kkm-1''"
    by code_simp+
  show "length (fst (seed_from_inventory demo_settings demo_source 1 demo_inventory [])) = 1"
    by (simp add: seed_from_inventory_def rows seed_row_def existing_device_def low Let_def put_row_def)
qed

end
