(* ===== verification/Console_Api.thy ===== *)
theory Console_Api
  imports Prelude
begin

section \<open>The RustDesk console, as the service calls it\<close>

text \<open>
  The console answers JSON. A row of a list endpoint is a dict; the code reads its fields as scalars
  (numbers are the console's integers, a text field holds text or null). \<open>'c console\<close> is the record of calls of
  \<open>app/domains/remote_access/rustdesk_client.py\<close> that the service uses, over a state \<open>'c\<close>: each call
  returns the new state and an answer, or \<^const>\<open>Failed\<close> when it raises.
\<close>

datatype scalar = SNull | SBool bool | SInt int | SStr string
datatype json = Scalar scalar | JList "json list" | JObj "(string \<times> json) list"

type_synonym jrow = "(string \<times> json) list"

text \<open>\<open>row.get(k)\<close>; a list or an object in a scalar field reads as missing.\<close>

definition field :: "jrow \<Rightarrow> string \<Rightarrow> scalar" where
  "field row k = (case map_of row k of Some (Scalar s) \<Rightarrow> s | _ \<Rightarrow> SNull)"

definition scalar_true :: "scalar \<Rightarrow> bool" where
  "scalar_true s = (case s of SNull \<Rightarrow> False | SBool b \<Rightarrow> b | SInt i \<Rightarrow> i \<noteq> 0 | SStr w \<Rightarrow> w \<noteq> [])"

definition scalar_str :: "scalar \<Rightarrow> string" where
  "scalar_str s = (case s of SNull \<Rightarrow> ''None'' | SBool b \<Rightarrow> (if b then ''True'' else ''False'')
     | SInt i \<Rightarrow> show_int i | SStr w \<Rightarrow> w)"

text \<open>\<open>str(x or "")\<close>, \<open>x or ""\<close> on a text field, \<open>x or None\<close> on a text field and \<open>int(x)\<close>.\<close>

definition str_or_empty :: "scalar \<Rightarrow> string" where
  "str_or_empty s = (if scalar_true s then scalar_str s else [])"

definition text_or_empty :: "scalar \<Rightarrow> string" where
  "text_or_empty s = (case s of SStr w \<Rightarrow> w | _ \<Rightarrow> [])"

definition text_opt :: "scalar \<Rightarrow> string option" where
  "text_opt s = (case s of SStr w \<Rightarrow> if w = [] then None else Some w | _ \<Rightarrow> None)"

definition scalar_int :: "scalar \<Rightarrow> int option" where
  "scalar_int s = (case s of SNull \<Rightarrow> None | SBool b \<Rightarrow> Some (if b then 1 else 0) | SInt i \<Rightarrow> Some i | SStr w \<Rightarrow> py_int w)"

text \<open>\<open>int(x or 0)\<close>.\<close>

definition int_or_zero :: "scalar \<Rightarrow> int option" where
  "int_or_zero s = (if scalar_true s then scalar_int s else Some 0)"

text \<open>The payload of a row of the shared address book.\<close>

record book_payload =
  bp_id :: string
  bp_hostname :: string
  bp_tags :: "ustr list"
  bp_password :: string
  bp_user_id :: int
  bp_collection_id :: int

text \<open>The fields of a console account that \<open>create_console_user\<close> and \<open>update_console_user\<close> send.\<close>

record user_form =
  uf_username :: string
  uf_group_id :: int
  uf_is_admin :: bool
  uf_status :: int
  uf_email :: string
  uf_nickname :: string

record 'c console =
  kc_peers :: "'c \<Rightarrow> 'c \<times> jrow list reply"
  kc_users :: "'c \<Rightarrow> 'c \<times> jrow list reply"
  kc_user_id :: "'c \<Rightarrow> 'c \<times> int reply"
  kc_groups :: "'c \<Rightarrow> 'c \<times> jrow list reply"
  kc_create_group :: "'c \<Rightarrow> string \<Rightarrow> 'c \<times> unit reply"
  kc_collections :: "'c \<Rightarrow> 'c \<times> jrow list reply"
  kc_create_collection :: "'c \<Rightarrow> string \<Rightarrow> int \<Rightarrow> 'c \<times> unit reply"
  kc_rules :: "'c \<Rightarrow> int \<Rightarrow> 'c \<times> jrow list reply"
  kc_create_rule :: "'c \<Rightarrow> int \<Rightarrow> int \<Rightarrow> int \<Rightarrow> 'c \<times> unit reply"
  kc_book :: "'c \<Rightarrow> int \<Rightarrow> int \<Rightarrow> 'c \<times> jrow list reply"
  kc_add_row :: "'c \<Rightarrow> book_payload \<Rightarrow> 'c \<times> unit reply"
  kc_update_row :: "'c \<Rightarrow> int \<Rightarrow> book_payload \<Rightarrow> 'c \<times> unit reply"
  kc_delete_row :: "'c \<Rightarrow> int \<Rightarrow> string \<Rightarrow> 'c \<times> unit reply"
  kc_create_user :: "'c \<Rightarrow> user_form \<Rightarrow> 'c \<times> unit reply"
  kc_set_password :: "'c \<Rightarrow> int \<Rightarrow> string \<Rightarrow> 'c \<times> unit reply"
  kc_update_user :: "'c \<Rightarrow> int \<Rightarrow> user_form \<Rightarrow> 'c \<times> unit reply"

text \<open>A call that raises ends the operation: the rest runs only on an answer.\<close>

definition on_reply :: "'c \<times> 'a reply \<Rightarrow> ('c \<Rightarrow> 'a \<Rightarrow> 'c \<times> 'b reply) \<Rightarrow> 'c \<times> 'b reply" where
  "on_reply x f = (case x of (c, Failed) \<Rightarrow> (c, Failed) | (c, Reply a) \<Rightarrow> f c a)"

lemma on_reply_simps [simp]: "on_reply (c, Failed) f = (c, Failed)" "on_reply (c, Reply a) f = f c a"
  by (simp_all add: on_reply_def)

lemma on_reply_Reply:
  "on_reply x f = (c', Reply b) \<longleftrightarrow> (\<exists>c a. x = (c, Reply a) \<and> f c a = (c', Reply b))"
  by (cases x, cases "snd x") (auto simp: on_reply_def)

end
