(* ===== verification/Remote_Console.thy ===== *)
theory Remote_Console
  imports Remote_Inventory Console_Api
begin

section \<open>Remote access: what the console sees\<close>

text \<open>
  \<open>app/domains/remote_access/service/console.py\<close>: the peers of the console are folded into the device
  rows the inventory put there. Nothing here creates a managed row on its own: an unknown peer is only
  offered (\<open>list_unlisted_console_peers\<close>) until an operator adopts or dismisses it.
\<close>

subsection \<open>Peers\<close>

definition peer_rid :: "jrow \<Rightarrow> string" where
  "peer_rid p = strip (str_or_empty (field p ''id''))"

definition peer_hostname :: "jrow \<Rightarrow> string" where
  "peer_hostname p = strip (text_or_empty (field p ''hostname''))"

definition peer_online :: "remote_settings \<Rightarrow> instant \<Rightarrow> jrow \<Rightarrow> bool" where
  "peer_online cfg now p =
     (case scalar_int (field p ''last_online_time'') of
        None \<Rightarrow> False
      | Some t \<Rightarrow> if t \<le> 0 then False else now - t \<le> rs_stale_seconds cfg)"

definition peer_last_online :: "jrow \<Rightarrow> int" where
  "peer_last_online p = (case scalar_int (field p ''last_online_time'') of None \<Rightarrow> 0 | Some t \<Rightarrow> max t 0)"

text \<open>Python's \<open>max(xs, key=f)\<close>: the first of the largest.\<close>

fun max_by :: "('a \<Rightarrow> int) \<Rightarrow> 'a \<Rightarrow> 'a list \<Rightarrow> 'a" where
  "max_by f best [] = best"
| "max_by f best (x # xs) = max_by f (if f x > f best then x else best) xs"

definition failed_heal_after :: int where "failed_heal_after = 3600"

definition failure_outlived :: "instant \<Rightarrow> ra_device \<Rightarrow> bool" where
  "failure_outlived now dev =
     (rd_state dev = ''failed'' \<and>
      (case rd_reported_at dev of None \<Rightarrow> True | Some t \<Rightarrow> now - t > failed_heal_after))"

subsection \<open>Folding the peers into the rows\<close>

text \<open>The device a peer belongs to, by its hostname or else by its id.\<close>

definition peer_pair :: "ra_device list \<Rightarrow> jrow \<Rightarrow> (string \<times> jrow) option" where
  "peer_pair tab p =
     (if peer_rid p = [] \<and> peer_hostname p = [] then None
      else map_option (\<lambda>d. (host_key d, p))
             (find_device (if peer_hostname p \<noteq> [] then peer_hostname p else peer_rid p) tab))"

definition peers_by_host :: "ra_device list \<Rightarrow> jrow list \<Rightarrow> (string \<times> jrow list) list" where
  "peers_by_host tab peers = group_pairs (List.map_filter (peer_pair tab) peers)"

definition peers_seen :: "jrow list \<Rightarrow> nat" where
  "peers_seen peers = length (filter (\<lambda>p. \<not> (peer_rid p = [] \<and> peer_hostname p = [])) peers)"

definition preferred_peer :: "ra_device \<Rightarrow> jrow list \<Rightarrow> jrow" where
  "preferred_peer dev grp =
     (case find (\<lambda>p. lower (peer_rid p) = lower (hostname_to_rid (rd_hostname dev))) grp of
        Some p \<Rightarrow> p
      | None \<Rightarrow> max_by peer_last_online (hd grp) (tl grp))"

text \<open>The first pass over a row: the row, its status entry (id, online) and whether its canonical client is healthy.\<close>

definition fold_peer :: "remote_settings \<Rightarrow> instant \<Rightarrow> lookups \<Rightarrow> ra_device \<Rightarrow> jrow \<Rightarrow> ra_device" where
  "fold_peer cfg now lk dev p =
     (let d1 = link_inventory lk dev;
          d2 = (if peer_rid p \<noteq> [] then d1\<lparr>rd_rustdesk_id := Some (peer_rid p)\<rparr> else d1)
      in d2\<lparr>rd_version := or_else (text_opt (field p ''version'')) (rd_version d2),
            rd_user := or_else (text_opt (field p ''username'')) (rd_user d2),
            rd_last_ip := or_else (text_opt (field p ''last_online_ip'')) (rd_last_ip d2),
            rd_updated_at := Some now\<rparr>)"

definition first_pass ::
  "remote_settings \<Rightarrow> instant \<Rightarrow> lookups \<Rightarrow> (string \<times> jrow list) list \<Rightarrow> ra_device
   \<Rightarrow> ra_device \<times> (string \<times> bool) list \<times> string list" where
  "first_pass cfg now lk groups dev =
     (case map_of groups (host_key dev) of
        None \<Rightarrow> (dev, [], [])
      | Some grp \<Rightarrow>
          let p = preferred_peer dev grp; rid = peer_rid p; on = peer_online cfg now p in
          (fold_peer cfg now lk dev p,
           (if rid \<noteq> [] then [(rid, on)] else []),
           (if rid \<noteq> [] \<and> lower rid = lower (hostname_to_rid (rd_hostname dev)) \<and> on then [host_key dev] else [])))"

text \<open>The Russian texts of the message (error cleared automatically, client online under id; was) as code points.\<close>

definition healed_prefix :: ustr where
  "healed_prefix = [1054, 1096, 1080, 1073, 1082, 1072, 32, 1089, 1085, 1103, 1090, 1072, 32, 1072, 1074, 1090, 1086, 1084, 1072,
     1090, 1080, 1095, 1077, 1089, 1082, 1080, 58, 32, 1082, 1083, 1080, 1077, 1085, 1090, 32, 1086, 1085, 1083, 1072, 1081, 1085,
     32, 1087, 1086, 1076, 32, 73, 68, 32]"

definition healed_was :: ustr where
  "healed_was = [32, 1041, 1099, 1083, 1086, 58, 32]"

definition healed_detail :: "ra_device \<Rightarrow> ustr" where
  "healed_detail dev =
     (let old = u_strip (case rd_detail dev of None \<Rightarrow> [] | Some t \<Rightarrow> t);
          rid = cp (case rd_rustdesk_id dev of None \<Rightarrow> ''None'' | Some r \<Rightarrow> r)
      in take 512 (healed_prefix @ rid @ cp ''.'' @ (if old \<noteq> [] then healed_was @ old else [])))"

text \<open>The second pass over a row: \<open>status\<close> and \<open>healthy\<close> are what the first pass gathered over all rows.\<close>

definition apply_console_status :: "instant \<Rightarrow> (string \<rightharpoonup> bool) \<Rightarrow> ra_device \<Rightarrow> ra_device" where
  "apply_console_status now status dev =
     (let want = status (case rd_rustdesk_id dev of None \<Rightarrow> [] | Some r \<Rightarrow> r);
          forget = (want = None \<and> rd_last_seen_at dev \<noteq> None);
          changed = (rd_online dev \<noteq> want \<or> forget);
          d1 = (if want = Some True then dev\<lparr>rd_last_seen_at := Some now\<rparr>
                else if forget then dev\<lparr>rd_last_seen_at := None\<rparr> else dev)
      in if changed then d1\<lparr>rd_online := want, rd_updated_at := Some now\<rparr> else d1)"

definition heal_state :: "instant \<Rightarrow> string list \<Rightarrow> ra_device \<Rightarrow> ra_device" where
  "heal_state now healthy dev =
     (if host_key dev \<in> set healthy \<and>
         (rd_state dev = ''pending'' \<or> (rd_state dev = ''stale'' \<and> rd_ab_pushed dev))
      then dev\<lparr>rd_state := ''configured'', rd_reported_at := Some now, rd_updated_at := Some now\<rparr>
      else if host_key dev \<in> set healthy \<and> failure_outlived now dev
      then dev\<lparr>rd_state := ''configured'', rd_detail := Some (healed_detail dev), rd_reported_at := Some now,
               rd_updated_at := Some now\<rparr>
      else dev)"

definition sync_with_peers ::
  "remote_settings \<Rightarrow> instant \<Rightarrow> inventory \<Rightarrow> jrow list \<Rightarrow> ra_device list \<Rightarrow> ra_device list" where
  "sync_with_peers cfg now iv peers tab =
     (let pass = map (first_pass cfg now (inventory_maps iv) (peers_by_host tab peers)) tab;
          status = map_of (rev (concat (map (fst \<circ> snd) pass)));
          healthy = concat (map (snd \<circ> snd) pass)
      in map (heal_state now healthy \<circ> apply_console_status now status) (map fst pass))"

definition sync_from_console ::
  "'c console \<Rightarrow> remote_settings \<Rightarrow> instant \<Rightarrow> inventory \<Rightarrow> ra_device list \<Rightarrow> 'c \<Rightarrow> 'c \<times> (ra_device list \<times> nat) reply" where
  "sync_from_console kc cfg now iv tab c =
     on_reply (kc_peers kc c) (\<lambda>c peers. (c, Reply (sync_with_peers cfg now iv peers tab, peers_seen peers)))"

subsection \<open>Machines the list does not know\<close>

record unlisted_peer =
  up_hostname :: string
  up_rustdesk_id :: "string option"
  up_os :: "string option"
  up_version :: "string option"
  up_username :: "string option"
  up_online :: bool
  up_last_online :: "instant option"
  up_profile :: string

definition best_step :: "string set \<Rightarrow> (string \<times> jrow) list \<Rightarrow> jrow \<Rightarrow> (string \<times> jrow) list" where
  "best_step known best p =
     (let key = lower (peer_hostname p) in
      if peer_hostname p = [] \<or> key \<in> known then best
      else case map_of best key of
             None \<Rightarrow> best @ [(key, p)]
           | Some q \<Rightarrow> if peer_last_online p > peer_last_online q then AList.update key p best else best)"

definition best_peers :: "string set \<Rightarrow> jrow list \<Rightarrow> (string \<times> jrow) list" where
  "best_peers known peers = foldl (best_step known) [] peers"

definition unlisted_item :: "remote_settings \<Rightarrow> instant \<Rightarrow> jrow \<Rightarrow> unlisted_peer" where
  "unlisted_item cfg now p = \<lparr>up_hostname = peer_hostname p,
     up_rustdesk_id = (if peer_rid p = [] then None else Some (peer_rid p)),
     up_os = text_opt (field p ''os''), up_version = text_opt (field p ''version''),
     up_username = text_opt (field p ''username''), up_online = peer_online cfg now p,
     up_last_online = (if peer_last_online p \<noteq> 0 then Some (peer_last_online p) else None),
     up_profile = suggested_profile (peer_hostname p)\<rparr>"

text \<open>The sort key is (not online, lowered hostname): two stable sorts, the major key last.\<close>

definition list_unlisted ::
  "remote_settings \<Rightarrow> instant \<Rightarrow> jrow list \<Rightarrow> ra_device list \<Rightarrow> unlisted_peer list \<times> nat" where
  "list_unlisted cfg now peers tab =
     (let known = host_key ` set (filter (\<lambda>d. rd_hostname d \<noteq> []) tab);
          items = map (unlisted_item cfg now \<circ> snd) (best_peers known peers)
      in (sort_key (\<lambda>i. \<not> up_online i) (sort_key (\<lambda>i. lower (up_hostname i)) items),
          length (filter (\<lambda>p. peer_hostname p = []) peers)))"

text \<open>The row is stored before the profile is applied, so it stays when the profile is unknown (\<open>None\<close>).\<close>

definition adopt_peer ::
  "remote_settings \<Rightarrow> random_source \<Rightarrow> instant \<Rightarrow> inventory \<Rightarrow> string \<Rightarrow> string option \<Rightarrow> ra_device list
   \<Rightarrow> ra_device option \<times> ra_device list" where
  "adopt_peer cfg src now iv hostname profile tab =
     (let (dev, tab1) = ensure_device cfg src now iv hostname None None tab;
          p = (case truthy profile of Some q \<Rightarrow> q | None \<Rightarrow> suggested_profile hostname)
      in case apply_deploy_profile now p dev of
           None \<Rightarrow> (None, tab1)
         | Some d \<Rightarrow> (Some d, put_row rd_id d tab1))"

definition dismiss_peer ::
  "remote_settings \<Rightarrow> random_source \<Rightarrow> instant \<Rightarrow> string \<Rightarrow> ra_device list \<Rightarrow> ra_device list" where
  "dismiss_peer cfg src now hostname tab =
     (let (dev, tab1) = get_or_create_device cfg src now hostname tab
      in put_row rd_id (dev\<lparr>rd_managed := False\<rparr>) tab1)"


subsection \<open>Where the observations come from\<close>

lemma max_by_mem: "max_by f b xs \<in> set (b # xs)"
proof (induction xs arbitrary: b)
  case (Cons x xs)
  show ?case using Cons.IH [of x] Cons.IH [of b] by auto
qed simp

lemma preferred_peer_mem: "grp \<noteq> [] \<Longrightarrow> preferred_peer dev grp \<in> set grp"
proof -
  assume "grp \<noteq> []"
  then obtain g gs where "grp = g # gs" by (cases grp) auto
  then show ?thesis using max_by_mem [of peer_last_online g gs] by (auto simp: preferred_peer_def find_Some_iff split: option.splits)
qed

lemma peers_by_host_mem:
  assumes "map_of (peers_by_host tab peers) k = Some grp"
  shows "grp \<noteq> []" "set grp \<subseteq> set peers"
proof -
  have v: "grp = values_at (List.map_filter (peer_pair tab) peers) k" "grp \<noteq> []"
    using assms by (auto simp: peers_by_host_def map_of_group_pairs split: if_splits)
  show "grp \<noteq> []" by (rule v(2))
  show "set grp \<subseteq> set peers"
  proof
    fix p assume "p \<in> set grp"
    then have "(k, p) \<in> set (List.map_filter (peer_pair tab) peers)" using v(1) by (simp add: set_values_at)
    then obtain q where q: "q \<in> set peers" "peer_pair tab q = Some (k, p)" by (auto simp: map_filter_def)
    then have "p = q" by (auto simp: peer_pair_def split: if_splits)
    with q show "p \<in> set peers" by simp
  qed
qed

definition peers_vouch :: "remote_settings \<Rightarrow> instant \<Rightarrow> jrow list \<Rightarrow> string \<Rightarrow> bool" where
  "peers_vouch cfg now peers hk \<longleftrightarrow> (\<exists>p \<in> set peers. lower (peer_rid p) = hostname_to_rid hk \<and> peer_online cfg now p)"

lemma first_pass_entries:
  assumes "(d', st, hl) = first_pass cfg now lk (peers_by_host tab peers) d"
  shows "(r, b) \<in> set st \<Longrightarrow> r \<noteq> [] \<and> (\<exists>p \<in> set peers. peer_rid p = r \<and> peer_online cfg now p = b)"
    and "k \<in> set hl \<Longrightarrow> peers_vouch cfg now peers k"
proof -
  have "((r, b) \<in> set st \<longrightarrow> r \<noteq> [] \<and> (\<exists>p \<in> set peers. peer_rid p = r \<and> peer_online cfg now p = b))
    \<and> (k \<in> set hl \<longrightarrow> peers_vouch cfg now peers k)"
  proof (cases "map_of (peers_by_host tab peers) (host_key d)")
    case None
    with assms show ?thesis by (simp add: first_pass_def)
  next
    case (Some grp)
    have p: "preferred_peer d grp \<in> set peers"
      using peers_by_host_mem [OF Some] preferred_peer_mem by blast
    have low: "lower (hostname_to_rid (rd_hostname d)) = hostname_to_rid (host_key d)"
      by (simp add: lower_hostname_to_rid host_key_def)
    show ?thesis using assms Some p low by (auto simp: first_pass_def peers_vouch_def Let_def split: if_splits)
  qed
  then show "(r, b) \<in> set st \<Longrightarrow> r \<noteq> [] \<and> (\<exists>p \<in> set peers. peer_rid p = r \<and> peer_online cfg now p = b)"
    and "k \<in> set hl \<Longrightarrow> peers_vouch cfg now peers k" by blast+
qed

text \<open>What a console sync keeps of a row: everything that decides what the machine should be and who manages it.\<close>

definition console_frame :: "ra_device \<Rightarrow> ra_device \<Rightarrow> bool" where
  "console_frame d d' \<longleftrightarrow> rd_id d' = rd_id d \<and> rd_hostname d' = rd_hostname d \<and> rd_managed d' = rd_managed d
     \<and> rd_password d' = rd_password d \<and> flags_of d' = flags_of d \<and> rd_profile d' = rd_profile d
     \<and> rd_in_book d' = rd_in_book d \<and> rd_ab_row_id d' = rd_ab_row_id d \<and> rd_ab_pushed d' = rd_ab_pushed d"

lemma console_frame_refl [simp]: "console_frame d d"
  by (simp add: console_frame_def)

lemma console_frame_trans: "console_frame a b \<Longrightarrow> console_frame b c \<Longrightarrow> console_frame a c"
  by (simp add: console_frame_def)

lemma rd_password_link_inventory [simp]: "rd_password (link_inventory lk d) = rd_password d"
  using links_sel(2,4,6) by (simp add: link_inventory_def)

lemma console_frame_link_inventory: "console_frame d (link_inventory lk d)"
  using mirrorsD(1-10) [OF mirrors_link_inventory [of d lk]] by (simp add: console_frame_def)

lemma console_frame_fold_peer: "console_frame d (fold_peer cfg now lk d p)"
proof -
  have "console_frame (link_inventory lk d) (fold_peer cfg now lk d p)"
    by (simp add: fold_peer_def Let_def console_frame_def flags_of_def)
  with console_frame_link_inventory show ?thesis by (rule console_frame_trans)
qed

lemma console_frame_first_pass: "console_frame d (fst (first_pass cfg now lk groups d))"
  by (simp add: first_pass_def Let_def console_frame_fold_peer split: option.splits)

lemma console_frame_status: "console_frame d (apply_console_status now status d)"
  by (simp add: apply_console_status_def Let_def console_frame_def flags_of_def)

lemma console_frame_heal: "console_frame d (heal_state now healthy d)"
  by (simp add: heal_state_def console_frame_def flags_of_def)

lemma host_key_console_frame: "console_frame d d' \<Longrightarrow> host_key d' = host_key d"
  by (simp add: console_frame_def host_key_def)

lemma state_first_pass: "rd_state (fst (first_pass cfg now lk groups d)) = rd_state d"
    "rd_reported_at (fst (first_pass cfg now lk groups d)) = rd_reported_at d"
proof -
  note m = mirrorsD(5,12) [OF mirrors_link_inventory [of d lk]]
  from m show "rd_state (fst (first_pass cfg now lk groups d)) = rd_state d"
    "rd_reported_at (fst (first_pass cfg now lk groups d)) = rd_reported_at d"
    by (simp_all add: first_pass_def fold_peer_def Let_def split: option.splits)
qed


lemma sync_with_peers_row:
  assumes "d' \<in> set (sync_with_peers cfg now iv peers tab)"
  obtains d status healthy where "d \<in> set tab"
    "d' = heal_state now healthy (apply_console_status now status
            (fst (first_pass cfg now (inventory_maps iv) (peers_by_host tab peers) d)))"
    "\<And>r b. status r = Some b \<Longrightarrow> r \<noteq> [] \<and> (\<exists>p \<in> set peers. peer_rid p = r \<and> peer_online cfg now p = b)"
    "\<And>k. k \<in> set healthy \<Longrightarrow> peers_vouch cfg now peers k"
proof -
  let ?f = "first_pass cfg now (inventory_maps iv) (peers_by_host tab peers)"
  let ?status = "map_of (rev (concat (map (fst \<circ> snd) (map ?f tab))))"
  let ?healthy = "concat (map (snd \<circ> snd) (map ?f tab))"
  obtain d where d: "d \<in> set tab" "d' = heal_state now ?healthy (apply_console_status now ?status (fst (?f d)))"
    using assms by (auto simp: sync_with_peers_def Let_def)
  have "r \<noteq> [] \<and> (\<exists>p \<in> set peers. peer_rid p = r \<and> peer_online cfg now p = b)" if "?status r = Some b" for r b
  proof -
    from map_of_SomeD [OF that] obtain x where "x \<in> set tab" "(r, b) \<in> set (fst (snd (?f x)))" by auto
    then show ?thesis by (intro first_pass_entries(1) [of "fst (?f x)" _ "snd (snd (?f x))"]) simp_all
  qed
  moreover have "peers_vouch cfg now peers k" if "k \<in> set ?healthy" for k
  proof -
    from that obtain x where "x \<in> set tab" "k \<in> set (snd (snd (?f x)))" by auto
    then show ?thesis by (intro first_pass_entries(2) [of "fst (?f x)" "fst (snd (?f x))"]) simp_all
  qed
  ultimately show thesis using d that by blast
qed

lemma sync_with_peers_frame: "list_all2 console_frame tab (sync_with_peers cfg now iv peers tab)"
  unfolding sync_with_peers_def Let_def list_all2_map2 map_map
  by (rule list.rel_refl_strong)
    (auto intro: console_frame_trans [OF console_frame_first_pass console_frame_trans [OF console_frame_status console_frame_heal]])

lemma state_status [simp]:
  "rd_state (apply_console_status now status d) = rd_state d"
  "rd_ab_pushed (apply_console_status now status d) = rd_ab_pushed d"
  "rd_reported_at (apply_console_status now status d) = rd_reported_at d"
  "rd_rustdesk_id (apply_console_status now status d) = rd_rustdesk_id d"
  by (simp_all add: apply_console_status_def Let_def)

lemma online_status: "rd_online (apply_console_status now status d) = status (case rd_rustdesk_id d of None \<Rightarrow> [] | Some r \<Rightarrow> r)"
  by (auto simp: apply_console_status_def Let_def)

lemma heal_sel: "rd_online (heal_state now healthy d) = rd_online d" "rd_rustdesk_id (heal_state now healthy d) = rd_rustdesk_id d"
  by (simp_all add: heal_state_def)

text \<open>A console sync declares a rollout applied only on evidence: a row that reads configured afterwards read so
  before, or it was waiting, rotated with the new password in the shared book, or failed more than an hour ago, and a peer
  of the console answers right now under the id derived from the hostname of that very machine.\<close>

theorem configured_is_earned:
  assumes "d' \<in> set (sync_with_peers cfg now iv peers tab)" "rd_state d' = ''configured''"
  shows "\<exists>d \<in> set tab. rd_id d = rd_id d' \<and> rd_hostname d = rd_hostname d' \<and>
    (rd_state d = ''configured'' \<or>
      ((rd_state d = ''pending'' \<or> (rd_state d = ''stale'' \<and> rd_ab_pushed d) \<or> failure_outlived now d)
       \<and> peers_vouch cfg now peers (host_key d)))"
proof -
  obtain d status healthy where d: "d \<in> set tab"
    "d' = heal_state now healthy (apply_console_status now status
            (fst (first_pass cfg now (inventory_maps iv) (peers_by_host tab peers) d)))"
    and h: "\<And>k. k \<in> set healthy \<Longrightarrow> peers_vouch cfg now peers k"
    using sync_with_peers_row [OF assms(1)] by metis
  let ?d1 = "fst (first_pass cfg now (inventory_maps iv) (peers_by_host tab peers) d)"
  let ?d2 = "apply_console_status now status ?d1"
  have fr: "console_frame d ?d2" by (rule console_frame_trans [OF console_frame_first_pass console_frame_status])
  have k: "host_key ?d2 = host_key d" by (rule host_key_console_frame [OF fr])
  have st: "rd_state ?d2 = rd_state d" "rd_ab_pushed ?d2 = rd_ab_pushed d" "failure_outlived now ?d2 = failure_outlived now d"
    using fr by (simp_all add: state_first_pass console_frame_def failure_outlived_def)
  have ids: "rd_id d = rd_id d'" "rd_hostname d = rd_hostname d'"
    using console_frame_trans [OF fr console_frame_heal [of ?d2 now healthy]] unfolding d(2) console_frame_def by simp_all
  have "rd_state d = ''configured'' \<or>
      ((rd_state d = ''pending'' \<or> (rd_state d = ''stale'' \<and> rd_ab_pushed d) \<or> failure_outlived now d) \<and> host_key d \<in> set healthy)"
    using assms(2) unfolding d(2) heal_state_def k st by (auto simp: st state_first_pass split: if_splits)
  then show ?thesis using d(1) h ids by blast
qed

lemma online_is_observed:
  assumes "d' \<in> set (sync_with_peers cfg now iv peers tab)" "rd_online d' = Some b"
  shows "\<exists>p \<in> set peers. rd_rustdesk_id d' = Some (peer_rid p) \<and> peer_online cfg now p = b"
proof -
  obtain d status healthy where d: "d \<in> set tab"
    "d' = heal_state now healthy (apply_console_status now status
            (fst (first_pass cfg now (inventory_maps iv) (peers_by_host tab peers) d)))"
    and s: "\<And>r b. status r = Some b \<Longrightarrow> r \<noteq> [] \<and> (\<exists>p \<in> set peers. peer_rid p = r \<and> peer_online cfg now p = b)"
    using sync_with_peers_row [OF assms(1)] by metis
  have "status (case rd_rustdesk_id d' of None \<Rightarrow> [] | Some r \<Rightarrow> r) = Some b"
    using assms(2) unfolding d(2) by (simp add: heal_sel online_status)
  from s [OF this] show ?thesis by (cases "rd_rustdesk_id d'") auto
qed

definition demo_peer :: jrow where
  "demo_peer = [(''id'', Scalar (SStr ''PC_1'')), (''hostname'', Scalar (SStr ''pc-1'')), (''last_online_time'', Scalar (SInt 100))]"

theorem configured_is_earned_witness:
  "let tab = [new_device ''d1'' 0 ''PC-1'' ''PC_1'' ''computer'' None ''pw'' \<lparr>rd_state := ''pending''\<rparr>];
       iv = \<lparr>iv_computers = [], iv_registers = [], iv_players = []\<rparr> in
   map rd_state (sync_with_peers demo_settings 150 iv [demo_peer] tab) = [''configured''] \<and>
   (\<exists>d' \<in> set (sync_with_peers demo_settings 150 iv [demo_peer] tab). \<exists>d \<in> set tab. rd_id d = rd_id d' \<and>
      peers_vouch demo_settings 150 [demo_peer] (host_key d))"
proof -
  let ?tab = "[new_device ''d1'' 0 ''PC-1'' ''PC_1'' ''computer'' None ''pw'' \<lparr>rd_state := ''pending''\<rparr>]"
  let ?iv = "\<lparr>iv_computers = [], iv_registers = [], iv_players = []\<rparr> :: inventory"
  have st: "map rd_state (sync_with_peers demo_settings 150 ?iv [demo_peer] ?tab) = [''configured'']" by code_simp
  then obtain d' where d': "d' \<in> set (sync_with_peers demo_settings 150 ?iv [demo_peer] ?tab)" "rd_state d' = ''configured''"
    by (auto simp: map_eq_Cons_conv)
  from configured_is_earned [OF d'] obtain d where "d \<in> set ?tab" "rd_id d = rd_id d'"
    "rd_state d = ''configured'' \<or> peers_vouch demo_settings 150 [demo_peer] (host_key d)" by blast
  moreover from this have "rd_state d = ''pending''" by simp
  ultimately show ?thesis unfolding Let_def using st d'(1) by force
qed

text \<open>The online column is the console's word: after a sync, a row is online (offline) only if the console lists a peer
  under the id the row now carries and that peer was (was not) seen within the stale window.\<close>

theorem online_is_the_consoles_word:
  "list_all (\<lambda>d. case rd_online d of None \<Rightarrow> True
      | Some b \<Rightarrow> list_ex (\<lambda>p. rd_rustdesk_id d = Some (peer_rid p) \<and> peer_online cfg now p = b) peers)
     (sync_with_peers cfg now iv peers tab)"
  using online_is_observed by (fastforce simp: list_all_iff list_ex_iff split: option.splits)

subsection \<open>The list of unlisted machines\<close>

definition best_ok :: "string set \<Rightarrow> jrow list \<Rightarrow> (string \<times> jrow) list \<Rightarrow> bool" where
  "best_ok known peers best \<longleftrightarrow> distinct (map fst best)
     \<and> (\<forall>(k, p) \<in> set best. k \<notin> known \<and> p \<in> set peers \<and> peer_hostname p \<noteq> [] \<and> k = lower (peer_hostname p))"

lemma best_step_ok:
  assumes "best_ok known peers best" "p \<in> set peers"
  shows "best_ok known peers (best_step known best p)"
proof (cases "peer_hostname p = [] \<or> lower (peer_hostname p) \<in> known")
  case True
  with assms show ?thesis by (auto simp: best_step_def)
next
  case False
  show ?thesis
  proof (cases "map_of best (lower (peer_hostname p))")
    case None
    with False have "best_step known best p = best @ [(lower (peer_hostname p), p)]" by (simp add: best_step_def Let_def)
    moreover have "lower (peer_hostname p) \<notin> set (map fst best)" using None by (simp add: map_of_eq_None_iff)
    ultimately show ?thesis using False assms by (auto simp: best_ok_def)
  next
    case (Some q)
    let ?k = "lower (peer_hostname p)"
    let ?ok = "\<lambda>(k, p). k \<notin> known \<and> p \<in> set peers \<and> peer_hostname p \<noteq> [] \<and> k = lower (peer_hostname p)"
    have "set (AList.update ?k p best) \<subseteq> insert (?k, p) (set best)" by (induction best) auto
    moreover have "\<forall>x \<in> insert (?k, p) (set best). ?ok x" using False assms by (simp add: best_ok_def)
    ultimately have "\<forall>x \<in> set (AList.update ?k p best). ?ok x" by (meson subsetD)
    then have "best_ok known peers (AList.update ?k p best)" using assms(1) by (simp add: best_ok_def distinct_update)
    then show ?thesis using False Some assms(1) by (simp add: best_step_def Let_def)
  qed
qed

lemma best_peers_ok: "best_ok known peers (best_peers known peers)"
proof -
  have "best_ok known peers (foldl (best_step known) best ps)" if "best_ok known peers best" "set ps \<subseteq> set peers" for best ps
    using that by (induction ps arbitrary: best) (simp_all add: best_step_ok)
  from this [of "[]" peers] show ?thesis unfolding best_peers_def by (simp add: best_ok_def)
qed

text \<open>The machines offered for adoption are pairwise different and none of them is in the table, managed or removed,
  whatever the case of the hostnames.\<close>

theorem unlisted_are_new_and_distinct:
  "let items = fst (list_unlisted cfg now peers tab) in
     distinct (map (\<lambda>i. lower (up_hostname i)) items)
     \<and> list_all (\<lambda>i. up_hostname i \<noteq> [] \<and> lower (up_hostname i) \<notin> host_key ` set tab) items"
proof -
  let ?known = "host_key ` set (filter (\<lambda>d. rd_hostname d \<noteq> []) tab)"
  let ?best = "best_peers ?known peers"
  let ?items = "map (unlisted_item cfg now \<circ> snd) ?best"
  have ok: "best_ok ?known peers ?best" by (rule best_peers_ok)
  have "map (\<lambda>i. lower (up_hostname i)) ?items = map fst ?best"
    using ok by (auto simp: best_ok_def unlisted_item_def)
  then have d: "distinct (map (\<lambda>i. lower (up_hostname i)) ?items)" using ok by (simp only: best_ok_def)
  have n: "up_hostname i \<noteq> [] \<and> lower (up_hostname i) \<notin> host_key ` set tab" if "i \<in> set ?items" for i
  proof -
    from that obtain k p where kp: "(k, p) \<in> set ?best" "i = unlisted_item cfg now p" by auto
    have w: "k \<notin> ?known" "peer_hostname p \<noteq> []" "k = lower (peer_hostname p)"
      using ok kp(1) unfolding best_ok_def by (auto dest!: bspec [where x = "(k, p)"])
    have "lower (peer_hostname p) \<notin> host_key ` set tab"
    proof
      assume "lower (peer_hostname p) \<in> host_key ` set tab"
      then obtain x where x: "x \<in> set tab" "host_key x = lower (peer_hostname p)" by auto
      then have "rd_hostname x \<noteq> []" using w(2) by (metis host_key_def lower_eq_Nil)
      with x w(1,3) show False by force
    qed
    with w(2) kp(2) show ?thesis by (simp add: unlisted_item_def)
  qed
  show ?thesis using d n by (simp add: list_unlisted_def Let_def list_all_iff)
qed

end
