(* ===== verification/Remote_Book.thy ===== *)
theory Remote_Book
  imports Remote_Console
begin

section \<open>Remote access: console accounts and the shared address book\<close>

text \<open>
  \<open>app/domains/remote_access/service/accounts.py\<close> and \<open>address_book.py\<close>. The console keeps the accounts, the
  group, the shared collection and its rows; the database keeps what InfraScope believes about them. An
  operation on the book runs inside a database session: a pair of the rows as saved and as changed since, so
  that what an exception leaves behind is explicit.
\<close>

definition to_reply :: "'a option \<Rightarrow> 'a reply" where
  "to_reply x = (case x of None \<Rightarrow> Failed | Some a \<Rightarrow> Reply a)"

lemma to_reply_simps [simp]: "to_reply None = Failed" "to_reply (Some a) = Reply a"
  by (simp_all add: to_reply_def)

definition status_enabled :: int where "status_enabled = 1"
definition status_disabled :: int where "status_disabled = 2"
definition rule_type_group :: int where "rule_type_group = 2"

subsection \<open>The group and the shared collection\<close>

definition find_named :: "string \<Rightarrow> jrow list \<Rightarrow> jrow option" where
  "find_named name rows = find (\<lambda>r. strip (str_or_empty (field r ''name'')) = name) rows"

definition row_int :: "string \<Rightarrow> jrow \<Rightarrow> int reply" where
  "row_int k r = to_reply (scalar_int (field r k))"

definition ensure_console_group :: "'c console \<Rightarrow> remote_settings \<Rightarrow> 'c \<Rightarrow> 'c \<times> int reply" where
  "ensure_console_group kc cfg c =
     (let name = strip (rs_group_name cfg) in
      on_reply (kc_groups kc c) (\<lambda>c groups.
        case find_named name groups of
          Some g \<Rightarrow> (c, row_int ''id'' g)
        | None \<Rightarrow> on_reply (kc_create_group kc c name) (\<lambda>c _.
            on_reply (kc_groups kc c) (\<lambda>c groups.
              case find_named name groups of Some g \<Rightarrow> (c, row_int ''id'' g) | None \<Rightarrow> (c, Failed)))))"

text \<open>\<open>any(...)\<close> over the share rules: the conversions raise only where they are reached.\<close>

fun shared_with :: "int \<Rightarrow> jrow list \<Rightarrow> bool option" where
  "shared_with gid [] = Some False"
| "shared_with gid (r # rs) =
     (case int_or_zero (field r ''type'') of
        None \<Rightarrow> None
      | Some t \<Rightarrow>
          if t \<noteq> rule_type_group then shared_with gid rs
          else case int_or_zero (field r ''to_id'') of
                 None \<Rightarrow> None
               | Some g \<Rightarrow> if g = gid then Some True else shared_with gid rs)"

text \<open>The id of the named collection, 0 when it is not listed.\<close>

definition collection_id_of :: "string \<Rightarrow> jrow list \<Rightarrow> int reply" where
  "collection_id_of name cols = (case find_named name cols of None \<Rightarrow> Reply 0 | Some col \<Rightarrow> row_int ''id'' col)"

definition ensure_collection :: "'c console \<Rightarrow> string \<Rightarrow> int \<Rightarrow> 'c \<Rightarrow> 'c \<times> int reply" where
  "ensure_collection kc name owner c =
     on_reply (kc_collections kc c) (\<lambda>c cols.
     on_reply (c, collection_id_of name cols) (\<lambda>c cid.
       if cid \<noteq> 0 then (c, Reply cid)
       else on_reply (kc_create_collection kc c name owner) (\<lambda>c _.
            on_reply (kc_collections kc c) (\<lambda>c cols.
            on_reply (c, collection_id_of name cols) (\<lambda>c cid.
              if cid \<noteq> 0 then (c, Reply cid) else (c, Failed))))))"

definition ensure_shared_book :: "'c console \<Rightarrow> remote_settings \<Rightarrow> 'c \<Rightarrow> 'c \<times> (int \<times> int) reply" where
  "ensure_shared_book kc cfg c =
     on_reply (kc_user_id kc c) (\<lambda>c owner.
       if owner = 0 then (c, Failed)
       else on_reply (ensure_collection kc (strip (rs_book_name cfg)) owner c) (\<lambda>c cid.
            on_reply (ensure_console_group kc cfg c) (\<lambda>c gid.
            on_reply (kc_rules kc c cid) (\<lambda>c rules.
            on_reply (c, to_reply (shared_with gid rules)) (\<lambda>c shared.
              if shared then (c, Reply (cid, owner))
              else on_reply (kc_create_rule kc c cid owner gid) (\<lambda>c _. (c, Reply (cid, owner))))))))"

subsection \<open>Console accounts\<close>

record ra_account =
  ac_id :: uid
  ac_username :: string
  ac_console_user_id :: "int option"
  ac_display_name :: "string option"
  ac_email :: "string option"
  ac_is_admin :: bool
  ac_user_id :: "uid option"
  ac_active :: bool
  ac_book_shared :: bool
  ac_last_synced_at :: "instant option"
  ac_updated_at :: "instant option"

definition new_account :: "uid \<Rightarrow> string \<Rightarrow> ra_account" where
  "new_account i name = \<lparr>ac_id = i, ac_username = name, ac_console_user_id = None, ac_display_name = None, ac_email = None,
     ac_is_admin = False, ac_user_id = None, ac_active = True, ac_book_shared = False, ac_last_synced_at = None,
     ac_updated_at = None\<rparr>"

definition opt_text :: "string option \<Rightarrow> string" where
  "opt_text t = (case t of None \<Rightarrow> [] | Some s \<Rightarrow> s)"

text \<open>\<open>(x or "").strip() or None\<close>\<close>

definition clean_text :: "string option \<Rightarrow> string option" where
  "clean_text t = (let s = strip (opt_text t) in if s = [] then None else Some s)"

definition new_secret :: "random_source \<Rightarrow> string option \<Rightarrow> string" where
  "new_secret src pw = (let p = strip (opt_text pw) in if p \<noteq> [] then p else generate_password (draws src 0) 16)"

definition console_login :: "jrow \<Rightarrow> string" where
  "console_login u = lower (strip (str_or_empty (field u ''username'')))"

definition find_login :: "string \<Rightarrow> jrow list \<Rightarrow> jrow option" where
  "find_login name users = find (\<lambda>u. console_login u = lower name) (rev users)"

text \<open>The row of a user name, created at the end of the table when missing.\<close>

definition upsert_account :: "uid \<Rightarrow> string \<Rightarrow> (ra_account \<Rightarrow> ra_account) \<Rightarrow> ra_account list \<Rightarrow> ra_account list" where
  "upsert_account i name f accts =
     (case find_row ac_username name accts of
        Some row \<Rightarrow> put_row ac_username (f row) accts
      | None \<Rightarrow> accts @ [f (new_account i name)])"

record account_request =
  aq_username :: string
  aq_display_name :: "string option"
  aq_email :: "string option"
  aq_is_admin :: bool
  aq_password :: "string option"
  aq_user_id :: "uid option"

definition user_of :: "jrow list \<Rightarrow> string \<Rightarrow> (int \<times> string) reply" where
  "user_of users name =
     (case find_login name users of
        None \<Rightarrow> Failed
      | Some u \<Rightarrow> (case scalar_int (field u ''id'') of
          None \<Rightarrow> Failed
        | Some n \<Rightarrow> Reply (n, strip (if scalar_true (field u ''username'') then scalar_str (field u ''username'') else name))))"

definition list_or_create_user :: "'c console \<Rightarrow> string \<Rightarrow> int \<Rightarrow> account_request \<Rightarrow> 'c \<Rightarrow> 'c \<times> jrow list reply" where
  "list_or_create_user kc name gid rq c =
     on_reply (kc_users kc c) (\<lambda>c users.
       if find_login name users \<noteq> None then (c, Reply users)
       else on_reply (kc_create_user kc c \<lparr>uf_username = name, uf_group_id = gid, uf_is_admin = aq_is_admin rq,
                 uf_status = status_enabled, uf_email = strip (opt_text (aq_email rq)),
                 uf_nickname = (let n = strip (opt_text (aq_display_name rq)) in if n = [] then name else n)\<rparr>)
              (\<lambda>c _. kc_users kc c))"

definition provisioned :: "instant \<Rightarrow> account_request \<Rightarrow> int \<Rightarrow> ra_account \<Rightarrow> ra_account" where
  "provisioned now rq n row = row\<lparr>ac_console_user_id := Some n, ac_display_name := clean_text (aq_display_name rq),
     ac_email := clean_text (aq_email rq), ac_is_admin := aq_is_admin rq, ac_user_id := aq_user_id rq, ac_active := True,
     ac_book_shared := True, ac_last_synced_at := Some now, ac_updated_at := Some now\<rparr>"

text \<open>The table and the secret to show once; every call that raises leaves the table as it was.\<close>

definition provision_account ::
  "'c console \<Rightarrow> remote_settings \<Rightarrow> random_source \<Rightarrow> instant \<Rightarrow> account_request \<Rightarrow> ra_account list \<Rightarrow> 'c
   \<Rightarrow> 'c \<times> (ra_account list \<times> string) reply" where
  "provision_account kc cfg src now rq accts c =
     (let name = strip (aq_username rq); secret = new_secret src (aq_password rq) in
      on_reply (ensure_console_group kc cfg c) (\<lambda>c gid.
      on_reply (list_or_create_user kc name gid rq c) (\<lambda>c users.
      on_reply (c, user_of users name) (\<lambda>c (n, login).
      on_reply (kc_set_password kc c n secret) (\<lambda>c _.
      on_reply (ensure_shared_book kc cfg c) (\<lambda>c _.
        (c, Reply (upsert_account (new_id src 0) login (provisioned now rq n) accts, secret))))))))"

definition reset_account_password ::
  "'c console \<Rightarrow> random_source \<Rightarrow> instant \<Rightarrow> string option \<Rightarrow> ra_account \<Rightarrow> 'c \<Rightarrow> 'c \<times> (ra_account \<times> string) reply" where
  "reset_account_password kc src now pw acct c =
     (case ac_console_user_id acct of
        None \<Rightarrow> (c, Failed)
      | Some n \<Rightarrow> if n = 0 then (c, Failed)
          else let secret = new_secret src pw in
            on_reply (kc_set_password kc c n secret) (\<lambda>c _. (c, Reply (acct\<lparr>ac_updated_at := Some now\<rparr>, secret))))"

definition set_account_active ::
  "'c console \<Rightarrow> remote_settings \<Rightarrow> instant \<Rightarrow> bool \<Rightarrow> ra_account \<Rightarrow> 'c \<Rightarrow> 'c \<times> ra_account reply" where
  "set_account_active kc cfg now active acct c =
     (case ac_console_user_id acct of
        None \<Rightarrow> (c, Failed)
      | Some n \<Rightarrow> if n = 0 then (c, Failed)
          else on_reply (ensure_console_group kc cfg c) (\<lambda>c gid.
            on_reply (kc_update_user kc c n \<lparr>uf_username = ac_username acct, uf_group_id = gid,
                uf_is_admin = ac_is_admin acct, uf_status = (if active then status_enabled else status_disabled),
                uf_email = opt_text (ac_email acct),
                uf_nickname = (if opt_text (ac_display_name acct) = [] then ac_username acct
                               else opt_text (ac_display_name acct))\<rparr>)
              (\<lambda>c _. (c, Reply (acct\<lparr>ac_active := active, ac_updated_at := Some now\<rparr>)))))"

text \<open>One user of the console's list; \<open>None\<close>: a number field that does not parse raises, and the rows written so far are
  not followed.\<close>

definition sync_user :: "random_source \<Rightarrow> instant \<Rightarrow> nat \<times> jrow \<Rightarrow> ra_account list \<Rightarrow> ra_account list option" where
  "sync_user src now = (\<lambda>(k, u) accts.
     let name = strip (str_or_empty (field u ''username'')) in
     if name = [] then Some accts
     else case int_or_zero (field u ''id'') of
            None \<Rightarrow> None
          | Some n \<Rightarrow>
              (case scalar_int (if scalar_true (field u ''status'') then field u ''status'' else SInt status_enabled) of
                 None \<Rightarrow> None
               | Some st \<Rightarrow> Some (upsert_account (new_id src k) name (\<lambda>row.
                   row\<lparr>ac_console_user_id := (if n = 0 then None else Some n),
                       ac_is_admin := scalar_true (field u ''is_admin''),
                       ac_email := or_else (text_opt (field u ''email'')) (ac_email row),
                       ac_display_name := or_else (text_opt (field u ''nickname'')) (ac_display_name row),
                       ac_active := (st = status_enabled),
                       ac_last_synced_at := Some now, ac_updated_at := Some now\<rparr>) accts)))"

fun sync_users :: "random_source \<Rightarrow> instant \<Rightarrow> (nat \<times> jrow) list \<Rightarrow> ra_account list \<Rightarrow> ra_account list option" where
  "sync_users src now [] accts = Some accts"
| "sync_users src now (u # us) accts =
     (case sync_user src now u accts of None \<Rightarrow> None | Some accts' \<Rightarrow> sync_users src now us accts')"

definition sync_accounts ::
  "'c console \<Rightarrow> random_source \<Rightarrow> instant \<Rightarrow> ra_account list \<Rightarrow> 'c \<Rightarrow> 'c \<times> (ra_account list \<times> nat) reply" where
  "sync_accounts kc src now accts c =
     on_reply (kc_users kc c) (\<lambda>c users.
       (c, to_reply (map_option (\<lambda>t. (t, length (filter (\<lambda>u. strip (str_or_empty (field u ''username'')) \<noteq> []) users)))
              (sync_users src now (List.enumerate 0 users) accts))))"

subsection \<open>The shared address book\<close>

definition ab_payload :: "remote_settings \<Rightarrow> (nat \<Rightarrow> nat) \<Rightarrow> int \<Rightarrow> int \<Rightarrow> ra_device \<Rightarrow> book_payload" where
  "ab_payload cfg draw cid owner dev =
     (let tags = [cp (rd_source_kind dev)] @ (case truthy (rd_location dev) of None \<Rightarrow> [] | Some l \<Rightarrow> [l]) in
      \<lparr>bp_id = (case truthy (rd_rustdesk_id dev) of None \<Rightarrow> hostname_to_rid (rd_hostname dev) | Some r \<Rightarrow> r),
       bp_hostname = rd_hostname dev,
       bp_tags = (case hostname_type_tag (rd_hostname dev) of
                    None \<Rightarrow> tags | Some t \<Rightarrow> if cp t \<in> set tags then tags else tags @ [cp t]),
       bp_password = (if rd_password dev \<noteq> [] then rd_password dev else default_password cfg draw),
       bp_user_id = owner, bp_collection_id = cid\<rparr>)"

text \<open>\<open>{str(r.get("id") or ""): r for r in rows}\<close>\<close>

definition rows_by_id :: "jrow list \<Rightarrow> string \<Rightarrow> jrow option" where
  "rows_by_id rows k = find (\<lambda>r. str_or_empty (field r ''id'') = k) (rev rows)"

definition live_ids :: "jrow list \<Rightarrow> string set" where
  "live_ids rows = (\<lambda>r. str_or_empty (field r ''id'')) ` set rows"

type_synonym session = "ra_device list \<times> ra_device list"

definition commit :: "session \<Rightarrow> session" where
  "commit s = (snd s, snd s)"

definition change :: "ra_device \<Rightarrow> session \<Rightarrow> session" where
  "change dev s = (fst s, put_row rd_id dev (snd s))"

record push_counts =
  pc_created :: nat
  pc_updated :: nat
  pc_failed :: nat

definition no_pushes :: push_counts where
  "no_pushes = \<lparr>pc_created = 0, pc_updated = 0, pc_failed = 0\<rparr>"

text \<open>The row id of a target: the console's, or else the cached one; 0 for none. \<open>None\<close>: not a number.\<close>

definition known_row_id :: "(string \<Rightarrow> jrow option) \<Rightarrow> string \<Rightarrow> ra_device \<Rightarrow> int option" where
  "known_row_id existing pid dev =
     (case existing pid of
        Some r \<Rightarrow> if scalar_true (field r ''row_id'') then scalar_int (field r ''row_id'')
                  else Some (case rd_ab_row_id dev of None \<Rightarrow> 0 | Some n \<Rightarrow> n)
      | None \<Rightarrow> Some (case rd_ab_row_id dev of None \<Rightarrow> 0 | Some n \<Rightarrow> n))"

definition pushed_device :: "instant \<Rightarrow> int \<Rightarrow> ra_device \<Rightarrow> ra_device" where
  "pushed_device now n dev = dev\<lparr>rd_ab_row_id := (if n \<noteq> 0 then Some n else rd_ab_row_id dev), rd_in_book := True,
     rd_ab_pushed := True, rd_updated_at := Some now\<rparr>"

fun push_loop ::
  "'c console \<Rightarrow> remote_settings \<Rightarrow> random_source \<Rightarrow> instant \<Rightarrow> int \<Rightarrow> int \<Rightarrow> (string \<Rightarrow> jrow option)
   \<Rightarrow> (nat \<times> ra_device) list \<Rightarrow> push_counts \<Rightarrow> session \<Rightarrow> 'c \<Rightarrow> 'c \<times> session \<times> push_counts reply" where
  "push_loop kc cfg src now cid owner existing [] k s c = (c, s, Reply k)"
| "push_loop kc cfg src now cid owner existing ((i, dev) # devs) k s c =
     (let payload = ab_payload cfg (draws src i) cid owner dev in
      case known_row_id existing (bp_id payload) dev of
        None \<Rightarrow> (c, s, Failed)
      | Some n \<Rightarrow>
          (case (if n \<noteq> 0 then kc_update_row kc c n payload else kc_add_row kc c payload) of
             (c', Failed) \<Rightarrow>
               push_loop kc cfg src now cid owner existing devs (k\<lparr>pc_failed := pc_failed k + 1\<rparr>) s c'
           | (c', Reply _) \<Rightarrow>
               push_loop kc cfg src now cid owner existing devs
                 (if n \<noteq> 0 then k\<lparr>pc_updated := pc_updated k + 1\<rparr> else k\<lparr>pc_created := pc_created k + 1\<rparr>)
                 (change (pushed_device now n dev) s) c'))"

text \<open>Picking up the row ids of rows created just now.\<close>

fun adopt_row_ids :: "(string \<Rightarrow> jrow option) \<Rightarrow> uid list \<Rightarrow> session \<Rightarrow> session \<times> unit reply" where
  "adopt_row_ids fresh [] s = (s, Reply ())"
| "adopt_row_ids fresh (i # is) s =
     (case find_row rd_id i (snd s) of
        None \<Rightarrow> adopt_row_ids fresh is s
      | Some dev \<Rightarrow>
          (case fresh (case rd_rustdesk_id dev of None \<Rightarrow> [] | Some r \<Rightarrow> r) of
             None \<Rightarrow> adopt_row_ids fresh is s
           | Some r \<Rightarrow>
               if scalar_true (field r ''row_id'') \<and> (case rd_ab_row_id dev of None \<Rightarrow> True | Some n \<Rightarrow> n = 0)
               then (case scalar_int (field r ''row_id'') of
                       None \<Rightarrow> (s, Failed)
                     | Some n \<Rightarrow> adopt_row_ids fresh is (change (dev\<lparr>rd_ab_row_id := Some n\<rparr>) s))
               else adopt_row_ids fresh is s))"

definition push_targets :: "ra_device list \<Rightarrow> ra_device list" where
  "push_targets devs = filter (\<lambda>d. rd_managed d \<and> truthy (rd_rustdesk_id d) \<noteq> None) devs"

definition adopt_created ::
  "'c console \<Rightarrow> int \<Rightarrow> int \<Rightarrow> ra_device list \<Rightarrow> push_counts \<Rightarrow> session \<Rightarrow> 'c \<Rightarrow> 'c \<times> session \<times> push_counts reply" where
  "adopt_created kc cid owner targets k s c =
     (if pc_created k = 0 then (c, s, Reply k)
      else case kc_book kc c owner cid of
             (c', Failed) \<Rightarrow> (c', s, Failed)
           | (c', Reply rows) \<Rightarrow>
               (case adopt_row_ids (rows_by_id rows) (map rd_id targets) s of
                  (s', Failed) \<Rightarrow> (c', s', Failed)
                | (s', Reply _) \<Rightarrow> (c', commit s', Reply k)))"

definition push_shared_address_book ::
  "'c console \<Rightarrow> remote_settings \<Rightarrow> random_source \<Rightarrow> instant \<Rightarrow> ra_device list \<Rightarrow> session \<Rightarrow> 'c
   \<Rightarrow> 'c \<times> session \<times> push_counts reply" where
  "push_shared_address_book kc cfg src now devices s c =
     (let targets = push_targets devices in
      if targets = [] then (c, s, Reply no_pushes)
      else case ensure_shared_book kc cfg c of
             (c, Failed) \<Rightarrow> (c, s, Failed)
           | (c, Reply (cid, owner)) \<Rightarrow>
               (case kc_book kc c owner cid of
                  (c, Failed) \<Rightarrow> (c, s, Failed)
                | (c, Reply rows) \<Rightarrow>
                    (case push_loop kc cfg src now cid owner (rows_by_id rows) (List.enumerate 0 targets) no_pushes s c of
                       (c, s, Failed) \<Rightarrow> (c, s, Failed)
                     | (c, s, Reply k) \<Rightarrow> adopt_created kc cid owner targets k (commit s) c)))"

definition sync_address_book ::
  "'c console \<Rightarrow> remote_settings \<Rightarrow> random_source \<Rightarrow> instant \<Rightarrow> session \<Rightarrow> 'c \<Rightarrow> 'c \<times> session \<times> push_counts reply" where
  "sync_address_book kc cfg src now s c =
     push_shared_address_book kc cfg src now (filter rd_managed (snd s)) s c"

text \<open>A managed device whose id the console does not list: its flags and its dangling row id are cleared.\<close>

definition clear_missing :: "string set \<Rightarrow> ra_device \<Rightarrow> ra_device" where
  "clear_missing live dev =
     (if rd_managed dev \<and> (case truthy (rd_rustdesk_id dev) of None \<Rightarrow> False | Some r \<Rightarrow> r \<notin> live)
      then dev\<lparr>rd_ab_row_id := None, rd_in_book := False, rd_ab_pushed := False\<rparr> else dev)"

definition sync_stale_address_book ::
  "'c console \<Rightarrow> remote_settings \<Rightarrow> random_source \<Rightarrow> instant \<Rightarrow> session \<Rightarrow> 'c \<Rightarrow> 'c \<times> session \<times> push_counts reply" where
  "sync_stale_address_book kc cfg src now s c =
     (case ensure_shared_book kc cfg c of
        (c, Failed) \<Rightarrow> (c, s, Failed)
      | (c, Reply (cid, owner)) \<Rightarrow>
          (case kc_book kc c owner cid of
             (c, Failed) \<Rightarrow> (c, s, Failed)
           | (c, Reply rows) \<Rightarrow>
               let tab = map (clear_missing (live_ids rows)) (snd s);
                   devices = filter (\<lambda>d. rd_managed d \<and> (\<not> rd_in_book d \<or> \<not> rd_ab_pushed d)) tab
               in if devices = [] then (c, (fst s, tab), Reply no_pushes)
                  else push_shared_address_book kc cfg src now devices (fst s, tab) c))"

record book_status =
  bs_collection_id :: int
  bs_missing :: nat
  bs_owner :: int
  bs_entries :: nat
  bs_accounts :: nat

definition address_book_status ::
  "'c console \<Rightarrow> remote_settings \<Rightarrow> ra_account list \<Rightarrow> ra_device list \<Rightarrow> 'c \<Rightarrow> 'c \<times> book_status reply" where
  "address_book_status kc cfg accts tab c =
     on_reply (ensure_shared_book kc cfg c) (\<lambda>c (cid, owner).
     on_reply (kc_book kc c owner cid) (\<lambda>c rows.
       (c, Reply \<lparr>bs_collection_id = cid,
          bs_missing = length (filter (\<lambda>d. rd_managed d \<and> rd_in_book d \<and>
             (case truthy (rd_rustdesk_id d) of None \<Rightarrow> False | Some r \<Rightarrow> r \<notin> live_ids rows)) tab),
          bs_owner = owner, bs_entries = length rows, bs_accounts = length (filter ac_active accts)\<rparr>)))"


subsection \<open>One row per login\<close>

lemma upsert_account_distinct:
  assumes "distinct (map ac_username accts)" "\<And>r. ac_username (f r) = ac_username r"
  shows "distinct (map ac_username (upsert_account i name f accts))"
proof (cases "find_row ac_username name accts")
  case None
  then have "name \<notin> ac_username ` set accts" by (simp add: find_row_None)
  with None assms show ?thesis by (simp add: upsert_account_def new_account_def)
next
  case (Some row)
  with assms(1) show ?thesis by (simp add: upsert_account_def)
qed

lemma sync_user_distinct:
  "distinct (map ac_username accts) \<Longrightarrow> sync_user src now u accts = Some accts' \<Longrightarrow> distinct (map ac_username accts')"
  by (cases u) (auto simp: sync_user_def Let_def split: if_splits option.splits intro!: upsert_account_distinct)

lemma sync_users_distinct:
  "distinct (map ac_username accts) \<Longrightarrow> sync_users src now us accts = Some accts' \<Longrightarrow> distinct (map ac_username accts')"
proof (induction us arbitrary: accts)
  case (Cons u us)
  then show ?case by (auto split: option.splits dest: sync_user_distinct)
qed simp

lemma provision_account_Reply:
  assumes "provision_account kc cfg src now rq accts c = (c', Reply (accts', secret))"
  obtains n login where "accts' = upsert_account (new_id src 0) login (provisioned now rq n) accts"
    "secret = new_secret src (aq_password rq)"
  using assms by (auto simp: provision_account_def Let_def on_reply_Reply)

lemma provisioned_username [simp]: "ac_username (provisioned now rq n r) = ac_username r"
  by (simp add: provisioned_def)

text \<open>However the console answers, provisioning an engineer and mirroring the console's users keep one row per login.\<close>

theorem account_logins_stay_unique:
  assumes "distinct (map ac_username accts)"
  shows "(case snd (provision_account kc cfg src now rq accts c) of
      Failed \<Rightarrow> True | Reply r \<Rightarrow> distinct (map ac_username (fst r)))
    \<and> (case snd (sync_accounts kc src now accts c) of
      Failed \<Rightarrow> True | Reply r \<Rightarrow> distinct (map ac_username (fst r)))"
proof
  show "case snd (provision_account kc cfg src now rq accts c) of
      Failed \<Rightarrow> True | Reply r \<Rightarrow> distinct (map ac_username (fst r))"
  proof (cases "provision_account kc cfg src now rq accts c")
    case (Pair c' r)
    then show ?thesis
      by (cases r) (auto elim!: provision_account_Reply intro!: upsert_account_distinct assms)
  qed
  show "case snd (sync_accounts kc src now accts c) of
      Failed \<Rightarrow> True | Reply r \<Rightarrow> distinct (map ac_username (fst r))"
    using sync_users_distinct [OF assms]
    by (auto simp: sync_accounts_def on_reply_def to_reply_def split: prod.splits reply.splits option.splits)
qed


subsection \<open>What the code relies on in the console\<close>

definition book_json :: "int \<times> book_payload \<Rightarrow> jrow" where
  "book_json r = [(''row_id'', Scalar (SInt (fst r))), (''id'', Scalar (SStr (bp_id (snd r))))]"

text \<open>The group and the collection exist and are shared; these calls leave the books alone.\<close>

definition console_setup_ok ::
  "'c console \<Rightarrow> remote_settings \<Rightarrow> ('c \<Rightarrow> int \<Rightarrow> int \<Rightarrow> (int \<times> book_payload) list) \<Rightarrow> int \<Rightarrow> int \<Rightarrow> bool" where
  "console_setup_ok kc cfg view cid owner \<longleftrightarrow> cid \<noteq> 0 \<and> owner \<noteq> 0
   \<and> (\<forall>c. \<exists>c'. kc_user_id kc c = (c', Reply owner) \<and> view c' = view c)
   \<and> (\<forall>c. \<exists>c' cols. kc_collections kc c = (c', Reply cols) \<and> view c' = view c
        \<and> collection_id_of (strip (rs_book_name cfg)) cols = Reply cid)
   \<and> (\<exists>gid. (\<forall>c. \<exists>c' gs g. kc_groups kc c = (c', Reply gs) \<and> view c' = view c
          \<and> find_named (strip (rs_group_name cfg)) gs = Some g \<and> row_int ''id'' g = Reply gid)
      \<and> (\<forall>c. \<exists>c' rules. kc_rules kc c cid = (c', Reply rules) \<and> view c' = view c \<and> shared_with gid rules = Some True))"

text \<open>The rows of a book: listed as they are, a new row gets a new id, an update replaces the row of its id.\<close>

definition console_rows_ok :: "'c console \<Rightarrow> ('c \<Rightarrow> int \<Rightarrow> int \<Rightarrow> (int \<times> book_payload) list) \<Rightarrow> bool" where
  "console_rows_ok kc view \<longleftrightarrow>
     (\<forall>c u k. \<exists>c'. kc_book kc c u k = (c', Reply (map book_json (view c u k))) \<and> view c' = view c)
   \<and> (\<forall>c p. \<exists>c' n. kc_add_row kc c p = (c', Reply ()) \<and> n \<noteq> 0
        \<and> n \<notin> fst ` set (view c (bp_user_id p) (bp_collection_id p))
        \<and> view c' (bp_user_id p) (bp_collection_id p) = view c (bp_user_id p) (bp_collection_id p) @ [(n, p)])
   \<and> (\<forall>c n p. n \<in> fst ` set (view c (bp_user_id p) (bp_collection_id p)) \<longrightarrow>
        (\<exists>c'. kc_update_row kc c n p = (c', Reply ()) \<and> view c' (bp_user_id p) (bp_collection_id p)
           = map (\<lambda>r. if fst r = n then (n, p) else r) (view c (bp_user_id p) (bp_collection_id p))))"

lemma ensure_shared_book_ready:
  assumes "console_setup_ok kc cfg view cid owner"
  obtains c' where "ensure_shared_book kc cfg c = (c', Reply (cid, owner))" "view c' = view c"
proof -
  from assms obtain gid where ne: "cid \<noteq> 0" "owner \<noteq> 0"
    and u: "\<And>c. \<exists>c'. kc_user_id kc c = (c', Reply owner) \<and> view c' = view c"
    and l: "\<And>c. \<exists>c' cols. kc_collections kc c = (c', Reply cols) \<and> view c' = view c
        \<and> collection_id_of (strip (rs_book_name cfg)) cols = Reply cid"
    and g: "\<And>c. \<exists>c' gs g. kc_groups kc c = (c', Reply gs) \<and> view c' = view c
          \<and> find_named (strip (rs_group_name cfg)) gs = Some g \<and> row_int ''id'' g = Reply gid"
    and r: "\<And>c. \<exists>c' rules. kc_rules kc c cid = (c', Reply rules) \<and> view c' = view c \<and> shared_with gid rules = Some True"
    unfolding console_setup_ok_def by metis
  obtain c1 where c1: "kc_user_id kc c = (c1, Reply owner)" "view c1 = view c" using u by blast
  obtain c2 cols where c2: "kc_collections kc c1 = (c2, Reply cols)" "view c2 = view c1"
    "collection_id_of (strip (rs_book_name cfg)) cols = Reply cid" using l by blast
  obtain c3 gs gr where c3: "kc_groups kc c2 = (c3, Reply gs)" "view c3 = view c2"
    "find_named (strip (rs_group_name cfg)) gs = Some gr" "row_int ''id'' gr = Reply gid" using g by blast
  obtain c4 rules where c4: "kc_rules kc c3 cid = (c4, Reply rules)" "view c4 = view c3" "shared_with gid rules = Some True"
    using r by blast
  have "ensure_shared_book kc cfg c = (c4, Reply (cid, owner))"
    using ne c1(1) c2(1,3) c3(1,3,4) c4(1,3)
    by (simp add: ensure_shared_book_def ensure_collection_def ensure_console_group_def Let_def)
  then show thesis using that c1(2) c2(2) c3(2) c4(2) by simp
qed

lemma field_book_json [simp]:
  "field (book_json r) ''id'' = SStr (bp_id (snd r))" "field (book_json r) ''row_id'' = SInt (fst r)"
  by (simp_all add: book_json_def field_def)

lemma str_or_empty_SStr [simp]: "str_or_empty (SStr w) = w"
  by (simp add: str_or_empty_def scalar_true_def scalar_str_def)

lemma live_ids_book [simp]: "live_ids (map book_json B) = bp_id ` snd ` set B"
  by (auto simp: live_ids_def image_image)

lemma find_of_map: "find P (map f xs) = map_option f (find (P \<circ> f) xs)"
  by (induction xs) simp_all

lemma rows_by_id_book: "rows_by_id (map book_json B) k = map_option book_json (find (\<lambda>r. bp_id (snd r) = k) (rev B))"
  unfolding rows_by_id_def by (simp add: rev_map find_of_map comp_def del: find.simps)

subsection \<open>A push that reaches the console\<close>

definition book_wf :: "(int \<times> book_payload) list \<Rightarrow> bool" where
  "book_wf B \<longleftrightarrow> distinct (map fst B) \<and> 0 \<notin> fst ` set B"

text \<open>Every row that was listed is still there under its id.\<close>

definition book_keeps :: "(int \<times> book_payload) list \<Rightarrow> (int \<times> book_payload) list \<Rightarrow> bool" where
  "book_keeps B0 B \<longleftrightarrow> (\<forall>(n, p) \<in> set B0. \<exists>q. (n, q) \<in> set B \<and> bp_id q = bp_id p)"

definition pushable :: "(int \<times> book_payload) list \<Rightarrow> ra_device \<Rightarrow> bool" where
  "pushable B0 d \<longleftrightarrow> (\<exists>r. truthy (rd_rustdesk_id d) = Some r \<and> (r \<in> bp_id ` snd ` set B0 \<or> rd_ab_row_id d = None))"

lemma bp_id_ab_payload: "truthy (rd_rustdesk_id d) = Some r \<Longrightarrow> bp_id (ab_payload cfg dr cid owner d) = r"
  by (simp add: ab_payload_def Let_def)

lemma ab_payload_sel [simp]:
  "bp_user_id (ab_payload cfg dr cid owner d) = owner" "bp_collection_id (ab_payload cfg dr cid owner d) = cid"
  by (simp_all add: ab_payload_def Let_def)

lemma known_row_id_cases:
  assumes "pushable B0 d" "truthy (rd_rustdesk_id d) = Some r" "book_wf B0"
  obtains (Row) n p where "(n, p) \<in> set B0" "bp_id p = r" "n \<noteq> 0"
      "known_row_id (rows_by_id (map book_json B0)) r d = Some n"
  | (Fresh) "r \<notin> bp_id ` snd ` set B0" "known_row_id (rows_by_id (map book_json B0)) r d = Some 0"
proof (cases "find (\<lambda>x. bp_id (snd x) = r) (rev B0)")
  case None
  then have "\<forall>x \<in> set B0. bp_id (snd x) \<noteq> r" unfolding find_None_iff set_rev by blast
  then have "r \<notin> bp_id ` snd ` set B0" by (metis (no_types, lifting) imageE)
  moreover from this assms(1,2) have "rd_ab_row_id d = None" by (auto simp: pushable_def)
  ultimately show thesis using Fresh None by (simp add: known_row_id_def rows_by_id_book)
next
  case (Some x)
  then have x: "x \<in> set B0" "bp_id (snd x) = r" by (auto simp: find_Some_iff) (metis nth_mem length_rev set_rev)
  with assms(3) have "fst x \<noteq> 0" by (force simp: book_wf_def)
  with x Some show thesis
    by (intro Row [of "fst x" "snd x"]) (simp_all add: known_row_id_def rows_by_id_book scalar_true_def scalar_int_def)
qed


lemma book_listE:
  assumes "console_rows_ok kc view"
  obtains c' where "kc_book kc c u k = (c', Reply (map book_json (view c u k)))" "view c' = view c"
  using assms unfolding console_rows_ok_def by blast

lemma book_updateE:
  assumes "console_rows_ok kc view" "n \<in> fst ` set (view c owner cid)" "bp_user_id p = owner" "bp_collection_id p = cid"
  obtains c' where "kc_update_row kc c n p = (c', Reply ())"
    "view c' owner cid = map (\<lambda>r. if fst r = n then (n, p) else r) (view c owner cid)"
  using assms(1) [unfolded console_rows_ok_def, THEN conjunct2, THEN conjunct2, THEN spec [of _ c], THEN spec [of _ n], THEN spec [of _ p]]
    assms(2-4) by blast

lemma book_addE:
  assumes "console_rows_ok kc view" "bp_user_id p = owner" "bp_collection_id p = cid"
  obtains c' n where "kc_add_row kc c p = (c', Reply ())" "n \<noteq> 0" "n \<notin> fst ` set (view c owner cid)"
    "view c' owner cid = view c owner cid @ [(n, p)]"
  using assms(1) [unfolded console_rows_ok_def, THEN conjunct2, THEN conjunct1, THEN spec [of _ c], THEN spec [of _ p]] assms(2,3) by blast

lemma update_rows_facts:
  fixes B :: "('a \<times> 'b) list" and n :: 'a and p q :: 'b
  assumes "distinct (map fst B)" "(n, q) \<in> set B"
  defines "B' \<equiv> map (\<lambda>r. if fst r = n then (n, p) else r) B"
  shows "map fst B' = map fst B" "(n, p) \<in> set B'" "\<And>m x. (m, x) \<in> set B \<Longrightarrow> m \<noteq> n \<Longrightarrow> (m, x) \<in> set B'"
proof -
  show "map fst B' = map fst B" by (auto simp: B'_def)
  have "(if fst (n, q) = n then (n, p) else (n, q)) \<in> set B'" unfolding B'_def set_map using assms(2) by (rule imageI)
  then show "(n, p) \<in> set B'" by simp
  show "(m, x) \<in> set B'" if "(m, x) \<in> set B" "m \<noteq> n" for m x
  proof -
    have "(if fst (m, x) = n then (n, p) else (m, x)) \<in> set B'" unfolding B'_def set_map using that(1) by (rule imageI)
    with that(2) show ?thesis by simp
  qed
qed

text \<open>One call of the loop for one device: it succeeds, the book stays well-formed, the device's row carries its payload
  and the rows of other ids stay.\<close>

lemma push_call:
  assumes "console_rows_ok kc view" "truthy (rd_rustdesk_id dev) = Some r"
    and "book_wf B0" "book_wf (view c owner cid)" "book_keeps B0 (view c owner cid)" "pushable B0 dev"
  obtains n c' where "known_row_id (rows_by_id (map book_json B0)) r dev = Some n"
    "(if n \<noteq> 0 then kc_update_row kc c n (ab_payload cfg dr cid owner dev) else kc_add_row kc c (ab_payload cfg dr cid owner dev))
       = (c', Reply ())"
    "book_wf (view c' owner cid)" "book_keeps B0 (view c' owner cid)"
    "\<exists>m. (m, ab_payload cfg dr cid owner dev) \<in> set (view c' owner cid)"
    "\<And>m x. (m, x) \<in> set (view c owner cid) \<Longrightarrow> bp_id x \<noteq> r \<Longrightarrow> (m, x) \<in> set (view c' owner cid)"
proof -
  let ?p = "ab_payload cfg dr cid owner dev"
  let ?B = "view c owner cid"
  have pid: "bp_id ?p = r" by (rule bp_id_ab_payload [OF assms(2)])
  from assms(6,2,3) show thesis
  proof (cases rule: known_row_id_cases)
    case (Row n p)
    from Row(1) assms(5) obtain q where q: "(n, q) \<in> set ?B" "bp_id q = r"
      using Row(2) by (auto simp: book_keeps_def)
    then have "n \<in> fst ` set ?B" by force
    then obtain c' where c': "kc_update_row kc c n ?p = (c', Reply ())"
      "view c' owner cid = map (\<lambda>r. if fst r = n then (n, ?p) else r) ?B"
      by (rule book_updateE [OF assms(1), where p = ?p]) simp_all
    note d = assms(4) [unfolded book_wf_def, THEN conjunct1]
    note f = update_rows_facts [OF d q(1), where p = ?p, folded c'(2)]
    have same: "m \<noteq> n" if "(m, x) \<in> set ?B" "bp_id x \<noteq> r" for m x
    proof
      assume "m = n"
      with that(1) have "(n, x) \<in> set ?B" by simp
      from eq_key_imp_eq_value [OF d q(1) this] that(2) q(2) show False by simp
    qed
    have wf: "book_wf (view c' owner cid)"
      using assms(4) f(1) unfolding book_wf_def by (metis set_map)
    have keep: "book_keeps B0 (view c' owner cid)" unfolding book_keeps_def
    proof (rule ballI, clarify)
      fix m x assume mx: "(m, x) \<in> set B0"
      then obtain y where y: "(m, y) \<in> set ?B" "bp_id y = bp_id x" using assms(5) by (auto simp: book_keeps_def)
      show "\<exists>q. (m, q) \<in> set (view c' owner cid) \<and> bp_id q = bp_id x"
      proof (cases "m = n")
        case True
        with y(1) have "(n, y) \<in> set ?B" by simp
        from eq_key_imp_eq_value [OF d q(1) this] y(2) q(2) have "bp_id x = r" by simp
        then show ?thesis using True f(2) pid by (intro exI [of _ ?p]) simp
      next
        case False
        show ?thesis using y(2) f(3) [OF y(1) False] by (intro exI [of _ y]) simp
      qed
    qed
    have "\<exists>m. (m, ?p) \<in> set (view c' owner cid)" using f(2) by (rule exI)
    moreover have "(m, x) \<in> set (view c' owner cid)" if "(m, x) \<in> set ?B" "bp_id x \<noteq> r" for m x
      by (rule f(3) [OF that(1) same [OF that]])
    moreover have "(if n \<noteq> 0 then kc_update_row kc c n ?p else kc_add_row kc c ?p) = (c', Reply ())" using Row(3) c'(1) by simp
    ultimately show thesis by (intro that [OF Row(4) _ wf keep])
  next
    case Fresh
    obtain c' n where c': "kc_add_row kc c ?p = (c', Reply ())" "n \<noteq> 0" "n \<notin> fst ` set ?B"
      "view c' owner cid = ?B @ [(n, ?p)]"
      by (rule book_addE [OF assms(1), where p = ?p and c = c and owner = owner and cid = cid]) simp_all
    have "book_wf (view c' owner cid)" "book_keeps B0 (view c' owner cid)"
      using assms(4,5) c'(2,3) by (auto simp: book_wf_def book_keeps_def c'(4))
    moreover have "(if (0 :: int) \<noteq> 0 then kc_update_row kc c 0 ?p else kc_add_row kc c ?p) = (c', Reply ())" using c'(1) by simp
    moreover have "\<exists>m. (m, ?p) \<in> set (view c' owner cid)" using c'(4) by auto
    moreover have "(m, x) \<in> set (view c' owner cid)" if "(m, x) \<in> set ?B" for m x using c'(4) that by simp
    ultimately show thesis by (intro that [OF Fresh(2), of c'])
  qed
qed


lemma push_loop_ok:
  assumes "console_rows_ok kc view" "book_wf B0"
    and "book_wf (view c owner cid)" "book_keeps B0 (view c owner cid)" "list_all (\<lambda>x. pushable B0 (snd x)) devs"
    and "distinct (map (\<lambda>x. truthy (rd_rustdesk_id (snd x))) devs)"
  shows "\<exists>c' s' k' ns.
    push_loop kc cfg src now cid owner (rows_by_id (map book_json B0)) devs k s c = (c', s', Reply k')
    \<and> pc_failed k' = pc_failed k \<and> book_wf (view c' owner cid)
    \<and> list_all (\<lambda>x. \<exists>m. (m, ab_payload cfg (draws src (fst x)) cid owner (snd x)) \<in> set (view c' owner cid)) devs
    \<and> (\<forall>m x. (m, x) \<in> set (view c owner cid) \<longrightarrow> Some (bp_id x) \<notin> (\<lambda>y. truthy (rd_rustdesk_id (snd y))) ` set devs
         \<longrightarrow> (m, x) \<in> set (view c' owner cid))
    \<and> fst s' = fst s \<and> length ns = length devs
    \<and> snd s' = put_rows rd_id (map2 (\<lambda>n x. pushed_device now n (snd x)) ns devs) (snd s)"
  using assms(3-6)
proof (induction devs arbitrary: k s c)
  case Nil
  then show ?case by simp
next
  case (Cons x devs)
  obtain i dev where x: "x = (i, dev)" by (cases x)
  have pb: "pushable B0 dev" using Cons.prems(3) x by simp
  then obtain r where r: "truthy (rd_rustdesk_id dev) = Some r" by (auto simp: pushable_def)
  let ?p = "ab_payload cfg (draws src i) cid owner dev"
  have pid: "bp_id ?p = r" by (rule bp_id_ab_payload [OF r])
  obtain n c1 where call: "known_row_id (rows_by_id (map book_json B0)) r dev = Some n"
    "(if n \<noteq> 0 then kc_update_row kc c n ?p else kc_add_row kc c ?p) = (c1, Reply ())"
    and c1: "book_wf (view c1 owner cid)" "book_keeps B0 (view c1 owner cid)" "\<exists>m. (m, ?p) \<in> set (view c1 owner cid)"
    "\<And>m x. (m, x) \<in> set (view c owner cid) \<Longrightarrow> bp_id x \<noteq> r \<Longrightarrow> (m, x) \<in> set (view c1 owner cid)"
    by (rule push_call [OF assms(1) r assms(2) Cons.prems(1,2) pb, where cfg = cfg and dr = "draws src i"]) (rule that)
  let ?k = "if n \<noteq> 0 then k\<lparr>pc_updated := pc_updated k + 1\<rparr> else k\<lparr>pc_created := pc_created k + 1\<rparr>"
  let ?s = "change (pushed_device now n dev) s"
  have rest: "list_all (\<lambda>x. pushable B0 (snd x)) devs" "distinct (map (\<lambda>x. truthy (rd_rustdesk_id (snd x))) devs)"
    using Cons.prems(3,4) by simp_all
  have new: "Some r \<notin> (\<lambda>y. truthy (rd_rustdesk_id (snd y))) ` set devs"
    using Cons.prems(4) x r by auto
  obtain c' s' k' ns where IH: "push_loop kc cfg src now cid owner (rows_by_id (map book_json B0)) devs ?k ?s c1 = (c', s', Reply k')"
    "pc_failed k' = pc_failed ?k" "book_wf (view c' owner cid)"
    "list_all (\<lambda>x. \<exists>m. (m, ab_payload cfg (draws src (fst x)) cid owner (snd x)) \<in> set (view c' owner cid)) devs"
    "\<forall>m x. (m, x) \<in> set (view c1 owner cid) \<longrightarrow> Some (bp_id x) \<notin> (\<lambda>y. truthy (rd_rustdesk_id (snd y))) ` set devs
         \<longrightarrow> (m, x) \<in> set (view c' owner cid)"
    "fst s' = fst ?s" "length ns = length devs"
    "snd s' = put_rows rd_id (map2 (\<lambda>n x. pushed_device now n (snd x)) ns devs) (snd ?s)"
    using Cons.IH [OF c1(1,2) rest, of ?k ?s] by blast
  have run: "push_loop kc cfg src now cid owner (rows_by_id (map book_json B0)) (x # devs) k s c = (c', s', Reply k')"
    using call IH(1) by (simp add: x pid Let_def)
  have mine: "\<exists>m. (m, ?p) \<in> set (view c' owner cid)"
    using c1(3) IH(5) new pid by metis
  have others: "(m, y) \<in> set (view c' owner cid)"
    if "(m, y) \<in> set (view c owner cid)" "Some (bp_id y) \<notin> (\<lambda>y. truthy (rd_rustdesk_id (snd y))) ` set (x # devs)" for m y
    using that c1(4) [OF that(1)] IH(5) x r by simp
  show ?case
  proof (intro exI conjI)
    show "push_loop kc cfg src now cid owner (rows_by_id (map book_json B0)) (x # devs) k s c = (c', s', Reply k')" by (rule run)
    show "pc_failed k' = pc_failed k" using IH(2) by simp
    show "book_wf (view c' owner cid)" by (rule IH(3))
    show "list_all (\<lambda>x. \<exists>m. (m, ab_payload cfg (draws src (fst x)) cid owner (snd x)) \<in> set (view c' owner cid)) (x # devs)"
      using IH(4) mine x by simp
    show "\<forall>m y. (m, y) \<in> set (view c owner cid) \<longrightarrow> Some (bp_id y) \<notin> (\<lambda>y. truthy (rd_rustdesk_id (snd y))) ` set (x # devs)
         \<longrightarrow> (m, y) \<in> set (view c' owner cid)" using others by blast
    show "fst s' = fst s" using IH(6) by (simp add: change_def)
    show "length (n # ns) = length (x # devs)" using IH(7) by simp
    show "snd s' = put_rows rd_id (map2 (\<lambda>n x. pushed_device now n (snd x)) (n # ns) (x # devs)) (snd s)"
      using IH(8) x by (simp add: change_def)
  qed
qed

lemma put_rows_mem: "q \<in> set (put_rows rid rows tab) \<Longrightarrow> q \<in> set rows \<or> (q \<in> set tab \<and> rid q \<notin> rid ` set rows)"
proof (induction rows arbitrary: tab)
  case (Cons row rows)
  then show ?case using mem_put_row [of q rid row tab] by auto
qed simp

text \<open>Picking up row ids touches nothing else.\<close>

definition same_but_row :: "ra_device \<Rightarrow> ra_device \<Rightarrow> bool" where
  "same_but_row d d' \<longleftrightarrow> d' = d\<lparr>rd_ab_row_id := rd_ab_row_id d'\<rparr>"

lemma same_but_rowD:
  "same_but_row d d' \<Longrightarrow> rd_managed d' = rd_managed d \<and> rd_in_book d' = rd_in_book d \<and> rd_ab_pushed d' = rd_ab_pushed d
     \<and> rd_password d' = rd_password d \<and> rd_rustdesk_id d' = rd_rustdesk_id d \<and> rd_id d' = rd_id d"
  unfolding same_but_row_def by (elim ssubst) simp

lemma same_but_row_upd: "same_but_row x d \<Longrightarrow> same_but_row x (d\<lparr>rd_ab_row_id := n\<rparr>)"
  unfolding same_but_row_def by (cases x, cases d) simp

lemma adopt_row_ids_ok:
  assumes "distinct (map rd_id (snd s))" "list_all2 same_but_row tab (snd s)"
  shows "\<exists>s'. adopt_row_ids (rows_by_id (map book_json B)) is s = (s', Reply ()) \<and> list_all2 same_but_row tab (snd s')"
  using assms
proof (induction "is" arbitrary: s)
  case Nil
  then show ?case by simp
next
  case (Cons i "is")
  show ?case
  proof (cases "find_row rd_id i (snd s)")
    case None
    with Cons show ?thesis by simp
  next
    case (Some dev)
    note dev = find_row_Some [OF Some]
    show ?thesis
    proof (cases "rows_by_id (map book_json B) (case rd_rustdesk_id dev of None \<Rightarrow> [] | Some r \<Rightarrow> r)")
      case None
      with Some Cons show ?thesis by simp
    next
      case row: (Some r)
      then obtain b where b: "r = book_json b" by (auto simp: rows_by_id_book)
      let ?s = "change (dev\<lparr>rd_ab_row_id := Some (fst b)\<rparr>) s"
      have "distinct (map rd_id (snd ?s))" using Cons.prems(1) by (simp add: change_def)
      moreover have "list_all2 same_but_row tab (snd ?s)"
        using list_all2_put_row [OF Cons.prems(2,1) conjunct1 [OF dev], of "dev\<lparr>rd_ab_row_id := Some (fst b)\<rparr>"] same_but_row_upd
        by (simp add: change_def)
      ultimately obtain s' where s': "adopt_row_ids (rows_by_id (map book_json B)) is ?s = (s', Reply ())"
        "list_all2 same_but_row tab (snd s')"
        using Cons.IH by blast
      show ?thesis
      proof (cases "scalar_true (field r ''row_id'') \<and> (case rd_ab_row_id dev of None \<Rightarrow> True | Some n \<Rightarrow> n = 0)")
        case True
        with Some row s' show ?thesis by (simp add: b scalar_int_def)
      next
        case False
        then have "adopt_row_ids (rows_by_id (map book_json B)) (i # is) s = adopt_row_ids (rows_by_id (map book_json B)) is s"
          using Some row by (simp only: adopt_row_ids.simps option.case if_False)
        with Cons show ?thesis by simp
      qed
    qed
  qed
qed


subsection \<open>After a stale sync the book holds every managed device\<close>

definition in_fleet :: "ra_device \<Rightarrow> bool" where
  "in_fleet d \<longleftrightarrow> rd_managed d \<and> truthy (rd_rustdesk_id d) \<noteq> None"

definition in_book_with_password :: "(int \<times> book_payload) list \<Rightarrow> ra_device \<Rightarrow> bool" where
  "in_book_with_password B d \<longleftrightarrow>
     (\<exists>x \<in> set B. truthy (rd_rustdesk_id d) = Some (bp_id (snd x)) \<and> bp_password (snd x) = rd_password d)"

text \<open>The flags say present and pushed, and they are right.\<close>

definition flags_true :: "(int \<times> book_payload) list \<Rightarrow> ra_device \<Rightarrow> bool" where
  "flags_true B d \<longleftrightarrow> rd_in_book d \<and> rd_ab_pushed d \<and> in_book_with_password B d"

definition fleet_ok :: "ra_device list \<Rightarrow> bool" where
  "fleet_ok tab \<longleftrightarrow> distinct (map rd_id tab) \<and> distinct (map (\<lambda>d. truthy (rd_rustdesk_id d)) (filter in_fleet tab))
     \<and> list_all (\<lambda>d. rd_password d \<noteq> []) (filter in_fleet tab)"

text \<open>A flagged device that the console lists has its password there; what the console lost is not assumed known.\<close>

definition flags_agree :: "(int \<times> book_payload) list \<Rightarrow> ra_device list \<Rightarrow> bool" where
  "flags_agree B tab \<longleftrightarrow> list_all (\<lambda>d. if rd_in_book d \<and> rd_ab_pushed d \<and> the (truthy (rd_rustdesk_id d)) \<in> bp_id ` snd ` set B
     then in_book_with_password B d else True) (filter in_fleet tab)"

lemma same_but_row_flags: "same_but_row d d' \<Longrightarrow> in_fleet d' = in_fleet d \<and> flags_true B d' = flags_true B d"
  using same_but_rowD [of d d'] by (simp add: in_fleet_def flags_true_def in_book_with_password_def)

lemma same_but_row_ids: "list_all2 same_but_row a b \<Longrightarrow> map rd_id b = map rd_id a"
  by (induction rule: list_all2_induct) (auto dest: same_but_rowD)

lemma clear_missing_sel [simp]:
  "rd_id (clear_missing live d) = rd_id d" "rd_managed (clear_missing live d) = rd_managed d"
  "rd_rustdesk_id (clear_missing live d) = rd_rustdesk_id d" "rd_password (clear_missing live d) = rd_password d"
  "in_fleet (clear_missing live d) = in_fleet d"
  by (simp_all add: clear_missing_def in_fleet_def)

lemma clear_missing_missing:
  "in_fleet d \<Longrightarrow> the (truthy (rd_rustdesk_id d)) \<notin> live \<Longrightarrow>
     rd_ab_row_id (clear_missing live d) = None \<and> \<not> rd_in_book (clear_missing live d)"
  by (auto simp: clear_missing_def in_fleet_def)

lemma clear_missing_live: "\<not> in_fleet d \<or> the (truthy (rd_rustdesk_id d)) \<in> live \<Longrightarrow> clear_missing live d = d"
  by (auto simp: clear_missing_def in_fleet_def split: option.splits)

definition needs_push :: "ra_device \<Rightarrow> bool" where
  "needs_push d \<longleftrightarrow> rd_managed d \<and> (\<not> rd_in_book d \<or> \<not> rd_ab_pushed d)"

lemma filter_fleet_map: "filter in_fleet (map (clear_missing live) tab) = map (clear_missing live) (filter in_fleet tab)"
  by (simp add: filter_map comp_def)

lemma fleet_ok_cleared: "fleet_ok tab \<Longrightarrow> fleet_ok (map (clear_missing live) tab)"
  by (simp add: fleet_ok_def filter_fleet_map comp_def list_all_iff)

lemma push_targets_needs: "push_targets (filter needs_push tab) = filter needs_push (filter in_fleet tab)"
  by (auto simp: push_targets_def in_fleet_def needs_push_def intro: filter_cong)

lemma map_snd_enum: "map (\<lambda>x. f (snd x)) (List.enumerate n xs) = map f xs"
  by (induction xs arbitrary: n) simp_all

text \<open>Pushing the targets of a table whose other fleet rows are already right.\<close>

lemma push_makes_flags_true:
  assumes su: "console_setup_ok kc cfg view cid owner" and rows: "console_rows_ok kc view"
    and wf: "book_wf (view c owner cid)" and ok: "fleet_ok tab"
    and pb: "\<And>d. d \<in> set tab \<Longrightarrow> in_fleet d \<Longrightarrow> pushable (view c owner cid) d"
    and rest: "\<And>d. d \<in> set tab \<Longrightarrow> in_fleet d \<Longrightarrow> \<not> needs_push d \<Longrightarrow> flags_true (view c owner cid) d"
    and ne: "filter needs_push (filter in_fleet tab) \<noteq> []"
  shows "\<exists>c' s' k. push_shared_address_book kc cfg src now (filter needs_push tab) (tab0, tab) c = (c', s', Reply k)
     \<and> pc_failed k = 0 \<and> fst s' = snd s' \<and> map rd_id (snd s') = map rd_id tab
     \<and> list_all (flags_true (view c' owner cid)) (filter in_fleet (snd s'))"
proof -
  let ?T = "filter needs_push (filter in_fleet tab)"
  let ?E = "List.enumerate 0 ?T"
  obtain c1 where c1: "ensure_shared_book kc cfg c = (c1, Reply (cid, owner))" "view c1 = view c"
    by (rule ensure_shared_book_ready [OF su])
  obtain c2 where c2: "kc_book kc c1 owner cid = (c2, Reply (map book_json (view c1 owner cid)))" "view c2 = view c1"
    by (rule book_listE [OF rows])
  let ?B = "view c owner cid"
  have v2: "view c2 = view c" using c1(2) c2(2) by simp
  have keys: "distinct (map (\<lambda>x. truthy (rd_rustdesk_id (snd x))) ?E)"
  proof -
    have "map (\<lambda>x. truthy (rd_rustdesk_id (snd x))) ?E = map (\<lambda>d. truthy (rd_rustdesk_id d)) ?T" by (rule map_snd_enum)
    moreover have "distinct (map (\<lambda>d. truthy (rd_rustdesk_id d)) ?T)"
      using ok unfolding fleet_ok_def by (intro distinct_map_filter [of _ "filter in_fleet tab"]) blast
    ultimately show ?thesis by (simp only:)
  qed
  have E: "snd ` set ?E = set ?T" by (metis list.set_map map_snd_enumerate)
  have "list_all (pushable ?B) ?T" using pb by (simp add: list_all_iff)
  then have lp: "list_all (\<lambda>x. pushable ?B (snd x)) ?E" by (simp add: list_all_enumerate)
  have keeps: "book_keeps ?B ?B" by (auto simp: book_keeps_def)
  obtain c3 s3 k ns where loop:
    "push_loop kc cfg src now cid owner (rows_by_id (map book_json ?B)) ?E no_pushes (tab0, tab) c2 = (c3, s3, Reply k)"
    "pc_failed k = 0" "book_wf (view c3 owner cid)"
    "list_all (\<lambda>x. \<exists>m. (m, ab_payload cfg (draws src (fst x)) cid owner (snd x)) \<in> set (view c3 owner cid)) ?E"
    "\<forall>m x. (m, x) \<in> set ?B \<longrightarrow> Some (bp_id x) \<notin> (\<lambda>y. truthy (rd_rustdesk_id (snd y))) ` set ?E
         \<longrightarrow> (m, x) \<in> set (view c3 owner cid)"
    "length ns = length ?E"
    "snd s3 = put_rows rd_id (map2 (\<lambda>n x. pushed_device now n (snd x)) ns ?E) tab"
    using push_loop_ok [OF rows wf, of c2 owner cid ?E cfg src now no_pushes "(tab0, tab)"] wf keeps lp keys
    by (auto simp: v2 no_pushes_def)
  have ids3: "map rd_id (snd s3) = map rd_id tab" using loop(7) by simp
  define R where "R = map2 (\<lambda>n x. pushed_device now n (snd x)) ns ?E"
  have R: "snd s3 = put_rows rd_id R tab" unfolding R_def by (rule loop(7))
  have true3: "flags_true (view c3 owner cid) q" if q: "q \<in> set (snd s3)" "in_fleet q" for q
  proof -
    from put_rows_mem [of q rd_id R tab] q(1) R consider
      "q \<in> set R" | "q \<in> set tab" "rd_id q \<notin> rd_id ` set R" by auto
    then show ?thesis
    proof cases
      case 1
      then obtain n x where "(n, x) \<in> set (zip ns ?E)" and nq: "q = pushed_device now n (snd x)" unfolding R_def by auto
      then have "x \<in> set ?E" by (blast dest: set_zip_rightD)
      note nx = this nq
      have sx: "snd x \<in> set ?T" using nx(1) E by (metis image_eqI)
      then obtain r where r: "truthy (rd_rustdesk_id (snd x)) = Some r" by (auto simp: in_fleet_def)
      have pw: "rd_password (snd x) \<noteq> []" using sx ok by (auto simp: fleet_ok_def list_all_iff)
      from loop(4) nx(1) obtain m where m: "(m, ab_payload cfg (draws src (fst x)) cid owner (snd x)) \<in> set (view c3 owner cid)"
        by (auto simp: list_all_iff)
      have "bp_password (ab_payload cfg (draws src (fst x)) cid owner (snd x)) = rd_password (snd x)"
        using pw by (simp add: ab_payload_def Let_def)
      moreover have "bp_id (ab_payload cfg (draws src (fst x)) cid owner (snd x)) = r" by (rule bp_id_ab_payload [OF r])
      ultimately have "in_book_with_password (view c3 owner cid) (snd x)"
        unfolding in_book_with_password_def using m r by (intro bexI [of _ "(m, ab_payload cfg (draws src (fst x)) cid owner (snd x))"]) simp_all
      then show ?thesis unfolding nx(2) by (simp add: flags_true_def in_book_with_password_def pushed_device_def)
    next
      case 2
      have nq: "\<not> needs_push q"
      proof
        assume "needs_push q"
        with 2 q(2) have "q \<in> set ?T" by simp
        then obtain x where x: "x \<in> set ?E" "snd x = q" using E by (metis imageE)
        then obtain j where j: "j < length ?E" "?E ! j = x" by (metis in_set_conv_nth)
        with loop(6) have "pushed_device now (ns ! j) q \<in> set R"
          unfolding R_def using x(2) by (auto simp: set_zip intro!: image_eqI [of _ _ "(ns ! j, x)"] exI [of _ j])
        then have "rd_id (pushed_device now (ns ! j) q) \<in> rd_id ` set R" by (rule imageI)
        with 2(2) show False by (simp add: pushed_device_def)
      qed
      note fq = rest [OF 2(1) q(2) nq]
      then obtain x where x: "x \<in> set ?B" "truthy (rd_rustdesk_id q) = Some (bp_id (snd x))" "bp_password (snd x) = rd_password q"
        by (auto simp: flags_true_def in_book_with_password_def)
      have "Some (bp_id (snd x)) \<notin> (\<lambda>y. truthy (rd_rustdesk_id (snd y))) ` set ?E"
      proof
        assume "Some (bp_id (snd x)) \<in> (\<lambda>y. truthy (rd_rustdesk_id (snd y))) ` set ?E"
        then obtain y where y: "y \<in> set ?E" "truthy (rd_rustdesk_id (snd y)) = truthy (rd_rustdesk_id q)" using x(2) by auto
        have "snd y \<in> set ?T" using y(1) E by (metis image_eqI)
        then have "snd y = q"
          using distinct_map_eq [of "\<lambda>d. truthy (rd_rustdesk_id d)" "filter in_fleet tab" "snd y" q] ok y(2) 2(1) q(2)
          by (simp add: fleet_ok_def)
        with \<open>snd y \<in> set ?T\<close> nq show False by simp
      qed
      then have "x \<in> set (view c3 owner cid)" using loop(5) x(1) by (metis prod.collapse)
      with fq x show ?thesis by (auto simp: flags_true_def in_book_with_password_def)
    qed
  qed
  have run: "push_shared_address_book kc cfg src now (filter needs_push tab) (tab0, tab) c
      = adopt_created kc cid owner ?T k (commit s3) c3"
    unfolding push_shared_address_book_def push_targets_needs Let_def using ne c1 c2 v2 loop(1) by simp
  show ?thesis
  proof (cases "pc_created k = 0")
    case True
    show ?thesis
      by (rule exI [of _ c3], rule exI [of _ "commit s3"], rule exI [of _ k])
        (use True run loop(2) ids3 true3 in \<open>simp add: adopt_created_def commit_def list_all_iff\<close>)
  next
    case False
    obtain c4 where c4: "kc_book kc c3 owner cid = (c4, Reply (map book_json (view c3 owner cid)))" "view c4 = view c3"
      by (rule book_listE [OF rows])
    have "list_all2 same_but_row (snd s3) (snd (commit s3))"
      by (simp add: commit_def list_all2_same same_but_row_def)
    moreover have "distinct (map rd_id (snd (commit s3)))" using ids3 ok by (simp add: commit_def fleet_ok_def)
    ultimately obtain s4 where s4: "adopt_row_ids (rows_by_id (map book_json (view c3 owner cid))) (map rd_id ?T) (commit s3) = (s4, Reply ())"
      "list_all2 same_but_row (snd s3) (snd s4)" using adopt_row_ids_ok by blast
    have ids4: "map rd_id (snd s4) = map rd_id tab"
      using same_but_row_ids [OF s4(2)] ids3 by simp
    have true4: "flags_true (view c4 owner cid) q" if "q \<in> set (snd s4)" "in_fleet q" for q
    proof -
      from that(1) s4(2) obtain p where "p \<in> set (snd s3)" "same_but_row p q" by (metis list_all2_conv_all_nth in_set_conv_nth)
      then show ?thesis using true3 [of p] same_but_row_flags that(2) c4(2) by simp
    qed
    show ?thesis
      by (rule exI [of _ c4], rule exI [of _ "commit s4"], rule exI [of _ k])
        (use False run loop(2) ids4 true4 c4(1) s4(1) in \<open>simp add: adopt_created_def commit_def [of s4] list_all_iff\<close>)
  qed
qed


text \<open>The stale sync repairs the shared book: with a console that is set up and keeps its rows, whatever rows were lost
  there, the run succeeds, is committed, and afterwards every managed device with an id is flagged as present, and the book
  really has a row of its id with its current password.\<close>

theorem stale_sync_fills_the_book:
  assumes "console_setup_ok kc cfg view cid owner" "console_rows_ok kc view" "book_wf (view c owner cid)"
    and "fleet_ok tab" "flags_agree (view c owner cid) tab"
  shows "\<exists>c' s' k. sync_stale_address_book kc cfg src now (tab, tab) c = (c', s', Reply k) \<and> pc_failed k = 0
     \<and> fst s' = snd s' \<and> map rd_id (snd s') = map rd_id tab
     \<and> list_all (flags_true (view c' owner cid)) (filter in_fleet (snd s'))"
proof -
  let ?B = "view c owner cid"
  let ?live = "bp_id ` snd ` set ?B"
  let ?tab = "map (clear_missing ?live) tab"
  obtain c1 where c1: "ensure_shared_book kc cfg c = (c1, Reply (cid, owner))" "view c1 = view c"
    by (rule ensure_shared_book_ready [OF assms(1)])
  obtain c2 where c2: "kc_book kc c1 owner cid = (c2, Reply (map book_json (view c1 owner cid)))" "view c2 = view c1"
    by (rule book_listE [OF assms(2)])
  have v2: "view c2 = view c" using c1(2) c2(2) by simp
  have run: "sync_stale_address_book kc cfg src now (tab, tab) c =
     (if filter needs_push ?tab = [] then (c2, (tab, ?tab), Reply no_pushes)
      else push_shared_address_book kc cfg src now (filter needs_push ?tab) (tab, ?tab) c2)"
    unfolding sync_stale_address_book_def using c1 c2(1) by (simp add: Let_def needs_push_def [abs_def])
  have pb: "pushable ?B d" if "d \<in> set ?tab" "in_fleet d" for d
  proof -
    from that obtain e where e: "d = clear_missing ?live e" "in_fleet e" by auto
    then obtain r where "truthy (rd_rustdesk_id d) = Some r" by (auto simp: in_fleet_def)
    with e clear_missing_missing [OF e(2), of ?live] show ?thesis by (cases "r \<in> ?live") (auto simp: pushable_def)
  qed
  have rest: "flags_true ?B d" if d: "d \<in> set ?tab" "in_fleet d" "\<not> needs_push d" for d
  proof -
    from d obtain e where e: "e \<in> set tab" "d = clear_missing ?live e" "in_fleet e" by auto
    have f: "rd_in_book d" "rd_ab_pushed d" using d(2,3) by (auto simp: needs_push_def in_fleet_def)
    with e have l: "the (truthy (rd_rustdesk_id e)) \<in> ?live" using clear_missing_missing by blast
    then have "d = e" using e clear_missing_live by blast
    with assms(5) e f l show ?thesis by (simp add: flags_agree_def list_all_iff flags_true_def)
  qed
  show ?thesis
  proof (cases "filter needs_push (filter in_fleet ?tab) = []")
    case True
    have same: "?tab = tab"
    proof (rule map_idI)
      fix d assume d: "d \<in> set tab"
      show "clear_missing ?live d = d"
      proof (rule ccontr)
        assume "clear_missing ?live d \<noteq> d"
        then have "in_fleet d" "the (truthy (rd_rustdesk_id d)) \<notin> ?live" using clear_missing_live by blast+
        then have "in_fleet (clear_missing ?live d)" "needs_push (clear_missing ?live d)"
          using clear_missing_missing [of d ?live] by (auto simp: needs_push_def in_fleet_def)
        then have "clear_missing ?live d \<in> set (filter needs_push (filter in_fleet ?tab))" using d by simp
        with True show False by simp
      qed
    qed
    have "flags_true ?B d" if "d \<in> set (filter in_fleet tab)" for d
    proof -
      from that have d: "d \<in> set ?tab" "in_fleet d" unfolding same by simp_all
      then have "\<not> needs_push d" using True unfolding filter_empty_conv by simp
      with d show ?thesis by (rule rest)
    qed
    then have all: "list_all (flags_true (view c2 owner cid)) (filter in_fleet tab)" by (simp add: list_all_iff v2)
    have pt: "push_targets (filter needs_push tab) = []" using True unfolding same push_targets_needs by simp
    have "sync_stale_address_book kc cfg src now (tab, tab) c = (c2, (tab, tab), Reply no_pushes)"
      unfolding run same by (simp add: push_shared_address_book_def pt)
    with all show ?thesis by (auto simp: no_pushes_def)
  next
    case False
    then have ne: "filter needs_push ?tab \<noteq> []" by (auto simp: filter_empty_conv)
    have ids: "map rd_id ?tab = map rd_id tab" by simp
    have "\<exists>c' s' k. push_shared_address_book kc cfg src now (filter needs_push ?tab) (tab, ?tab) c2 = (c', s', Reply k)
      \<and> pc_failed k = 0 \<and> fst s' = snd s' \<and> map rd_id (snd s') = map rd_id ?tab
      \<and> list_all (flags_true (view c' owner cid)) (filter in_fleet (snd s'))"
      by (rule push_makes_flags_true [OF assms(1,2)])
        (use assms(3) fleet_ok_cleared [OF assms(4)] pb rest False in \<open>simp_all only: v2 not_False_eq_True\<close>)
    then show ?thesis unfolding run ids if_not_P [OF ne] .
  qed
qed

subsection \<open>A concrete console for the witnesses\<close>

text \<open>One book (collection 7 of user 3), a list of rows.\<close>

type_synonym demo_console = "(int \<times> book_payload) list"

definition next_row_id :: "demo_console \<Rightarrow> int" where
  "next_row_id B = foldr (\<lambda>r m. max (fst r) m) B 0 + 1"

definition demo_console :: "demo_console console" where
  "demo_console = \<lparr>
     kc_peers = (\<lambda>c. (c, Reply [])),
     kc_users = (\<lambda>c. (c, Reply [[(''id'', Scalar (SInt 3)), (''username'', Scalar (SStr ''klimovma''))]])),
     kc_user_id = (\<lambda>c. (c, Reply 3)),
     kc_groups = (\<lambda>c. (c, Reply [[(''id'', Scalar (SInt 5)), (''name'', Scalar (SStr ''eng''))]])),
     kc_create_group = (\<lambda>c _. (c, Reply ())),
     kc_collections = (\<lambda>c. (c, Reply [[(''id'', Scalar (SInt 7)), (''name'', Scalar (SStr ''fleet''))]])),
     kc_create_collection = (\<lambda>c _ _. (c, Reply ())),
     kc_rules = (\<lambda>c _. (c, Reply [[(''type'', Scalar (SInt 2)), (''to_id'', Scalar (SInt 5))]])),
     kc_create_rule = (\<lambda>c _ _ _. (c, Reply ())),
     kc_book = (\<lambda>c u k. (c, Reply (map book_json c))),
     kc_add_row = (\<lambda>c p. (c @ [(next_row_id c, p)], Reply ())),
     kc_update_row = (\<lambda>c n p. if n \<in> fst ` set c then (map (\<lambda>r. if fst r = n then (n, p) else r) c, Reply ()) else (c, Failed)),
     kc_delete_row = (\<lambda>c n _. (filter (\<lambda>r. fst r \<noteq> n) c, Reply ())),
     kc_create_user = (\<lambda>c _. (c, Reply ())),
     kc_set_password = (\<lambda>c _ _. (c, Reply ())),
     kc_update_user = (\<lambda>c _ _. (c, Reply ())) \<rparr>"

lemma next_row_id_fresh: "fst r < next_row_id B" if "r \<in> set B" for r :: "int \<times> book_payload"
proof -
  have "fst r \<le> foldr (\<lambda>r m. max (fst r) m) B 0" using that by (induction B) auto
  then show ?thesis by (simp add: next_row_id_def)
qed

lemma next_row_id_pos: "0 < next_row_id B"
proof -
  have "0 \<le> foldr (\<lambda>r m. max (fst r) m) B (0 :: int)" by (induction B) auto
  then show ?thesis by (simp add: next_row_id_def)
qed

lemma demo_console_rows_ok: "console_rows_ok demo_console (\<lambda>c _ _. c)"
proof -
  have "next_row_id c \<notin> fst ` set c" "next_row_id c \<noteq> 0" for c
    using next_row_id_fresh [of _ c] next_row_id_pos [of c] by force+
  then show ?thesis by (simp add: console_rows_ok_def demo_console_def)
qed

lemma demo_console_setup_ok: "console_setup_ok demo_console demo_settings (\<lambda>c _ _. c) 7 3"
proof -
  have s: "strip ''eng'' = ''eng''" "strip ''fleet'' = ''fleet''"
    by (simp_all add: strip_def lstrip_def rstrip_def is_space_def)
  show ?thesis unfolding console_setup_ok_def
    by (simp add: demo_console_def demo_settings_def s collection_id_of_def find_named_def field_def row_int_def scalar_int_def
        int_or_zero_def scalar_true_def rule_type_group_def)
qed

definition demo_device :: ra_device where
  "demo_device = new_device ''d1'' 0 ''PC-1'' ''PC_1'' ''computer'' None ''pw''"

theorem stale_sync_fills_the_book_witness:
  "\<exists>c' s' k. sync_stale_address_book demo_console demo_settings demo_source 9
       ([demo_device\<lparr>rd_in_book := True, rd_ab_pushed := True, rd_ab_row_id := Some 4\<rparr>],
        [demo_device\<lparr>rd_in_book := True, rd_ab_pushed := True, rd_ab_row_id := Some 4\<rparr>]) [] = (c', s', Reply k)
     \<and> pc_failed k = 0 \<and> fst s' = snd s' \<and> map rd_id (snd s') = [''d1'']
     \<and> list_all (flags_true c') (filter in_fleet (snd s'))"
proof -
  have "fleet_ok [demo_device\<lparr>rd_in_book := True, rd_ab_pushed := True, rd_ab_row_id := Some 4\<rparr>]"
    "flags_agree [] [demo_device\<lparr>rd_in_book := True, rd_ab_pushed := True, rd_ab_row_id := Some 4\<rparr>]"
    by (simp_all add: fleet_ok_def flags_agree_def demo_device_def new_device_def)
  moreover have "map rd_id [demo_device\<lparr>rd_in_book := True, rd_ab_pushed := True, rd_ab_row_id := Some 4\<rparr>] = [''d1'']"
    by (simp add: demo_device_def new_device_def)
  moreover have "book_wf []" by (simp add: book_wf_def)
  ultimately show ?thesis
    using stale_sync_fills_the_book [OF demo_console_setup_ok demo_console_rows_ok, of "[]"
        "[demo_device\<lparr>rd_in_book := True, rd_ab_pushed := True, rd_ab_row_id := Some 4\<rparr>]" demo_source 9]
    by (simp only:)
qed

theorem account_logins_stay_unique_witness:
  "case snd (sync_accounts demo_console demo_source 9 [new_account ''a1'' ''klimovma''] []) of
      Failed \<Rightarrow> False | Reply r \<Rightarrow> distinct (map ac_username (fst r)) \<and> length (fst r) = 1"
proof -
  have d: "distinct (map ac_username [new_account ''a1'' ''klimovma''])" by simp
  have "snd (sync_accounts demo_console demo_source 9 [new_account ''a1'' ''klimovma''] []) =
     Reply ([new_account ''a1'' ''klimovma'' \<lparr>ac_console_user_id := Some 3, ac_last_synced_at := Some 9, ac_updated_at := Some 9\<rparr>], 1)"
    by code_simp
  with account_logins_stay_unique [OF d, where kc = demo_console and src = demo_source and now = 9 and c = "[]"] show ?thesis
    by (auto split: reply.splits)
qed

end
