(* ===== verification/Remote_Push.thy ===== *)
theory Remote_Push
  imports Remote_Book
begin

section \<open>Remote access: rollout and network pushes\<close>

text \<open>
  \<open>app/domains/remote_access/service/deployment.py\<close>, \<open>deploy_script.py\<close> (the options), \<open>winrm_exec.py\<close> and
  \<open>push_jobs.py\<close>: the config an endpoint pulls, the check that the right machine asks for it, the report it
  sends back, and the queue of pushes over WinRM. The remote shell's answer is an argument. A worker's run
  of a job is two commits with the remote call between them, so \<open>start_push_job\<close> and \<open>finish_push_job\<close>
  are separate steps that other requests interleave with; \<open>execute_push_job\<close> composes them.
\<close>

subsection \<open>The options of a client\<close>

definition base_options :: "(string \<times> string) list" where
  "base_options = [(''enable-check-update'', ''N''), (''enable-lan-discovery'', ''N''), (''direct-server'', ''N''),
     (''allow-logon-screen-password'', ''Y''), (''remove-preset-password-warning'', ''Y''), (''hide-help-cards'', ''Y'')]"

definition hidden_options :: "(string \<times> string) list" where
  "hidden_options = [(''hide-tray'', ''Y''), (''hide-stop-service'', ''Y''), (''allow-hide-cm'', ''Y''),
     (''hide-security-settings'', ''Y''), (''hide-network-settings'', ''Y''), (''hide-server-settings'', ''Y'')]"

definition unattended_options :: "(string \<times> string) list" where
  "unattended_options = [(''approve-mode'', ''password''), (''verification-method'', ''use-permanent-password'')]"

definition lock_options :: "(string \<times> string) list" where
  "lock_options = [(''disable-change-permanent-password'', ''Y''), (''disable-change-id'', ''Y'')]"

text \<open>\<open>d.update(e)\<close>\<close>

definition dict_update :: "('k \<times> 'v) list \<Rightarrow> ('k \<times> 'v) list \<Rightarrow> ('k \<times> 'v) list" where
  "dict_update d e = foldl (\<lambda>d (k, v). AList.update k v d) d e"

definition client_options :: "bool \<Rightarrow> bool \<Rightarrow> (string \<times> string) list" where
  "client_options hidden unattended =
     (let o1 = (if hidden then dict_update base_options hidden_options else base_options)
      in if unattended then dict_update o1 unattended_options else o1)"

subsection \<open>What an endpoint is told\<close>

record package =
  pk_hostname :: string
  pk_rustdesk_id :: string
  pk_id_server :: string
  pk_relay_server :: string
  pk_api_server :: string
  pk_key :: string
  pk_password :: string
  pk_installer_version :: string
  pk_hidden :: bool
  pk_block_outgoing :: bool
  pk_unattended :: bool

record endpoint_config = package +
  ec_installer_filename :: string
  ec_installer_sha256 :: string
  ec_options :: "(string \<times> string) list"
  ec_lock_options :: "(string \<times> string) list"

definition desired_rid :: "ra_device \<Rightarrow> string" where
  "desired_rid dev = (case truthy (rd_rustdesk_id dev) of Some r \<Rightarrow> r | None \<Rightarrow> hostname_to_rid (rd_hostname dev))"

definition package_config :: "remote_settings \<Rightarrow> (nat \<Rightarrow> nat) \<Rightarrow> ra_device \<Rightarrow> package" where
  "package_config cfg draw dev = \<lparr>pk_hostname = rd_hostname dev, pk_rustdesk_id = desired_rid dev,
     pk_id_server = rs_id_server cfg, pk_relay_server = rs_relay_server cfg, pk_api_server = rs_api_url cfg,
     pk_key = rs_key cfg, pk_password = (if rd_password dev \<noteq> [] then rd_password dev else default_password cfg draw),
     pk_installer_version = rs_installer_version cfg, pk_hidden = rd_hidden dev,
     pk_block_outgoing = rd_block_outgoing dev, pk_unattended = rd_unattended dev\<rparr>"

definition deployment_config :: "remote_settings \<Rightarrow> (nat \<Rightarrow> nat) \<Rightarrow> ra_device \<Rightarrow> endpoint_config" where
  "deployment_config cfg draw dev = package.extend (package_config cfg draw dev)
     \<lparr>ec_installer_filename = rs_installer_filename cfg, ec_installer_sha256 = rs_installer_sha256 cfg,
      ec_options = client_options (rd_hidden dev) (rd_unattended dev),
      ec_lock_options = (if rd_unattended dev then lock_options else [])\<rparr>"

text \<open>\<open>resolve\<close> is the name service: \<open>None\<close> for any failure.\<close>

definition verify_deploy_source :: "(string \<Rightarrow> string option) \<Rightarrow> ra_device \<Rightarrow> string option \<Rightarrow> bool" where
  "verify_deploy_source resolve dev client_ip =
     (case truthy client_ip of
        None \<Rightarrow> False
      | Some ip \<Rightarrow>
          (case truthy (rd_last_ip dev) of Some l \<Rightarrow> ip = l | None \<Rightarrow> False)
          \<or> (case truthy (resolve (rd_hostname dev)) of Some r \<Rightarrow> r = ip | None \<Rightarrow> False))"

definition mark_deploy_requested :: "instant \<Rightarrow> ra_device \<Rightarrow> ra_device" where
  "mark_deploy_requested now dev = dev\<lparr>rd_state := ''pending'', rd_detail := None, rd_requested_at := Some now,
     rd_updated_at := Some now\<rparr>"

record deploy_report =
  dr_hostname :: string
  dr_state :: string
  dr_rustdesk_id :: "string option"
  dr_version :: "string option"
  dr_detail :: "ustr option"
  dr_os_edition :: "string option"
  dr_os_caption :: "ustr option"

definition reported_device :: "instant \<Rightarrow> deploy_report \<Rightarrow> ra_device \<Rightarrow> ra_device" where
  "reported_device now rp dev =
     (let d1 = dev\<lparr>rd_state := (if dr_state rp \<in> set deploy_states then dr_state rp else ''failed''),
                   rd_detail := map_option (take 512) (truthy (dr_detail rp)), rd_reported_at := Some now\<rparr>;
          d2 = (case truthy (dr_rustdesk_id rp) of None \<Rightarrow> d1 | Some r \<Rightarrow> d1\<lparr>rd_rustdesk_id := Some r\<rparr>);
          d3 = (case truthy (dr_version rp) of None \<Rightarrow> d2 | Some v \<Rightarrow> d2\<lparr>rd_version := Some v\<rparr>);
          d4 = (case truthy (dr_os_edition rp) of None \<Rightarrow> d3
                | Some e \<Rightarrow> d3\<lparr>rd_os_edition := Some e, rd_applocker := classify_applocker_support (Some e)\<rparr>);
          d5 = (case truthy (dr_os_caption rp) of None \<Rightarrow> d4 | Some t \<Rightarrow> d4\<lparr>rd_os_caption := Some t\<rparr>)
      in d5\<lparr>rd_updated_at := Some now\<rparr>)"

text \<open>A report from an unknown host is ignored (\<open>None\<close>).\<close>

definition apply_deploy_report ::
  "instant \<Rightarrow> deploy_report \<Rightarrow> ra_device list \<Rightarrow> ra_device option \<times> ra_device list" where
  "apply_deploy_report now rp tab =
     (case find_device (dr_hostname rp) tab of
        None \<Rightarrow> (None, tab)
      | Some dev \<Rightarrow> let d = reported_device now rp dev in (Some d, put_row rd_id d tab))"

subsection \<open>One PowerShell command over WinRM\<close>

record winrm_result =
  wr_ok :: bool
  wr_exit_code :: "int option"
  wr_stdout :: ustr
  wr_stderr :: ustr
  wr_detail :: ustr

text \<open>What the session of pywinrm does: it raises one of the connection errors (with a text) or the script ends with a
  status and its decoded output.\<close>

datatype ps_answer = Ps_error ustr | Ps_done int ustr ustr

datatype winrm_call = Not_configured | Crashed | Answered winrm_result

definition u_line_end :: "nat \<Rightarrow> bool" where
  "u_line_end c \<longleftrightarrow> c \<in> {10, 11, 12, 13, 28, 29, 30, 133, 8232, 8233}"

text \<open>\<open>str(exc).splitlines()[0][:300]\<close>: an IndexError for the empty text.\<close>

definition short_error :: "ustr \<Rightarrow> ustr option" where
  "short_error t = (if t = [] then None else Some (take 300 (takeWhile (\<lambda>c. \<not> u_line_end c) t)))"

text \<open>The Russian text for: WinRM unreachable.\<close>

definition winrm_unreachable :: ustr where
  "winrm_unreachable = [87, 105, 110, 82, 77, 32, 1085, 1077, 1076, 1086, 1089, 1090, 1091, 1087, 1077, 1085, 58, 32]"

definition last_n :: "nat \<Rightarrow> 'a list \<Rightarrow> 'a list" where
  "last_n n xs = drop (length xs - n) xs"

definition run_powershell :: "remote_settings \<Rightarrow> ps_answer \<Rightarrow> winrm_call" where
  "run_powershell cfg ans =
     (if rs_winrm_username cfg = [] \<or> rs_winrm_password cfg = [] then Not_configured
      else case ans of
             Ps_error t \<Rightarrow>
               (case short_error t of
                  None \<Rightarrow> Crashed
                | Some s \<Rightarrow> Answered \<lparr>wr_ok = False, wr_exit_code = None, wr_stdout = [], wr_stderr = t,
                                     wr_detail = winrm_unreachable @ s\<rparr>)
           | Ps_done status out err \<Rightarrow>
               (let stdout = u_strip out; stderr = u_strip err; good = (status = 0);
                    tail = last_n 800 (if good then stdout else if stderr \<noteq> [] then stderr else stdout)
                in Answered \<lparr>wr_ok = good, wr_exit_code = Some status, wr_stdout = stdout, wr_stderr = stderr,
                             wr_detail = (if tail \<noteq> [] then tail else cp (''exit code '' @ show_int status))\<rparr>))"

subsection \<open>Jobs\<close>

datatype push_detail =
    No_longer_managed
  | Cancelled_by_operator
  | Worker_silent
  | Winrm_not_configured
  | Winrm_text ustr

record push_job =
  pj_id :: uid
  pj_device_id :: "uid option"
  pj_hostname :: string
  pj_profile :: string
  pj_dry_run :: bool
  pj_state :: string
  pj_detail :: "push_detail option"
  pj_requested_by :: "string option"
  pj_created_at :: instant
  pj_started_at :: "instant option"
  pj_finished_at :: "instant option"

definition push_job_active :: "string list" where "push_job_active = [''queued'', ''running'']"
definition push_job_final :: "string list" where "push_job_final = [''succeeded'', ''failed'', ''skipped'', ''cancelled'']"

text \<open>10 minutes.\<close>

definition running_job_timeout :: int where "running_job_timeout = 600"

datatype skip_reason = Not_managed | Windows_xp | Already_queued

definition new_job :: "uid \<Rightarrow> instant \<Rightarrow> string option \<Rightarrow> bool \<Rightarrow> string option \<Rightarrow> ra_device \<Rightarrow> push_job" where
  "new_job i now profile dry by dev = \<lparr>pj_id = i, pj_device_id = Some (rd_id dev), pj_hostname = rd_hostname dev,
     pj_profile = (case truthy profile of Some p \<Rightarrow> p | None \<Rightarrow> rd_profile dev), pj_dry_run = dry, pj_state = ''queued'',
     pj_detail = None, pj_requested_by = by, pj_created_at = now, pj_started_at = None, pj_finished_at = None\<rparr>"

definition busy_devices :: "push_job list \<Rightarrow> uid set" where
  "busy_devices jobs = {i. \<exists>j \<in> set jobs. pj_state j \<in> set push_job_active \<and> pj_device_id j = Some i}"

lemma busy_devices_code [code]:
  "busy_devices jobs = set (List.map_filter pj_device_id (filter (\<lambda>j. pj_state j \<in> set push_job_active) jobs))"
  by (force simp: busy_devices_def map_filter_def)

definition skip_of :: "push_job list \<Rightarrow> ra_device \<Rightarrow> skip_reason option" where
  "skip_of jobs dev =
     (if \<not> rd_managed dev then Some Not_managed
      else if cp ''xp'' \<in> set (u_split (u_lower (case rd_os_caption dev of None \<Rightarrow> [] | Some t \<Rightarrow> t))) then Some Windows_xp
      else if rd_id dev \<in> busy_devices jobs then Some Already_queued
      else None)"

text \<open>\<open>None\<close>: the ValueError of an unknown profile. Otherwise all jobs, the queued ones and the skipped hostnames.\<close>

definition enqueue_push_jobs ::
  "random_source \<Rightarrow> instant \<Rightarrow> string option \<Rightarrow> bool \<Rightarrow> string option \<Rightarrow> ra_device list \<Rightarrow> push_job list
   \<Rightarrow> (push_job list \<times> push_job list \<times> (string \<times> skip_reason) list) option" where
  "enqueue_push_jobs src now profile dry by devices jobs =
     (if (case profile of None \<Rightarrow> False | Some p \<Rightarrow> map_of deploy_profiles p = None) then None
      else let queued = map (\<lambda>(n, d). new_job (new_id src n) now profile dry by d)
                          (filter (\<lambda>(n, d). skip_of jobs d = None) (List.enumerate 0 devices));
               skipped = List.map_filter (\<lambda>d. map_option (\<lambda>r. (rd_hostname d, r)) (skip_of jobs d)) devices
           in Some (jobs @ queued, queued, skipped))"

definition close_job :: "instant \<Rightarrow> string \<Rightarrow> push_detail option \<Rightarrow> push_job \<Rightarrow> push_job" where
  "close_job now st detail job = job\<lparr>pj_state := st, pj_detail := detail, pj_finished_at := Some now\<rparr>"

text \<open>\<open>None\<close>: not queued any more, nothing changes.\<close>

definition cancel_push_job :: "instant \<Rightarrow> push_job \<Rightarrow> push_job option" where
  "cancel_push_job now job =
     (if pj_state job \<noteq> ''queued'' then None else Some (close_job now ''cancelled'' (Some Cancelled_by_operator) job))"

definition reap_job :: "instant \<Rightarrow> push_job \<Rightarrow> push_job" where
  "reap_job now job =
     (if pj_state job = ''running'' \<and> (case pj_started_at job of None \<Rightarrow> False | Some t \<Rightarrow> t \<le> now - running_job_timeout)
      then close_job now ''failed'' (Some Worker_silent) job else job)"

definition reap_stale_push_jobs :: "instant \<Rightarrow> push_job list \<Rightarrow> push_job list \<times> nat" where
  "reap_stale_push_jobs now jobs = (map (reap_job now) jobs, length (filter (\<lambda>j. reap_job now j \<noteq> j) jobs))"

definition list_push_jobs :: "instant \<Rightarrow> nat \<Rightarrow> push_job list \<Rightarrow> push_job list \<times> push_job list" where
  "list_push_jobs now limit jobs =
     (let jobs' = fst (reap_stale_push_jobs now jobs)
      in (jobs', take limit (sort_key (\<lambda>j. - pj_created_at j) jobs')))"

subsection \<open>Running a job\<close>

definition mark_running :: "instant \<Rightarrow> push_job \<Rightarrow> push_job" where
  "mark_running now job = job\<lparr>pj_state := ''running'', pj_started_at := Some now\<rparr>"

text \<open>What the worker finds after the first commit: nobody's machine, a call to make (with the device table as it leaves it), or
  an unknown profile, which raises: the job stays running and no call is made.\<close>

datatype push_verdict = Not_ours | Profile_raises | Make_call "ra_device list"

definition settle_push_job :: "instant \<Rightarrow> push_job \<Rightarrow> ra_device list \<Rightarrow> push_verdict" where
  "settle_push_job now job tab =
     (case Option.bind (pj_device_id job) (\<lambda>i. find_row rd_id i tab) of
        None \<Rightarrow> Not_ours
      | Some dev \<Rightarrow>
          if \<not> rd_managed dev then Not_ours
          else if pj_dry_run job then Make_call tab
          else (case apply_deploy_profile now (pj_profile job) dev of
                  None \<Rightarrow> Profile_raises
                | Some d \<Rightarrow> Make_call (put_row rd_id (mark_deploy_requested now d) tab)))"

text \<open>Up to the remote call: the job, the device table and whether the call is made. \<open>None\<close>: the job was not queued
  any more.\<close>

definition start_push_job ::
  "instant \<Rightarrow> push_job \<Rightarrow> ra_device list \<Rightarrow> (push_job \<times> ra_device list \<times> bool) option" where
  "start_push_job now job tab =
     (if pj_state job \<noteq> ''queued'' then None
      else let running = mark_running now job in
        Some (case settle_push_job now running tab of
                Not_ours \<Rightarrow> (close_job now ''skipped'' (Some No_longer_managed) running, tab, False)
              | Profile_raises \<Rightarrow> (running, tab, False)
              | Make_call tab' \<Rightarrow> (running, tab', True)))"

text \<open>After the remote call: the state is written whatever it was set to meanwhile.\<close>

definition finish_push_job :: "instant \<Rightarrow> winrm_call \<Rightarrow> push_job \<Rightarrow> push_job" where
  "finish_push_job now call job =
     (case call of
        Crashed \<Rightarrow> job
      | Not_configured \<Rightarrow> close_job now ''failed'' (Some Winrm_not_configured) job
      | Answered res \<Rightarrow>
          close_job now (if wr_ok res then ''succeeded'' else ''failed'')
            (if wr_detail res = [] then None else Some (Winrm_text (take 1024 (wr_detail res)))) job)"

definition execute_push_job ::
  "remote_settings \<Rightarrow> instant \<Rightarrow> instant \<Rightarrow> ps_answer \<Rightarrow> push_job \<Rightarrow> ra_device list \<Rightarrow> push_job \<times> ra_device list" where
  "execute_push_job cfg now later ans job tab =
     (case start_push_job now job tab of
        None \<Rightarrow> (job, tab)
      | Some (running, tab', called) \<Rightarrow>
          (if called then finish_push_job later (run_powershell cfg ans) running else running, tab'))"


subsection \<open>Requests, workers and time interleaved\<close>

record push_world =
  pw_devices :: "ra_device list"
  pw_jobs :: "push_job list"
  pw_calls :: "uid list"

text \<open>The devices of a request come out of one query, so they are different rows. Each request is one step here, from its
  reads to its commit; theory \<open>Push_Races\<close> takes the two apart.\<close>

inductive push_step :: "push_world \<Rightarrow> push_world \<Rightarrow> bool" where
  queue: "distinct (map rd_id devs) \<Longrightarrow> inj (new_id src) \<Longrightarrow> range (new_id src) \<inter> pj_id ` set (pw_jobs w) = {} \<Longrightarrow>
    enqueue_push_jobs src now profile dry who devs (pw_jobs w) = Some (jobs', queued, skipped) \<Longrightarrow>
    push_step w (w\<lparr>pw_jobs := jobs'\<rparr>)"
| cancel: "find_row pj_id i (pw_jobs w) = Some job \<Longrightarrow> cancel_push_job now job = Some job' \<Longrightarrow>
    push_step w (w\<lparr>pw_jobs := put_row pj_id job' (pw_jobs w)\<rparr>)"
| reap: "push_step w (w\<lparr>pw_jobs := fst (reap_stale_push_jobs now (pw_jobs w))\<rparr>)"
| start: "find_row pj_id i (pw_jobs w) = Some job \<Longrightarrow>
    start_push_job now job (pw_devices w) = Some (job', devices', called) \<Longrightarrow>
    push_step w (w\<lparr>pw_devices := devices', pw_jobs := put_row pj_id job' (pw_jobs w),
      pw_calls := (if called then i # pw_calls w else pw_calls w)\<rparr>)"
| finish: "i \<in> set (pw_calls w) \<Longrightarrow> find_row pj_id i (pw_jobs w) = Some job \<Longrightarrow>
    push_step w (w\<lparr>pw_jobs := put_row pj_id (finish_push_job now call job) (pw_jobs w), pw_calls := remove1 i (pw_calls w)\<rparr>)"
| devices: "push_step w (w\<lparr>pw_devices := devices'\<rparr>)"

inductive_cases push_stepE: "push_step w w'"

text \<open>queued, running, closed.\<close>

definition job_rank :: "push_job \<Rightarrow> nat" where
  "job_rank j = (if pj_state j = ''queued'' then 0 else if pj_state j = ''running'' then 1 else 2)"

definition job_progress :: "push_job \<Rightarrow> push_job \<Rightarrow> bool" where
  "job_progress j j' \<longleftrightarrow> pj_id j' = pj_id j \<and> pj_device_id j' = pj_device_id j \<and> pj_hostname j' = pj_hostname j
     \<and> job_rank j \<le> job_rank j'"

lemma job_active_rank: "pj_state j \<in> set push_job_active \<longleftrightarrow> job_rank j < 2"
  by (auto simp: job_rank_def push_job_active_def)

lemma job_progress_refl [simp]: "job_progress j j"
  by (simp add: job_progress_def)

lemma job_progress_trans: "job_progress a b \<Longrightarrow> job_progress b c \<Longrightarrow> job_progress a c"
  by (simp add: job_progress_def)

lemma job_progress_close: "st \<in> set push_job_final \<Longrightarrow> job_progress j (close_job now st d j)"
  by (auto simp: job_progress_def job_rank_def close_job_def push_job_final_def)

lemma job_progress_cancel: "cancel_push_job now j = Some j' \<Longrightarrow> job_progress j j'"
  by (auto simp: cancel_push_job_def push_job_final_def intro!: job_progress_close split: if_splits)

lemma job_progress_reap: "job_progress j (reap_job now j)"
  by (simp add: reap_job_def job_progress_close push_job_final_def)

lemma job_progress_finish: "job_progress j (finish_push_job now call j)"
  by (auto simp: finish_push_job_def push_job_final_def intro!: job_progress_close split: winrm_call.splits)

lemma start_push_job_Some:
  assumes "start_push_job now job tab = Some (job', tab', called)"
  shows "job_rank job = 0"
    and "job' = job\<lparr>pj_state := ''running'', pj_started_at := Some now\<rparr>
      \<or> job' = close_job now ''skipped'' (Some No_longer_managed) (job\<lparr>pj_state := ''running'', pj_started_at := Some now\<rparr>)"
    and "tab' = tab \<or> (\<exists>dev d. dev \<in> set tab \<and> Some (rd_id dev) = pj_device_id job \<and> rd_managed dev
      \<and> apply_deploy_profile now (pj_profile job) dev = Some d \<and> tab' = put_row rd_id (mark_deploy_requested now d) tab)"
  using assms by (auto simp: start_push_job_def settle_push_job_def mark_running_def job_rank_def Let_def bind_eq_Some_conv
      dest!: find_row_Some split: if_splits option.splits)

lemma job_progress_start: "start_push_job now job tab = Some (job', tab', called) \<Longrightarrow> job_progress job job'"
  using start_push_job_Some(1,2) [of now job tab job' tab' called]
  by (auto simp: job_progress_def close_job_def job_rank_def)

lemma list_all2_progress_put:
  assumes "find_row pj_id i jobs = Some job" "distinct (map pj_id jobs)" "job_progress job job'"
  shows "list_all2 job_progress jobs (put_row pj_id job' jobs)"
  using find_row_Some [OF assms(1)] assms(2,3)
  by (intro list_all2_put_row [where row = job])
    (auto simp: list_all2_same job_progress_def intro: job_progress_trans dest: distinct_map_eq)

text \<open>Every step but queueing moves each job forward.\<close>

lemma push_step_progress:
  assumes "push_step w w'" "distinct (map pj_id (pw_jobs w))"
  obtains "list_all2 job_progress (pw_jobs w) (pw_jobs w')"
  | devs src now profile dry who queued skipped where "distinct (map rd_id devs)" "inj (new_id src)"
      "range (new_id src) \<inter> pj_id ` set (pw_jobs w) = {}"
      "enqueue_push_jobs src now profile dry who devs (pw_jobs w) = Some (pw_jobs w', queued, skipped)"
  using assms(1)
proof cases
  case (queue devs src now profile dry who jobs' queued skipped)
  then show ?thesis using that(2) by simp
next
  case (cancel i job now job')
  then show ?thesis using that(1) list_all2_progress_put [OF cancel(2) assms(2) job_progress_cancel [OF cancel(3)]] by simp
next
  case (reap now)
  then show ?thesis using that(1)
    by (simp add: reap_stale_push_jobs_def list_all2_map2 list_all2_same job_progress_reap)
next
  case (start i job now job' devices' called)
  then show ?thesis using that(1) list_all2_progress_put [OF start(2) assms(2) job_progress_start [OF start(3)]] by simp
next
  case (finish i job now call)
  then show ?thesis using that(1) list_all2_progress_put [OF finish(3) assms(2) job_progress_finish] by simp
next
  case (devices devices')
  then show ?thesis using that(1) by (simp add: list_all2_same)
qed

definition one_active :: "push_job list \<Rightarrow> bool" where
  "one_active jobs \<longleftrightarrow> distinct (map pj_id jobs)
     \<and> (\<forall>j \<in> set jobs. \<forall>j' \<in> set jobs. job_rank j < 2 \<longrightarrow> job_rank j' < 2 \<longrightarrow> pj_device_id j = pj_device_id j'
          \<longrightarrow> pj_device_id j \<noteq> None \<longrightarrow> j = j')"

lemma one_active_progress:
  assumes "list_all2 job_progress jobs jobs'" "one_active jobs"
  shows "one_active jobs'"
proof -
  have ids: "map pj_id jobs' = map pj_id jobs"
    using assms(1) by (induction rule: list_all2_induct) (auto simp: job_progress_def)
  have orig: "\<exists>p \<in> set jobs. job_progress p q" if "q \<in> set jobs'" for q
    using assms(1) that by (metis in_set_conv_nth list_all2_conv_all_nth)
  have "j = j'" if h: "j \<in> set jobs'" "j' \<in> set jobs'" "job_rank j < 2" "job_rank j' < 2"
    "pj_device_id j = pj_device_id j'" "pj_device_id j \<noteq> None" for j j'
  proof -
    obtain p p' where p: "p \<in> set jobs" "job_progress p j" "p' \<in> set jobs" "job_progress p' j'" using orig h(1,2) by blast
    have "p = p'"
      using assms(2) p h unfolding one_active_def job_progress_def by (metis order.strict_trans1)
    then have "pj_id j = pj_id j'" using p by (simp add: job_progress_def)
    then show ?thesis using h(1,2) assms(2) ids distinct_map_eq [of pj_id jobs'] by (simp add: one_active_def)
  qed
  then show ?thesis using assms(2) ids unfolding one_active_def by metis
qed


lemma distinct_map_inj: "inj f \<Longrightarrow> distinct xs \<Longrightarrow> distinct (map f xs)"
  by (auto simp: distinct_map intro: inj_on_subset)

lemma enqueue_push_jobs_Some:
  assumes "enqueue_push_jobs src now profile dry who devs jobs = Some (jobs', queued, skipped)"
  shows "jobs' = jobs @ queued"
    and "queued = map (\<lambda>(n, d). new_job (new_id src n) now profile dry who d)
           (filter (\<lambda>(n, d). skip_of jobs d = None) (List.enumerate 0 devs))"
  using assms by (auto simp: enqueue_push_jobs_def Let_def split: if_splits)

lemma new_job_sel [simp]:
  "pj_id (new_job i now p dry who d) = i" "pj_device_id (new_job i now p dry who d) = Some (rd_id d)"
  "job_rank (new_job i now p dry who d) = 0"
  by (simp_all add: new_job_def job_rank_def)

lemma skip_of_None: "skip_of jobs d = None \<Longrightarrow> rd_managed d \<and> rd_id d \<notin> busy_devices jobs"
  by (simp add: skip_of_def split: if_splits)

lemma queued_ids:
  assumes "enqueue_push_jobs src now profile dry who devs jobs = Some (jobs', queued, skipped)" "inj (new_id src)"
  shows "distinct (map pj_id queued)" "set (map pj_id queued) \<subseteq> range (new_id src)"
proof -
  let ?E = "filter (\<lambda>(n, d). skip_of jobs d = None) (List.enumerate 0 devs)"
  have m: "map pj_id queued = map (new_id src) (map fst ?E)"
    unfolding enqueue_push_jobs_Some(2) [OF assms(1)] by (auto simp: case_prod_unfold)
  moreover have "distinct (map fst ?E)" by (intro distinct_map_filter) simp
  ultimately show "distinct (map pj_id queued)" using assms(2) by (simp only: distinct_map_inj)
  show "set (map pj_id queued) \<subseteq> range (new_id src)" unfolding m by auto
qed

lemma one_active_enqueue:
  assumes "one_active jobs" "distinct (map rd_id devs)" "inj (new_id src)" "range (new_id src) \<inter> pj_id ` set jobs = {}"
    and enq: "enqueue_push_jobs src now profile dry who devs jobs = Some (jobs', queued, skipped)"
  shows "one_active jobs'"
proof -
  note q = enqueue_push_jobs_Some [OF enq]
  have qe: "\<exists>n d. j = new_job (new_id src n) now profile dry who d \<and> (n, d) \<in> set (List.enumerate 0 devs) \<and> skip_of jobs d = None"
    if "j \<in> set queued" for j
    using that unfolding q(2) by auto
  note dq = queued_ids(1) [OF enq assms(3)]
  have "set (map pj_id queued) \<inter> set (map pj_id jobs) = {}" using assms(4) qe by fastforce
  then have ids: "distinct (map pj_id jobs')" using assms(1) dq q(1) by (auto simp: one_active_def)
  have new_new: "j = j'" if "j \<in> set queued" "j' \<in> set queued" "pj_device_id j = pj_device_id j'" for j j'
  proof -
    note h = that
    obtain n d n' d' where e: "j = new_job (new_id src n) now profile dry who d" "(n, d) \<in> set (List.enumerate 0 devs)"
      "j' = new_job (new_id src n') now profile dry who d'" "(n', d') \<in> set (List.enumerate 0 devs)"
      using qe h(1,2) by metis
    then have "n < length devs" "devs ! n = d" "n' < length devs" "devs ! n' = d'" by (auto simp: in_set_enumerate_eq)
    moreover from e h(3) have "rd_id d = rd_id d'" by simp
    ultimately have "n = n'" using assms(2) by (metis distinct_conv_nth length_map nth_map)
    with e \<open>devs ! n = d\<close> \<open>devs ! n' = d'\<close> show ?thesis by simp
  qed
  have old_new: "pj_device_id j \<noteq> pj_device_id j'" if h: "j \<in> set jobs" "job_rank j < 2" "j' \<in> set queued" for j j'
  proof
    assume eq: "pj_device_id j = pj_device_id j'"
    obtain n d where "j' = new_job (new_id src n) now profile dry who d" "skip_of jobs d = None" using qe h(3) by blast
    with eq skip_of_None [of jobs d] h(1,2) show False by (auto simp: busy_devices_def job_active_rank)
  qed
  have "j = j'" if h: "j \<in> set jobs'" "j' \<in> set jobs'" "job_rank j < 2" "job_rank j' < 2"
    "pj_device_id j = pj_device_id j'" "pj_device_id j \<noteq> None" for j j'
  proof -
    from h(1,2) q(1) consider "j \<in> set jobs" "j' \<in> set jobs" | "j \<in> set jobs" "j' \<in> set queued"
      | "j \<in> set queued" "j' \<in> set jobs" | "j \<in> set queued" "j' \<in> set queued" by auto
    then show ?thesis
    proof cases
      case 1
      then show ?thesis using assms(1) h(3-6) by (simp add: one_active_def)
    next
      case 2
      then show ?thesis using old_new h by blast
    next
      case 3
      then show ?thesis using old_new [of j' j] h by simp
    next
      case 4
      then show ?thesis using new_new h by blast
    qed
  qed
  with ids show ?thesis unfolding one_active_def by blast
qed

definition pushes_of :: "uid \<Rightarrow> push_world \<Rightarrow> push_job list" where
  "pushes_of i w = filter (\<lambda>j. job_rank j < 2 \<and> pj_device_id j = Some i) (pw_jobs w)"

lemma push_steps_one_active: "push_step\<^sup>*\<^sup>* w w' \<Longrightarrow> one_active (pw_jobs w) \<Longrightarrow> one_active (pw_jobs w')"
proof (induction rule: rtranclp_induct)
  case (step x y)
  then have ok: "one_active (pw_jobs x)" "distinct (map pj_id (pw_jobs x))" by (simp_all add: one_active_def)
  show ?case
    by (rule push_step_progress [OF step.hyps(2) ok(2)])
      (blast intro: one_active_progress [OF _ ok(1)] one_active_enqueue [OF ok(1)])+
qed

text \<open>As long as no two requests overlap between the check and the insert, a device has at most one push waiting or running,
  in whatever order requests, workers and changes of devices follow one another.\<close>

lemma one_push_per_device:
  assumes "push_step\<^sup>*\<^sup>* \<lparr>pw_devices = tab, pw_jobs = [], pw_calls = []\<rparr> w"
  shows "length (pushes_of i w) \<le> 1"
proof -
  have ok: "one_active (pw_jobs w)" by (rule push_steps_one_active [OF assms]) (simp add: one_active_def)
  then have "distinct (pw_jobs w)" by (simp add: one_active_def distinct_map)
  then have d: "distinct (pushes_of i w)" by (simp add: pushes_of_def)
  have "j = j'" if "j \<in> set (pushes_of i w)" "j' \<in> set (pushes_of i w)" for j j'
    using that ok by (auto simp: pushes_of_def one_active_def)
  with d show ?thesis by (metis One_nat_def card_le_Suc0_iff_eq distinct_card finite_set)
qed

definition demo_pushes :: push_world where
  "demo_pushes = \<lparr>pw_devices = [demo_device], pw_jobs = [], pw_calls = []\<rparr>"

definition demo_queued :: push_world where
  "demo_queued = demo_pushes\<lparr>pw_jobs := [new_job ''n0'' 5 None False None demo_device]\<rparr>"

definition demo_running :: push_world where
  "demo_running = demo_queued\<lparr>pw_devices := [mark_deploy_requested 6 demo_device],
     pw_jobs := [(new_job ''n0'' 5 None False None demo_device)\<lparr>pj_state := ''running'', pj_started_at := Some 6\<rparr>], pw_calls := [''n0'']\<rparr>"

lemma demo_queue_step: "push_step demo_pushes demo_queued"
proof -
  have inj: "inj (new_id demo_source)" using inj_show_nat by (auto simp: demo_source_def inj_def)
  have run: "enqueue_push_jobs demo_source 5 None False None [demo_device] []
    = Some ([new_job ''n0'' 5 None False None demo_device], [new_job ''n0'' 5 None False None demo_device], [])"
    by code_simp
  show ?thesis unfolding demo_queued_def demo_pushes_def
    using push_step.queue [where devs = "[demo_device]" and src = demo_source and now = 5 and profile = None and dry = False
        and who = None and w = "\<lparr>pw_devices = [demo_device], pw_jobs = [], pw_calls = []\<rparr>", OF _ inj] run by simp
qed

lemma demo_start_step: "push_step demo_queued demo_running"
proof -
  have "start_push_job 6 (new_job ''n0'' 5 None False None demo_device) [demo_device]
    = Some ((new_job ''n0'' 5 None False None demo_device)\<lparr>pj_state := ''running'', pj_started_at := Some 6\<rparr>,
        [mark_deploy_requested 6 demo_device], True)"
    by code_simp
  then show ?thesis unfolding demo_running_def demo_queued_def demo_pushes_def
    using push_step.start [where i = "''n0''" and job = "new_job ''n0'' 5 None False None demo_device" and now = 6
        and w = "\<lparr>pw_devices = [demo_device], pw_jobs = [new_job ''n0'' 5 None False None demo_device], pw_calls = []\<rparr>"]
    by (simp add: find_row_def put_row_def)
qed

lemma one_push_per_device_witness: "length (pushes_of ''d1'' demo_running) \<le> 1 \<and> pushes_of ''d1'' demo_running = pw_jobs demo_running"
proof
  have "push_step\<^sup>*\<^sup>* demo_pushes demo_running" using demo_queue_step demo_start_step by simp
  then show "length (pushes_of ''d1'' demo_running) \<le> 1" unfolding demo_pushes_def by (rule one_push_per_device)
  show "pushes_of ''d1'' demo_running = pw_jobs demo_running"
    by (simp add: pushes_of_def demo_running_def demo_queued_def new_job_def job_rank_def demo_device_def new_device_def)
qed

text \<open>A job only moves forward, from queued to running to closed, as long as each request reads and writes in one step, and its
  device and host never change.\<close>

lemma jobs_only_move_forward:
  assumes "push_step\<^sup>*\<^sup>* w w'" "one_active (pw_jobs w)" "j \<in> set (pw_jobs w)"
  shows "\<exists>j' \<in> set (pw_jobs w'). job_progress j j'"
  using assms
proof (induction rule: rtranclp_induct)
  case base
  then show ?case using job_progress_refl by blast
next
  case (step x y)
  then obtain p where p: "p \<in> set (pw_jobs x)" "job_progress j p" by blast
  have "distinct (map pj_id (pw_jobs x))"
    using push_steps_one_active [OF step.hyps(1) step.prems(1)] by (simp add: one_active_def)
  from step.hyps(2) this show ?case
  proof (cases rule: push_step_progress)
    case 1
    then obtain q where "q \<in> set (pw_jobs y)" "job_progress p q"
      using p(1) by (metis in_set_conv_nth list_all2_conv_all_nth)
    with p(2) show ?thesis using job_progress_trans by blast
  next
    case (2 devs src now profile dry who queued skipped)
    then have "p \<in> set (pw_jobs y)" using enqueue_push_jobs_Some(1) [OF 2(4)] p(1) by simp
    with p(2) show ?thesis by blast
  qed
qed

lemma jobs_only_move_forward_witness:
  "list_ex (job_progress (new_job ''n0'' 5 None False None demo_device)) (pw_jobs demo_running)"
proof -
  have "push_step\<^sup>*\<^sup>* demo_queued demo_running" using demo_start_step by blast
  moreover have "one_active (pw_jobs demo_queued)" "new_job ''n0'' 5 None False None demo_device \<in> set (pw_jobs demo_queued)"
    by (simp_all add: one_active_def demo_queued_def)
  ultimately show ?thesis unfolding list_ex_iff by (rule jobs_only_move_forward)
qed

subsection \<open>Only the machine says configured\<close>

text \<open>A push never makes a device read configured: running a job leaves the rollout state of every other device alone
  and takes its own device to pending, or leaves it alone.\<close>

theorem push_never_configures:
  "list_all2 (\<lambda>d d'. rd_id d' = rd_id d \<and> (d' = d \<or> (rd_state d' = ''pending'' \<and> pj_device_id job = Some (rd_id d))))
     tab (snd (execute_push_job cfg now later ans job tab))"
proof (cases "start_push_job now job tab")
  case None
  then show ?thesis by (simp add: execute_push_job_def list_all2_same)
next
  case (Some r)
  obtain job' tab' called where r: "r = (job', tab', called)" by (cases r) auto
  note s = start_push_job_Some(3) [OF Some [unfolded r]]
  have res: "snd (execute_push_job cfg now later ans job tab) = tab'" using Some r by (simp add: execute_push_job_def)
  from s show ?thesis
  proof
    assume "tab' = tab"
    then show ?thesis unfolding res by (simp add: list_all2_same)
  next
    assume "\<exists>dev d. dev \<in> set tab \<and> Some (rd_id dev) = pj_device_id job \<and> rd_managed dev
      \<and> apply_deploy_profile now (pj_profile job) dev = Some d \<and> tab' = put_row rd_id (mark_deploy_requested now d) tab"
    then obtain dev d where d: "Some (rd_id dev) = pj_device_id job" "apply_deploy_profile now (pj_profile job) dev = Some d"
      "tab' = put_row rd_id (mark_deploy_requested now d) tab" by blast
    have "rd_id d = rd_id dev" using apply_deploy_profile_frame [OF d(2)] by simp
    with d(1) show ?thesis unfolding res d(3) put_row_def list_all2_map2
      by (intro list.rel_refl_strong) (simp add: mark_deploy_requested_def)
  qed
qed

text \<open>A report only touches the machine that sent it.\<close>

lemma reported_device_id [simp]: "rd_id (reported_device now rp d) = rd_id d" "host_key (reported_device now rp d) = host_key d"
  by (simp_all add: reported_device_def Let_def host_key_def split: option.splits)

lemma reported_state: "rd_state (reported_device now rp d) = (if dr_state rp \<in> set deploy_states then dr_state rp else ''failed'')"
  by (simp add: reported_device_def Let_def split: option.splits)

subsection \<open>Two requests inside the window between check and insert\<close>

text \<open>Both requests read the same jobs; each inserts its own.\<close>

definition overlapping_requests :: "random_source \<Rightarrow> random_source \<Rightarrow> instant \<Rightarrow> ra_device \<Rightarrow> push_job list \<Rightarrow> push_job list option" where
  "overlapping_requests src1 src2 now dev jobs =
     (case (enqueue_push_jobs src1 now None False None [dev] jobs, enqueue_push_jobs src2 now None False None [dev] jobs) of
        (Some (_, q1, _), Some (_, q2, _)) \<Rightarrow> Some (jobs @ q1 @ q2)
      | _ \<Rightarrow> None)"

text \<open>The check for a waiting job and the insert are not one atomic step in the database: two requests for the same
  managed device that overlap between them queue it twice.\<close>

theorem overlapping_requests_queue_twice:
  "map (\<lambda>j. (pj_state j, pj_device_id j)) (the (overlapping_requests demo_source (demo_source\<lparr>new_id := (\<lambda>n. CHR ''m'' # show_nat n)\<rparr>) 5 demo_device []))
   = [(''queued'', Some ''d1''), (''queued'', Some ''d1'')]"
  by code_simp

end
