(* ===== verification/Rustdesk_Client.thy ===== *)
theory Rustdesk_Client
  imports Remote_Inventory Console_Api
begin

section \<open>Remote access: the HTTP client of the console\<close>

text \<open>
  \<open>app/domains/remote_access/rustdesk_client.py\<close>: every call of the record \<open>'c console\<close> as the HTTP requests
  it makes. The transport (httpx and the network behind it) is an argument \<open>'h http\<close>: it answers a request with a
  status and a decoded body (\<^const>\<open>None\<close>: the body is no JSON), or raises an \<open>HTTPError\<close> (\<^const>\<open>Failed\<close>).
  The state of the module is the token it minted; texts of error messages are left out.
\<close>

subsection \<open>Requests and answers\<close>

datatype verb = GET | POST

text \<open>The form of a request: a dict of JSON fields, or a row of the shared book (its tags are code points) with the
  \<open>row_id\<close> of an update.\<close>

datatype form = No_form | Form jrow | Row_form "int option" book_payload

record http_request =
  hq_verb :: verb
  hq_url :: string
  hq_headers :: "(string \<times> string) list"
  hq_params :: "(string \<times> int) list"
  hq_form :: form

record http_response =
  hr_status :: int
  hr_json :: "json option"

type_synonym 'h http = "'h \<Rightarrow> http_request \<Rightarrow> 'h \<times> http_response reply"

datatype client_error =
    Remote_disabled
  | No_credentials
  | Console_unreachable
  | Login_failed int
  | Token_rejected
  | Write_status string int
  | Write_refused string
  | Bad_number

record 'h client =
  cl_minted :: "string option"
  cl_net :: 'h

text \<open>An exception ends the call: the rest runs only on a value.\<close>

definition on_value :: "'c \<times> ('e + 'a) \<Rightarrow> ('c \<Rightarrow> 'a \<Rightarrow> 'c \<times> ('e + 'b)) \<Rightarrow> 'c \<times> ('e + 'b)" where
  "on_value x f = (case x of (c, Inl e) \<Rightarrow> (c, Inl e) | (c, Inr a) \<Rightarrow> f c a)"

lemma on_value_simps [simp]: "on_value (c, Inl e) f = (c, Inl e)" "on_value (c, Inr a) f = f c a"
  by (simp_all add: on_value_def)

subsection \<open>Credentials and the token\<close>

definition console_base :: "remote_settings \<Rightarrow> string" where
  "console_base st = rev (dropWhile (\<lambda>ch. ch = CHR ''/'') (rev (rs_api_url st)))"

definition configured_token :: "remote_settings \<Rightarrow> string" where
  "configured_token st = strip (rs_api_token st)"

definition can_login :: "remote_settings \<Rightarrow> bool" where
  "can_login st \<longleftrightarrow> strip (rs_admin_username st) \<noteq> [] \<and> rs_admin_password st \<noteq> []"

definition console_enabled :: "remote_settings \<Rightarrow> bool" where
  "console_enabled st \<longleftrightarrow> rs_enabled st \<and> rs_api_url st \<noteq> [] \<and> (configured_token st \<noteq> [] \<or> can_login st)"

definition reset_token_cache :: "'h client \<Rightarrow> 'h client" where
  "reset_token_cache c = c\<lparr>cl_minted := None\<rparr>"

text \<open>\<open>if x\<close> for a decoded value.\<close>

definition json_true :: "json \<Rightarrow> bool" where
  "json_true j = (case j of Scalar s \<Rightarrow> scalar_true s | JList xs \<Rightarrow> xs \<noteq> [] | JObj row \<Rightarrow> row \<noteq> [])"

fun first_key :: "string list \<Rightarrow> jrow \<Rightarrow> json option" where
  "first_key [] row = None"
| "first_key (k # ks) row = (case map_of row k of Some v \<Rightarrow> Some v | None \<Rightarrow> first_key ks row)"

definition envelope :: "http_response \<Rightarrow> json" where
  "envelope r = (case hr_json r of
       None \<Rightarrow> Scalar SNull
     | Some (JObj body) \<Rightarrow> (case first_key [''data'', ''rows'', ''list''] body of Some v \<Rightarrow> v | None \<Rightarrow> JObj body)
     | Some j \<Rightarrow> j)"

definition login_request :: "remote_settings \<Rightarrow> http_request" where
  "login_request st = \<lparr>hq_verb = POST, hq_url = console_base st @ ''/api/admin/login'', hq_headers = [], hq_params = [],
     hq_form = Form [(''username'', Scalar (SStr (strip (rs_admin_username st)))),
       (''password'', Scalar (SStr (rs_admin_password st)))]\<rparr>"

definition token_of :: "http_response \<Rightarrow> string option" where
  "token_of r = (case envelope r of
       JObj body \<Rightarrow> (let t = field body ''token'' in if scalar_true t then Some (scalar_str t) else None)
     | _ \<Rightarrow> None)"

definition console_mint :: "remote_settings \<Rightarrow> 'h http \<Rightarrow> 'h client \<Rightarrow> 'h client \<times> (client_error + string)" where
  "console_mint st http c =
     (case http (cl_net c) (login_request st) of
        (h, Failed) \<Rightarrow> (c\<lparr>cl_net := h\<rparr>, Inl Console_unreachable)
      | (h, Reply r) \<Rightarrow>
          (case token_of r of
             None \<Rightarrow> (c\<lparr>cl_net := h\<rparr>, Inl (Login_failed (hr_status r)))
           | Some t \<Rightarrow> (c\<lparr>cl_net := h\<rparr>, Inr t)))"

definition console_token :: "remote_settings \<Rightarrow> 'h http \<Rightarrow> 'h client \<Rightarrow> 'h client \<times> (client_error + string)" where
  "console_token st http c =
     (if configured_token st \<noteq> [] then (c, Inr (configured_token st))
      else (case truthy (cl_minted c) of
          Some t \<Rightarrow> (c, Inr t)
        | None \<Rightarrow>
            if \<not> can_login st then (c, Inl No_credentials)
            else on_value (console_mint st http c) (\<lambda>c t. (c\<lparr>cl_minted := Some t\<rparr>, Inr t))))"

definition token_headers :: "string \<Rightarrow> (string \<times> string) list" where
  "token_headers t = [(''Authorization'', ''Bearer '' @ t), (''api-token'', t)]"

subsection \<open>One call\<close>

definition console_send :: "'h http \<Rightarrow> http_request \<Rightarrow> 'h client \<Rightarrow> string \<Rightarrow> 'h client \<times> (client_error + http_response)" where
  "console_send http rq c t =
     (case http (cl_net c) (rq\<lparr>hq_headers := token_headers t\<rparr>) of
        (h, Failed) \<Rightarrow> (c\<lparr>cl_net := h\<rparr>, Inl Console_unreachable)
      | (h, Reply r) \<Rightarrow> (c\<lparr>cl_net := h\<rparr>, Inr r))"

definition refused :: "http_response \<Rightarrow> bool" where
  "refused r \<longleftrightarrow> hr_status r \<in> {401, 403}"

text \<open>\<open>_send(await _token())\<close>.\<close>

definition try_call :: "remote_settings \<Rightarrow> 'h http \<Rightarrow> http_request \<Rightarrow> 'h client \<Rightarrow> 'h client \<times> (client_error + http_response)" where
  "try_call st http rq c = on_value (console_token st http c) (console_send http rq)"

definition console_request ::
  "remote_settings \<Rightarrow> 'h http \<Rightarrow> verb \<Rightarrow> string \<Rightarrow> (string \<times> int) list \<Rightarrow> form \<Rightarrow> 'h client
     \<Rightarrow> 'h client \<times> (client_error + http_response)" where
  "console_request st http verb path params fm c =
     (if \<not> console_enabled st then (c, Inl Remote_disabled)
      else
        let rq = \<lparr>hq_verb = verb, hq_url = console_base st @ path, hq_headers = [], hq_params = params, hq_form = fm\<rparr>
        in on_value (try_call st http rq c) (\<lambda>c r.
             on_value (if refused r \<and> configured_token st = [] \<and> can_login st then try_call st http rq (c\<lparr>cl_minted := None\<rparr>) else (c, Inr r))
               (\<lambda>c r. if refused r then (c, Inl Token_rejected) else (c, Inr r))))"

subsection \<open>Reading answers\<close>

definition dict_rows :: "json list \<Rightarrow> jrow list" where
  "dict_rows xs = List.map_filter (\<lambda>j. case j of JObj row \<Rightarrow> Some row | _ \<Rightarrow> None) xs"

definition json_get :: "jrow \<Rightarrow> string \<Rightarrow> json" where
  "json_get row k = (case map_of row k of Some v \<Rightarrow> v | None \<Rightarrow> Scalar SNull)"

definition response_rows :: "http_response \<Rightarrow> jrow list" where
  "response_rows r =
     (let data = (case envelope r of
          JObj row \<Rightarrow> (if json_true (json_get row ''list'') then json_get row ''list''
                     else if json_true (json_get row ''data'') then json_get row ''data'' else JList [])
        | j \<Rightarrow> j)
      in case data of JList xs \<Rightarrow> dict_rows xs | _ \<Rightarrow> [])"

definition page_query :: "int \<Rightarrow> (string \<times> int) list \<Rightarrow> (string \<times> int) list" where
  "page_query n params =
     fold (\<lambda>(k, v) q. AList.update k v q) params
       [(''page'', 1), (''page_size'', n), (''current'', 1), (''pageSize'', n)]"

definition console_list ::
  "remote_settings \<Rightarrow> 'h http \<Rightarrow> string \<Rightarrow> int \<Rightarrow> (string \<times> int) list \<Rightarrow> 'h client \<Rightarrow> 'h client \<times> (client_error + jrow list)" where
  "console_list st http path n params c =
     on_value (console_request st http GET path (page_query n params) No_form c)
       (\<lambda>c r. (c, Inr (if hr_status r = 404 then [] else response_rows r)))"

text \<open>\<open>body.get("code") in (None, 0)\<close>: Python's \<open>False\<close> equals 0.\<close>

definition code_fine :: "jrow \<Rightarrow> bool" where
  "code_fine body = (json_get body ''code'' \<in> {Scalar SNull, Scalar (SInt 0), Scalar (SBool False)})"

definition check_write :: "http_response \<Rightarrow> string \<Rightarrow> client_error + json" where
  "check_write r what =
     (if hr_status r \<noteq> 200 then Inl (Write_status what (hr_status r))
      else (case hr_json r of
          None \<Rightarrow> Inr (Scalar SNull)
        | Some (JObj body) \<Rightarrow> if code_fine body then Inr (json_get body ''data'') else Inl (Write_refused what)
        | Some j \<Rightarrow> Inr j))"

definition console_write ::
  "remote_settings \<Rightarrow> 'h http \<Rightarrow> string \<Rightarrow> form \<Rightarrow> string \<Rightarrow> 'h client \<Rightarrow> 'h client \<times> (client_error + unit)" where
  "console_write st http path fm what c =
     on_value (console_request st http POST path [] fm c)
       (\<lambda>c r. (c, map_sum id (\<lambda>_. ()) (check_write r what)))"

subsection \<open>The calls\<close>

definition list_admin_peers :: "remote_settings \<Rightarrow> 'h http \<Rightarrow> 'h client \<Rightarrow> 'h client \<times> (client_error + jrow list)" where
  "list_admin_peers st http = console_list st http ''/api/admin/peer/list'' 2000 []"

definition list_peers :: "remote_settings \<Rightarrow> 'h http \<Rightarrow> 'h client \<Rightarrow> 'h client \<times> (client_error + jrow list)" where
  "list_peers st http = console_list st http ''/api/peers'' 2000 []"

definition list_users :: "remote_settings \<Rightarrow> 'h http \<Rightarrow> 'h client \<Rightarrow> 'h client \<times> (client_error + jrow list)" where
  "list_users st http = console_list st http ''/api/users'' 500 []"

definition list_connections :: "remote_settings \<Rightarrow> 'h http \<Rightarrow> int \<Rightarrow> 'h client \<Rightarrow> 'h client \<times> (client_error + jrow list)" where
  "list_connections st http limit = console_list st http ''/api/admin/audit_conn/list'' limit []"

definition list_console_users :: "remote_settings \<Rightarrow> 'h http \<Rightarrow> 'h client \<Rightarrow> 'h client \<times> (client_error + jrow list)" where
  "list_console_users st http = console_list st http ''/api/admin/user/list'' 500 []"

definition current_console_user :: "remote_settings \<Rightarrow> 'h http \<Rightarrow> 'h client \<Rightarrow> 'h client \<times> (client_error + jrow)" where
  "current_console_user st http c =
     on_value (console_request st http GET ''/api/admin/user/current'' [] No_form c)
       (\<lambda>c r. (c, Inr (case envelope r of JObj row \<Rightarrow> row | _ \<Rightarrow> [])))"

definition login_name :: "jrow \<Rightarrow> string" where
  "login_name row = strip (str_or_empty (field row ''username''))"

definition current_console_user_id :: "remote_settings \<Rightarrow> 'h http \<Rightarrow> 'h client \<Rightarrow> 'h client \<times> (client_error + int)" where
  "current_console_user_id st http c =
     on_value (current_console_user st http c) (\<lambda>c me.
       if login_name me = [] then (c, Inr 0)
       else on_value (list_console_users st http c) (\<lambda>c users.
         case find (\<lambda>u. login_name u = login_name me) users of
           None \<Rightarrow> (c, Inr 0)
         | Some u \<Rightarrow> (c, (case int_or_zero (field u ''id'') of Some n \<Rightarrow> Inr n | None \<Rightarrow> Inl Bad_number))))"

definition account_form :: "user_form \<Rightarrow> int \<Rightarrow> jrow" where
  "account_form u status =
     [(''username'', Scalar (SStr (uf_username u))), (''group_id'', Scalar (SInt (uf_group_id u))),
      (''is_admin'', Scalar (SBool (uf_is_admin u))), (''status'', Scalar (SInt status)),
      (''email'', Scalar (SStr (uf_email u))),
      (''nickname'', Scalar (SStr (if uf_nickname u = [] then uf_username u else uf_nickname u)))]"

definition create_console_user :: "remote_settings \<Rightarrow> 'h http \<Rightarrow> 'h client \<Rightarrow> user_form \<Rightarrow> 'h client \<times> (client_error + unit)" where
  "create_console_user st http c u =
     console_write st http ''/api/admin/user/create'' (Form (account_form u 1)) ''user create'' c"

definition set_console_user_password ::
  "remote_settings \<Rightarrow> 'h http \<Rightarrow> 'h client \<Rightarrow> int \<Rightarrow> string \<Rightarrow> 'h client \<times> (client_error + unit)" where
  "set_console_user_password st http c n pw =
     console_write st http ''/api/admin/user/changePwd'' (Form [(''id'', Scalar (SInt n)), (''password'', Scalar (SStr pw))])
       ''user password'' c"

definition update_console_user ::
  "remote_settings \<Rightarrow> 'h http \<Rightarrow> 'h client \<Rightarrow> int \<Rightarrow> user_form \<Rightarrow> 'h client \<times> (client_error + unit)" where
  "update_console_user st http c n u =
     console_write st http ''/api/admin/user/update'' (Form ((''id'', Scalar (SInt n)) # account_form u (uf_status u)))
       ''user update'' c"

definition list_groups :: "remote_settings \<Rightarrow> 'h http \<Rightarrow> 'h client \<Rightarrow> 'h client \<times> (client_error + jrow list)" where
  "list_groups st http = console_list st http ''/api/admin/group/list'' 200 []"

text \<open>\<open>GROUP_TYPE_SHARED\<close> is 2, \<open>RULE_TYPE_GROUP\<close> 2 and \<open>RULE_READ\<close> 1.\<close>

definition create_group :: "remote_settings \<Rightarrow> 'h http \<Rightarrow> 'h client \<Rightarrow> string \<Rightarrow> 'h client \<times> (client_error + unit)" where
  "create_group st http c name =
     console_write st http ''/api/admin/group/create'' (Form [(''name'', Scalar (SStr name)), (''type'', Scalar (SInt 2))])
       ''group create'' c"

definition list_collections :: "remote_settings \<Rightarrow> 'h http \<Rightarrow> 'h client \<Rightarrow> 'h client \<times> (client_error + jrow list)" where
  "list_collections st http = console_list st http ''/api/admin/address_book_collection/list'' 200 []"

definition create_collection ::
  "remote_settings \<Rightarrow> 'h http \<Rightarrow> 'h client \<Rightarrow> string \<Rightarrow> int \<Rightarrow> 'h client \<times> (client_error + unit)" where
  "create_collection st http c name owner =
     console_write st http ''/api/admin/address_book_collection/create''
       (Form [(''name'', Scalar (SStr name)), (''user_id'', Scalar (SInt owner))]) ''collection create'' c"

definition list_collection_rules :: "remote_settings \<Rightarrow> 'h http \<Rightarrow> 'h client \<Rightarrow> int \<Rightarrow> 'h client \<times> (client_error + jrow list)" where
  "list_collection_rules st http c cid =
     console_list st http ''/api/admin/address_book_collection_rule/list'' 500 [(''collection_id'', cid)] c"

definition create_collection_rule ::
  "remote_settings \<Rightarrow> 'h http \<Rightarrow> 'h client \<Rightarrow> int \<Rightarrow> int \<Rightarrow> int \<Rightarrow> 'h client \<times> (client_error + unit)" where
  "create_collection_rule st http c cid owner to_id =
     console_write st http ''/api/admin/address_book_collection_rule/create''
       (Form [(''user_id'', Scalar (SInt owner)), (''collection_id'', Scalar (SInt cid)), (''to_id'', Scalar (SInt to_id)),
         (''type'', Scalar (SInt 2)), (''rule'', Scalar (SInt 1))]) ''share rule'' c"

definition list_address_book_rows ::
  "remote_settings \<Rightarrow> 'h http \<Rightarrow> 'h client \<Rightarrow> int \<Rightarrow> int \<Rightarrow> 'h client \<times> (client_error + jrow list)" where
  "list_address_book_rows st http c owner cid =
     console_list st http ''/api/admin/address_book/list'' 2000 [(''user_id'', owner), (''collection_id'', cid)] c"

definition create_address_book_row ::
  "remote_settings \<Rightarrow> 'h http \<Rightarrow> 'h client \<Rightarrow> book_payload \<Rightarrow> 'h client \<times> (client_error + unit)" where
  "create_address_book_row st http c p =
     console_write st http ''/api/admin/address_book/create'' (Row_form None p) ''address-book add'' c"

definition update_address_book_row ::
  "remote_settings \<Rightarrow> 'h http \<Rightarrow> 'h client \<Rightarrow> int \<Rightarrow> book_payload \<Rightarrow> 'h client \<times> (client_error + unit)" where
  "update_address_book_row st http c n p =
     console_write st http ''/api/admin/address_book/update'' (Row_form (Some n) p) ''address-book update'' c"

definition delete_address_book_row ::
  "remote_settings \<Rightarrow> 'h http \<Rightarrow> 'h client \<Rightarrow> int \<Rightarrow> string \<Rightarrow> 'h client \<times> (client_error + unit)" where
  "delete_address_book_row st http c n peer =
     console_write st http ''/api/admin/address_book/delete''
       (Form [(''row_id'', Scalar (SInt n)), (''id'', Scalar (SStr peer))]) ''address-book delete'' c"

subsection \<open>The console of the service layer\<close>

text \<open>The service layer only sees that a call raised.\<close>

definition answered :: "'c \<times> ('e + 'a) \<Rightarrow> 'c \<times> 'a reply" where
  "answered x = (fst x, case snd x of Inl _ \<Rightarrow> Failed | Inr a \<Rightarrow> Reply a)"

definition rustdesk_console :: "remote_settings \<Rightarrow> 'h http \<Rightarrow> 'h client console" where
  "rustdesk_console st http = \<lparr>
     kc_peers = (\<lambda>c. answered (list_admin_peers st http c)),
     kc_users = (\<lambda>c. answered (list_console_users st http c)),
     kc_user_id = (\<lambda>c. answered (current_console_user_id st http c)),
     kc_groups = (\<lambda>c. answered (list_groups st http c)),
     kc_create_group = (\<lambda>c name. answered (create_group st http c name)),
     kc_collections = (\<lambda>c. answered (list_collections st http c)),
     kc_create_collection = (\<lambda>c name owner. answered (create_collection st http c name owner)),
     kc_rules = (\<lambda>c cid. answered (list_collection_rules st http c cid)),
     kc_create_rule = (\<lambda>c cid owner to_id. answered (create_collection_rule st http c cid owner to_id)),
     kc_book = (\<lambda>c owner cid. answered (list_address_book_rows st http c owner cid)),
     kc_add_row = (\<lambda>c p. answered (create_address_book_row st http c p)),
     kc_update_row = (\<lambda>c n p. answered (update_address_book_row st http c n p)),
     kc_delete_row = (\<lambda>c n peer. answered (delete_address_book_row st http c n peer)),
     kc_create_user = (\<lambda>c u. answered (create_console_user st http c u)),
     kc_set_password = (\<lambda>c n pw. answered (set_console_user_password st http c n pw)),
     kc_update_user = (\<lambda>c n u. answered (update_console_user st http c n u)) \<rparr>"


subsection \<open>What one call sends\<close>

text \<open>The transport with a log of what it was asked and what it answered, oldest first.\<close>

type_synonym 'h logged = "(http_request \<times> http_response reply) list \<times> 'h"

definition logged :: "'h http \<Rightarrow> 'h logged http" where
  "logged http h rq = (case http (snd h) rq of (h', a) \<Rightarrow> ((fst h @ [(rq, a)], h'), a))"

text \<open>An attempt is a login when no token is at hand, then the request under the token: at most one of each.\<close>

definition attempt :: "remote_settings \<Rightarrow> http_request \<Rightarrow> (http_request \<times> http_response reply) list \<Rightarrow> bool" where
  "attempt st rq tr \<longleftrightarrow>
     (\<exists>login call. tr = login @ call \<and> length login \<le> 1 \<and> length call \<le> 1
        \<and> list_all (\<lambda>(q, _). q = login_request st \<and> configured_token st = [] \<and> can_login st) login
        \<and> list_all (\<lambda>(q, _). \<exists>t. q = rq\<lparr>hq_headers := token_headers t\<rparr>) call)"

definition ends_refused :: "(http_request \<times> http_response reply) list \<Rightarrow> bool" where
  "ends_refused tr \<longleftrightarrow> (case rev tr of (_, Reply r) # _ \<Rightarrow> refused r | _ \<Rightarrow> False)"

definition starts_with_login :: "remote_settings \<Rightarrow> (http_request \<times> http_response reply) list \<Rightarrow> bool" where
  "starts_with_login st tr \<longleftrightarrow> (case tr of (q, _) # _ \<Rightarrow> q = login_request st | [] \<Rightarrow> False)"

lemma truthy_Some_ne: "truthy m = Some t \<Longrightarrow> t \<noteq> []"
  by (auto simp: truthy_def split: option.splits if_splits)

lemma attempt_trace:
  assumes "try_call st (logged http) rq c = (c', out)" "cl_net c = (tr, h)"
  obtains tr' h' where "cl_net c' = (tr @ tr', h')" "attempt st rq tr'" "\<And>r. out = Inr r \<Longrightarrow> ends_refused tr' = refused r"
    "cl_minted c = None \<Longrightarrow> configured_token st = [] \<Longrightarrow> can_login st \<Longrightarrow> starts_with_login st tr'"
proof -
  have send: "\<exists>a h'. cl_net (fst (console_send (logged http) rq d t)) = (fst (cl_net d) @ [(rq\<lparr>hq_headers := token_headers t\<rparr>, a)], h')
      \<and> (\<forall>r. snd (console_send (logged http) rq d t) = Inr r \<longrightarrow> a = Reply r)" for d t
    by (auto simp: console_send_def logged_def split: prod.splits reply.splits)
  show thesis
  proof (cases "configured_token st \<noteq> [] \<or> truthy (cl_minted c) \<noteq> None \<or> \<not> can_login st")
    case True
    then consider t where "console_token st (logged http) c = (c, Inr t)" "cl_minted c = None \<longrightarrow> configured_token st \<noteq> []"
      | "console_token st (logged http) c = (c, Inl No_credentials)" "\<not> can_login st"
      by (cases "configured_token st = []"; cases "truthy (cl_minted c)")
        (auto simp: console_token_def truthy_def split: option.splits)
    then show thesis
    proof cases
      case (1 t)
      obtain a h' where a: "cl_net c' = (tr @ [(rq\<lparr>hq_headers := token_headers t\<rparr>, a)], h')" "\<And>r. out = Inr r \<Longrightarrow> a = Reply r"
        using send [of c t] assms 1 by (auto simp: try_call_def)
      show thesis
      proof (rule that [OF a(1)])
        show "attempt st rq [(rq\<lparr>hq_headers := token_headers t\<rparr>, a)]"
          unfolding attempt_def by (rule exI [of _ "[]"]) auto
      qed (use a(2) 1 in \<open>auto simp: ends_refused_def split: reply.splits\<close>)
    next
      case 2
      show thesis
      proof (rule that [of "[]" h])
        show "attempt st rq []" by (simp add: attempt_def)
      qed (use assms 2 in \<open>auto simp: try_call_def\<close>)
    qed
  next
    case False
    obtain hl al where l: "http h (login_request st) = (hl, al)" by fastforce
    let ?d = "c\<lparr>cl_net := (tr @ [(login_request st, al)], hl)\<rparr>"
    have "console_token st (logged http) c = (case al of
        Failed \<Rightarrow> (?d, Inl Console_unreachable)
      | Reply r \<Rightarrow> (case token_of r of
            None \<Rightarrow> (?d, Inl (Login_failed (hr_status r)))
          | Some t \<Rightarrow> (?d\<lparr>cl_minted := Some t\<rparr>, Inr t)))"
      using False l assms(2)
      by (auto simp: console_token_def console_mint_def logged_def split: reply.splits option.splits)
    then consider e where "console_token st (logged http) c = (?d, Inl e)"
      | t where "console_token st (logged http) c = (?d\<lparr>cl_minted := Some t\<rparr>, Inr t)"
      by (cases al; cases "case al of Reply r \<Rightarrow> token_of r | Failed \<Rightarrow> None") auto
    then show thesis
    proof cases
      case (1 e)
      show thesis
      proof (rule that [of "[(login_request st, al)]" hl])
        show "attempt st rq [(login_request st, al)]"
          unfolding attempt_def using False by - (rule exI [of _ "[(login_request st, al)]"], auto)
      qed (use 1 assms in \<open>auto simp: try_call_def starts_with_login_def\<close>)
    next
      case (2 t)
      obtain a h' where a: "cl_net c' = (tr @ [(login_request st, al), (rq\<lparr>hq_headers := token_headers t\<rparr>, a)], h')"
        "\<And>r. out = Inr r \<Longrightarrow> a = Reply r"
        using send [of "?d\<lparr>cl_minted := Some t\<rparr>" t] assms 2 by (auto simp: try_call_def)
      show thesis
      proof (rule that [OF a(1)])
        show "attempt st rq [(login_request st, al), (rq\<lparr>hq_headers := token_headers t\<rparr>, a)]"
          unfolding attempt_def using False by - (rule exI [of _ "[(login_request st, al)]"], auto)
      qed (use a(2) in \<open>auto simp: ends_refused_def starts_with_login_def split: reply.splits\<close>)
    qed
  qed
qed

text \<open>A console call sends its request at most twice, the second time only after a 401 or 403 and under a token of a new
  login; it never hands a refused answer to the caller, and sends nothing when remote access is off.\<close>

theorem console_calls_retry_once:
  "case console_request st (logged http) verb path params fm \<lparr>cl_minted = m, cl_net = ([], h)\<rparr> of (c', out) \<Rightarrow>
     (\<exists>first again.
        let rq = \<lparr>hq_verb = verb, hq_url = console_base st @ path, hq_headers = [], hq_params = params, hq_form = fm\<rparr> in
        fst (cl_net c') = first @ again \<and> attempt st rq first
        \<and> (again = [] \<or> (attempt st rq again \<and> ends_refused first \<and> starts_with_login st again))
        \<and> (console_enabled st \<or> first @ again = []))
     \<and> (case out of Inr r \<Rightarrow> \<not> refused r | Inl _ \<Rightarrow> True)"
proof (cases "console_enabled st")
  case False
  then show ?thesis by (simp add: console_request_def attempt_def)
next
  case True
  define rq where "rq = \<lparr>hq_verb = verb, hq_url = console_base st @ path, hq_headers = [], hq_params = params, hq_form = fm\<rparr>"
  let ?c = "\<lparr>cl_minted = m, cl_net = ([], h)\<rparr>"
  obtain c1 o1 where t1: "try_call st (logged http) rq ?c = (c1, o1)" by fastforce
  obtain tr1 h1 where a1: "cl_net c1 = (tr1, h1)" "attempt st rq tr1" "\<And>r. o1 = Inr r \<Longrightarrow> ends_refused tr1 = refused r"
    using attempt_trace [OF t1] by (metis append_Nil client.select_convs(2))
  let ?again = "\<exists>r. o1 = Inr r \<and> refused r \<and> configured_token st = [] \<and> can_login st"
  show ?thesis
  proof (cases ?again)
    case True
    then obtain r1 where r1: "o1 = Inr r1" "refused r1" "configured_token st = []" "can_login st" by blast
    obtain c2 o2 where t2: "try_call st (logged http) rq (c1\<lparr>cl_minted := None\<rparr>) = (c2, o2)" by fastforce
    obtain tr2 h2 where a2: "cl_net c2 = (tr1 @ tr2, h2)" "attempt st rq tr2" "starts_with_login st tr2"
      by (rule attempt_trace [OF t2, of tr1 h1]) (use a1(1) r1(3,4) that in auto)
    have run: "console_request st (logged http) verb path params fm ?c
      = on_value (c2, o2) (\<lambda>c r. if refused r then (c, Inl Token_rejected) else (c, Inr r))"
      using \<open>console_enabled st\<close> t1 t2 r1 by (simp add: console_request_def Let_def flip: rq_def)
    show ?thesis unfolding run rq_def [symmetric] Let_def
      by (cases o2) (use a1 a2 r1 \<open>console_enabled st\<close> in auto)
  next
    case False
    have run: "console_request st (logged http) verb path params fm ?c
      = on_value (c1, o1) (\<lambda>c r. if refused r then (c, Inl Token_rejected) else (c, Inr r))"
      using \<open>console_enabled st\<close> t1 False by (cases o1) (auto simp add: console_request_def Let_def simp flip: rq_def)
    show ?thesis unfolding run rq_def [symmetric] Let_def
      by (cases o1) (use a1 \<open>console_enabled st\<close> in auto)
  qed
qed

subsection \<open>An expired token\<close>

text \<open>What a console with a working service account does: a login answers a token it then accepts, and a request is refused
  exactly when its token is not accepted.\<close>

definition accepting_console :: "remote_settings \<Rightarrow> 'h http \<Rightarrow> ('h \<Rightarrow> string \<Rightarrow> bool) \<Rightarrow> bool" where
  "accepting_console st http valid \<longleftrightarrow>
     (\<forall>h. \<exists>h' r t. http h (login_request st) = (h', Reply r) \<and> token_of r = Some t \<and> valid h' t)
     \<and> (\<forall>h rq t. hq_headers rq = token_headers t \<longrightarrow> (\<exists>h' r. http h rq = (h', Reply r) \<and> (refused r \<longleftrightarrow> \<not> valid h t)))"

lemma accepting_answers:
  assumes "accepting_console st http valid"
  shows "\<exists>h' r. http h (rq\<lparr>hq_headers := token_headers t\<rparr>) = (h', Reply r) \<and> (refused r \<longleftrightarrow> \<not> valid h t)"
proof -
  have "hq_headers (rq\<lparr>hq_headers := token_headers t\<rparr>) = token_headers t" by simp
  with assms show ?thesis unfolding accepting_console_def by blast
qed

lemma fresh_token_accepted:
  assumes "accepting_console st http valid" "configured_token st = []" "can_login st" "truthy (cl_minted c) = None"
  obtains c' r t where "try_call st http rq c = (c', Inr r)" "\<not> refused r" "cl_minted c' = Some t"
proof -
  obtain h' r t where l: "http (cl_net c) (login_request st) = (h', Reply r)" "token_of r = Some t" "valid h' t"
    using assms(1) unfolding accepting_console_def by blast
  obtain h2 r2 where s: "http h' (rq\<lparr>hq_headers := token_headers t\<rparr>) = (h2, Reply r2)" "\<not> refused r2"
    using accepting_answers [OF assms(1), where rq = rq and t = t] l(3) by blast
  show thesis
    by (rule that [of "c\<lparr>cl_net := h2, cl_minted := Some t\<rparr>" r2 t])
      (use assms(2-4) l s in \<open>simp_all add: try_call_def console_token_def console_mint_def console_send_def\<close>)
qed

lemma minting_recovers:
  assumes "accepting_console st http valid" "console_enabled st" "configured_token st = []"
  shows "\<exists>c' r t. console_request st http verb path params fm c = (c', Inr r) \<and> \<not> refused r \<and> cl_minted c' = Some t"
proof -
  have login: "can_login st" using assms(2,3) by (simp add: console_enabled_def)
  let ?rq = "\<lparr>hq_verb = verb, hq_url = console_base st @ path, hq_headers = [], hq_params = params, hq_form = fm\<rparr>"
  show ?thesis
  proof (cases "truthy (cl_minted c)")
    case None
    obtain c' r t where "try_call st http ?rq c = (c', Inr r)" "\<not> refused r" "cl_minted c' = Some t"
      by (rule fresh_token_accepted [OF assms(1,3) login None])
    then show ?thesis using assms(2) by (simp add: console_request_def Let_def)
  next
    case (Some t)
    obtain h r where s: "http (cl_net c) (?rq\<lparr>hq_headers := token_headers t\<rparr>) = (h, Reply r)"
      using accepting_answers [OF assms(1)] by blast
    have first: "try_call st http ?rq c = (c\<lparr>cl_net := h\<rparr>, Inr r)"
      using Some s assms(3) by (simp add: try_call_def console_token_def console_send_def)
    show ?thesis
    proof (cases "refused r")
      case False
      with first assms(2) Some show ?thesis by (auto simp: console_request_def Let_def truthy_def split: option.splits if_splits)
    next
      case True
      obtain c' r' t' where "try_call st http ?rq (c\<lparr>cl_net := h, cl_minted := None\<rparr>) = (c', Inr r')" "\<not> refused r'" "cl_minted c' = Some t'"
        by (rule fresh_token_accepted [OF assms(1,3) login, of "c\<lparr>cl_net := h, cl_minted := None\<rparr>"]) (simp add: truthy_def)
      with first True assms(2,3) login show ?thesis by (simp add: console_request_def Let_def)
    qed
  qed
qed

text \<open>A preset token is sent as it is, and no other one is asked for.\<close>

lemma preset_is_final:
  assumes "accepting_console st http valid" "console_enabled st" "configured_token st \<noteq> []"
  shows "case console_request st http verb path params fm c of
           (c', Inr r) \<Rightarrow> valid (cl_net c) (configured_token st) \<and> \<not> refused r \<and> cl_minted c' = cl_minted c
         | (c', Inl err) \<Rightarrow> \<not> valid (cl_net c) (configured_token st) \<and> err = Token_rejected \<and> cl_minted c' = cl_minted c"
proof -
  let ?rq = "\<lparr>hq_verb = verb, hq_url = console_base st @ path, hq_headers = [], hq_params = params, hq_form = fm\<rparr>"
  obtain h r where s: "http (cl_net c) (?rq\<lparr>hq_headers := token_headers (configured_token st)\<rparr>) = (h, Reply r)"
      "refused r \<longleftrightarrow> \<not> valid (cl_net c) (configured_token st)"
    using accepting_answers [OF assms(1)] by blast
  have "try_call st http ?rq c = (c\<lparr>cl_net := h\<rparr>, Inr r)"
    using s(1) assms(3) by (simp add: try_call_def console_token_def console_send_def)
  then show ?thesis using s(2) assms(2,3) by (simp add: console_request_def Let_def)
qed

text \<open>C24: On a console that accepts its own fresh tokens: without a preset token (RUSTDESK_API_TOKEN) every call is answered,
  whatever token the process has cached, revoked or expired or none, and leaves a token cached. With a preset token a call is
  answered exactly while the console accepts that token; once it does not, every call fails, although a login would
  succeed, and no token is minted.\<close>

theorem expired_token_recovers:
  assumes "accepting_console st http valid" "console_enabled st"
  shows "if configured_token st = []
         then \<exists>c' r t. console_request st http verb path params fm c = (c', Inr r) \<and> \<not> refused r \<and> cl_minted c' = Some t
         else (case console_request st http verb path params fm c of
                 (c', Inr r) \<Rightarrow> valid (cl_net c) (configured_token st) \<and> \<not> refused r \<and> cl_minted c' = cl_minted c
               | (c', Inl err) \<Rightarrow> \<not> valid (cl_net c) (configured_token st) \<and> err = Token_rejected \<and> cl_minted c' = cl_minted c)"
  using minting_recovers [OF assms] preset_is_final [OF assms] by simp

text \<open>A console whose one valid token is the number of its last login.\<close>

definition demo_http :: "nat http" where
  "demo_http n rq =
     (if hq_headers rq = [] then (n + 1, Reply \<lparr>hr_status = 200,
          hr_json = Some (JObj [(''code'', Scalar (SInt 0)), (''data'', JObj [(''token'', Scalar (SStr (''t'' @ show_nat (n + 1))))])])\<rparr>)
      else if hq_headers rq = token_headers (''t'' @ show_nat n)
      then (n, Reply \<lparr>hr_status = 200, hr_json = Some (JObj [(''data'', JList [])])\<rparr>)
      else (n, Reply \<lparr>hr_status = 401, hr_json = None\<rparr>))"

definition demo_client_settings :: remote_settings where
  "demo_client_settings = demo_settings\<lparr>rs_enabled := True, rs_api_url := ''http://rd/'', rs_api_token := [],
     rs_admin_username := ''svc'', rs_admin_password := ''pw''\<rparr>"

lemma demo_client_credentials:
  "configured_token demo_client_settings = []" "can_login demo_client_settings" "console_enabled demo_client_settings"
  by (simp_all add: configured_token_def can_login_def console_enabled_def demo_client_settings_def strip_def lstrip_def rstrip_def is_space_def)

lemma demo_http_accepting: "accepting_console demo_client_settings demo_http (\<lambda>n t. t = ''t'' @ show_nat n)"
  by (auto simp: accepting_console_def demo_http_def login_request_def token_of_def envelope_def field_def scalar_true_def
      scalar_str_def token_headers_def refused_def)

theorem expired_token_recovers_witness:
  "\<exists>c' r t. console_request demo_client_settings demo_http GET ''/api/peers'' [] No_form \<lparr>cl_minted = Some ''t0'', cl_net = 7\<rparr> = (c', Inr r)
     \<and> \<not> refused r \<and> cl_minted c' = Some t"
  using expired_token_recovers [OF demo_http_accepting demo_client_credentials(3)] demo_client_credentials(1) by simp

end
