(* ===== verification/Remote_Access.thy ===== *)
theory Remote_Access
  imports Remote_Push Rustdesk_Client
begin

section \<open>Remote access: what the API serves and the periodic sync\<close>

text \<open>
  \<open>app/domains/remote_access/schemas.py\<close> (the validators and the public view of a device), the routes of
  \<open>app/api/routes/remote_access.py\<close> and \<open>remote_access_push.py\<close>, and \<open>remote_access_sync_task\<close> of
  \<open>app/worker/tasks.py\<close>. A route works on the device table (and jobs, accounts, console state) and answers an
  HTTP error or a value. Authentication of operators is the routes' dependency and precedes them.
\<close>

datatype api_error = Bad_request | Unauthorized | Not_found | Conflict | Unprocessable | Internal_error | Not_available

subsection \<open>Validators\<close>

definition host_char :: "char \<Rightarrow> bool" where
  "host_char ch \<longleftrightarrow> of_char ch < (128 :: nat) \<and> (is_alnum ch \<or> ch \<in> {CHR ''.'', CHR ''_'', CHR ''-''})"

definition valid_hostname :: "string \<Rightarrow> bool" where
  "valid_hostname s \<longleftrightarrow> 1 \<le> length s \<and> length s \<le> 255 \<and> list_all host_char s"

definition valid_username :: "string \<Rightarrow> bool" where
  "valid_username s \<longleftrightarrow> 2 \<le> length s \<and> length s \<le> 32 \<and> list_all host_char s"

definition rid_char :: "char \<Rightarrow> bool" where
  "rid_char ch \<longleftrightarrow> of_char ch < (128 :: nat) \<and> word_char ch"

text \<open>\<open>Inl ()\<close>: the ValueError.\<close>

definition validate_rid :: "string option \<Rightarrow> unit + string option" where
  "validate_rid v = (case v of
       None \<Rightarrow> Inr None
     | Some w \<Rightarrow> (let s = strip w in
         if s = [] then Inr None
         else if length s > 32 \<or> \<not> list_all rid_char s then Inl () else Inr (Some s)))"

definition valid_profile :: "string \<Rightarrow> bool" where
  "valid_profile p \<longleftrightarrow> p \<in> {''client'', ''admin''}"

definition longer_than :: "nat \<Rightarrow> 'a list option \<Rightarrow> bool" where
  "longer_than n v = (case v of None \<Rightarrow> False | Some w \<Rightarrow> length w > n)"

text \<open>\<open>DeployReport\<close>: the report with its id validated, or a 422.\<close>

definition validate_report :: "deploy_report \<Rightarrow> unit + deploy_report" where
  "validate_report rp =
     (if \<not> valid_hostname (dr_hostname rp) \<or> dr_state rp \<notin> {''pending'', ''installed'', ''configured'', ''failed''}
         \<or> longer_than 32 (dr_version rp) \<or> longer_than 512 (dr_detail rp) \<or> longer_than 64 (dr_os_edition rp)
         \<or> longer_than 128 (dr_os_caption rp) then Inl ()
      else map_sum id (\<lambda>r. rp\<lparr>dr_rustdesk_id := r\<rparr>) (validate_rid (dr_rustdesk_id rp)))"

text \<open>\<open>DeviceEnsureRequest\<close>: hostname, id and password (stripped, empty is none).\<close>

record ensure_request =
  er_hostname :: string
  er_rustdesk_id :: "string option"
  er_password :: "string option"

definition validate_ensure :: "ensure_request \<Rightarrow> unit + ensure_request" where
  "validate_ensure rq =
     (if \<not> valid_hostname (er_hostname rq) \<or> longer_than 128 (er_password rq) then Inl ()
      else map_sum id (\<lambda>r. rq\<lparr>er_rustdesk_id := r, er_password := truthy (map_option strip (er_password rq))\<rparr>)
             (validate_rid (er_rustdesk_id rq)))"

subsection \<open>The public view of a device\<close>

record device_public =
  dp_id :: uid
  dp_hostname :: string
  dp_location :: "ustr option"
  dp_source_kind :: string
  dp_type_tag :: "string option"
  dp_computer_id :: "uid option"
  dp_media_player_id :: "uid option"
  dp_cash_register_id :: "uid option"
  dp_rustdesk_id :: "string option"
  dp_has_password :: bool
  dp_rotated_at :: "instant option"
  dp_profile :: string
  dp_hidden :: bool
  dp_block_outgoing :: bool
  dp_unattended :: bool
  dp_managed :: bool
  dp_in_book :: bool
  dp_ab_pushed :: bool
  dp_state :: string
  dp_detail :: "ustr option"
  dp_requested_at :: "instant option"
  dp_reported_at :: "instant option"
  dp_readiness :: string
  dp_version :: "string option"
  dp_os_edition :: "string option"
  dp_os_caption :: "ustr option"
  dp_applocker :: "bool option"
  dp_applocker_mismatch :: bool
  dp_online :: "bool option"
  dp_user :: "string option"
  dp_last_ip :: "string option"
  dp_last_seen_at :: "instant option"
  dp_host_online :: "bool option"
  dp_host_seen_at :: "instant option"
  dp_created_at :: instant

definition to_public :: "instant \<Rightarrow> ra_device \<Rightarrow> device_public" where
  "to_public now d = \<lparr>dp_id = rd_id d, dp_hostname = rd_hostname d, dp_location = rd_location d,
     dp_source_kind = rd_source_kind d, dp_type_tag = hostname_type_tag (rd_hostname d),
     dp_computer_id = rd_computer_id d, dp_media_player_id = rd_media_player_id d,
     dp_cash_register_id = rd_cash_register_id d, dp_rustdesk_id = rd_rustdesk_id d,
     dp_has_password = (rd_password d \<noteq> []), dp_rotated_at = rd_rotated_at d, dp_profile = rd_profile d,
     dp_hidden = rd_hidden d, dp_block_outgoing = rd_block_outgoing d, dp_unattended = rd_unattended d,
     dp_managed = rd_managed d, dp_in_book = rd_in_book d, dp_ab_pushed = rd_ab_pushed d,
     dp_state = rd_state d, dp_detail = rd_detail d, dp_requested_at = rd_requested_at d,
     dp_reported_at = rd_reported_at d, dp_readiness = readiness now d, dp_version = rd_version d,
     dp_os_edition = rd_os_edition d, dp_os_caption = rd_os_caption d, dp_applocker = rd_applocker d,
     dp_applocker_mismatch = (rd_block_outgoing d \<and> rd_applocker d = Some False),
     dp_online = rd_online d, dp_user = rd_user d, dp_last_ip = rd_last_ip d, dp_last_seen_at = rd_last_seen_at d,
     dp_host_online = rd_host_online d, dp_host_seen_at = rd_host_seen_at d, dp_created_at = rd_created_at d\<rparr>"

subsection \<open>Listing\<close>

text \<open>SQL \<open>LIKE\<close>: \<open>%\<close> is any text, \<open>_\<close> any character, a backslash escapes the next character. A pattern ending in a
  lone backslash, an error of the database, does not occur below: the pattern ends in \<open>%\<close>.\<close>

fun sql_like :: "string \<Rightarrow> string \<Rightarrow> bool" where
  "sql_like [] s = (s = [])"
| "sql_like (p # ps) s =
     (if p = CHR ''%'' then (case s of [] \<Rightarrow> sql_like ps [] | x # xs \<Rightarrow> sql_like ps s \<or> sql_like (p # ps) xs)
      else if p = CHR 0x5C then
        (case ps of [] \<Rightarrow> False | q # qs \<Rightarrow> (case s of [] \<Rightarrow> False | x # xs \<Rightarrow> x = q \<and> sql_like qs xs))
      else (case s of [] \<Rightarrow> False | x # xs \<Rightarrow> (p = CHR ''_'' \<or> x = p) \<and> sql_like ps xs))"

definition sql_ilike :: "string \<Rightarrow> string \<Rightarrow> bool" where
  "sql_ilike p s \<longleftrightarrow> sql_like (lower p) (lower s)"

record device_query =
  dq_text :: "string option"
  dq_location :: "ustr option"
  dq_source_kind :: "string option"
  dq_hostnames :: "string option"
  dq_include_unmanaged :: bool
  dq_skip :: nat
  dq_limit :: nat

definition wanted_names :: "string \<Rightarrow> string list" where
  "wanted_names hs = filter (\<lambda>h. h \<noteq> []) (map strip (split_on CHR '','' hs))"

definition query_selects :: "device_query \<Rightarrow> ra_device \<Rightarrow> bool" where
  "query_selects q d \<longleftrightarrow>
     (dq_include_unmanaged q \<or> rd_managed d)
     \<and> (case truthy (dq_hostnames q) of None \<Rightarrow> True | Some hs \<Rightarrow> rd_hostname d \<in> set (wanted_names hs))
     \<and> (case truthy (dq_text q) of None \<Rightarrow> True
        | Some t \<Rightarrow> let like = CHR ''%'' # strip t @ ''%'' in
            sql_ilike like (rd_hostname d) \<or> (case rd_rustdesk_id d of None \<Rightarrow> False | Some r \<Rightarrow> sql_ilike like r))
     \<and> (case truthy (dq_location q) of None \<Rightarrow> True | Some l \<Rightarrow> rd_location d = Some l)
     \<and> (case truthy (dq_source_kind q) of None \<Rightarrow> True | Some k \<Rightarrow> rd_source_kind d = k)"

text \<open>The page and the total; \<open>collate\<close> is the database's order on hostnames.\<close>

definition list_devices ::
  "(string \<Rightarrow> 'k::linorder) \<Rightarrow> instant \<Rightarrow> device_query \<Rightarrow> ra_device list \<Rightarrow> device_public list \<times> nat" where
  "list_devices collate now q tab =
     (let hits = filter (query_selects q) tab
      in (map (to_public now) (take (dq_limit q) (drop (dq_skip q) (sort_key (\<lambda>d. collate (rd_hostname d)) hits))), length hits))"


subsection \<open>Changing one device\<close>

text \<open>\<open>DeviceDesiredUpdate\<close>: the outer option is whether the field was sent, the inner one its value or null.\<close>

record device_update =
  du_hidden :: "bool option option"
  du_block_outgoing :: "bool option option"
  du_unattended :: "bool option option"
  du_managed :: "bool option option"
  du_location :: "ustr option option"
  du_rustdesk_id :: "string option option"

definition sent :: "'a option \<Rightarrow> 'a \<Rightarrow> 'a" where
  "sent v old = (case v of None \<Rightarrow> old | Some x \<Rightarrow> x)"

definition sent_flag :: "bool option option \<Rightarrow> bool \<Rightarrow> bool" where
  "sent_flag v old = (case v of Some (Some b) \<Rightarrow> b | _ \<Rightarrow> old)"

text \<open>A null in a column that must not be null fails when it is stored (\<open>None\<close>).\<close>

definition update_device :: "device_update \<Rightarrow> ra_device \<Rightarrow> ra_device option" where
  "update_device u dev =
     (let d = dev\<lparr>rd_hidden := sent_flag (du_hidden u) (rd_hidden dev),
                 rd_block_outgoing := sent_flag (du_block_outgoing u) (rd_block_outgoing dev),
                 rd_unattended := sent_flag (du_unattended u) (rd_unattended dev),
                 rd_managed := sent_flag (du_managed u) (rd_managed dev),
                 rd_location := sent (du_location u) (rd_location dev),
                 rd_rustdesk_id := sent (du_rustdesk_id u) (rd_rustdesk_id dev)\<rparr>
      in if Some None \<in> {du_hidden u, du_block_outgoing u, du_unattended u, du_managed u} then None
         else Some (if du_hidden u \<noteq> None \<or> du_block_outgoing u \<noteq> None \<or> du_unattended u \<noteq> None \<or> du_rustdesk_id u \<noteq> None
                    then mark_config_stale d else d))"

text \<open>The routes on one device row: 404 without it, the changed row stored and shown.\<close>

definition on_device ::
  "instant \<Rightarrow> uid \<Rightarrow> (ra_device \<Rightarrow> api_error + ra_device) \<Rightarrow> ra_device list \<Rightarrow> ra_device list \<times> (api_error + device_public)" where
  "on_device now i f tab =
     (case find_row rd_id i tab of
        None \<Rightarrow> (tab, Inl Not_found)
      | Some dev \<Rightarrow> (case f dev of Inl e \<Rightarrow> (tab, Inl e) | Inr d \<Rightarrow> (put_row rd_id d tab, Inr (to_public now d))))"

definition or_error :: "'e \<Rightarrow> 'a option \<Rightarrow> 'e + 'a" where
  "or_error e v = (case v of None \<Rightarrow> Inl e | Some a \<Rightarrow> Inr a)"

definition update_device_route :: "instant \<Rightarrow> uid \<Rightarrow> device_update \<Rightarrow> ra_device list \<Rightarrow> ra_device list \<times> (api_error + device_public)" where
  "update_device_route now i u tab =
     (case (case du_rustdesk_id u of None \<Rightarrow> Inr None | Some v \<Rightarrow> map_sum id Some (validate_rid v)) of
        Inl _ \<Rightarrow> (tab, Inl Unprocessable)
      | Inr r \<Rightarrow> on_device now i (\<lambda>d. or_error Internal_error (update_device (u\<lparr>du_rustdesk_id := r\<rparr>) d)) tab)"

definition set_device_profile :: "instant \<Rightarrow> uid \<Rightarrow> string \<Rightarrow> ra_device list \<Rightarrow> ra_device list \<times> (api_error + device_public)" where
  "set_device_profile now i p tab =
     (if \<not> valid_profile p then (tab, Inl Unprocessable)
      else on_device now i (\<lambda>d. or_error Internal_error (apply_deploy_profile now p d)) tab)"

definition ensure_device_route ::
  "remote_settings \<Rightarrow> random_source \<Rightarrow> instant \<Rightarrow> inventory \<Rightarrow> ensure_request \<Rightarrow> ra_device list
   \<Rightarrow> ra_device list \<times> (api_error + device_public)" where
  "ensure_device_route cfg src now iv rq tab =
     (case validate_ensure rq of
        Inl _ \<Rightarrow> (tab, Inl Unprocessable)
      | Inr r \<Rightarrow> (case ensure_device cfg src now iv (er_hostname r) (er_rustdesk_id r) (er_password r) tab of
            (d, tab') \<Rightarrow> (tab', Inr (to_public now d))))"

definition rotate_password_route ::
  "random_source \<Rightarrow> instant \<Rightarrow> uid \<Rightarrow> ra_device list \<Rightarrow> ra_device list \<times> (api_error + device_public)" where
  "rotate_password_route src now i tab = on_device now i (\<lambda>d. Inr (rotate_password src now d)) tab"

text \<open>The table, the call to the console that follows, and the hostname of the message.\<close>

definition delete_device_route ::
  "instant \<Rightarrow> uid \<Rightarrow> ra_device list \<Rightarrow> ra_device list \<times> (api_error + (int \<times> string) option \<times> string)" where
  "delete_device_route now i tab =
     (case find_row rd_id i tab of
        None \<Rightarrow> (tab, Inl Not_found)
      | Some dev \<Rightarrow> (case delete_device now dev tab of (tab', call) \<Rightarrow> (tab', Inr (call, rd_hostname dev))))"

definition device_package :: "remote_settings \<Rightarrow> (nat \<Rightarrow> nat) \<Rightarrow> uid \<Rightarrow> ra_device list \<Rightarrow> api_error + package" where
  "device_package cfg draw i tab =
     (case find_row rd_id i tab of None \<Rightarrow> Inl Not_found | Some dev \<Rightarrow> Inr (package_config cfg draw dev))"

definition request_deploy ::
  "remote_settings \<Rightarrow> (nat \<Rightarrow> nat) \<Rightarrow> instant \<Rightarrow> uid \<Rightarrow> ra_device list \<Rightarrow> ra_device list \<times> (api_error + device_public)" where
  "request_deploy cfg draw now i tab =
     on_device now i (\<lambda>d. Inr (mark_deploy_requested now
       (if rd_password d = [] then d\<lparr>rd_password := default_password cfg draw\<rparr> else d))) tab"

subsection \<open>Console machines the list does not know, accounts and the book\<close>

record unlisted_page =
  ul_data :: "unlisted_peer list"
  ul_nameless :: nat
  ul_reachable :: bool

definition unlisted_console_peers ::
  "'c console \<Rightarrow> remote_settings \<Rightarrow> instant \<Rightarrow> ra_device list \<Rightarrow> 'c \<Rightarrow> 'c \<times> unlisted_page" where
  "unlisted_console_peers kc cfg now tab c =
     (let down = \<lparr>ul_data = [], ul_nameless = 0, ul_reachable = False\<rparr> in
      if \<not> console_enabled cfg then (c, down)
      else (case kc_peers kc c of
              (c', Failed) \<Rightarrow> (c', down)
            | (c', Reply peers) \<Rightarrow> (case list_unlisted cfg now peers tab of
                (items, k) \<Rightarrow> (c', \<lparr>ul_data = items, ul_nameless = k, ul_reachable = True\<rparr>))))"

definition adopt_console_peer ::
  "remote_settings \<Rightarrow> random_source \<Rightarrow> instant \<Rightarrow> inventory \<Rightarrow> string \<Rightarrow> string option \<Rightarrow> ra_device list
   \<Rightarrow> ra_device list \<times> (api_error + device_public)" where
  "adopt_console_peer cfg src now iv hostname profile tab =
     (if \<not> valid_hostname hostname \<or> (case profile of None \<Rightarrow> False | Some p \<Rightarrow> \<not> valid_profile p) then (tab, Inl Unprocessable)
      else (case adopt_peer cfg src now iv hostname profile tab of
              (None, tab') \<Rightarrow> (tab', Inl Internal_error)
            | (Some d, tab') \<Rightarrow> (tab', Inr (to_public now d))))"

definition dismiss_console_peer ::
  "remote_settings \<Rightarrow> random_source \<Rightarrow> instant \<Rightarrow> string \<Rightarrow> ra_device list \<Rightarrow> ra_device list \<times> (api_error + unit)" where
  "dismiss_console_peer cfg src now hostname tab =
     (if \<not> valid_hostname hostname then (tab, Inl Unprocessable)
      else (dismiss_peer cfg src now hostname tab, Inr ()))"

text \<open>An exception of the service is a 500 (or the 502 and 503 the client raises: not told apart here).\<close>

definition answer :: "'c \<times> 'a reply \<Rightarrow> 'c \<times> (api_error + 'a)" where
  "answer x = (fst x, case snd x of Failed \<Rightarrow> Inl Internal_error | Reply a \<Rightarrow> Inr a)"

definition reset_password_route ::
  "'c console \<Rightarrow> random_source \<Rightarrow> instant \<Rightarrow> uid \<Rightarrow> string option \<Rightarrow> ra_account list \<Rightarrow> 'c
   \<Rightarrow> 'c \<times> ra_account list \<times> (api_error + ra_account \<times> string)" where
  "reset_password_route kc src now i pw accts c =
     (if (case pw of None \<Rightarrow> False | Some p \<Rightarrow> length p < 8 \<or> length p > 64) then (c, accts, Inl Unprocessable)
      else case find_row ac_id i accts of
        None \<Rightarrow> (c, accts, Inl Not_found)
      | Some acct \<Rightarrow> (case reset_account_password kc src now pw acct c of
            (c', Failed) \<Rightarrow> (c', accts, Inl Internal_error)
          | (c', Reply (a, secret)) \<Rightarrow> (c', put_row ac_id a accts, Inr (a, secret))))"

definition set_active_route ::
  "'c console \<Rightarrow> remote_settings \<Rightarrow> instant \<Rightarrow> uid \<Rightarrow> bool \<Rightarrow> ra_account list \<Rightarrow> 'c
   \<Rightarrow> 'c \<times> ra_account list \<times> (api_error + ra_account)" where
  "set_active_route kc cfg now i on accts c =
     (case find_row ac_id i accts of
        None \<Rightarrow> (c, accts, Inl Not_found)
      | Some acct \<Rightarrow> (case set_account_active kc cfg now on acct c of
            (c', Failed) \<Rightarrow> (c', accts, Inl Internal_error)
          | (c', Reply a) \<Rightarrow> (c', put_row ac_id a accts, Inr a)))"

definition address_book_sync_route ::
  "'c console \<Rightarrow> remote_settings \<Rightarrow> random_source \<Rightarrow> instant \<Rightarrow> uid list option \<Rightarrow> ustr option \<Rightarrow> string option
   \<Rightarrow> ra_device list \<Rightarrow> 'c \<Rightarrow> 'c \<times> ra_device list \<times> (api_error + push_counts)" where
  "address_book_sync_route kc cfg src now ids loc kind tab c =
     (if (case kind of None \<Rightarrow> False | Some k \<Rightarrow> k \<notin> {''cash_register'', ''computer'', ''media_player''})
      then (c, tab, Inl Unprocessable)
      else let devices = resolve_scope ids loc (ids = None) kind tab in
        if devices = [] then (c, tab, Inl Bad_request)
        else (case push_shared_address_book kc cfg src now devices (tab, tab) c of
                (c', s, r) \<Rightarrow> (c', fst s, snd (answer (c', r)))))"

subsection \<open>The rollout's own routes\<close>

definition deploy_ready :: "remote_settings \<Rightarrow> bool" where
  "deploy_ready cfg \<longleftrightarrow> strip (rs_deploy_token cfg) \<noteq> [] \<and> strip (rs_public_url cfg) \<noteq> []"

text \<open>The header \<open>x-real-ip\<close> and the peer address of the connection.\<close>

record http_caller =
  ca_real_ip :: "string option"
  ca_peer :: "string option"

definition client_ip :: "http_caller \<Rightarrow> string option" where
  "client_ip ca = (case truthy (ca_real_ip ca) of Some r \<Rightarrow> Some (strip r) | None \<Rightarrow> ca_peer ca)"

definition rate_limit_key :: "http_caller \<Rightarrow> string" where
  "rate_limit_key ca = (case truthy (client_ip ca) of Some r \<Rightarrow> r | None \<Rightarrow> ''unknown'')"

definition is_ascii :: "string \<Rightarrow> bool" where
  "is_ascii s \<longleftrightarrow> list_all (\<lambda>ch. of_char ch < (128 :: nat)) s"

text \<open>\<open>hmac.compare_digest\<close> on texts raises a \<open>TypeError\<close> unless both are ASCII.\<close>

definition require_deploy_token :: "remote_settings \<Rightarrow> string option \<Rightarrow> api_error + unit" where
  "require_deploy_token cfg header =
     (let expected = strip (rs_deploy_token cfg) in
      if expected = [] then Inl Not_available
      else case truthy header of
             None \<Rightarrow> Inl Unauthorized
           | Some t \<Rightarrow> if \<not> (is_ascii t \<and> is_ascii expected) then Inl Internal_error
                       else if t \<noteq> expected then Inl Unauthorized else Inr ())"

definition deploy_config ::
  "remote_settings \<Rightarrow> (nat \<Rightarrow> nat) \<Rightarrow> (string \<Rightarrow> string option) \<Rightarrow> http_caller \<Rightarrow> string option \<Rightarrow> string \<Rightarrow> ra_device list
   \<Rightarrow> api_error + endpoint_config" where
  "deploy_config cfg draw resolve ca header hostname tab =
     (case require_deploy_token cfg header of
        Inl e \<Rightarrow> Inl e
      | Inr _ \<Rightarrow>
          if \<not> valid_hostname hostname then Inl Unprocessable
          else (case find_device hostname tab of
                  None \<Rightarrow> Inl Not_found
                | Some dev \<Rightarrow>
                    if \<not> rd_managed dev then Inl Not_found
                    else if \<not> verify_deploy_source resolve dev (client_ip ca) then Inl Not_found
                    else Inr (deployment_config cfg draw dev)))"

definition deploy_report_route ::
  "remote_settings \<Rightarrow> instant \<Rightarrow> string option \<Rightarrow> deploy_report \<Rightarrow> ra_device list \<Rightarrow> ra_device list \<times> (api_error + string \<times> string)" where
  "deploy_report_route cfg now header rp tab =
     (case require_deploy_token cfg header of
        Inl e \<Rightarrow> (tab, Inl e)
      | Inr _ \<Rightarrow> (case validate_report rp of
          Inl _ \<Rightarrow> (tab, Inl Unprocessable)
        | Inr r \<Rightarrow> (case apply_deploy_report now r tab of
            (None, tab') \<Rightarrow> (tab', Inl Not_found)
          | (Some d, tab') \<Rightarrow> (tab', Inr (rd_hostname d, rd_state d)))))"

subsection \<open>The push routes\<close>

definition push_configured :: "remote_settings \<Rightarrow> bool" where
  "push_configured cfg \<longleftrightarrow> rs_winrm_username cfg \<noteq> [] \<and> rs_winrm_password cfg \<noteq> []"

record push_request =
  pr_device_ids :: "uid list"
  pr_profile :: "string option"
  pr_dry_run :: bool

text \<open>The jobs, and the queued ones (each handed to a worker) with the skipped hostnames.\<close>

definition enqueue_push ::
  "remote_settings \<Rightarrow> random_source \<Rightarrow> instant \<Rightarrow> string option \<Rightarrow> push_request \<Rightarrow> ra_device list \<Rightarrow> push_job list
   \<Rightarrow> push_job list \<times> (api_error + push_job list \<times> (string \<times> skip_reason) list)" where
  "enqueue_push cfg src now who rq tab jobs =
     (if pr_device_ids rq = [] \<or> length (pr_device_ids rq) > 200 \<or> (case pr_profile rq of None \<Rightarrow> False | Some p \<Rightarrow> \<not> valid_profile p)
      then (jobs, Inl Unprocessable)
      else if \<not> push_configured cfg then (jobs, Inl Not_available)
      else let devices = filter (\<lambda>d. rd_id d \<in> set (pr_device_ids rq)) tab in
        if \<not> set (pr_device_ids rq) \<subseteq> rd_id ` set devices then (jobs, Inl Not_found)
        else (case enqueue_push_jobs src now (pr_profile rq) (pr_dry_run rq) who devices jobs of
                None \<Rightarrow> (jobs, Inl Internal_error)
              | Some (jobs', queued, skipped) \<Rightarrow> (jobs', Inr (queued, skipped))))"

definition read_push_jobs :: "instant \<Rightarrow> int \<Rightarrow> push_job list \<Rightarrow> push_job list \<times> push_job list" where
  "read_push_jobs now limit jobs = list_push_jobs now (nat (max 1 (min limit 500))) jobs"

definition cancel_push :: "instant \<Rightarrow> uid \<Rightarrow> push_job list \<Rightarrow> push_job list \<times> (api_error + string)" where
  "cancel_push now i jobs =
     (case find_row pj_id i jobs of
        None \<Rightarrow> (jobs, Inl Not_found)
      | Some job \<Rightarrow> (case cancel_push_job now job of
          None \<Rightarrow> (jobs, Inl Conflict)
        | Some j \<Rightarrow> (put_row pj_id j jobs, Inr (pj_hostname job))))"

definition push_job_task ::
  "remote_settings \<Rightarrow> instant \<Rightarrow> instant \<Rightarrow> ps_answer \<Rightarrow> uid \<Rightarrow> push_job list \<Rightarrow> ra_device list \<Rightarrow> push_job list \<times> ra_device list" where
  "push_job_task cfg now later ans i jobs tab =
     (case find_row pj_id i jobs of
        None \<Rightarrow> (jobs, tab)
      | Some job \<Rightarrow> (case execute_push_job cfg now later ans job tab of (j, tab') \<Rightarrow> (put_row pj_id j jobs, tab')))"

subsection \<open>The periodic sync\<close>

text \<open>
  The sources are those of the mirror run, of the accounts and of the book. A raise in the console part is caught and
  what it changed in the session stays there uncommitted, so the last commit, when it happens, stores it; account rows
  written by a run that raises are not followed.
\<close>

record sync_result =
  sy_seeded :: nat
  sy_peers :: nat
  sy_accounts :: nat
  sy_pushed :: nat
  sy_statuses :: nat
  sy_console_ok :: bool

definition console_part ::
  "'c console \<Rightarrow> remote_settings \<Rightarrow> random_source \<Rightarrow> random_source \<Rightarrow> instant \<Rightarrow> inventory \<Rightarrow> ra_device list \<Rightarrow> ra_account list \<Rightarrow> 'c
   \<Rightarrow> 'c \<times> session \<times> ra_account list \<times> nat \<times> nat \<times> nat \<times> bool" where
  "console_part kc cfg src2 src3 now iv tab accts c =
     (if \<not> console_enabled cfg then (c, (tab, tab), accts, 0, 0, 0, True)
      else case sync_from_console kc cfg now iv tab c of
             (c, Failed) \<Rightarrow> (c, (tab, tab), accts, 0, 0, 0, False)
           | (c, Reply (tab, peers)) \<Rightarrow>
               (case sync_accounts kc src2 now accts c of
                  (c, Failed) \<Rightarrow> (c, (tab, tab), accts, peers, 0, 0, False)
                | (c, Reply (accts, seen)) \<Rightarrow>
                    (case sync_stale_address_book kc cfg src3 now (tab, tab) c of
                       (c, s, Failed) \<Rightarrow> (c, s, accts, peers, seen, 0, False)
                     | (c, s, Reply k) \<Rightarrow> (c, s, accts, peers, seen, pc_created k + pc_updated k, True))))"

definition remote_access_sync ::
  "'c console \<Rightarrow> remote_settings \<Rightarrow> random_source \<Rightarrow> random_source \<Rightarrow> random_source \<Rightarrow> instant \<Rightarrow> inventory
   \<Rightarrow> ra_device list \<Rightarrow> ra_account list \<Rightarrow> 'c \<Rightarrow> 'c \<times> ra_device list \<times> ra_account list \<times> sync_result option" where
  "remote_access_sync kc cfg src src2 src3 now iv tab accts c =
     (if \<not> rs_enabled cfg then (c, tab, accts, None)
      else
        let (tab1, seeded) = seed_from_inventory cfg src now iv tab;
            (c, s, accts, peers, seen, pushed, ok) = console_part kc cfg src2 src3 now iv tab1 accts c;
            (tab2, statuses) = refresh_status_from_inventory now iv (snd s)
        in (c, if statuses > 0 then tab2 else fst s, accts,
            Some \<lparr>sy_seeded = seeded, sy_peers = peers, sy_accounts = seen, sy_pushed = pushed, sy_statuses = statuses,
                  sy_console_ok = ok\<rparr>))"


text \<open>\<open>POST /sync\<close>: here a raise of the console ends the request, after the mirror run was committed.\<close>

definition sync_route ::
  "'c console \<Rightarrow> remote_settings \<Rightarrow> random_source \<Rightarrow> instant \<Rightarrow> inventory \<Rightarrow> ra_device list \<Rightarrow> 'c
   \<Rightarrow> 'c \<times> ra_device list \<times> (api_error + nat \<times> nat \<times> nat)" where
  "sync_route kc cfg src now iv tab c =
     (let (tab1, created) = seed_from_inventory cfg src now iv tab in
      case (if console_enabled cfg then sync_from_console kc cfg now iv tab1 c else (c, Reply (tab1, 0))) of
        (c, Failed) \<Rightarrow> (c, tab1, Inl Internal_error)
      | (c, Reply (tab2, peers)) \<Rightarrow>
          (case refresh_status_from_inventory now iv tab2 of (tab3, touched) \<Rightarrow> (c, tab3, Inr (created, peers, touched))))"

definition create_account_route ::
  "'c console \<Rightarrow> remote_settings \<Rightarrow> random_source \<Rightarrow> instant \<Rightarrow> account_request \<Rightarrow> ra_account list \<Rightarrow> 'c
   \<Rightarrow> 'c \<times> ra_account list \<times> (api_error + string)" where
  "create_account_route kc cfg src now rq accts c =
     (if \<not> valid_username (aq_username rq) \<or> longer_than 128 (aq_display_name rq) \<or> longer_than 255 (aq_email rq)
         \<or> (case aq_password rq of None \<Rightarrow> False | Some p \<Rightarrow> length p < 8 \<or> length p > 64)
      then (c, accts, Inl Unprocessable)
      else case provision_account kc cfg src now rq accts c of
             (c', Failed) \<Rightarrow> (c', accts, Inl Internal_error)
           | (c', Reply (accts', secret)) \<Rightarrow> (c', accts', Inr secret))"

subsection \<open>What no automatic process changes\<close>

text \<open>The machine of a row, who manages it, and a password that is set.\<close>

definition kept :: "ra_device \<Rightarrow> ra_device \<Rightarrow> bool" where
  "kept d d' \<longleftrightarrow> rd_id d' = rd_id d \<and> rd_hostname d' = rd_hostname d \<and> rd_managed d' = rd_managed d
     \<and> (if rd_password d = [] then True else rd_password d' = rd_password d)"

lemma kept_refl [simp, intro]: "kept d d"
  by (simp add: kept_def)

lemma kept_trans: "kept a b \<Longrightarrow> kept b c \<Longrightarrow> kept a c"
  by (simp add: kept_def split: if_splits)

lemma kept_all_refl [simp]: "list_all2 kept tab tab"
  by (simp add: list_all2_same)

lemma kept_all_trans: "list_all2 kept a b \<Longrightarrow> list_all2 kept b c \<Longrightarrow> list_all2 kept a c"
  by (rule list_all2_trans [OF kept_trans])

lemma kept_mirrors: "mirrors d d' \<Longrightarrow> kept d d'"
  using mirrorsD(1-3,16) [of d d'] by (simp add: kept_def)

lemma kept_console: "console_frame d d' \<Longrightarrow> kept d d'"
  by (simp add: kept_def console_frame_def)

lemma kept_devices_ok:
  assumes "list_all2 kept tab tab'"
  shows "map rd_id tab' = map rd_id tab" "map host_key tab' = map host_key tab" "devices_ok tab \<Longrightarrow> devices_ok tab'"
proof -
  show "map rd_id tab' = map rd_id tab" "map host_key tab' = map host_key tab"
    using assms by (induction rule: list_all2_induct) (simp_all add: kept_def host_key_def)
  then show "devices_ok tab \<Longrightarrow> devices_ok tab'" by (simp add: devices_ok_def)
qed

lemma list_all2_ex_left: "list_all2 R xs ys \<Longrightarrow> y \<in> set ys \<Longrightarrow> \<exists>x \<in> set xs. R x y"
  by (induction rule: list_all2_induct) auto

text \<open>The book functions keep even an empty password.\<close>

definition owned_alike :: "ra_device \<Rightarrow> ra_device \<Rightarrow> bool" where
  "owned_alike d d' \<longleftrightarrow> rd_id d' = rd_id d \<and> rd_hostname d' = rd_hostname d \<and> rd_managed d' = rd_managed d
     \<and> rd_password d' = rd_password d"

lemma owned_alike_refl [simp, intro]: "owned_alike d d"
  by (simp add: owned_alike_def)

lemma owned_alike_trans: "owned_alike a b \<Longrightarrow> owned_alike b c \<Longrightarrow> owned_alike a c"
  by (simp add: owned_alike_def)

lemma owned_alike_sym: "owned_alike a b \<Longrightarrow> owned_alike b a"
  by (simp add: owned_alike_def)

lemma kept_owned: "list_all2 owned_alike tab tab' \<Longrightarrow> list_all2 kept tab tab'"
  by (erule list_all2_mono) (auto simp: owned_alike_def kept_def)

lemma put_row_all:
  assumes "list_all2 R tab tab'" "\<And>r x. R x r \<Longrightarrow> x \<in> set tab \<Longrightarrow> rd_id r = rd_id d \<Longrightarrow> R x d"
  shows "list_all2 R tab (put_row rd_id d tab')"
  using assms
proof (induction rule: list_all2_induct)
  case (Cons x xs y ys)
  then have "list_all2 R xs (put_row rd_id d ys)" by simp
  then show ?case using Cons.hyps(1) Cons.prems [of x y] by (simp add: put_row_def)
qed (simp add: put_row_def)

lemma owned_put_row:
  assumes "list_all2 owned_alike tab tab'" "distinct (map rd_id tab)" "x \<in> set tab" "owned_alike x d"
  shows "list_all2 owned_alike tab (put_row rd_id d tab')"
proof (rule put_row_all [OF assms(1)])
  fix r y assume r: "owned_alike y r" "y \<in> set tab" "rd_id r = rd_id d"
  then have "rd_id y = rd_id x" using assms(4) by (simp add: owned_alike_def)
  then have "y = x" using r(2) assms(2,3) distinct_map_eq [of rd_id tab y x] by simp
  then show "owned_alike y d" using assms(4) by simp
qed

lemma kept_put_own:
  assumes "distinct (map rd_id tab)" "dev \<in> set tab" "kept dev d"
  shows "list_all2 kept tab (put_row rd_id d tab)"
proof (rule put_row_all [OF kept_all_refl])
  fix r y assume r: "kept y r" "y \<in> set tab" "rd_id r = rd_id d"
  then have "rd_id y = rd_id dev" using assms(3) by (simp add: kept_def)
  then have "y = dev" using r(2) assms(1,2) distinct_map_eq [of rd_id tab y dev] by simp
  then show "kept y d" using assms(3) by simp
qed

text \<open>A session keeps a table: both what is committed and what is not yet.\<close>

definition session_kept :: "ra_device list \<Rightarrow> session \<Rightarrow> bool" where
  "session_kept tab s \<longleftrightarrow> list_all2 owned_alike tab (fst s) \<and> list_all2 owned_alike tab (snd s)"

lemma session_kept_commit: "session_kept tab s \<Longrightarrow> session_kept tab (commit s)"
  by (simp add: session_kept_def commit_def)

lemma session_kept_change:
  "session_kept tab s \<Longrightarrow> distinct (map rd_id tab) \<Longrightarrow> x \<in> set tab \<Longrightarrow> owned_alike x d \<Longrightarrow> session_kept tab (change d s)"
  by (simp add: session_kept_def change_def owned_put_row)

lemma owned_alike_pushed: "owned_alike d (pushed_device now n d)"
  by (simp add: owned_alike_def pushed_device_def)

lemma push_loop_kept:
  assumes "distinct (map rd_id tab)" "session_kept tab s" "\<And>i d. (i, d) \<in> set devs \<Longrightarrow> \<exists>x \<in> set tab. owned_alike x d"
    and "push_loop kc cfg src now cid owner existing devs k s c = (c', s', r)"
  shows "session_kept tab s'"
  using assms(2-4)
proof (induction devs arbitrary: k s c)
  case (Cons e devs)
  obtain i d where e: "e = (i, d)" by (cases e)
  obtain x where x: "x \<in> set tab" "owned_alike x d" using Cons.prems(2) e by auto
  have ch: "session_kept tab (change (pushed_device now n d) s)" for n
    by (rule session_kept_change [OF Cons.prems(1) assms(1) x(1) owned_alike_trans [OF x(2) owned_alike_pushed]])
  have more: "\<exists>x \<in> set tab. owned_alike x d" if "(i, d) \<in> set devs" for i d using Cons.prems(2) that by auto
  show ?case
    using Cons.prems(1,3) e ch
    by (auto simp: Let_def intro: Cons.IH [OF ch more] Cons.IH [OF Cons.prems(1) more] split: option.splits prod.splits reply.splits if_splits)
qed simp

lemma adopt_row_ids_kept:
  assumes "distinct (map rd_id tab)" "session_kept tab s" "adopt_row_ids fresh is s = (s', r)"
  shows "session_kept tab s'"
  using assms(2,3)
proof (induction "is" arbitrary: s)
  case (Cons i "is")
  show ?case
  proof (cases "find_row rd_id i (snd s)")
    case None
    then show ?thesis using Cons by simp
  next
    case (Some d)
    then obtain x where x: "x \<in> set tab" "owned_alike x d"
      using Cons.prems(1) find_row_Some [OF Some] list_all2_ex_left unfolding session_kept_def by metis
    then have "owned_alike x (d\<lparr>rd_ab_row_id := n\<rparr>)" for n by (simp add: owned_alike_def)
    then have ch: "session_kept tab (change (d\<lparr>rd_ab_row_id := n\<rparr>) s)" for n
      by (rule session_kept_change [OF Cons.prems(1) assms(1) x(1)])
    show ?thesis using Cons.prems Some ch
      by (auto intro: Cons.IH split: option.splits if_splits)
  qed
qed simp

lemma owned_all_devices_ok: "list_all2 owned_alike tab tab' \<Longrightarrow> devices_ok tab \<Longrightarrow> devices_ok tab'"
  by (rule kept_devices_ok(3) [OF kept_owned])

lemma push_shared_kept:
  assumes "distinct (map rd_id tab)" "session_kept tab s" "\<And>d. d \<in> set devices \<Longrightarrow> \<exists>x \<in> set tab. owned_alike x d"
    and "push_shared_address_book kc cfg src now devices s c = (c', s', r)"
  shows "session_kept tab s'"
proof -
  let ?ts = "push_targets devices"
  have src': "\<exists>x \<in> set tab. owned_alike x d" if "(i, d) \<in> set (List.enumerate 0 ?ts)" for i d
  proof -
    have "d \<in> set ?ts" using that by (auto simp: in_set_enumerate_eq)
    then show ?thesis using assms(3) by (simp add: push_targets_def)
  qed
  show ?thesis
  proof (cases "?ts = []")
    case True
    then show ?thesis using assms(2,4) by (simp add: push_shared_address_book_def)
  next
    case False
    obtain c1 o1 where b: "ensure_shared_book kc cfg c = (c1, o1)" by fastforce
    show ?thesis
    proof (cases o1)
      case Failed
      then show ?thesis using assms(2,4) b False by (simp add: push_shared_address_book_def)
    next
      case (Reply ids)
      obtain cid owner where ids: "ids = (cid, owner)" by (cases ids)
      obtain c2 o2 where l: "kc_book kc c1 owner cid = (c2, o2)" by fastforce
      show ?thesis
      proof (cases o2)
        case Failed
        then show ?thesis using assms(2,4) b False l Reply ids by (simp add: push_shared_address_book_def)
      next
        case (Reply rows)
        obtain c3 s3 o3 where p: "push_loop kc cfg src now cid owner (rows_by_id rows) (List.enumerate 0 ?ts) no_pushes s c2 = (c3, s3, o3)"
          using prod_cases3 by blast
        have s3: "session_kept tab s3" by (rule push_loop_kept [OF assms(1,2) src' p])
        have fin: "(case o3 of Failed \<Rightarrow> (c3, s3, Failed) | Reply k \<Rightarrow> adopt_created kc cid owner ?ts k (commit s3) c3) = (c', s', r)"
          using assms(4) b False l p \<open>o1 = Reply ids\<close> Reply ids by (simp add: push_shared_address_book_def)
        show ?thesis
        proof (cases o3)
          case Failed
          then show ?thesis using fin s3 by simp
        next
          case (Reply k)
          then show ?thesis using fin session_kept_commit [OF s3] adopt_row_ids_kept [OF assms(1) session_kept_commit [OF s3]]
            by (auto simp: adopt_created_def intro: session_kept_commit split: if_splits prod.splits reply.splits)
        qed
      qed
    qed
  qed
qed

lemma owned_alike_clear: "owned_alike d (clear_missing live d)"
  by (simp add: owned_alike_def clear_missing_def)

lemma sync_stale_kept:
  assumes "distinct (map rd_id tab)" "session_kept tab s" "sync_stale_address_book kc cfg src now s c = (c', s', r)"
  shows "session_kept tab s'"
proof -
  have cl: "session_kept tab (fst s, map (clear_missing live) (snd s))" for live
    using assms(2) unfolding session_kept_def
    by (auto simp: list_all2_conv_all_nth intro: owned_alike_trans [OF _ owned_alike_clear])
  have dv: "\<exists>x \<in> set tab. owned_alike x d"
    if "d \<in> set (filter P (map (clear_missing live) (snd s)))" for d live P
    using that cl [of live] list_all2_ex_left unfolding session_kept_def snd_conv by fastforce
  show ?thesis
    using assms(2,3) cl
    by (auto simp: sync_stale_address_book_def Let_def intro: push_shared_kept [OF assms(1) cl dv]
        split: prod.splits reply.splits if_splits)
qed

subsection \<open>The fleet over time\<close>

record 'c fleet =
  fl_console :: 'c
  fl_devices :: "ra_device list"
  fl_accounts :: "ra_account list"

text \<open>What runs without an operator's decision about a machine: the periodic sync, the sync on demand, the book, reports of
  machines and pushes.\<close>

inductive automatic_step :: "'c console \<Rightarrow> remote_settings \<Rightarrow> 'c fleet \<Rightarrow> 'c fleet \<Rightarrow> bool" for kc cfg where
  tick: "fresh_source src (fl_devices w) \<Longrightarrow>
    remote_access_sync kc cfg src src2 src3 now iv (fl_devices w) (fl_accounts w) (fl_console w) = (c, tab, accts, res) \<Longrightarrow>
    automatic_step kc cfg w \<lparr>fl_console = c, fl_devices = tab, fl_accounts = accts\<rparr>"
| sync: "fresh_source src (fl_devices w) \<Longrightarrow>
    sync_route kc cfg src now iv (fl_devices w) (fl_console w) = (c, tab, res) \<Longrightarrow>
    automatic_step kc cfg w (w\<lparr>fl_console := c, fl_devices := tab\<rparr>)"
| book: "address_book_sync_route kc cfg src now ids loc kind (fl_devices w) (fl_console w) = (c, tab, res) \<Longrightarrow>
    automatic_step kc cfg w (w\<lparr>fl_console := c, fl_devices := tab\<rparr>)"
| report: "deploy_report_route cfg now header rp (fl_devices w) = (tab, res) \<Longrightarrow> automatic_step kc cfg w (w\<lparr>fl_devices := tab\<rparr>)"
| push: "execute_push_job cfg now later ans job (fl_devices w) = (job', tab) \<Longrightarrow> automatic_step kc cfg w (w\<lparr>fl_devices := tab\<rparr>)"

text \<open>What operators do to one machine, and the release of a row whose inventory entry is deleted.\<close>

inductive operator_step :: "remote_settings \<Rightarrow> 'c fleet \<Rightarrow> 'c fleet \<Rightarrow> bool" for cfg where
  update: "update_device_route now i u (fl_devices w) = (tab, res) \<Longrightarrow> operator_step cfg w (w\<lparr>fl_devices := tab\<rparr>)"
| profile: "set_device_profile now i p (fl_devices w) = (tab, res) \<Longrightarrow> operator_step cfg w (w\<lparr>fl_devices := tab\<rparr>)"
| rotate: "rotate_password_route src now i (fl_devices w) = (tab, res) \<Longrightarrow> operator_step cfg w (w\<lparr>fl_devices := tab\<rparr>)"
| delete: "delete_device_route now i (fl_devices w) = (tab, res) \<Longrightarrow> operator_step cfg w (w\<lparr>fl_devices := tab\<rparr>)"
| request: "request_deploy cfg draw now i (fl_devices w) = (tab, res) \<Longrightarrow> operator_step cfg w (w\<lparr>fl_devices := tab\<rparr>)"
| ensure: "fresh_source src (fl_devices w) \<Longrightarrow> ensure_device_route cfg src now iv rq (fl_devices w) = (tab, res) \<Longrightarrow>
    operator_step cfg w (w\<lparr>fl_devices := tab\<rparr>)"
| adopt: "fresh_source src (fl_devices w) \<Longrightarrow> adopt_console_peer cfg src now iv hostname profile (fl_devices w) = (tab, res) \<Longrightarrow>
    operator_step cfg w (w\<lparr>fl_devices := tab\<rparr>)"
| dismiss: "fresh_source src (fl_devices w) \<Longrightarrow> dismiss_console_peer cfg src now hostname (fl_devices w) = (tab, res) \<Longrightarrow>
    operator_step cfg w (w\<lparr>fl_devices := tab\<rparr>)"
| release: "release_inventory_row now ci ri mi (fl_devices w) = (tab, calls, n) \<Longrightarrow> operator_step cfg w (w\<lparr>fl_devices := tab\<rparr>)"

text \<open>The table may grow at its end; the rows it had are related to what they were.\<close>

definition grown :: "(ra_device \<Rightarrow> ra_device \<Rightarrow> bool) \<Rightarrow> ra_device list \<Rightarrow> ra_device list \<Rightarrow> bool" where
  "grown R tab tab' \<longleftrightarrow> list_all2 R tab (take (length tab) tab')"

lemma grown_all2: "list_all2 R tab tab' \<Longrightarrow> grown R tab tab'"
  by (simp add: grown_def list_all2_lengthD)

lemma grown_refl: "(\<And>d. R d d) \<Longrightarrow> grown R tab tab"
  by (simp add: grown_def list_all2_same)

lemma grown_append: "list_all2 R tab tab' \<Longrightarrow> grown R tab (tab' @ new)"
  by (simp add: grown_def list_all2_lengthD)

lemma grown_mono: "grown R tab tab' \<Longrightarrow> (\<And>a b. R a b \<Longrightarrow> S a b) \<Longrightarrow> grown S tab tab'"
  unfolding grown_def by (erule list_all2_mono) blast

lemma grown_trans:
  assumes "grown R a b" "grown R b c" "\<And>x y z. R x y \<Longrightarrow> R y z \<Longrightarrow> R x z"
  shows "grown R a c"
proof -
  have "list_all2 R (take (length a) b) (take (length a) (take (length b) c))"
    using assms(2) unfolding grown_def by (rule list_all2_takeI)
  moreover have "length a \<le> length b" using assms(1) list_all2_lengthD [of R a "take (length a) b"] by (simp add: grown_def)
  ultimately have "list_all2 R (take (length a) b) (take (length a) c)" by (simp add: min_absorb1)
  from assms(1) [unfolded grown_def] this show ?thesis unfolding grown_def
    by (rule list_all2_trans [where ?P1.0 = R and ?P2.0 = R, rotated]) (fact assms(3))
qed

lemma kept_refresh: "kept d (refresh_host_status now iv d)"
  by (simp add: refresh_host_status_def kept_def)

lemma seed_grown:
  assumes "devices_ok tab" "fresh_source src tab" "seed_from_inventory cfg src now iv tab = (tab', n)"
  shows "devices_ok tab'" "grown kept tab tab'"
  using seed_from_inventory_run(1,2) [OF assms(1,2), of tab' cfg now iv] assms(3)
  by (auto simp: grown_def elim: list_all2_mono intro: kept_mirrors)

lemma sync_peers_kept: "list_all2 kept tab (sync_with_peers cfg now iv peers tab)"
  by (rule list_all2_mono [OF sync_with_peers_frame kept_console])

lemma refresh_kept: "refresh_status_from_inventory now iv tab = (tab', n) \<Longrightarrow> list_all2 kept tab tab'"
  by (auto simp: refresh_status_from_inventory_def list_all2_map2 list_all2_same kept_refresh)

lemma console_part_kept:
  assumes "devices_ok tab" "console_part kc cfg src2 src3 now iv tab accts c = (c', s, accts', n, m, k, ok)"
  shows "list_all2 kept tab (fst s)" "list_all2 kept tab (snd s)"
proof -
  have book: "list_all2 kept tab (fst s') \<and> list_all2 kept tab (snd s')"
    if "sync_stale_address_book kc cfg src3 now (t, t) c1 = (c2, s', r)" "t = sync_with_peers cfg now iv peers tab" for t c1 c2 s' r peers
  proof -
    have t: "list_all2 kept tab t" unfolding that(2) by (rule sync_peers_kept)
    then have "distinct (map rd_id t)" using kept_devices_ok(1) assms(1) by (metis devices_okD(1))
    then have "session_kept t s'"
      by (rule sync_stale_kept [OF _ _ that(1)]) (simp add: session_kept_def list_all2_same)
    with t show ?thesis unfolding session_kept_def using kept_all_trans kept_owned by blast
  qed
  show "list_all2 kept tab (fst s)" "list_all2 kept tab (snd s)"
    using assms(2) sync_peers_kept book
    by (auto simp: console_part_def sync_from_console_def on_reply_def split: if_splits prod.splits reply.splits)
qed

lemma reported_kept: "kept d (reported_device now rp d)"
  by (simp add: kept_def reported_device_def Let_def split: option.splits)

lemma pushed_device_kept:
  assumes "apply_deploy_profile now p dev = Some d"
  shows "kept dev (mark_deploy_requested now d)"
  using apply_deploy_profile_frame [OF assms] by (simp add: kept_def mark_deploy_requested_def)

lemma kept_step: "list_all2 kept tab tab' \<Longrightarrow> devices_ok tab \<Longrightarrow> devices_ok tab' \<and> grown kept tab tab'"
  using kept_devices_ok(3) grown_all2 by blast

lemma grown_kept_trans: "grown kept a b \<Longrightarrow> grown kept b c \<Longrightarrow> grown kept a c"
  by (erule (1) grown_trans) (rule kept_trans)

lemma book_route_kept:
  assumes "distinct (map rd_id tab)" "address_book_sync_route kc cfg src now ids loc kind tab c = (c', tab', res)"
  shows "list_all2 kept tab tab'"
proof -
  let ?devs = "resolve_scope ids loc (ids = None) kind tab"
  obtain c1 s r where p: "push_shared_address_book kc cfg src now ?devs (tab, tab) c = (c1, s, r)" using prod_cases3 by blast
  have "session_kept tab s"
    by (rule push_shared_kept [OF assms(1) _ _ p])
      (auto simp: session_kept_def list_all2_same resolve_scope_def split: option.splits if_splits)
  then have "list_all2 kept tab (fst s)" unfolding session_kept_def by (intro kept_owned) blast
  then show ?thesis using assms(2) p by (auto simp: address_book_sync_route_def Let_def split: if_splits)
qed

lemma automatic_step_kept:
  assumes "automatic_step kc cfg w w'" "devices_ok (fl_devices w)"
  shows "devices_ok (fl_devices w') \<and> grown kept (fl_devices w) (fl_devices w')"
  using assms(1)
proof cases
  case (tick src src2 src3 now iv c tab accts res)
  show ?thesis
  proof (cases "rs_enabled cfg")
    case False
    then show ?thesis using tick assms(2) by (simp add: remote_access_sync_def grown_refl)
  next
    case True
    obtain t1 n1 where s: "seed_from_inventory cfg src now iv (fl_devices w) = (t1, n1)" by fastforce
    note t1 = seed_grown [OF assms(2) tick(2) s]
    obtain c2 s2 a2 n2 m2 k2 ok where p:
      "console_part kc cfg src2 src3 now iv t1 (fl_accounts w) (fl_console w) = (c2, s2, a2, n2, m2, k2, ok)"
      by (metis surj_pair)
    note s2 = console_part_kept [OF t1(1) p]
    obtain t3 n3 where r: "refresh_status_from_inventory now iv (snd s2) = (t3, n3)" by fastforce
    have "list_all2 kept t1 t3" using s2(2) refresh_kept [OF r] by (rule kept_all_trans)
    moreover have "tab = (if n3 > 0 then t3 else fst s2)" using tick(3) True s p r by (simp add: remote_access_sync_def)
    ultimately have "list_all2 kept t1 tab" using s2(1) by simp
    then show ?thesis using kept_step [OF _ t1(1)] grown_kept_trans [OF t1(2)] tick(1) by simp
  qed
next
  case (sync src now iv c tab res)
  obtain t1 n1 where s: "seed_from_inventory cfg src now iv (fl_devices w) = (t1, n1)" by fastforce
  note t1 = seed_grown [OF assms(2) sync(2) s]
  have "list_all2 kept t1 tab"
    using sync(3) s
    by (auto simp: sync_route_def sync_from_console_def on_reply_def split: if_splits prod.splits reply.splits
        intro: refresh_kept kept_all_trans [OF sync_peers_kept refresh_kept])
  then show ?thesis using kept_step [OF _ t1(1)] grown_kept_trans [OF t1(2)] sync(1) by simp
next
  case (book src now ids loc kind c tab res)
  have "list_all2 kept (fl_devices w) tab" by (rule book_route_kept [OF devices_okD(1) [OF assms(2)] book(2)])
  then show ?thesis using kept_step assms(2) book(1) by simp
next
  case (report now header rp tab res)
  have "list_all2 kept (fl_devices w) tab"
    using report(2) kept_put_own [OF devices_okD(1) [OF assms(2)] _ reported_kept]
    by (auto simp: deploy_report_route_def apply_deploy_report_def Let_def dest!: find_device_Some
        split: sum.splits prod.splits option.splits)
  then show ?thesis using kept_step assms(2) report(1) by simp
next
  case (push now later ans job job' tab)
  have "list_all2 kept (fl_devices w) tab"
  proof (cases "start_push_job now job (fl_devices w)")
    case None
    then show ?thesis using push(2) by (simp add: execute_push_job_def)
  next
    case (Some r)
    obtain running t called where r: "r = (running, t, called)" by (cases r) auto
    have "tab = t" using push(2) Some r by (auto simp: execute_push_job_def)
    then show ?thesis
      using start_push_job_Some(3) [OF Some [unfolded r]] kept_put_own [OF devices_okD(1) [OF assms(2)] _ pushed_device_kept]
      by auto
  qed
  then show ?thesis using kept_step assms(2) push(1) by simp
qed

text \<open>C3: No automatic process takes a machine over or gives it back: over any sequence of syncs, reports, pushes and book runs,
  every row keeps its machine, its password and whether it is managed, so a machine removed by an operator stays removed, and
  hostnames stay unique.\<close>

theorem removed_machines_stay_removed:
  assumes "(automatic_step kc cfg)\<^sup>*\<^sup>* w w'" "devices_ok (fl_devices w)"
  shows "devices_ok (fl_devices w') \<and> grown kept (fl_devices w) (fl_devices w')"
  using assms(1)
proof (induction rule: rtranclp_induct)
  case base
  then show ?case using assms(2) grown_refl by blast
next
  case (step x y)
  then show ?case using automatic_step_kept [of kc cfg x y] grown_kept_trans by blast
qed

theorem removed_machines_stay_removed_witness:
  "\<exists>w'. automatic_step demo_console (demo_settings\<lparr>rs_enabled := True\<rparr>) \<lparr>fl_console = [], fl_devices = [demo_device\<lparr>rd_managed := False\<rparr>], fl_accounts = []\<rparr> w'
     \<and> devices_ok (fl_devices w') \<and> grown kept [demo_device\<lparr>rd_managed := False\<rparr>] (fl_devices w')"
proof -
  let ?w = "\<lparr>fl_console = [], fl_devices = [demo_device\<lparr>rd_managed := False\<rparr>], fl_accounts = []\<rparr> :: demo_console fleet"
  have "inj (\<lambda>n. CHR ''m'' # show_nat n)" using inj_show_nat by (auto simp: inj_def)
  then have fresh: "fresh_source (demo_source\<lparr>new_id := (\<lambda>n. CHR ''m'' # show_nat n)\<rparr>) (fl_devices ?w)"
    by (auto simp: fresh_source_def demo_device_def new_device_def)
  obtain c tab accts res where run: "remote_access_sync demo_console (demo_settings\<lparr>rs_enabled := True\<rparr>) (demo_source\<lparr>new_id := (\<lambda>n. CHR ''m'' # show_nat n)\<rparr>)
      demo_source demo_source 9 demo_inventory (fl_devices ?w) (fl_accounts ?w) (fl_console ?w) = (c, tab, accts, res)"
    using prod_cases4 by blast
  have step: "automatic_step demo_console (demo_settings\<lparr>rs_enabled := True\<rparr>) ?w \<lparr>fl_console = c, fl_devices = tab, fl_accounts = accts\<rparr>"
    by (rule automatic_step.tick [OF fresh run])
  have "devices_ok (fl_devices ?w)" by (simp add: devices_ok_def)
  then have "devices_ok tab \<and> grown kept [demo_device\<lparr>rd_managed := False\<rparr>] tab"
    using removed_machines_stay_removed [OF r_into_rtranclp [of "automatic_step demo_console (demo_settings\<lparr>rs_enabled := True\<rparr>)", OF step]] by simp
  with step show ?thesis by auto
qed

subsection \<open>Operators\<close>

definition same_machine :: "ra_device \<Rightarrow> ra_device \<Rightarrow> bool" where
  "same_machine d d' \<longleftrightarrow> rd_id d' = rd_id d \<and> rd_hostname d' = rd_hostname d"

lemma same_machine_refl [simp, intro]: "same_machine d d"
  by (simp add: same_machine_def)

lemma same_machine_trans: "same_machine a b \<Longrightarrow> same_machine b c \<Longrightarrow> same_machine a c"
  by (simp add: same_machine_def)

lemma kept_same_machine: "kept d d' \<Longrightarrow> same_machine d d'"
  by (simp add: kept_def same_machine_def split: if_splits)

lemma same_machines_ok: "list_all2 same_machine tab tab' \<Longrightarrow> devices_ok tab \<Longrightarrow> devices_ok tab'"
proof -
  assume s: "list_all2 same_machine tab tab'" and ok: "devices_ok tab"
  from s have "map rd_id tab' = map rd_id tab" "map host_key tab' = map host_key tab"
    by (induction rule: list_all2_induct) (simp_all add: same_machine_def host_key_def)
  with ok show ?thesis by (simp add: devices_ok_def)
qed

lemma same_machine_put:
  assumes "list_all2 same_machine tab tab'" "devices_ok tab" "x \<in> set tab'" "same_machine x d"
  shows "list_all2 same_machine tab (put_row rd_id d tab')"
proof (rule put_row_all [OF assms(1)])
  fix r y assume r: "same_machine y r" "y \<in> set tab" "rd_id r = rd_id d"
  obtain z where z: "z \<in> set tab" "same_machine z x" using list_all2_ex_left [OF assms(1,3)] by blast
  then have "rd_id y = rd_id z" using r assms(4) by (simp add: same_machine_def)
  then have "y = z" using r(2) z(1) devices_okD(1) [OF assms(2)] distinct_map_eq [of rd_id tab y z] by simp
  then show "same_machine y d" using z(2) assms(4) same_machine_trans by blast
qed

lemma on_device_same:
  assumes "on_device now i f tab = (tab', res)" "devices_ok tab" "\<And>d d'. f d = Inr d' \<Longrightarrow> same_machine d d'"
  shows "list_all2 same_machine tab tab'"
proof -
  have refl: "list_all2 same_machine tab tab" by (simp add: list_all2_same)
  show ?thesis
    using assms(1) same_machine_put [OF refl assms(2)] assms(3) refl
    by (auto simp: on_device_def dest!: find_row_Some split: option.splits sum.splits)
qed

lemma update_device_same: "update_device u d = Some d' \<Longrightarrow> same_machine d d'"
  by (auto simp: update_device_def Let_def same_machine_def split: if_splits)

lemma rotate_password_same: "same_machine d (rotate_password src now d)"
  by (simp add: rotate_password_def same_machine_def)

lemma profile_same: "apply_deploy_profile now p d = Some d' \<Longrightarrow> same_machine d d'"
  using apply_deploy_profile_frame by (simp add: same_machine_def)

lemma stamp_device_same: "same_machine d (stamp_device cfg draw now h rid pw d)"
  by (simp add: stamp_device_def Let_def same_machine_def split: option.splits)

lemma get_or_create_grown:
  assumes "get_or_create_device cfg src now hostname tab = (dev, tab1)" "devices_ok tab" "fresh_source src tab"
  shows "dev \<in> set tab1" "devices_ok tab1" "grown same_machine tab tab1"
proof -
  have "dev \<in> set tab1 \<and> devices_ok tab1 \<and> (\<exists>new. tab1 = tab @ new)"
  proof (cases "find_device (strip hostname) tab")
    case None
    then have "lower (strip hostname) \<notin> host_key ` set tab" by (simp add: find_device_None)
    moreover have "new_id src 0 \<notin> rd_id ` set tab" using assms(3) by (auto simp: fresh_source_def)
    ultimately show ?thesis using assms(1,2) None by (auto simp: get_or_create_device_def Let_def devices_ok_append)
  next
    case (Some d)
    then show ?thesis using assms find_device_Some [OF Some] by (auto simp: get_or_create_device_def)
  qed
  then show "dev \<in> set tab1" "devices_ok tab1" "grown same_machine tab tab1"
    by (auto intro: grown_append simp: list_all2_same)
qed

lemma grown_same_trans: "grown same_machine a b \<Longrightarrow> grown same_machine b c \<Longrightarrow> grown same_machine a c"
  by (erule (1) grown_trans) (rule same_machine_trans)

lemma same_step: "list_all2 same_machine tab tab' \<Longrightarrow> devices_ok tab \<Longrightarrow> devices_ok tab' \<and> grown same_machine tab tab'"
  using same_machines_ok grown_all2 by blast

lemma put_grown:
  assumes "dev \<in> set tab1" "devices_ok tab1" "grown same_machine tab tab1" "same_machine dev d"
  shows "devices_ok (put_row rd_id d tab1) \<and> grown same_machine tab (put_row rd_id d tab1)"
proof -
  have "list_all2 same_machine tab1 (put_row rd_id d tab1)"
    by (rule same_machine_put [OF _ assms(2,1,4)]) (simp add: list_all2_same)
  from same_step [OF this assms(2)] show ?thesis using grown_same_trans [OF assms(3)] by blast
qed

lemma link_same: "same_machine d (link_inventory lk d)"
  by (rule kept_same_machine [OF kept_mirrors [OF mirrors_link_inventory]])

lemma ensure_device_grown:
  assumes "ensure_device cfg src now iv hostname rid pw tab = (d, tab')" "devices_ok tab" "fresh_source src tab"
  shows "d \<in> set tab'" "devices_ok tab'" "grown same_machine tab tab'"
proof -
  obtain dev tab1 where g: "get_or_create_device cfg src now hostname tab = (dev, tab1)" by fastforce
  note g1 = get_or_create_grown [OF g assms(2,3)]
  have d: "same_machine dev d" "tab' = put_row rd_id d tab1"
    using assms(1) g same_machine_trans [OF link_same stamp_device_same] by (auto simp: ensure_device_def Let_def)
  then have "d \<in> set tab'" using g1(1) mem_put_row_iff [of dev tab1 rd_id d d] by (simp add: same_machine_def)
  then show "d \<in> set tab'" "devices_ok tab'" "grown same_machine tab tab'" using put_grown [OF g1 d(1)] d(2) by simp_all
qed

lemma release_one_same:
  assumes "list_all2 same_machine tab tab'" "devices_ok tab" "x \<in> set tab"
  shows "list_all2 same_machine tab (fst (release_one now ci ri mi x tab'))"
proof -
  have put: "list_all2 same_machine tab (put_row rd_id d t)" if t: "list_all2 same_machine tab t" "same_machine x d" for t d
  proof (rule put_row_all [OF t(1)])
    fix r y assume r: "same_machine y r" "y \<in> set tab" "rd_id r = rd_id d"
    then have "rd_id y = rd_id x" using t(2) by (simp add: same_machine_def)
    then have "y = x" using r(2) assms(3) devices_okD(1) [OF assms(2)] distinct_map_eq [of rd_id tab y x] by simp
    then show "same_machine y d" using t(2) by simp
  qed
  have "same_machine x (deleted_device now x)" "same_machine x (unlink ci ri mi (deleted_device now x))"
    by (simp_all add: same_machine_def deleted_device_def unlink_def Let_def)
  then show ?thesis using assms(1) put by (simp add: release_one_def delete_device_def)
qed

lemma release_same:
  assumes "devices_ok tab"
  shows "list_all2 same_machine tab (fst (release_inventory_row now ci ri mi tab))"
proof -
  have "list_all2 same_machine tab (fst (fold_eff (release_one now ci ri mi) devs t))"
    if "set devs \<subseteq> set tab" "list_all2 same_machine tab t" for devs t
    using that
  proof (induction devs arbitrary: t)
    case (Cons x devs)
    then have "list_all2 same_machine tab (fst (release_one now ci ri mi x t))" using release_one_same assms by simp
    then have "list_all2 same_machine tab (fst (fold_eff (release_one now ci ri mi) devs (fst (release_one now ci ri mi x t))))"
      using Cons by simp
    then show ?case by (simp add: case_prod_unfold Let_def)
  qed simp
  then have "list_all2 same_machine tab (fst (fold_eff (release_one now ci ri mi) (filter (points_at ci ri mi) tab) tab))"
    by (simp add: list_all2_same)
  then show ?thesis by (simp add: release_inventory_row_def case_prod_unfold Let_def)
qed

lemma or_error_Inr [simp]: "or_error e v = Inr a \<longleftrightarrow> v = Some a"
  by (cases v) (simp_all add: or_error_def)

lemma operator_step_same:
  assumes "operator_step cfg w w'" "devices_ok (fl_devices w)"
  shows "devices_ok (fl_devices w') \<and> grown same_machine (fl_devices w) (fl_devices w')"
  using assms(1)
proof cases
  case (update now i u tab res)
  have "list_all2 same_machine (fl_devices w) tab"
    using update(2) on_device_same [OF _ assms(2), of now i "\<lambda>d. or_error Internal_error (update_device v d)" tab res for v]
      update_device_same
    by (auto simp: update_device_route_def list_all2_same split: sum.splits)
  then show ?thesis using same_step assms(2) update(1) by simp
next
  case (profile now i p tab res)
  have "list_all2 same_machine (fl_devices w) tab"
    using profile(2) on_device_same [OF _ assms(2), of now i "\<lambda>d. or_error Internal_error (apply_deploy_profile now p d)" tab res] profile_same
    by (auto simp: set_device_profile_def list_all2_same split: if_splits)
  then show ?thesis using same_step assms(2) profile(1) by simp
next
  case (rotate src now i tab res)
  have "list_all2 same_machine (fl_devices w) tab"
    using rotate(2) unfolding rotate_password_route_def
    by (rule on_device_same [OF _ assms(2)]) (auto simp: rotate_password_same)
  then show ?thesis using same_step assms(2) rotate(1) by simp
next
  case (delete now i tab res)
  have s: "same_machine d (deleted_device now d)" for d by (simp add: same_machine_def deleted_device_def)
  have "list_all2 same_machine (fl_devices w) (fl_devices w)" by (simp add: list_all2_same)
  then have "list_all2 same_machine (fl_devices w) tab"
    using delete(2) same_machine_put [OF _ assms(2) _ s]
    by (auto simp: delete_device_route_def delete_device_def dest!: find_row_Some split: option.splits)
  then show ?thesis using same_step assms(2) delete(1) by simp
next
  case (request draw now i tab res)
  have "list_all2 same_machine (fl_devices w) tab"
    using request(2) unfolding request_deploy_def
    by (rule on_device_same [OF _ assms(2)]) (auto simp: same_machine_def mark_deploy_requested_def)
  then show ?thesis using same_step assms(2) request(1) by simp
next
  case (ensure src now iv rq tab res)
  have "devices_ok tab \<and> grown same_machine (fl_devices w) tab"
    using ensure(3) ensure_device_grown(2,3) [OF _ assms(2) ensure(2)] assms(2) grown_refl [of same_machine]
    by (auto simp: ensure_device_route_def split: sum.splits prod.splits)
  then show ?thesis using ensure(1) by simp
next
  case (adopt src now iv hostname profile tab res)
  have "devices_ok t \<and> grown same_machine (fl_devices w) t" if "adopt_peer cfg src now iv hostname profile (fl_devices w) = (x, t)" for x t
  proof -
    obtain d t1 where e: "ensure_device cfg src now iv hostname None None (fl_devices w) = (d, t1)" by fastforce
    note e1 = ensure_device_grown [OF e assms(2) adopt(2)]
    show ?thesis using that e e1(2,3) put_grown [OF e1 profile_same]
      by (auto simp: adopt_peer_def Let_def split: option.splits)
  qed
  then have "devices_ok tab \<and> grown same_machine (fl_devices w) tab"
    using adopt(3) assms(2) grown_refl [of same_machine]
    by (auto simp: adopt_console_peer_def split: if_splits prod.splits option.splits)
  then show ?thesis using adopt(1) by simp
next
  case (dismiss src now hostname tab res)
  obtain d t1 where e: "get_or_create_device cfg src now hostname (fl_devices w) = (d, t1)" by fastforce
  have s: "same_machine d (d\<lparr>rd_managed := False\<rparr>)" by (simp add: same_machine_def)
  from put_grown [OF get_or_create_grown [OF e assms(2) dismiss(2)] s]
  have "devices_ok tab \<and> grown same_machine (fl_devices w) tab"
    using dismiss(3) e assms(2) grown_refl [of same_machine]
    by (auto simp: dismiss_console_peer_def dismiss_peer_def split: if_splits)
  then show ?thesis using dismiss(1) by simp
next
  case (release now ci ri mi tab calls n)
  have "list_all2 same_machine (fl_devices w) tab" using release_same [OF assms(2), of now ci ri mi] release(2) by simp
  then show ?thesis using same_step assms(2) release(1) by simp
qed

definition fleet_step :: "'c console \<Rightarrow> remote_settings \<Rightarrow> 'c fleet \<Rightarrow> 'c fleet \<Rightarrow> bool" where
  "fleet_step kc cfg w w' \<longleftrightarrow> automatic_step kc cfg w w' \<or> operator_step cfg w w'"

text \<open>C29: Whatever the syncs, the machines and the operators do, a machine's row is never lost, never changes its identity, and
  no second row for its hostname (in any casing) appears.\<close>

theorem one_row_per_machine_forever:
  assumes "(fleet_step kc cfg)\<^sup>*\<^sup>* w w'" "devices_ok (fl_devices w)"
  shows "devices_ok (fl_devices w') \<and> grown same_machine (fl_devices w) (fl_devices w')"
  using assms(1)
proof (induction rule: rtranclp_induct)
  case base
  then show ?case using assms(2) grown_refl [of same_machine] by blast
next
  case (step x y)
  have "devices_ok (fl_devices y) \<and> grown same_machine (fl_devices x) (fl_devices y)"
    using step.hyps(2) step.IH automatic_step_kept [of kc cfg x y] operator_step_same [of cfg x y]
      grown_mono [of kept "fl_devices x" "fl_devices y" same_machine] kept_same_machine
    unfolding fleet_step_def by blast
  then show ?case using step.IH grown_same_trans by blast
qed

theorem one_row_per_machine_forever_witness:
  "\<exists>w'. operator_step demo_settings \<lparr>fl_console = (), fl_devices = [demo_device], fl_accounts = []\<rparr> w'
     \<and> devices_ok (fl_devices w') \<and> grown same_machine [demo_device] (fl_devices w')
     \<and> map rd_managed (fl_devices w') = [False]"
proof -
  let ?w = "\<lparr>fl_console = (), fl_devices = [demo_device], fl_accounts = []\<rparr> :: unit fleet"
  let ?w' = "?w\<lparr>fl_devices := [deleted_device 9 demo_device]\<rparr>"
  have id: "rd_id demo_device = ''d1''" by (simp add: demo_device_def new_device_def)
  have step: "operator_step demo_settings ?w ?w'"
    by (rule operator_step.delete [of 9 "''d1''"])
      (simp add: delete_device_route_def delete_device_def find_row_def put_row_def id deleted_device_def)
  have "(fleet_step (\<lparr>kc_peers = (\<lambda>c. (c, Failed)), kc_users = (\<lambda>c. (c, Failed)), kc_user_id = (\<lambda>c. (c, Failed)),
      kc_groups = (\<lambda>c. (c, Failed)), kc_create_group = (\<lambda>c _. (c, Failed)), kc_collections = (\<lambda>c. (c, Failed)),
      kc_create_collection = (\<lambda>c _ _. (c, Failed)), kc_rules = (\<lambda>c _. (c, Failed)), kc_create_rule = (\<lambda>c _ _ _. (c, Failed)),
      kc_book = (\<lambda>c _ _. (c, Failed)), kc_add_row = (\<lambda>c _. (c, Failed)), kc_update_row = (\<lambda>c _ _. (c, Failed)),
      kc_delete_row = (\<lambda>c _ _. (c, Failed)), kc_create_user = (\<lambda>c _. (c, Failed)), kc_set_password = (\<lambda>c _ _. (c, Failed)),
      kc_update_user = (\<lambda>c _ _. (c, Failed))\<rparr> :: unit console) demo_settings)\<^sup>*\<^sup>* ?w ?w'"
    using step by (intro r_into_rtranclp) (simp add: fleet_step_def)
  then have "devices_ok (fl_devices ?w') \<and> grown same_machine (fl_devices ?w) (fl_devices ?w')"
    by (rule one_row_per_machine_forever) (simp add: devices_ok_def)
  moreover have "map rd_managed (fl_devices ?w') = [False]" by (simp add: deleted_device_def)
  ultimately show ?thesis using step by (intro exI [of _ ?w']) simp
qed

subsection \<open>Who gets a password\<close>

lemma require_deploy_token_ok:
  "require_deploy_token cfg header = Inr u \<longleftrightarrow>
     (\<exists>t. header = Some t \<and> t \<noteq> [] \<and> t = strip (rs_deploy_token cfg) \<and> is_ascii t)"
  by (auto simp: require_deploy_token_def truthy_def Let_def split: option.splits)

text \<open>C18: The rollout config, which carries a machine's password, is served exactly to a caller who shows the configured,
  non-empty token and calls from the known or resolved address of a managed machine of that name; everyone else gets an error.\<close>

theorem fleet_password_gate:
  "deploy_config cfg draw resolve ca header hostname tab = Inr config \<longleftrightarrow>
     (\<exists>t ip dev. header = Some t \<and> t \<noteq> [] \<and> t = strip (rs_deploy_token cfg) \<and> is_ascii t \<and> valid_hostname hostname
        \<and> find_device hostname tab = Some dev \<and> rd_managed dev
        \<and> client_ip ca = Some ip \<and> ip \<noteq> [] \<and> (rd_last_ip dev = Some ip \<or> resolve (rd_hostname dev) = Some ip)
        \<and> config = deployment_config cfg draw dev)"
proof -
  have src: "verify_deploy_source resolve dev (client_ip ca) \<longleftrightarrow>
      (\<exists>ip. client_ip ca = Some ip \<and> ip \<noteq> [] \<and> (rd_last_ip dev = Some ip \<or> resolve (rd_hostname dev) = Some ip))" for dev
    by (auto simp: verify_deploy_source_def truthy_def split: option.splits if_splits)
  show ?thesis
    using require_deploy_token_ok [of cfg header "()"]
    by (cases "require_deploy_token cfg header") (auto simp: deploy_config_def src split: option.splits if_splits)
qed

lemma insort_key_map: "(\<And>x. f (g x) = f x) \<Longrightarrow> insort_key f (g x) (map g xs) = map g (insort_key f x xs)"
  by (induction xs) auto

lemma sort_key_map: "(\<And>x. f (g x) = f x) \<Longrightarrow> sort_key f (map g xs) = map g (sort_key f xs)"
  by (induction xs) (simp_all add: insort_key_map)

text \<open>The list of devices gives no password away: replacing the passwords by any others leaves every answer as it is.\<close>

theorem device_list_hides_passwords:
  "list_devices collate now q (map (\<lambda>d. if rd_password d = [] then d else d\<lparr>rd_password := x # f d\<rparr>) tab) = list_devices collate now q tab"
proof -
  let ?g = "\<lambda>d. if rd_password d = [] then d else d\<lparr>rd_password := x # f d\<rparr>"
  have q: "query_selects q (?g d) = query_selects q d" for d
    by (simp add: query_selects_def Let_def cong: option.case_cong)
  have p: "to_public now (?g d) = to_public now d" for d by (simp add: to_public_def readiness_def)
  have k: "rd_hostname (?g d) = rd_hostname d" for d by simp
  have "filter (query_selects q) (map ?g tab) = map ?g (filter (query_selects q) tab)"
    by (simp add: filter_map comp_def q)
  moreover have "sort_key (\<lambda>d. collate (rd_hostname d)) (map ?g ds) = map ?g (sort_key (\<lambda>d. collate (rd_hostname d)) ds)" for ds
    by (rule sort_key_map) (simp add: k)
  ultimately show ?thesis
    by (simp add: list_devices_def Let_def take_map drop_map comp_def p)
qed

subsection \<open>Ready\<close>

text \<open>A row reads ready exactly when the console sees its client online and the rollout has neither failed, gone stale nor is
  pending: the machine's own report of a finished rollout is not needed.\<close>

lemma ready_iff: "readiness now d = ''ready'' \<longleftrightarrow> rd_online d = Some True \<and> rd_state d \<notin> {''failed'', ''stale'', ''pending''}"
  by (auto simp: readiness_def deployed_states_def split: option.splits)

lemma ready_without_report: "readiness now (demo_device\<lparr>rd_online := Some True\<rparr>) = ''ready'' \<and> rd_reported_at demo_device = None"
  by (simp add: ready_iff demo_device_def new_device_def)

end
