(* ===== verification/Check_Then_Write.thy ===== *)
theory Check_Then_Write
  imports Prelude
begin

section \<open>Check, then write\<close>

text \<open>
  Many operations of the program read a table, refuse when the key they want is taken, and write in a later commit, with no
  lock and no unique index behind it. \<open>check_then_write\<close> is what such a table still guarantees when any number of requests
  are between their check and their write: \<open>holders s k\<close> are the rows that have the key, \<open>coming s k\<close> the rows that a request
  already past its check will give it. A write only brings what was announced, and while a key is held no check
  announces another row for it; so a key with one holder and no writer under way keeps that one holder.
\<close>

locale check_then_write =
  fixes holders :: "'s \<Rightarrow> 'k \<Rightarrow> 'i set"
    and coming :: "'s \<Rightarrow> 'k \<Rightarrow> 'i set"
    and step :: "'s \<Rightarrow> 's \<Rightarrow> bool"
    and ok :: "'s \<Rightarrow> bool"
  assumes ok_step: "step s s' \<Longrightarrow> ok s \<Longrightarrow> ok s'"
    and write_announced: "step s s' \<Longrightarrow> ok s \<Longrightarrow> holders s' k \<subseteq> holders s k \<union> coming s k"
    and check_refused: "step s s' \<Longrightarrow> ok s \<Longrightarrow> holders s k \<noteq> {} \<Longrightarrow> coming s' k \<subseteq> coming s k \<union> holders s k"
begin

lemma ok_steps: "step\<^sup>*\<^sup>* s s' \<Longrightarrow> ok s \<Longrightarrow> ok s'"
  by (induction rule: rtranclp_induct) (auto intro: ok_step)

lemma held_step:
  assumes "step s s'" "ok s" "holders s k = {h}" "coming s k \<subseteq> {h}" "h \<in> holders s' k"
  shows "holders s' k = {h} \<and> coming s' k \<subseteq> {h}"
  using write_announced [OF assms(1,2), of k] check_refused [OF assms(1,2), of k] assms(3-5) by auto

lemma sole_holder_stays:
  assumes "(\<lambda>a b. step a b \<and> h \<in> holders b k)\<^sup>*\<^sup>* s s'" "ok s" "holders s k = {h}" "coming s k \<subseteq> {h}"
  shows "ok s' \<and> holders s' k = {h} \<and> coming s' k \<subseteq> {h}"
  using assms
proof (induction rule: rtranclp_induct)
  case (step a b)
  then show ?case using held_step [of a b k h] ok_step [of a b] by blast
qed simp

end

end
