(* ===== verification/Push_Races.thy ===== *)
theory Push_Races
  imports Remote_Push Check_Then_Write
begin

section \<open>The push queue under concurrent requests\<close>

text \<open>
  \<open>push_jobs.py\<close> with every read and every commit a step of its own. A request or a worker that has read its rows and passed
  its guard is in flight, with what it will write; the write goes to the stored row whatever has become of it meanwhile
  (an UPDATE of the columns it sets, by primary key), since the code neither locks the row nor checks its state again.
\<close>

subsection \<open>Requests under way\<close>

text \<open>What is under way, between a guard and its commit or during the remote call: the insert of a request, a cancel, the end
  of an abandoned job, a worker about to mark its job running, one that has done so, one about to skip its job, and one with
  its call to the machine open.\<close>

datatype push_pending =
    Insert_jobs "push_job list"
  | Cancel_job uid
  | Reap_job uid
  | Run_job uid
  | Settle_job uid
  | Skip_job uid
  | Call_host uid

record push_traffic =
  pt_devices :: "ra_device list"
  pt_jobs :: "push_job list"
  pt_flight :: "push_pending list"

text \<open>\<open>UPDATE ... WHERE id = i\<close>\<close>

definition write_job :: "uid \<Rightarrow> (push_job \<Rightarrow> push_job) \<Rightarrow> push_job list \<Rightarrow> push_job list" where
  "write_job i f jobs = map (\<lambda>j. if pj_id j = i then f j else j) jobs"

fun inserted :: "push_pending \<Rightarrow> push_job list" where
  "inserted (Insert_jobs q) = q"
| "inserted _ = []"

fun job_of :: "push_pending \<Rightarrow> uid option" where
  "job_of (Insert_jobs q) = None"
| "job_of (Cancel_job i) = Some i"
| "job_of (Reap_job i) = Some i"
| "job_of (Run_job i) = Some i"
| "job_of (Settle_job i) = Some i"
| "job_of (Skip_job i) = Some i"
| "job_of (Call_host i) = Some i"

definition all_jobs :: "push_traffic \<Rightarrow> push_job list" where
  "all_jobs w = pt_jobs w @ concat (map inserted (pt_flight w))"

text \<open>The write of a request that is under way.\<close>

fun write_of :: "instant \<Rightarrow> winrm_call \<Rightarrow> push_pending \<Rightarrow> push_job list \<Rightarrow> push_job list" where
  "write_of now call (Insert_jobs q) jobs = jobs @ q"
| "write_of now call (Cancel_job i) jobs = write_job i (close_job now ''cancelled'' (Some Cancelled_by_operator)) jobs"
| "write_of now call (Reap_job i) jobs = write_job i (close_job now ''failed'' (Some Worker_silent)) jobs"
| "write_of now call (Run_job i) jobs = write_job i (mark_running now) jobs"
| "write_of now call (Settle_job i) jobs = jobs"
| "write_of now call (Skip_job i) jobs = write_job i (close_job now ''skipped'' (Some No_longer_managed)) jobs"
| "write_of now call (Call_host i) jobs = write_job i (finish_push_job now call) jobs"

text \<open>The guards, on the job as stored when it is read.\<close>

fun guard_of :: "instant \<Rightarrow> push_pending \<Rightarrow> push_job \<Rightarrow> bool" where
  "guard_of now (Cancel_job i) job = (cancel_push_job now job \<noteq> None)"
| "guard_of now (Reap_job i) job = (reap_job now job \<noteq> job)"
| "guard_of now (Run_job i) job = (pj_state job = ''queued'')"
| "guard_of now _ job = False"

inductive push_race :: "push_traffic \<Rightarrow> push_traffic \<Rightarrow> bool" where
  queue_read: "distinct (map rd_id devs) \<Longrightarrow> inj (new_id src) \<Longrightarrow> range (new_id src) \<inter> pj_id ` set (all_jobs w) = {} \<Longrightarrow>
    enqueue_push_jobs src now profile dry who devs (pt_jobs w) = Some (jobs', queued, skipped) \<Longrightarrow>
    push_race w (w\<lparr>pt_flight := Insert_jobs queued # pt_flight w\<rparr>)"
| job_read: "job_of a = Some i \<Longrightarrow> find_row pj_id i (pt_jobs w) = Some job \<Longrightarrow> guard_of now a job \<Longrightarrow>
    push_race w (w\<lparr>pt_flight := a # pt_flight w\<rparr>)"
| commit: "a \<in> set (pt_flight w) \<Longrightarrow>
    push_race w (w\<lparr>pt_jobs := write_of now call a (pt_jobs w),
      pt_flight := (case a of Run_job i \<Rightarrow> [Settle_job i] | _ \<Rightarrow> []) @ remove1 a (pt_flight w)\<rparr>)"
| settle: "Settle_job i \<in> set (pt_flight w) \<Longrightarrow> find_row pj_id i (pt_jobs w) = Some job \<Longrightarrow>
    push_race w (case settle_push_job now job (pt_devices w) of
        Not_ours \<Rightarrow> w\<lparr>pt_flight := Skip_job i # remove1 (Settle_job i) (pt_flight w)\<rparr>
      | Profile_raises \<Rightarrow> w\<lparr>pt_flight := remove1 (Settle_job i) (pt_flight w)\<rparr>
      | Make_call devices' \<Rightarrow> w\<lparr>pt_devices := devices', pt_flight := Call_host i # remove1 (Settle_job i) (pt_flight w)\<rparr>)"
| lost: "a \<in> set (pt_flight w) \<Longrightarrow> push_race w (w\<lparr>pt_flight := remove1 a (pt_flight w)\<rparr>)"
| devices: "push_race w (w\<lparr>pt_devices := devices'\<rparr>)"

inductive_cases push_raceE: "push_race w w'"

subsection \<open>A busy device\<close>

text \<open>The pushes of a device that are waiting or running, and those a request or a worker past its guard will make so.\<close>

definition active_pushes :: "push_traffic \<Rightarrow> uid \<Rightarrow> uid set" where
  "active_pushes w d = {pj_id j |j. j \<in> set (pt_jobs w) \<and> pj_state j \<in> set push_job_active \<and> pj_device_id j = Some d}"

definition announced_pushes :: "push_traffic \<Rightarrow> uid \<Rightarrow> uid set" where
  "announced_pushes w d =
     {pj_id j |j. j \<in> set (concat (map inserted (pt_flight w))) \<and> pj_device_id j = Some d}
   \<union> {pj_id j |j. j \<in> set (pt_jobs w) \<and> Run_job (pj_id j) \<in> set (pt_flight w) \<and> pj_device_id j = Some d}"

lemma write_job_mem: "j \<in> set (write_job i f jobs) \<longleftrightarrow> (\<exists>p \<in> set jobs. j = (if pj_id p = i then f p else p))"
  unfolding write_job_def set_map image_iff by blast

lemma closing_writes [simp]:
  "pj_id (close_job now st d j) = pj_id j" "pj_device_id (close_job now st d j) = pj_device_id j" "pj_state (close_job now st d j) = st"
  "pj_id (mark_running now j) = pj_id j" "pj_device_id (mark_running now j) = pj_device_id j" "pj_state (mark_running now j) = ''running''"
  by (simp_all add: close_job_def mark_running_def)

lemma finish_writes [simp]:
  "pj_id (finish_push_job now call j) = pj_id j" "pj_device_id (finish_push_job now call j) = pj_device_id j"
  by (simp_all add: finish_push_job_def split: winrm_call.splits)

text \<open>What a commit leaves: a row of before with its id and device, active only if it was or is being marked running, or an
  inserted one.\<close>

lemma write_of_mem:
  assumes "j \<in> set (write_of now call a jobs)"
  shows "j \<in> set (inserted a) \<or> (\<exists>p \<in> set jobs. pj_id j = pj_id p \<and> pj_device_id j = pj_device_id p
    \<and> (pj_state j \<in> set push_job_active \<longrightarrow> pj_state p \<in> set push_job_active \<or> a = Run_job (pj_id p)))"
proof (cases a)
  case (Call_host i)
  with assms obtain p where "p \<in> set jobs" "j = (if pj_id p = i then finish_push_job now call p else p)" by (auto simp: write_job_mem)
  moreover have "pj_state (finish_push_job now call p) \<in> set push_job_active \<Longrightarrow> pj_state p \<in> set push_job_active"
    by (auto simp: finish_push_job_def push_job_active_def split: winrm_call.splits if_splits)
  ultimately show ?thesis by (auto split: if_splits)
qed (use assms in \<open>auto simp: write_job_mem push_job_active_def split: if_splits\<close>)

lemma remove1_inserted: "set (concat (map inserted (remove1 a fs))) \<subseteq> set (concat (map inserted fs))"
  using set_remove1_subset [of a fs] by auto

lemma commit_active:
  "active_pushes (w\<lparr>pt_jobs := write_of now call a (pt_jobs w), pt_flight := fs\<rparr>) d
   \<subseteq> active_pushes w d \<union> (if a \<in> set (pt_flight w) then announced_pushes w d else UNIV)"
proof
  fix i assume "i \<in> active_pushes (w\<lparr>pt_jobs := write_of now call a (pt_jobs w), pt_flight := fs\<rparr>) d"
  then obtain j where j: "j \<in> set (write_of now call a (pt_jobs w))" "pj_state j \<in> set push_job_active" "pj_device_id j = Some d" "i = pj_id j"
    by (auto simp: active_pushes_def)
  show "i \<in> active_pushes w d \<union> (if a \<in> set (pt_flight w) then announced_pushes w d else UNIV)"
    using write_of_mem [OF j(1)]
  proof
    assume "j \<in> set (inserted a)"
    then show ?thesis using j(3,4) by (auto simp: announced_pushes_def)
  next
    assume "\<exists>p \<in> set (pt_jobs w). pj_id j = pj_id p \<and> pj_device_id j = pj_device_id p
      \<and> (pj_state j \<in> set push_job_active \<longrightarrow> pj_state p \<in> set push_job_active \<or> a = Run_job (pj_id p))"
    then obtain p where p: "p \<in> set (pt_jobs w)" "pj_id j = pj_id p" "pj_device_id p = Some d"
      "pj_state p \<in> set push_job_active \<or> a = Run_job (pj_id p)" using j(2,3) by auto
    then show ?thesis using j(4) unfolding active_pushes_def announced_pushes_def by (auto split: if_splits)
  qed
qed

text \<open>What is under way and neither inserts a job nor marks one running.\<close>

definition quiet :: "push_pending set" where
  "quiet = {a. inserted a = [] \<and> (\<forall>i. a \<noteq> Run_job i)}"

lemma announced_commit:
  assumes "a \<in> set (pt_flight w)" "set fs \<subseteq> quiet \<union> set (pt_flight w)"
  shows "announced_pushes (w\<lparr>pt_jobs := write_of now call a (pt_jobs w), pt_flight := fs\<rparr>) d \<subseteq> announced_pushes w d"
proof
  fix i assume "i \<in> announced_pushes (w\<lparr>pt_jobs := write_of now call a (pt_jobs w), pt_flight := fs\<rparr>) d"
  then consider f j where "f \<in> set fs" "j \<in> set (inserted f)" "pj_device_id j = Some d" "i = pj_id j"
    | j where "j \<in> set (write_of now call a (pt_jobs w))" "Run_job (pj_id j) \<in> set fs" "pj_device_id j = Some d" "i = pj_id j"
    by (auto simp: announced_pushes_def)
  then show "i \<in> announced_pushes w d"
  proof cases
    case 1
    then have "f \<in> set (pt_flight w)" using assms(2) by (auto simp: quiet_def)
    then show ?thesis using 1 by (auto simp: announced_pushes_def)
  next
    case 2
    then have "Run_job (pj_id j) \<in> set (pt_flight w)" using assms(2) by (auto simp: quiet_def)
    then show ?thesis using write_of_mem [OF 2(1)] 2(3,4) assms(1) by (auto simp: announced_pushes_def)
  qed
qed

lemma announced_mono:
  assumes "pt_jobs w' = pt_jobs w" "set (pt_flight w') \<subseteq> quiet \<union> set (pt_flight w)"
  shows "announced_pushes w' d \<subseteq> announced_pushes w d"
  using assms by (fastforce simp: announced_pushes_def quiet_def)

lemma race_announced:
  assumes "push_race w w'"
  shows "active_pushes w' d \<subseteq> active_pushes w d \<union> announced_pushes w d"
  using assms
proof cases
  case (commit a now call)
  then show ?thesis using commit_active [where a = a and now = now and call = call and w = w and d = d] by auto
next
  case (settle i job now)
  then show ?thesis by (auto simp: active_pushes_def split: push_verdict.splits)
qed (auto simp: active_pushes_def)

definition traffic_ok :: "push_traffic \<Rightarrow> bool" where
  "traffic_ok w \<longleftrightarrow> distinct (map pj_id (all_jobs w))"

lemma race_refused:
  assumes "push_race w w'" "traffic_ok w" "active_pushes w d \<noteq> {}"
  shows "announced_pushes w' d \<subseteq> announced_pushes w d \<union> active_pushes w d"
  using assms(1)
proof cases
  case (queue_read devs src now profile dry who jobs' queued skipped)
  have "pj_device_id j \<noteq> Some d" if "j \<in> set queued" for j
  proof -
    from that obtain n dev where j: "j = new_job (new_id src n) now profile dry who dev" "skip_of (pt_jobs w) dev = None"
      unfolding enqueue_push_jobs_Some(2) [OF queue_read(5)] by auto
    have "d \<in> busy_devices (pt_jobs w)" using assms(3) by (auto simp: active_pushes_def busy_devices_def)
    then show ?thesis using skip_of_None [OF j(2)] j(1) by auto
  qed
  then show ?thesis unfolding queue_read(1) by (auto simp: announced_pushes_def)
next
  case (job_read a i job now)
  note job = find_row_Some [OF job_read(3)]
  have a: "inserted a = []" using job_read(2) by (cases a) auto
  have "pj_id j \<in> active_pushes w d" if "j \<in> set (pt_jobs w)" "Run_job (pj_id j) = a" "pj_device_id j = Some d" for j
  proof -
    have "j = job" using that(1,2) job job_read(2) assms(2) by (auto simp: traffic_ok_def all_jobs_def distinct_map dest: inj_onD)
    then show ?thesis using that job_read(4) by (auto simp: active_pushes_def push_job_active_def)
  qed
  then show ?thesis unfolding job_read(1) using a by (auto simp: announced_pushes_def)
next
  case (commit a now call)
  have "set ((case a of Run_job i \<Rightarrow> [Settle_job i] | _ \<Rightarrow> []) @ remove1 a (pt_flight w)) \<subseteq> quiet \<union> set (pt_flight w)"
    using set_remove1_subset [of a "pt_flight w"] by (auto simp: quiet_def split: push_pending.splits)
  then show ?thesis unfolding commit(1) using announced_commit [OF commit(2)] by blast
next
  case (settle i job now)
  have "announced_pushes w' d \<subseteq> announced_pushes w d"
    unfolding settle(1) using set_remove1_subset [of "Settle_job i" "pt_flight w"]
    by (intro announced_mono) (auto simp: quiet_def split: push_verdict.splits)
  then show ?thesis by blast
next
  case (lost a)
  have "announced_pushes w' d \<subseteq> announced_pushes w d"
    unfolding lost(1) using set_remove1_subset [of a "pt_flight w"] by (intro announced_mono) auto
  then show ?thesis by blast
qed (auto simp: announced_pushes_def)

text \<open>Primary keys: the stored jobs and those about to be inserted are different.\<close>

lemma write_of_ids:
  "map pj_id (write_of now call a jobs) = map pj_id jobs @ map pj_id (inserted a)"
proof -
  have "map pj_id (write_job i f jobs) = map pj_id jobs" if "\<And>j. pj_id (f j) = pj_id j" for i f
    using that by (auto simp: write_job_def)
  then show ?thesis by (cases a) auto
qed

lemma flight_ids_remove1:
  "a \<in> set fs \<Longrightarrow> mset (concat (map inserted fs)) = mset (inserted a) + mset (concat (map inserted (remove1 a fs)))"
  by (induction fs) auto

lemma traffic_ok_mset: "traffic_ok w \<longleftrightarrow> (\<forall>i. count (mset (map pj_id (all_jobs w))) i \<le> 1)"
  unfolding traffic_ok_def using distinct_count_atmost_1 [of "map pj_id (all_jobs w)"]
  by (metis count_mset_0_iff dual_order.refl le_SucE le_zero_eq One_nat_def not_one_le_zero nat_le_linear)

lemma traffic_ok_sub: "traffic_ok w \<Longrightarrow> mset (map pj_id (all_jobs w')) \<subseteq># mset (map pj_id (all_jobs w)) \<Longrightarrow> traffic_ok w'"
  unfolding traffic_ok_mset by (meson dual_order.trans mset_subset_eq_count)

lemma flight_ids: "a \<in> set fs \<Longrightarrow> image_mset pj_id (mset (concat (map inserted fs)))
    = image_mset pj_id (mset (inserted a)) + image_mset pj_id (mset (concat (map inserted (remove1 a fs))))"
  using flight_ids_remove1 by (metis image_mset_union)

lemma race_traffic_ok:
  assumes "push_race w w'" "traffic_ok w"
  shows "traffic_ok w'"
  using assms(1)
proof cases
  case (queue_read devs src now profile dry who jobs' queued skipped)
  note q = queued_ids [OF queue_read(5,3)]
  have "distinct (map pj_id (queued @ all_jobs w))" using q queue_read(4) assms(2) by (fastforce simp: traffic_ok_def)
  moreover have "mset (map pj_id (all_jobs w')) = mset (map pj_id (queued @ all_jobs w))" unfolding queue_read(1) by (simp add: all_jobs_def)
  ultimately show ?thesis unfolding traffic_ok_def by (metis mset_eq_imp_distinct_iff)
next
  case (job_read a i job now)
  then show ?thesis using assms(2) by (cases a) (auto simp: traffic_ok_def all_jobs_def)
next
  case (commit a now call)
  have "mset (map pj_id (all_jobs w')) = mset (map pj_id (all_jobs w))"
    unfolding commit(1) using flight_ids [OF commit(2)] write_of_ids [of now call a "pt_jobs w"]
    by (auto simp: all_jobs_def write_of_ids simp flip: mset_map split: push_pending.splits)
  then show ?thesis using assms(2) by (intro traffic_ok_sub [of w w']) auto
next
  case (settle i job now)
  have "mset (map pj_id (all_jobs w')) = mset (map pj_id (all_jobs w))"
    unfolding settle(1) using flight_ids [OF settle(2)] by (simp add: all_jobs_def flip: mset_map split: push_verdict.splits)
  then show ?thesis using assms(2) by (intro traffic_ok_sub [of w w']) auto
next
  case (lost a)
  show ?thesis by (rule traffic_ok_sub [OF assms(2)]) (use flight_ids [OF lost(2)] in \<open>simp add: lost(1) all_jobs_def flip: mset_map\<close>)
qed (use assms(2) in \<open>simp add: traffic_ok_def all_jobs_def\<close>)

interpretation busy: check_then_write active_pushes announced_pushes push_race traffic_ok
  by unfold_locales (use race_traffic_ok race_announced race_refused in blast)+

text \<open>C17: While the one push of a device is waiting or running, no other push of the device is queued or started: not by any
  request that looks at the queue in that time, nor by a worker, whatever else is read and committed in between. The one
  exception is a request or a worker that had passed its check before and not yet committed.\<close>

theorem busy_device_is_not_queued_again:
  assumes "traffic_ok w" "active_pushes w d = {h}" "announced_pushes w d \<subseteq> {h}"
    and "(\<lambda>a b. push_race a b \<and> h \<in> active_pushes b d)\<^sup>*\<^sup>* w w'"
  shows "active_pushes w' d = {h} \<and> announced_pushes w' d \<subseteq> {h}"
  using busy.sole_holder_stays [OF assms(4,1,2,3)] by blast

subsection \<open>Closed jobs\<close>

definition untouched :: "uid \<Rightarrow> push_traffic \<Rightarrow> bool" where
  "untouched i w \<longleftrightarrow> (\<forall>a \<in> set (pt_flight w). job_of a \<noteq> Some i)"

lemma untouched_write:
  assumes "job_of a \<noteq> Some (pj_id j)" "j \<in> set jobs"
  shows "j \<in> set (write_of now call a jobs)"
  using assms by (cases a) (auto simp: write_job_mem intro!: bexI [of _ j])

lemma closed_step:
  assumes "push_race w w'" "traffic_ok w" "j \<in> set (pt_jobs w)" "pj_state j \<notin> set push_job_active" "untouched (pj_id j) w"
  shows "j \<in> set (pt_jobs w') \<and> untouched (pj_id j) w'"
  using assms(1)
proof cases
  case (queue_read devs src now profile dry who jobs' queued skipped)
  then show ?thesis using assms(3,5) by (simp add: untouched_def)
next
  case (job_read a i job now)
  have "i \<noteq> pj_id j"
  proof
    assume "i = pj_id j"
    then have "job = j"
      using find_row_Some [OF job_read(3)] assms(2,3) by (auto simp: traffic_ok_def all_jobs_def distinct_map dest: inj_onD)
    then show False using job_read(4) assms(4)
      by (cases a) (auto simp: cancel_push_job_def reap_job_def push_job_active_def split: if_splits)
  qed
  then show ?thesis using job_read(1,2) assms(3,5) by (simp add: untouched_def)
next
  case (commit a now call)
  have a: "job_of a \<noteq> Some (pj_id j)" using commit(2) assms(5) by (auto simp: untouched_def)
  have "untouched (pj_id j) w'"
    using a assms(5) set_remove1_subset [of a "pt_flight w"] unfolding commit(1) untouched_def by (auto split: push_pending.splits)
  then show ?thesis using untouched_write [OF a assms(3)] unfolding commit(1) by simp
next
  case (settle i job now)
  have "i \<noteq> pj_id j" using settle(2) assms(5) by (force simp: untouched_def)
  then show ?thesis using assms(3,5) set_remove1_subset [of "Settle_job i" "pt_flight w"]
    unfolding settle(1) untouched_def by (auto split: push_verdict.splits)
next
  case (lost a)
  then show ?thesis using assms(3,5) set_remove1_subset [of a "pt_flight w"] by (auto simp: untouched_def)
qed (use assms(3,5) in \<open>simp add: untouched_def\<close>)

text \<open>C26: A closed push that no request or worker is still about to write is closed for good: whatever requests, workers and
  changes of devices follow, its row stays as it is, state, detail and time of closing included, and no worker takes it up
  again. A cancel does not stop a worker that had read the job as queued before.\<close>

theorem closed_jobs_stay_closed:
  assumes "push_race\<^sup>*\<^sup>* w w'" "traffic_ok w" "j \<in> set (pt_jobs w)" "pj_state j \<notin> set push_job_active" "untouched (pj_id j) w"
  shows "j \<in> set (pt_jobs w') \<and> untouched (pj_id j) w'"
  using assms
proof (induction rule: rtranclp_induct)
  case (step x y)
  then have "traffic_ok x" using busy.ok_steps by blast
  with step show ?case using closed_step by blast
qed simp

subsection \<open>A cancel and a worker at the same time\<close>

definition demo_job :: push_job where
  "demo_job = new_job ''n0'' 5 None False None demo_device"

definition traffic :: "push_job list \<Rightarrow> push_pending list \<Rightarrow> push_traffic" where
  "traffic jobs fs = \<lparr>pt_devices = [demo_device], pt_jobs = jobs, pt_flight = fs\<rparr>"

lemma demo_read:
  assumes "job_of a = Some ''n0''" "guard_of 6 a j" "pj_id j = ''n0''"
  shows "push_race (traffic [j] fs) (traffic [j] (a # fs))"
  using push_race.job_read [OF assms(1), of "traffic [j] fs" j 6] assms(2,3) by (simp add: traffic_def find_row_def)

lemma demo_commit:
  "a \<in> set fs \<Longrightarrow> push_race (traffic jobs fs)
     (traffic (write_of 7 Crashed a jobs) ((case a of Run_job i \<Rightarrow> [Settle_job i] | _ \<Rightarrow> []) @ remove1 a fs))"
  using push_race.commit [of a "traffic jobs fs" 7 Crashed] by (simp add: traffic_def)

lemma demo_started: "write_of 7 Crashed (Run_job ''n0'') [demo_job] = [mark_running 7 demo_job]"
  by (simp add: write_job_def demo_job_def)

lemma demo_job_sel [simp]: "pj_id demo_job = ''n0''" "pj_state demo_job = ''queued''" "pj_device_id demo_job = Some ''d1''"
  by (simp_all add: demo_job_def new_job_def demo_device_def new_device_def)

theorem busy_device_is_not_queued_again_witness:
  "active_pushes (traffic [mark_running 7 demo_job] [Settle_job ''n0'']) ''d1'' = {''n0''}"
proof -
  let ?run = "\<lambda>a b. push_race a b \<and> ''n0'' \<in> active_pushes b ''d1''"
  have s1: "?run (traffic [demo_job] []) (traffic [demo_job] [Run_job ''n0''])"
    using demo_read [of "Run_job ''n0''" demo_job "[]"] by (simp add: active_pushes_def traffic_def push_job_active_def)
  have s2: "?run (traffic [demo_job] [Run_job ''n0'']) (traffic [mark_running 7 demo_job] [Settle_job ''n0''])"
    using demo_commit [of "Run_job ''n0''" "[Run_job ''n0'']" "[demo_job]"] demo_started
    by (simp add: active_pushes_def traffic_def push_job_active_def)
  note run = rtranclp_trans [OF r_into_rtranclp [of ?run, OF s1] r_into_rtranclp [of ?run, OF s2]]
  have start: "traffic_ok (traffic [demo_job] [])" "active_pushes (traffic [demo_job] []) ''d1'' = {''n0''}"
      "announced_pushes (traffic [demo_job] []) ''d1'' \<subseteq> {''n0''}"
    by (simp_all add: traffic_ok_def all_jobs_def active_pushes_def announced_pushes_def traffic_def push_job_active_def)
  show ?thesis using busy_device_is_not_queued_again [OF start run] by blast
qed

definition demo_cancelled :: push_job where
  "demo_cancelled = close_job 7 ''cancelled'' (Some Cancelled_by_operator) demo_job"

text \<open>The operator is told the push is cancelled, and it runs: the worker had read the job before the cancel was committed.\<close>

lemma cancelled_push_still_runs:
  "push_race\<^sup>*\<^sup>* (traffic [demo_job] []) (traffic [demo_cancelled] [Run_job ''n0''])"
  "push_race (traffic [demo_cancelled] [Run_job ''n0'']) (traffic [mark_running 7 demo_cancelled] [Settle_job ''n0''])"
  "pj_state (mark_running 7 demo_cancelled) = ''running''"
proof -
  have "push_race (traffic [demo_job] []) (traffic [demo_job] [Run_job ''n0''])"
    using demo_read [of "Run_job ''n0''" demo_job "[]"] by simp
  moreover have "push_race (traffic [demo_job] [Run_job ''n0'']) (traffic [demo_job] [Cancel_job ''n0'', Run_job ''n0''])"
    using demo_read [of "Cancel_job ''n0''" demo_job "[Run_job ''n0'']"] by (simp add: cancel_push_job_def)
  moreover have "push_race (traffic [demo_job] [Cancel_job ''n0'', Run_job ''n0'']) (traffic [demo_cancelled] [Run_job ''n0''])"
    using demo_commit [of "Cancel_job ''n0''" "[Cancel_job ''n0'', Run_job ''n0'']" "[demo_job]"] by (simp add: write_job_def demo_cancelled_def)
  ultimately show "push_race\<^sup>*\<^sup>* (traffic [demo_job] []) (traffic [demo_cancelled] [Run_job ''n0''])" by force
  show "push_race (traffic [demo_cancelled] [Run_job ''n0'']) (traffic [mark_running 7 demo_cancelled] [Settle_job ''n0''])"
    using demo_commit [of "Run_job ''n0''" "[Run_job ''n0'']" "[demo_cancelled]"] by (simp add: write_job_def demo_cancelled_def)
qed simp

definition next_job :: push_job where
  "next_job = new_job ''m0'' 8 None False None demo_device"

theorem closed_jobs_stay_closed_witness:
  "demo_cancelled \<in> set (pt_jobs (traffic [demo_cancelled, next_job] [])) \<and> untouched ''n0'' (traffic [demo_cancelled, next_job] [])"
proof -
  define src where "src = demo_source\<lparr>new_id := (\<lambda>n. CHR ''m'' # show_nat n)\<rparr>"
  have src: "inj (new_id src)" "range (new_id src) \<inter> {''n0''} = {}" using inj_show_nat by (auto simp: src_def inj_def)
  have id: "pj_id demo_cancelled = ''n0''" by (simp add: demo_cancelled_def)
  have "enqueue_push_jobs src 8 None False None [demo_device] [demo_cancelled] = Some ([demo_cancelled, next_job], [next_job], [])"
    unfolding src_def by code_simp
  then have "push_race (traffic [demo_cancelled] []) (traffic [demo_cancelled] [Insert_jobs [next_job]])"
    using push_race.queue_read [of "[demo_device]" src "traffic [demo_cancelled] []"] src id by (simp add: traffic_def all_jobs_def)
  moreover have "push_race (traffic [demo_cancelled] [Insert_jobs [next_job]]) (traffic [demo_cancelled, next_job] [])"
    using demo_commit [of "Insert_jobs [next_job]" "[Insert_jobs [next_job]]" "[demo_cancelled]"] by simp
  ultimately have "push_race\<^sup>*\<^sup>* (traffic [demo_cancelled] []) (traffic [demo_cancelled, next_job] [])" by force
  moreover have "traffic_ok (traffic [demo_cancelled] [])" "demo_cancelled \<in> set (pt_jobs (traffic [demo_cancelled] []))"
      "pj_state demo_cancelled \<notin> set push_job_active" "untouched (pj_id demo_cancelled) (traffic [demo_cancelled] [])"
    by (simp_all add: traffic_ok_def all_jobs_def traffic_def demo_cancelled_def push_job_active_def untouched_def)
  ultimately show ?thesis unfolding id [symmetric] by (rule closed_jobs_stay_closed)
qed

end
