(* ===== verification/Cisco_Parsers.thy ===== *)
theory Cisco_Parsers
  imports Complex_Main "HOL-Library.AList" Regex Mac_Rediscovery Ap_Registry
begin

section \<open>Reading the output of a Cisco switch (app/services/cisco_ssh/parsers.py)\<close>

text \<open>
  Pure functions from command output to records, over the matcher of theory Regex. Device output holds
  characters below U+0100, and no superscript digits (which \<open>str.isdigit\<close> would also accept).
\<close>

subsection \<open>Records (models.py)\<close>

record status_row =
  sr_port :: string
  sr_name :: "string option"
  sr_status :: string
  sr_vlan :: string
  sr_duplex :: string
  sr_speed :: string
  sr_media :: string

record camera_port =
  cm_port :: string
  cm_vlan :: int
  cm_oper :: string
  cm_description :: "string option"
  cm_poe_power :: "string option"
  cm_poe_status :: "string option"

subsection \<open>Ports and MAC addresses\<close>

definition abbreviate :: "string \<Rightarrow> string \<Rightarrow> string \<Rightarrow> string" where
  "abbreviate long short port = (if starts_with long port then short @ drop (length long) port else port)"

definition normalize_port :: "string \<Rightarrow> string" where
  "normalize_port port =
     abbreviate ''TwentyFiveGigE'' ''Twe'' (abbreviate ''TenGigabitEthernet'' ''Te''
       (abbreviate ''FastEthernet'' ''Fa'' (abbreviate ''GigabitEthernet'' ''Gi'' (strip port))))"

fun pairs_with_colons :: "string \<Rightarrow> string" where
  "pairs_with_colons (a # b # c # cs) = a # b # CHR '':'' # pairs_with_colons (c # cs)"
| "pairs_with_colons cs = cs"

definition format_mac :: "string \<Rightarrow> string" where
  "format_mac m =
     (let raw = lower (filter (\<lambda>c. c \<noteq> CHR ''.'') m) in if length raw = 12 then pairs_with_colons raw else m)"

definition hex_char :: "char \<Rightarrow> bool" where
  "hex_char c \<longleftrightarrow> c \<in> set ''0123456789abcdefABCDEF''"

definition four_hex :: re where "four_hex = times 4 (Cls hex_char)"

definition dotted_mac :: "nat \<Rightarrow> re" where
  "dotted_mac n = Grp n (seqs [four_hex, lit ''.'', four_hex, lit ''.'', four_hex])"

definition digits_dotted :: "nat \<Rightarrow> re" where
  "digits_dotted n = Grp n (seqs [plus dig, lit ''.'', plus dig, lit ''.'', plus dig, lit ''.'', plus dig])"

subsection \<open>show interfaces status\<close>

definition port_states :: "string list" where
  "port_states = [''connected'', ''notconnect'', ''disabled'', ''err-disabled'', ''monitor'', ''inactive'']"

definition interface_status_re :: re where
  "interface_status_re = seqs [Bol, Grp 1 (plus nsp), two_or_more spc, optional (Grp 2 (Seq nsp (Lazy dot))), two_or_more spc,
     Grp 3 (alts (map lit port_states)), plus spc, Grp 4 (plus nsp), plus spc, Grp 5 (plus nsp), plus spc, Grp 6 (plus nsp),
     plus spc, Grp 7 (plus nsp), Star spc, Eol]"

definition status_row_of :: "string \<Rightarrow> status_row option" where
  "status_row_of raw =
     (let line = rstrip raw in
      if line = [] \<or> starts_with ''port '' (lower line) \<or> starts_with ''---'' line then None
      else map_option (\<lambda>g. let name = strip (group_text g 2) in
             \<lparr>sr_port = group_text g 1, sr_name = (if name \<noteq> [] \<and> name \<noteq> ''--'' then Some name else None),
              sr_status = group_text g 3, sr_vlan = group_text g 4, sr_duplex = group_text g 5, sr_speed = group_text g 6,
              sr_media = group_text g 7\<rparr>)
             (re_match interface_status_re line))"

definition parse_interface_status_table :: "string \<Rightarrow> status_row list" where
  "parse_interface_status_table out = List.map_filter status_row_of (splitlines out)"

definition digits_only :: "string \<Rightarrow> bool" where
  "digits_only s \<longleftrightarrow> s \<noteq> [] \<and> list_all is_digit s"

definition parse_ports_on_vlans :: "string \<Rightarrow> int list \<Rightarrow> camera_port list" where
  "parse_ports_on_vlans out vlans =
     List.map_filter (\<lambda>row. if digits_only (sr_vlan row) \<and> int (digits_val (sr_vlan row)) \<in> set vlans
         then Some \<lparr>cm_port = sr_port row, cm_vlan = int (digits_val (sr_vlan row)), cm_oper = sr_status row,
                    cm_description = sr_name row, cm_poe_power = None, cm_poe_status = None\<rparr>
         else None)
       (parse_interface_status_table out)"

subsection \<open>show power inline\<close>

definition poe_re :: re where
  "poe_re = seqs [Star spc, Grp 1 (plus nsp), plus spc, plus nsp, plus spc, Grp 2 (plus nsp), plus spc,
     Grp 3 (plus (Cls (\<lambda>c. is_digit c \<or> c = CHR ''.''))), plus spc]"

text \<open>Port to status and power; a later line of the same port wins.\<close>

definition poe_by_port :: "string \<Rightarrow> (string \<times> string \<times> string) list" where
  "poe_by_port out =
     fold (\<lambda>line d. case re_match poe_re line of
             None \<Rightarrow> d
           | Some g \<Rightarrow> AList.update (normalize_port (group_text g 1)) (group_text g 2, group_text g 3 @ ''W'') d)
       (split_on CHR 0x0A out) []"

definition enrich_camera_poe :: "string \<Rightarrow> camera_port list \<Rightarrow> camera_port list" where
  "enrich_camera_poe out ports =
     map (\<lambda>cam. case map_of (poe_by_port out) (normalize_port (cm_port cam)) of
             None \<Rightarrow> cam
           | Some (st, watts) \<Rightarrow> cam\<lparr>cm_poe_status := Some st, cm_poe_power := Some watts\<rparr>) ports"

definition enrich_poe :: "string \<Rightarrow> ap_info list \<Rightarrow> ap_info list" where
  "enrich_poe out aps =
     map (\<lambda>ap. case map_of (poe_by_port out) (normalize_port (ai_port ap)) of
             None \<Rightarrow> ap
           | Some (st, watts) \<Rightarrow> ap\<lparr>ai_poe_status := Some st, ai_poe_power := Some watts\<rparr>) aps"

text \<open>\<open>float\<close> of a text of digits and points, exactly: at most one point and a digit.\<close>

definition decimal_value :: "string \<Rightarrow> rat option" where
  "decimal_value s =
     (case split_on CHR ''.'' s of
        [a] \<Rightarrow> if a = [] then None else Some (of_nat (digits_val a))
      | [a, b] \<Rightarrow> if a = [] \<and> b = [] then None
                else Some (of_nat (digits_val a) + of_nat (digits_val b) / of_nat (10 ^ length b))
      | _ \<Rightarrow> None)"

text \<open>The outer option: no line for the port; the inner one: the ValueError of \<open>float\<close>.\<close>

definition parse_port_poe_watts :: "string \<Rightarrow> string \<Rightarrow> rat option option" where
  "parse_port_poe_watts out interface =
     (case List.map_filter (\<lambda>line. Option.bind (re_match poe_re line)
              (\<lambda>g. if normalize_port (group_text g 1) = normalize_port interface then Some (group_text g 3) else None))
            (split_on CHR 0x0A out) of
        [] \<Rightarrow> None | w # _ \<Rightarrow> Some (decimal_value w))"

subsection \<open>ARP and MAC tables\<close>

definition arp_line_re :: re where
  "arp_line_re = seqs [digits_dotted 1, plus spc, plus nsp, plus spc, dotted_mac 2]"

definition parse_arp_mac_to_ip :: "string \<Rightarrow> (string \<times> string) list" where
  "parse_arp_mac_to_ip out =
     fold (\<lambda>line d. case re_search arp_line_re line of
             None \<Rightarrow> d
           | Some g \<Rightarrow> AList.update (format_mac (lower (group_text g 2))) (group_text g 1) d)
       (split_on CHR 0x0A out) []"

definition enrich_arp :: "string \<Rightarrow> ap_info list \<Rightarrow> ap_info list" where
  "enrich_arp out aps =
     map (\<lambda>ap. case map_of (parse_arp_mac_to_ip out) (ai_mac ap) of None \<Rightarrow> ap | Some ip \<Rightarrow> ap\<lparr>ai_ip := Some ip\<rparr>) aps"

definition mac_line_re :: re where
  "mac_line_re = seqs [Star spc, plus dig, plus spc, dotted_mac 1, plus spc, plus nsp, plus spc, Grp 2 (plus nsp)]"

definition mac_by_port :: "string \<Rightarrow> (string \<times> string) list" where
  "mac_by_port out =
     fold (\<lambda>line d. case re_match mac_line_re line of
             None \<Rightarrow> d
           | Some g \<Rightarrow> AList.update (normalize_port (group_text g 2)) (format_mac (lower (group_text g 1))) d)
       (split_on CHR 0x0A out) []"

definition enrich_mac_from_table :: "string \<Rightarrow> ap_info list \<Rightarrow> ap_info list" where
  "enrich_mac_from_table out aps =
     map (\<lambda>ap. if ai_mac ap \<noteq> [] then ap
               else case map_of (mac_by_port out) (normalize_port (ai_port ap)) of None \<Rightarrow> ap | Some m \<Rightarrow> ap\<lparr>ai_mac := m\<rparr>) aps"

subsection \<open>show cdp neighbors detail\<close>

definition ap_platform_re :: re where
  "ap_platform_re = alts [Seq (lit ''AIR-'') (Not_ahead (lit ''CT'')), Seq (one_of ''Aa'') (lit ''ironet''),
     Seq (one_of ''Cc'') (lit ''9120''), Seq (one_of ''Cc'') (lit ''9130''), Seq (one_of ''Cc'') (lit ''9115''),
     Seq (one_of ''Cc'') (lit ''9105''), Seq (one_of ''Cc'') (lit ''1560''),
     seqs [one_of ''Cc'', lit ''isco'', plus spc, lit ''AP''], Seq (one_of ''Ww'') (lit ''ireless''), lit ''Trans-Bridge'']"

text \<open>\<open>^AP([0-9a-f]{4})\.([0-9a-f]{4})\.([0-9a-f]{4})$\<close>, without case.\<close>

definition ap_name_re :: re where
  "ap_name_re = seqs [Bol, ilit ''AP'', Grp 1 four_hex, lit ''.'', Grp 2 four_hex, lit ''.'', Grp 3 four_hex, Eol]"

definition mac_from_ap_name :: "string option \<Rightarrow> string option" where
  "mac_from_ap_name name =
     (case truthy name of
        None \<Rightarrow> None
      | Some n \<Rightarrow> map_option (\<lambda>g. pairs_with_colons (take 12 (lower (group_text g 1 @ group_text g 2 @ group_text g 3))))
                   (re_match ap_name_re (strip n)))"

definition platform_re :: re where
  "platform_re = seqs [lit ''Platform:'', Star spc, Grp 1 (lazy_plus dot), Alt (lit '','') Eol_multi]"

definition line_of :: "string \<Rightarrow> re" where
  "line_of label = seqs [lit label, Star spc, Grp 1 (plus dot)]"

definition cdp_interface_re :: re where
  "cdp_interface_re = seqs [lit ''Interface:'', Star spc, Grp 1 (plus nsp), lit '','']"

definition cdp_ip_re :: re where
  "cdp_ip_re = seqs [lit ''IP address:'', Star spc, digits_dotted 1]"

definition found :: "re \<Rightarrow> string \<Rightarrow> string option" where
  "found r s = map_option (\<lambda>g. strip (group_text g 1)) (re_search r s)"

definition cdp_is_ap :: "string \<Rightarrow> bool" where
  "cdp_is_ap entry \<longleftrightarrow>
     (case found platform_re entry of None \<Rightarrow> False | Some p \<Rightarrow> re_search ap_platform_re p \<noteq> None)
     \<or> (case found (line_of ''Capabilities:'') entry of None \<Rightarrow> False | Some c \<Rightarrow> contains ''Trans-Bridge'' c)"

definition cdp_ap :: "int \<Rightarrow> string \<Rightarrow> ap_info" where
  "cdp_ap vlan entry =
     (let name = found (line_of ''Device ID:'') entry in
      \<lparr>ai_mac = (case mac_from_ap_name name of None \<Rightarrow> [] | Some m \<Rightarrow> m),
       ai_port = (case found cdp_interface_re entry of None \<Rightarrow> [] | Some p \<Rightarrow> p), ai_vlan = vlan,
       ai_ip = map_option (\<lambda>g. group_text g 1) (re_search cdp_ip_re entry), ai_cdp_name = name,
       ai_platform = Some (case found platform_re entry of None \<Rightarrow> [] | Some p \<Rightarrow> p),
       ai_poe_power = None, ai_poe_status = None\<rparr>)"

definition dashes_re :: re where
  "dashes_re = Seq (times 5 (lit ''-'')) (Star (lit ''-''))"

definition parse_cdp_access_points :: "string \<Rightarrow> int \<Rightarrow> ap_info list" where
  "parse_cdp_access_points out vlan = map (cdp_ap vlan) (filter cdp_is_ap (re_split dashes_re out))"

subsection \<open>show version\<close>

record version_info =
  vi_hostname :: "string option"
  vi_uptime :: "string option"
  vi_ios :: "string option"
  vi_model :: "string option"

definition first_found :: "re list \<Rightarrow> string \<Rightarrow> string option" where
  "first_found rs s = (case List.map_filter (\<lambda>r. map_option (\<lambda>g. group_text g 1) (re_search r s)) rs of
     [] \<Rightarrow> None | x # _ \<Rightarrow> Some x)"

definition strip_commas :: "string \<Rightarrow> string" where
  "strip_commas s = rev (dropWhile (\<lambda>c. c = CHR '','') (rev s))"

definition parse_show_version :: "string \<Rightarrow> version_info" where
  "parse_show_version out =
     \<lparr>vi_hostname = first_found [seqs [Bol_multi, Grp 1 (plus nsp), plus spc, lit ''uptime'']] out,
      vi_uptime = map_option strip (first_found [Seq (lit ''uptime is '') (Grp 1 (plus dot))] out),
      vi_ios = map_option strip_commas (first_found
        [seqs [ilit ''Cisco IOS Software'', Lazy dot, ilit ''Version'', plus spc, Grp 1 (plus nsp)],
         seqs [lit ''Version'', plus spc, Grp 1 (plus nsp)]] out),
      vi_model = first_found
        [seqs [one_of ''Mm'', lit ''odel'', plus spc, one_of ''Nn'', lit ''umber'', Star spc, lit '':'', Star spc, Grp 1 (plus nsp)],
         seqs [ilit ''cisco'', plus spc, Grp 1 (Alt (Seq (ilit ''WS-'') (plus nsp)) (seqs [ilit ''C'', plus dig, Star nsp]))],
         seqs [Bol_multi, one_of ''Cc'', lit ''isco'', plus spc, Grp 1 (plus nsp), plus spc, lit ''('']] out\<rparr>"


subsection \<open>What the patterns read\<close>

inductive_simps reads_simps: "reads (Seq r1 r2) st st'" "reads (Alt r1 r2) st st'" "reads Eps st st'" "reads Bol st st'" "reads Eol st st'"
inductive_simps reads_cls: "reads (Cls p) (pre, s, c) (pre', s', c')"
inductive_cases reads_grpE: "reads (Grp n r) (pre, s, c) (pre', s', c')"

text \<open>\<open>r\<close> reads exactly a text in \<open>L\<close> and captures nothing.\<close>

definition spells :: "re \<Rightarrow> string set \<Rightarrow> bool" where
  "spells r L \<longleftrightarrow> (\<forall>pre s c pre' s' c'. reads r (pre, s, c) (pre', s', c') \<longrightarrow> c' = c \<and> (\<exists>w \<in> L. s = w @ s'))"

lemma spellsD: "spells r L \<Longrightarrow> reads r (pre, s, c) (pre', s', c') \<Longrightarrow> c' = c \<and> (\<exists>w \<in> L. s = w @ s')"
  unfolding spells_def by blast

lemma spells_mono: "spells r L \<Longrightarrow> L \<subseteq> M \<Longrightarrow> spells r M"
  unfolding spells_def by blast

lemma spells_Cls: "spells (Cls p) {[ch] |ch. p ch}"
  by (auto simp: spells_def reads_cls)

lemma spells_Eps: "spells Eps {[]}"
  by (simp add: spells_def reads_simps)

lemma spells_Seq: "spells a L \<Longrightarrow> spells b M \<Longrightarrow> spells (Seq a b) {v @ w |v w. v \<in> L \<and> w \<in> M}"
  unfolding spells_def reads_simps by (fastforce simp: split_paired_Ex)

lemma spells_Star: assumes "spells (Cls p) {[ch] |ch. p ch}" shows "spells (Star (Cls p)) {w. list_all p w}"
proof -
  have "c' = c \<and> (\<exists>w. list_all p w \<and> s = w @ s')" if "reads (Star (Cls p)) (pre, s, c) (pre', s', c')" for pre s c pre' s' c'
    using that
  proof (induction "Star (Cls p)" "(pre, s, c)" "(pre', s', c')" arbitrary: pre s c rule: reads.induct)
    case r_star0
    then show ?case by (intro conjI exI [of _ "[]"]) simp_all
  next
    case (r_star st1)
    obtain p1 s1 c1 where st1: "st1 = (p1, s1, c1)" by (cases st1)
    obtain ch where "p ch" "s = ch # s1" "c1 = c" using r_star.hyps(1) st1 by (auto simp: reads_cls)
    moreover obtain w where "c' = c1" "list_all p w" "s1 = w @ s'" using r_star.hyps(3) [OF st1] by blast
    ultimately show ?case by (intro conjI exI [of _ "ch # w"]) simp_all
  qed
  then show ?thesis unfolding spells_def by blast
qed

lemma spells_Lazy: "spells (Lazy (Cls p)) {w. list_all p w}"
proof -
  have "c' = c \<and> (\<exists>w. list_all p w \<and> s = w @ s')" if "reads (Lazy (Cls p)) (pre, s, c) (pre', s', c')" for pre s c pre' s' c'
    using that
  proof (induction "Lazy (Cls p)" "(pre, s, c)" "(pre', s', c')" arbitrary: pre s c rule: reads.induct)
    case r_lazy0
    then show ?case by (intro conjI exI [of _ "[]"]) simp_all
  next
    case (r_lazy st1)
    obtain p1 s1 c1 where st1: "st1 = (p1, s1, c1)" by (cases st1)
    obtain ch where "p ch" "s = ch # s1" "c1 = c" using r_lazy.hyps(1) st1 by (auto simp: reads_cls)
    moreover obtain w where "c' = c1" "list_all p w" "s1 = w @ s'" using r_lazy.hyps(3) [OF st1] by blast
    ultimately show ?case by (intro conjI exI [of _ "ch # w"]) simp_all
  qed
  then show ?thesis unfolding spells_def by blast
qed

lemma spells_star: "spells (Star (Cls p)) {w. list_all p w}"
  by (rule spells_Star [OF spells_Cls])

lemma spells_plus: "spells (plus (Cls p)) {w. w \<noteq> [] \<and> list_all p w}"
  unfolding plus_def by (rule spells_mono [OF spells_Seq [OF spells_Cls spells_star]]) auto

lemma spells_lit: "spells (lit w) {w}"
proof (induction w)
  case (Cons a w)
  show ?case
  proof (cases w)
    case Nil
    then show ?thesis using spells_Cls [of "\<lambda>d. d = a"] by (simp add: lit_def)
  next
    case (Cons b v)
    then have "lit (a # w) = Seq (Cls (\<lambda>d. d = a)) (lit w)" by (simp add: lit_def)
    then show ?thesis using spells_Seq [OF spells_Cls [of "\<lambda>d. d = a"] Cons.IH] by (auto elim: spells_mono)
  qed
qed (simp add: lit_def spells_Eps)

lemma spells_times: "spells (times n (Cls p)) {w. length w = n \<and> list_all p w}"
proof (induction n)
  case 0
  then show ?case by (auto intro: spells_mono [OF spells_Eps])
next
  case (Suc n)
  then show ?case by (auto intro: spells_mono [OF spells_Seq [OF spells_Cls Suc]])
qed

lemma spells_alts: "ws \<noteq> [] \<Longrightarrow> spells (alts (map lit ws)) (set ws)"
proof (induction ws)
  case (Cons w ws)
  show ?case
  proof (cases ws)
    case Nil
    then show ?thesis using spells_lit [of w] by simp
  next
    case (Cons v vs)
    then have "alts (map lit (w # ws)) = Alt (lit w) (alts (map lit ws))" by simp
    then show ?thesis using Cons.IH spells_lit [of w] Cons unfolding spells_def by (auto simp: reads_simps)
  qed
qed simp

lemma reads_Grp:
  assumes "reads (Grp n r) (pre, s, c) (pre', s', c')" "spells r L"
  obtains w where "w \<in> L" "s = w @ s'" "c' = (n, w) # c"
proof -
  from assms(1) obtain c0 where c0: "reads r (pre, s, c) (pre', s', c0)" "c' = (n, take (length s - length s') s) # c0"
    by (auto elim: reads_grpE)
  then show thesis using spellsD [OF assms(2) c0(1)] that by auto
qed

text \<open>\<open>r\<close> reads a text and captures groups, together a pair of \<open>R\<close>.\<close>

definition parses :: "re \<Rightarrow> (string \<times> (nat \<times> string) list) set \<Rightarrow> bool" where
  "parses r R \<longleftrightarrow> (\<forall>pre s c pre' s' c'. reads r (pre, s, c) (pre', s', c') \<longrightarrow> (\<exists>w d. (w, d) \<in> R \<and> s = w @ s' \<and> c' = d @ c))"

lemma parses_mono: "parses r R \<Longrightarrow> R \<subseteq> S \<Longrightarrow> parses r S"
  unfolding parses_def by blast

lemma parses_spells: "spells r L \<Longrightarrow> parses r {(w, []) |w. w \<in> L}"
  unfolding parses_def spells_def by fastforce

lemma parses_Grp: "spells r L \<Longrightarrow> parses (Grp n r) {(w, [(n, w)]) |w. w \<in> L}"
  unfolding parses_def by (auto elim!: reads_Grp)

lemma parses_Seq:
  assumes "parses a R" "parses b S"
  shows "parses (Seq a b) {(v @ w, d @ c) |v c w d. (v, c) \<in> R \<and> (w, d) \<in> S}"
  unfolding parses_def
proof (intro allI impI)
  fix pre s c pre' s' c' assume "reads (Seq a b) (pre, s, c) (pre', s', c')"
  then obtain st where st: "reads a (pre, s, c) st" "reads b st (pre', s', c')" by (auto simp: reads_simps)
  obtain p1 s1 c1 where eq: "st = (p1, s1, c1)" by (cases st)
  from assms(1) st(1) eq obtain v dv where v: "(v, dv) \<in> R" "s = v @ s1" "c1 = dv @ c" unfolding parses_def by blast
  from assms(2) st(2) eq obtain w dw where w: "(w, dw) \<in> S" "s1 = w @ s'" "c' = dw @ c1" unfolding parses_def by blast
  show "\<exists>w d. (w, d) \<in> {(v @ w, d @ c) |v c w d. (v, c) \<in> R \<and> (w, d) \<in> S} \<and> s = w @ s' \<and> c' = d @ c"
    by (rule exI [of _ "v @ w"], rule exI [of _ "dw @ dv"]) (use v w in auto)
qed

lemma parses_Eps: "parses Eps {([], [])}" "parses Bol {([], [])}" "parses Eol {([], [])}"
  by (auto simp: parses_def reads_simps)

lemma parses_Alt: "parses a R \<Longrightarrow> parses b S \<Longrightarrow> parses (Alt a b) (R \<union> S)"
  unfolding parses_def reads_simps by blast

lemma parses_optional: assumes "parses a R" shows "parses (optional a) (insert ([], []) R)"
  unfolding optional_def by (rule parses_mono [OF parses_Alt [OF assms parses_Eps(1)]]) simp

lemma re_match_parses:
  assumes "re_match r s = Some g" "parses r R"
  obtains w s' where "(w, g) \<in> R" "s = w @ s'"
proof -
  from assms(1) obtain p' s' where run: "run r ([], s, []) Some = Some (p', s', g)" unfolding re_match_def by auto
  from run_sound [OF this] obtain st where "reads r ([], s, []) st" "Some st = Some (p', s', g)" by blast
  then have "reads r ([], s, []) (p', s', g)" by simp
  then show thesis using assms(2) that unfolding parses_def by fastforce
qed

definition word_of :: "string \<Rightarrow> bool" where
  "word_of w \<longleftrightarrow> w \<noteq> [] \<and> list_all (\<lambda>c. \<not> is_space c) w"

definition gap_of :: "string \<Rightarrow> bool" where
  "gap_of w \<longleftrightarrow> w \<noteq> [] \<and> list_all is_space w"

lemma spells_word: "spells (plus nsp) {w. word_of w}"
  unfolding nsp_def word_of_def by (rule spells_plus)

lemma spells_gap: "spells (plus spc) {w. gap_of w}"
  unfolding spc_def gap_of_def by (rule spells_plus)

lemma spells_gap2: "spells (two_or_more spc) {w. gap_of w}"
  unfolding two_or_more_def spc_def
  by (rule spells_mono [OF spells_Seq [OF spells_Cls spells_plus]]) (auto simp: gap_of_def)

text \<open>The shape of a line of the table, with the values of a row in it.\<close>

definition row_shape :: "string \<Rightarrow> status_row \<Rightarrow> bool" where
  "row_shape line row \<longleftrightarrow>
     (\<exists>g1 name g2 g3 g4 g5 g6 rest.
        line = sr_port row @ g1 @ name @ g2 @ sr_status row @ g3 @ sr_vlan row @ g4 @ sr_duplex row @ g5 @ sr_speed row
          @ g6 @ sr_media row @ rest
        \<and> list_all gap_of [g1, g2, g3, g4, g5, g6] \<and> sr_status row \<in> set port_states
        \<and> list_all word_of [sr_port row, sr_vlan row, sr_duplex row, sr_speed row, sr_media row]
        \<and> (sr_name row = None \<or> sr_name row = Some (strip name)))"

lemma interface_status_re_parses:
  "parses interface_status_re
     {(p @ g1 @ nm @ g2 @ st @ g3 @ v @ g4 @ d @ g5 @ sp @ g6 @ m @ t, (7, m) # (6, sp) # (5, d) # (4, v) # (3, st) # nc @ [(1, p)])
       |p g1 nm g2 st g3 v g4 d g5 sp g6 m t nc.
         list_all gap_of [g1, g2, g3, g4, g5, g6] \<and> st \<in> set port_states \<and> list_all word_of [p, v, d, sp, m]
         \<and> (nc = [(2, nm)] \<or> (nc = [] \<and> nm = []))}"
proof -
  let ?B = "{([], [])} :: (string \<times> (nat \<times> string) list) set"
  have w: "parses (Grp n (plus nsp)) {(w, [(n, w)]) |w. word_of w}" for n using parses_Grp [OF spells_word] by simp
  have g: "parses (plus spc) {(w, []) |w. gap_of w}" using parses_spells [OF spells_gap] by simp
  have g2: "parses (two_or_more spc) {(w, []) |w. gap_of w}" using parses_spells [OF spells_gap2] by simp
  have st: "parses (Grp 3 (alts (map lit port_states))) {(w, [(3, w)]) |w. w \<in> set port_states}"
    by (rule parses_Grp [OF spells_alts]) (simp add: port_states_def)
  have nm: "parses (optional (Grp 2 (Seq nsp (Lazy dot)))) {(w, nc) |w nc. nc = [(2, w)] \<or> (nc = [] \<and> w = [])}"
    unfolding nsp_def dot_def
    by (rule parses_mono [OF parses_optional [OF parses_Grp [OF spells_Seq [OF spells_Cls spells_Lazy]]]]) auto
  have e: "parses (Star spc) {(w, []) |w. True}" unfolding spc_def
    by (rule parses_mono [OF parses_spells [OF spells_star]]) auto
  have "parses (Seq (Star spc) Eol) {(t, []) |t. True}"
    by (rule parses_mono [OF parses_Seq [OF e parses_Eps(3)]]) auto
  then have "parses (Seq (Grp 7 (plus nsp)) (Seq (Star spc) Eol)) {(m @ t, [(7, m)]) |m t. word_of m}"
    by (rule parses_mono [OF parses_Seq [OF w]]) auto
  then have "parses (Seq (plus spc) (Seq (Grp 7 (plus nsp)) (Seq (Star spc) Eol))) {(g6 @ m @ t, [(7, m)]) |g6 m t. gap_of g6 \<and> word_of m}"
    by (rule parses_mono [OF parses_Seq [OF g]]) fastforce
  then have "parses (Seq (Grp 6 (plus nsp)) (Seq (plus spc) (Seq (Grp 7 (plus nsp)) (Seq (Star spc) Eol))))
      {(sp @ g6 @ m @ t, [(7, m), (6, sp)]) |sp g6 m t. gap_of g6 \<and> word_of m \<and> word_of sp}"
    by (rule parses_mono [OF parses_Seq [OF w]]) fastforce
  then have "parses (Seq (plus spc) (Seq (Grp 6 (plus nsp)) (Seq (plus spc) (Seq (Grp 7 (plus nsp)) (Seq (Star spc) Eol)))))
      {(g5 @ sp @ g6 @ m @ t, [(7, m), (6, sp)]) |g5 sp g6 m t. gap_of g5 \<and> gap_of g6 \<and> word_of m \<and> word_of sp}"
    by (rule parses_mono [OF parses_Seq [OF g]]) fastforce
  then have "parses (Seq (Grp 5 (plus nsp)) (Seq (plus spc) (Seq (Grp 6 (plus nsp)) (Seq (plus spc) (Seq (Grp 7 (plus nsp)) (Seq (Star spc) Eol))))))
      {(d @ g5 @ sp @ g6 @ m @ t, [(7, m), (6, sp), (5, d)]) |d g5 sp g6 m t. gap_of g5 \<and> gap_of g6 \<and> word_of m \<and> word_of sp \<and> word_of d}"
    by (rule parses_mono [OF parses_Seq [OF w]]) fastforce
  then have "parses (Seq (plus spc) (Seq (Grp 5 (plus nsp)) (Seq (plus spc) (Seq (Grp 6 (plus nsp)) (Seq (plus spc) (Seq (Grp 7 (plus nsp)) (Seq (Star spc) Eol)))))))
      {(g4 @ d @ g5 @ sp @ g6 @ m @ t, [(7, m), (6, sp), (5, d)]) |g4 d g5 sp g6 m t.
         list_all gap_of [g4, g5, g6] \<and> list_all word_of [d, sp, m]}"
    (is "parses ?r5 _")
    by (rule parses_mono [OF parses_Seq [OF g]]) fastforce
  then have "parses (Seq (Grp 4 (plus nsp)) ?r5)
      {(v @ g4 @ d @ g5 @ sp @ g6 @ m @ t, [(7, m), (6, sp), (5, d), (4, v)]) |v g4 d g5 sp g6 m t.
         list_all gap_of [g4, g5, g6] \<and> list_all word_of [v, d, sp, m]}"
    (is "parses ?r4 _")
    by (rule parses_mono [OF parses_Seq [OF w]]) fastforce
  then have "parses (Seq (plus spc) ?r4)
      {(g3 @ v @ g4 @ d @ g5 @ sp @ g6 @ m @ t, [(7, m), (6, sp), (5, d), (4, v)]) |g3 v g4 d g5 sp g6 m t.
         list_all gap_of [g3, g4, g5, g6] \<and> list_all word_of [v, d, sp, m]}"
    (is "parses ?s4 _")
    by (rule parses_mono [OF parses_Seq [OF g]]) fastforce
  then have "parses (Seq (Grp 3 (alts (map lit port_states))) ?s4)
      {(st @ g3 @ v @ g4 @ d @ g5 @ sp @ g6 @ m @ t, [(7, m), (6, sp), (5, d), (4, v), (3, st)]) |st g3 v g4 d g5 sp g6 m t.
         list_all gap_of [g3, g4, g5, g6] \<and> list_all word_of [v, d, sp, m] \<and> st \<in> set port_states}"
    (is "parses ?r3 _")
    by (rule parses_mono [OF parses_Seq [OF st]]) fastforce
  then have "parses (Seq (two_or_more spc) ?r3)
      {(g2 @ st @ g3 @ v @ g4 @ d @ g5 @ sp @ g6 @ m @ t, [(7, m), (6, sp), (5, d), (4, v), (3, st)]) |g2 st g3 v g4 d g5 sp g6 m t.
         list_all gap_of [g2, g3, g4, g5, g6] \<and> list_all word_of [v, d, sp, m] \<and> st \<in> set port_states}"
    (is "parses ?s3 _")
    by (rule parses_mono [OF parses_Seq [OF g2]]) fastforce
  then have "parses (Seq (optional (Grp 2 (Seq nsp (Lazy dot)))) ?s3)
      {(nm @ g2 @ st @ g3 @ v @ g4 @ d @ g5 @ sp @ g6 @ m @ t, (7, m) # (6, sp) # (5, d) # (4, v) # (3, st) # nc) |nm nc g2 st g3 v g4 d g5 sp g6 m t.
         list_all gap_of [g2, g3, g4, g5, g6] \<and> list_all word_of [v, d, sp, m] \<and> st \<in> set port_states
         \<and> (nc = [(2, nm)] \<or> (nc = [] \<and> nm = []))}"
    (is "parses ?r2 _")
    by (rule parses_mono [OF parses_Seq [OF nm]]) fastforce
  then have "parses (Seq (two_or_more spc) ?r2)
      {(g1 @ nm @ g2 @ st @ g3 @ v @ g4 @ d @ g5 @ sp @ g6 @ m @ t, (7, m) # (6, sp) # (5, d) # (4, v) # (3, st) # nc) |g1 nm nc g2 st g3 v g4 d g5 sp g6 m t.
         list_all gap_of [g1, g2, g3, g4, g5, g6] \<and> list_all word_of [v, d, sp, m] \<and> st \<in> set port_states
         \<and> (nc = [(2, nm)] \<or> (nc = [] \<and> nm = []))}"
    (is "parses ?s2 _")
    by (rule parses_mono [OF parses_Seq [OF g2]]) fastforce
  then have "parses (Seq (Grp 1 (plus nsp)) ?s2)
      {(p @ g1 @ nm @ g2 @ st @ g3 @ v @ g4 @ d @ g5 @ sp @ g6 @ m @ t, (7, m) # (6, sp) # (5, d) # (4, v) # (3, st) # nc @ [(1, p)])
       |p g1 nm g2 st g3 v g4 d g5 sp g6 m t nc.
         list_all gap_of [g1, g2, g3, g4, g5, g6] \<and> st \<in> set port_states \<and> list_all word_of [p, v, d, sp, m]
         \<and> (nc = [(2, nm)] \<or> (nc = [] \<and> nm = []))}"
    (is "parses ?r1 ?R")
    by (rule parses_mono [OF parses_Seq [OF w]]) fastforce
  then have "parses (Seq Bol ?r1) ?R"
    by (rule parses_mono [OF parses_Seq [OF parses_Eps(2)]]) fastforce
  then show ?thesis unfolding interface_status_re_def by simp
qed

lemma status_row_shape:
  assumes "status_row_of raw = Some row"
  shows "row_shape (rstrip raw) row"
proof -
  obtain g where g: "re_match interface_status_re (rstrip raw) = Some g" and
      row: "row = (let name = strip (group_text g 2) in
             \<lparr>sr_port = group_text g 1, sr_name = (if name \<noteq> [] \<and> name \<noteq> ''--'' then Some name else None),
              sr_status = group_text g 3, sr_vlan = group_text g 4, sr_duplex = group_text g 5, sr_speed = group_text g 6,
              sr_media = group_text g 7\<rparr>)"
    using assms by (auto simp: status_row_of_def Let_def split: if_splits)
  from re_match_parses [OF g interface_status_re_parses] obtain w s' where
    w: "(w, g) \<in> {(p @ g1 @ nm @ g2 @ st @ g3 @ v @ g4 @ d @ g5 @ sp @ g6 @ m @ t, (7, m) # (6, sp) # (5, d) # (4, v) # (3, st) # nc @ [(1, p)])
       |p g1 nm g2 st g3 v g4 d g5 sp g6 m t nc.
         list_all gap_of [g1, g2, g3, g4, g5, g6] \<and> st \<in> set port_states \<and> list_all word_of [p, v, d, sp, m]
         \<and> (nc = [(2, nm)] \<or> (nc = [] \<and> nm = []))}" and s: "rstrip raw = w @ s'" by blast
  then obtain p g1 nm g2 st g3 v g4 d g5 sp g6 m t nc where
    weq: "w = p @ g1 @ nm @ g2 @ st @ g3 @ v @ g4 @ d @ g5 @ sp @ g6 @ m @ t" and
    geq: "g = (7, m) # (6, sp) # (5, d) # (4, v) # (3, st) # nc @ [(1, p)]" and
    gaps: "list_all gap_of [g1, g2, g3, g4, g5, g6]" and stin: "st \<in> set port_states" and
    words: "list_all word_of [p, v, d, sp, m]" and nc: "nc = [(2, nm)] \<or> (nc = [] \<and> nm = [])" by blast
  have "sr_port row = p" "sr_status row = st" "sr_vlan row = v" "sr_duplex row = d" "sr_speed row = sp" "sr_media row = m"
    using nc by (auto simp: row geq group_text_def Let_def)
  moreover have "sr_name row = None \<or> sr_name row = Some (strip nm)"
    using nc by (auto simp: row geq group_text_def Let_def)
  moreover have "rstrip raw = p @ g1 @ nm @ g2 @ st @ g3 @ v @ g4 @ d @ g5 @ sp @ g6 @ m @ (t @ s')"
    using s weq by simp
  ultimately show ?thesis using gaps stin words unfolding row_shape_def by blast
qed

text \<open>Every row the interface table yields is on one line of the output, as the port, an optional name, one of the
  six statuses, VLAN, duplex, speed and media type, separated by white space: no value is made up or glued together.\<close>

theorem interface_rows_are_read_off_lines:
  "list_all (\<lambda>row. \<exists>raw \<in> set (splitlines out). row_shape (rstrip raw) row) (parse_interface_status_table out)"
proof -
  have "row \<in> set (List.map_filter status_row_of ls) \<Longrightarrow> \<exists>raw \<in> set ls. status_row_of raw = Some row" for row ls
    by (auto simp: List.map_filter_def)
  then show ?thesis unfolding list_all_iff parse_interface_status_table_def by (blast dest: status_row_shape)
qed

text \<open>A port whose name fills its column (one space before the status) has no row, whatever its state; the same port
  with a name one character shorter has one.\<close>

theorem full_name_hides_the_port:
  "status_row_of ''Gi1/0/3   Uplink-to-core-sw1 connected 1 full 100 T'' = None
   \<and> map_option sr_port (status_row_of ''Gi1/0/3   Uplink-to-core-sw  connected 1 full 100 T'')
     = Some ''Gi1/0/3''"
  by code_simp

subsection \<open>The ARP table speaks normal MAC addresses\<close>

lemma reads_dotted_mac:
  "spells (seqs [four_hex, lit ''.'', four_hex, lit ''.'', four_hex])
     {a @ ''.'' @ b @ ''.'' @ c |a b c. list_all hex_char (a @ b @ c) \<and> length a = 4 \<and> length b = 4 \<and> length c = 4}"
proof -
  have h: "spells four_hex {w. length w = 4 \<and> list_all hex_char w}" unfolding four_hex_def by (rule spells_times)
  have d: "spells (lit ''.'') {''.''}" by (rule spells_lit)
  have "spells (Seq four_hex (Seq (lit ''.'') (Seq four_hex (Seq (lit ''.'') four_hex))))
     {a @ ''.'' @ b @ ''.'' @ c |a b c. list_all hex_char (a @ b @ c) \<and> length a = 4 \<and> length b = 4 \<and> length c = 4}"
    by (rule spells_mono [OF spells_Seq [OF h spells_Seq [OF d spells_Seq [OF h spells_Seq [OF d h]]]]]) auto
  then show ?thesis by simp
qed

lemma re_search_parses:
  assumes "re_search r s = Some g" "parses r R"
  obtains w where "(w, g) \<in> R"
proof -
  have "\<exists>w. (w, g) \<in> R" if "search_from r pre rest = Some g" for pre rest
    using that
  proof (induction rest arbitrary: pre)
    case Nil
    then obtain p' s' where run: "run r (pre, [], []) Some = Some (p', s', g)"
      by (auto simp: search_from.simps [of r pre] split: option.splits)
    from run_sound [OF run] have "reads r (pre, [], []) (p', s', g)" by auto
    with assms(2) show ?case unfolding parses_def by fastforce
  next
    case (Cons c cs)
    show ?case
    proof (cases "run r (pre, c # cs, []) Some")
      case None
      with Cons show ?thesis by (simp add: search_from.simps [of r pre])
    next
      case (Some st)
      obtain p' s' g' where st: "st = (p', s', g')" by (cases st)
      with Cons.prems Some have "g' = g" by (simp add: search_from.simps [of r pre])
      from run_sound [OF Some] st this have "reads r (pre, c # cs, []) (p', s', g)" by auto
      with assms(2) show ?thesis unfolding parses_def by fastforce
    qed
  qed
  with assms(1) that show thesis unfolding re_search_def by blast
qed

definition dotted_mac_text :: "string \<Rightarrow> bool" where
  "dotted_mac_text w \<longleftrightarrow> (\<exists>a b c. w = a @ ''.'' @ b @ ''.'' @ c \<and> list_all hex_char (a @ b @ c) \<and> length a = 4 \<and> length b = 4 \<and> length c = 4)"

lemma parses_dotted_mac: "parses (dotted_mac n) {(w, [(n, w)]) |w. dotted_mac_text w}"
  unfolding dotted_mac_def by (rule parses_mono [OF parses_Grp [OF reads_dotted_mac]]) (auto simp: dotted_mac_text_def)

lemma parses_digits_dotted: "parses (digits_dotted n) {(w, [(n, w)]) |w. True}"
proof -
  have d: "spells (plus dig) UNIV" unfolding dig_def by (rule spells_mono [OF spells_plus]) simp
  have p: "spells (lit ''.'') UNIV" by (rule spells_mono [OF spells_lit]) simp
  have "spells (Seq (plus dig) (Seq (lit ''.'') (Seq (plus dig) (Seq (lit ''.'') (Seq (plus dig) (Seq (lit ''.'') (plus dig))))))) UNIV"
    by (rule spells_mono [OF spells_Seq [OF d spells_Seq [OF p spells_Seq [OF d spells_Seq [OF p spells_Seq [OF d spells_Seq [OF p d]]]]]]]) simp
  then show ?thesis unfolding digits_dotted_def by (auto intro: parses_mono [OF parses_Grp])
qed

lemma parses_arp: "parses arp_line_re {(w, [(2, m), (1, ip)]) |w m ip. dotted_mac_text m}"
proof -
  have g: "parses (plus spc) {(w, []) |w. gap_of w}" using parses_spells [OF spells_gap] by simp
  have n: "parses (plus nsp) {(w, []) |w. word_of w}" using parses_spells [OF spells_word] by simp
  have "parses (Seq (plus spc) (dotted_mac 2)) {(w, [(2, m)]) |w m. dotted_mac_text m}"
    by (rule parses_mono [OF parses_Seq [OF g parses_dotted_mac]]) auto
  then have "parses (Seq (plus nsp) (Seq (plus spc) (dotted_mac 2))) {(w, [(2, m)]) |w m. dotted_mac_text m}"
    by (rule parses_mono [OF parses_Seq [OF n]]) auto
  then have "parses (Seq (plus spc) (Seq (plus nsp) (Seq (plus spc) (dotted_mac 2)))) {(w, [(2, m)]) |w m. dotted_mac_text m}"
    by (rule parses_mono [OF parses_Seq [OF g]]) auto
  then have "parses (Seq (digits_dotted 1) (Seq (plus spc) (Seq (plus nsp) (Seq (plus spc) (dotted_mac 2)))))
      {(w, [(2, m), (1, ip)]) |w m ip. dotted_mac_text m}"
    by (rule parses_mono [OF parses_Seq [OF parses_digits_dotted]]) auto
  then show ?thesis unfolding arp_line_re_def by simp
qed

lemma pairs_with_colons_join: "even (length s) \<Longrightarrow> pairs_with_colons s = join '':'' (pairs s)"
proof (induction s rule: pairs_with_colons.induct)
  case (1 a b c cs)
  then show ?case by (cases "pairs (c # cs)"; cases cs) auto
qed auto

lemma hex_char_is_hex: "hex_char c \<Longrightarrow> is_hex c \<and> lower_char c \<noteq> CHR ''.''"
proof -
  have "list_all (\<lambda>c. is_hex c \<and> lower_char c \<noteq> CHR ''.'') ''0123456789abcdefABCDEF''" by code_simp
  then show "hex_char c \<Longrightarrow> is_hex c \<and> lower_char c \<noteq> CHR ''.''" unfolding hex_char_def list_all_iff by blast
qed

lemma format_dotted:
  assumes "dotted_mac_text w"
  shows "Some (format_mac (lower w)) = normalize_mac (Some w)"
proof -
  from assms obtain a b c where w: "w = a @ ''.'' @ b @ ''.'' @ c" and h: "list_all hex_char (a @ b @ c)"
    and l: "length a = 4" "length b = 4" "length c = 4" unfolding dotted_mac_text_def by blast
  have k: "filter is_hex v = v" "filter (\<lambda>c. c \<noteq> CHR ''.'') (lower v) = lower v" if "list_all hex_char v" for v
    using that by (induction v) (auto simp: lower_def dest: hex_char_is_hex)
  have dot: "lower ''.'' = ''.''" "\<not> is_hex (CHR ''.'')" by code_simp+
  have "filter is_hex w = a @ b @ c" using h k(1) [of a] k(1) [of b] k(1) [of c] by (simp add: w dot(2))
  moreover have "filter (\<lambda>c. c \<noteq> CHR ''.'') (lower w) = lower (a @ b @ c)"
    using h k(2) [of a] k(2) [of b] k(2) [of c] dot(1) by (simp add: w lower_def)
  moreover have "lower (lower v) = lower v" "length (lower v) = length v" for v by (simp_all add: lower_def)
  ultimately show ?thesis using l
    by (simp add: format_mac_def normalize_mac_def Let_def pairs_with_colons_join)
qed

lemma normalized_dotted: "dotted_mac_text w \<Longrightarrow> normalize_mac (Some (format_mac (lower w))) = Some (format_mac (lower w))"
  by (metis format_dotted normalize_mac_idem)

lemma list_all_update_alist: "list_all P d \<Longrightarrow> P (k, v) \<Longrightarrow> list_all P (AList.update k v d)"
  by (induction d) auto

text \<open>C40: Every MAC address in the ARP map of a switch is in the form the rest of the program compares by, so a lookup with
  a normalised address finds it however the switch printed it.\<close>

theorem arp_map_speaks_normal_macs:
  "list_all (\<lambda>(m, ip). normalize_mac (Some m) = Some m) (parse_arp_mac_to_ip out)"
proof -
  have "list_all (\<lambda>(m, ip). normalize_mac (Some m) = Some m)
      (fold (\<lambda>line d. case re_search arp_line_re line of
             None \<Rightarrow> d
           | Some g \<Rightarrow> AList.update (format_mac (lower (group_text g 2))) (group_text g 1) d) ls d)"
    if "list_all (\<lambda>(m, ip). normalize_mac (Some m) = Some m) d" for ls d
    using that
  proof (induction ls arbitrary: d)
    case (Cons line ls)
    have "list_all (\<lambda>(m, ip). normalize_mac (Some m) = Some m)
       (case re_search arp_line_re line of None \<Rightarrow> d
         | Some g \<Rightarrow> AList.update (format_mac (lower (group_text g 2))) (group_text g 1) d)"
    proof (cases "re_search arp_line_re line")
      case (Some g)
      from re_search_parses [OF Some parses_arp] obtain m ip where "g = [(2, m), (1, ip)]" "dotted_mac_text m" by blast
      then have "normalize_mac (Some (format_mac (lower (group_text g 2)))) = Some (format_mac (lower (group_text g 2)))"
        by (simp add: group_text_def normalized_dotted)
      then show ?thesis using Cons.prems Some by (auto simp: list_all_update_alist)
    qed (use Cons.prems in simp)
    then show ?case using Cons.IH by simp
  qed simp
  then show ?thesis unfolding parse_arp_mac_to_ip_def by simp
qed

end
