(* ===== verification/Cisco_Session.thy ===== *)
theory Cisco_Session
  imports Regex
begin

section \<open>One interactive SSH session to a switch (app/services/cisco_ssh/session.py)\<close>

text \<open>
  paramiko and the socket are the model's world \<open>'w\<close>: \<open>auth\<close> makes one connection with one authentication
  method and yields an open shell or the exception, \<open>probe\<close> is the extra connection that asks for the allowed
  methods. A shell answers every line with what arrives in the half-second ticks up to the command's deadline
  (\<^const>\<open>None\<close>: nothing ready in this tick), given the lines sent before. Metrics and log lines are left out.
\<close>

datatype ssh_exception = Auth_exception | Gai_error | Timeout_error | Refused_error | Os_error | Ssh_protocol_error | Other_exception

fun classify_ssh_error :: "ssh_exception \<Rightarrow> string" where
  "classify_ssh_error Auth_exception = ''auth_rejected''"
| "classify_ssh_error Gai_error = ''dns_failure''"
| "classify_ssh_error Timeout_error = ''timeout''"
| "classify_ssh_error Refused_error = ''connection_refused''"
| "classify_ssh_error Os_error = ''network_unreachable''"
| "classify_ssh_error Ssh_protocol_error = ''protocol_error''"
| "classify_ssh_error Other_exception = ''other''"

datatype auth_method = Password | Keyboard_interactive

type_synonym auth_key = "string \<times> int \<times> string"
type_synonym shell = "string list \<Rightarrow> string option \<Rightarrow> ssh_exception + string option list"
type_synonym 'w auth = "'w \<Rightarrow> auth_method \<Rightarrow> 'w \<times> (ssh_exception + shell)"

datatype probe_outcome = Bad_type "string list" | Auth_refused | No_auth_needed | Probe_raised

type_synonym 'w probe = "'w \<Rightarrow> 'w \<times> probe_outcome"

record ssh_session =
  ss_key :: auth_key
  ss_enable :: string
  ss_reason :: "string option"
  ss_shell :: "(shell \<times> string list) option"

definition new_session :: "auth_key \<Rightarrow> string \<Rightarrow> string \<Rightarrow> ssh_session" where
  "new_session key password enable =
     \<lparr>ss_key = key, ss_enable = (if enable \<noteq> [] then enable else password), ss_reason = None, ss_shell = None\<rparr>"

definition close_session :: "ssh_session \<Rightarrow> ssh_session" where
  "close_session s = s\<lparr>ss_shell := None\<rparr>"

subsection \<open>Sending a line and reading up to the prompt\<close>

definition prompt_re :: re where
  "prompt_re = seqs [one_of ''#>'', Star spc, Eol]"

definition at_prompt :: "string \<Rightarrow> bool" where
  "at_prompt out \<longleftrightarrow> re_search prompt_re out \<noteq> None"

fun recv_until_prompt :: "string \<Rightarrow> string option list \<Rightarrow> string" where
  "recv_until_prompt out [] = out"
| "recv_until_prompt out (Some chunk # ticks) =
     (if at_prompt (out @ chunk) then out @ chunk else recv_until_prompt (out @ chunk) ticks)"
| "recv_until_prompt out (None # ticks) = (if out \<noteq> [] \<and> at_prompt out then out else recv_until_prompt out ticks)"

definition hear :: "shell \<Rightarrow> string list \<Rightarrow> string option \<Rightarrow> ssh_exception + string" where
  "hear sh sent line = (case sh sent line of Inl e \<Rightarrow> Inl e | Inr ticks \<Rightarrow> Inr (recv_until_prompt [] ticks))"

text \<open>\<open>execute\<close> on an open session, as the client sees it: the answer to a command after the lines already sent.\<close>

definition execute_on :: "shell \<Rightarrow> string list \<Rightarrow> string \<Rightarrow> string option" where
  "execute_on sh sent cmd = (case hear sh sent (Some cmd) of Inl _ \<Rightarrow> None | Inr out \<Rightarrow> Some out)"

subsection \<open>Opening a session\<close>

fun dialogue :: "shell \<Rightarrow> string list \<Rightarrow> string option list \<Rightarrow> ssh_exception + string list" where
  "dialogue sh sent [] = Inr sent"
| "dialogue sh sent (line # ls) =
     (case hear sh sent line of
        Inl e \<Rightarrow> Inl e
      | Inr _ \<Rightarrow> dialogue sh (case line of None \<Rightarrow> sent | Some l \<Rightarrow> sent @ [l]) ls)"

definition enter_enable :: "shell \<Rightarrow> string \<Rightarrow> string list \<Rightarrow> ssh_exception + string list" where
  "enter_enable sh enable sent =
     (case hear sh sent (Some ''enable'') of
        Inl e \<Rightarrow> Inl e
      | Inr out \<Rightarrow>
          if contains ''assword'' out then dialogue sh (sent @ [''enable'']) [Some enable] else Inr (sent @ [''enable'']))"

definition post_connect :: "shell \<Rightarrow> string \<Rightarrow> ssh_exception + string list" where
  "post_connect sh enable =
     (case dialogue sh [] [None] of
        Inl e \<Rightarrow> Inl e
      | Inr sent \<Rightarrow>
          (case enter_enable sh enable sent of
             Inl e \<Rightarrow> Inl e
           | Inr sent' \<Rightarrow> dialogue sh sent' [Some ''terminal length 0'']))"

definition connect_method :: "'w auth \<Rightarrow> 'w \<Rightarrow> ssh_session \<Rightarrow> auth_method \<Rightarrow> 'w \<times> ssh_session \<times> bool" where
  "connect_method auth w s m =
     (let (w', opened) = auth w m;
          ready = (case opened of Inl e \<Rightarrow> Inl e
                   | Inr sh \<Rightarrow> (case post_connect sh (ss_enable s) of Inl e \<Rightarrow> Inl e | Inr sent \<Rightarrow> Inr (sh, sent))) in
      case ready of
        Inl e \<Rightarrow> (w', close_session (s\<lparr>ss_reason := Some (classify_ssh_error e)\<rparr>), False)
      | Inr shell \<Rightarrow> (w', s\<lparr>ss_shell := Some shell\<rparr>, True))"

definition query_auth_methods :: "'w probe \<Rightarrow> 'w \<Rightarrow> 'w \<times> string list" where
  "query_auth_methods probe w =
     (let (w', r) = probe w in
      (w', case r of Bad_type allowed \<Rightarrow> allowed | _ \<Rightarrow> [''password'', ''keyboard-interactive'']))"

definition strategies_for :: "string list \<Rightarrow> auth_method list" where
  "strategies_for allowed =
     (let ms = (if ''password'' \<in> set allowed then [Password] else [])
               @ (if ''keyboard-interactive'' \<in> set allowed then [Keyboard_interactive] else []) in
      if ms = [] then [Password, Keyboard_interactive] else ms)"

text \<open>The result carries the method that worked.\<close>

fun try_strategies :: "'w auth \<Rightarrow> 'w \<Rightarrow> ssh_session \<Rightarrow> auth_method list \<Rightarrow> 'w \<times> ssh_session \<times> auth_method option" where
  "try_strategies auth w s [] = (w, s, None)"
| "try_strategies auth w s (m # ms) =
     (case connect_method auth w s m of
        (w', s', True) \<Rightarrow> (w', s', Some m)
      | (w', s', False) \<Rightarrow> try_strategies auth w' s' ms)"

type_synonym method_cache = "auth_key \<rightharpoonup> auth_method"

definition probe_and_connect :: "'w auth \<Rightarrow> 'w probe \<Rightarrow> 'w \<Rightarrow> method_cache \<Rightarrow> ssh_session \<Rightarrow> 'w \<times> method_cache \<times> ssh_session \<times> bool" where
  "probe_and_connect auth probe w cache s =
     (let (w1, allowed) = query_auth_methods probe w; (w2, s2, worked) = try_strategies auth w1 s (strategies_for allowed) in
      case worked of
        None \<Rightarrow> (w2, cache, s2, False)
      | Some m \<Rightarrow> (w2, cache(ss_key s \<mapsto> m), s2, True))"

definition connect :: "'w auth \<Rightarrow> 'w probe \<Rightarrow> 'w \<Rightarrow> method_cache \<Rightarrow> ssh_session \<Rightarrow> 'w \<times> method_cache \<times> ssh_session \<times> bool" where
  "connect auth probe w cache s =
     (case cache (ss_key s) of
        None \<Rightarrow> probe_and_connect auth probe w cache s
      | Some m \<Rightarrow>
          (case connect_method auth w s m of
             (w', s', True) \<Rightarrow> (w', cache, s', True)
           | (w', s', False) \<Rightarrow> probe_and_connect auth probe w' (cache(ss_key s := None)) s'))"

definition is_alive :: "('w \<Rightarrow> bool) \<Rightarrow> 'w \<Rightarrow> ssh_session \<Rightarrow> bool" where
  "is_alive active w s \<longleftrightarrow> ss_shell s \<noteq> None \<and> active w"

definition ensure_connected ::
    "'w auth \<Rightarrow> 'w probe \<Rightarrow> ('w \<Rightarrow> bool) \<Rightarrow> 'w \<Rightarrow> method_cache \<Rightarrow> ssh_session \<Rightarrow> 'w \<times> method_cache \<times> ssh_session \<times> bool" where
  "ensure_connected auth probe active w cache s =
     (if is_alive active w s then (w, cache, s, True) else connect auth probe w cache (close_session s))"

text \<open>The session an operation runs on, and whether the operation has to close it.\<close>

definition session_for ::
    "'w auth \<Rightarrow> 'w probe \<Rightarrow> ('w \<Rightarrow> bool) \<Rightarrow> 'w \<Rightarrow> method_cache \<Rightarrow> auth_key \<Rightarrow> string \<Rightarrow> string \<Rightarrow> ssh_session option
     \<Rightarrow> 'w \<times> method_cache \<times> ssh_session option \<times> bool" where
  "session_for auth probe active w cache key password enable given =
     (case given of
        Some s \<Rightarrow> (let (w', cache', s', ok) = ensure_connected auth probe active w cache s in (w', cache', if ok then Some s' else None, False))
      | None \<Rightarrow> (let (w', cache', s', ok) = connect auth probe w cache (new_session key password enable) in
                 (w', cache', if ok then Some s' else None, True)))"


subsection \<open>What opening a session guarantees\<close>

definition failure_reasons :: "string list" where
  "failure_reasons = [''auth_rejected'', ''dns_failure'', ''timeout'', ''connection_refused'', ''network_unreachable'', ''protocol_error'', ''other'']"

lemma classify_in_reasons: "classify_ssh_error e \<in> set failure_reasons"
  by (cases e) (simp_all add: failure_reasons_def)

lemma connect_method_facts:
  assumes "connect_method auth w s m = (w', s', ok)"
  shows "ss_key s' = ss_key s" and "ss_enable s' = ss_enable s"
    and "ok \<longleftrightarrow> ss_shell s' \<noteq> None" and "\<not> ok \<Longrightarrow> \<exists>r \<in> set failure_reasons. ss_reason s' = Some r"
  using assms by (auto simp: connect_method_def close_session_def classify_in_reasons split: prod.splits sum.splits)

lemma strategies_ne: "strategies_for allowed \<noteq> []"
  by (simp add: strategies_for_def Let_def)

lemma try_strategies_facts:
  assumes "try_strategies auth w s ms = (w', s', worked)"
  shows "ss_key s' = ss_key s \<and> (worked = None \<or> (\<exists>m \<in> set ms. worked = Some m \<and> ss_shell s' \<noteq> None))
         \<and> (worked = None \<longrightarrow> ms \<noteq> [] \<longrightarrow> ss_shell s' = None \<and> (\<exists>r \<in> set failure_reasons. ss_reason s' = Some r))"
  using assms
proof (induction ms arbitrary: w s)
  case (Cons m ms)
  obtain w1 s1 ok where one: "connect_method auth w s m = (w1, s1, ok)" by (cases "connect_method auth w s m") auto
  note f = connect_method_facts [OF one]
  show ?case
  proof (cases ok)
    case True
    with Cons.prems one f show ?thesis by auto
  next
    case False
    with Cons.prems one have rest: "try_strategies auth w1 s1 ms = (w', s', worked)" by simp
    show ?thesis
    proof (cases "ms = []")
      case True
      have "ss_shell s1 = None" using f(3) \<open>\<not> ok\<close> by blast
      with True rest f(1) f(4) [OF \<open>\<not> ok\<close>] show ?thesis by auto
    next
      case False
      with Cons.IH [OF rest] f(1) show ?thesis by auto
    qed
  qed
qed simp

lemma probe_and_connect_facts:
  assumes "probe_and_connect auth probe w cache s = (w', cache', s', ok)"
  shows "ss_key s' = ss_key s" and "ok \<longleftrightarrow> ss_shell s' \<noteq> None"
    and "if ok then \<exists>m. cache' = cache(ss_key s \<mapsto> m) else cache' = cache \<and> (\<exists>r \<in> set failure_reasons. ss_reason s' = Some r)"
proof -
  obtain w1 allowed where q: "query_auth_methods probe w = (w1, allowed)" by (cases "query_auth_methods probe w")
  obtain w2 s2 worked where t: "try_strategies auth w1 s (strategies_for allowed) = (w2, s2, worked)"
    by (cases "try_strategies auth w1 s (strategies_for allowed)") auto
  have f: "ss_key s2 = ss_key s" "worked = None \<or> (\<exists>m. worked = Some m \<and> ss_shell s2 \<noteq> None)"
     "worked = None \<Longrightarrow> ss_shell s2 = None \<and> (\<exists>r \<in> set failure_reasons. ss_reason s2 = Some r)"
    using try_strategies_facts [OF t] strategies_ne [of allowed] by auto
  show "ss_key s' = ss_key s" "ok \<longleftrightarrow> ss_shell s' \<noteq> None"
    and "if ok then \<exists>m. cache' = cache(ss_key s \<mapsto> m) else cache' = cache \<and> (\<exists>r \<in> set failure_reasons. ss_reason s' = Some r)"
    using assms f unfolding probe_and_connect_def by (auto simp: q t split: option.splits)
qed

text \<open>Opening a session leaves exactly what was learnt: it succeeds if and only if a shell is open and the switch's
  authentication method is remembered; a failure forgets the method and is classified; other switches' entries stay.\<close>

theorem connect_remembers_what_worked:
  "(case connect auth probe w cache s of (w', cache', s', ok) \<Rightarrow>
      (ok \<longleftrightarrow> ss_shell s' \<noteq> None) \<and> (ok \<longleftrightarrow> cache' (ss_key s) \<noteq> None)
      \<and> (if ok then True else \<exists>r \<in> set failure_reasons. ss_reason s' = Some r)
      \<and> cache'(ss_key s := None) = cache(ss_key s := None))"
proof -
  have from_probe: "(ok \<longleftrightarrow> ss_shell s' \<noteq> None) \<and> (ok \<longleftrightarrow> cache' (ss_key s) \<noteq> None)
      \<and> (if ok then True else \<exists>r \<in> set failure_reasons. ss_reason s' = Some r) \<and> cache'(ss_key s := None) = cache(ss_key s := None)"
    if p: "probe_and_connect auth probe w0 c0 s0 = (w', cache', s', ok)" "ss_key s0 = ss_key s" "c0 = cache(ss_key s := None)"
    for w0 c0 s0 w' cache' s' ok
    using probe_and_connect_facts [OF p(1)] p(2,3) by (cases ok) auto
  show ?thesis
  proof (cases "cache (ss_key s)")
    case None
    then have "cache(ss_key s := None) = cache" by auto
    obtain w2 c2 s2 ok2 where two: "probe_and_connect auth probe w cache s = (w2, c2, s2, ok2)"
      by (cases "probe_and_connect auth probe w cache s") auto
    from from_probe [OF two refl] None \<open>cache(ss_key s := None) = cache\<close> two show ?thesis
      unfolding connect_def by (cases ok2) (simp_all only: option.case prod.case simp_thms if_True if_False)
  next
    case (Some m)
    obtain w1 s1 ok where one: "connect_method auth w s m = (w1, s1, ok)" by (cases "connect_method auth w s m") auto
    note f = connect_method_facts [OF one]
    show ?thesis
    proof (cases ok)
      case True
      with Some one f show ?thesis by (auto simp: connect_def)
    next
      case False
      obtain w2 c2 s2 ok2 where two: "probe_and_connect auth probe w1 (cache(ss_key s := None)) s1 = (w2, c2, s2, ok2)"
        by (cases "probe_and_connect auth probe w1 (cache(ss_key s := None)) s1") auto
      from from_probe [OF two f(1) refl] Some one False two show ?thesis
        unfolding connect_def by (cases ok2) (simp_all only: option.case prod.case bool.case simp_thms if_True if_False)
    qed
  qed
qed

text \<open>The reader stops at a prompt or at the deadline, with everything that arrived until then.\<close>

lemma recv_reads_up_to_a_prompt:
  "\<exists>k. recv_until_prompt out ticks = out @ concat (List.map_filter (\<lambda>c. c) (take k ticks))
     \<and> (at_prompt (recv_until_prompt out ticks) \<or> k = length ticks)"
proof (induction out ticks rule: recv_until_prompt.induct)
  case (2 out chunk ticks)
  show ?case
  proof (cases "at_prompt (out @ chunk)")
    case True
    then show ?thesis by (intro exI [of _ 1]) (simp add: List.map_filter_simps)
  next
    case False
    with 2 obtain k where "recv_until_prompt (out @ chunk) ticks = (out @ chunk) @ concat (List.map_filter (\<lambda>c. c) (take k ticks))"
      "at_prompt (recv_until_prompt (out @ chunk) ticks) \<or> k = length ticks" by blast
    with False show ?thesis by (intro exI [of _ "Suc k"]) (auto simp: List.map_filter_simps)
  qed
next
  case (3 out ticks)
  show ?case
  proof (cases "out \<noteq> [] \<and> at_prompt out")
    case True
    then show ?thesis by (intro exI [of _ 0]) (simp add: List.map_filter_simps)
  next
    case False
    with 3 obtain k where "recv_until_prompt out ticks = out @ concat (List.map_filter (\<lambda>c. c) (take k ticks))"
      "at_prompt (recv_until_prompt out ticks) \<or> k = length ticks" by blast
    with False show ?thesis by (intro exI [of _ "Suc k"]) (auto simp: List.map_filter_simps)
  qed
qed (simp add: List.map_filter_simps)

end
