(* ===== verification/Cisco_Client.thy ===== *)
theory Cisco_Client
  imports Cisco_Parsers Cisco_Session
begin

section \<open>Operations against one switch (app/services/cisco_ssh/client.py)\<close>

text \<open>
  A connected session is a function from the commands sent before and the next one to its answer, \<^const>\<open>None\<close> when
  \<open>execute\<close> raises (\<^const>\<open>execute_on\<close> of theory Cisco_Session is one). The transcript pairs every command sent with
  whether it was answered. An operation gets the outcome of opening its session: \<open>Inl\<close> the failure reason, or
  \<open>Inr\<close> the session. Sleeps, metrics and log lines are left out.
\<close>

type_synonym device = "string list \<Rightarrow> string \<Rightarrow> string option"
type_synonym transcript = "(string \<times> bool) list"

definition execute :: "device \<Rightarrow> string \<Rightarrow> transcript \<Rightarrow> transcript \<times> string option" where
  "execute dev cmd tr = (let r = dev (map fst tr) cmd in (tr @ [(cmd, r \<noteq> None)], r))"

text \<open>A run of commands, up to the first that raises.\<close>

fun run_all :: "device \<Rightarrow> string list \<Rightarrow> transcript \<Rightarrow> transcript \<times> bool" where
  "run_all dev [] tr = (tr, True)"
| "run_all dev (c # cs) tr =
     (case execute dev c tr of (tr', None) \<Rightarrow> (tr', False) | (tr', Some _) \<Rightarrow> run_all dev cs tr')"

subsection \<open>Reads\<close>

record switch_details =
  si_version :: version_info
  si_online :: bool
  si_reason :: "string option"

definition no_version :: version_info where
  "no_version = \<lparr>vi_hostname = None, vi_uptime = None, vi_ios = None, vi_model = None\<rparr>"

definition switch_info :: "string option + device \<Rightarrow> switch_details" where
  "switch_info conn =
     (case conn of
        Inl reason \<Rightarrow> \<lparr>si_version = no_version, si_online = False, si_reason = Some (case truthy reason of None \<Rightarrow> ''other'' | Some r \<Rightarrow> r)\<rparr>
      | Inr dev \<Rightarrow>
          \<lparr>si_version = (case dev [] ''show version'' of None \<Rightarrow> no_version | Some out \<Rightarrow> parse_show_version out),
           si_online = True, si_reason = None\<rparr>)"

text \<open>One best-effort enrichment: a command that raises leaves the records as they are.\<close>

definition enrich :: "device \<Rightarrow> string \<Rightarrow> (string \<Rightarrow> 'a list \<Rightarrow> 'a list) \<Rightarrow> 'a list \<Rightarrow> transcript \<Rightarrow> transcript \<times> 'a list" where
  "enrich dev cmd f records tr =
     (case execute dev cmd tr of (tr', None) \<Rightarrow> (tr', records) | (tr', Some out) \<Rightarrow> (tr', f out records))"

definition access_points :: "string option + device \<Rightarrow> int \<Rightarrow> transcript \<Rightarrow> transcript \<times> ap_info list option" where
  "access_points conn vlan tr =
     (case conn of
        Inl _ \<Rightarrow> (tr, None)
      | Inr dev \<Rightarrow>
          (case execute dev ''show cdp neighbors detail'' tr of
             (log1, None) \<Rightarrow> (log1, None)
           | (log1, Some out) \<Rightarrow>
               let aps = parse_cdp_access_points out vlan in
               if aps = [] then (log1, Some [])
               else let (log2, aps2) = enrich dev (''show mac address-table vlan '' @ show_int vlan) enrich_mac_from_table aps log1;
                        (log3, aps3) = enrich dev ''show power inline'' enrich_poe aps2 log2;
                        (log4, aps4) = enrich dev (''show ip arp vlan '' @ show_int vlan) enrich_arp aps3 log3
                    in (log4, Some aps4)))"

definition camera_ports :: "string option + device \<Rightarrow> int list \<Rightarrow> transcript \<Rightarrow> transcript \<times> camera_port list option" where
  "camera_ports conn vlans tr =
     (case conn of
        Inl _ \<Rightarrow> (tr, None)
      | Inr dev \<Rightarrow>
          (case execute dev ''show interfaces status'' tr of
             (log1, None) \<Rightarrow> (log1, None)
           | (log1, Some out) \<Rightarrow>
               let (log2, ports) = enrich dev ''show power inline'' enrich_camera_poe (parse_ports_on_vlans out vlans) log1
               in (log2, Some ports)))"

text \<open>None: no session, a command that raised, no line for the port, or a power that is no number.\<close>

definition port_poe_watts :: "string option + device \<Rightarrow> string \<Rightarrow> transcript \<Rightarrow> transcript \<times> rat option" where
  "port_poe_watts conn interface tr =
     (case conn of
        Inl _ \<Rightarrow> (tr, None)
      | Inr dev \<Rightarrow>
          (case execute dev (''show power inline '' @ interface) tr of
             (log1, None) \<Rightarrow> (log1, None)
           | (log1, Some out) \<Rightarrow> (log1, Option.bind (parse_port_poe_watts out interface) id)))"

definition arp_mac_map :: "string option + device \<Rightarrow> (string \<times> string) list" where
  "arp_mac_map conn =
     (case conn of
        Inl _ \<Rightarrow> []
      | Inr dev \<Rightarrow> (case dev [] ''show ip arp'' of None \<Rightarrow> [] | Some out \<Rightarrow> parse_arp_mac_to_ip out))"

subsection \<open>Writes\<close>

definition into :: "string \<Rightarrow> string" where
  "into interface = ''interface '' @ interface"

definition configure_cmds :: "string list \<Rightarrow> string \<Rightarrow> string list" where
  "configure_cmds interfaces command = ''configure terminal'' # concat (map (\<lambda>i. [into i, command]) interfaces)"

definition restore :: "device \<Rightarrow> string list \<Rightarrow> string \<Rightarrow> transcript \<Rightarrow> transcript" where
  "restore dev interfaces command tr = fst (run_all dev (configure_cmds interfaces command @ [''end'']) tr)"

definition reboot_ap :: "string option + device \<Rightarrow> string \<Rightarrow> transcript \<Rightarrow> transcript \<times> bool" where
  "reboot_ap conn interface tr =
     (case conn of
        Inl _ \<Rightarrow> (tr, False)
      | Inr dev \<Rightarrow>
          (case run_all dev (configure_cmds [interface] ''shutdown'') tr of
             (log1, False) \<Rightarrow> (log1, False)
           | (log1, True) \<Rightarrow>
               (case run_all dev [''no shutdown'', ''end''] log1 of
                  (log2, True) \<Rightarrow> (log2, True)
                | (log2, False) \<Rightarrow> (restore dev [interface] ''no shutdown'' log2, False))))"

definition poe_cycle :: "string option + device \<Rightarrow> string \<Rightarrow> transcript \<Rightarrow> transcript \<times> bool" where
  "poe_cycle conn interface tr =
     (case conn of
        Inl _ \<Rightarrow> (tr, False)
      | Inr dev \<Rightarrow>
          (case run_all dev (configure_cmds [interface] ''power inline never'' @ [''end'']) tr of
             (log1, False) \<Rightarrow> (log1, False)
           | (log1, True) \<Rightarrow>
               (case run_all dev (configure_cmds [interface] ''power inline auto'' @ [''end'']) log1 of
                  (log2, True) \<Rightarrow> (log2, True)
                | (log2, False) \<Rightarrow> (restore dev [interface] ''power inline auto'' log2, False))))"

definition poe_cycle_bulk :: "string option + device \<Rightarrow> string list \<Rightarrow> transcript \<Rightarrow> transcript \<times> bool" where
  "poe_cycle_bulk conn interfaces tr =
     (if interfaces = [] then (tr, True)
      else case conn of
        Inl _ \<Rightarrow> (tr, False)
      | Inr dev \<Rightarrow>
          (case execute dev ''configure terminal'' tr of
             (log1, None) \<Rightarrow> (log1, False)
           | (log1, Some _) \<Rightarrow>
               (case run_all dev (concat (map (\<lambda>i. [into i, ''power inline never'']) interfaces) @ [''end'']
                                  @ configure_cmds interfaces ''power inline auto'' @ [''end'']) log1 of
                  (log2, True) \<Rightarrow> (log2, True)
                | (log2, False) \<Rightarrow> (restore dev interfaces ''power inline auto'' log2, False))))"


subsection \<open>A scan keeps what CDP found\<close>

lemma execute_snd: "snd (execute dev cmd tr) = dev (map fst tr) cmd"
  by (simp add: execute_def Let_def)

lemma enrich_snd: "snd (enrich dev cmd f rs tr) = (case dev (map fst tr) cmd of None \<Rightarrow> rs | Some out \<Rightarrow> f out rs)"
  by (simp add: enrich_def execute_def Let_def split: option.splits)

text \<open>\<open>b\<close> is \<open>a\<close> with an address, power data, or a MAC address where CDP gave none.\<close>

definition enriched :: "ap_info \<Rightarrow> ap_info \<Rightarrow> bool" where
  "enriched a b \<longleftrightarrow> ai_port b = ai_port a \<and> ai_vlan b = ai_vlan a \<and> ai_cdp_name b = ai_cdp_name a \<and> ai_platform b = ai_platform a
     \<and> (ai_mac a = [] \<or> ai_mac b = ai_mac a)"

lemma enriched_steps:
  "list_all2 enriched aps (enrich_mac_from_table out aps)"
  "list_all2 enriched aps (enrich_poe out aps)"
  "list_all2 enriched aps (enrich_arp out aps)"
  "list_all2 enriched aps aps"
  by (auto simp: enrich_mac_from_table_def enrich_poe_def enrich_arp_def list_all2_map2 list_all2_same enriched_def split: option.splits)

lemma enriched_trans: "list_all2 enriched xs ys \<Longrightarrow> list_all2 enriched ys zs \<Longrightarrow> list_all2 enriched xs zs"
  by (rule list_all2_trans [of enriched enriched enriched]) (auto simp: enriched_def)

lemma enrich_enriched:
  assumes "enrich dev cmd f rs tr = (tr', rs')" "\<And>out. list_all2 enriched rs (f out rs)"
  shows "list_all2 enriched rs rs'"
  using assms(2) enriched_steps(4) [of rs] arg_cong [OF assms(1), of snd] by (auto simp: enrich_snd split: option.splits)

text \<open>A scan for access points is None exactly when the switch could not be asked; otherwise it lists the access points CDP
  announced, in order, whatever the later commands do: enrichment never drops one, moves it to another port, renames it or
  replaces a MAC address CDP gave.\<close>

theorem enrichment_keeps_what_cdp_found:
  "case snd (access_points conn vlan tr) of
     None \<Rightarrow> (\<forall>dev. conn = Inr dev \<longrightarrow> dev (map fst tr) ''show cdp neighbors detail'' = None)
   | Some aps \<Rightarrow> (\<exists>dev out. conn = Inr dev \<and> dev (map fst tr) ''show cdp neighbors detail'' = Some out
                     \<and> list_all2 enriched (parse_cdp_access_points out vlan) aps)"
proof (cases conn)
  case (Inr dev)
  show ?thesis
  proof (cases "execute dev ''show cdp neighbors detail'' tr")
    case (Pair log1 r)
    then have r: "dev (map fst tr) ''show cdp neighbors detail'' = r" by (simp add: execute_def Let_def)
    show ?thesis
    proof (cases r)
      case None
      with Inr Pair r show ?thesis by (simp add: access_points_def)
    next
      case (Some out)
      define aps where "aps = parse_cdp_access_points out vlan"
      show ?thesis
      proof (cases "aps = []")
        case True
        with Inr Pair r Some aps_def show ?thesis by (simp add: access_points_def)
      next
        case False
        obtain log2 aps2 where e2: "enrich dev (''show mac address-table vlan '' @ show_int vlan) enrich_mac_from_table aps log1 = (log2, aps2)"
          by fastforce
        obtain log3 aps3 where e3: "enrich dev ''show power inline'' enrich_poe aps2 log2 = (log3, aps3)" by fastforce
        obtain log4 aps4 where e4: "enrich dev (''show ip arp vlan '' @ show_int vlan) enrich_arp aps3 log3 = (log4, aps4)" by fastforce
        have "list_all2 enriched aps aps4"
          using enrich_enriched [OF e2 enriched_steps(1)] enrich_enriched [OF e3 enriched_steps(2)]
            enrich_enriched [OF e4 enriched_steps(3)] enriched_trans by blast
        moreover have "snd (access_points conn vlan tr) = Some aps4"
          using Inr Pair Some False e2 e3 e4 by (simp add: access_points_def Let_def aps_def [symmetric])
        ultimately show ?thesis using Inr r Some aps_def by simp
      qed
    qed
  qed
qed (simp add: access_points_def)

subsection \<open>A port that was taken down is not abandoned\<close>

text \<open>What the switch has confirmed: the interface being configured, and the last order given to each interface.\<close>

definition port_step :: "string \<times> bool \<Rightarrow> string option \<times> (string \<rightharpoonup> string) \<Rightarrow> string option \<times> (string \<rightharpoonup> string)" where
  "port_step = (\<lambda>(cmd, answered) (cur, orders).
     if \<not> answered then (cur, orders)
     else if cmd = ''configure terminal'' \<or> cmd = ''end'' then (None, orders)
     else if starts_with ''interface '' cmd then (Some (drop 10 cmd), orders)
     else case cur of None \<Rightarrow> (cur, orders) | Some p \<Rightarrow> (cur, orders(p \<mapsto> cmd)))"

definition port_view :: "transcript \<Rightarrow> string option \<times> (string \<rightharpoonup> string)" where
  "port_view tr = fold port_step tr (None, \<lambda>_. None)"

definition last_order :: "transcript \<Rightarrow> string \<Rightarrow> string option" where
  "last_order tr p = snd (port_view tr) p"

lemma run_all_append:
  "run_all dev (a @ b) tr = (case run_all dev a tr of (l, False) \<Rightarrow> (l, False) | (l, True) \<Rightarrow> run_all dev b l)"
  by (induction a arbitrary: tr) (auto split: prod.splits option.splits)

lemma run_all_answered: "run_all dev cmds tr = (tr', True) \<Longrightarrow> tr' = tr @ map (\<lambda>c. (c, True)) cmds"
  by (induction cmds arbitrary: tr) (fastforce simp: execute_def Let_def split: option.splits)+

definition plain_order :: "string \<Rightarrow> bool" where
  "plain_order c \<longleftrightarrow> c \<noteq> ''configure terminal'' \<and> c \<noteq> ''end'' \<and> \<not> starts_with ''interface '' c"

lemma port_step_interface: "port_step (into i, True) st = (Some i, snd st)"
  by (cases st) (simp add: port_step_def starts_with_def into_def)

lemma port_step_order: "plain_order c \<Longrightarrow> port_step (c, True) (Some p, orders) = (Some p, orders(p \<mapsto> c))"
  by (simp add: port_step_def plain_order_def)

lemma orders_of_config:
  assumes "plain_order c"
  shows "snd (fold port_step (map (\<lambda>c. (c, True)) (concat (map (\<lambda>i. [into i, c]) ifs))) st)
       = (\<lambda>p. if p \<in> set ifs then Some c else snd st p)"
  using assms
proof (induction ifs arbitrary: st)
  case (Cons i ifs)
  then show ?case by (auto simp del: append_Cons simp: port_step_interface port_step_order fun_eq_iff)
qed simp

lemma port_step_end: "snd (port_step (''end'', a) st) = snd st" "snd (port_step (''configure terminal'', a) st) = snd st"
  by (cases st; simp add: port_step_def)+

lemma configured_ports:
  assumes "run_all dev (configure_cmds ifs c @ [''end'']) tr = (tr', True)" "plain_order c"
  shows "last_order tr' = (\<lambda>p. if p \<in> set ifs then Some c else last_order tr p)"
proof -
  have "tr' = tr @ map (\<lambda>c. (c, True)) (configure_cmds ifs c @ [''end''])" by (rule run_all_answered [OF assms(1)])
  then show ?thesis
    by (simp add: last_order_def port_view_def configure_cmds_def orders_of_config [OF assms(2)] port_step_end fun_eq_iff)
qed

text \<open>Whatever is answered, only the interfaces of the commands are touched.\<close>

definition stays :: "string set \<Rightarrow> string option \<times> (string \<rightharpoonup> string) \<Rightarrow> bool" where
  "stays P st \<longleftrightarrow> (case fst st of None \<Rightarrow> True | Some p \<Rightarrow> p \<in> P) \<and> dom (snd st) \<subseteq> P"

definition confined :: "string set \<Rightarrow> string \<Rightarrow> bool" where
  "confined P cmd \<longleftrightarrow> (\<forall>p. cmd = into p \<longrightarrow> p \<in> P)"

lemma port_step_stays:
  assumes "confined P cmd" "stays P st"
  shows "stays P (port_step (cmd, a) st)"
proof -
  have "drop 10 cmd \<in> P" if "starts_with ''interface '' cmd"
  proof -
    have "cmd = take 10 cmd @ drop 10 cmd" by (rule append_take_drop_id [symmetric])
    moreover have "take 10 cmd = ''interface ''" using that by (simp add: starts_with_def numeral_eq_Suc)
    ultimately show ?thesis using assms(1) unfolding confined_def into_def by metis
  qed
  then show ?thesis using assms(2) by (cases st) (auto simp: stays_def port_step_def split: option.splits)
qed

lemma run_all_stays:
  assumes "list_all (confined P) cmds" "stays P (port_view tr)"
  shows "stays P (port_view (fst (run_all dev cmds tr)))"
  using assms
proof (induction cmds arbitrary: tr)
  case (Cons c cs)
  have one: "stays P (port_view (fst (execute dev c tr)))"
    using Cons.prems by (simp add: execute_def Let_def port_view_def port_step_stays)
  show ?case
  proof (cases "execute dev c tr")
    case (Pair log1 r)
    with Cons one show ?thesis by (cases r) auto
  qed
qed simp

lemma confined_plain: "\<not> starts_with ''interface '' c \<Longrightarrow> confined P c"
  by (auto simp: confined_def starts_with_def into_def)

lemma confined_configure:
  "\<not> starts_with ''interface '' c \<Longrightarrow> list_all (confined (set ifs)) (concat (map (\<lambda>i. [into i, c]) ifs))"
  by (auto simp: list_all_iff confined_plain) (auto simp: confined_def into_def)

lemma plain_orders:
  "plain_order ''power inline auto''" "plain_order ''power inline never''" "plain_order ''no shutdown''" "plain_order ''shutdown''"
  by code_simp+

lemma not_interface_cmds:
  "\<not> starts_with ''interface '' ''power inline auto''" "\<not> starts_with ''interface '' ''power inline never''"
  "\<not> starts_with ''interface '' ''no shutdown''" "\<not> starts_with ''interface '' ''shutdown''"
  "\<not> starts_with ''interface '' ''end''" "\<not> starts_with ''interface '' ''configure terminal''"
  by code_simp+

lemma stays_start: "stays P (port_view [])"
  by (simp add: stays_def port_view_def)

lemma stays_order: "stays P (port_view tr) \<Longrightarrow> p \<notin> P \<Longrightarrow> last_order tr p = None"
  by (auto simp: stays_def last_order_def)

text \<open>The recovery that was started at \<open>log1\<close> did not get through.\<close>

definition recovery_failed :: "device \<Rightarrow> string list \<Rightarrow> string \<Rightarrow> transcript \<Rightarrow> bool" where
  "recovery_failed dev interfaces command tr' \<longleftrightarrow>
     (\<exists>log1. tr' = restore dev interfaces command log1 \<and> \<not> snd (run_all dev (configure_cmds interfaces command @ [''end'']) log1))"

lemma restored_or_failed:
  assumes "plain_order c" "p \<in> set ifs"
  shows "last_order (restore dev ifs c tr) p = Some c \<or> recovery_failed dev ifs c (restore dev ifs c tr)"
proof (cases "run_all dev (configure_cmds ifs c @ [''end'']) tr")
  case (Pair tr' ok)
  show ?thesis
  proof (cases ok)
    case True
    with configured_ports [of dev ifs c tr tr'] Pair assms show ?thesis by (simp add: restore_def)
  next
    case False
    with Pair show ?thesis unfolding recovery_failed_def by (intro disjI2 exI [of _ tr]) simp
  qed
qed

text \<open>A bulk power cycle gives orders to its own ports only.\<close>

lemma bulk_cycle_stays: "stays (set interfaces) (port_view (fst (poe_cycle_bulk conn interfaces [])))"
proof (cases conn)
  case (Inr dev)
  have conf: "list_all (confined (set interfaces)) (configure_cmds interfaces ''power inline auto'' @ [''end''])"
    using confined_configure [OF not_interface_cmds(1), of interfaces]
    by (simp add: configure_cmds_def confined_plain not_interface_cmds)
  have conf': "list_all (confined (set interfaces)) (concat (map (\<lambda>i. [into i, ''power inline never'']) interfaces) @ [''end'']
       @ configure_cmds interfaces ''power inline auto'' @ [''end''])"
    using confined_configure [OF not_interface_cmds(2), of interfaces] conf by (simp add: confined_plain not_interface_cmds)
  have start: "stays (set interfaces) (port_view (fst (execute dev ''configure terminal'' [])))"
    using port_step_stays [OF confined_plain [OF not_interface_cmds(6)] stays_start]
    by (simp add: execute_def Let_def port_view_def)
  show ?thesis
    using Inr start run_all_stays [OF conf', of "fst (execute dev ''configure terminal'' [])" dev] run_all_stays [OF conf, of _ dev] stays_start
    unfolding poe_cycle_bulk_def restore_def by (auto split: prod.splits option.splits bool.splits)
qed (simp add: poe_cycle_bulk_def stays_start)

text \<open>After a bulk power cycle, whatever command fails on the way, no port is left with its power cut by the last order the
  switch confirmed, unless the recovery was attempted for all the ports and itself failed.\<close>

lemma bulk_cycle_abandons_no_port:
  "if last_order (fst (poe_cycle_bulk (Inr dev) interfaces [])) p = Some ''power inline never''
   then recovery_failed dev interfaces ''power inline auto'' (fst (poe_cycle_bulk (Inr dev) interfaces [])) else True"
proof (cases "p \<in> set interfaces")
  case False
  with stays_order [OF bulk_cycle_stays] show ?thesis by simp
next
  case True
  obtain log1 r where e: "execute dev ''configure terminal'' [] = (log1, r)" by fastforce
  show ?thesis
  proof (cases r)
    case None
    with e have "log1 = [(''configure terminal'', False)]" by (auto simp: execute_def Let_def)
    then show ?thesis using e None True by (auto simp: poe_cycle_bulk_def last_order_def port_view_def port_step_def)
  next
    case (Some out)
    let ?off = "concat (map (\<lambda>i. [into i, ''power inline never'']) interfaces) @ [''end'']"
    let ?on = "configure_cmds interfaces ''power inline auto'' @ [''end'']"
    obtain log2 ok where run: "run_all dev (?off @ ?on) log1 = (log2, ok)" by fastforce
    show ?thesis
    proof (cases ok)
      case ok: True
      from run ok obtain log3 where "run_all dev ?on log3 = (log2, True)"
        unfolding run_all_append [of dev ?off ?on] by (auto split: prod.splits bool.splits)
      then have "last_order log2 p = Some ''power inline auto''" using configured_ports [OF _ plain_orders(1)] True by simp
      moreover have "fst (poe_cycle_bulk (Inr dev) interfaces []) = log2" using True e Some run ok by (auto simp: poe_cycle_bulk_def)
      ultimately show ?thesis by simp
    next
      case False
      have "fst (poe_cycle_bulk (Inr dev) interfaces []) = restore dev interfaces ''power inline auto'' log2"
        using True e Some run False by (auto simp: poe_cycle_bulk_def)
      then show ?thesis using restored_or_failed [OF plain_orders(1) True, of dev log2] by auto
    qed
  qed
qed

text \<open>A reboot by shutting the port down does not leave the port shut by the last order the switch confirmed, unless the
  recovery was attempted and itself failed.\<close>

theorem reboot_abandons_no_port:
  "if last_order (fst (reboot_ap (Inr dev) interface [])) p = Some ''shutdown''
   then recovery_failed dev [interface] ''no shutdown'' (fst (reboot_ap (Inr dev) interface [])) else True"
proof -
  obtain tr1 down where d: "run_all dev (configure_cmds [interface] ''shutdown'') [] = (tr1, down)" by fastforce
  obtain tr2 up where u: "run_all dev [''no shutdown'', ''end''] tr1 = (tr2, up)" by fastforce
  have dn: "configure_cmds [interface] ''shutdown'' = [''configure terminal'', into interface, ''shutdown'']"
    by (simp add: configure_cmds_def)
  have conf: "list_all (confined {interface}) (configure_cmds [interface] ''shutdown'')"
     "list_all (confined {interface}) [''no shutdown'', ''end'']"
     "list_all (confined {interface}) (configure_cmds [interface] ''no shutdown'' @ [''end''])"
    using confined_configure [OF not_interface_cmds(4), of "[interface]"] confined_configure [OF not_interface_cmds(3), of "[interface]"]
    by (simp_all add: configure_cmds_def confined_plain not_interface_cmds)
  have w1: "stays {interface} (port_view tr1)" using run_all_stays [OF conf(1) stays_start, of dev] d by simp
  have w2: "stays {interface} (port_view tr2)" using run_all_stays [OF conf(2) w1, of dev] u by simp
  have w3: "stays {interface} (port_view (restore dev [interface] ''no shutdown'' tr2))"
    using run_all_stays [OF conf(3) w2, of dev] by (simp add: restore_def)
  have all: "stays {interface} (port_view (fst (reboot_ap (Inr dev) interface [])))"
    using w1 w2 w3 d u by (cases down; cases up) (simp_all add: reboot_ap_def)
  show ?thesis
  proof (cases "p = interface")
    case False
    with stays_order [OF all] show ?thesis by simp
  next
    case p: True
    consider "\<not> down" | "down" "up" | "down" "\<not> up" by blast
    then show ?thesis
    proof cases
      case 1
      have "last_order tr1 interface = None" using d 1 unfolding dn
        by (auto simp: execute_def Let_def last_order_def port_view_def port_step_def starts_with_def into_def split: option.splits)
      then show ?thesis using d 1 p by (simp add: reboot_ap_def)
    next
      case 2
      have "tr2 = map (\<lambda>c. (c, True)) ([''configure terminal'', into interface, ''shutdown''] @ [''no shutdown'', ''end''])"
        using run_all_answered [of dev "configure_cmds [interface] ''shutdown''" "[]" tr1] run_all_answered [of dev "[''no shutdown'', ''end'']" tr1 tr2]
          d u 2 by (simp only: dn append_Nil map_append append_assoc simp_thms)
      then have "last_order tr2 interface = Some ''no shutdown''"
        by (simp add: last_order_def port_view_def port_step_def starts_with_def into_def)
      then show ?thesis using d u 2 p by (simp add: reboot_ap_def)
    next
      case 3
      have "fst (reboot_ap (Inr dev) interface []) = restore dev [interface] ''no shutdown'' tr2" using d u 3 by (simp add: reboot_ap_def)
      then show ?thesis using restored_or_failed [OF plain_orders(3), of interface "[interface]" dev tr2] p by auto
    qed
  qed
qed

text \<open>C0: The power cycle of one port breaks that rule: when the switch has confirmed the cut and the following \<open>end\<close>
  fails, the port stays without power although every later command would have been answered.\<close>

definition end_fails_once :: device where
  "end_fails_once sent cmd = (if cmd = ''end'' \<and> ''end'' \<notin> set sent then None else Some ''sw1#'')"

theorem poe_cycle_can_abandon_a_port:
  "last_order (fst (poe_cycle (Inr end_fails_once) ''Gi1/0/7'' [])) ''Gi1/0/7'' = Some ''power inline never''
   \<and> \<not> snd (poe_cycle (Inr end_fails_once) ''Gi1/0/7'' [])
   \<and> last_order (fst (poe_cycle_bulk (Inr end_fails_once) [''Gi1/0/7''] [])) ''Gi1/0/7'' = Some ''power inline auto''"
  by code_simp

end
