(* ===== verification/Switch_Ports.thy ===== *)
theory Switch_Ports
  imports Cisco_Client Switch_Polling
begin

section \<open>Switch providers and port configuration (app/services/switches/, app/domains/inventory/port_snapshot.py)\<close>

text \<open>
  A provider reads and writes one switch. Its SNMP agent is a record of functions (pysnmp is not under src/): a read
  may raise (\<open>Inl\<close> the text), a walk is the list of its iterations, each flagged when it reports an error, and a
  SET is answered or not, given the SETs before it. Values come decoded. The command line is a session of theory
  Cisco_Client, \<^const>\<open>None\<close> when it cannot be opened. \<open>watts\<close> is \<open>round(n / 1000.0, 2)\<close> on floats.
\<close>

record provider_switch = network_switch +
  pw_vendor :: "string option"
  pw_community_ro :: string
  pw_community_rw :: "string option"

record port_state =
  po_port :: string
  po_if_index :: int
  po_description :: "string option"
  po_admin :: "string option"
  po_oper :: "string option"
  po_status_text :: "string option"
  po_vlan_text :: "string option"
  po_duplex_text :: "string option"
  po_speed_text :: "string option"
  po_media :: "string option"
  po_speed_mbps :: "int option"
  po_duplex :: "string option"
  po_vlan :: "int option"
  po_mode :: "string option"
  po_access_vlan :: "int option"
  po_native_vlan :: "int option"
  po_allowed_vlans :: "string option"
  po_poe_enabled :: "bool option"
  po_poe_watts :: "rat option"
  po_mac_count :: "int option"

datatype snmp_value = Snmp_int int | Snmp_octets string

type_synonym walk = "(bool \<times> (string \<times> string) list) list"

record snmp_agent =
  ag_get :: "string \<Rightarrow> string \<Rightarrow> string \<Rightarrow> string + string option"
  ag_walk :: "string \<Rightarrow> string \<Rightarrow> string \<Rightarrow> string + walk"
  ag_set :: "(string \<times> snmp_value) list \<Rightarrow> string \<Rightarrow> string \<times> snmp_value \<Rightarrow> bool"

subsection \<open>SNMP reads (snmp_provider.py)\<close>

definition OID_SYS_DESCR :: string where "OID_SYS_DESCR = ''1.3.6.1.2.1.1.1.0''"
definition OID_SYS_NAME :: string where "OID_SYS_NAME = ''1.3.6.1.2.1.1.5.0''"
definition OID_SYS_UPTIME :: string where "OID_SYS_UPTIME = ''1.3.6.1.2.1.1.3.0''"
definition OID_IF_DESCR :: string where "OID_IF_DESCR = ''1.3.6.1.2.1.2.2.1.2''"
definition OID_IF_SPEED :: string where "OID_IF_SPEED = ''1.3.6.1.2.1.2.2.1.5''"
definition OID_IF_ADMIN :: string where "OID_IF_ADMIN = ''1.3.6.1.2.1.2.2.1.7''"
definition OID_IF_OPER :: string where "OID_IF_OPER = ''1.3.6.1.2.1.2.2.1.8''"
definition OID_IF_ALIAS :: string where "OID_IF_ALIAS = ''1.3.6.1.2.1.31.1.1.1.18''"
definition OID_DOT1Q_PVID :: string where "OID_DOT1Q_PVID = ''1.3.6.1.2.1.17.7.1.4.5.1.1''"
definition OID_POE_ADMIN :: string where "OID_POE_ADMIN = ''1.3.6.1.2.1.105.1.1.1.3.1''"
definition OID_POE_POWER :: string where "OID_POE_POWER = ''1.3.6.1.2.1.105.1.1.1.6.1''"

definition uptime_ticks_to_human :: "string option \<Rightarrow> string option" where
  "uptime_ticks_to_human raw =
     Option.bind (truthy raw) (\<lambda>r. Option.bind (py_int r) (\<lambda>ticks.
       let seconds = ticks div 100; days = seconds div 86400; rem = seconds mod 86400;
           hours = rem div 3600; minutes = rem mod 3600 div 60 in
       Some (show_int days @ ''d '' @ show_int hours @ ''h '' @ show_int minutes @ ''m'')))"

definition fetch_basics :: "snmp_agent \<Rightarrow> string \<Rightarrow> string \<Rightarrow> string + (string \<times> string \<times> string) option" where
  "fetch_basics ag host community =
     (case ag_get ag host community OID_SYS_NAME of Inl e \<Rightarrow> Inl e
      | Inr sys_name \<Rightarrow>
     (case ag_get ag host community OID_SYS_DESCR of Inl e \<Rightarrow> Inl e
      | Inr sys_descr \<Rightarrow>
     (case ag_get ag host community OID_SYS_UPTIME of Inl e \<Rightarrow> Inl e
      | Inr sys_uptime \<Rightarrow>
        Inr (if truthy sys_name = None \<and> truthy sys_descr = None then None
             else Some (case truthy sys_name of None \<Rightarrow> host | Some n \<Rightarrow> n,
                        case truthy sys_descr of None \<Rightarrow> [] | Some d \<Rightarrow> d,
                        case truthy (uptime_ticks_to_human sys_uptime) of
                          Some u \<Rightarrow> u
                        | None \<Rightarrow> (case truthy sys_uptime of None \<Rightarrow> [] | Some u \<Rightarrow> u))))))"

definition offline_because :: "string \<Rightarrow> switch_poll_info" where
  "offline_because reason = \<lparr>pi_is_online = False, pi_hostname = None, pi_model_info = None, pi_ios_version = None,
     pi_uptime = None, pi_offline_reason = Some reason\<rparr>"

definition snmp_poll_switch :: "snmp_agent \<Rightarrow> provider_switch \<Rightarrow> switch_poll_info" where
  "snmp_poll_switch ag sw =
     (case fetch_basics ag (ns_ip sw) (pw_community_ro sw) of
        Inl _ \<Rightarrow> offline_because ''network_unreachable''
      | Inr None \<Rightarrow> offline_because ''no_response''
      | Inr (Some (hostname, model, uptime)) \<Rightarrow>
          \<lparr>pi_is_online = True, pi_hostname = Some hostname, pi_model_info = Some model, pi_ios_version = None,
           pi_uptime = Some uptime, pi_offline_reason = None\<rparr>)"

text \<open>A walk stops at its first error and keeps the rows before it.\<close>

definition snmp_walk :: "snmp_agent \<Rightarrow> provider_switch \<Rightarrow> string \<Rightarrow> string + (string \<times> string) list" where
  "snmp_walk ag sw oid =
     map_sum id (\<lambda>w. concat (map snd (takeWhile (\<lambda>(err, _). \<not> err) w))) (ag_walk ag (ns_ip sw) (pw_community_ro sw) oid)"

definition extract_index :: "string \<Rightarrow> int option" where
  "extract_index oid = py_int (last (split_on CHR ''.'' oid))"

definition to_index_map :: "(string \<times> string) list \<Rightarrow> int \<rightharpoonup> string" where
  "to_index_map rows = map_of (rev (List.map_filter (\<lambda>(oid, v). map_option (\<lambda>i. (i, v)) (extract_index oid)) rows))"

definition admin_names :: "(string \<times> string) list" where
  "admin_names = [(''1'', ''up''), (''2'', ''down''), (''3'', ''testing'')]"

definition oper_names :: "(string \<times> string) list" where
  "oper_names = [(''1'', ''up''), (''2'', ''down''), (''3'', ''testing''), (''4'', ''unknown''), (''5'', ''dormant''),
     (''6'', ''notPresent''), (''7'', ''lowerLayerDown'')]"

definition int_of_text :: "string option \<Rightarrow> int option" where
  "int_of_text raw = Option.bind (truthy raw) py_int"

record snmp_columns =
  co_alias :: "int \<rightharpoonup> string"
  co_admin :: "int \<rightharpoonup> string"
  co_oper :: "int \<rightharpoonup> string"
  co_speed :: "int \<rightharpoonup> string"
  co_vlan :: "int \<rightharpoonup> string"
  co_poe_admin :: "int \<rightharpoonup> string"
  co_poe_power :: "int \<rightharpoonup> string"

definition snmp_port :: "(int \<Rightarrow> rat) \<Rightarrow> snmp_columns \<Rightarrow> string \<Rightarrow> int \<Rightarrow> port_state" where
  "snmp_port watts co name idx =
     \<lparr>po_port = name, po_if_index = idx, po_description = co_alias co idx,
      po_admin = Option.bind (co_admin co idx) (map_of admin_names), po_oper = Option.bind (co_oper co idx) (map_of oper_names),
      po_status_text = None, po_vlan_text = None, po_duplex_text = None, po_speed_text = None, po_media = None,
      po_speed_mbps = map_option (\<lambda>n. n div 1000000) (int_of_text (co_speed co idx)), po_duplex = None,
      po_vlan = int_of_text (co_vlan co idx), po_mode = None, po_access_vlan = None, po_native_vlan = None, po_allowed_vlans = None,
      po_poe_enabled = map_option (\<lambda>v. v = ''1'') (co_poe_admin co idx),
      po_poe_watts = map_option watts (int_of_text (co_poe_power co idx)), po_mac_count = None\<rparr>"

definition snmp_get_ports :: "(int \<Rightarrow> rat) \<Rightarrow> snmp_agent \<Rightarrow> provider_switch \<Rightarrow> string + port_state list" where
  "snmp_get_ports watts ag sw =
     (case those (map (\<lambda>oid. case snmp_walk ag sw oid of Inl _ \<Rightarrow> None | Inr rows \<Rightarrow> Some rows)
             [OID_IF_DESCR, OID_IF_ALIAS, OID_IF_ADMIN, OID_IF_OPER, OID_IF_SPEED, OID_DOT1Q_PVID, OID_POE_ADMIN, OID_POE_POWER]) of
        Some [descr, alias, admin, oper, speed, vlan, poe_admin, poe_power] \<Rightarrow>
          (let co = \<lparr>co_alias = to_index_map alias, co_admin = to_index_map admin, co_oper = to_index_map oper,
                     co_speed = to_index_map speed, co_vlan = to_index_map vlan, co_poe_admin = to_index_map poe_admin,
                     co_poe_power = to_index_map poe_power\<rparr> in
           Inr (sort_key po_if_index
             (List.map_filter (\<lambda>(oid, name). map_option (snmp_port watts co name) (extract_index oid)) descr)))
      | _ \<Rightarrow> Inl ''SNMP walk failed'')"

subsection \<open>The command line of a Cisco switch (cisco_provider.py)\<close>

definition port_of_row :: "status_row \<Rightarrow> port_state" where
  "port_of_row row =
     (let num = (if digits_only (sr_vlan row) then Some (int (digits_val (sr_vlan row))) else None);
          mode = (if lower (sr_vlan row) = ''trunk'' then Some ''trunk'' else if digits_only (sr_vlan row) then Some ''access'' else None) in
      \<lparr>po_port = sr_port row, po_if_index = 0, po_description = sr_name row, po_admin = None,
       po_oper = Some (if sr_status row = ''connected'' then ''up'' else ''down''), po_status_text = Some (sr_status row),
       po_vlan_text = Some (sr_vlan row), po_duplex_text = Some (sr_duplex row), po_speed_text = Some (sr_speed row),
       po_media = Some (sr_media row), po_speed_mbps = None, po_duplex = None, po_vlan = num, po_mode = mode,
       po_access_vlan = (if mode = Some ''access'' then num else None), po_native_vlan = None, po_allowed_vlans = None,
       po_poe_enabled = None, po_poe_watts = None, po_mac_count = None\<rparr>)"

definition parse_interfaces_status :: "string \<Rightarrow> port_state list" where
  "parse_interfaces_status out = map port_of_row (parse_interface_status_table out)"

record switchport =
  sw_mode :: string
  sw_access :: string
  sw_native :: string
  sw_allowed :: string

definition found_or_empty :: "re \<Rightarrow> string \<Rightarrow> string" where
  "found_or_empty r s = (case re_search r s of None \<Rightarrow> [] | Some g \<Rightarrow> group_text g 1)"

definition digits_after :: "string \<Rightarrow> re" where
  "digits_after label = seqs [lit label, Star spc, Grp 1 (plus dig)]"

definition switchport_of :: "string \<Rightarrow> switchport" where
  "switchport_of section =
     \<lparr>sw_mode = lower (strip (found_or_empty (line_of ''Administrative Mode:'') section)),
      sw_access = found_or_empty (digits_after ''Access Mode VLAN:'') section,
      sw_native = found_or_empty (digits_after ''Trunking Native Mode VLAN:'') section,
      sw_allowed = strip (found_or_empty (line_of ''Trunking VLANs Enabled:'') section)\<rparr>"

definition section_re :: re where
  "section_re = Seq (Cls (\<lambda>c. c = CHR 0x0A)) (ahead (Seq (lit ''Name:'') spc))"

definition parse_switchport_output :: "string \<Rightarrow> (string \<times> switchport) list" where
  "parse_switchport_output out =
     fold (\<lambda>section d. case re_search (seqs [lit ''Name:'', Star spc, Grp 1 (plus nsp)]) section of
             None \<Rightarrow> d
           | Some g \<Rightarrow> AList.update (normalize_port (strip (group_text g 1))) (switchport_of section) d)
       (re_split section_re out) []"

definition normalize_mode :: "string \<Rightarrow> string option" where
  "normalize_mode raw =
     (if raw = [] then None else if contains ''trunk'' raw then Some ''trunk''
      else if contains ''access'' raw \<or> contains ''static access'' raw then Some ''access''
      else if contains ''dynamic'' raw then Some ''dynamic'' else Some ''unknown'')"

definition fill_vlan :: "port_state \<Rightarrow> port_state" where
  "fill_vlan p =
     (if po_mode p = Some ''trunk'' then
        (let p1 = (if truthy (po_vlan_text p) = None then p\<lparr>po_vlan_text := Some ''trunk''\<rparr> else p) in
         if po_vlan p1 = None \<and> po_native_vlan p1 \<noteq> None then p1\<lparr>po_vlan := po_native_vlan p1\<rparr> else p1)
      else if po_mode p = Some ''access'' then
        (let p1 = (if po_vlan p = None \<and> po_access_vlan p \<noteq> None then p\<lparr>po_vlan := po_access_vlan p\<rparr> else p) in
         if truthy (po_vlan_text p1) = None \<and> po_vlan p1 \<noteq> None then p1\<lparr>po_vlan_text := map_option show_int (po_vlan p1)\<rparr> else p1)
      else p)"

definition with_switchport :: "(string \<times> switchport) list \<Rightarrow> port_state \<Rightarrow> port_state" where
  "with_switchport details p =
     (case map_of details (normalize_port (po_port p)) of
        None \<Rightarrow> p
      | Some cfg \<Rightarrow>
          fill_vlan
            (let p1 = p\<lparr>po_mode := normalize_mode (sw_mode cfg)\<rparr>;
                 p2 = (if sw_access cfg \<noteq> [] then p1\<lparr>po_access_vlan := py_int (sw_access cfg)\<rparr> else p1);
                 p3 = (if sw_native cfg \<noteq> [] then p2\<lparr>po_native_vlan := py_int (sw_native cfg)\<rparr> else p2) in
             if sw_allowed cfg \<noteq> [] then p3\<lparr>po_allowed_vlans := Some (sw_allowed cfg)\<rparr> else p3))"

definition with_status :: "(string \<times> port_state) list \<Rightarrow> port_state \<Rightarrow> port_state" where
  "with_status rows p =
     (case map_of rows (normalize_port (po_port p)) of
        None \<Rightarrow> p
      | Some row \<Rightarrow>
          (let p1 = (if truthy (po_description p) = None then p\<lparr>po_description := po_description row\<rparr> else p);
               p2 = p1\<lparr>po_oper := (case truthy (po_oper row) of None \<Rightarrow> po_oper p1 | Some o' \<Rightarrow> Some o'),
                       po_status_text := po_status_text row, po_vlan_text := po_vlan_text row,
                       po_duplex_text := po_duplex_text row, po_speed_text := po_speed_text row, po_media := po_media row\<rparr>;
               p3 = (if po_vlan row \<noteq> None then p2\<lparr>po_vlan := po_vlan row\<rparr> else p2);
               p4 = (if truthy (po_mode row) \<noteq> None \<and> truthy (po_mode p3) = None then p3\<lparr>po_mode := po_mode row\<rparr> else p3) in
           if po_access_vlan row \<noteq> None \<and> po_access_vlan p4 = None then p4\<lparr>po_access_vlan := po_access_vlan row\<rparr> else p4))"

definition by_normal_port :: "port_state list \<Rightarrow> (string \<times> port_state) list" where
  "by_normal_port rows = fold (\<lambda>r. AList.update (normalize_port (po_port r)) r) rows []"

text \<open>The two sessions \<open>get_ports\<close> may open answer independently; \<open>Inl\<close> is an exception of \<open>execute\<close>.\<close>

definition status_and_switchport_maps :: "device option \<Rightarrow> string + (string \<times> port_state) list \<times> (string \<times> switchport) list" where
  "status_and_switchport_maps conn =
     (case conn of
        None \<Rightarrow> Inr ([], [])
      | Some dev \<Rightarrow>
          (case dev [] ''show interfaces status'' of
             None \<Rightarrow> Inl ''SSH command failed''
           | Some status \<Rightarrow>
               (case dev [''show interfaces status''] ''show interfaces switchport'' of
                  None \<Rightarrow> Inl ''SSH command failed''
                | Some sp \<Rightarrow> Inr (by_normal_port (parse_interfaces_status status), parse_switchport_output sp))))"

definition get_ports_via_ssh :: "device option \<Rightarrow> string + port_state list" where
  "get_ports_via_ssh conn =
     (case conn of
        None \<Rightarrow> Inr []
      | Some dev \<Rightarrow>
          (case dev [] ''show interfaces status'' of None \<Rightarrow> Inl ''SSH command failed'' | Some out \<Rightarrow> Inr (parse_interfaces_status out)))"

definition cisco_get_ports ::
    "(int \<Rightarrow> rat) \<Rightarrow> snmp_agent \<Rightarrow> device option \<Rightarrow> device option \<Rightarrow> provider_switch \<Rightarrow> string + port_state list" where
  "cisco_get_ports watts ag conn conn2 sw =
     (case snmp_get_ports watts ag sw of
        Inl e \<Rightarrow> Inl e
      | Inr ports \<Rightarrow>
          (case status_and_switchport_maps conn of
             Inl e \<Rightarrow> Inl e
           | Inr (status, details) \<Rightarrow>
               if ports \<noteq> [] then Inr (map (with_switchport details \<circ> with_status status) ports)
               else (case if status \<noteq> [] then Inr (map snd status) else get_ports_via_ssh conn2 of
                       Inl e \<Rightarrow> Inl e
                     | Inr rows \<Rightarrow> Inr (map (with_switchport details) rows))))"

text \<open>SSH first; when it fails SNMP decides, and if both fail the SSH reason is the one reported.\<close>

definition cisco_poll_switch :: "snmp_agent \<Rightarrow> string option + device \<Rightarrow> provider_switch \<Rightarrow> switch_poll_info" where
  "cisco_poll_switch ag conn sw =
     (let info = switch_info conn in
      if si_online info then
        \<lparr>pi_is_online = True, pi_hostname = vi_hostname (si_version info), pi_model_info = vi_model (si_version info),
         pi_ios_version = vi_ios (si_version info), pi_uptime = vi_uptime (si_version info), pi_offline_reason = None\<rparr>
      else
        let result = snmp_poll_switch ag sw in
        if pi_is_online result then result
        else result\<lparr>pi_offline_reason := (case truthy (si_reason info) of None \<Rightarrow> pi_offline_reason result | Some r \<Rightarrow> Some r)\<rparr>)"

text \<open>D-Link: SNMP first, then the HTTPS management page as a sign of life (\<open>https\<close>).\<close>

definition dlink_poll_switch :: "snmp_agent \<Rightarrow> (string \<Rightarrow> bool) \<Rightarrow> provider_switch \<Rightarrow> switch_poll_info" where
  "dlink_poll_switch ag https sw =
     (let info = snmp_poll_switch ag sw in
      if pi_is_online info \<or> \<not> https (ns_ip sw) then info
      else \<lparr>pi_is_online = True, pi_hostname = ns_hostname sw,
            pi_model_info = Some (case truthy (ns_model_info sw) of Some m \<Rightarrow> m | None \<Rightarrow> ''D-Link (HTTPS management; SNMP unavailable)''),
            pi_ios_version = None, pi_uptime = ns_uptime sw, pi_offline_reason = None\<rparr>)"

datatype vendor_provider = Cisco_provider | Dlink_provider | Generic_provider

definition resolve_switch_provider :: "provider_switch \<Rightarrow> vendor_provider" where
  "resolve_switch_provider sw =
     (let vendor = lower (case truthy (pw_vendor sw) of None \<Rightarrow> ''generic'' | Some v \<Rightarrow> v) in
      if vendor = ''cisco'' then Cisco_provider else if vendor = ''dlink'' then Dlink_provider else Generic_provider)"


subsection \<open>Writing one port\<close>

datatype write_error =
    Ssh_connection_failed | Ssh_command_failed | Unsupported_mode | Snmp_set_failed string | Snmp_read_failed string
  | No_write_community | Port_not_found string | Mode_needs_cli

text \<open>What a write has put on the wire: the command line's transcript and the SNMP SETs.\<close>

record wire =
  wi_cli :: transcript
  wi_sets :: "(string \<times> snmp_value) list"

definition exec_config :: "device option \<Rightarrow> string list \<Rightarrow> wire \<Rightarrow> wire \<times> write_error option" where
  "exec_config conn commands w =
     (case conn of
        None \<Rightarrow> (w, Some Ssh_connection_failed)
      | Some dev \<Rightarrow>
          (let (tr, ok) = run_all dev (''configure terminal'' # commands @ [''end'']) (wi_cli w)
           in (w\<lparr>wi_cli := tr\<rparr>, if ok then None else Some Ssh_command_failed)))"

datatype port_write =
    Set_admin_state string
  | Set_description string
  | Set_vlan int
  | Set_mode string "int option" "int option" "string option"
  | Set_poe string

fun mode_commands :: "string \<Rightarrow> int option \<Rightarrow> int option \<Rightarrow> string option \<Rightarrow> string list option" where
  "mode_commands mode access native allowed =
     (let normalized = lower (strip mode) in
      if normalized = ''access'' then
        Some (''switchport mode access'' # (case access of None \<Rightarrow> [] | Some v \<Rightarrow> [''switchport access vlan '' @ show_int v]))
      else if normalized = ''trunk'' then
        Some (''switchport mode trunk'' # (case native of None \<Rightarrow> [] | Some v \<Rightarrow> [''switchport trunk native vlan '' @ show_int v])
              @ (case truthy allowed of None \<Rightarrow> [] | Some a \<Rightarrow> [''switchport trunk allowed vlan '' @ a]))
      else None)"

fun cisco_write :: "device option \<Rightarrow> string \<Rightarrow> port_write \<Rightarrow> wire \<Rightarrow> wire \<times> write_error option" where
  "cisco_write conn port (Set_admin_state st) w =
     exec_config conn [into port, if st = ''up'' then ''no shutdown'' else ''shutdown''] w"
| "cisco_write conn port (Set_description d) w = exec_config conn [into port, ''description '' @ d] w"
| "cisco_write conn port (Set_vlan v) w =
     exec_config conn [into port, ''switchport mode access'', ''switchport access vlan '' @ show_int v] w"
| "cisco_write conn port (Set_mode mode access native allowed) w =
     (case mode_commands mode access native allowed of
        None \<Rightarrow> (w, Some Unsupported_mode)
      | Some cmds \<Rightarrow> exec_config conn (into port # cmds) w)"
| "cisco_write conn port (Set_poe action) w =
     (if action = ''on'' then exec_config conn [into port, ''power inline auto''] w
      else if action = ''off'' then exec_config conn [into port, ''power inline never''] w
      else (case conn of
              None \<Rightarrow> (w, Some Ssh_connection_failed)
            | Some dev \<Rightarrow>
                (let (tr, ok) = run_all dev (configure_cmds [port] ''power inline never'' @ [''end'']
                                             @ configure_cmds [port] ''power inline auto'' @ [''end'']) (wi_cli w)
                 in (w\<lparr>wi_cli := tr\<rparr>, if ok then None else Some Ssh_command_failed))))"

definition rw_community :: "provider_switch \<Rightarrow> write_error + string" where
  "rw_community sw = (case truthy (pw_community_rw sw) of None \<Rightarrow> Inl No_write_community | Some c \<Rightarrow> Inr c)"

definition resolve_if_index :: "(int \<Rightarrow> rat) \<Rightarrow> snmp_agent \<Rightarrow> provider_switch \<Rightarrow> string \<Rightarrow> write_error + int" where
  "resolve_if_index watts ag sw port =
     (case snmp_get_ports watts ag sw of
        Inl e \<Rightarrow> Inl (Snmp_read_failed e)
      | Inr ports \<Rightarrow>
          (case find (\<lambda>p. lower (strip (po_port p)) = lower (strip port)) ports of
             Some p \<Rightarrow> Inr (po_if_index p)
           | None \<Rightarrow> (case py_int port of Some i \<Rightarrow> Inr i | None \<Rightarrow> Inl (Port_not_found port))))"

definition snmp_set :: "snmp_agent \<Rightarrow> string \<Rightarrow> string \<times> snmp_value \<Rightarrow> wire \<Rightarrow> wire \<times> write_error option" where
  "snmp_set ag community req w =
     (w\<lparr>wi_sets := wi_sets w @ [req]\<rparr>, if ag_set ag (wi_sets w) community req then None else Some (Snmp_set_failed (fst req)))"

definition oid_at :: "string \<Rightarrow> int \<Rightarrow> string" where
  "oid_at oid idx = oid @ ''.'' @ show_int idx"

fun snmp_requests :: "int \<Rightarrow> port_write \<Rightarrow> (string \<times> snmp_value) list" where
  "snmp_requests idx (Set_admin_state st) = [(oid_at OID_IF_ADMIN idx, Snmp_int (if st = ''up'' then 1 else 2))]"
| "snmp_requests idx (Set_description d) = [(oid_at OID_IF_ALIAS idx, Snmp_octets d)]"
| "snmp_requests idx (Set_vlan v) = [(oid_at OID_DOT1Q_PVID idx, Snmp_int v)]"
| "snmp_requests idx (Set_mode m a n l) = []"
| "snmp_requests idx (Set_poe action) =
     (if action = ''on'' then [(oid_at OID_POE_ADMIN idx, Snmp_int 1)]
      else if action = ''off'' then [(oid_at OID_POE_ADMIN idx, Snmp_int 2)]
      else [(oid_at OID_POE_ADMIN idx, Snmp_int 2), (oid_at OID_POE_ADMIN idx, Snmp_int 1)])"

fun snmp_sets :: "snmp_agent \<Rightarrow> string \<Rightarrow> (string \<times> snmp_value) list \<Rightarrow> wire \<Rightarrow> wire \<times> write_error option" where
  "snmp_sets ag community [] w = (w, None)"
| "snmp_sets ag community (r # rs) w =
     (case snmp_set ag community r w of (w', Some e) \<Rightarrow> (w', Some e) | (w', None) \<Rightarrow> snmp_sets ag community rs w')"

text \<open>The index is resolved before the write community is looked at.\<close>

definition snmp_write ::
    "(int \<Rightarrow> rat) \<Rightarrow> snmp_agent \<Rightarrow> provider_switch \<Rightarrow> string \<Rightarrow> port_write \<Rightarrow> wire \<Rightarrow> wire \<times> write_error option" where
  "snmp_write watts ag sw port wr w =
     (case wr of
        Set_mode _ _ _ _ \<Rightarrow> (w, Some Mode_needs_cli)
      | _ \<Rightarrow>
          (case resolve_if_index watts ag sw port of
             Inl e \<Rightarrow> (w, Some e)
           | Inr idx \<Rightarrow> (case rw_community sw of Inl e \<Rightarrow> (w, Some e) | Inr c \<Rightarrow> snmp_sets ag c (snmp_requests idx wr) w)))"

definition provider_write ::
    "(int \<Rightarrow> rat) \<Rightarrow> snmp_agent \<Rightarrow> device option \<Rightarrow> provider_switch \<Rightarrow> string \<Rightarrow> port_write \<Rightarrow> wire \<Rightarrow> wire \<times> write_error option" where
  "provider_write watts ag conn sw port wr w =
     (case resolve_switch_provider sw of
        Cisco_provider \<Rightarrow> cisco_write conn port wr w
      | _ \<Rightarrow> snmp_write watts ag sw port wr w)"

definition provider_get_ports ::
    "(int \<Rightarrow> rat) \<Rightarrow> snmp_agent \<Rightarrow> device option \<Rightarrow> device option \<Rightarrow> provider_switch \<Rightarrow> string + port_state list" where
  "provider_get_ports watts ag conn conn2 sw =
     (case resolve_switch_provider sw of
        Cisco_provider \<Rightarrow> cisco_get_ports watts ag conn conn2 sw
      | _ \<Rightarrow> snmp_get_ports watts ag sw)"

definition provider_poll :: "snmp_agent \<Rightarrow> string option + device \<Rightarrow> (string \<Rightarrow> bool) \<Rightarrow> provider_switch \<Rightarrow> switch_poll_info" where
  "provider_poll ag conn https sw =
     (case resolve_switch_provider sw of
        Cisco_provider \<Rightarrow> cisco_poll_switch ag conn sw
      | Dlink_provider \<Rightarrow> dlink_poll_switch ag https sw
      | Generic_provider \<Rightarrow> snmp_poll_switch ag sw)"

subsection \<open>Snapshots of the configuration (port_snapshot.py)\<close>

record port_config =
  pc_port :: string
  pc_description :: "string option"
  pc_admin :: "string option"
  pc_mode :: "string option"
  pc_access_vlan :: "int option"
  pc_native_vlan :: "int option"
  pc_allowed_vlans :: "string option"
  pc_poe_enabled :: "bool option"

record port_snapshot =
  sn_switch :: uid
  sn_at :: instant
  sn_hash :: string
  sn_ports :: "port_config list"

definition config_of :: "port_state \<Rightarrow> port_config" where
  "config_of p = \<lparr>pc_port = po_port p, pc_description = po_description p, pc_admin = po_admin p, pc_mode = po_mode p,
     pc_access_vlan = po_access_vlan p, pc_native_vlan = po_native_vlan p, pc_allowed_vlans = po_allowed_vlans p,
     pc_poe_enabled = po_poe_enabled p\<rparr>"

definition serialize_ports :: "port_state list \<Rightarrow> port_config list" where
  "serialize_ports ports = map config_of (sort_key po_port ports)"

text \<open>The latest row by \<open>captured_at\<close>; \<open>digest\<close> is SHA-256 over the JSON text.\<close>

definition last_snapshot :: "uid \<Rightarrow> port_snapshot list \<Rightarrow> port_snapshot option" where
  "last_snapshot switch rows =
     fold (\<lambda>r best. if sn_switch r \<noteq> switch then best
                   else case best of None \<Rightarrow> Some r | Some b \<Rightarrow> if sn_at b < sn_at r then Some r else best) rows None"

definition capture_switch_port_snapshot ::
    "(port_config list \<Rightarrow> string) \<Rightarrow> instant \<Rightarrow> uid \<Rightarrow> string + port_state list \<Rightarrow> port_snapshot list
     \<Rightarrow> port_snapshot list \<times> port_snapshot option" where
  "capture_switch_port_snapshot digest now switch got rows =
     (case got of
        Inl _ \<Rightarrow> (rows, None)
      | Inr ports \<Rightarrow>
          (let serialized = serialize_ports ports; new_hash = digest serialized in
           case last_snapshot switch rows of
             Some latest \<Rightarrow> if sn_hash latest = new_hash then (rows, None)
                         else (let s = \<lparr>sn_switch = switch, sn_at = now, sn_hash = new_hash, sn_ports = serialized\<rparr> in (rows @ [s], Some s))
           | None \<Rightarrow> (let s = \<lparr>sn_switch = switch, sn_at = now, sn_hash = new_hash, sn_ports = serialized\<rparr> in (rows @ [s], Some s))))"

subsection \<open>What the reads keep\<close>

lemma with_status_keeps: "po_port (with_status rows p) = po_port p \<and> po_if_index (with_status rows p) = po_if_index p
    \<and> po_admin (with_status rows p) = po_admin p \<and> po_poe_enabled (with_status rows p) = po_poe_enabled p
    \<and> po_speed_mbps (with_status rows p) = po_speed_mbps p"
  by (cases "map_of rows (normalize_port (po_port p))") (simp_all add: with_status_def Let_def)

lemma fill_vlan_keeps: "po_port (fill_vlan p) = po_port p \<and> po_if_index (fill_vlan p) = po_if_index p
    \<and> po_admin (fill_vlan p) = po_admin p \<and> po_poe_enabled (fill_vlan p) = po_poe_enabled p \<and> po_speed_mbps (fill_vlan p) = po_speed_mbps p"
  by (simp add: fill_vlan_def Let_def)

lemma with_switchport_keeps: "po_port (with_switchport d p) = po_port p \<and> po_if_index (with_switchport d p) = po_if_index p
    \<and> po_admin (with_switchport d p) = po_admin p \<and> po_poe_enabled (with_switchport d p) = po_poe_enabled p
    \<and> po_speed_mbps (with_switchport d p) = po_speed_mbps p"
  by (cases "map_of d (normalize_port (po_port p))") (simp_all add: with_switchport_def Let_def fill_vlan_keeps)

text \<open>When SNMP lists ports, the Cisco provider answers with exactly those ports, in order of their index and with the
  administrative state, PoE flag and speed SNMP gave; the command line only adds to them.\<close>

theorem command_line_only_enriches:
  "case snmp_get_ports watts ag sw of
     Inr ports \<Rightarrow>
       if ports = [] then True
       else (case cisco_get_ports watts ag conn conn2 sw of
          Inl _ \<Rightarrow> True
        | Inr rows \<Rightarrow> sorted (map po_if_index rows)
            \<and> map (\<lambda>p. (po_port p, po_if_index p, po_admin p, po_poe_enabled p, po_speed_mbps p)) rows
              = map (\<lambda>p. (po_port p, po_if_index p, po_admin p, po_poe_enabled p, po_speed_mbps p)) ports)
   | Inl e \<Rightarrow> cisco_get_ports watts ag conn conn2 sw = Inl e"
proof (cases "snmp_get_ports watts ag sw")
  case (Inr ports)
  have sorted: "sorted (map po_if_index ports)"
    using Inr by (auto simp: snmp_get_ports_def Let_def split: option.splits list.splits)
  show ?thesis
  proof (cases "status_and_switchport_maps conn")
    case maps: (Inr m)
    obtain status details where m: "m = (status, details)" by (cases m)
    have idx: "map po_if_index (map (with_switchport details \<circ> with_status status) ports) = map po_if_index ports"
      by (simp add: with_switchport_keeps with_status_keeps)
    have "cisco_get_ports watts ag conn conn2 sw = Inr (map (with_switchport details \<circ> with_status status) ports)" if "ports \<noteq> []"
      using that Inr maps m by (simp add: cisco_get_ports_def)
    moreover have "sorted (map po_if_index (map (with_switchport details \<circ> with_status status) ports))"
      unfolding idx by (rule sorted)
    ultimately show ?thesis using Inr by (simp add: with_switchport_keeps with_status_keeps)
  qed (simp add: cisco_get_ports_def Inr)
qed (simp add: cisco_get_ports_def)

subsection \<open>The history of a switch's configuration\<close>

definition snapshots_of :: "uid \<Rightarrow> port_snapshot list \<Rightarrow> port_snapshot list" where
  "snapshots_of switch rows = filter (\<lambda>r. sn_switch r = switch) rows"

definition history_ok :: "port_snapshot list \<Rightarrow> bool" where
  "history_ok rows \<longleftrightarrow> (\<forall>switch. sorted_wrt (<) (map sn_at (snapshots_of switch rows)) \<and> distinct_adj (map sn_hash (snapshots_of switch rows)))"

lemma last_snapshot_snoc:
  assumes "sorted_wrt (<) (map sn_at (snapshots_of switch rows))"
  shows "last_snapshot switch rows = (if snapshots_of switch rows = [] then None else Some (last (snapshots_of switch rows)))"
  using assms
proof (induction rows rule: rev_induct)
  case (snoc r rows)
  show ?case
  proof (cases "sn_switch r = switch")
    case True
    with snoc have IH: "last_snapshot switch rows = (if snapshots_of switch rows = [] then None else Some (last (snapshots_of switch rows)))"
      and later: "\<And>b. b \<in> set (snapshots_of switch rows) \<Longrightarrow> sn_at b < sn_at r"
      by (auto simp: snapshots_of_def sorted_wrt_append)
    show ?thesis
    proof (cases "snapshots_of switch rows = []")
      case True
      with IH \<open>sn_switch r = switch\<close> show ?thesis by (simp add: last_snapshot_def snapshots_of_def)
    next
      case False
      with later have "sn_at (last (snapshots_of switch rows)) < sn_at r" by simp
      with False IH \<open>sn_switch r = switch\<close> show ?thesis by (simp add: last_snapshot_def snapshots_of_def)
    qed
  next
    case False
    with snoc show ?thesis by (simp add: last_snapshot_def snapshots_of_def)
  qed
qed (simp add: last_snapshot_def snapshots_of_def)

text \<open>C21: The stored history of every switch is in time order and two consecutive snapshots always differ: capturing, with a
  clock that moves forward, keeps it so.\<close>

theorem snapshots_record_changes_only:
  assumes "history_ok rows" and "list_all (\<lambda>r. sn_at r < now) rows"
  shows "history_ok (fst (capture_switch_port_snapshot digest now switch got rows))"
proof (cases got)
  case (Inr ports)
  define s where "s = \<lparr>sn_switch = switch, sn_at = now, sn_hash = digest (serialize_ports ports), sn_ports = serialize_ports ports\<rparr>"
  have later: "b \<in> set (snapshots_of sw rows) \<Longrightarrow> sn_at b < now" for b sw
    using assms(2) by (auto simp: snapshots_of_def list_all_iff)
  have last: "last_snapshot switch rows = (if snapshots_of switch rows = [] then None else Some (last (snapshots_of switch rows)))"
    using assms(1) by (intro last_snapshot_snoc) (simp add: history_ok_def)
  have res: "fst (capture_switch_port_snapshot digest now switch got rows) =
     (if snapshots_of switch rows \<noteq> [] \<and> sn_hash (last (snapshots_of switch rows)) = digest (serialize_ports ports) then rows else rows @ [s])"
    by (simp add: capture_switch_port_snapshot_def Inr last s_def Let_def)
  have of_snoc: "snapshots_of sw (rows @ [s]) = snapshots_of sw rows @ (if sw = switch then [s] else [])" for sw
    by (simp add: snapshots_of_def s_def)
  have at: "sn_at s = now" by (simp add: s_def)
  have "history_ok (rows @ [s])" if new: "snapshots_of switch rows \<noteq> [] \<Longrightarrow> sn_hash (last (snapshots_of switch rows)) \<noteq> sn_hash s"
    unfolding history_ok_def
  proof (intro allI)
    fix sw
    show "sorted_wrt (<) (map sn_at (snapshots_of sw (rows @ [s]))) \<and> distinct_adj (map sn_hash (snapshots_of sw (rows @ [s])))"
      using assms(1) later [of _ sw] new
      by (cases "snapshots_of sw rows = []")
        (auto simp: history_ok_def of_snoc sorted_wrt_append at last_map distinct_adj_append_iff)
  qed
  moreover have "sn_hash s = digest (serialize_ports ports)" by (simp add: s_def)
  ultimately show ?thesis using assms(1) unfolding res by auto
qed (use assms in \<open>simp add: capture_switch_port_snapshot_def\<close>)

theorem snapshots_record_changes_only_witness:
  "history_ok (fst (capture_switch_port_snapshot (\<lambda>_. ''h2'') 7 ''sw3'' (Inr [])
     [\<lparr>sn_switch = ''sw3'', sn_at = 5, sn_hash = ''h1'', sn_ports = []\<rparr>]))"
  by (rule snapshots_record_changes_only) (simp_all add: history_ok_def snapshots_of_def)

text \<open>A switch that answers neither SNMP nor SSH has an empty port list, not an error: its next snapshot is stored as a
  change to a configuration without ports.\<close>

theorem silent_switch_snapshots_as_empty:
  assumes "\<And>host community oid. ag_walk ag host community oid = Inr [(True, [])]" "sn_hash s \<noteq> digest []" "sn_switch s = switch"
  shows "capture_switch_port_snapshot digest now switch (cisco_get_ports watts ag None None sw) [s]
       = ([s, \<lparr>sn_switch = switch, sn_at = now, sn_hash = digest [], sn_ports = []\<rparr>],
          Some \<lparr>sn_switch = switch, sn_at = now, sn_hash = digest [], sn_ports = []\<rparr>)"
proof -
  have walk: "snmp_walk ag sw oid = Inr []" for oid by (simp add: snmp_walk_def assms(1))
  have "snmp_get_ports watts ag sw = Inr []" by (simp add: snmp_get_ports_def walk List.map_filter_simps)
  then have "cisco_get_ports watts ag None None sw = Inr []"
    by (simp add: cisco_get_ports_def status_and_switchport_maps_def get_ports_via_ssh_def)
  then show ?thesis using assms(2,3) by (simp add: capture_switch_port_snapshot_def serialize_ports_def last_snapshot_def Let_def)
qed

definition silent_agent :: snmp_agent where
  "silent_agent = \<lparr>ag_get = (\<lambda>_ _ _. Inr None), ag_walk = (\<lambda>_ _ _. Inr [(True, [])]), ag_set = (\<lambda>_ _ _. False)\<rparr>"

definition witness_switch :: provider_switch where
  "witness_switch = \<lparr>ns_id = ''sw3'', ns_name = [], ns_ip = ''10.0.0.2'', ns_is_online = None, ns_reachability_reason = None, ns_hostname = None,
     ns_model_info = None, ns_ios_version = None, ns_uptime = None, ns_mac_address = None, ns_mac_status = None,
     ns_last_polled_at = None, pw_vendor = Some ''cisco'', pw_community_ro = ''public'', pw_community_rw = None\<rparr>"

theorem silent_switch_snapshots_as_empty_witness:
  "snd (capture_switch_port_snapshot (\<lambda>ps. if ps = [] then ''e'' else ''f'') 9 ''sw3'' (cisco_get_ports (\<lambda>n. of_int n / 1000) silent_agent None None witness_switch)
     [\<lparr>sn_switch = ''sw3'', sn_at = 5, sn_hash = ''f'', sn_ports = []\<rparr>]) \<noteq> None"
  by (subst silent_switch_snapshots_as_empty) (simp_all add: silent_agent_def)

subsection \<open>A write reaches one port\<close>

text \<open>The lines the switch reads: a line break inside a command ends it there.\<close>

definition cli_lines :: "transcript \<Rightarrow> string list" where
  "cli_lines tr = concat (map (\<lambda>(cmd, _). split_on CHR 0x0A cmd) tr)"

fun free_text :: "port_write \<Rightarrow> string" where
  "free_text (Set_description d) = d"
| "free_text (Set_mode m a n l) = (case l of None \<Rightarrow> [] | Some v \<Rightarrow> v)"
| "free_text _ = []"

definition one_line :: "string \<Rightarrow> bool" where "one_line s \<longleftrightarrow> CHR 0x0A \<notin> set s"

lemma run_all_new: "\<exists>k as. fst (run_all dev cmds tr) = tr @ zip (take k cmds) as \<and> length as = length (take k cmds)"
proof (induction cmds arbitrary: tr)
  case Nil
  then show ?case by (intro exI [of _ 0] exI [of _ "[]"]) simp
next
  case (Cons c cs)
  show ?case
  proof (cases "dev (map fst tr) c")
    case None
    then show ?thesis by (intro exI [of _ 1] exI [of _ "[False]"]) (simp add: execute_def Let_def)
  next
    case (Some out)
    obtain k as where "fst (run_all dev cs (tr @ [(c, True)])) = (tr @ [(c, True)]) @ zip (take k cs) as" "length as = length (take k cs)"
      using Cons.IH by blast
    with Some show ?thesis by (intro exI [of _ "Suc k"] exI [of _ "True # as"]) (simp add: execute_def Let_def)
  qed
qed

lemma run_all_lines:
  assumes "list_all one_line cmds" "list_all P (cli_lines tr)" "list_all P cmds"
  shows "list_all P (cli_lines (fst (run_all dev cmds tr)))"
proof -
  obtain k as where new: "fst (run_all dev cmds tr) = tr @ zip (take k cmds) as" using run_all_new by blast
  have "list_all P (cli_lines (zip (take k cmds) as))"
    using assms(1,3) by (auto simp: cli_lines_def list_all_iff one_line_def split_on_no_sep dest!: set_zip_leftD in_set_takeD)
  with assms(2) show ?thesis by (simp add: new cli_lines_def)
qed

end
