(* ===== verification/Http.thy ===== *)
theory Http
  imports Prelude
begin

section \<open>What the routes have in common\<close>

text \<open>
  The answers of the HTTP routes: an \<open>HTTPException\<close> is its status code, an exception no route catches is the
  500 the framework answers for it.
\<close>

datatype http_error = Http nat

end
