(* ===== verification/Switch_Locks.thy ===== *)
theory Switch_Locks
  imports Switch_Ports Worker_Lease Http
begin

section \<open>The safety lock around switch writes (app/core/redis_lock.py, app/api/routes/switches/_shared.py)\<close>

text \<open>
  A request that touches a switch's hardware holds a Redis key of the switch, which a task of the API process renews until
  the request releases it, and passes a cooldown per port and operation. The server is that of theory Worker_Lease; every
  call has a fate (\<open>link\<close>): answered, or failed before or after the server ran it. EXPIRE on a key whose value
  has just been read is the SET of that value. \<open>st\<close> is what outlives a request.
\<close>

subsection \<open>The lock\<close>

definition acquire_redis_lock :: "'r script_ops \<Rightarrow> string \<Rightarrow> int \<Rightarrow> string \<Rightarrow> 'r \<Rightarrow> bool \<times> 'r" where
  "acquire_redis_lock ops key ttl owner r = s_set_nx ops r key owner (max ttl 1)"

definition release_redis_lock :: "'r script_ops \<Rightarrow> string \<Rightarrow> string \<Rightarrow> 'r \<Rightarrow> 'r" where
  "release_redis_lock ops key owner r = (if s_get ops r key = Some owner then s_del ops r key else r)"

definition renew_redis_lock :: "'r script_ops \<Rightarrow> string \<Rightarrow> string \<Rightarrow> int \<Rightarrow> 'r \<Rightarrow> bool \<times> 'r" where
  "renew_redis_lock ops key owner ttl r =
     (if s_get ops r key = Some owner then (True, s_set ops r key owner (max ttl 1)) else (False, r))"

record switch_lease =
  sl_key :: string
  sl_owner :: string
  sl_ttl :: int

record 'r api_state =
  as_redis :: 'r
  as_local :: "string \<rightharpoonup> instant"
  as_renewals :: "switch_lease list"

record write_settings =
  SWITCH_WRITE_LOCK_SECONDS :: int
  SWITCH_SAFETY_COOLDOWN_SECONDS :: int

definition default_write_settings :: write_settings where
  "default_write_settings = \<lparr>SWITCH_WRITE_LOCK_SECONDS = 300, SWITCH_SAFETY_COOLDOWN_SECONDS = 8\<rparr>"

definition write_lock_key :: "uid \<Rightarrow> string" where
  "write_lock_key switch_id = ''lock:switch-write:'' @ switch_id"

definition acquire_switch_write_lock ::
    "'r script_ops \<Rightarrow> write_settings \<Rightarrow> uid \<Rightarrow> string \<Rightarrow> link \<Rightarrow> 'r api_state \<Rightarrow> (http_error + switch_lease) \<times> 'r api_state" where
  "acquire_switch_write_lock ops cfg switch_id owner link st =
     (let key = write_lock_key switch_id; ttl = max (SWITCH_WRITE_LOCK_SECONDS cfg) 300;
          (got, r') = acquire_redis_lock ops key ttl owner (as_redis st);
          lease = \<lparr>sl_key = key, sl_owner = owner, sl_ttl = ttl\<rparr>
      in case link of
           Lost_request \<Rightarrow> (Inl (Http 503), st)
         | Lost_answer \<Rightarrow> (Inl (Http 503), st\<lparr>as_redis := r'\<rparr>)
         | Answered \<Rightarrow>
             if got then (Inr lease, st\<lparr>as_redis := r', as_renewals := as_renewals st @ [lease]\<rparr>)
             else (Inl (Http 409), st\<lparr>as_redis := r'\<rparr>))"

definition release_switch_write_lock :: "'r script_ops \<Rightarrow> switch_lease \<Rightarrow> link \<Rightarrow> 'r api_state \<Rightarrow> 'r api_state" where
  "release_switch_write_lock ops lease link st =
     st\<lparr>as_renewals := remove1 lease (as_renewals st),
        as_redis := (if link = Lost_request then as_redis st
                     else release_redis_lock ops (sl_key lease) (sl_owner lease) (as_redis st))\<rparr>"

text \<open>One round of a lease's renewal task: it ends when the lease is no longer its owner's.\<close>

definition renew_switch_write_lease :: "'r script_ops \<Rightarrow> switch_lease \<Rightarrow> link \<Rightarrow> 'r api_state \<Rightarrow> 'r api_state" where
  "renew_switch_write_lease ops lease link st =
     (if lease \<notin> set (as_renewals st) then st
      else (let (renewed, r') = renew_redis_lock ops (sl_key lease) (sl_owner lease) (sl_ttl lease) (as_redis st)
            in case link of
                 Lost_request \<Rightarrow> st
               | Lost_answer \<Rightarrow> st\<lparr>as_redis := r'\<rparr>
               | Answered \<Rightarrow> if renewed then st\<lparr>as_redis := r'\<rparr>
                             else st\<lparr>as_redis := r', as_renewals := remove1 lease (as_renewals st)\<rparr>))"

subsection \<open>The cooldown\<close>

definition cooldown_key :: "uid \<Rightarrow> string \<Rightarrow> string \<Rightarrow> string" where
  "cooldown_key switch_id operation port = ''cooldown:switch-write:'' @ switch_id @ '':'' @ operation @ '':'' @ port"

text \<open>Without Redis the process keeps the cooldowns itself, by its monotonic clock \<open>now\<close>.\<close>

definition enforce_switch_cooldown ::
    "'r script_ops \<Rightarrow> write_settings \<Rightarrow> instant \<Rightarrow> uid \<Rightarrow> string \<Rightarrow> string \<Rightarrow> link \<Rightarrow> 'r api_state \<Rightarrow> http_error option \<times> 'r api_state" where
  "enforce_switch_cooldown ops cfg now switch_id port operation link st =
     (let cooldown = max (SWITCH_SAFETY_COOLDOWN_SECONDS cfg) 0; key = cooldown_key switch_id operation port in
      if cooldown = 0 then (None, st)
      else (let (ok, r') = s_set_nx ops (as_redis st) key ''1'' cooldown in
            case link of
              Answered \<Rightarrow> (if ok then None else Some (Http 429), st\<lparr>as_redis := r'\<rparr>)
            | _ \<Rightarrow>
                (let st1 = (if link = Lost_answer then st\<lparr>as_redis := r'\<rparr> else st) in
                 case as_local st key of
                   Some until \<Rightarrow> if until \<noteq> 0 \<and> now < until then (Some (Http 429), st1)
                                 else (None, st1\<lparr>as_local := (as_local st)(key \<mapsto> now + cooldown)\<rparr>)
                 | None \<Rightarrow> (None, st1\<lparr>as_local := (as_local st)(key \<mapsto> now + cooldown)\<rparr>))))"

subsection \<open>A guarded write\<close>

record link_fates =
  lk_acquire :: link
  lk_cooldown :: link
  lk_release :: link

text \<open>
  What the writing routes do around their body: take the lock, pass the cooldown (before the \<open>try\<close>, so its refusal
  leaves without the release), run, release. The cleanup of DHCP passes the cooldown inside the \<open>try\<close> instead.
\<close>

definition with_switch_lock ::
    "'r script_ops \<Rightarrow> write_settings \<Rightarrow> instant \<Rightarrow> string \<Rightarrow> link_fates \<Rightarrow> uid \<Rightarrow> string \<Rightarrow> string \<Rightarrow> bool \<Rightarrow> ('w \<Rightarrow> (http_error + 'a) \<times> 'w)
     \<Rightarrow> 'r api_state \<Rightarrow> 'w \<Rightarrow> (http_error + 'a) \<times> 'r api_state \<times> 'w" where
  "with_switch_lock ops cfg now owner lk switch_id port operation cooled body st w =
     (case acquire_switch_write_lock ops cfg switch_id owner (lk_acquire lk) st of
        (Inl e, st1) \<Rightarrow> (Inl e, st1, w)
      | (Inr lease, st1) \<Rightarrow>
          (case if cooled then enforce_switch_cooldown ops cfg now switch_id port operation (lk_cooldown lk) st1 else (None, st1) of
             (Some e, st2) \<Rightarrow> (Inl e, st2, w)
           | (None, st2) \<Rightarrow> (let (res, w') = body w in (res, release_switch_write_lock ops lease (lk_release lk) st2, w'))))"

definition with_switch_lock_released ::
    "'r script_ops \<Rightarrow> write_settings \<Rightarrow> instant \<Rightarrow> string \<Rightarrow> link_fates \<Rightarrow> uid \<Rightarrow> string \<Rightarrow> string \<Rightarrow> ('w \<Rightarrow> (http_error + 'a) \<times> 'w)
     \<Rightarrow> 'r api_state \<Rightarrow> 'w \<Rightarrow> (http_error + 'a) \<times> 'r api_state \<times> 'w" where
  "with_switch_lock_released ops cfg now owner lk switch_id port operation body st w =
     (case acquire_switch_write_lock ops cfg switch_id owner (lk_acquire lk) st of
        (Inl e, st1) \<Rightarrow> (Inl e, st1, w)
      | (Inr lease, st1) \<Rightarrow>
          (let (res, st2, w') = (case enforce_switch_cooldown ops cfg now switch_id port operation (lk_cooldown lk) st1 of
                 (Some e, st2) \<Rightarrow> (Inl e, st2, w)
               | (None, st2) \<Rightarrow> (let (res, w') = body w in (res, st2, w')))
           in (res, release_switch_write_lock ops lease (lk_release lk) st2, w')))"

subsection \<open>Port names\<close>

definition safe_port_re :: re where
  "safe_port_re = seqs [Bol, alts (map ilit [''Gi'', ''GigabitEthernet'', ''Fa'', ''FastEthernet'', ''Te'', ''TenGigabitEthernet'',
       ''Twe'', ''TwentyFiveGigE'', ''Po'', ''Port-channel'']), plus dig,
     (let part = Seq (lit ''/'') (plus dig) in optional (Seq part (optional (Seq part (optional part))))), Eol]"

definition validate_switch_port :: "string \<Rightarrow> http_error + string" where
  "validate_switch_port port =
     (let v = strip port in
      if v = [] \<or> 64 < length v then Inl (Http 422)
      else if re_match safe_port_re v = None then Inl (Http 422) else Inr v)"

subsection \<open>Writing a port over the API (ports.py, schemas/switches.py)\<close>

definition one_of_words :: "string list \<Rightarrow> string \<Rightarrow> string option" where
  "one_of_words ws v = (let n = lower (strip v) in if n \<in> set ws then Some n else None)"

definition vlan_ok :: "int \<Rightarrow> bool" where "vlan_ok v \<longleftrightarrow> 1 \<le> v \<and> v \<le> 4094"

definition vlan_list_re :: re where
  "vlan_list_re = seqs [Bol, plus (Cls (\<lambda>c. is_digit c \<or> c = CHR '','' \<or> c = CHR ''-'' \<or> is_space c)), Eol]"

text \<open>The outer option: the validator raises.\<close>

definition validate_allowed_vlans :: "string option \<Rightarrow> string option option" where
  "validate_allowed_vlans v =
     (case v of
        None \<Rightarrow> Some None
      | Some s \<Rightarrow> (let value = strip s in
          if value = [] then Some None else if 255 < length value then None
          else if re_match vlan_list_re value = None then None else Some (Some value)))"

definition vlan_field_ok :: "int option \<Rightarrow> bool" where
  "vlan_field_ok v \<longleftrightarrow> (case v of None \<Rightarrow> True | Some n \<Rightarrow> vlan_ok n)"

fun validate_port_write :: "port_write \<Rightarrow> port_write option" where
  "validate_port_write (Set_admin_state s) = map_option Set_admin_state (one_of_words [''up'', ''down''] s)"
| "validate_port_write (Set_description d) = (if 255 < length (strip d) then None else Some (Set_description (strip d)))"
| "validate_port_write (Set_vlan v) = (if vlan_ok v then Some (Set_vlan v) else None)"
| "validate_port_write (Set_poe a) = map_option Set_poe (one_of_words [''on'', ''off'', ''cycle''] a)"
| "validate_port_write (Set_mode m a n l) =
     (case (one_of_words [''access'', ''trunk''] m, validate_allowed_vlans l) of
        (Some m', Some l') \<Rightarrow> if vlan_field_ok a \<and> vlan_field_ok n then Some (Set_mode m' a n l') else None
      | _ \<Rightarrow> None)"

fun operation_of :: "port_write \<Rightarrow> string" where
  "operation_of (Set_admin_state s) = ''admin_state''"
| "operation_of (Set_description d) = ''description''"
| "operation_of (Set_vlan v) = ''vlan''"
| "operation_of (Set_mode m a n l) = ''mode''"
| "operation_of (Set_poe a) = ''poe''"

record request_user =
  ru_email :: string
  ru_superuser :: bool

definition run_port_write ::
    "'r script_ops \<Rightarrow> write_settings \<Rightarrow> instant \<Rightarrow> string \<Rightarrow> link_fates \<Rightarrow> uid \<Rightarrow> provider_switch option \<Rightarrow> request_user \<Rightarrow> string \<Rightarrow> string
     \<Rightarrow> (provider_switch \<Rightarrow> string \<Rightarrow> 'w \<Rightarrow> 'w \<times> write_error option) \<Rightarrow> 'r api_state \<Rightarrow> 'w \<Rightarrow> (http_error + unit) \<times> 'r api_state \<times> 'w" where
  "run_port_write ops cfg now owner lk switch_id row user operation port callback st w =
     (if \<not> ru_superuser user then (Inl (Http 403), st, w)
      else case validate_switch_port port of
        Inl e \<Rightarrow> (Inl e, st, w)
      | Inr safe_port \<Rightarrow>
          (case row of
             None \<Rightarrow> (Inl (Http 404), st, w)
           | Some sw \<Rightarrow>
               with_switch_lock ops cfg now owner lk switch_id safe_port operation
                 (operation \<in> {''admin_state'', ''vlan'', ''poe'', ''mode''})
                 (\<lambda>w. case callback sw safe_port w of (w', None) \<Rightarrow> (Inr (), w') | (w', Some e) \<Rightarrow> (Inl (Http 502), w')) st w))"

text \<open>The five POST routes: the body is validated, then the port, then the write runs.\<close>

definition set_port ::
    "'r script_ops \<Rightarrow> write_settings \<Rightarrow> instant \<Rightarrow> string \<Rightarrow> link_fates \<Rightarrow> (int \<Rightarrow> rat) \<Rightarrow> snmp_agent \<Rightarrow> device option
     \<Rightarrow> uid \<Rightarrow> provider_switch option \<Rightarrow> request_user \<Rightarrow> string \<Rightarrow> port_write \<Rightarrow> 'r api_state \<Rightarrow> wire \<Rightarrow> (http_error + unit) \<times> 'r api_state \<times> wire" where
  "set_port ops cfg now owner lk watts ag conn switch_id row user port body st w =
     (case validate_port_write body of
        None \<Rightarrow> (Inl (Http 422), st, w)
      | Some wr \<Rightarrow>
          (case validate_switch_port port of
             Inl e \<Rightarrow> (Inl e, st, w)
           | Inr safe_port \<Rightarrow>
               run_port_write ops cfg now owner lk switch_id row user (operation_of wr) safe_port
                 (\<lambda>sw p w. provider_write watts ag conn sw p wr w) st w))"


subsection \<open>Who may touch the switch\<close>

definition lock_holder :: "('r \<Rightarrow> stored) \<Rightarrow> ('r \<Rightarrow> instant) \<Rightarrow> 'r \<Rightarrow> uid \<Rightarrow> string option" where
  "lock_holder view clock r switch_id = live (view r) (clock r) (write_lock_key switch_id)"

lemma acquire_facts:
  assumes ok: "script_ok ops view clock" and acq: "acquire_switch_write_lock ops cfg switch_id owner link st = (res, st')"
  shows "clock (as_redis st') = clock (as_redis st)" and "as_local st' = as_local st"
    and "res = Inr lease \<Longrightarrow> lock_holder view clock (as_redis st) switch_id = None
        \<and> lease = \<lparr>sl_key = write_lock_key switch_id, sl_owner = owner, sl_ttl = max (SWITCH_WRITE_LOCK_SECONDS cfg) 300\<rparr>
        \<and> view (as_redis st') (write_lock_key switch_id) = Some (owner, clock (as_redis st) + max (SWITCH_WRITE_LOCK_SECONDS cfg) 300)
        \<and> as_renewals st' = as_renewals st @ [lease] \<and> link = Answered"
    and "res = Inl e \<Longrightarrow> as_renewals st' = as_renewals st \<and> (e = Http 409 \<or> e = Http 503)"
    and "link = Answered \<Longrightarrow> lock_holder view clock (as_redis st) switch_id \<noteq> None \<Longrightarrow> res = Inl (Http 409) \<and> view (as_redis st') = view (as_redis st)"
proof -
  have pos: "0 < max (max (SWITCH_WRITE_LOCK_SECONDS cfg) 300) 1" by simp
  have m: "max (max (SWITCH_WRITE_LOCK_SECONDS cfg) 300) 1 = max (SWITCH_WRITE_LOCK_SECONDS cfg) (300 :: int)" by simp
  note f = script_okD(5,6,7) [OF ok pos, of "as_redis st" "write_lock_key switch_id" owner]
  show "clock (as_redis st') = clock (as_redis st)" "as_local st' = as_local st"
    "res = Inr lease \<Longrightarrow> lock_holder view clock (as_redis st) switch_id = None
        \<and> lease = \<lparr>sl_key = write_lock_key switch_id, sl_owner = owner, sl_ttl = max (SWITCH_WRITE_LOCK_SECONDS cfg) 300\<rparr>
        \<and> view (as_redis st') (write_lock_key switch_id) = Some (owner, clock (as_redis st) + max (SWITCH_WRITE_LOCK_SECONDS cfg) 300)
        \<and> as_renewals st' = as_renewals st @ [lease] \<and> link = Answered"
    "res = Inl e \<Longrightarrow> as_renewals st' = as_renewals st \<and> (e = Http 409 \<or> e = Http 503)"
    "link = Answered \<Longrightarrow> lock_holder view clock (as_redis st) switch_id \<noteq> None \<Longrightarrow> res = Inl (Http 409) \<and> view (as_redis st') = view (as_redis st)"
    using acq f
    by (auto simp: acquire_switch_write_lock_def acquire_redis_lock_def lock_holder_def Let_def case_prod_unfold m
        split: link.splits if_splits)
qed

lemma key_kinds: "write_lock_key a \<noteq> cooldown_key b op port"
  by (simp add: write_lock_key_def cooldown_key_def)

lemma cooldown_facts:
  assumes ok: "script_ok ops view clock"
    and cool: "enforce_switch_cooldown ops cfg now switch_id port operation link st = (res, st')"
  shows "clock (as_redis st') = clock (as_redis st)" and "as_renewals st' = as_renewals st"
    and "view (as_redis st') (write_lock_key sid) = view (as_redis st) (write_lock_key sid)"
proof -
  define c where "c = max (SWITCH_SAFETY_COOLDOWN_SECONDS cfg) 0"
  let ?r = "snd (s_set_nx ops (as_redis st) (cooldown_key switch_id operation port) ''1'' c)"
  have other: "view ?r (write_lock_key sid) = view (as_redis st) (write_lock_key sid)" "clock ?r = clock (as_redis st)" if "c \<noteq> 0"
  proof -
    have "0 < c" using that unfolding c_def by (auto simp: max_def split: if_splits)
    note f = script_okD(6,7) [OF ok this, of "as_redis st" "cooldown_key switch_id operation port" "''1''"]
    show "view ?r (write_lock_key sid) = view (as_redis st) (write_lock_key sid)" "clock ?r = clock (as_redis st)"
      using key_kinds [of sid switch_id operation port] by (simp_all add: f)
  qed
  show "clock (as_redis st') = clock (as_redis st)" "as_renewals st' = as_renewals st"
    "view (as_redis st') (write_lock_key sid) = view (as_redis st) (write_lock_key sid)"
    using cool other unfolding enforce_switch_cooldown_def Let_def c_def [symmetric] case_prod_unfold
    by (cases link; auto split: if_splits option.splits)+
qed

lemma release_facts:
  assumes ok: "script_ok ops view clock" and rel: "st' = release_switch_write_lock ops lease link st"
  shows "clock (as_redis st') = clock (as_redis st)"
    and "link \<noteq> Lost_request \<Longrightarrow> live (view (as_redis st)) (clock (as_redis st)) (sl_key lease) = Some (sl_owner lease)
           \<Longrightarrow> view (as_redis st') (sl_key lease) = None"
    and "as_renewals st' = remove1 lease (as_renewals st)"
  using script_okD(2,8,9) [OF ok] by (auto simp: rel release_switch_write_lock_def release_redis_lock_def)

text \<open>C6: While one request holds a switch's lock no other request reaches its hardware: whatever happens to its calls to
  Redis it is refused with 409 or 503, the lock stays with its holder, and nothing is sent.\<close>

theorem held_lock_keeps_hardware_untouched:
  assumes "script_ok ops view clock" "lock_holder view clock (as_redis st) switch_id = Some other"
    "with_switch_lock ops cfg now owner lk switch_id port operation cooled body st w = (res, st', w')"
  shows "w' = w \<and> (res = Inl (Http 409) \<or> res = Inl (Http 503)) \<and> as_renewals st' = as_renewals st
         \<and> lock_holder view clock (as_redis st') switch_id = Some other"
proof -
  obtain r1 st1 where acq: "acquire_switch_write_lock ops cfg switch_id owner (lk_acquire lk) st = (r1, st1)" by fastforce
  note f = acquire_facts [OF assms(1) acq]
  from f(3) assms(2) obtain e where e: "r1 = Inl e" by (cases r1) auto
  from f(4) [OF e] assms(3) acq e have out: "w' = w" "res = Inl e" "st' = st1" "e = Http 409 \<or> e = Http 503" "as_renewals st1 = as_renewals st"
    by (auto simp: with_switch_lock_def)
  have pos: "0 < max (max (SWITCH_WRITE_LOCK_SECONDS cfg) 300) 1" by simp
  have "view (as_redis st1) = view (as_redis st)"
    using acq assms(2) script_okD(5,6) [OF assms(1) pos, of "as_redis st" "write_lock_key switch_id" owner]
    by (auto simp: acquire_switch_write_lock_def acquire_redis_lock_def lock_holder_def Let_def case_prod_unfold split: link.splits if_splits)
  with f(1) out assms(2) show ?thesis by (auto simp: lock_holder_def)
qed

text \<open>A guarded write that got past the cooldown, or never got the lock, leaves no lock behind when its release reaches
  Redis: the switch is free again and no renewal of it is left.\<close>

theorem finished_write_frees_the_switch:
  assumes "script_ok ops view clock"
    and "acquire_switch_write_lock ops cfg switch_id owner (lk_acquire lk) st = (Inr lease, st1)"
    and "cooled \<Longrightarrow> fst (enforce_switch_cooldown ops cfg now switch_id port operation (lk_cooldown lk) st1) = None"
    and "with_switch_lock ops cfg now owner lk switch_id port operation cooled body st w = (res, st', w')"
    and "lk_release lk = Answered" "list_all (\<lambda>l. sl_owner l \<noteq> owner) (as_renewals st)"
  shows "lock_holder view clock (as_redis st') switch_id = None \<and> as_renewals st' = as_renewals st \<and> (res, w') = body w"
proof -
  note f = acquire_facts(1,3) [OF assms(1,2)]
  note got = f(2) [OF refl]
  obtain r2 st2 where cool: "(if cooled then enforce_switch_cooldown ops cfg now switch_id port operation (lk_cooldown lk) st1 else (None, st1)) = (r2, st2)"
    by fastforce
  have passed: "r2 = None" using cool assms(3) by (auto split: if_splits)
  have same: "clock (as_redis st2) = clock (as_redis st1) \<and> as_renewals st2 = as_renewals st1
      \<and> view (as_redis st2) (write_lock_key switch_id) = view (as_redis st1) (write_lock_key switch_id)"
  proof (cases cooled)
    case True
    with cool have "enforce_switch_cooldown ops cfg now switch_id port operation (lk_cooldown lk) st1 = (r2, st2)" by simp
    from cooldown_facts [OF assms(1) this] show ?thesis by blast
  qed (use cool in simp)
  have out: "st' = release_switch_write_lock ops lease (lk_release lk) st2" "(res, w') = body w"
    using assms(4) unfolding with_switch_lock_def assms(2) sum.case prod.case cool passed option.case Let_def
    by (auto split: prod.splits)
  have "live (view (as_redis st2)) (clock (as_redis st2)) (sl_key lease) = Some (sl_owner lease)"
    using got same f(1) by (simp add: live_def)
  from release_facts(2) [OF assms(1) out(1) _ this] assms(5) got have "view (as_redis st') (write_lock_key switch_id) = None" by simp
  moreover have "as_renewals st' = as_renewals st"
  proof -
    have "lease \<notin> set (as_renewals st)" using got assms(6) by (auto simp: list_all_iff)
    then show ?thesis using release_facts(3) [OF assms(1) out(1)] same got by (simp add: remove1_append)
  qed
  ultimately show ?thesis using out(2) by (simp add: lock_holder_def live_def)
qed

subsection \<open>The refusal that keeps the lock\<close>

text \<open>The server as it goes on while the task of \<open>lease\<close> renews it before its time is up.\<close>

inductive kept_alive :: "'r script_ops \<Rightarrow> ('r \<Rightarrow> stored) \<Rightarrow> ('r \<Rightarrow> instant) \<Rightarrow> switch_lease \<Rightarrow> 'r api_state \<Rightarrow> 'r api_state \<Rightarrow> bool"
  for ops view clock lease where
  Now: "kept_alive ops view clock lease st st"
| Round: "kept_alive ops view clock lease st st1 \<Longrightarrow> passes view clock (as_redis st1) r \<Longrightarrow> clock r < clock (as_redis st1) + sl_ttl lease \<Longrightarrow>
     kept_alive ops view clock lease st (renew_switch_write_lease ops lease Answered (st1\<lparr>as_redis := r\<rparr>))"

definition stuck :: "('r \<Rightarrow> stored) \<Rightarrow> ('r \<Rightarrow> instant) \<Rightarrow> switch_lease \<Rightarrow> 'r api_state \<Rightarrow> bool" where
  "stuck view clock lease st \<longleftrightarrow> lease \<in> set (as_renewals st)
     \<and> view (as_redis st) (sl_key lease) = Some (sl_owner lease, clock (as_redis st) + sl_ttl lease)"

lemma stuck_round:
  assumes ok: "script_ok ops view clock" and pos: "0 < sl_ttl lease" and st: "stuck view clock lease st1"
    and r: "passes view clock (as_redis st1) r" "clock r < clock (as_redis st1) + sl_ttl lease"
  shows "stuck view clock lease (renew_switch_write_lease ops lease Answered (st1\<lparr>as_redis := r\<rparr>))"
proof -
  have keep: "view r (sl_key lease) = Some (sl_owner lease, clock (as_redis st1) + sl_ttl lease)"
    using st r(2) by (intro passes_keeps [OF r(1)]) (simp_all add: stuck_def)
  then have "s_get ops r (sl_key lease) = Some (sl_owner lease)" using r(2) by (simp add: script_okD(2) [OF ok] live_def)
  moreover have "max (sl_ttl lease) 1 = sl_ttl lease" using pos by simp
  ultimately show ?thesis
    using st script_okD(3,4) [OF ok pos, of r "sl_key lease" "sl_owner lease"]
    by (simp add: stuck_def renew_switch_write_lease_def renew_redis_lock_def)
qed

text \<open>C7: A write refused by the cooldown keeps the switch's lock and its renewal task: however long that task goes on, every
  later write of that switch that reaches Redis is refused with 409.\<close>

theorem throttled_write_locks_the_switch_out:
  assumes "script_ok ops view clock"
    and "acquire_switch_write_lock ops cfg switch_id owner (lk_acquire lk) st = (Inr lease, st1)"
    and "fst (enforce_switch_cooldown ops cfg now switch_id port operation (lk_cooldown lk) st1) = Some e"
    and "with_switch_lock ops cfg now owner lk switch_id port operation True body st w = (res, st', w')"
    and "kept_alive ops view clock lease st' st2"
  shows "res = Inl e \<and> fst (acquire_switch_write_lock ops cfg switch_id owner2 Answered st2) = Inl (Http 409)"
proof -
  note f = acquire_facts(1,3) [OF assms(1,2)]
  note got = f(2) [OF refl]
  obtain st3 where cool: "enforce_switch_cooldown ops cfg now switch_id port operation (lk_cooldown lk) st1 = (Some e, st3)"
    using assms(3) by (cases "enforce_switch_cooldown ops cfg now switch_id port operation (lk_cooldown lk) st1") auto
  have st': "st' = st3" "res = Inl e" using assms(4) assms(2) cool by (auto simp: with_switch_lock_def)
  have pos: "0 < sl_ttl lease" using got by simp
  have start: "stuck view clock lease st'"
    using got f(1) cooldown_facts [OF assms(1) cool] by (simp add: stuck_def st')
  from assms(5) have "stuck view clock lease st2"
    using start
  proof (induction rule: kept_alive.induct)
    case (Round st0 st4 r)
    then show ?case using stuck_round [OF assms(1) pos] by blast
  qed
  then have "lock_holder view clock (as_redis st2) switch_id \<noteq> None"
    using got pos by (simp add: stuck_def lock_holder_def live_def)
  with st' show ?thesis
    using acquire_facts(5) [OF assms(1), of cfg switch_id owner2 Answered st2] by (cases "acquire_switch_write_lock ops cfg switch_id owner2 Answered st2") auto
qed

definition free_switch :: "map_server api_state" where
  "free_switch = \<lparr>as_redis = (Map.empty, 0), as_local = Map.empty, as_renewals = []\<rparr>"

definition all_answered :: link_fates where
  "all_answered = \<lparr>lk_acquire = Answered, lk_cooldown = Answered, lk_release = Answered\<rparr>"

definition sw1_lease :: switch_lease where
  "sw1_lease = \<lparr>sl_key = write_lock_key ''sw1'', sl_owner = ''o1'', sl_ttl = 300\<rparr>"

text \<open>A switch whose port was written a moment ago.\<close>

definition cooling_switch :: "map_server api_state" where
  "cooling_switch = free_switch\<lparr>as_redis := (Map.empty(cooldown_key ''sw1'' ''poe'' ''Gi1/0/1'' \<mapsto> (''1'', 8)), 2)\<rparr>"

definition sw1_acquired :: "map_server api_state \<Rightarrow> map_server api_state" where
  "sw1_acquired st = st\<lparr>as_redis := ((fst (as_redis st))(write_lock_key ''sw1'' \<mapsto> (''o1'', snd (as_redis st) + 300)), snd (as_redis st)),
     as_renewals := as_renewals st @ [sw1_lease]\<rparr>"

lemma acquired_example:
  "acquire_switch_write_lock map_server default_write_settings ''sw1'' ''o1'' Answered free_switch = (Inr sw1_lease, sw1_acquired free_switch)"
  "acquire_switch_write_lock map_server default_write_settings ''sw1'' ''o1'' Answered cooling_switch = (Inr sw1_lease, sw1_acquired cooling_switch)"
  by (simp_all add: acquire_switch_write_lock_def acquire_redis_lock_def map_server_def default_write_settings_def free_switch_def
      cooling_switch_def sw1_lease_def sw1_acquired_def live_def write_lock_key_def cooldown_key_def Let_def)

theorem held_lock_keeps_hardware_untouched_witness:
  "snd (snd (with_switch_lock map_server default_write_settings 0 ''o2'' all_answered ''sw1'' ''Gi1/0/1'' ''poe'' True
      (\<lambda>w. (Inr (), Suc w)) (sw1_acquired free_switch) 0)) = 0"
proof -
  have "lock_holder fst snd (as_redis (sw1_acquired free_switch)) ''sw1'' = Some ''o1''"
    by (simp add: lock_holder_def sw1_acquired_def free_switch_def live_def)
  from held_lock_keeps_hardware_untouched [OF map_server_ok this, of default_write_settings 0 "''o2''" all_answered "''Gi1/0/1''" "''poe''" True
      "\<lambda>w. (Inr (), Suc w)" 0] show ?thesis by (metis prod.collapse)
qed

theorem finished_write_frees_the_switch_witness:
  "lock_holder fst snd (as_redis (fst (snd (with_switch_lock map_server default_write_settings 0 ''o1'' all_answered ''sw1'' ''Gi1/0/1'' ''poe'' True
      (\<lambda>w. (Inr (), Suc w)) free_switch 0)))) ''sw1'' = None"
proof -
  have a: "acquire_switch_write_lock map_server default_write_settings ''sw1'' ''o1'' (lk_acquire all_answered) free_switch
     = (Inr sw1_lease, sw1_acquired free_switch)" using acquired_example(1) by (simp add: all_answered_def)
  have c: "fst (enforce_switch_cooldown map_server default_write_settings 0 ''sw1'' ''Gi1/0/1'' ''poe'' (lk_cooldown all_answered) (sw1_acquired free_switch)) = None"
    by (simp add: enforce_switch_cooldown_def map_server_def default_write_settings_def all_answered_def sw1_acquired_def free_switch_def live_def
        write_lock_key_def cooldown_key_def)
  obtain res st' w' where run: "with_switch_lock map_server default_write_settings 0 ''o1'' all_answered ''sw1'' ''Gi1/0/1'' ''poe'' True
      (\<lambda>w. (Inr (), Suc w)) free_switch 0 = (res, st', w')" by (metis prod_cases3)
  from finished_write_frees_the_switch [OF map_server_ok a c run] have "lock_holder fst snd (as_redis st') ''sw1'' = None"
    by (simp add: all_answered_def free_switch_def)
  then show ?thesis unfolding run by simp
qed

theorem throttled_write_locks_the_switch_out_witness:
  "fst (acquire_switch_write_lock map_server default_write_settings ''sw1'' ''o2'' Answered
     (fst (snd (with_switch_lock map_server default_write_settings 0 ''o1'' all_answered ''sw1'' ''Gi1/0/1'' ''poe'' True
        (\<lambda>w. (Inr (), Suc w)) cooling_switch 0)))) = Inl (Http 409)"
proof -
  have a: "acquire_switch_write_lock map_server default_write_settings ''sw1'' ''o1'' (lk_acquire all_answered) cooling_switch
     = (Inr sw1_lease, sw1_acquired cooling_switch)" using acquired_example(2) by (simp add: all_answered_def)
  have c: "fst (enforce_switch_cooldown map_server default_write_settings 0 ''sw1'' ''Gi1/0/1'' ''poe'' (lk_cooldown all_answered) (sw1_acquired cooling_switch))
     = Some (Http 429)"
    by (simp add: enforce_switch_cooldown_def map_server_def default_write_settings_def all_answered_def sw1_acquired_def cooling_switch_def
        free_switch_def live_def write_lock_key_def cooldown_key_def)
  obtain res st' w' where run: "with_switch_lock map_server default_write_settings 0 ''o1'' all_answered ''sw1'' ''Gi1/0/1'' ''poe'' True
      (\<lambda>w. (Inr (), Suc w)) cooling_switch 0 = (res, st', w')" by (metis prod_cases3)
  from throttled_write_locks_the_switch_out [OF map_server_ok a c run Now] show ?thesis by (simp add: run)
qed

subsection \<open>A port write configures one interface\<close>

text \<open>Patterns that read no line break.\<close>

definition clean :: "re \<Rightarrow> bool" where
  "clean r \<longleftrightarrow> spells r {w. one_line w}"

lemma clean_Cls: "\<not> p (CHR 0x0A) \<Longrightarrow> clean (Cls p)"
  unfolding clean_def by (rule spells_mono [OF spells_Cls]) (auto simp: one_line_def)

lemma clean_Seq: "clean a \<Longrightarrow> clean b \<Longrightarrow> clean (Seq a b)"
  unfolding clean_def by (rule spells_mono [OF spells_Seq]) (auto simp: one_line_def)

lemma clean_Alt: "clean a \<Longrightarrow> clean b \<Longrightarrow> clean (Alt a b)"
  unfolding clean_def spells_def by (auto simp: reads_simps)

lemma clean_marks: "clean Eps" "clean Bol" "clean Eol"
  unfolding clean_def spells_def by (auto simp: reads_simps one_line_def)

lemma clean_optional: "clean a \<Longrightarrow> clean (optional a)"
  unfolding optional_def by (rule clean_Alt [OF _ clean_marks(1)])

lemma clean_plus_dig: "clean (plus dig)"
proof -
  have "\<not> is_digit (CHR 0x0A)" by code_simp
  then show ?thesis unfolding clean_def dig_def by (intro spells_mono [OF spells_plus]) (auto simp: one_line_def list_all_iff)
qed

lemma clean_seqs: "list_all clean rs \<Longrightarrow> clean (seqs rs)"
  by (induction rs rule: seqs.induct) (auto intro: clean_Seq clean_marks)

lemma clean_alts: "rs \<noteq> [] \<Longrightarrow> list_all clean rs \<Longrightarrow> clean (alts rs)"
  by (induction rs rule: alts.induct) (auto intro: clean_Alt)

lemma clean_ilit: "one_line (lower w) \<Longrightarrow> clean (ilit w)"
  unfolding ilit_def
  by (rule clean_seqs) (auto simp: list_all_iff one_line_def lower_def lower_char_def Let_def intro!: clean_Cls split: if_splits)

lemma clean_lit: "one_line w \<Longrightarrow> clean (lit w)"
  unfolding lit_def by (rule clean_seqs) (auto simp: list_all_iff one_line_def intro!: clean_Cls)

lemma clean_safe_port: "clean safe_port_re"
proof -
  have prefixes: "list_all clean (map ilit [''Gi'', ''GigabitEthernet'', ''Fa'', ''FastEthernet'', ''Te'', ''TenGigabitEthernet'',
       ''Twe'', ''TwentyFiveGigE'', ''Po'', ''Port-channel''])"
  proof -
    have "list_all clean (map ilit ws)" if "list_all (\<lambda>w. one_line (lower w)) ws" for ws
      using that by (auto simp: list_all_iff intro: clean_ilit)
    moreover have "list_all (\<lambda>w. one_line (lower w)) [''Gi'', ''GigabitEthernet'', ''Fa'', ''FastEthernet'', ''Te'', ''TenGigabitEthernet'',
       ''Twe'', ''TwentyFiveGigE'', ''Po'', ''Port-channel'']" by code_simp
    ultimately show ?thesis .
  qed
  have slash: "clean (lit ''/'')" by (rule clean_lit) (simp add: one_line_def)
  show ?thesis unfolding safe_port_re_def Let_def
    by (rule clean_seqs)
      (simp only: list.pred_inject, intro conjI TrueI clean_marks clean_plus_dig clean_alts clean_optional clean_Seq slash prefixes, simp_all)
qed

lemma run_to_Eol: "run (seqs (rs @ [Eol])) st Some = Some (pre', s', c') \<Longrightarrow> s' = [] \<or> s' = [CHR 0x0A]"
proof (induction rs arbitrary: st)
  case (Cons r rs)
  have "seqs ((r # rs) @ [Eol]) = Seq r (seqs (rs @ [Eol]))" by (cases rs) simp_all
  obtain a b c where st: "st = (a, b, c)" by (cases st)
  with Cons.prems \<open>seqs ((r # rs) @ [Eol]) = Seq r (seqs (rs @ [Eol]))\<close>
  have "run r (a, b, c) (\<lambda>st1. if length (fst (snd st1)) \<le> length b then run (seqs (rs @ [Eol])) st1 Some else None) = Some (pre', s', c')" by simp
  from run_sound [OF this] obtain st1 where "run (seqs (rs @ [Eol])) st1 Some = Some (pre', s', c')" by (auto split: if_splits)
  then show ?case by (rule Cons.IH)
qed (cases st, auto split: if_splits)

lemma strip_ends: "strip s \<noteq> [] \<Longrightarrow> \<not> is_space (last (strip s))"
  unfolding strip_def rstrip_def by (simp add: last_rev hd_dropWhile)

lemma safe_port_one_line:
  assumes "validate_switch_port port = Inr v"
  shows "one_line v" and "v \<noteq> []"
proof -
  have v: "v = strip port" "v \<noteq> []" and m: "re_match safe_port_re v \<noteq> None"
    using assms by (auto simp: validate_switch_port_def Let_def split: if_splits)
  from m obtain p' s' g where run: "run safe_port_re ([], v, []) Some = Some (p', s', g)" unfolding re_match_def by auto
  from run_sound [OF run] have r: "reads safe_port_re ([], v, []) (p', s', g)" by auto
  from r clean_safe_port obtain w where w: "v = w @ s'" "one_line w" unfolding clean_def by (auto dest: spellsD)
  have "\<exists>rs. safe_port_re = seqs (rs @ [Eol])" unfolding safe_port_re_def Let_def by (rule exI [of _ "[_, _, _, _]"]) simp
  then have "s' = [] \<or> s' = [CHR 0x0A]" using run run_to_Eol by metis
  moreover have "is_space (CHR 0x0A)" by code_simp
  ultimately have "s' = []" using strip_ends [of port] v w(1) by (metis append_is_Nil_conv last_snoc)
  with w show "one_line v" by simp
  show "v \<noteq> []" by (rule v(2))
qed

text \<open>The interface lines of a transcript; only the port's own may be among them.\<close>

definition only_interface :: "string \<Rightarrow> string \<Rightarrow> bool" where
  "only_interface port line \<longleftrightarrow> (if starts_with ''interface '' line then line = into port else True)"

lemma only_interface_into: "only_interface port (into port)"
  by (simp add: only_interface_def)

lemma only_interface_other: "take 1 line \<noteq> ''i'' \<Longrightarrow> only_interface port line"
  by (cases line) (auto simp: only_interface_def starts_with_def)

lemma one_line_show: "one_line (show_int v)"
proof -
  have "\<not> is_digit (CHR 0x0A)" by code_simp
  then have "CHR 0x0A \<notin> set (show_nat n)" for n using show_nat_digits [of n] by blast
  then show ?thesis by (simp add: one_line_def show_int_def)
qed

lemma exec_config_lines:
  assumes "list_all one_line cmds" "list_all P (''configure terminal'' # ''end'' # cmds)" "list_all P (cli_lines (wi_cli w))"
  shows "list_all P (cli_lines (wi_cli (fst (exec_config conn cmds w))))"
proof (cases conn)
  case (Some dev)
  have "one_line ''configure terminal''" "one_line ''end''" by (simp_all add: one_line_def)
  with run_all_lines [of "''configure terminal'' # cmds @ [''end'']" P "wi_cli w" dev] assms Some show ?thesis
    by (simp add: exec_config_def case_prod_unfold Let_def)
qed (use assms in \<open>simp add: exec_config_def\<close>)

lemma mode_commands_lines:
  assumes "mode_commands m a n l = Some cmds" "case l of None \<Rightarrow> True | Some v \<Rightarrow> one_line v"
  shows "list_all one_line cmds" and "list_all (only_interface port) cmds"
proof -
  have s: "one_line (x @ y) \<longleftrightarrow> one_line x \<and> one_line y" for x y by (auto simp: one_line_def)
  have t: "one_line ''switchport mode access''" "one_line ''switchport mode trunk''" "one_line ''switchport access vlan ''"
    "one_line ''switchport trunk native vlan ''" "one_line ''switchport trunk allowed vlan ''" by (simp_all add: one_line_def)
  show "list_all one_line cmds"
    using assms by (auto simp: Let_def s t one_line_show truthy_def simp del: append_Cons split: if_splits option.splits list.splits)
  show "list_all (only_interface port) cmds"
    using assms by (auto simp: Let_def intro!: only_interface_other split: if_splits option.splits)
qed

text \<open>C22: A write over the API, with a port name the validator accepts and free text without a line break, sends a Cisco
  switch no interface line but that of the port: whatever the switch answers, no other interface is configured.\<close>

theorem port_write_configures_one_interface:
  assumes "validate_switch_port port = Inr safe_port" "one_line (free_text wr)"
  shows "list_all (only_interface safe_port) (cli_lines (wi_cli (fst (cisco_write conn safe_port wr \<lparr>wi_cli = [], wi_sets = []\<rparr>))))"
proof -
  note p = safe_port_one_line [OF assms(1)]
  let ?P = "only_interface safe_port"
  have base: "?P ''configure terminal''" "?P ''end''" "?P (into safe_port)" "one_line (into safe_port)"
    by (rule only_interface_other, simp, rule only_interface_other, simp, rule only_interface_into)
      (use p in \<open>simp add: into_def one_line_def\<close>)
  have fixed: "list_all one_line [''no shutdown'', ''shutdown'', ''switchport mode access'', ''power inline auto'', ''power inline never'', ''end'',
      ''configure terminal'', ''description '', ''switchport access vlan '']"
    "list_all ?P [''no shutdown'', ''shutdown'', ''switchport mode access'', ''power inline auto'', ''power inline never'']"
    by (auto simp: one_line_def intro!: only_interface_other)
  have free: "?P (''description '' @ d)" "?P (''switchport access vlan '' @ d)" for d by (rule only_interface_other; simp)+
  have exec: "list_all ?P (cli_lines (wi_cli (fst (exec_config conn (into safe_port # cmds) \<lparr>wi_cli = [], wi_sets = []\<rparr>))))"
    if c: "list_all one_line cmds" "list_all ?P cmds" for cmds
    by (rule exec_config_lines) (use base c in \<open>simp_all add: cli_lines_def\<close>)
  show ?thesis
  proof (cases wr)
    case (Set_admin_state st)
    then show ?thesis using exec fixed by simp
  next
    case (Set_description d)
    have "one_line (''description '' @ d)" using Set_description assms(2) by (simp add: one_line_def)
    then show ?thesis using exec [of "[''description '' @ d]"] free(1) [of d] Set_description by simp
  next
    case (Set_vlan v)
    have "one_line (''switchport access vlan '' @ show_int v)" using one_line_show [of v] by (simp add: one_line_def)
    then show ?thesis using exec [of "[''switchport mode access'', ''switchport access vlan '' @ show_int v]"] fixed free(2) [of "show_int v"] Set_vlan by simp
  next
    case (Set_mode m a n l)
    show ?thesis
    proof (cases "mode_commands m a n l")
      case None
      then show ?thesis using Set_mode by (simp add: cli_lines_def)
    next
      case (Some cmds)
      have "case l of None \<Rightarrow> True | Some v \<Rightarrow> one_line v" using assms(2) Set_mode by (simp split: option.splits)
      from exec [OF mode_commands_lines [OF Some this]] show ?thesis using Set_mode Some by simp
    qed
  next
    case (Set_poe action)
    have cyc: "list_all ?P (cli_lines (fst (run_all dev (configure_cmds [safe_port] ''power inline never'' @ [''end'']
        @ configure_cmds [safe_port] ''power inline auto'' @ [''end'']) [])))" for dev
      by (rule run_all_lines) (use base fixed in \<open>simp_all add: configure_cmds_def cli_lines_def\<close>)
    show ?thesis using Set_poe exec fixed cyc by (auto simp: cli_lines_def case_prod_unfold Let_def split: option.splits)
  qed
qed

theorem port_write_configures_one_interface_witness:
  "list_all (only_interface ''Gi1/0/1'') (cli_lines (wi_cli (fst (cisco_write (Some (\<lambda>_ _. Some ''#'')) ''Gi1/0/1'' (Set_vlan 20) \<lparr>wi_cli = [], wi_sets = []\<rparr>))))"
proof -
  have "validate_switch_port '' Gi1/0/1'' = Inr ''Gi1/0/1''" by code_simp
  then show ?thesis by (rule port_write_configures_one_interface) (simp add: one_line_def)
qed

text \<open>A line break passes the validator of descriptions: the switch reads the rest as commands of their own, here for
  another interface.\<close>

theorem description_can_configure_another_interface:
  "let d = ''ok'' @ [CHR 0x0A] @ ''interface Gi1/0/2'' @ [CHR 0x0A] @ ''shutdown'' in
   validate_port_write (Set_description d) = Some (Set_description d)
   \<and> cli_lines (wi_cli (fst (cisco_write (Some (\<lambda>_ _. Some ''#'')) ''Gi1/0/1'' (Set_description d) \<lparr>wi_cli = [], wi_sets = []\<rparr>)))
     = [''configure terminal'', ''interface Gi1/0/1'', ''description ok'', ''interface Gi1/0/2'', ''shutdown'', ''end'']"
  by code_simp

end
