(* ===== verification/Switch_Api.thy ===== *)
theory Switch_Api
  imports Switch_Locks Dhcp_Clear
begin

section \<open>The switch routes (app/api/routes/switches/)\<close>

text \<open>
  What the routes do between the request and the operations of the other theories. A request opens its connections to the
  switch one after the other; the n-th answers as \<open>conns n\<close>. Every route that touches hardware is
  for superusers (403 otherwise) and runs under the lock of theory Switch_Locks. Metrics and the response cache are
  left out; an answer is a constructor with the values of the response.
\<close>

record cli_world =
  cw_opened :: nat
  cw_sent :: "transcript list"

type_synonym connections = "nat \<Rightarrow> string option + device"

definition on_new :: "connections \<Rightarrow> (string option + device \<Rightarrow> transcript \<Rightarrow> transcript \<times> 'a) \<Rightarrow> cli_world \<Rightarrow> 'a \<times> cli_world" where
  "on_new conns f w =
     (let (tr, x) = f (conns (cw_opened w)) [] in (x, w\<lparr>cw_opened := Suc (cw_opened w), cw_sent := cw_sent w @ [tr]\<rparr>))"

record camera_settings =
  CAMERA_VLANS :: string
  CAMERA_REBOOT_STAGGER_SECONDS :: int

definition camera_vlans :: "camera_settings \<Rightarrow> int list" where
  "camera_vlans cfg = remdups (map (\<lambda>v. int (digits_val (strip v))) (filter (\<lambda>v. digits_only (strip v)) (split_on CHR '','' (CAMERA_VLANS cfg))))"

subsection \<open>Access points and cameras (access_points.py)\<close>

definition get_switch_aps ::
    "connections \<Rightarrow> (nat \<Rightarrow> uid) \<Rightarrow> instant \<Rightarrow> reboot_switch option \<Rightarrow> ap_row list \<Rightarrow> cli_world
     \<Rightarrow> (http_error + merged_ap list) \<times> ap_row list \<times> cli_world" where
  "get_switch_aps conns new_id now row tab w =
     (case row of
        None \<Rightarrow> (Inl (Http 404), tab, w)
      | Some sw \<Rightarrow>
          if rs_vendor sw \<noteq> ''cisco'' then (Inl (Http 400), tab, w)
          else (let (live, w') = on_new conns (\<lambda>c. access_points c (rs_ap_vlan sw)) w; known = get_known_aps (ns_id sw) tab in
                case live of
                  None \<Rightarrow> (Inr (known_aps_as_still_responding known (rs_ap_vlan sw)), tab, w')
                | Some aps \<Rightarrow>
                    (let usable = filter (\<lambda>ap. ai_mac ap \<noteq> [] \<and> ai_port ap \<noteq> []) (recover_missing_macs_from_registry aps known);
                         tab' = record_seen_aps new_id (ns_id sw) now usable tab
                     in (Inr (merge_live_and_known now usable (reread_rows known tab') (rs_ap_vlan sw)), tab', w'))))"

definition get_switch_camera_ports ::
    "connections \<Rightarrow> camera_settings \<Rightarrow> reboot_switch option \<Rightarrow> cli_world \<Rightarrow> (http_error + camera_port list) \<times> cli_world" where
  "get_switch_camera_ports conns cfg row w =
     (case row of
        None \<Rightarrow> (Inl (Http 404), w)
      | Some sw \<Rightarrow>
          if rs_vendor sw \<noteq> ''cisco'' then (Inl (Http 400), w)
          else if camera_vlans cfg = [] then (Inr [], w)
          else (let (ports, w') = on_new conns (\<lambda>c. Cisco_Client.camera_ports c (camera_vlans cfg)) w in
                (case ports of None \<Rightarrow> Inl (Http 503) | Some ps \<Rightarrow> Inr ps, w')))"

text \<open>The loop from \<open>elapsed\<close> seconds on; the ports still awaited, and what is known of every port.\<close>

function verify_camera_ports_back_online ::
    "connections \<Rightarrow> int \<Rightarrow> int \<Rightarrow> int list \<Rightarrow> string list \<Rightarrow> (string \<times> bool) list \<Rightarrow> int \<Rightarrow> cli_world \<Rightarrow> (string \<times> bool) list \<times> cli_world" where
  "verify_camera_ports_back_online conns max_wait poll_interval vlans remaining back elapsed w =
     (if elapsed < max_wait \<and> remaining \<noteq> [] then
        (let (current, w') = on_new conns (\<lambda>c. Cisco_Client.camera_ports c vlans) w;
             status = map_of (rev (map (\<lambda>c. (cm_port c, cm_oper c)) (case current of None \<Rightarrow> [] | Some cs \<Rightarrow> cs)));
             up = filter (\<lambda>p. status p = Some ''connected'') remaining
         in verify_camera_ports_back_online conns max_wait poll_interval vlans (filter (\<lambda>p. p \<notin> set up) remaining)
              (map (\<lambda>(p, b). (p, b \<or> p \<in> set up)) back) (elapsed + max poll_interval 1) w')
      else (back, w))"
  by pat_completeness auto
termination
  by (relation "measure (\<lambda>(conns, max_wait, poll_interval, vlans, remaining, back, elapsed, w). nat (max_wait - elapsed))") auto

declare verify_camera_ports_back_online.simps [simp del]

definition back_online_map ::
    "connections \<Rightarrow> reboot_settings \<Rightarrow> int list \<Rightarrow> string list \<Rightarrow> cli_world \<Rightarrow> (string \<times> bool) list \<times> cli_world" where
  "back_online_map conns cfg vlans ports w =
     verify_camera_ports_back_online conns (AUTO_REBOOT_AP_VERIFY_MAX_WAIT_SECONDS cfg) (AUTO_REBOOT_AP_VERIFY_POLL_INTERVAL_SECONDS cfg)
       vlans ports (map (\<lambda>p. (p, False)) (remdups ports)) 0 w"

datatype camera_answer = Rebooting_port string bool | No_cameras | Rebooted_ports nat nat nat

definition reboot_camera_port ::
    "'r script_ops \<Rightarrow> write_settings \<Rightarrow> reboot_settings \<Rightarrow> camera_settings \<Rightarrow> connections \<Rightarrow> instant \<Rightarrow> string \<Rightarrow> link_fates
     \<Rightarrow> uid \<Rightarrow> reboot_switch option \<Rightarrow> request_user \<Rightarrow> string \<Rightarrow> 'r api_state \<Rightarrow> cli_world \<Rightarrow> (http_error + camera_answer) \<times> 'r api_state \<times> cli_world" where
  "reboot_camera_port ops wcfg rcfg ccfg conns now owner lk switch_id row user port st w =
     (if \<not> ru_superuser user then (Inl (Http 403), st, w)
      else case validate_switch_port port of
        Inl e \<Rightarrow> (Inl e, st, w)
      | Inr safe_port \<Rightarrow>
          (case row of
             None \<Rightarrow> (Inl (Http 404), st, w)
           | Some sw \<Rightarrow>
               if rs_vendor sw \<noteq> ''cisco'' then (Inl (Http 400), st, w)
               else if camera_vlans ccfg = [] then (Inl (Http 400), st, w)
               else with_switch_lock ops wcfg now owner lk switch_id safe_port ''reboot_camera'' True
                 (\<lambda>w. let (ok, w1) = on_new conns (\<lambda>c. poe_cycle_bulk c [safe_port]) w in
                      if \<not> ok then (Inl (Http 502), w1)
                      else (let (back, w2) = back_online_map conns rcfg (camera_vlans ccfg) [safe_port] w1
                            in (Inr (Rebooting_port safe_port (map_of back safe_port = Some True)), w2))) st w))"

text \<open>One camera at a time; the ports that were cycled and those that failed.\<close>

fun cycle_cameras :: "connections \<Rightarrow> camera_port list \<Rightarrow> cli_world \<Rightarrow> (string list \<times> string list) \<times> cli_world" where
  "cycle_cameras conns [] w = (([], []), w)"
| "cycle_cameras conns (cam # cams) w =
     (let (ok, w1) = on_new conns (\<lambda>c. poe_cycle_bulk c [cm_port cam]) w;
          ((cycled, failed), w2) = cycle_cameras conns cams w1
      in (if ok then (cm_port cam # cycled, failed) else (cycled, cm_port cam # failed), w2))"

definition reboot_all_camera_ports ::
    "'r script_ops \<Rightarrow> write_settings \<Rightarrow> reboot_settings \<Rightarrow> camera_settings \<Rightarrow> connections \<Rightarrow> instant \<Rightarrow> string \<Rightarrow> link_fates
     \<Rightarrow> uid \<Rightarrow> reboot_switch option \<Rightarrow> request_user \<Rightarrow> 'r api_state \<Rightarrow> cli_world \<Rightarrow> (http_error + camera_answer) \<times> 'r api_state \<times> cli_world" where
  "reboot_all_camera_ports ops wcfg rcfg ccfg conns now owner lk switch_id row user st w =
     (if \<not> ru_superuser user then (Inl (Http 403), st, w)
      else case row of
        None \<Rightarrow> (Inl (Http 404), st, w)
      | Some sw \<Rightarrow>
          if rs_vendor sw \<noteq> ''cisco'' then (Inl (Http 400), st, w)
          else if camera_vlans ccfg = [] then (Inl (Http 400), st, w)
          else with_switch_lock ops wcfg now owner lk switch_id ''*'' ''reboot_cameras_bulk'' True
            (\<lambda>w. let (ports, w1) = on_new conns (\<lambda>c. Cisco_Client.camera_ports c (camera_vlans ccfg)) w in
                 case ports of
                   None \<Rightarrow> (Inl (Http 503), w1)
                 | Some [] \<Rightarrow> (Inr No_cameras, w1)
                 | Some cams \<Rightarrow>
                     (let ((cycled, failed), w2) = cycle_cameras conns cams w1 in
                      if cycled = [] then (Inl (Http 502), w2)
                      else (let (back, w3) = back_online_map conns rcfg (camera_vlans ccfg) cycled w2
                            in (Inr (Rebooted_ports (length cycled) (length failed) (length (filter snd back))), w3)))) st w)"

definition set_switch_ap_excluded ::
    "instant \<Rightarrow> reboot_switch option \<Rightarrow> request_user \<Rightarrow> uid \<Rightarrow> string \<Rightarrow> bool \<Rightarrow> ap_row list \<Rightarrow> http_error option \<times> ap_row list" where
  "set_switch_ap_excluded now row user switch_id mac excluded tab =
     (if \<not> ru_superuser user then (Some (Http 403), tab)
      else if row = None then (Some (Http 404), tab)
      else (let (tab', found) = set_ap_excluded now switch_id mac excluded tab in (if found then None else Some (Http 404), tab')))"

subsection \<open>Rebooting one access point\<close>

text \<open>The operations of the access point cycle on connections of their own; an optional shared session is none here.\<close>

definition cisco_ap_ops :: "connections \<Rightarrow> int \<Rightarrow> cli_world ap_ops" where
  "cisco_ap_ops conns vlan = \<lparr>
     ao_scan = on_new conns (\<lambda>c. access_points c vlan),
     ao_power = (\<lambda>port. on_new conns (\<lambda>c. port_poe_watts c port)),
     ao_cycle = (\<lambda>port. on_new conns (\<lambda>c. poe_cycle c port)),
     ao_sleep = (\<lambda>seconds w. w),
     ao_enabled = (\<lambda>w. (True, w))\<rparr>"

datatype manual_message = Manual_reboot string string string ustr bool

record ap_reboot_answer =
  aa_interface :: string
  aa_method :: string
  aa_back_online :: "bool option"

definition manual_reboot_log :: "request_user \<Rightarrow> reboot_switch \<Rightarrow> string \<Rightarrow> string \<Rightarrow> bool \<Rightarrow> manual_message effect list" where
  "manual_reboot_log user sw mac interface back =
     [EventLog \<lparr>ev_severity = (if back then ''info'' else ''error''), ev_category = ''network'',
        ev_type = (if back then ''ap_auto_reboot'' else ''ap_auto_reboot_failed''), ev_device_kind = Some ''switch'',
        ev_device_name = Some (ns_name sw), ev_ip_address = Some (ns_ip sw),
        ev_message = Manual_reboot (ru_email user) mac interface (ns_name sw) back\<rparr>, Commit]"

definition reboot_access_point ::
    "'r script_ops \<Rightarrow> write_settings \<Rightarrow> reboot_settings \<Rightarrow> connections \<Rightarrow> instant \<Rightarrow> string \<Rightarrow> link_fates
     \<Rightarrow> uid \<Rightarrow> reboot_switch option \<Rightarrow> request_user \<Rightarrow> string \<Rightarrow> string \<Rightarrow> string option \<Rightarrow> 'r api_state \<Rightarrow> cli_world
     \<Rightarrow> (http_error + ap_reboot_answer \<times> manual_message effect list) \<times> 'r api_state \<times> cli_world" where
  "reboot_access_point ops wcfg rcfg conns now owner lk switch_id row user raw_interface raw_method raw_mac st w =
     (if \<not> ru_superuser user then (Inl (Http 403), st, w)
      else case validate_switch_port raw_interface of
        Inl e \<Rightarrow> (Inl e, st, w)
      | Inr interface \<Rightarrow>
          (let method = lower (strip raw_method); mac = map_option strip (truthy raw_mac) in
           if method \<noteq> ''poe'' \<and> method \<noteq> ''shutdown'' then (Inl (Http 422), st, w)
           else case row of
             None \<Rightarrow> (Inl (Http 404), st, w)
           | Some sw \<Rightarrow>
               if rs_vendor sw \<noteq> ''cisco'' then (Inl (Http 400), st, w)
               else with_switch_lock ops wcfg now owner lk switch_id interface (''reboot_ap_'' @ method) True
                 (\<lambda>w. let (ok, w1) = on_new conns (\<lambda>c. if method = ''poe'' then poe_cycle c interface else reboot_ap c interface) w in
                      if \<not> ok then (Inl (Http 502), w1)
                      else (case truthy mac of
                              None \<Rightarrow> (Inr (\<lparr>aa_interface = interface, aa_method = method, aa_back_online = None\<rparr>, []), w1)
                            | Some m \<Rightarrow>
                                (let (back, w2, steps) = verify_ap_back_online (cisco_ap_ops conns (rs_ap_vlan sw))
                                        (AUTO_REBOOT_AP_VERIFY_MAX_WAIT_SECONDS rcfg) (AUTO_REBOOT_AP_VERIFY_POLL_INTERVAL_SECONDS rcfg) m 0 w1
                                 in (Inr (\<lparr>aa_interface = interface, aa_method = method, aa_back_online = Some back\<rparr>,
                                          manual_reboot_log user sw m interface back), w2)))) st w))"

subsection \<open>The scheduled operations on demand (auto_reboot.py, dhcp.py)\<close>

definition run_switch_auto_reboot_now ::
    "'r script_ops \<Rightarrow> write_settings \<Rightarrow> reboot_settings \<Rightarrow> 'w ap_ops \<Rightarrow> (nat \<Rightarrow> uid) \<Rightarrow> instant \<Rightarrow> string \<Rightarrow> link_fates
     \<Rightarrow> uid \<Rightarrow> reboot_switch option \<Rightarrow> request_user \<Rightarrow> 'r api_state \<Rightarrow> 'w \<times> ap_row list
     \<Rightarrow> (http_error + cycle_result \<times> reboot_switch \<times> ap_step list) \<times> 'r api_state \<times> 'w \<times> ap_row list" where
  "run_switch_auto_reboot_now ops wcfg rcfg aops new_id now owner lk switch_id row user st s =
     (if \<not> ru_superuser user then (Inl (Http 403), st, s)
      else case row of
        None \<Rightarrow> (Inl (Http 404), st, s)
      | Some sw \<Rightarrow>
          if \<not> AUTO_REBOOT_AP_ENABLED rcfg then (Inl (Http 400), st, s)
          else if \<not> rs_enabled sw then (Inl (Http 409), st, s)
          else if switch_eligible_for_auto_reboot sw (parse_allowed_stores (AUTO_REBOOT_AP_ALLOWED_STORES rcfg)) \<noteq> None then (Inl (Http 400), st, s)
          else with_switch_lock ops wcfg now owner lk switch_id ''*'' ''auto_reboot_manual_run'' True
            (\<lambda>s. let (res, sw', s', steps) = run_ap_reboot_for_switch aops rcfg new_id now sw s in (Inr (res, sw', steps), s')) st s)"

definition run_switch_dhcp_clear_now ::
    "'r script_ops \<Rightarrow> write_settings \<Rightarrow> dhcp_settings \<Rightarrow> (string \<Rightarrow> 'w \<Rightarrow> string option \<times> 'w) \<Rightarrow> bool \<Rightarrow> instant \<Rightarrow> string \<Rightarrow> link_fates
     \<Rightarrow> uid \<Rightarrow> dhcp_switch option \<Rightarrow> request_user \<Rightarrow> 'r api_state \<Rightarrow> 'w \<times> string list
     \<Rightarrow> (http_error + clear_summary \<times> clear_out list) \<times> 'r api_state \<times> 'w \<times> string list" where
  "run_switch_dhcp_clear_now ops wcfg dcfg exec conn now owner lk switch_id row user st s =
     (if \<not> ru_superuser user then (Inl (Http 403), st, s)
      else case row of
        None \<Rightarrow> (Inl (Http 404), st, s)
      | Some sw \<Rightarrow>
          if \<not> DHCP_CLEAR_ENABLED dcfg then (Inl (Http 400), st, s)
          else if \<not> ds_clear_enabled sw then (Inl (Http 409), st, s)
          else if switch_eligible_for_dhcp_clear sw (parse_allowed_stores (DHCP_CLEAR_ALLOWED_STORES dcfg)) \<noteq> None then (Inl (Http 400), st, s)
          else with_switch_lock_released ops wcfg now owner lk switch_id ''*'' ''dhcp_clear_manual_run''
            (\<lambda>(w, sent). let (res, w', more, outs) = run_dhcp_clear_for_switch dcfg exec conn sw w in (Inr (res, outs), w', sent @ more)) st s)"

record dhcp_public =
  du_diag :: dhcp_diagnostics
  du_bindings_total :: nat
  du_planned :: "string list"
  du_skipped :: "plan_skip list"

definition to_public :: "dhcp_settings \<Rightarrow> dhcp_diagnostics \<Rightarrow> dhcp_public" where
  "to_public cfg diag =
     (let plan = plan_clear diag (filter (\<lambda>a. a \<in> set valid_actions) (parse_clear_actions (DHCP_CLEAR_ACTIONS cfg))) (DHCP_CLEAR_MAX_BINDINGS cfg)
      in \<lparr>du_diag = diag, du_bindings_total = length (dd_bindings diag), du_planned = pl_commands plan, du_skipped = pl_skipped plan\<rparr>)"

definition get_switch_dhcp_diagnostics ::
    "dhcp_settings \<Rightarrow> (string \<Rightarrow> 'w \<Rightarrow> string option \<times> 'w) \<Rightarrow> bool \<Rightarrow> dhcp_switch option \<Rightarrow> 'w \<Rightarrow> (http_error + dhcp_public) \<times> 'w \<times> string list" where
  "get_switch_dhcp_diagnostics cfg exec conn row w =
     (case row of
        None \<Rightarrow> (Inl (Http 404), w, [])
      | Some sw \<Rightarrow>
          if rs_vendor sw \<noteq> ''cisco'' then (Inl (Http 400), w, [])
          else (let (diag, w', sent, op) = run_dhcp_diagnostics exec conn (rs_ap_vlan sw) w in
                (case diag of None \<Rightarrow> Inl (Http 502) | Some d \<Rightarrow> Inr (to_public cfg d), w', sent)))"


subsection \<open>What a camera reboot does to the switch\<close>

lemma show_commands_give_no_orders:
  assumes "fst (port_view tr) = None" "take 5 cmd = ''show ''"
  shows "port_view (tr @ [(cmd, a)]) = port_view tr"
proof -
  have "cmd \<noteq> ''configure terminal'' \<and> cmd \<noteq> ''end'' \<and> \<not> starts_with ''interface '' cmd"
    using assms(2) by (cases cmd) (auto simp: starts_with_def)
  then show ?thesis using assms(1) by (cases "fold port_step tr (None, \<lambda>_. None)") (simp add: port_view_def port_step_def)
qed

text \<open>A connection over which no port got an order.\<close>

definition quiet :: "transcript \<Rightarrow> bool" where
  "quiet tr \<longleftrightarrow> port_view tr = (None, \<lambda>_. None)"

lemma quiet_Nil: "quiet []"
  by (simp add: quiet_def port_view_def)

lemma quiet_execute: "quiet tr \<Longrightarrow> take 5 cmd = ''show '' \<Longrightarrow> quiet (fst (execute dev cmd tr))"
  by (simp add: execute_def Let_def quiet_def show_commands_give_no_orders)

lemma quiet_enrich: "quiet tr \<Longrightarrow> take 5 cmd = ''show '' \<Longrightarrow> quiet (fst (enrich dev cmd f rs tr))"
  using quiet_execute [of tr cmd dev] by (auto simp: enrich_def split: prod.splits option.splits)

lemma quiet_camera_ports: "quiet (fst (Cisco_Client.camera_ports conn vlans []))"
proof (cases conn)
  case (Inr dev)
  obtain tr r where e: "execute dev ''show interfaces status'' [] = (tr, r)" by fastforce
  have "quiet tr" using quiet_execute [OF quiet_Nil, of "''show interfaces status''" dev] e by simp
  from quiet_enrich [OF this, of "''show power inline''" dev enrich_camera_poe] show ?thesis
    using Inr e \<open>quiet tr\<close> by (auto simp: Cisco_Client.camera_ports_def case_prod_unfold Let_def split: option.splits)
qed (simp add: Cisco_Client.camera_ports_def quiet_Nil)

text \<open>A connection that gave orders to at most one port, and did not abandon it without power.\<close>

definition spares_the_others :: "transcript \<Rightarrow> bool" where
  "spares_the_others tr \<longleftrightarrow>
     (\<exists>p. dom (snd (port_view tr)) \<subseteq> {p}
        \<and> (last_order tr p = Some ''power inline never'' \<longrightarrow> (\<exists>dev. recovery_failed dev [p] ''power inline auto'' tr)))"

lemma quiet_spares: "quiet tr \<Longrightarrow> spares_the_others tr"
  by (simp add: quiet_def spares_the_others_def last_order_def)

lemma bulk_of_one_spares: "spares_the_others (fst (poe_cycle_bulk conn [p] []))"
proof -
  have "dom (snd (port_view (fst (poe_cycle_bulk conn [p] [])))) \<subseteq> {p}"
    using bulk_cycle_stays [of "[p]" conn] by (simp add: stays_def)
  moreover have "\<exists>dev. recovery_failed dev [p] ''power inline auto'' (fst (poe_cycle_bulk conn [p] []))"
    if l: "last_order (fst (poe_cycle_bulk conn [p] [])) p = Some ''power inline never''"
  proof (cases conn)
    case (Inl r)
    then show ?thesis using l by (simp add: poe_cycle_bulk_def last_order_def port_view_def)
  next
    case (Inr dev)
    then show ?thesis using l bulk_cycle_abandons_no_port [of dev "[p]" p] by auto
  qed
  ultimately show ?thesis unfolding spares_the_others_def by blast
qed

definition adds_only :: "(transcript \<Rightarrow> bool) \<Rightarrow> cli_world \<Rightarrow> cli_world \<Rightarrow> bool" where
  "adds_only P w w' \<longleftrightarrow> (\<exists>new. cw_sent w' = cw_sent w @ new \<and> list_all P new)"

lemma adds_only_refl: "adds_only P w w"
  by (simp add: adds_only_def)

lemma adds_only_trans: "adds_only P w1 w2 \<Longrightarrow> adds_only P w2 w3 \<Longrightarrow> adds_only P w1 w3"
  by (auto simp: adds_only_def)

lemma on_new_adds: "(\<And>conn. P (fst (f conn []))) \<Longrightarrow> adds_only P w (snd (on_new conns f w))"
  by (auto simp: adds_only_def on_new_def case_prod_unfold Let_def)

lemma verify_cameras_adds:
  "adds_only spares_the_others w (snd (verify_camera_ports_back_online conns max_wait iv vlans remaining known elapsed w))"
proof (induction conns max_wait iv vlans remaining known elapsed w rule: verify_camera_ports_back_online.induct)
  case (1 conns max_wait iv vlans remaining known elapsed w)
  obtain cur w' where o: "on_new conns (\<lambda>c. Cisco_Client.camera_ports c vlans) w = (cur, w')" by fastforce
  have "adds_only spares_the_others w w'"
    using on_new_adds [of spares_the_others "\<lambda>c. Cisco_Client.camera_ports c vlans" w conns] o quiet_camera_ports quiet_spares by simp
  with 1 o show ?case
    by (subst verify_camera_ports_back_online.simps) (auto simp: adds_only_refl Let_def intro: adds_only_trans)
qed

lemma cycle_cameras_adds: "adds_only spares_the_others w (snd (cycle_cameras conns cams w))"
proof (induction cams arbitrary: w)
  case (Cons cam cams)
  obtain ok w1 where o: "on_new conns (\<lambda>c. poe_cycle_bulk c [cm_port cam]) w = (ok, w1)" by fastforce
  have "adds_only spares_the_others w w1"
    using on_new_adds [of spares_the_others "\<lambda>c. poe_cycle_bulk c [cm_port cam]" w conns] o bulk_of_one_spares by simp
  with Cons.IH [of w1] o show ?case by (auto simp: case_prod_unfold Let_def intro: adds_only_trans)
qed (simp add: adds_only_refl)

text \<open>A guarded body is run or not.\<close>

lemma with_switch_lock_world:
  assumes "with_switch_lock ops cfg now owner lk switch_id port operation cooled body st w = (res, st', w')"
  shows "w' = w \<or> w' = snd (body w)"
  using assms by (auto simp: with_switch_lock_def case_prod_unfold Let_def split: sum.splits option.splits if_splits)

text \<open>C4: Rebooting all cameras of a switch takes them one at a time: every connection the request opens gives orders to at
  most one port, and leaves that port without power by the last order confirmed only if its recovery failed too.\<close>

theorem cameras_lose_power_one_at_a_time:
  "adds_only spares_the_others w (snd (snd (reboot_all_camera_ports ops wcfg rcfg ccfg conns now owner lk switch_id row user st w)))"
proof -
  define body where "body = (\<lambda>w. let (ports, w1) = on_new conns (\<lambda>c. Cisco_Client.camera_ports c (camera_vlans ccfg)) w in
                 case ports of
                   None \<Rightarrow> (Inl (Http 503), w1)
                 | Some [] \<Rightarrow> (Inr No_cameras, w1)
                 | Some cams \<Rightarrow>
                     (let ((cycled, failed), w2) = cycle_cameras conns cams w1 in
                      if cycled = [] then (Inl (Http 502), w2)
                      else (let (back, w3) = back_online_map conns rcfg (camera_vlans ccfg) cycled w2
                            in (Inr (Rebooted_ports (length cycled) (length failed) (length (filter snd back))), w3))))"
  have body_adds: "adds_only spares_the_others w (snd (body w))"
  proof -
    obtain ports w1 where o: "on_new conns (\<lambda>c. Cisco_Client.camera_ports c (camera_vlans ccfg)) w = (ports, w1)" by fastforce
    have a: "adds_only spares_the_others w w1"
      using on_new_adds [of spares_the_others "\<lambda>c. Cisco_Client.camera_ports c (camera_vlans ccfg)" w conns] o quiet_camera_ports quiet_spares by simp
    have b: "adds_only spares_the_others w1 (snd (cycle_cameras conns cams w1))" for cams by (rule cycle_cameras_adds)
    have c: "adds_only spares_the_others w2 (snd (back_online_map conns rcfg (camera_vlans ccfg) ps w2))" for ps w2
      unfolding back_online_map_def by (rule verify_cameras_adds)
    show ?thesis
    proof (cases ports)
      case None
      then show ?thesis using o a by (simp add: body_def)
    next
      case (Some cams)
      show ?thesis
      proof (cases cams)
        case Nil
        then show ?thesis using o a Some by (simp add: body_def)
      next
        case (Cons cam rest)
        obtain cycled failed w2 where cc: "cycle_cameras conns cams w1 = ((cycled, failed), w2)" by (metis surj_pair)
        have "adds_only spares_the_others w w2" using a b [of cams] cc adds_only_trans by fastforce
        moreover have "snd (body w) = (if cycled = [] then w2 else snd (back_online_map conns rcfg (camera_vlans ccfg) cycled w2))"
          using o Some Cons cc by (simp add: body_def case_prod_unfold Let_def)
        ultimately show ?thesis using c [of w2 cycled] adds_only_trans by auto
      qed
    qed
  qed
  have "adds_only spares_the_others w (snd (snd (with_switch_lock ops wcfg now owner lk switch_id ''*'' ''reboot_cameras_bulk'' True body st w)))"
    using with_switch_lock_world [of ops wcfg now owner lk switch_id "''*''" "''reboot_cameras_bulk''" True body st w] body_adds adds_only_refl
    by (metis prod.collapse)
  then show ?thesis
    unfolding reboot_all_camera_ports_def body_def by (auto simp: adds_only_refl split: option.splits)
qed

subsection \<open>The cycle over the real client\<close>

definition no_cdp :: "string option + device \<Rightarrow> bool" where
  "no_cdp conn \<longleftrightarrow> (case conn of Inl _ \<Rightarrow> True | Inr dev \<Rightarrow> snd (execute dev ''show cdp neighbors detail'' []) = None)"

lemma scan_fails_iff: "snd (access_points conn vlan []) = None \<longleftrightarrow> no_cdp conn"
  by (auto simp: access_points_def no_cdp_def Let_def split: sum.splits prod.splits option.splits)

lemma streaks_after_outcome:
  "rs_unreachable_cycles (fst (register_switch_outcome cfg now alive known sw)) = (if alive then 0 else rs_unreachable_cycles sw + 1)"
  "\<not> alive \<Longrightarrow> rs_no_aps_cycles (fst (register_switch_outcome cfg now alive known sw)) = rs_no_aps_cycles sw"
  "poe_cycles (snd (register_switch_outcome cfg now alive known sw)) = []"
  by (auto simp: register_switch_outcome_def Let_def)

text \<open>C5: The reboot cycle over the SSH client takes a switch for unreachable exactly when it has no session on it or the CDP
  command raises. Then it cycles no port, opens no further connection, leaves the registry of access points alone and counts an
  unreachable cycle, not one without access points. In every other case, an answer that lists no access point included, the
  count of unreachable cycles starts again.\<close>

theorem unscanned_switch_is_left_alone:
  "case run_ap_reboot_for_switch (cisco_ap_ops conns (rs_ap_vlan sw)) cfg new_id now sw (w, tab) of
     (res, sw', (w', tab'), steps) \<Rightarrow>
       (if no_cdp (conns (cw_opened w))
        then cy_end res = Switch_unreachable \<and> poe_cycles steps = [] \<and> tab' = tab \<and> cw_opened w' = Suc (cw_opened w)
          \<and> rs_unreachable_cycles sw' = rs_unreachable_cycles sw + 1 \<and> rs_no_aps_cycles sw' = rs_no_aps_cycles sw
        else cy_end res \<noteq> Switch_unreachable \<and> rs_unreachable_cycles sw' = 0)"
proof -
  define found where "found = snd (access_points (conns (cw_opened w)) (rs_ap_vlan sw) [])"
  define w1 where "w1 = w\<lparr>cw_opened := Suc (cw_opened w), cw_sent := cw_sent w @ [fst (access_points (conns (cw_opened w)) (rs_ap_vlan sw) [])]\<rparr>"
  have scan: "ao_scan (cisco_ap_ops conns (rs_ap_vlan sw)) w = (found, w1)"
    by (simp add: cisco_ap_ops_def on_new_def case_prod_unfold Let_def w1_def found_def)
  have opened: "cw_opened w1 = Suc (cw_opened w)" by (simp add: w1_def)
  show ?thesis
  proof (cases found)
    case None
    then have "no_cdp (conns (cw_opened w))" by (simp add: found_def flip: scan_fails_iff [of _ "rs_ap_vlan sw"])
    then show ?thesis using None scan opened
      by (simp add: run_ap_reboot_for_switch_def run_ap_reboot_cycle_def case_prod_unfold Let_def ap_log_def streaks_after_outcome)
  next
    case (Some aps)
    then have "\<not> no_cdp (conns (cw_opened w))" by (simp add: found_def flip: scan_fails_iff [of _ "rs_ap_vlan sw"])
    then show ?thesis using Some scan
      by (simp add: run_ap_reboot_for_switch_def run_ap_reboot_cycle_def case_prod_unfold Let_def streaks_after_outcome)
  qed
qed

end
