(* ===== verification/Identity.thy ===== *)
theory Identity
  imports Http
begin

section \<open>Users, tokens and stored secrets\<close>

text \<open>
  \<open>app/core/security.py\<close>, \<open>app/api/deps.py\<close>, \<open>app/api/routes/auth.py\<close>, \<open>app/api/routes/users.py\<close>,
  \<open>app/domains/identity\<close> and \<open>app/core/crypto.py\<close>. An instant is a count of microseconds. PyJWT, argon2, bcrypt,
  Fernet and Redis are not under src/: what the code calls of them are fields of \<open>auth_env\<close> and
  arguments. \<open>jwt.decode\<close> is what its documentation says: the payload of a token with a valid
  signature, unless its expiry time has come. A commit of the user table is the table returned, and a background task waits in
  \<open>at_tasks\<close> for the end of its request; the counters
  are left out.
\<close>

record user =
  us_id :: uid
  us_email :: string
  us_hash :: string
  us_full_name :: "ustr option"
  us_active :: bool
  us_superuser :: bool
  us_last_seen :: "instant option"
  us_created :: instant
  us_updated :: "instant option"

record claims =
  cl_exp :: "int option"
  cl_sub :: "string option"
  cl_jti :: "string option"
  cl_type :: "string option"

text \<open>The password libraries; \<open>None\<close> for an exception the code does not catch. A hash is salted, so the
  n-th call gives a hash of its own.\<close>

record pw_ops =
  pw_bcrypt_check :: "string \<Rightarrow> string \<Rightarrow> bool option"
  pw_argon_verify :: "string \<Rightarrow> string \<Rightarrow> bool option"
  pw_argon_stale :: "string \<Rightarrow> bool"
  pw_argon_hash :: "nat \<Rightarrow> string \<Rightarrow> string"

record 'r auth_env =
  ae_payload :: "string \<Rightarrow> claims option"
  ae_encode :: "claims \<Rightarrow> string"
  ae_uuid4 :: "nat \<Rightarrow> string"
  ae_pw :: pw_ops
  ae_setex :: "instant \<Rightarrow> string \<Rightarrow> int \<Rightarrow> 'r \<Rightarrow> 'r \<times> unit reply"
  ae_exists :: "instant \<Rightarrow> string \<Rightarrow> 'r \<Rightarrow> 'r \<times> bool reply"
  ae_set_nx :: "instant \<Rightarrow> string \<Rightarrow> int \<Rightarrow> 'r \<Rightarrow> 'r \<times> bool reply"
  ae_access_minutes :: int
  ae_refresh_minutes :: int
  ae_referenced :: "uid \<Rightarrow> bool"

text \<open>\<open>ae_referenced\<close>: a row of another table (a stored credential, an account of the remote access module) refers to
  the user; the foreign keys have no action, so the database refuses to delete it.\<close>

record 'r auth_state =
  at_users :: "user list"
  at_redis :: 'r
  at_fresh :: nat
  at_tasks :: "(uid \<times> instant) list"

subsection \<open>Passwords and tokens (core/security.py)\<close>

definition legacy_hash :: "string \<Rightarrow> bool" where
  "legacy_hash h \<longleftrightarrow> starts_with ''$2b$'' h \<or> starts_with ''$2a$'' h"

definition verify_password :: "pw_ops \<Rightarrow> string \<Rightarrow> string \<Rightarrow> bool option" where
  "verify_password pw plain h = (if legacy_hash h then pw_bcrypt_check pw plain h else pw_argon_verify pw h plain)"

definition needs_rehash :: "pw_ops \<Rightarrow> string \<Rightarrow> bool" where
  "needs_rehash pw h = (if legacy_hash h then True else pw_argon_stale pw h)"

definition get_password_hash :: "'r auth_env \<Rightarrow> string \<Rightarrow> 'r auth_state \<Rightarrow> string \<times> 'r auth_state" where
  "get_password_hash env plain st = (pw_argon_hash (ae_pw env) (at_fresh st) plain, st\<lparr>at_fresh := Suc (at_fresh st)\<rparr>)"

text \<open>\<open>exp\<close> goes into the token in whole seconds.\<close>

definition create_token :: "'r auth_env \<Rightarrow> instant \<Rightarrow> int \<Rightarrow> string \<Rightarrow> string \<Rightarrow> 'r auth_state \<Rightarrow> string \<times> 'r auth_state" where
  "create_token env now minutes type subject st =
     (ae_encode env \<lparr>cl_exp = Some ((now + minutes * 60 * 1000000) div 1000000), cl_sub = Some subject,
                     cl_jti = Some (ae_uuid4 env (at_fresh st)), cl_type = Some type\<rparr>,
      st\<lparr>at_fresh := Suc (at_fresh st)\<rparr>)"

definition create_access_token where
  "create_access_token env now subject st = create_token env now (ae_access_minutes env) ''access'' subject st"

definition create_refresh_token where
  "create_refresh_token env now subject st = create_token env now (ae_refresh_minutes env) ''refresh'' subject st"

definition blacklist_key :: "string \<Rightarrow> string" where
  "blacklist_key jti = ''jwt:blacklist:'' @ jti"

definition blacklist_token :: "'r auth_env \<Rightarrow> instant \<Rightarrow> string \<Rightarrow> int \<Rightarrow> 'r \<Rightarrow> 'r \<times> unit reply" where
  "blacklist_token env now jti ttl r = ae_setex env now (blacklist_key jti) ttl r"

definition is_token_blacklisted :: "'r auth_env \<Rightarrow> instant \<Rightarrow> string \<Rightarrow> 'r \<Rightarrow> 'r \<times> bool reply" where
  "is_token_blacklisted env now jti r = ae_exists env now (blacklist_key jti) r"

definition jwt_decode :: "'r auth_env \<Rightarrow> instant \<Rightarrow> string \<Rightarrow> claims option" where
  "jwt_decode env now tok =
     (case ae_payload env tok of
        None \<Rightarrow> None
      | Some cl \<Rightarrow> (case cl_exp cl of None \<Rightarrow> Some cl | Some e \<Rightarrow> if e * 1000000 \<le> now then None else Some cl))"

subsection \<open>Users (domains/identity)\<close>

text \<open>The letters and digits below U+0100, as \<open>str.isalpha\<close> and \<open>str.isdigit\<close> have them.\<close>

definition latin_alpha :: "char \<Rightarrow> bool" where
  "latin_alpha c = (let n = (of_char c :: nat) in
     (65 \<le> n \<and> n \<le> 90) \<or> (97 \<le> n \<and> n \<le> 122) \<or> n = 170 \<or> n = 181 \<or> n = 186 \<or> (192 \<le> n \<and> n \<noteq> 215 \<and> n \<noteq> 247))"

definition latin_digit :: "char \<Rightarrow> bool" where
  "latin_digit c = (is_digit c \<or> (let n = (of_char c :: nat) in n = 178 \<or> n = 179 \<or> n = 185))"

definition validate_password_strength :: "string \<Rightarrow> bool" where
  "validate_password_strength v \<longleftrightarrow>
     8 \<le> length v \<and> length v \<le> 128 \<and> \<not> list_all latin_digit v \<and> \<not> list_all latin_alpha v"

record user_create =
  uc_email :: string
  uc_password :: string
  uc_full_name :: "ustr option"
  uc_superuser :: bool

text \<open>A field of a PATCH body: absent, or present with a value that may be null.\<close>

record user_update =
  uu_email :: "string option option"
  uu_password :: "string option option"
  uu_full_name :: "ustr option option"
  uu_superuser :: "bool option option"
  uu_active :: "bool option option"

definition get_user_by_email :: "string \<Rightarrow> user list \<Rightarrow> user option" where
  "get_user_by_email email tab = find (\<lambda>u. us_email u = email) tab"

definition create_user :: "'r auth_env \<Rightarrow> instant \<Rightarrow> user_create \<Rightarrow> 'r auth_state \<Rightarrow> user \<times> 'r auth_state" where
  "create_user env now body st =
     (let (h, st1) = get_password_hash env (uc_password body) st;
          row = \<lparr>us_id = ae_uuid4 env (at_fresh st1), us_email = uc_email body, us_hash = h, us_full_name = uc_full_name body,
                 us_active = True, us_superuser = uc_superuser body, us_last_seen = None, us_created = now, us_updated = None\<rparr>
      in (row, st1\<lparr>at_fresh := Suc (at_fresh st1), at_users := at_users st1 @ [row]\<rparr>))"

text \<open>\<open>sqlmodel_update\<close> with the fields that are present; a null in a column that takes none fails the commit, and a null
  password fails in the hasher.\<close>

definition patch_user :: "user_update \<Rightarrow> string option \<Rightarrow> user \<Rightarrow> user" where
  "patch_user body new_hash u = u\<lparr>
     us_email := (case uu_email body of Some (Some e) \<Rightarrow> e | _ \<Rightarrow> us_email u),
     us_hash := (case new_hash of Some h \<Rightarrow> h | None \<Rightarrow> us_hash u),
     us_full_name := (case uu_full_name body of Some n \<Rightarrow> n | None \<Rightarrow> us_full_name u),
     us_superuser := (case uu_superuser body of Some (Some b) \<Rightarrow> b | _ \<Rightarrow> us_superuser u),
     us_active := (case uu_active body of Some (Some b) \<Rightarrow> b | _ \<Rightarrow> us_active u)\<rparr>"

definition nulls_a_column :: "user_update \<Rightarrow> bool" where
  "nulls_a_column body \<longleftrightarrow>
     uu_email body = Some None \<or> uu_password body = Some None \<or> uu_superuser body = Some None \<or> uu_active body = Some None"

definition crud_update_user :: "'r auth_env \<Rightarrow> instant \<Rightarrow> user \<Rightarrow> user_update \<Rightarrow> 'r auth_state \<Rightarrow> (http_error + user) \<times> 'r auth_state" where
  "crud_update_user env now u body st =
     (if nulls_a_column body then (Inl (Http 500), st)
      else (let (new_hash, st1) = (case uu_password body of
                    Some (Some p) \<Rightarrow> (let (h, s) = get_password_hash env p st in (Some h, s))
                  | _ \<Rightarrow> (None, st));
                u' = (patch_user body new_hash u)\<lparr>us_updated := Some now\<rparr>
            in (Inr u', st1\<lparr>at_users := put_row us_id u' (at_users st1)\<rparr>)))"

text \<open>\<open>None\<close> in the answer for wrong credentials.\<close>

definition authenticate :: "'r auth_env \<Rightarrow> string \<Rightarrow> string \<Rightarrow> 'r auth_state \<Rightarrow> (http_error + user option) \<times> 'r auth_state" where
  "authenticate env email password st =
     (case get_user_by_email email (at_users st) of
        None \<Rightarrow> (Inr None, st)
      | Some u \<Rightarrow>
          (case verify_password (ae_pw env) password (us_hash u) of
             None \<Rightarrow> (Inl (Http 500), st)
           | Some False \<Rightarrow> (Inr None, st)
           | Some True \<Rightarrow>
               if needs_rehash (ae_pw env) (us_hash u) then
                 (let (h, st1) = get_password_hash env password st; u' = u\<lparr>us_hash := h\<rparr>
                  in (Inr (Some u'), st1\<lparr>at_users := put_row us_id u' (at_users st1)\<rparr>))
               else (Inr (Some u), st)))"

subsection \<open>Who is asking (api/deps.py)\<close>

text \<open>\<open>uuid.UUID(s)\<close> as far as the texts in our tokens go: braces and hyphens dropped, 32 hex digits left, printed
  in the canonical form. (Its \<open>urn:\<close> prefix and \<open>int\<close>'s underscores, which no token of ours has, are refused here.)\<close>

definition hex_digit :: "char \<Rightarrow> bool" where
  "hex_digit c \<longleftrightarrow> c \<in> set ''0123456789abcdefABCDEF''"

definition uuid_of :: "string \<Rightarrow> uid option" where
  "uuid_of s =
     (let h = lower (filter (\<lambda>c. c \<noteq> CHR ''-'') (filter (\<lambda>c. c \<noteq> CHR ''{'' \<and> c \<noteq> CHR ''}'') s)) in
      if length h = 32 \<and> list_all hex_digit h
      then Some (join ''-'' [take 8 h, take 4 (drop 8 h), take 4 (drop 12 h), take 4 (drop 16 h), drop 20 h]) else None)"

definition subject_user :: "claims \<Rightarrow> user list \<Rightarrow> user option" where
  "subject_user cl tab =
     (case truthy (cl_sub cl) of
        None \<Rightarrow> None
      | Some s \<Rightarrow> (case uuid_of s of None \<Rightarrow> None | Some i \<Rightarrow> find_row us_id i tab))"

text \<open>Whether the token with these claims is revoked; \<open>None\<close> when Redis fails, which no route catches.\<close>

definition revoked :: "'r auth_env \<Rightarrow> instant \<Rightarrow> claims \<Rightarrow> 'r auth_state \<Rightarrow> bool option \<times> 'r auth_state" where
  "revoked env now cl st =
     (case truthy (cl_jti cl) of
        None \<Rightarrow> (Some False, st)
      | Some jti \<Rightarrow>
          (case is_token_blacklisted env now jti (at_redis st) of
             (r', Failed) \<Rightarrow> (None, st\<lparr>at_redis := r'\<rparr>)
           | (r', Reply b) \<Rightarrow> (Some b, st\<lparr>at_redis := r'\<rparr>)))"

definition last_seen_throttle :: int where
  "last_seen_throttle = 300"

definition last_seen_key :: "uid \<Rightarrow> string" where
  "last_seen_key i = ''last_seen:'' @ i"

text \<open>The background task that stores when a user was last seen, over a session of its own.\<close>

definition persist_last_seen :: "uid \<Rightarrow> instant \<Rightarrow> user list \<Rightarrow> user list" where
  "persist_last_seen i seen tab =
     (case find_row us_id i tab of None \<Rightarrow> tab | Some u \<Rightarrow> put_row us_id (u\<lparr>us_last_seen := Some seen\<rparr>) tab)"

text \<open>The tasks run after a response; the answer to an exception runs none.\<close>

definition respond :: "bool \<Rightarrow> 'r auth_state \<Rightarrow> 'r auth_state" where
  "respond ok st = st\<lparr>at_tasks := [],
     at_users := (if ok then fold (\<lambda>(i, seen). persist_last_seen i seen) (at_tasks st) (at_users st) else at_users st)\<rparr>"

definition get_current_user :: "'r auth_env \<Rightarrow> instant \<Rightarrow> string \<Rightarrow> 'r auth_state \<Rightarrow> (http_error + user) \<times> 'r auth_state" where
  "get_current_user env now tok st =
     (case jwt_decode env now tok of
        None \<Rightarrow> (Inl (Http 403), st)
      | Some cl \<Rightarrow>
          if cl_type cl \<noteq> Some ''access'' then (Inl (Http 401), st)
          else (case revoked env now cl st of
             (None, st1) \<Rightarrow> (Inl (Http 500), st1)
           | (Some True, st1) \<Rightarrow> (Inl (Http 401), st1)
           | (Some False, st1) \<Rightarrow>
               (case subject_user cl (at_users st1) of
                  None \<Rightarrow> (Inl (Http 401), st1)
                | Some u \<Rightarrow>
                    if \<not> us_active u then (Inl (Http 400), st1)
                    else (case ae_set_nx env now (last_seen_key (us_id u)) last_seen_throttle (at_redis st1) of
                       (r', Reply True) \<Rightarrow> (Inr u, st1\<lparr>at_redis := r', at_tasks := at_tasks st1 @ [(us_id u, now)]\<rparr>)
                     | (r', _) \<Rightarrow> (Inr u, st1\<lparr>at_redis := r'\<rparr>)))))"

definition get_current_active_superuser :: "'r auth_env \<Rightarrow> instant \<Rightarrow> string \<Rightarrow> 'r auth_state \<Rightarrow> (http_error + user) \<times> 'r auth_state" where
  "get_current_active_superuser env now tok st =
     (case get_current_user env now tok st of
        (Inl e, st1) \<Rightarrow> (Inl e, st1)
      | (Inr u, st1) \<Rightarrow> if us_superuser u then (Inr u, st1) else (Inl (Http 403), st1))"

subsection \<open>Logging in and out (api/routes/auth.py)\<close>

definition decode_token_payload :: "'r auth_env \<Rightarrow> instant \<Rightarrow> string \<Rightarrow> string \<Rightarrow> claims option" where
  "decode_token_payload env now tok expected =
     (case jwt_decode env now tok of None \<Rightarrow> None | Some cl \<Rightarrow> if cl_type cl = Some expected then Some cl else None)"

text \<open>\<open>int(exp - now)\<close> seconds, and nothing when less than a second is left.\<close>

definition blacklist_payload :: "'r auth_env \<Rightarrow> instant \<Rightarrow> claims \<Rightarrow> 'r auth_state \<Rightarrow> bool \<times> 'r auth_state" where
  "blacklist_payload env now cl st =
     (case (truthy (cl_jti cl), cl_exp cl) of
        (Some jti, Some e) \<Rightarrow>
          (let ttl = (e * 1000000 - now) div 1000000 in
           if e = 0 \<or> ttl \<le> 0 then (True, st)
           else (case blacklist_token env now jti ttl (at_redis st) of (r', rep) \<Rightarrow> (rep \<noteq> Failed, st\<lparr>at_redis := r'\<rparr>)))
      | _ \<Rightarrow> (True, st))"

record token_answer =
  ta_access :: string
  ta_refresh_cookie :: string

definition issue_tokens :: "'r auth_env \<Rightarrow> instant \<Rightarrow> uid \<Rightarrow> 'r auth_state \<Rightarrow> token_answer \<times> 'r auth_state" where
  "issue_tokens env now i st =
     (let (rt, st1) = create_refresh_token env now i st; (acc, st2) = create_access_token env now i st1
      in (\<lparr>ta_access = acc, ta_refresh_cookie = rt\<rparr>, st2))"

definition login_access_token ::
    "'r auth_env \<Rightarrow> instant \<Rightarrow> string \<Rightarrow> string \<Rightarrow> 'r auth_state \<Rightarrow> (http_error + token_answer) \<times> 'r auth_state" where
  "login_access_token env now username password st =
     (case authenticate env username password st of
        (Inl e, st1) \<Rightarrow> (Inl e, st1)
      | (Inr None, st1) \<Rightarrow> (Inl (Http 400), st1)
      | (Inr (Some u), st1) \<Rightarrow>
          if \<not> us_active u then (Inl (Http 400), st1)
          else (let (a, st2) = issue_tokens env now (us_id u) st1 in (Inr a, st2)))"

text \<open>The refresh route up to its check of the blacklist and the user, and from there on: other requests run
  in between, wherever the code awaits Redis.\<close>

definition refresh_check :: "'r auth_env \<Rightarrow> instant \<Rightarrow> string option \<Rightarrow> 'r auth_state \<Rightarrow> (http_error + claims \<times> user) \<times> 'r auth_state" where
  "refresh_check env now cookie st =
     (case truthy cookie of
        None \<Rightarrow> (Inl (Http 401), st)
      | Some tok \<Rightarrow>
          (case decode_token_payload env now tok ''refresh'' of
             None \<Rightarrow> (Inl (Http 401), st)
           | Some cl \<Rightarrow>
               (case revoked env now cl st of
                  (None, st1) \<Rightarrow> (Inl (Http 500), st1)
                | (Some True, st1) \<Rightarrow> (Inl (Http 401), st1)
                | (Some False, st1) \<Rightarrow>
                    (case subject_user cl (at_users st1) of
                       None \<Rightarrow> (Inl (Http 401), st1)
                     | Some u \<Rightarrow> if us_active u then (Inr (cl, u), st1) else (Inl (Http 401), st1)))))"

definition refresh_rotate :: "'r auth_env \<Rightarrow> instant \<Rightarrow> claims \<Rightarrow> user \<Rightarrow> 'r auth_state \<Rightarrow> (http_error + token_answer) \<times> 'r auth_state" where
  "refresh_rotate env now cl u st =
     (case blacklist_payload env now cl st of
        (False, st1) \<Rightarrow> (Inl (Http 500), st1)
      | (True, st1) \<Rightarrow> (let (a, st2) = issue_tokens env now (us_id u) st1 in (Inr a, st2)))"

definition refresh_access_token :: "'r auth_env \<Rightarrow> instant \<Rightarrow> string option \<Rightarrow> 'r auth_state \<Rightarrow> (http_error + token_answer) \<times> 'r auth_state" where
  "refresh_access_token env now cookie st =
     (case refresh_check env now cookie st of
        (Inl e, st1) \<Rightarrow> (Inl e, st1)
      | (Inr (cl, u), st1) \<Rightarrow> refresh_rotate env now cl u st1)"

text \<open>\<open>False\<close> in the answer for a 500; the cookie is deleted either way.\<close>

definition logout :: "'r auth_env \<Rightarrow> instant \<Rightarrow> string \<Rightarrow> string option \<Rightarrow> 'r auth_state \<Rightarrow> bool \<times> 'r auth_state" where
  "logout env now tok cookie st =
     (let (ok1, st1) = (case truthy cookie of
                None \<Rightarrow> (True, st)
              | Some c \<Rightarrow> (case decode_token_payload env now c ''refresh'' of
                              None \<Rightarrow> (True, st)
                            | Some cl \<Rightarrow> blacklist_payload env now cl st))
      in if \<not> ok1 then (False, st1)
         else (case decode_token_payload env now tok ''access'' of
                 None \<Rightarrow> (True, st1)
               | Some cl \<Rightarrow> blacklist_payload env now cl st1))"

subsection \<open>User administration (api/routes/users.py)\<close>

definition create_user_by_admin :: "'r auth_env \<Rightarrow> instant \<Rightarrow> string \<Rightarrow> user_create \<Rightarrow> 'r auth_state \<Rightarrow> (http_error + user) \<times> 'r auth_state" where
  "create_user_by_admin env now tok body st =
     (case get_current_active_superuser env now tok st of
        (Inl e, st1) \<Rightarrow> (Inl e, st1)
      | (Inr _, st1) \<Rightarrow>
          if \<not> validate_password_strength (uc_password body) then (Inl (Http 422), st1)
          else if get_user_by_email (uc_email body) (at_users st1) \<noteq> None then (Inl (Http 400), st1)
          else (let (u, st2) = create_user env now body st1 in (Inr u, st2)))"

text \<open>The address belongs to another user.\<close>

definition email_taken :: "string option option \<Rightarrow> uid \<Rightarrow> user list \<Rightarrow> bool" where
  "email_taken field i tab =
     (case field of
        Some (Some e) \<Rightarrow> (case get_user_by_email e tab of None \<Rightarrow> False | Some other \<Rightarrow> e \<noteq> [] \<and> us_id other \<noteq> i)
      | _ \<Rightarrow> False)"

record user_update_me =
  um_full_name :: "ustr option option"
  um_email :: "string option option"

definition update_user_me :: "'r auth_env \<Rightarrow> instant \<Rightarrow> string \<Rightarrow> user_update_me \<Rightarrow> 'r auth_state \<Rightarrow> (http_error + user) \<times> 'r auth_state" where
  "update_user_me env now tok body st =
     (case get_current_user env now tok st of
        (Inl e, st1) \<Rightarrow> (Inl e, st1)
      | (Inr u, st1) \<Rightarrow>
          if email_taken (um_email body) (us_id u) (at_users st1) then (Inl (Http 409), st1)
          else if um_email body = Some None then (Inl (Http 500), st1)
          else (let u' = patch_user \<lparr>uu_email = um_email body, uu_password = None, uu_full_name = um_full_name body,
                                     uu_superuser = None, uu_active = None\<rparr> None u
                in (Inr u', st1\<lparr>at_users := put_row us_id u' (at_users st1)\<rparr>)))"

definition update_password_me :: "'r auth_env \<Rightarrow> instant \<Rightarrow> string \<Rightarrow> string \<Rightarrow> string \<Rightarrow> 'r auth_state \<Rightarrow> http_error option \<times> 'r auth_state" where
  "update_password_me env now tok current new st =
     (case get_current_user env now tok st of
        (Inl e, st1) \<Rightarrow> (Some e, st1)
      | (Inr u, st1) \<Rightarrow>
          if \<not> validate_password_strength new then (Some (Http 422), st1)
          else (case verify_password (ae_pw env) current (us_hash u) of
             None \<Rightarrow> (Some (Http 500), st1)
           | Some False \<Rightarrow> (Some (Http 400), st1)
           | Some True \<Rightarrow>
               if current = new then (Some (Http 400), st1)
               else (let (h, st2) = get_password_hash env new st1
                     in (None, st2\<lparr>at_users := put_row us_id (u\<lparr>us_hash := h\<rparr>) (at_users st2)\<rparr>))))"

definition update_user :: "'r auth_env \<Rightarrow> instant \<Rightarrow> string \<Rightarrow> uid \<Rightarrow> user_update \<Rightarrow> 'r auth_state \<Rightarrow> (http_error + user) \<times> 'r auth_state" where
  "update_user env now tok i body st =
     (case get_current_active_superuser env now tok st of
        (Inl e, st1) \<Rightarrow> (Inl e, st1)
      | (Inr _, st1) \<Rightarrow>
          (case find_row us_id i (at_users st1) of
             None \<Rightarrow> (Inl (Http 404), st1)
           | Some u \<Rightarrow>
               if email_taken (uu_email body) i (at_users st1) then (Inl (Http 409), st1)
               else crud_update_user env now u body st1))"

definition delete_user :: "'r auth_env \<Rightarrow> instant \<Rightarrow> string \<Rightarrow> uid \<Rightarrow> 'r auth_state \<Rightarrow> http_error option \<times> 'r auth_state" where
  "delete_user env now tok i st =
     (case get_current_active_superuser env now tok st of
        (Inl e, st1) \<Rightarrow> (Some e, st1)
      | (Inr me, st1) \<Rightarrow>
          (case find_row us_id i (at_users st1) of
             None \<Rightarrow> (Some (Http 404), st1)
           | Some u \<Rightarrow>
               if us_id u = us_id me then (Some (Http 403), st1)
               else if ae_referenced env i then (Some (Http 500), st1)
               else (None, st1\<lparr>at_users := filter (\<lambda>r. us_id r \<noteq> i) (at_users st1)\<rparr>)))"

definition read_user_by_id :: "'r auth_env \<Rightarrow> instant \<Rightarrow> string \<Rightarrow> uid \<Rightarrow> 'r auth_state \<Rightarrow> (http_error + user) \<times> 'r auth_state" where
  "read_user_by_id env now tok i st =
     (case get_current_active_superuser env now tok st of
        (Inl e, st1) \<Rightarrow> (Inl e, st1)
      | (Inr _, st1) \<Rightarrow> (case find_row us_id i (at_users st1) of None \<Rightarrow> Inl (Http 404) | Some u \<Rightarrow> Inr u, st1))"

definition read_users :: "'r auth_env \<Rightarrow> instant \<Rightarrow> string \<Rightarrow> nat \<Rightarrow> nat \<Rightarrow> 'r auth_state \<Rightarrow> (http_error + user list \<times> nat) \<times> 'r auth_state" where
  "read_users env now tok skip limit st =
     (case get_current_active_superuser env now tok st of
        (Inl e, st1) \<Rightarrow> (Inl e, st1)
      | (Inr _, st1) \<Rightarrow> (Inr (take limit (drop skip (sort_key (\<lambda>u. - us_created u) (at_users st1))), length (at_users st1)), st1))"

subsection \<open>A history of requests\<close>

text \<open>\<open>Rotate\<close> is the second half of a refresh whose check of the token and the user came earlier: with it a history
  holds the refreshes that were under way at any of its points.\<close>

datatype auth_op =
    Login string string
  | Refresh "string option"
  | Rotate string user
  | Logout string "string option"
  | Ask string
  | Patch_me string user_update_me
  | Set_password string string string
  | Create_user string user_create
  | Update_user string uid user_update
  | Delete_user string uid

fun auth_step :: "'r auth_env \<Rightarrow> instant \<Rightarrow> auth_op \<Rightarrow> 'r auth_state \<Rightarrow> 'r auth_state" where
  "auth_step env now (Login email password) st = respond True (snd (login_access_token env now email password st))"
| "auth_step env now (Refresh cookie) st = respond True (snd (refresh_access_token env now cookie st))"
| "auth_step env now (Rotate tok u) st =
     (case ae_payload env tok of None \<Rightarrow> st | Some cl \<Rightarrow> respond True (snd (refresh_rotate env now cl u st)))"
| "auth_step env now (Logout tok cookie) st = respond True (snd (logout env now tok cookie st))"
| "auth_step env now (Ask tok) st = (let (x, st') = get_current_user env now tok st in respond (\<not> isl x) st')"
| "auth_step env now (Patch_me tok body) st = (let (x, st') = update_user_me env now tok body st in respond (\<not> isl x) st')"
| "auth_step env now (Set_password tok current new) st = (let (x, st') = update_password_me env now tok current new st in respond (x = None) st')"
| "auth_step env now (Create_user tok body) st = (let (x, st') = create_user_by_admin env now tok body st in respond (\<not> isl x) st')"
| "auth_step env now (Update_user tok i body) st = (let (x, st') = update_user env now tok i body st in respond (\<not> isl x) st')"
| "auth_step env now (Delete_user tok i) st = (let (x, st') = delete_user env now tok i st in respond (x = None) st')"

fun auth_run :: "'r auth_env \<Rightarrow> (instant \<times> auth_op) list \<Rightarrow> 'r auth_state \<Rightarrow> 'r auth_state" where
  "auth_run env [] st = st"
| "auth_run env ((now, op) # h) st = auth_run env h (auth_step env now op st)"

subsection \<open>Revocation\<close>

text \<open>Redis as its documentation has it: a key set with SETEX is there until its seconds have passed, and SET NX of
  another key leaves it. \<open>view\<close> reads the expiry instants off a server state.\<close>

definition store_ok :: "'r auth_env \<Rightarrow> ('r \<Rightarrow> string \<rightharpoonup> instant) \<Rightarrow> bool" where
  "store_ok env view \<longleftrightarrow>
     (\<forall>now k r. \<exists>r'. ae_exists env now k r = (r', Reply (case view r k of None \<Rightarrow> False | Some x \<Rightarrow> now < x)) \<and> view r' = view r)
   \<and> (\<forall>now k ttl r. 0 < ttl \<longrightarrow> (\<exists>r'. ae_setex env now k ttl r = (r', Reply ()) \<and> view r' = (view r)(k \<mapsto> now + ttl * 1000000)))
   \<and> (\<forall>now k ttl r k'. k' \<noteq> k \<longrightarrow> view (fst (ae_set_nx env now k ttl r)) k' = view r k')"

text \<open>Every token has an id of its own (a UUID), so an id belongs to one expiry time.\<close>

definition jti_unique :: "'r auth_env \<Rightarrow> bool" where
  "jti_unique env \<longleftrightarrow>
     (\<forall>tok tok' cl cl'. ae_payload env tok = Some cl \<longrightarrow> ae_payload env tok' = Some cl' \<longrightarrow> cl_jti cl = cl_jti cl' \<longrightarrow> cl_exp cl = cl_exp cl')"

definition blacklisted :: "('r \<Rightarrow> string \<rightharpoonup> instant) \<Rightarrow> string \<Rightarrow> int \<Rightarrow> 'r auth_state \<Rightarrow> bool" where
  "blacklisted view jti e st \<longleftrightarrow> (\<exists>x. view (at_redis st) (blacklist_key jti) = Some x \<and> (e - 1) * 1000000 < x)"

definition issued_by :: "'r auth_env \<Rightarrow> claims \<Rightarrow> bool" where
  "issued_by env cl \<longleftrightarrow> (\<exists>tok. ae_payload env tok = Some cl)"

lemma jwt_decode_issued: "jwt_decode env now tok = Some cl \<Longrightarrow> ae_payload env tok = Some cl"
  by (auto simp: jwt_decode_def split: option.splits if_splits)

lemma decode_payload_issued: "decode_token_payload env now tok ty = Some cl \<Longrightarrow> ae_payload env tok = Some cl"
  by (auto simp: decode_token_payload_def split: option.splits if_splits dest: jwt_decode_issued)

lemma keys_apart: "blacklist_key jti \<noteq> last_seen_key i"
  by (simp add: blacklist_key_def last_seen_key_def)

lemma revoked_keeps:
  assumes "store_ok env view"
  shows "view (at_redis (snd (revoked env now cl st))) = view (at_redis st)"
    and "at_users (snd (revoked env now cl st)) = at_users st"
proof -
  show "view (at_redis (snd (revoked env now cl st))) = view (at_redis st)"
  proof (cases "truthy (cl_jti cl)")
    case (Some jti)
    obtain r' where "ae_exists env now (blacklist_key jti) (at_redis st)
        = (r', Reply (case view (at_redis st) (blacklist_key jti) of None \<Rightarrow> False | Some x \<Rightarrow> now < x))" "view r' = view (at_redis st)"
      using assms unfolding store_ok_def by blast
    with Some show ?thesis by (simp add: revoked_def is_token_blacklisted_def)
  qed (simp add: revoked_def)
  show "at_users (snd (revoked env now cl st)) = at_users st"
    unfolding revoked_def by (simp split: option.splits prod.splits reply.splits)
qed

lemma revoked_value:
  assumes "store_ok env view" "truthy (cl_jti cl) = Some jti"
  shows "fst (revoked env now cl st) = Some (case view (at_redis st) (blacklist_key jti) of None \<Rightarrow> False | Some x \<Rightarrow> now < x)"
proof -
  obtain r' where "ae_exists env now (blacklist_key jti) (at_redis st)
      = (r', Reply (case view (at_redis st) (blacklist_key jti) of None \<Rightarrow> False | Some x \<Rightarrow> now < x))"
    using assms(1) unfolding store_ok_def by blast
  then show ?thesis using assms(2) by (simp add: revoked_def is_token_blacklisted_def)
qed

lemma set_nx_keeps:
  "store_ok env view \<Longrightarrow> view (fst (ae_set_nx env now (last_seen_key i) ttl r)) (blacklist_key jti) = view r (blacklist_key jti)"
  using keys_apart unfolding store_ok_def by blast

lemma get_current_user_keeps:
  assumes "store_ok env view"
  shows "view (at_redis (snd (get_current_user env now tok st))) (blacklist_key jti) = view (at_redis st) (blacklist_key jti)"
proof -
  have r: "view (at_redis st1) = view (at_redis st)" if "revoked env now cl st = (b, st1)" for b cl st1
    using revoked_keeps(1) [OF assms, of now cl st] that by simp
  have n: "view r' (blacklist_key jti) = view r (blacklist_key jti)" if "ae_set_nx env now (last_seen_key i) last_seen_throttle r = (r', rep)" for i r r' rep
    using set_nx_keeps [OF assms, of now i last_seen_throttle r jti] that by simp
  show ?thesis
    unfolding get_current_user_def
    by (auto split: option.splits prod.splits bool.splits reply.splits if_splits dest!: r n)
qed

lemma superuser_keeps:
  assumes "store_ok env view"
  shows "view (at_redis (snd (get_current_active_superuser env now tok st))) (blacklist_key jti) = view (at_redis st) (blacklist_key jti)"
  using get_current_user_keeps [OF assms, of now tok st jti]
  by (auto simp: get_current_active_superuser_def split: prod.splits sum.splits)

lemma whole_seconds: "x < (x div 1000000 + 1) * (1000000 :: int)"
proof -
  have "x mod 1000000 < 1000000" by simp
  then show ?thesis using div_mult_mod_eq [of x 1000000] unfolding distrib_right by linarith
qed

lemma blacklist_payload_keeps:
  assumes ok: "store_ok env view" and u: "jti_unique env" and i: "ae_payload env tok = Some cl"
    and p: "ae_payload env tok0 = Some cl0" "truthy (cl_jti cl0) = Some jti" "cl_exp cl0 = Some e"
    and b: "blacklisted view jti e st"
  shows "blacklisted view jti e (snd (blacklist_payload env now cl st))"
proof (cases "truthy (cl_jti cl)")
  case (Some j)
  show ?thesis
  proof (cases "cl_exp cl")
    case (Some e')
    define ttl where "ttl = (e' * 1000000 - now) div 1000000"
    show ?thesis
    proof (cases "e' = 0 \<or> ttl \<le> 0")
      case True
      then show ?thesis using \<open>truthy (cl_jti cl) = Some j\<close> Some b by (auto simp: blacklist_payload_def ttl_def Let_def)
    next
      case False
      then obtain r' where r: "ae_setex env now (blacklist_key j) ttl (at_redis st) = (r', Reply ())"
          "view r' = (view (at_redis st))(blacklist_key j \<mapsto> now + ttl * 1000000)"
        using ok unfolding store_ok_def by (metis not_le_imp_less)
      have s: "snd (blacklist_payload env now cl st) = st\<lparr>at_redis := r'\<rparr>"
        using \<open>truthy (cl_jti cl) = Some j\<close> Some False r(1) by (simp add: blacklist_payload_def ttl_def Let_def blacklist_token_def)
      show ?thesis
      proof (cases "j = jti")
        case True
        then have "cl_jti cl = cl_jti cl0"
          using \<open>truthy (cl_jti cl) = Some j\<close> p(2) by (simp add: truthy_Some)
        then have "e' = e" using u i p(1,3) Some unfolding jti_unique_def by (metis option.inject)
        moreover have "e' * 1000000 - now < (ttl + 1) * 1000000" unfolding ttl_def by (rule whole_seconds)
        ultimately show ?thesis using s r(2) True by (simp add: blacklisted_def algebra_simps)
      next
        case False
        then have "blacklist_key jti \<noteq> blacklist_key j" by (simp add: blacklist_key_def)
        then show ?thesis using s r(2) b by (simp add: blacklisted_def)
      qed
    qed
  qed (use b in \<open>simp add: blacklist_payload_def split: option.splits\<close>)
qed (use b in \<open>simp add: blacklist_payload_def\<close>)

lemma blacklist_payload_adds:
  assumes "store_ok env view" "truthy (cl_jti cl) = Some jti" "cl_exp cl = Some e" "0 < e" "now \<le> (e - 1) * 1000000"
  shows "blacklisted view jti e (snd (blacklist_payload env now cl st))"
proof -
  define ttl where "ttl = (e * 1000000 - now) div 1000000"
  have "0 < ttl" using assms(5) unfolding ttl_def by (simp add: pos_imp_zdiv_pos_iff)
  then obtain r' where r: "ae_setex env now (blacklist_key jti) ttl (at_redis st) = (r', Reply ())"
      "view r' = (view (at_redis st))(blacklist_key jti \<mapsto> now + ttl * 1000000)"
    using assms(1) unfolding store_ok_def by metis
  have "snd (blacklist_payload env now cl st) = st\<lparr>at_redis := r'\<rparr>"
    using assms(2-4) \<open>0 < ttl\<close> r(1) by (simp add: blacklist_payload_def ttl_def Let_def blacklist_token_def)
  moreover have "e * 1000000 - now < (ttl + 1) * 1000000" unfolding ttl_def by (rule whole_seconds)
  ultimately show ?thesis using r(2) by (simp add: blacklisted_def algebra_simps)
qed

lemma respond_redis [simp]: "at_redis (respond ok st) = at_redis st"
  by (simp add: respond_def)

lemma token_redis: "create_token env now minutes ty subject st = (t, st') \<Longrightarrow> at_redis st' = at_redis st \<and> at_users st' = at_users st \<and> at_tasks st' = at_tasks st"
  by (auto simp: create_token_def)

lemma issue_tokens_keeps:
  "at_redis (snd (issue_tokens env now i st)) = at_redis st" "at_users (snd (issue_tokens env now i st)) = at_users st"
  "at_tasks (snd (issue_tokens env now i st)) = at_tasks st"
  by (auto simp: issue_tokens_def create_refresh_token_def create_access_token_def Let_def dest!: token_redis split: prod.splits)

lemma hash_redis: "get_password_hash env p st = (h, st') \<Longrightarrow> at_redis st' = at_redis st \<and> at_users st' = at_users st"
  by (auto simp: get_password_hash_def)

lemma authenticate_redis: "at_redis (snd (authenticate env email password st)) = at_redis st"
  by (auto simp: authenticate_def Let_def split: option.splits bool.splits prod.splits dest!: hash_redis)

lemma login_redis: "at_redis (snd (login_access_token env now email password st)) = at_redis st"
  using authenticate_redis [of env email password st]
  by (auto simp: login_access_token_def case_prod_unfold Let_def issue_tokens_keeps split: sum.splits option.splits)

lemma crud_update_redis: "at_redis (snd (crud_update_user env now u body st)) = at_redis st"
  by (auto simp: crud_update_user_def Let_def split: option.splits prod.splits dest!: hash_redis)

lemma create_user_redis: "at_redis (snd (create_user env now body st)) = at_redis st"
  by (auto simp: create_user_def Let_def split: prod.splits dest!: hash_redis)

lemma blacklisted_cong:
  "view (at_redis s') (blacklist_key jti) = view (at_redis s) (blacklist_key jti) \<Longrightarrow> blacklisted view jti e s \<Longrightarrow> blacklisted view jti e s'"
  by (simp add: blacklisted_def)

lemma refresh_check_keeps:
  assumes "store_ok env view" "blacklisted view jti e st" "refresh_check env now cookie st = (x, st1)"
  shows "blacklisted view jti e st1"
    and "x = Inr (cl, u) \<Longrightarrow> issued_by env cl"
proof -
  have r: "blacklisted view jti e s1" if "revoked env now cl st = (b, s1)" for cl b s1
    using revoked_keeps(1) [OF assms(1), of now cl st] assms(2) that by (simp add: blacklisted_def)
  show "blacklisted view jti e st1"
    using assms(2,3) unfolding refresh_check_def
    by (auto split: option.splits prod.splits bool.splits if_splits dest: r)
  show "issued_by env cl" if "x = Inr (cl, u)"
    using assms(3) that unfolding refresh_check_def issued_by_def
    by (auto split: option.splits prod.splits bool.splits if_splits dest: decode_payload_issued)
qed

lemma rotate_keeps:
  assumes "store_ok env view" "jti_unique env" "ae_payload env tok = Some cl"
    and "ae_payload env tok0 = Some cl0" "truthy (cl_jti cl0) = Some jti" "cl_exp cl0 = Some e" "blacklisted view jti e st"
  shows "blacklisted view jti e (snd (refresh_rotate env now cl u st))"
  using blacklist_payload_keeps [OF assms, of now]
  by (auto simp: refresh_rotate_def case_prod_unfold Let_def blacklisted_def issue_tokens_keeps split: bool.splits)

lemma refresh_keeps:
  assumes ok: "store_ok env view" "jti_unique env"
    and p: "ae_payload env tok0 = Some cl0" "truthy (cl_jti cl0) = Some jti" "cl_exp cl0 = Some e"
    and b: "blacklisted view jti e st"
  shows "blacklisted view jti e (snd (refresh_access_token env now cookie st))"
proof -
  obtain x st1 where c: "refresh_check env now cookie st = (x, st1)" by fastforce
  have b1: "blacklisted view jti e st1" by (rule refresh_check_keeps(1) [OF ok(1) b c])
  show ?thesis
  proof (cases x)
    case (Inl err)
    then show ?thesis using c b1 by (simp add: refresh_access_token_def)
  next
    case (Inr cu)
    obtain cl us where cu: "cu = (cl, us)" by fastforce
    obtain tok where "ae_payload env tok = Some cl"
      using refresh_check_keeps(2) [OF ok(1) b c] Inr cu by (auto simp: issued_by_def)
    from rotate_keeps [OF ok this p b1] show ?thesis using c Inr cu by (simp add: refresh_access_token_def)
  qed
qed

lemma logout_keeps:
  assumes ok: "store_ok env view" "jti_unique env"
    and p: "ae_payload env tok0 = Some cl0" "truthy (cl_jti cl0) = Some jti" "cl_exp cl0 = Some e"
    and b: "blacklisted view jti e st"
  shows "blacklisted view jti e (snd (logout env now tok cookie st))"
proof -
  have pay: "blacklisted view jti e (snd (blacklist_payload env now cl s))"
    if "decode_token_payload env now t ty = Some cl" "blacklisted view jti e s" for t ty cl s
    by (rule blacklist_payload_keeps [OF ok decode_payload_issued [OF that(1)] p that(2)])
  show ?thesis unfolding logout_def Let_def case_prod_unfold using pay b by (auto split: option.splits)
qed

text \<open>No request takes a revocation back, as long as a whole second of the token's life is left.\<close>

lemma auth_step_keeps:
  assumes ok: "store_ok env view" and u: "jti_unique env"
    and p: "ae_payload env tok0 = Some cl0" "truthy (cl_jti cl0) = Some jti" "cl_exp cl0 = Some e"
    and b: "blacklisted view jti e st"
  shows "blacklisted view jti e (auth_step env now op st)"
proof -
  have su: "blacklisted view jti e (snd (get_current_active_superuser env now tok st))" for tok
    by (rule blacklisted_cong [OF superuser_keeps [OF ok] b])
  have cu: "blacklisted view jti e (snd (get_current_user env now tok st))" for tok
    by (rule blacklisted_cong [OF get_current_user_keeps [OF ok] b])
  show ?thesis
  proof (cases op)
    case (Login email password)
    then show ?thesis using b by (simp add: blacklisted_def login_redis)
  next
    case (Refresh cookie)
    then show ?thesis using refresh_keeps [OF ok u p b, of now cookie] by (simp add: blacklisted_def)
  next
    case (Rotate tok us)
    then show ?thesis using rotate_keeps [OF ok u _ p b, of tok _ now us] b by (simp add: blacklisted_def split: option.splits)
  next
    case (Logout tok cookie)
    then show ?thesis using logout_keeps [OF ok u p b, of now tok cookie] by (simp add: blacklisted_def)
  next
    case (Ask tok)
    then show ?thesis using cu [of tok] by (simp add: case_prod_unfold Let_def blacklisted_def)
  next
    case (Patch_me tok body)
    then show ?thesis using cu [of tok]
      by (auto simp: update_user_me_def case_prod_unfold Let_def blacklisted_def split: sum.splits)
  next
    case (Set_password tok current new)
    then show ?thesis using cu [of tok]
      by (auto simp: update_password_me_def get_password_hash_def case_prod_unfold Let_def blacklisted_def split: sum.splits option.splits bool.splits)
  next
    case (Create_user tok body)
    then show ?thesis using su [of tok]
      by (auto simp: create_user_by_admin_def case_prod_unfold Let_def blacklisted_def create_user_redis split: sum.splits)
  next
    case (Update_user tok i body)
    then show ?thesis using su [of tok]
      by (auto simp: update_user_def case_prod_unfold Let_def blacklisted_def crud_update_redis split: sum.splits option.splits)
  next
    case (Delete_user tok i)
    then show ?thesis using su [of tok]
      by (auto simp: delete_user_def case_prod_unfold Let_def blacklisted_def split: sum.splits option.splits)
  qed
qed

lemma auth_run_keeps:
  assumes "store_ok env view" "jti_unique env"
    and "ae_payload env tok0 = Some cl0" "truthy (cl_jti cl0) = Some jti" "cl_exp cl0 = Some e" "blacklisted view jti e st"
  shows "blacklisted view jti e (auth_run env h st)"
  using assms(6)
proof (induction h arbitrary: st)
  case (Cons x h)
  obtain now op where x: "x = (now, op)" by fastforce
  from Cons.IH [OF auth_step_keeps [OF assms(1-5) Cons.prems]] show ?case by (simp add: x)
qed simp

text \<open>C10: After a logout with at least one whole second of the access token's life left, no request that comes with the token
  before the token's last second is let in, nor one after it has expired, whatever requests run in between, refreshes already
  past their own check included. Nothing is said of the last second, in which the revocation may have lapsed.\<close>

theorem revoked_token_stays_revoked:
  assumes "store_ok env view" "jti_unique env"
    and "ae_payload env tok = Some cl" "cl_type cl = Some ''access''" "truthy (cl_jti cl) = Some jti" "cl_exp cl = Some e"
    and "0 < e" "now \<le> (e - 1) * 1000000" "fst (logout env now tok cookie st)"
    and "later \<le> (e - 1) * 1000000 \<or> e * 1000000 \<le> later"
  shows "isl (fst (get_current_user env later tok (auth_run env h (snd (logout env now tok cookie st)))))"
proof (cases "e * 1000000 \<le> later")
  case True
  then show ?thesis using assms(3,6) by (simp add: get_current_user_def jwt_decode_def)
next
  case False
  define s1 where "s1 = (case truthy cookie of None \<Rightarrow> (True, st)
      | Some c \<Rightarrow> (case decode_token_payload env now c ''refresh'' of None \<Rightarrow> (True, st) | Some cl \<Rightarrow> blacklist_payload env now cl st))"
  have d: "decode_token_payload env now tok ''access'' = Some cl"
    using assms(3,4,6,8) by (simp add: decode_token_payload_def jwt_decode_def)
  have "snd (logout env now tok cookie st) = snd (blacklist_payload env now cl (snd s1))"
    using assms(9) d unfolding logout_def s1_def [symmetric] Let_def case_prod_unfold by (simp split: if_splits)
  then have "blacklisted view jti e (snd (logout env now tok cookie st))"
    using blacklist_payload_adds [OF assms(1,5,6,7,8)] by simp
  from auth_run_keeps [OF assms(1,2,3,5,6) this, of h]
  obtain x where x: "view (at_redis (auth_run env h (snd (logout env now tok cookie st)))) (blacklist_key jti) = Some x" "(e - 1) * 1000000 < x"
    by (auto simp: blacklisted_def)
  have "fst (revoked env later cl (auth_run env h (snd (logout env now tok cookie st)))) = Some True"
    using revoked_value [OF assms(1,5)] x False assms(10) by simp
  then show ?thesis using assms(3,4,6) False
    by (cases "revoked env later cl (auth_run env h (snd (logout env now tok cookie st)))")
      (simp add: get_current_user_def jwt_decode_def)
qed

text \<open>Concrete libraries and a concrete Redis: the server is the map from keys to their expiry instants.\<close>

definition plain_pw :: pw_ops where
  "plain_pw = \<lparr>pw_bcrypt_check = (\<lambda>p h. Some (h = ''$2b$'' @ p)), pw_argon_verify = (\<lambda>h p. Some (h = p)),
              pw_argon_stale = (\<lambda>h. False), pw_argon_hash = (\<lambda>n p. p)\<rparr>"

definition sample_env :: "(string \<rightharpoonup> claims) \<Rightarrow> (string \<rightharpoonup> instant) auth_env" where
  "sample_env payload = \<lparr>ae_payload = payload, ae_encode = (\<lambda>cl. case cl_type cl of None \<Rightarrow> [] | Some t \<Rightarrow> t),
     ae_uuid4 = (\<lambda>n. ''id'' @ show_nat n), ae_pw = plain_pw,
     ae_setex = (\<lambda>now k ttl r. (r(k \<mapsto> now + ttl * 1000000), Reply ())),
     ae_exists = (\<lambda>now k r. (r, Reply (case r k of None \<Rightarrow> False | Some x \<Rightarrow> now < x))),
     ae_set_nx = (\<lambda>now k ttl r. case r k of None \<Rightarrow> (r(k \<mapsto> now + ttl * 1000000), Reply True) | Some _ \<Rightarrow> (r, Reply False)),
     ae_access_minutes = 10080, ae_refresh_minutes = 43200, ae_referenced = (\<lambda>i. False)\<rparr>"

lemma sample_store_ok: "store_ok (sample_env payload) id"
  by (auto simp: store_ok_def sample_env_def split: option.splits)

definition ada_id :: uid where
  "ada_id = ''00000000-0000-0000-0000-0000000000ad''"

definition ada :: user where
  "ada = \<lparr>us_id = ada_id, us_email = ''ada@shop.ru'', us_hash = ''lovelace1'', us_full_name = None, us_active = True,
          us_superuser = False, us_last_seen = None, us_created = 0, us_updated = None\<rparr>"

definition ada_token :: "string \<rightharpoonup> claims" where
  "ada_token t = (if t = ''acc'' then Some \<lparr>cl_exp = Some 100, cl_sub = Some ada_id, cl_jti = Some ''j1'', cl_type = Some ''access''\<rparr>
     else if t = ''ref'' then Some \<lparr>cl_exp = Some 200, cl_sub = Some ada_id, cl_jti = Some ''j2'', cl_type = Some ''refresh''\<rparr> else None)"

definition ada_state :: "(string \<rightharpoonup> instant) auth_state" where
  "ada_state = \<lparr>at_users = [ada], at_redis = Map.empty, at_fresh = 0, at_tasks = []\<rparr>"

lemma ada_jti_unique: "jti_unique (sample_env ada_token)"
  by (auto simp: jti_unique_def sample_env_def ada_token_def split: if_splits)

theorem revoked_token_stays_revoked_witness:
  "isl (fst (get_current_user (sample_env ada_token) 50000000 ''acc''
     (auth_run (sample_env ada_token) [(20000000, Login ''ada@shop.ru'' ''lovelace1'')]
       (snd (logout (sample_env ada_token) 10000000 ''acc'' (Some ''ref'') ada_state)))))"
  by (rule revoked_token_stays_revoked [OF sample_store_ok ada_jti_unique, where cl = "the (ada_token ''acc'')" and jti = "''j1''" and e = 100])
    (simp_all add: sample_env_def ada_token_def truthy_def logout_def decode_token_payload_def jwt_decode_def blacklist_payload_def
      blacklist_token_def ada_state_def)

text \<open>In the last second of its life the token cannot be revoked: nothing is stored, and the next request is let in.\<close>

lemma last_second_is_not_revoked:
  assumes "jwt_decode env now tok = Some cl" "cl_type cl = Some ''access''" "cl_exp cl = Some e" "(e - 1) * 1000000 < now"
  shows "logout env now tok None st = (True, st)"
proof -
  have "(e * 1000000 - now) div 1000000 \<le> 0"
    using assms(4) whole_seconds [of "e * 1000000 - now"] by (simp add: div_int_pos_iff not_less div_less_dividend)
  then show ?thesis
    using assms(1-3) by (simp add: logout_def truthy_def decode_token_payload_def blacklist_payload_def Let_def split: option.splits)
qed

subsection \<open>Refresh tokens\<close>

text \<open>The second half of a refresh, from the write to Redis on, never refuses.\<close>

lemma rotate_never_refuses:
  assumes "store_ok env view"
  shows "\<not> isl (fst (refresh_rotate env now cl u st))"
proof -
  have s: "snd (ae_setex env now k ttl r) = Reply ()" if "0 < ttl" for k ttl r
    using assms that unfolding store_ok_def by (metis snd_conv)
  have "fst (blacklist_payload env now cl st)"
    by (auto simp: blacklist_payload_def blacklist_token_def Let_def not_le case_prod_unfold s split: option.splits)
  then show ?thesis by (simp add: refresh_rotate_def case_prod_unfold Let_def)
qed

text \<open>C11: Once the exchange of a refresh token with at least a whole second of life left has been stored, no refresh that checks
  the token afterwards gets past the check before the token's last second, nor after it has expired, whatever requests run in
  between. A refresh that had passed its check by then is not refused: of requests with the same cookie under way at once each
  gets new tokens, since the check and the write to Redis are two calls.\<close>

theorem exchanged_token_passes_no_check:
  assumes "store_ok env view" "jti_unique env"
    and "ae_payload env tok = Some cl" "truthy (cl_jti cl) = Some jti" "cl_exp cl = Some e"
    and "0 < e" "now \<le> (e - 1) * 1000000"
    and "later \<le> (e - 1) * 1000000 \<or> e * 1000000 \<le> later"
    and "st' = auth_run env h (snd (refresh_rotate env now cl u st))"
  shows "isl (fst (refresh_check env later (Some tok) st')) \<and> \<not> isl (fst (refresh_rotate env later cl u' st'))"
proof
  have "blacklisted view jti e (snd (refresh_rotate env now cl u st))"
    using blacklist_payload_adds [OF assms(1,4,5,6,7), of st]
    by (auto simp: refresh_rotate_def case_prod_unfold Let_def blacklisted_def issue_tokens_keeps split: bool.splits)
  from auth_run_keeps [OF assms(1,2,3,4,5) this, of h]
  obtain y where y: "view (at_redis st') (blacklist_key jti) = Some y" "(e - 1) * 1000000 < y"
    unfolding assms(9) by (auto simp: blacklisted_def)
  have r: "fst (revoked env later cl st') = Some True" if "\<not> e * 1000000 \<le> later"
    using revoked_value [OF assms(1,4)] y that assms(8) by simp
  show "isl (fst (refresh_check env later (Some tok) st'))"
  proof (cases "e * 1000000 \<le> later")
    case True
    then show ?thesis using assms(3,5) by (simp add: refresh_check_def truthy_def decode_token_payload_def jwt_decode_def)
  next
    case False
    then show ?thesis using r assms(3,5)
      by (cases "revoked env later cl st'") (simp add: refresh_check_def truthy_def decode_token_payload_def jwt_decode_def)
  qed
qed (rule rotate_never_refuses [OF assms(1)])

theorem exchanged_token_passes_no_check_witness:
  "isl (fst (refresh_check (sample_env ada_token) 150000000 (Some ''ref'')
     (auth_run (sample_env ada_token) [(20000000, Login ''ada@shop.ru'' ''lovelace1''), (30000000, Rotate ''ref'' ada)]
       (snd (refresh_rotate (sample_env ada_token) 10000000 (the (ada_token ''ref'')) ada ada_state)))))
   \<and> \<not> isl (fst (refresh_check (sample_env ada_token) 150000000 (Some ''ref'') ada_state))"
proof
  have cl: "ae_payload (sample_env ada_token) ''ref'' = Some (the (ada_token ''ref''))" "truthy (cl_jti (the (ada_token ''ref''))) = Some ''j2''"
      "cl_exp (the (ada_token ''ref'')) = Some 200"
    by (simp_all add: sample_env_def ada_token_def truthy_def)
  show "isl (fst (refresh_check (sample_env ada_token) 150000000 (Some ''ref'')
     (auth_run (sample_env ada_token) [(20000000, Login ''ada@shop.ru'' ''lovelace1''), (30000000, Rotate ''ref'' ada)]
       (snd (refresh_rotate (sample_env ada_token) 10000000 (the (ada_token ''ref'')) ada ada_state)))))"
    by (rule exchanged_token_passes_no_check [OF sample_store_ok ada_jti_unique cl _ _ _ refl, THEN conjunct1]) simp_all
qed (simp add: sample_env_def ada_token_def truthy_def refresh_check_def revoked_def
      is_token_blacklisted_def decode_token_payload_def jwt_decode_def ada_state_def
      subject_user_def uuid_of_def ada_id_def ada_def find_row_def lower_def lower_char_def hex_digit_def)

subsection \<open>Privileges\<close>

definition flags :: "user list \<Rightarrow> (uid \<times> bool \<times> bool) list" where
  "flags tab = map (\<lambda>u. (us_id u, us_superuser u, us_active u)) tab"

fun op_token :: "auth_op \<Rightarrow> string option" where
  "op_token (Ask tok) = Some tok"
| "op_token (Patch_me tok body) = Some tok"
| "op_token (Set_password tok current new) = Some tok"
| "op_token (Create_user tok body) = Some tok"
| "op_token (Update_user tok i body) = Some tok"
| "op_token (Delete_user tok i) = Some tok"
| "op_token op = None"

definition by_superuser :: "'r auth_env \<Rightarrow> instant \<Rightarrow> auth_op \<Rightarrow> 'r auth_state \<Rightarrow> bool" where
  "by_superuser env now op st =
     (case op_token op of None \<Rightarrow> False | Some tok \<Rightarrow> \<not> isl (fst (get_current_active_superuser env now tok st)))"

lemma flags_put_row:
  assumes "distinct (map us_id tab)" "u \<in> set tab" "us_id u' = us_id u" "us_superuser u' = us_superuser u" "us_active u' = us_active u"
  shows "flags (put_row us_id u' tab) = flags tab"
  unfolding flags_def by (rule map_key_put_row [OF assms(1,2,3)]) (simp add: assms)

lemma flags_persist:
  assumes "distinct (map us_id tab)"
  shows "flags (persist_last_seen i seen tab) = flags tab"
  unfolding persist_last_seen_def
  by (cases "find_row us_id i tab") (use assms in \<open>auto dest!: find_row_Some intro: flags_put_row\<close>)

lemma ids_persist [simp]: "map us_id (persist_last_seen i seen tab) = map us_id tab"
  by (auto simp: persist_last_seen_def split: option.splits)

lemma flags_respond:
  assumes "distinct (map us_id (at_users st))"
  shows "flags (at_users (respond ok st)) = flags (at_users st)"
proof -
  have "flags (fold (\<lambda>(i, seen). persist_last_seen i seen) tasks tab) = flags tab" if "distinct (map us_id tab)" for tasks tab
    using that by (induction tasks arbitrary: tab) (auto simp: flags_persist)
  then show ?thesis using assms by (simp add: respond_def)
qed

lemma current_user_users: "at_users (snd (get_current_user env now tok st)) = at_users st"
proof -
  have "at_users (snd (revoked env now cl st)) = at_users st" for cl
    unfolding revoked_def by (simp split: option.splits prod.splits reply.splits)
  then have "revoked env now cl st = (b, st1) \<Longrightarrow> at_users st1 = at_users st" for cl b st1 by (metis snd_conv)
  then show ?thesis
    unfolding get_current_user_def by (auto split: option.splits prod.splits bool.splits reply.splits if_splits)
qed

lemma current_user_mem:
  assumes "get_current_user env now tok st = (Inr u, st1)"
  shows "u \<in> set (at_users st)" and "us_active u"
proof -
  have "at_users (snd (revoked env now cl st)) = at_users st" for cl
    unfolding revoked_def by (simp split: option.splits prod.splits reply.splits)
  then have r: "revoked env now cl st = (b, st1) \<Longrightarrow> at_users st1 = at_users st" for cl b st1 by (metis snd_conv)
  show "u \<in> set (at_users st)" "us_active u"
    using assms unfolding get_current_user_def
    by (auto simp: subject_user_def split: option.splits prod.splits bool.splits reply.splits if_splits dest: r dest!: find_row_Some)
qed

lemma authenticate_flags:
  assumes "distinct (map us_id (at_users st))"
  shows "flags (at_users (snd (authenticate env email password st))) = flags (at_users st)
    \<and> map us_id (at_users (snd (authenticate env email password st))) = map us_id (at_users st)"
proof -
  have "u \<in> set (at_users st)" if "get_user_by_email email (at_users st) = Some u" for u
    using that by (auto simp: get_user_by_email_def find_Some_iff)
  then show ?thesis
    by (auto simp: authenticate_def Let_def get_password_hash_def split: option.splits bool.splits
        intro!: flags_put_row [OF assms])
qed

lemma ids_of_flags: "flags tab = flags tab' \<Longrightarrow> map us_id tab = map us_id tab'"
proof -
  have "map us_id t = map fst (flags t)" for t by (simp add: flags_def)
  then show "flags tab = flags tab' \<Longrightarrow> map us_id tab = map us_id tab'" by simp
qed

lemma respond_flags:
  assumes "distinct (map us_id (at_users st))" "flags (at_users s) = flags (at_users st)"
  shows "flags (at_users (respond ok s)) = flags (at_users st)"
  using flags_respond [of s ok] ids_of_flags [OF assms(2)] assms by simp

lemma revoked_users: "at_users (snd (revoked env now cl st)) = at_users st"
  unfolding revoked_def by (simp split: option.splits prod.splits reply.splits)

lemma blacklist_users: "at_users (snd (blacklist_payload env now cl st)) = at_users st"
  by (auto simp: blacklist_payload_def Let_def split: option.splits prod.splits)

lemma login_flags:
  assumes "distinct (map us_id (at_users st))"
  shows "flags (at_users (snd (login_access_token env now email password st))) = flags (at_users st)"
proof -
  have "at_users (snd (login_access_token env now email password st)) = at_users (snd (authenticate env email password st))"
    by (auto simp: login_access_token_def case_prod_unfold Let_def issue_tokens_keeps split: sum.splits option.splits)
  then show ?thesis using authenticate_flags [OF assms, of env email password] by simp
qed

lemma rotate_users: "at_users (snd (refresh_rotate env now cl u st)) = at_users st"
  by (auto simp: refresh_rotate_def case_prod_unfold Let_def blacklist_users issue_tokens_keeps split: bool.splits)

lemma refresh_users: "at_users (snd (refresh_access_token env now cookie st)) = at_users st"
proof -
  have "at_users (snd (refresh_check env now cookie st)) = at_users st"
    unfolding refresh_check_def
    by (auto split: option.splits prod.splits bool.splits if_splits) (metis revoked_users snd_conv)+
  then show ?thesis
    by (auto simp: refresh_access_token_def case_prod_unfold rotate_users split: sum.splits)
qed

lemma logout_users: "at_users (snd (logout env now tok cookie st)) = at_users st"
  by (auto simp: logout_def case_prod_unfold Let_def blacklist_users split: option.splits)

lemma update_me_flags:
  assumes d: "distinct (map us_id (at_users st))"
  shows "flags (at_users (snd (update_user_me env now tok body st))) = flags (at_users st)"
proof -
  obtain x st1 where g: "get_current_user env now tok st = (x, st1)" by fastforce
  have u1: "at_users st1 = at_users st" using current_user_users [of env now tok st] g by simp
  show ?thesis
  proof (cases x)
    case (Inr u)
    have "u \<in> set (at_users st)" using current_user_mem(1) g Inr by blast
    then have "flags (put_row us_id (patch_user \<lparr>uu_email = em, uu_password = None, uu_full_name = n, uu_superuser = None, uu_active = None\<rparr> None u) (at_users st)) = flags (at_users st)" for em n
      by (intro flags_put_row [OF d]) (auto simp: patch_user_def)
    then show ?thesis using g u1 Inr by (auto simp: update_user_me_def case_prod_unfold Let_def)
  qed (simp add: update_user_me_def g u1)
qed

lemma update_password_flags:
  assumes d: "distinct (map us_id (at_users st))"
  shows "flags (at_users (snd (update_password_me env now tok current new st))) = flags (at_users st)"
proof -
  obtain x st1 where g: "get_current_user env now tok st = (x, st1)" by fastforce
  have u1: "at_users st1 = at_users st" using current_user_users [of env now tok st] g by simp
  show ?thesis
  proof (cases x)
    case (Inr u)
    have "u \<in> set (at_users st)" using current_user_mem(1) g Inr by blast
    then have "flags (put_row us_id (u\<lparr>us_hash := h\<rparr>) (at_users st)) = flags (at_users st)" for h
      by (intro flags_put_row [OF d]) auto
    then show ?thesis using g u1 Inr
      by (auto simp: update_password_me_def get_password_hash_def case_prod_unfold Let_def split: option.splits bool.splits)
  qed (simp add: update_password_me_def g u1)
qed

lemma refused_users:
  assumes "\<not> by_superuser env now op st" "op_token op = Some tok"
  shows "\<exists>e s1. get_current_active_superuser env now tok st = (Inl e, s1) \<and> at_users s1 = at_users st"
proof -
  have "isl (fst (get_current_active_superuser env now tok st))" using assms by (simp add: by_superuser_def)
  moreover have "at_users (snd (get_current_active_superuser env now tok st)) = at_users st"
    using current_user_users [of env now tok st] by (auto simp: get_current_active_superuser_def split: prod.splits sum.splits)
  ultimately show ?thesis by (cases "get_current_active_superuser env now tok st") (auto simp: isl_def)
qed

text \<open>C12: Only superusers change what accounts exist and who has which rights: any other request - logging in, refreshing,
  logging out, changing one's own profile or password, or an administration route with another user's token - leaves every
  user's id, superuser flag and active flag as they are.\<close>

theorem privileges_come_from_superusers:
  assumes "distinct (map us_id (at_users st))" "\<not> by_superuser env now op st"
  shows "flags (at_users (auth_step env now op st)) = flags (at_users st)"
proof -
  note r = respond_flags [OF assms(1)] and refused = refused_users [OF assms(2)]
  show ?thesis
  proof (cases op)
    case (Login email password)
    then show ?thesis using r [OF login_flags [OF assms(1)]] by simp
  next
    case (Refresh cookie)
    then show ?thesis by (simp add: r refresh_users)
  next
    case (Rotate tok u)
    then show ?thesis by (simp add: r rotate_users split: option.splits)
  next
    case (Logout tok cookie)
    then show ?thesis by (simp add: r logout_users)
  next
    case (Ask tok)
    then show ?thesis by (simp add: r current_user_users case_prod_unfold Let_def)
  next
    case (Patch_me tok body)
    then show ?thesis using r [OF update_me_flags [OF assms(1)]] by (simp add: case_prod_unfold Let_def)
  next
    case (Set_password tok current new)
    then show ?thesis using r [OF update_password_flags [OF assms(1)]] by (simp add: case_prod_unfold Let_def)
  next
    case (Create_user tok body)
    with refused [of tok] show ?thesis by (auto simp: create_user_by_admin_def intro!: r)
  next
    case (Update_user tok i body)
    with refused [of tok] show ?thesis by (auto simp: update_user_def intro!: r)
  next
    case (Delete_user tok i)
    with refused [of tok] show ?thesis by (auto simp: delete_user_def intro!: r)
  qed
qed

definition eve :: user where
  "eve = \<lparr>us_id = ''00000000-0000-0000-0000-0000000000ee'', us_email = ''eve@shop.ru'', us_hash = ''moriarty1'', us_full_name = None,
          us_active = True, us_superuser = True, us_last_seen = None, us_created = 0, us_updated = None\<rparr>"

theorem privileges_come_from_superusers_witness:
  "flags (at_users (auth_step (sample_env ada_token) 10000000 (Delete_user ''acc'' (us_id eve)) (ada_state\<lparr>at_users := [ada, eve]\<rparr>)))
   = [(us_id ada, False, True), (us_id eve, True, True)]"
proof -
  have "flags (at_users (auth_step (sample_env ada_token) 10000000 (Delete_user ''acc'' (us_id eve)) (ada_state\<lparr>at_users := [ada, eve]\<rparr>)))
      = flags (at_users (ada_state\<lparr>at_users := [ada, eve]\<rparr>))"
    by (rule privileges_come_from_superusers)
      (simp_all add: ada_state_def ada_def eve_def ada_id_def by_superuser_def get_current_active_superuser_def get_current_user_def
        sample_env_def ada_token_def jwt_decode_def revoked_def is_token_blacklisted_def truthy_def subject_user_def uuid_of_def
        find_row_def lower_def lower_char_def hex_digit_def split: option.splits)
  then show ?thesis by (simp add: ada_state_def flags_def ada_def eve_def)
qed

text \<open>The strength rule of passwords holds for new users and for one's own password, not for a password an administrator sets:
  any text will do.\<close>

lemma admin_sets_any_password:
  assumes "get_current_active_superuser env now tok st = (Inr me, st1)" "find_row us_id i (at_users st1) = Some u"
  shows "\<exists>u' st2. update_user env now tok i \<lparr>uu_email = None, uu_password = Some (Some []), uu_full_name = None, uu_superuser = None, uu_active = None\<rparr> st
            = (Inr u', st2) \<and> us_hash u' = pw_argon_hash (ae_pw env) (at_fresh st1) []"
  using assms by (simp add: update_user_def email_taken_def crud_update_user_def nulls_a_column_def get_password_hash_def patch_user_def Let_def)

text \<open>A user something refers to (who stored a credential, or has a remote access account) cannot be deleted: the route answers 500.\<close>

lemma referenced_user_is_never_deleted:
  assumes "get_current_active_superuser env now tok st = (Inr me, st1)" "find_row us_id i (at_users st1) = Some u" "us_id u \<noteq> us_id me"
    "ae_referenced env i"
  shows "delete_user env now tok i st = (Some (Http 500), st1)"
  using assms by (simp add: delete_user_def)

subsection \<open>Secrets at rest (core/crypto.py)\<close>

record fernet_ops =
  fe_encrypt :: "nat \<Rightarrow> string \<Rightarrow> string"
  fe_decrypt :: "string \<Rightarrow> string option"

definition encrypted_prefix :: string where
  "encrypted_prefix = ''enc:v1:''"

text \<open>\<open>new_fernet\<close> builds a \<open>MultiFernet\<close> of the keys, or fails on a malformed one.\<close>

definition build_fernet :: "(string list \<Rightarrow> fernet_ops option) \<Rightarrow> string \<Rightarrow> fernet_ops option" where
  "build_fernet new_fernet raw =
     (let keys = filter (\<lambda>k. k \<noteq> []) (map strip (split_on CHR '','' (strip raw)))
      in if strip raw = [] then None else if keys = [] then None else new_fernet keys)"

definition encrypt_secret :: "fernet_ops option \<Rightarrow> nat \<Rightarrow> string \<Rightarrow> string" where
  "encrypt_secret fernet n v =
     (case fernet of
        None \<Rightarrow> v
      | Some fe \<Rightarrow> if v = [] then v else if starts_with encrypted_prefix v then v else encrypted_prefix @ fe_encrypt fe n v)"

definition decrypt_secret :: "fernet_ops option \<Rightarrow> string \<Rightarrow> string" where
  "decrypt_secret fernet v =
     (if v = [] \<or> \<not> starts_with encrypted_prefix v then v
      else case fernet of
        None \<Rightarrow> v
      | Some fe \<Rightarrow> (case fe_decrypt fe (drop (length encrypted_prefix) v) of None \<Rightarrow> v | Some p \<Rightarrow> p))"

text \<open>A column with an encrypted text: what is stored for a value, and what is read.\<close>

definition process_bind_param :: "fernet_ops option \<Rightarrow> nat \<Rightarrow> string option \<Rightarrow> string option" where
  "process_bind_param fernet n v = map_option (encrypt_secret fernet n) v"

definition process_result_value :: "fernet_ops option \<Rightarrow> string option \<Rightarrow> string option" where
  "process_result_value fernet v = map_option (decrypt_secret fernet) v"

text \<open>The row is read with one configuration of keys and stored again with another, over and over.\<close>

fun resave :: "(fernet_ops option \<times> fernet_ops option \<times> nat) list \<Rightarrow> string option \<Rightarrow> string option" where
  "resave [] stored = stored"
| "resave ((reading, writing, n) # rest) stored = resave rest (process_bind_param writing n (process_result_value reading stored))"

text \<open>Keys that cannot read the stored text: none at all, or ones that fail on it.\<close>

definition cannot_read :: "fernet_ops option \<Rightarrow> string \<Rightarrow> bool" where
  "cannot_read fernet tok = (case fernet of None \<Rightarrow> True | Some fe \<Rightarrow> fe_decrypt fe tok = None)"

text \<open>C37: A stored secret survives the loss of its key: however often the row is read and saved again while the keys in use cannot
  read it, the secret is read back once a key that can is configured.\<close>

theorem secret_survives_key_loss:
  assumes "\<And>n v. fe_decrypt fe (fe_encrypt fe n v) = Some v" "\<not> starts_with encrypted_prefix v"
    and "list_all (\<lambda>(reading, writing, m). cannot_read reading (fe_encrypt fe n v)) history"
  shows "process_result_value (Some fe) (resave history (process_bind_param (Some fe) n (Some v))) = Some v"
proof -
  define tok where "tok = encrypted_prefix @ fe_encrypt fe n v"
  show ?thesis
  proof (cases "v = []")
    case True
    have "resave h (Some []) = Some []" for h
      by (induction h) (auto simp: process_bind_param_def process_result_value_def encrypt_secret_def decrypt_secret_def split: option.splits)
    then show ?thesis using True by (simp add: process_bind_param_def process_result_value_def encrypt_secret_def decrypt_secret_def)
  next
    case False
    have keep: "process_bind_param w m (process_result_value r (Some tok)) = Some tok" if "cannot_read r (fe_encrypt fe n v)" for r w m
      using that by (auto simp: process_bind_param_def process_result_value_def encrypt_secret_def decrypt_secret_def tok_def
          cannot_read_def split: option.splits)
    have "resave h (Some tok) = Some tok" if "list_all (\<lambda>(reading, writing, m). cannot_read reading (fe_encrypt fe n v)) h" for h
      using that by (induction h) (auto simp: keep)
    moreover have "process_bind_param (Some fe) n (Some v) = Some tok"
      using False assms(2) by (simp add: process_bind_param_def encrypt_secret_def tok_def)
    moreover have "tok \<noteq> []" by (simp add: tok_def encrypted_prefix_def)
    moreover have "decrypt_secret (Some fe) tok = v" using \<open>tok \<noteq> []\<close> assms(1) by (auto simp: decrypt_secret_def tok_def)
    ultimately show ?thesis using assms(3) by (simp add: process_result_value_def)
  qed
qed

definition toy_fernet :: "char \<Rightarrow> fernet_ops" where
  "toy_fernet k = \<lparr>fe_encrypt = (\<lambda>n v. k # v), fe_decrypt = (\<lambda>t. case t of [] \<Rightarrow> None | c # v \<Rightarrow> if c = k then Some v else None)\<rparr>"

theorem secret_survives_key_loss_witness:
  "process_result_value (Some (toy_fernet CHR ''a''))
     (resave [(Some (toy_fernet CHR ''b''), Some (toy_fernet CHR ''b''), 1), (None, None, 2)]
       (process_bind_param (Some (toy_fernet CHR ''a'')) 0 (Some ''s3cret''))) = Some ''s3cret''"
  by (rule secret_survives_key_loss) (simp_all add: toy_fernet_def encrypted_prefix_def starts_with_def cannot_read_def)
end
