(* ===== verification/Ttl_Cache.thy ===== *)
theory Ttl_Cache
  imports Prelude
begin

section \<open>The in-process cache (app/core/bounded_cache.py)\<close>

text \<open>
  \<open>BoundedTTLCache\<close>: an OrderedDict as an association list, oldest use first; the clock's reading is an argument of every
  call, and the lock around each call makes it one step. The locale \<open>best_effort_cache\<close> is what a caller relies on;
  the cache implements it, and every memoised computation of the code is as fresh as the contract says.
\<close>

record ('k, 'v) ttl_cache =
  tc_maxsize :: nat
  tc_ttl :: int
  tc_values :: "('k \<times> instant \<times> 'v) list"

definition new_cache :: "nat \<Rightarrow> int \<Rightarrow> ('k, 'v) ttl_cache option" where
  "new_cache maxsize ttl =
     (if maxsize < 1 then None else if ttl \<le> 0 then None else Some \<lparr>tc_maxsize = maxsize, tc_ttl = ttl, tc_values = []\<rparr>)"

definition remove_expired :: "instant \<Rightarrow> ('k \<times> instant \<times> 'v) list \<Rightarrow> ('k \<times> instant \<times> 'v) list" where
  "remove_expired now vs = filter (\<lambda>(k, x, v). now < x) vs"

definition without :: "'k \<Rightarrow> ('k \<times> instant \<times> 'v) list \<Rightarrow> ('k \<times> instant \<times> 'v) list" where
  "without k vs = filter (\<lambda>e. fst e \<noteq> k) vs"

text \<open>\<open>Some v\<close> for found, \<open>None\<close> for not found.\<close>

definition lookup :: "instant \<Rightarrow> 'k \<Rightarrow> ('k, 'v) ttl_cache \<Rightarrow> 'v option \<times> ('k, 'v) ttl_cache" where
  "lookup now k c =
     (case map_of (tc_values c) k of
        None \<Rightarrow> (None, c)
      | Some (x, v) \<Rightarrow>
          if x \<le> now then (None, c\<lparr>tc_values := without k (tc_values c)\<rparr>)
          else (Some v, c\<lparr>tc_values := without k (tc_values c) @ [(k, x, v)]\<rparr>))"

text \<open>\<open>popitem(last=False)\<close> while there are too many.\<close>

fun evict :: "nat \<Rightarrow> 'a list \<Rightarrow> 'a list" where
  "evict n [] = []"
| "evict n (e # es) = (if n < length (e # es) then evict n es else e # es)"

definition set_value :: "instant \<Rightarrow> 'k \<Rightarrow> 'v \<Rightarrow> ('k, 'v) ttl_cache \<Rightarrow> ('k, 'v) ttl_cache" where
  "set_value now k v c =
     c\<lparr>tc_values := evict (tc_maxsize c) (without k (remove_expired now (tc_values c)) @ [(k, now + tc_ttl c, v)])\<rparr>"

definition clear :: "('k, 'v) ttl_cache \<Rightarrow> ('k, 'v) ttl_cache" where
  "clear c = c\<lparr>tc_values := []\<rparr>"

definition cache_len :: "instant \<Rightarrow> ('k, 'v) ttl_cache \<Rightarrow> nat \<times> ('k, 'v) ttl_cache" where
  "cache_len now c = (let vs = remove_expired now (tc_values c) in (length vs, c\<lparr>tc_values := vs\<rparr>))"

subsection \<open>What a caller relies on\<close>

text \<open>\<open>entry c k\<close> is what the cache holds for a key: the instant it expires and the value.\<close>

locale best_effort_cache =
  fixes look :: "instant \<Rightarrow> 'k \<Rightarrow> 'c \<Rightarrow> 'v option \<times> 'c"
    and store :: "instant \<Rightarrow> 'k \<Rightarrow> 'v \<Rightarrow> 'c \<Rightarrow> 'c"
    and entry :: "'c \<Rightarrow> 'k \<Rightarrow> (instant \<times> 'v) option"
    and ok :: "'c \<Rightarrow> bool"
    and ttl :: int
  assumes look_finds: "ok c \<Longrightarrow> fst (look now k c) = Some v \<Longrightarrow> \<exists>x. entry c k = Some (x, v) \<and> now < x"
    and look_keeps: "ok c \<Longrightarrow> ok (snd (look now k c))"
    and look_adds_nothing: "ok c \<Longrightarrow> entry (snd (look now k c)) k' = Some y \<Longrightarrow> entry c k' = Some y"
    and store_keeps: "ok c \<Longrightarrow> ok (store now k v c)"
    and store_adds_one: "ok c \<Longrightarrow> entry (store now k v c) k' = Some y \<Longrightarrow> entry c k' = Some y \<or> (k' = k \<and> y = (now + ttl, v))"

text \<open>The shape of every memoised function of the code: look the key up, compute and store what is not there. A computation
  that raises (\<open>None\<close>) stores nothing. The log has what was computed, and when.\<close>

definition memo ::
    "(instant \<Rightarrow> 'k \<Rightarrow> 'c \<Rightarrow> 'v option \<times> 'c) \<Rightarrow> (instant \<Rightarrow> 'k \<Rightarrow> 'v \<Rightarrow> 'c \<Rightarrow> 'c) \<Rightarrow> 'v option
     \<Rightarrow> instant \<Rightarrow> 'k \<Rightarrow> 'c \<times> ('k \<times> instant \<times> 'v) list \<Rightarrow> 'v option \<times> 'c \<times> ('k \<times> instant \<times> 'v) list" where
  "memo look store compute now k = (\<lambda>(c, computed).
     case look now k c of
       (Some v, c') \<Rightarrow> (Some v, c', computed)
     | (None, c') \<Rightarrow>
         (case compute of
            None \<Rightarrow> (None, c', computed)
          | Some v \<Rightarrow> (Some v, store now k v c', computed @ [(k, now, v)])))"

context best_effort_cache
begin

definition traced :: "'c \<times> ('k \<times> instant \<times> 'v) list \<Rightarrow> bool" where
  "traced s \<longleftrightarrow> ok (fst s) \<and> (\<forall>k x v. entry (fst s) k = Some (x, v) \<longrightarrow> (k, x - ttl, v) \<in> set (snd s))"

lemma traced_look: "traced (c, l) \<Longrightarrow> traced (snd (look now k c), l)"
  using look_adds_nothing [of c now k] look_keeps [of c now k] unfolding traced_def by (auto simp: fst_conv snd_conv)

lemma traced_store: "traced (c, l) \<Longrightarrow> traced (store now k v c, l @ [(k, now, v)])"
  using store_adds_one [of c now k v] store_keeps [of c now k v] unfolding traced_def by fastforce

lemma memo_keeps: "traced s \<Longrightarrow> traced (snd (memo look store compute now k s))"
  using traced_look [of "fst s" "snd s" now k]
  by (auto simp: memo_def case_prod_unfold intro: traced_store split: option.splits)

lemma memo_logs: "set (snd s) \<subseteq> set (snd (snd (memo look store compute now k s)))"
  by (auto simp: memo_def case_prod_unfold split: option.splits)

text \<open>What is answered was computed less than the time to live ago, or now.\<close>

lemma memo_fresh:
  assumes "traced s" "fst (memo look store compute now k s) = Some v" "0 < ttl"
  shows "\<exists>t. (k, t, v) \<in> set (snd (snd (memo look store compute now k s))) \<and> now < t + ttl"
proof (cases "fst (look now k (fst s))")
  case None
  then show ?thesis using assms(2,3) by (auto simp: memo_def case_prod_unfold split: option.splits)
next
  case (Some u)
  then obtain x where "entry (fst s) k = Some (x, u)" "now < x" using look_finds [of "fst s" now k u] assms(1) by (auto simp: traced_def)
  then have "(k, x - ttl, u) \<in> set (snd s)" using assms(1) by (simp add: traced_def)
  then show ?thesis using assms(2) Some \<open>now < x\<close>
    by (auto simp: memo_def case_prod_unfold intro!: exI [of _ "x - ttl"])
qed

end

subsection \<open>The cache keeps the contract\<close>

definition well_formed :: "int \<Rightarrow> ('k, 'v) ttl_cache \<Rightarrow> bool" where
  "well_formed ttl c \<longleftrightarrow> 1 \<le> tc_maxsize c \<and> tc_ttl c = ttl \<and> distinct (map fst (tc_values c)) \<and> length (tc_values c) \<le> tc_maxsize c"

lemma evict_drop: "evict n es = drop (length es - n) es"
  by (induction n es rule: evict.induct) (auto simp: Suc_diff_le)

lemma evict_keeps_tail: "length (e # ys) \<le> n \<Longrightarrow> \<exists>zs. evict n (xs @ e # ys) = zs @ e # ys \<and> set zs \<subseteq> set xs"
  unfolding evict_drop by (intro exI [of _ "drop (length (xs @ e # ys) - n) xs"]) (auto dest: in_set_dropD)

lemma distinct_without: "distinct (map fst vs) \<Longrightarrow> distinct (map fst (without k vs)) \<and> k \<notin> fst ` set (without k vs)"
  by (auto simp: without_def distinct_map intro: inj_on_subset)

lemma distinct_unexpired: "distinct (map fst vs) \<Longrightarrow> distinct (map fst (remove_expired now vs))"
  by (auto simp: remove_expired_def distinct_map intro: inj_on_subset)

lemma entry_mem: "distinct (map fst vs) \<Longrightarrow> map_of vs k = Some y \<longleftrightarrow> (k, y) \<in> set vs"
  by (simp add: map_of_eq_Some_iff)

lemma without_mem: "(k', y) \<in> set (without k vs) \<longleftrightarrow> (k', y) \<in> set vs \<and> k' \<noteq> k"
  by (auto simp: without_def)

lemma length_without_mem: "(k, y) \<in> set vs \<Longrightarrow> length (without k vs) < length vs"
  unfolding without_def by (rule length_filter_less) auto

lemma lookup_well_formed: "well_formed ttl c \<Longrightarrow> well_formed ttl (snd (lookup now k c))"
  using distinct_without [of "tc_values c" k]
  by (auto simp: well_formed_def lookup_def without_def split: option.splits dest!: map_of_SomeD
      intro: le_trans [OF length_filter_le] dest: length_without_mem [unfolded without_def])

lemma set_value_distinct:
  assumes "distinct (map fst vs)"
  shows "distinct (map fst (evict n (without k (remove_expired now vs) @ [(k, x, v)])))"
  using distinct_without [OF distinct_unexpired [OF assms]] unfolding evict_drop drop_map [symmetric]
  by (intro distinct_drop) auto

lemma set_value_well_formed: "well_formed ttl c \<Longrightarrow> well_formed ttl (set_value now k v c)"
proof -
  assume wf: "well_formed ttl c"
  have "distinct (map fst (tc_values (set_value now k v c)))"
    using wf by (simp add: set_value_def set_value_distinct well_formed_def)
  moreover have "length (tc_values (set_value now k v c)) \<le> tc_maxsize c"
    by (simp add: set_value_def evict_drop)
  ultimately show ?thesis using wf by (simp add: well_formed_def set_value_def)
qed

interpretation bounded: best_effort_cache lookup set_value "\<lambda>c k. map_of (tc_values c) k" "well_formed ttl" ttl
  for ttl
proof
  fix c :: "('k, 'v) ttl_cache" and now k v k' and y :: "instant \<times> 'v"
  assume wf: "well_formed ttl c"
  then have d: "distinct (map fst (tc_values c))" by (simp add: well_formed_def)
  show "fst (lookup now k c) = Some v \<Longrightarrow> \<exists>x. map_of (tc_values c) k = Some (x, v) \<and> now < x"
    by (auto simp: lookup_def split: option.splits if_splits)
  show "well_formed ttl (snd (lookup now k c))" by (rule lookup_well_formed [OF wf])
  show "well_formed ttl (set_value now k v c)" by (rule set_value_well_formed [OF wf])
  have "(k', y) \<in> set (tc_values c)" if "(k', y) \<in> set (tc_values (snd (lookup now k c)))"
    using that by (auto simp: lookup_def without_def split: option.splits if_splits dest: map_of_SomeD)
  then show "map_of (tc_values (snd (lookup now k c))) k' = Some y \<Longrightarrow> map_of (tc_values c) k' = Some y"
    using entry_mem [OF d] map_of_SomeD by metis
  have "(k', y) \<in> set (tc_values c) \<or> k' = k \<and> y = (now + ttl, v)" if "(k', y) \<in> set (tc_values (set_value now k v c))"
    using that wf by (auto simp: set_value_def evict_drop remove_expired_def without_def well_formed_def dest!: in_set_dropD)
  then show "map_of (tc_values (set_value now k v c)) k' = Some y \<Longrightarrow> map_of (tc_values c) k' = Some y \<or> (k' = k \<and> y = (now + ttl, v))"
    using entry_mem [OF d] map_of_SomeD by metis
qed

subsection \<open>Histories\<close>

datatype ('k, 'v) cache_op = Look 'k | Put 'k 'v | Clear_all | Count

fun cache_step :: "instant \<Rightarrow> ('k, 'v) cache_op \<Rightarrow> ('k, 'v) ttl_cache \<Rightarrow> ('k, 'v) ttl_cache" where
  "cache_step now (Look k) c = snd (lookup now k c)"
| "cache_step now (Put k v) c = set_value now k v c"
| "cache_step now Clear_all c = clear c"
| "cache_step now Count c = snd (cache_len now c)"

definition cache_run :: "(instant \<times> ('k, 'v) cache_op) list \<Rightarrow> ('k, 'v) ttl_cache \<Rightarrow> ('k, 'v) ttl_cache" where
  "cache_run h c = fold (\<lambda>(now, op). cache_step now op) h c"

lemma cache_step_well_formed: "well_formed ttl c \<Longrightarrow> well_formed ttl (cache_step now op c)"
proof (cases op)
  case Count
  assume wf: "well_formed ttl c"
  have "length (remove_expired now (tc_values c)) \<le> length (tc_values c)" unfolding remove_expired_def by (rule length_filter_le)
  then show ?thesis using wf Count distinct_unexpired [of "tc_values c" now]
    by (auto simp: well_formed_def cache_len_def Let_def)
qed (auto simp: lookup_well_formed set_value_well_formed, auto simp: well_formed_def clear_def)

text \<open>Whatever a process does with a cache, it never holds more than \<open>maxsize\<close> entries, and no key twice.\<close>

theorem cache_stays_bounded:
  fixes h :: "(instant \<times> ('k, 'v) cache_op) list"
  shows "case new_cache maxsize ttl of
     None \<Rightarrow> maxsize = 0 \<or> ttl \<le> 0
   | Some c \<Rightarrow> length (tc_values (cache_run h c)) \<le> maxsize \<and> distinct (map fst (tc_values (cache_run h c)))"
proof -
  have run: "well_formed ttl (cache_run h c) \<and> tc_maxsize (cache_run h c) = tc_maxsize c" if "well_formed ttl c" for c :: "('k, 'v) ttl_cache"
    using that
  proof (induction h arbitrary: c)
    case (Cons x h)
    obtain now op where x: "x = (now, op)" by fastforce
    have "tc_maxsize (cache_step now op c) = tc_maxsize c"
      by (cases op) (auto simp: lookup_def set_value_def clear_def cache_len_def Let_def split: option.splits)
    then show ?case using Cons.IH [OF cache_step_well_formed [OF Cons.prems, of now op]] by (simp add: x cache_run_def)
  qed (simp add: cache_run_def)
  show ?thesis
    using run [of "\<lparr>tc_maxsize = maxsize, tc_ttl = ttl, tc_values = []\<rparr>"] by (auto simp: new_cache_def well_formed_def)
qed

text \<open>The entries used after \<open>k\<close> are those of the keys in \<open>K\<close>.\<close>

definition recent :: "'k set \<Rightarrow> 'k \<Rightarrow> instant \<Rightarrow> 'v \<Rightarrow> ('k, 'v) ttl_cache \<Rightarrow> bool" where
  "recent K k x v c \<longleftrightarrow> (\<exists>xs ys. tc_values c = xs @ (k, x, v) # ys \<and> k \<notin> fst ` set xs \<and> k \<notin> fst ` set ys \<and> fst ` set ys \<subseteq> K
     \<and> distinct (map fst ys))"

lemma recentI:
  "tc_values c = xs @ (k, x, v) # ys \<Longrightarrow> k \<notin> fst ` set xs \<Longrightarrow> k \<notin> fst ` set ys \<Longrightarrow> fst ` set ys \<subseteq> K \<Longrightarrow> distinct (map fst ys)
   \<Longrightarrow> recent K k x v c"
  unfolding recent_def by blast

fun touches :: "('k, 'v) cache_op \<Rightarrow> 'k set" where
  "touches (Look k) = {k}"
| "touches (Put k v) = {k}"
| "touches Clear_all = {}"
| "touches Count = {}"

lemma recent_lookup:
  assumes "recent K k x v c" "now < x" "k' \<in> insert k K"
  shows "recent K k x v (snd (lookup now k' c))"
proof -
  obtain xs ys where c: "tc_values c = xs @ (k, x, v) # ys" "k \<notin> fst ` set xs" "k \<notin> fst ` set ys" "fst ` set ys \<subseteq> K" "distinct (map fst ys)"
    using assms(1) by (auto simp: recent_def)
  show ?thesis
  proof (cases "k' = k")
    case True
    have "map_of (tc_values c) k = Some (x, v)" using c(1,2) by (force simp: map_of_append map_of_eq_None_iff map_add_Some_iff)
    then have "tc_values (snd (lookup now k c)) = without k xs @ without k ys @ [(k, x, v)]"
      using assms(2) c(1) by (simp add: lookup_def without_def)
    then show ?thesis unfolding True by (intro recentI [where xs = "without k xs @ without k ys" and ys = "[]"]) (auto simp: without_def)
  next
    case False
    have w: "without k' (tc_values c) = without k' xs @ (k, x, v) # without k' ys" using c(1) False by (simp add: without_def)
    have s: "k \<notin> fst ` set (without k' xs)" "k \<notin> fst ` set (without k' ys)" "fst ` set (without k' ys) \<subseteq> K"
      using c(2-4) by (auto simp: without_def)
    have d: "distinct (map fst (without k' ys @ [(k', z)])) \<and> distinct (map fst (without k' ys))" for z
      using distinct_without [OF c(5), of k'] by auto
    show ?thesis
    proof (cases "map_of (tc_values c) k'")
      case (Some e)
      obtain y z where e: "e = (y, z)" by fastforce
      have "k' \<in> K" using False assms(3) by simp
      have "recent K k x v (c\<lparr>tc_values := without k' xs @ (k, x, v) # (without k' ys @ more)\<rparr>)" if "more = [] \<or> more = [(k', y, z)]" for more
        using that s d [of "(y, z)"] False \<open>k' \<in> K\<close> by (intro recentI [where xs = "without k' xs" and ys = "without k' ys @ more"]) (auto simp: without_mem)
      from this [of "[]"] this [of "[(k', y, z)]"] show ?thesis using Some e w by (simp add: lookup_def)
    qed (use assms(1) in \<open>simp add: lookup_def\<close>)
  qed
qed

lemma recent_set_value:
  assumes "recent K k x v c" "now < x" "k' \<noteq> k" "k' \<in> K" "finite K" "card K < tc_maxsize c"
  shows "recent K k x v (set_value now k' u c)"
proof -
  obtain xs ys where c: "tc_values c = xs @ (k, x, v) # ys" "k \<notin> fst ` set xs" "k \<notin> fst ` set ys" "fst ` set ys \<subseteq> K" "distinct (map fst ys)"
    using assms(1) by (auto simp: recent_def)
  define f where "f vs = without k' (remove_expired now vs)" for vs :: "('a \<times> instant \<times> 'b) list"
  define ys' where "ys' = f ys @ [(k', now + tc_ttl c, u)]"
  have fs: "set (f vs) \<subseteq> set vs" for vs by (auto simp: f_def without_def remove_expired_def)
  have split: "f (tc_values c) @ [(k', now + tc_ttl c, u)] = f xs @ (k, x, v) # ys'"
    using c(1) assms(2,3) by (simp add: f_def ys'_def without_def remove_expired_def)
  have d: "distinct (map fst ys')" "k \<notin> fst ` set ys'" "fst ` set ys' \<subseteq> K"
    using distinct_without [OF distinct_unexpired [OF c(5)], of k' now] image_mono [OF fs [of ys], of fst] c(3,4) assms(3,4)
    unfolding ys'_def f_def by auto
  have "length ys' \<le> card K"
    using card_mono [OF assms(5) d(3)] distinct_card [OF d(1)] by simp
  then have "length ((k, x, v) # ys') \<le> tc_maxsize c" using assms(6) by simp
  then obtain zs where "evict (tc_maxsize c) (f xs @ (k, x, v) # ys') = zs @ (k, x, v) # ys'" "set zs \<subseteq> set (f xs)"
    using evict_keeps_tail by metis
  moreover have "tc_values (set_value now k' u c) = evict (tc_maxsize c) (f xs @ (k, x, v) # ys')"
    using arg_cong [OF split, of "evict (tc_maxsize c)"] by (simp only: set_value_def f_def) simp
  moreover have "k \<notin> fst ` set zs" using calculation(2) fs [of xs] c(2) by blast
  ultimately show ?thesis using d by (intro recentI) auto
qed

text \<open>C38: What was used recently stays: a stored value is found until it expires, as long as fewer than \<open>maxsize\<close> other keys are
  looked up or stored in between and it is not itself overwritten.\<close>

theorem recently_used_is_kept:
  assumes "well_formed ttl c" "finite K" "card K < tc_maxsize c" "k \<notin> K"
    and "list_all (\<lambda>(t, op). t < now + ttl \<and> op \<noteq> Clear_all \<and> (touches op \<subseteq> K \<or> op = Look k)) h" "later < now + ttl"
  shows "fst (lookup later k (cache_run h (set_value now k v c))) = Some v"
proof -
  have start: "recent K k (now + ttl) v (set_value now k v c)"
  proof -
    obtain zs where "evict (tc_maxsize c) (without k (remove_expired now (tc_values c)) @ (k, now + ttl, v) # []) = zs @ (k, now + ttl, v) # []"
        "set zs \<subseteq> set (without k (remove_expired now (tc_values c)))"
      using evict_keeps_tail [of "(k, now + ttl, v)" "[]" "tc_maxsize c" "without k (remove_expired now (tc_values c))"] assms(1)
      by (auto simp: well_formed_def)
    moreover have "k \<notin> fst ` set (without k vs)" for vs :: "('a \<times> instant \<times> 'b) list" by (auto simp: without_def)
    ultimately show ?thesis using assms(1) by (intro recentI [where xs = zs and ys = "[]"]) (auto simp: set_value_def well_formed_def)
  qed
  have step: "recent K k (now + ttl) v (cache_step t op c) \<and> tc_maxsize (cache_step t op c) = tc_maxsize c"
    if r: "recent K k (now + ttl) v c" and t: "t < now + ttl" "op \<noteq> Clear_all" "touches op \<subseteq> K \<or> op = Look k" and m: "card K < tc_maxsize c" for t op c
  proof (cases op)
    case (Look k')
    then show ?thesis using recent_lookup [OF r t(1), of k'] t(3) by (auto simp: lookup_def split: option.splits)
  next
    case (Put k' u)
    then show ?thesis using recent_set_value [OF r t(1) _ _ assms(2) m, of k' u] t(3) assms(4) by (auto simp: set_value_def)
  next
    case Count
    obtain xs ys where c: "tc_values c = xs @ (k, now + ttl, v) # ys" "k \<notin> fst ` set xs" "k \<notin> fst ` set ys" "fst ` set ys \<subseteq> K" "distinct (map fst ys)"
      using r by (auto simp: recent_def)
    have "remove_expired t (tc_values c) = remove_expired t xs @ (k, now + ttl, v) # remove_expired t ys"
      using c(1) t(1) by (simp add: remove_expired_def)
    moreover have "set (remove_expired t vs) \<subseteq> set vs" for vs :: "('a \<times> instant \<times> 'b) list" by (auto simp: remove_expired_def)
    ultimately show ?thesis using c distinct_unexpired [OF c(5), of t] Count unfolding recent_def
      by (simp add: cache_len_def Let_def) blast
  qed (use t in simp)
  have "recent K k (now + ttl) v (cache_run h c')" if "recent K k (now + ttl) v c'" "tc_maxsize c' = tc_maxsize c" for c'
    using assms(5) that
  proof (induction h arbitrary: c')
    case (Cons a h)
    obtain t op where a: "a = (t, op)" by fastforce
    from step [of c' t op] Cons.prems a assms(3) Cons.IH [of "cache_step t op c'"] show ?case
      by (auto simp: cache_run_def)
  qed (simp add: cache_run_def)
  from this [OF start] obtain xs ys where "tc_values (cache_run h (set_value now k v c)) = xs @ (k, now + ttl, v) # ys" "k \<notin> fst ` set xs"
    by (auto simp: recent_def set_value_def)
  then have "map_of (tc_values (cache_run h (set_value now k v c))) k = Some (now + ttl, v)"
    by (force simp: map_of_append map_of_eq_None_iff map_add_Some_iff)
  then show ?thesis using assms(6) by (simp add: lookup_def)
qed

theorem recently_used_is_kept_witness:
  "fst (lookup 50 (1 :: nat) (cache_run [(10, Put 2 ''b''), (20, Look 1)] (set_value 0 1 ''a'' \<lparr>tc_maxsize = 2, tc_ttl = 100, tc_values = []\<rparr>)))
     = Some ''a''"
  by (rule recently_used_is_kept [where ttl = 100 and K = "{2}"]) (simp_all add: well_formed_def)

end
