(* ===== verification/Name_Resolution.thy ===== *)
theory Name_Resolution
  imports Ttl_Cache Ipv4 Regex
begin

section \<open>Host names to addresses (app/services/hostname_resolver.py)\<close>

text \<open>
  \<open>resolve_hostname\<close>: its cache, the candidates with the search suffixes, the system's resolver, one DNS question
  to a configured server, and the hosts file. Packets are lists of bytes. The system's resolver, the socket, the
  file and the parser of IPv6 texts are arguments: what they answer at one call is a \<open>resolver_env\<close>.
\<close>

type_synonym bytes = "8 word list"

definition byte :: "nat \<Rightarrow> 8 word" where
  "byte n = of_nat n"

text \<open>Big endian, two bytes.\<close>

definition be16 :: "nat \<Rightarrow> bytes" where
  "be16 n = [byte (n div 256), byte n]"

definition be16_at :: "bytes \<Rightarrow> nat \<Rightarrow> nat" where
  "be16_at p i = unat (p ! i) * 256 + unat (p ! Suc i)"

definition dotted :: "bytes \<Rightarrow> string" where
  "dotted bs = join ''.'' (map (\<lambda>b. show_nat (unat b)) bs)"

subsection \<open>One DNS question\<close>

text \<open>The bytes of the labels. A label of 256 characters or more does not fit its length byte, which raises OverflowError;
  one with a non-ASCII character makes the query None.\<close>

datatype dns_query = Overflow_error | No_query | Query bytes

fun encode_labels :: "string list \<Rightarrow> dns_query" where
  "encode_labels [] = Query []"
| "encode_labels (l # ls) =
     (if 255 < length l then Overflow_error
      else if \<not> list_all (\<lambda>c. (of_char c :: nat) < 128) l then No_query
      else (case encode_labels ls of
              Query bs \<Rightarrow> Query (byte (length l) # map (\<lambda>c. byte (of_char c)) l @ bs)
            | e \<Rightarrow> e))"

definition build_dns_query :: "nat \<Rightarrow> string \<Rightarrow> dns_query" where
  "build_dns_query transaction_id hostname =
     (let labels = filter (\<lambda>l. l \<noteq> []) (split_on CHR ''.'' hostname) in
      if labels = [] then No_query
      else case encode_labels labels of
          Query qname \<Rightarrow> Query (concat (map be16 [transaction_id, 256, 1, 0, 0, 0]) @ qname @ [0] @ be16 1 @ be16 1)
        | e \<Rightarrow> e)"

function skip_dns_name :: "bytes \<Rightarrow> nat \<Rightarrow> nat" where
  "skip_dns_name payload offset =
     (if offset < length payload then
        (let l = payload ! offset in
         if l = 0 then offset + 1
         else if l AND 0xC0 = 0xC0 then offset + 2
         else skip_dns_name payload (offset + 1 + unat l))
      else offset)"
  by pat_completeness auto
termination
  by (relation "measure (\<lambda>(payload, offset). length payload - offset)") auto

declare skip_dns_name.simps [simp del]

fun skip_questions :: "nat \<Rightarrow> bytes \<Rightarrow> nat \<Rightarrow> nat option" where
  "skip_questions 0 payload offset = Some offset"
| "skip_questions (Suc n) payload offset =
     (let off = skip_dns_name payload offset in
      if length payload < off + 4 then None else skip_questions n payload (off + 4))"

fun read_answers :: "nat \<Rightarrow> bytes \<Rightarrow> nat \<Rightarrow> string option" where
  "read_answers 0 payload offset = None"
| "read_answers (Suc n) payload offset =
     (let off = skip_dns_name payload offset in
      if length payload < off + 10 then None
      else (let rtype = be16_at payload off; rclass = be16_at payload (off + 2); rdlength = be16_at payload (off + 8) in
            if length payload < off + 10 + rdlength then None
            else if rtype = 1 \<and> rclass = 1 \<and> rdlength = 4 then Some (dotted (take rdlength (drop (off + 10) payload)))
            else read_answers n payload (off + 10 + rdlength)))"

definition parse_dns_a_record :: "bytes \<Rightarrow> string option" where
  "parse_dns_a_record payload =
     (if length payload < 12 then None
      else (let qdcount = be16_at payload 4; ancount = be16_at payload 6 in
            if ancount = 0 then None
            else case skip_questions qdcount payload 12 of
                None \<Rightarrow> None
              | Some offset \<Rightarrow> read_answers ancount payload offset))"

subsection \<open>Where a name is looked up\<close>

text \<open>An answer of \<open>gethostbyname\<close>: an address, an OSError, or any other exception (a label the IDNA codec refuses
  raises UnicodeError).\<close>

datatype lookup_answer = Address string | Os_error | Raises

record resolver_env =
  re_gethostbyname :: "string \<Rightarrow> lookup_answer"
  re_getaddrinfo :: "string \<Rightarrow> string list option"
  re_exchange :: "string \<Rightarrow> bytes \<Rightarrow> bytes option"
  re_hosts :: "string option"
  re_ipv6 :: "string \<Rightarrow> string option"
  re_transaction_id :: nat

definition ipv4_text :: "ipv4 \<Rightarrow> string" where
  "ipv4_text a = join ''.'' (map show_nat [unat (drop_bit 24 a), unat (drop_bit 16 a) mod 256, unat (drop_bit 8 a) mod 256, unat a mod 256])"

text \<open>\<open>str(ipaddress.ip_address(v))\<close>, or a ValueError.\<close>

definition ip_address :: "resolver_env \<Rightarrow> string \<Rightarrow> string option" where
  "ip_address env v = (case ipv4_address v of Some a \<Rightarrow> Some (ipv4_text a) | None \<Rightarrow> re_ipv6 env v)"

definition strip_dots :: "string \<Rightarrow> string" where
  "strip_dots s = rev (dropWhile (\<lambda>c. c = CHR ''.'') (rev (dropWhile (\<lambda>c. c = CHR ''.'') s)))"

fun dedup_names :: "string list \<Rightarrow> string list \<Rightarrow> string list" where
  "dedup_names seen [] = []"
| "dedup_names seen (c # cs) = (if lower c \<in> set seen then dedup_names seen cs else c # dedup_names (lower c # seen) cs)"

definition build_candidates :: "string \<Rightarrow> string \<Rightarrow> string list" where
  "build_candidates hostname suffixes =
     dedup_names []
       (hostname # (if CHR ''.'' \<notin> set hostname
          then map (\<lambda>suffix. hostname @ ''.'' @ suffix)
                 (filter (\<lambda>s. s \<noteq> []) (map (\<lambda>s. strip_dots (strip s)) (filter (\<lambda>s. strip s \<noteq> []) (split_on CHR '','' suffixes))))
          else []))"

text \<open>The lookups answer \<open>Inl ()\<close> for an exception that escapes them.\<close>

definition resolve_with_system_dns :: "resolver_env \<Rightarrow> string \<Rightarrow> unit + string option" where
  "resolve_with_system_dns env candidate =
     (case re_gethostbyname env candidate of
        Address ip \<Rightarrow> Inr (Some ip)
      | Raises \<Rightarrow> Inl ()
      | Os_error \<Rightarrow>
          (case re_getaddrinfo env candidate of
             None \<Rightarrow> Inr None
           | Some addresses \<Rightarrow> Inr (find (\<lambda>a. a \<noteq> []) addresses)))"

definition hosts_line :: "resolver_env \<Rightarrow> string \<Rightarrow> string \<Rightarrow> string option" where
  "hosts_line env candidate line =
     (let target = lower candidate; short_target = hd (split_on CHR ''.'' target);
          parts = split_ws (strip (hd (split_on CHR ''#'' line)))
      in case parts of
           raw # alias # aliases \<Rightarrow>
             (case ip_address env raw of
                None \<Rightarrow> None
              | Some ip \<Rightarrow> if target \<in> lower ` set (alias # aliases) \<or> short_target \<in> lower ` set (alias # aliases) then Some ip else None)
         | _ \<Rightarrow> None)"

fun first_some :: "('a \<Rightarrow> 'b option) \<Rightarrow> 'a list \<Rightarrow> 'b option" where
  "first_some f [] = None"
| "first_some f (x # xs) = (case f x of Some y \<Rightarrow> Some y | None \<Rightarrow> first_some f xs)"

definition resolve_from_hosts_file :: "resolver_env \<Rightarrow> string \<Rightarrow> string option" where
  "resolve_from_hosts_file env candidate =
     (case re_hosts env of None \<Rightarrow> None | Some text \<Rightarrow> first_some (hosts_line env candidate) (splitlines text))"

definition resolve_with_explicit_dns_server :: "resolver_env \<Rightarrow> string \<Rightarrow> string \<Rightarrow> unit + string option" where
  "resolve_with_explicit_dns_server env candidate server =
     (if strip server = [] then Inr None
      else case ip_address env (strip server) of
          None \<Rightarrow> Inr None
        | Some dns_ip \<Rightarrow>
            (case build_dns_query (re_transaction_id env) candidate of
               Overflow_error \<Rightarrow> Inl ()
             | No_query \<Rightarrow> Inr None
             | Query q \<Rightarrow> Inr (case re_exchange env dns_ip q of None \<Rightarrow> None | Some payload \<Rightarrow> parse_dns_a_record payload)))"

text \<open>The first candidate with a non-empty answer.\<close>

fun first_resolved :: "(string \<Rightarrow> unit + string option) \<Rightarrow> string list \<Rightarrow> unit + string option" where
  "first_resolved f [] = Inr None"
| "first_resolved f (c # cs) =
     (case f c of
        Inl e \<Rightarrow> Inl e
      | Inr r \<Rightarrow> (case truthy r of Some ip \<Rightarrow> Inr (Some ip) | None \<Rightarrow> first_resolved f cs))"

definition resolve_uncached :: "resolver_env \<Rightarrow> string \<Rightarrow> string \<Rightarrow> string \<Rightarrow> unit + string option" where
  "resolve_uncached env value suffixes server =
     (case ip_address env value of
        Some ip \<Rightarrow> Inr (Some ip)
      | None \<Rightarrow>
          (let candidates = build_candidates value suffixes in
           case first_resolved (resolve_with_system_dns env) candidates of
             Inl e \<Rightarrow> Inl e
           | Inr (Some ip) \<Rightarrow> Inr (Some ip)
           | Inr None \<Rightarrow>
               (case (if strip server = [] then Inr None
                      else first_resolved (\<lambda>c. resolve_with_explicit_dns_server env c (strip server)) candidates) of
                  Inl e \<Rightarrow> Inl e
                | Inr (Some ip) \<Rightarrow> Inr (Some ip)
                | Inr None \<Rightarrow> first_resolved (\<lambda>c. Inr (resolve_from_hosts_file env c)) candidates)))"

subsection \<open>The cached resolution\<close>

type_synonym name_key = "string \<times> string \<times> string"
type_synonym name_cache = "(name_key, string option) ttl_cache"

text \<open>300 seconds, 4096 names; an instant is a count of microseconds.\<close>

definition resolve_cache_ttl :: int where
  "resolve_cache_ttl = 300000000"

definition empty_name_cache :: name_cache where
  "empty_name_cache = \<lparr>tc_maxsize = 4096, tc_ttl = resolve_cache_ttl, tc_values = []\<rparr>"

definition name_key :: "string \<Rightarrow> string \<Rightarrow> string \<Rightarrow> name_key" where
  "name_key hostname suffixes server = (lower (strip hostname), lower (strip suffixes), strip server)"

definition resolve_hostname :: "resolver_env \<Rightarrow> instant \<Rightarrow> string \<Rightarrow> string \<Rightarrow> string \<Rightarrow> name_cache \<Rightarrow> (unit + string option) \<times> name_cache" where
  "resolve_hostname env now hostname suffixes server cache =
     (let value = strip hostname; key = name_key hostname suffixes server in
      if value = [] then (Inr None, cache)
      else case lookup now key cache of
          (Some cached, cache1) \<Rightarrow> (Inr cached, cache1)
        | (None, cache1) \<Rightarrow>
            (case resolve_uncached env value suffixes server of
               Inl e \<Rightarrow> (Inl e, cache1)
             | Inr ip \<Rightarrow> (Inr ip, set_value now key ip cache1)))"

subsection \<open>Reading an answer\<close>

text \<open>A response as RFC 1035 lays it out: names are labels of 1 to 63 bytes, ended by a zero byte or by a pointer; a question is a name,
  a type and a class; a resource record has a time to live and its data on top.\<close>

record wire_name =
  wn_labels :: "bytes list"
  wn_pointer :: "(8 word \<times> 8 word) option"

record resource =
  rr_name :: wire_name
  rr_type :: nat
  rr_class :: nat
  rr_ttl :: bytes
  rr_data :: bytes

definition wire_of :: "wire_name \<Rightarrow> bytes" where
  "wire_of nm = concat (map (\<lambda>l. byte (length l) # l) (wn_labels nm)) @ (case wn_pointer nm of None \<Rightarrow> [0] | Some (a, b) \<Rightarrow> [a, b])"

definition name_ok :: "wire_name \<Rightarrow> bool" where
  "name_ok nm \<longleftrightarrow> list_all (\<lambda>l. 0 < length l \<and> length l < 64) (wn_labels nm)
     \<and> (case wn_pointer nm of None \<Rightarrow> True | Some (a, b) \<Rightarrow> a AND 0xC0 = 0xC0)"

definition resource_ok :: "resource \<Rightarrow> bool" where
  "resource_ok r \<longleftrightarrow> name_ok (rr_name r) \<and> rr_type r < 65536 \<and> rr_class r < 65536 \<and> length (rr_ttl r) = 4 \<and> length (rr_data r) < 65536"

definition wire_question :: "wire_name \<Rightarrow> bytes" where
  "wire_question nm = wire_of nm @ be16 1 @ be16 1"

definition wire_resource :: "resource \<Rightarrow> bytes" where
  "wire_resource r = wire_of (rr_name r) @ be16 (rr_type r) @ be16 (rr_class r) @ rr_ttl r @ be16 (length (rr_data r)) @ rr_data r"

definition wire_response :: "nat \<Rightarrow> nat \<Rightarrow> wire_name list \<Rightarrow> resource list \<Rightarrow> bytes \<Rightarrow> bytes" where
  "wire_response transaction_id flags questions answers rest =
     be16 transaction_id @ be16 flags @ be16 (length questions) @ be16 (length answers) @ be16 0 @ be16 0
     @ concat (map wire_question questions) @ concat (map wire_resource answers) @ rest"

lemma length_byte:
  assumes "0 < length l" "length l < 64"
  shows "byte (length l) AND 0xC0 \<noteq> 0xC0" "byte (length l) \<noteq> 0" "unat (byte (length l)) = length l"
proof -
  show u: "unat (byte (length l)) = length l" using assms(2) by (simp add: byte_def unat_of_nat take_bit_eq_mod)
  then show "byte (length l) \<noteq> 0" using assms(1) by fastforce
  show "byte (length l) AND 0xC0 \<noteq> 0xC0"
  proof
    assume "byte (length l) AND 0xC0 = 0xC0"
    then have "unat (byte (length l) AND 0xC0) = 192" by simp
    moreover have "unat (byte (length l) AND 0xC0) \<le> unat (byte (length l))" by (simp add: word_le_nat_alt [symmetric] word_and_le2)
    ultimately show False using u assms(2) by simp
  qed
qed

lemma be16_at_mid: "n < 65536 \<Longrightarrow> be16_at (pre @ be16 n @ post) (length pre) = n"
proof -
  assume n: "n < 65536"
  have "unat (byte (n div 256)) = n div 256" "unat (byte n) = n mod 256"
    using n by (simp_all add: byte_def unat_of_nat take_bit_eq_mod)
  then show ?thesis by (simp add: be16_at_def be16_def nth_append)
qed

lemma be16_at_skip: "n < 65536 \<Longrightarrow> length pre = i \<Longrightarrow> be16_at (pre @ be16 n @ post) i = n"
  using be16_at_mid by blast

lemma skip_wire_name:
  "name_ok nm \<Longrightarrow> skip_dns_name (pre @ wire_of nm @ post) (length pre) = length pre + length (wire_of nm)"
proof (induction "wn_labels nm" arbitrary: nm pre)
  case Nil
  show ?case
  proof (cases "wn_pointer nm")
    case None
    then show ?thesis using Nil by (subst skip_dns_name.simps) (simp add: wire_of_def nth_append Let_def)
  next
    case (Some ab)
    obtain a b where ab: "ab = (a, b)" by fastforce
    with Nil Some have "a AND 0xC0 = 0xC0" by (simp add: name_ok_def)
    moreover from this have "a \<noteq> 0" by auto
    ultimately show ?thesis using Nil Some ab by (subst skip_dns_name.simps) (simp add: wire_of_def nth_append Let_def)
  qed
next
  case (Cons l ls)
  define nm' where "nm' = nm\<lparr>wn_labels := ls\<rparr>"
  have "list_all (\<lambda>l. 0 < length l \<and> length l < 64) (l # ls)" using Cons.prems unfolding name_ok_def Cons.hyps(2) by blast
  then have ok: "name_ok nm'" "0 < length l" "length l < 64" using Cons.prems by (simp_all add: name_ok_def nm'_def)
  note l = length_byte [OF ok(2,3)]
  have w: "wire_of nm = (byte (length l) # l) @ wire_of nm'" using Cons.hyps(2) [symmetric] by (simp add: wire_of_def nm'_def)
  have "skip_dns_name (pre @ wire_of nm @ post) (length pre) = skip_dns_name (pre @ wire_of nm @ post) (length pre + 1 + length l)"
    using l by (subst skip_dns_name.simps) (simp add: w nth_append Let_def)
  also have "\<dots> = skip_dns_name ((pre @ byte (length l) # l) @ wire_of nm' @ post) (length (pre @ byte (length l) # l))"
    by (simp add: w)
  also have "\<dots> = length pre + length (wire_of nm)"
    by (subst Cons.hyps(1) [OF _ ok(1)]) (simp_all add: w nm'_def)
  finally show ?case .
qed

lemma skip_wire_questions:
  "list_all name_ok qs \<Longrightarrow> skip_questions (length qs) (pre @ concat (map wire_question qs) @ post) (length pre)
     = Some (length pre + length (concat (map wire_question qs)))"
proof (induction qs arbitrary: pre)
  case (Cons q qs)
  define p where "p = pre @ concat (map wire_question (q # qs)) @ post"
  have w: "length (wire_question q) = length (wire_of q) + 4" by (simp add: wire_question_def be16_def)
  have p: "p = pre @ wire_of q @ (be16 1 @ be16 1 @ concat (map wire_question qs) @ post)" "p = (pre @ wire_question q) @ concat (map wire_question qs) @ post"
    by (simp_all add: p_def wire_question_def)
  have s: "skip_dns_name p (length pre) = length pre + length (wire_of q)"
    unfolding p(1) using Cons.prems by (intro skip_wire_name) simp
  have "skip_questions (length qs) p (length (pre @ wire_question q)) = Some (length (pre @ wire_question q) + length (concat (map wire_question qs)))"
    unfolding p(2) using Cons.prems by (intro Cons.IH) simp
  then have "skip_questions (length qs) p (length pre + length (wire_of q) + 4) = Some (length pre + length (concat (map wire_question (q # qs))))"
    by (simp add: w add.assoc)
  moreover have "length pre + length (wire_of q) + 4 \<le> length p" by (simp add: p_def w)
  ultimately show ?case unfolding p_def [symmetric] by (simp add: s)
qed simp

definition is_address :: "resource \<Rightarrow> bool" where
  "is_address r \<longleftrightarrow> rr_type r = 1 \<and> rr_class r = 1 \<and> length (rr_data r) = 4"

lemma read_wire_answers:
  "list_all resource_ok rs \<Longrightarrow> read_answers (length rs) (pre @ concat (map wire_resource rs) @ post) (length pre)
     = map_option (\<lambda>r. dotted (rr_data r)) (find is_address rs)"
proof (induction rs arbitrary: pre)
  case (Cons r rs)
  define p where "p = pre @ concat (map wire_resource (r # rs)) @ post"
  define tail where "tail = concat (map wire_resource rs) @ post"
  define off where "off = length pre + length (wire_of (rr_name r))"
  have r: "resource_ok r" using Cons.prems by simp
  then have t: "length (rr_ttl r) = 4" by (simp add: resource_ok_def)
  have p1: "p = pre @ wire_of (rr_name r) @ (be16 (rr_type r) @ be16 (rr_class r) @ rr_ttl r @ be16 (length (rr_data r)) @ rr_data r @ tail)"
    by (simp add: p_def wire_resource_def tail_def)
  have s: "skip_dns_name p (length pre) = off"
    unfolding p1 off_def using r by (intro skip_wire_name) (simp add: resource_ok_def)
  have ty: "be16_at p off = rr_type r"
    using be16_at_skip [of "rr_type r" "pre @ wire_of (rr_name r)" off] r by (simp add: p1 off_def resource_ok_def)
  have cl: "be16_at p (off + 2) = rr_class r"
    using be16_at_skip [of "rr_class r" "pre @ wire_of (rr_name r) @ be16 (rr_type r)" "off + 2"] r
    by (simp add: p1 off_def resource_ok_def be16_def)
  have len: "be16_at p (off + 8) = length (rr_data r)"
    using be16_at_skip [of "length (rr_data r)" "pre @ wire_of (rr_name r) @ be16 (rr_type r) @ be16 (rr_class r) @ rr_ttl r" "off + 8"] r
    by (simp add: p1 off_def resource_ok_def be16_def)
  have total: "length p = off + 10 + length (rr_data r) + length tail" using t by (simp add: p1 off_def be16_def)
  have data: "take (length (rr_data r)) (drop (off + 10) p) = rr_data r" using t by (simp add: p1 off_def be16_def)
  have data4: "length (rr_data r) = 4 \<Longrightarrow> take 4 (drop (off + 10) p) = rr_data r" using data by simp
  have next_pre: "length (pre @ wire_resource r) = off + 10 + length (rr_data r)"
    using t by (simp add: off_def be16_def wire_resource_def)
  have rest: "read_answers (length rs) p (off + 10 + length (rr_data r)) = map_option (\<lambda>r. dotted (rr_data r)) (find is_address rs)"
    using Cons.IH [of "pre @ wire_resource r"] Cons.prems next_pre by (simp add: p_def)
  have "read_answers (length (r # rs)) p (length pre)
      = (if rr_type r = 1 \<and> rr_class r = 1 \<and> length (rr_data r) = 4 then Some (dotted (rr_data r))
         else read_answers (length rs) p (off + 10 + length (rr_data r)))"
    using s ty cl len total data data4 by (auto simp: Let_def)
  moreover have "is_address r \<longleftrightarrow> rr_type r = 1 \<and> rr_class r = 1 \<and> length (rr_data r) = 4" by (simp add: is_address_def)
  ultimately show ?case unfolding p_def [symmetric] by (simp add: rest del: read_answers.simps)
qed simp

text \<open>C14: From every well-formed response the address read is that of its first IPv4 address record: whatever the questions, the
  records before it (aliases, other types), the pointers in the names, and what follows the answers.\<close>

theorem first_address_record_is_read:
  assumes "list_all name_ok questions" "list_all resource_ok answers" "length questions < 65536" "length answers < 65536"
  shows "parse_dns_a_record (wire_response transaction_id flags questions answers rest)
     = map_option (\<lambda>r. dotted (rr_data r)) (find is_address answers)"
proof -
  define p where "p = wire_response transaction_id flags questions answers rest"
  define head where "head = be16 transaction_id @ be16 flags @ be16 (length questions) @ be16 (length answers) @ be16 0 @ be16 0"
  have h: "length head = 12" by (simp add: head_def be16_def)
  have p: "p = head @ concat (map wire_question questions) @ (concat (map wire_resource answers) @ rest)"
    "p = (head @ concat (map wire_question questions)) @ concat (map wire_resource answers) @ rest"
    by (simp_all add: p_def wire_response_def head_def)
  have q: "be16_at p 4 = length questions"
    using be16_at_skip [OF assms(3), of "be16 transaction_id @ be16 flags" 4] by (simp add: p_def wire_response_def be16_def)
  have a: "be16_at p 6 = length answers"
    using be16_at_skip [OF assms(4), of "be16 transaction_id @ be16 flags @ be16 (length questions)" 6] by (simp add: p_def wire_response_def be16_def)
  have "skip_questions (length questions) p 12 = Some (length (head @ concat (map wire_question questions)))"
    using skip_wire_questions [OF assms(1), of head] h unfolding p(1) by simp
  moreover have "read_answers (length answers) p (length (head @ concat (map wire_question questions)))
      = map_option (\<lambda>r. dotted (rr_data r)) (find is_address answers)"
    unfolding p(2) by (rule read_wire_answers [OF assms(2)])
  moreover have "12 \<le> length p" using h by (simp add: p(1))
  ultimately show ?thesis using q a unfolding p_def [symmetric] by (auto simp: parse_dns_a_record_def Let_def)
qed

theorem first_address_record_is_read_witness:
  "parse_dns_a_record (wire_response 7 33152 [\<lparr>wn_labels = [[112, 99]], wn_pointer = None\<rparr>]
      [\<lparr>rr_name = \<lparr>wn_labels = [], wn_pointer = Some (0xC0, 12)\<rparr>, rr_type = 5, rr_class = 1, rr_ttl = [0, 0, 0, 9], rr_data = [1, 97, 0]\<rparr>,
       \<lparr>rr_name = \<lparr>wn_labels = [[97]], wn_pointer = Some (0xC0, 12)\<rparr>, rr_type = 1, rr_class = 1, rr_ttl = [0, 0, 0, 9], rr_data = [10, 10, 98, 5]\<rparr>] [])
    = Some ''10.10.98.5''"
proof -
  have "dotted [10, 10, 98, 5] = ''10.10.98.5''" by code_simp
  then show ?thesis by (subst first_address_record_is_read) (simp_all add: name_ok_def resource_ok_def is_address_def)
qed

text \<open>Whatever bytes come back, what is read off them is nothing or four of them.\<close>

lemma read_answers_octets: "read_answers n p off = Some s \<Longrightarrow> \<exists>bs. length bs = 4 \<and> s = dotted bs"
  by (induction n p off rule: read_answers.induct) (auto simp: Let_def split: if_splits intro!: exI [of _ "take 4 (drop _ _)"])

subsection \<open>How old an answer is\<close>

type_synonym name_call = "resolver_env \<times> instant \<times> string \<times> string \<times> string"

definition name_run :: "name_call list \<Rightarrow> name_cache \<Rightarrow> name_cache" where
  "name_run calls cache = fold (\<lambda>(env, now, hostname, suffixes, server) c. snd (resolve_hostname env now hostname suffixes server c)) calls cache"

text \<open>The call looked the name up itself and got this answer.\<close>

fun answers :: "name_call \<Rightarrow> name_key \<times> instant \<times> string option \<Rightarrow> bool" where
  "answers (env, now, hostname, suffixes, server) (key, t, ip) \<longleftrightarrow>
     name_key hostname suffixes server = key \<and> t = now \<and> resolve_uncached env (strip hostname) suffixes server = Inr ip"

definition computed_result :: "unit + string option \<Rightarrow> string option option" where
  "computed_result r = (case r of Inl _ \<Rightarrow> None | Inr ip \<Rightarrow> Some ip)"

lemma resolve_is_memo:
  assumes "strip hostname \<noteq> []"
  shows "computed_result (fst (resolve_hostname env now hostname suffixes server c))
      = fst (memo lookup set_value (computed_result (resolve_uncached env (strip hostname) suffixes server)) now (name_key hostname suffixes server) (c, computed))"
    and "snd (resolve_hostname env now hostname suffixes server c)
      = fst (snd (memo lookup set_value (computed_result (resolve_uncached env (strip hostname) suffixes server)) now (name_key hostname suffixes server) (c, computed)))"
  using assms by (auto simp: resolve_hostname_def memo_def computed_result_def Let_def case_prod_unfold split: option.splits sum.splits)

definition explained :: "name_call list \<Rightarrow> name_cache \<times> (name_key \<times> instant \<times> string option) list \<Rightarrow> bool" where
  "explained calls s \<longleftrightarrow> bounded.traced resolve_cache_ttl s \<and> (\<forall>e \<in> set (snd s). \<exists>c \<in> set calls. answers c e)"

lemma explained_call:
  assumes "explained calls (c, l)"
  shows "\<exists>l'. explained (calls @ [(env, now, hostname, suffixes, server)]) (snd (resolve_hostname env now hostname suffixes server c), l')
     \<and> (\<forall>ip. strip hostname \<noteq> [] \<longrightarrow> fst (resolve_hostname env now hostname suffixes server c) = Inr ip
         \<longrightarrow> (\<exists>t. (name_key hostname suffixes server, t, ip) \<in> set l' \<and> now < t + resolve_cache_ttl))"
proof (cases "strip hostname = []")
  case True
  then show ?thesis using assms by (auto simp: resolve_hostname_def explained_def intro!: exI [of _ l])
next
  case False
  define m where "m = memo lookup set_value (computed_result (resolve_uncached env (strip hostname) suffixes server)) now (name_key hostname suffixes server) (c, l)"
  have tr: "bounded.traced resolve_cache_ttl (c, l)" using assms by (simp add: explained_def)
  have new: "e \<in> set l \<or> answers (env, now, hostname, suffixes, server) e" if "e \<in> set (snd (snd m))" for e
    using that by (auto simp: m_def memo_def case_prod_unfold computed_result_def split: option.splits sum.splits)
  have "bounded.traced resolve_cache_ttl (snd m)" unfolding m_def by (rule bounded.memo_keeps [OF tr])
  moreover have "snd m = (snd (resolve_hostname env now hostname suffixes server c), snd (snd m))"
    using resolve_is_memo(2) [OF False, of env now suffixes server c l] by (simp add: m_def prod_eq_iff)
  moreover have "\<forall>e \<in> set (snd (snd m)). \<exists>c \<in> set (calls @ [(env, now, hostname, suffixes, server)]). answers c e"
    using new assms unfolding explained_def by (simp del: answers.simps) blast
  moreover have "\<exists>t. (name_key hostname suffixes server, t, ip) \<in> set (snd (snd m)) \<and> now < t + resolve_cache_ttl"
    if "fst (resolve_hostname env now hostname suffixes server c) = Inr ip" for ip
    using bounded.memo_fresh [OF tr, of "computed_result (resolve_uncached env (strip hostname) suffixes server)" now "name_key hostname suffixes server" ip]
      resolve_is_memo(1) [OF False, of env now suffixes server c l] that
    by (simp add: m_def computed_result_def resolve_cache_ttl_def)
  ultimately show ?thesis unfolding explained_def by (intro exI [of _ "snd (snd m)"]) (simp del: answers.simps)
qed

text \<open>An answer is never more than 300 seconds old: whatever calls a process makes, an address it is given is what the lookup of
  some call with the same name, suffixes and server gave less than 300 seconds before, or the lookup made now.\<close>

theorem resolved_names_are_fresh:
  "case fst (resolve_hostname env now hostname suffixes server (name_run calls empty_name_cache)) of
     Inr (Some ip) \<Rightarrow>
       (\<exists>t. now < t + 300000000 \<and> (\<exists>c \<in> set (calls @ [(env, now, hostname, suffixes, server)]). answers c (name_key hostname suffixes server, t, Some ip)))
   | _ \<Rightarrow> True"
proof -
  have "\<exists>l. explained calls (name_run calls empty_name_cache, l)"
  proof (induction calls rule: rev_induct)
    case Nil
    have "explained [] (empty_name_cache, [])"
      by (simp add: explained_def bounded.traced_def empty_name_cache_def well_formed_def)
    then show ?case by (auto simp: name_run_def)
  next
    case (snoc call calls)
    obtain env now hostname suffixes server where "call = (env, now, hostname, suffixes, server)" by (metis prod_cases5)
    with snoc explained_call show ?case by (fastforce simp: name_run_def)
  qed
  then obtain l where l: "explained calls (name_run calls empty_name_cache, l)" by blast
  show ?thesis
  proof (cases "fst (resolve_hostname env now hostname suffixes server (name_run calls empty_name_cache))")
    case (Inr r)
    show ?thesis
    proof (cases r)
      case (Some ip)
      have "strip hostname \<noteq> []" using Inr Some by (auto simp: resolve_hostname_def)
      with explained_call [OF l, of env now hostname suffixes server] Inr obtain l' t where
        "explained (calls @ [(env, now, hostname, suffixes, server)]) (snd (resolve_hostname env now hostname suffixes server (name_run calls empty_name_cache)), l')"
        "(name_key hostname suffixes server, t, r) \<in> set l'" "now < t + resolve_cache_ttl"
        by blast
      then show ?thesis using Inr Some unfolding explained_def resolve_cache_ttl_def by (simp del: answers.simps) blast
    qed (simp add: Inr)
  qed simp
qed
end
