(* ===== verification/Device_Poll.thy ===== *)
theory Device_Poll
  imports Name_Resolution Mac_Rediscovery
begin

section \<open>Probing one device (app/services/device_poll.py, mac_lookup.py, net_inventory.py)\<close>

text \<open>
  What the code makes of the answers of a device: its own NetBIOS packets, the resolution of an address, the SNMP
  values, the ARP tables, and the status they add up to. Sockets, subprocesses and pysnmp are arguments (\<open>device_env\<close>); the
  metrics are left out. The MAC search over the ARP table is theory Mac_Rediscovery.
\<close>

record device_status =
  dv_is_online :: bool
  dv_hostname :: "string option"
  dv_os_info :: "string option"
  dv_uptime :: "ustr option"
  dv_mac :: "string option"
  dv_open_ports :: "nat list"

subsection \<open>Uptime\<close>

definition format_uptime :: "nat \<Rightarrow> ustr" where
  "format_uptime ticks =
     (let seconds = ticks div 100; days = seconds div 86400; hours = seconds mod 86400 div 3600; minutes = seconds mod 86400 mod 3600 div 60
      in u_join [32] ((if days \<noteq> 0 then [cp (show_nat days) @ [1076]] else []) @ (if hours \<noteq> 0 then [cp (show_nat hours) @ [1095]] else [])
           @ [cp (show_nat minutes) @ [1084]]))"

subsection \<open>NetBIOS names\<close>

text \<open>RFC 1001 first-level encoding. The names are ASCII.\<close>

definition netbios_encode_name :: "string \<Rightarrow> bytes" where
  "netbios_encode_name name =
     (let padded = take 16 (upper name @ replicate (16 - length name) CHR '' '')
      in byte 32 # concat (map (\<lambda>c. [byte (65 + of_char c div 16), byte (65 + of_char c mod 16)]) padded) @ [0])"

definition netbios_query_packet :: "string \<Rightarrow> bytes" where
  "netbios_query_packet name = concat (map be16 [1, 272, 1, 0, 0, 0]) @ netbios_encode_name name @ be16 32 @ be16 1"

function skip_labels :: "bytes \<Rightarrow> nat \<Rightarrow> nat" where
  "skip_labels data offset =
     (if offset < length data then
        (if data ! offset = 0 then offset + 1 else skip_labels data (offset + 1 + unat (data ! offset)))
      else offset)"
  by pat_completeness auto
termination
  by (relation "measure (\<lambda>(data, offset). length data - offset)") auto

declare skip_labels.simps [simp del]

definition netbios_parse_response :: "bytes \<Rightarrow> string option" where
  "netbios_parse_response data =
     (if length data < 60 then None
      else if be16_at data 6 = 0 then None
      else (let offset = skip_labels data 12 + 4;
                offset2 = (if offset < length data \<and> data ! offset AND 0xC0 = 0xC0 then offset + 2 else skip_labels data offset) + 12
            in if offset2 + 4 \<le> length data then Some (dotted (take 4 (drop offset2 data))) else None))"

definition max_netbios_targets :: nat where
  "max_netbios_targets = 2048"

text \<open>\<open>hosts\<close> are the addresses of the configured subnets; \<open>replies\<close> are the packets that arrive while the code listens, in
  order. The hosts the question goes to come first in the answer.\<close>

definition netbios_resolve :: "string list \<Rightarrow> bytes list \<Rightarrow> string list \<times> string option" where
  "netbios_resolve hosts replies =
     (let targets = take max_netbios_targets hosts in
      if targets = [] then ([], None) else (targets, first_some netbios_parse_response replies))"

subsection \<open>The address of a device\<close>

record device_env =
  de_gethostbyname :: "string \<Rightarrow> string option"
  de_hosts :: "string list"
  de_replies :: "string \<Rightarrow> bytes list"
  de_port_open :: "string \<Rightarrow> nat \<Rightarrow> bool"
  de_snmp_get :: "string \<Rightarrow> (string \<times> string \<times> nat option) list option"
  de_snmp_walk :: "string \<Rightarrow> bytes option list list"
  de_ping :: "string \<Rightarrow> bool"
  de_proc_arp :: "string list"
  de_ip_neigh :: "string \<Rightarrow> string"

type_synonym host_cache = "(string, string option) ttl_cache"

definition ipv4_shape :: re where
  "ipv4_shape = seqs [Bol, times 3 (Seq (one_to_three dig) (lit ''.'')), one_to_three dig, Eol]"

text \<open>Both caches: 4096 names, 300 seconds.\<close>

definition resolve_host :: "device_env \<Rightarrow> instant \<Rightarrow> string \<Rightarrow> host_cache \<Rightarrow> string option \<times> host_cache" where
  "resolve_host env now address cache =
     (if re_match ipv4_shape address \<noteq> None then (Some address, cache)
      else case lookup now address cache of
          (Some cached, cache1) \<Rightarrow> (cached, cache1)
        | (None, cache1) \<Rightarrow>
            (let dns = first_some (de_gethostbyname env) (address # (if CHR ''.'' \<notin> set address then [address @ ''.local'', address @ ''.lan''] else []));
                 found = (case dns of Some ip \<Rightarrow> Some ip | None \<Rightarrow> truthy (snd (netbios_resolve (de_hosts env) (de_replies env address))))
             in (found, set_value now address found cache1)))"

subsection \<open>One poll\<close>

definition scan_ports_list :: "nat list" where
  "scan_ports_list = [22, 80, 135, 139, 443, 445, 554, 3389, 5405, 8080, 8081, 9090]"

definition scan_ports :: "device_env \<Rightarrow> string \<Rightarrow> nat list" where
  "scan_ports env ip = sort (filter (de_port_open env ip) scan_ports_list)"

record snmp_info =
  si_hostname :: "string option"
  si_os_info :: "string option"
  si_uptime :: "ustr option"

definition no_snmp_info :: snmp_info where
  "no_snmp_info = \<lparr>si_hostname = None, si_os_info = None, si_uptime = None\<rparr>"

text \<open>A variable: its OID as text, its value as text, and as an integer where it is one.\<close>

fun snmp_binding :: "string \<times> string \<times> nat option \<Rightarrow> snmp_info \<Rightarrow> snmp_info" where
  "snmp_binding (oid, val, ticks) info =
     (let s = strip val in
      if s = [] then info
      else if contains ''1.3.6.1.2.1.1.1.0'' oid then info\<lparr>si_os_info := Some (take 255 s)\<rparr>
      else if contains ''1.3.6.1.2.1.1.5.0'' oid then info\<lparr>si_hostname := Some (take 255 s)\<rparr>
      else if contains ''1.3.6.1.2.1.1.3.0'' oid then info\<lparr>si_uptime := Some (case ticks of Some t \<Rightarrow> format_uptime t | None \<Rightarrow> cp s)\<rparr>
      else info)"

definition get_snmp_info :: "device_env \<Rightarrow> string \<Rightarrow> snmp_info" where
  "get_snmp_info env ip = (case de_snmp_get env ip of None \<Rightarrow> no_snmp_info | Some bindings \<Rightarrow> fold snmp_binding bindings no_snmp_info)"

definition hex_octet :: "8 word \<Rightarrow> string" where
  "hex_octet b = [''0123456789abcdef'' ! (unat b div 16), ''0123456789abcdef'' ! (unat b mod 16)]"

text \<open>The answers of the walk up to its first error; a value without octets is \<open>None\<close>.\<close>

definition get_snmp_mac :: "device_env \<Rightarrow> string \<Rightarrow> string option" where
  "get_snmp_mac env ip =
     first_some (\<lambda>v. case v of
         Some octets \<Rightarrow> if length octets = 6 \<and> (\<exists>b \<in> set octets. b \<noteq> 0) then Some (join '':'' (map hex_octet octets)) else None
       | None \<Rightarrow> None) (concat (de_snmp_walk env ip))"

definition arp_mac_of :: "string \<Rightarrow> string \<Rightarrow> string option" where
  "arp_mac_of ip line =
     (case split_ws line of
        a # b # c # mac # _ \<Rightarrow> if a = ip \<and> lower mac \<noteq> zero_mac \<and> length mac = 17 then Some (lower mac) else None
      | _ \<Rightarrow> None)"

definition get_mac_from_arp :: "device_env \<Rightarrow> string \<Rightarrow> string option" where
  "get_mac_from_arp env ip =
     (case first_some (arp_mac_of ip) (drop 1 (de_proc_arp env)) of
        Some mac \<Rightarrow> Some mac
      | None \<Rightarrow>
          (let out = strip (de_ip_neigh env ip) in
           case after_lladdr (split_ws out) of
             Some mac \<Rightarrow> if length mac = 17 then Some (lower mac) else None
           | None \<Rightarrow> None))"

definition offline_status :: device_status where
  "offline_status = \<lparr>dv_is_online = False, dv_hostname = None, dv_os_info = None, dv_uptime = None, dv_mac = None, dv_open_ports = []\<rparr>"

definition poll_device :: "device_env \<Rightarrow> instant \<Rightarrow> string \<Rightarrow> host_cache \<Rightarrow> device_status \<times> host_cache" where
  "poll_device env now address cache =
     (case resolve_host env now address cache of
        (resolved, cache1) \<Rightarrow>
          (case truthy resolved of
             None \<Rightarrow> (offline_status, cache1)
           | Some ip \<Rightarrow>
               (let ports = scan_ports env ip; info = get_snmp_info env ip; mac = get_snmp_mac env ip;
                    hostname = (if truthy (si_hostname info) = None \<and> ip \<noteq> address then Some address else si_hostname info)
                in (\<lparr>dv_is_online = (ports \<noteq> [] \<or> info \<noteq> no_snmp_info \<or> de_ping env ip),
                     dv_hostname = hostname, dv_os_info = si_os_info info, dv_uptime = si_uptime info,
                     dv_mac = (case truthy mac of Some m \<Rightarrow> Some m | None \<Rightarrow> (case truthy (get_mac_from_arp env ip) of Some m \<Rightarrow> Some m | None \<Rightarrow> mac)),
                     dv_open_ports = ports\<rparr>, cache1))))"

subsection \<open>A device's MAC address (mac_lookup.py)\<close>

text \<open>\<open>snmp_mac\<close> and \<open>poll\<close> are the two lookups; \<open>Failed\<close> for an exception.\<close>

definition resolve_mac_for_ip_address :: "(string \<Rightarrow> string option reply) \<Rightarrow> (string \<Rightarrow> device_status reply) \<Rightarrow> string option \<Rightarrow> bool \<Rightarrow> string option" where
  "resolve_mac_for_ip_address snmp_mac poll address prefer_snmp =
     (case truthy address of
        None \<Rightarrow> None
      | Some ip \<Rightarrow>
          (case (if prefer_snmp then (case snmp_mac ip of Failed \<Rightarrow> None | Reply mac \<Rightarrow> normalize_mac mac) else None) of
             Some mac \<Rightarrow> Some mac
           | None \<Rightarrow> (case poll ip of Failed \<Rightarrow> None | Reply status \<Rightarrow> normalize_mac (dv_mac status))))"

subsection \<open>The local ARP table (net_inventory.py)\<close>

datatype platform = Linux | Darwin | Windows | Other_system

definition linux_arp_row :: "string \<Rightarrow> (string \<times> string) list" where
  "linux_arp_row line = (case split_ws line of a # b # c # mac # _ \<Rightarrow> if mac \<noteq> zero_mac then [(a, lower mac)] else [] | _ \<Rightarrow> [])"

definition linux_neigh_row :: "string \<Rightarrow> (string \<times> string) list" where
  "linux_neigh_row line = (case split_ws line of a # b # c # k # mac # _ \<Rightarrow> if k = ''lladdr'' then [(a, lower mac)] else [] | _ \<Rightarrow> [])"

definition four_numbers :: re where
  "four_numbers = Grp 1 (seqs [plus dig, lit ''.'', plus dig, lit ''.'', plus dig, lit ''.'', plus dig])"

definition darwin_arp :: re where
  "darwin_arp = seqs [lit ''('', four_numbers, lit '')'', plus spc, lit ''at'', plus spc, Grp 2 (plus (Cls (\<lambda>c. is_hex c \<or> c = CHR '':'')))]"

definition windows_arp :: re where
  "windows_arp = (let two = Seq (Cls is_hex) (Cls is_hex) in
     seqs [four_numbers, plus spc, Grp 2 (seqs [two, lit ''-'', two, lit ''-'', two, lit ''-'', two, lit ''-'', two, lit ''-'', two])])"

definition arp_a_row :: "re \<Rightarrow> string \<Rightarrow> (string \<times> string) list" where
  "arp_a_row r line =
     (case re_search r line of
        None \<Rightarrow> []
      | Some m \<Rightarrow> [(group_text m 1, lower (map (\<lambda>c. if c = CHR ''-'' then CHR '':'' else c) (group_text m 2)))])"

text \<open>\<open>proc_arp\<close> has no rows when the file is not there; the command's output is empty when it cannot be run.\<close>

definition parse_arp_table :: "platform \<Rightarrow> string list \<Rightarrow> string \<Rightarrow> (string \<times> string) list" where
  "parse_arp_table system proc_arp command_output =
     (case system of
        Linux \<Rightarrow>
          (let rows = concat (map linux_arp_row (drop 1 proc_arp)) in
           if rows \<noteq> [] then fold (\<lambda>(k, v) d. AList.update k v d) rows []
           else fold (\<lambda>(k, v) d. AList.update k v d) (concat (map linux_neigh_row (splitlines command_output))) [])
      | Darwin \<Rightarrow> fold (\<lambda>(k, v) d. AList.update k v d) (concat (map (arp_a_row darwin_arp) (splitlines command_output))) []
      | Windows \<Rightarrow> fold (\<lambda>(k, v) d. AList.update k v d) (concat (map (arp_a_row windows_arp) (splitlines command_output))) []
      | Other_system \<Rightarrow> [])"

subsection \<open>What a NetBIOS host answers\<close>

text \<open>A positive name query response of RFC 1002 (section 4.2.13): the header announces no question and one answer record; the record
  has the name asked for, its type and class, the time to live, and for every address of the host two flag bytes
  and the address.\<close>

definition positive_name_response :: "nat \<Rightarrow> string \<Rightarrow> (8 word \<times> 8 word \<times> 8 word) \<Rightarrow> ((8 word \<times> 8 word) \<times> 8 word \<times> 8 word \<times> 8 word \<times> 8 word) list \<Rightarrow> bytes" where
  "positive_name_response transaction_id name ttl addresses =
     be16 transaction_id @ be16 34048 @ be16 0 @ be16 1 @ be16 0 @ be16 0 @ netbios_encode_name name @ be16 32 @ be16 1
     @ (case ttl of (t1, t2, t3) \<Rightarrow> [0, t1, t2, t3]) @ be16 (6 * length addresses)
     @ concat (map (\<lambda>((f, g), a, b, c, d). [f, g, a, b, c, d]) addresses)"

lemma encoded_length: "length (netbios_encode_name name) = 34"
proof -
  define f :: "char \<Rightarrow> bytes" where "f = (\<lambda>c. [byte (65 + of_char c div 16), byte (65 + of_char c mod 16)])"
  define padded where "padded = take 16 (upper name @ replicate (16 - length name) CHR '' '')"
  have "length (f c) = 2" for c by (simp add: f_def)
  then have f: "length (concat (map f cs)) = 2 * length cs" for cs by (induction cs) auto
  have "length padded = 16" by (simp add: padded_def upper_def)
  moreover have "netbios_encode_name name = byte 32 # concat (map f padded) @ [0]"
    by (simp only: netbios_encode_name_def Let_def padded_def f_def)
  ultimately show ?thesis using f [of padded] by simp
qed

lemma encoded_shape: "\<exists>mid. netbios_encode_name name = byte 32 # mid @ [0] \<and> length mid = 32"
  using encoded_length [of name] by (simp add: netbios_encode_name_def Let_def)

text \<open>The question's labels are skipped whether or not there is a question: the name of the answer is taken for it, and the
  time to live for the name of the answer.\<close>

lemma response_offsets:
  assumes "d = pre @ netbios_encode_name name @ [q1, q2, q3, q4, 0] @ rest" "length pre = 12"
  shows "skip_labels d 12 = 46" and "d ! 50 = 0" and "skip_labels d 50 = 51"
proof -
  obtain mid where m: "netbios_encode_name name = byte 32 # mid @ [0]" "length mid = 32" using encoded_shape by blast
  have d: "d = (pre @ byte 32 # mid) @ [0, q1, q2, q3, q4, 0] @ rest" using assms(1) m(1) by simp
  have l: "length (pre @ byte 32 # mid) = 45" using assms(2) m(2) by simp
  have d12: "d ! 12 = byte 32" using assms(2) by (simp add: d nth_append)
  have "d ! (length (pre @ byte 32 # mid) + n) = ([0, q1, q2, q3, q4, 0] @ rest) ! n" for n
    unfolding d by (rule nth_append_length_plus)
  from this [of 0] this [of 5] have d45: "d ! 45 = 0" and d50: "d ! 50 = 0" unfolding l by simp_all
  show "d ! 50 = 0" by (rule d50)
  have n: "12 < length d" "45 < length d" "50 < length d" using l by (simp_all add: d)
  have b: "byte 32 \<noteq> 0" "unat (byte 32) = 32" by (simp_all add: byte_def)
  have "skip_labels d 12 = skip_labels d 45" using n(1) d12 b by (subst skip_labels.simps) simp
  also have "\<dots> = 46" using n(2) d45 by (subst skip_labels.simps) simp
  finally show "skip_labels d 12 = 46" .
  show "skip_labels d 50 = 51" using n(3) d50 by (subst skip_labels.simps) simp
qed

text \<open>C35: The NetBIOS lookup cannot read the answers of RFC 1002. A positive response (with a time to live below 194 days) gives no
  address when the host has one, and for a host with several it gives the low flag byte of the second address followed
  by its first three bytes.\<close>

theorem netbios_answers_are_misread:
  "netbios_parse_response (positive_name_response transaction_id name ttl addresses)
   = (case addresses of (_ # ((f, g), a, b, c, d) # _) \<Rightarrow> Some (dotted [g, a, b, c]) | _ \<Rightarrow> None)"
proof -
  obtain t1 t2 t3 where t: "ttl = (t1, t2, t3)" by (metis prod_cases3)
  define body where "body = concat (map (\<lambda>((f, g), a, b, c, d). [f, g, a, b, c, d]) addresses)"
  define pre where "pre = be16 transaction_id @ be16 34048 @ be16 0 @ be16 1 @ be16 0 @ be16 0"
  define p where "p = positive_name_response transaction_id name ttl addresses"
  have pre: "length pre = 12" by (simp add: pre_def be16_def)
  have p: "p = pre @ netbios_encode_name name @ [byte 0, byte 32, byte 0, byte 1, 0] @ ([t1, t2, t3] @ be16 (6 * length addresses) @ body)"
    by (simp add: p_def positive_name_response_def pre_def t be16_def body_def)
  note o = response_offsets [OF p pre]
  have lb: "length body = 6 * length addresses" unfolding body_def by (induction addresses) (auto simp: case_prod_unfold)
  have lp: "length p = 56 + length body" by (simp add: p pre encoded_length be16_def)
  have count: "be16_at p 6 = 1"
    using be16_at_skip [of 1 "be16 transaction_id @ be16 34048 @ be16 0" 6] by (simp add: p pre_def be16_def)
  have front: "drop 63 p = drop 7 body" by (simp add: p pre encoded_length be16_def drop_Cons')
  have parse: "netbios_parse_response p = (if length p < 67 then None else Some (dotted (take 4 (drop 7 body))))"
    using o count by (simp add: netbios_parse_response_def Let_def front)
  show ?thesis
  proof (cases addresses)
    case Nil
    then show ?thesis using parse lp lb unfolding p_def by simp
  next
    case (Cons a1 rest)
    show ?thesis
    proof (cases rest)
      case Nil
      then show ?thesis using parse lp lb Cons unfolding p_def by simp
    next
      case (Cons a2 more)
      then show ?thesis using parse lp lb \<open>addresses = a1 # rest\<close> unfolding p_def by (auto simp: body_def split: prod.splits)
    qed
  qed
qed

end
