(* ===== verification/Smart_Search.thy ===== *)
theory Smart_Search
  imports Prelude
begin

section \<open>Search over Cyrillic and Latin look-alikes (app/services/smart_search.py)\<close>

text \<open>
  A query is split into terms, and each term is searched for with its Latin letters and their Cyrillic look-alikes exchanged.
  Texts are code points. The database evaluates the filter of \<open>build_ilike_filter\<close>: a conjunction over the terms of
  disjunctions over spellings and columns; the set of spellings is a list without duplicates.
\<close>

definition lookalikes :: "(nat \<times> nat) list" where
  "lookalikes =
     [(65, 1040), (97, 1072), (66, 1042), (69, 1045), (101, 1077), (75, 1050), (107, 1082), (77, 1052), (72, 1053), (104, 1085),
      (79, 1054), (111, 1086), (80, 1056), (112, 1088), (67, 1057), (99, 1089), (84, 1058), (116, 1090), (88, 1061), (120, 1093),
      (89, 1059), (121, 1091)]"

definition lat_to_cyr_cp :: "nat \<Rightarrow> nat" where
  "lat_to_cyr_cp n = (case map_of lookalikes n of Some c \<Rightarrow> c | None \<Rightarrow> n)"

definition cyr_to_lat_cp :: "nat \<Rightarrow> nat" where
  "cyr_to_lat_cp n = (case map_of (map prod.swap lookalikes) n of Some c \<Rightarrow> c | None \<Rightarrow> n)"

definition lat_to_cyr :: "ustr \<Rightarrow> ustr" where
  "lat_to_cyr s = map lat_to_cyr_cp s"

definition cyr_to_lat :: "ustr \<Rightarrow> ustr" where
  "cyr_to_lat s = map cyr_to_lat_cp s"

text \<open>\<open>re.split(r"\s+", query.strip())\<close> without its empty pieces.\<close>

definition tokens :: "ustr \<Rightarrow> ustr list" where
  "tokens query = (if u_strip query = [] then [] else u_split (u_strip query))"

definition variants :: "ustr \<Rightarrow> ustr list" where
  "variants token = (let v = u_strip token in if v = [] then [] else remdups (filter (\<lambda>x. x \<noteq> []) [v, lat_to_cyr v, cyr_to_lat v]))"

text \<open>The patterns of the filter: one list of alternatives per term; \<open>None\<close> for no filter.\<close>

definition build_ilike_filter :: "ustr \<Rightarrow> ustr list list option" where
  "build_ilike_filter query =
     (let terms = tokens query; parts = filter (\<lambda>ps. ps \<noteq> []) (map (\<lambda>t. map (\<lambda>v. 37 # v @ [37]) (variants t)) terms)
      in if terms = [] then None else if parts = [] then None else Some parts)"

text \<open>The database's ILIKE: \<open>%\<close> is any text, \<open>_\<close> any character, a backslash escapes the next character.\<close>

fun u_like :: "ustr \<Rightarrow> ustr \<Rightarrow> bool" where
  "u_like [] s = (s = [])"
| "u_like (p # ps) s =
     (if p = 37 then (case s of [] \<Rightarrow> u_like ps [] | x # xs \<Rightarrow> u_like ps s \<or> u_like (p # ps) xs)
      else if p = 92 then (case ps of [] \<Rightarrow> False | q # qs \<Rightarrow> (case s of [] \<Rightarrow> False | x # xs \<Rightarrow> x = q \<and> u_like qs xs))
      else (case s of [] \<Rightarrow> False | x # xs \<Rightarrow> (p = 95 \<or> x = p) \<and> u_like ps xs))"

definition u_ilike :: "ustr \<Rightarrow> ustr \<Rightarrow> bool" where
  "u_ilike p s = u_like (u_lower p) (u_lower s)"

definition filter_selects :: "ustr list list option \<Rightarrow> ustr option list \<Rightarrow> bool" where
  "filter_selects flt columns =
     (case flt of
        None \<Rightarrow> True
      | Some parts \<Rightarrow> list_all (\<lambda>ps. list_ex (\<lambda>p. list_ex (\<lambda>c. case c of None \<Rightarrow> False | Some s \<Rightarrow> u_ilike p s) columns) ps) parts)"

definition normalize_text :: "ustr \<Rightarrow> ustr" where
  "normalize_text s = u_lower (lat_to_cyr s)"

definition text_matches_query :: "ustr option list \<Rightarrow> ustr \<Rightarrow> bool" where
  "text_matches_query values query =
     (let terms = map normalize_text (tokens query);
          haystack = normalize_text (u_join [32] (map (\<lambda>v. case v of None \<Rightarrow> [] | Some s \<Rightarrow> s) values))
      in terms = [] \<or> list_all (\<lambda>t. contains t haystack) terms)"

subsection \<open>Small letters\<close>

text \<open>The search of texts tells capitals from small letters where only the capital has a look-alike: the table is applied before the
  text is lowered, and has no small b and m. \<open>M1\<close> is found as \<open>M1\<close>, not as \<open>m1\<close>.\<close>

lemma search_tells_m_from_M: "text_matches_query [Some [77, 49]] [77, 49] \<and> \<not> text_matches_query [Some [77, 49]] [109, 49]"
  by (simp add: text_matches_query_def tokens_def u_strip_def u_split_def u_is_space_def normalize_text_def lat_to_cyr_def
      lat_to_cyr_cp_def lookalikes_def u_lower_def u_lower_cp_def)

subsection \<open>Codes in either spelling\<close>

text \<open>The letters that look the same, by their shapes: the Latin capitals A B C E H K M O P T X Y and the Cyrillic capitals written
  like them, by their code points. It is what the table of the code is for, and does not come from it.\<close>

definition glyphs :: "(nat \<times> nat) list" where
  "glyphs = [(65, 1040), (66, 1042), (67, 1057), (69, 1045), (72, 1053), (75, 1050), (77, 1052), (79, 1054), (80, 1056), (84, 1058),
     (88, 1061), (89, 1059)]"

definition cyrillic_glyph :: "nat \<Rightarrow> nat" where
  "cyrillic_glyph n = (case map_of glyphs n of Some c \<Rightarrow> c | None \<Rightarrow> n)"

definition in_cyrillic :: "ustr \<Rightarrow> ustr" where
  "in_cyrillic w = map cyrillic_glyph w"

text \<open>A device code as it stands on a label: capitals, digits and hyphens.\<close>

definition code_chars :: "nat list" where
  "code_chars = 45 # [48..<58] @ [65..<91]"

definition code_word :: "ustr \<Rightarrow> bool" where
  "code_word w \<longleftrightarrow> w \<noteq> [] \<and> list_all (\<lambda>n. n \<in> set code_chars) w"

text \<open>A column contains the code in one of its two spellings, whatever the case.\<close>

definition found_in :: "ustr option list \<Rightarrow> ustr \<Rightarrow> bool" where
  "found_in columns w \<longleftrightarrow>
     list_ex (\<lambda>c. case c of None \<Rightarrow> False
       | Some s \<Rightarrow> contains (u_lower w) (u_lower s) \<or> contains (u_lower (in_cyrillic w)) (u_lower s)) columns"

lemma like_any: "u_like [37] s"
  by (induction s) auto

definition plain :: "ustr \<Rightarrow> bool" where
  "plain v \<longleftrightarrow> list_all (\<lambda>n. n \<notin> {37, 92, 95}) v"

lemma like_prefix: "plain v \<Longrightarrow> u_like (v @ [37]) s \<longleftrightarrow> take (length v) s = v"
proof (induction v arbitrary: s)
  case (Cons p v)
  then show ?case by (cases s) (auto simp: plain_def)
next
  case Nil
  then show ?case using like_any [of s] by simp
qed

lemma like_contains:
  assumes "plain v"
  shows "u_like (37 # v @ [37]) s \<longleftrightarrow> contains v s"
proof (induction s)
  case Nil
  then show ?case using like_prefix [OF assms, of "[]"] by auto
next
  case (Cons x xs)
  then show ?case using like_prefix [OF assms, of "x # xs"] by simp
qed

definition spells_well :: "nat \<Rightarrow> bool" where
  "spells_well n \<longleftrightarrow> lat_to_cyr_cp n = cyrillic_glyph n \<and> lat_to_cyr_cp (cyrillic_glyph n) = cyrillic_glyph n
     \<and> cyr_to_lat_cp n = n \<and> cyr_to_lat_cp (cyrillic_glyph n) = n \<and> \<not> u_is_space n \<and> \<not> u_is_space (cyrillic_glyph n)
     \<and> u_lower_cp n \<notin> {37, 92, 95} \<and> u_lower_cp (cyrillic_glyph n) \<notin> {37, 92, 95}"

lemma spelling_chars: "list_all spells_well code_chars"
  by (simp add: spells_well_def code_chars_def cyrillic_glyph_def glyphs_def lookalikes_def lat_to_cyr_cp_def cyr_to_lat_cp_def
      u_is_space_def u_lower_cp_def)

lemma code_word_spellings:
  assumes "code_word w"
  shows "lat_to_cyr w = in_cyrillic w" "lat_to_cyr (in_cyrillic w) = in_cyrillic w" "cyr_to_lat w = w" "cyr_to_lat (in_cyrillic w) = w"
    "u_word w" "u_word (in_cyrillic w)" "plain (u_lower w)" "plain (u_lower (in_cyrillic w))"
proof -
  have c: "n \<in> set w \<Longrightarrow> n \<in> set code_chars" for n using assms by (simp add: code_word_def list_all_iff)
  note t = spelling_chars [unfolded list_all_iff, THEN bspec, OF c, unfolded spells_well_def]
  show "lat_to_cyr w = in_cyrillic w" "lat_to_cyr (in_cyrillic w) = in_cyrillic w" "cyr_to_lat w = w" "cyr_to_lat (in_cyrillic w) = w"
    unfolding lat_to_cyr_def in_cyrillic_def cyr_to_lat_def map_map o_def using t by (simp_all add: map_idI)
  show "u_word w" "u_word (in_cyrillic w)" "plain (u_lower w)" "plain (u_lower (in_cyrillic w))"
    using t assms by (auto simp: u_word_def code_word_def in_cyrillic_def plain_def u_lower_def list_all_iff)
qed

lemma strip_word: "u_word w \<Longrightarrow> u_strip w = w"
proof -
  assume "u_word w"
  then have "dropWhile u_is_space w = w" "dropWhile u_is_space (rev w) = rev w"
    by (auto simp: u_word_def dropWhile_eq_self_iff hd_rev)
  then show ?thesis by (simp add: u_strip_def)
qed

lemma strip_words:
  assumes "ws \<noteq> []" "\<forall>w \<in> set ws. u_word w"
  shows "u_strip (u_join [32] ws) = u_join [32] ws" "u_join [32] ws \<noteq> []"
proof -
  have "u_join [32] ws \<noteq> [] \<and> \<not> u_is_space (hd (u_join [32] ws)) \<and> \<not> u_is_space (last (u_join [32] ws))"
    using assms
  proof (induction "[32 :: nat]" ws rule: u_join.induct)
    case (3 w v vs)
    then show ?case by (auto simp: u_word_def)
  qed (auto simp: u_word_def)
  note ends = this
  then show "u_join [32] ws \<noteq> []" by simp
  from ends have "dropWhile u_is_space (u_join [32] ws) = u_join [32] ws" "dropWhile u_is_space (rev (u_join [32] ws)) = rev (u_join [32] ws)"
    by (simp_all add: dropWhile_eq_self_iff hd_rev)
  then show "u_strip (u_join [32] ws) = u_join [32] ws" by (simp add: u_strip_def)
qed

lemma tokens_words: "ws \<noteq> [] \<Longrightarrow> \<forall>w \<in> set ws. u_word w \<Longrightarrow> tokens (u_join [32] ws) = ws"
  using strip_words [of ws] by (simp add: tokens_def u_split_u_join)

definition spelled :: "ustr \<Rightarrow> ustr \<Rightarrow> bool" where
  "spelled w v \<longleftrightarrow> v = w \<or> v = in_cyrillic w"

lemma variants_spelled:
  assumes "code_word w" "spelled w v"
  shows "set (variants v) = {w, in_cyrillic w}" "u_word v"
proof -
  note s = code_word_spellings [OF assms(1)]
  show "u_word v" using assms(2) s by (auto simp: spelled_def)
  then have "u_strip v = v" by (rule strip_word)
  moreover have "v \<noteq> []" "w \<noteq> []" "in_cyrillic w \<noteq> []" using \<open>u_word v\<close> s by (auto simp: u_word_def)
  ultimately show "set (variants v) = {w, in_cyrillic w}"
    using assms(2) s by (auto simp: variants_def spelled_def Let_def)
qed

lemma ilike_spelled:
  assumes "code_word w"
  shows "u_ilike (37 # w @ [37]) s \<longleftrightarrow> contains (u_lower w) (u_lower s)"
    "u_ilike (37 # in_cyrillic w @ [37]) s \<longleftrightarrow> contains (u_lower (in_cyrillic w)) (u_lower s)"
proof -
  have "u_lower (37 # v @ [37]) = 37 # u_lower v @ [37]" for v by (simp add: u_lower_def u_lower_cp_def)
  then show "u_ilike (37 # w @ [37]) s \<longleftrightarrow> contains (u_lower w) (u_lower s)"
    "u_ilike (37 # in_cyrillic w @ [37]) s \<longleftrightarrow> contains (u_lower (in_cyrillic w)) (u_lower s)"
    unfolding u_ilike_def using like_contains code_word_spellings(7,8) [OF assms] by simp_all
qed

lemma term_finds:
  assumes "code_word w" "spelled w v"
  shows "list_ex (\<lambda>p. list_ex (\<lambda>c. case c of None \<Rightarrow> False | Some s \<Rightarrow> u_ilike p s) columns) (map (\<lambda>x. 37 # x @ [37]) (variants v))
    \<longleftrightarrow> found_in columns w"
proof -
  let ?hit = "\<lambda>p. list_ex (\<lambda>c. case c of None \<Rightarrow> False | Some s \<Rightarrow> u_ilike p s) columns"
  have "list_ex ?hit (map (\<lambda>x. 37 # x @ [37]) (variants v)) \<longleftrightarrow> ?hit (37 # w @ [37]) \<or> ?hit (37 # in_cyrillic w @ [37])"
    using variants_spelled(1) [OF assms] by (simp add: list_ex_iff)
  also have "\<dots> \<longleftrightarrow> found_in columns w"
    unfolding found_in_def list_ex_iff ilike_spelled [OF assms(1)] by (auto split: option.splits)
  finally show ?thesis .
qed

text \<open>C34: A search for device codes - capitals, digits and hyphens, several of them separated by spaces - selects exactly the rows in
  which every code stands in some column, written with Latin or with Cyrillic letters, in capitals or not; so it does not
  matter in which of the two the user types each code. Nor does it for the search of texts.\<close>

theorem codes_are_found_in_either_spelling:
  assumes "ws \<noteq> []" "list_all code_word ws" "list_all2 spelled ws vs"
  shows "(filter_selects (build_ilike_filter (u_join [32] vs)) columns \<longleftrightarrow> list_all (found_in columns) ws)
    \<and> text_matches_query columns (u_join [32] vs) = text_matches_query columns (u_join [32] ws)"
proof -
  have each: "n < length ws \<Longrightarrow> code_word (ws ! n) \<and> spelled (ws ! n) (vs ! n)" for n
    using assms(2,3) by (auto simp: list_all_length list_all2_conv_all_nth)
  have len: "length vs = length ws" using assms(3) by (simp add: list_all2_lengthD)
  have "\<forall>v \<in> set vs. u_word v" using each variants_spelled(2) len by (metis in_set_conv_nth)
  then have t: "tokens (u_join [32] vs) = vs" using assms(1) len by (intro tokens_words) auto
  have ne: "variants v \<noteq> []" if "v \<in> set vs" for v
    using that each variants_spelled(1) len by (metis in_set_conv_nth insert_not_empty list.set(1))
  have "filter_selects (build_ilike_filter (u_join [32] vs)) columns
      \<longleftrightarrow> (\<forall>v \<in> set vs. list_ex (\<lambda>p. list_ex (\<lambda>c. case c of None \<Rightarrow> False | Some s \<Rightarrow> u_ilike p s) columns) (map (\<lambda>x. 37 # x @ [37]) (variants v)))"
    using ne assms(1) len by (auto simp: build_ilike_filter_def t Let_def filter_selects_def list_all_iff filter_empty_conv)
  also have "\<dots> \<longleftrightarrow> (\<forall>n < length ws. found_in columns (ws ! n))"
    using term_finds each len by (metis in_set_conv_nth)
  finally have selects: "filter_selects (build_ilike_filter (u_join [32] vs)) columns \<longleftrightarrow> list_all (found_in columns) ws"
    by (simp add: list_all_length)
  have "\<forall>w \<in> set ws. u_word w" using each code_word_spellings(5) by (metis in_set_conv_nth)
  then have "tokens (u_join [32] ws) = ws" using assms(1) by (intro tokens_words)
  moreover have "normalize_text v = normalize_text w" if "code_word w" "spelled w v" for w v
    using that code_word_spellings(1,2) [OF that(1)] by (auto simp: normalize_text_def spelled_def)
  then have "map normalize_text vs = map normalize_text ws" using each len by (auto simp: list_eq_iff_nth_eq [of "map normalize_text vs"])
  ultimately have "text_matches_query columns (u_join [32] vs) = text_matches_query columns (u_join [32] ws)"
    unfolding text_matches_query_def t Let_def by simp
  with selects show ?thesis by blast
qed

definition tm_1 :: "ustr list" where
  "tm_1 = [[84, 77, 45, 49]]"

text \<open>The user types the code with Cyrillic letters, the row has it with Latin ones, in small letters.\<close>

theorem codes_are_found_in_either_spelling_witness:
  "filter_selects (build_ilike_filter (u_join [32] (map in_cyrillic tm_1))) [None, Some [120, 116, 109, 45, 49]]"
proof -
  have ok: "tm_1 \<noteq> []" "list_all code_word tm_1" "list_all2 spelled tm_1 (map in_cyrillic tm_1)"
    by (simp_all add: tm_1_def code_word_def code_chars_def spelled_def)
  have "list_all (found_in [None, Some [120, 116, 109, 45, 49]]) tm_1"
    by (simp add: tm_1_def found_in_def u_lower_def u_lower_cp_def)
  then show ?thesis using codes_are_found_in_either_spelling [OF ok] by simp
qed

end
