(* ===== verification/Onec_Exchange.thy ===== *)
theory Onec_Exchange
  imports Prelude
begin

section \<open>Sending product documents to 1C (app/services/onec_exchange.py, app/api/routes/onec_exchange.py)\<close>

text \<open>
  One POST per cash register, one register after the other, each tried again on a transport error. httpx is not under src/:
  \<open>post\<close> answers a request or raises an HTTPError (\<open>None\<close>), as a function of its own state. The JSON
  values are of an unspecified type; \<open>detail_of\<close> reads a dictionary's detail. The answer's texts are constructors, the
  sleeps between attempts are left out, and the bodies posted are listed.
\<close>

datatype onec_target = Duty_free | Duty_paid

record onec_settings =
  ONEC_DUTY_FREE_API_URL :: string
  ONEC_DUTY_PAID_API_URL :: string
  ONEC_EXCHANGE_API_URL :: string
  ONEC_DUTY_FREE_API_TOKEN :: string
  ONEC_DUTY_PAID_API_TOKEN :: string
  ONEC_EXCHANGE_API_TOKEN :: string
  INTERNAL_HTTP_RETRIES :: int

record cash_row =
  ca_hostname :: string
  ca_kkm_number :: string
  ca_serial_number :: "string option"
  ca_inventory_number :: "string option"
  ca_cash_number :: "string option"

datatype identifier_kind = By_hostname | By_kkm_number | By_serial_number | By_inventory_number | By_cash_number

fun key_of :: "identifier_kind \<Rightarrow> cash_row \<Rightarrow> string option" where
  "key_of By_hostname r = Some (ca_hostname r)"
| "key_of By_kkm_number r = Some (ca_kkm_number r)"
| "key_of By_serial_number r = ca_serial_number r"
| "key_of By_inventory_number r = ca_inventory_number r"
| "key_of By_cash_number r = ca_cash_number r"

record register_entry =
  en_kind :: identifier_kind
  en_value :: string
  en_row :: "cash_row option"

text \<open>The first row of a key counts, in the order the database answers.\<close>

definition resolve_cash_register_targets :: "cash_row list \<Rightarrow> string list \<Rightarrow> identifier_kind \<Rightarrow> register_entry list" where
  "resolve_cash_register_targets tab identifiers kind =
     (let vals = filter (\<lambda>v. v \<noteq> []) (map strip identifiers) in
      map (\<lambda>v. \<lparr>en_kind = kind, en_value = v, en_row = find (\<lambda>r. truthy (key_of kind r) = Some v) tab\<rparr>) vals)"

record onec_body =
  bo_barcode :: string
  bo_source :: string
  bo_target :: onec_target
  bo_register :: "register_entry option"
  bo_hostnames :: "string list"

record 'j http_answer =
  an_status :: nat
  an_request_id :: "string option"
  an_content_type :: string
  an_json :: "'j option"
  an_is_dict :: bool

datatype 'j payload = Dict 'j | Value 'j

text \<open>The summary of a queue, in place of a payload from 1C.\<close>

record 'j queue_summary =
  qs_total :: nat
  qs_success :: nat
  qs_failed :: nat
  qs_request_ids :: "string list"
  qs_errors :: "(register_entry \<times> nat \<times> 'j option) list"
  qs_last :: "'j payload option"

datatype 'j onec_message = Missing_url onec_target | Queue_done nat nat nat | Exchanged | Refused nat "'j option" | Request_failed

datatype 'j result_payload = No_payload | From_onec "'j payload option" | Summary "'j queue_summary"

record 'j onec_result =
  or_ok :: bool
  or_message :: "'j onec_message"
  or_status :: "nat option"
  or_request_id :: "string option"
  or_payload :: "'j result_payload"
  or_error_kind :: "string option"

type_synonym ('w, 'j) transport = "string \<Rightarrow> string option \<Rightarrow> onec_body \<Rightarrow> 'w \<Rightarrow> 'j http_answer option \<times> 'w"

definition text_or :: "string \<Rightarrow> string \<Rightarrow> string" where
  "text_or a b = (if a \<noteq> [] then a else b)"

definition resolve_target_settings :: "onec_settings \<Rightarrow> onec_target \<Rightarrow> string \<times> string" where
  "resolve_target_settings cfg target =
     (case target of
        Duty_free \<Rightarrow> (text_or (ONEC_DUTY_FREE_API_URL cfg) (ONEC_EXCHANGE_API_URL cfg), text_or (ONEC_DUTY_FREE_API_TOKEN cfg) (ONEC_EXCHANGE_API_TOKEN cfg))
      | Duty_paid \<Rightarrow> (text_or (ONEC_DUTY_PAID_API_URL cfg) (ONEC_EXCHANGE_API_URL cfg), text_or (ONEC_DUTY_PAID_API_TOKEN cfg) (ONEC_EXCHANGE_API_TOKEN cfg)))"

text \<open>\<open>n\<close> more attempts; the state is the transport's and the bodies posted so far.\<close>

fun post_attempts :: "nat \<Rightarrow> ('w, 'j) transport \<Rightarrow> string \<Rightarrow> string option \<Rightarrow> onec_body \<Rightarrow> 'w \<times> onec_body list \<Rightarrow> 'j http_answer option \<times> 'w \<times> onec_body list" where
  "post_attempts 0 post url token body s = (None, s)"
| "post_attempts (Suc n) post url token body (w, sent) =
     (case post url token body w of
        (Some a, w') \<Rightarrow> (Some a, w', sent @ [body])
      | (None, w') \<Rightarrow> if n = 0 then (None, w', sent @ [body]) else post_attempts n post url token body (w', sent @ [body]))"

definition attempts :: "onec_settings \<Rightarrow> nat" where
  "attempts cfg = nat (max 1 (INTERNAL_HTTP_RETRIES cfg))"

definition post_with_retries where
  "post_with_retries cfg post url token body s = post_attempts (attempts cfg) post url token body s"

text \<open>The payload of an answer; \<open>Inl ()\<close> for a body that is not JSON under a JSON content type, which raises ValueError.\<close>

definition payload_of :: "'j http_answer \<Rightarrow> unit + 'j payload option" where
  "payload_of a =
     (if contains ''application/json'' (lower (an_content_type a)) then
        (case an_json a of None \<Rightarrow> Inl () | Some j \<Rightarrow> Inr (Some (if an_is_dict a then Dict j else Value j)))
      else Inr None)"

definition is_success :: "'j http_answer \<Rightarrow> bool" where
  "is_success a \<longleftrightarrow> 200 \<le> an_status a \<and> an_status a < 300"

definition detail_in :: "('j \<Rightarrow> 'j option) \<Rightarrow> 'j payload option \<Rightarrow> 'j option" where
  "detail_in detail_of p = (case p of Some (Dict j) \<Rightarrow> detail_of j | _ \<Rightarrow> None)"

text \<open>How a queue or a single exchange ends: with a result, with an HTTPError of the transport, or with another exception.\<close>

datatype 'a ending = Done 'a | Http_error | Crash

record 'j progress =
  pr_success :: nat
  pr_failed :: nat
  pr_errors :: "(register_entry \<times> nat \<times> 'j option) list"
  pr_request_ids :: "string list"
  pr_status :: "nat option"
  pr_last :: "'j payload option"

definition no_progress :: "'j progress" where
  "no_progress = \<lparr>pr_success = 0, pr_failed = 0, pr_errors = [], pr_request_ids = [], pr_status = None, pr_last = None\<rparr>"

definition register_body :: "string \<Rightarrow> string \<Rightarrow> onec_target \<Rightarrow> register_entry \<Rightarrow> onec_body" where
  "register_body barcode source target entry =
     \<lparr>bo_barcode = barcode, bo_source = source, bo_target = target, bo_register = Some entry,
      bo_hostnames = (case en_row entry of None \<Rightarrow> [] | Some r \<Rightarrow> if ca_hostname r = [] then [] else [ca_hostname r])\<rparr>"

definition note_answer :: "('j \<Rightarrow> 'j option) \<Rightarrow> register_entry \<Rightarrow> 'j http_answer \<Rightarrow> 'j payload option \<Rightarrow> 'j progress \<Rightarrow> 'j progress" where
  "note_answer detail_of entry a payload p =
     (let p1 = p\<lparr>pr_request_ids := pr_request_ids p @ (case truthy (an_request_id a) of None \<Rightarrow> [] | Some i \<Rightarrow> [i]),
                 pr_status := Some (an_status a), pr_last := payload\<rparr>
      in if is_success a then p1\<lparr>pr_success := Suc (pr_success p)\<rparr>
         else p1\<lparr>pr_failed := Suc (pr_failed p), pr_errors := pr_errors p @ [(entry, an_status a, detail_in detail_of payload)]\<rparr>)"

fun run_queue ::
    "onec_settings \<Rightarrow> ('w, 'j) transport \<Rightarrow> ('j \<Rightarrow> 'j option) \<Rightarrow> string \<Rightarrow> string option \<Rightarrow> (register_entry \<Rightarrow> onec_body)
     \<Rightarrow> register_entry list \<Rightarrow> 'j progress \<Rightarrow> 'w \<times> onec_body list \<Rightarrow> 'j progress ending \<times> 'w \<times> onec_body list" where
  "run_queue cfg post detail_of url token body_of [] p s = (Done p, s)"
| "run_queue cfg post detail_of url token body_of (entry # entries) p s =
     (case post_with_retries cfg post url token (body_of entry) s of
        (None, s1) \<Rightarrow> (Http_error, s1)
      | (Some a, s1) \<Rightarrow>
          (case payload_of a of
             Inl _ \<Rightarrow> (Crash, s1)
           | Inr payload \<Rightarrow> run_queue cfg post detail_of url token body_of entries (note_answer detail_of entry a payload p) s1))"

definition request_failed :: "'j onec_result" where
  "request_failed = \<lparr>or_ok = False, or_message = Request_failed, or_status = None, or_request_id = None, or_payload = No_payload,
                     or_error_kind = Some ''timeout''\<rparr>"

definition queue_result :: "nat \<Rightarrow> 'j progress \<Rightarrow> 'j onec_result" where
  "queue_result n p =
     \<lparr>or_ok = (pr_failed p = 0), or_message = Queue_done (pr_success p) (pr_failed p) n, or_status = pr_status p,
      or_request_id = (if pr_request_ids p = [] then None else Some (last (pr_request_ids p))),
      or_payload = Summary \<lparr>qs_total = n, qs_success = pr_success p, qs_failed = pr_failed p, qs_request_ids = pr_request_ids p,
                            qs_errors = pr_errors p, qs_last = pr_last p\<rparr>,
      or_error_kind = (if pr_failed p = 0 then None else Some ''integration'')\<rparr>"

definition single_result :: "('j \<Rightarrow> 'j option) \<Rightarrow> 'j http_answer \<Rightarrow> 'j payload option \<Rightarrow> 'j onec_result" where
  "single_result detail_of a payload =
     (if is_success a then
        \<lparr>or_ok = True, or_message = Exchanged, or_status = Some (an_status a), or_request_id = an_request_id a,
         or_payload = From_onec payload, or_error_kind = None\<rparr>
      else \<lparr>or_ok = False, or_message = Refused (an_status a) (detail_in detail_of payload), or_status = Some (an_status a),
            or_request_id = an_request_id a, or_payload = From_onec payload, or_error_kind = Some ''integration''\<rparr>)"

text \<open>\<open>None\<close> for an exception that leaves the service (a 500).\<close>

definition exchange_product_docs_by_barcode ::
    "onec_settings \<Rightarrow> ('w, 'j) transport \<Rightarrow> ('j \<Rightarrow> 'j option) \<Rightarrow> onec_target \<Rightarrow> string \<Rightarrow> string list \<Rightarrow> register_entry list \<Rightarrow> string
     \<Rightarrow> 'w \<Rightarrow> 'j onec_result option \<times> 'w \<times> onec_body list" where
  "exchange_product_docs_by_barcode cfg post detail_of target barcode hostnames targets source w =
     (case resolve_target_settings cfg target of
        (url, token) \<Rightarrow>
          if url = [] then
            (Some \<lparr>or_ok = False, or_message = Missing_url target, or_status = None, or_request_id = None, or_payload = No_payload,
                   or_error_kind = Some ''config''\<rparr>, w, [])
          else if targets \<noteq> [] then
            (case run_queue cfg post detail_of url (truthy (Some token)) (register_body barcode source target) targets no_progress (w, []) of
               (Done p, s) \<Rightarrow> (Some (queue_result (length targets) p), s)
             | (Http_error, s) \<Rightarrow> (Some request_failed, s)
             | (Crash, s) \<Rightarrow> (None, s))
          else
            (case post_with_retries cfg post url (truthy (Some token))
                    \<lparr>bo_barcode = barcode, bo_source = source, bo_target = target, bo_register = None, bo_hostnames = hostnames\<rparr> (w, []) of
               (None, s) \<Rightarrow> (Some request_failed, s)
             | (Some a, s) \<Rightarrow>
                 (case payload_of a of Inl _ \<Rightarrow> (None, s) | Inr payload \<Rightarrow> (Some (single_result detail_of a payload), s))))"

text \<open>The body of the route, after its validators.\<close>

record onec_request =
  oq_target :: onec_target
  oq_barcode :: string
  oq_kind :: identifier_kind
  oq_identifiers :: "string list"
  oq_hostnames :: "string list"
  oq_source :: string

definition validate_onec_request :: "onec_request \<Rightarrow> onec_request option" where
  "validate_onec_request q =
     (let barcode = strip (oq_barcode q); source = strip (oq_source q);
          identifiers = filter (\<lambda>v. v \<noteq> []) (map strip (oq_identifiers q)); hosts = filter (\<lambda>v. v \<noteq> []) (map strip (oq_hostnames q));
          legacy = identifiers = [] \<and> hosts \<noteq> []
      in if barcode = [] \<or> 64 < length barcode \<or> 64 < length source then None
         else Some \<lparr>oq_target = oq_target q, oq_barcode = barcode, oq_kind = (if legacy then By_hostname else oq_kind q),
                    oq_identifiers = (if legacy then hosts else identifiers), oq_hostnames = hosts,
                    oq_source = (if source = [] then ''infrascope'' else source)\<rparr>)"

definition run_exchange_by_barcode ::
    "onec_settings \<Rightarrow> ('w, 'j) transport \<Rightarrow> ('j \<Rightarrow> 'j option) \<Rightarrow> cash_row list \<Rightarrow> onec_request \<Rightarrow> 'w \<Rightarrow> 'j onec_result option \<times> 'w \<times> onec_body list" where
  "run_exchange_by_barcode cfg post detail_of tab q w =
     exchange_product_docs_by_barcode cfg post detail_of (oq_target q) (oq_barcode q) (oq_hostnames q)
       (resolve_cash_register_targets tab (oq_identifiers q) (oq_kind q)) (oq_source q) w"

subsection \<open>One register after the other\<close>









text \<open>The counts of a finished queue.\<close>

lemma run_queue_counts:
  "run_queue cfg post detail_of url token body_of entries p s = (Done p', s')
   \<Longrightarrow> pr_success p' + pr_failed p' = pr_success p + pr_failed p + length entries
     \<and> length (pr_errors p') + pr_failed p = length (pr_errors p) + pr_failed p'"
proof (induction entries arbitrary: p s)
  case (Cons entry entries)
  then obtain a s1 payload where "run_queue cfg post detail_of url token body_of entries (note_answer detail_of entry a payload p) s1 = (Done p', s')"
    by (auto split: prod.splits option.splits sum.splits)
  from Cons.IH [OF this] show ?case by (auto simp: note_answer_def Let_def split: if_splits)
qed simp

text \<open>The summary of a queue adds up: successes and failures are together the registers asked for, there is one error entry per
  failure, and the exchange is reported as done only if no register failed.\<close>

theorem queue_summary_adds_up:
  "case exchange_product_docs_by_barcode cfg post detail_of target barcode hostnames targets source w of
     (Some r, _) \<Rightarrow>
       (case or_payload r of
          Summary q \<Rightarrow> qs_total q = length targets \<and> qs_success q + qs_failed q = length targets \<and> length (qs_errors q) = qs_failed q
                       \<and> or_ok r = (qs_success q = length targets)
        | _ \<Rightarrow> True)
   | _ \<Rightarrow> True"
proof -
  obtain url token where u: "resolve_target_settings cfg target = (url, token)" by fastforce
  have counts: "pr_success p + pr_failed p = length targets \<and> length (pr_errors p) = pr_failed p"
    if "run_queue cfg post detail_of url (truthy (Some token)) (register_body barcode source target) targets no_progress (w, []) = (Done p, s)" for p s
    using run_queue_counts [OF that] by (simp add: no_progress_def)
  show ?thesis using u
    by (auto simp: exchange_product_docs_by_barcode_def queue_result_def single_result_def request_failed_def
        split: ending.splits option.splits sum.splits prod.splits dest!: counts)
qed

text \<open>A transport error at one register throws the account of the registers before it away: what they answered is not in the
  result, though their documents were exchanged.\<close>

lemma late_error_forgets_the_rest:
  assumes "resolve_target_settings cfg target = (url, token)" "url \<noteq> []"
    and "run_queue cfg post detail_of url (truthy (Some token)) (register_body barcode source target) served no_progress (w, []) = (Done p, s)"
    and "post_with_retries cfg post url (truthy (Some token)) (register_body barcode source target entry) s = (None, s')"
  shows "exchange_product_docs_by_barcode cfg post detail_of target barcode hostnames (served @ entry # rest) source w = (Some request_failed, s')"
proof -
  have "run_queue cfg post detail_of url (truthy (Some token)) b (served @ entry # rest) p0 s0 = (Http_error, s')"
    if "run_queue cfg post detail_of url (truthy (Some token)) b served p0 s0 = (Done p, s)"
      "post_with_retries cfg post url (truthy (Some token)) (b entry) s = (None, s')" for b p0 s0
    using that by (induction served arbitrary: p0 s0) (auto split: prod.splits option.splits sum.splits)
  from this [OF assms(3,4)] show ?thesis using assms(1,2)
    by (simp add: exchange_product_docs_by_barcode_def)
qed

end
