(* ===== verification/Inventory_Schemas.thy ===== *)
theory Inventory_Schemas
  imports Switch_Locks Device_Poll Dhcp_Clear Host_Polling Media_Polling Cartridge_Journal "HOL-Library.Monad_Syntax"
begin

section \<open>What the inventory routes accept (domains/shared/schemas.py, domains/inventory/schemas, domains/operations/schemas.py)\<close>

text \<open>
  The request bodies of the inventory routes and their Pydantic validators. A validator gives the value it
  returns, \<open>None\<close> when it raises; a body that does not pass is answered 422. In an update a field is
  \<open>None\<close> when the request leaves it out, \<open>Some None\<close> when it is null. Fields a create body leaves out
  have their default, which every validator accepts. The rows extend the records of the pollers by the
  columns only the routes use.
\<close>

subsection \<open>Texts, addresses, hostnames and MAC addresses\<close>

definition required_text :: "('a list \<Rightarrow> 'a list) \<Rightarrow> nat \<Rightarrow> 'a list \<Rightarrow> 'a list option" where
  "required_text strip_text n v = (let t = strip_text v in if t = [] \<or> n < length t then None else Some t)"

definition optional_text :: "('a list \<Rightarrow> 'a list) \<Rightarrow> nat \<Rightarrow> 'a list option \<Rightarrow> 'a list option option" where
  "optional_text strip_text n v =
     (case v of
        None \<Rightarrow> Some None
      | Some s \<Rightarrow> (let t = strip_text s in if t = [] then Some None else if n < length t then None else Some (Some t)))"

definition unless_null :: "('a \<Rightarrow> 'b option) \<Rightarrow> 'a option \<Rightarrow> 'b option option" where
  "unless_null f v = (case v of None \<Rightarrow> Some None | Some x \<Rightarrow> map_option Some (f x))"

definition if_set :: "('a option \<Rightarrow> 'b option option) \<Rightarrow> 'a option option \<Rightarrow> 'b option option option" where
  "if_set f v = (case v of None \<Rightarrow> Some None | Some x \<Rightarrow> map_option Some (f x))"

definition octets_ok :: "string \<Rightarrow> bool" where
  "octets_ok v \<longleftrightarrow> list_all (\<lambda>p. case py_int p of None \<Rightarrow> False | Some n \<Rightarrow> n \<le> 255) (split_on (CHR ''.'') v)"

definition validate_ip_address :: "string \<Rightarrow> string option" where
  "validate_ip_address v = (if re_match ipv4_shape v = None then None else if octets_ok v then Some v else None)"

definition validate_mac :: "string option \<Rightarrow> string option option" where
  "validate_mac v =
     (case v of
        None \<Rightarrow> Some None
      | Some s \<Rightarrow> (let compact = filter is_hex (strip s) in
          if compact = [] then Some None else if length compact \<noteq> 12 then None
          else Some (Some (join '':'' (pairs (lower compact))))))"

text \<open>\<open>r{0,n}\<close>, greedy.\<close>

fun up_to :: "nat \<Rightarrow> re \<Rightarrow> re" where
  "up_to 0 r = Eps"
| "up_to (Suc n) r = optional (Seq r (up_to n r))"

definition letter_or_digit :: "char \<Rightarrow> bool" where
  "letter_or_digit c \<longleftrightarrow> is_digit c \<or> (let n = (of_char c :: nat) in (65 \<le> n \<and> n \<le> 90) \<or> (97 \<le> n \<and> n \<le> 122))"

definition hostname_pattern :: re where
  "hostname_pattern =
     (let end_char = Cls letter_or_digit
      in seqs [Bol, end_char, optional (Seq (up_to 253 (Cls (\<lambda>c. letter_or_digit c \<or> c = CHR ''-'' \<or> c = CHR ''.''))) end_char), Eol])"

definition validate_ip_or_hostname :: "string \<Rightarrow> string option" where
  "validate_ip_or_hostname v0 =
     (let v = strip v0
      in if v = [] \<or> 255 < length v then None
         else if re_match ipv4_shape v \<noteq> None then (if octets_ok v then Some v else None)
         else if re_match hostname_pattern v \<noteq> None then Some v else None)"

definition validate_optional_hostname :: "string option \<Rightarrow> string option option" where
  "validate_optional_hostname v =
     Option.bind (optional_text strip 255 v)
       (\<lambda>t. case t of None \<Rightarrow> Some None | Some h \<Rightarrow> if re_match hostname_pattern h = None then None else Some (Some h))"

definition word_in :: "string list \<Rightarrow> string \<Rightarrow> string option" where
  "word_in ws v = (if v \<in> set ws then Some v else None)"

subsection \<open>Printers (schemas/printers.py)\<close>

record printer_row = printer +
  px_created_at :: instant
  px_updated_at :: "instant option"

record printer_create =
  pc_type :: string
  pc_connection :: string
  pc_store_name :: ustr
  pc_model :: ustr
  pc_ip :: "string option"
  pc_mac :: "string option"
  pc_community :: string
  pc_host_pc :: "string option"
  pc_black_name :: "ustr option"
  pc_cyan_name :: "ustr option"
  pc_magenta_name :: "ustr option"
  pc_yellow_name :: "ustr option"

definition validate_printer_create :: "printer_create \<Rightarrow> printer_create option" where
  "validate_printer_create b = do {
     type \<leftarrow> word_in [''laser'', ''label''] (pc_type b);
     connection \<leftarrow> word_in [''ip'', ''usb''] (pc_connection b);
     store \<leftarrow> required_text u_strip 255 (pc_store_name b);
     model \<leftarrow> required_text u_strip 255 (pc_model b);
     ip \<leftarrow> unless_null validate_ip_address (pc_ip b);
     mac \<leftarrow> validate_mac (pc_mac b);
     host_pc \<leftarrow> optional_text strip 255 (pc_host_pc b);
     black \<leftarrow> optional_text u_strip 128 (pc_black_name b);
     cyan \<leftarrow> optional_text u_strip 128 (pc_cyan_name b);
     magenta \<leftarrow> optional_text u_strip 128 (pc_magenta_name b);
     yellow \<leftarrow> optional_text u_strip 128 (pc_yellow_name b);
     if 255 < length (pc_community b) then None
     else if connection = ''ip'' \<and> truthy ip = None then None
     else Some (b\<lparr>pc_type := type, pc_connection := connection, pc_store_name := store, pc_model := model, pc_ip := ip,
       pc_mac := mac, pc_host_pc := host_pc, pc_black_name := black, pc_cyan_name := cyan, pc_magenta_name := magenta,
       pc_yellow_name := yellow\<rparr>) }"

record printer_update =
  pu_store_name :: "ustr option option"
  pu_model :: "ustr option option"
  pu_ip :: "string option option"
  pu_mac :: "string option option"
  pu_community :: "string option option"
  pu_host_pc :: "string option option"
  pu_black_name :: "ustr option option"
  pu_cyan_name :: "ustr option option"
  pu_magenta_name :: "ustr option option"
  pu_yellow_name :: "ustr option option"

definition validate_printer_update :: "printer_update \<Rightarrow> printer_update option" where
  "validate_printer_update b = do {
     store \<leftarrow> if_set (unless_null (required_text u_strip 255)) (pu_store_name b);
     model \<leftarrow> if_set (unless_null (required_text u_strip 255)) (pu_model b);
     ip \<leftarrow> if_set (unless_null validate_ip_address) (pu_ip b);
     mac \<leftarrow> if_set validate_mac (pu_mac b);
     host_pc \<leftarrow> if_set (optional_text strip 255) (pu_host_pc b);
     black \<leftarrow> if_set (optional_text u_strip 128) (pu_black_name b);
     cyan \<leftarrow> if_set (optional_text u_strip 128) (pu_cyan_name b);
     magenta \<leftarrow> if_set (optional_text u_strip 128) (pu_magenta_name b);
     yellow \<leftarrow> if_set (optional_text u_strip 128) (pu_yellow_name b);
     Some (b\<lparr>pu_store_name := store, pu_model := model, pu_ip := ip, pu_mac := mac, pu_host_pc := host_pc,
       pu_black_name := black, pu_cyan_name := cyan, pu_magenta_name := magenta, pu_yellow_name := yellow\<rparr>) }"

subsection \<open>Media players (schemas/media_players.py)\<close>

record media_row = media_player +
  mx_model :: ustr
  mx_created_at :: instant
  mx_updated_at :: "instant option"

record media_create =
  mc_device_type :: string
  mc_name :: ustr
  mc_model :: ustr
  mc_ip :: string
  mc_hostname :: "string option"
  mc_mac :: "string option"

text \<open>The default of nettops is a Russian word, given by its code points.\<close>

definition default_model :: "string \<Rightarrow> ustr" where
  "default_model device_type =
     (if device_type = ''nettop'' then [1053, 1077, 1090, 1090, 1086, 1087]
      else if device_type = ''iconbit'' then cp ''Iconbit'' else if device_type = ''twix'' then cp ''Twix'' else cp device_type)"

definition validate_media_create :: "media_create \<Rightarrow> media_create option" where
  "validate_media_create b = do {
     device_type \<leftarrow> word_in [''nettop'', ''iconbit'', ''twix''] (mc_device_type b);
     name \<leftarrow> required_text u_strip 255 (mc_name b);
     model \<leftarrow> (let t = u_strip (mc_model b) in if 255 < length t then None else Some t);
     ip \<leftarrow> validate_ip_or_hostname (mc_ip b);
     hostname \<leftarrow> validate_optional_hostname (mc_hostname b);
     mac \<leftarrow> validate_mac (mc_mac b);
     Some (b\<lparr>mc_device_type := device_type, mc_name := name,
       mc_model := (if model = [] then default_model device_type else model), mc_ip := ip, mc_hostname := hostname, mc_mac := mac\<rparr>) }"

record media_update =
  mu_name :: "ustr option option"
  mu_model :: "ustr option option"
  mu_ip :: "string option option"
  mu_hostname :: "string option option"
  mu_mac :: "string option option"

definition validate_media_update :: "media_update \<Rightarrow> media_update option" where
  "validate_media_update b = do {
     name \<leftarrow> if_set (unless_null (required_text u_strip 255)) (mu_name b);
     model \<leftarrow> if_set (unless_null (\<lambda>v. let t = u_strip v in if 255 < length t then None else Some t)) (mu_model b);
     ip \<leftarrow> if_set (unless_null validate_ip_or_hostname) (mu_ip b);
     hostname \<leftarrow> if_set validate_optional_hostname (mu_hostname b);
     mac \<leftarrow> if_set validate_mac (mu_mac b);
     Some (b\<lparr>mu_name := name, mu_model := model, mu_ip := ip, mu_hostname := hostname, mu_mac := mac\<rparr>) }"

subsection \<open>Computers (schemas/computers.py)\<close>

record computer_row = computer +
  cx_location :: "ustr option"
  cx_comment :: "ustr option"
  cx_created_at :: instant
  cx_updated_at :: "instant option"

record computer_create =
  cc_hostname :: string
  cc_location :: "ustr option"
  cc_comment :: "ustr option"

definition validate_computer_create :: "computer_create \<Rightarrow> computer_create option" where
  "validate_computer_create b = do {
     hostname \<leftarrow> required_text strip 255 (cc_hostname b);
     location \<leftarrow> optional_text u_strip 1024 (cc_location b);
     comment \<leftarrow> optional_text u_strip 1024 (cc_comment b);
     Some \<lparr>cc_hostname = hostname, cc_location = location, cc_comment = comment\<rparr> }"

record computer_update =
  cu_hostname :: "string option option"
  cu_location :: "ustr option option"
  cu_comment :: "ustr option option"

definition validate_computer_update :: "computer_update \<Rightarrow> computer_update option" where
  "validate_computer_update b = do {
     hostname \<leftarrow> if_set (unless_null (required_text strip 255)) (cu_hostname b);
     location \<leftarrow> if_set (optional_text u_strip 1024) (cu_location b);
     comment \<leftarrow> if_set (optional_text u_strip 1024) (cu_comment b);
     Some \<lparr>cu_hostname = hostname, cu_location = location, cu_comment = comment\<rparr> }"

subsection \<open>Cash registers (domains/operations/schemas.py)\<close>

text \<open>The seventeen optional text columns, all validated alike except \<open>location_zone\<close>.\<close>

datatype register_column = Location_zone | Store_number | Store_code | Sber_store_code | Serial_number | Inventory_number
  | Terminal_id_rs | Terminal_id_sber | Windows_version | Rosenzweig_number | Cash_number | Netsupport_target | Second_screen
  | Piot_status | Cash_drawer | Terminal_status | Comment

definition register_columns :: "register_column list" where
  "register_columns = [Location_zone, Store_number, Store_code, Sber_store_code, Serial_number, Inventory_number, Terminal_id_rs,
     Terminal_id_sber, Windows_version, Rosenzweig_number, Cash_number, Netsupport_target, Second_screen, Piot_status, Cash_drawer,
     Terminal_status, Comment]"

record register_row = cash_register +
  gx_source_order :: "int option"
  gx_kkm_type :: string
  gx_text :: "register_column \<Rightarrow> ustr option"
  gx_created_at :: instant
  gx_updated_at :: "instant option"

definition zone_word :: "ustr \<Rightarrow> ustr option" where
  "zone_word v = (let t = u_upper (u_strip v) in if t \<in> {cp ''DF'', cp ''DP''} then Some t else None)"

definition validate_register_text :: "register_column \<Rightarrow> ustr option \<Rightarrow> ustr option option" where
  "validate_register_text c v =
     (if c = Location_zone then Option.bind (unless_null zone_word v) (optional_text u_strip 1024)
      else optional_text u_strip 1024 v)"

record register_create =
  gc_source_order :: "int option"
  gc_kkm_number :: ustr
  gc_kkm_type :: string
  gc_hostname :: string
  gc_text :: "register_column \<Rightarrow> ustr option"

definition validate_register_create :: "register_create \<Rightarrow> register_create option" where
  "validate_register_create b = do {
     kkm_number \<leftarrow> required_text u_strip 255 (gc_kkm_number b);
     hostname \<leftarrow> required_text strip 255 (gc_hostname b);
     kkm_type \<leftarrow> one_of_words [''retail'', ''shtrih''] (gc_kkm_type b);
     if list_all (\<lambda>c. validate_register_text c (gc_text b c) \<noteq> None) register_columns
     then Some (b\<lparr>gc_kkm_number := kkm_number, gc_hostname := hostname, gc_kkm_type := kkm_type,
       gc_text := (\<lambda>c. the (validate_register_text c (gc_text b c)))\<rparr>)
     else None }"

record register_update =
  gu_source_order :: "int option option"
  gu_kkm_number :: "ustr option option"
  gu_kkm_type :: "string option option"
  gu_hostname :: "string option option"
  gu_text :: "register_column \<Rightarrow> ustr option option"

definition validate_register_update :: "register_update \<Rightarrow> register_update option" where
  "validate_register_update b = do {
     kkm_number \<leftarrow> if_set (unless_null (required_text u_strip 255)) (gu_kkm_number b);
     hostname \<leftarrow> if_set (unless_null (required_text strip 255)) (gu_hostname b);
     kkm_type \<leftarrow> if_set (unless_null (one_of_words [''retail'', ''shtrih''])) (gu_kkm_type b);
     if list_all (\<lambda>c. if_set (validate_register_text c) (gu_text b c) \<noteq> None) register_columns
     then Some (b\<lparr>gu_kkm_number := kkm_number, gu_hostname := hostname, gu_kkm_type := kkm_type,
       gu_text := (\<lambda>c. the (if_set (validate_register_text c) (gu_text b c)))\<rparr>)
     else None }"

subsection \<open>Switches (schemas/switches.py)\<close>

record switch_row = dhcp_switch +
  sx_ssh_username :: string
  sx_ssh_password :: string
  sx_enable_password :: string
  sx_ssh_port :: int
  sx_protocol :: string
  sx_snmp_version :: string
  sx_community_ro :: string
  sx_community_rw :: "string option"
  sx_created_at :: instant

record switch_create =
  sc_switch_name :: ustr
  sc_ip :: string
  sc_ssh_username :: string
  sc_ssh_password :: string
  sc_enable_password :: string
  sc_ssh_port :: int
  sc_ap_vlan :: int
  sc_vendor :: string
  sc_protocol :: string
  sc_snmp_version :: string
  sc_community_ro :: string
  sc_community_rw :: "string option"
  sc_mac :: "string option"
  sc_reboot_enabled :: bool
  sc_reboot_mode :: string
  sc_dhcp_enabled :: bool
  sc_dhcp_mode :: string

definition run_modes :: "string list" where
  "run_modes = [''dry_run'', ''live'']"

definition vendors :: "string list" where
  "vendors = [''cisco'', ''dlink'', ''generic'']"

definition protocols :: "string list" where
  "protocols = [''snmp'', ''ssh'', ''snmp+ssh'']"

definition validate_switch_create :: "switch_create \<Rightarrow> switch_create option" where
  "validate_switch_create b = do {
     name \<leftarrow> required_text u_strip 255 (sc_switch_name b);
     mac \<leftarrow> validate_mac (sc_mac b);
     reboot_mode \<leftarrow> one_of_words run_modes (sc_reboot_mode b);
     dhcp_mode \<leftarrow> one_of_words run_modes (sc_dhcp_mode b);
     ip \<leftarrow> validate_ip_address (sc_ip b);
     vendor \<leftarrow> one_of_words vendors (sc_vendor b);
     protocol \<leftarrow> one_of_words protocols (sc_protocol b);
     version \<leftarrow> one_of_words [''2c''] (sc_snmp_version b);
     ro \<leftarrow> required_text strip 255 (sc_community_ro b);
     rw \<leftarrow> optional_text strip 255 (sc_community_rw b);
     if sc_ssh_port b < 1 \<or> 65535 < sc_ssh_port b then None
     else if \<not> vlan_ok (sc_ap_vlan b) then None
     else Some (b\<lparr>sc_switch_name := name, sc_mac := mac, sc_reboot_mode := reboot_mode, sc_dhcp_mode := dhcp_mode, sc_ip := ip,
       sc_vendor := vendor, sc_protocol := protocol, sc_snmp_version := version, sc_community_ro := ro, sc_community_rw := rw\<rparr>) }"

record switch_update =
  su_name :: "ustr option option"
  su_ip :: "string option option"
  su_ssh_username :: "string option option"
  su_ssh_password :: "string option option"
  su_enable_password :: "string option option"
  su_ssh_port :: "int option option"
  su_ap_vlan :: "int option option"
  su_vendor :: "string option option"
  su_protocol :: "string option option"
  su_snmp_version :: "string option option"
  su_community_ro :: "string option option"
  su_community_rw :: "string option option"
  su_mac :: "string option option"
  su_reboot_enabled :: "bool option option"
  su_reboot_mode :: "string option option"
  su_dhcp_enabled :: "bool option option"
  su_dhcp_mode :: "string option option"

definition validate_switch_update :: "switch_update \<Rightarrow> switch_update option" where
  "validate_switch_update b = do {
     name \<leftarrow> if_set (unless_null (required_text u_strip 255)) (su_name b);
     mac \<leftarrow> if_set validate_mac (su_mac b);
     reboot_mode \<leftarrow> if_set (unless_null (one_of_words run_modes)) (su_reboot_mode b);
     dhcp_mode \<leftarrow> if_set (unless_null (one_of_words run_modes)) (su_dhcp_mode b);
     ip \<leftarrow> if_set (unless_null validate_ip_address) (su_ip b);
     vendor \<leftarrow> if_set (unless_null (one_of_words vendors)) (su_vendor b);
     protocol \<leftarrow> if_set (unless_null (one_of_words protocols)) (su_protocol b);
     version \<leftarrow> if_set (unless_null (one_of_words [''2c''])) (su_snmp_version b);
     ro \<leftarrow> if_set (optional_text strip 255) (su_community_ro b);
     rw \<leftarrow> if_set (optional_text strip 255) (su_community_rw b);
     Some (b\<lparr>su_name := name, su_mac := mac, su_reboot_mode := reboot_mode, su_dhcp_mode := dhcp_mode, su_ip := ip,
       su_vendor := vendor, su_protocol := protocol, su_snmp_version := version, su_community_ro := ro, su_community_rw := rw\<rparr>) }"

end
