(* ===== verification/Inventory_Api.thy ===== *)
theory Inventory_Api
  imports Remote_Inventory Smart_Search Switch_Ports Inventory_Schemas
begin

section \<open>The inventory routes (api/routes: printers, media_players, computers, cash_registers, switches/crud)\<close>

text \<open>
  The routes that create, edit, delete and list the rows the pollers keep. A route takes the body as the
  client sent it, the time and, for a new row, its uuid, and gives the answer, the table afterwards and what else
  it does. The superuser check of the routes that write is theory Identity's and has passed. A commit that the
  database refuses (a null or too long value in a column, a broken unique constraint or foreign key) is the
  500 the framework answers, and leaves the tables as they were. Two routes wait for the network in the middle of a
  request, so other requests run in between: they get the table at both ends of the wait.
\<close>

datatype api_out =
    Refetch string
  | Fill_mac uid string
  | Book_call "int \<times> string"
  | Reboot_disabled_event "unit event"

subsection \<open>Patching a row\<close>

definition patched :: "'a option \<Rightarrow> 'a \<Rightarrow> 'a" where
  "patched field old = (case field of None \<Rightarrow> old | Some v \<Rightarrow> v)"

text \<open>A column that is not nullable: \<open>nulls\<close> tells whether the commit would store a null in it.\<close>

definition patched_value :: "'a option option \<Rightarrow> 'a \<Rightarrow> 'a" where
  "patched_value field old = (case field of Some (Some v) \<Rightarrow> v | _ \<Rightarrow> old)"

definition nulls :: "'a option option \<Rightarrow> bool" where
  "nulls field \<longleftrightarrow> (case field of Some None \<Rightarrow> True | _ \<Rightarrow> False)"

text \<open>What a commit stores in a column: a column that reads as loaded is not written.\<close>

definition written :: "('r \<Rightarrow> 'a) \<Rightarrow> 'r \<Rightarrow> 'r \<Rightarrow> 'r \<Rightarrow> 'a" where
  "written col loaded new stored = (if col new = col loaded then col stored else col new)"

definition taken :: "('r \<Rightarrow> 'k) \<Rightarrow> 'k \<Rightarrow> 'r list \<Rightarrow> bool" where
  "taken key k tab \<longleftrightarrow> list_ex (\<lambda>r. key r = k) tab"

definition taken_by_other :: "('r \<Rightarrow> uid) \<Rightarrow> ('r \<Rightarrow> 'k) \<Rightarrow> 'k \<Rightarrow> uid \<Rightarrow> 'r list \<Rightarrow> bool" where
  "taken_by_other rid key k i tab \<longleftrightarrow> list_ex (\<lambda>r. key r = k \<and> rid r \<noteq> i) tab"

definition remove_row :: "('r \<Rightarrow> uid) \<Rightarrow> uid \<Rightarrow> 'r list \<Rightarrow> 'r list" where
  "remove_row rid i tab = filter (\<lambda>r. rid r \<noteq> i) tab"

subsection \<open>Listing\<close>

text \<open>A page and the number of rows that pass the filter; \<open>collate\<close> is the database's order of texts. A negative
  limit, which some of the routes let through, is an error of the database.\<close>

definition page_of :: "('r \<Rightarrow> bool) \<Rightarrow> ('r \<Rightarrow> 'o::linorder) \<Rightarrow> nat \<Rightarrow> int \<Rightarrow> 'r list \<Rightarrow> (http_error + 'r list \<times> nat)" where
  "page_of p order skip limit tab =
     (if limit < 0 then Inl (Http 500)
      else (let rows = filter p tab in Inr (take (nat limit) (drop skip (sort_key order rows)), length rows)))"

definition search_filter :: "ustr option \<Rightarrow> ('r \<Rightarrow> ustr option list) \<Rightarrow> 'r \<Rightarrow> bool" where
  "search_filter q columns r = (case Option.bind q (\<lambda>s. truthy (Some s)) of None \<Rightarrow> True | Some s \<Rightarrow> filter_selects (build_ilike_filter s) (columns r))"

definition in_range :: "int \<Rightarrow> int option \<Rightarrow> int \<Rightarrow> bool" where
  "in_range limit least greatest \<longleftrightarrow> (case least of None \<Rightarrow> True | Some l \<Rightarrow> l \<le> limit) \<and> limit \<le> greatest"

subsection \<open>Printers (routes/printers.py)\<close>

record mac_net =
  mn_snmp :: "string \<Rightarrow> string \<Rightarrow> string option reply"
  mn_poll :: "string \<Rightarrow> string \<Rightarrow> device_status reply"

definition lookup_mac :: "mac_net \<Rightarrow> string option \<Rightarrow> string \<Rightarrow> bool \<Rightarrow> string option" where
  "lookup_mac net address community prefer_snmp =
     resolve_mac_for_ip_address (mn_snmp net community) (mn_poll net community) address prefer_snmp"

definition new_printer :: "uid \<Rightarrow> instant \<Rightarrow> printer_create \<Rightarrow> printer_row" where
  "new_printer i now b =
     \<lparr>pr_id = i, pr_type = pc_type b, pr_connection = pc_connection b, pr_store_name = pc_store_name b, pr_model = pc_model b,
      pr_ip = pc_ip b, pr_mac_address = pc_mac b, pr_mac_status = None, pr_snmp_community = pc_community b, pr_host_pc = pc_host_pc b,
      pr_is_online = None, pr_status = None, pr_reason = None, pr_toner_black = None, pr_toner_cyan = None, pr_toner_magenta = None,
      pr_toner_yellow = None, pr_black_name = pc_black_name b, pr_cyan_name = pc_cyan_name b, pr_magenta_name = pc_magenta_name b,
      pr_yellow_name = pc_yellow_name b, pr_toner_updated_at = None, pr_page_count = None, pr_page_count_updated_at = None,
      pr_last_polled_at = None, px_created_at = now, px_updated_at = None\<rparr>"

definition fill_mac_task :: "bool \<Rightarrow> printer_row \<Rightarrow> api_out list" where
  "fill_mac_task wanted p =
     (case truthy (pr_ip p) of Some ip \<Rightarrow> if pr_connection p = ''ip'' \<and> wanted then [Fill_mac (pr_id p) ip] else [] | None \<Rightarrow> [])"

definition create_printer :: "uid \<Rightarrow> instant \<Rightarrow> printer_create \<Rightarrow> printer_row list \<Rightarrow> (http_error + printer_row) \<times> printer_row list \<times> api_out list" where
  "create_printer i now body tab =
     (case validate_printer_create body of
        None \<Rightarrow> (Inl (Http 422), tab, [])
      | Some b \<Rightarrow>
          if pc_connection b = ''ip'' \<and> truthy (pc_ip b) \<noteq> None \<and> taken pr_ip (pc_ip b) tab then (Inl (Http 400), tab, [])
          else (let p = new_printer i now b
                in (Inr p, tab @ [p], Refetch ''printers'' # fill_mac_task (truthy (pr_mac_address p) = None) p)))"

definition patch_printer :: "instant \<Rightarrow> printer_update \<Rightarrow> printer_row \<Rightarrow> printer_row" where
  "patch_printer now b p = p\<lparr>px_updated_at := Some now,
     pr_store_name := patched_value (pu_store_name b) (pr_store_name p), pr_model := patched_value (pu_model b) (pr_model p),
     pr_ip := patched (pu_ip b) (pr_ip p), pr_mac_address := patched (pu_mac b) (pr_mac_address p),
     pr_snmp_community := patched_value (pu_community b) (pr_snmp_community p), pr_host_pc := patched (pu_host_pc b) (pr_host_pc p),
     pr_black_name := patched (pu_black_name b) (pr_black_name p), pr_cyan_name := patched (pu_cyan_name b) (pr_cyan_name p),
     pr_magenta_name := patched (pu_magenta_name b) (pr_magenta_name p), pr_yellow_name := patched (pu_yellow_name b) (pr_yellow_name p)\<rparr>"

definition update_printer :: "instant \<Rightarrow> uid \<Rightarrow> printer_update \<Rightarrow> printer_row list \<Rightarrow> (http_error + printer_row) \<times> printer_row list \<times> api_out list" where
  "update_printer now i body tab =
     (case validate_printer_update body of
        None \<Rightarrow> (Inl (Http 422), tab, [])
      | Some b \<Rightarrow>
     (case find_row pr_id i tab of
        None \<Rightarrow> (Inl (Http 404), tab, [])
      | Some p \<Rightarrow>
          if (case pu_ip b of Some (Some ip) \<Rightarrow> taken_by_other pr_id pr_ip (Some ip) i tab | _ \<Rightarrow> False) then (Inl (Http 409), tab, [])
          else (let ip_changed = (case pu_ip b of None \<Rightarrow> False | Some ip \<Rightarrow> ip \<noteq> pr_ip p);
                    forget = (ip_changed \<and> pu_mac b = None);
                    p1 = patch_printer now b p;
                    p2 = (if forget then p1\<lparr>pr_mac_address := None, pr_mac_status := None\<rparr> else p1)
                in if nulls (pu_store_name b) \<or> nulls (pu_model b) \<or> nulls (pu_community b) \<or> 255 < length (pr_snmp_community p2)
                   then (Inl (Http 500), tab, [])
                   else (Inr p2, put_row pr_id p2 tab, Refetch ''printers'' # fill_mac_task forget p2))))"

definition delete_printer :: "uid \<Rightarrow> printer_row list \<Rightarrow> http_error option \<times> printer_row list \<times> api_out list" where
  "delete_printer i tab =
     (if find_row pr_id i tab = None then (Some (Http 404), tab, []) else (None, remove_row pr_id i tab, [Refetch ''printers'']))"

text \<open>The background task: the printer is read when it starts, the look-up runs without a session, and the table
  it writes to is that of a later moment.\<close>

definition resolve_mac_for_printer :: "mac_net \<Rightarrow> printer_row \<Rightarrow> string option" where
  "resolve_mac_for_printer net p =
     (if pr_connection p = ''ip'' \<and> truthy (pr_ip p) \<noteq> None
      then lookup_mac net (pr_ip p) (pr_snmp_community p) (pr_type p \<noteq> ''label'') else None)"

definition fill_mac_in_background :: "mac_net \<Rightarrow> uid \<Rightarrow> string \<Rightarrow> printer_row list \<Rightarrow> printer_row list \<Rightarrow> printer_row list \<times> api_out list" where
  "fill_mac_in_background net i ip started tab =
     (case find_row pr_id i started of
        None \<Rightarrow> (tab, [])
      | Some p \<Rightarrow>
     (case truthy (resolve_mac_for_printer net p) of
        None \<Rightarrow> (tab, [])
      | Some mac \<Rightarrow>
     (case find_row pr_id i tab of
        None \<Rightarrow> (tab, [])
      | Some q \<Rightarrow>
          if pr_ip q \<noteq> Some ip \<or> truthy (pr_mac_address q) \<noteq> None then (tab, [])
          else (put_row pr_id (q\<lparr>pr_mac_address := Some mac, pr_mac_status := Some ''verified''\<rparr>) tab, [Refetch ''printers'']))))"

text \<open>\<open>_attach_offline_counts\<close>: the outages of the last 24 hours, counted by store name.\<close>

definition offline_count :: "instant \<Rightarrow> (instant \<times> 'm event) list \<Rightarrow> ustr \<Rightarrow> nat" where
  "offline_count now events store =
     length (filter (\<lambda>(seen, e). ev_device_kind e = Some ''printer'' \<and> ev_type e = ''device_offline''
       \<and> now - 24 * 3600 * 1000000 \<le> seen \<and> ev_device_name e = Some store) events)"

definition printer_columns :: "printer_row \<Rightarrow> ustr option list" where
  "printer_columns p = [Some (pr_store_name p), Some (pr_model p), map_option cp (pr_host_pc p), map_option cp (pr_ip p), map_option cp (pr_mac_address p)]"

definition read_printers ::
  "(ustr \<Rightarrow> 'o::linorder) \<Rightarrow> instant \<Rightarrow> (instant \<times> 'm event) list \<Rightarrow> string \<Rightarrow> ustr option \<Rightarrow> nat \<Rightarrow> int \<Rightarrow> printer_row list
   \<Rightarrow> (http_error + (printer_row \<times> nat) list \<times> nat)" where
  "read_printers collate now events printer_type store_name skip limit tab =
     (if \<not> in_range limit None 500 then Inl (Http 422)
      else (case page_of (\<lambda>p. pr_type p = printer_type \<and> search_filter store_name printer_columns p) (\<lambda>p. collate (pr_store_name p)) skip limit tab of
        Inl e \<Rightarrow> Inl e
      | Inr (rows, n) \<Rightarrow> Inr (map (\<lambda>p. (p, offline_count now events (pr_store_name p))) rows, n)))"

subsection \<open>Media players (routes/media_players.py)\<close>

definition new_media :: "uid \<Rightarrow> instant \<Rightarrow> media_create \<Rightarrow> string option \<Rightarrow> media_row" where
  "new_media i now b mac =
     \<lparr>mp_id = i, mp_device_type = mc_device_type b, mp_name = mc_name b, mp_ip = mc_ip b, mp_mac_address = mac, mp_is_online = None,
      mp_hostname = mc_hostname b, mp_os_info = None, mp_uptime = None, mp_open_ports = None, mp_last_polled_at = None,
      mx_model = mc_model b, mx_created_at = now, mx_updated_at = None\<rparr>"

definition create_media_player ::
  "mac_net \<Rightarrow> uid \<Rightarrow> instant \<Rightarrow> media_create \<Rightarrow> media_row list \<Rightarrow> media_row list \<Rightarrow> (http_error + media_row) \<times> media_row list \<times> api_out list" where
  "create_media_player net i now body tab later =
     (case validate_media_create body of
        None \<Rightarrow> (Inl (Http 422), later, [])
      | Some b \<Rightarrow>
          if taken mp_ip (mc_ip b) tab then (Inl (Http 400), later, [])
          else (let mac = (if truthy (mc_mac b) \<noteq> None then mc_mac b
                           else lookup_mac net (Some (mc_ip b)) ''public'' (mc_device_type b \<noteq> ''iconbit''));
                    row = new_media i now b mac
                in if taken mp_ip (mp_ip row) later \<or> 45 < length (mp_ip row) then (Inl (Http 500), later, [])
                   else (Inr row, later @ [row], [Refetch ''media_players''])))"

definition patch_media :: "instant \<Rightarrow> media_update \<Rightarrow> media_row \<Rightarrow> media_row" where
  "patch_media now b p = p\<lparr>mx_updated_at := Some now, mp_name := patched_value (mu_name b) (mp_name p),
     mx_model := patched_value (mu_model b) (mx_model p), mp_ip := patched_value (mu_ip b) (mp_ip p),
     mp_hostname := patched (mu_hostname b) (mp_hostname p), mp_mac_address := patched (mu_mac b) (mp_mac_address p)\<rparr>"

definition write_media :: "media_row \<Rightarrow> media_row \<Rightarrow> media_row \<Rightarrow> media_row" where
  "write_media loaded new stored = stored\<lparr>mx_updated_at := mx_updated_at new, mp_name := written mp_name loaded new stored,
     mx_model := written mx_model loaded new stored, mp_ip := written mp_ip loaded new stored,
     mp_hostname := written mp_hostname loaded new stored, mp_mac_address := written mp_mac_address loaded new stored\<rparr>"

definition update_media_player ::
  "mac_net \<Rightarrow> instant \<Rightarrow> uid \<Rightarrow> media_update \<Rightarrow> media_row list \<Rightarrow> media_row list \<Rightarrow> (http_error + media_row) \<times> media_row list \<times> api_out list" where
  "update_media_player net now i body tab later =
     (case validate_media_update body of
        None \<Rightarrow> (Inl (Http 422), later, [])
      | Some b \<Rightarrow>
     (case find_row mp_id i tab of
        None \<Rightarrow> (Inl (Http 404), later, [])
      | Some p \<Rightarrow>
          if (case mu_ip b of Some (Some ip) \<Rightarrow> taken_by_other mp_id mp_ip ip i tab | _ \<Rightarrow> False) then (Inl (Http 409), later, [])
          else (let ip_changed = (case mu_ip b of None \<Rightarrow> False | Some ip \<Rightarrow> ip \<noteq> Some (mp_ip p));
                    p1 = patch_media now b p;
                    found = (if ip_changed \<and> mu_mac b = None
                             then truthy (lookup_mac net (patched (mu_ip b) (Some (mp_ip p))) ''public'' (mp_device_type p \<noteq> ''iconbit'')) else None);
                    p2 = (case found of None \<Rightarrow> p1 | Some mac \<Rightarrow> p1\<lparr>mp_mac_address := Some mac\<rparr>)
                in (case find_row mp_id i later of
                      None \<Rightarrow> (Inl (Http 500), later, [])
                    | Some q \<Rightarrow>
                        let row = write_media p p2 q
                        in if nulls (mu_name b) \<or> nulls (mu_model b) \<or> nulls (mu_ip b) \<or> taken_by_other mp_id mp_ip (mp_ip row) i later
                             \<or> 45 < length (mp_ip row)
                           then (Inl (Http 500), later, [])
                           else (Inr row, put_row mp_id row later, [Refetch ''media_players''])))))"

text \<open>The entry of the remote access module is released first; the deletion itself must not leave an entry that
  points at the row.\<close>

definition delete_media_player ::
  "instant \<Rightarrow> uid \<Rightarrow> media_row list \<Rightarrow> ra_device list \<Rightarrow> http_error option \<times> media_row list \<times> ra_device list \<times> api_out list" where
  "delete_media_player now i tab devices =
     (if find_row mp_id i tab = None then (Some (Http 404), tab, devices, [])
      else (let (devices', calls, n) = release_inventory_row now None None (Some i) devices
            in if list_ex (points_at None None (Some i)) devices' then (Some (Http 500), tab, devices', map Book_call calls)
               else (None, remove_row mp_id i tab, devices', map Book_call calls @ [Refetch ''media_players''])))"

definition media_columns :: "media_row \<Rightarrow> ustr option list" where
  "media_columns p = [Some (mp_name p), map_option cp (mp_hostname p), Some (cp (mp_ip p)), Some (mx_model p),
     map_option cp (mp_mac_address p), map_option cp (mp_os_info p)]"

definition read_media_players ::
  "(ustr \<Rightarrow> 'o::linorder) \<Rightarrow> string option \<Rightarrow> ustr option \<Rightarrow> nat \<Rightarrow> int \<Rightarrow> media_row list \<Rightarrow> (http_error + media_row list \<times> nat)" where
  "read_media_players collate device_type name skip limit tab =
     (if \<not> in_range limit None 500 then Inl (Http 422)
      else page_of (\<lambda>p. (case truthy device_type of None \<Rightarrow> True | Some t \<Rightarrow> mp_device_type p = t) \<and> search_filter name media_columns p)
             (\<lambda>p. collate (mp_name p)) skip limit tab)"

subsection \<open>Computers (routes/computers.py)\<close>

definition computer_fits :: "computer_row \<Rightarrow> bool" where
  "computer_fits c \<longleftrightarrow> length (co_hostname c) \<le> 255 \<and> (case cx_location c of None \<Rightarrow> True | Some l \<Rightarrow> length l \<le> 128)
     \<and> (case cx_comment c of None \<Rightarrow> True | Some t \<Rightarrow> length t \<le> 1024)"

definition create_computer :: "uid \<Rightarrow> instant \<Rightarrow> computer_create \<Rightarrow> computer_row list \<Rightarrow> (http_error + computer_row) \<times> computer_row list \<times> api_out list" where
  "create_computer i now body tab =
     (case validate_computer_create body of
        None \<Rightarrow> (Inl (Http 422), tab, [])
      | Some b \<Rightarrow>
          if taken co_hostname (cc_hostname b) tab then (Inl (Http 409), tab, [])
          else (let row = \<lparr>co_id = i, co_hostname = cc_hostname b, co_is_online = None, co_reachability_reason = None, co_last_polled_at = None,
                      cx_location = cc_location b, cx_comment = cc_comment b, cx_created_at = now, cx_updated_at = None\<rparr>
                in if computer_fits row then (Inr row, tab @ [row], [Refetch ''computers'']) else (Inl (Http 500), tab, [])))"

definition update_computer_row :: "instant \<Rightarrow> uid \<Rightarrow> computer_update \<Rightarrow> computer_row list \<Rightarrow> (http_error + computer_row) \<times> computer_row list \<times> api_out list" where
  "update_computer_row now i body tab =
     (case validate_computer_update body of
        None \<Rightarrow> (Inl (Http 422), tab, [])
      | Some b \<Rightarrow>
     (case find_row co_id i tab of
        None \<Rightarrow> (Inl (Http 404), tab, [])
      | Some c \<Rightarrow>
          if (case cu_hostname b of Some (Some h) \<Rightarrow> h \<noteq> [] \<and> h \<noteq> co_hostname c \<and> taken_by_other co_id co_hostname h i tab | _ \<Rightarrow> False)
          then (Inl (Http 409), tab, [])
          else (let row = c\<lparr>co_hostname := patched_value (cu_hostname b) (co_hostname c), cx_location := patched (cu_location b) (cx_location c),
                      cx_comment := patched (cu_comment b) (cx_comment c), cx_updated_at := Some now\<rparr>
                in if nulls (cu_hostname b) \<or> \<not> computer_fits row then (Inl (Http 500), tab, [])
                   else (Inr row, put_row co_id row tab, [Refetch ''computers'']))))"

definition delete_computer ::
  "instant \<Rightarrow> uid \<Rightarrow> computer_row list \<Rightarrow> ra_device list \<Rightarrow> http_error option \<times> computer_row list \<times> ra_device list \<times> api_out list" where
  "delete_computer now i tab devices =
     (if find_row co_id i tab = None then (Some (Http 404), tab, devices, [])
      else (let (devices', calls, n) = release_inventory_row now (Some i) None None devices
            in if list_ex (points_at (Some i) None None) devices' then (Some (Http 500), tab, devices', map Book_call calls)
               else (None, remove_row co_id i tab, devices', map Book_call calls @ [Refetch ''computers''])))"

text \<open>The probe runs between reading and writing the row; the route writes three columns.\<close>

definition poll_computer ::
  "(string \<Rightarrow> reachability_result) \<Rightarrow> instant \<Rightarrow> uid \<Rightarrow> computer_row list \<Rightarrow> (http_error + computer_row) \<times> computer_row list \<times> api_out list" where
  "poll_computer probe now i tab =
     (case find_row co_id i tab of
        None \<Rightarrow> (Inl (Http 404), tab, [])
      | Some c \<Rightarrow> (let p = probe (co_hostname c);
                      row = c\<lparr>co_is_online := Some (rr_online p), co_reachability_reason := rr_reason p, co_last_polled_at := Some now\<rparr>
                  in (Inr row, put_row co_id row tab, [Refetch ''computers''])))"

definition read_computers ::
  "(ustr \<Rightarrow> 'o::linorder) \<Rightarrow> ustr option \<Rightarrow> nat \<Rightarrow> int \<Rightarrow> computer_row list \<Rightarrow> (http_error + computer_row list \<times> nat)" where
  "read_computers collate q skip limit tab =
     (if \<not> in_range limit (Some 1) 500 then Inl (Http 422)
      else page_of (search_filter q (\<lambda>c. [Some (cp (co_hostname c)), cx_location c, cx_comment c])) (\<lambda>c. collate (cp (co_hostname c))) skip limit tab)"

subsection \<open>Cash registers (routes/cash_registers.py)\<close>

fun column_width :: "register_column \<Rightarrow> nat" where
  "column_width Location_zone = 8"
| "column_width Store_number = 64"
| "column_width Store_code = 64"
| "column_width Sber_store_code = 64"
| "column_width Windows_version = 128"
| "column_width Rosenzweig_number = 64"
| "column_width Cash_number = 64"
| "column_width Netsupport_target = 255"
| "column_width Second_screen = 64"
| "column_width Cash_drawer = 512"
| "column_width Comment = 1024"
| "column_width _ = 128"

definition register_fits :: "register_row \<Rightarrow> bool" where
  "register_fits r \<longleftrightarrow> length (cr_kkm_number r) \<le> 64 \<and> length (cr_hostname r) \<le> 255 \<and> length (gx_kkm_type r) \<le> 16
     \<and> list_all (\<lambda>c. case gx_text r c of None \<Rightarrow> True | Some t \<Rightarrow> length t \<le> column_width c) register_columns"

definition create_cash_register :: "uid \<Rightarrow> instant \<Rightarrow> register_create \<Rightarrow> register_row list \<Rightarrow> (http_error + register_row) \<times> register_row list \<times> api_out list" where
  "create_cash_register i now body tab =
     (case validate_register_create body of
        None \<Rightarrow> (Inl (Http 422), tab, [])
      | Some b \<Rightarrow>
          (let row = \<lparr>cr_id = i, cr_kkm_number = gc_kkm_number b, cr_hostname = gc_hostname b, cr_is_online = None,
                 cr_reachability_reason = None, cr_last_polled_at = None, gx_source_order = gc_source_order b, gx_kkm_type = gc_kkm_type b,
                 gx_text = gc_text b, gx_created_at = now, gx_updated_at = None\<rparr>
           in if register_fits row then (Inr row, tab @ [row], [Refetch ''cash_registers'']) else (Inl (Http 500), tab, [])))"

definition update_cash_register :: "instant \<Rightarrow> uid \<Rightarrow> register_update \<Rightarrow> register_row list \<Rightarrow> (http_error + register_row) \<times> register_row list \<times> api_out list" where
  "update_cash_register now i body tab =
     (case validate_register_update body of
        None \<Rightarrow> (Inl (Http 422), tab, [])
      | Some b \<Rightarrow>
     (case find_row cr_id i tab of
        None \<Rightarrow> (Inl (Http 404), tab, [])
      | Some r \<Rightarrow>
          (let row = r\<lparr>gx_source_order := patched (gu_source_order b) (gx_source_order r), cr_kkm_number := patched_value (gu_kkm_number b) (cr_kkm_number r),
                 gx_kkm_type := patched_value (gu_kkm_type b) (gx_kkm_type r), cr_hostname := patched_value (gu_hostname b) (cr_hostname r),
                 gx_text := (\<lambda>c. patched (gu_text b c) (gx_text r c)), gx_updated_at := Some now\<rparr>
           in if nulls (gu_kkm_number b) \<or> nulls (gu_kkm_type b) \<or> nulls (gu_hostname b) \<or> \<not> register_fits row then (Inl (Http 500), tab, [])
              else (Inr row, put_row cr_id row tab, [Refetch ''cash_registers'']))))"

definition delete_cash_register ::
  "instant \<Rightarrow> uid \<Rightarrow> register_row list \<Rightarrow> ra_device list \<Rightarrow> http_error option \<times> register_row list \<times> ra_device list \<times> api_out list" where
  "delete_cash_register now i tab devices =
     (if find_row cr_id i tab = None then (Some (Http 404), tab, devices, [])
      else (let (devices', calls, n) = release_inventory_row now None (Some i) None devices
            in if list_ex (points_at None (Some i) None) devices' then (Some (Http 500), tab, devices', map Book_call calls)
               else (None, remove_row cr_id i tab, devices', map Book_call calls @ [Refetch ''cash_registers''])))"

definition register_search_columns :: "register_row \<Rightarrow> ustr option list" where
  "register_search_columns r = [Some (cr_kkm_number r), gx_text r Location_zone, gx_text r Store_number, Some (cp (cr_hostname r))]
     @ map (gx_text r) [Netsupport_target, Store_code, Sber_store_code, Serial_number, Inventory_number, Terminal_id_rs, Terminal_id_sber,
         Rosenzweig_number, Piot_status, Cash_drawer, Comment]"

text \<open>The database's order of the four sort columns, nulls included, is the argument.\<close>

definition read_cash_registers ::
  "(ustr option \<times> ustr option \<times> int option \<times> ustr \<Rightarrow> 'o::linorder) \<Rightarrow> ustr option \<Rightarrow> nat \<Rightarrow> int \<Rightarrow> register_row list \<Rightarrow> (http_error + register_row list \<times> nat)" where
  "read_cash_registers collate q skip limit tab =
     (if \<not> in_range limit (Some 1) 500 then Inl (Http 422)
      else page_of (search_filter q register_search_columns)
             (\<lambda>r. collate (gx_text r Location_zone, gx_text r Store_number, gx_source_order r, cr_kkm_number r)) skip limit tab)"

subsection \<open>Switches (routes/switches/crud.py)\<close>

definition switch_fits :: "switch_row \<Rightarrow> bool" where
  "switch_fits s \<longleftrightarrow> length (ns_ip s) \<le> 45 \<and> length (sx_ssh_username s) \<le> 128"

definition new_switch :: "uid \<Rightarrow> instant \<Rightarrow> switch_create \<Rightarrow> switch_row" where
  "new_switch i now b =
     \<lparr>ns_id = i, ns_name = sc_switch_name b, ns_ip = sc_ip b, ns_is_online = None, ns_reachability_reason = None, ns_hostname = None,
      ns_model_info = None, ns_ios_version = None, ns_uptime = None, ns_mac_address = sc_mac b, ns_mac_status = None,
      ns_last_polled_at = None, rs_vendor = sc_vendor b, rs_ap_vlan = sc_ap_vlan b, reboot_switch.rs_enabled = sc_reboot_enabled b, rs_mode = sc_reboot_mode b,
      rs_unreachable_cycles = 0, rs_no_aps_cycles = 0, rs_attention = None, rs_updated_at = None, ds_clear_enabled = sc_dhcp_enabled b,
      ds_clear_mode = sc_dhcp_mode b, sx_ssh_username = sc_ssh_username b, sx_ssh_password = sc_ssh_password b,
      sx_enable_password = sc_enable_password b, sx_ssh_port = sc_ssh_port b, sx_protocol = sc_protocol b,
      sx_snmp_version = sc_snmp_version b, sx_community_ro = sc_community_ro b, sx_community_rw = sc_community_rw b, sx_created_at = now\<rparr>"

definition create_switch :: "uid \<Rightarrow> instant \<Rightarrow> switch_create \<Rightarrow> switch_row list \<Rightarrow> (http_error + switch_row) \<times> switch_row list \<times> api_out list" where
  "create_switch i now body tab =
     (case validate_switch_create body of
        None \<Rightarrow> (Inl (Http 422), tab, [])
      | Some b \<Rightarrow>
          if taken ns_ip (sc_ip b) tab then (Inl (Http 400), tab, [])
          else (let row = new_switch i now b
                in if switch_fits row then (Inr row, tab @ [row], [Refetch ''switches'']) else (Inl (Http 500), tab, [])))"

definition patch_switch :: "instant \<Rightarrow> switch_update \<Rightarrow> switch_row \<Rightarrow> switch_row" where
  "patch_switch now b s = s\<lparr>rs_updated_at := Some now, ns_name := patched_value (su_name b) (ns_name s), ns_ip := patched_value (su_ip b) (ns_ip s),
     sx_ssh_username := patched_value (su_ssh_username b) (sx_ssh_username s), sx_ssh_password := patched_value (su_ssh_password b) (sx_ssh_password s),
     sx_enable_password := patched_value (su_enable_password b) (sx_enable_password s), sx_ssh_port := patched_value (su_ssh_port b) (sx_ssh_port s),
     rs_ap_vlan := patched_value (su_ap_vlan b) (rs_ap_vlan s), rs_vendor := patched_value (su_vendor b) (rs_vendor s),
     sx_protocol := patched_value (su_protocol b) (sx_protocol s), sx_snmp_version := patched_value (su_snmp_version b) (sx_snmp_version s),
     sx_community_ro := patched_value (su_community_ro b) (sx_community_ro s), sx_community_rw := patched (su_community_rw b) (sx_community_rw s),
     ns_mac_address := patched (su_mac b) (ns_mac_address s), reboot_switch.rs_enabled := patched_value (su_reboot_enabled b) (reboot_switch.rs_enabled s),
     rs_mode := patched_value (su_reboot_mode b) (rs_mode s), ds_clear_enabled := patched_value (su_dhcp_enabled b) (ds_clear_enabled s),
     ds_clear_mode := patched_value (su_dhcp_mode b) (ds_clear_mode s)\<rparr>"

definition nulls_switch_column :: "switch_update \<Rightarrow> bool" where
  "nulls_switch_column b \<longleftrightarrow> nulls (su_name b) \<or> nulls (su_ip b) \<or> nulls (su_ssh_username b) \<or> nulls (su_ssh_password b)
     \<or> nulls (su_enable_password b) \<or> nulls (su_ssh_port b) \<or> nulls (su_ap_vlan b) \<or> nulls (su_vendor b) \<or> nulls (su_protocol b)
     \<or> nulls (su_snmp_version b) \<or> nulls (su_community_ro b) \<or> nulls (su_reboot_enabled b) \<or> nulls (su_reboot_mode b)
     \<or> nulls (su_dhcp_enabled b) \<or> nulls (su_dhcp_mode b)"

definition reboot_disabled_event :: "switch_row \<Rightarrow> unit event" where
  "reboot_disabled_event s = \<lparr>ev_severity = ''info'', ev_category = ''network'', ev_type = ''ap_auto_reboot_disabled'',
     ev_device_kind = Some ''switch'', ev_device_name = Some (ns_name s), ev_ip_address = Some (ns_ip s), ev_message = ()\<rparr>"

definition update_switch :: "instant \<Rightarrow> uid \<Rightarrow> switch_update \<Rightarrow> switch_row list \<Rightarrow> (http_error + switch_row) \<times> switch_row list \<times> api_out list" where
  "update_switch now i body tab =
     (case validate_switch_update body of
        None \<Rightarrow> (Inl (Http 422), tab, [])
      | Some b \<Rightarrow>
     (case find_row ns_id i tab of
        None \<Rightarrow> (Inl (Http 404), tab, [])
      | Some s \<Rightarrow>
          if (case su_ip b of Some (Some ip) \<Rightarrow> taken_by_other ns_id ns_ip ip i tab | _ \<Rightarrow> False) then (Inl (Http 409), tab, [])
          else (let was_disabled = (su_reboot_enabled b = Some (Some False) \<and> reboot_switch.rs_enabled s);
                    s1 = patch_switch now b s;
                    s2 = (if was_disabled then s1\<lparr>rs_unreachable_cycles := 0, rs_no_aps_cycles := 0, rs_attention := None\<rparr> else s1)
                in if nulls_switch_column b \<or> \<not> switch_fits s2 then (Inl (Http 500), tab, [])
                   else (Inr s2, put_row ns_id s2 tab,
                     (if was_disabled then [Reboot_disabled_event (reboot_disabled_event s2)] else []) @ [Refetch ''switches'']))))"

text \<open>No code empties the two tables that refer to a switch, so the foreign keys decide.\<close>

definition delete_switch ::
  "uid \<Rightarrow> ap_row list \<Rightarrow> port_snapshot list \<Rightarrow> switch_row list \<Rightarrow> http_error option \<times> switch_row list \<times> api_out list" where
  "delete_switch i aps snapshots tab =
     (if find_row ns_id i tab = None then (Some (Http 404), tab, [])
      else if list_ex (\<lambda>a. ar_switch_id a = i) aps \<or> list_ex (\<lambda>s. sn_switch s = i) snapshots then (Some (Http 500), tab, [])
      else (None, remove_row ns_id i tab, [Refetch ''switches'']))"

definition switch_search_columns :: "switch_row \<Rightarrow> ustr option list" where
  "switch_search_columns s = [Some (ns_name s), map_option cp (ns_hostname s), Some (cp (ns_ip s)), map_option cp (ns_model_info s),
     map_option cp (ns_ios_version s), Some (cp (rs_vendor s))]"

definition read_switches ::
  "(ustr \<Rightarrow> 'o::linorder) \<Rightarrow> ustr option \<Rightarrow> nat \<Rightarrow> int \<Rightarrow> switch_row list \<Rightarrow> (http_error + switch_row list \<times> nat)" where
  "read_switches collate name skip limit tab =
     (if \<not> in_range limit None 200 then Inl (Http 422)
      else page_of (search_filter name switch_search_columns) (\<lambda>s. collate (ns_name s)) skip limit tab)"

end
