(* ===== verification/Inventory_Laws.thy ===== *)
theory Inventory_Laws
  imports Inventory_Api
begin

section \<open>What the inventory routes keep\<close>

text \<open>
  The pollers and the rediscovery address a device by the address, or hostname, of its row: two rows with one
  address would be polled as the same device. \<open>unique_key\<close> is what the routes of one table promise (a new
  row, or a changed one, has a key no other row has), and what follows for the table; every table whose key the
  routes check interprets it. The deletions are at the end: a machine can always be deleted, a switch only
  before its first scan.
\<close>

definition keys_unique :: "('r \<Rightarrow> uid) \<Rightarrow> ('r \<Rightarrow> 'k option) \<Rightarrow> 'r list \<Rightarrow> bool" where
  "keys_unique rid key tab \<longleftrightarrow> distinct (map rid tab) \<and> distinct (List.map_filter key tab)"

text \<open>No other row has the key of \<open>r\<close>.\<close>

definition key_free :: "('r \<Rightarrow> uid) \<Rightarrow> ('r \<Rightarrow> 'k option) \<Rightarrow> 'r \<Rightarrow> 'r list \<Rightarrow> bool" where
  "key_free rid key r tab \<longleftrightarrow> (\<forall>q \<in> set tab. rid q = rid r \<or> key r = None \<or> key q \<noteq> key r)"

definition table_change :: "('r \<Rightarrow> uid) \<Rightarrow> ('r \<Rightarrow> 'k option) \<Rightarrow> 'r list \<Rightarrow> 'r list \<Rightarrow> bool" where
  "table_change rid key tab tab' \<longleftrightarrow>
     tab' = tab
     \<or> (\<exists>r. tab' = tab @ [r] \<and> rid r \<notin> rid ` set tab \<and> key_free rid key r tab)
     \<or> (\<exists>r. tab' = put_row rid r tab \<and> ((\<exists>q \<in> set tab. rid q = rid r \<and> key q = key r) \<or> key_free rid key r tab))
     \<or> (\<exists>i. tab' = remove_row rid i tab)"

lemma change_same [simp, intro]: "table_change rid key tab tab"
  by (simp add: table_change_def)

lemma change_remove [intro]: "table_change rid key tab (remove_row rid i tab)"
  by (auto simp: table_change_def)

lemma change_add: "rid r \<notin> rid ` set tab \<Longrightarrow> key_free rid key r tab \<Longrightarrow> table_change rid key tab (tab @ [r])"
  by (auto simp: table_change_def)

lemma change_put: "key_free rid key r tab \<Longrightarrow> table_change rid key tab (put_row rid r tab)"
  by (auto simp: table_change_def)

lemma change_put_same: "q \<in> set tab \<Longrightarrow> rid q = rid r \<Longrightarrow> key q = key r \<Longrightarrow> table_change rid key tab (put_row rid r tab)"
  by (auto simp: table_change_def)

lemma mem_map_filter: "y \<in> set (List.map_filter f xs) \<longleftrightarrow> (\<exists>x \<in> set xs. f x = Some y)"
  by (induction xs) (auto split: option.splits)

lemma keys_unique_iff:
  "keys_unique rid key tab \<longleftrightarrow> distinct (map rid tab) \<and> (\<forall>r \<in> set tab. key_free rid key r tab)"
proof -
  have "distinct (List.map_filter key tab) \<longleftrightarrow> (\<forall>r \<in> set tab. key_free rid key r tab)" if "distinct (map rid tab)"
    using that
  proof (induction tab)
    case (Cons r tab)
    then have d: "rid r \<notin> rid ` set tab" and ih: "distinct (List.map_filter key tab) \<longleftrightarrow> (\<forall>r \<in> set tab. key_free rid key r tab)" by auto
    from d have ne: "\<forall>q \<in> set tab. rid q \<noteq> rid r" by (metis image_eqI)
    have "key_free rid key q (r # tab) \<longleftrightarrow> key_free rid key q tab \<and> (key q = None \<or> key r \<noteq> key q)" if "q \<in> set tab" for q
      using that ne by (auto simp: key_free_def)
    moreover have "key_free rid key r (r # tab) \<longleftrightarrow> (key r = None \<or> (\<forall>q \<in> set tab. key q \<noteq> key r))"
      using ne by (auto simp: key_free_def)
    ultimately have a: "(\<forall>q \<in> set (r # tab). key_free rid key q (r # tab))
        \<longleftrightarrow> (\<forall>q \<in> set tab. key_free rid key q tab) \<and> (key r = None \<or> (\<forall>q \<in> set tab. key q \<noteq> key r))"
      by (metis list.set_intros set_ConsD)
    have "distinct (List.map_filter key (r # tab))
        \<longleftrightarrow> distinct (List.map_filter key tab) \<and> (key r = None \<or> (\<forall>q \<in> set tab. key q \<noteq> key r))"
      by (cases "key r") (auto simp: mem_map_filter)
    then show ?case unfolding a ih .
  qed (simp add: List.map_filter_def)
  then show ?thesis unfolding keys_unique_def by blast
qed

locale unique_key =
  fixes rid :: "'r \<Rightarrow> uid" and key :: "'r \<Rightarrow> 'k option" and step :: "'r list \<Rightarrow> 'r list \<Rightarrow> bool"
  assumes step_changes: "step tab tab' \<Longrightarrow> keys_unique rid key tab \<Longrightarrow> table_change rid key tab tab'"
begin

lemma change_keeps:
  assumes "table_change rid key tab tab'" "keys_unique rid key tab"
  shows "keys_unique rid key tab'"
proof -
  from assms(2) have d: "distinct (map rid tab)" and f: "\<And>r. r \<in> set tab \<Longrightarrow> key_free rid key r tab"
    by (auto simp: keys_unique_iff)
  have put: "keys_unique rid key (put_row rid r tab)" if r: "key_free rid key r tab" for r
    unfolding keys_unique_iff
  proof (intro conjI ballI)
    fix x assume "x \<in> set (put_row rid r tab)"
    then have "x = r \<or> (x \<in> set tab \<and> rid x \<noteq> rid r)" by (rule mem_put_row)
    then show "key_free rid key x (put_row rid r tab)"
    proof
      assume "x = r"
      then show ?thesis using r by (auto simp: key_free_def dest!: mem_put_row)
    next
      assume x: "x \<in> set tab \<and> rid x \<noteq> rid r"
      show ?thesis
        unfolding key_free_def
      proof
        fix q assume "q \<in> set (put_row rid r tab)"
        then consider "q = r" | "q \<in> set tab" by (auto dest: mem_put_row)
        then show "rid q = rid x \<or> key x = None \<or> key q \<noteq> key x"
          using x f [of x] r by cases (auto simp: key_free_def)
      qed
    qed
  qed (use d in simp)
  from assms(1) show ?thesis unfolding table_change_def
  proof (elim disjE exE conjE)
    fix r assume r: "tab' = tab @ [r]" "rid r \<notin> rid ` set tab" "key_free rid key r tab"
    then show ?thesis using d f unfolding keys_unique_iff by (fastforce simp: key_free_def)
  next
    fix r assume r: "tab' = put_row rid r tab" "\<exists>q \<in> set tab. rid q = rid r \<and> key q = key r"
    then obtain q where q: "q \<in> set tab" "rid q = rid r" "key q = key r" by blast
    have "key_free rid key r tab" using f [OF q(1)] q unfolding key_free_def by simp
    then show ?thesis using put r(1) by simp
  next
    fix i assume "tab' = remove_row rid i tab"
    then show ?thesis using d f unfolding keys_unique_iff by (auto simp: remove_row_def key_free_def distinct_map_filter)
  qed (use assms(2) put in auto)
qed

lemma run_keeps:
  assumes "step\<^sup>*\<^sup>* tab tab'" "keys_unique rid key tab"
  shows "keys_unique rid key tab'"
  using assms
proof (induction rule: rtranclp_induct)
  case (step y z)
  then show ?case using change_keeps [OF step_changes [OF step.hyps(2)]] by blast
qed

end

subsection \<open>The tables\<close>

text \<open>The address of a printer counts when it is polled by address; an empty address cannot pass the validators.\<close>

definition printer_key :: "printer_row \<Rightarrow> string option" where
  "printer_key p = (if pr_connection p = ''ip'' then pr_ip p else None)"

inductive printer_step :: "printer_row list \<Rightarrow> printer_row list \<Rightarrow> bool" where
  create: "i \<notin> pr_id ` set tab \<Longrightarrow> printer_step tab (fst (snd (create_printer i now body tab)))"
| update: "printer_step tab (fst (snd (update_printer now i body tab)))"
| delete: "printer_step tab (fst (snd (delete_printer i tab)))"
| fill: "printer_step tab (fst (fill_mac_in_background net i ip started tab))"

inductive media_step :: "media_row list \<Rightarrow> media_row list \<Rightarrow> bool" where
  create: "i \<notin> mp_id ` set tab \<Longrightarrow> media_step tab (fst (snd (create_media_player net i now body earlier tab)))"
| update: "media_step tab (fst (snd (update_media_player net now i body earlier tab)))"
| delete: "media_step tab (fst (snd (delete_media_player now i tab devices)))"

inductive computer_step :: "computer_row list \<Rightarrow> computer_row list \<Rightarrow> bool" where
  create: "i \<notin> co_id ` set tab \<Longrightarrow> computer_step tab (fst (snd (create_computer i now body tab)))"
| update: "computer_step tab (fst (snd (update_computer_row now i body tab)))"
| delete: "computer_step tab (fst (snd (delete_computer now i tab devices)))"
| poll: "computer_step tab (fst (snd (poll_computer probe now i tab)))"

inductive switch_step :: "switch_row list \<Rightarrow> switch_row list \<Rightarrow> bool" where
  create: "i \<notin> ns_id ` set tab \<Longrightarrow> switch_step tab (fst (snd (create_switch i now body tab)))"
| update: "switch_step tab (fst (snd (update_switch now i body tab)))"
| delete: "switch_step tab (fst (snd (delete_switch i aps snapshots tab)))"

lemma not_taken: "\<not> taken key k tab \<Longrightarrow> q \<in> set tab \<Longrightarrow> key q \<noteq> k"
  by (auto simp: taken_def list_ex_iff)

lemma not_taken_by_other: "\<not> taken_by_other rid key k i tab \<Longrightarrow> q \<in> set tab \<Longrightarrow> rid q \<noteq> i \<Longrightarrow> key q \<noteq> k"
  by (auto simp: taken_by_other_def list_ex_iff)

lemma patched_value_cases:
  obtains "patched_value field old = old" | v where "field = Some (Some v)" "patched_value field old = v"
  by (cases field; cases "the field") (auto simp: patched_value_def)

lemma create_printer_change:
  assumes "i \<notin> pr_id ` set tab"
  shows "table_change pr_id printer_key tab (fst (snd (create_printer i now body tab)))"
proof (cases "validate_printer_create body")
  case (Some b)
  show ?thesis
  proof (cases "pc_connection b = ''ip'' \<and> truthy (pc_ip b) \<noteq> None \<and> taken pr_ip (pc_ip b) tab")
    case False
    have "pc_connection b = ''ip'' \<Longrightarrow> truthy (pc_ip b) \<noteq> None"
      using Some by (auto simp: validate_printer_create_def split: bind_splits if_splits)
    then have "key_free pr_id printer_key (new_printer i now b) tab"
      using False not_taken [of pr_ip "pc_ip b" tab] by (auto simp: key_free_def printer_key_def new_printer_def)
    then have "table_change pr_id printer_key tab (tab @ [new_printer i now b])"
      by (rule change_add [rotated]) (use assms in \<open>simp add: new_printer_def\<close>)
    then show ?thesis using Some False by (simp add: create_printer_def Let_def)
  qed (use Some in \<open>simp add: create_printer_def\<close>)
qed (simp add: create_printer_def)

lemma update_printer_change: "table_change pr_id printer_key tab (fst (snd (update_printer now i body tab)))"
proof -
  have "table_change pr_id printer_key tab (put_row pr_id p2 tab)"
    if p: "find_row pr_id i tab = Some p" "pr_id p2 = pr_id p" "pr_connection p2 = pr_connection p" "pr_ip p2 = patched f (pr_ip p)"
      and free: "\<not> (case f of Some (Some ip) \<Rightarrow> taken_by_other pr_id pr_ip (Some ip) i tab | _ \<Rightarrow> False)" for p p2 f
  proof (cases f)
    case None
    have "p \<in> set tab" using p(1) by (rule find_row_Some [THEN conjunct1])
    then show ?thesis by (rule change_put_same) (use p None in \<open>simp_all add: printer_key_def patched_def\<close>)
  next
    case (Some g)
    have "pr_id p = i" using p(1) by (rule find_row_Some [THEN conjunct2])
    with Some free p have "key_free pr_id printer_key p2 tab"
      by (cases g) (auto simp: key_free_def printer_key_def patched_def dest: not_taken_by_other)
    then show ?thesis by (rule change_put)
  qed
  note put = this
  show ?thesis
    by (auto simp: update_printer_def Let_def patch_printer_def split: option.splits if_splits intro!: put)
qed

lemma fill_mac_change: "table_change pr_id printer_key tab (fst (fill_mac_in_background net i ip started tab))"
proof -
  have "table_change pr_id printer_key tab (put_row pr_id (q\<lparr>pr_mac_address := m, pr_mac_status := st\<rparr>) tab)"
    if "find_row pr_id i tab = Some q" for q m st
    using find_row_Some [OF that] by (intro change_put_same [of q]) (auto simp: printer_key_def)
  then show ?thesis by (auto simp: fill_mac_in_background_def split: option.splits)
qed

lemma create_media_change:
  assumes "i \<notin> mp_id ` set tab"
  shows "table_change mp_id (Some \<circ> mp_ip) tab (fst (snd (create_media_player net i now body earlier tab)))"
proof -
  have "table_change mp_id (Some \<circ> mp_ip) tab (tab @ [new_media i now b mac])" if "\<not> taken mp_ip (mc_ip b) tab" for b mac
    using that assms not_taken [of mp_ip "mc_ip b" tab] by (intro change_add) (auto simp: new_media_def key_free_def)
  moreover have "mp_ip (new_media i now b mac) = mc_ip b" for b mac by (simp add: new_media_def)
  ultimately show ?thesis by (auto simp: create_media_player_def Let_def split: option.splits)
qed

lemma update_media_change: "table_change mp_id (Some \<circ> mp_ip) tab (fst (snd (update_media_player net now i body earlier tab)))"
proof -
  have "table_change mp_id (Some \<circ> mp_ip) tab (put_row mp_id (write_media p p2 q) tab)"
    if "find_row mp_id i tab = Some q" "\<not> taken_by_other mp_id mp_ip (mp_ip (write_media p p2 q)) i tab" for p p2 q
    using find_row_Some [OF that(1)] not_taken_by_other [OF that(2)]
    by (intro change_put) (auto simp: key_free_def write_media_def)
  then show ?thesis by (auto simp: update_media_player_def Let_def split: option.splits if_splits)
qed

lemma create_computer_change:
  assumes "i \<notin> co_id ` set tab"
  shows "table_change co_id (Some \<circ> co_hostname) tab (fst (snd (create_computer i now body tab)))"
proof -
  have "table_change co_id (Some \<circ> co_hostname) tab (tab @ [row])"
    if "\<not> taken co_hostname (cc_hostname b) tab" "co_id row = i" "co_hostname row = cc_hostname b" for b row
    using that assms not_taken [OF that(1)] by (intro change_add) (auto simp: key_free_def)
  note add = this
  show ?thesis by (auto simp: create_computer_def Let_def split: option.splits intro!: add)
qed

lemma update_computer_change: "table_change co_id (Some \<circ> co_hostname) tab (fst (snd (update_computer_row now i body tab)))"
proof -
  have "table_change co_id (Some \<circ> co_hostname) tab (put_row co_id row tab)"
    if c: "find_row co_id i tab = Some c" "co_id row = co_id c" "co_hostname row = patched_value f (co_hostname c)"
      and f: "\<not> (case f of Some (Some h) \<Rightarrow> h \<noteq> [] \<and> h \<noteq> co_hostname c \<and> taken_by_other co_id co_hostname h i tab | _ \<Rightarrow> False)"
        "validate_computer_update body = Some b" "cu_hostname b = f" for c row b f
  proof (rule patched_value_cases [of f "co_hostname c"])
    assume "patched_value f (co_hostname c) = co_hostname c"
    then show ?thesis using c find_row_Some [OF c(1)] by (intro change_put_same [of c]) auto
  next
    fix h assume h: "f = Some (Some h)" "patched_value f (co_hostname c) = h"
    have "h \<noteq> []" using f h(1)
      by (auto simp: validate_computer_update_def if_set_def unless_null_def required_text_def Let_def split: bind_splits option.splits if_splits)
    show ?thesis
    proof (cases "h = co_hostname c")
      case True
      then show ?thesis using c h find_row_Some [OF c(1)] by (intro change_put_same [of c]) auto
    next
      case False
      with f h \<open>h \<noteq> []\<close> have "\<not> taken_by_other co_id co_hostname h i tab" by auto
      then show ?thesis using c h find_row_Some [OF c(1)]
        by (intro change_put) (auto simp: key_free_def dest: not_taken_by_other)
    qed
  qed
  note put = this
  show ?thesis
  proof (cases "validate_computer_update body")
    case (Some b)
    show ?thesis
    proof (cases "find_row co_id i tab")
      case (Some c)
      then show ?thesis using \<open>validate_computer_update body = Some b\<close>
        by (simp add: update_computer_row_def Let_def) (auto intro!: put [of c _ "cu_hostname b" b])
    qed (use Some in \<open>simp add: update_computer_row_def\<close>)
  qed (simp add: update_computer_row_def)
qed

lemma poll_computer_change: "table_change co_id (Some \<circ> co_hostname) tab (fst (snd (poll_computer probe now i tab)))"
proof -
  have "table_change co_id (Some \<circ> co_hostname) tab (put_row co_id row tab)"
    if "find_row co_id i tab = Some c" "co_id row = co_id c" "co_hostname row = co_hostname c" for c row
    using that find_row_Some [OF that(1)] by (intro change_put_same [of c]) auto
  then show ?thesis by (auto simp: poll_computer_def Let_def split: option.splits)
qed

lemma create_switch_change:
  assumes "i \<notin> ns_id ` set tab"
  shows "table_change ns_id (Some \<circ> ns_ip) tab (fst (snd (create_switch i now body tab)))"
proof -
  have "table_change ns_id (Some \<circ> ns_ip) tab (tab @ [new_switch i now b])" if "\<not> taken ns_ip (sc_ip b) tab" for b
    using that assms not_taken [OF that] by (intro change_add) (auto simp: new_switch_def key_free_def)
  then show ?thesis by (auto simp: create_switch_def Let_def split: option.splits)
qed

lemma update_switch_change: "table_change ns_id (Some \<circ> ns_ip) tab (fst (snd (update_switch now i body tab)))"
proof -
  have "table_change ns_id (Some \<circ> ns_ip) tab (put_row ns_id row tab)"
    if c: "find_row ns_id i tab = Some c" "ns_id row = ns_id c" "ns_ip row = patched_value f (ns_ip c)"
      and f: "\<not> (case f of Some (Some ip) \<Rightarrow> taken_by_other ns_id ns_ip ip i tab | _ \<Rightarrow> False)" for c row f
  proof (rule patched_value_cases [of f "ns_ip c"])
    assume "patched_value f (ns_ip c) = ns_ip c"
    then show ?thesis using c find_row_Some [OF c(1)] by (intro change_put_same [of c]) auto
  next
    fix ip assume "f = Some (Some ip)" "patched_value f (ns_ip c) = ip"
    then show ?thesis using c f find_row_Some [OF c(1)]
      by (intro change_put) (auto simp: key_free_def dest: not_taken_by_other)
  qed
  note put = this
  show ?thesis
    by (auto simp: update_switch_def Let_def patch_switch_def split: option.splits if_splits intro!: put)
qed

interpretation printers: unique_key pr_id printer_key printer_step
  by unfold_locales
    (auto elim!: printer_step.cases intro: create_printer_change update_printer_change fill_mac_change simp: delete_printer_def)

interpretation media_players: unique_key mp_id "Some \<circ> mp_ip" media_step
  by unfold_locales
    (auto elim!: media_step.cases intro: create_media_change update_media_change simp: delete_media_player_def Let_def split: prod.splits)

interpretation computers: unique_key co_id "Some \<circ> co_hostname" computer_step
  by unfold_locales
    (auto elim!: computer_step.cases intro: create_computer_change update_computer_change poll_computer_change
      simp: delete_computer_def Let_def split: prod.splits)

interpretation switches: unique_key ns_id "Some \<circ> ns_ip" switch_step
  by unfold_locales
    (auto elim!: switch_step.cases intro: create_switch_change update_switch_change simp: delete_switch_def)

subsection \<open>Addresses stay unique\<close>

record inventory_db =
  db_printers :: "printer_row list"
  db_media :: "media_row list"
  db_computers :: "computer_row list"
  db_switches :: "switch_row list"

inductive inventory_step :: "inventory_db \<Rightarrow> inventory_db \<Rightarrow> bool" where
  printer: "printer_step (db_printers d) t \<Longrightarrow> inventory_step d (d\<lparr>db_printers := t\<rparr>)"
| media: "media_step (db_media d) t \<Longrightarrow> inventory_step d (d\<lparr>db_media := t\<rparr>)"
| computer: "computer_step (db_computers d) t \<Longrightarrow> inventory_step d (d\<lparr>db_computers := t\<rparr>)"
| switch: "switch_step (db_switches d) t \<Longrightarrow> inventory_step d (d\<lparr>db_switches := t\<rparr>)"

definition addresses_unique :: "inventory_db \<Rightarrow> bool" where
  "addresses_unique d \<longleftrightarrow> keys_unique pr_id printer_key (db_printers d) \<and> keys_unique mp_id (Some \<circ> mp_ip) (db_media d)
     \<and> keys_unique co_id (Some \<circ> co_hostname) (db_computers d) \<and> keys_unique ns_id (Some \<circ> ns_ip) (db_switches d)"

text \<open>As long as the requests of a table do not overlap between their check and their commit: no two printers polled by
  address, no two media players and no two switches have one address, and no two computers one hostname, whatever is
  created, edited, polled and deleted. Theory \<open>Inventory_Races\<close> drops that condition.\<close>

lemma addresses_stay_unique:
  assumes "inventory_step\<^sup>*\<^sup>* d d'" "addresses_unique d"
  shows "addresses_unique d'"
  using assms
proof (induction rule: rtranclp_induct)
  case (step y z)
  from step.hyps(2) step.IH [OF step.prems] show ?case
    by cases (auto simp: addresses_unique_def intro: printers.run_keeps media_players.run_keeps computers.run_keeps switches.run_keeps)
qed

definition till_1 :: computer_create where
  "till_1 = \<lparr>cc_hostname = '' TILL-1 '', cc_location = None, cc_comment = None\<rparr>"

definition no_devices :: inventory_db where
  "no_devices = \<lparr>db_printers = [], db_media = [], db_computers = [], db_switches = []\<rparr>"

lemma creating_till_1:
  "inventory_step d (d\<lparr>db_computers := fst (snd (create_computer i now till_1 (db_computers d)))\<rparr>)"
  if "i \<notin> co_id ` set (db_computers d)"
  by (rule inventory_step.computer [OF computer_step.create [OF that]])

lemma addresses_stay_unique_witness:
  "addresses_unique (no_devices\<lparr>db_computers := fst (snd (create_computer ''c2'' 7 till_1 (fst (snd (create_computer ''c1'' 5 till_1 [])))))\<rparr>)"
proof -
  let ?d1 = "no_devices\<lparr>db_computers := fst (snd (create_computer ''c1'' 5 till_1 []))\<rparr>"
  have "inventory_step no_devices ?d1" using creating_till_1 [of "''c1''" no_devices 5] by (simp add: no_devices_def)
  moreover have "inventory_step ?d1 (?d1\<lparr>db_computers := fst (snd (create_computer ''c2'' 7 till_1 (db_computers ?d1)))\<rparr>)"
    by (rule creating_till_1) (simp add: create_computer_def validate_computer_create_def till_1_def required_text_def optional_text_def
        strip_def lstrip_def rstrip_def is_space_def taken_def computer_fits_def Let_def)
  ultimately have "inventory_step\<^sup>*\<^sup>* no_devices (?d1\<lparr>db_computers := fst (snd (create_computer ''c2'' 7 till_1 (db_computers ?d1)))\<rparr>)" by simp
  from addresses_stay_unique [OF this] show ?thesis
    by (simp add: no_devices_def addresses_unique_def keys_unique_def)
qed

subsection \<open>Deleting a machine\<close>

lemma unlinked: "\<not> points_at ci ri mi (unlink ci ri mi d)"
  by (auto simp: points_at_def unlink_def Let_def)

lemma unlink_id [simp]: "rd_id (unlink ci ri mi d) = rd_id d"
  by (simp add: unlink_def Let_def)

lemma release_clears: "\<not> list_ex (points_at ci ri mi) (fst (release_inventory_row now ci ri mi tab))"
proof -
  have "\<forall>r \<in> set (fst (fold_eff (release_one now ci ri mi) devs t)). \<not> points_at ci ri mi r"
    if "\<forall>r \<in> set t. points_at ci ri mi r \<longrightarrow> rd_id r \<in> rd_id ` set devs" for devs t
    using that
  proof (induction devs arbitrary: t)
    case (Cons d devs)
    have "rd_id (deleted_device now d) = rd_id d" by (simp add: deleted_device_def)
    then have "r = unlink ci ri mi (deleted_device now d) \<or> (r \<in> set t \<and> rd_id r \<noteq> rd_id d)"
      if "r \<in> set (fst (release_one now ci ri mi d t))" for r
      using that by (simp add: release_one_def delete_device_def) (metis mem_put_row unlink_id)
    moreover have "rd_id r = rd_id d \<or> rd_id r \<in> rd_id ` set devs" if "r \<in> set t" "points_at ci ri mi r" for r
      using Cons.prems that by simp
    ultimately have "rd_id r \<in> rd_id ` set devs" if "r \<in> set (fst (release_one now ci ri mi d t))" "points_at ci ri mi r" for r
      using that unlinked by metis
    then have "\<forall>r \<in> set (fst (release_one now ci ri mi d t)). points_at ci ri mi r \<longrightarrow> rd_id r \<in> rd_id ` set devs" by blast
    from Cons.IH [OF this] show ?case by (simp add: case_prod_unfold Let_def)
  qed simp
  note cleared = this
  have "\<forall>r \<in> set (fst (fold_eff (release_one now ci ri mi) (filter (points_at ci ri mi) tab) tab)). \<not> points_at ci ri mi r"
    by (rule cleared) simp
  then show ?thesis unfolding release_inventory_row_def Let_def case_prod_unfold fst_conv list_ex_iff by blast
qed

lemma delete_computer_succeeds:
  "(case delete_computer now i pcs devices of (refusal, tab', devices', outs) \<Rightarrow>
     (if i \<in> co_id ` set pcs then refusal = None \<and> tab' = filter (\<lambda>r. co_id r \<noteq> i) pcs
        \<and> list_all (\<lambda>d. rd_computer_id d \<noteq> Some i) devices' \<and> Refetch ''computers'' \<in> set outs
      else refusal = Some (Http 404) \<and> tab' = pcs \<and> devices' = devices \<and> outs = []))"
  using release_clears [of "Some i" "None" "None" now devices]
  by (auto simp: delete_computer_def find_row_None remove_row_def points_at_def list_ex_iff list_all_iff split: prod.splits)

lemma delete_cash_register_succeeds:
  "(case delete_cash_register now i tills devices of (refusal, tab', devices', outs) \<Rightarrow>
     (if i \<in> cr_id ` set tills then refusal = None \<and> tab' = filter (\<lambda>r. cr_id r \<noteq> i) tills
        \<and> list_all (\<lambda>d. rd_cash_register_id d \<noteq> Some i) devices' \<and> Refetch ''cash_registers'' \<in> set outs
      else refusal = Some (Http 404) \<and> tab' = tills \<and> devices' = devices \<and> outs = []))"
  using release_clears [of "None" "Some i" "None" now devices]
  by (auto simp: delete_cash_register_def find_row_None remove_row_def points_at_def list_ex_iff list_all_iff split: prod.splits)

lemma delete_media_player_succeeds:
  "(case delete_media_player now i players devices of (refusal, tab', devices', outs) \<Rightarrow>
     (if i \<in> mp_id ` set players then refusal = None \<and> tab' = filter (\<lambda>r. mp_id r \<noteq> i) players
        \<and> list_all (\<lambda>d. rd_media_player_id d \<noteq> Some i) devices' \<and> Refetch ''media_players'' \<in> set outs
      else refusal = Some (Http 404) \<and> tab' = players \<and> devices' = devices \<and> outs = []))"
  using release_clears [of "None" "None" "Some i" now devices]
  by (auto simp: delete_media_player_def find_row_None remove_row_def points_at_def list_ex_iff list_all_iff split: prod.splits)

text \<open>C33: A computer, a media player or a cash register that exists can always be deleted: the remote access entry that points
  at it is released first, so the foreign key never refuses, only that row goes, and no entry points at it afterwards.\<close>

theorem machines_can_be_deleted:
  "(case delete_computer now i pcs devices of (refusal, tab', devices', outs) \<Rightarrow>
     (if i \<in> co_id ` set pcs then refusal = None \<and> tab' = filter (\<lambda>r. co_id r \<noteq> i) pcs
        \<and> list_all (\<lambda>d. rd_computer_id d \<noteq> Some i) devices' \<and> Refetch ''computers'' \<in> set outs
      else refusal = Some (Http 404) \<and> tab' = pcs \<and> devices' = devices \<and> outs = []))
   \<and> (case delete_cash_register now i tills devices of (refusal, tab', devices', outs) \<Rightarrow>
     (if i \<in> cr_id ` set tills then refusal = None \<and> tab' = filter (\<lambda>r. cr_id r \<noteq> i) tills
        \<and> list_all (\<lambda>d. rd_cash_register_id d \<noteq> Some i) devices' \<and> Refetch ''cash_registers'' \<in> set outs
      else refusal = Some (Http 404) \<and> tab' = tills \<and> devices' = devices \<and> outs = []))
   \<and> (case delete_media_player now i players devices of (refusal, tab', devices', outs) \<Rightarrow>
     (if i \<in> mp_id ` set players then refusal = None \<and> tab' = filter (\<lambda>r. mp_id r \<noteq> i) players
        \<and> list_all (\<lambda>d. rd_media_player_id d \<noteq> Some i) devices' \<and> Refetch ''media_players'' \<in> set outs
      else refusal = Some (Http 404) \<and> tab' = players \<and> devices' = devices \<and> outs = []))"
  by (intro conjI delete_computer_succeeds delete_cash_register_succeeds delete_media_player_succeeds)

subsection \<open>Deleting a switch\<close>

text \<open>What the code does to the registry of access points; the uuids of new rows are fresh.\<close>

inductive registry_step :: "ap_row list \<Rightarrow> ap_row list \<Rightarrow> bool" where
  scan: "\<forall>n. fresh_id n \<notin> ar_id ` set tab \<Longrightarrow> registry_step tab (record_seen_aps fresh_id switch_id now aplist tab)"
| exclude: "registry_step tab (fst (set_ap_excluded now switch_id mac excluded tab))"
| outcome: "registry_step tab (fst (register_reboot_outcome now switch_id mac recovered threshold tab))"

definition row_of_switch :: "uid \<Rightarrow> uid \<Rightarrow> ap_row list \<Rightarrow> bool" where
  "row_of_switch a i tab \<longleftrightarrow> a \<in> ar_id ` set tab \<and> (\<forall>r \<in> set tab. ar_id r = a \<longrightarrow> ar_switch_id r = i)"

lemma row_of_switch_put:
  assumes "row_of_switch a i tab" "find_ap_row switch_id mac tab = Some r" "ar_id r' = ar_id r" "ar_switch_id r' = ar_switch_id r"
  shows "row_of_switch a i (put_row ar_id r' tab)"
proof -
  have "r \<in> set tab" using assms(2) by (auto simp: find_ap_row_def find_Some_iff)
  moreover have "ar_id ` set (put_row ar_id r' tab) = ar_id ` set tab" by (metis list.set_map map_rid_put_row)
  ultimately show ?thesis using assms(1,3,4) unfolding row_of_switch_def by (auto dest!: mem_put_row)
qed

lemma row_of_switch_map:
  "(\<And>r. ar_id (f r) = ar_id r) \<Longrightarrow> (\<And>r. ar_switch_id (f r) = ar_switch_id r) \<Longrightarrow> row_of_switch a i (map f tab) = row_of_switch a i tab"
  by (simp add: row_of_switch_def image_image)

lemma row_of_switch_see:
  assumes "row_of_switch a i tab" "\<And>n. fresh_id n \<noteq> a"
  shows "row_of_switch a i (see_ap fresh_id switch_id now existing tab ap)"
proof -
  have "row_of_switch a i (map (\<lambda>r. if ar_id r = k then mark_seen now ap r else r) tab)" for k
    using assms(1) by (subst row_of_switch_map) (simp_all add: mark_seen_def)
  moreover have "row_of_switch a i (tab @ [r])" if "ar_id r \<noteq> a" for r
    using assms(1) that by (simp add: row_of_switch_def)
  moreover have "ar_id (mark_seen now ap (fresh_ap_row x switch_id now ap)) = x" for x by (simp add: mark_seen_def fresh_ap_row_def)
  ultimately show ?thesis using assms by (cases "existing (ai_mac ap)") (simp_all add: see_ap_def)
qed

lemma registry_keeps_row: "registry_step tab tab' \<Longrightarrow> row_of_switch a i tab \<Longrightarrow> row_of_switch a i tab'"
proof (induction rule: registry_step.induct)
  case (scan fresh_id tab switch_id now aplist)
  then have f: "fresh_id n \<noteq> a" for n by (auto simp: row_of_switch_def)
  have "row_of_switch a i (foldl (see_ap fresh_id switch_id now ex) tab aplist)" for ex
    using scan.prems by (induction aplist arbitrary: tab) (simp_all add: row_of_switch_see f)
  then show ?case using scan.prems by (simp add: record_seen_aps_def)
next
  case (exclude tab now switch_id mac excluded)
  then show ?case
    by (cases "find_ap_row switch_id mac tab") (auto simp: set_ap_excluded_def Let_def intro: row_of_switch_put)
next
  case (outcome tab now switch_id mac recovered threshold)
  have "ar_id (fst (outcome_row now recovered threshold r)) = ar_id r" "ar_switch_id (fst (outcome_row now recovered threshold r)) = ar_switch_id r" for r
    by (simp_all add: outcome_row_def Let_def)
  then show ?case using outcome
    by (cases "find_ap_row switch_id mac tab") (auto simp: register_reboot_outcome_def case_prod_unfold Let_def intro: row_of_switch_put)
qed

text \<open>C32: A switch on which a scan ever recorded an access point cannot be deleted any more: whatever is recorded later, the rows
  of the registry go on referring to their switch, and the route does not remove them, so the foreign key refuses (500) and
  the switch stays.\<close>

theorem scanned_switch_is_never_deleted:
  assumes "registry_step\<^sup>*\<^sup>* aps aps'" "distinct (map ar_id aps)" "a \<in> set aps" "ar_switch_id a = i" "i \<in> ns_id ` set tab"
  shows "delete_switch i aps' snapshots tab = (Some (Http 500), tab, [])"
proof -
  have "row_of_switch (ar_id a) i aps"
    using assms(2-4) by (auto simp: row_of_switch_def dest: distinct_map_eq)
  with assms(1) have "row_of_switch (ar_id a) i aps'"
    by (induction rule: rtranclp_induct) (auto intro: registry_keeps_row)
  then have "list_ex (\<lambda>r. ar_switch_id r = i) aps'" by (auto simp: row_of_switch_def list_ex_iff)
  moreover have "find_row ns_id i tab \<noteq> None" using assms(5) by (simp add: find_row_None)
  ultimately show ?thesis by (simp add: delete_switch_def)
qed

definition lobby_ap :: ap_row where
  "lobby_ap = \<lparr>ar_id = ''a1'', ar_switch_id = ''s1'', ar_mac = ''00:11:22:33:44:55'', ar_port = ''Gi1/0/3'', ar_cdp_name = None,
     ar_last_seen_at = 5, ar_active = True, ar_excluded = False, ar_failures = 0, ar_skips = 0, ar_attention = None, ar_updated_at = None\<rparr>"

definition lobby_switch :: switch_create where
  "lobby_switch = \<lparr>sc_switch_name = cp ''lobby'', sc_ip = ''10.0.0.2'', sc_ssh_username = ''admin'', sc_ssh_password = [], sc_enable_password = [],
     sc_ssh_port = 22, sc_ap_vlan = 20, sc_vendor = ''cisco'', sc_protocol = ''ssh'', sc_snmp_version = ''2c'', sc_community_ro = ''public'',
     sc_community_rw = None, sc_mac = None, sc_reboot_enabled = False, sc_reboot_mode = ''dry_run'', sc_dhcp_enabled = False, sc_dhcp_mode = ''dry_run''\<rparr>"

lemma scanned_switch_is_never_deleted_witness:
  "delete_switch ''s1'' (fst (set_ap_excluded 9 ''s1'' (ar_mac lobby_ap) True [lobby_ap])) [] [new_switch ''s1'' 3 lobby_switch]
     = (Some (Http 500), [new_switch ''s1'' 3 lobby_switch], [])"
proof -
  have "registry_step\<^sup>*\<^sup>* [lobby_ap] (fst (set_ap_excluded 9 ''s1'' (ar_mac lobby_ap) True [lobby_ap]))"
    by (rule r_into_rtranclp, rule registry_step.exclude)
  then show ?thesis
    by (rule scanned_switch_is_never_deleted [of _ _ lobby_ap]) (simp_all add: lobby_ap_def new_switch_def)
qed

subsection \<open>Where the validators and the columns disagree\<close>

text \<open>A line break at its end makes a second spelling of an address, which the uniqueness check does not recognise.\<close>

lemma address_with_line_break_passes:
  "validate_ip_address (''10.0.0.2'' @ [CHR 0x0A]) = Some (''10.0.0.2'' @ [CHR 0x0A])"
  by code_simp

text \<open>A location of 129 to 1024 characters passes the validator and is refused by the database.\<close>

lemma long_location_is_a_server_error:
  assumes "location = replicate n (97::nat)" "128 < n" "n \<le> 1024"
  shows "fst (create_computer i now \<lparr>cc_hostname = ''pc1'', cc_location = Some location, cc_comment = None\<rparr> []) = Inl (Http 500)"
proof -
  have "u_strip location = location" by (simp add: assms(1) u_strip_def u_is_space_def dropWhile_replicate)
  moreover have "length location = n" "location \<noteq> []" using assms by auto
  moreover have "strip ''pc1'' = ''pc1''" by code_simp
  ultimately show ?thesis using assms(2,3)
    by (simp add: create_computer_def validate_computer_create_def required_text_def optional_text_def taken_def computer_fits_def Let_def)
qed

text \<open>Emptying the read community of a switch becomes a null in a column that takes none.\<close>

lemma empty_community_is_a_server_error:
  assumes "find_row ns_id i tab = Some s" "validate_switch_update b = Some b'" "su_community_ro b = Some (Some '' '')"
    "su_ip b = None"
  shows "fst (update_switch now i b tab) = Inl (Http 500)"
proof -
  have "if_set (optional_text strip 255) (Some (Some '' '')) = Some (Some None)"
    by (simp add: if_set_def optional_text_def strip_def lstrip_def rstrip_def is_space_def)
  then have "su_community_ro b' = Some None" "su_ip b' = None"
    using assms(2) by (auto simp: validate_switch_update_def assms(3,4) if_set_def [of _ None] bind_eq_Some_conv)
  then show ?thesis using assms(1,2) by (simp add: update_switch_def nulls_switch_column_def nulls_def Let_def)
qed

end
