(* ===== verification/Inventory_Races.thy ===== *)
theory Inventory_Races
  imports Inventory_Laws Check_Then_Write
begin

section \<open>The inventory under concurrent requests\<close>

text \<open>
  \<open>app/api/routes/printers.py\<close>, \<open>computers.py\<close> and the relocation in \<open>printer_polling.py\<close>, with the check of a request and its
  commit as two steps. The address of a printer and the hostname of a computer have no unique index, and the server runs
  several workers, so other requests read and commit in between. What a request does with the table it read is the
  route of \<open>Inventory_Api\<close> applied to that table; its commit then inserts the row, or writes to the stored row the
  columns that differ from what it read. (Media players and switches have a unique index: there the database refuses.)
\<close>

subsection \<open>A table with requests under way\<close>

text \<open>A row to insert, or a row as it was read and as it is to be.\<close>

datatype 'r table_write = Add_row 'r | Edit_row 'r 'r

record 'r table_traffic =
  tt_rows :: "'r list"
  tt_flight :: "'r table_write list"

inductive table_race ::
    "('r \<Rightarrow> uid) \<Rightarrow> ('r \<Rightarrow> 'r \<Rightarrow> 'r \<Rightarrow> 'r) \<Rightarrow> ('r list \<Rightarrow> 'r \<Rightarrow> bool) \<Rightarrow> ('r list \<Rightarrow> 'r \<Rightarrow> 'r \<Rightarrow> bool) \<Rightarrow> 'r table_traffic \<Rightarrow> 'r table_traffic \<Rightarrow> bool"
  for rid merge adds edits where
  add_read: "adds (tt_rows w) r \<Longrightarrow> table_race rid merge adds edits w (w\<lparr>tt_flight := Add_row r # tt_flight w\<rparr>)"
| edit_read: "edits (tt_rows w) p new \<Longrightarrow> table_race rid merge adds edits w (w\<lparr>tt_flight := Edit_row p new # tt_flight w\<rparr>)"
| add_commit: "Add_row r \<in> set (tt_flight w) \<Longrightarrow>
    table_race rid merge adds edits w (w\<lparr>tt_rows := tt_rows w @ [r], tt_flight := remove1 (Add_row r) (tt_flight w)\<rparr>)"
| edit_commit: "Edit_row p new \<in> set (tt_flight w) \<Longrightarrow>
    table_race rid merge adds edits w
      (w\<lparr>tt_rows := map (\<lambda>q. if rid q = rid p then merge p new q else q) (tt_rows w), tt_flight := remove1 (Edit_row p new) (tt_flight w)\<rparr>)"
| delete: "table_race rid merge adds edits w (w\<lparr>tt_rows := remove_row rid i (tt_rows w)\<rparr>)"
| lost: "a \<in> set (tt_flight w) \<Longrightarrow> table_race rid merge adds edits w (w\<lparr>tt_flight := remove1 a (tt_flight w)\<rparr>)"

text \<open>The rows that have a key, and those that a request past its check will give it.\<close>

definition row_holders :: "('r \<Rightarrow> uid) \<Rightarrow> ('r \<Rightarrow> 'k option) \<Rightarrow> 'r table_traffic \<Rightarrow> 'k \<Rightarrow> uid set" where
  "row_holders rid key w k = {rid r |r. r \<in> set (tt_rows w) \<and> key r = Some k}"

lemma row_holders_code [code]: "row_holders rid key w k = set (map rid (filter (\<lambda>r. key r = Some k) (tt_rows w)))"
  by (auto simp: row_holders_def)

definition row_coming :: "('r \<Rightarrow> uid) \<Rightarrow> ('r \<Rightarrow> 'k option) \<Rightarrow> ('r \<Rightarrow> 'k option) \<Rightarrow> 'r table_traffic \<Rightarrow> 'k \<Rightarrow> uid set" where
  "row_coming rid key col w k =
     {rid r |r. Add_row r \<in> set (tt_flight w) \<and> key r = Some k}
   \<union> {rid p |p new. Edit_row p new \<in> set (tt_flight w) \<and> col new \<noteq> col p \<and> col new = Some k}"

text \<open>What the routes of one table promise: a check finds the key free, and a commit writes the key's column only when it
  differs from what was read.\<close>

locale checked_table =
  fixes rid :: "'r \<Rightarrow> uid" and key :: "'r \<Rightarrow> 'k option" and col :: "'r \<Rightarrow> 'k option"
    and merge :: "'r \<Rightarrow> 'r \<Rightarrow> 'r \<Rightarrow> 'r" and adds :: "'r list \<Rightarrow> 'r \<Rightarrow> bool" and edits :: "'r list \<Rightarrow> 'r \<Rightarrow> 'r \<Rightarrow> bool"
  assumes adds_free: "adds tab r \<Longrightarrow> key r = Some k \<Longrightarrow> q \<in> set tab \<Longrightarrow> key q \<noteq> Some k"
    and edits_free: "edits tab p new \<Longrightarrow> col new \<noteq> col p \<Longrightarrow> col new = Some k \<Longrightarrow> q \<in> set tab \<Longrightarrow> key q = Some k \<Longrightarrow> rid q = rid p"
    and merge_id: "rid (merge p new q) = rid q"
    and merge_key: "key (merge p new q) = Some k \<Longrightarrow> key q = Some k \<or> (col new \<noteq> col p \<and> col new = Some k)"
begin

lemma commit_announced:
  assumes "table_race rid merge adds edits w w'"
  shows "row_holders rid key w' k \<subseteq> row_holders rid key w k \<union> row_coming rid key col w k"
  using assms
proof cases
  case (edit_commit p new)
  have "rid r \<in> row_holders rid key w k \<union> row_coming rid key col w k" if r: "r \<in> set (tt_rows w')" "key r = Some k" for r
  proof -
    from r(1) obtain q where q: "q \<in> set (tt_rows w)" "r = (if rid q = rid p then merge p new q else q)" unfolding edit_commit(1) by auto
    show ?thesis
    proof (cases "key q = Some k")
      case True
      then have "rid q \<in> row_holders rid key w k" using q(1) by (auto simp: row_holders_def)
      moreover have "rid r = rid q" using q(2) merge_id by simp
      ultimately show ?thesis by simp
    next
      case False
      then have "rid q = rid p" "col new \<noteq> col p" "col new = Some k" using q(2) r(2) merge_key [of p new q k] by (auto split: if_splits)
      then have "rid p \<in> row_coming rid key col w k" using edit_commit(2) unfolding row_coming_def by blast
      moreover have "rid r = rid p" using q(2) \<open>rid q = rid p\<close> merge_id by simp
      ultimately show ?thesis by simp
    qed
  qed
  then show ?thesis unfolding row_holders_def [of rid key w'] by blast
next
  case (add_commit r)
  then show ?thesis by (auto simp: row_holders_def row_coming_def)
qed (auto simp: row_holders_def remove_row_def)

lemma check_refuses:
  assumes "table_race rid merge adds edits w w'" "row_holders rid key w k \<noteq> {}"
  shows "row_coming rid key col w' k \<subseteq> row_coming rid key col w k \<union> row_holders rid key w k"
  using assms(1)
proof cases
  case (add_read r)
  have "key r \<noteq> Some k" using adds_free [OF add_read(2)] assms(2) by (auto simp: row_holders_def)
  then show ?thesis unfolding add_read(1) by (auto simp: row_coming_def)
next
  case (edit_read p new)
  have "rid p \<in> row_holders rid key w k" if "col new \<noteq> col p" "col new = Some k"
    using edits_free [OF edit_read(2) that] assms(2) by (fastforce simp: row_holders_def)
  then show ?thesis unfolding edit_read(1) by (auto simp: row_coming_def)
next
  case (lost a)
  then show ?thesis using set_remove1_subset [of a "tt_flight w"] by (auto simp: row_coming_def)
next
  case (add_commit r)
  then show ?thesis using set_remove1_subset [of "Add_row r" "tt_flight w"] by (auto simp: row_coming_def)
next
  case (edit_commit p new)
  then show ?thesis using set_remove1_subset [of "Edit_row p new" "tt_flight w"] by (auto simp: row_coming_def)
qed (auto simp: row_coming_def)

end

sublocale checked_table \<subseteq> writes: check_then_write "row_holders rid key" "row_coming rid key col" "table_race rid merge adds edits" "\<lambda>_. True"
  by unfold_locales (use commit_announced check_refuses in blast)+

subsection \<open>Printers\<close>

text \<open>The commit of an edit: the columns that differ from the row as loaded. No route edits the type of a printer, how it is
  connected or when it was created.\<close>

definition write_printer :: "printer_row \<Rightarrow> printer_row \<Rightarrow> printer_row \<Rightarrow> printer_row" where
  "write_printer loaded new stored = stored\<lparr>
     pr_store_name := written pr_store_name loaded new stored, pr_model := written pr_model loaded new stored,
     pr_ip := written pr_ip loaded new stored, pr_mac_address := written pr_mac_address loaded new stored,
     pr_mac_status := written pr_mac_status loaded new stored, pr_snmp_community := written pr_snmp_community loaded new stored,
     pr_host_pc := written pr_host_pc loaded new stored, pr_is_online := written pr_is_online loaded new stored,
     pr_status := written pr_status loaded new stored, pr_reason := written pr_reason loaded new stored,
     pr_toner_black := written pr_toner_black loaded new stored, pr_toner_cyan := written pr_toner_cyan loaded new stored,
     pr_toner_magenta := written pr_toner_magenta loaded new stored, pr_toner_yellow := written pr_toner_yellow loaded new stored,
     pr_black_name := written pr_black_name loaded new stored, pr_cyan_name := written pr_cyan_name loaded new stored,
     pr_magenta_name := written pr_magenta_name loaded new stored, pr_yellow_name := written pr_yellow_name loaded new stored,
     pr_toner_updated_at := written pr_toner_updated_at loaded new stored, pr_page_count := written pr_page_count loaded new stored,
     pr_page_count_updated_at := written pr_page_count_updated_at loaded new stored,
     pr_last_polled_at := written pr_last_polled_at loaded new stored,
     px_updated_at := written px_updated_at loaded new stored\<rparr>"

text \<open>A create that passes its check.\<close>

definition printer_adds :: "printer_row list \<Rightarrow> printer_row \<Rightarrow> bool" where
  "printer_adds tab r \<longleftrightarrow> (\<exists>i now body. fst (create_printer i now body tab) = Inr r)"

text \<open>An edit that passes its check, a relocation to an address that is free, and what a poll or the look-up of a MAC address
  writes: anything but the id, the way it is connected and the address.\<close>

definition printer_edits :: "printer_row list \<Rightarrow> printer_row \<Rightarrow> printer_row \<Rightarrow> bool" where
  "printer_edits tab p new \<longleftrightarrow>
     (\<exists>i now body. find_row pr_id i tab = Some p \<and> fst (update_printer now i body tab) = Inr new)
   \<or> (\<exists>matches ip. move_target pr_id pr_ip matches p tab = Some ip \<and> pr_id new = pr_id p \<and> pr_ip new = Some ip)
   \<or> (pr_id new = pr_id p \<and> pr_connection new = pr_connection p \<and> pr_ip new = pr_ip p)"

lemma printer_adds_free:
  assumes "printer_adds tab r" "printer_key r = Some k" "q \<in> set tab"
  shows "printer_key q \<noteq> Some k"
proof -
  obtain i now body b where b: "validate_printer_create body = Some b" "r = new_printer i now b"
      "\<not> (pc_connection b = ''ip'' \<and> truthy (pc_ip b) \<noteq> None \<and> taken pr_ip (pc_ip b) tab)"
    using assms(1) by (auto simp: printer_adds_def create_printer_def Let_def split: option.splits if_splits)
  have k: "pc_connection b = ''ip''" "pc_ip b = Some k" using assms(2) b(2) by (auto simp: printer_key_def new_printer_def split: if_splits)
  then have "truthy (pc_ip b) \<noteq> None" using b(1) by (auto simp: validate_printer_create_def split: bind_splits if_splits)
  then have "\<not> taken pr_ip (Some k) tab" using b(3) k by simp
  then show ?thesis using not_taken [of pr_ip "Some k" tab q] assms(3) by (auto simp: printer_key_def)
qed

lemma edited_printer:
  assumes "find_row pr_id i tab = Some p" "fst (update_printer now i body tab) = Inr new"
  obtains b :: printer_update where "pr_ip new = patched (pu_ip b) (pr_ip p)"
    "\<not> (case pu_ip b of Some (Some ip) \<Rightarrow> taken_by_other pr_id pr_ip (Some ip) i tab | _ \<Rightarrow> False)"
proof (cases "validate_printer_update body")
  case (Some b)
  have "pr_ip (patch_printer now b p) = patched (pu_ip b) (pr_ip p)" by (simp add: patch_printer_def)
  with Some assms show ?thesis by (intro that [of b]) (auto simp: update_printer_def Let_def split: if_splits)
qed (use assms(2) in \<open>simp add: update_printer_def\<close>)

lemma printer_edits_free:
  assumes "printer_edits tab p new" "pr_ip new \<noteq> pr_ip p" "pr_ip new = Some k" "q \<in> set tab" "printer_key q = Some k"
  shows "pr_id q = pr_id p"
  using assms(1) unfolding printer_edits_def
proof (elim disjE exE conjE)
  fix i now body assume p: "find_row pr_id i tab = Some p" and u: "fst (update_printer now i body tab) = Inr new"
  have "pr_id p = i" using find_row_Some [OF p] by simp
  moreover obtain b :: printer_update where b: "pr_ip new = patched (pu_ip b) (pr_ip p)"
      "\<not> (case pu_ip b of Some (Some ip) \<Rightarrow> taken_by_other pr_id pr_ip (Some ip) i tab | _ \<Rightarrow> False)"
    by (rule edited_printer [OF p u])
  moreover have "pu_ip b = Some (Some k)" using b(1) assms(2,3) by (cases "pu_ip b") (simp_all add: patched_def)
  moreover have "pr_ip q = Some k" using assms(5) by (simp add: printer_key_def split: if_splits)
  ultimately show ?thesis using assms(4) not_taken_by_other [of pr_id pr_ip "Some k" i tab q] by auto
next
  fix matches ip assume "move_target pr_id pr_ip matches p tab = Some ip" "pr_id new = pr_id p" "pr_ip new = Some ip"
  then show ?thesis using assms(3-5)
    by (auto simp: move_target_def ip_conflict_def printer_key_def list_ex_iff split: option.splits if_splits)
qed (use assms(2) in simp)

lemma write_printer_sel:
  "pr_id (write_printer p new q) = pr_id q" "pr_connection (write_printer p new q) = pr_connection q"
  "pr_ip (write_printer p new q) = written pr_ip p new q"
  by (simp_all add: write_printer_def)

interpretation printer_table: checked_table pr_id printer_key pr_ip write_printer printer_adds printer_edits
proof (unfold_locales, goal_cases)
  case (1 tab r k q)
  then show ?case by (rule printer_adds_free)
next
  case (2 tab p new k q)
  then show ?case by (rule printer_edits_free)
next
  case (4 p new q k)
  then show ?case by (auto simp: printer_key_def write_printer_sel written_def split: if_splits)
qed (rule write_printer_sel)

text \<open>C13: While exactly one printer polled by address has an address and no request already past its check is about to give it
  away, no other printer gets it, whatever is created, edited, relocated by MAC address, polled and deleted meanwhile, in
  whatever order the requests read and commit.\<close>

theorem held_address_is_not_given_again:
  assumes "row_holders pr_id printer_key w ip = {h}" "row_coming pr_id printer_key pr_ip w ip \<subseteq> {h}"
    and "(\<lambda>a b. table_race pr_id write_printer printer_adds printer_edits a b \<and> h \<in> row_holders pr_id printer_key b ip)\<^sup>*\<^sup>* w w'"
  shows "row_holders pr_id printer_key w' ip = {h} \<and> row_coming pr_id printer_key pr_ip w' ip \<subseteq> {h}"
  using printer_table.writes.sole_holder_stays [OF assms(3) TrueI assms(1,2)] by blast

subsection \<open>Computers\<close>

definition write_computer :: "computer_row \<Rightarrow> computer_row \<Rightarrow> computer_row \<Rightarrow> computer_row" where
  "write_computer loaded new stored = stored\<lparr>
     co_hostname := written co_hostname loaded new stored, co_is_online := written co_is_online loaded new stored,
     co_reachability_reason := written co_reachability_reason loaded new stored,
     co_last_polled_at := written co_last_polled_at loaded new stored, cx_location := written cx_location loaded new stored,
     cx_comment := written cx_comment loaded new stored, cx_updated_at := written cx_updated_at loaded new stored\<rparr>"

definition computer_adds :: "computer_row list \<Rightarrow> computer_row \<Rightarrow> bool" where
  "computer_adds tab r \<longleftrightarrow> (\<exists>i now body. fst (create_computer i now body tab) = Inr r)"

definition computer_edits :: "computer_row list \<Rightarrow> computer_row \<Rightarrow> computer_row \<Rightarrow> bool" where
  "computer_edits tab p new \<longleftrightarrow>
     (\<exists>i now body. find_row co_id i tab = Some p \<and> fst (update_computer_row now i body tab) = Inr new)
   \<or> (co_id new = co_id p \<and> co_hostname new = co_hostname p)"

lemma computer_adds_free:
  assumes "computer_adds tab r" "co_hostname r = h" "q \<in> set tab"
  shows "co_hostname q \<noteq> h"
proof -
  obtain i now body where c: "fst (create_computer i now body tab) = Inr r" using assms(1) unfolding computer_adds_def by blast
  then obtain b where b: "validate_computer_create body = Some b" by (cases "validate_computer_create body") (simp_all add: create_computer_def)
  have free: "\<not> taken co_hostname (cc_hostname b) tab" using b c by (cases "taken co_hostname (cc_hostname b) tab") (simp_all add: create_computer_def)
  have "co_hostname r = cc_hostname b" using b c free by (auto simp: create_computer_def Let_def split: if_splits)
  then show ?thesis using not_taken [OF free assms(3)] assms(2) by simp
qed

lemma edited_computer:
  assumes "find_row co_id i tab = Some p" "fst (update_computer_row now i body tab) = Inr new"
  obtains b :: computer_update and raw where "validate_computer_update raw = Some b"
    "co_hostname new = patched_value (cu_hostname b) (co_hostname p)"
    "\<not> (case cu_hostname b of Some (Some h) \<Rightarrow> h \<noteq> [] \<and> h \<noteq> co_hostname p \<and> taken_by_other co_id co_hostname h i tab | _ \<Rightarrow> False)"
proof (cases "validate_computer_update body")
  case (Some b)
  let ?taken = "case cu_hostname b of Some (Some h) \<Rightarrow> h \<noteq> [] \<and> h \<noteq> co_hostname p \<and> taken_by_other co_id co_hostname h i tab | _ \<Rightarrow> False"
  have free: "\<not> ?taken" using Some assms by (cases ?taken) (simp_all add: update_computer_row_def)
  define row where "row = p\<lparr>co_hostname := patched_value (cu_hostname b) (co_hostname p), cx_location := patched (cu_location b) (cx_location p),
    cx_comment := patched (cu_comment b) (cx_comment p), cx_updated_at := Some now\<rparr>"
  have "fst (update_computer_row now i body tab) = (if nulls (cu_hostname b) \<or> \<not> computer_fits row then Inl (Http 500) else Inr row)"
    using Some assms(1) free unfolding update_computer_row_def row_def Let_def by (simp only: option.case if_False) simp
  then have "new = row" using assms(2) by (simp split: if_splits)
  then show ?thesis by (intro that [of body b] Some free) (simp add: row_def)
qed (use assms(2) in \<open>simp add: update_computer_row_def\<close>)

lemma computer_edits_free:
  assumes "computer_edits tab p new" "co_hostname new \<noteq> co_hostname p" "co_hostname new = h" "q \<in> set tab" "co_hostname q = h"
  shows "co_id q = co_id p"
  using assms(1) unfolding computer_edits_def
proof (elim disjE exE conjE)
  fix i now body assume p: "find_row co_id i tab = Some p" and u: "fst (update_computer_row now i body tab) = Inr new"
  have i: "co_id p = i" using find_row_Some [OF p] by simp
  obtain b :: computer_update and raw where v: "validate_computer_update raw = Some b"
      and new: "co_hostname new = patched_value (cu_hostname b) (co_hostname p)"
      and free: "\<not> (case cu_hostname b of Some (Some h) \<Rightarrow> h \<noteq> [] \<and> h \<noteq> co_hostname p \<and> taken_by_other co_id co_hostname h i tab | _ \<Rightarrow> False)"
    by (rule edited_computer [OF p u])
  have f: "cu_hostname b = Some (Some h)"
    using new assms(2,3) by (auto simp: patched_value_def split: option.splits)
  have "h \<noteq> []" using v f
    by (auto simp: validate_computer_update_def if_set_def unless_null_def required_text_def Let_def split: bind_splits option.splits if_splits)
  then have "\<not> taken_by_other co_id co_hostname h i tab" using free f assms(2,3) by auto
  then show ?thesis using not_taken_by_other [of co_id co_hostname h i tab q] assms(4,5) i by auto
qed (use assms(2) in simp)

lemma write_computer_sel:
  "co_id (write_computer p new q) = co_id q" "co_hostname (write_computer p new q) = written co_hostname p new q"
  by (simp_all add: write_computer_def)

interpretation computer_table: checked_table co_id "Some \<circ> co_hostname" "Some \<circ> co_hostname" write_computer computer_adds computer_edits
proof (unfold_locales, goal_cases)
  case (1 tab r k q)
  then show ?case using computer_adds_free by simp
next
  case (2 tab p new k q)
  then show ?case using computer_edits_free by simp
next
  case (4 p new q k)
  then show ?case by (auto simp: write_computer_sel written_def split: if_splits)
qed (rule write_computer_sel)

lemma held_hostname_is_not_given_again:
  assumes "row_holders co_id (Some \<circ> co_hostname) w name = {h}" "row_coming co_id (Some \<circ> co_hostname) (Some \<circ> co_hostname) w name \<subseteq> {h}"
    and "(\<lambda>a b. table_race co_id write_computer computer_adds computer_edits a b \<and> h \<in> row_holders co_id (Some \<circ> co_hostname) b name)\<^sup>*\<^sup>* w w'"
  shows "row_holders co_id (Some \<circ> co_hostname) w' name = {h}"
  using computer_table.writes.sole_holder_stays [OF assms(3) TrueI assms(1,2)] by blast

subsection \<open>Examples\<close>

definition printer_form :: "string \<Rightarrow> printer_create" where
  "printer_form ip = \<lparr>pc_type = ''laser'', pc_connection = ''ip'', pc_store_name = [65], pc_model = [66], pc_ip = Some ip, pc_mac = None,
     pc_community = ''public'', pc_host_pc = None, pc_black_name = None, pc_cyan_name = None, pc_magenta_name = None, pc_yellow_name = None\<rparr>"

definition printers_at :: "printer_row list \<Rightarrow> printer_row table_write list \<Rightarrow> printer_row table_traffic" where
  "printers_at tab fs = \<lparr>tt_rows = tab, tt_flight = fs\<rparr>"

lemma form_read:
  assumes "fst (create_printer i 5 body tab) = Inr r"
  shows "table_race pr_id write_printer printer_adds printer_edits (printers_at tab fs) (printers_at tab (Add_row r # fs))"
proof -
  have "printer_adds (tt_rows (printers_at tab fs)) r" using assms by (auto simp: printer_adds_def printers_at_def)
  from table_race.add_read [of printer_adds, OF this] show ?thesis by (simp add: printers_at_def)
qed

lemma form_commit:
  "Add_row r \<in> set fs \<Longrightarrow> table_race pr_id write_printer printer_adds printer_edits (printers_at tab fs) (printers_at (tab @ [r]) (remove1 (Add_row r) fs))"
  using table_race.add_commit [of r "printers_at tab fs" pr_id write_printer printer_adds printer_edits] by (simp add: printers_at_def)

definition first_printer :: printer_row where
  "first_printer = new_printer ''p1'' 5 (printer_form ''10.0.0.5'')"

definition second_printer :: "string \<Rightarrow> printer_row" where
  "second_printer ip = new_printer ''p2'' 5 (printer_form ip)"

lemma sample_printer_sel [simp]:
  "pr_id first_printer = ''p1''" "pr_id (second_printer ip) = ''p2''" "printer_key first_printer = Some ''10.0.0.5''"
  "printer_key (second_printer ip) = Some ip"
  by (simp_all add: first_printer_def second_printer_def new_printer_def printer_form_def printer_key_def)

lemma sample_addresses: "validate_ip_address ''10.0.0.5'' = Some ''10.0.0.5''" "validate_ip_address ''10.0.0.6'' = Some ''10.0.0.6''"
  by code_simp+

lemma sample_form:
  "validate_ip_address ip = Some ip \<Longrightarrow> ip \<noteq> [] \<Longrightarrow> validate_printer_create (printer_form ip) = Some (printer_form ip)"
  by (simp add: validate_printer_create_def printer_form_def word_in_def required_text_def optional_text_def unless_null_def validate_mac_def
      u_strip_def u_is_space_def truthy_def Let_def)

lemma sample_creates:
  "fst (create_printer ''p2'' 5 (printer_form ''10.0.0.6'') [first_printer]) = Inr (second_printer ''10.0.0.6'')"
  "fst (create_printer ''p1'' 5 (printer_form ''10.0.0.5'') []) = Inr first_printer"
  "fst (create_printer ''p2'' 5 (printer_form ''10.0.0.5'') []) = Inr (second_printer ''10.0.0.5'')"
  by (simp_all add: create_printer_def sample_form sample_addresses taken_def first_printer_def second_printer_def Let_def)
    (simp_all add: new_printer_def printer_form_def)

theorem held_address_is_not_given_again_witness:
  "row_holders pr_id printer_key (printers_at [first_printer, second_printer ''10.0.0.6''] []) ''10.0.0.5'' = {''p1''}"
proof -
  let ?run = "\<lambda>a b. table_race pr_id write_printer printer_adds printer_edits a b \<and> ''p1'' \<in> row_holders pr_id printer_key b ''10.0.0.5''"
  have s1: "?run (printers_at [first_printer] []) (printers_at [first_printer] [Add_row (second_printer ''10.0.0.6'')])"
    using form_read [OF sample_creates(1), of "[]"] by (simp add: row_holders_def printers_at_def)
  have s2: "?run (printers_at [first_printer] [Add_row (second_printer ''10.0.0.6'')]) (printers_at [first_printer, second_printer ''10.0.0.6''] [])"
    using form_commit [of "second_printer ''10.0.0.6''" "[Add_row (second_printer ''10.0.0.6'')]" "[first_printer]"]
    by (simp add: row_holders_code printers_at_def)
  have start: "row_holders pr_id printer_key (printers_at [first_printer] []) ''10.0.0.5'' = {''p1''}"
      "row_coming pr_id printer_key pr_ip (printers_at [first_printer] []) ''10.0.0.5'' \<subseteq> {''p1''}"
    by (simp_all add: row_holders_def row_coming_def printers_at_def)
  show ?thesis
    using held_address_is_not_given_again [OF start rtranclp_trans [OF r_into_rtranclp [of ?run, OF s1] r_into_rtranclp [of ?run, OF s2]]] by blast
qed

text \<open>Two creates that both check before either commits: two printers with one address.\<close>

lemma concurrent_creates_share_an_address:
  "(table_race pr_id write_printer printer_adds printer_edits)\<^sup>*\<^sup>* (printers_at [] [])
     (printers_at [first_printer, second_printer ''10.0.0.5''] [])"
  "row_holders pr_id printer_key (printers_at [first_printer, second_printer ''10.0.0.5''] []) ''10.0.0.5'' = {''p1'', ''p2''}"
proof -
  let ?race = "table_race pr_id write_printer printer_adds printer_edits" and ?a = "Add_row first_printer" and ?b = "Add_row (second_printer ''10.0.0.5'')"
  have "?race (printers_at [] []) (printers_at [] [?a])" by (rule form_read [OF sample_creates(2)])
  moreover have "?race (printers_at [] [?a]) (printers_at [] [?b, ?a])" by (rule form_read [OF sample_creates(3)])
  moreover have "?race (printers_at [] [?b, ?a]) (printers_at [first_printer] [?b])"
  proof -
    have "pr_id first_printer \<noteq> pr_id (second_printer ''10.0.0.5'')" by simp
    then have "second_printer ''10.0.0.5'' \<noteq> first_printer" by metis
    then have "?b \<noteq> ?a" by simp
    then show ?thesis using form_commit [of first_printer "[?b, ?a]" "[]"] by simp
  qed
  moreover have "?race (printers_at [first_printer] [?b]) (printers_at [first_printer, second_printer ''10.0.0.5''] [])"
    using form_commit [of "second_printer ''10.0.0.5''" "[?b]" "[first_printer]"] by simp
  ultimately show "?race\<^sup>*\<^sup>* (printers_at [] []) (printers_at [first_printer, second_printer ''10.0.0.5''] [])" by force
  show "row_holders pr_id printer_key (printers_at [first_printer, second_printer ''10.0.0.5''] []) ''10.0.0.5'' = {''p1'', ''p2''}"
    by (simp add: row_holders_code printers_at_def)
qed

end
