(* ===== verification/Printer_Snmp.thy ===== *)
theory Printer_Snmp
  imports Printer_Polling Toner_Forecast Regex "HOL-Library.Monad_Syntax"
begin

section \<open>Reading a printer's toner (services/snmp)\<close>

text \<open>
  The full and the light poll of one printer: the standard printer MIB, the proprietary tables of Ricoh and
  Brother, and the scraping of HP's web panel. The device is an argument: what it answers to an SNMP GET and to a
  WALK of an OID, whether one of its TCP ports is open, and what its web server answers. The XML parser and the
  UTF-8 decoder are arguments too. Texts are lists of code points; word characters are those of Latin-1 and
  of the letters up to the Cyrillic block, digits are the ASCII ones, and a quotient of floats is the exact rational.
\<close>

subsection \<open>Texts\<close>

definition u_digit :: "nat \<Rightarrow> bool" where
  "u_digit n \<longleftrightarrow> 48 \<le> n \<and> n \<le> 57"

definition u_word_cp :: "nat \<Rightarrow> bool" where
  "u_word_cp n \<longleftrightarrow> (if n < 256 then word_char (char_of n) else n \<le> 1327)"

definition u_int :: "ustr \<Rightarrow> int option" where
  "u_int s = (if list_all (\<lambda>n. n < 256) s then py_int (map char_of s) else None)"

text \<open>\<open>\d+w\b\<close> found anywhere, ignoring case: a digit, the letters, and the end of a word.\<close>

fun suffix_after_digit :: "ustr \<Rightarrow> ustr \<Rightarrow> bool" where
  "suffix_after_digit w [] = False"
| "suffix_after_digit w (c # cs) =
     ((u_digit c \<and> u_lower (take (length w) cs) = w \<and> (case drop (length w) cs of [] \<Rightarrow> True | x # xs \<Rightarrow> \<not> u_word_cp x))
      \<or> suffix_after_digit w cs)"

subsection \<open>Supplies: colour, kind, vendor (helpers.py, oids.py)\<close>

definition color_keywords :: "(ustr \<times> string) list" where
  "color_keywords =
     [(cp ''black'', ''black''), (cp ''cyan'', ''cyan''), (cp ''magenta'', ''magenta''), (cp ''yellow'', ''yellow''),
      (cp ''photo black'', ''black''), (cp ''matte black'', ''black''),
      (cp '' bk '', ''black''), (cp ''-bk '', ''black''), (cp '' bk'' @ [10], ''black''), (cp '' k '', ''black''), (cp '' c '', ''cyan''),
      (cp '' m '', ''magenta''), (cp '' y '', ''yellow''),
      (cp ''schwarz'', ''black''), (cp ''gelb'', ''yellow''), (cp ''noir'', ''black''), (cp ''jaune'', ''yellow''),
      ([1095, 1105, 1088, 1085, 1099, 1081], ''black''), ([1095, 1077, 1088, 1085, 1099, 1081], ''black''),
      ([1075, 1086, 1083, 1091, 1073, 1086, 1081], ''cyan''), ([1087, 1091, 1088, 1087, 1091, 1088, 1085, 1099, 1081], ''magenta''),
      ([1084, 1072, 1083, 1080, 1085, 1086, 1074, 1099, 1081], ''magenta''), ([1078, 1105, 1083, 1090, 1099, 1081], ''yellow''),
      ([1078, 1077, 1083, 1090, 1099, 1081], ''yellow'')]"

definition suffix_colors :: "(ustr \<times> string) list" where
  "suffix_colors = [(cp ''bk'', ''black''), (cp ''k'', ''black''), (cp ''c'', ''cyan''), (cp ''m'', ''magenta''), (cp ''y'', ''yellow'')]"

definition detect_color :: "ustr \<Rightarrow> string option" where
  "detect_color description =
     (case find (\<lambda>(w, _). contains w ([32] @ u_lower description @ [32])) color_keywords of
        Some (_, color) \<Rightarrow> Some color
      | None \<Rightarrow> map_option snd (find (\<lambda>(w, _). suffix_after_digit w description) suffix_colors))"

definition non_toner_keywords :: "ustr list" where
  "non_toner_keywords = map cp [''drum'', ''kit'', ''maintenance'', ''fuser'', ''waste'', ''belt'', ''transfer'', ''roller'', ''cleaner'', ''filter'']"

definition non_consumable_types :: "int list" where
  "non_consumable_types = [4, 8, 9, 11, 14, 15, 16, 17, 18, 19, 20]"

definition is_toner_supply :: "ustr \<Rightarrow> int option \<Rightarrow> bool" where
  "is_toner_supply description supply_type =
     (if list_ex (\<lambda>w. contains w (u_lower description)) non_toner_keywords then False
      else (case supply_type of None \<Rightarrow> True | Some t \<Rightarrow> t = 0 \<or> t \<notin> set non_consumable_types))"

text \<open>\<open>\bhp\b\<close> found anywhere; the first argument is the character before.\<close>

fun hp_word :: "bool \<Rightarrow> ustr \<Rightarrow> bool" where
  "hp_word prev [] = False"
| "hp_word prev (c # cs) =
     ((\<not> prev \<and> take 2 (c # cs) = cp ''hp'' \<and> (case drop 1 cs of [] \<Rightarrow> True | x # xs \<Rightarrow> \<not> u_word_cp x)) \<or> hp_word (u_word_cp c) cs)"

definition detect_vendor :: "ustr \<Rightarrow> string option" where
  "detect_vendor sys_descr =
     (let d = u_lower sys_descr; has = (\<lambda>w. contains (cp w) d)
      in if has ''brother'' then Some ''brother''
         else if has ''hewlett'' \<or> hp_word False d \<or> has ''laserjet'' \<or> has ''officejet'' then Some ''hp''
         else if has ''ricoh'' \<or> has ''aficio'' \<or> has ''savin'' \<or> has ''gestetner'' \<or> has ''lanier'' then Some ''ricoh''
         else if has ''kyocera'' \<or> has ''mita'' then Some ''kyocera''
         else if has ''canon'' then Some ''canon''
         else if has ''xerox'' then Some ''xerox''
         else if has ''lexmark'' then Some ''lexmark''
         else if has ''epson'' then Some ''epson''
         else if has ''samsung'' then Some ''samsung''
         else if has ''oki'' \<or> has ''okidata'' then Some ''oki''
         else if has ''konica'' \<or> has ''minolta'' \<or> has ''bizhub'' then Some ''konica''
         else None)"

text \<open>\<open>rsplit('.', 2)\<close>: the last two segments of an OID, or the last.\<close>

definition extract_supply_key :: "string \<Rightarrow> string" where
  "extract_supply_key oid =
     (let ps = split_on (CHR ''.'') oid
      in if 3 \<le> length ps then ps ! (length ps - 2) @ ''.'' @ last ps else last ps)"

record toner_level =
  tl_description :: ustr
  tl_color :: "string option"
  tl_level_pct :: "int option"
  tl_max_capacity :: int
  tl_current_level :: int

subsection \<open>The strategies (toner_strategies.py)\<close>

record snmp_device =
  sn_get :: "string \<Rightarrow> ustr option"
  sn_walk :: "string \<Rightarrow> (string \<times> ustr) list"

definition OID_MARKER_DESCR :: string where "OID_MARKER_DESCR = ''1.3.6.1.2.1.43.11.1.1.6''"
definition OID_MARKER_TYPE :: string where "OID_MARKER_TYPE = ''1.3.6.1.2.1.43.11.1.1.5''"
definition OID_MARKER_MAX :: string where "OID_MARKER_MAX = ''1.3.6.1.2.1.43.11.1.1.8''"
definition OID_MARKER_LEVEL :: string where "OID_MARKER_LEVEL = ''1.3.6.1.2.1.43.11.1.1.9''"
definition OID_MARKER_COLORANT_IDX :: string where "OID_MARKER_COLORANT_IDX = ''1.3.6.1.2.1.43.11.1.1.3''"
definition OID_COLORANT_VALUE :: string where "OID_COLORANT_VALUE = ''1.3.6.1.2.1.43.12.1.1.4''"
definition OID_MARKER_LIFE_COUNT :: string where "OID_MARKER_LIFE_COUNT = ''1.3.6.1.2.1.43.10.2.1.4''"
definition BROTHER_TONER_BASE :: string where "BROTHER_TONER_BASE = ''1.3.6.1.4.1.2435.2.3.9.4.2.1.5.5.10.0.1''"
definition RICOH_SUPPLY_LEVEL :: string where "RICOH_SUPPLY_LEVEL = ''1.3.6.1.4.1.367.3.2.1.2.24.1.1.5''"
definition RICOH_SUPPLY_DESCR :: string where "RICOH_SUPPLY_DESCR = ''1.3.6.1.4.1.367.3.2.1.2.24.1.1.3''"
definition OID_SYS_DESCR :: string where "OID_SYS_DESCR = ''1.3.6.1.2.1.1.1.0''"
definition OID_PRINTER_STATUS_BASE :: string where "OID_PRINTER_STATUS_BASE = ''1.3.6.1.2.1.25.3.5.1.1''"

text \<open>Some printers answer a GET but not a WALK.\<close>

definition descriptions_by_get :: "snmp_device \<Rightarrow> nat \<Rightarrow> (string \<times> ustr) list" where
  "descriptions_by_get dev device_index =
     List.map_filter (\<lambda>k. let oid = OID_MARKER_DESCR @ ''.'' @ show_nat device_index @ ''.'' @ show_nat k
        in case sn_get dev oid of None \<Rightarrow> None | Some v \<Rightarrow> if u_strip v \<noteq> [] then Some (oid, v) else None) [1..<9]"

definition marker_descriptions :: "snmp_device \<Rightarrow> (string \<times> ustr) list" where
  "marker_descriptions dev =
     (let walked = sn_walk dev OID_MARKER_DESCR
      in if walked \<noteq> [] then walked
         else if descriptions_by_get dev 1 \<noteq> [] then descriptions_by_get dev 1 else descriptions_by_get dev 2)"

definition gets :: "snmp_device \<Rightarrow> string \<Rightarrow> (string \<times> ustr) list \<Rightarrow> (string \<times> ustr) list" where
  "gets dev base descriptions =
     List.map_filter (\<lambda>(oid, _). let o' = base @ ''.'' @ extract_supply_key oid in map_option (Pair o') (sn_get dev o')) descriptions"

definition by_key :: "(string \<times> ustr) list \<Rightarrow> string \<rightharpoonup> ustr" where
  "by_key rows = map_of (rev (map (\<lambda>(oid, v). (extract_supply_key oid, v)) rows))"

definition int_at :: "(string \<rightharpoonup> ustr) \<Rightarrow> string \<Rightarrow> int" where
  "int_at m key = (case m key of None \<Rightarrow> 0 | Some v \<Rightarrow> (case u_int v of None \<Rightarrow> 0 | Some n \<Rightarrow> n))"

definition clamp_pct :: "int \<Rightarrow> int" where
  "clamp_pct n = max 0 (min 100 n)"

definition level_pct :: "int \<Rightarrow> int \<Rightarrow> int option" where
  "level_pct cur_val max_val =
     (if cur_val = -3 then Some (-3)
      else if cur_val < 0 then Some (-2)
      else if 0 < max_val then Some (clamp_pct (round_half_even (of_int cur_val / of_int max_val * 100)))
      else None)"

definition colorants :: "(string \<times> ustr) list \<Rightarrow> string \<rightharpoonup> ustr" where
  "colorants rows = map_of (rev (map (\<lambda>(oid, v). (extract_supply_key oid, u_strip (u_lower v)))
     (filter (\<lambda>(oid, _). 3 \<le> length (split_on (CHR ''.'') oid)) rows)))"

text \<open>The further test of the source for the four plain names cannot succeed: \<open>detect_color\<close> finds them.\<close>

definition color_by_colorant :: "(string \<rightharpoonup> ustr) \<Rightarrow> (string \<rightharpoonup> ustr) \<Rightarrow> string \<Rightarrow> string option" where
  "color_by_colorant index_map colorant_by_idx key =
     (let device_idx = (if CHR ''.'' \<in> set key then hd (split_on (CHR ''.'') key) else ''1'')
      in case Option.bind (index_map key) (\<lambda>ci. truthy (Some ci)) of
           None \<Rightarrow> None
         | Some ci \<Rightarrow>
             if list_all (\<lambda>n. n < 256) ci
             then Option.bind (Option.bind (colorant_by_idx (device_idx @ ''.'' @ map char_of ci)) (\<lambda>c. truthy (Some c))) detect_color
             else None)"

definition or_some :: "'a option \<Rightarrow> 'a option \<Rightarrow> 'a option" where
  "or_some a b = (case a of None \<Rightarrow> b | Some x \<Rightarrow> Some x)"

definition standard_toner ::
  "nat \<Rightarrow> (string \<rightharpoonup> ustr) \<Rightarrow> (string \<rightharpoonup> ustr) \<Rightarrow> (string \<rightharpoonup> ustr) \<Rightarrow> (string \<Rightarrow> string option) \<Rightarrow> string \<times> ustr \<Rightarrow> toner_level option" where
  "standard_toner n types maxs levels colorant = (\<lambda>(oid, desc).
     (let key = extract_supply_key oid
      in if \<not> is_toner_supply desc (Option.bind (types key) u_int) then None
         else Some \<lparr>tl_description = desc,
                    tl_color = or_some (or_some (detect_color desc) (colorant key)) (if n = 1 then Some ''black'' else None),
                    tl_level_pct = level_pct (int_at levels key) (int_at maxs key),
                    tl_max_capacity = int_at maxs key, tl_current_level = int_at levels key\<rparr>))"

definition get_standard_toners :: "snmp_device \<Rightarrow> toner_level list" where
  "get_standard_toners dev =
     (let descriptions = marker_descriptions dev;
          walked = sn_walk dev OID_MARKER_LEVEL;
          rows = (\<lambda>base. sn_walk dev base @ (if walked = [] then gets dev base descriptions else []));
          colorant = color_by_colorant (by_key (sn_walk dev OID_MARKER_COLORANT_IDX)) (colorants (sn_walk dev OID_COLORANT_VALUE))
      in List.map_filter
           (standard_toner (length descriptions) (by_key (rows OID_MARKER_TYPE)) (by_key (rows OID_MARKER_MAX)) (by_key (rows OID_MARKER_LEVEL)) colorant)
           descriptions)"

definition color_text :: "string option \<Rightarrow> ustr" where
  "color_text color = cp (case color of None \<Rightarrow> ''unknown'' | Some c \<Rightarrow> c) @ cp '' toner''"

definition last_segment :: "string \<Rightarrow> string" where
  "last_segment oid = last (split_on (CHR ''.'') oid)"

definition brother_colors :: "(string \<times> string) list" where
  "brother_colors = [(''1'', ''black''), (''2'', ''cyan''), (''3'', ''magenta''), (''4'', ''yellow'')]"

definition get_brother_toners :: "snmp_device \<Rightarrow> toner_level list" where
  "get_brother_toners dev =
     map (\<lambda>(oid, v). let color = map_of brother_colors (last_segment oid); pct = map_option clamp_pct (u_int v)
       in \<lparr>tl_description = color_text color, tl_color = color, tl_level_pct = pct, tl_max_capacity = 100,
          tl_current_level = (case pct of None \<Rightarrow> 0 | Some n \<Rightarrow> n)\<rparr>)
     (sn_walk dev BROTHER_TONER_BASE)"

definition ricoh_toner :: "nat \<Rightarrow> (string \<rightharpoonup> ustr) \<Rightarrow> string \<times> ustr \<Rightarrow> toner_level option" where
  "ricoh_toner n descriptions = (\<lambda>(oid, v).
     (case u_int v of
        None \<Rightarrow> None
      | Some raw \<Rightarrow>
          (let desc = (case descriptions (last_segment oid) of None \<Rightarrow> [] | Some d \<Rightarrow> d);
               color = or_some (detect_color desc) (if n = 1 then Some ''black'' else None)
           in Some \<lparr>tl_description = (if desc \<noteq> [] then desc else color_text color), tl_color = color,
                tl_level_pct = Some (if raw = -3 then -3 else if raw < 0 then -2 else clamp_pct raw), tl_max_capacity = 100,
                tl_current_level = (if 0 \<le> raw then raw else 0)\<rparr>)))"

definition get_ricoh_toners :: "snmp_device \<Rightarrow> toner_level list \<Rightarrow> toner_level list" where
  "get_ricoh_toners dev standard =
     (let levels = sn_walk dev RICOH_SUPPLY_LEVEL;
          descriptions = map_of (rev (map (\<lambda>(oid, v). (last_segment oid, v)) (sn_walk dev RICOH_SUPPLY_DESCR)));
          toners = List.map_filter (ricoh_toner (length levels) descriptions) levels
      in if levels = [] then standard
         else if list_ex (\<lambda>t. case tl_level_pct t of None \<Rightarrow> False | Some n \<Rightarrow> 0 \<le> n) toners then toners
         else standard)"

subsection \<open>HP's web panel (http_scrape.py)\<close>

text \<open>What a request ends in. \<open>Partial\<close> is IncompleteRead raised outside the reading loop; inside it the bytes so far
  count as the body.\<close>

datatype http_end = Body string | Partial string | Http_status nat | Url_error | Other_exception

definition http_get :: "(string \<Rightarrow> http_end) \<Rightarrow> string option" where
  "http_get request =
     (let https = (case request ''https'' of
            Body d \<Rightarrow> truthy (Some d)
          | Partial d \<Rightarrow> if 500 < length d then Some d else None
          | _ \<Rightarrow> None)
      in case request ''http'' of
           Body d \<Rightarrow> (case truthy (Some d) of Some x \<Rightarrow> Some x | None \<Rightarrow> https)
         | Partial d \<Rightarrow> if 500 < length d then Some d else https
         | Http_status code \<Rightarrow> if code \<in> {301, 302, 308} then https else None
         | Url_error \<Rightarrow> https
         | Other_exception \<Rightarrow> https)"

text \<open>An element of an XML document: tag, text before the first child, children.\<close>

datatype xml = Xml ustr "ustr option" "xml list"

fun xml_iter :: "xml \<Rightarrow> xml list" where
  "xml_iter (Xml tag text cs) = Xml tag text cs # concat (map xml_iter cs)"

fun xml_tag :: "xml \<Rightarrow> ustr" where
  "xml_tag (Xml tag text cs) = rev (takeWhile (\<lambda>c. c \<noteq> 125) (rev tag))"

fun xml_text :: "xml \<Rightarrow> ustr" where
  "xml_text (Xml tag text cs) = u_strip (case text of None \<Rightarrow> [] | Some t \<Rightarrow> t)"

definition plain_colors :: "string list" where
  "plain_colors = [''black'', ''cyan'', ''magenta'', ''yellow'']"

record consumable =
  cs_color :: "string option"
  cs_pct :: "int option"
  cs_desc :: ustr
  cs_is :: bool

definition read_consumable_field :: "consumable \<Rightarrow> xml \<Rightarrow> consumable" where
  "read_consumable_field s e =
     (let tag = xml_tag e; txt = xml_text e; low = u_lower txt
      in if txt = [] then s
         else if tag = cp ''ConsumableLabelCode'' then
           (case find (\<lambda>c. low = cp c) plain_colors of
              Some c \<Rightarrow> s\<lparr>cs_color := Some c, cs_is := True\<rparr>
            | None \<Rightarrow> if contains (cp ''black'') low then s\<lparr>cs_color := Some ''black'', cs_is := True\<rparr> else s)
         else if tag = cp ''MarkerColor'' then
           (if cs_color s \<noteq> None then s
            else (case find (\<lambda>c. contains (cp c) low) plain_colors of
                    Some c \<Rightarrow> s\<lparr>cs_color := Some c, cs_is := True\<rparr> | None \<Rightarrow> s))
         else if tag = cp ''ConsumablePercentageLevelRemaining'' then
           (case u_int txt of Some n \<Rightarrow> s\<lparr>cs_pct := Some (clamp_pct n)\<rparr> | None \<Rightarrow> s)
         else if tag = cp ''ConsumableTypeEnum'' \<or> tag = cp ''ConsumableType'' then
           (if list_ex (\<lambda>w. contains (cp w) low) [''ink'', ''toner'', ''colorant'', ''printcolorant''] then s\<lparr>cs_is := True\<rparr> else s)
         else if tag = cp ''ProductNumber'' then s\<lparr>cs_desc := txt\<rparr> else s)"

definition consumable_toner :: "xml \<Rightarrow> toner_level option" where
  "consumable_toner e =
     (let s = fold (\<lambda>c s. read_consumable_field s c) (xml_iter e) \<lparr>cs_color = None, cs_pct = None, cs_desc = [], cs_is = False\<rparr>
      in case (cs_is s, cs_pct s, cs_color s) of
           (True, Some pct, Some color) \<Rightarrow>
             Some \<lparr>tl_description = (if cs_desc s \<noteq> [] then cs_desc s else color_text (Some color)), tl_color = Some color,
                   tl_level_pct = Some pct, tl_max_capacity = 100, tl_current_level = pct\<rparr>
         | _ \<Rightarrow> None)"

definition parse_hp_consumable_xml :: "xml option \<Rightarrow> toner_level list" where
  "parse_hp_consumable_xml doc =
     (case doc of None \<Rightarrow> []
      | Some r \<Rightarrow> List.map_filter (\<lambda>e. if xml_tag e = cp ''ConsumableInfo'' then consumable_toner e else None) (xml_iter r))"

text \<open>\<open>(\d{1,n})\s*%\<close> here: the number and what follows. A shorter run of digits would be followed by a digit.\<close>

definition pct_at :: "nat \<Rightarrow> ustr \<Rightarrow> (int \<times> ustr) option" where
  "pct_at n s =
     (let ds = takeWhile u_digit s
      in if ds = [] \<or> n < length ds then None
         else (case dropWhile u_is_space (dropWhile u_digit s) of
                 [] \<Rightarrow> None
               | c # r \<Rightarrow> if c = 37 then Some (fold (\<lambda>d v. v * 10 + (int d - 48)) ds 0, r) else None))"

text \<open>\<open>.{0,n}?\<close> and then \<open>f\<close>: the nearest place at which \<open>f\<close> matches.\<close>

fun lazily :: "nat \<Rightarrow> (ustr \<Rightarrow> 'a option) \<Rightarrow> ustr \<Rightarrow> 'a option" where
  "lazily 0 f s = f s"
| "lazily (Suc n) f s = (case f s of Some x \<Rightarrow> Some x | None \<Rightarrow> (case s of [] \<Rightarrow> None | c # cs \<Rightarrow> lazily n f cs))"

definition after_word :: "ustr \<Rightarrow> ustr \<Rightarrow> ustr option" where
  "after_word w s = (if u_lower (take (length w) s) = w then Some (drop (length w) s) else None)"

text \<open>\<open><img\s+src="(Black|Cyan|Magenta|Yellow)_Toner\.gif".*?(\d+)\s*%\<close>, ignoring case.\<close>

definition gif_toner :: "ustr \<Rightarrow> ((string \<times> int) \<times> ustr) option" where
  "gif_toner s = do {
     r1 \<leftarrow> after_word (cp ''<img'') s;
     r2 \<leftarrow> (if r1 \<noteq> [] \<and> u_is_space (hd r1) then Some (dropWhile u_is_space r1) else None);
     r3 \<leftarrow> after_word (cp ''src='' @ [34]) r2;
     (color, r4) \<leftarrow> Option.bind (find (\<lambda>c. after_word (cp c) r3 \<noteq> None) plain_colors) (\<lambda>c. map_option (Pair c) (after_word (cp c) r3));
     r5 \<leftarrow> after_word (cp ''_toner.gif'' @ [34]) r4;
     map_option (\<lambda>(pct, rest). ((color, pct), rest)) (lazily (length r5) (pct_at (length r5)) r5) }"

definition word_stems :: "(ustr \<times> string) list" where
  "word_stems = [([1095, 1077, 1088, 1085], ''black''), ([1075, 1086, 1083, 1091, 1073], ''cyan''),
     ([1087, 1091, 1088, 1087, 1091, 1088, 1085], ''magenta''), ([1084, 1072, 1083, 1080, 1085, 1086, 1074], ''magenta''),
     ([1078, 1077, 1083, 1090], ''yellow'')]"

text \<open>A colour, then one to 300 characters, as few as possible, then a percentage. After a Russian stem the word's
  other letters are read first, and given back one by one when no percentage follows.\<close>

definition pct_within :: "ustr \<Rightarrow> (int \<times> ustr) option" where
  "pct_within s = (case s of [] \<Rightarrow> None | c # cs \<Rightarrow> lazily 299 (pct_at 3) cs)"

fun giving_back :: "nat \<Rightarrow> ustr \<Rightarrow> (int \<times> ustr) option" where
  "giving_back 0 s = pct_within s"
| "giving_back (Suc n) s = (case pct_within (drop (Suc n) s) of Some x \<Rightarrow> Some x | None \<Rightarrow> giving_back n s)"

fun first_of :: "('a \<Rightarrow> 'b option) \<Rightarrow> 'a list \<Rightarrow> 'b option" where
  "first_of f [] = None"
| "first_of f (x # xs) = (case f x of Some y \<Rightarrow> Some y | None \<Rightarrow> first_of f xs)"

definition color_pct :: "ustr \<Rightarrow> ((string \<times> int) \<times> ustr) option" where
  "color_pct s =
     or_some
       (first_of (\<lambda>c. Option.bind (after_word (cp c) s) (\<lambda>r. map_option (\<lambda>(pct, rest). ((c, pct), rest)) (pct_within r))) plain_colors)
       (first_of (\<lambda>(w, c). Option.bind (after_word w s)
           (\<lambda>r. map_option (\<lambda>(pct, rest). ((c, pct), rest)) (giving_back (length (takeWhile u_word_cp r)) r))) word_stems)"

text \<open>\<open>finditer\<close>: matches from the left that do not overlap.\<close>

function find_all :: "(ustr \<Rightarrow> ('a \<times> ustr) option) \<Rightarrow> ustr \<Rightarrow> 'a list" where
  "find_all m [] = []"
| "find_all m (c # cs) =
     (case m (c # cs) of
        None \<Rightarrow> find_all m cs
      | Some (x, rest) \<Rightarrow> x # (if length rest \<le> length cs then find_all m rest else []))"
  by pat_completeness auto
termination
  by (relation "measure (\<lambda>(m, s). length s)") auto

definition html_toner :: "string \<Rightarrow> int \<Rightarrow> toner_level" where
  "html_toner color pct = \<lparr>tl_description = cp color @ cp '' cartridge'', tl_color = Some color, tl_level_pct = Some pct,
     tl_max_capacity = 100, tl_current_level = pct\<rparr>"

text \<open>The first reading of a colour counts.\<close>

definition first_per_color :: "(string \<times> int) list \<Rightarrow> (string \<times> int) list" where
  "first_per_color xs = foldl (\<lambda>acc (c, pct). if c \<in> set (map fst acc) then acc else acc @ [(c, pct)]) [] xs"

definition parse_hp_supplies_html :: "ustr \<Rightarrow> toner_level list" where
  "parse_hp_supplies_html text =
     (let gifs = first_per_color (find_all gif_toner text)
      in if gifs \<noteq> [] then map (\<lambda>(c, pct). html_toner c (clamp_pct pct)) gifs
         else map (\<lambda>(c, pct). html_toner c pct) (first_per_color (filter (\<lambda>(c, pct). pct \<le> 100) (find_all color_pct text))))"

record web_panel =
  wp_request :: "string \<Rightarrow> string \<Rightarrow> http_end"
  wp_parse_xml :: "string \<Rightarrow> xml option"
  wp_decode :: "string \<Rightarrow> ustr"

definition toners_in_page :: "web_panel \<Rightarrow> string \<Rightarrow> toner_level list" where
  "toners_in_page web data =
     (let low = lower data;
          by_xml = (if CHR ''<'' \<in> set (take 100 data) \<and> (contains ''ConsumableInfo'' data \<or> contains ''consumable'' low)
                    then parse_hp_consumable_xml (wp_parse_xml web data) else [])
      in if by_xml \<noteq> [] then by_xml
         else if contains ''Toner.gif'' data \<or> contains ''toner'' low \<or> contains ''cartridge'' low
         then parse_hp_supplies_html (wp_decode web data) else [])"

fun first_page :: "web_panel \<Rightarrow> string list \<Rightarrow> toner_level list" where
  "first_page web [] = []"
| "first_page web (path # paths) =
     (case http_get (\<lambda>scheme. wp_request web scheme path) of
        None \<Rightarrow> first_page web paths
      | Some data \<Rightarrow> if toners_in_page web data \<noteq> [] then toners_in_page web data else first_page web paths)"

definition get_toners_via_http :: "web_panel \<Rightarrow> toner_level list" where
  "get_toners_via_http web = first_page web [''/DevMgmt/ConsumableConfigDyn.xml'', ''/info_suppliesStatus.html'']"

subsection \<open>The polls (poller.py)\<close>

record printer_device =
  pd_snmp :: "snmp_device option"
  pd_tcp :: bool
  pd_web :: web_panel

text \<open>The status the printer poller reads, with the other fields of the source's dataclass.\<close>

record snmp_status = printer_status +
  ss_toners :: "toner_level list"
  ss_sys_description :: "ustr option"
  ss_vendor :: "string option"

definition down_status :: "string \<Rightarrow> snmp_status" where
  "down_status status = \<lparr>st_is_online = False, st_status = status, st_toner_black = None, st_toner_cyan = None, st_toner_magenta = None,
     st_toner_yellow = None, st_page_count = None, ss_toners = [], ss_sys_description = None, ss_vendor = None\<rparr>"

definition store_toner :: "toner_level \<Rightarrow> snmp_status \<Rightarrow> snmp_status" where
  "store_toner t s =
     (if tl_color t = Some ''black'' then s\<lparr>st_toner_black := tl_level_pct t\<rparr>
      else if tl_color t = Some ''cyan'' then s\<lparr>st_toner_cyan := tl_level_pct t\<rparr>
      else if tl_color t = Some ''magenta'' then s\<lparr>st_toner_magenta := tl_level_pct t\<rparr>
      else if tl_color t = Some ''yellow'' then s\<lparr>st_toner_yellow := tl_level_pct t\<rparr> else s)"

definition printer_status_map :: "(int \<times> string) list" where
  "printer_status_map = [(1, ''other''), (2, ''unknown''), (3, ''idle''), (4, ''printing''), (5, ''warmup'')]"

definition status_text :: "snmp_device \<Rightarrow> string" where
  "status_text dev =
     (case sn_walk dev OID_PRINTER_STATUS_BASE of
        [] \<Rightarrow> ''unknown''
      | row # _ \<Rightarrow> (case Option.bind (u_int (snd row)) (map_of printer_status_map) of None \<Rightarrow> ''unknown'' | Some t \<Rightarrow> t))"

definition read_page_count :: "snmp_device \<Rightarrow> int option" where
  "read_page_count dev =
     (let counts = List.map_filter (\<lambda>(_, v). u_int v) (sn_walk dev OID_MARKER_LIFE_COUNT);
          best = (if counts = [] then 0 else Max (set counts))
      in if 0 < best then Some best else None)"

definition imprecise :: "toner_level \<Rightarrow> bool" where
  "imprecise t \<longleftrightarrow> tl_level_pct t = Some (-3) \<or> tl_level_pct t = Some (-2) \<or> tl_level_pct t = None"

definition find_toners :: "snmp_device \<Rightarrow> web_panel \<Rightarrow> string option \<Rightarrow> toner_level list" where
  "find_toners dev web vendor =
     (let t1 = get_standard_toners dev;
          t2 = (if t1 \<noteq> [] \<and> vendor = Some ''ricoh'' \<and> list_all imprecise t1 then get_ricoh_toners dev t1 else t1);
          t3 = (if t2 = [] \<and> vendor = Some ''brother'' then get_brother_toners dev else t2)
      in if t3 = [] then get_toners_via_http web else t3)"

text \<open>\<open>pd_snmp\<close> is \<open>None\<close> when no SNMP target can be made of the address.\<close>

definition poll_printer :: "printer_device \<Rightarrow> snmp_status" where
  "poll_printer pd =
     (case pd_snmp pd of
        None \<Rightarrow> down_status ''unreachable''
      | Some dev \<Rightarrow>
          (case sn_get dev OID_SYS_DESCR of
             None \<Rightarrow>
               if \<not> pd_tcp pd then down_status ''offline''
               else (let toners = get_toners_via_http (pd_web pd)
                     in fold store_toner toners ((down_status (if toners \<noteq> [] then ''online (HTTP)'' else ''online (no SNMP)''))
                          \<lparr>st_is_online := True, ss_toners := toners\<rparr>))
           | Some descr \<Rightarrow>
               (let vendor = detect_vendor descr; toners = find_toners dev (pd_web pd) vendor
                in fold store_toner toners ((down_status (status_text dev))
                     \<lparr>st_is_online := True, ss_toners := toners, ss_sys_description := Some descr, ss_vendor := vendor,
                       st_page_count := read_page_count dev\<rparr>))))"

definition poll_printer_light :: "printer_device \<Rightarrow> snmp_status" where
  "poll_printer_light pd =
     (case pd_snmp pd of
        None \<Rightarrow> down_status ''unreachable''
      | Some dev \<Rightarrow>
          (case sn_get dev OID_SYS_DESCR of
             Some descr \<Rightarrow> (down_status ''online'')\<lparr>st_is_online := True, ss_sys_description := Some descr, ss_vendor := detect_vendor descr\<rparr>
           | None \<Rightarrow> if pd_tcp pd then (down_status ''online (no SNMP)'')\<lparr>st_is_online := True\<rparr> else down_status ''offline''))"

subsection \<open>What the levels can be\<close>

definition level_ok :: "int option \<Rightarrow> bool" where
  "level_ok l \<longleftrightarrow> (case l of None \<Rightarrow> True | Some n \<Rightarrow> n = -3 \<or> n = -2 \<or> (0 \<le> n \<and> n \<le> 100))"

definition toners_ok :: "toner_level list \<Rightarrow> bool" where
  "toners_ok ts \<longleftrightarrow> list_all (\<lambda>t. level_ok (tl_level_pct t)) ts"

named_theorems toner_facts \<open>the levels of every strategy are in range\<close>

lemma clamp_ok [simp]: "level_ok (Some (clamp_pct n))"
  by (simp add: level_ok_def clamp_pct_def)

lemma mem_map_filter_toners: "list_all P (List.map_filter f xs) \<longleftrightarrow> (\<forall>x \<in> set xs. case f x of None \<Rightarrow> True | Some y \<Rightarrow> P y)"
  by (induction xs) (auto split: option.splits)

lemma level_pct_ok: "level_ok (level_pct c m)"
  by (simp add: level_pct_def) (simp add: level_ok_def)

lemma standard_toner_ok: "case standard_toner n types maxs levels colorant row of None \<Rightarrow> True | Some t \<Rightarrow> level_ok (tl_level_pct t)"
  by (cases row) (simp add: standard_toner_def Let_def level_pct_ok)

lemma standard_ok [toner_facts]: "toners_ok (get_standard_toners dev)"
  unfolding toners_ok_def get_standard_toners_def Let_def mem_map_filter_toners by (intro ballI standard_toner_ok)

lemma brother_ok [toner_facts]: "toners_ok (get_brother_toners dev)"
  by (auto simp: toners_ok_def get_brother_toners_def Let_def list_all_iff level_ok_def clamp_pct_def split: option.splits)

lemma ricoh_toner_ok: "case ricoh_toner n descriptions row of None \<Rightarrow> True | Some t \<Rightarrow> level_ok (tl_level_pct t)"
  by (cases row) (auto simp: ricoh_toner_def Let_def level_ok_def clamp_pct_def split: option.splits)

lemma ricoh_ok [toner_facts]: "toners_ok ts \<Longrightarrow> toners_ok (get_ricoh_toners dev ts)"
  using ricoh_toner_ok by (auto simp: toners_ok_def get_ricoh_toners_def Let_def mem_map_filter_toners)

lemma level_ok_if: "level_ok (cs_pct a) \<Longrightarrow> level_ok (cs_pct b) \<Longrightarrow> level_ok (cs_pct (if c then a else b))"
  by simp

lemma level_ok_case:
  "level_ok (cs_pct b) \<Longrightarrow> (\<And>x. level_ok (cs_pct (f x))) \<Longrightarrow> level_ok (cs_pct (case y of None \<Rightarrow> b | Some x \<Rightarrow> f x))"
  by (cases y) simp_all

lemma read_field_ok: "level_ok (cs_pct s) \<Longrightarrow> level_ok (cs_pct (read_consumable_field s e))"
  unfolding read_consumable_field_def Let_def
  by (intro level_ok_if level_ok_case) simp_all

lemma consumable_ok: "case consumable_toner e of None \<Rightarrow> True | Some t \<Rightarrow> level_ok (tl_level_pct t)"
proof -
  have "level_ok (cs_pct (fold (\<lambda>c s. read_consumable_field s c) cs s))" if "level_ok (cs_pct s)" for cs s
    using that by (induction cs arbitrary: s) (auto intro: read_field_ok)
  then have "level_ok (cs_pct (fold (\<lambda>c s. read_consumable_field s c) (xml_iter e) \<lparr>cs_color = None, cs_pct = None, cs_desc = [], cs_is = False\<rparr>))"
    by (simp add: level_ok_def)
  then show ?thesis unfolding consumable_toner_def Let_def
    by (simp split: option.splits bool.splits) metis
qed

lemma xml_ok [toner_facts]: "toners_ok (parse_hp_consumable_xml doc)"
  using consumable_ok by (fastforce simp: toners_ok_def parse_hp_consumable_xml_def mem_map_filter_toners split: option.splits)

text \<open>A number read off a page has no sign.\<close>

lemma fold_digits_nonneg: "\<forall>d \<in> set ds. u_digit d \<Longrightarrow> 0 \<le> v \<Longrightarrow> 0 \<le> fold (\<lambda>d v. v * 10 + (int d - 48)) ds v"
  by (induction ds arbitrary: v) (auto simp: u_digit_def)

lemma pct_at_nonneg: "pct_at n s = Some (v, r) \<Longrightarrow> 0 \<le> v"
  using fold_digits_nonneg [of "takeWhile u_digit s" 0]
  by (auto simp: pct_at_def Let_def dest: set_takeWhileD split: if_splits list.splits)

lemma lazily_hit: "lazily n f s = Some x \<Longrightarrow> \<exists>t. f t = Some x"
  by (induction n f s rule: lazily.induct) (auto split: option.splits list.splits)

lemma pct_within_nonneg: "pct_within s = Some (v, r) \<Longrightarrow> 0 \<le> v"
  by (auto simp: pct_within_def dest!: lazily_hit pct_at_nonneg split: list.splits)

lemma giving_back_nonneg: "giving_back n s = Some (v, r) \<Longrightarrow> 0 \<le> v"
  by (induction n s rule: giving_back.induct) (auto dest: pct_within_nonneg split: option.splits)

lemma first_of_hit: "first_of f xs = Some y \<Longrightarrow> \<exists>x. f x = Some y"
  by (induction xs) (auto split: option.splits)

lemma bind_map_hit:
  "Option.bind x (\<lambda>r. map_option (\<lambda>(pct, rest). ((c, pct), rest)) (f r)) = Some ((d, v), rest) \<Longrightarrow> \<exists>r. f r = Some (v, rest)"
  by (cases x) auto

lemma color_pct_nonneg:
  assumes "color_pct s = Some ((c, v), r)"
  shows "0 \<le> v"
proof -
  have pick: "or_some x y = Some z \<Longrightarrow> x = Some z \<or> y = Some z" for x y :: "'x option" and z
    by (auto simp: or_some_def split: option.splits)
  from pick [OF assms [unfolded color_pct_def]] show ?thesis
  proof
    assume "first_of (\<lambda>c. Option.bind (after_word (cp c) s) (\<lambda>r. map_option (\<lambda>(pct, rest). ((c, pct), rest)) (pct_within r))) plain_colors
      = Some ((c, v), r)"
    from first_of_hit [OF this] show ?thesis by (auto dest!: bind_map_hit pct_within_nonneg)
  next
    assume "first_of (\<lambda>(w, c). Option.bind (after_word w s)
        (\<lambda>r. map_option (\<lambda>(pct, rest). ((c, pct), rest)) (giving_back (length (takeWhile u_word_cp r)) r))) word_stems = Some ((c, v), r)"
    from first_of_hit [OF this] obtain w c' where
      "Option.bind (after_word w s) (\<lambda>r. map_option (\<lambda>(pct, rest). ((c', pct), rest)) (giving_back (length (takeWhile u_word_cp r)) r)) = Some ((c, v), r)"
      by auto
    from bind_map_hit [OF this] show ?thesis using giving_back_nonneg by blast
  qed
qed

lemma find_all_hit: "x \<in> set (find_all m s) \<Longrightarrow> \<exists>t r. m t = Some (x, r)"
  by (induction m s rule: find_all.induct) (auto split: option.splits if_splits)

lemma first_per_color_subset: "set (first_per_color xs) \<subseteq> set xs"
proof -
  have "set (foldl (\<lambda>acc (c, pct). if c \<in> set (map fst acc) then acc else acc @ [(c, pct)]) acc xs) \<subseteq> set acc \<union> set xs" for acc
    by (induction xs arbitrary: acc) (fastforce split: prod.splits if_splits)+
  from this [of "[]"] show ?thesis by (simp add: first_per_color_def)
qed

lemma html_toners_ok: "(\<And>c v. (c, v) \<in> set xs \<Longrightarrow> level_ok (Some (f v))) \<Longrightarrow> toners_ok (map (\<lambda>(c, v). html_toner c (f v)) xs)"
  by (auto simp: toners_ok_def list_all_iff html_toner_def)

lemma html_ok [toner_facts]: "toners_ok (parse_hp_supplies_html text)"
proof -
  have nonneg: "0 \<le> v" if "(c, v) \<in> set (find_all color_pct text)" for c v
    using find_all_hit [OF that] color_pct_nonneg by blast
  have range: "0 \<le> v \<and> v \<le> 100" if "(c, v) \<in> set (first_per_color (filter (\<lambda>(c, pct). pct \<le> 100) (find_all color_pct text)))" for c v
  proof -
    have "(c, v) \<in> set (filter (\<lambda>(c, pct). pct \<le> 100) (find_all color_pct text))" using that first_per_color_subset by (rule subsetD [rotated])
    then have "(c, v) \<in> set (find_all color_pct text)" "v \<le> 100" by simp_all
    with nonneg show ?thesis by blast
  qed
  have low: "level_ok (Some v)" if "(c, v) \<in> set (first_per_color (filter (\<lambda>(c, pct). pct \<le> 100) (find_all color_pct text)))" for c v
    using range [OF that] by (simp add: level_ok_def)
  show ?thesis unfolding parse_hp_supplies_html_def Let_def by (rule if_split [THEN iffD2]) (intro conjI impI html_toners_ok low clamp_ok)
qed

lemma page_ok [toner_facts]: "toners_ok (toners_in_page web data)"
  by (auto simp: toners_in_page_def Let_def toners_ok_def [of "[]"] intro: toner_facts)

lemma http_ok [toner_facts]: "toners_ok (get_toners_via_http web)"
proof -
  have "toners_ok (first_page web paths)" for paths
    by (induction paths) (auto simp: toners_ok_def [of "[]"] split: option.splits intro: toner_facts)
  then show ?thesis unfolding get_toners_via_http_def .
qed

lemma find_toners_ok [toner_facts]: "toners_ok (find_toners dev web vendor)"
  by (auto simp: find_toners_def Let_def intro: toner_facts)

definition levels_ok :: "snmp_status \<Rightarrow> bool" where
  "levels_ok s \<longleftrightarrow> level_ok (st_toner_black s) \<and> level_ok (st_toner_cyan s) \<and> level_ok (st_toner_magenta s) \<and> level_ok (st_toner_yellow s)"

lemma store_toners_ok: "toners_ok ts \<Longrightarrow> levels_ok s \<Longrightarrow> levels_ok (fold store_toner ts s)"
  by (induction ts arbitrary: s) (auto simp: toners_ok_def levels_ok_def store_toner_def)

lemma store_toners_other:
  "st_is_online (fold store_toner ts s) = st_is_online s" "st_page_count (fold store_toner ts s) = st_page_count s"
  by (induction ts arbitrary: s) (auto simp: store_toner_def)

text \<open>C31: Whatever a printer answers, to SNMP requests of any of the vendors' tables or on its web pages, each toner level of a full
  poll is unknown, one of the two marks for an imprecise level (-3, -2), or a percentage from 0 to 100, and the page counter is
  positive or unknown.\<close>

theorem toner_levels_are_percentages:
  "levels_ok (poll_printer pd) \<and> (case st_page_count (poll_printer pd) of None \<Rightarrow> True | Some n \<Rightarrow> 0 < n)"
proof -
  have base: "levels_ok ((down_status t)\<lparr>st_is_online := b, ss_toners := ts, ss_sys_description := d, ss_vendor := v, st_page_count := n\<rparr>)"
    "levels_ok ((down_status t)\<lparr>st_is_online := b, ss_toners := ts\<rparr>)" "levels_ok (down_status t)" for t b ts d v n
    by (simp_all add: levels_ok_def down_status_def level_ok_def)
  have "levels_ok (poll_printer pd)"
    by (auto simp: poll_printer_def Let_def base split: option.splits intro!: store_toners_ok toner_facts)
  moreover have "case st_page_count (poll_printer pd) of None \<Rightarrow> True | Some n \<Rightarrow> 0 < n"
    by (auto simp: poll_printer_def Let_def store_toners_other down_status_def read_page_count_def split: option.splits if_splits)
  ultimately show ?thesis by blast
qed

text \<open>The light poll, which runs between the full ones, and the full poll agree on whether the printer is online.\<close>

lemma light_poll_agrees: "st_is_online (poll_printer_light pd) = st_is_online (poll_printer pd)"
  by (auto simp: poll_printer_light_def poll_printer_def Let_def store_toners_other down_status_def split: option.splits)

text \<open>A supply whose capacity the printer tells and whose level it does not is reported as empty (0 per cent), not as unknown.\<close>

lemma unread_level_counts_as_empty:
  assumes "(oid, desc) \<in> set (marker_descriptions dev)" "key = extract_supply_key oid"
    and "sn_walk dev OID_MARKER_LEVEL \<noteq> []" "\<forall>row \<in> set (sn_walk dev OID_MARKER_LEVEL). extract_supply_key (fst row) \<noteq> key"
    and "is_toner_supply desc (Option.bind (by_key (sn_walk dev OID_MARKER_TYPE) key) u_int)"
    and "0 < int_at (by_key (sn_walk dev OID_MARKER_MAX)) key"
  shows "\<exists>t \<in> set (get_standard_toners dev). tl_description t = desc \<and> tl_level_pct t = Some 0"
proof -
  have "by_key (sn_walk dev OID_MARKER_LEVEL) key = None"
    using assms(4) by (auto simp: by_key_def map_of_eq_None_iff image_iff)
  then have "int_at (by_key (sn_walk dev OID_MARKER_LEVEL)) key = 0" by (simp add: int_at_def)
  moreover have "level_pct 0 m = Some 0" if "0 < m" for m
    using that by (simp add: level_pct_def clamp_pct_def round_half_even_def)
  ultimately show ?thesis using assms
    by (force simp: get_standard_toners_def Let_def List.map_filter_def standard_toner_def image_iff)
qed

end
