(* ===== verification/Spec2Isabelle.thy ===== *)
theory Spec2Isabelle
  imports Poll_Resilience Reachability Mac_Rediscovery Computer_Stale Media_Polling Printer_Polling Cartridge_Demand Worker_Tasks
    Honest_Sign Ml_Pipeline Remote_Access Push_Races Switch_Api Identity Device_Poll Smart_Search Onec_Exchange
    Inventory_Laws Inventory_Races Printer_Snmp
begin

text \<open>
  \<^bold>\<open>InfraScope: the backend that watches and operates the IT inventory of a chain of stores.\<close>

  A FastAPI process serves the API and Celery workers do the periodic work: they poll printers, media
  players, network switches, computers and cash registers, keep the rows of the database true, rediscover
  devices that changed their address, keep the cartridge journal and stock, forecast toner, check the
  Honest Sign modules of the registers, operate live switches (power-cycling access points and cameras, clearing
  DHCP tables, writing ports), mirror and roll out RustDesk, and exchange barcodes with 1C. The theories model this
  core logic; all paths below are under src/.

  \<^bold>\<open>How the parts interact.\<close> Every bulk poller takes a lock in Redis, skips entities whose circuit breaker is
  open, probes the others (Reachability or a vendor protocol), recognises that a whole subnet went dark as a
  path failure, passes each outcome through the debounce of Poll_Resilience, updates the rows and the event
  log, and hands offline rows to MAC rediscovery, which may move them to a new address. The printer poller
  also feeds the cartridge journal; the pollers write the snapshots the forecasting reads; the journal, the
  stock and the forecasts meet in the cartridge demand. The live switch operations run under the lease of
  the worker tasks or the write lock of the switch routes, over the Cisco client. The inventory routes edit the rows the
  pollers read; the remote access mirror follows those rows and the RustDesk console, and pushes clients over WinRM.

  \<^bold>\<open>Theories, and what each group of lemmas shows.\<close>
  \<^item> Prelude: strings (ASCII as char lists, other text as code points, \<open>ustr\<close>), Python's str methods and int(), dicts
    in insertion order, loops over rows with a state and effects, rows of a table by key, event log rows and effects.
  \<^item> Redis_Api: the Redis client calls as a record of functions over a server state, the documented laws as
    hypotheses, concrete servers for the witnesses, one of them with keys that run out of time.
  \<^item> Check_Then_Write: the locale of what a table guarantees when any number of requests are between a check and
    the write that rests on it: a key with one holder and no write announced keeps that holder.
  \<^item> Poll_Resilience (app/services/poll_resilience.py): the debounce and circuit breaker. A run through Redis and the
    row refines the pure debounce machine; offline exactly at the configured number of failures in a row, over any pauses between
    polls and the life of the stored counters; the breaker skips exactly its window; with Redis down every call fails open.
  \<^item> Reachability (app/domains/inventory/reachability.py): the TCP probe, sequential and concurrent: both agree, the
    work is bounded.
  \<^item> Name_Resolution (app/services/hostname_resolver.py): the DNS query and the reading of its answer (with an encoder of well-formed
    answers as the other side), the system resolver, the caches. Ttl_Cache (app/core/bounded_cache.py): the process-local cache.
  \<^item> Device_Poll (app/services/device_poll.py, mac_lookup.py, net_inventory.py): one device's poll, NetBIOS, ARP; the NetBIOS parser
    misreads every positive answer.
  \<^item> Mac_Rediscovery (app/services/mac_rediscovery.py, switch_mac_lookup.py, device_poll.py): every match is backed by an
    ARP reading or a switch table; the switches' tables win over the ping sweep.
  \<^item> Bulk_Poll, Host_Polling, Computer_Stale, Relocation, Switch_Polling, Media_Polling, Printer_Polling (app/domains/inventory,
    app/domains/operations/cash_register_polling.py): the pollers. The locales \<open>debounced_poller\<close> (what one polled row
    owes to the debounce) and \<open>relocator\<close> (what moving offline rows keeps) are interpreted on each poller that has
    the contract, \<open>poll_outcome_contract\<close> on the Redis-backed outcome, \<open>mac_normaliser\<close> on the MAC text. A full poll is rowwise;
    unpolled and suspect rows are untouched; identities are kept; a grace period keeps the row.
  \<^item> Printer_Snmp (app/services/snmp): the values a printer reports, the vendors' toner strategies and the scraped status
    pages; every level that leaves it is a percentage.
  \<^item> Cartridge_Journal, Cartridge_Stock, Cartridge_Demand (app/domains/inventory/cartridge_journal.py,
    app/services/cartridge_*.py): swaps are detected exactly, the journal stays linked, the stock is the sum of its
    movements and never negative, a reconciliation makes it the document, demand is summed per cartridge.
  \<^item> Inventory_Schemas, Inventory_Api, Inventory_Laws, Inventory_Races (app/api/routes/printers.py, media_players.py, computers.py,
    cash_registers.py, switches/crud.py and their schemas): validators, then create, edit, delete, poll and list. The locale
    \<open>unique_key\<close> is what the routes of a table promise one request at a time, \<open>checked_table\<close> (a \<open>check_then_write\<close>) what is left
    of it for printers and computers when requests overlap. A machine can be deleted, a scanned switch never.
  \<^item> Smart_Search (app/services/smart_search.py): the filter built for the database and the search of texts, over look-alike letters.
  \<^item> Ap_Registry, Ap_Auto_Reboot (app/domains/inventory/ap_registry.py, ap_auto_reboot.py): what a cycle power-cycles, in
    which order and mode; the verification loop ends (a measure on the remaining seconds); streaks escalate once.
  \<^item> Regex, Ipv4: Python's re (a backtracking matcher, total by a lexicographic measure) and ipaddress (32-bit words).
  \<^item> Cisco_Parsers, Cisco_Session, Cisco_Client (app/services/cisco_ssh): the tables a switch prints, the SSH session (connect, retry,
    enable, paging), and the client's operations: scans, power cycles one port at a time with recovery, ARP maps.
  \<^item> Switch_Ports, Switch_Locks, Switch_Api (app/services/switches, app/api/routes/switches): providers and port snapshots; the write
    lock, its renewal and the cooldown; the routes. No write reaches a switch whose lock another holds; a throttled
    write leaves the lock behind; the reboot cycle tells an unreachable switch from one without access points.
  \<^item> Cisco_Dhcp, Dhcp_Clear (app/services/cisco_dhcp.py, app/domains/inventory/dhcp_clear.py): parsers of switch output, the
    DHCP role, the clear plan and its run. No output of a switch makes a plan contain anything but two fixed
    shapes of command; a run sends a prefix of its plan; VLAN lists read back.
  \<^item> Worker_Lease, Worker_Tasks (app/worker/tasks.py): the two Lua scripts, the lease, and a step relation that interleaves
    deliveries, ends, crashes, lost connections and time. By rule induction: at most one live run per switch and
    task while its lock lasts, two attempts of a cycle are apart, no crash blocks a switch for good. The switch
    tasks do nothing without the lease and the gates.
  \<^item> Http, Console_Api, Rustdesk_Client (app/domains/remote_access/rustdesk_client.py): JSON and HTTP answers, and the client of the
    RustDesk console with its minted token: when a rejected token is replaced, and that a configured one is final.
  \<^item> Remote_Devices, Remote_Inventory, Remote_Console, Remote_Book, Remote_Push, Remote_Access (app/domains/remote_access,
    app/api/routes/remote_access*.py): the device rows, the mirror of the inventory and of the console, the shared address
    book, the rollout and the push queue, the routes and the periodic sync. A machine removed on purpose is never taken back;
    one row per machine; the fleet password is served to managed machines at their own address only.
  \<^item> Push_Races: the push queue with every read and every commit a step of its own (a step relation over what is in flight).
    A busy device is not queued again and a closed push stays closed, but for requests already past their check; examples of both
    exceptions.
  \<^item> Identity (app/core/security.py, crypto.py, app/api/deps.py, routes auth.py and users.py): passwords, tokens and their blacklist, users, secrets at rest. A
    history of requests (refreshes under way included) takes no revocation back; rights come from superusers only; a secret
    survives the loss of its key.
  \<^item> Honest_Sign (app/services/honest_sign.py): targets, overrides (addresses stay apart), links to registers
    (unambiguous), the alert latch (exact over any history), initialization.
  \<^item> Onec_Exchange (app/services/onec_exchange.py): the barcode exchange with 1C, register by register, over a logged transport.
  \<^item> Toner_Forecast, Ml_Pipeline (app/ml): daily readings cut into cartridge lives at the refills, the Theil-Sen rate, pooled
    priors, the forecast band, the backtest, the registry and its activation rule, scoring, and pruning in batches
    (ends because every full batch deletes a row, and equals the one-shot deletion).

  \<^bold>\<open>Conventions.\<close> A record is a database row or a dataclass with the source's fields (prefixed by the type's
  initials); a list of rows is a table in reading order; a result with effects lists the event log rows,
  counters, snapshots and commits in the order of the code. An exception is \<open>None\<close>, \<open>Inl\<close> or a constructor. Instants are
  seconds (microseconds where tokens are concerned), one instant per run unless the code's order of clock readings
  matters. Message texts are constructors with the values they show. Floats are exact rationals. What is outside the
  repository (Redis, the SSH session, the RustDesk console, WinRM, SNMP, sockets, HTTP answers, name resolution, the libraries
  for passwords and tokens) is an argument, a function of what was sent before where its answers depend on it; what the code relies on is a
  named hypothesis (\<open>redis_ok\<close>, \<open>redis_aging_ok\<close>, \<open>script_ok\<close>, \<open>store_ok\<close>, \<open>accepting_console\<close>) with a concrete instance that satisfies it. A request that waits
  for the network gets the tables at both ends of the wait; the theories on races split it further, at each
  commit. A database session is its committed and its working rows. No fuel is used: every loop is structural or has a measure.

  \<^bold>\<open>Not modelled.\<close> The media center, signage players, QR codes and boarding passes; stored credentials; the flow map, the
  settings page and the entity cache; configuration, database and Redis set-up, process entry points and schedules;
  metrics and tracing; the wire protocols (sockets, SSH, SNMP, WinRM) below their parsers; the scripts the endpoints run;
  the Go media agent, the frontend, the migrations and the tests. Each is listed in the manifest with its reason.
\<close>

end
